(* ===== verification/Prelude.thy ===== *)
theory Prelude
  imports Main "HOL-Library.Word" "HOL-Library.Sublist" "HOL-Library.AList"
begin

unbundle bit_operations_syntax

text \<open>
  The shared ground of the development: the result type of fallible Go functions, the parts of
  the Go library the sources call on strings (a Go string is a byte sequence, so it is a
  \<^typ>\<open>string\<close>, a list of 8-bit characters), UTF-8 decoding as \<open>range\<close> over a string performs
  it, big-endian integers, and the generic lemmas on lists and maps that the component theories
  use.  The collections \<open>go_string\<close> and \<open>wire\<close> gather the rewrite rules for string functions
  and for binary encodings.
\<close>

named_theorems go_string \<open>rewrite rules for the functions of package strings\<close>
named_theorems wire \<open>rewrite rules for binary encodings\<close>

section \<open>Results\<close>

text \<open>A Go function that returns a value and an error: \<open>Inl\<close> carries the error.\<close>

type_synonym ('e, 'a) result = "'e + 'a"

definition is_ok :: "('e, 'a) result \<Rightarrow> bool" where
  "is_ok r = (case r of Inl _ \<Rightarrow> False | Inr _ \<Rightarrow> True)"

lemma is_ok_simps [simp]: "is_ok (Inr v)" "\<not> is_ok (Inl e)"
  by (simp_all add: is_ok_def)

lemma is_ok_iff: "is_ok r \<longleftrightarrow> (\<exists>v. r = Inr v)"
  by (cases r) auto

definition bind_result :: "('e, 'a) result \<Rightarrow> ('a \<Rightarrow> ('e, 'b) result) \<Rightarrow> ('e, 'b) result" where
  "bind_result r f = (case r of Inl e \<Rightarrow> Inl e | Inr v \<Rightarrow> f v)"

lemma bind_result_simps [simp]:
  "bind_result (Inl e) f = Inl e"
  "bind_result (Inr v) f = f v"
  by (simp_all add: bind_result_def)

lemma bind_result_Inr_iff:
  "bind_result r f = Inr v \<longleftrightarrow> (\<exists>u. r = Inr u \<and> f u = Inr v)"
  by (cases r) auto

section \<open>Package strings\<close>

text \<open>\<open>strings.IndexByte\<close>; \<open>None\<close> is the Go result -1.\<close>

fun index_byte :: "string \<Rightarrow> char \<Rightarrow> nat option" where
  "index_byte [] c = None"
| "index_byte (x # xs) c = (if x = c then Some 0 else map_option Suc (index_byte xs c))"

lemma index_byte_None_iff: "index_byte s c = None \<longleftrightarrow> c \<notin> set s"
  by (induction s) auto

lemma index_byte_None [go_string]: "c \<notin> set s \<Longrightarrow> index_byte s c = None"
  by (simp add: index_byte_None_iff)

lemma index_byte_append [go_string]:
  "c \<notin> set xs \<Longrightarrow> index_byte (xs @ c # ys) c = Some (length xs)"
  by (induction xs) auto

lemma index_byte_SomeD:
  "index_byte s c = Some i \<Longrightarrow>
     i < length s \<and> s ! i = c \<and> c \<notin> set (take i s) \<and> s = take i s @ c # drop (Suc i) s"
proof (induction s arbitrary: i)
  case Nil
  then show ?case by simp
next
  case (Cons x xs)
  show ?case
  proof (cases "x = c")
    case True
    with Cons.prems show ?thesis by simp
  next
    case False
    with Cons.prems obtain j where "index_byte xs c = Some j" and "i = Suc j"
      by auto
    with Cons.IH [of j] False show ?thesis by simp
  qed
qed

text \<open>\<open>strings.Split\<close> at a one-byte separator: always at least one part.\<close>

fun split_byte :: "char \<Rightarrow> string \<Rightarrow> string list" where
  "split_byte c [] = [[]]"
| "split_byte c (x # xs) =
     (if x = c then [] # split_byte c xs
      else (case split_byte c xs of [] \<Rightarrow> [[x]] | p # ps \<Rightarrow> (x # p) # ps))"

lemma split_byte_not_Nil [simp]: "split_byte c s \<noteq> []"
  by (induction s) (auto split: list.splits)

lemma split_byte_no_sep [go_string]: "c \<notin> set s \<Longrightarrow> split_byte c s = [s]"
  by (induction s) auto

lemma split_byte_append [go_string]:
  "c \<notin> set p \<Longrightarrow> split_byte c (p @ c # s) = p # split_byte c s"
  by (induction p) auto

lemma split_byte_parts: "p \<in> set (split_byte c s) \<Longrightarrow> c \<notin> set p"
proof (induction s arbitrary: p)
  case Nil
  then show ?case by simp
next
  case (Cons x xs)
  show ?case
  proof (cases "x = c")
    case True
    with Cons show ?thesis by auto
  next
    case False
    obtain q qs where qs: "split_byte c xs = q # qs"
      by (cases "split_byte c xs") auto
    with Cons.prems False have "p = x # q \<or> p \<in> set qs" by auto
    with Cons.IH qs False show ?thesis by auto
  qed
qed

text \<open>
  \<open>strings.NewReplacer\<close>: at each position the first pair, in argument order, whose old string
  is a prefix of the rest is replaced and the scan goes on behind it.
\<close>

fun find_old :: "(string \<times> string) list \<Rightarrow> string \<Rightarrow> (string \<times> string) option" where
  "find_old [] s = None"
| "find_old ((old, new) # ps) s = (if old \<noteq> [] \<and> prefix old s then Some (old, new) else find_old ps s)"

lemma find_old_SomeD: "find_old ps s = Some (old, new) \<Longrightarrow> old \<noteq> [] \<and> prefix old s"
  by (induction ps) (auto split: if_splits)

function replace_pairs :: "(string \<times> string) list \<Rightarrow> string \<Rightarrow> string" where
  "replace_pairs ps [] = []"
| "replace_pairs ps (c # s) =
     (case find_old ps (c # s) of
        None \<Rightarrow> c # replace_pairs ps s
      | Some (old, new) \<Rightarrow> new @ replace_pairs ps (drop (length old) (c # s)))"
  by pat_completeness auto
termination
proof (relation "measure (\<lambda>(ps, s). length s)", goal_cases)
  case (3 ps c s p old new)
  then show ?case by (auto dest!: find_old_SomeD)
qed auto

section \<open>UTF-8\<close>

text \<open>
  \<open>utf8.DecodeRune\<close> on bytes given as natural numbers: the rune and its width.  An invalid
  encoding is the replacement character with width 1.
\<close>

definition rune_error :: nat where
  "rune_error = 0xFFFD"

definition cont_byte :: "nat \<Rightarrow> bool" where
  "cont_byte b \<longleftrightarrow> 0x80 \<le> b \<and> b \<le> 0xBF"

definition second_of_three :: "nat \<Rightarrow> nat \<Rightarrow> bool" where
  "second_of_three b0 b1 \<longleftrightarrow>
     (if b0 = 0xE0 then 0xA0 else 0x80) \<le> b1 \<and> b1 \<le> (if b0 = 0xED then 0x9F else 0xBF)"

definition second_of_four :: "nat \<Rightarrow> nat \<Rightarrow> bool" where
  "second_of_four b0 b1 \<longleftrightarrow>
     (if b0 = 0xF0 then 0x90 else 0x80) \<le> b1 \<and> b1 \<le> (if b0 = 0xF4 then 0x8F else 0xBF)"

fun decode_rune :: "nat list \<Rightarrow> nat \<times> nat" where
  "decode_rune [] = (rune_error, 0)"
| "decode_rune (b0 # bs) =
     (if b0 < 0x80 then (b0, 1)
      else if 0xC2 \<le> b0 \<and> b0 \<le> 0xDF then
        (case bs of
           b1 # _ \<Rightarrow> if cont_byte b1 then ((b0 - 0xC0) * 64 + (b1 - 0x80), 2) else (rune_error, 1)
         | _ \<Rightarrow> (rune_error, 1))
      else if 0xE0 \<le> b0 \<and> b0 \<le> 0xEF then
        (case bs of
           b1 # b2 # _ \<Rightarrow>
             if second_of_three b0 b1 \<and> cont_byte b2
             then ((b0 - 0xE0) * 4096 + (b1 - 0x80) * 64 + (b2 - 0x80), 3) else (rune_error, 1)
         | _ \<Rightarrow> (rune_error, 1))
      else if 0xF0 \<le> b0 \<and> b0 \<le> 0xF4 then
        (case bs of
           b1 # b2 # b3 # _ \<Rightarrow>
             if second_of_four b0 b1 \<and> cont_byte b2 \<and> cont_byte b3
             then ((b0 - 0xF0) * 262144 + (b1 - 0x80) * 4096 + (b2 - 0x80) * 64 + (b3 - 0x80), 4)
             else (rune_error, 1)
         | _ \<Rightarrow> (rune_error, 1))
      else (rune_error, 1))"

lemma decode_rune_width: "bs \<noteq> [] \<Longrightarrow> 0 < snd (decode_rune bs)"
  by (cases bs) (auto split: list.splits)

text \<open>\<open>utf8.Valid\<close>, and the runes that \<open>range\<close> over a string visits.\<close>

function valid_utf8 :: "nat list \<Rightarrow> bool" where
  "valid_utf8 bs =
     (if bs = [] then True
      else decode_rune bs \<noteq> (rune_error, 1) \<and> valid_utf8 (drop (snd (decode_rune bs)) bs))"
  by pat_completeness auto
termination
  by (relation "measure length") (simp_all add: decode_rune_width)

function runes :: "nat list \<Rightarrow> nat list" where
  "runes bs =
     (if bs = [] then []
      else fst (decode_rune bs) # runes (drop (snd (decode_rune bs)) bs))"
  by pat_completeness auto
termination
  by (relation "measure length") (simp_all add: decode_rune_width)

declare valid_utf8.simps [simp del] runes.simps [simp del]

text \<open>A valid multi-byte encoding holds no ASCII byte and decodes to no ASCII rune.\<close>

lemma decode_rune_multi:
  assumes "\<not> b0 < 0x80" and "decode_rune (b0 # bs) = (r, w)" and "(r, w) \<noteq> (rune_error, 1)"
  shows "0x80 \<le> r \<and> (\<forall>b \<in> set (take w (b0 # bs)). 0x80 \<le> b)"
proof -
  consider (two) "0xC2 \<le> b0 \<and> b0 \<le> 0xDF" | (three) "0xE0 \<le> b0 \<and> b0 \<le> 0xEF"
    | (four) "0xF0 \<le> b0 \<and> b0 \<le> 0xF4"
    | (none) "\<not> (0xC2 \<le> b0 \<and> b0 \<le> 0xDF)" "\<not> (0xE0 \<le> b0 \<and> b0 \<le> 0xEF)"
        "\<not> (0xF0 \<le> b0 \<and> b0 \<le> 0xF4)"
    by blast
  then show ?thesis
  proof cases
    case two
    with assms obtain b1 cs where "bs = b1 # cs" "cont_byte b1" "w = 2"
        "r = (b0 - 0xC0) * 64 + (b1 - 0x80)"
      by (auto split: list.splits if_splits)
    with two show ?thesis by (auto simp: cont_byte_def numeral_2_eq_2)
  next
    case three
    with assms obtain b1 b2 cs where "bs = b1 # b2 # cs" "second_of_three b0 b1" "cont_byte b2"
        "w = 3" "r = (b0 - 0xE0) * 4096 + (b1 - 0x80) * 64 + (b2 - 0x80)"
      by (auto split: list.splits if_splits)
    with three show ?thesis
      by (auto simp: cont_byte_def second_of_three_def numeral_3_eq_3 split: if_splits)
  next
    case four
    with assms obtain b1 b2 b3 cs where "bs = b1 # b2 # b3 # cs" "second_of_four b0 b1"
        "cont_byte b2" "cont_byte b3" "w = 4"
        "r = (b0 - 0xF0) * 262144 + (b1 - 0x80) * 4096 + (b2 - 0x80) * 64 + (b3 - 0x80)"
      by (auto split: list.splits if_splits)
    with four show ?thesis
      by (auto simp: cont_byte_def second_of_four_def take_Cons' split: if_splits)
  next
    case none
    with assms show ?thesis by auto
  qed
qed

lemma decode_rune_ascii:
  assumes "bs \<noteq> []" and "decode_rune bs \<noteq> (rune_error, 1)" and "c < 0x80"
  shows "c = fst (decode_rune bs) \<longleftrightarrow> c \<in> set (take (snd (decode_rune bs)) bs)"
proof -
  obtain b0 cs where bs: "bs = b0 # cs" using assms(1) by (cases bs) auto
  obtain r w where rw: "decode_rune bs = (r, w)" by fastforce
  show ?thesis
  proof (cases "b0 < 0x80")
    case True
    with bs show ?thesis by simp
  next
    case False
    from decode_rune_multi [OF this] bs rw assms(2)
    have "0x80 \<le> r" and "\<forall>b \<in> set (take w bs). 0x80 \<le> b" by auto
    with assms(3) rw show ?thesis by auto
  qed
qed

text \<open>In a valid string the ASCII runes are the ASCII bytes.\<close>

lemma runes_ascii:
  assumes "valid_utf8 bs" and "c < 0x80"
  shows "c \<in> set (runes bs) \<longleftrightarrow> c \<in> set bs"
  using assms(1)
proof (induction bs rule: runes.induct)
  case (1 bs)
  show ?case
  proof (cases "bs = []")
    case True
    then show ?thesis by (simp add: runes.simps)
  next
    case False
    let ?w = "snd (decode_rune bs)"
    from "1.prems" False have v: "decode_rune bs \<noteq> (rune_error, 1)" "valid_utf8 (drop ?w bs)"
      by (simp_all add: valid_utf8.simps [of bs])
    have "set bs = set (take ?w bs) \<union> set (drop ?w bs)"
      by (metis append_take_drop_id set_append)
    with "1.IH" [OF False v(2)] decode_rune_ascii [OF False v(1) assms(2)] False show ?thesis
      by (subst runes.simps) auto
  qed
qed

lemmas utf8_eval = valid_utf8.simps runes.simps rune_error_def

definition string_bytes :: "string \<Rightarrow> nat list" where
  "string_bytes s = map of_char s"

lemma in_string_bytes [simp]: "of_char c \<in> set (string_bytes s) \<longleftrightarrow> c \<in> set s"
  by (auto simp: string_bytes_def)

section \<open>Byte slices\<close>

text \<open>
  A \<open>[]byte\<close> is a list of 8-bit words; where the code tells a nil slice from an empty one it is an
  option.  The functions are those of encoding/binary in big-endian order and \<open>copy\<close> into an array of
  fixed size, which truncates and keeps the zero bytes behind a short source.
\<close>

type_synonym bytes = "8 word list"

definition PutUint32 :: "32 word \<Rightarrow> bytes" where
  "PutUint32 v = [ucast (drop_bit 24 v), ucast (drop_bit 16 v), ucast (drop_bit 8 v), ucast v]"

definition Uint32 :: "bytes \<Rightarrow> 32 word" where
  "Uint32 b =
     push_bit 24 (ucast (b ! 0)) OR push_bit 16 (ucast (b ! 1)) OR push_bit 8 (ucast (b ! 2)) OR ucast (b ! 3)"

lemma length_PutUint32 [simp]: "length (PutUint32 v) = 4"
  by (simp add: PutUint32_def)

lemma PutUint32_not_Nil [simp]: "PutUint32 v \<noteq> []"
  by (simp add: PutUint32_def)

lemma Uint32_PutUint32 [wire]: "Uint32 (PutUint32 v @ xs) = v"
proof (rule bit_word_eqI)
  fix n :: nat assume "n < LENGTH(32)"
  then have n: "n < 32" by simp
  consider "n < 8" | "8 \<le> n" "n < 16" | "16 \<le> n" "n < 24" | "24 \<le> n" using n by linarith
  then show "bit (Uint32 (PutUint32 v @ xs)) n = bit v n"
    by cases (use n in \<open>auto simp: Uint32_def PutUint32_def bit_simps\<close>)
qed

lemma Uint32_PutUint32' [wire]: "Uint32 (PutUint32 v) = v"
  using Uint32_PutUint32 [of v "[]"] by simp

lemma PutUint32_Uint32:
  assumes "length b = 4" shows "PutUint32 (Uint32 b) = b"
proof -
  from assms obtain b0 b1 b2 b3 where b: "b = [b0, b1, b2, b3]"
    by (auto simp: numeral_eq_Suc length_Suc_conv)
  show ?thesis unfolding b
    by (auto simp: PutUint32_def Uint32_def intro!: bit_word_eqI)
      (auto simp: bit_simps dest: bit_imp_le_length)
qed

definition copy_to :: "nat \<Rightarrow> bytes \<Rightarrow> bytes" where
  "copy_to n b = take n (b @ replicate n 0)"

lemma length_copy_to [simp]: "length (copy_to n b) = n"
  by (simp add: copy_to_def)

lemma copy_to_exact [simp]: "length b = n \<Longrightarrow> copy_to n b = b"
  by (simp add: copy_to_def)

text \<open>A nil slice used as a slice of length zero.\<close>

definition slice :: "bytes option \<Rightarrow> bytes" where
  "slice b = (case b of None \<Rightarrow> [] | Some bs \<Rightarrow> bs)"

lemma slice_simps [simp]: "slice None = []" "slice (Some b) = b"
  by (simp_all add: slice_def)

section \<open>Go maps with a length\<close>

text \<open>
  Where the code takes \<open>len\<close> of a map or writes its entries out, the map is an association list with
  distinct keys; insertion and deletion are those of \<open>AList\<close>.
\<close>

lemma map_of_AList_update [simp]: "map_of (AList.update k v m) = (map_of m)(k \<mapsto> v)"
  by (simp add: update_conv')

lemma map_of_AList_delete [simp]: "map_of (AList.delete k m) = (map_of m)(k := None)"
  by (simp add: delete_conv')

lemma AList_update_fresh: "map_of m k = None \<Longrightarrow> AList.update k v m = m @ [(k, v)]"
  by (induction m) auto

lemma length_AList_update:
  "length (AList.update k v m) = (if map_of m k = None then Suc (length m) else length m)"
  by (induction m) auto

lemma length_AList_delete_le: "length (AList.delete k m) \<le> length m"
  by (induction m) auto

lemma set_AList_update: "set (AList.update k v m) \<subseteq> insert (k, v) (set m)"
  by (induction m) auto

lemma set_AList_delete: "set (AList.delete k m) \<subseteq> set m"
  by (induction m) auto

section \<open>Loops over maps\<close>

text \<open>The keys of a Go map in the order a \<open>range\<close> loop happens to visit them.\<close>

definition enumerates :: "'k list \<Rightarrow> ('k \<rightharpoonup> 'v) \<Rightarrow> bool" where
  "enumerates ks f \<longleftrightarrow> distinct ks \<and> set ks = dom f"

text \<open>The values the loop sees.\<close>

definition range_values :: "'k list \<Rightarrow> ('k \<rightharpoonup> 'v) \<Rightarrow> 'v list" where
  "range_values ks f = List.map_filter f ks"

lemma range_values_simps [simp]:
  "range_values [] f = []"
  "range_values (k # ks) f = (case f k of None \<Rightarrow> range_values ks f | Some v \<Rightarrow> v # range_values ks f)"
  by (simp_all add: range_values_def List.map_filter_simps split: option.splits)

lemma range_values_empty [simp]: "range_values ks (\<lambda>_. None) = []"
  by (induction ks) simp_all

lemma set_range_values: "set (range_values ks f) = {v. \<exists>k \<in> set ks. f k = Some v}"
  by (induction ks) (auto split: option.splits)

lemma range_values_ran: "enumerates ks f \<Longrightarrow> set (range_values ks f) = ran f"
  by (auto simp: set_range_values enumerates_def ran_def dom_def)

lemma length_range_values: "set ks \<subseteq> dom f \<Longrightarrow> length (range_values ks f) = length ks"
  by (induction ks) auto

section \<open>Random bytes\<close>

text \<open>
  From Go 1.24 on crypto/rand never returns an error (the program is crashed instead), so a draw is a
  byte list; the model cuts or pads it to the length the code asks for, and every outcome of that
  length is the outcome of some draw.
\<close>

definition rand_bytes :: "nat \<Rightarrow> bytes \<Rightarrow> bytes" where
  "rand_bytes n b = copy_to n b"

lemma length_rand_bytes [simp]: "length (rand_bytes n b) = n"
  by (simp add: rand_bytes_def)

lemma rand_bytes_all: "length b = n \<Longrightarrow> rand_bytes n b = b"
  by (simp add: rand_bytes_def)

section \<open>Nested maps\<close>

definition get2 :: "('a \<rightharpoonup> 'b \<rightharpoonup> 'v) \<Rightarrow> 'a \<Rightarrow> 'b \<rightharpoonup> 'v" where
  "get2 m a b = (case m a of None \<Rightarrow> None | Some n \<Rightarrow> n b)"

definition inner :: "('a \<rightharpoonup> 'b \<rightharpoonup> 'v) \<Rightarrow> 'a \<Rightarrow> 'b \<rightharpoonup> 'v" where
  "inner m a = (case m a of None \<Rightarrow> Map.empty | Some n \<Rightarrow> n)"

definition put2 :: "('a \<rightharpoonup> 'b \<rightharpoonup> 'v) \<Rightarrow> 'a \<Rightarrow> 'b \<Rightarrow> 'v \<Rightarrow> ('a \<rightharpoonup> 'b \<rightharpoonup> 'v)" where
  "put2 m a b v = m(a \<mapsto> (inner m a)(b \<mapsto> v))"

definition del2 :: "('a \<rightharpoonup> 'b \<rightharpoonup> 'v) \<Rightarrow> 'a \<Rightarrow> 'b \<Rightarrow> ('a \<rightharpoonup> 'b \<rightharpoonup> 'v)" where
  "del2 m a b = (case m a of None \<Rightarrow> m | Some n \<Rightarrow> m(a \<mapsto> n(b := None)))"

lemma get2_empty [simp]: "get2 Map.empty a b = None"
  by (simp add: get2_def)

lemma inner_get2: "inner m a b = get2 m a b"
  by (simp add: inner_def get2_def split: option.splits)

lemma get2_put2 [simp]: "get2 (put2 m a b v) x y = (if x = a \<and> y = b then Some v else get2 m x y)"
  by (simp add: get2_def put2_def inner_def split: option.splits)

lemma get2_del2 [simp]: "get2 (del2 m a b) x y = (if x = a \<and> y = b then None else get2 m x y)"
  by (auto simp: get2_def del2_def split: option.splits)

end
