(* ===== verification/Jid.thy ===== *)
theory Jid
  imports Prelude
begin

text \<open>
  Package \<open>jid\<close>: XMPP addresses (jid/jid.go).  The struct JID is the record \<open>JID\<close>; \<open>New\<close> and
  \<open>Parse\<close> return the package's sentinel errors; the escaping functions of XEP-0106 are the two
  \<open>strings.Replacer\<close> tables of the source run by \<^const>\<open>replace_pairs\<close>.  The theorems are the
  well-formedness of every address the constructors accept, the parse/print round trip with the
  class of addresses it holds for, and the round trip of the escaping.
\<close>

section \<open>Addresses\<close>

datatype jid_error =
    ErrEmptyJID | ErrInvalidJID | ErrInvalidLocal | ErrInvalidDomain | ErrInvalidResource | ErrTooLong

record JID =
  jid_local :: string
  jid_domain :: string
  jid_resource :: string

definition maxPartLen :: nat where
  "maxPartLen = 1023"

definition zeroJID :: JID where
  "zeroJID = \<lparr>jid_local = [], jid_domain = [], jid_resource = []\<rparr>"

text \<open>The loop \<open>for _, r := range s\<close> of the two validators.\<close>

definition has_at_or_slash :: "string \<Rightarrow> bool" where
  "has_at_or_slash s \<longleftrightarrow> list_ex (\<lambda>r. r = of_char CHR ''@'' \<or> r = of_char CHR ''/'') (runes (string_bytes s))"

definition validLocal :: "string \<Rightarrow> bool" where
  "validLocal s =
     (if s = [] then True
      else if \<not> valid_utf8 (string_bytes s) then False
      else \<not> has_at_or_slash s)"

definition validDomain :: "string \<Rightarrow> bool" where
  "validDomain s =
     (if s = [] then False
      else if \<not> valid_utf8 (string_bytes s) then False
      else if prefix ''['' s \<and> suffix '']'' s then True
      else \<not> has_at_or_slash s)"

definition jid_New :: "string \<Rightarrow> string \<Rightarrow> string \<Rightarrow> (jid_error, JID) result" where
  "jid_New l d r =
     (if d = [] then Inl ErrInvalidDomain
      else if length l > maxPartLen then Inl ErrTooLong
      else if length d > maxPartLen then Inl ErrTooLong
      else if length r > maxPartLen then Inl ErrTooLong
      else if l \<noteq> [] \<and> \<not> validLocal l then Inl ErrInvalidLocal
      else if \<not> validDomain d then Inl ErrInvalidDomain
      else Inr \<lparr>jid_local = l, jid_domain = d, jid_resource = r\<rparr>)"

text \<open>Cutting a string at the first occurrence of a byte: what stands before and behind it.\<close>

definition cut_resource :: "string \<Rightarrow> string \<times> string" where
  "cut_resource s =
     (case index_byte s CHR ''/'' of
        Some i \<Rightarrow> (take i s, drop (i + 1) s)
      | None \<Rightarrow> (s, []))"

definition cut_local :: "string \<Rightarrow> string \<times> string" where
  "cut_local s =
     (case index_byte s CHR ''@'' of
        Some i \<Rightarrow> (take i s, drop (i + 1) s)
      | None \<Rightarrow> ([], s))"

definition jid_Parse :: "string \<Rightarrow> (jid_error, JID) result" where
  "jid_Parse s =
     (if s = [] then Inl ErrEmptyJID
      else
        let (s', resource) = cut_resource s;
            (l, d) = cut_local s'
        in if d = [] then Inl ErrInvalidDomain else jid_New l d resource)"

datatype 'a panics = Returns 'a | Panics jid_error

definition jid_MustParse :: "string \<Rightarrow> JID panics" where
  "jid_MustParse s = (case jid_Parse s of Inl e \<Rightarrow> Panics e | Inr j \<Rightarrow> Returns j)"

definition jid_Bare :: "JID \<Rightarrow> JID" where
  "jid_Bare j = \<lparr>jid_local = jid_local j, jid_domain = jid_domain j, jid_resource = []\<rparr>"

definition jid_IsBare :: "JID \<Rightarrow> bool" where
  "jid_IsBare j \<longleftrightarrow> jid_resource j = []"

definition jid_IsFull :: "JID \<Rightarrow> bool" where
  "jid_IsFull j \<longleftrightarrow> jid_resource j \<noteq> []"

definition jid_IsDomainOnly :: "JID \<Rightarrow> bool" where
  "jid_IsDomainOnly j \<longleftrightarrow> jid_local j = []"

definition jid_Equal :: "JID \<Rightarrow> JID \<Rightarrow> bool" where
  "jid_Equal j k \<longleftrightarrow>
     jid_local j = jid_local k \<and> jid_domain j = jid_domain k \<and> jid_resource j = jid_resource k"

definition jid_String :: "JID \<Rightarrow> string" where
  "jid_String j =
     (if jid_domain j = [] then []
      else (if jid_local j \<noteq> [] then jid_local j @ ''@'' else [])
        @ jid_domain j
        @ (if jid_resource j \<noteq> [] then ''/'' @ jid_resource j else []))"

definition jid_IsZero :: "JID \<Rightarrow> bool" where
  "jid_IsZero j \<longleftrightarrow> jid_domain j = []"

definition jid_WithResource :: "JID \<Rightarrow> string \<Rightarrow> JID" where
  "jid_WithResource j r = \<lparr>jid_local = jid_local j, jid_domain = jid_domain j, jid_resource = r\<rparr>"

definition jid_MarshalText :: "JID \<Rightarrow> string" where
  "jid_MarshalText j = jid_String j"

text \<open>An XML attribute of the Go encoder; an empty name omits the attribute.\<close>

record xml_name =
  Space :: string
  Local :: string

type_synonym xml_attr = "xml_name \<times> string"

definition jid_MarshalXMLAttr :: "JID \<Rightarrow> xml_name \<Rightarrow> xml_attr" where
  "jid_MarshalXMLAttr j name =
     (if jid_IsZero j then (\<lparr>Space = [], Local = []\<rparr>, []) else (name, jid_String j))"

text \<open>\<open>UnmarshalText\<close> writes its receiver only when the text parses.\<close>

definition jid_UnmarshalText :: "JID \<Rightarrow> string \<Rightarrow> JID \<times> jid_error option" where
  "jid_UnmarshalText j data =
     (case jid_Parse data of Inl e \<Rightarrow> (j, Some e) | Inr parsed \<Rightarrow> (parsed, None))"

section \<open>XEP-0106 escaping\<close>

definition backslash :: char where
  "backslash = CHR 0x5C"

definition escapes :: "(char \<times> string) list" where
  "escapes =
     [(backslash, ''5c''), (CHR '' '', ''20''), (CHR 0x22, ''22''), (CHR ''&'', ''26''),
      (CHR 0x27, ''27''), (CHR ''/'', ''2f''), (CHR '':'', ''3a''), (CHR ''<'', ''3c''),
      (CHR ''>'', ''3e''), (CHR ''@'', ''40'')]"

definition escapeReplacer :: "(string \<times> string) list" where
  "escapeReplacer = map (\<lambda>(c, h). ([c], backslash # h)) escapes"

definition unescapeReplacer :: "(string \<times> string) list" where
  "unescapeReplacer =
     [(backslash # ''20'', '' ''), (backslash # ''22'', [CHR 0x22]), (backslash # ''26'', ''&''),
      (backslash # ''27'', [CHR 0x27]), (backslash # ''2f'', ''/''), (backslash # ''3a'', '':''),
      (backslash # ''3c'', ''<''), (backslash # ''3e'', ''>''), (backslash # ''40'', ''@''),
      (backslash # ''5c'', [backslash])]"

definition EscapeLocal :: "string \<Rightarrow> string" where
  "EscapeLocal s = replace_pairs escapeReplacer s"

definition UnescapeLocal :: "string \<Rightarrow> string" where
  "UnescapeLocal s = replace_pairs unescapeReplacer s"

section \<open>Properties\<close>

lemma has_at_or_slash_bytes:
  assumes "valid_utf8 (string_bytes s)"
  shows "has_at_or_slash s \<longleftrightarrow> CHR ''@'' \<in> set s \<or> CHR ''/'' \<in> set s"
proof -
  have at: "of_char CHR ''@'' \<in> set (runes (string_bytes s)) \<longleftrightarrow> CHR ''@'' \<in> set s"
    by (subst runes_ascii [OF assms]) (simp, simp del: of_char_Char)
  have slash: "of_char CHR ''/'' \<in> set (runes (string_bytes s)) \<longleftrightarrow> CHR ''/'' \<in> set s"
    by (subst runes_ascii [OF assms]) (simp, simp del: of_char_Char)
  show ?thesis
    unfolding has_at_or_slash_def list_ex_iff at [symmetric] slash [symmetric] by blast
qed

text \<open>What the constructor guarantees of an address it returns.\<close>

definition plain_domain :: "string \<Rightarrow> bool" where
  "plain_domain d \<longleftrightarrow> CHR ''@'' \<notin> set d \<and> CHR ''/'' \<notin> set d"

definition jid_wf :: "JID \<Rightarrow> bool" where
  "jid_wf j \<longleftrightarrow>
     jid_domain j \<noteq> [] \<and>
     length (jid_local j) \<le> maxPartLen \<and> length (jid_domain j) \<le> maxPartLen \<and>
     length (jid_resource j) \<le> maxPartLen \<and>
     valid_utf8 (string_bytes (jid_local j)) \<and> valid_utf8 (string_bytes (jid_domain j)) \<and>
     CHR ''@'' \<notin> set (jid_local j) \<and> CHR ''/'' \<notin> set (jid_local j) \<and>
     (plain_domain (jid_domain j) \<or> prefix ''['' (jid_domain j) \<and> suffix '']'' (jid_domain j))"

lemma valid_utf8_Nil [simp]: "valid_utf8 []"
  by (simp add: valid_utf8.simps)

lemma validLocal_iff:
  "validLocal s \<longleftrightarrow> valid_utf8 (string_bytes s) \<and> CHR ''@'' \<notin> set s \<and> CHR ''/'' \<notin> set s"
  using has_at_or_slash_bytes [of s] by (auto simp: validLocal_def string_bytes_def)

lemma validDomain_iff:
  "validDomain s \<longleftrightarrow>
     s \<noteq> [] \<and> valid_utf8 (string_bytes s) \<and> (plain_domain s \<or> prefix ''['' s \<and> suffix '']'' s)"
  using has_at_or_slash_bytes [of s] by (auto simp: validDomain_def plain_domain_def)

lemma jid_New_iff:
  "jid_New l d r = Inr j \<longleftrightarrow>
     j = \<lparr>jid_local = l, jid_domain = d, jid_resource = r\<rparr> \<and> jid_wf j"
  by (auto simp: jid_New_def jid_wf_def validLocal_iff validDomain_iff string_bytes_def)

lemma jid_Parse_wf: "jid_Parse s = Inr j \<Longrightarrow> jid_wf j"
  by (auto simp: jid_Parse_def jid_New_iff split: if_splits prod.splits)

lemma jid_String_not_Nil: "jid_wf j \<Longrightarrow> jid_String j \<noteq> []"
  by (simp add: jid_String_def jid_wf_def)

lemma cut_resource_String:
  assumes "jid_wf j" and "plain_domain (jid_domain j)"
  shows "cut_resource (jid_String j) =
    ((if jid_local j \<noteq> [] then jid_local j @ ''@'' else []) @ jid_domain j, jid_resource j)"
proof -
  let ?p = "(if jid_local j \<noteq> [] then jid_local j @ ''@'' else []) @ jid_domain j"
  have p: "CHR ''/'' \<notin> set ?p" using assms by (auto simp: jid_wf_def plain_domain_def)
  show ?thesis
  proof (cases "jid_resource j = []")
    case True
    with assms have "jid_String j = ?p" by (simp add: jid_String_def jid_wf_def)
    moreover from p have "index_byte ?p CHR ''/'' = None" by (rule index_byte_None)
    ultimately show ?thesis using True by (simp add: cut_resource_def)
  next
    case False
    with assms have "jid_String j = ?p @ CHR ''/'' # jid_resource j"
      by (simp add: jid_String_def jid_wf_def)
    moreover from p have "index_byte (?p @ CHR ''/'' # jid_resource j) CHR ''/'' = Some (length ?p)"
      by (rule index_byte_append)
    ultimately show ?thesis by (simp add: cut_resource_def)
  qed
qed

lemma cut_local_bare:
  assumes "jid_wf j" and "plain_domain (jid_domain j)"
  shows "cut_local ((if jid_local j \<noteq> [] then jid_local j @ ''@'' else []) @ jid_domain j) =
    (jid_local j, jid_domain j)"
  using assms by (auto simp: cut_local_def jid_wf_def plain_domain_def go_string)

text \<open>
  C1: an address with a plain domain (no \<open>@\<close> and no slash in it) that \<open>New\<close> accepts is printed by
  \<open>String\<close> to a text that \<open>Parse\<close> reads back to the same address, whatever its localpart and
  resourcepart are.
\<close>

theorem jid_parse_string_roundtrip:
  assumes "jid_New l d r = Inr j" and "plain_domain d"
  shows "jid_Parse (jid_String j) = Inr j"
proof -
  from assms have wf: "jid_wf j" and j: "j = \<lparr>jid_local = l, jid_domain = d, jid_resource = r\<rparr>"
    and pd: "plain_domain (jid_domain j)"
    by (auto simp: jid_New_iff)
  have "jid_New (jid_local j) (jid_domain j) (jid_resource j) = Inr j"
    using wf by (simp add: jid_New_iff)
  with wf show ?thesis
    by (simp add: jid_Parse_def jid_String_not_Nil cut_resource_String [OF wf pd]
        cut_local_bare [OF wf pd] jid_wf_def)
qed

theorem jid_parse_string_roundtrip_witness:
  "jid_Parse (jid_String \<lparr>jid_local = ''romeo'', jid_domain = ''a.example'', jid_resource = ''x/y@z''\<rparr>)
     = Inr \<lparr>jid_local = ''romeo'', jid_domain = ''a.example'', jid_resource = ''x/y@z''\<rparr>"
proof -
  have "jid_New ''romeo'' ''a.example'' ''x/y@z''
      = Inr \<lparr>jid_local = ''romeo'', jid_domain = ''a.example'', jid_resource = ''x/y@z''\<rparr>"
    by (simp add: jid_New_iff jid_wf_def maxPartLen_def plain_domain_def string_bytes_def utf8_eval)
  from jid_parse_string_roundtrip [OF this] show ?thesis by (simp add: plain_domain_def)
qed

text \<open>
  The exception is real: \<open>validDomain\<close> accepts any bracketed text as a domain, so an address can be
  built whose printed form parses to a different address.
\<close>

lemma jid_bracket_domain_not_roundtrip:
  "\<exists>j k. jid_New [] ''[a/b]'' [] = Inr j \<and> jid_Parse (jid_String j) = Inr k \<and> j \<noteq> k"
proof -
  let ?j = "\<lparr>jid_local = [], jid_domain = ''[a/b]'', jid_resource = []\<rparr>"
  let ?k = "\<lparr>jid_local = [], jid_domain = ''[a'', jid_resource = ''b]''\<rparr>"
  have "jid_New [] ''[a/b]'' [] = Inr ?j"
    by (simp add: jid_New_iff jid_wf_def maxPartLen_def string_bytes_def utf8_eval suffix_def)
  moreover have "jid_New [] ''[a'' ''b]'' = Inr ?k"
    by (simp add: jid_New_iff jid_wf_def maxPartLen_def plain_domain_def string_bytes_def utf8_eval)
  then have "jid_Parse (jid_String ?j) = Inr ?k"
    by (simp add: jid_Parse_def jid_String_def cut_resource_def cut_local_def)
  ultimately show ?thesis by (intro exI [of _ ?j] exI [of _ ?k]) simp
qed

subsection \<open>Escaping\<close>

lemma find_old_single:
  "find_old (map (\<lambda>(c, h). ([c], b # h)) ps) (c # s) = map_option (\<lambda>h. ([c], b # h)) (map_of ps c)"
  by (induction ps) auto

lemma EscapeLocal_Nil [simp]: "EscapeLocal [] = []"
  by (simp add: EscapeLocal_def)

lemma EscapeLocal_Cons:
  "EscapeLocal (c # s) =
     (case map_of escapes c of None \<Rightarrow> [c] | Some h \<Rightarrow> backslash # h) @ EscapeLocal s"
  by (auto simp: EscapeLocal_def escapeReplacer_def find_old_single split: option.splits)

lemma UnescapeLocal_plain: "c \<noteq> backslash \<Longrightarrow> UnescapeLocal (c # s) = c # UnescapeLocal s"
  by (simp add: UnescapeLocal_def unescapeReplacer_def)

text \<open>When all old strings have the same length, the scan is a lookup of the next bytes.\<close>

lemma find_old_fixed:
  "\<forall>(p, q) \<in> set ps. length p = length w \<Longrightarrow> w \<noteq> [] \<Longrightarrow>
     find_old ps (w @ s) = map_option (Pair w) (map_of ps w)"
proof (induction ps)
  case (Cons x ps)
  then have "prefix (fst x) (w @ s) \<longleftrightarrow> fst x = w" by (auto simp: prefix_def split: prod.splits)
  with Cons show ?case by (cases x) auto
qed simp

lemma find_old_unescape:
  assumes "map_of escapes c = Some h"
  shows "find_old unescapeReplacer (backslash # h @ s) = Some (backslash # h, [c])"
proof -
  have "\<forall>(c, h) \<in> set escapes. length h = 2 \<and> map_of unescapeReplacer (backslash # h) = Some [c]"
    by (simp add: escapes_def unescapeReplacer_def backslash_def)
  then have h: "length h = 2" "map_of unescapeReplacer (backslash # h) = Some [c]"
    using map_of_SomeD [OF assms] by auto
  have "\<forall>(p, q) \<in> set unescapeReplacer. length p = 3" by (simp add: unescapeReplacer_def escapes_def)
  with h find_old_fixed [of unescapeReplacer "backslash # h" s] show ?thesis by simp
qed

lemma UnescapeLocal_escape:
  assumes "map_of escapes c = Some h"
  shows "UnescapeLocal (backslash # h @ s) = c # UnescapeLocal s"
  using find_old_unescape [OF assms, of s] by (simp add: UnescapeLocal_def)

definition escaped_chars :: "char set" where
  "escaped_chars = {CHR '' '', CHR 0x22, CHR ''&'', CHR 0x27, CHR ''/'', CHR '':'', CHR ''<'', CHR ''>'', CHR ''@''}"

lemma escapes_cover: "c \<in> escaped_chars \<Longrightarrow> map_of escapes c \<noteq> None"
  by (auto simp: escaped_chars_def escapes_def backslash_def)

lemma escape_codes_clean: "map_of escapes c = Some h \<Longrightarrow> set (backslash # h) \<inter> escaped_chars = {}"
  unfolding escapes_def backslash_def escaped_chars_def
  by (drule map_of_SomeD, simp, elim disjE) simp_all

text \<open>
  C2: unescaping an escaped localpart gives the localpart back, and the escaped text holds none of
  the nine characters that XEP-0106 takes out of localparts; in particular no \<open>@\<close> and no slash, so
  it never breaks an address apart.
\<close>

theorem escape_local_roundtrip:
  "UnescapeLocal (EscapeLocal s) = s \<and> set (EscapeLocal s) \<inter> escaped_chars = {}"
proof (induction s)
  case Nil
  show ?case by (simp add: UnescapeLocal_def)
next
  case (Cons c s)
  show ?case
  proof (cases "map_of escapes c")
    case None
    then have "c \<noteq> backslash" by (auto simp: escapes_def split: if_splits)
    with None Cons.IH escapes_cover [of c] show ?thesis
      by (auto simp: EscapeLocal_Cons UnescapeLocal_plain)
  next
    case (Some h)
    with Cons.IH escape_codes_clean [OF Some] show ?thesis
      by (auto simp: EscapeLocal_Cons UnescapeLocal_escape)
  qed
qed

end
