(* ===== verification/PluginManager.thy ===== *)
theory PluginManager
  imports Prelude
begin

text \<open>
  Package \<open>plugin\<close>: the plugin manager (plugin/manager.go, plugin/plugin.go).  A plugin is known
  to the manager by its name, its version, its dependencies and what its two life-cycle methods
  return (\<open>NilPlugin\<close> is the run-time panic of a method call on a name that is not in the map; it
  is shown never to happen).  Go iterates over a map in an unspecified order, so every function that ranges over
  \<open>m.plugins\<close> or \<open>inDegree\<close> takes the order of each loop as a list of keys, and the theorems
  hold for all such orders.  The main loop of Kahn's algorithm is a partial function whose result
  is \<open>None\<close> when it does not return; the theorems prove that it always does.
\<close>

section \<open>Plugins and the manager\<close>

datatype plugin_error =
    ErrDuplicatePlugin string
  | ErrMissingDep string string
  | ErrCyclicDep
  | ErrInitialize string string
  | ErrClose string
  | NilPlugin string

record Plugin =
  Name :: string
  Version :: string
  Dependencies :: "string list"
  Initialize_err :: "string option"
  Close_err :: "string option"

record Manager =
  plugins :: "string \<rightharpoonup> Plugin"
  order :: "string list"

definition NewManager :: Manager where
  "NewManager = \<lparr>plugins = Map.empty, order = []\<rparr>"

definition Register :: "Manager \<Rightarrow> Plugin \<Rightarrow> Manager \<times> plugin_error option" where
  "Register m p =
     (if plugins m (Name p) \<noteq> None then (m, Some (ErrDuplicatePlugin (Name p)))
      else (m\<lparr>plugins := (plugins m)(Name p \<mapsto> p)\<rparr>, None))"

definition Get :: "Manager \<Rightarrow> string \<Rightarrow> Plugin option" where
  "Get m name = plugins m name"

definition deps_of :: "Manager \<Rightarrow> string \<Rightarrow> string list" where
  "deps_of m name = (case plugins m name of None \<Rightarrow> [] | Some p \<Rightarrow> Dependencies p)"

section \<open>Kahn's algorithm\<close>

text \<open>The first loop: every dependency is a registered plugin.\<close>

fun missing_in :: "Manager \<Rightarrow> string \<Rightarrow> string list \<Rightarrow> plugin_error option" where
  "missing_in m name [] = None"
| "missing_in m name (dep # ds) =
     (if plugins m dep = None then Some (ErrMissingDep name dep) else missing_in m name ds)"

fun check_deps :: "Manager \<Rightarrow> string list \<Rightarrow> plugin_error option" where
  "check_deps m [] = None"
| "check_deps m (name # ks) =
     (case missing_in m name (deps_of m name) of
        Some e \<Rightarrow> Some e
      | None \<Rightarrow> check_deps m ks)"

text \<open>The in-degree map and the reverse edges; a missing key reads as zero and as nil.\<close>

type_synonym degrees = "string \<rightharpoonup> int"
type_synonym edges = "string \<rightharpoonup> string list"

definition deg_at :: "degrees \<Rightarrow> string \<Rightarrow> int" where
  "deg_at deg n = (case deg n of None \<Rightarrow> 0 | Some d \<Rightarrow> d)"

definition edges_at :: "edges \<Rightarrow> string \<Rightarrow> string list" where
  "edges_at es n = (case es n of None \<Rightarrow> [] | Some l \<Rightarrow> l)"

fun init_degrees :: "string list \<Rightarrow> degrees \<Rightarrow> degrees" where
  "init_degrees [] deg = deg"
| "init_degrees (name # ks) deg = init_degrees ks (deg(name \<mapsto> 0))"

fun add_edges :: "string \<Rightarrow> string list \<Rightarrow> degrees \<times> edges \<Rightarrow> degrees \<times> edges" where
  "add_edges name [] (deg, es) = (deg, es)"
| "add_edges name (dep # ds) (deg, es) =
     add_edges name ds
       (deg(name \<mapsto> deg_at deg name + 1), es(dep \<mapsto> edges_at es dep @ [name]))"

fun build_edges :: "Manager \<Rightarrow> string list \<Rightarrow> degrees \<times> edges \<Rightarrow> degrees \<times> edges" where
  "build_edges m [] s = s"
| "build_edges m (name # ks) s = build_edges m ks (add_edges name (deps_of m name) s)"

definition zero_degree :: "degrees \<Rightarrow> string list \<Rightarrow> string list" where
  "zero_degree deg ks = filter (\<lambda>name. deg_at deg name = 0) ks"

text \<open>The inner loop over the dependents of the plugin just taken from the queue.\<close>

fun relax :: "string list \<Rightarrow> degrees \<Rightarrow> string list \<Rightarrow> degrees \<times> string list" where
  "relax [] deg queue = (deg, queue)"
| "relax (dep # ds) deg queue =
     (let deg' = deg(dep \<mapsto> deg_at deg dep - 1)
      in relax ds deg' (if deg_at deg' dep = 0 then queue @ [dep] else queue))"

partial_function (option) kahn_loop ::
    "edges \<Rightarrow> degrees \<Rightarrow> string list \<Rightarrow> string list \<Rightarrow> string list option" where
  "kahn_loop es deg queue ord =
     (case queue of
        [] \<Rightarrow> Some ord
      | name # rest \<Rightarrow>
          kahn_loop es (fst (relax (edges_at es name) deg rest))
            (snd (relax (edges_at es name) deg rest)) (ord @ [name]))"

text \<open>
  The arguments \<open>k1\<close> to \<open>k4\<close> are the orders of the loops of lines 110, 122, 125 and 134.  The
  result is \<open>None\<close> only if the queue loop does not end.
\<close>

definition topologicalSort ::
    "string list \<Rightarrow> string list \<Rightarrow> string list \<Rightarrow> string list \<Rightarrow> Manager \<Rightarrow>
     (plugin_error, string list) result option" where
  "topologicalSort k1 k2 k3 k4 m =
     (case check_deps m k1 of
        Some e \<Rightarrow> Some (Inl e)
      | None \<Rightarrow>
          (let (deg, es) = build_edges m k3 (init_degrees k2 Map.empty, Map.empty)
           in case kahn_loop es deg (zero_degree deg k4) [] of
                None \<Rightarrow> None
              | Some ord \<Rightarrow>
                  Some (if length ord \<noteq> card (dom (plugins m)) then Inl ErrCyclicDep else Inr ord)))"

section \<open>The life cycle\<close>

text \<open>
  \<open>Initialize\<close> and \<open>Close\<close> are observed through the sequence of plugin methods they call: the
  names in the order of the calls.
\<close>

fun init_calls :: "Manager \<Rightarrow> string list \<Rightarrow> string list \<times> plugin_error option" where
  "init_calls m [] = ([], None)"
| "init_calls m (name # ns) =
     (case plugins m name of
        Some p \<Rightarrow>
          (case Initialize_err p of
             Some e \<Rightarrow> ([name], Some (ErrInitialize name e))
           | None \<Rightarrow> apfst (Cons name) (init_calls m ns))
      | None \<Rightarrow> ([], Some (NilPlugin name)))"

definition Initialize ::
    "string list \<Rightarrow> string list \<Rightarrow> string list \<Rightarrow> string list \<Rightarrow> Manager \<Rightarrow>
     (Manager \<times> string list \<times> plugin_error option) option" where
  "Initialize k1 k2 k3 k4 m =
     (case topologicalSort k1 k2 k3 k4 m of
        None \<Rightarrow> None
      | Some (Inl e) \<Rightarrow> Some (m, [], Some e)
      | Some (Inr ord) \<Rightarrow>
          (let m' = m\<lparr>order := ord\<rparr> in Some (m', init_calls m' ord)))"

fun close_calls :: "Manager \<Rightarrow> string list \<Rightarrow> plugin_error option \<Rightarrow> string list \<times> plugin_error option" where
  "close_calls m [] firstErr = ([], firstErr)"
| "close_calls m (name # ns) firstErr =
     (case plugins m name of
        None \<Rightarrow> close_calls m ns firstErr
      | Some p \<Rightarrow>
          apfst (Cons name)
            (close_calls m ns
               (case Close_err p of
                  Some e \<Rightarrow> if firstErr = None then Some (ErrClose e) else firstErr
                | None \<Rightarrow> firstErr)))"

definition Close :: "Manager \<Rightarrow> string list \<times> plugin_error option" where
  "Close m = close_calls m (rev (order m)) None"

fun listed_plugins :: "Manager \<Rightarrow> string list \<Rightarrow> Plugin list" where
  "listed_plugins m [] = []"
| "listed_plugins m (name # ns) =
     (case plugins m name of
        Some p \<Rightarrow> p # listed_plugins m ns
      | None \<Rightarrow> listed_plugins m ns)"

definition Plugins :: "Manager \<Rightarrow> Plugin list" where
  "Plugins m = listed_plugins m (order m)"

section \<open>Example\<close>

text \<open>A manager with two plugins, the second of which depends on the first.\<close>

definition demo_manager :: "string list \<Rightarrow> Manager" where
  "demo_manager ds =
     fst (Register
       (fst (Register NewManager
          \<lparr>Name = ''disco'', Version = ''1.0'', Dependencies = ds, Initialize_err = None, Close_err = None\<rparr>))
       \<lparr>Name = ''caps'', Version = ''1.0'', Dependencies = [''disco''], Initialize_err = None,
        Close_err = Some ''busy''\<rparr>)"

lemma demo_manager_plugins:
  "plugins (demo_manager ds) =
     [''disco'' \<mapsto> \<lparr>Name = ''disco'', Version = ''1.0'', Dependencies = ds, Initialize_err = None,
        Close_err = None\<rparr>,
      ''caps'' \<mapsto> \<lparr>Name = ''caps'', Version = ''1.0'', Dependencies = [''disco''],
        Initialize_err = None, Close_err = Some ''busy''\<rparr>]"
  by (simp add: demo_manager_def Register_def NewManager_def)

lemma demo_manager_enum:
  "enumerates [''disco'', ''caps''] (plugins (demo_manager ds))"
  "enumerates [''caps'', ''disco''] (plugins (demo_manager ds))"
  by (auto simp: enumerates_def demo_manager_plugins)

lemmas sort_eval = topologicalSort_def deps_of_def zero_degree_def deg_at_def edges_at_def
  kahn_loop.simps

lemma demo_sort:
  "topologicalSort [''disco'', ''caps''] [''disco'', ''caps''] [''caps'', ''disco''] [''caps'', ''disco'']
     (demo_manager []) = Some (Inr [''disco'', ''caps''])"
  by (simp add: sort_eval demo_manager_plugins)

lemma demo_Initialize:
  "Initialize [''disco'', ''caps''] [''disco'', ''caps''] [''caps'', ''disco''] [''caps'', ''disco'']
      (demo_manager []) = Some ((demo_manager [])\<lparr>order := [''disco'', ''caps'']\<rparr>, [''disco'', ''caps''], None)"
  by (simp add: Initialize_def demo_sort) (simp add: demo_manager_plugins)

section \<open>Correctness of the sort\<close>

definition topo_ordered :: "(string \<Rightarrow> string list) \<Rightarrow> string list \<Rightarrow> bool" where
  "topo_ordered dp xs \<longleftrightarrow> (\<forall>i < length xs. set (dp (xs ! i)) \<subseteq> set (take i xs))"

lemma topo_ordered_Nil [simp]: "topo_ordered dp []"
  by (simp add: topo_ordered_def)

lemma topo_ordered_snoc [simp]:
  "topo_ordered dp (xs @ [x]) \<longleftrightarrow> topo_ordered dp xs \<and> set (dp x) \<subseteq> set xs"
  by (auto simp: topo_ordered_def nth_append less_Suc_eq)

definition deps_closed :: "Manager \<Rightarrow> bool" where
  "deps_closed m \<longleftrightarrow> (\<forall>n \<in> dom (plugins m). set (deps_of m n) \<subseteq> dom (plugins m))"

definition depends :: "Manager \<Rightarrow> (string \<times> string) set" where
  "depends m = {(d, n). n \<in> dom (plugins m) \<and> d \<in> set (deps_of m n)}"

lemma deps_of_outside: "n \<notin> dom (plugins m) \<Longrightarrow> deps_of m n = []"
  by (simp add: deps_of_def domIff)

lemma missing_in_None_iff: "missing_in m name ds = None \<longleftrightarrow> set ds \<subseteq> dom (plugins m)"
  by (induction ds) auto

lemma missing_in_SomeD: "missing_in m name ds = Some e \<Longrightarrow> \<exists>d. e = ErrMissingDep name d \<and> d \<in> set ds \<and> d \<notin> dom (plugins m)"
  by (induction ds) (auto split: if_splits)

lemma check_deps_None_iff:
  "check_deps m ks = None \<longleftrightarrow> (\<forall>n \<in> set ks. set (deps_of m n) \<subseteq> dom (plugins m))"
  by (induction ks) (auto simp: missing_in_None_iff split: option.splits dest: missing_in_SomeD)

lemma check_deps_SomeD:
  "check_deps m ks = Some e \<Longrightarrow>
     \<exists>n d. e = ErrMissingDep n d \<and> n \<in> set ks \<and> d \<in> set (deps_of m n) \<and> d \<notin> dom (plugins m)"
  by (induction ks) (auto split: option.splits dest: missing_in_SomeD)

subsection \<open>The graph built by the first loops\<close>

lemma deg_at_upd [simp]: "deg_at (deg(n \<mapsto> d)) k = (if k = n then d else deg_at deg k)"
  by (simp add: deg_at_def)

lemma edges_at_upd [simp]: "edges_at (es(n \<mapsto> l)) k = (if k = n then l else edges_at es k)"
  by (simp add: edges_at_def)

lemma deg_at_init: "deg_at (init_degrees ks deg) n = (if n \<in> set ks then 0 else deg_at deg n)"
  by (induction ks arbitrary: deg) auto

lemma add_edges_spec:
  assumes "add_edges name ds (deg, es) = (deg', es')"
  shows "deg_at deg' n = deg_at deg n + (if n = name then int (length ds) else 0)"
    and "count_list (edges_at es' d) n = count_list (edges_at es d) n + (if n = name then count_list ds d else 0)"
  using assms by (induction ds arbitrary: deg es) auto

lemma build_edges_spec:
  assumes "build_edges m ks (deg, es) = (deg', es')" and "distinct ks"
  shows "deg_at deg' n = deg_at deg n + (if n \<in> set ks then int (length (deps_of m n)) else 0)"
    and "count_list (edges_at es' d) n =
      count_list (edges_at es d) n + (if n \<in> set ks then count_list (deps_of m n) d else 0)"
proof -
  have "deg_at deg' n = deg_at deg n + (if n \<in> set ks then int (length (deps_of m n)) else 0) \<and>
      count_list (edges_at es' d) n =
        count_list (edges_at es d) n + (if n \<in> set ks then count_list (deps_of m n) d else 0)"
    using assms
  proof (induction ks arbitrary: deg es)
    case Nil
    then show ?case by simp
  next
    case (Cons name ks)
    obtain deg1 es1 where one: "add_edges name (deps_of m name) (deg, es) = (deg1, es1)"
      by fastforce
    with Cons.prems have "build_edges m ks (deg1, es1) = (deg', es')" "distinct ks" "name \<notin> set ks"
      by auto
    with Cons.IH [of deg1 es1] add_edges_spec(1) [OF one, of n] add_edges_spec(2) [OF one, of d n]
    show ?case by auto
  qed
  then show "deg_at deg' n = deg_at deg n + (if n \<in> set ks then int (length (deps_of m n)) else 0)"
    and "count_list (edges_at es' d) n =
      count_list (edges_at es d) n + (if n \<in> set ks then count_list (deps_of m n) d else 0)"
    by auto
qed

subsection \<open>The inner loop\<close>

lemma relax_spec:
  assumes "\<forall>n \<in> set L. int (count_list L n) \<le> deg_at deg n"
  shows "\<exists>deg' new. relax L deg Q = (deg', Q @ new) \<and>
    (\<forall>n. deg_at deg' n = deg_at deg n - int (count_list L n)) \<and>
    distinct new \<and> set new = {n \<in> set L. deg_at deg n = int (count_list L n)}"
  using assms
proof (induction L arbitrary: deg Q)
  case Nil
  then show ?case by simp
next
  case (Cons x L)
  let ?deg = "deg(x \<mapsto> deg_at deg x - 1)"
  let ?Q = "if deg_at ?deg x = 0 then Q @ [x] else Q"
  from Cons.prems have pre: "\<forall>n \<in> set L. int (count_list L n) \<le> deg_at ?deg n"
    by (auto split: if_splits)
  then obtain deg' new where IH: "relax L ?deg ?Q = (deg', ?Q @ new)"
      "\<forall>n. deg_at deg' n = deg_at ?deg n - int (count_list L n)"
      "distinct new" "set new = {n \<in> set L. deg_at ?deg n = int (count_list L n)}"
    using Cons.IH [of ?deg ?Q] by blast
  show ?case
  proof (cases "deg_at deg x = 1")
    case True
    have "x \<notin> set L"
    proof
      assume "x \<in> set L"
      with pre True have "count_list L x = 0" by auto
      with \<open>x \<in> set L\<close> show False by (simp add: count_list_0_iff)
    qed
    with IH True show ?thesis
      by (intro exI [of _ deg'] exI [of _ "x # new"]) (auto simp: count_list_0_iff)
  next
    case False
    have "x \<in> set new \<longleftrightarrow> deg_at deg x = int (count_list (x # L) x)"
      using IH(4) False by (auto simp: count_list_0_iff)
    with IH False show ?thesis
      by (intro exI [of _ deg'] exI [of _ new]) (auto split: if_splits)
  qed
qed

subsection \<open>The queue loop\<close>

definition open_deps :: "Manager \<Rightarrow> string list \<Rightarrow> string \<Rightarrow> nat" where
  "open_deps m P n = length (filter (\<lambda>d. d \<notin> set P) (deps_of m n))"

lemma open_deps_0_iff: "open_deps m P n = 0 \<longleftrightarrow> set (deps_of m n) \<subseteq> set P"
  by (auto simp: open_deps_def filter_empty_conv)

lemma length_filter_snoc:
  "x \<notin> set P \<Longrightarrow>
     length (filter (\<lambda>d. d \<notin> set P) ds) = length (filter (\<lambda>d. d \<notin> set (P @ [x])) ds) + count_list ds x"
  by (induction ds) auto

lemma open_deps_snoc:
  assumes "name \<notin> set P"
  shows "int (open_deps m (P @ [name]) n) = int (open_deps m P n) - int (count_list (deps_of m n) name)"
    and "count_list (deps_of m n) name \<le> open_deps m P n"
proof -
  have "open_deps m P n = open_deps m (P @ [name]) n + count_list (deps_of m n) name"
    unfolding open_deps_def using assms by (rule length_filter_snoc)
  then show "int (open_deps m (P @ [name]) n) = int (open_deps m P n) - int (count_list (deps_of m n) name)"
    and "count_list (deps_of m n) name \<le> open_deps m P n"
    by simp_all
qed

definition kahn_inv :: "Manager \<Rightarrow> edges \<Rightarrow> degrees \<Rightarrow> string list \<Rightarrow> string list \<Rightarrow> bool" where
  "kahn_inv m es deg Q P \<longleftrightarrow>
     distinct (P @ Q) \<and> set (P @ Q) \<subseteq> dom (plugins m) \<and>
     (\<forall>n. deg_at deg n = int (open_deps m P n)) \<and>
     (\<forall>n \<in> dom (plugins m). n \<in> set (P @ Q) \<longleftrightarrow> open_deps m P n = 0) \<and>
     topo_ordered (deps_of m) P \<and>
     (\<forall>d n. count_list (edges_at es d) n = count_list (deps_of m n) d)"

lemma kahn_inv_step:
  assumes "kahn_inv m es deg (name # Q) P"
  shows "kahn_inv m es (fst (relax (edges_at es name) deg Q)) (snd (relax (edges_at es name) deg Q)) (P @ [name])"
proof -
  let ?L = "edges_at es name"
  from assms have name: "name \<notin> set P" "name \<in> dom (plugins m)" "open_deps m P name = 0"
    and deg: "\<And>n. deg_at deg n = int (open_deps m P n)"
    and es: "\<And>d n. count_list (edges_at es d) n = count_list (deps_of m n) d"
    by (auto simp: kahn_inv_def)
  from name(1) have snoc: "\<And>n. int (open_deps m (P @ [name]) n) = int (open_deps m P n) - int (count_list ?L n)"
    "\<And>n. count_list ?L n \<le> open_deps m P n"
    using open_deps_snoc by (simp_all add: es)
  then obtain deg' new where r: "relax ?L deg Q = (deg', Q @ new)"
      "\<And>n. deg_at deg' n = int (open_deps m (P @ [name]) n)"
      "distinct new" "set new = {n \<in> set ?L. open_deps m P n = count_list ?L n}"
    using relax_spec [of ?L deg Q] by (auto simp: deg)
  have L: "n \<in> set ?L \<longleftrightarrow> name \<in> set (deps_of m n)" for n
    by (metis es count_list_0_iff)
  have new: "n \<in> set new \<longleftrightarrow> n \<in> set ?L \<and> open_deps m (P @ [name]) n = 0" for n
  proof -
    have "open_deps m (P @ [name]) n = 0 \<longleftrightarrow> open_deps m P n = count_list ?L n"
      using snoc(1) [of n] by linarith
    then show ?thesis unfolding r(4) by blast
  qed
  have sub: "set new \<subseteq> dom (plugins m)"
    using new L deps_of_outside by fastforce
  have fresh: "n \<notin> set (P @ name # Q)" if "n \<in> set new" for n
  proof -
    from that have "name \<in> set (deps_of m n)" "n \<in> dom (plugins m)"
      using new L sub by blast+
    with name(1) have "open_deps m P n \<noteq> 0" by (auto simp: open_deps_0_iff)
    with \<open>n \<in> dom (plugins m)\<close> assms show ?thesis by (simp add: kahn_inv_def)
  qed
  have cover: "n \<in> set (P @ name # Q) \<or> n \<in> set new \<longleftrightarrow> open_deps m (P @ [name]) n = 0"
    if "n \<in> dom (plugins m)" for n
  proof -
    have "n \<in> set (P @ name # Q) \<longleftrightarrow> open_deps m P n = 0"
      using assms that by (simp add: kahn_inv_def)
    moreover have "n \<notin> set ?L \<Longrightarrow> open_deps m (P @ [name]) n = open_deps m P n"
      using snoc(1) [of n] by (simp add: count_list_0_iff)
    moreover have "open_deps m P n = 0 \<Longrightarrow> open_deps m (P @ [name]) n = 0"
      by (auto simp: open_deps_0_iff)
    ultimately show ?thesis using new [of n] by metis
  qed
  have topo: "topo_ordered (deps_of m) (P @ [name])"
    using assms name(3) by (simp add: kahn_inv_def open_deps_0_iff)
  have dist: "distinct ((P @ [name]) @ Q @ new)" and dom: "set ((P @ [name]) @ Q @ new) \<subseteq> dom (plugins m)"
    using assms r(3) sub fresh by (auto simp: kahn_inv_def)
  have "\<forall>n \<in> dom (plugins m). n \<in> set ((P @ [name]) @ Q @ new) \<longleftrightarrow> open_deps m (P @ [name]) n = 0"
    by (intro ballI) (simp flip: cover add: disj_ac)
  with dist dom topo r(2) es show ?thesis unfolding kahn_inv_def r(1) fst_conv snd_conv by blast
qed

lemma kahn_loop_returns:
  assumes "kahn_inv m es deg Q P" and "finite (dom (plugins m))"
  shows "\<exists>ord deg'. kahn_loop es deg Q P = Some ord \<and> kahn_inv m es deg' [] ord"
  using assms(1)
proof (induction "card (dom (plugins m)) - length P" arbitrary: deg Q P rule: less_induct)
  case less
  show ?case
  proof (cases Q)
    case Nil
    with less.prems show ?thesis by (auto simp: kahn_loop.simps [of es deg])
  next
    case (Cons name rest)
    with less.prems have inv: "kahn_inv m es (fst (relax (edges_at es name) deg rest))
        (snd (relax (edges_at es name) deg rest)) (P @ [name])"
      using kahn_inv_step by blast
    from less.prems Cons have "distinct (P @ [name])" "set (P @ [name]) \<subseteq> dom (plugins m)"
      by (auto simp: kahn_inv_def)
    then have "length (P @ [name]) \<le> card (dom (plugins m))"
      using assms(2) by (metis card_mono distinct_card)
    then have "card (dom (plugins m)) - length (P @ [name]) < card (dom (plugins m)) - length P"
      by simp
    from less.hyps [OF this inv] Cons show ?thesis
      by (auto simp: kahn_loop.simps [of es deg "name # rest"])
  qed
qed

subsection \<open>The sort\<close>

lemma kahn_inv_start:
  assumes "enumerates k2 (plugins m)" "enumerates k3 (plugins m)" "enumerates k4 (plugins m)"
    and "build_edges m k3 (init_degrees k2 Map.empty, Map.empty) = (deg, es)"
  shows "kahn_inv m es deg (zero_degree deg k4) []"
proof -
  have deg: "deg_at deg n = int (open_deps m [] n)" for n
    using build_edges_spec(1) [OF assms(4), of n] assms(2,3)
    by (auto simp: enumerates_def deg_at_init open_deps_def deps_of_outside) (simp add: deg_at_def)
  have es: "count_list (edges_at es d) n = count_list (deps_of m n) d" for d n
    using build_edges_spec(2) [OF assms(4), of d n] assms(2)
    by (auto simp: enumerates_def edges_at_def deps_of_outside)
  show ?thesis
    using assms(3) deg es by (auto simp: kahn_inv_def zero_degree_def enumerates_def)
qed

lemma enumerates_finite: "enumerates ks f \<Longrightarrow> finite (dom f)"
  unfolding enumerates_def by (metis List.finite_set)

lemma finite_depends: "finite (dom (plugins m)) \<Longrightarrow> finite (depends m)"
  by (rule finite_subset [of _ "(\<Union>n \<in> dom (plugins m). set (deps_of m n)) \<times> dom (plugins m)"])
    (auto simp: depends_def)

lemma acyclic_covers:
  assumes "kahn_inv m es deg [] ord" and "deps_closed m" and "acyclic (depends m)"
    and "finite (dom (plugins m))"
  shows "set ord = dom (plugins m)"
proof (rule ccontr)
  assume "set ord \<noteq> dom (plugins m)"
  with assms(1) obtain n0 where n0: "n0 \<in> dom (plugins m) - set ord"
    by (auto simp: kahn_inv_def)
  have "wf (depends m)"
    using finite_depends [OF assms(4)] assms(3) by (rule finite_acyclic_wf)
  then obtain n where n: "n \<in> dom (plugins m) - set ord"
      "\<And>d. (d, n) \<in> depends m \<Longrightarrow> d \<notin> dom (plugins m) - set ord"
    using n0 by (meson wfE_min)
  with assms(1) have "open_deps m ord n \<noteq> 0" by (auto simp: kahn_inv_def)
  then obtain d where "d \<in> set (deps_of m n)" "d \<notin> set ord" by (auto simp: open_deps_0_iff)
  with n assms(2) show False by (fastforce simp: depends_def deps_closed_def)
qed

lemma topo_acyclic:
  assumes "topo_ordered (deps_of m) ord" "distinct ord" "set ord = dom (plugins m)"
  shows "acyclic (depends m)"
proof -
  let ?pos = "\<lambda>n. length (takeWhile (\<lambda>x. x \<noteq> n) ord)"
  have "(d, n) \<in> measure ?pos" if "(d, n) \<in> depends m" for d n
  proof -
    from that assms(3) have "n \<in> set ord" "d \<in> set (deps_of m n)"
      by (auto simp: depends_def)
    then obtain xs ys where ord: "ord = xs @ n # ys" "n \<notin> set xs"
      by (meson split_list_first)
    with assms(1) \<open>d \<in> set (deps_of m n)\<close> have "d \<in> set xs"
      by (fastforce simp: topo_ordered_def dest: spec [of _ "length xs"])
    then obtain us vs where "xs = us @ d # vs" "d \<notin> set us"
      by (meson split_list_first)
    with ord show ?thesis by (auto simp: takeWhile_append)
  qed
  then have "depends m \<subseteq> measure ?pos" by auto
  then show ?thesis by (meson wf_acyclic wf_measure wf_subset)
qed

lemma topologicalSort_cases:
  assumes "enumerates k1 (plugins m)" "enumerates k2 (plugins m)"
    "enumerates k3 (plugins m)" "enumerates k4 (plugins m)"
  obtains (missing) n d where "\<not> deps_closed m" "n \<in> dom (plugins m)" "d \<in> set (deps_of m n)"
      "d \<notin> dom (plugins m)" "topologicalSort k1 k2 k3 k4 m = Some (Inl (ErrMissingDep n d))"
  | (cyclic) "deps_closed m" "\<not> acyclic (depends m)" "topologicalSort k1 k2 k3 k4 m = Some (Inl ErrCyclicDep)"
  | (sorted) ord where "deps_closed m" "acyclic (depends m)" "topologicalSort k1 k2 k3 k4 m = Some (Inr ord)"
      "distinct ord" "set ord = dom (plugins m)" "topo_ordered (deps_of m) ord"
proof (cases "check_deps m k1")
  case (Some e)
  from check_deps_SomeD [OF Some] obtain n d where "e = ErrMissingDep n d" "n \<in> set k1"
      "d \<in> set (deps_of m n)" "d \<notin> dom (plugins m)" by blast
  with Some assms(1) show ?thesis
    by (intro missing) (auto simp: topologicalSort_def deps_closed_def enumerates_def)
next
  case None
  with assms(1) have closed: "deps_closed m"
    by (simp add: check_deps_None_iff deps_closed_def enumerates_def)
  have fin: "finite (dom (plugins m))" using assms(1) by (rule enumerates_finite)
  obtain deg es where b: "build_edges m k3 (init_degrees k2 Map.empty, Map.empty) = (deg, es)"
    by fastforce
  from kahn_loop_returns [OF kahn_inv_start [OF assms(2-4) b] fin]
  obtain ord deg' where ord: "kahn_loop es deg (zero_degree deg k4) [] = Some ord"
    and inv: "kahn_inv m es deg' [] ord" by blast
  from inv have d: "distinct ord" "set ord \<subseteq> dom (plugins m)" "topo_ordered (deps_of m) ord"
    by (auto simp: kahn_inv_def)
  then have len: "length ord = card (dom (plugins m)) \<longleftrightarrow> set ord = dom (plugins m)"
    using fin by (metis card_subset_eq distinct_card)
  show ?thesis
  proof (cases "set ord = dom (plugins m)")
    case True
    with None b ord len have "topologicalSort k1 k2 k3 k4 m = Some (Inr ord)"
      by (simp add: topologicalSort_def)
    with True d closed topo_acyclic show ?thesis by (blast intro: sorted)
  next
    case False
    with None b ord len have "topologicalSort k1 k2 k3 k4 m = Some (Inl ErrCyclicDep)"
      by (simp add: topologicalSort_def)
    with False closed inv fin acyclic_covers show ?thesis by (blast intro: cyclic)
  qed
qed

text \<open>
  C3: whatever order Go gives the four map loops, the sort returns, and it returns an order of all
  plugins in which each plugin stands behind all its dependencies exactly when every dependency is
  registered and the dependency relation has no cycle.
\<close>

theorem topologicalSort_correct:
  assumes "enumerates k1 (plugins m)" "enumerates k2 (plugins m)"
    "enumerates k3 (plugins m)" "enumerates k4 (plugins m)"
  shows "(\<exists>ord. topologicalSort k1 k2 k3 k4 m = Some (Inr ord) \<and> distinct ord \<and>
            set ord = dom (plugins m) \<and> topo_ordered (deps_of m) ord)
         \<longleftrightarrow> deps_closed m \<and> acyclic (depends m)"
  using assms by (cases rule: topologicalSort_cases) auto

theorem topologicalSort_correct_witness:
  "topologicalSort [''disco'', ''caps''] [''disco'', ''caps''] [''caps'', ''disco''] [''caps'', ''disco'']
     (demo_manager []) = Some (Inr [''disco'', ''caps'']) \<and>
   deps_closed (demo_manager []) \<and> acyclic (depends (demo_manager []))"
proof -
  have dom: "dom (plugins (demo_manager [])) = {''disco'', ''caps''}"
    using demo_manager_enum(1) [of "[]"] by (simp add: enumerates_def)
  from demo_sort have "\<exists>ord. topologicalSort [''disco'', ''caps''] [''disco'', ''caps''] [''caps'', ''disco'']
      [''caps'', ''disco''] (demo_manager []) = Some (Inr ord) \<and> distinct ord \<and>
      set ord = dom (plugins (demo_manager [])) \<and> topo_ordered (deps_of (demo_manager [])) ord"
    by (auto simp: dom topo_ordered_def deps_of_def demo_manager_plugins nth_Cons split: nat.splits)
  with topologicalSort_correct [OF demo_manager_enum(1,1,2,2), of "[]"] demo_sort show ?thesis
    by simp
qed

text \<open>
  C4: when the sort fails it says why: a missing dependency is reported with a plugin that really
  names an unregistered plugin, and \<open>ErrCyclicDep\<close> is returned exactly when all dependencies are
  registered and they form a cycle.
\<close>

theorem topologicalSort_errors:
  assumes "enumerates k1 (plugins m)" "enumerates k2 (plugins m)"
    "enumerates k3 (plugins m)" "enumerates k4 (plugins m)"
  shows "(topologicalSort k1 k2 k3 k4 m = Some (Inl ErrCyclicDep) \<longleftrightarrow>
            deps_closed m \<and> \<not> acyclic (depends m)) \<and>
         (\<not> deps_closed m \<longrightarrow>
            (\<exists>n p d. topologicalSort k1 k2 k3 k4 m = Some (Inl (ErrMissingDep n d)) \<and>
               plugins m n = Some p \<and> d \<in> set (Dependencies p) \<and> plugins m d = None))"
  using assms by (cases rule: topologicalSort_cases) (auto simp: deps_of_def)

theorem topologicalSort_errors_witness:
  "\<exists>n p d. topologicalSort [''disco'', ''caps''] [''disco'', ''caps''] [''caps'', ''disco''] [''caps'', ''disco'']
       (demo_manager [''rsm'']) = Some (Inl (ErrMissingDep n d)) \<and>
     plugins (demo_manager [''rsm'']) n = Some p \<and> d \<in> set (Dependencies p) \<and>
     plugins (demo_manager [''rsm'']) d = None"
proof -
  have "\<not> deps_closed (demo_manager [''rsm''])"
    by (auto simp: deps_closed_def deps_of_def demo_manager_plugins)
  with topologicalSort_errors [OF demo_manager_enum(1,1,2,2), of "[''rsm'']"] show ?thesis by blast
qed

subsection \<open>Initialisation and shutdown\<close>

lemma init_calls_spec:
  assumes "set ns \<subseteq> dom (plugins m)" and "init_calls m ns = (calls, err)"
  shows "(case err of
            None \<Rightarrow> calls = ns
          | Some e \<Rightarrow> (\<exists>pre n post msg. ns = pre @ n # post \<and> calls = pre @ [n] \<and> e = ErrInitialize n msg))"
  using assms
proof (induction ns arbitrary: calls)
  case Nil
  then show ?case by simp
next
  case (Cons n ns)
  from Cons.prems(1) obtain p where p: "plugins m n = Some p" by auto
  show ?case
  proof (cases "Initialize_err p")
    case (Some e)
    with Cons.prems p show ?thesis by force
  next
    case None
    with Cons.prems p obtain calls' where c: "init_calls m ns = (calls', err)" "calls = n # calls'"
      by (cases "init_calls m ns") auto
    from Cons.prems(1) have "set ns \<subseteq> dom (plugins m)" by simp
    from Cons.IH [OF this c(1)] c(2) show ?thesis
      by (auto split: option.splits intro: Cons_eq_appendI)
  qed
qed

lemma init_calls_order [simp]: "init_calls (m\<lparr>order := ord\<rparr>) ns = init_calls m ns"
  by (induction ns) (auto split: option.splits)

lemma close_calls_names: "set ns \<subseteq> dom (plugins m) \<Longrightarrow> fst (close_calls m ns e) = ns"
  by (induction ns arbitrary: e) auto

lemma close_calls_keeps [simp]: "snd (close_calls m ns (Some e)) = Some e"
  by (induction ns) (auto split: option.splits)

lemma close_calls_None_iff:
  "set ns \<subseteq> dom (plugins m) \<Longrightarrow> snd (close_calls m ns None) = None \<longleftrightarrow>
     (\<forall>n \<in> set ns. \<forall>p. plugins m n = Some p \<longrightarrow> Close_err p = None)"
  by (induction ns) (auto split: option.splits)

lemma close_calls_order [simp]: "close_calls (m\<lparr>order := ord\<rparr>) ns e = close_calls m ns e"
  by (induction ns arbitrary: e) (auto split: option.splits)

lemma topo_ordered_appendD:
  assumes "topo_ordered dp (xs @ ys)" shows "topo_ordered dp xs"
  unfolding topo_ordered_def
proof (intro allI impI)
  fix i assume i: "i < length xs"
  then have "i < length (xs @ ys)" by simp
  with assms have "set (dp ((xs @ ys) ! i)) \<subseteq> set (take i (xs @ ys))"
    unfolding topo_ordered_def by blast
  with i nth_append_left [OF i, of ys] show "set (dp (xs ! i)) \<subseteq> set (take i xs)" by simp
qed

text \<open>
  \<open>Initialize\<close> calls no plugin before all its dependencies were called, calls every registered
  plugin once when it succeeds, and stops at the first plugin that fails.
\<close>

lemma Initialize_in_dependency_order:
  assumes "enumerates k1 (plugins m)" "enumerates k2 (plugins m)"
    "enumerates k3 (plugins m)" "enumerates k4 (plugins m)"
    and "Initialize k1 k2 k3 k4 m = Some (m', calls, err)"
  shows "distinct calls \<and> topo_ordered (deps_of m) calls \<and>
    (err = None \<longrightarrow> set calls = dom (plugins m) \<and> order m' = calls) \<and>
    (\<forall>n msg. err = Some (ErrInitialize n msg) \<longrightarrow> calls \<noteq> [] \<and> last calls = n)"
  using assms(1-4)
proof (cases rule: topologicalSort_cases)
  case (sorted ord)
  with assms(5) have m': "m' = m\<lparr>order := ord\<rparr>" and ic: "init_calls m ord = (calls, err)"
    by (auto simp: Initialize_def)
  have pre: "topo_ordered (deps_of m) pre" if "ord = pre @ post" for pre post
    using sorted(6) that topo_ordered_appendD by simp
  from init_calls_spec [OF _ ic] sorted have cs: "case err of
      None \<Rightarrow> calls = ord
    | Some e \<Rightarrow> (\<exists>pre n post msg. ord = pre @ n # post \<and> calls = pre @ [n] \<and> e = ErrInitialize n msg)"
    by simp
  show ?thesis
  proof (cases err)
    case None
    with cs m' sorted show ?thesis by simp
  next
    case (Some e)
    with cs obtain a n b msg where "ord = a @ n # b" "calls = a @ [n]" "e = ErrInitialize n msg"
      by auto
    with pre [of "a @ [n]" b] sorted(4) Some show ?thesis by auto
  qed
qed (use assms(5) in \<open>auto simp: Initialize_def\<close>)

lemma Initialize_in_dependency_order_witness:
  "\<exists>m'. Initialize [''disco'', ''caps''] [''disco'', ''caps''] [''caps'', ''disco''] [''caps'', ''disco'']
      (demo_manager []) = Some (m', [''disco'', ''caps''], None) \<and> order m' = [''disco'', ''caps'']"
proof -
  from Initialize_in_dependency_order [OF demo_manager_enum(1,1,2,2) demo_Initialize] demo_Initialize
  show ?thesis by auto
qed

lemma Initialize_returns:
  assumes "enumerates k1 (plugins m)" "enumerates k2 (plugins m)"
    "enumerates k3 (plugins m)" "enumerates k4 (plugins m)"
  shows "Initialize k1 k2 k3 k4 m \<noteq> None"
  using assms by (cases rule: topologicalSort_cases) (auto simp: Initialize_def Let_def)

text \<open>
  \<open>Close\<close> closes, in the reverse of the initialisation order, every plugin of the order even
  when some of them fail, and after a successful \<open>Initialize\<close> that is exactly the reverse of the
  calls made; the error returned is that of the first failing \<open>Close\<close>.
\<close>

lemma Close_reverses_Initialize:
  assumes "enumerates k1 (plugins m)" "enumerates k2 (plugins m)"
    "enumerates k3 (plugins m)" "enumerates k4 (plugins m)"
    and "Initialize k1 k2 k3 k4 m = Some (m', calls, None)"
  shows "fst (Close m') = rev calls \<and>
    (snd (Close m') = None \<longleftrightarrow> (\<forall>n p. plugins m n = Some p \<longrightarrow> Close_err p = None))"
  using assms(1-4)
proof (cases rule: topologicalSort_cases)
  case (sorted ord)
  with assms(5) have m': "m' = m\<lparr>order := ord\<rparr>" and ic: "init_calls m ord = (calls, None)"
    by (auto simp: Initialize_def)
  with init_calls_spec [OF _ ic] sorted have calls: "calls = ord" by simp
  from close_calls_None_iff [of "rev ord" m] close_calls_names [of "rev ord" m None] sorted(5) calls m'
  show ?thesis by (auto simp: Close_def)
qed (use assms(5) in \<open>auto simp: Initialize_def\<close>)

lemma Close_reverses_Initialize_witness:
  "\<exists>m'. Initialize [''disco'', ''caps''] [''disco'', ''caps''] [''caps'', ''disco''] [''caps'', ''disco'']
      (demo_manager []) = Some (m', [''disco'', ''caps''], None) \<and>
    fst (Close m') = [''caps'', ''disco''] \<and> snd (Close m') \<noteq> None"
proof -
  from Close_reverses_Initialize [OF demo_manager_enum(1,1,2,2) demo_Initialize] demo_Initialize
    demo_manager_plugins [of "[]"]
  show ?thesis by (fastforce dest: spec [of _ "''caps''"])
qed

end
