(* ===== verification/OmemoKeys.thy ===== *)
theory OmemoKeys
  imports Prelude
begin

text \<open>
  Package \<open>omemo\<close>, key material (crypto/omemo: errors.go, kdf.go, aes_gcm.go, keys.go).  The
  primitives of the Go cryptography packages and of golang.org/x/crypto are the fields of the record
  \<open>crypto\<close>, a parameter of every definition that uses them; what the code relies on is stated by the
  predicates \<open>gcm_ok\<close>, \<open>kdf_ok\<close> and \<open>dh_ok\<close>, which the theorems name as hypotheses.  The key
  conversions of keys.go are translated with the arithmetic modulo \<open>2^255 - 19\<close> they perform.
\<close>

section \<open>Errors and primitives\<close>

text \<open>
  \<open>ErrLibrary\<close> is an error handed on from a library function, \<open>ErrNoIdentity\<close> the error with the text
  ``no local identity key pair''.  \<open>Panicked\<close> is not an error value of the code: it is the outcome of a
  run-time panic, which no caller in the package recovers from.
\<close>

datatype omemo_error =
    ErrNoSession | ErrInvalidSignature | ErrInvalidMessage | ErrDuplicateMessage
  | ErrUntrustedIdentity | ErrNoPreKey | ErrInvalidKeyLength | ErrSkippedKeyLimit
  | ErrLibrary | ErrNoIdentity | Panicked

record crypto =
  hmac_sha256 :: "bytes \<Rightarrow> bytes \<Rightarrow> bytes"
  hkdf_read :: "bytes \<Rightarrow> bytes \<Rightarrow> bytes \<Rightarrow> nat \<Rightarrow> bytes option"
  gcm_seal :: "bytes \<Rightarrow> bytes \<Rightarrow> bytes \<Rightarrow> bytes"
  gcm_open :: "bytes \<Rightarrow> bytes \<Rightarrow> bytes \<Rightarrow> bytes option"
  x25519_pub :: "bytes \<Rightarrow> bytes"
  x25519_ecdh :: "bytes \<Rightarrow> bytes \<Rightarrow> bytes option"
  ed25519_sign :: "bytes \<Rightarrow> bytes \<Rightarrow> bytes"
  ed25519_verify :: "bytes \<Rightarrow> bytes \<Rightarrow> bytes \<Rightarrow> bool"
  ed25519_pub :: "bytes \<Rightarrow> bytes"
  sha512 :: "bytes \<Rightarrow> bytes"

text \<open>Documented behaviour of the primitives.\<close>

definition gcm_ok :: "crypto \<Rightarrow> bool" where
  "gcm_ok C \<longleftrightarrow>
     (\<forall>k n p. length k = 32 \<and> length n = 12 \<longrightarrow>
        gcm_open C k n (gcm_seal C k n p) = Some p \<and> length (gcm_seal C k n p) = length p + 16)"

definition kdf_ok :: "crypto \<Rightarrow> bool" where
  "kdf_ok C \<longleftrightarrow>
     (\<forall>k d. length (hmac_sha256 C k d) = 32) \<and>
     (\<forall>salt ikm info n. n \<le> 255 * 32 \<longrightarrow>
        (\<exists>out. hkdf_read C salt ikm info n = Some out \<and> length out = n))"

definition dh_ok :: "crypto \<Rightarrow> bool" where
  "dh_ok C \<longleftrightarrow>
     (\<forall>a. length a = 32 \<longrightarrow> length (x25519_pub C a) = 32) \<and>
     (\<forall>a b. length a = 32 \<and> length b = 32 \<longrightarrow>
        x25519_ecdh C a (x25519_pub C b) = x25519_ecdh C b (x25519_pub C a)) \<and>
     (\<forall>a b. length a = 32 \<and> length b = 32 \<longrightarrow> x25519_ecdh C a (x25519_pub C b) \<noteq> None)"

section \<open>Key derivation\<close>

definition hkdfSHA256 :: "crypto \<Rightarrow> bytes \<Rightarrow> bytes \<Rightarrow> bytes \<Rightarrow> nat \<Rightarrow> (omemo_error, bytes) result" where
  "hkdfSHA256 C salt ikm info n =
     (case hkdf_read C salt ikm info n of None \<Rightarrow> Inl ErrLibrary | Some out \<Rightarrow> Inr out)"

definition chainKDF :: "crypto \<Rightarrow> bytes option \<Rightarrow> bytes \<times> bytes" where
  "chainKDF C chainKey =
     (hmac_sha256 C (slice chainKey) [0x01], hmac_sha256 C (slice chainKey) [0x02])"

definition ascii :: "string \<Rightarrow> bytes" where
  "ascii s = map of_char s"

definition rootKDF :: "crypto \<Rightarrow> bytes \<Rightarrow> bytes \<Rightarrow> (omemo_error, bytes \<times> bytes) result" where
  "rootKDF C rootKey dhOutput =
     (case hkdfSHA256 C rootKey dhOutput (ascii ''OMEMO Root Chain'') 64 of
        Inl e \<Rightarrow> Inl e
      | Inr out \<Rightarrow> Inr (take 32 out, drop 32 out))"

section \<open>AES-256-GCM\<close>

definition aesKeySize :: nat where "aesKeySize = 32"
definition aesNonceSize :: nat where "aesNonceSize = 12"
definition aesTagSize :: nat where "aesTagSize = 16"

text \<open>The argument \<open>rnd\<close> is the draw for the nonce.\<close>

definition aesGCMEncrypt :: "crypto \<Rightarrow> bytes \<Rightarrow> bytes \<Rightarrow> bytes \<Rightarrow> (omemo_error, bytes \<times> bytes) result" where
  "aesGCMEncrypt C rnd key plaintext =
     (if length key \<noteq> aesKeySize then Inl ErrInvalidKeyLength
      else (let nonce = rand_bytes aesNonceSize rnd in Inr (nonce, gcm_seal C key nonce plaintext)))"

definition aesGCMDecrypt :: "crypto \<Rightarrow> bytes \<Rightarrow> bytes \<Rightarrow> bytes \<Rightarrow> (omemo_error, bytes) result" where
  "aesGCMDecrypt C key nonce ciphertext =
     (if length key \<noteq> aesKeySize then Inl ErrInvalidKeyLength
      else if length nonce \<noteq> aesNonceSize then Inl ErrInvalidMessage
      else case gcm_open C key nonce ciphertext of
             None \<Rightarrow> Inl ErrInvalidMessage
           | Some plaintext \<Rightarrow> Inr plaintext)"

section \<open>Key pairs\<close>

record IdentityKeyPair =
  ik_private :: bytes
  ik_public :: bytes

text \<open>\<open>rnd\<close> is the draw for the seed; an Ed25519 private key is the seed with the public key behind it.\<close>

definition GenerateIdentityKeyPair :: "crypto \<Rightarrow> bytes \<Rightarrow> IdentityKeyPair" where
  "GenerateIdentityKeyPair C rnd =
     (let seed = rand_bytes 32 rnd; pub = ed25519_pub C seed
      in \<lparr>ik_private = seed @ pub, ik_public = pub\<rparr>)"

definition GenerateX25519KeyPair :: "bytes \<Rightarrow> bytes" where
  "GenerateX25519KeyPair rnd = rand_bytes 32 rnd"

text \<open>\<open>ecdh.X25519().NewPrivateKey\<close> and \<open>NewPublicKey\<close> check the length.\<close>

definition x25519_key :: "bytes \<Rightarrow> (omemo_error, bytes) result" where
  "x25519_key b = (if length b = 32 then Inr b else Inl ErrLibrary)"

definition x25519DH :: "crypto \<Rightarrow> bytes \<Rightarrow> bytes \<Rightarrow> (omemo_error, bytes) result" where
  "x25519DH C privateKey publicKeyBytes =
     (case x25519_key publicKeyBytes of
        Inl e \<Rightarrow> Inl e
      | Inr pub \<Rightarrow>
          (case x25519_ecdh C privateKey pub of None \<Rightarrow> Inl ErrLibrary | Some out \<Rightarrow> Inr out))"

definition clamp :: "bytes \<Rightarrow> bytes" where
  "clamp h = h[0 := h ! 0 AND 248, 31 := ((h ! 31) AND 127) OR 64]"

definition Ed25519PrivateKeyToX25519 :: "crypto \<Rightarrow> bytes \<Rightarrow> (omemo_error, bytes) result" where
  "Ed25519PrivateKeyToX25519 C edPriv =
     (if length edPriv < 32 then Inl Panicked
      else let seed = take 32 edPriv; h = sha512 C seed in x25519_key (take 32 (clamp h)))"

definition field_p :: int where
  "field_p = 2 ^ 255 - 19"

text \<open>\<open>big.Int.SetBytes\<close> reads big-endian; \<open>u.Bytes()\<close> gives the big-endian digits without leading zeros.\<close>

fun be_value :: "bytes \<Rightarrow> int" where
  "be_value [] = 0"
| "be_value (b # bs) = uint b * 256 ^ length bs + be_value bs"

fun le_digits :: "nat \<Rightarrow> bytes" where
  "le_digits n = (if n = 0 then [] else of_nat (n mod 256) # le_digits (n div 256))"

declare le_digits.simps [simp del]

definition big_Bytes :: "int \<Rightarrow> bytes" where
  "big_Bytes u = rev (le_digits (nat u))"

text \<open>\<open>big.Int.ModInverse\<close>: nil when the argument and the modulus are not coprime.\<close>

definition ModInverse :: "int \<Rightarrow> int \<Rightarrow> int option" where
  "ModInverse g n =
     (if gcd g n \<noteq> 1 then None else Some (fst (bezw (nat g) (nat n)) mod n))"

definition Ed25519PublicKeyToX25519 :: "bytes \<Rightarrow> (omemo_error, bytes) result" where
  "Ed25519PublicKeyToX25519 edPub =
     (if length edPub \<noteq> 32 then Inl ErrInvalidKeyLength
      else
        let yBytes = edPub[31 := edPub ! 31 AND 0x7F];
            y = be_value (rev yBytes);
            numerator = (1 + y) mod field_p;
            denominator = (1 - y) mod field_p
        in case ModInverse denominator field_p of
             None \<Rightarrow> Inl ErrInvalidKeyLength
           | Some denomInv \<Rightarrow>
               (let u = (numerator * denomInv) mod field_p;
                    uBig = big_Bytes u
                in Inr (rev uBig @ replicate (32 - length uBig) 0)))"

section \<open>Lemmas\<close>

lemma length_hmac [simp]: "kdf_ok C \<Longrightarrow> length (hmac_sha256 C k d) = 32"
  by (simp add: kdf_ok_def)

lemma aesGCM_roundtrip:
  assumes "gcm_ok C" and "aesGCMEncrypt C rnd key plaintext = Inr (nonce, ct)"
  shows "aesGCMDecrypt C key nonce ct = Inr plaintext \<and> length nonce = 12 \<and> length ct = length plaintext + 16"
  using assms
  by (auto simp: aesGCMEncrypt_def aesGCMDecrypt_def gcm_ok_def aesKeySize_def aesNonceSize_def Let_def
      split: if_splits)

lemma rootKDF_ok:
  assumes "kdf_ok C"
  shows "\<exists>rk ck. rootKDF C k d = Inr (rk, ck) \<and> length rk = 32 \<and> length ck = 32"
proof -
  have "(64::nat) \<le> 255 * 32" by simp
  with assms obtain out where "hkdf_read C k d (ascii ''OMEMO Root Chain'') 64 = Some out" "length out = 64"
    unfolding kdf_ok_def by blast
  then show ?thesis by (simp add: rootKDF_def hkdfSHA256_def)
qed

lemma x25519DH_agree:
  assumes "dh_ok C" "length a = 32" "length b = 32"
  shows "\<exists>out. x25519DH C a (x25519_pub C b) = Inr out \<and> x25519DH C b (x25519_pub C a) = Inr out"
proof -
  from assms obtain out where "x25519_ecdh C a (x25519_pub C b) = Some out"
      "x25519_ecdh C b (x25519_pub C a) = Some out"
    unfolding dh_ok_def by (metis option.exhaust)
  moreover have "length (x25519_pub C a) = 32" "length (x25519_pub C b) = 32"
    using assms by (simp_all add: dh_ok_def)
  ultimately show ?thesis by (simp add: x25519DH_def x25519_key_def)
qed

lemma length_le_digits: "n < 256 ^ k \<Longrightarrow> length (le_digits n) \<le> k"
proof (induction k arbitrary: n)
  case 0
  then show ?case by (simp add: le_digits.simps)
next
  case (Suc k)
  then have "n div 256 < 256 ^ k" by (simp add: less_mult_imp_div_less mult.commute)
  from Suc.IH [OF this] show ?case by (subst le_digits.simps) simp
qed

lemma be_value_snoc: "be_value (bs @ [b]) = 256 * be_value bs + uint b"
  by (induction bs) (auto simp: algebra_simps)

lemma be_value_le_digits: "be_value (rev (le_digits n)) = int n"
proof (induction n rule: le_digits.induct)
  case (1 n)
  show ?case
  proof (cases "n = 0")
    case True
    then show ?thesis by (simp add: le_digits.simps)
  next
    case False
    have "uint (of_nat (n mod 256) :: 8 word) = int (n mod 256)"
      by (simp add: unsigned_of_nat take_bit_eq_mod)
    with 1 False show ?thesis
      by (subst le_digits.simps) (simp add: be_value_snoc zdiv_int zmod_int)
  qed
qed

lemma be_value_zeros: "be_value (replicate n 0 @ bs) = be_value bs"
  by (induction n) auto

lemma ModInverse_Some:
  assumes "ModInverse g n = Some i" and "0 \<le> g" and "0 < n"
  shows "(g * i) mod n = 1 mod n"
proof -
  from assms have g: "gcd g n = 1" and i: "i = fst (bezw (nat g) (nat n)) mod n"
    by (auto simp: ModInverse_def split: if_splits)
  have "fst (bezw (nat g) (nat n)) * g + snd (bezw (nat g) (nat n)) * n = 1"
    using bezw_aux [of "nat g" "nat n"] assms(2,3) g by (simp add: gcd_int_def)
  then have "(g * fst (bezw (nat g) (nat n))) mod n = 1 mod n"
    by (metis mod_mult_self1 mult.commute)
  then show ?thesis by (simp add: i mod_mult_right_eq)
qed

text \<open>The y-coordinate an Ed25519 public key encodes: little-endian, the sign bit cleared.\<close>

definition ed_y :: "bytes \<Rightarrow> int" where
  "ed_y edPub = be_value (rev (edPub[31 := edPub ! 31 AND 0x7F]))"

lemma field_p_bounds: "0 < field_p" "nat field_p \<le> 256 ^ 32"
  by (simp_all add: field_p_def)

text \<open>
  The converted public key is the little-endian encoding, in exactly 32 bytes, of the field
  element u with u (1 - y) = 1 + y modulo 2^255 - 19, where y is the Edwards coordinate the Ed25519 key
  encodes: the birational map the comment of keys.go names.
\<close>

lemma Ed25519PublicKeyToX25519_birational:
  assumes "Ed25519PublicKeyToX25519 edPub = Inr uBytes"
  shows "length uBytes = 32 \<and> 0 \<le> be_value (rev uBytes) \<and> be_value (rev uBytes) < field_p \<and>
    (be_value (rev uBytes) * (1 - ed_y edPub)) mod field_p = (1 + ed_y edPub) mod field_p"
proof -
  let ?y = "ed_y edPub"
  from assms obtain i where inv: "ModInverse ((1 - ?y) mod field_p) field_p = Some i"
    and ub: "uBytes = rev (big_Bytes (((1 + ?y) mod field_p * i) mod field_p)) @
      replicate (32 - length (big_Bytes (((1 + ?y) mod field_p * i) mod field_p))) 0"
    by (auto simp: Ed25519PublicKeyToX25519_def Let_def ed_y_def split: if_splits option.splits)
  define u where "u = ((1 + ?y) mod field_p * i) mod field_p"
  have u: "0 \<le> u" "u < field_p" using field_p_bounds(1) by (simp_all add: u_def)
  then have "nat u < 256 ^ 32" using field_p_bounds(2) by linarith
  then have len: "length (big_Bytes u) \<le> 32" by (simp add: big_Bytes_def length_le_digits)
  have val: "be_value (rev uBytes) = u"
    using u(1) unfolding ub u_def [symmetric]
    by (simp add: be_value_zeros big_Bytes_def be_value_le_digits)
  have "(u * (1 - ?y)) mod field_p = (u * ((1 - ?y) mod field_p)) mod field_p"
    by (simp add: mod_mult_right_eq)
  also have "\<dots> = ((1 + ?y) mod field_p * (((1 - ?y) mod field_p * i) mod field_p)) mod field_p"
  proof -
    define N where "N = (1 + ?y) mod field_p"
    define D where "D = (1 - ?y) mod field_p"
    show ?thesis unfolding u_def N_def [symmetric] D_def [symmetric]
      by (simp add: mod_mult_left_eq mod_mult_right_eq mult_ac)
  qed
  also have "\<dots> = (1 + ?y) mod field_p"
    using ModInverse_Some [OF inv] field_p_bounds(1) by (simp add: mod_mult_right_eq)
  finally show ?thesis using len u val unfolding ub u_def [symmetric] by simp
qed

text \<open>The clamped private scalar has the three low bits and the top bit clear and bit 254 set.\<close>

lemma clamp_bits:
  assumes "64 \<le> length h"
  shows "clamp h ! 0 AND 7 = 0" "clamp h ! 31 AND 128 = 0" "clamp h ! 31 AND 64 = 64"
proof -
  have n: "0 < length h" "31 < length h" using assms by auto
  then have c: "clamp h ! 0 = h ! 0 AND 248" "clamp h ! 31 = (h ! 31 AND 127) OR 64"
    by (simp_all add: clamp_def nth_list_update)
  have "(248::8 word) AND 7 = 0" "(127::8 word) AND 128 = 0" "(64::8 word) AND 128 = 0" by simp_all
  then show "clamp h ! 0 AND 7 = 0" "clamp h ! 31 AND 128 = 0" "clamp h ! 31 AND 64 = 64"
    unfolding c by (simp_all add: and.assoc bit.conj_disj_distrib2)
qed


section \<open>A concrete instance of the primitives\<close>

text \<open>
  Total functions that satisfy the three predicates (and are of no cryptographic use), for evaluating
  the definitions on concrete inputs.
\<close>

definition toy_scalar :: bytes where
  "toy_scalar = replicate 31 0 @ [64]"

definition toy_pub :: "bytes \<Rightarrow> bytes" where
  "toy_pub a = (if a = toy_scalar then replicate 32 0 else a)"

definition toy_crypto :: crypto where
  "toy_crypto =
     \<lparr>hmac_sha256 = (\<lambda>k d. replicate 32 (hd (k @ [9]) + hd (d @ [9]))),
      hkdf_read = (\<lambda>salt ikm info n.
        if n \<le> 255 * 32 then Some (replicate n (hd (salt @ [9]) + hd (ikm @ [9]))) else None),
      gcm_seal = (\<lambda>k n p. p @ replicate 16 0),
      gcm_open = (\<lambda>k n c. if length c < 16 then None else Some (take (length c - 16) c)),
      x25519_pub = toy_pub,
      x25519_ecdh = (\<lambda>a b. Some (map2 (XOR) (toy_pub a) b)),
      ed25519_sign = (\<lambda>k m. take 64 (m @ replicate 64 0)),
      ed25519_verify = (\<lambda>k m s. s = take 64 (m @ replicate 64 0)),
      ed25519_pub = (\<lambda>seed. 0xEC # replicate 30 0xFF @ [0x7F]),
      sha512 = (\<lambda>m. replicate 64 0)\<rparr>"

lemma toy_gcm_ok: "gcm_ok toy_crypto"
  by (simp add: gcm_ok_def toy_crypto_def)

lemma toy_kdf_ok: "kdf_ok toy_crypto"
  by (simp add: kdf_ok_def toy_crypto_def)

lemma length_toy_pub [simp]: "length a = 32 \<Longrightarrow> length (toy_pub a) = 32"
  by (simp add: toy_pub_def)

lemma toy_dh_ok: "dh_ok toy_crypto"
proof -
  have "map2 (XOR) a b = map2 (XOR) b a" for a b :: bytes
    by (rule nth_equalityI) (auto simp: xor.commute)
  then show ?thesis by (simp add: dh_ok_def toy_crypto_def)
qed

lemma toy_x25519_pub: "x25519_pub toy_crypto (replicate 32 b) = replicate 32 b"
proof -
  have "replicate 32 b ! 0 = b" "replicate 32 b ! 31 = b" "toy_scalar ! 0 = 0" "toy_scalar ! 31 = 64"
    by (simp_all add: toy_scalar_def nth_append)
  moreover have "(0 :: 8 word) \<noteq> 64" by simp
  ultimately have "replicate 32 b \<noteq> toy_scalar" by metis
  then show ?thesis by (simp add: toy_crypto_def toy_pub_def)
qed

end
