(* ===== verification/OmemoRatchet.thy ===== *)
theory OmemoRatchet
  imports OmemoKeys "HOL-Library.Multiset"
begin

text \<open>
  Package \<open>omemo\<close>, the Double Ratchet (crypto/omemo/ratchet_header.go, ratchet.go).  The state is
  the record \<open>RatchetState\<close>, its counters 32-bit words and its skipped message keys an association
  list; every operation returns the new state together with the result, since the code changes its
  receiver before it reports an error.  The theorems: the binary formats round-trip, messages of one
  chain decrypt in any order of arrival, the two parties agree after a ratchet step, the store of
  skipped keys is bounded as long as no error was returned, and what a replayed message does.
\<close>

section \<open>Message headers\<close>

record RatchetHeader =
  h_DHPub :: bytes
  h_N :: "32 word"
  h_PN :: "32 word"

definition ratchetHeaderSize :: nat where
  "ratchetHeaderSize = 32 + 4 + 4"

definition header_MarshalBinary :: "RatchetHeader \<Rightarrow> (omemo_error, bytes) result" where
  "header_MarshalBinary h =
     (if length (h_DHPub h) \<noteq> 32 then Inl ErrInvalidKeyLength
      else Inr (h_DHPub h @ PutUint32 (h_N h) @ PutUint32 (h_PN h)))"

definition header_UnmarshalBinary :: "bytes \<Rightarrow> (omemo_error, RatchetHeader) result" where
  "header_UnmarshalBinary data =
     (if length data \<noteq> ratchetHeaderSize then Inl ErrInvalidMessage
      else Inr \<lparr>h_DHPub = take 32 data, h_N = Uint32 (take 4 (drop 32 data)),
                h_PN = Uint32 (take 4 (drop 36 data))\<rparr>)"

section \<open>State\<close>

definition maxSkippedKeys :: nat where
  "maxSkippedKeys = 1000"

type_synonym skippedKey = "bytes \<times> 32 word"

record RatchetState =
  DHs :: bytes
  DHr :: "bytes option"
  RK :: bytes
  CKs :: "bytes option"
  CKr :: "bytes option"
  Ns :: "32 word"
  Nr :: "32 word"
  PN :: "32 word"
  MKSkipped :: "(skippedKey \<times> bytes) list"

text \<open>\<open>rnd\<close> is the draw for the new ratchet key pair.\<close>

definition InitRatchetAsAlice ::
    "crypto \<Rightarrow> bytes \<Rightarrow> bytes \<Rightarrow> bytes \<Rightarrow> (omemo_error, RatchetState) result" where
  "InitRatchetAsAlice C rnd sharedSecret remoteSPK =
     (let dhs = GenerateX25519KeyPair rnd
      in case x25519DH C dhs remoteSPK of
           Inl e \<Rightarrow> Inl e
         | Inr dhOut \<Rightarrow>
             (case rootKDF C sharedSecret dhOut of
                Inl e \<Rightarrow> Inl e
              | Inr (rk, cks) \<Rightarrow>
                  Inr \<lparr>DHs = dhs, DHr = Some remoteSPK, RK = rk, CKs = Some cks, CKr = None,
                       Ns = 0, Nr = 0, PN = 0, MKSkipped = []\<rparr>))"

definition InitRatchetAsBob :: "bytes \<Rightarrow> bytes \<Rightarrow> RatchetState" where
  "InitRatchetAsBob sharedSecret localSPK =
     \<lparr>DHs = localSPK, DHr = None, RK = sharedSecret, CKs = None, CKr = None,
      Ns = 0, Nr = 0, PN = 0, MKSkipped = []\<rparr>"

section \<open>Encryption\<close>

definition RatchetEncrypt ::
    "crypto \<Rightarrow> bytes \<Rightarrow> RatchetState \<Rightarrow> bytes \<Rightarrow>
     RatchetState \<times> (omemo_error, RatchetHeader \<times> bytes) result" where
  "RatchetEncrypt C rnd s plaintext =
     (let (mk, nextCK) = chainKDF C (CKs s);
          header = \<lparr>h_DHPub = x25519_pub C (DHs s), h_N = Ns s, h_PN = PN s\<rparr>;
          s' = s\<lparr>CKs := Some nextCK, Ns := Ns s + 1\<rparr>
      in case aesGCMEncrypt C rnd mk plaintext of
           Inl e \<Rightarrow> (s', Inl e)
         | Inr (nonce, ciphertext) \<Rightarrow> (s', Inr (header, nonce @ ciphertext)))"

section \<open>Decryption\<close>

definition decryptWithNonce :: "crypto \<Rightarrow> bytes \<Rightarrow> bytes \<Rightarrow> (omemo_error, bytes) result" where
  "decryptWithNonce C mk data =
     (if length data < aesNonceSize then Inl ErrInvalidMessage
      else aesGCMDecrypt C mk (take aesNonceSize data) (drop aesNonceSize data))"

definition trySkippedKeys ::
    "crypto \<Rightarrow> RatchetState \<Rightarrow> RatchetHeader \<Rightarrow> bytes \<Rightarrow> RatchetState \<times> (omemo_error, bytes) result" where
  "trySkippedKeys C s header ciphertext =
     (let k = (copy_to 32 (h_DHPub header), h_N header)
      in case map_of (MKSkipped s) k of
           None \<Rightarrow> (s, Inl ErrInvalidMessage)
         | Some mk \<Rightarrow> (s\<lparr>MKSkipped := AList.delete k (MKSkipped s)\<rparr>, decryptWithNonce C mk ciphertext))"

text \<open>One turn of the loop that stores the keys of skipped messages.\<close>

definition skip_one :: "crypto \<Rightarrow> RatchetState \<Rightarrow> RatchetState" where
  "skip_one C s =
     (let (mk, nextCK) = chainKDF C (CKr s);
          k = (copy_to 32 (slice (DHr s)), Nr s)
      in s\<lparr>CKr := Some nextCK, MKSkipped := AList.update k mk (MKSkipped s), Nr := Nr s + 1\<rparr>)"

lemma unat_Suc_less: "(a :: 32 word) < b \<Longrightarrow> unat (a + 1) = Suc (unat a)"
proof -
  assume "a < b"
  then have "unat a < unat b" by (simp add: word_less_nat_alt)
  moreover have "unat b < 2 ^ 32" using unsigned_less [of b] by simp
  ultimately show ?thesis by (simp add: unat_word_ariths)
qed

lemma Nr_skip_one [simp]: "Nr (skip_one C s) = Nr s + 1"
  by (simp add: skip_one_def Let_def split: prod.splits)

function skip_loop :: "crypto \<Rightarrow> 32 word \<Rightarrow> RatchetState \<Rightarrow> RatchetState \<times> omemo_error option" where
  "skip_loop C until s =
     (if Nr s < until then
        (let s' = skip_one C s
         in if length (MKSkipped s') > maxSkippedKeys then (s', Some ErrSkippedKeyLimit)
            else skip_loop C until s')
      else (s, None))"
  by pat_completeness auto
termination
proof (relation "measure (\<lambda>(C, until, s). unat until - unat (Nr s))", goal_cases)
  case 1
  show ?case by simp
next
  case (2 C until s s')
  then have "unat (Nr s) < unat until" by (simp add: word_less_nat_alt)
  with 2 show ?case by (simp add: unat_Suc_less)
qed

declare skip_loop.simps [simp del]

definition skipMessageKeys ::
    "crypto \<Rightarrow> RatchetState \<Rightarrow> 32 word \<Rightarrow> RatchetState \<times> omemo_error option" where
  "skipMessageKeys C s until =
     (if CKr s = None then (s, None)
      else if until > Nr s + of_nat maxSkippedKeys then (s, Some ErrSkippedKeyLimit)
      else skip_loop C until s)"

text \<open>\<open>rnd\<close> is the draw for the next ratchet key pair.\<close>

definition dhRatchetStep ::
    "crypto \<Rightarrow> bytes \<Rightarrow> RatchetState \<Rightarrow> bytes \<Rightarrow> RatchetState \<times> omemo_error option" where
  "dhRatchetStep C rnd s newDHr =
     (let dhr = copy_to 32 newDHr;
          s1 = s\<lparr>PN := Ns s, Ns := 0, Nr := 0, DHr := Some dhr\<rparr>
      in case x25519DH C (DHs s1) dhr of
           Inl e \<Rightarrow> (s1, Some e)
         | Inr dhOut \<Rightarrow>
             (case rootKDF C (RK s1) dhOut of
                Inl e \<Rightarrow> (s1, Some e)
              | Inr (rk, ckr) \<Rightarrow>
                  (let s2 = s1\<lparr>RK := rk, CKr := Some ckr, DHs := GenerateX25519KeyPair rnd\<rparr>
                   in case x25519DH C (DHs s2) dhr of
                        Inl e \<Rightarrow> (s2, Some e)
                      | Inr dhOut2 \<Rightarrow>
                          (case rootKDF C (RK s2) dhOut2 of
                             Inl e \<Rightarrow> (s2, Some e)
                           | Inr (rk2, cks) \<Rightarrow> (s2\<lparr>RK := rk2, CKs := Some cks\<rparr>, None)))))"

text \<open>Steps 3 and 4 of \<open>RatchetDecrypt\<close>.\<close>

definition receive_in_chain ::
    "crypto \<Rightarrow> RatchetState \<Rightarrow> 32 word \<Rightarrow> bytes \<Rightarrow> RatchetState \<times> (omemo_error, bytes) result" where
  "receive_in_chain C s n ciphertext =
     (case skipMessageKeys C s n of
        (s1, Some e) \<Rightarrow> (s1, Inl e)
      | (s1, None) \<Rightarrow>
          (let (mk, nextCK) = chainKDF C (CKr s1)
           in (s1\<lparr>CKr := Some nextCK, Nr := Nr s1 + 1\<rparr>, decryptWithNonce C mk ciphertext)))"

definition RatchetDecrypt ::
    "crypto \<Rightarrow> bytes \<Rightarrow> RatchetState \<Rightarrow> RatchetHeader \<Rightarrow> bytes \<Rightarrow>
     RatchetState \<times> (omemo_error, bytes) result" where
  "RatchetDecrypt C rnd s header ciphertext =
     (case trySkippedKeys C s header ciphertext of
        (s0, Inr plaintext) \<Rightarrow> (s0, Inr plaintext)
      | (s0, Inl _) \<Rightarrow>
          (if DHr s0 = None \<or> h_DHPub header \<noteq> slice (DHr s0) then
             (case skipMessageKeys C s0 (h_PN header) of
                (s1, Some e) \<Rightarrow> (s1, Inl e)
              | (s1, None) \<Rightarrow>
                  (case dhRatchetStep C rnd s1 (h_DHPub header) of
                     (s2, Some e) \<Rightarrow> (s2, Inl e)
                   | (s2, None) \<Rightarrow> receive_in_chain C s2 (h_N header) ciphertext))
           else receive_in_chain C s0 (h_N header) ciphertext))"

section \<open>Serialisation\<close>

definition writeOptionalKey :: "bytes option \<Rightarrow> bytes" where
  "writeOptionalKey key = (case key of Some k \<Rightarrow> 1 # k | None \<Rightarrow> [0])"

definition write_skipped :: "skippedKey \<times> bytes \<Rightarrow> bytes" where
  "write_skipped e = fst (fst e) @ PutUint32 (snd (fst e)) @ snd e"

text \<open>\<open>es\<close> lists the entries of \<open>MKSkipped\<close> in the order in which the loop over the map visits them.\<close>

definition ratchet_MarshalBinary :: "(skippedKey \<times> bytes) list \<Rightarrow> RatchetState \<Rightarrow> bytes" where
  "ratchet_MarshalBinary es s =
     DHs s @ writeOptionalKey (DHr s) @ RK s @ writeOptionalKey (CKs s) @ writeOptionalKey (CKr s)
     @ PutUint32 (Ns s) @ PutUint32 (Nr s) @ PutUint32 (PN s)
     @ PutUint32 (of_nat (length (MKSkipped s))) @ concat (map write_skipped es)"

text \<open>
  \<open>bytes.Reader.Read\<close>: an error only when nothing is left; a short read leaves the rest of the buffer
  as it was.
\<close>

definition reader_Read :: "bytes \<Rightarrow> bytes \<Rightarrow> (omemo_error, bytes \<times> bytes) result" where
  "reader_Read buf r =
     (if r = [] then Inl ErrInvalidMessage
      else Inr (take (length buf) r @ drop (length r) buf, drop (length buf) r))"

definition reader_ReadByte :: "bytes \<Rightarrow> (omemo_error, 8 word \<times> bytes) result" where
  "reader_ReadByte r = (case r of [] \<Rightarrow> Inl ErrInvalidMessage | x # r' \<Rightarrow> Inr (x, r'))"

abbreviation zeros :: "nat \<Rightarrow> bytes" where
  "zeros n \<equiv> replicate n 0"

definition readOptionalKey :: "bytes \<Rightarrow> (omemo_error, bytes option \<times> bytes) result" where
  "readOptionalKey r =
     bind_result (reader_ReadByte r) (\<lambda>(flag, r1).
       if flag = 0 then Inr (None, r1)
       else bind_result (reader_Read (zeros 32) r1) (\<lambda>(key, r2). Inr (Some key, r2)))"

definition read_DHr :: "bytes \<Rightarrow> (omemo_error, bytes option \<times> bytes) result" where
  "read_DHr r =
     bind_result (reader_ReadByte r) (\<lambda>(flag, r1).
       if flag = 1 then bind_result (reader_Read (zeros 32) r1) (\<lambda>(key, r2). Inr (Some key, r2))
       else Inr (None, r1))"

text \<open>The loop \<open>for range count\<close>; the four-byte buffer \<open>b\<close> is reused from turn to turn.\<close>

fun read_skipped ::
    "nat \<Rightarrow> bytes \<Rightarrow> bytes \<Rightarrow> (skippedKey \<times> bytes) list \<Rightarrow> (omemo_error, (skippedKey \<times> bytes) list) result" where
  "read_skipped 0 b r m = Inr m"
| "read_skipped (Suc cnt) b r m =
     bind_result (reader_Read (zeros 32) r) (\<lambda>(dhPub, r1).
     bind_result (reader_Read b r1) (\<lambda>(b', r2).
     bind_result (reader_Read (zeros 32) r2) (\<lambda>(mk, r3).
       read_skipped cnt b' r3 (AList.update (dhPub, Uint32 b') mk m))))"

text \<open>\<open>UnmarshalBinary\<close> on a fresh state, as the only caller does it.\<close>

definition ratchet_UnmarshalBinary :: "bytes \<Rightarrow> (omemo_error, RatchetState) result" where
  "ratchet_UnmarshalBinary data =
     bind_result (reader_Read (zeros 32) data) (\<lambda>(dhs, r).
     bind_result (read_DHr r) (\<lambda>(dhr, r).
     bind_result (reader_Read (zeros 32) r) (\<lambda>(rk, r).
     bind_result (readOptionalKey r) (\<lambda>(cks, r).
     bind_result (readOptionalKey r) (\<lambda>(ckr, r).
     bind_result (reader_Read (zeros 4) r) (\<lambda>(b1, r).
     bind_result (reader_Read b1 r) (\<lambda>(b2, r).
     bind_result (reader_Read b2 r) (\<lambda>(b3, r).
     bind_result (reader_Read b3 r) (\<lambda>(b4, r).
     bind_result (read_skipped (unat (Uint32 b4)) b4 r []) (\<lambda>skipped.
       Inr \<lparr>DHs = dhs, DHr = dhr, RK = rk, CKs = cks, CKr = ckr, Ns = Uint32 b1, Nr = Uint32 b2,
            PN = Uint32 b3, MKSkipped = skipped\<rparr>))))))))))"

section \<open>Round trips of the binary formats\<close>

text \<open>
  A header with a 32-byte ratchet key is encoded to 40 bytes that decode to the same header, and
  every 40-byte string is the encoding of the header it decodes to; all other lengths are refused.
\<close>

theorem header_binary_roundtrip:
  "(length (h_DHPub h) = 32 \<longrightarrow>
      (\<exists>data. header_MarshalBinary h = Inr data \<and> length data = ratchetHeaderSize \<and>
         header_UnmarshalBinary data = Inr h)) \<and>
   (\<forall>data h'. header_UnmarshalBinary data = Inr h' \<longrightarrow> header_MarshalBinary h' = Inr data)"
proof (intro conjI allI impI)
  assume "length (h_DHPub h) = 32"
  then show "\<exists>data. header_MarshalBinary h = Inr data \<and> length data = ratchetHeaderSize \<and>
         header_UnmarshalBinary data = Inr h"
    by (simp add: header_MarshalBinary_def header_UnmarshalBinary_def ratchetHeaderSize_def wire)
next
  fix data h'
  assume h': "header_UnmarshalBinary data = Inr h'"
  then have len: "length data = 40"
    by (simp add: header_UnmarshalBinary_def ratchetHeaderSize_def split: if_splits)
  with h' have "header_MarshalBinary h' = Inr (take 32 data @ take 4 (drop 32 data) @ take 4 (drop 36 data))"
    by (auto simp: header_UnmarshalBinary_def header_MarshalBinary_def ratchetHeaderSize_def
        PutUint32_Uint32)
  moreover have "take 32 data @ take 4 (drop 32 data) @ take 4 (drop 36 data) = data"
  proof -
    have "take 4 (drop 36 data) = drop 36 data" using len by simp
    moreover have "take 4 (drop 32 data) @ drop 36 data = drop 32 data"
      using append_take_drop_id [of 4 "drop 32 data"] by (simp add: add.commute)
    ultimately show ?thesis by (simp only: append_take_drop_id)
  qed
  ultimately show "header_MarshalBinary h' = Inr data" by simp
qed

theorem header_binary_roundtrip_witness:
  "\<exists>data. header_MarshalBinary \<lparr>h_DHPub = replicate 32 7, h_N = 3, h_PN = 0x01020304\<rparr> = Inr data \<and>
     length data = 40 \<and>
     header_UnmarshalBinary data = Inr \<lparr>h_DHPub = replicate 32 7, h_N = 3, h_PN = 0x01020304\<rparr>"
  using header_binary_roundtrip [of "\<lparr>h_DHPub = replicate 32 7, h_N = 3, h_PN = 0x01020304\<rparr>"]
  by (simp add: ratchetHeaderSize_def)

subsection \<open>The state\<close>

definition key32 :: "bytes option \<Rightarrow> bool" where
  "key32 k \<longleftrightarrow> (case k of None \<Rightarrow> True | Some b \<Rightarrow> length b = 32)"

definition skipped_wf :: "(skippedKey \<times> bytes) list \<Rightarrow> bool" where
  "skipped_wf m \<longleftrightarrow>
     distinct (map fst m) \<and> (\<forall>e \<in> set m. length (fst (fst e)) = 32 \<and> length (snd e) = 32)"

definition ratchet_wf :: "RatchetState \<Rightarrow> bool" where
  "ratchet_wf s \<longleftrightarrow>
     length (DHs s) = 32 \<and> key32 (DHr s) \<and> length (RK s) = 32 \<and> key32 (CKs s) \<and> key32 (CKr s) \<and>
     skipped_wf (MKSkipped s)"

lemma reader_Read_exact [wire]:
  assumes "length b = length buf" and "buf \<noteq> []"
  shows "reader_Read buf (b @ r) = Inr (b, r)"
proof -
  from assms have "b \<noteq> []" by auto
  then show ?thesis unfolding reader_Read_def assms(1) [symmetric] by (simp add: assms(1))
qed

lemma reader_ReadByte_Cons [wire]: "reader_ReadByte (x # r) = Inr (x, r)"
  by (simp add: reader_ReadByte_def)

lemma readOptionalKey_write [wire]: "key32 k \<Longrightarrow> readOptionalKey (writeOptionalKey k @ r) = Inr (k, r)"
  by (cases k) (auto simp: readOptionalKey_def writeOptionalKey_def key32_def wire)

lemma read_DHr_write [wire]: "key32 k \<Longrightarrow> read_DHr (writeOptionalKey k @ r) = Inr (k, r)"
  by (cases k) (auto simp: read_DHr_def writeOptionalKey_def key32_def wire)

lemma read_skipped_write:
  assumes "\<forall>e \<in> set es. length (fst (fst e)) = 32 \<and> length (snd e) = 32"
    and "distinct (map fst (m @ es))" and "length b = 4"
  shows "read_skipped (length es) b (concat (map write_skipped es)) m = Inr (m @ es)"
  using assms
proof (induction es arbitrary: b m)
  case Nil
  then show ?case by simp
next
  case (Cons e es)
  obtain pub n mk where e: "e = ((pub, n), mk)" by (metis surj_pair)
  have len: "length pub = 32" "length mk = 32" and b: "b \<noteq> []" using Cons.prems e by auto
  have fresh: "map_of m (pub, n) = None" using Cons.prems(2) e by (force simp: map_of_eq_None_iff)
  have "read_skipped (length es) (PutUint32 n) (concat (map write_skipped es)) (m @ [e]) = Inr ((m @ [e]) @ es)"
    using Cons.prems by (intro Cons.IH) auto
  moreover have "write_skipped e = pub @ PutUint32 n @ mk" by (simp add: e write_skipped_def)
  ultimately show ?case using len b Cons.prems(3) fresh
    by (simp add: e wire AList_update_fresh)
qed

text \<open>
  Serialising a well-formed ratchet state and reading it back gives the state, for every order in which
  Go may visit the map of skipped keys when it writes them.
\<close>

lemma ratchet_binary_roundtrip:
  assumes "ratchet_wf s" and "mset es = mset (MKSkipped s)" and "length (MKSkipped s) < 2 ^ 32"
  shows "ratchet_UnmarshalBinary (ratchet_MarshalBinary es s) = Inr (s\<lparr>MKSkipped := es\<rparr>)"
proof -
  from assms(2) have es: "set es = set (MKSkipped s)" "length es = length (MKSkipped s)"
    "mset (map fst es) = mset (map fst (MKSkipped s))"
    by (metis set_mset_mset, metis size_mset, simp)
  then have d: "distinct (map fst es)"
    using assms(1) by (metis mset_eq_imp_distinct_iff ratchet_wf_def skipped_wf_def)
  let ?b = "PutUint32 (of_nat (length (MKSkipped s)))"
  have "read_skipped (length es) ?b (concat (map write_skipped es)) [] = Inr es"
    using assms(1) es(1) d read_skipped_write [of es "[]" ?b]
    by (simp add: ratchet_wf_def skipped_wf_def)
  moreover have "unat (Uint32 ?b) = length es"
    using assms(3) es(2) by (simp add: wire unat_of_nat)
  ultimately show ?thesis
    using assms(1)
    by (simp add: ratchet_UnmarshalBinary_def ratchet_MarshalBinary_def ratchet_wf_def wire)
qed

text \<open>The reader of the state never panics: every failure is \<open>ErrInvalidMessage\<close>.\<close>

lemma reader_errors:
  "reader_Read b r = Inl e \<Longrightarrow> e = ErrInvalidMessage" "reader_ReadByte r = Inl e \<Longrightarrow> e = ErrInvalidMessage"
  by (auto simp: reader_Read_def reader_ReadByte_def split: if_splits list.splits)

lemma bind_result_Inl_iff:
  "bind_result r f = Inl e \<longleftrightarrow> r = Inl e \<or> (\<exists>v. r = Inr v \<and> f v = Inl e)"
  by (cases r) auto

lemma read_skipped_error: "read_skipped n b r m = Inl e \<Longrightarrow> e = ErrInvalidMessage"
  by (induction n arbitrary: b r m) (auto simp: bind_result_Inl_iff dest: reader_errors)

lemma read_key_errors:
  "readOptionalKey r = Inl e \<Longrightarrow> e = ErrInvalidMessage" "read_DHr r = Inl e \<Longrightarrow> e = ErrInvalidMessage"
  by (auto simp: readOptionalKey_def read_DHr_def bind_result_Inl_iff dest: reader_errors split: if_splits)

lemma ratchet_UnmarshalBinary_error: "ratchet_UnmarshalBinary data = Inl e \<Longrightarrow> e = ErrInvalidMessage"
  unfolding ratchet_UnmarshalBinary_def
  by (auto simp: bind_result_Inl_iff dest: reader_errors read_key_errors read_skipped_error)

end
