(* ===== verification/OmemoConversation.thy ===== *)
theory OmemoConversation
  imports OmemoRatchet
begin

text \<open>
  What two parties achieve with the operations of \<open>OmemoRatchet\<close>.  The symmetric chain is described by
  \<open>ck_iter\<close> and \<open>mk_at\<close>, the chain key and the message key after a number of steps; \<open>chain_at\<close> relates a
  receiver to the chain its peer sends on and to the set of message numbers whose keys it has put aside;
  \<open>ahead\<close> relates two parties one of which has made a Diffie-Hellman step the other has not seen.
\<close>

section \<open>The symmetric chain\<close>

fun ck_iter :: "crypto \<Rightarrow> bytes \<Rightarrow> nat \<Rightarrow> bytes" where
  "ck_iter C ck 0 = ck"
| "ck_iter C ck (Suc n) = hmac_sha256 C (ck_iter C ck n) [0x02]"

definition mk_at :: "crypto \<Rightarrow> bytes \<Rightarrow> nat \<Rightarrow> bytes" where
  "mk_at C ck n = hmac_sha256 C (ck_iter C ck n) [0x01]"

lemma chainKDF_iter: "chainKDF C (Some (ck_iter C ck n)) = (mk_at C ck n, ck_iter C ck (Suc n))"
  by (simp add: chainKDF_def mk_at_def)

lemma ck_iter_shift: "ck_iter C (ck_iter C ck 1) n = ck_iter C ck (Suc n)"
  by (induction n) auto

lemma mk_at_shift: "mk_at C (ck_iter C ck 1) n = mk_at C ck (Suc n)"
  unfolding mk_at_def ck_iter_shift ..

text \<open>All messages of a list encrypted, or decrypted, one after the other.\<close>

fun encrypt_all ::
    "crypto \<Rightarrow> RatchetState \<Rightarrow> (bytes \<times> bytes) list \<Rightarrow>
     RatchetState \<times> (omemo_error, RatchetHeader \<times> bytes) result list" where
  "encrypt_all C s [] = (s, [])"
| "encrypt_all C s (p # ps) =
     (case RatchetEncrypt C (fst p) s (snd p) of (s', r) \<Rightarrow> apsnd (Cons r) (encrypt_all C s' ps))"

fun decrypt_all ::
    "crypto \<Rightarrow> RatchetState \<Rightarrow> (bytes \<times> RatchetHeader \<times> bytes) list \<Rightarrow>
     RatchetState \<times> (omemo_error, bytes) result list" where
  "decrypt_all C s [] = (s, [])"
| "decrypt_all C s (m # ms) =
     (case RatchetDecrypt C (fst m) s (fst (snd m)) (snd (snd m)) of
        (s', r) \<Rightarrow> apsnd (Cons r) (decrypt_all C s' ms))"

text \<open>The message number \<open>i\<close> of the chain that starts with key \<open>ck\<close> at counter \<open>n0\<close>.\<close>

definition chain_msg ::
    "crypto \<Rightarrow> bytes \<Rightarrow> bytes \<Rightarrow> 32 word \<Rightarrow> 32 word \<Rightarrow> nat \<Rightarrow> bytes \<Rightarrow> RatchetHeader \<times> bytes \<Rightarrow> bool" where
  "chain_msg C pub ck n0 pn i plaintext m \<longleftrightarrow>
     fst m = \<lparr>h_DHPub = pub, h_N = n0 + of_nat i, h_PN = pn\<rparr> \<and>
     decryptWithNonce C (mk_at C ck i) (snd m) = Inr plaintext"

lemma decryptWithNonce_seal:
  assumes "gcm_ok C" and "aesGCMEncrypt C rnd mk plaintext = Inr (nonce, ct)"
  shows "decryptWithNonce C mk (nonce @ ct) = Inr plaintext"
  using aesGCM_roundtrip [OF assms] by (simp add: decryptWithNonce_def aesNonceSize_def)

lemma RatchetEncrypt_chain:
  assumes "gcm_ok C" and "kdf_ok C" and "CKs s = Some ck"
  shows "\<exists>m. RatchetEncrypt C rnd s plaintext = (s\<lparr>CKs := Some (ck_iter C ck 1), Ns := Ns s + 1\<rparr>, Inr m) \<and>
     chain_msg C (x25519_pub C (DHs s)) ck (Ns s) (PN s) 0 plaintext m"
proof -
  have mk: "chainKDF C (CKs s) = (mk_at C ck 0, ck_iter C ck 1)"
    using chainKDF_iter [of C ck 0] assms(3) by simp
  have len: "length (mk_at C ck 0) = 32" using assms(2) by (simp add: mk_at_def)
  define nonce where "nonce = rand_bytes 12 rnd"
  have enc: "aesGCMEncrypt C rnd (mk_at C ck 0) plaintext = Inr (nonce, gcm_seal C (mk_at C ck 0) nonce plaintext)"
    using len by (simp add: aesGCMEncrypt_def aesKeySize_def aesNonceSize_def nonce_def Let_def)
  show ?thesis
    using decryptWithNonce_seal [OF assms(1) enc] mk enc by (simp add: RatchetEncrypt_def chain_msg_def)
qed

lemma chain_msg_shift:
  "chain_msg C pub (ck_iter C ck 1) (n0 + 1) pn i p m \<longleftrightarrow> chain_msg C pub ck n0 pn (Suc i) p m"
  unfolding chain_msg_def mk_at_shift by (simp add: add.assoc)

lemma encrypt_all_chain:
  assumes "gcm_ok C" and "kdf_ok C" and "CKs s = Some ck"
  shows "\<exists>ms. snd (encrypt_all C s ps) = map Inr ms \<and> length ms = length ps \<and>
     (\<forall>i < length ps. chain_msg C (x25519_pub C (DHs s)) ck (Ns s) (PN s) i (snd (ps ! i)) (ms ! i)) \<and>
     fst (encrypt_all C s ps) = s\<lparr>CKs := Some (ck_iter C ck (length ps)), Ns := Ns s + of_nat (length ps)\<rparr>"
  using assms(3)
proof (induction ps arbitrary: s ck)
  case Nil
  then show ?case by simp
next
  case (Cons p ps)
  let ?s = "s\<lparr>CKs := Some (ck_iter C ck 1), Ns := Ns s + 1\<rparr>"
  obtain m where m: "RatchetEncrypt C (fst p) s (snd p) = (?s, Inr m)"
      "chain_msg C (x25519_pub C (DHs s)) ck (Ns s) (PN s) 0 (snd p) m"
    using RatchetEncrypt_chain [OF assms(1,2) Cons.prems] by blast
  have "CKs ?s = Some (ck_iter C ck 1)" by simp
  from Cons.IH [OF this] obtain ms where ms: "snd (encrypt_all C ?s ps) = map Inr ms" "length ms = length ps"
      "\<forall>i < length ps. chain_msg C (x25519_pub C (DHs s)) (ck_iter C ck 1) (Ns s + 1) (PN s) i (snd (ps ! i)) (ms ! i)"
      "fst (encrypt_all C ?s ps) =
         ?s\<lparr>CKs := Some (ck_iter C (ck_iter C ck 1) (length ps)), Ns := Ns s + 1 + of_nat (length ps)\<rparr>"
    by auto
  have "\<forall>i < length (p # ps).
      chain_msg C (x25519_pub C (DHs s)) ck (Ns s) (PN s) i (snd ((p # ps) ! i)) ((m # ms) ! i)"
    using m(2) ms(3) unfolding chain_msg_shift by (auto simp: less_Suc_eq_0_disj)
  moreover have "fst (encrypt_all C s (p # ps)) =
      s\<lparr>CKs := Some (ck_iter C ck (length (p # ps))), Ns := Ns s + of_nat (length (p # ps))\<rparr>"
    using m(1) ms(4) unfolding ck_iter_shift by (simp add: add.assoc)
  ultimately show ?case
    using m(1) ms(1,2) by (intro exI [of _ "m # ms"]) simp
qed

section \<open>Receiving on a chain\<close>

text \<open>
  The receiver stands at message number \<open>k\<close> of the chain; \<open>P\<close> are the numbers below \<open>k\<close> whose keys are
  put aside.
\<close>

definition chain_at ::
    "crypto \<Rightarrow> bytes \<Rightarrow> bytes \<Rightarrow> 32 word \<Rightarrow> nat \<Rightarrow> nat set \<Rightarrow> RatchetState \<Rightarrow> bool" where
  "chain_at C pub ck n0 k P r \<longleftrightarrow>
     DHr r = Some pub \<and> CKr r = Some (ck_iter C ck k) \<and> Nr r = n0 + of_nat k \<and> P \<subseteq> {..<k} \<and>
     (\<forall>j. unat n0 + j < 2 ^ 32 \<longrightarrow>
        map_of (MKSkipped r) (pub, n0 + of_nat j) = (if j \<in> P then Some (mk_at C ck j) else None))"

lemma unat_offset: "unat (n0 :: 32 word) + j < 2 ^ 32 \<Longrightarrow> unat (n0 + of_nat j) = unat n0 + j"
  by (simp add: unat_word_ariths unat_of_nat)

lemma offset_inj:
  assumes "unat (n0 :: 32 word) + i < 2 ^ 32" and "unat n0 + j < 2 ^ 32"
  shows "n0 + of_nat i = n0 + of_nat j \<longleftrightarrow> i = j"
  using unat_offset [OF assms(1)] unat_offset [OF assms(2)] by (metis add_left_cancel)

text \<open>What receiving on a chain leaves alone.\<close>

definition same_sender :: "RatchetState \<Rightarrow> RatchetState \<Rightarrow> bool" where
  "same_sender r r' \<longleftrightarrow>
     DHs r' = DHs r \<and> RK r' = RK r \<and> CKs r' = CKs r \<and> Ns r' = Ns r \<and> PN r' = PN r"

lemma same_sender_trans: "same_sender a b \<Longrightarrow> same_sender b c \<Longrightarrow> same_sender a c"
  by (simp add: same_sender_def)

lemma skip_one_chain:
  assumes "chain_at C pub ck n0 k P r" and "length pub = 32" and "unat n0 + Suc k < 2 ^ 32"
  shows "chain_at C pub ck n0 (Suc k) (insert k P) (skip_one C r)"
    and "length (MKSkipped (skip_one C r)) \<le> Suc (length (MKSkipped r))"
    and "same_sender r (skip_one C r)"
proof -
  from assms(1) have r: "DHr r = Some pub" "CKr r = Some (ck_iter C ck k)" "Nr r = n0 + of_nat k"
      "P \<subseteq> {..<k}"
      "\<And>j. unat n0 + j < 2 ^ 32 \<Longrightarrow>
         map_of (MKSkipped r) (pub, n0 + of_nat j) = (if j \<in> P then Some (mk_at C ck j) else None)"
    by (auto simp: chain_at_def)
  have one: "skip_one C r = r\<lparr>CKr := Some (ck_iter C ck (Suc k)),
      MKSkipped := AList.update (pub, n0 + of_nat k) (mk_at C ck k) (MKSkipped r), Nr := n0 + of_nat k + 1\<rparr>"
    using assms(2) r(1-3) by (simp add: skip_one_def chainKDF_iter)
  show "same_sender r (skip_one C r)" by (simp add: one same_sender_def)
  show "length (MKSkipped (skip_one C r)) \<le> Suc (length (MKSkipped r))"
    by (simp add: one length_AList_update)
  have inj: "n0 + of_nat j = n0 + of_nat k \<longleftrightarrow> j = k" if "unat n0 + j < 2 ^ 32" for j
    using offset_inj [OF that, of k] assms(3) by simp
  have "map_of (MKSkipped (skip_one C r)) (pub, n0 + of_nat j)
      = (if j \<in> insert k P then Some (mk_at C ck j) else None)" if j: "unat n0 + j < 2 ^ 32" for j
    using inj [OF j] r(5) [OF j] unfolding one by auto
  moreover have "insert k P \<subseteq> {..<Suc k}" using r(4) by auto
  ultimately show "chain_at C pub ck n0 (Suc k) (insert k P) (skip_one C r)"
    unfolding chain_at_def by (simp add: one r(1) add.assoc add.commute [of _ 1])
qed


lemma skip_loop_chain:
  assumes "chain_at C pub ck n0 k P r" and "length pub = 32" and "unat n0 + (k + d) < 2 ^ 32"
    and "length (MKSkipped r) + d \<le> maxSkippedKeys"
  shows "\<exists>r'. skip_loop C (n0 + of_nat (k + d)) r = (r', None) \<and>
     chain_at C pub ck n0 (k + d) (P \<union> {k..<k + d}) r' \<and>
     length (MKSkipped r') \<le> length (MKSkipped r) + d \<and> same_sender r r'"
  using assms
proof (induction d arbitrary: k P r)
  case 0
  then have "Nr r = n0 + of_nat k" by (simp add: chain_at_def)
  with 0 show ?case by (subst skip_loop.simps) (simp add: same_sender_def)
next
  case (Suc d)
  let ?r = "skip_one C r"
  have k: "unat n0 + Suc k < 2 ^ 32" using Suc.prems(3) by simp
  note one = skip_one_chain [OF Suc.prems(1,2) k]
  have len: "length (MKSkipped ?r) + d \<le> maxSkippedKeys" using one(2) Suc.prems(4) by simp
  obtain r' where r': "skip_loop C (n0 + of_nat (Suc k + d)) ?r = (r', None)"
      "chain_at C pub ck n0 (Suc k + d) (insert k P \<union> {Suc k..<Suc k + d}) r'"
      "length (MKSkipped r') \<le> length (MKSkipped ?r) + d" "same_sender ?r r'"
    using Suc.IH [OF one(1) Suc.prems(2) _ len] Suc.prems(3) by auto
  have "insert k P \<union> {Suc k..<Suc k + d} = P \<union> {k..<k + Suc d}" by auto
  moreover have "Nr r < n0 + of_nat (k + Suc d)"
  proof -
    have "Nr r = n0 + of_nat k" using Suc.prems(1) by (simp add: chain_at_def)
    then have "unat (Nr r) = unat n0 + k" using k unat_offset [of n0 k] by simp
    then show ?thesis using unat_offset [OF Suc.prems(3)] by (simp add: word_less_nat_alt)
  qed
  ultimately show ?case
    using r' len one(2,3) same_sender_trans [OF one(3) r'(4)]
    by (subst skip_loop.simps) (simp add: Let_def)
qed

text \<open>Steps 3 and 4 of \<open>RatchetDecrypt\<close> on a message at or ahead of the receiver's position.\<close>

lemma receive_in_chain_ok:
  assumes "chain_at C pub ck n0 k P r" and "length pub = 32" and "k \<le> i"
    and "unat n0 + i + maxSkippedKeys < 2 ^ 32" and "length (MKSkipped r) + (i - k) \<le> maxSkippedKeys"
    and "decryptWithNonce C (mk_at C ck i) ct = Inr p"
  shows "\<exists>r'. receive_in_chain C r (n0 + of_nat i) ct = (r', Inr p) \<and>
     chain_at C pub ck n0 (Suc i) (P \<union> {k..<i}) r' \<and>
     length (MKSkipped r') \<le> length (MKSkipped r) + (i - k) \<and> same_sender r r'"
proof -
  have i: "unat n0 + (k + (i - k)) < 2 ^ 32" "k + (i - k) = i" using assms(3,4) by auto
  obtain s where s: "skip_loop C (n0 + of_nat i) r = (s, None)" "chain_at C pub ck n0 i (P \<union> {k..<i}) s"
      "length (MKSkipped s) \<le> length (MKSkipped r) + (i - k)" "same_sender r s"
    using skip_loop_chain [OF assms(1,2) i(1) assms(5)] unfolding i(2) by blast
  have r: "Nr r = n0 + of_nat k" "CKr r \<noteq> None" using assms(1) by (auto simp: chain_at_def)
  have "unat (Nr r + of_nat maxSkippedKeys) = unat n0 + k + 1000"
    using assms(3,4) r(1) unat_offset [of n0 "k + 1000"] by (simp add: maxSkippedKeys_def add.assoc)
  moreover have "i - k \<le> 1000" using assms(5) by (simp add: maxSkippedKeys_def)
  moreover have "unat (n0 + of_nat i) = unat n0 + i" using assms(4) unat_offset [of n0 i] by simp
  ultimately have "\<not> n0 + of_nat i > Nr r + of_nat maxSkippedKeys"
    using assms(3) by (simp add: word_less_nat_alt)
  with r(2) s(1) have skip: "skipMessageKeys C r (n0 + of_nat i) = (s, None)"
    by (auto simp: skipMessageKeys_def)
  let ?r' = "s\<lparr>CKr := Some (ck_iter C ck (Suc i)), Nr := n0 + of_nat (Suc i)\<rparr>"
  have ck: "CKr s = Some (ck_iter C ck i)" "Nr s + 1 = n0 + of_nat (Suc i)"
    using s(2) by (simp_all add: chain_at_def add.assoc add.commute [of _ 1])
  have "receive_in_chain C r (n0 + of_nat i) ct = (?r', Inr p)"
    unfolding receive_in_chain_def skip using assms(6) ck by (simp add: chainKDF_iter)
  moreover have "chain_at C pub ck n0 (Suc i) (P \<union> {k..<i}) ?r'"
    using s(2) unfolding chain_at_def by (auto simp: less_Suc_eq)
  ultimately show ?thesis using s(3,4) by (auto simp: same_sender_def)
qed


lemma trySkippedKeys_chain:
  assumes "chain_at C pub ck n0 k P r" and "length pub = 32" and "unat n0 + i < 2 ^ 32"
    and "chain_msg C pub ck n0 pn i p (h, ct)"
  shows "i \<in> P \<Longrightarrow> \<exists>r'. trySkippedKeys C r h ct = (r', Inr p) \<and> chain_at C pub ck n0 k (P - {i}) r' \<and>
      length (MKSkipped r') \<le> length (MKSkipped r) \<and> same_sender r r'"
    and "i \<notin> P \<Longrightarrow> trySkippedKeys C r h ct = (r, Inl ErrInvalidMessage)"
proof -
  have h: "copy_to 32 (h_DHPub h) = pub" "h_N h = n0 + of_nat i"
    and dec: "decryptWithNonce C (mk_at C ck i) ct = Inr p"
    using assms(2,4) by (simp_all add: chain_msg_def)
  have m: "map_of (MKSkipped r) (pub, n0 + of_nat i) = (if i \<in> P then Some (mk_at C ck i) else None)"
    using assms(1,3) by (simp add: chain_at_def)
  show "i \<notin> P \<Longrightarrow> trySkippedKeys C r h ct = (r, Inl ErrInvalidMessage)"
    using m h by (simp add: trySkippedKeys_def)
  assume i: "i \<in> P"
  let ?r = "r\<lparr>MKSkipped := AList.delete (pub, n0 + of_nat i) (MKSkipped r)\<rparr>"
  have "trySkippedKeys C r h ct = (?r, Inr p)"
    using m h i dec by (simp add: trySkippedKeys_def)
  moreover have "chain_at C pub ck n0 k (P - {i}) ?r"
    using assms(1) offset_inj [OF _ assms(3)] unfolding chain_at_def by auto
  ultimately show "\<exists>r'. trySkippedKeys C r h ct = (r', Inr p) \<and> chain_at C pub ck n0 k (P - {i}) r' \<and>
      length (MKSkipped r') \<le> length (MKSkipped r) \<and> same_sender r r'"
    by (auto simp: same_sender_def length_AList_delete_le)
qed

lemma RatchetDecrypt_chain:
  assumes "chain_at C pub ck n0 k P r" and "length pub = 32" and "i \<in> P \<or> k \<le> i" and "i < B"
    and "unat n0 + B + maxSkippedKeys < 2 ^ 32" and "length (MKSkipped r) + (B - k) \<le> maxSkippedKeys"
    and "chain_msg C pub ck n0 pn i p (h, ct)"
  shows "\<exists>r' k' P'. RatchetDecrypt C rnd r h ct = (r', Inr p) \<and> chain_at C pub ck n0 k' P' r' \<and>
     (\<forall>j. j \<noteq> i \<and> (j \<in> P \<or> k \<le> j) \<longrightarrow> j \<in> P' \<or> k' \<le> j) \<and>
     length (MKSkipped r') + (B - k') \<le> maxSkippedKeys \<and> same_sender r r'"
proof (cases "i \<in> P")
  case True
  have i: "unat n0 + i < 2 ^ 32" using assms(4,5) by simp
  obtain r' where "trySkippedKeys C r h ct = (r', Inr p)" "chain_at C pub ck n0 k (P - {i}) r'"
      "length (MKSkipped r') \<le> length (MKSkipped r)" "same_sender r r'"
    using trySkippedKeys_chain(1) [OF assms(1,2) i assms(7) True] by blast
  then show ?thesis using assms(6)
    by (intro exI [of _ r'] exI [of _ k] exI [of _ "P - {i}"]) (auto simp: RatchetDecrypt_def)
next
  case False
  with assms(3) have ki: "k \<le> i" by simp
  have i: "unat n0 + i < 2 ^ 32" "unat n0 + i + maxSkippedKeys < 2 ^ 32" using assms(4,5) by auto
  have l: "length (MKSkipped r) + (i - k) \<le> maxSkippedKeys" using assms(4,6) by simp
  have m: "h_DHPub h = pub" "h_N h = n0 + of_nat i" "decryptWithNonce C (mk_at C ck i) ct = Inr p"
    using assms(7) by (simp_all add: chain_msg_def)
  obtain r' where r': "receive_in_chain C r (n0 + of_nat i) ct = (r', Inr p)"
      "chain_at C pub ck n0 (Suc i) (P \<union> {k..<i}) r'"
      "length (MKSkipped r') \<le> length (MKSkipped r) + (i - k)" "same_sender r r'"
    using receive_in_chain_ok [OF assms(1,2) ki i(2) l m(3)] by blast
  have "DHr r = Some pub" using assms(1) by (simp add: chain_at_def)
  then have "RatchetDecrypt C rnd r h ct = (r', Inr p)"
    using trySkippedKeys_chain(2) [OF assms(1,2) i(1) assms(7) False] m r'(1)
    by (simp add: RatchetDecrypt_def)
  moreover have "length (MKSkipped r') + (B - Suc i) \<le> maxSkippedKeys"
    using r'(3) assms(4,6) ki by simp
  ultimately show ?thesis using r'(2,4)
    by (intro exI [of _ r'] exI [of _ "Suc i"] exI [of _ "P \<union> {k..<i}"]) auto
qed

lemma decrypt_all_chain:
  assumes "chain_at C pub ck n0 k P r" and "length pub = 32" and "distinct is"
    and "\<forall>i \<in> set is. i < B \<and> (i \<in> P \<or> k \<le> i) \<and> chain_msg C pub ck n0 pn i (pt i) (msg i)"
    and "unat n0 + B + maxSkippedKeys < 2 ^ 32" and "length (MKSkipped r) + (B - k) \<le> maxSkippedKeys"
  shows "snd (decrypt_all C r (map (\<lambda>i. (rnd i, msg i)) is)) = map (\<lambda>i. Inr (pt i)) is \<and>
     same_sender r (fst (decrypt_all C r (map (\<lambda>i. (rnd i, msg i)) is))) \<and>
     DHr (fst (decrypt_all C r (map (\<lambda>i. (rnd i, msg i)) is))) = Some pub"
  using assms(1,3,4,6)
proof (induction "is" arbitrary: k P r)
  case Nil
  then show ?case by (simp add: same_sender_def chain_at_def)
next
  case (Cons i "is")
  have i: "i \<in> P \<or> k \<le> i" "i < B" "chain_msg C pub ck n0 pn i (pt i) (fst (msg i), snd (msg i))"
    using Cons.prems(3) by auto
  obtain r' k' P' where r': "RatchetDecrypt C (rnd i) r (fst (msg i)) (snd (msg i)) = (r', Inr (pt i))"
      "chain_at C pub ck n0 k' P' r'" "\<forall>j. j \<noteq> i \<and> (j \<in> P \<or> k \<le> j) \<longrightarrow> j \<in> P' \<or> k' \<le> j"
      "length (MKSkipped r') + (B - k') \<le> maxSkippedKeys" "same_sender r r'"
    using RatchetDecrypt_chain [OF Cons.prems(1) assms(2) i(1,2) assms(5) Cons.prems(4) i(3)] by blast
  have rest: "\<forall>j \<in> set is. j < B \<and> (j \<in> P' \<or> k' \<le> j) \<and> chain_msg C pub ck n0 pn j (pt j) (msg j)"
    using Cons.prems(2,3) r'(3) by auto
  have "distinct is" using Cons.prems(2) by simp
  note IH = Cons.IH [OF r'(2) this rest r'(4)]
  show ?case using IH r'(1) same_sender_trans [OF r'(5)] by auto
qed

text \<open>
  C10: all messages of a sending chain can be decrypted in every order of arrival, each exactly once.
  The sender encrypts the texts \<open>ps\<close>; the receiver, who stands at the same chain key and counter, is
  given the results in an arbitrary order of distinct positions \<open>is\<close> (any of them may be missing) and
  returns the text of each, as long as at most 1000 keys have to be put aside and the counters do not
  come near their wrap-around.
\<close>

theorem RatchetDecrypt_any_order:
  assumes "gcm_ok C" and "kdf_ok C"
    and "CKs s = Some ck" and "CKr r = Some ck" and "Ns s = Nr r"
    and "DHr r = Some (x25519_pub C (DHs s))" and "length (x25519_pub C (DHs s)) = 32"
    and "\<forall>n. map_of (MKSkipped r) (x25519_pub C (DHs s), n) = None"
    and "length (MKSkipped r) + length ps \<le> maxSkippedKeys"
    and "unat (Ns s) + length ps + maxSkippedKeys < 2 ^ 32"
    and "distinct is" and "\<forall>i \<in> set is. i < length ps"
  shows "\<exists>ms. snd (encrypt_all C s ps) = map Inr ms \<and> length ms = length ps \<and>
     snd (decrypt_all C r (map (\<lambda>i. (rnd i, ms ! i)) is)) = map (\<lambda>i. Inr (snd (ps ! i))) is"
proof -
  let ?pub = "x25519_pub C (DHs s)"
  obtain ms where ms: "snd (encrypt_all C s ps) = map Inr ms" "length ms = length ps"
      "\<forall>i < length ps. chain_msg C ?pub ck (Ns s) (PN s) i (snd (ps ! i)) (ms ! i)"
    using encrypt_all_chain [OF assms(1-3), of ps] by blast
  have at: "chain_at C ?pub ck (Ns s) 0 {} r" using assms(4-6,8) by (simp add: chain_at_def)
  have "snd (decrypt_all C r (map (\<lambda>i. (rnd i, ms ! i)) is)) = map (\<lambda>i. Inr (snd (ps ! i))) is"
    using decrypt_all_chain [OF at assms(7,11), where B = "length ps" and msg = "\<lambda>i. ms ! i"
        and pt = "\<lambda>i. snd (ps ! i)" and pn = "PN s"] assms(9,10,12) ms(3) by simp
  with ms(1,2) show ?thesis by blast
qed


definition toy_sender :: RatchetState where
  "toy_sender = \<lparr>DHs = replicate 32 5, DHr = None, RK = replicate 32 1, CKs = Some (replicate 32 2),
     CKr = None, Ns = 0, Nr = 0, PN = 0, MKSkipped = []\<rparr>"

definition toy_receiver :: RatchetState where
  "toy_receiver = \<lparr>DHs = replicate 32 6, DHr = Some (replicate 32 5), RK = replicate 32 1, CKs = None,
     CKr = Some (replicate 32 2), Ns = 0, Nr = 0, PN = 0, MKSkipped = []\<rparr>"

theorem RatchetDecrypt_any_order_witness:
  "\<exists>ms. snd (encrypt_all toy_crypto toy_sender [([], [1]), ([], [2]), ([], [3])]) = map Inr ms \<and>
     length ms = 3 \<and>
     snd (decrypt_all toy_crypto toy_receiver (map (\<lambda>i. ([], ms ! i)) [2, 0])) = [Inr [3], Inr [1]]"
  using RatchetDecrypt_any_order [OF toy_gcm_ok toy_kdf_ok,
      of toy_sender "replicate 32 2" toy_receiver "[([], [1]), ([], [2]), ([], [3])]" "[2, 0]" "\<lambda>_. []"]
  by (simp add: toy_sender_def toy_receiver_def toy_x25519_pub maxSkippedKeys_def numeral_3_eq_3
      del: encrypt_all.simps decrypt_all.simps)

section \<open>Diffie-Hellman turns\<close>

text \<open>\<open>a\<close> has made a step with a key \<open>b\<close> has not seen yet, and not sent anything since.\<close>

definition ahead :: "crypto \<Rightarrow> RatchetState \<Rightarrow> RatchetState \<Rightarrow> bool" where
  "ahead C a b \<longleftrightarrow>
     length (DHs a) = 32 \<and> length (DHs b) = 32 \<and> Ns a = 0 \<and>
     DHr a = Some (x25519_pub C (DHs b)) \<and> DHr b \<noteq> Some (x25519_pub C (DHs a)) \<and>
     (\<exists>dh ck. x25519DH C (DHs b) (x25519_pub C (DHs a)) = Inr dh \<and>
        rootKDF C (RK b) dh = Inr (RK a, ck) \<and> CKs a = Some ck)"

lemma ahead_same_sender: "ahead C a b \<Longrightarrow> same_sender b b' \<Longrightarrow> DHr b' = DHr b \<Longrightarrow> ahead C a b'"
  by (simp add: ahead_def same_sender_def)

text \<open>The initial states of X3DH partners.\<close>

lemma ahead_init:
  assumes "kdf_ok C" and "dh_ok C" and "length spk = 32"
  shows "\<exists>a. InitRatchetAsAlice C rnd secret (x25519_pub C spk) = Inr a \<and>
     ahead C a (InitRatchetAsBob secret spk) \<and> PN a = 0 \<and> CKr a = None \<and> MKSkipped a = []"
proof -
  let ?k = "GenerateX25519KeyPair rnd"
  have k: "length ?k = 32" by (simp add: GenerateX25519KeyPair_def)
  obtain dh where dh: "x25519DH C ?k (x25519_pub C spk) = Inr dh" "x25519DH C spk (x25519_pub C ?k) = Inr dh"
    using x25519DH_agree [OF assms(2) k assms(3)] by blast
  obtain rk ck where "rootKDF C secret dh = Inr (rk, ck)" using rootKDF_ok [OF assms(1)] by blast
  with dh k assms(3) show ?thesis
    by (simp add: InitRatchetAsAlice_def InitRatchetAsBob_def ahead_def)
qed

lemma dhRatchetStep_ahead:
  assumes "kdf_ok C" and "dh_ok C" and "ahead C a b"
    and "x25519_pub C (GenerateX25519KeyPair rnd) \<noteq> x25519_pub C (DHs b)"
    and "CKs a = Some ck"
  shows "\<exists>b'. dhRatchetStep C rnd b (x25519_pub C (DHs a)) = (b', None) \<and> ahead C b' a \<and>
     DHr b' = Some (x25519_pub C (DHs a)) \<and> CKr b' = Some ck \<and> Nr b' = 0 \<and> PN b' = Ns b \<and>
     MKSkipped b' = MKSkipped b"
proof -
  let ?pub = "x25519_pub C (DHs a)" and ?k = "GenerateX25519KeyPair rnd"
  have a: "length (DHs a) = 32" "DHr a = Some (x25519_pub C (DHs b))"
    using assms(3) by (simp_all add: ahead_def)
  obtain dh where dh: "x25519DH C (DHs b) ?pub = Inr dh" "rootKDF C (RK b) dh = Inr (RK a, ck)"
    using assms(3,5) by (auto simp: ahead_def)
  have k: "length ?k = 32" by (simp add: GenerateX25519KeyPair_def)
  obtain dh2 where dh2: "x25519DH C ?k ?pub = Inr dh2" "x25519DH C (DHs a) (x25519_pub C ?k) = Inr dh2"
    using x25519DH_agree [OF assms(2) k a(1)] by blast
  obtain rk2 ck2 where rk2: "rootKDF C (RK a) dh2 = Inr (rk2, ck2)" using rootKDF_ok [OF assms(1)] by blast
  have len: "length ?pub = 32" using assms(2) a(1) by (simp add: dh_ok_def)
  show ?thesis
    using dh dh2 rk2 len k a assms(4) by (simp add: dhRatchetStep_def ahead_def Let_def)
qed


text \<open>
  The receiver \<open>b\<close> can put aside what the previous chain still owes (its length is the header's \<open>PN\<close>)
  and \<open>m\<close> keys of the new chain, and holds no key of the new chain yet.
\<close>

definition has_room :: "32 word \<Rightarrow> bytes \<Rightarrow> nat \<Rightarrow> RatchetState \<Rightarrow> bool" where
  "has_room pn pub m b \<longleftrightarrow>
     (\<forall>n. map_of (MKSkipped b) (pub, n) = None) \<and>
     (if CKr b = None then length (MKSkipped b) + m \<le> maxSkippedKeys
      else (\<exists>old. DHr b = Some old \<and> length old = 32 \<and> old \<noteq> pub) \<and>
        unat (Nr b) + maxSkippedKeys < 2 ^ 32 \<and>
        length (MKSkipped b) + (unat pn - unat (Nr b)) + m \<le> maxSkippedKeys)"

lemma skip_loop_old_chain:
  assumes "DHr b = Some old" and "length old = 32" and "old \<noteq> pub"
    and "unat pn - unat (Nr b) = d" and "length (MKSkipped b) + d \<le> maxSkippedKeys"
  shows "\<exists>b'. skip_loop C pn b = (b', None) \<and> same_sender b b' \<and> DHr b' = DHr b \<and>
     (\<forall>n. map_of (MKSkipped b') (pub, n) = map_of (MKSkipped b) (pub, n)) \<and>
     length (MKSkipped b') \<le> length (MKSkipped b) + d"
  using assms
proof (induction d arbitrary: b)
  case 0
  then have "\<not> Nr b < pn" by (simp add: word_less_nat_alt)
  then show ?case by (subst skip_loop.simps) (simp add: same_sender_def)
next
  case (Suc d)
  let ?b = "skip_one C b"
  have lt: "Nr b < pn" using Suc.prems(4) by (simp add: word_less_nat_alt)
  have one: "DHr ?b = Some old" "length (MKSkipped ?b) \<le> Suc (length (MKSkipped b))" "same_sender b ?b"
      "\<forall>n. map_of (MKSkipped ?b) (pub, n) = map_of (MKSkipped b) (pub, n)"
    using Suc.prems(1,2,3)
    by (auto simp: skip_one_def chainKDF_def same_sender_def length_AList_update)
  have d: "unat pn - unat (Nr ?b) = d" using Suc.prems(4) unat_Suc_less [OF lt] by simp
  have len: "length (MKSkipped ?b) + d \<le> maxSkippedKeys" using one(2) Suc.prems(5) by simp
  obtain b' where b': "skip_loop C pn ?b = (b', None)" "same_sender ?b b'" "DHr b' = DHr ?b"
      "\<forall>n. map_of (MKSkipped b') (pub, n) = map_of (MKSkipped ?b) (pub, n)"
      "length (MKSkipped b') \<le> length (MKSkipped ?b) + d"
    using Suc.IH [OF one(1) Suc.prems(2,3) d len] by blast
  have "skip_loop C pn b = (b', None)"
    using b'(1) lt len by (subst skip_loop.simps) (simp add: Let_def)
  then show ?case
    using b' one Suc.prems(1) same_sender_trans [OF one(3) b'(2)] by auto
qed

lemma skipMessageKeys_room:
  assumes "has_room pn pub m b"
  shows "\<exists>b'. skipMessageKeys C b pn = (b', None) \<and> same_sender b b' \<and> DHr b' = DHr b \<and>
     (\<forall>n. map_of (MKSkipped b') (pub, n) = None) \<and> length (MKSkipped b') + m \<le> maxSkippedKeys"
proof (cases "CKr b = None")
  case True
  with assms show ?thesis by (simp add: has_room_def skipMessageKeys_def same_sender_def)
next
  case False
  with assms obtain old where b: "DHr b = Some old" "length old = 32" "old \<noteq> pub"
      "unat (Nr b) + maxSkippedKeys < 2 ^ 32" "\<forall>n. map_of (MKSkipped b) (pub, n) = None"
      "length (MKSkipped b) + (unat pn - unat (Nr b)) + m \<le> maxSkippedKeys"
    by (auto simp: has_room_def)
  have "unat (Nr b + of_nat maxSkippedKeys) = unat (Nr b) + maxSkippedKeys" using b(4) by (rule unat_offset)
  then have "\<not> pn > Nr b + of_nat maxSkippedKeys" using b(6) by (simp add: word_less_nat_alt)
  moreover have "length (MKSkipped b) + (unat pn - unat (Nr b)) \<le> maxSkippedKeys" using b(6) by simp
  note skip_loop_old_chain [OF b(1-3) refl this, of C]
  ultimately show ?thesis using False b(5,6) by (auto simp: skipMessageKeys_def)
qed

text \<open>The first message of a new chain that reaches \<open>b\<close> makes it step; the rest is a chain.\<close>

lemma RatchetDecrypt_turn:
  assumes "kdf_ok C" and "dh_ok C" and "ahead C a b" and "CKs a = Some ck"
    and "has_room (PN a) (x25519_pub C (DHs a)) B b"
    and "x25519_pub C (GenerateX25519KeyPair rnd) \<noteq> x25519_pub C (DHs b)"
    and "i < B" and "B + maxSkippedKeys < 2 ^ 32"
    and "chain_msg C (x25519_pub C (DHs a)) ck 0 (PN a) i p (h, ct)"
  shows "\<exists>b'. RatchetDecrypt C rnd b h ct = (b', Inr p) \<and> ahead C b' a \<and>
     chain_at C (x25519_pub C (DHs a)) ck 0 (Suc i) {0..<i} b' \<and>
     length (MKSkipped b') + (B - Suc i) \<le> maxSkippedKeys"
proof -
  let ?pub = "x25519_pub C (DHs a)"
  have len: "length ?pub = 32" using assms(2,3) by (simp add: ahead_def dh_ok_def)
  have h: "h_DHPub h = ?pub" "h_N h = 0 + of_nat i" "h_PN h = PN a"
      "decryptWithNonce C (mk_at C ck i) ct = Inr p"
    using assms(9) by (simp_all add: chain_msg_def)
  have "map_of (MKSkipped b) (?pub, h_N h) = None" using assms(5) by (simp add: has_room_def)
  then have unskipped: "trySkippedKeys C b h ct = (b, Inl ErrInvalidMessage)"
    using len h(1) by (simp add: trySkippedKeys_def)
  obtain b1 where b1: "skipMessageKeys C b (PN a) = (b1, None)" "same_sender b b1" "DHr b1 = DHr b"
      "\<forall>n. map_of (MKSkipped b1) (?pub, n) = None" "length (MKSkipped b1) + B \<le> maxSkippedKeys"
    using skipMessageKeys_room [OF assms(5)] by blast
  note a1 = ahead_same_sender [OF assms(3) b1(2,3)]
  have fresh: "x25519_pub C (GenerateX25519KeyPair rnd) \<noteq> x25519_pub C (DHs b1)"
    using assms(6) b1(2) by (simp add: same_sender_def)
  obtain b2 where b2: "dhRatchetStep C rnd b1 ?pub = (b2, None)" "ahead C b2 a" "DHr b2 = Some ?pub"
      "CKr b2 = Some ck" "Nr b2 = 0" "MKSkipped b2 = MKSkipped b1"
    using dhRatchetStep_ahead [OF assms(1,2) a1 fresh assms(4)] by blast
  have at: "chain_at C ?pub ck 0 0 {} b2" using b2(3-6) b1(4) by (simp add: chain_at_def)
  have i: "unat (0 :: 32 word) + i + maxSkippedKeys < 2 ^ 32" "length (MKSkipped b2) + (i - 0) \<le> maxSkippedKeys"
    using assms(7,8) b1(5) b2(6) by auto
  obtain b' where b': "receive_in_chain C b2 (0 + of_nat i) ct = (b', Inr p)"
      "chain_at C ?pub ck 0 (Suc i) ({} \<union> {0..<i}) b'"
      "length (MKSkipped b') \<le> length (MKSkipped b2) + (i - 0)" "same_sender b2 b'"
    using receive_in_chain_ok [OF at len _ i h(4)] by blast
  have "DHr b \<noteq> Some ?pub" using assms(3) by (simp add: ahead_def)
  then have "DHr b = None \<or> h_DHPub h \<noteq> slice (DHr b)" using h(1) by (cases "DHr b") auto
  then have "RatchetDecrypt C rnd b h ct = (b', Inr p)"
    using unskipped b1(1) b2(1) b'(1) h(1-3) unfolding RatchetDecrypt_def by auto
  moreover have "ahead C b' a"
    using b2(2) b'(4,2) b2(3) by (simp add: ahead_def same_sender_def chain_at_def)
  moreover have "length (MKSkipped b') + (B - Suc i) \<le> maxSkippedKeys"
    using b'(3) b1(5) b2(6) assms(7) by simp
  ultimately show ?thesis using b'(2) by auto
qed


text \<open>
  C11: a turn of the conversation.  When \<open>a\<close> is one Diffie-Hellman step ahead of \<open>b\<close>, which X3DH
  initialisation gives (\<open>ahead_init\<close>), then every non-empty selection of the messages \<open>a\<close> sends,
  delivered to \<open>b\<close> in any order, is decrypted to the texts \<open>a\<close> encrypted, keys that the previous chain
  still owed are put aside, and afterwards \<open>b\<close> is one step ahead of \<open>a\<close>: the parties change roles and
  the conversation goes on.  The new key of \<open>b\<close> must differ from its old one.
\<close>

theorem RatchetDecrypt_turns:
  assumes "gcm_ok C" and "kdf_ok C" and "dh_ok C" and "ahead C a b"
    and "has_room (PN a) (x25519_pub C (DHs a)) (length ps) b"
    and "length ps + maxSkippedKeys < 2 ^ 32"
    and "x25519_pub C (GenerateX25519KeyPair (rnd i)) \<noteq> x25519_pub C (DHs b)"
    and "distinct (i # is)" and "\<forall>j \<in> set (i # is). j < length ps"
  shows "\<exists>ms. snd (encrypt_all C a ps) = map Inr ms \<and> length ms = length ps \<and>
     snd (decrypt_all C b (map (\<lambda>j. (rnd j, ms ! j)) (i # is))) = map (\<lambda>j. Inr (snd (ps ! j))) (i # is) \<and>
     ahead C (fst (decrypt_all C b (map (\<lambda>j. (rnd j, ms ! j)) (i # is)))) (fst (encrypt_all C a ps))"
proof -
  let ?pub = "x25519_pub C (DHs a)"
  obtain ck where ck: "CKs a = Some ck" using assms(4) by (auto simp: ahead_def)
  have ns: "Ns a = 0" and len: "length ?pub = 32" using assms(3,4) by (simp_all add: ahead_def dh_ok_def)
  obtain ms where ms: "snd (encrypt_all C a ps) = map Inr ms" "length ms = length ps"
      "\<forall>j < length ps. chain_msg C ?pub ck 0 (PN a) j (snd (ps ! j)) (ms ! j)"
      "fst (encrypt_all C a ps) = a\<lparr>CKs := Some (ck_iter C ck (length ps)), Ns := of_nat (length ps)\<rparr>"
    using encrypt_all_chain [OF assms(1,2) ck, of ps] by (auto simp: ns)
  have i: "i < length ps" "chain_msg C ?pub ck 0 (PN a) i (snd (ps ! i)) (fst (ms ! i), snd (ms ! i))"
    using assms(9) ms(3) by auto
  obtain b' where b': "RatchetDecrypt C (rnd i) b (fst (ms ! i)) (snd (ms ! i)) = (b', Inr (snd (ps ! i)))"
      "ahead C b' a" "chain_at C ?pub ck 0 (Suc i) {0..<i} b'"
      "length (MKSkipped b') + (length ps - Suc i) \<le> maxSkippedKeys"
    using RatchetDecrypt_turn [OF assms(2,3,4) ck assms(5,7) i(1) assms(6) i(2)] by blast
  let ?d = "decrypt_all C b' (map (\<lambda>j. (rnd j, ms ! j)) is)"
  have rest: "\<forall>j \<in> set is. j < length ps \<and> (j \<in> {0..<i} \<or> Suc i \<le> j) \<and>
      chain_msg C ?pub ck 0 (PN a) j (snd (ps ! j)) (ms ! j)"
  proof
    fix j assume j: "j \<in> set is"
    with assms(8,9) have "j \<noteq> i" "j < length ps" by auto
    with ms(3) show "j < length ps \<and> (j \<in> {0..<i} \<or> Suc i \<le> j) \<and>
        chain_msg C ?pub ck 0 (PN a) j (snd (ps ! j)) (ms ! j)" by auto
  qed
  have d: "snd ?d = map (\<lambda>j. Inr (snd (ps ! j))) is" "same_sender b' (fst ?d)" "DHr (fst ?d) = Some ?pub"
    using decrypt_all_chain [OF b'(3) len _ rest _ b'(4)] assms(6,8) by auto
  have "ahead C (fst ?d) (fst (encrypt_all C a ps))"
    using b'(2) d(2,3) by (simp add: ms(4) ahead_def same_sender_def)
  then show ?thesis using ms(1,2) b'(1) d(1) by (intro exI [of _ ms]) simp
qed

theorem RatchetDecrypt_turns_witness:
  "\<exists>a ms. InitRatchetAsAlice toy_crypto (replicate 32 5) (replicate 32 1) (replicate 32 6) = Inr a \<and>
     snd (encrypt_all toy_crypto a [([], [1]), ([], [2])]) = map Inr ms \<and>
     snd (decrypt_all toy_crypto (InitRatchetAsBob (replicate 32 1) (replicate 32 6))
       [(replicate 32 7, ms ! 1), (replicate 32 7, ms ! 0)]) = [Inr [2], Inr [1]]"
proof -
  let ?b = "InitRatchetAsBob (replicate 32 1) (replicate 32 6)"
  have spk: "length (replicate 32 6 :: bytes) = 32" by simp
  obtain a where a: "InitRatchetAsAlice toy_crypto (replicate 32 5) (replicate 32 1) (replicate 32 6) = Inr a"
      "ahead toy_crypto a ?b"
    using ahead_init [OF toy_kdf_ok toy_dh_ok spk, of "replicate 32 5" "replicate 32 1"]
    by (auto simp: toy_x25519_pub)
  have room: "has_room (PN a) (x25519_pub toy_crypto (DHs a)) (length [([], [1]), ([], [2] :: bytes)]) ?b"
    by (simp add: has_room_def InitRatchetAsBob_def maxSkippedKeys_def)
  have "x25519_pub toy_crypto (GenerateX25519KeyPair (replicate 32 7)) \<noteq> x25519_pub toy_crypto (DHs ?b)"
    by (simp add: toy_x25519_pub GenerateX25519KeyPair_def rand_bytes_all InitRatchetAsBob_def)
  then show ?thesis
    using RatchetDecrypt_turns [OF toy_gcm_ok toy_kdf_ok toy_dh_ok a(2), of "[([], [1]), ([], [2])]"
        "\<lambda>_. replicate 32 7" 1 "[0]"] room a(1)
    by (simp add: maxSkippedKeys_def del: encrypt_all.simps decrypt_all.simps) blast
qed


section \<open>Invariants of the state\<close>

lemma skipped_wf_update:
  "skipped_wf m \<Longrightarrow> length pub = 32 \<Longrightarrow> length mk = 32 \<Longrightarrow> skipped_wf (AList.update (pub, n) mk m)"
  using set_AList_update [of "(pub, n)" mk m] by (force simp: skipped_wf_def distinct_update)

lemma skipped_wf_delete: "skipped_wf m \<Longrightarrow> skipped_wf (AList.delete k m)"
  using set_AList_delete [of k m] by (auto simp: skipped_wf_def distinct_delete)

lemma skip_one_wf: "kdf_ok C \<Longrightarrow> ratchet_wf s \<Longrightarrow> ratchet_wf (skip_one C s)"
  by (auto simp: skip_one_def chainKDF_def ratchet_wf_def key32_def intro!: skipped_wf_update)

text \<open>What \<open>skip_one\<close> keeps, the loop and \<open>skipMessageKeys\<close> keep.\<close>

lemma skip_loop_keeps:
  assumes "\<And>s. Q s \<Longrightarrow> Q (skip_one C s)" and "Q s"
  shows "Q (fst (skip_loop C until s))"
  using assms
proof (induction C until s rule: skip_loop.induct)
  case (1 C until s)
  then show ?case by (subst skip_loop.simps) (auto simp: Let_def)
qed

lemma skipMessageKeys_keeps:
  assumes "\<And>s. Q s \<Longrightarrow> Q (skip_one C s)" and "Q s"
  shows "Q (fst (skipMessageKeys C s until))"
  using assms skip_loop_keeps [of Q C s until] by (auto simp: skipMessageKeys_def)


lemma receive_in_chain_wf:
  assumes "kdf_ok C" and "ratchet_wf s"
  shows "ratchet_wf (fst (receive_in_chain C s n ct))"
proof -
  have "ratchet_wf (fst (skipMessageKeys C s n))"
    by (rule skipMessageKeys_keeps) (use assms skip_one_wf in auto)
  moreover obtain s1 e where sk: "skipMessageKeys C s n = (s1, e)" by fastforce
  ultimately have "ratchet_wf s1" by simp
  with assms(1) show ?thesis
    by (cases e) (simp_all add: receive_in_chain_def sk chainKDF_def ratchet_wf_def key32_def)
qed

lemma dhRatchetStep_wf:
  assumes "kdf_ok C" and "ratchet_wf s"
  shows "ratchet_wf (fst (dhRatchetStep C rnd s pub))"
proof -
  have rk: "\<And>k d rk ck. rootKDF C k d = Inr (rk, ck) \<Longrightarrow> length rk = 32 \<and> length ck = 32"
    using rootKDF_ok [OF assms(1)] by (metis Inr_inject prod.inject)
  show ?thesis using assms(2)
    by (auto simp: dhRatchetStep_def ratchet_wf_def key32_def Let_def GenerateX25519KeyPair_def
        dest!: rk split: sum.splits)
qed

text \<open>
  C12: the well-formedness of a ratchet state (all keys 32 bytes long, no skipped key stored twice) is
  kept by encryption and by decryption on every branch, errors included, whatever header and data
  arrive; so a state can be saved and restored after any of them.
\<close>

theorem ratchet_wf_preserved:
  assumes "kdf_ok C" and "ratchet_wf s"
  shows "ratchet_wf (fst (RatchetEncrypt C rnd s plaintext)) \<and>
    ratchet_wf (fst (RatchetDecrypt C rnd s h ct))"
proof
  show "ratchet_wf (fst (RatchetEncrypt C rnd s plaintext))"
    using assms by (auto simp: RatchetEncrypt_def chainKDF_def ratchet_wf_def key32_def Let_def
        split: sum.splits)
  have t: "ratchet_wf (fst (trySkippedKeys C s h ct))"
    using assms(2) by (auto simp: trySkippedKeys_def Let_def ratchet_wf_def skipped_wf_delete
        split: option.splits)
  have skip: "\<And>x. ratchet_wf x \<Longrightarrow> ratchet_wf (fst (skipMessageKeys C x (h_PN h)))"
    by (rule skipMessageKeys_keeps) (use assms(1) skip_one_wf in auto)
  obtain s0 res where t0: "trySkippedKeys C s h ct = (s0, res)" by fastforce
  obtain s1 e1 where t1: "skipMessageKeys C s0 (h_PN h) = (s1, e1)" by fastforce
  obtain s2 e2 where t2: "dhRatchetStep C rnd s1 (h_DHPub h) = (s2, e2)" by fastforce
  have wf: "ratchet_wf s0" "ratchet_wf s1" "ratchet_wf s2"
    using t skip [of s0] dhRatchetStep_wf [OF assms(1), of s1] t0 t1 t2 by (metis fst_conv)+
  show "ratchet_wf (fst (RatchetDecrypt C rnd s h ct))"
    using wf receive_in_chain_wf [OF assms(1)]
    by (auto simp: RatchetDecrypt_def t0 t1 t2 split: sum.splits option.splits)
qed

theorem ratchet_wf_preserved_witness:
  "ratchet_wf (fst (RatchetDecrypt toy_crypto [] toy_receiver
     \<lparr>h_DHPub = replicate 32 5, h_N = 4, h_PN = 0\<rparr> [1, 2, 3]))"
proof -
  have "ratchet_wf toy_receiver"
    by (simp add: toy_receiver_def ratchet_wf_def key32_def skipped_wf_def)
  from ratchet_wf_preserved [OF toy_kdf_ok this] show ?thesis by blast
qed

section \<open>The bound on skipped keys\<close>

lemma length_skip_one: "length (MKSkipped (skip_one C s)) \<le> Suc (length (MKSkipped s))"
  by (auto simp: skip_one_def chainKDF_def length_AList_update)

lemma skip_loop_bound:
  assumes "skip_loop C until s = (s', e)"
  shows "length (MKSkipped s') \<le> max maxSkippedKeys (length (MKSkipped s)) + (if e = None then 0 else 1)"
  using assms
proof (induction C until s arbitrary: s' e rule: skip_loop.induct)
  case (1 C until s)
  let ?s = "skip_one C s"
  show ?case
  proof (cases "Nr s < until \<and> \<not> length (MKSkipped ?s) > maxSkippedKeys")
    case True
    then have "skip_loop C until ?s = (s', e)" using 1(2) by (subst (asm) skip_loop.simps) (simp add: Let_def)
    with 1(1) [of ?s s' e] True show ?thesis by simp
  next
    case False
    then show ?thesis using 1(2) length_skip_one [of C s]
      by (subst (asm) skip_loop.simps) (auto simp: Let_def split: if_splits)
  qed
qed

lemma skipMessageKeys_bound:
  assumes "skipMessageKeys C s until = (s', e)"
  shows "length (MKSkipped s') \<le> max maxSkippedKeys (length (MKSkipped s)) + (if e = None then 0 else 1)"
  using assms skip_loop_bound [of C until s s' e] by (auto simp: skipMessageKeys_def split: if_splits)

lemma receive_in_chain_bound:
  assumes "receive_in_chain C s n ct = (s', res)"
  shows "length (MKSkipped s') \<le> max maxSkippedKeys (length (MKSkipped s)) + (if is_ok res then 0 else 1)"
proof -
  obtain s1 e where sk: "skipMessageKeys C s n = (s1, e)" by fastforce
  have "MKSkipped s' = MKSkipped s1" "e \<noteq> None \<Longrightarrow> \<not> is_ok res"
    using assms sk by (auto simp: receive_in_chain_def chainKDF_def split: option.splits)
  with skipMessageKeys_bound [OF sk] show ?thesis by (cases "e = None") (auto split: if_splits)
qed


text \<open>
  C13: the number of keys of skipped messages after a decryption is at most the larger of 1000 and the number
  before it, when the decryption succeeds, and at most one more than that when it fails.
\<close>

theorem RatchetDecrypt_skipped_bound:
  assumes "RatchetDecrypt C rnd s h ct = (s', res)"
  shows "length (MKSkipped s') \<le> max maxSkippedKeys (length (MKSkipped s)) + (if is_ok res then 0 else 1)"
proof -
  obtain s0 res0 where t0: "trySkippedKeys C s h ct = (s0, res0)" by fastforce
  obtain s1 e1 where t1: "skipMessageKeys C s0 (h_PN h) = (s1, e1)" by fastforce
  obtain s2 e2 where t2: "dhRatchetStep C rnd s1 (h_DHPub h) = (s2, e2)" by fastforce
  have l0: "length (MKSkipped s0) \<le> length (MKSkipped s)"
    using t0 by (auto simp: trySkippedKeys_def Let_def length_AList_delete_le split: option.splits)
  note l1 = skipMessageKeys_bound [OF t1]
  have l2: "MKSkipped s2 = MKSkipped s1"
    using t2 by (auto simp: dhRatchetStep_def Let_def split: sum.splits)
  consider (skipped) "s' = s0" | (err1) "s' = s1" "e1 \<noteq> None" "\<not> is_ok res"
    | (err2) "s' = s2" "e1 = None" | (turn) "e1 = None" "receive_in_chain C s2 (h_N h) ct = (s', res)"
    | (chain) "receive_in_chain C s0 (h_N h) ct = (s', res)"
    using assms by (auto simp: RatchetDecrypt_def t0 t1 t2 split: sum.splits option.splits if_splits)
  then show ?thesis
  proof cases
    case skipped
    then show ?thesis using l0 by simp
  next
    case err1
    then show ?thesis using l0 l1 by (auto split: if_splits)
  next
    case err2
    then show ?thesis using l0 l1 l2 by simp
  next
    case turn
    then show ?thesis using receive_in_chain_bound [OF turn(2)] l0 l1 l2 by (auto split: if_splits)
  next
    case chain
    then show ?thesis using receive_in_chain_bound [OF chain] l0 by (auto split: if_splits)
  qed
qed

theorem RatchetDecrypt_skipped_bound_witness:
  "length (MKSkipped (fst (RatchetDecrypt toy_crypto [] toy_receiver
     \<lparr>h_DHPub = replicate 32 5, h_N = 4, h_PN = 0\<rparr> [1, 2, 3]))) \<le> 1001"
proof -
  let ?h = "\<lparr>h_DHPub = replicate 32 5, h_N = 4, h_PN = 0\<rparr>"
  obtain s' res where r: "RatchetDecrypt toy_crypto [] toy_receiver ?h [1, 2, 3] = (s', res)" by fastforce
  have "MKSkipped toy_receiver = []" by (simp add: toy_receiver_def)
  with RatchetDecrypt_skipped_bound [OF r] show ?thesis
    by (simp add: r maxSkippedKeys_def split: if_splits)
qed

text \<open>
  Past the limit the map still grows: a header that skips ahead is refused, but the key of the first
  message it skips has been stored by then.  Every refused message can add one more.
\<close>

lemma skip_limit_still_stores:
  assumes "CKr s = Some ck" and "Nr s < until" and "until \<le> Nr s + of_nat maxSkippedKeys"
    and "maxSkippedKeys \<le> length (MKSkipped s)"
    and "map_of (MKSkipped s) (copy_to 32 (slice (DHr s)), Nr s) = None"
  shows "\<exists>s'. skipMessageKeys C s until = (s', Some ErrSkippedKeyLimit) \<and>
     length (MKSkipped s') = Suc (length (MKSkipped s)) \<and> Nr s' = Nr s + 1"
proof -
  have "length (MKSkipped (skip_one C s)) = Suc (length (MKSkipped s))"
    using assms(5) by (simp add: skip_one_def chainKDF_def length_AList_update)
  with assms show ?thesis
    by (auto simp: skipMessageKeys_def skip_loop.simps [of C until s] Let_def not_less)
qed

section \<open>Stale message numbers\<close>

lemma RatchetDecrypt_below:
  assumes "chain_at C pub ck n0 m P r" and "length pub = 32" and "j < m" and "j \<notin> P"
    and "unat n0 + m + maxSkippedKeys < 2 ^ 32" and "h_DHPub h = pub" and "h_N h = n0 + of_nat j"
  shows "\<exists>r'. RatchetDecrypt C rnd r h ct = (r', decryptWithNonce C (mk_at C ck m) ct) \<and>
     chain_at C pub ck n0 (Suc m) P r'"
proof -
  let ?n = "n0 + of_nat j"
  let ?r = "r\<lparr>CKr := Some (ck_iter C ck (Suc m)), Nr := n0 + of_nat (Suc m)\<rparr>"
  from assms(1) have r: "DHr r = Some pub" "CKr r = Some (ck_iter C ck m)" "Nr r = n0 + of_nat m"
      "map_of (MKSkipped r) (pub, ?n) = None"
    using assms(3-5) by (auto simp: chain_at_def)
  have u: "unat ?n = unat n0 + j" "unat (Nr r) = unat n0 + m"
      "unat (Nr r + of_nat maxSkippedKeys) = unat n0 + m + maxSkippedKeys"
    using unat_offset [of n0 j] unat_offset [of n0 m] unat_offset [of n0 "m + maxSkippedKeys"] assms(3,5) r(3)
    by (auto simp: add.assoc)
  have "\<not> Nr r < ?n" "\<not> ?n > Nr r + of_nat maxSkippedKeys"
    unfolding word_less_nat_alt u using assms(3) by auto
  then have sk: "skipMessageKeys C r ?n = (r, None)"
    by (simp add: skipMessageKeys_def skip_loop.simps [of C ?n r])
  have "receive_in_chain C r ?n ct = (?r, decryptWithNonce C (mk_at C ck m) ct)"
    unfolding receive_in_chain_def sk using r(2,3) by (simp add: chainKDF_iter add.assoc add.commute [of _ 1])
  then have "RatchetDecrypt C rnd r h ct = (?r, decryptWithNonce C (mk_at C ck m) ct)"
    using r(1,4) assms(2,6,7) by (simp add: RatchetDecrypt_def trySkippedKeys_def)
  moreover have "chain_at C pub ck n0 (Suc m) P ?r"
    using assms(1) unfolding chain_at_def by (auto simp: less_Suc_eq)
  ultimately show ?thesis by blast
qed

text \<open>
  A message of the current chain whose number is below the receiver's position and whose key is
  no longer stored (a replayed or duplicated message) is not refused: the next key of the chain is used
  up for it, so that the genuine message with that number is afterwards tried with the key of its
  successor.  No branch returns \<open>ErrDuplicateMessage\<close>.
\<close>

theorem RatchetDecrypt_stale_number:
  assumes "chain_at C pub ck n0 k P r" and "length pub = 32" and "i < k" and "i \<notin> P"
    and "unat n0 + Suc k + maxSkippedKeys < 2 ^ 32"
    and "h_DHPub h = pub" "h_N h = n0 + of_nat i" and "h_DHPub h' = pub" "h_N h' = n0 + of_nat k"
  shows "\<exists>r'. RatchetDecrypt C rnd r h ct = (r', decryptWithNonce C (mk_at C ck k) ct) \<and>
     chain_at C pub ck n0 (Suc k) P r' \<and>
     snd (RatchetDecrypt C rnd' r' h' ct') = decryptWithNonce C (mk_at C ck (Suc k)) ct'"
proof -
  have "k \<notin> P" using assms(1) by (auto simp: chain_at_def)
  have k: "unat n0 + k + maxSkippedKeys < 2 ^ 32" using assms(5) by simp
  obtain r' where r': "RatchetDecrypt C rnd r h ct = (r', decryptWithNonce C (mk_at C ck k) ct)"
      "chain_at C pub ck n0 (Suc k) P r'"
    using RatchetDecrypt_below [OF assms(1-4) k assms(6,7)] by blast
  moreover obtain r2 where "RatchetDecrypt C rnd' r' h' ct' = (r2, decryptWithNonce C (mk_at C ck (Suc k)) ct')"
    using RatchetDecrypt_below [OF r'(2) assms(2) lessI \<open>k \<notin> P\<close> assms(5,8,9), of rnd' ct'] by blast
  ultimately show ?thesis by simp
qed

theorem RatchetDecrypt_stale_number_witness:
  "\<exists>r'. RatchetDecrypt toy_crypto [] (toy_receiver\<lparr>Nr := 1, CKr := Some (ck_iter toy_crypto (replicate 32 2) 1)\<rparr>)
      \<lparr>h_DHPub = replicate 32 5, h_N = 0, h_PN = 0\<rparr> [1]
    = (r', decryptWithNonce toy_crypto (mk_at toy_crypto (replicate 32 2) 1) [1]) \<and>
     chain_at toy_crypto (replicate 32 5) (replicate 32 2) 0 (Suc 1) {} r'"
proof -
  have "chain_at toy_crypto (replicate 32 5) (replicate 32 2) 0 1 {}
      (toy_receiver\<lparr>Nr := 1, CKr := Some (ck_iter toy_crypto (replicate 32 2) 1)\<rparr>)"
    by (simp add: chain_at_def toy_receiver_def del: ck_iter.simps)
  from RatchetDecrypt_stale_number [OF this, of 0 "\<lparr>h_DHPub = replicate 32 5, h_N = 0, h_PN = 0\<rparr>"
      "\<lparr>h_DHPub = replicate 32 5, h_N = 1, h_PN = 0\<rparr>" "[]" "[1]" "[]" "[]"]
  show ?thesis by (simp add: maxSkippedKeys_def del: ck_iter.simps) metis
qed

end
