(* ===== verification/OmemoStore.thy ===== *)
theory OmemoStore
  imports OmemoKeys
begin

text \<open>
  Package \<open>omemo\<close>, persistence (crypto/omemo: address.go, store.go, memory_store.go).  The interface
  \<open>Store\<close> is the record of its methods over a state type, as an interface value of Go carries its method
  table; the locales \<open>omemo_store\<close> and \<open>reliable_store\<close> state what a client may rely on, and
  \<open>MemoryStore\<close> is an instance of both.
\<close>

section \<open>Records and interface\<close>

record Address =
  a_JID :: string
  a_DeviceID :: "32 word"

record PreKeyRecord =
  pk_ID :: "32 word"
  pk_PrivateKey :: bytes
  pk_PublicKey :: bytes

record SignedPreKeyRecord =
  spk_ID :: "32 word"
  spk_PrivateKey :: bytes
  spk_PublicKey :: bytes
  spk_Signature :: bytes

type_synonym ('s, 'a) reads = "'s \<Rightarrow> (omemo_error, 'a) result"
type_synonym 's writes = "'s \<Rightarrow> 's \<times> omemo_error option"

record 's Store =
  GetIdentityKeyPair :: "('s, IdentityKeyPair option) reads"
  SaveIdentityKeyPair :: "IdentityKeyPair \<Rightarrow> 's writes"
  GetLocalDeviceID :: "('s, 32 word) reads"
  GetRemoteIdentity :: "Address \<Rightarrow> ('s, bytes option) reads"
  SaveRemoteIdentity :: "Address \<Rightarrow> bytes \<Rightarrow> 's writes"
  IsTrusted :: "Address \<Rightarrow> bytes \<Rightarrow> ('s, bool) reads"
  GetPreKey :: "32 word \<Rightarrow> ('s, PreKeyRecord) reads"
  SavePreKey :: "PreKeyRecord \<Rightarrow> 's writes"
  RemovePreKey :: "32 word \<Rightarrow> 's writes"
  GetSignedPreKey :: "32 word \<Rightarrow> ('s, SignedPreKeyRecord) reads"
  SaveSignedPreKey :: "SignedPreKeyRecord \<Rightarrow> 's writes"
  GetSession :: "Address \<Rightarrow> ('s, bytes) reads"
  SaveSession :: "Address \<Rightarrow> bytes \<Rightarrow> 's writes"
  ContainsSession :: "Address \<Rightarrow> ('s, bool) reads"

section \<open>The in-memory store\<close>

record MemoryStore =
  ms_identityKey :: "IdentityKeyPair option"
  ms_deviceID :: "32 word"
  ms_remoteKeys :: "Address \<rightharpoonup> bytes"
  ms_preKeys :: "32 word \<rightharpoonup> PreKeyRecord"
  ms_signedPreKeys :: "32 word \<rightharpoonup> SignedPreKeyRecord"
  ms_sessions :: "Address \<rightharpoonup> bytes"

definition NewMemoryStore :: "32 word \<Rightarrow> MemoryStore" where
  "NewMemoryStore deviceID =
     \<lparr>ms_identityKey = None, ms_deviceID = deviceID, ms_remoteKeys = Map.empty, ms_preKeys = Map.empty,
      ms_signedPreKeys = Map.empty, ms_sessions = Map.empty\<rparr>"

definition ms_GetIdentityKeyPair :: "(MemoryStore, IdentityKeyPair option) reads" where
  "ms_GetIdentityKeyPair s = Inr (ms_identityKey s)"

definition ms_SaveIdentityKeyPair :: "IdentityKeyPair \<Rightarrow> MemoryStore writes" where
  "ms_SaveIdentityKeyPair ikp s = (s\<lparr>ms_identityKey := Some ikp\<rparr>, None)"

definition ms_GetLocalDeviceID :: "(MemoryStore, 32 word) reads" where
  "ms_GetLocalDeviceID s = Inr (ms_deviceID s)"

definition ms_GetRemoteIdentity :: "Address \<Rightarrow> (MemoryStore, bytes option) reads" where
  "ms_GetRemoteIdentity addr s = Inr (ms_remoteKeys s addr)"

definition ms_SaveRemoteIdentity :: "Address \<Rightarrow> bytes \<Rightarrow> MemoryStore writes" where
  "ms_SaveRemoteIdentity addr key s = (s\<lparr>ms_remoteKeys := (ms_remoteKeys s)(addr \<mapsto> key)\<rparr>, None)"

definition ms_IsTrusted :: "Address \<Rightarrow> bytes \<Rightarrow> (MemoryStore, bool) reads" where
  "ms_IsTrusted addr key s =
     (case ms_remoteKeys s addr of None \<Rightarrow> Inr True | Some existing \<Rightarrow> Inr (existing = key))"

definition ms_GetPreKey :: "32 word \<Rightarrow> (MemoryStore, PreKeyRecord) reads" where
  "ms_GetPreKey i s = (case ms_preKeys s i of None \<Rightarrow> Inl ErrNoPreKey | Some pk \<Rightarrow> Inr pk)"

definition ms_SavePreKey :: "PreKeyRecord \<Rightarrow> MemoryStore writes" where
  "ms_SavePreKey record s = (s\<lparr>ms_preKeys := (ms_preKeys s)(pk_ID record \<mapsto> record)\<rparr>, None)"

definition ms_RemovePreKey :: "32 word \<Rightarrow> MemoryStore writes" where
  "ms_RemovePreKey i s = (s\<lparr>ms_preKeys := (ms_preKeys s)(i := None)\<rparr>, None)"

definition ms_GetSignedPreKey :: "32 word \<Rightarrow> (MemoryStore, SignedPreKeyRecord) reads" where
  "ms_GetSignedPreKey i s = (case ms_signedPreKeys s i of None \<Rightarrow> Inl ErrNoPreKey | Some spk \<Rightarrow> Inr spk)"

definition ms_SaveSignedPreKey :: "SignedPreKeyRecord \<Rightarrow> MemoryStore writes" where
  "ms_SaveSignedPreKey record s =
     (s\<lparr>ms_signedPreKeys := (ms_signedPreKeys s)(spk_ID record \<mapsto> record)\<rparr>, None)"

definition ms_GetSession :: "Address \<Rightarrow> (MemoryStore, bytes) reads" where
  "ms_GetSession addr s = (case ms_sessions s addr of None \<Rightarrow> Inl ErrNoSession | Some data \<Rightarrow> Inr data)"

definition ms_SaveSession :: "Address \<Rightarrow> bytes \<Rightarrow> MemoryStore writes" where
  "ms_SaveSession addr data s = (s\<lparr>ms_sessions := (ms_sessions s)(addr \<mapsto> data)\<rparr>, None)"

definition ms_ContainsSession :: "Address \<Rightarrow> (MemoryStore, bool) reads" where
  "ms_ContainsSession addr s = Inr (ms_sessions s addr \<noteq> None)"

definition memory_store :: "MemoryStore Store" where
  "memory_store =
     \<lparr>GetIdentityKeyPair = ms_GetIdentityKeyPair, SaveIdentityKeyPair = ms_SaveIdentityKeyPair,
      GetLocalDeviceID = ms_GetLocalDeviceID, GetRemoteIdentity = ms_GetRemoteIdentity,
      SaveRemoteIdentity = ms_SaveRemoteIdentity, IsTrusted = ms_IsTrusted, GetPreKey = ms_GetPreKey,
      SavePreKey = ms_SavePreKey, RemovePreKey = ms_RemovePreKey, GetSignedPreKey = ms_GetSignedPreKey,
      SaveSignedPreKey = ms_SaveSignedPreKey, GetSession = ms_GetSession, SaveSession = ms_SaveSession,
      ContainsSession = ms_ContainsSession\<rparr>"

lemma memory_store_sel [simp]:
  "GetIdentityKeyPair memory_store = ms_GetIdentityKeyPair"
  "SaveIdentityKeyPair memory_store = ms_SaveIdentityKeyPair"
  "GetLocalDeviceID memory_store = ms_GetLocalDeviceID"
  "GetRemoteIdentity memory_store = ms_GetRemoteIdentity"
  "SaveRemoteIdentity memory_store = ms_SaveRemoteIdentity" "IsTrusted memory_store = ms_IsTrusted"
  "GetPreKey memory_store = ms_GetPreKey" "SavePreKey memory_store = ms_SavePreKey"
  "RemovePreKey memory_store = ms_RemovePreKey" "GetSignedPreKey memory_store = ms_GetSignedPreKey"
  "SaveSignedPreKey memory_store = ms_SaveSignedPreKey" "GetSession memory_store = ms_GetSession"
  "SaveSession memory_store = ms_SaveSession" "ContainsSession memory_store = ms_ContainsSession"
  by (simp_all add: memory_store_def)

lemmas memory_store_defs =
  ms_GetIdentityKeyPair_def ms_SaveIdentityKeyPair_def ms_GetLocalDeviceID_def
  ms_GetRemoteIdentity_def ms_SaveRemoteIdentity_def ms_IsTrusted_def ms_GetPreKey_def ms_SavePreKey_def
  ms_RemovePreKey_def ms_GetSignedPreKey_def ms_SaveSignedPreKey_def ms_GetSession_def ms_SaveSession_def
  ms_ContainsSession_def

section \<open>The contract\<close>

text \<open>
  Everything a client can read from a store.  A successful save changes the observation in one place and
  leaves all other reads alone.
\<close>

record observation =
  o_identity :: "(omemo_error, IdentityKeyPair option) result"
  o_device :: "(omemo_error, 32 word) result"
  o_remote :: "Address \<Rightarrow> (omemo_error, bytes option) result"
  o_pre :: "32 word \<Rightarrow> (omemo_error, PreKeyRecord) result"
  o_signed :: "32 word \<Rightarrow> (omemo_error, SignedPreKeyRecord) result"
  o_session :: "Address \<Rightarrow> (omemo_error, bytes) result"

definition observe :: "'s Store \<Rightarrow> 's \<Rightarrow> observation" where
  "observe S s =
     \<lparr>o_identity = GetIdentityKeyPair S s, o_device = GetLocalDeviceID S s,
      o_remote = (\<lambda>a. GetRemoteIdentity S a s), o_pre = (\<lambda>i. GetPreKey S i s),
      o_signed = (\<lambda>i. GetSignedPreKey S i s), o_session = (\<lambda>a. GetSession S a s)\<rparr>"

locale omemo_store =
  fixes S :: "'s Store"
  assumes save_identity: "SaveIdentityKeyPair S ikp s = (s', None) \<Longrightarrow>
      observe S s' = (observe S s)\<lparr>o_identity := Inr (Some ikp)\<rparr>"
    and save_remote: "SaveRemoteIdentity S addr key s = (s', None) \<Longrightarrow>
      observe S s' = (observe S s)\<lparr>o_remote := (o_remote (observe S s))(addr := Inr (Some key))\<rparr>"
    and save_pre: "SavePreKey S pk s = (s', None) \<Longrightarrow>
      observe S s' = (observe S s)\<lparr>o_pre := (o_pre (observe S s))(pk_ID pk := Inr pk)\<rparr>"
    and remove_pre: "RemovePreKey S i s = (s', None) \<Longrightarrow>
      observe S s' = (observe S s)\<lparr>o_pre := (o_pre (observe S s))(i := Inl ErrNoPreKey)\<rparr>"
    and save_signed: "SaveSignedPreKey S spk s = (s', None) \<Longrightarrow>
      observe S s' = (observe S s)\<lparr>o_signed := (o_signed (observe S s))(spk_ID spk := Inr spk)\<rparr>"
    and save_session: "SaveSession S addr data s = (s', None) \<Longrightarrow>
      observe S s' = (observe S s)\<lparr>o_session := (o_session (observe S s))(addr := Inr data)\<rparr>"
    and contains_session: "ContainsSession S addr s = Inr b \<Longrightarrow> b = is_ok (GetSession S addr s)"
begin

lemmas save_laws = save_identity save_remote save_pre remove_pre save_signed save_session

lemma reads_observe:
  "GetIdentityKeyPair S s = o_identity (observe S s)" "GetLocalDeviceID S s = o_device (observe S s)"
  "GetRemoteIdentity S a s = o_remote (observe S s) a" "GetPreKey S i s = o_pre (observe S s) i"
  "GetSignedPreKey S i s = o_signed (observe S s) i" "GetSession S a s = o_session (observe S s) a"
  by (simp_all add: observe_def)

end

text \<open>A store whose saves do not fail.\<close>

locale reliable_store = omemo_store +
  assumes saves_succeed:
    "snd (SaveIdentityKeyPair S ikp s) = None" "snd (SaveRemoteIdentity S addr key s) = None"
    "snd (SavePreKey S pk s) = None" "snd (RemovePreKey S i s) = None"
    "snd (SaveSignedPreKey S spk s) = None" "snd (SaveSession S addr data s) = None"
begin

lemma saves_observe:
  "observe S (fst (SaveIdentityKeyPair S ikp s)) = (observe S s)\<lparr>o_identity := Inr (Some ikp)\<rparr>"
  "observe S (fst (SaveRemoteIdentity S addr key s)) =
     (observe S s)\<lparr>o_remote := (o_remote (observe S s))(addr := Inr (Some key))\<rparr>"
  "observe S (fst (SavePreKey S pk s)) = (observe S s)\<lparr>o_pre := (o_pre (observe S s))(pk_ID pk := Inr pk)\<rparr>"
  "observe S (fst (RemovePreKey S i s)) =
     (observe S s)\<lparr>o_pre := (o_pre (observe S s))(i := Inl ErrNoPreKey)\<rparr>"
  "observe S (fst (SaveSignedPreKey S spk s)) =
     (observe S s)\<lparr>o_signed := (o_signed (observe S s))(spk_ID spk := Inr spk)\<rparr>"
  "observe S (fst (SaveSession S addr data s)) =
     (observe S s)\<lparr>o_session := (o_session (observe S s))(addr := Inr data)\<rparr>"
  by (rule save_laws; metis saves_succeed prod.collapse)+

end

interpretation mem: omemo_store memory_store
  by unfold_locales (auto simp: memory_store_defs observe_def fun_eq_iff split: option.splits)

interpretation mem: reliable_store memory_store
  by unfold_locales (simp_all add: memory_store_defs)

end
