(* ===== verification/OmemoSession.thy ===== *)
theory OmemoSession
  imports OmemoConversation OmemoStore
begin

text \<open>
  Package \<open>omemo\<close>, bundles, the X3DH key agreement and sessions (crypto/omemo: bundle.go, x3dh.go,
  session.go).  The theorems: initiator and responder derive the same secret from a bundle the responder
  published, the signature of a generated bundle verifies, sessions survive serialisation, and the inputs
  on which reading a session panics.
\<close>

section \<open>Bundles\<close>

record BundlePreKey =
  bpk_ID :: "32 word"
  bpk_PublicKey :: bytes

record Bundle =
  b_IdentityKey :: bytes
  b_SignedPreKey :: bytes
  b_SignedPreKeyID :: "32 word"
  b_SignedPreKeySignature :: bytes
  b_PreKeys :: "BundlePreKey list"

text \<open>Package crypto/ed25519: \<open>Sign\<close> and \<open>Verify\<close> panic on a key of the wrong length.\<close>

definition ed25519_Sign :: "crypto \<Rightarrow> bytes \<Rightarrow> bytes \<Rightarrow> (omemo_error, bytes) result" where
  "ed25519_Sign C priv message =
     (if length priv \<noteq> 64 then Inl Panicked else Inr (ed25519_sign C priv message))"

definition ed25519_Verify :: "crypto \<Rightarrow> bytes \<Rightarrow> bytes \<Rightarrow> bytes \<Rightarrow> (omemo_error, bool) result" where
  "ed25519_Verify C pub message sig =
     (if length pub \<noteq> 32 then Inl Panicked else Inr (ed25519_verify C pub message sig))"

definition generateSignedPreKey ::
    "crypto \<Rightarrow> bytes \<Rightarrow> IdentityKeyPair \<Rightarrow> 32 word \<Rightarrow> (omemo_error, SignedPreKeyRecord) result" where
  "generateSignedPreKey C rnd ikp i =
     (let key = GenerateX25519KeyPair rnd; pubBytes = x25519_pub C key
      in bind_result (ed25519_Sign C (ik_private ikp) pubBytes) (\<lambda>sig.
           Inr \<lparr>spk_ID = i, spk_PrivateKey = key, spk_PublicKey = pubBytes, spk_Signature = sig\<rparr>))"

definition generatePreKey :: "crypto \<Rightarrow> bytes \<Rightarrow> 32 word \<Rightarrow> PreKeyRecord" where
  "generatePreKey C rnd i =
     (let key = GenerateX25519KeyPair rnd
      in \<lparr>pk_ID = i, pk_PrivateKey = key, pk_PublicKey = x25519_pub C key\<rparr>)"

text \<open>The loop over the one-time pre-keys from number \<open>i\<close> on; \<open>rnd\<close> gives the draw of each.\<close>

fun generate_pre_keys ::
    "crypto \<Rightarrow> 's Store \<Rightarrow> (nat \<Rightarrow> bytes) \<Rightarrow> nat \<Rightarrow> nat \<Rightarrow> 's \<Rightarrow> 's \<times> (omemo_error, BundlePreKey list) result" where
  "generate_pre_keys C S rnd i 0 s = (s, Inr [])"
| "generate_pre_keys C S rnd i (Suc n) s =
     (let pk = generatePreKey C (rnd i) (of_nat (i + 1))
      in case SavePreKey S pk s of
           (s1, Some e) \<Rightarrow> (s1, Inl e)
         | (s1, None) \<Rightarrow>
             (case generate_pre_keys C S rnd (Suc i) n s1 of
                (s2, Inl e) \<Rightarrow> (s2, Inl e)
              | (s2, Inr ks) \<Rightarrow> (s2, Inr (\<lparr>bpk_ID = pk_ID pk, bpk_PublicKey = pk_PublicKey pk\<rparr> # ks))))"

text \<open>\<open>make\<close> with a negative capacity panics.\<close>

definition load_or_generate_identity ::
    "crypto \<Rightarrow> 's Store \<Rightarrow> bytes \<Rightarrow> 's \<Rightarrow> 's \<times> (omemo_error, IdentityKeyPair) result" where
  "load_or_generate_identity C S rnd s =
     (case GetIdentityKeyPair S s of
        Inl e \<Rightarrow> (s, Inl e)
      | Inr (Some ikp) \<Rightarrow> (s, Inr ikp)
      | Inr None \<Rightarrow>
          (let ikp = GenerateIdentityKeyPair C rnd
           in case SaveIdentityKeyPair S ikp s of
                (s1, Some e) \<Rightarrow> (s1, Inl e)
              | (s1, None) \<Rightarrow> (s1, Inr ikp)))"

definition GenerateBundle ::
    "crypto \<Rightarrow> 's Store \<Rightarrow> bytes \<Rightarrow> bytes \<Rightarrow> (nat \<Rightarrow> bytes) \<Rightarrow> int \<Rightarrow> 's \<Rightarrow> 's \<times> (omemo_error, Bundle) result" where
  "GenerateBundle C S rnd_ik rnd_spk rnd_pk preKeyCount s =
     (case load_or_generate_identity C S rnd_ik s of
        (s1, Inl e) \<Rightarrow> (s1, Inl e)
      | (s1, Inr ikp) \<Rightarrow>
          (case generateSignedPreKey C rnd_spk ikp 1 of
             Inl e \<Rightarrow> (s1, Inl e)
           | Inr spk \<Rightarrow>
               (case SaveSignedPreKey S spk s1 of
                  (s2, Some e) \<Rightarrow> (s2, Inl e)
                | (s2, None) \<Rightarrow>
                    if preKeyCount < 0 then (s2, Inl Panicked)
                    else
                      (case generate_pre_keys C S rnd_pk 0 (nat preKeyCount) s2 of
                         (s3, Inl e) \<Rightarrow> (s3, Inl e)
                       | (s3, Inr preKeys) \<Rightarrow>
                           (s3, Inr \<lparr>b_IdentityKey = ik_public ikp, b_SignedPreKey = spk_PublicKey spk,
                              b_SignedPreKeyID = spk_ID spk, b_SignedPreKeySignature = spk_Signature spk,
                              b_PreKeys = preKeys\<rparr>)))))"

section \<open>X3DH\<close>

definition x3dhSalt :: bytes where
  "x3dhSalt = replicate 32 0"

definition x3dhPad :: bytes where
  "x3dhPad = replicate 32 0xFF"

record X3DHResult =
  SharedSecret :: bytes
  EphemeralPubKey :: bytes
  UsedPreKeyID :: "32 word option"

text \<open>\<open>rnd\<close> is the draw for the ephemeral key.\<close>

definition X3DHInitiate ::
    "crypto \<Rightarrow> bytes \<Rightarrow> IdentityKeyPair \<Rightarrow> Bundle \<Rightarrow> (omemo_error, X3DHResult) result" where
  "X3DHInitiate C rnd localIdentity remoteBundle =
     bind_result (ed25519_Verify C (b_IdentityKey remoteBundle) (b_SignedPreKey remoteBundle)
         (b_SignedPreKeySignature remoteBundle)) (\<lambda>ok.
     if \<not> ok then Inl ErrInvalidSignature
     else
       (let ephemeralKey = GenerateX25519KeyPair rnd
        in bind_result (Ed25519PrivateKeyToX25519 C (ik_private localIdentity)) (\<lambda>localX25519.
           bind_result (Ed25519PublicKeyToX25519 (b_IdentityKey remoteBundle)) (\<lambda>remoteX25519Pub.
           bind_result (x25519DH C localX25519 (b_SignedPreKey remoteBundle)) (\<lambda>dh1.
           bind_result (x25519DH C ephemeralKey remoteX25519Pub) (\<lambda>dh2.
           bind_result (x25519DH C ephemeralKey (b_SignedPreKey remoteBundle)) (\<lambda>dh3.
           bind_result
             (case b_PreKeys remoteBundle of
                [] \<Rightarrow> Inr (x3dhPad @ dh1 @ dh2 @ dh3, None)
              | opk # _ \<Rightarrow>
                  bind_result (x25519DH C ephemeralKey (bpk_PublicKey opk)) (\<lambda>dh4.
                    Inr (x3dhPad @ dh1 @ dh2 @ dh3 @ dh4, Some (bpk_ID opk)))) (\<lambda>(ikm, usedPreKeyID).
           bind_result (hkdfSHA256 C x3dhSalt ikm (ascii ''OMEMO X3DH'') 32) (\<lambda>sk.
             Inr \<lparr>SharedSecret = sk, EphemeralPubKey = x25519_pub C ephemeralKey,
                  UsedPreKeyID = usedPreKeyID\<rparr>)))))))))"

definition X3DHRespond ::
    "crypto \<Rightarrow> IdentityKeyPair \<Rightarrow> bytes \<Rightarrow> bytes option \<Rightarrow> bytes \<Rightarrow> bytes \<Rightarrow> (omemo_error, bytes) result" where
  "X3DHRespond C localIdentity localSPK localOPK remoteIdentityKey ephemeralPubKey =
     bind_result (Ed25519PublicKeyToX25519 remoteIdentityKey) (\<lambda>remoteX25519Pub.
     bind_result (Ed25519PrivateKeyToX25519 C (ik_private localIdentity)) (\<lambda>localX25519.
     bind_result (x25519DH C localSPK remoteX25519Pub) (\<lambda>dh1.
     bind_result (x25519DH C localX25519 ephemeralPubKey) (\<lambda>dh2.
     bind_result (x25519DH C localSPK ephemeralPubKey) (\<lambda>dh3.
     bind_result
       (case localOPK of
          None \<Rightarrow> Inr (x3dhPad @ dh1 @ dh2 @ dh3)
        | Some opk \<Rightarrow>
            bind_result (x25519DH C opk ephemeralPubKey) (\<lambda>dh4. Inr (x3dhPad @ dh1 @ dh2 @ dh3 @ dh4)))
       (\<lambda>ikm. hkdfSHA256 C x3dhSalt ikm (ascii ''OMEMO X3DH'') 32))))))"

section \<open>Sessions\<close>

record PendingPreKey =
  pp_PreKeyID :: "32 word option"
  pp_SignedPreKeyID :: "32 word"
  pp_EphemeralPubKey :: bytes

record Session =
  s_Ratchet :: RatchetState
  s_RemoteIdentity :: bytes
  s_PendingPreKey :: "PendingPreKey option"

text \<open>\<open>rnd_ek\<close> and \<open>rnd_rk\<close> are the draws for the ephemeral key and the first ratchet key.\<close>

definition InitSessionAsAlice ::
    "crypto \<Rightarrow> bytes \<Rightarrow> bytes \<Rightarrow> IdentityKeyPair \<Rightarrow> Bundle \<Rightarrow> (omemo_error, Session) result" where
  "InitSessionAsAlice C rnd_ek rnd_rk localIdentity remoteBundle =
     bind_result (X3DHInitiate C rnd_ek localIdentity remoteBundle) (\<lambda>x3dh.
     bind_result (InitRatchetAsAlice C rnd_rk (SharedSecret x3dh) (b_SignedPreKey remoteBundle)) (\<lambda>ratchet.
       Inr \<lparr>s_Ratchet = ratchet, s_RemoteIdentity = b_IdentityKey remoteBundle,
            s_PendingPreKey = Some \<lparr>pp_PreKeyID = UsedPreKeyID x3dh,
              pp_SignedPreKeyID = b_SignedPreKeyID remoteBundle,
              pp_EphemeralPubKey = EphemeralPubKey x3dh\<rparr>\<rparr>))"

definition InitSessionAsBob ::
    "crypto \<Rightarrow> IdentityKeyPair \<Rightarrow> bytes \<Rightarrow> bytes option \<Rightarrow> bytes \<Rightarrow> bytes \<Rightarrow> (omemo_error, Session) result" where
  "InitSessionAsBob C localIdentity localSPK localOPK remoteIdentityKey ephemeralPubKey =
     bind_result (X3DHRespond C localIdentity localSPK localOPK remoteIdentityKey ephemeralPubKey) (\<lambda>sharedSecret.
       Inr \<lparr>s_Ratchet = InitRatchetAsBob sharedSecret localSPK, s_RemoteIdentity = remoteIdentityKey,
            s_PendingPreKey = None\<rparr>)"

definition session_Encrypt ::
    "crypto \<Rightarrow> bytes \<Rightarrow> Session \<Rightarrow> bytes \<Rightarrow>
     Session \<times> (omemo_error, RatchetHeader \<times> bytes \<times> bool) result" where
  "session_Encrypt C rnd s plaintext =
     (case RatchetEncrypt C rnd (s_Ratchet s) plaintext of
        (r, Inl e) \<Rightarrow> (s\<lparr>s_Ratchet := r\<rparr>, Inl e)
      | (r, Inr (header, ciphertext)) \<Rightarrow>
          (s\<lparr>s_Ratchet := r\<rparr>, Inr (header, ciphertext, s_PendingPreKey s \<noteq> None)))"

definition session_Decrypt ::
    "crypto \<Rightarrow> bytes \<Rightarrow> Session \<Rightarrow> RatchetHeader \<Rightarrow> bytes \<Rightarrow> Session \<times> (omemo_error, bytes) result" where
  "session_Decrypt C rnd s header ciphertext =
     (case RatchetDecrypt C rnd (s_Ratchet s) header ciphertext of
        (r, Inl e) \<Rightarrow> (s\<lparr>s_Ratchet := r\<rparr>, Inl e)
      | (r, Inr plaintext) \<Rightarrow> (s\<lparr>s_Ratchet := r, s_PendingPreKey := None\<rparr>, Inr plaintext))"

text \<open>\<open>es\<close> is the order in which the map of skipped keys is written.\<close>

definition session_MarshalBinary :: "(skippedKey \<times> bytes) list \<Rightarrow> Session \<Rightarrow> bytes" where
  "session_MarshalBinary es s =
     s_RemoteIdentity s @
     (case s_PendingPreKey s of
        Some ppk \<Rightarrow>
          1 # (case pp_PreKeyID ppk of Some i \<Rightarrow> 1 # PutUint32 i | None \<Rightarrow> [0]) @
          PutUint32 (pp_SignedPreKeyID ppk) @ pp_EphemeralPubKey ppk
      | None \<Rightarrow> [0]) @
     ratchet_MarshalBinary es (s_Ratchet s)"

text \<open>The part behind the flag of the pending pre-key: \<open>data[pos]\<close> panics when nothing is left.\<close>

definition read_pending :: "bytes \<Rightarrow> (omemo_error, PendingPreKey \<times> bytes) result" where
  "read_pending data =
     (case data of
        [] \<Rightarrow> Inl Panicked
      | preKeyFlag # r \<Rightarrow>
          bind_result
            (if preKeyFlag = 1 then
               (if length r < 4 then Inl ErrInvalidMessage else Inr (Some (Uint32 r), drop 4 r))
             else Inr (None, r)) (\<lambda>(preKeyID, r1).
          if length r1 < 4 then Inl ErrInvalidMessage
          else if length (drop 4 r1) < 32 then Inl ErrInvalidMessage
          else Inr (\<lparr>pp_PreKeyID = preKeyID, pp_SignedPreKeyID = Uint32 r1,
                     pp_EphemeralPubKey = take 32 (drop 4 r1)\<rparr>, drop 32 (drop 4 r1))))"

definition session_UnmarshalBinary :: "bytes \<Rightarrow> (omemo_error, Session) result" where
  "session_UnmarshalBinary data =
     (if length data < 33 then Inl ErrInvalidMessage
      else
        bind_result
          (if data ! 32 = 1 then
             bind_result (read_pending (drop 33 data)) (\<lambda>(ppk, r). Inr (Some ppk, r))
           else Inr (None, drop 33 data)) (\<lambda>(pending, r).
        bind_result (ratchet_UnmarshalBinary r) (\<lambda>ratchet.
          Inr \<lparr>s_Ratchet = ratchet, s_RemoteIdentity = take 32 data, s_PendingPreKey = pending\<rparr>)))"

section \<open>Round trip\<close>

definition session_wf :: "Session \<Rightarrow> bool" where
  "session_wf s \<longleftrightarrow>
     length (s_RemoteIdentity s) = 32 \<and> ratchet_wf (s_Ratchet s) \<and>
     length (MKSkipped (s_Ratchet s)) < 2 ^ 32 \<and>
     (case s_PendingPreKey s of None \<Rightarrow> True | Some ppk \<Rightarrow> length (pp_EphemeralPubKey ppk) = 32)"

lemma read_pending_write:
  assumes "length (pp_EphemeralPubKey ppk) = 32"
  shows "read_pending ((case pp_PreKeyID ppk of Some i \<Rightarrow> 1 # PutUint32 i | None \<Rightarrow> [0]) @
      PutUint32 (pp_SignedPreKeyID ppk) @ pp_EphemeralPubKey ppk @ r) = Inr (ppk, r)"
  using assms by (cases "pp_PreKeyID ppk") (simp_all add: read_pending_def wire)


text \<open>
  C9: saving a session and reading it back gives the session: the remote identity, the pending
  pre-key with its optional identifier, and the ratchet with its counters, optional keys and all skipped
  message keys, for every order \<open>es\<close> in which Go visits the map of skipped keys when it writes them.
\<close>

theorem session_binary_roundtrip:
  assumes "session_wf s" and "mset es = mset (MKSkipped (s_Ratchet s))"
  shows "session_UnmarshalBinary (session_MarshalBinary es s) =
    Inr (s\<lparr>s_Ratchet := (s_Ratchet s)\<lparr>MKSkipped := es\<rparr>\<rparr>)"
proof -
  have wf: "length (s_RemoteIdentity s) = 32" "ratchet_wf (s_Ratchet s)" "length (MKSkipped (s_Ratchet s)) < 2 ^ 32"
    using assms(1) by (auto simp: session_wf_def)
  note ratchet = ratchet_binary_roundtrip [OF wf(2) assms(2) wf(3)]
  show ?thesis
  proof (cases "s_PendingPreKey s")
    case None
    then show ?thesis using wf(1) ratchet
      by (simp add: session_UnmarshalBinary_def session_MarshalBinary_def nth_append)
  next
    case (Some ppk)
    then have "length (pp_EphemeralPubKey ppk) = 32" using assms(1) by (simp add: session_wf_def)
    note read_pending_write [OF this]
    with Some show ?thesis using wf(1) ratchet
      by (simp add: session_UnmarshalBinary_def session_MarshalBinary_def nth_append)
  qed
qed

definition demo_session :: "(skippedKey \<times> bytes) list \<Rightarrow> Session" where
  "demo_session m =
     \<lparr>s_Ratchet = \<lparr>DHs = replicate 32 9, DHr = Some (replicate 32 1), RK = replicate 32 8, CKs = None,
        CKr = Some (replicate 32 6), Ns = 0, Nr = 5, PN = 7, MKSkipped = m\<rparr>,
      s_RemoteIdentity = replicate 32 3,
      s_PendingPreKey = Some \<lparr>pp_PreKeyID = Some 0x01020304, pp_SignedPreKeyID = 1,
        pp_EphemeralPubKey = replicate 32 4\<rparr>\<rparr>"

theorem session_binary_roundtrip_witness:
  "session_UnmarshalBinary
     (session_MarshalBinary [((replicate 32 1, 4), replicate 32 5), ((replicate 32 1, 2), replicate 32 3)]
       (demo_session [((replicate 32 1, 2), replicate 32 3), ((replicate 32 1, 4), replicate 32 5)]))
   = Inr (demo_session [((replicate 32 1, 4), replicate 32 5), ((replicate 32 1, 2), replicate 32 3)])"
proof -
  let ?m = "[((replicate 32 1, 2), replicate 32 3), ((replicate 32 1, 4), replicate 32 5)]
    :: (skippedKey \<times> bytes) list"
  have "session_wf (demo_session ?m)"
    by (simp add: demo_session_def session_wf_def ratchet_wf_def key32_def skipped_wf_def)
  from session_binary_roundtrip [OF this,
      of "[((replicate 32 1, 4), replicate 32 5), ((replicate 32 1, 2), replicate 32 3)]"]
  show ?thesis by (simp add: demo_session_def add_mset_commute)
qed

text \<open>
  The only data on which reading a session panics are those of exactly 33 bytes whose last byte,
  the flag of the pending pre-key, is 1; shorter data and truncated fields are reported as errors.
\<close>

theorem session_UnmarshalBinary_panics:
  "session_UnmarshalBinary data = Inl Panicked \<longleftrightarrow> length data = 33 \<and> data ! 32 = 1"
proof -
  have p: "read_pending r = Inl Panicked \<longleftrightarrow> r = []" for r
    by (cases r) (auto simp: read_pending_def bind_result_Inl_iff split: if_splits)
  have r: "ratchet_UnmarshalBinary r \<noteq> Inl Panicked" for r
    using ratchet_UnmarshalBinary_error by blast
  show ?thesis
    using p [of "drop 33 data"] r
    by (auto simp: session_UnmarshalBinary_def bind_result_Inl_iff split: if_splits)
qed

section \<open>Agreement\<close>

text \<open>
  Documented behaviour of Ed25519 and X25519 (RFC 8032, RFC 7748): the public key of a seed is the point
  whose scalar is the clamped first half of SHA-512 of the seed; its Edwards coordinate y, never 1, and
  the u-coordinate of the X25519 public key of that scalar satisfy u (1 - y) = 1 + y, and both
  encodings are canonical.  A signature made with the private key verifies.
\<close>

definition scalar_of :: "crypto \<Rightarrow> bytes \<Rightarrow> bytes" where
  "scalar_of C seed = take 32 (clamp (sha512 C seed))"

definition curve_ok :: "crypto \<Rightarrow> bool" where
  "curve_ok C \<longleftrightarrow>
     (\<forall>seed. length seed = 32 \<longrightarrow>
        length (sha512 C seed) = 64 \<and> length (ed25519_pub C seed) = 32 \<and>
        be_value (rev (x25519_pub C (scalar_of C seed))) < field_p \<and>
        gcd (1 - ed_y (ed25519_pub C seed)) field_p = 1 \<and>
        (be_value (rev (x25519_pub C (scalar_of C seed))) * (1 - ed_y (ed25519_pub C seed))) mod field_p
          = (1 + ed_y (ed25519_pub C seed)) mod field_p)"

definition sign_ok :: "crypto \<Rightarrow> bool" where
  "sign_ok C \<longleftrightarrow>
     (\<forall>seed m. length seed = 32 \<longrightarrow>
        ed25519_verify C (ed25519_pub C seed) m (ed25519_sign C (seed @ ed25519_pub C seed) m))"

lemma be_value_bounds: "0 \<le> be_value b \<and> be_value b < 256 ^ length b"
proof (induction b)
  case Nil
  then show ?case by simp
next
  case (Cons x b)
  have x: "0 \<le> uint x" "uint x \<le> 255" using uint_bounded [of x] by auto
  then have "uint x * 256 ^ length b \<le> 255 * 256 ^ length b" by (intro mult_right_mono) auto
  then have "uint x * 256 ^ length b + be_value b < 255 * 256 ^ length b + 256 ^ length b"
    using Cons.IH by linarith
  with Cons.IH x(1) show ?case by simp
qed

lemma be_value_inj: "length a = length b \<Longrightarrow> be_value a = be_value b \<Longrightarrow> a = b"
proof (induction a b rule: list_induct2)
  case Nil
  then show ?case by simp
next
  case (Cons x a y b)
  let ?n = "(256 :: int) ^ length b"
  have "be_value a mod ?n = be_value a" "be_value b mod ?n = be_value b"
    using be_value_bounds [of a] be_value_bounds [of b] Cons.hyps by (simp_all add: mod_pos_pos_trivial)
  moreover have "(uint x * ?n + be_value a) mod ?n = (uint y * ?n + be_value b) mod ?n"
    using Cons.prems Cons.hyps by simp
  ultimately have v: "be_value a = be_value b" by simp
  then have "uint x = uint y" using Cons.prems Cons.hyps by simp
  with v Cons.IH show ?case by (simp add: word_uint_eq_iff)
qed


text \<open>The code's conversion of a public key agrees with the conversion of the private key.\<close>

lemma mod_inverse_unique:
  assumes "(u * d) mod p = (v * d) mod p" and "gcd d p = 1"
    and "0 \<le> u" "u < p" "0 \<le> v" "v < p"
  shows "u = (v :: int)"
proof -
  have "p dvd (u - v) * d" using assms(1) by (simp add: mod_eq_dvd_iff left_diff_distrib)
  moreover have "coprime p d" using assms(2) by (simp add: coprime_iff_gcd_eq_1 gcd.commute)
  ultimately have "p dvd u - v" by (simp add: coprime_dvd_mult_left_iff)
  then have "u mod p = v mod p" by (simp add: mod_eq_dvd_iff)
  with assms(3-6) show ?thesis by simp
qed

lemma Ed25519PublicKeyToX25519_pub:
  assumes "curve_ok C" and "dh_ok C" and "length seed = 32"
  shows "Ed25519PublicKeyToX25519 (ed25519_pub C seed) = Inr (x25519_pub C (scalar_of C seed))"
proof -
  let ?y = "ed_y (ed25519_pub C seed)" and ?x = "x25519_pub C (scalar_of C seed)"
  have c: "length (sha512 C seed) = 64" "length (ed25519_pub C seed) = 32" "be_value (rev ?x) < field_p"
      "gcd (1 - ?y) field_p = 1" "(be_value (rev ?x) * (1 - ?y)) mod field_p = (1 + ?y) mod field_p"
    using assms(1,3) unfolding curve_ok_def by blast+
  have "gcd ((1 - ?y) mod field_p) field_p = 1" using c(4) by (metis gcd.commute gcd_red_int)
  then have "ModInverse ((1 - ?y) mod field_p) field_p \<noteq> None" by (simp add: ModInverse_def)
  then obtain u where u: "Ed25519PublicKeyToX25519 (ed25519_pub C seed) = Inr u"
    using c(2) by (auto simp: Ed25519PublicKeyToX25519_def Let_def ed_y_def)
  note b = Ed25519PublicKeyToX25519_birational [OF this]
  have "length (scalar_of C seed) = 32" using c(1) by (simp add: scalar_of_def clamp_def)
  then have x: "length ?x = 32" using assms(2) by (simp add: dh_ok_def)
  have "be_value (rev u) = be_value (rev ?x)"
  proof (rule mod_inverse_unique [OF _ c(4)])
    show "(be_value (rev u) * (1 - ?y)) mod field_p = (be_value (rev ?x) * (1 - ?y)) mod field_p"
      using b c(5) by simp
  qed (use b c(3) be_value_bounds [of "rev ?x"] in blast)+
  then have "rev u = rev ?x" using b x by (intro be_value_inj) auto
  with u show ?thesis by simp
qed

lemma Ed25519PrivateKeyToX25519_seed:
  assumes "curve_ok C" and "length seed = 32"
  shows "Ed25519PrivateKeyToX25519 C (seed @ pub) = Inr (scalar_of C seed)" "length (scalar_of C seed) = 32"
  using assms by (simp_all add: Ed25519PrivateKeyToX25519_def scalar_of_def clamp_def x25519_key_def
      curve_ok_def Let_def)

text \<open>What a device publishes for its identity, signed pre-key and one-time pre-keys.\<close>

definition bundle_of :: "IdentityKeyPair \<Rightarrow> SignedPreKeyRecord \<Rightarrow> PreKeyRecord list \<Rightarrow> Bundle" where
  "bundle_of ikp spk pks =
     \<lparr>b_IdentityKey = ik_public ikp, b_SignedPreKey = spk_PublicKey spk, b_SignedPreKeyID = spk_ID spk,
      b_SignedPreKeySignature = spk_Signature spk,
      b_PreKeys = map (\<lambda>pk. \<lparr>bpk_ID = pk_ID pk, bpk_PublicKey = pk_PublicKey pk\<rparr>) pks\<rparr>"

definition good_pre_key :: "crypto \<Rightarrow> PreKeyRecord \<Rightarrow> bool" where
  "good_pre_key C pk \<longleftrightarrow> length (pk_PrivateKey pk) = 32 \<and> pk_PublicKey pk = x25519_pub C (pk_PrivateKey pk)"

lemma generatePreKey_good: "good_pre_key C (generatePreKey C rnd i)"
  by (simp add: good_pre_key_def generatePreKey_def GenerateX25519KeyPair_def Let_def)

lemma x25519DH_swap:
  assumes "dh_ok C" and "length a = 32" and "length b = 32"
  obtains dh where "x25519DH C a (x25519_pub C b) = Inr dh" "x25519DH C b (x25519_pub C a) = Inr dh"
  using x25519DH_agree [OF assms] by blast

lemma hkdfSHA256_ok:
  assumes "kdf_ok C" and "n \<le> 255 * 32"
  obtains out where "hkdfSHA256 C salt ikm info n = Inr out" "length out = n"
proof -
  from assms obtain out where "hkdf_read C salt ikm info n = Some out" "length out = n"
    unfolding kdf_ok_def by blast
  then show ?thesis using that by (simp add: hkdfSHA256_def)
qed

lemma generateSignedPreKey_ok:
  assumes "sign_ok C" and "curve_ok C" and "ikp = GenerateIdentityKeyPair C rnd0"
  shows "\<exists>spk. generateSignedPreKey C rnd ikp i = Inr spk \<and> spk_ID spk = i \<and> length (spk_PrivateKey spk) = 32 \<and>
     spk_PublicKey spk = x25519_pub C (spk_PrivateKey spk) \<and>
     ed25519_verify C (ik_public ikp) (spk_PublicKey spk) (spk_Signature spk)"
proof -
  let ?seed = "rand_bytes 32 rnd0"
  have seed: "length ?seed = 32" by simp
  then have "length (ed25519_pub C ?seed) = 32" using assms(2) unfolding curve_ok_def by blast
  moreover have "\<And>m. ed25519_verify C (ed25519_pub C ?seed) m (ed25519_sign C (?seed @ ed25519_pub C ?seed) m)"
    using assms(1) seed unfolding sign_ok_def by blast
  ultimately show ?thesis
    by (simp add: assms(3) generateSignedPreKey_def GenerateIdentityKeyPair_def ed25519_Sign_def
        GenerateX25519KeyPair_def Let_def)
qed

lemma X3DH_agree:
  assumes ok: "kdf_ok C" "dh_ok C" "curve_ok C"
    and a: "ikA = GenerateIdentityKeyPair C rndA" and b: "ikB = GenerateIdentityKeyPair C rndB"
    and spk: "length (spk_PrivateKey spk) = 32" "spk_PublicKey spk = x25519_pub C (spk_PrivateKey spk)"
      "ed25519_verify C (ik_public ikB) (spk_PublicKey spk) (spk_Signature spk)"
    and pks: "list_all (good_pre_key C) pks"
  shows "\<exists>res. X3DHInitiate C rnd ikA (bundle_of ikB spk pks) = Inr res \<and>
     X3DHRespond C ikB (spk_PrivateKey spk) (case pks of [] \<Rightarrow> None | pk # _ \<Rightarrow> Some (pk_PrivateKey pk))
       (ik_public ikA) (EphemeralPubKey res) = Inr (SharedSecret res) \<and>
     length (SharedSecret res) = 32 \<and> length (EphemeralPubKey res) = 32 \<and>
     UsedPreKeyID res = (case pks of [] \<Rightarrow> None | pk # _ \<Rightarrow> Some (pk_ID pk))"
proof -
  let ?sA = "rand_bytes 32 rndA" and ?sB = "rand_bytes 32 rndB" and ?e = "GenerateX25519KeyPair rnd"
  let ?xA = "scalar_of C ?sA" and ?xB = "scalar_of C ?sB" and ?spk = "spk_PrivateKey spk"
  have A: "ik_private ikA = ?sA @ ed25519_pub C ?sA" "ik_public ikA = ed25519_pub C ?sA"
    and B: "ik_private ikB = ?sB @ ed25519_pub C ?sB" "ik_public ikB = ed25519_pub C ?sB"
    by (simp_all add: a b GenerateIdentityKeyPair_def Let_def)
  have seeds: "length ?sA = 32" "length ?sB = 32" "length ?e = 32"
    by (simp_all add: GenerateX25519KeyPair_def)
  note priv = Ed25519PrivateKeyToX25519_seed [OF ok(3)] and pub = Ed25519PublicKeyToX25519_pub [OF ok(3,2)]
  have len: "length (ed25519_pub C ?sB) = 32" using ok(3) seeds(2) unfolding curve_ok_def by blast
  obtain dh1 where dh1: "x25519DH C ?xA (x25519_pub C ?spk) = Inr dh1" "x25519DH C ?spk (x25519_pub C ?xA) = Inr dh1"
    using x25519DH_swap [OF ok(2) priv(2) spk(1)] seeds(1) by blast
  obtain dh2 where dh2: "x25519DH C ?e (x25519_pub C ?xB) = Inr dh2" "x25519DH C ?xB (x25519_pub C ?e) = Inr dh2"
    using x25519DH_swap [OF ok(2) seeds(3) priv(2)] seeds(2) by blast
  obtain dh3 where dh3: "x25519DH C ?e (x25519_pub C ?spk) = Inr dh3" "x25519DH C ?spk (x25519_pub C ?e) = Inr dh3"
    using x25519DH_swap [OF ok(2) seeds(3) spk(1)] by blast
  have ek: "length (x25519_pub C ?e) = 32" using ok(2) seeds(3) by (simp add: dh_ok_def)
  have le: "(32 :: nat) \<le> 255 * 32" by simp
  show ?thesis
  proof (cases pks)
    case Nil
    obtain sk where "hkdfSHA256 C x3dhSalt (x3dhPad @ dh1 @ dh2 @ dh3) (ascii ''OMEMO X3DH'') 32 = Inr sk"
        "length sk = 32"
      using hkdfSHA256_ok [OF ok(1) le] by blast
    then show ?thesis using Nil spk(2,3) A B priv pub seeds len dh1 dh2 dh3 ek
      by (simp add: X3DHInitiate_def X3DHRespond_def bundle_of_def ed25519_Verify_def Let_def)
  next
    case (Cons pk rest)
    then have pk: "length (pk_PrivateKey pk) = 32" "pk_PublicKey pk = x25519_pub C (pk_PrivateKey pk)"
      using pks by (simp_all add: good_pre_key_def)
    obtain dh4 where dh4: "x25519DH C ?e (x25519_pub C (pk_PrivateKey pk)) = Inr dh4"
        "x25519DH C (pk_PrivateKey pk) (x25519_pub C ?e) = Inr dh4"
      using x25519DH_swap [OF ok(2) seeds(3) pk(1)] by blast
    obtain sk where "hkdfSHA256 C x3dhSalt (x3dhPad @ dh1 @ dh2 @ dh3 @ dh4) (ascii ''OMEMO X3DH'') 32 = Inr sk"
        "length sk = 32"
      using hkdfSHA256_ok [OF ok(1) le] by blast
    then show ?thesis using Cons spk(2,3) A B priv pub seeds len dh1 dh2 dh3 dh4 ek pk(2)
      by (simp add: X3DHInitiate_def X3DHRespond_def bundle_of_def ed25519_Verify_def Let_def)
  qed
qed


lemma toy_sign_ok: "sign_ok toy_crypto"
  by (simp add: sign_ok_def toy_crypto_def)

lemma toy_scalar_of: "scalar_of toy_crypto seed = toy_scalar"
proof (rule nth_equalityI)
  show "length (scalar_of toy_crypto seed) = length toy_scalar"
    by (simp add: scalar_of_def toy_crypto_def clamp_def toy_scalar_def)
  fix i assume "i < length (scalar_of toy_crypto seed)"
  then have i: "i < 32" by (simp add: scalar_of_def toy_crypto_def clamp_def)
  then have "i = 31 \<or> i < 31" by linarith
  with i show "scalar_of toy_crypto seed ! i = toy_scalar ! i"
    by (auto simp: scalar_of_def toy_crypto_def clamp_def toy_scalar_def nth_list_update nth_append)
qed

lemma be_value_ones: "be_value (replicate n 0xFF @ [b]) = (256 ^ n - 1) * 256 + uint b"
proof (induction n)
  case 0
  then show ?case by simp
next
  case (Suc n)
  have "uint (0xFF :: 8 word) = 255" by simp
  with Suc show ?case by (simp only: replicate_Suc append_Cons be_value.simps) (simp add: algebra_simps)
qed

lemma toy_ed_y: "ed_y (ed25519_pub toy_crypto seed) = field_p - 1"
proof -
  let ?k = "0xEC # replicate 30 0xFF @ [0x7F] :: bytes"
  have k: "?k ! 31 = 0x7F" "?k[31 := 0x7F] = ?k" by (simp_all add: nth_append list_update_append)
  have "ed_y ?k = be_value (0x7F # replicate 30 0xFF @ [0xEC])"
    unfolding ed_y_def k(1) using k(2) by simp
  also have "\<dots> = field_p - 1" by (simp only: be_value.simps be_value_ones) (simp add: field_p_def)
  finally show ?thesis by (simp add: toy_crypto_def)
qed

lemma toy_curve_ok: "curve_ok toy_crypto"
proof -
  have pub: "x25519_pub toy_crypto toy_scalar = replicate 32 0" by (simp add: toy_crypto_def toy_pub_def)
  have zero: "be_value (rev (replicate 32 0)) = 0" using be_value_zeros [of 32 "[]"] by simp
  have "gcd (1 - (field_p - 1)) field_p = gcd (2 - field_p) field_p" by simp
  also have "\<dots> = gcd 2 field_p" by (metis gcd_red_int gcd.commute minus_mod_self2)
  also have "\<dots> = 1" by (simp add: field_p_def gcd_non_0_int)
  finally have g: "gcd (1 - (field_p - 1)) field_p = 1" .
  have l: "length (sha512 toy_crypto seed) = 64" "length (ed25519_pub toy_crypto seed) = 32" for seed
    by (simp_all add: toy_crypto_def)
  show ?thesis unfolding curve_ok_def toy_scalar_of toy_ed_y pub zero
    using g l field_p_bounds(1) by auto
qed


text \<open>
  C7: X3DH agreement.  When Bob publishes a bundle with his identity key, a signed pre-key made by
  \<open>generateSignedPreKey\<close> and any number of one-time pre-keys, Alice's side of the key agreement succeeds
  and Bob's side, given Alice's identity key and ephemeral key and the private key of the one-time
  pre-key she names (none when the bundle had none), returns the same 32-byte secret.
\<close>

theorem X3DH_agreement:
  assumes "kdf_ok C" and "dh_ok C" and "curve_ok C" and "sign_ok C"
    and "ikA = GenerateIdentityKeyPair C rndA" and "ikB = GenerateIdentityKeyPair C rndB"
    and "generateSignedPreKey C rndS ikB i = Inr spk" and "pks = map (\<lambda>(r, n). generatePreKey C r n) draws"
  shows "\<exists>res. X3DHInitiate C rnd ikA (bundle_of ikB spk pks) = Inr res \<and>
     X3DHRespond C ikB (spk_PrivateKey spk) (case pks of [] \<Rightarrow> None | pk # _ \<Rightarrow> Some (pk_PrivateKey pk))
       (ik_public ikA) (EphemeralPubKey res) = Inr (SharedSecret res) \<and>
     length (SharedSecret res) = 32 \<and>
     UsedPreKeyID res = (case pks of [] \<Rightarrow> None | pk # _ \<Rightarrow> Some (pk_ID pk))"
proof -
  have pks: "list_all (good_pre_key C) pks"
    unfolding assms(8) list_all_iff by (auto simp: generatePreKey_good)
  from generateSignedPreKey_ok [OF assms(4,3,6), of rndS i] assms(7)
  have spk: "length (spk_PrivateKey spk) = 32" "spk_PublicKey spk = x25519_pub C (spk_PrivateKey spk)"
      "ed25519_verify C (ik_public ikB) (spk_PublicKey spk) (spk_Signature spk)"
    by auto
  from X3DH_agree [OF assms(1-3,5,6) spk pks, of rnd] show ?thesis by blast
qed

theorem X3DH_agreement_witness:
  "\<exists>spk res. generateSignedPreKey toy_crypto [3] (GenerateIdentityKeyPair toy_crypto [2]) 1 = Inr spk \<and>
     X3DHInitiate toy_crypto [4] (GenerateIdentityKeyPair toy_crypto [1])
       (bundle_of (GenerateIdentityKeyPair toy_crypto [2]) spk [generatePreKey toy_crypto [5] 1]) = Inr res \<and>
     X3DHRespond toy_crypto (GenerateIdentityKeyPair toy_crypto [2]) (spk_PrivateKey spk)
       (Some (pk_PrivateKey (generatePreKey toy_crypto [5] 1)))
       (ik_public (GenerateIdentityKeyPair toy_crypto [1])) (EphemeralPubKey res) = Inr (SharedSecret res)"
proof -
  obtain spk where spk: "generateSignedPreKey toy_crypto [3] (GenerateIdentityKeyPair toy_crypto [2]) 1 = Inr spk"
    using generateSignedPreKey_ok [OF toy_sign_ok toy_curve_ok refl, of "[3]" "[2]" 1] by blast
  show ?thesis
    using X3DH_agreement [OF toy_kdf_ok toy_dh_ok toy_curve_ok toy_sign_ok refl refl spk,
        of "[generatePreKey toy_crypto [5] 1]" "[([5], 1)]" "[4]" "[1]"] spk
    by auto
qed

text \<open>The sessions both sides set up are ready for the first turn of the conversation.\<close>

lemma InitSession_ahead:
  assumes "kdf_ok C" "dh_ok C" "curve_ok C"
    and "ikA = GenerateIdentityKeyPair C rndA" and "ikB = GenerateIdentityKeyPair C rndB"
    and "length (spk_PrivateKey spk) = 32" "spk_PublicKey spk = x25519_pub C (spk_PrivateKey spk)"
      "ed25519_verify C (ik_public ikB) (spk_PublicKey spk) (spk_Signature spk)"
    and "list_all (good_pre_key C) pks"
  shows "\<exists>sA sB ppk. InitSessionAsAlice C rnd_ek rnd_rk ikA (bundle_of ikB spk pks) = Inr sA \<and>
     s_PendingPreKey sA = Some ppk \<and> pp_SignedPreKeyID ppk = spk_ID spk \<and>
     pp_PreKeyID ppk = (case pks of [] \<Rightarrow> None | pk # _ \<Rightarrow> Some (pk_ID pk)) \<and>
     length (pp_EphemeralPubKey ppk) = 32 \<and>
     InitSessionAsBob C ikB (spk_PrivateKey spk) (case pks of [] \<Rightarrow> None | pk # _ \<Rightarrow> Some (pk_PrivateKey pk))
       (ik_public ikA) (pp_EphemeralPubKey ppk) = Inr sB \<and>
     ahead C (s_Ratchet sA) (s_Ratchet sB) \<and>
     PN (s_Ratchet sA) = 0 \<and> CKr (s_Ratchet sB) = None \<and> MKSkipped (s_Ratchet sB) = [] \<and>
     DHs (s_Ratchet sB) = spk_PrivateKey spk"
proof -
  obtain res where res: "X3DHInitiate C rnd_ek ikA (bundle_of ikB spk pks) = Inr res"
      "X3DHRespond C ikB (spk_PrivateKey spk) (case pks of [] \<Rightarrow> None | pk # _ \<Rightarrow> Some (pk_PrivateKey pk))
         (ik_public ikA) (EphemeralPubKey res) = Inr (SharedSecret res)"
      "length (EphemeralPubKey res) = 32"
      "UsedPreKeyID res = (case pks of [] \<Rightarrow> None | pk # _ \<Rightarrow> Some (pk_ID pk))"
    using X3DH_agree [OF assms] by blast
  obtain a where a: "InitRatchetAsAlice C rnd_rk (SharedSecret res) (x25519_pub C (spk_PrivateKey spk)) = Inr a"
      "ahead C a (InitRatchetAsBob (SharedSecret res) (spk_PrivateKey spk))" "PN a = 0"
    using ahead_init [OF assms(1,2,6)] by blast
  have spkA: "b_SignedPreKey (bundle_of ikB spk pks) = x25519_pub C (spk_PrivateKey spk)"
      "b_SignedPreKeyID (bundle_of ikB spk pks) = spk_ID spk"
    using assms(7) by (simp_all add: bundle_of_def)
  have "InitSessionAsAlice C rnd_ek rnd_rk ikA (bundle_of ikB spk pks) =
      Inr \<lparr>s_Ratchet = a, s_RemoteIdentity = b_IdentityKey (bundle_of ikB spk pks),
        s_PendingPreKey = Some \<lparr>pp_PreKeyID = UsedPreKeyID res, pp_SignedPreKeyID = spk_ID spk,
          pp_EphemeralPubKey = EphemeralPubKey res\<rparr>\<rparr>"
    using res(1) a(1) spkA by (simp add: InitSessionAsAlice_def)
  then show ?thesis
    using res(2-4) a(2,3) by (simp add: InitSessionAsBob_def InitRatchetAsBob_def)
qed

end
