(* ===== verification/OmemoManager.thy ===== *)
theory OmemoManager
  imports OmemoSession
begin

text \<open>
  Package \<open>omemo\<close>, the manager (crypto/omemo: message.go, manager.go).  Its state is the store behind
  the interface, the cached bundles and the active sessions; since a session is changed in place through
  the pointer in the map, every operation puts the changed session back, on the error paths too.  The
  theorems: a message encrypted for a device whose bundle was processed is decrypted there by
  \<open>DecryptPreKeyMessage\<close>, with any reliable store on either side; later messages are decrypted by
  \<open>Decrypt\<close>; and the branches that can not do what their comments say.
\<close>

section \<open>State\<close>

record MessageKey =
  k_DeviceID :: "32 word"
  k_Data :: bytes
  k_IsPreKey :: bool

record EncryptedMessage =
  m_SenderDeviceID :: "32 word"
  m_Keys :: "MessageKey list"
  m_IV :: bytes
  m_Payload :: bytes

record 's omemo_Manager =
  om_store :: 's
  om_bundles :: "Address \<rightharpoonup> Bundle"
  om_sessions :: "Address \<rightharpoonup> Session"

text \<open>
  The draws of one recipient's turn: ephemeral key and first ratchet key of a new session, the nonce of
  the ratchet message (or the ratchet key a decryption makes), and the order in which the skipped keys
  are written when the session is saved.
\<close>

record draws =
  d_ek :: bytes
  d_rk :: bytes
  d_nonce :: bytes
  d_ord :: "(skippedKey \<times> bytes) list \<Rightarrow> (skippedKey \<times> bytes) list"

definition omemo_NewManager :: "'s \<Rightarrow> 's omemo_Manager" where
  "omemo_NewManager s = \<lparr>om_store = s, om_bundles = Map.empty, om_sessions = Map.empty\<rparr>"

definition ProcessBundle :: "'s omemo_Manager \<Rightarrow> Address \<Rightarrow> Bundle \<Rightarrow> 's omemo_Manager" where
  "ProcessBundle m addr bundle = m\<lparr>om_bundles := (om_bundles m)(addr \<mapsto> bundle)\<rparr>"

definition manager_GenerateBundle ::
    "crypto \<Rightarrow> 's Store \<Rightarrow> bytes \<Rightarrow> bytes \<Rightarrow> (nat \<Rightarrow> bytes) \<Rightarrow> int \<Rightarrow> 's omemo_Manager \<Rightarrow>
     's omemo_Manager \<times> (omemo_error, Bundle) result" where
  "manager_GenerateBundle C S rnd_ik rnd_spk rnd_pk preKeyCount m =
     (case GenerateBundle C S rnd_ik rnd_spk rnd_pk preKeyCount (om_store m) of
        (s, r) \<Rightarrow> (m\<lparr>om_store := s\<rparr>, r))"

section \<open>Finding and saving sessions\<close>

text \<open>A session that can not be read counts as absent, except that reading it may panic.\<close>

definition load_session :: "'s Store \<Rightarrow> Address \<Rightarrow> 's omemo_Manager \<Rightarrow> (omemo_error, Session option) result" where
  "load_session S addr m =
     (case GetSession S addr (om_store m) of
        Inl e \<Rightarrow> Inr None
      | Inr data \<Rightarrow>
          (case session_UnmarshalBinary data of
             Inr session \<Rightarrow> Inr (Some session)
           | Inl e \<Rightarrow> if e = Panicked then Inl Panicked else Inr None))"

definition create_from_bundle ::
    "crypto \<Rightarrow> 's Store \<Rightarrow> draws \<Rightarrow> Address \<Rightarrow> 's omemo_Manager \<Rightarrow>
     's omemo_Manager \<times> (omemo_error, Session) result" where
  "create_from_bundle C S d addr m =
     (case om_bundles m addr of
        None \<Rightarrow> (m, Inl ErrNoSession)
      | Some bundle \<Rightarrow>
          (case GetIdentityKeyPair S (om_store m) of
             Inl e \<Rightarrow> (m, Inl e)
           | Inr None \<Rightarrow> (m, Inl ErrNoIdentity)
           | Inr (Some ikp) \<Rightarrow>
               (case InitSessionAsAlice C (d_ek d) (d_rk d) ikp bundle of
                  Inl e \<Rightarrow> (m, Inl e)
                | Inr session \<Rightarrow>
                    (case SaveRemoteIdentity S addr (b_IdentityKey bundle) (om_store m) of
                       (s, Some e) \<Rightarrow> (m\<lparr>om_store := s\<rparr>, Inl e)
                     | (s, None) \<Rightarrow>
                         (m\<lparr>om_store := s,
                            om_bundles :=
                              (if b_PreKeys bundle \<noteq> []
                               then (om_bundles m)(addr \<mapsto> bundle\<lparr>b_PreKeys := tl (b_PreKeys bundle)\<rparr>)
                               else om_bundles m),
                            om_sessions := (om_sessions m)(addr \<mapsto> session)\<rparr>, Inr session)))))"

definition getOrCreateSession ::
    "crypto \<Rightarrow> 's Store \<Rightarrow> draws \<Rightarrow> Address \<Rightarrow> 's omemo_Manager \<Rightarrow>
     's omemo_Manager \<times> (omemo_error, Session) result" where
  "getOrCreateSession C S d addr m =
     (case om_sessions m addr of
        Some session \<Rightarrow> (m, Inr session)
      | None \<Rightarrow>
          (case load_session S addr m of
             Inl e \<Rightarrow> (m, Inl e)
           | Inr (Some session) \<Rightarrow> (m\<lparr>om_sessions := (om_sessions m)(addr \<mapsto> session)\<rparr>, Inr session)
           | Inr None \<Rightarrow> create_from_bundle C S d addr m))"

definition saveSession ::
    "'s Store \<Rightarrow> draws \<Rightarrow> Address \<Rightarrow> Session \<Rightarrow> 's omemo_Manager \<Rightarrow> 's omemo_Manager \<times> omemo_error option" where
  "saveSession S d addr session m =
     (case SaveSession S addr (session_MarshalBinary (d_ord d (MKSkipped (s_Ratchet session))) session)
             (om_store m) of
        (s, e) \<Rightarrow> (m\<lparr>om_store := s\<rparr>, e))"

text \<open>The ephemeral key passed on is nil.\<close>

definition createSessionFromPreKeyMessage ::
    "crypto \<Rightarrow> 's Store \<Rightarrow> Address \<Rightarrow> 's omemo_Manager \<Rightarrow>
     's omemo_Manager \<times> (omemo_error, Session) result" where
  "createSessionFromPreKeyMessage C S sender m =
     (case om_bundles m sender of
        None \<Rightarrow> (m, Inl ErrNoSession)
      | Some bundle \<Rightarrow>
          (case GetIdentityKeyPair S (om_store m) of
             Inl e \<Rightarrow> (m, Inl e)
           | Inr None \<Rightarrow> (m, Inl ErrNoIdentity)
           | Inr (Some ikp) \<Rightarrow>
               (case GetSignedPreKey S (b_SignedPreKeyID bundle) (om_store m) of
                  Inl e \<Rightarrow> (m, Inl e)
                | Inr spkRecord \<Rightarrow>
                    (case x25519_key (spk_PrivateKey spkRecord) of
                       Inl e \<Rightarrow> (m, Inl e)
                     | Inr spkPrivate \<Rightarrow>
                         (case InitSessionAsBob C ikp spkPrivate None (b_IdentityKey bundle) [] of
                            Inl e \<Rightarrow> (m, Inl e)
                          | Inr session \<Rightarrow>
                              (case SaveRemoteIdentity S sender (b_IdentityKey bundle) (om_store m) of
                                 (s, Some e) \<Rightarrow> (m\<lparr>om_store := s\<rparr>, Inl e)
                               | (s, None) \<Rightarrow>
                                   (m\<lparr>om_store := s, om_sessions := (om_sessions m)(sender \<mapsto> session)\<rparr>,
                                    Inr session)))))))"

definition getOrCreateSessionForDecrypt ::
    "crypto \<Rightarrow> 's Store \<Rightarrow> Address \<Rightarrow> bool \<Rightarrow> 's omemo_Manager \<Rightarrow>
     's omemo_Manager \<times> (omemo_error, Session) result" where
  "getOrCreateSessionForDecrypt C S sender isPreKey m =
     (case om_sessions m sender of
        Some session \<Rightarrow> (m, Inr session)
      | None \<Rightarrow>
          (case load_session S sender m of
             Inl e \<Rightarrow> (m, Inl e)
           | Inr (Some session) \<Rightarrow> (m\<lparr>om_sessions := (om_sessions m)(sender \<mapsto> session)\<rparr>, Inr session)
           | Inr None \<Rightarrow>
               if \<not> isPreKey then (m, Inl ErrNoSession)
               else createSessionFromPreKeyMessage C S sender m))"

section \<open>Encryption\<close>

text \<open>One turn of the loop over the recipients.\<close>

definition encrypt_for ::
    "crypto \<Rightarrow> 's Store \<Rightarrow> draws \<Rightarrow> bytes \<Rightarrow> Address \<Rightarrow> 's omemo_Manager \<Rightarrow>
     's omemo_Manager \<times> (omemo_error, MessageKey) result" where
  "encrypt_for C S d keyMaterial addr m =
     (case getOrCreateSession C S d addr m of
        (m1, Inl e) \<Rightarrow> (m1, Inl e)
      | (m1, Inr session) \<Rightarrow>
          (case session_Encrypt C (d_nonce d) session keyMaterial of
             (session', r) \<Rightarrow>
               (let m2 = m1\<lparr>om_sessions := (om_sessions m1)(addr \<mapsto> session')\<rparr>
                in case r of
                     Inl e \<Rightarrow> (m2, Inl e)
                   | Inr (header, ct, isPreKey) \<Rightarrow>
                       (case header_MarshalBinary header of
                          Inl e \<Rightarrow> (m2, Inl e)
                        | Inr headerBytes \<Rightarrow>
                            (case saveSession S d addr session' m2 of
                               (m3, Some e) \<Rightarrow> (m3, Inl e)
                             | (m3, None) \<Rightarrow>
                                 (m3, Inr \<lparr>k_DeviceID = a_DeviceID addr, k_Data = headerBytes @ ct,
                                           k_IsPreKey = isPreKey\<rparr>))))))"

fun encrypt_loop ::
    "crypto \<Rightarrow> 's Store \<Rightarrow> (nat \<Rightarrow> draws) \<Rightarrow> bytes \<Rightarrow> nat \<Rightarrow> Address list \<Rightarrow> 's omemo_Manager \<Rightarrow>
     's omemo_Manager \<times> (omemo_error, MessageKey list) result" where
  "encrypt_loop C S ds keyMaterial i [] m = (m, Inr [])"
| "encrypt_loop C S ds keyMaterial i (addr # addrs) m =
     (case encrypt_for C S (ds i) keyMaterial addr m of
        (m1, Inl e) \<Rightarrow> (m1, Inl e)
      | (m1, Inr k) \<Rightarrow>
          (case encrypt_loop C S ds keyMaterial (Suc i) addrs m1 of
             (m2, Inl e) \<Rightarrow> (m2, Inl e)
           | (m2, Inr ks) \<Rightarrow> (m2, Inr (k # ks))))"

definition omemo_Encrypt ::
    "crypto \<Rightarrow> 's Store \<Rightarrow> bytes \<Rightarrow> bytes \<Rightarrow> (nat \<Rightarrow> draws) \<Rightarrow> bytes \<Rightarrow> Address list \<Rightarrow> 's omemo_Manager \<Rightarrow>
     's omemo_Manager \<times> (omemo_error, EncryptedMessage) result" where
  "omemo_Encrypt C S rnd_mk rnd_iv ds plaintext recipients m =
     (let messageKey = rand_bytes 32 rnd_mk
      in case aesGCMEncrypt C rnd_iv messageKey plaintext of
           Inl e \<Rightarrow> (m, Inl e)
         | Inr (iv, fullCiphertext) \<Rightarrow>
             if length fullCiphertext < aesTagSize then (m, Inl ErrInvalidMessage)
             else
               (let n = length fullCiphertext - aesTagSize;
                    ciphertextWithoutTag = take n fullCiphertext;
                    authTag = drop n fullCiphertext;
                    keyMaterial = messageKey @ authTag
                in case GetLocalDeviceID S (om_store m) of
                     Inl e \<Rightarrow> (m, Inl e)
                   | Inr deviceID \<Rightarrow>
                       (case encrypt_loop C S ds keyMaterial 0 recipients m of
                          (m1, Inl e) \<Rightarrow> (m1, Inl e)
                        | (m1, Inr keys) \<Rightarrow>
                            (m1, Inr \<lparr>m_SenderDeviceID = deviceID, m_Keys = keys, m_IV = iv,
                                      m_Payload = ciphertextWithoutTag\<rparr>))))"

section \<open>Decryption\<close>

definition find_our_key ::
    "'s Store \<Rightarrow> 's omemo_Manager \<Rightarrow> EncryptedMessage \<Rightarrow> (omemo_error, MessageKey) result" where
  "find_our_key S m msg =
     (case GetLocalDeviceID S (om_store m) of
        Inl e \<Rightarrow> Inl e
      | Inr deviceID \<Rightarrow>
          (case find (\<lambda>k. k_DeviceID k = deviceID) (m_Keys msg) of
             None \<Rightarrow> Inl ErrInvalidMessage
           | Some ourKey \<Rightarrow> Inr ourKey))"

definition parse_key_data :: "MessageKey \<Rightarrow> (omemo_error, RatchetHeader \<times> bytes) result" where
  "parse_key_data ourKey =
     (if length (k_Data ourKey) < ratchetHeaderSize then Inl ErrInvalidMessage
      else bind_result (header_UnmarshalBinary (take ratchetHeaderSize (k_Data ourKey))) (\<lambda>header.
             Inr (header, drop ratchetHeaderSize (k_Data ourKey))))"

text \<open>
  The part both kinds of decryption share: ratchet-decrypt the key material with the session in the map,
  decrypt the payload and save the session.
\<close>

definition decrypt_with ::
    "crypto \<Rightarrow> 's Store \<Rightarrow> draws \<Rightarrow> Address \<Rightarrow> Session \<Rightarrow> RatchetHeader \<Rightarrow> bytes \<Rightarrow> EncryptedMessage \<Rightarrow>
     's omemo_Manager \<Rightarrow> 's omemo_Manager \<times> (omemo_error, bytes) result" where
  "decrypt_with C S d sender session header ratchetCiphertext msg m =
     (case session_Decrypt C (d_nonce d) session header ratchetCiphertext of
        (session', r) \<Rightarrow>
          (let m1 = m\<lparr>om_sessions := (om_sessions m)(sender \<mapsto> session')\<rparr>
           in case r of
                Inl e \<Rightarrow> (m1, Inl e)
              | Inr keyMaterial \<Rightarrow>
                  if length keyMaterial \<noteq> 48 then (m1, Inl ErrInvalidMessage)
                  else
                    (case aesGCMDecrypt C (take 32 keyMaterial) (m_IV msg)
                            (m_Payload msg @ drop 32 keyMaterial) of
                       Inl e \<Rightarrow> (m1, Inl e)
                     | Inr plaintext \<Rightarrow>
                         (case saveSession S d sender session' m1 of
                            (m2, Some e) \<Rightarrow> (m2, Inl e)
                          | (m2, None) \<Rightarrow> (m2, Inr plaintext)))))"

definition omemo_Decrypt ::
    "crypto \<Rightarrow> 's Store \<Rightarrow> draws \<Rightarrow> Address \<Rightarrow> EncryptedMessage \<Rightarrow> 's omemo_Manager \<Rightarrow>
     's omemo_Manager \<times> (omemo_error, bytes) result" where
  "omemo_Decrypt C S d sender msg m =
     (case find_our_key S m msg of
        Inl e \<Rightarrow> (m, Inl e)
      | Inr ourKey \<Rightarrow>
          (case parse_key_data ourKey of
             Inl e \<Rightarrow> (m, Inl e)
           | Inr (header, ratchetCiphertext) \<Rightarrow>
               (case getOrCreateSessionForDecrypt C S sender (k_IsPreKey ourKey) m of
                  (m1, Inl e) \<Rightarrow> (m1, Inl e)
                | (m1, Inr session) \<Rightarrow> decrypt_with C S d sender session header ratchetCiphertext msg m1)))"

text \<open>The one-time pre-key that was used is taken out of the store; an error of the removal is ignored.\<close>

definition take_pre_key ::
    "'s Store \<Rightarrow> 32 word option \<Rightarrow> 's omemo_Manager \<Rightarrow> 's omemo_Manager \<times> (omemo_error, bytes option) result" where
  "take_pre_key S usedPreKeyID m =
     (case usedPreKeyID of
        None \<Rightarrow> (m, Inr None)
      | Some i \<Rightarrow>
          (case GetPreKey S i (om_store m) of
             Inl e \<Rightarrow> (m, Inl e)
           | Inr opkRecord \<Rightarrow>
               (case x25519_key (pk_PrivateKey opkRecord) of
                  Inl e \<Rightarrow> (m, Inl e)
                | Inr opkPrivate \<Rightarrow>
                    (m\<lparr>om_store := fst (RemovePreKey S i (om_store m))\<rparr>, Inr (Some opkPrivate)))))"

definition create_as_bob ::
    "crypto \<Rightarrow> 's Store \<Rightarrow> Address \<Rightarrow> bytes \<Rightarrow> bytes \<Rightarrow> 32 word option \<Rightarrow> 32 word \<Rightarrow> 's omemo_Manager \<Rightarrow>
     's omemo_Manager \<times> (omemo_error, Session) result" where
  "create_as_bob C S sender senderIdentityKey ephemeralPubKey usedPreKeyID signedPreKeyID m =
     (case GetIdentityKeyPair S (om_store m) of
        Inl e \<Rightarrow> (m, Inl e)
      | Inr None \<Rightarrow> (m, Inl ErrNoIdentity)
      | Inr (Some ikp) \<Rightarrow>
          (case GetSignedPreKey S signedPreKeyID (om_store m) of
             Inl e \<Rightarrow> (m, Inl e)
           | Inr spkRecord \<Rightarrow>
               (case x25519_key (spk_PrivateKey spkRecord) of
                  Inl e \<Rightarrow> (m, Inl e)
                | Inr spkPrivate \<Rightarrow>
                    (case take_pre_key S usedPreKeyID m of
                       (m1, Inl e) \<Rightarrow> (m1, Inl e)
                     | (m1, Inr opkPrivate) \<Rightarrow>
                         (case InitSessionAsBob C ikp spkPrivate opkPrivate senderIdentityKey ephemeralPubKey of
                            Inl e \<Rightarrow> (m1, Inl e)
                          | Inr session \<Rightarrow>
                              (case SaveRemoteIdentity S sender senderIdentityKey (om_store m1) of
                                 (s, Some e) \<Rightarrow> (m1\<lparr>om_store := s\<rparr>, Inl e)
                               | (s, None) \<Rightarrow>
                                   (m1\<lparr>om_store := s, om_sessions := (om_sessions m1)(sender \<mapsto> session)\<rparr>,
                                    Inr session)))))))"

definition DecryptPreKeyMessage ::
    "crypto \<Rightarrow> 's Store \<Rightarrow> draws \<Rightarrow> Address \<Rightarrow> bytes \<Rightarrow> bytes \<Rightarrow> 32 word option \<Rightarrow> 32 word \<Rightarrow> EncryptedMessage \<Rightarrow>
     's omemo_Manager \<Rightarrow> 's omemo_Manager \<times> (omemo_error, bytes) result" where
  "DecryptPreKeyMessage C S d sender senderIdentityKey ephemeralPubKey usedPreKeyID signedPreKeyID msg m =
     (case create_as_bob C S sender senderIdentityKey ephemeralPubKey usedPreKeyID signedPreKeyID m of
        (m1, Inl e) \<Rightarrow> (m1, Inl e)
      | (m1, Inr session) \<Rightarrow>
          (case find_our_key S m1 msg of
             Inl e \<Rightarrow> (m1, Inl e)
           | Inr ourKey \<Rightarrow>
               (case parse_key_data ourKey of
                  Inl e \<Rightarrow> (m1, Inl e)
                | Inr (header, ratchetCiphertext) \<Rightarrow>
                    decrypt_with C S d sender session header ratchetCiphertext msg m1)))"


section \<open>The payload\<close>

text \<open>The 48 bytes of key material and what they open.\<close>

definition opens :: "crypto \<Rightarrow> EncryptedMessage \<Rightarrow> bytes \<Rightarrow> bytes \<Rightarrow> bool" where
  "opens C msg keyMaterial plaintext \<longleftrightarrow>
     length keyMaterial = 48 \<and>
     aesGCMDecrypt C (take 32 keyMaterial) (m_IV msg) (m_Payload msg @ drop 32 keyMaterial) = Inr plaintext"

lemma omemo_Encrypt_payload:
  assumes "gcm_ok C"
  shows "\<exists>keyMaterial iv payload.
     (\<forall>dev keys. opens C \<lparr>m_SenderDeviceID = dev, m_Keys = keys, m_IV = iv, m_Payload = payload\<rparr>
        keyMaterial plaintext) \<and>
     (\<forall>S ds recipients m. omemo_Encrypt C S rnd_mk rnd_iv ds plaintext recipients m =
        (case GetLocalDeviceID S (om_store m) of
           Inl e \<Rightarrow> (m, Inl e)
         | Inr deviceID \<Rightarrow>
             (case encrypt_loop C S ds keyMaterial 0 recipients m of
                (m1, Inl e) \<Rightarrow> (m1, Inl e)
              | (m1, Inr keys) \<Rightarrow>
                  (m1, Inr \<lparr>m_SenderDeviceID = deviceID, m_Keys = keys, m_IV = iv, m_Payload = payload\<rparr>))))"
proof -
  let ?mk = "rand_bytes 32 rnd_mk"
  define iv where "iv = rand_bytes 12 rnd_iv"
  define full where "full = gcm_seal C ?mk iv plaintext"
  have enc: "aesGCMEncrypt C rnd_iv ?mk plaintext = Inr (iv, full)"
    by (simp add: aesGCMEncrypt_def aesKeySize_def aesNonceSize_def iv_def full_def Let_def)
  note dec = aesGCM_roundtrip [OF assms enc]
  let ?n = "length full - 16"
  have len: "\<not> length full < 16" using dec by simp
  show ?thesis
  proof (intro exI conjI allI)
    show "opens C \<lparr>m_SenderDeviceID = dev, m_Keys = keys, m_IV = iv, m_Payload = take ?n full\<rparr>
        (?mk @ drop ?n full) plaintext" for dev keys
      using dec len by (simp add: opens_def)
    show "omemo_Encrypt C S rnd_mk rnd_iv ds plaintext recipients m =
        (case GetLocalDeviceID S (om_store m) of
           Inl e \<Rightarrow> (m, Inl e)
         | Inr deviceID \<Rightarrow>
             (case encrypt_loop C S ds (?mk @ drop ?n full) 0 recipients m of
                (m1, Inl e) \<Rightarrow> (m1, Inl e)
              | (m1, Inr keys) \<Rightarrow>
                  (m1, Inr \<lparr>m_SenderDeviceID = deviceID, m_Keys = keys, m_IV = iv,
                            m_Payload = take ?n full\<rparr>)))" for S :: "'s Store" and ds recipients m
      using len by (simp add: omemo_Encrypt_def enc aesTagSize_def Let_def)
  qed
qed

section \<open>A first message\<close>

text \<open>\<open>spk\<close> is a signed pre-key of the identity \<open>ikp\<close>.\<close>

definition good_signed_pre_key :: "crypto \<Rightarrow> IdentityKeyPair \<Rightarrow> SignedPreKeyRecord \<Rightarrow> bool" where
  "good_signed_pre_key C ikp spk \<longleftrightarrow>
     length (spk_PrivateKey spk) = 32 \<and> spk_PublicKey spk = x25519_pub C (spk_PrivateKey spk) \<and>
     ed25519_verify C (ik_public ikp) (spk_PublicKey spk) (spk_Signature spk)"

text \<open>The manager has no session with \<open>addr\<close> yet, but the bundle of the device.\<close>

definition fresh_for ::
    "crypto \<Rightarrow> 's Store \<Rightarrow> 's omemo_Manager \<Rightarrow> Address \<Rightarrow> bytes \<Rightarrow> SignedPreKeyRecord \<Rightarrow> PreKeyRecord list \<Rightarrow> bool" where
  "fresh_for C S m addr rndB spk pks \<longleftrightarrow>
     om_sessions m addr = None \<and> \<not> is_ok (GetSession S addr (om_store m)) \<and>
     om_bundles m addr = Some (bundle_of (GenerateIdentityKeyPair C rndB) spk pks) \<and>
     good_signed_pre_key C (GenerateIdentityKeyPair C rndB) spk \<and> list_all (good_pre_key C) pks"

text \<open>What the key entry \<open>k\<close> made for a fresh session lets the holder of the private keys do.\<close>

definition first_key ::
    "crypto \<Rightarrow> IdentityKeyPair \<Rightarrow> IdentityKeyPair \<Rightarrow> SignedPreKeyRecord \<Rightarrow> PreKeyRecord list \<Rightarrow> bytes \<Rightarrow>
     MessageKey \<Rightarrow> PendingPreKey \<Rightarrow> bool" where
  "first_key C ikA ikB spk pks keyMaterial k ppk \<longleftrightarrow>
     (\<exists>a sB ck header ct. parse_key_data k = Inr (header, ct) \<and>
        pp_SignedPreKeyID ppk = spk_ID spk \<and>
        pp_PreKeyID ppk = (case pks of [] \<Rightarrow> None | pk # _ \<Rightarrow> Some (pk_ID pk)) \<and>
        InitSessionAsBob C ikB (spk_PrivateKey spk) (case pks of [] \<Rightarrow> None | pk # _ \<Rightarrow> Some (pk_PrivateKey pk))
          (ik_public ikA) (pp_EphemeralPubKey ppk) = Inr sB \<and>
        ahead C a (s_Ratchet sB) \<and> CKs a = Some ck \<and> PN a = 0 \<and>
        CKr (s_Ratchet sB) = None \<and> MKSkipped (s_Ratchet sB) = [] \<and> DHs (s_Ratchet sB) = spk_PrivateKey spk \<and>
        chain_msg C (x25519_pub C (DHs a)) ck 0 0 0 keyMaterial (header, ct))"

lemma parse_key_data_Marshal:
  assumes "header_MarshalBinary h = Inr hb"
  shows "parse_key_data \<lparr>k_DeviceID = dev, k_Data = hb @ ct, k_IsPreKey = b\<rparr> = Inr (h, ct)"
proof -
  have "length (h_DHPub h) = 32" using assms by (auto simp: header_MarshalBinary_def split: if_splits)
  then show ?thesis using assms
    by (auto simp: parse_key_data_def header_MarshalBinary_def header_UnmarshalBinary_def
        ratchetHeaderSize_def wire)
qed

context reliable_store
begin

lemma session_for_fresh:
  assumes "fresh_for C S m addr rndB spk pks" and "GetIdentityKeyPair S (om_store m) = Inr (Some ikA)"
    and "InitSessionAsAlice C (d_ek d) (d_rk d) ikA (bundle_of (GenerateIdentityKeyPair C rndB) spk pks) = Inr sA"
  shows "\<exists>m'. getOrCreateSession C S d addr m = (m', Inr sA) \<and>
     (\<forall>a. a \<noteq> addr \<longrightarrow> om_sessions m' a = om_sessions m a \<and> om_bundles m' a = om_bundles m a) \<and>
     (\<exists>key. observe S (om_store m') = (observe S (om_store m))\<lparr>o_remote :=
        (o_remote (observe S (om_store m)))(addr := Inr (Some key))\<rparr>)"
proof -
  obtain e where "GetSession S addr (om_store m) = Inl e"
    using assms(1) by (cases "GetSession S addr (om_store m)") (auto simp: fresh_for_def)
  then have "load_session S addr m = Inr None" by (simp add: load_session_def)
  moreover have m: "om_sessions m addr = None"
      "om_bundles m addr = Some (bundle_of (GenerateIdentityKeyPair C rndB) spk pks)"
    using assms(1) by (simp_all add: fresh_for_def)
  moreover obtain s where s:
      "SaveRemoteIdentity S addr (b_IdentityKey (bundle_of (GenerateIdentityKeyPair C rndB) spk pks)) (om_store m)
       = (s, None)"
    using saves_succeed(2) by (metis prod.collapse)
  ultimately show ?thesis
    using assms(2,3) save_remote [OF s]
    by (auto simp: getOrCreateSession_def create_from_bundle_def)
qed

lemma encrypt_for_fresh:
  assumes ok: "gcm_ok C" "kdf_ok C" "dh_ok C" "curve_ok C"
    and fresh: "fresh_for C S m addr rndB spk pks"
    and ik: "GetIdentityKeyPair S (om_store m) = Inr (Some ikA)" "ikA = GenerateIdentityKeyPair C rndA"
  shows "\<exists>m' k session ppk. encrypt_for C S d keyMaterial addr m = (m', Inr k) \<and>
     k_DeviceID k = a_DeviceID addr \<and> k_IsPreKey k \<and>
     om_sessions m' addr = Some session \<and> s_PendingPreKey session = Some ppk \<and>
     first_key C ikA (GenerateIdentityKeyPair C rndB) spk pks keyMaterial k ppk \<and>
     (\<forall>a. a \<noteq> addr \<longrightarrow> om_sessions m' a = om_sessions m a \<and> om_bundles m' a = om_bundles m a \<and>
        GetSession S a (om_store m') = GetSession S a (om_store m)) \<and>
     GetIdentityKeyPair S (om_store m') = GetIdentityKeyPair S (om_store m)"
proof -
  let ?ikB = "GenerateIdentityKeyPair C rndB"
  have good: "length (spk_PrivateKey spk) = 32" "spk_PublicKey spk = x25519_pub C (spk_PrivateKey spk)"
      "ed25519_verify C (ik_public ?ikB) (spk_PublicKey spk) (spk_Signature spk)" "list_all (good_pre_key C) pks"
    using fresh unfolding fresh_for_def good_signed_pre_key_def by blast+
  obtain sA sB ppk where init: "InitSessionAsAlice C (d_ek d) (d_rk d) ikA (bundle_of ?ikB spk pks) = Inr sA"
      "s_PendingPreKey sA = Some ppk" "pp_SignedPreKeyID ppk = spk_ID spk"
      "pp_PreKeyID ppk = (case pks of [] \<Rightarrow> None | pk # _ \<Rightarrow> Some (pk_ID pk))"
      "InitSessionAsBob C ?ikB (spk_PrivateKey spk) (case pks of [] \<Rightarrow> None | pk # _ \<Rightarrow> Some (pk_PrivateKey pk))
         (ik_public ikA) (pp_EphemeralPubKey ppk) = Inr sB"
      "ahead C (s_Ratchet sA) (s_Ratchet sB)" "PN (s_Ratchet sA) = 0" "CKr (s_Ratchet sB) = None"
      "MKSkipped (s_Ratchet sB) = []" "DHs (s_Ratchet sB) = spk_PrivateKey spk"
    using InitSession_ahead [OF ok(2-4) ik(2) refl good] by blast
  obtain m1 key where m1: "getOrCreateSession C S d addr m = (m1, Inr sA)"
      "\<forall>a. a \<noteq> addr \<longrightarrow> om_sessions m1 a = om_sessions m a \<and> om_bundles m1 a = om_bundles m a"
      "observe S (om_store m1) = (observe S (om_store m))\<lparr>o_remote :=
        (o_remote (observe S (om_store m)))(addr := Inr (Some key))\<rparr>"
    using session_for_fresh [OF fresh ik(1) init(1)] by blast
  obtain ck where ck: "CKs (s_Ratchet sA) = Some ck" "Ns (s_Ratchet sA) = 0" "length (DHs (s_Ratchet sA)) = 32"
    using init(6) by (auto simp: ahead_def)
  obtain h ct where enc: "RatchetEncrypt C (d_nonce d) (s_Ratchet sA) keyMaterial =
        ((s_Ratchet sA)\<lparr>CKs := Some (ck_iter C ck 1), Ns := 0 + 1\<rparr>, Inr (h, ct))"
      "chain_msg C (x25519_pub C (DHs (s_Ratchet sA))) ck 0 0 0 keyMaterial (h, ct)"
    using RatchetEncrypt_chain [OF ok(1,2) ck(1), of "d_nonce d" keyMaterial] ck(2) init(7)
    by (metis surj_pair)
  have "length (h_DHPub h) = 32" using enc(2) ok(3) ck(3) by (simp add: chain_msg_def dh_ok_def)
  then obtain hb where hb: "header_MarshalBinary h = Inr hb" by (simp add: header_MarshalBinary_def)
  define sA' where "sA' = sA\<lparr>s_Ratchet := (s_Ratchet sA)\<lparr>CKs := Some (ck_iter C ck 1), Ns := 0 + 1\<rparr>\<rparr>"
  have sEnc: "session_Encrypt C (d_nonce d) sA keyMaterial = (sA', Inr (h, ct, True))"
    using enc(1) init(2) by (simp add: session_Encrypt_def sA'_def)
  define m2 where "m2 = m1\<lparr>om_sessions := (om_sessions m1)(addr \<mapsto> sA')\<rparr>"
  define data where "data = session_MarshalBinary (d_ord d (MKSkipped (s_Ratchet sA'))) sA'"
  obtain s3 where s3: "SaveSession S addr data (om_store m2) = (s3, None)"
    using saves_succeed(6) by (metis prod.collapse)
  define k where "k = \<lparr>k_DeviceID = a_DeviceID addr, k_Data = hb @ ct, k_IsPreKey = True\<rparr>"
  have "encrypt_for C S d keyMaterial addr m = (m2\<lparr>om_store := s3\<rparr>, Inr k)"
    using m1(1) sEnc hb s3
    by (simp add: encrypt_for_def saveSession_def m2_def [symmetric] data_def [symmetric] k_def)
  moreover have "first_key C ikA ?ikB spk pks keyMaterial k ppk"
    unfolding first_key_def k_def using init(3-10) ck(1) enc(2) parse_key_data_Marshal [OF hb] by blast
  moreover have "om_sessions (m2\<lparr>om_store := s3\<rparr>) addr = Some sA'" "s_PendingPreKey sA' = Some ppk"
    using init(2) by (simp_all add: m2_def sA'_def)
  moreover have "observe S s3 = (observe S (om_store m1))\<lparr>o_session := (o_session (observe S (om_store m1)))(addr := Inr data)\<rparr>"
    using save_session [OF s3] by (simp add: m2_def)
  ultimately show ?thesis using m1(2,3) by (simp add: reads_observe k_def m2_def)
qed

lemma encrypt_loop_fresh:
  assumes ok: "gcm_ok C" "kdf_ok C" "dh_ok C" "curve_ok C"
    and ik: "GetIdentityKeyPair S (om_store m) = Inr (Some ikA)" "ikA = GenerateIdentityKeyPair C rndA"
    and addrs: "distinct addrs" "\<forall>a \<in> set addrs. fresh_for C S m a (rndB a) (spk a) (pks a)"
  shows "\<exists>m' ks. encrypt_loop C S ds keyMaterial i addrs m = (m', Inr ks) \<and>
     map k_DeviceID ks = map a_DeviceID addrs \<and> (\<forall>a. a \<notin> set addrs \<longrightarrow> om_sessions m' a = om_sessions m a) \<and>
     (\<forall>j < length addrs. \<exists>session ppk. om_sessions m' (addrs ! j) = Some session \<and>
        s_PendingPreKey session = Some ppk \<and> k_IsPreKey (ks ! j) \<and>
        first_key C ikA (GenerateIdentityKeyPair C (rndB (addrs ! j))) (spk (addrs ! j)) (pks (addrs ! j))
          keyMaterial (ks ! j) ppk)"
  using ik addrs
proof (induction addrs arbitrary: i m)
  case Nil
  then show ?case by simp
next
  case (Cons a addrs)
  have "fresh_for C S m a (rndB a) (spk a) (pks a)" using Cons.prems by simp
  from encrypt_for_fresh [OF ok this Cons.prems(1,2)]
  obtain m1 k session ppk where m1: "encrypt_for C S (ds i) keyMaterial a m = (m1, Inr k)"
      "k_DeviceID k = a_DeviceID a" "k_IsPreKey k" "om_sessions m1 a = Some session" "s_PendingPreKey session = Some ppk"
      "first_key C ikA (GenerateIdentityKeyPair C (rndB a)) (spk a) (pks a) keyMaterial k ppk"
      "\<forall>a'. a' \<noteq> a \<longrightarrow> om_sessions m1 a' = om_sessions m a' \<and> om_bundles m1 a' = om_bundles m a' \<and>
         GetSession S a' (om_store m1) = GetSession S a' (om_store m)"
      "GetIdentityKeyPair S (om_store m1) = GetIdentityKeyPair S (om_store m)"
    by blast
  have "\<forall>a' \<in> set addrs. fresh_for C S m1 a' (rndB a') (spk a') (pks a')"
    using Cons.prems(3,4) m1(7) by (auto simp: fresh_for_def)
  then obtain m2 ks where m2: "encrypt_loop C S ds keyMaterial (Suc i) addrs m1 = (m2, Inr ks)"
      "map k_DeviceID ks = map a_DeviceID addrs" "\<forall>a'. a' \<notin> set addrs \<longrightarrow> om_sessions m2 a' = om_sessions m1 a'"
      "\<forall>j < length addrs. \<exists>session ppk. om_sessions m2 (addrs ! j) = Some session \<and>
         s_PendingPreKey session = Some ppk \<and> k_IsPreKey (ks ! j) \<and>
         first_key C ikA (GenerateIdentityKeyPair C (rndB (addrs ! j))) (spk (addrs ! j)) (pks (addrs ! j))
           keyMaterial (ks ! j) ppk"
    using Cons.IH [of m1 "Suc i"] Cons.prems(1-3) m1(8) by auto
  have "om_sessions m2 a = Some session" using m2(3) m1(4) Cons.prems(3) by simp
  with m1 m2 show ?case
    by (intro exI [of _ m2] exI [of _ "k # ks"]) (auto simp: nth_Cons' split: if_splits)
qed

text \<open>The receiving side.\<close>

lemma take_pre_key_ok:
  assumes "list_all (good_pre_key C) pks"
    and "case pks of [] \<Rightarrow> True | pk # _ \<Rightarrow> GetPreKey S (pk_ID pk) (om_store m) = Inr pk"
  shows "\<exists>m'. take_pre_key S (case pks of [] \<Rightarrow> None | pk # _ \<Rightarrow> Some (pk_ID pk)) m =
       (m', Inr (case pks of [] \<Rightarrow> None | pk # _ \<Rightarrow> Some (pk_PrivateKey pk))) \<and>
     om_sessions m' = om_sessions m \<and>
     observe S (om_store m') = (observe S (om_store m))\<lparr>o_pre := (case pks of
        [] \<Rightarrow> o_pre (observe S (om_store m))
      | pk # _ \<Rightarrow> (o_pre (observe S (om_store m)))(pk_ID pk := Inl ErrNoPreKey))\<rparr>"
proof (cases pks)
  case Nil
  then show ?thesis by (simp add: take_pre_key_def)
next
  case (Cons pk rest)
  then show ?thesis using assms
    by (simp add: take_pre_key_def x25519_key_def good_pre_key_def saves_observe(4))
qed

lemma create_as_bob_ok:
  assumes "GetIdentityKeyPair S (om_store m) = Inr (Some ikB)"
    and "GetSignedPreKey S (spk_ID spk) (om_store m) = Inr spk" and "length (spk_PrivateKey spk) = 32"
    and "list_all (good_pre_key C) pks"
    and "case pks of [] \<Rightarrow> True | pk # _ \<Rightarrow> GetPreKey S (pk_ID pk) (om_store m) = Inr pk"
    and "InitSessionAsBob C ikB (spk_PrivateKey spk) (case pks of [] \<Rightarrow> None | pk # _ \<Rightarrow> Some (pk_PrivateKey pk))
         key ek = Inr sB"
  shows "\<exists>m'. create_as_bob C S sender key ek (case pks of [] \<Rightarrow> None | pk # _ \<Rightarrow> Some (pk_ID pk)) (spk_ID spk) m
       = (m', Inr sB) \<and> om_sessions m' = (om_sessions m)(sender \<mapsto> sB) \<and>
     GetLocalDeviceID S (om_store m') = GetLocalDeviceID S (om_store m) \<and>
     GetRemoteIdentity S sender (om_store m') = Inr (Some key) \<and>
     (\<forall>pk rest. pks = pk # rest \<longrightarrow> GetPreKey S (pk_ID pk) (om_store m') = Inl ErrNoPreKey)"
proof -
  obtain m1 where m1: "take_pre_key S (case pks of [] \<Rightarrow> None | pk # _ \<Rightarrow> Some (pk_ID pk)) m =
       (m1, Inr (case pks of [] \<Rightarrow> None | pk # _ \<Rightarrow> Some (pk_PrivateKey pk)))" "om_sessions m1 = om_sessions m"
      "observe S (om_store m1) = (observe S (om_store m))\<lparr>o_pre := (case pks of
          [] \<Rightarrow> o_pre (observe S (om_store m))
        | pk # _ \<Rightarrow> (o_pre (observe S (om_store m)))(pk_ID pk := Inl ErrNoPreKey))\<rparr>"
    using take_pre_key_ok [OF assms(4,5)] by blast
  obtain s where s: "SaveRemoteIdentity S sender key (om_store m1) = (s, None)"
    using saves_succeed(2) by (metis prod.collapse)
  let ?m = "m1\<lparr>om_store := s, om_sessions := (om_sessions m1)(sender \<mapsto> sB)\<rparr>"
  have "create_as_bob C S sender key ek (case pks of [] \<Rightarrow> None | pk # _ \<Rightarrow> Some (pk_ID pk)) (spk_ID spk) m
      = (?m, Inr sB)"
    using assms(1-3,6) m1(1) s by (simp add: create_as_bob_def x25519_key_def)
  moreover have "observe S s = (observe S (om_store m1))\<lparr>o_remote := (o_remote (observe S (om_store m1)))(sender := Inr (Some key))\<rparr>"
    using save_remote [OF s] .
  ultimately show ?thesis using m1(2,3) by (auto simp: reads_observe)
qed

lemma DecryptPreKeyMessage_first:
  assumes ok: "kdf_ok C" "dh_ok C"
    and m: "GetIdentityKeyPair S (om_store m) = Inr (Some ikB)"
      "GetSignedPreKey S (spk_ID spk) (om_store m) = Inr spk" "length (spk_PrivateKey spk) = 32"
      "list_all (good_pre_key C) pks"
      "case pks of [] \<Rightarrow> True | pk # _ \<Rightarrow> GetPreKey S (pk_ID pk) (om_store m) = Inr pk"
      "GetLocalDeviceID S (om_store m) = Inr dev"
    and k: "find (\<lambda>k. k_DeviceID k = dev) (m_Keys msg) = Some k"
      "first_key C ikA ikB spk pks keyMaterial k ppk" "opens C msg keyMaterial plaintext"
    and rnd: "x25519_pub C (GenerateX25519KeyPair (d_nonce d)) \<noteq> x25519_pub C (spk_PrivateKey spk)"
  shows "\<exists>m'. DecryptPreKeyMessage C S d sender (ik_public ikA) (pp_EphemeralPubKey ppk) (pp_PreKeyID ppk)
         (pp_SignedPreKeyID ppk) msg m = (m', Inr plaintext) \<and>
     GetRemoteIdentity S sender (om_store m') = Inr (Some (ik_public ikA)) \<and>
     (\<forall>pk rest. pks = pk # rest \<longrightarrow> GetPreKey S (pk_ID pk) (om_store m') = Inl ErrNoPreKey)"
proof -
  obtain a sB ck h ct where f: "parse_key_data k = Inr (h, ct)" "pp_SignedPreKeyID ppk = spk_ID spk"
      "pp_PreKeyID ppk = (case pks of [] \<Rightarrow> None | pk # _ \<Rightarrow> Some (pk_ID pk))"
      "InitSessionAsBob C ikB (spk_PrivateKey spk) (case pks of [] \<Rightarrow> None | pk # _ \<Rightarrow> Some (pk_PrivateKey pk))
         (ik_public ikA) (pp_EphemeralPubKey ppk) = Inr sB"
      "ahead C a (s_Ratchet sB)" "CKs a = Some ck" "PN a = 0" "CKr (s_Ratchet sB) = None"
      "MKSkipped (s_Ratchet sB) = []" "DHs (s_Ratchet sB) = spk_PrivateKey spk"
      "chain_msg C (x25519_pub C (DHs a)) ck 0 0 0 keyMaterial (h, ct)"
    using k(2) unfolding first_key_def by blast
  obtain m1 where m1: "create_as_bob C S sender (ik_public ikA) (pp_EphemeralPubKey ppk) (pp_PreKeyID ppk)
        (pp_SignedPreKeyID ppk) m = (m1, Inr sB)" "GetLocalDeviceID S (om_store m1) = Inr dev"
      "GetRemoteIdentity S sender (om_store m1) = Inr (Some (ik_public ikA))"
      "\<forall>pk rest. pks = pk # rest \<longrightarrow> GetPreKey S (pk_ID pk) (om_store m1) = Inl ErrNoPreKey"
    using create_as_bob_ok [OF m(1-5) f(4), of sender] f(2,3) m(6) by auto
  have key: "find_our_key S m1 msg = Inr k" using m1(2) k(1) by (simp add: find_our_key_def)
  have room: "has_room (PN a) (x25519_pub C (DHs a)) 1 (s_Ratchet sB)"
    using f(8,9) by (simp add: has_room_def maxSkippedKeys_def)
  have rnd': "x25519_pub C (GenerateX25519KeyPair (d_nonce d)) \<noteq> x25519_pub C (DHs (s_Ratchet sB))"
    using rnd f(10) by simp
  have one: "(0 :: nat) < 1" "1 + maxSkippedKeys < 2 ^ 32" by (simp_all add: maxSkippedKeys_def)
  have msg: "chain_msg C (x25519_pub C (DHs a)) ck 0 (PN a) 0 keyMaterial (h, ct)" using f(7,11) by simp
  obtain r where r: "RatchetDecrypt C (d_nonce d) (s_Ratchet sB) h ct = (r, Inr keyMaterial)"
    using RatchetDecrypt_turn [OF ok f(5,6) room rnd' one msg] by blast
  define s' where "s' = sB\<lparr>s_Ratchet := r, s_PendingPreKey := None\<rparr>"
  have dec: "session_Decrypt C (d_nonce d) sB h ct = (s', Inr keyMaterial)"
    using r by (simp add: session_Decrypt_def s'_def)
  define data where "data = session_MarshalBinary (d_ord d (MKSkipped (s_Ratchet s'))) s'"
  obtain s3 where s3: "SaveSession S sender data (om_store m1) = (s3, None)"
    using saves_succeed(6) by (metis prod.collapse)
  let ?m = "m1\<lparr>om_sessions := (om_sessions m1)(sender \<mapsto> s'), om_store := s3\<rparr>"
  have "DecryptPreKeyMessage C S d sender (ik_public ikA) (pp_EphemeralPubKey ppk) (pp_PreKeyID ppk)
         (pp_SignedPreKeyID ppk) msg m = (?m, Inr plaintext)"
    using m1(1) key f(1) dec k(3) s3
    by (simp add: DecryptPreKeyMessage_def decrypt_with_def opens_def saveSession_def Let_def data_def [symmetric])
  moreover have "observe S s3 = (observe S (om_store m1))\<lparr>o_session := (o_session (observe S (om_store m1)))(sender := Inr data)\<rparr>"
    using save_session [OF s3] .
  ultimately show ?thesis using m1(3,4) by (simp add: reads_observe)
qed

end

lemma find_distinct:
  assumes "distinct (map f xs)" and "j < length xs"
  shows "find (\<lambda>x. f x = f (xs ! j)) xs = Some (xs ! j)"
  using assms
proof (induction xs arbitrary: j)
  case (Cons x xs)
  show ?case
  proof (cases j)
    case (Suc i)
    with Cons.prems have "f x \<noteq> f (xs ! i)" by (auto simp: image_iff)
    with Cons Suc show ?thesis by simp
  qed simp
qed simp

text \<open>
  C16: end to end, with the in-memory stores.  Alice, who has processed the bundles of the recipients'
  devices (pairwise different device numbers) and has no sessions with them, encrypts a text for all of
  them; \<open>Encrypt\<close> succeeds.  Every recipient who holds the private keys of its bundle decrypts the message
  with \<open>DecryptPreKeyMessage\<close> and the pre-key data of Alice's session to the same text, records her
  identity key, and the one-time pre-key that was used is gone from its store.
\<close>

theorem omemo_first_message:
  assumes ok: "gcm_ok C" "kdf_ok C" "dh_ok C" "curve_ok C"
    and alice: "ms_identityKey (om_store mA) = Some ikA" "ikA = GenerateIdentityKeyPair C rndA"
      "distinct (map a_DeviceID addrs)" "\<forall>a \<in> set addrs. fresh_for C memory_store mA a (rndB a) (spk a) (pks a)"
    and bob: "j < length addrs" "addr = addrs ! j"
      "ms_identityKey (om_store mB) = Some (GenerateIdentityKeyPair C (rndB addr))"
      "ms_signedPreKeys (om_store mB) (spk_ID (spk addr)) = Some (spk addr)"
      "case pks addr of [] \<Rightarrow> True | pk # _ \<Rightarrow> ms_preKeys (om_store mB) (pk_ID pk) = Some pk"
      "ms_deviceID (om_store mB) = a_DeviceID addr"
    and rnd: "x25519_pub C (GenerateX25519KeyPair (d_nonce d)) \<noteq> x25519_pub C (spk_PrivateKey (spk addr))"
  shows "\<exists>mA' msg session ppk mB'.
     omemo_Encrypt C memory_store rnd_mk rnd_iv ds plaintext addrs mA = (mA', Inr msg) \<and>
     om_sessions mA' addr = Some session \<and> s_PendingPreKey session = Some ppk \<and>
     DecryptPreKeyMessage C memory_store d sender (ik_public ikA) (pp_EphemeralPubKey ppk) (pp_PreKeyID ppk)
       (pp_SignedPreKeyID ppk) msg mB = (mB', Inr plaintext) \<and>
     ms_remoteKeys (om_store mB') sender = Some (ik_public ikA) \<and>
     (\<forall>pk rest. pks addr = pk # rest \<longrightarrow> ms_preKeys (om_store mB') (pk_ID pk) = None)"
proof -
  obtain km iv payload where pay:
      "\<And>dev keys. opens C \<lparr>m_SenderDeviceID = dev, m_Keys = keys, m_IV = iv, m_Payload = payload\<rparr> km plaintext"
      "\<And>(S :: MemoryStore Store) ds recipients m. omemo_Encrypt C S rnd_mk rnd_iv ds plaintext recipients m =
        (case GetLocalDeviceID S (om_store m) of
           Inl e \<Rightarrow> (m, Inl e)
         | Inr deviceID \<Rightarrow>
             (case encrypt_loop C S ds km 0 recipients m of
                (m1, Inl e) \<Rightarrow> (m1, Inl e)
              | (m1, Inr keys) \<Rightarrow>
                  (m1, Inr \<lparr>m_SenderDeviceID = deviceID, m_Keys = keys, m_IV = iv, m_Payload = payload\<rparr>)))"
    using omemo_Encrypt_payload [OF ok(1)] by blast
  have ikA: "GetIdentityKeyPair memory_store (om_store mA) = Inr (Some ikA)"
    using alice(1) by (simp add: memory_store_defs)
  have d: "distinct addrs" using alice(3) by (simp add: distinct_map)
  obtain mA' ks where loop: "encrypt_loop C memory_store ds km 0 addrs mA = (mA', Inr ks)"
      "map k_DeviceID ks = map a_DeviceID addrs"
      "\<forall>j < length addrs. \<exists>session ppk. om_sessions mA' (addrs ! j) = Some session \<and>
         s_PendingPreKey session = Some ppk \<and> k_IsPreKey (ks ! j) \<and>
         first_key C ikA (GenerateIdentityKeyPair C (rndB (addrs ! j))) (spk (addrs ! j)) (pks (addrs ! j))
           km (ks ! j) ppk"
    using mem.encrypt_loop_fresh [OF ok ikA alice(2) d alice(4)] by blast
  then obtain session ppk where s: "om_sessions mA' addr = Some session" "s_PendingPreKey session = Some ppk"
      "first_key C ikA (GenerateIdentityKeyPair C (rndB addr)) (spk addr) (pks addr) km (ks ! j) ppk"
    using bob(1,2) by blast
  let ?msg = "\<lparr>m_SenderDeviceID = ms_deviceID (om_store mA), m_Keys = ks, m_IV = iv, m_Payload = payload\<rparr>"
  have enc: "omemo_Encrypt C memory_store rnd_mk rnd_iv ds plaintext addrs mA = (mA', Inr ?msg)"
    using pay(2) loop(1) by (simp add: ms_GetLocalDeviceID_def)
  have len: "length ks = length addrs" using loop(2) by (metis length_map)
  have kd: "k_DeviceID (ks ! j) = a_DeviceID addr"
    using loop(2) bob(1,2) len by (metis nth_map)
  have key: "find (\<lambda>k. k_DeviceID k = a_DeviceID addr) (m_Keys ?msg) = Some (ks ! j)"
    using find_distinct [of k_DeviceID ks j] alice(3) loop(2) len bob(1) kd by simp
  have fr: "fresh_for C memory_store mA addr (rndB addr) (spk addr) (pks addr)"
    using alice(4) bob(1,2) by simp
  have good: "length (spk_PrivateKey (spk addr)) = 32" "list_all (good_pre_key C) (pks addr)"
    using fr by (simp_all add: fresh_for_def good_signed_pre_key_def)
  have B: "GetIdentityKeyPair memory_store (om_store mB) = Inr (Some (GenerateIdentityKeyPair C (rndB addr)))"
      "GetSignedPreKey memory_store (spk_ID (spk addr)) (om_store mB) = Inr (spk addr)"
      "case pks addr of [] \<Rightarrow> True | pk # _ \<Rightarrow> GetPreKey memory_store (pk_ID pk) (om_store mB) = Inr pk"
      "GetLocalDeviceID memory_store (om_store mB) = Inr (a_DeviceID addr)"
    using bob(3-6) by (auto simp: memory_store_defs split: list.splits)
  obtain mB' where "DecryptPreKeyMessage C memory_store d sender (ik_public ikA) (pp_EphemeralPubKey ppk)
        (pp_PreKeyID ppk) (pp_SignedPreKeyID ppk) ?msg mB = (mB', Inr plaintext)"
      "GetRemoteIdentity memory_store sender (om_store mB') = Inr (Some (ik_public ikA))"
      "\<forall>pk rest. pks addr = pk # rest \<longrightarrow> GetPreKey memory_store (pk_ID pk) (om_store mB') = Inl ErrNoPreKey"
    using mem.DecryptPreKeyMessage_first [OF ok(2,3) B(1,2) good B(3,4) key s(3) pay(1) rnd] by blast
  then show ?thesis using enc s(1,2)
    by (auto simp: memory_store_defs split: option.splits)
qed

definition demo_ik :: "bytes \<Rightarrow> IdentityKeyPair" where
  "demo_ik r = GenerateIdentityKeyPair toy_crypto r"

definition demo_spk :: SignedPreKeyRecord where
  "demo_spk = \<lparr>spk_ID = 1, spk_PrivateKey = replicate 32 3, spk_PublicKey = replicate 32 3,
     spk_Signature = replicate 32 3 @ replicate 32 0\<rparr>"

definition demo_addr :: Address where
  "demo_addr = \<lparr>a_JID = ''bob@example.org'', a_DeviceID = 7\<rparr>"

definition demo_alice :: "MemoryStore omemo_Manager" where
  "demo_alice = \<lparr>om_store = (NewMemoryStore 5)\<lparr>ms_identityKey := Some (demo_ik [1])\<rparr>,
     om_bundles = [demo_addr \<mapsto> bundle_of (demo_ik [2]) demo_spk []], om_sessions = Map.empty\<rparr>"

definition demo_bob :: "MemoryStore omemo_Manager" where
  "demo_bob = omemo_NewManager ((NewMemoryStore 7)\<lparr>ms_identityKey := Some (demo_ik [2]),
     ms_signedPreKeys := [1 \<mapsto> demo_spk]\<rparr>)"

definition demo_draws :: draws where
  "demo_draws = \<lparr>d_ek = [1], d_rk = [2], d_nonce = replicate 32 7, d_ord = (\<lambda>m. m)\<rparr>"

theorem omemo_first_message_witness:
  "\<exists>mA' msg (ppk :: PendingPreKey) mB'.
     omemo_Encrypt toy_crypto memory_store [8] [9] (\<lambda>_. demo_draws) [1, 2, 3] [demo_addr] demo_alice = (mA', Inr msg) \<and>
     DecryptPreKeyMessage toy_crypto memory_store demo_draws demo_addr (ik_public (demo_ik [1]))
       (pp_EphemeralPubKey ppk) (pp_PreKeyID ppk) (pp_SignedPreKeyID ppk) msg demo_bob = (mB', Inr [1, 2, 3])"
proof -
  have spk: "good_signed_pre_key toy_crypto (demo_ik [2]) demo_spk"
    using toy_x25519_pub [of 3] by (simp add: good_signed_pre_key_def demo_spk_def) (simp add: toy_crypto_def)
  then have fresh: "\<forall>a \<in> set [demo_addr]. fresh_for toy_crypto memory_store demo_alice a [2] demo_spk []"
    by (simp add: fresh_for_def demo_alice_def NewMemoryStore_def memory_store_defs demo_ik_def)
  have rnd: "x25519_pub toy_crypto (GenerateX25519KeyPair (d_nonce demo_draws)) \<noteq>
      x25519_pub toy_crypto (spk_PrivateKey demo_spk)"
    by (simp add: demo_draws_def demo_spk_def GenerateX25519KeyPair_def rand_bytes_all toy_x25519_pub)
  have A: "ms_identityKey (om_store demo_alice) = Some (demo_ik [1])" "distinct (map a_DeviceID [demo_addr])"
    and B: "0 < length [demo_addr]" "demo_addr = [demo_addr] ! 0"
      "ms_identityKey (om_store demo_bob) = Some (GenerateIdentityKeyPair toy_crypto [2])"
      "ms_signedPreKeys (om_store demo_bob) (spk_ID demo_spk) = Some demo_spk"
      "case [] of [] \<Rightarrow> True | pk # _ \<Rightarrow> ms_preKeys (om_store demo_bob) (pk_ID pk) = Some pk"
      "ms_deviceID (om_store demo_bob) = a_DeviceID demo_addr"
    by (simp_all add: demo_alice_def demo_bob_def NewMemoryStore_def omemo_NewManager_def demo_ik_def
        demo_spk_def demo_addr_def)
  show ?thesis
    using omemo_first_message [OF toy_gcm_ok toy_kdf_ok toy_dh_ok toy_curve_ok A(1) demo_ik_def A(2) fresh B rnd,
        of "[8]" "[9]" "\<lambda>_. demo_draws" "[1, 2, 3]" demo_addr]
    by blast
qed

section \<open>Generated bundles\<close>

context reliable_store
begin

lemma generate_pre_keys_ok:
  assumes "i + n < 2 ^ 32"
  shows "\<exists>s' pks. generate_pre_keys C S rnd i n s =
       (s', Inr (map (\<lambda>pk. \<lparr>bpk_ID = pk_ID pk, bpk_PublicKey = pk_PublicKey pk\<rparr>) pks)) \<and>
     length pks = n \<and> list_all (good_pre_key C) pks \<and>
     (\<forall>pk \<in> set pks. GetPreKey S (pk_ID pk) s' = Inr pk) \<and>
     (\<forall>j \<le> i. GetPreKey S (of_nat j) s' = GetPreKey S (of_nat j) s) \<and>
     observe S s' = (observe S s)\<lparr>o_pre := o_pre (observe S s')\<rparr>"
  using assms
proof (induction n arbitrary: i s)
  case 0
  then show ?case by (intro exI [of _ s] exI [of _ "[]"]) simp
next
  case (Suc n)
  define pk where "pk = generatePreKey C (rnd i) (of_nat (Suc i))"
  have pk: "pk_ID pk = of_nat (Suc i)" "good_pre_key C pk"
    by (simp_all add: pk_def generatePreKey_good) (simp add: generatePreKey_def Let_def)
  obtain s1 where s1: "SavePreKey S pk s = (s1, None)" using saves_succeed(3) by (metis prod.collapse)
  note o1 = save_pre [OF s1]
  obtain s2 pks where s2: "generate_pre_keys C S rnd (Suc i) n s1 =
        (s2, Inr (map (\<lambda>pk. \<lparr>bpk_ID = pk_ID pk, bpk_PublicKey = pk_PublicKey pk\<rparr>) pks))"
      "length pks = n" "list_all (good_pre_key C) pks" "\<forall>pk \<in> set pks. GetPreKey S (pk_ID pk) s2 = Inr pk"
      "\<forall>j \<le> Suc i. GetPreKey S (of_nat j) s2 = GetPreKey S (of_nat j) s1"
      "observe S s2 = (observe S s1)\<lparr>o_pre := o_pre (observe S s2)\<rparr>"
    using Suc.IH [of "Suc i" s1] Suc.prems by auto
  have "GetPreKey S (pk_ID pk) s2 = Inr pk"
    using s2(5) [rule_format, OF le_refl] pk(1) o1 by (simp add: reads_observe)
  moreover have "GetPreKey S (of_nat j) s2 = GetPreKey S (of_nat j) s" if "j \<le> i" for j
  proof -
    have "(of_nat j :: 32 word) \<noteq> of_nat (Suc i)"
      using that Suc.prems offset_inj [of 0 j "Suc i"] by simp
    then show ?thesis using s2(5) that o1 pk(1) by (simp add: reads_observe)
  qed
  moreover have "observe S s2 = (observe S s)\<lparr>o_pre := o_pre (observe S s2)\<rparr>"
    by (subst s2(6)) (simp add: o1)
  moreover have "generatePreKey C (rnd i) (of_nat (i + 1)) = pk" by (simp add: pk_def)
  then have "generate_pre_keys C S rnd i (Suc n) s =
      (s2, Inr (map (\<lambda>pk. \<lparr>bpk_ID = pk_ID pk, bpk_PublicKey = pk_PublicKey pk\<rparr>) (pk # pks)))"
    unfolding generate_pre_keys.simps Let_def by (simp only:) (simp add: s1 s2(1))
  ultimately show ?case
    using s2(2-4) pk(2) by (intro exI [of _ s2] exI [of _ "pk # pks"]) (simp del: generate_pre_keys.simps)
qed

lemma GenerateBundle_ok:
  assumes "sign_ok C" and "curve_ok C" and "n < 2 ^ 32"
    and "GetIdentityKeyPair S s = Inr ik" and "ik = None \<or> ik = Some (GenerateIdentityKeyPair C r0)"
  shows "\<exists>s' r spk pks. GenerateBundle C S rnd_ik rnd_spk rnd_pk (int n) s =
       (s', Inr (bundle_of (GenerateIdentityKeyPair C r) spk pks)) \<and>
     good_signed_pre_key C (GenerateIdentityKeyPair C r) spk \<and> list_all (good_pre_key C) pks \<and> length pks = n \<and>
     GetIdentityKeyPair S s' = Inr (Some (GenerateIdentityKeyPair C r)) \<and>
     GetSignedPreKey S (spk_ID spk) s' = Inr spk \<and> (\<forall>pk \<in> set pks. GetPreKey S (pk_ID pk) s' = Inr pk) \<and>
     GetLocalDeviceID S s' = GetLocalDeviceID S s"
proof -
  obtain s1 r where s1: "load_or_generate_identity C S rnd_ik s = (s1, Inr (GenerateIdentityKeyPair C r))"
      "observe S s1 = (observe S s)\<lparr>o_identity := Inr (Some (GenerateIdentityKeyPair C r))\<rparr>"
  proof (cases ik)
    case None
    obtain s1 where "SaveIdentityKeyPair S (GenerateIdentityKeyPair C rnd_ik) s = (s1, None)"
      using saves_succeed(1) by (metis prod.collapse)
    then show ?thesis using that save_identity None assms(4) by (simp add: load_or_generate_identity_def)
  next
    case (Some k)
    then have "load_or_generate_identity C S rnd_ik s = (s, Inr (GenerateIdentityKeyPair C r0))"
      using assms(4,5) by (simp add: load_or_generate_identity_def)
    moreover have "o_identity (observe S s) = Inr (Some (GenerateIdentityKeyPair C r0))"
      using Some assms(4,5) by (simp add: observe_def)
    ultimately show ?thesis using that by simp
  qed
  let ?ik = "GenerateIdentityKeyPair C r"
  obtain spk where spk: "generateSignedPreKey C rnd_spk ?ik 1 = Inr spk" "good_signed_pre_key C ?ik spk"
    using generateSignedPreKey_ok [OF assms(1,2) refl, of rnd_spk r 1] unfolding good_signed_pre_key_def by blast
  obtain s2 where s2: "SaveSignedPreKey S spk s1 = (s2, None)" using saves_succeed(5) by (metis prod.collapse)
  note o2 = save_signed [OF s2]
  obtain s3 pks where s3: "generate_pre_keys C S rnd_pk 0 n s2 =
        (s3, Inr (map (\<lambda>pk. \<lparr>bpk_ID = pk_ID pk, bpk_PublicKey = pk_PublicKey pk\<rparr>) pks))"
      "length pks = n" "list_all (good_pre_key C) pks" "\<forall>pk \<in> set pks. GetPreKey S (pk_ID pk) s3 = Inr pk"
      "observe S s3 = (observe S s2)\<lparr>o_pre := o_pre (observe S s3)\<rparr>"
    using generate_pre_keys_ok [of 0 n C rnd_pk s2] assms(3) by auto
  have "GenerateBundle C S rnd_ik rnd_spk rnd_pk (int n) s = (s3, Inr (bundle_of ?ik spk pks))"
    using s1(1) spk(1) s2 s3(1) by (simp add: GenerateBundle_def bundle_of_def)
  moreover have "GetIdentityKeyPair S s3 = Inr (Some ?ik)" "GetSignedPreKey S (spk_ID spk) s3 = Inr spk"
      "GetLocalDeviceID S s3 = GetLocalDeviceID S s"
    unfolding reads_observe by (subst s3(5), simp add: o2 s1(2))+
  ultimately show ?thesis using spk(2) s3(2-4) by blast
qed

end

text \<open>
  A bundle made by \<open>GenerateBundle\<close> is usable: it is signed by the device's identity key, its
  one-time pre-keys number as many as were asked for, and the private half of everything in it can be
  read back from the store under the identifiers the bundle names.  An identity already present is kept.
\<close>

theorem GenerateBundle_publishes:
  assumes "sign_ok C" and "curve_ok C" and "n < 2 ^ 32"
    and "ms_identityKey s = None \<or> ms_identityKey s = Some (GenerateIdentityKeyPair C r0)"
  shows "\<exists>s' r spk pks. GenerateBundle C memory_store rnd_ik rnd_spk rnd_pk (int n) s =
       (s', Inr (bundle_of (GenerateIdentityKeyPair C r) spk pks)) \<and>
     good_signed_pre_key C (GenerateIdentityKeyPair C r) spk \<and> list_all (good_pre_key C) pks \<and> length pks = n \<and>
     ms_identityKey s' = Some (GenerateIdentityKeyPair C r) \<and>
     ms_signedPreKeys s' (spk_ID spk) = Some spk \<and> (\<forall>pk \<in> set pks. ms_preKeys s' (pk_ID pk) = Some pk) \<and>
     ms_deviceID s' = ms_deviceID s"
proof -
  have ik: "GetIdentityKeyPair memory_store s = Inr (ms_identityKey s)" by (simp add: memory_store_defs)
  have reads: "ms_GetPreKey i x = Inr pk \<longleftrightarrow> ms_preKeys x i = Some pk"
      "ms_GetSignedPreKey i x = Inr spk \<longleftrightarrow> ms_signedPreKeys x i = Some spk" for i x pk spk
    by (simp_all add: memory_store_defs split: option.splits)
  from mem.GenerateBundle_ok [OF assms(1-3) ik assms(4), of rnd_ik rnd_spk rnd_pk] show ?thesis
    by (simp add: reads ms_GetIdentityKeyPair_def ms_GetLocalDeviceID_def)
qed

theorem GenerateBundle_publishes_witness:
  "\<exists>s' r spk pks. GenerateBundle toy_crypto memory_store [1] [2] (\<lambda>i. [of_nat i]) 100 (NewMemoryStore 7) =
       (s', Inr (bundle_of (GenerateIdentityKeyPair toy_crypto r) spk pks)) \<and> length pks = 100"
  using GenerateBundle_publishes [OF toy_sign_ok toy_curve_ok, of 100 "NewMemoryStore 7" "[]" "[1]" "[2]" "\<lambda>i. [of_nat i]"]
  by (simp add: NewMemoryStore_def) blast


section \<open>Branches that fall short\<close>

lemma createSessionFromPreKeyMessage_fails:
  "\<exists>e. createSessionFromPreKeyMessage C S sender m = (m, Inl e)"
proof -
  have dh: "x25519DH C k [] = Inl ErrLibrary" for k by (simp add: x25519DH_def x25519_key_def)
  have "\<exists>e. InitSessionAsBob C ikp spk None key [] = Inl e" for ikp spk key
  proof (cases "Ed25519PublicKeyToX25519 key")
    case (Inr pub)
    then show ?thesis
      by (cases "Ed25519PrivateKeyToX25519 C (ik_private ikp)"; cases "x25519DH C spk pub")
        (simp_all add: InitSessionAsBob_def X3DHRespond_def dh)
  qed (simp add: InitSessionAsBob_def X3DHRespond_def)
  then show ?thesis
    by (auto simp: createSessionFromPreKeyMessage_def split: option.splits sum.splits) (metis sum.simps(4))+
qed

text \<open>
  \<open>Decrypt\<close> can not start a session.  Without a session in memory or in the store it fails, also
  for a pre-key message whose sender's bundle is known: \<open>createSessionFromPreKeyMessage\<close> passes a nil
  ephemeral key to the key agreement, which no X25519 exchange accepts.  No session is created.
\<close>

theorem Decrypt_cannot_start_session:
  assumes "om_sessions m sender = None" and "GetSession S sender (om_store m) = Inl err"
  shows "\<exists>e. omemo_Decrypt C S d sender msg m = (m, Inl e)"
proof -
  have none: "\<exists>e. getOrCreateSessionForDecrypt C S sender b m = (m, Inl e)" for b
    using assms createSessionFromPreKeyMessage_fails [of C S sender m]
    by (auto simp: getOrCreateSessionForDecrypt_def load_session_def)
  show ?thesis
  proof (cases "find_our_key S m msg")
    case (Inr k)
    obtain e where "getOrCreateSessionForDecrypt C S sender (k_IsPreKey k) m = (m, Inl e)" using none by blast
    with Inr show ?thesis by (cases "parse_key_data k") (auto simp: omemo_Decrypt_def)
  qed (simp add: omemo_Decrypt_def)
qed

theorem Decrypt_cannot_start_session_witness:
  "\<exists>e. omemo_Decrypt toy_crypto memory_store demo_draws demo_addr
     \<lparr>m_SenderDeviceID = 7, m_Keys = [\<lparr>k_DeviceID = 5, k_Data = replicate 40 0, k_IsPreKey = True\<rparr>],
      m_IV = [], m_Payload = []\<rparr> demo_alice = (demo_alice, Inl e)"
  by (rule Decrypt_cannot_start_session [where err = ErrNoSession])
    (simp_all add: demo_alice_def NewMemoryStore_def memory_store_defs)

text \<open>A session that \<open>create_as_bob\<close> left behind, as \<open>Encrypt\<close> uses it: its sending chain key is nil.\<close>

lemma encrypt_for_left_behind:
  assumes "gcm_ok C" "kdf_ok C" "dh_ok C"
    and "create_as_bob C memory_store sender key ek opk spkID m = (m1, Inr session)"
  shows "\<exists>m2 k header ct. encrypt_for C memory_store d keyMaterial sender m1 = (m2, Inr k) \<and>
       parse_key_data k = Inr (header, ct) \<and> decryptWithNonce C (hmac_sha256 C [] [0x01]) ct = Inr keyMaterial"
proof -
  have s: "om_sessions m1 sender = Some session" "CKs (s_Ratchet session) = None"
      "length (DHs (s_Ratchet session)) = 32"
    using assms(4) by (auto simp: create_as_bob_def InitSessionAsBob_def InitRatchetAsBob_def x25519_key_def
        bind_result_Inr_iff split: sum.splits option.splits prod.splits if_splits)
  let ?mk = "hmac_sha256 C [] [0x01]"
  define nonce where "nonce = rand_bytes 12 (d_nonce d)"
  have enc: "aesGCMEncrypt C (d_nonce d) ?mk keyMaterial = Inr (nonce, gcm_seal C ?mk nonce keyMaterial)"
    using assms(2) by (simp add: aesGCMEncrypt_def aesKeySize_def aesNonceSize_def nonce_def Let_def)
  let ?ct = "nonce @ gcm_seal C ?mk nonce keyMaterial"
  let ?h = "\<lparr>h_DHPub = x25519_pub C (DHs (s_Ratchet session)), h_N = Ns (s_Ratchet session),
    h_PN = PN (s_Ratchet session)\<rparr>"
  obtain s' b where se: "session_Encrypt C (d_nonce d) session keyMaterial = (s', Inr (?h, ?ct, b))"
    using s(2) enc by (simp add: session_Encrypt_def RatchetEncrypt_def chainKDF_def Let_def)
  obtain hb where hb: "header_MarshalBinary ?h = Inr hb"
    using assms(3) s(3) by (simp add: header_MarshalBinary_def dh_ok_def)
  let ?k = "\<lparr>k_DeviceID = a_DeviceID sender, k_Data = hb @ ?ct, k_IsPreKey = b\<rparr>"
  have "\<exists>m2. encrypt_for C memory_store d keyMaterial sender m1 = (m2, Inr ?k)"
    using s(1) se hb by (simp add: encrypt_for_def getOrCreateSession_def saveSession_def ms_SaveSession_def Let_def)
  moreover have "parse_key_data ?k = Inr (?h, ?ct)" by (rule parse_key_data_Marshal [OF hb])
  ultimately show ?thesis using decryptWithNonce_seal [OF assms(1) enc] by blast
qed

text \<open>A message that the receiver can not use: no key for its device, or one that is not header and ciphertext.\<close>

definition unusable :: "'s Store \<Rightarrow> 's omemo_Manager \<Rightarrow> EncryptedMessage \<Rightarrow> omemo_error \<Rightarrow> bool" where
  "unusable S m msg e \<longleftrightarrow> find_our_key S m msg = Inl e \<or> (\<exists>k. find_our_key S m msg = Inr k \<and> parse_key_data k = Inl e)"

text \<open>
  C19: a pre-key message whose key agreement works but that holds no key for the own device, or one that can
  not be parsed, leaves a session behind whose sending chain key is nil, and \<open>Encrypt\<close> uses it.  With the memory
  store, the next message to that address is made without an error, and anyone can read it: the key
  HMAC-SHA256(nil, 0x01), which needs no secret, opens the entry for the recipient, and what is in it opens the
  payload.
\<close>

theorem Encrypt_after_failed_pre_key_message:
  assumes "gcm_ok C" and "kdf_ok C" and "dh_ok C"
    and "create_as_bob C memory_store sender key ek opk spkID m = (m1, Inr session)"
    and "unusable memory_store m1 msg e"
  shows "DecryptPreKeyMessage C memory_store d sender key ek opk spkID msg m = (m1, Inl e) \<and>
    (\<exists>m2 out k header ct keyMaterial.
       omemo_Encrypt C memory_store rnd_mk rnd_iv ds plaintext [sender] m1 = (m2, Inr out) \<and>
       m_Keys out = [k] \<and> parse_key_data k = Inr (header, ct) \<and>
       decryptWithNonce C (hmac_sha256 C [] [0x01]) ct = Inr keyMaterial \<and> opens C out keyMaterial plaintext)"
proof
  show "DecryptPreKeyMessage C memory_store d sender key ek opk spkID msg m = (m1, Inl e)"
    using assms(4,5) by (auto simp: DecryptPreKeyMessage_def unusable_def)
  obtain keyMaterial iv payload where
    open_: "\<And>dev keys. opens C \<lparr>m_SenderDeviceID = dev, m_Keys = keys, m_IV = iv, m_Payload = payload\<rparr> keyMaterial plaintext"
    and enc: "omemo_Encrypt C memory_store rnd_mk rnd_iv ds plaintext [sender] m1 =
        (case GetLocalDeviceID memory_store (om_store m1) of
           Inl e \<Rightarrow> (m1, Inl e)
         | Inr deviceID \<Rightarrow>
             (case encrypt_loop C memory_store ds keyMaterial 0 [sender] m1 of
                (m2, Inl e) \<Rightarrow> (m2, Inl e)
              | (m2, Inr keys) \<Rightarrow>
                  (m2, Inr \<lparr>m_SenderDeviceID = deviceID, m_Keys = keys, m_IV = iv, m_Payload = payload\<rparr>)))"
    using omemo_Encrypt_payload [OF assms(1), where plaintext = plaintext and rnd_mk = rnd_mk and rnd_iv = rnd_iv] by blast
  obtain m2 k header ct where k: "encrypt_for C memory_store (ds 0) keyMaterial sender m1 = (m2, Inr k)"
    "parse_key_data k = Inr (header, ct)" "decryptWithNonce C (hmac_sha256 C [] [0x01]) ct = Inr keyMaterial"
    using encrypt_for_left_behind [OF assms(1-4)] by blast
  let ?out = "\<lparr>m_SenderDeviceID = ms_deviceID (om_store m1), m_Keys = [k], m_IV = iv, m_Payload = payload\<rparr>"
  have "omemo_Encrypt C memory_store rnd_mk rnd_iv ds plaintext [sender] m1 = (m2, Inr ?out)"
    unfolding enc using k(1) by (simp add: ms_GetLocalDeviceID_def)
  with k(2,3) open_ show "\<exists>m2 out k header ct keyMaterial.
       omemo_Encrypt C memory_store rnd_mk rnd_iv ds plaintext [sender] m1 = (m2, Inr out) \<and>
       m_Keys out = [k] \<and> parse_key_data k = Inr (header, ct) \<and>
       decryptWithNonce C (hmac_sha256 C [] [0x01]) ct = Inr keyMaterial \<and> opens C out keyMaterial plaintext"
    by (metis EncryptedMessage.select_convs(2))
qed

theorem Encrypt_after_failed_pre_key_message_witness:
  "\<exists>ek m1 m2 out k header ct keyMaterial.
     DecryptPreKeyMessage toy_crypto memory_store demo_draws demo_addr (ik_public (demo_ik [1])) ek None 1
       \<lparr>m_SenderDeviceID = 7, m_Keys = [], m_IV = [], m_Payload = []\<rparr> demo_bob = (m1, Inl ErrInvalidMessage) \<and>
     omemo_Encrypt toy_crypto memory_store [5] [6] (\<lambda>_. demo_draws) [1, 2, 3] [demo_addr] m1 = (m2, Inr out) \<and>
     m_Keys out = [k] \<and> parse_key_data k = Inr (header, ct) \<and>
     decryptWithNonce toy_crypto (hmac_sha256 toy_crypto [] [1]) ct = Inr keyMaterial \<and> opens toy_crypto out keyMaterial [1, 2, 3]"
proof -
  have "good_signed_pre_key toy_crypto (demo_ik [2]) demo_spk"
    using toy_x25519_pub [of 3] by (simp add: good_signed_pre_key_def demo_spk_def) (simp add: toy_crypto_def)
  then have spk: "length (spk_PrivateKey demo_spk) = 32"
      "spk_PublicKey demo_spk = x25519_pub toy_crypto (spk_PrivateKey demo_spk)"
      "ed25519_verify toy_crypto (ik_public (demo_ik [2])) (spk_PublicKey demo_spk) (spk_Signature demo_spk)"
    unfolding good_signed_pre_key_def by blast+
  obtain ppk :: PendingPreKey and sB where sB: "InitSessionAsBob toy_crypto (demo_ik [2]) (spk_PrivateKey demo_spk) None
      (ik_public (demo_ik [1])) (pp_EphemeralPubKey ppk) = Inr sB"
    using InitSession_ahead [OF toy_kdf_ok toy_dh_ok toy_curve_ok demo_ik_def [of "[1]"] demo_ik_def [of "[2]"] spk,
        where pks = "[]" and rnd_ek = "[]" and rnd_rk = "[]"] by auto
  have bob: "GetIdentityKeyPair memory_store (om_store demo_bob) = Inr (Some (demo_ik [2]))"
      "GetSignedPreKey memory_store (spk_ID demo_spk) (om_store demo_bob) = Inr demo_spk"
    by (simp_all add: demo_bob_def omemo_NewManager_def demo_spk_def memory_store_defs NewMemoryStore_def)
  obtain m1 where m1: "create_as_bob toy_crypto memory_store demo_addr (ik_public (demo_ik [1]))
      (pp_EphemeralPubKey ppk) None (spk_ID demo_spk) demo_bob = (m1, Inr sB)"
    using mem.create_as_bob_ok [OF bob spk(1), of toy_crypto "[]" "ik_public (demo_ik [1])" "pp_EphemeralPubKey ppk" sB]
      sB by auto
  have e: "unusable memory_store m1 \<lparr>m_SenderDeviceID = 7, m_Keys = [], m_IV = [], m_Payload = []\<rparr> ErrInvalidMessage"
    by (simp add: unusable_def find_our_key_def ms_GetLocalDeviceID_def)
  have "spk_ID demo_spk = 1" by (simp add: demo_spk_def)
  then show ?thesis
    using Encrypt_after_failed_pre_key_message [OF toy_gcm_ok toy_kdf_ok toy_dh_ok m1 e, of demo_draws "[5]" "[6]"
        "\<lambda>_. demo_draws" "[1, 2, 3]"] by metis
qed

end
