(* ===== verification/StorageTypes.thy ===== *)
theory StorageTypes
  imports Prelude
begin

text \<open>
  Package \<open>storage\<close>: the sentinel errors and the records of storage/*.go, and the contracts of its
  interfaces as locales.  The interfaces are all of one shape: values are put under a key, read, listed
  and deleted.  \<open>keyed_store\<close> states what reads return after writes and deletions, \<open>upsert_store\<close> is the
  case in which writing never fails, \<open>create_store\<close> the one in which writing to a key in use is refused.
\<close>

section \<open>Data\<close>

text \<open>The sentinel errors; \<open>BackendError\<close> is an error of the medium, which none of them is.\<close>

datatype storage_error = ErrNotFound | ErrUserExists | ErrAuthFailed | BackendError string

text \<open>A \<open>time.Time\<close> is the number of nanoseconds from Go's zero time.\<close>

type_synonym gotime = int

definition IsZero :: "gotime \<Rightarrow> bool" where
  "IsZero t \<longleftrightarrow> t = 0"

record User =
  u_Username :: string
  u_Password :: string
  u_Salt :: string
  u_Iterations :: int
  u_ServerKey :: string
  u_StoredKey :: string
  u_CreatedAt :: gotime
  u_UpdatedAt :: gotime

record RosterItem =
  ri_UserJID :: string
  ri_ContactJID :: string
  ri_Name :: string
  ri_Subscription :: string
  ri_Ask :: string
  ri_Groups :: "string list"

record OfflineMessage =
  off_ID :: string
  off_UserJID :: string
  off_FromJID :: string
  off_Data :: bytes
  off_CreatedAt :: gotime

record ArchivedMessage =
  am_ID :: string
  am_UserJID :: string
  am_WithJID :: string
  am_FromJID :: string
  am_Data :: bytes
  am_CreatedAt :: gotime

record MAMQuery =
  q_UserJID :: string
  q_WithJID :: string
  q_Start :: gotime
  q_End :: gotime
  q_AfterID :: string
  q_BeforeID :: string
  q_Max :: int

record MAMResult =
  mr_Messages :: "ArchivedMessage list"
  mr_Complete :: bool
  mr_First :: string
  mr_Last :: string
  mr_Count :: nat

record MUCRoom =
  room_RoomJID :: string
  room_Name :: string
  room_Description :: string
  room_Subject :: string
  room_Password :: string
  room_Public :: bool
  room_Persistent :: bool
  room_MaxUsers :: int

record MUCAffiliation =
  aff_RoomJID :: string
  aff_UserJID :: string
  aff_Affiliation :: string
  aff_Reason :: string

record PubSubNode =
  node_Host :: string
  node_NodeID :: string
  node_Name :: string
  node_Type :: string
  node_Config :: "(string \<rightharpoonup> string) option"
  node_Creator :: string

record PubSubItem =
  item_Host :: string
  item_NodeID :: string
  item_ItemID :: string
  item_Publisher :: string
  item_Payload :: bytes
  item_CreatedAt :: gotime

record PubSubSubscription =
  sub_Host :: string
  sub_NodeID :: string
  sub_JID :: string
  sub_SubID :: string
  sub_State :: string

record Bookmark =
  bm_UserJID :: string
  bm_RoomJID :: string
  bm_Name :: string
  bm_Nick :: string
  bm_Password :: string
  bm_Autojoin :: bool

section \<open>Contracts\<close>

text \<open>What a read returns that finds, or does not find, a value.\<close>

definition lookup_result :: "'v option \<Rightarrow> (storage_error, 'v) result" where
  "lookup_result r = (case r of None \<Rightarrow> Inl ErrNotFound | Some v \<Rightarrow> Inr v)"

lemma lookup_result_simps [simp]: "lookup_result None = Inl ErrNotFound" "lookup_result (Some v) = Inr v"
  by (simp_all add: lookup_result_def)

type_synonym 's writer = "'s \<Rightarrow> 's \<times> storage_error option"

text \<open>
  \<open>key\<close> is the key a value is stored under, \<open>stored\<close> the value as it is kept (the stores fill in missing
  time stamps).
\<close>

locale keyed_store =
  fixes get :: "'s \<Rightarrow> 'k \<Rightarrow> (storage_error, 'v) result"
    and put :: "'v \<Rightarrow> 's writer" and del :: "'k \<Rightarrow> 's writer"
    and key :: "'v \<Rightarrow> 'k" and stored :: "'v \<Rightarrow> 'v"
  assumes get_put: "put v s = (s', None) \<Longrightarrow> get s' k = (if k = key v then Inr (stored v) else get s k)"
    and put_error: "put v s = (s', Some e) \<Longrightarrow> get s' k = get s k"
    and get_del: "del x s = (s', None) \<Longrightarrow> get s' k = (if k = x then Inl ErrNotFound else get s k)"
    and del_error: "del x s = (s', Some e) \<Longrightarrow> get s x = Inl ErrNotFound \<and> get s' k = get s k"
    and get_error: "get s k = Inl e \<Longrightarrow> e = ErrNotFound"
begin

definition contents :: "'s \<Rightarrow> 'k \<rightharpoonup> 'v" where
  "contents s k = (case get s k of Inl _ \<Rightarrow> None | Inr v \<Rightarrow> Some v)"

lemma get_contents: "get s k = lookup_result (contents s k)"
  by (auto simp: contents_def get_error split: sum.splits)

lemma contents_del: "contents (fst (del x s)) = (contents s)(x := None)"
proof (cases "snd (del x s)")
  case None
  then have "del x s = (fst (del x s), None)" by (metis prod.collapse)
  from get_del [OF this] show ?thesis by (auto simp: contents_def)
next
  case (Some e)
  then have "del x s = (fst (del x s), Some e)" by (metis prod.collapse)
  from del_error [OF this] show ?thesis by (auto simp: contents_def fun_eq_iff)
qed

lemma contents_put: "contents (fst (put v s)) = (if snd (put v s) = None then (contents s)(key v \<mapsto> stored v) else contents s)"
proof (cases "snd (put v s)")
  case None
  then have "put v s = (fst (put v s), None)" by (metis prod.collapse)
  from get_put [OF this] None show ?thesis by (auto simp: contents_def)
next
  case (Some e)
  then have "put v s = (fst (put v s), Some e)" by (metis prod.collapse)
  from put_error [OF this] Some show ?thesis by (auto simp: contents_def)
qed

end

text \<open>A history of writes and deletions, run on a store and on a finite map.\<close>

datatype ('k, 'v) kv_op = Put 'v | Del 'k

fun run_ops :: "('v \<Rightarrow> 's writer) \<Rightarrow> ('k \<Rightarrow> 's writer) \<Rightarrow> ('k, 'v) kv_op list \<Rightarrow> 's \<Rightarrow> 's" where
  "run_ops put del [] s = s"
| "run_ops put del (Put v # h) s = run_ops put del h (fst (put v s))"
| "run_ops put del (Del k # h) s = run_ops put del h (fst (del k s))"

fun run_map :: "('v \<Rightarrow> 'k) \<Rightarrow> ('v \<Rightarrow> 'v) \<Rightarrow> ('k, 'v) kv_op list \<Rightarrow> ('k \<rightharpoonup> 'v) \<Rightarrow> ('k \<rightharpoonup> 'v)" where
  "run_map key stored [] m = m"
| "run_map key stored (Put v # h) m = run_map key stored h (m(key v \<mapsto> stored v))"
| "run_map key stored (Del k # h) m = run_map key stored h (m(k := None))"

locale upsert_store = keyed_store +
  assumes put_ok: "snd (put v s) = None"
begin

lemma run_refines: "contents (run_ops put del h s) = run_map key stored h (contents s)"
proof (induction h arbitrary: s)
  case (Cons x h)
  then show ?case by (cases x) (simp_all add: contents_put contents_del put_ok fun_upd_def)
qed simp

lemma get_run: "get (run_ops put del h s) k = lookup_result (run_map key stored h (contents s) k)"
  by (simp add: get_contents run_refines)

end

locale create_store = keyed_store +
  assumes put_iff: "snd (put v s) = (if get s (key v) = Inl ErrNotFound then None else Some ErrUserExists)"
begin

lemma create_get:
  "get (fst (put v s)) k =
     (if k = key v \<and> get s k = Inl ErrNotFound then Inr (stored v) else get s k)"
proof (cases "snd (put v s)")
  case None
  then have "put v s = (fst (put v s), None)" by (metis prod.collapse)
  from get_put [OF this] None show ?thesis by (auto simp: put_iff split: if_splits)
next
  case (Some e)
  then have "put v s = (fst (put v s), Some e)" by (metis prod.collapse)
  from put_error [OF this] Some show ?thesis by (auto simp: put_iff split: if_splits)
qed

end

end
