(* ===== verification/StorageMemory.thy ===== *)
theory StorageMemory
  imports StorageTypes
begin

text \<open>
  Package \<open>memory\<close> (storage/memory/memory.go), the in-memory implementation of all storage interfaces.
  The state is the record \<open>MemStore\<close>; every method is one definition, \<open>now\<close> is what \<open>time.Now\<close> returned
  and \<open>ks\<close> (where present) the order in which a loop over a map visits its keys.  Values are copied in
  and out, so a value is its contents; the one place where a map is shared with the caller is named in the
  text at \<open>ListNodes\<close>.  A nil slice is the empty list.
\<close>

section \<open>State\<close>

record MemStore =
  users :: "string \<rightharpoonup> User"
  rosterItems :: "string \<rightharpoonup> string \<rightharpoonup> RosterItem"
  rosterVersions :: "string \<rightharpoonup> string"
  blocked :: "string \<rightharpoonup> string \<rightharpoonup> bool"
  vcards :: "string \<rightharpoonup> bytes"
  offlineMsgs :: "string \<rightharpoonup> OfflineMessage list"
  mamMessages :: "string \<rightharpoonup> ArchivedMessage list"
  mamIDCounter :: "64 word"
  mucRooms :: "string \<rightharpoonup> MUCRoom"
  mucAffiliations :: "string \<rightharpoonup> string \<rightharpoonup> MUCAffiliation"
  pubsubNodes :: "string \<rightharpoonup> string \<rightharpoonup> PubSubNode"
  pubsubItems :: "string \<rightharpoonup> string \<rightharpoonup> string \<rightharpoonup> PubSubItem"
  pubsubSubscriptions :: "string \<rightharpoonup> string \<rightharpoonup> string \<rightharpoonup> PubSubSubscription"
  bookmarks :: "string \<rightharpoonup> string \<rightharpoonup> Bookmark"

text \<open>\<open>Init\<close> makes every map anew; the counter of archive identifiers goes on.\<close>

definition initLocked :: "MemStore \<Rightarrow> MemStore" where
  "initLocked s =
     \<lparr>users = Map.empty, rosterItems = Map.empty, rosterVersions = Map.empty, blocked = Map.empty,
      vcards = Map.empty, offlineMsgs = Map.empty, mamMessages = Map.empty, mamIDCounter = mamIDCounter s,
      mucRooms = Map.empty, mucAffiliations = Map.empty, pubsubNodes = Map.empty, pubsubItems = Map.empty,
      pubsubSubscriptions = Map.empty, bookmarks = Map.empty\<rparr>"

definition store_Init :: "MemStore \<Rightarrow> MemStore \<times> storage_error option" where
  "store_Init s = (initLocked s, None)"

definition NewStore :: MemStore where
  "NewStore =
     \<lparr>users = Map.empty, rosterItems = Map.empty, rosterVersions = Map.empty, blocked = Map.empty,
      vcards = Map.empty, offlineMsgs = Map.empty, mamMessages = Map.empty, mamIDCounter = 0,
      mucRooms = Map.empty, mucAffiliations = Map.empty, pubsubNodes = Map.empty, pubsubItems = Map.empty,
      pubsubSubscriptions = Map.empty, bookmarks = Map.empty\<rparr>"

section \<open>UserStore\<close>

definition CreateUser :: "gotime \<Rightarrow> User \<Rightarrow> MemStore writer" where
  "CreateUser now user s =
     (if users s (u_Username user) \<noteq> None then (s, Some ErrUserExists)
      else (s\<lparr>users := (users s)(u_Username user \<mapsto> user\<lparr>u_CreatedAt := now, u_UpdatedAt := now\<rparr>)\<rparr>, None))"

definition GetUser :: "MemStore \<Rightarrow> string \<Rightarrow> (storage_error, User) result" where
  "GetUser s username = (case users s username of None \<Rightarrow> Inl ErrNotFound | Some u \<Rightarrow> Inr u)"

definition UpdateUser :: "gotime \<Rightarrow> User \<Rightarrow> MemStore writer" where
  "UpdateUser now user s =
     (if users s (u_Username user) = None then (s, Some ErrNotFound)
      else (s\<lparr>users := (users s)(u_Username user \<mapsto> user\<lparr>u_UpdatedAt := now\<rparr>)\<rparr>, None))"

definition DeleteUser :: "string \<Rightarrow> MemStore writer" where
  "DeleteUser username s =
     (if users s username = None then (s, Some ErrNotFound)
      else (s\<lparr>users := (users s)(username := None)\<rparr>, None))"

definition UserExists :: "MemStore \<Rightarrow> string \<Rightarrow> (storage_error, bool) result" where
  "UserExists s username = Inr (users s username \<noteq> None)"

text \<open>The boolean and the error are both returned.\<close>

definition Authenticate :: "MemStore \<Rightarrow> string \<Rightarrow> string \<Rightarrow> bool \<times> storage_error option" where
  "Authenticate s username password =
     (case users s username of
        None \<Rightarrow> (False, Some ErrAuthFailed)
      | Some u \<Rightarrow> if u_Password u \<noteq> password then (False, Some ErrAuthFailed) else (True, None))"

section \<open>RosterStore\<close>

definition UpsertRosterItem :: "RosterItem \<Rightarrow> MemStore writer" where
  "UpsertRosterItem item s =
     (s\<lparr>rosterItems := put2 (rosterItems s) (ri_UserJID item) (ri_ContactJID item) item\<rparr>, None)"

definition GetRosterItem :: "MemStore \<Rightarrow> string \<times> string \<Rightarrow> (storage_error, RosterItem) result" where
  "GetRosterItem s k =
     (case get2 (rosterItems s) (fst k) (snd k) of None \<Rightarrow> Inl ErrNotFound | Some item \<Rightarrow> Inr item)"

definition GetRosterItems :: "string list \<Rightarrow> MemStore \<Rightarrow> string \<Rightarrow> RosterItem list" where
  "GetRosterItems ks s userJID = range_values ks (inner (rosterItems s) userJID)"

definition DeleteRosterItem :: "string \<times> string \<Rightarrow> MemStore writer" where
  "DeleteRosterItem k s =
     (case rosterItems s (fst k) of
        None \<Rightarrow> (s, Some ErrNotFound)
      | Some items \<Rightarrow>
          if items (snd k) = None then (s, Some ErrNotFound)
          else (s\<lparr>rosterItems := (rosterItems s)(fst k \<mapsto> items(snd k := None))\<rparr>, None))"

definition GetRosterVersion :: "MemStore \<Rightarrow> string \<Rightarrow> string" where
  "GetRosterVersion s userJID = (case rosterVersions s userJID of None \<Rightarrow> '''' | Some v \<Rightarrow> v)"

definition SetRosterVersion :: "string \<Rightarrow> string \<Rightarrow> MemStore writer" where
  "SetRosterVersion userJID version s =
     (s\<lparr>rosterVersions := (rosterVersions s)(userJID \<mapsto> version)\<rparr>, None)"

section \<open>BlockingStore\<close>

definition BlockJID :: "string \<Rightarrow> string \<Rightarrow> MemStore writer" where
  "BlockJID userJID blockedJID s = (s\<lparr>blocked := put2 (blocked s) userJID blockedJID True\<rparr>, None)"

definition UnblockJID :: "string \<Rightarrow> string \<Rightarrow> MemStore writer" where
  "UnblockJID userJID blockedJID s = (s\<lparr>blocked := del2 (blocked s) userJID blockedJID\<rparr>, None)"

definition IsBlocked :: "MemStore \<Rightarrow> string \<Rightarrow> string \<Rightarrow> bool" where
  "IsBlocked s userJID blockedJID =
     (case blocked s userJID of
        None \<Rightarrow> False
      | Some b \<Rightarrow> (case b blockedJID of None \<Rightarrow> False | Some v \<Rightarrow> v))"

text \<open>\<open>ks\<close> are the keys of the user's block list in the order of the loop.\<close>

definition GetBlockedJIDs :: "string list \<Rightarrow> MemStore \<Rightarrow> string \<Rightarrow> string list" where
  "GetBlockedJIDs ks s userJID = filter (\<lambda>jid. inner (blocked s) userJID jid \<noteq> None) ks"

section \<open>VCardStore\<close>

definition SetVCard :: "string \<Rightarrow> bytes \<Rightarrow> MemStore writer" where
  "SetVCard userJID data s = (s\<lparr>vcards := (vcards s)(userJID \<mapsto> data)\<rparr>, None)"

definition GetVCard :: "MemStore \<Rightarrow> string \<Rightarrow> (storage_error, bytes) result" where
  "GetVCard s userJID = (case vcards s userJID of None \<Rightarrow> Inl ErrNotFound | Some data \<Rightarrow> Inr data)"

definition DeleteVCard :: "string \<Rightarrow> MemStore writer" where
  "DeleteVCard userJID s =
     (if vcards s userJID = None then (s, Some ErrNotFound)
      else (s\<lparr>vcards := (vcards s)(userJID := None)\<rparr>, None))"

section \<open>OfflineStore\<close>

definition offline_of :: "MemStore \<Rightarrow> string \<Rightarrow> OfflineMessage list" where
  "offline_of s userJID = (case offlineMsgs s userJID of None \<Rightarrow> [] | Some msgs \<Rightarrow> msgs)"

definition StoreOfflineMessage :: "gotime \<Rightarrow> OfflineMessage \<Rightarrow> MemStore writer" where
  "StoreOfflineMessage now msg s =
     (let cp = (if IsZero (off_CreatedAt msg) then msg\<lparr>off_CreatedAt := now\<rparr> else msg)
      in (s\<lparr>offlineMsgs := (offlineMsgs s)(off_UserJID msg \<mapsto> offline_of s (off_UserJID msg) @ [cp])\<rparr>, None))"

definition GetOfflineMessages :: "MemStore \<Rightarrow> string \<Rightarrow> OfflineMessage list" where
  "GetOfflineMessages s userJID = offline_of s userJID"

definition DeleteOfflineMessages :: "string \<Rightarrow> MemStore writer" where
  "DeleteOfflineMessages userJID s = (s\<lparr>offlineMsgs := (offlineMsgs s)(userJID := None)\<rparr>, None)"

definition CountOfflineMessages :: "MemStore \<Rightarrow> string \<Rightarrow> nat" where
  "CountOfflineMessages s userJID = length (offline_of s userJID)"

section \<open>MAMStore\<close>

text \<open>\<open>fmt.Sprintf("%d", n)\<close>.\<close>

fun decimal_nat :: "nat \<Rightarrow> string" where
  "decimal_nat n = (if n < 10 then [char_of (n + 48)] else decimal_nat (n div 10) @ [char_of (n mod 10 + 48)])"

declare decimal_nat.simps [simp del]

definition decimal :: "64 word \<Rightarrow> string" where
  "decimal w = (if sint w < 0 then CHR ''-'' # decimal_nat (nat (- sint w)) else decimal_nat (nat (sint w)))"

definition archive_of :: "MemStore \<Rightarrow> string \<Rightarrow> ArchivedMessage list" where
  "archive_of s userJID = (case mamMessages s userJID of None \<Rightarrow> [] | Some msgs \<Rightarrow> msgs)"

definition ArchiveMessage :: "gotime \<Rightarrow> ArchivedMessage \<Rightarrow> MemStore writer" where
  "ArchiveMessage now msg s =
     (let cp = (if IsZero (am_CreatedAt msg) then msg\<lparr>am_CreatedAt := now\<rparr> else msg);
          n = (if am_ID msg = '''' then mamIDCounter s + 1 else mamIDCounter s);
          cp' = (if am_ID msg = '''' then cp\<lparr>am_ID := decimal n\<rparr> else cp)
      in (s\<lparr>mamIDCounter := n,
            mamMessages := (mamMessages s)(am_UserJID msg \<mapsto> archive_of s (am_UserJID msg) @ [cp'])\<rparr>, None))"

text \<open>The loop of \<open>QueryMessages\<close>; the flag is \<open>afterIDFound\<close>.\<close>

fun mam_filter :: "MAMQuery \<Rightarrow> bool \<Rightarrow> ArchivedMessage list \<Rightarrow> ArchivedMessage list" where
  "mam_filter q found [] = []"
| "mam_filter q found (msg # msgs) =
     (if \<not> found then mam_filter q (am_ID msg = q_AfterID q) msgs
      else if q_BeforeID q \<noteq> '''' \<and> am_ID msg = q_BeforeID q then []
      else if q_WithJID q \<noteq> '''' \<and> am_WithJID msg \<noteq> q_WithJID q then mam_filter q found msgs
      else if \<not> IsZero (q_Start q) \<and> am_CreatedAt msg < q_Start q then mam_filter q found msgs
      else if \<not> IsZero (q_End q) \<and> q_End q < am_CreatedAt msg then mam_filter q found msgs
      else msg # mam_filter q found msgs)"

definition mam_max :: "MAMQuery \<Rightarrow> nat" where
  "mam_max q = (if q_Max q \<le> 0 then 100 else nat (q_Max q))"

definition QueryMessages :: "MemStore \<Rightarrow> MAMQuery \<Rightarrow> MAMResult" where
  "QueryMessages s q =
     (let filtered = mam_filter q (q_AfterID q = '''') (archive_of s (q_UserJID q));
          complete = (length filtered \<le> mam_max q);
          page = (if length filtered > mam_max q then take (mam_max q) filtered else filtered)
      in \<lparr>mr_Messages = page, mr_Complete = complete,
          mr_First = (if page \<noteq> [] then am_ID (hd page) else ''''),
          mr_Last = (if page \<noteq> [] then am_ID (last page) else ''''), mr_Count = length page\<rparr>)"

definition DeleteMessageArchive :: "string \<Rightarrow> MemStore writer" where
  "DeleteMessageArchive userJID s = (s\<lparr>mamMessages := (mamMessages s)(userJID := None)\<rparr>, None)"

section \<open>MUCRoomStore\<close>

definition CreateRoom :: "MUCRoom \<Rightarrow> MemStore writer" where
  "CreateRoom room s =
     (if mucRooms s (room_RoomJID room) \<noteq> None then (s, Some ErrUserExists)
      else (s\<lparr>mucRooms := (mucRooms s)(room_RoomJID room \<mapsto> room)\<rparr>, None))"

definition GetRoom :: "MemStore \<Rightarrow> string \<Rightarrow> (storage_error, MUCRoom) result" where
  "GetRoom s roomJID = (case mucRooms s roomJID of None \<Rightarrow> Inl ErrNotFound | Some room \<Rightarrow> Inr room)"

definition UpdateRoom :: "MUCRoom \<Rightarrow> MemStore writer" where
  "UpdateRoom room s =
     (if mucRooms s (room_RoomJID room) = None then (s, Some ErrNotFound)
      else (s\<lparr>mucRooms := (mucRooms s)(room_RoomJID room \<mapsto> room)\<rparr>, None))"

definition DeleteRoom :: "string \<Rightarrow> MemStore writer" where
  "DeleteRoom roomJID s =
     (if mucRooms s roomJID = None then (s, Some ErrNotFound)
      else (s\<lparr>mucRooms := (mucRooms s)(roomJID := None),
              mucAffiliations := (mucAffiliations s)(roomJID := None)\<rparr>, None))"

definition ListRooms :: "string list \<Rightarrow> MemStore \<Rightarrow> MUCRoom list" where
  "ListRooms ks s = range_values ks (mucRooms s)"

definition SetAffiliation :: "MUCAffiliation \<Rightarrow> MemStore writer" where
  "SetAffiliation aff s =
     (s\<lparr>mucAffiliations := put2 (mucAffiliations s) (aff_RoomJID aff) (aff_UserJID aff) aff\<rparr>, None)"

definition GetAffiliation :: "MemStore \<Rightarrow> string \<times> string \<Rightarrow> (storage_error, MUCAffiliation) result" where
  "GetAffiliation s k =
     (case get2 (mucAffiliations s) (fst k) (snd k) of None \<Rightarrow> Inl ErrNotFound | Some aff \<Rightarrow> Inr aff)"

definition GetAffiliations :: "string list \<Rightarrow> MemStore \<Rightarrow> string \<Rightarrow> MUCAffiliation list" where
  "GetAffiliations ks s roomJID = range_values ks (inner (mucAffiliations s) roomJID)"

definition RemoveAffiliation :: "string \<times> string \<Rightarrow> MemStore writer" where
  "RemoveAffiliation k s = (s\<lparr>mucAffiliations := del2 (mucAffiliations s) (fst k) (snd k)\<rparr>, None)"

section \<open>PubSubStore\<close>

definition CreateNode :: "PubSubNode \<Rightarrow> MemStore writer" where
  "CreateNode node s =
     (let nodes = inner (pubsubNodes s) (node_Host node);
          s1 = s\<lparr>pubsubNodes := (pubsubNodes s)(node_Host node \<mapsto> nodes)\<rparr>
      in if nodes (node_NodeID node) \<noteq> None then (s1, Some ErrUserExists)
         else (s1\<lparr>pubsubNodes := put2 (pubsubNodes s1) (node_Host node) (node_NodeID node) node\<rparr>, None))"

definition GetNode :: "MemStore \<Rightarrow> string \<times> string \<Rightarrow> (storage_error, PubSubNode) result" where
  "GetNode s k =
     (case get2 (pubsubNodes s) (fst k) (snd k) of None \<Rightarrow> Inl ErrNotFound | Some node \<Rightarrow> Inr node)"

definition DeleteNode :: "string \<times> string \<Rightarrow> MemStore writer" where
  "DeleteNode k s =
     (if get2 (pubsubNodes s) (fst k) (snd k) = None then (s, Some ErrNotFound)
      else (s\<lparr>pubsubNodes := del2 (pubsubNodes s) (fst k) (snd k),
              pubsubItems := del2 (pubsubItems s) (fst k) (snd k),
              pubsubSubscriptions := del2 (pubsubSubscriptions s) (fst k) (snd k)\<rparr>, None))"

text \<open>
  The nodes are copied without their \<open>Config\<close> map, which the caller then shares with the store; the model
  is that of a caller who only reads it.
\<close>

definition ListNodes :: "string list \<Rightarrow> MemStore \<Rightarrow> string \<Rightarrow> PubSubNode list" where
  "ListNodes ks s host = range_values ks (inner (pubsubNodes s) host)"

definition get3 :: "('a \<rightharpoonup> 'b \<rightharpoonup> 'c \<rightharpoonup> 'v) \<Rightarrow> 'a \<Rightarrow> 'b \<Rightarrow> 'c \<Rightarrow> 'v option" where
  "get3 m a b c = (case get2 m a b of None \<Rightarrow> None | Some n \<Rightarrow> n c)"

definition put3 :: "('a \<rightharpoonup> 'b \<rightharpoonup> 'c \<rightharpoonup> 'v) \<Rightarrow> 'a \<Rightarrow> 'b \<Rightarrow> 'c \<Rightarrow> 'v \<Rightarrow> ('a \<rightharpoonup> 'b \<rightharpoonup> 'c \<rightharpoonup> 'v)" where
  "put3 m a b c v = put2 m a b ((inner (inner m a) b)(c \<mapsto> v))"

definition stamp_item :: "gotime \<Rightarrow> PubSubItem \<Rightarrow> PubSubItem" where
  "stamp_item now item = (if IsZero (item_CreatedAt item) then item\<lparr>item_CreatedAt := now\<rparr> else item)"

definition UpsertItem :: "gotime \<Rightarrow> PubSubItem \<Rightarrow> MemStore writer" where
  "UpsertItem now item s =
     (s\<lparr>pubsubItems :=
          put3 (pubsubItems s) (item_Host item) (item_NodeID item) (item_ItemID item) (stamp_item now item)\<rparr>, None)"

type_synonym key3 = "string \<times> string \<times> string"

definition GetItem :: "MemStore \<Rightarrow> key3 \<Rightarrow> (storage_error, PubSubItem) result" where
  "GetItem s k =
     (case get3 (pubsubItems s) (fst k) (fst (snd k)) (snd (snd k)) of
        None \<Rightarrow> Inl ErrNotFound | Some item \<Rightarrow> Inr item)"

text \<open>
  \<open>sort.Slice\<close> is not stable, but the loop before it already visits the items in an arbitrary order
  \<open>ks\<close>: the orders of equal time stamps are those of the orders \<open>ks\<close>.
\<close>

definition GetItems :: "string list \<Rightarrow> MemStore \<Rightarrow> string \<Rightarrow> string \<Rightarrow> PubSubItem list" where
  "GetItems ks s host nodeID =
     sort_key item_CreatedAt (range_values ks (inner (inner (pubsubItems s) host) nodeID))"

definition DeleteItem :: "key3 \<Rightarrow> MemStore writer" where
  "DeleteItem k s =
     (case get2 (pubsubItems s) (fst k) (fst (snd k)) of
        None \<Rightarrow> (s, Some ErrNotFound)
      | Some nodeItems \<Rightarrow>
          if nodeItems (snd (snd k)) = None then (s, Some ErrNotFound)
          else (s\<lparr>pubsubItems :=
                    put2 (pubsubItems s) (fst k) (fst (snd k)) (nodeItems(snd (snd k) := None))\<rparr>, None))"

definition Subscribe :: "PubSubSubscription \<Rightarrow> MemStore writer" where
  "Subscribe sub s =
     (s\<lparr>pubsubSubscriptions := put3 (pubsubSubscriptions s) (sub_Host sub) (sub_NodeID sub) (sub_JID sub) sub\<rparr>, None)"

definition Unsubscribe :: "key3 \<Rightarrow> MemStore writer" where
  "Unsubscribe k s =
     (case get2 (pubsubSubscriptions s) (fst k) (fst (snd k)) of
        None \<Rightarrow> (s, None)
      | Some nodeSubs \<Rightarrow>
          (s\<lparr>pubsubSubscriptions :=
               put2 (pubsubSubscriptions s) (fst k) (fst (snd k)) (nodeSubs(snd (snd k) := None))\<rparr>, None))"

definition GetSubscription :: "MemStore \<Rightarrow> key3 \<Rightarrow> (storage_error, PubSubSubscription) result" where
  "GetSubscription s k =
     (case get3 (pubsubSubscriptions s) (fst k) (fst (snd k)) (snd (snd k)) of
        None \<Rightarrow> Inl ErrNotFound | Some sub \<Rightarrow> Inr sub)"

definition GetSubscriptions :: "string list \<Rightarrow> MemStore \<Rightarrow> string \<Rightarrow> string \<Rightarrow> PubSubSubscription list" where
  "GetSubscriptions ks s host nodeID = range_values ks (inner (inner (pubsubSubscriptions s) host) nodeID)"

text \<open>\<open>ks\<close> are the nodes of the host in the order of the loop.\<close>

definition GetUserSubscriptions :: "string list \<Rightarrow> MemStore \<Rightarrow> string \<Rightarrow> string \<Rightarrow> PubSubSubscription list" where
  "GetUserSubscriptions ks s host jid =
     range_values ks (\<lambda>nodeID. get3 (pubsubSubscriptions s) host nodeID jid)"

section \<open>BookmarkStore\<close>

definition SetBookmark :: "Bookmark \<Rightarrow> MemStore writer" where
  "SetBookmark bm s = (s\<lparr>bookmarks := put2 (bookmarks s) (bm_UserJID bm) (bm_RoomJID bm) bm\<rparr>, None)"

definition GetBookmark :: "MemStore \<Rightarrow> string \<times> string \<Rightarrow> (storage_error, Bookmark) result" where
  "GetBookmark s k =
     (case get2 (bookmarks s) (fst k) (snd k) of None \<Rightarrow> Inl ErrNotFound | Some bm \<Rightarrow> Inr bm)"

definition GetBookmarks :: "string list \<Rightarrow> MemStore \<Rightarrow> string \<Rightarrow> Bookmark list" where
  "GetBookmarks ks s userJID = range_values ks (inner (bookmarks s) userJID)"

definition DeleteBookmark :: "string \<times> string \<Rightarrow> MemStore writer" where
  "DeleteBookmark k s =
     (if get2 (bookmarks s) (fst k) (snd k) = None then (s, Some ErrNotFound)
      else (s\<lparr>bookmarks := del2 (bookmarks s) (fst k) (snd k)\<rparr>, None))"

section \<open>The contracts hold\<close>

lemma inner_inner: "inner (inner m a) b c = get3 m a b c"
  by (simp add: inner_def get3_def get2_def split: option.splits)

lemma get3_empty [simp]: "get3 Map.empty a b c = None"
  by (simp add: get3_def)

lemma get3_put2 [simp]: "get3 (put2 m a b n) x y z = (if x = a \<and> y = b then n z else get3 m x y z)"
  by (simp add: get3_def)

lemma get3_put3 [simp]:
  "get3 (put3 m a b c v) x y z = (if x = a \<and> y = b \<and> z = c then Some v else get3 m x y z)"
  by (auto simp: put3_def inner_inner)

lemma get3_del2 [simp]: "get3 (del2 m a b) x y z = (if x = a \<and> y = b then None else get3 m x y z)"
  by (simp add: get3_def)

lemma DeleteItem_effect:
  "get3 (pubsubItems (fst (DeleteItem k s))) a b c =
     (if (a, b, c) = k then None else get3 (pubsubItems s) a b c)"
  "snd (DeleteItem k s) =
     (if get3 (pubsubItems s) (fst k) (fst (snd k)) (snd (snd k)) = None then Some ErrNotFound else None)"
  by (cases k, auto simp: DeleteItem_def get3_def split: option.splits)+

lemma Unsubscribe_effect:
  "get3 (pubsubSubscriptions (fst (Unsubscribe k s))) a b c =
     (if (a, b, c) = k then None else get3 (pubsubSubscriptions s) a b c)"
  "snd (Unsubscribe k s) = None"
  by (cases k, auto simp: Unsubscribe_def get3_def split: option.splits)+

interpretation roster: upsert_store GetRosterItem UpsertRosterItem DeleteRosterItem
  "\<lambda>item. (ri_UserJID item, ri_ContactJID item)" "\<lambda>item. item"
  by unfold_locales
    (auto simp: GetRosterItem_def UpsertRosterItem_def DeleteRosterItem_def get2_def put2_def inner_def
      split: option.splits if_splits)

interpretation affiliation: upsert_store GetAffiliation SetAffiliation RemoveAffiliation
  "\<lambda>aff. (aff_RoomJID aff, aff_UserJID aff)" "\<lambda>aff. aff"
  by unfold_locales
    (auto simp: GetAffiliation_def SetAffiliation_def RemoveAffiliation_def split: option.splits if_splits)

interpretation bookmark: upsert_store GetBookmark SetBookmark DeleteBookmark
  "\<lambda>bm. (bm_UserJID bm, bm_RoomJID bm)" "\<lambda>bm. bm"
  by unfold_locales
    (auto simp: GetBookmark_def SetBookmark_def DeleteBookmark_def split: option.splits if_splits)

interpretation item: upsert_store GetItem "UpsertItem now" DeleteItem
  "\<lambda>item. (item_Host item, item_NodeID item, item_ItemID item)" "stamp_item now" for now
proof unfold_locales
  fix x s s' k
  assume "DeleteItem x s = (s', None)"
  then have "s' = fst (DeleteItem x s)" by simp
  then show "GetItem s' k = (if k = x then Inl ErrNotFound else GetItem s k)"
    by (cases k) (auto simp: GetItem_def DeleteItem_effect)
next
  fix x s s' e k
  assume "DeleteItem x s = (s', Some e)"
  then have "s' = fst (DeleteItem x s)" "snd (DeleteItem x s) = Some e" by simp_all
  then show "GetItem s x = Inl ErrNotFound \<and> GetItem s' k = GetItem s k"
    by (cases k) (auto simp: GetItem_def DeleteItem_effect split: if_splits)
qed (auto simp: GetItem_def UpsertItem_def split: option.splits if_splits)

interpretation subscription: upsert_store GetSubscription Subscribe Unsubscribe
  "\<lambda>sub. (sub_Host sub, sub_NodeID sub, sub_JID sub)" "\<lambda>sub. sub"
proof unfold_locales
  fix x s s' k
  assume "Unsubscribe x s = (s', None)"
  then have "s' = fst (Unsubscribe x s)" by simp
  then show "GetSubscription s' k = (if k = x then Inl ErrNotFound else GetSubscription s k)"
    by (cases k) (auto simp: GetSubscription_def Unsubscribe_effect)
next
  fix x s s' e k
  assume "Unsubscribe x s = (s', Some e)"
  then show "GetSubscription s x = Inl ErrNotFound \<and> GetSubscription s' k = GetSubscription s k"
    using Unsubscribe_effect(2) [of x s] by simp
qed (auto simp: GetSubscription_def Subscribe_def split: option.splits if_splits)

interpretation user: create_store GetUser "CreateUser now" DeleteUser u_Username
  "\<lambda>u. u\<lparr>u_CreatedAt := now, u_UpdatedAt := now\<rparr>" for now
  by unfold_locales
    (auto simp: GetUser_def CreateUser_def DeleteUser_def split: option.splits if_splits)

interpretation room: create_store GetRoom CreateRoom DeleteRoom room_RoomJID "\<lambda>room. room"
  by unfold_locales
    (auto simp: GetRoom_def CreateRoom_def DeleteRoom_def split: option.splits if_splits)

interpretation node: create_store GetNode CreateNode DeleteNode
  "\<lambda>node. (node_Host node, node_NodeID node)" "\<lambda>node. node"
  by unfold_locales
    (auto simp: GetNode_def CreateNode_def DeleteNode_def Let_def get2_def put2_def inner_def del2_def
      split: option.splits if_splits)

end
