(* ===== verification/StorageFile.thy ===== *)
theory StorageFile
  imports StorageMemory "HOL-Library.Char_ord" "HOL-Library.List_Lexorder"
begin

text \<open>
  Package \<open>file\<close> (storage/file/file.go), the implementation of the storage interfaces on JSON files.  The
  state is the part of the file system below \<open>baseDir\<close>: one directory per table, each a map from file names
  to contents, or \<open>None\<close> while it does not exist; beside it the package variable \<open>mamCounter\<close>, which is
  process memory.  A directory only ever holds documents of one type, so the contents of a file is the
  value that was encoded; this is exact for the values the program stores (strings in UTF-8, as the XML
  decoder delivers them, and times of four-digit years).  The file system refuses names as Linux does: a
  missing directory, a name with a NUL byte, a name of more than 255 bytes.  \<open>now\<close> is what \<open>time.Now\<close>
  returned, \<open>ks\<close> the order in which a loop visits the keys of a map, \<open>es\<close> what \<open>os.ReadDir\<close> returned.
\<close>

section \<open>Package os\<close>

datatype os_error = ENOENT | ENAMETOOLONG | EINVAL

type_synonym 'd dir = "(string \<rightharpoonup> 'd) option"

definition errno :: "os_error \<Rightarrow> string" where
  "errno e =
     (case e of ENOENT \<Rightarrow> ''no such file or directory'' | ENAMETOOLONG \<Rightarrow> ''file name too long''
      | EINVAL \<Rightarrow> ''invalid argument'')"

text \<open>The entry of a directory that a path names: the error of looking it up, or the file if there is one.\<close>

definition os_entry :: "'d dir \<Rightarrow> string \<Rightarrow> (os_error, 'd option) result" where
  "os_entry d name =
     (if CHR 0x00 \<in> set name then Inl EINVAL
      else case d of
        None \<Rightarrow> Inl ENOENT
      | Some m \<Rightarrow> if 255 < length name then Inl ENAMETOOLONG else Inr (m name))"

definition os_ReadFile :: "'d dir \<Rightarrow> string \<Rightarrow> (os_error, 'd) result" where
  "os_ReadFile d name =
     (case os_entry d name of
        Inl e \<Rightarrow> Inl e
      | Inr None \<Rightarrow> Inl ENOENT
      | Inr (Some v) \<Rightarrow> Inr v)"

definition os_WriteFile :: "string \<Rightarrow> 'd \<Rightarrow> 'd dir \<Rightarrow> 'd dir \<times> os_error option" where
  "os_WriteFile name v d =
     (case os_entry d name of
        Inl e \<Rightarrow> (d, Some e)
      | Inr _ \<Rightarrow> (map_option (\<lambda>m. m(name \<mapsto> v)) d, None))"

definition os_Remove :: "string \<Rightarrow> 'd dir \<Rightarrow> 'd dir \<times> os_error option" where
  "os_Remove name d =
     (case os_entry d name of
        Inl e \<Rightarrow> (d, Some e)
      | Inr None \<Rightarrow> (d, Some ENOENT)
      | Inr (Some _) \<Rightarrow> (map_option (\<lambda>m. m(name := None)) d, None))"

text \<open>What \<open>os.ReadDir\<close> may return: the names of the directory's files in the order of their bytes.\<close>

definition ReadDir_returns :: "'d dir \<Rightarrow> string list \<Rightarrow> bool" where
  "ReadDir_returns d es \<longleftrightarrow> (case d of None \<Rightarrow> False | Some m \<Rightarrow> sorted es \<and> enumerates es m)"

section \<open>State and file helpers\<close>

record rosterFile =
  rf_Items :: "(string \<rightharpoonup> RosterItem) option"

record FileStore =
  d_users :: "User dir"
  d_roster :: "rosterFile dir"
  d_roster_versions :: "string dir"
  d_blocking :: "(string \<rightharpoonup> bool) dir"
  d_vcards :: "bytes dir"
  d_offline :: "OfflineMessage list dir"
  d_mam :: "ArchivedMessage list dir"
  d_muc_rooms :: "MUCRoom dir"
  d_muc_affiliations :: "(string \<rightharpoonup> MUCAffiliation) dir"
  d_pubsub_nodes :: "PubSubNode dir"
  d_pubsub_items :: "(string \<rightharpoonup> PubSubItem) dir"
  d_pubsub_subscriptions :: "(string \<rightharpoonup> PubSubSubscription) dir"
  d_bookmarks :: "(string \<rightharpoonup> Bookmark) dir"
  mamCounter :: "64 word"

text \<open>A process that starts on an empty \<open>baseDir\<close>.\<close>

definition empty_disk :: FileStore where
  "empty_disk =
     \<lparr>d_users = None, d_roster = None, d_roster_versions = None, d_blocking = None, d_vcards = None,
      d_offline = None, d_mam = None, d_muc_rooms = None, d_muc_affiliations = None, d_pubsub_nodes = None,
      d_pubsub_items = None, d_pubsub_subscriptions = None, d_bookmarks = None, mamCounter = 0\<rparr>"

definition os_MkdirAll :: "'d dir \<Rightarrow> 'd dir" where
  "os_MkdirAll d = (case d of None \<Rightarrow> Some Map.empty | Some m \<Rightarrow> Some m)"

definition file_Init :: "FileStore \<Rightarrow> FileStore \<times> storage_error option" where
  "file_Init f =
     (f\<lparr>d_users := os_MkdirAll (d_users f), d_roster := os_MkdirAll (d_roster f),
        d_roster_versions := os_MkdirAll (d_roster_versions f), d_blocking := os_MkdirAll (d_blocking f),
        d_vcards := os_MkdirAll (d_vcards f), d_offline := os_MkdirAll (d_offline f),
        d_mam := os_MkdirAll (d_mam f), d_muc_rooms := os_MkdirAll (d_muc_rooms f),
        d_muc_affiliations := os_MkdirAll (d_muc_affiliations f),
        d_pubsub_nodes := os_MkdirAll (d_pubsub_nodes f), d_pubsub_items := os_MkdirAll (d_pubsub_items f),
        d_pubsub_subscriptions := os_MkdirAll (d_pubsub_subscriptions f),
        d_bookmarks := os_MkdirAll (d_bookmarks f)\<rparr>, None)"

text \<open>An error of the file system that is passed on as it is.\<close>

definition os_failure :: "os_error option \<Rightarrow> storage_error option" where
  "os_failure e = map_option (\<lambda>e. BackendError (errno e)) e"

definition writeJSON :: "string \<Rightarrow> 'd \<Rightarrow> 'd dir \<Rightarrow> 'd dir \<times> storage_error option" where
  "writeJSON name v d = (case os_WriteFile name v d of (d', e) \<Rightarrow> (d', os_failure e))"

definition readJSON :: "'d dir \<Rightarrow> string \<Rightarrow> (storage_error, 'd) result" where
  "readJSON d name =
     (case os_ReadFile d name of
        Inl e \<Rightarrow> if e = ENOENT then Inl ErrNotFound else Inl (BackendError (errno e))
      | Inr v \<Rightarrow> Inr v)"

definition file_exists :: "'d dir \<Rightarrow> string \<Rightarrow> bool" where
  "file_exists d name = (case os_entry d name of Inl _ \<Rightarrow> False | Inr r \<Rightarrow> r \<noteq> None)"

definition remove_file :: "string \<Rightarrow> 'd dir \<Rightarrow> 'd dir \<times> storage_error option" where
  "remove_file name d = (case os_Remove name d of (d', e) \<Rightarrow> (d', os_failure e))"

definition unsafe_char :: "char \<Rightarrow> bool" where
  "unsafe_char c \<longleftrightarrow> c \<in> set ''/:*?<>|'' \<or> c = CHR 0x5C \<or> c = CHR 0x22"

definition safeFileName :: "string \<Rightarrow> string" where
  "safeFileName name = map (\<lambda>c. if unsafe_char c then CHR ''_'' else c) name"

definition json_name :: "string \<Rightarrow> string" where
  "json_name name = safeFileName name @ ''.json''"

section \<open>UserStore\<close>

definition file_CreateUser :: "gotime \<Rightarrow> User \<Rightarrow> FileStore writer" where
  "file_CreateUser now user f =
     (let p = json_name (u_Username user)
      in if file_exists (d_users f) p then (f, Some ErrUserExists)
         else (case writeJSON p (user\<lparr>u_CreatedAt := now, u_UpdatedAt := now\<rparr>) (d_users f) of
                 (d, e) \<Rightarrow> (f\<lparr>d_users := d\<rparr>, e)))"

definition file_GetUser :: "FileStore \<Rightarrow> string \<Rightarrow> (storage_error, User) result" where
  "file_GetUser f username = readJSON (d_users f) (json_name username)"

definition file_UpdateUser :: "gotime \<Rightarrow> User \<Rightarrow> FileStore writer" where
  "file_UpdateUser now user f =
     (let p = json_name (u_Username user)
      in if \<not> file_exists (d_users f) p then (f, Some ErrNotFound)
         else (case writeJSON p (user\<lparr>u_UpdatedAt := now\<rparr>) (d_users f) of (d, e) \<Rightarrow> (f\<lparr>d_users := d\<rparr>, e)))"

definition file_DeleteUser :: "string \<Rightarrow> FileStore writer" where
  "file_DeleteUser username f =
     (let p = json_name username
      in if \<not> file_exists (d_users f) p then (f, Some ErrNotFound)
         else (case remove_file p (d_users f) of (d, e) \<Rightarrow> (f\<lparr>d_users := d\<rparr>, e)))"

definition file_UserExists :: "FileStore \<Rightarrow> string \<Rightarrow> (storage_error, bool) result" where
  "file_UserExists f username = Inr (file_exists (d_users f) (json_name username))"

definition file_Authenticate :: "FileStore \<Rightarrow> string \<Rightarrow> string \<Rightarrow> bool \<times> storage_error option" where
  "file_Authenticate f username password =
     (case readJSON (d_users f) (json_name username) of
        Inl _ \<Rightarrow> (False, Some ErrAuthFailed)
      | Inr u \<Rightarrow> if u_Password u \<noteq> password then (False, Some ErrAuthFailed) else (True, None))"

section \<open>RosterStore\<close>

definition loadRoster :: "FileStore \<Rightarrow> string \<Rightarrow> (storage_error, string \<rightharpoonup> RosterItem) result" where
  "loadRoster f userJID =
     (case readJSON (d_roster f) (json_name userJID) of
        Inl e \<Rightarrow> if e = ErrNotFound then Inr Map.empty else Inl e
      | Inr rf \<Rightarrow> (case rf_Items rf of None \<Rightarrow> Inr Map.empty | Some m \<Rightarrow> Inr m))"

definition saveRoster :: "string \<Rightarrow> (string \<rightharpoonup> RosterItem) \<Rightarrow> FileStore writer" where
  "saveRoster userJID items f =
     (case writeJSON (json_name userJID) \<lparr>rf_Items = Some items\<rparr> (d_roster f) of (d, e) \<Rightarrow> (f\<lparr>d_roster := d\<rparr>, e))"

definition file_UpsertRosterItem :: "RosterItem \<Rightarrow> FileStore writer" where
  "file_UpsertRosterItem item f =
     (case loadRoster f (ri_UserJID item) of
        Inl e \<Rightarrow> (f, Some e)
      | Inr m \<Rightarrow> saveRoster (ri_UserJID item) (m(ri_ContactJID item \<mapsto> item)) f)"

definition file_GetRosterItem :: "FileStore \<Rightarrow> string \<times> string \<Rightarrow> (storage_error, RosterItem) result" where
  "file_GetRosterItem f k = bind_result (loadRoster f (fst k)) (\<lambda>m. lookup_result (m (snd k)))"

definition file_GetRosterItems :: "string list \<Rightarrow> FileStore \<Rightarrow> string \<Rightarrow> (storage_error, RosterItem list) result" where
  "file_GetRosterItems ks f userJID = bind_result (loadRoster f userJID) (\<lambda>m. Inr (range_values ks m))"

definition file_DeleteRosterItem :: "string \<times> string \<Rightarrow> FileStore writer" where
  "file_DeleteRosterItem k f =
     (case loadRoster f (fst k) of
        Inl e \<Rightarrow> (f, Some e)
      | Inr m \<Rightarrow>
          if m (snd k) = None then (f, Some ErrNotFound) else saveRoster (fst k) (m(snd k := None)) f)"

definition file_GetRosterVersion :: "FileStore \<Rightarrow> string \<Rightarrow> (storage_error, string) result" where
  "file_GetRosterVersion f userJID =
     (case readJSON (d_roster_versions f) (json_name userJID) of
        Inl e \<Rightarrow> if e = ErrNotFound then Inr '''' else Inl e
      | Inr ver \<Rightarrow> Inr ver)"

definition file_SetRosterVersion :: "string \<Rightarrow> string \<Rightarrow> FileStore writer" where
  "file_SetRosterVersion userJID version f =
     (case writeJSON (json_name userJID) version (d_roster_versions f) of
        (d, e) \<Rightarrow> (f\<lparr>d_roster_versions := d\<rparr>, e))"

section \<open>BlockingStore\<close>

text \<open>The \<open>load\<close> functions answer a missing file with an empty value.\<close>

definition load_or :: "'d \<Rightarrow> 'd dir \<Rightarrow> string \<Rightarrow> (storage_error, 'd) result" where
  "load_or none d name =
     (case readJSON d name of
        Inl e \<Rightarrow> if e = ErrNotFound then Inr none else Inl e
      | Inr v \<Rightarrow> Inr v)"

definition loadBlocked :: "FileStore \<Rightarrow> string \<Rightarrow> (storage_error, string \<rightharpoonup> bool) result" where
  "loadBlocked f userJID = load_or Map.empty (d_blocking f) (json_name userJID)"

definition saveBlocked :: "string \<Rightarrow> (string \<rightharpoonup> bool) \<Rightarrow> FileStore writer" where
  "saveBlocked userJID m f =
     (case writeJSON (json_name userJID) m (d_blocking f) of (d, e) \<Rightarrow> (f\<lparr>d_blocking := d\<rparr>, e))"

definition file_BlockJID :: "string \<Rightarrow> string \<Rightarrow> FileStore writer" where
  "file_BlockJID userJID blockedJID f =
     (case loadBlocked f userJID of
        Inl e \<Rightarrow> (f, Some e)
      | Inr m \<Rightarrow> saveBlocked userJID (m(blockedJID \<mapsto> True)) f)"

definition file_UnblockJID :: "string \<Rightarrow> string \<Rightarrow> FileStore writer" where
  "file_UnblockJID userJID blockedJID f =
     (case loadBlocked f userJID of
        Inl e \<Rightarrow> (f, Some e)
      | Inr m \<Rightarrow> saveBlocked userJID (m(blockedJID := None)) f)"

definition file_IsBlocked :: "FileStore \<Rightarrow> string \<Rightarrow> string \<Rightarrow> (storage_error, bool) result" where
  "file_IsBlocked f userJID blockedJID =
     bind_result (loadBlocked f userJID) (\<lambda>m. Inr (case m blockedJID of None \<Rightarrow> False | Some b \<Rightarrow> b))"

definition file_GetBlockedJIDs :: "string list \<Rightarrow> FileStore \<Rightarrow> string \<Rightarrow> (storage_error, string list) result" where
  "file_GetBlockedJIDs ks f userJID =
     bind_result (loadBlocked f userJID) (\<lambda>m. Inr (filter (\<lambda>jid. m jid \<noteq> None) ks))"

section \<open>VCardStore\<close>

definition xml_name :: "string \<Rightarrow> string" where
  "xml_name name = safeFileName name @ ''.xml''"

definition file_SetVCard :: "string \<Rightarrow> bytes \<Rightarrow> FileStore writer" where
  "file_SetVCard userJID data f =
     (case os_WriteFile (xml_name userJID) data (d_vcards f) of (d, e) \<Rightarrow> (f\<lparr>d_vcards := d\<rparr>, os_failure e))"

definition file_GetVCard :: "FileStore \<Rightarrow> string \<Rightarrow> (storage_error, bytes) result" where
  "file_GetVCard f userJID =
     (case os_ReadFile (d_vcards f) (xml_name userJID) of
        Inl e \<Rightarrow> if e = ENOENT then Inl ErrNotFound else Inl (BackendError (errno e))
      | Inr data \<Rightarrow> Inr data)"

definition file_DeleteVCard :: "string \<Rightarrow> FileStore writer" where
  "file_DeleteVCard userJID f =
     (let p = xml_name userJID
      in if \<not> file_exists (d_vcards f) p then (f, Some ErrNotFound)
         else (case remove_file p (d_vcards f) of (d, e) \<Rightarrow> (f\<lparr>d_vcards := d\<rparr>, e)))"

section \<open>OfflineStore\<close>

definition loadOffline :: "FileStore \<Rightarrow> string \<Rightarrow> (storage_error, OfflineMessage list) result" where
  "loadOffline f userJID = load_or [] (d_offline f) (json_name userJID)"

definition file_StoreOfflineMessage :: "gotime \<Rightarrow> OfflineMessage \<Rightarrow> FileStore writer" where
  "file_StoreOfflineMessage now msg f =
     (case loadOffline f (off_UserJID msg) of
        Inl e \<Rightarrow> (f, Some e)
      | Inr msgs \<Rightarrow>
          let cp = (if IsZero (off_CreatedAt msg) then msg\<lparr>off_CreatedAt := now\<rparr> else msg)
          in (case writeJSON (json_name (off_UserJID msg)) (msgs @ [cp]) (d_offline f) of
                (d, e) \<Rightarrow> (f\<lparr>d_offline := d\<rparr>, e)))"

definition file_GetOfflineMessages :: "FileStore \<Rightarrow> string \<Rightarrow> (storage_error, OfflineMessage list) result" where
  "file_GetOfflineMessages f userJID = loadOffline f userJID"

definition file_DeleteOfflineMessages :: "string \<Rightarrow> FileStore writer" where
  "file_DeleteOfflineMessages userJID f =
     (let p = json_name userJID
      in if \<not> file_exists (d_offline f) p then (f, None)
         else (case remove_file p (d_offline f) of (d, e) \<Rightarrow> (f\<lparr>d_offline := d\<rparr>, e)))"

definition file_CountOfflineMessages :: "FileStore \<Rightarrow> string \<Rightarrow> (storage_error, nat) result" where
  "file_CountOfflineMessages f userJID = bind_result (loadOffline f userJID) (\<lambda>msgs. Inr (length msgs))"

section \<open>MAMStore\<close>

definition loadMAM :: "FileStore \<Rightarrow> string \<Rightarrow> (storage_error, ArchivedMessage list) result" where
  "loadMAM f userJID = load_or [] (d_mam f) (json_name userJID)"

text \<open>The counter has moved on also when the write fails.\<close>

definition file_ArchiveMessage :: "gotime \<Rightarrow> ArchivedMessage \<Rightarrow> FileStore writer" where
  "file_ArchiveMessage now msg f =
     (case loadMAM f (am_UserJID msg) of
        Inl e \<Rightarrow> (f, Some e)
      | Inr msgs \<Rightarrow>
          let cp = (if IsZero (am_CreatedAt msg) then msg\<lparr>am_CreatedAt := now\<rparr> else msg);
              n = (if am_ID msg = '''' then mamCounter f + 1 else mamCounter f);
              cp' = (if am_ID msg = '''' then cp\<lparr>am_ID := decimal n\<rparr> else cp)
          in (case writeJSON (json_name (am_UserJID msg)) (msgs @ [cp']) (d_mam f) of
                (d, e) \<Rightarrow> (f\<lparr>mamCounter := n, d_mam := d\<rparr>, e)))"

text \<open>The loop over the archive is, word for word, that of the in-memory store.\<close>

definition file_QueryMessages :: "FileStore \<Rightarrow> MAMQuery \<Rightarrow> (storage_error, MAMResult) result" where
  "file_QueryMessages f q =
     bind_result (loadMAM f (q_UserJID q)) (\<lambda>msgs.
       let filtered = mam_filter q (q_AfterID q = '''') msgs;
           complete = (length filtered \<le> mam_max q);
           page = (if length filtered > mam_max q then take (mam_max q) filtered else filtered)
       in Inr \<lparr>mr_Messages = page, mr_Complete = complete,
               mr_First = (if page \<noteq> [] then am_ID (hd page) else ''''),
               mr_Last = (if page \<noteq> [] then am_ID (last page) else ''''), mr_Count = length page\<rparr>)"

definition file_DeleteMessageArchive :: "string \<Rightarrow> FileStore writer" where
  "file_DeleteMessageArchive userJID f =
     (let p = json_name userJID
      in if \<not> file_exists (d_mam f) p then (f, None)
         else (case remove_file p (d_mam f) of (d, e) \<Rightarrow> (f\<lparr>d_mam := d\<rparr>, e)))"

section \<open>MUCRoomStore\<close>

definition file_CreateRoom :: "MUCRoom \<Rightarrow> FileStore writer" where
  "file_CreateRoom room f =
     (let p = json_name (room_RoomJID room)
      in if file_exists (d_muc_rooms f) p then (f, Some ErrUserExists)
         else (case writeJSON p room (d_muc_rooms f) of (d, e) \<Rightarrow> (f\<lparr>d_muc_rooms := d\<rparr>, e)))"

definition file_GetRoom :: "FileStore \<Rightarrow> string \<Rightarrow> (storage_error, MUCRoom) result" where
  "file_GetRoom f roomJID = readJSON (d_muc_rooms f) (json_name roomJID)"

definition file_UpdateRoom :: "MUCRoom \<Rightarrow> FileStore writer" where
  "file_UpdateRoom room f =
     (let p = json_name (room_RoomJID room)
      in if \<not> file_exists (d_muc_rooms f) p then (f, Some ErrNotFound)
         else (case writeJSON p room (d_muc_rooms f) of (d, e) \<Rightarrow> (f\<lparr>d_muc_rooms := d\<rparr>, e)))"

definition file_DeleteRoom :: "string \<Rightarrow> FileStore writer" where
  "file_DeleteRoom roomJID f =
     (let p = json_name roomJID
      in if \<not> file_exists (d_muc_rooms f) p then (f, Some ErrNotFound)
         else let f1 = f\<lparr>d_muc_affiliations := fst (os_Remove (json_name roomJID) (d_muc_affiliations f))\<rparr>
              in (case remove_file p (d_muc_rooms f1) of (d, e) \<Rightarrow> (f1\<lparr>d_muc_rooms := d\<rparr>, e)))"

text \<open>A file that cannot be read is passed over.\<close>

definition read_entries :: "'d dir \<Rightarrow> string list \<Rightarrow> 'd list" where
  "read_entries d es = List.map_filter (\<lambda>name. case readJSON d name of Inl _ \<Rightarrow> None | Inr v \<Rightarrow> Some v) es"

definition file_ListRooms :: "string list \<Rightarrow> FileStore \<Rightarrow> (storage_error, MUCRoom list) result" where
  "file_ListRooms es f =
     (case d_muc_rooms f of
        None \<Rightarrow> Inl (BackendError (errno ENOENT))
      | Some _ \<Rightarrow> Inr (read_entries (d_muc_rooms f) es))"

definition loadAffs :: "FileStore \<Rightarrow> string \<Rightarrow> (storage_error, string \<rightharpoonup> MUCAffiliation) result" where
  "loadAffs f roomJID = load_or Map.empty (d_muc_affiliations f) (json_name roomJID)"

definition saveAffs :: "string \<Rightarrow> (string \<rightharpoonup> MUCAffiliation) \<Rightarrow> FileStore writer" where
  "saveAffs roomJID affs f =
     (case writeJSON (json_name roomJID) affs (d_muc_affiliations f) of (d, e) \<Rightarrow> (f\<lparr>d_muc_affiliations := d\<rparr>, e))"

definition file_SetAffiliation :: "MUCAffiliation \<Rightarrow> FileStore writer" where
  "file_SetAffiliation aff f =
     (case loadAffs f (aff_RoomJID aff) of
        Inl e \<Rightarrow> (f, Some e)
      | Inr m \<Rightarrow> saveAffs (aff_RoomJID aff) (m(aff_UserJID aff \<mapsto> aff)) f)"

definition file_GetAffiliation :: "FileStore \<Rightarrow> string \<times> string \<Rightarrow> (storage_error, MUCAffiliation) result" where
  "file_GetAffiliation f k = bind_result (loadAffs f (fst k)) (\<lambda>m. lookup_result (m (snd k)))"

definition file_GetAffiliations :: "string list \<Rightarrow> FileStore \<Rightarrow> string \<Rightarrow> (storage_error, MUCAffiliation list) result" where
  "file_GetAffiliations ks f roomJID = bind_result (loadAffs f roomJID) (\<lambda>m. Inr (range_values ks m))"

definition file_RemoveAffiliation :: "string \<times> string \<Rightarrow> FileStore writer" where
  "file_RemoveAffiliation k f =
     (case loadAffs f (fst k) of
        Inl e \<Rightarrow> (f, Some e)
      | Inr m \<Rightarrow> saveAffs (fst k) (m(snd k := None)) f)"

section \<open>PubSubStore\<close>

definition pubsub_name :: "string \<times> string \<Rightarrow> string" where
  "pubsub_name k = safeFileName (fst k) @ ''_'' @ safeFileName (snd k) @ ''.json''"

definition file_CreateNode :: "PubSubNode \<Rightarrow> FileStore writer" where
  "file_CreateNode node f =
     (let p = pubsub_name (node_Host node, node_NodeID node)
      in if file_exists (d_pubsub_nodes f) p then (f, Some ErrUserExists)
         else (case writeJSON p node (d_pubsub_nodes f) of (d, e) \<Rightarrow> (f\<lparr>d_pubsub_nodes := d\<rparr>, e)))"

definition file_GetNode :: "FileStore \<Rightarrow> string \<times> string \<Rightarrow> (storage_error, PubSubNode) result" where
  "file_GetNode f k = readJSON (d_pubsub_nodes f) (pubsub_name k)"

definition file_DeleteNode :: "string \<times> string \<Rightarrow> FileStore writer" where
  "file_DeleteNode k f =
     (let p = pubsub_name k
      in if \<not> file_exists (d_pubsub_nodes f) p then (f, Some ErrNotFound)
         else let f1 = f\<lparr>d_pubsub_items := fst (os_Remove (pubsub_name k) (d_pubsub_items f))\<rparr>;
                  f2 = f1\<lparr>d_pubsub_subscriptions := fst (os_Remove (pubsub_name k) (d_pubsub_subscriptions f1))\<rparr>
              in (case remove_file p (d_pubsub_nodes f2) of (d, e) \<Rightarrow> (f2\<lparr>d_pubsub_nodes := d\<rparr>, e)))"

text \<open>The files of a host are those whose names start with it.\<close>

definition host_entry :: "string \<Rightarrow> string \<Rightarrow> bool" where
  "host_entry host name \<longleftrightarrow>
     (let pre = safeFileName host @ ''_'' in length pre < length name \<and> take (length pre) name = pre)"

definition file_ListNodes :: "string list \<Rightarrow> FileStore \<Rightarrow> string \<Rightarrow> (storage_error, PubSubNode list) result" where
  "file_ListNodes es f host =
     (case d_pubsub_nodes f of
        None \<Rightarrow> Inl (BackendError (errno ENOENT))
      | Some _ \<Rightarrow> Inr (read_entries (d_pubsub_nodes f) (filter (host_entry host) es)))"

definition loadPubsubItems :: "FileStore \<Rightarrow> string \<times> string \<Rightarrow> (storage_error, string \<rightharpoonup> PubSubItem) result" where
  "loadPubsubItems f k = load_or Map.empty (d_pubsub_items f) (pubsub_name k)"

definition saveItems :: "string \<times> string \<Rightarrow> (string \<rightharpoonup> PubSubItem) \<Rightarrow> FileStore writer" where
  "saveItems k items f =
     (case writeJSON (pubsub_name k) items (d_pubsub_items f) of (d, e) \<Rightarrow> (f\<lparr>d_pubsub_items := d\<rparr>, e))"

definition file_UpsertItem :: "gotime \<Rightarrow> PubSubItem \<Rightarrow> FileStore writer" where
  "file_UpsertItem now item f =
     (case loadPubsubItems f (item_Host item, item_NodeID item) of
        Inl e \<Rightarrow> (f, Some e)
      | Inr m \<Rightarrow> saveItems (item_Host item, item_NodeID item) (m(item_ItemID item \<mapsto> stamp_item now item)) f)"

definition file_GetItem :: "FileStore \<Rightarrow> key3 \<Rightarrow> (storage_error, PubSubItem) result" where
  "file_GetItem f k =
     bind_result (loadPubsubItems f (fst k, fst (snd k))) (\<lambda>m. lookup_result (m (snd (snd k))))"

definition file_GetItems :: "string list \<Rightarrow> FileStore \<Rightarrow> string \<times> string \<Rightarrow> (storage_error, PubSubItem list) result" where
  "file_GetItems ks f k =
     bind_result (loadPubsubItems f k) (\<lambda>m. Inr (sort_key item_CreatedAt (range_values ks m)))"

definition file_DeleteItem :: "key3 \<Rightarrow> FileStore writer" where
  "file_DeleteItem k f =
     (case loadPubsubItems f (fst k, fst (snd k)) of
        Inl e \<Rightarrow> (f, Some e)
      | Inr m \<Rightarrow>
          if m (snd (snd k)) = None then (f, Some ErrNotFound)
          else saveItems (fst k, fst (snd k)) (m(snd (snd k) := None)) f)"

definition loadPubsubSubs :: "FileStore \<Rightarrow> string \<times> string \<Rightarrow> (storage_error, string \<rightharpoonup> PubSubSubscription) result" where
  "loadPubsubSubs f k = load_or Map.empty (d_pubsub_subscriptions f) (pubsub_name k)"

definition saveSubs :: "string \<times> string \<Rightarrow> (string \<rightharpoonup> PubSubSubscription) \<Rightarrow> FileStore writer" where
  "saveSubs k subs f =
     (case writeJSON (pubsub_name k) subs (d_pubsub_subscriptions f) of
        (d, e) \<Rightarrow> (f\<lparr>d_pubsub_subscriptions := d\<rparr>, e))"

definition file_Subscribe :: "PubSubSubscription \<Rightarrow> FileStore writer" where
  "file_Subscribe sub f =
     (case loadPubsubSubs f (sub_Host sub, sub_NodeID sub) of
        Inl e \<Rightarrow> (f, Some e)
      | Inr m \<Rightarrow> saveSubs (sub_Host sub, sub_NodeID sub) (m(sub_JID sub \<mapsto> sub)) f)"

definition file_Unsubscribe :: "key3 \<Rightarrow> FileStore writer" where
  "file_Unsubscribe k f =
     (case loadPubsubSubs f (fst k, fst (snd k)) of
        Inl e \<Rightarrow> (f, Some e)
      | Inr m \<Rightarrow> saveSubs (fst k, fst (snd k)) (m(snd (snd k) := None)) f)"

definition file_GetSubscription :: "FileStore \<Rightarrow> key3 \<Rightarrow> (storage_error, PubSubSubscription) result" where
  "file_GetSubscription f k =
     bind_result (loadPubsubSubs f (fst k, fst (snd k))) (\<lambda>m. lookup_result (m (snd (snd k))))"

definition file_GetSubscriptions ::
    "string list \<Rightarrow> FileStore \<Rightarrow> string \<times> string \<Rightarrow> (storage_error, PubSubSubscription list) result" where
  "file_GetSubscriptions ks f k = bind_result (loadPubsubSubs f k) (\<lambda>m. Inr (range_values ks m))"

definition file_GetUserSubscriptions ::
    "string list \<Rightarrow> FileStore \<Rightarrow> string \<Rightarrow> string \<Rightarrow> (storage_error, PubSubSubscription list) result" where
  "file_GetUserSubscriptions es f host jid =
     (case d_pubsub_subscriptions f of
        None \<Rightarrow> Inr []
      | Some _ \<Rightarrow>
          Inr (List.map_filter (\<lambda>subs. subs jid)
                (read_entries (d_pubsub_subscriptions f) (filter (host_entry host) es))))"

section \<open>BookmarkStore\<close>

definition loadBookmarks :: "FileStore \<Rightarrow> string \<Rightarrow> (storage_error, string \<rightharpoonup> Bookmark) result" where
  "loadBookmarks f userJID = load_or Map.empty (d_bookmarks f) (json_name userJID)"

definition saveBookmarks :: "string \<Rightarrow> (string \<rightharpoonup> Bookmark) \<Rightarrow> FileStore writer" where
  "saveBookmarks userJID bms f =
     (case writeJSON (json_name userJID) bms (d_bookmarks f) of (d, e) \<Rightarrow> (f\<lparr>d_bookmarks := d\<rparr>, e))"

definition file_SetBookmark :: "Bookmark \<Rightarrow> FileStore writer" where
  "file_SetBookmark bm f =
     (case loadBookmarks f (bm_UserJID bm) of
        Inl e \<Rightarrow> (f, Some e)
      | Inr m \<Rightarrow> saveBookmarks (bm_UserJID bm) (m(bm_RoomJID bm \<mapsto> bm)) f)"

definition file_GetBookmark :: "FileStore \<Rightarrow> string \<times> string \<Rightarrow> (storage_error, Bookmark) result" where
  "file_GetBookmark f k = bind_result (loadBookmarks f (fst k)) (\<lambda>m. lookup_result (m (snd k)))"

definition file_GetBookmarks :: "string list \<Rightarrow> FileStore \<Rightarrow> string \<Rightarrow> (storage_error, Bookmark list) result" where
  "file_GetBookmarks ks f userJID = bind_result (loadBookmarks f userJID) (\<lambda>m. Inr (range_values ks m))"

definition file_DeleteBookmark :: "string \<times> string \<Rightarrow> FileStore writer" where
  "file_DeleteBookmark k f =
     (case loadBookmarks f (fst k) of
        Inl e \<Rightarrow> (f, Some e)
      | Inr m \<Rightarrow>
          if m (snd k) = None then (f, Some ErrNotFound) else saveBookmarks (fst k) (m(snd k := None)) f)"

section \<open>Directories as tables\<close>

text \<open>
  The keys \<open>ok\<close> for which a naming scheme gives every key a file of its own that the file system accepts.
  On them a directory is a table: reading, writing and removing files are lookup, update and deletion.  A
  directory represents a table \<open>t\<close> when it holds files of such keys only and \<open>view\<close> of each is the entry.
\<close>

definition represents ::
    "('k \<Rightarrow> bool) \<Rightarrow> ('k \<Rightarrow> string) \<Rightarrow> ('d option \<Rightarrow> 'v) \<Rightarrow> 'd dir \<Rightarrow> ('k \<Rightarrow> 'v) \<Rightarrow> bool" where
  "represents ok name view d t \<longleftrightarrow>
     (\<exists>m. d = Some m \<and> dom m \<subseteq> name ` {k. ok k} \<and> t = (\<lambda>k. if ok k then view (m (name k)) else view None))"

locale file_table =
  fixes ok :: "'k \<Rightarrow> bool" and name :: "'k \<Rightarrow> string"
  assumes name_inj: "ok j \<Longrightarrow> ok k \<Longrightarrow> name j = name k \<Longrightarrow> j = k"
    and name_accepted: "ok k \<Longrightarrow> CHR 0x00 \<notin> set (name k) \<and> length (name k) \<le> 255"
begin

lemma entry: "ok k \<Longrightarrow> os_entry (Some m) (name k) = Inr (m (name k))"
  using name_accepted [of k] by (simp add: os_entry_def)

lemma represents_update:
  assumes "represents ok name view (Some m) t" and "ok k"
  shows "represents ok name view (Some (m(name k := r))) (t(k := view r))"
proof -
  from assms(1) have m: "dom m \<subseteq> name ` {k. ok k}"
      "t = (\<lambda>k. if ok k then view (m (name k)) else view None)"
    unfolding represents_def by auto
  have "dom (m(name k := r)) \<subseteq> name ` {k. ok k}" using m(1) assms(2) by (auto split: if_splits)
  moreover have "(t(k := view r)) j = (if ok j then view ((m(name k := r)) (name j)) else view None)" for j
    using m(2) assms(2) by (auto dest: name_inj)
  ultimately show ?thesis unfolding represents_def by auto
qed

lemma write_entry:
  assumes "represents ok name view d t" and "ok k"
  shows "represents ok name view (fst (os_WriteFile (name k) v d)) (t(k := view (Some v)))"
    "snd (os_WriteFile (name k) v d) = None"
    "fst (writeJSON (name k) v d) = fst (os_WriteFile (name k) v d)" "snd (writeJSON (name k) v d) = None"
proof -
  from assms obtain m where m: "d = Some m" unfolding represents_def by blast
  then have "represents ok name view (Some (m(name k \<mapsto> v))) (t(k := view (Some v)))"
    using represents_update assms by blast
  with m assms(2)
  show "represents ok name view (fst (os_WriteFile (name k) v d)) (t(k := view (Some v)))"
    "snd (os_WriteFile (name k) v d) = None"
    "fst (writeJSON (name k) v d) = fst (os_WriteFile (name k) v d)" "snd (writeJSON (name k) v d) = None"
    by (simp_all add: os_WriteFile_def writeJSON_def entry os_failure_def)
qed

lemma remove_entry:
  assumes "represents ok name view d t" and "ok k"
  shows "represents ok name view (fst (os_Remove (name k) d)) (t(k := view None))"
    "fst (remove_file (name k) d) = fst (os_Remove (name k) d)"
    "file_exists d (name k) \<Longrightarrow> snd (remove_file (name k) d) = None"
    "\<not> file_exists d (name k) \<Longrightarrow> t(k := view None) = t"
proof -
  from assms obtain m where m: "d = Some m" "dom m \<subseteq> name ` {k. ok k}"
      "t = (\<lambda>k. if ok k then view (m (name k)) else view None)"
    unfolding represents_def by blast
  show "represents ok name view (fst (os_Remove (name k) d)) (t(k := view None))"
  proof (cases "m (name k)")
    case None
    with m assms show ?thesis by (simp add: os_Remove_def entry fun_upd_idem)
  next
    case (Some v)
    with m assms represents_update [of view m t k None] show ?thesis by (simp add: os_Remove_def entry)
  qed
  show "fst (remove_file (name k) d) = fst (os_Remove (name k) d)"
    by (simp add: remove_file_def split: prod.split)
  show "snd (remove_file (name k) d) = None" if "file_exists d (name k)"
    using that m assms(2) by (auto simp: file_exists_def remove_file_def os_Remove_def entry os_failure_def)
  show "t(k := view None) = t" if "\<not> file_exists d (name k)"
    using that m assms(2) by (auto simp: file_exists_def entry fun_eq_iff)
qed

lemma read_entry:
  assumes "represents ok name (\<lambda>r. r) d t" and "ok k"
  shows "readJSON d (name k) = lookup_result (t k)" "file_exists d (name k) \<longleftrightarrow> t k \<noteq> None"
  using assms
  by (auto simp: represents_def readJSON_def os_ReadFile_def file_exists_def entry split: option.split)

lemma load_entry:
  assumes "represents ok name (\<lambda>r. case r of None \<Rightarrow> z | Some v \<Rightarrow> v) d t" and "ok k"
  shows "load_or z d (name k) = Inr (t k)"
  using assms
  by (auto simp: represents_def load_or_def readJSON_def os_ReadFile_def entry split: option.split)

lemma write_loaded:
  assumes "represents ok name (\<lambda>r. case r of None \<Rightarrow> z | Some v \<Rightarrow> v) d t" and "ok k"
  shows "represents ok name (\<lambda>r. case r of None \<Rightarrow> z | Some v \<Rightarrow> v) (fst (os_WriteFile (name k) v d)) (t(k := v))"
    "represents ok name (\<lambda>r. case r of None \<Rightarrow> z | Some v \<Rightarrow> v) (fst (os_Remove (name k) d)) (t(k := z))"
    "\<not> file_exists d (name k) \<Longrightarrow> t(k := z) = t"
  using write_entry(1) [OF assms] remove_entry(1,4) [OF assms] by simp_all

lemma listing:
  assumes "represents ok name view d t" and "ReadDir_returns d es"
  obtains ks where "es = map name ks" "distinct ks" "\<forall>k \<in> set ks. ok k" "\<And>k. t k \<noteq> view None \<Longrightarrow> k \<in> set ks"
proof -
  from assms obtain m where m: "d = Some m" "dom m \<subseteq> name ` {k. ok k}"
      "t = (\<lambda>k. if ok k then view (m (name k)) else view None)" "enumerates es m"
    unfolding represents_def ReadDir_returns_def by auto
  then have "\<forall>e \<in> set es. \<exists>k. ok k \<and> e = name k" unfolding enumerates_def by blast
  then obtain g where g: "\<forall>e \<in> set es. ok (g e) \<and> e = name (g e)" by metis
  then have "es = map name (map g es)" by (simp add: map_idI)
  moreover have "distinct (map g es)"
    using m(4) g by (simp add: enumerates_def distinct_map inj_on_def) metis
  moreover have "k \<in> set (map g es)" if "t k \<noteq> view None" for k
  proof -
    have "ok k" using that m(3) by (auto split: if_splits)
    moreover have "name k \<in> set es"
      using that m(3,4) by (cases "m (name k)") (auto simp: enumerates_def split: if_splits)
    ultimately have "k = g (name k)" using g name_inj by metis
    with \<open>name k \<in> set es\<close> show ?thesis by auto
  qed
  ultimately show thesis using g that by (metis (no_types, lifting) imageE set_map)
qed

lemma read_listing:
  assumes "represents ok name (\<lambda>r. r) d t" and "\<forall>k \<in> set ks. ok k"
  shows "read_entries d (map name ks) = range_values ks t"
  using assms(2)
  by (induction ks)
    (simp_all add: read_entries_def range_values_def map_filter_def read_entry(1) [OF assms(1)] lookup_result_def
      split: option.split)

end

section \<open>Names that have a file of their own\<close>

definition plain_chars :: "string \<Rightarrow> bool" where
  "plain_chars n \<longleftrightarrow> (\<forall>c \<in> set n. \<not> unsafe_char c \<and> c \<noteq> CHR 0x00)"

definition plain_name :: "string \<Rightarrow> bool" where
  "plain_name n \<longleftrightarrow> plain_chars n \<and> length n \<le> 250"

text \<open>A host without underscore, and a node.\<close>

definition plain_host :: "string \<Rightarrow> bool" where
  "plain_host h \<longleftrightarrow> plain_chars h \<and> CHR ''_'' \<notin> set h"

definition plain_node :: "string \<times> string \<Rightarrow> bool" where
  "plain_node k \<longleftrightarrow> plain_host (fst k) \<and> plain_chars (snd k) \<and> length (fst k) + length (snd k) \<le> 249"

lemma safeFileName_plain [simp]: "plain_chars n \<Longrightarrow> safeFileName n = n"
  by (simp add: safeFileName_def plain_chars_def map_idI)

lemma NUL_safeFileName [simp]: "CHR 0x00 \<in> set (safeFileName n) \<longleftrightarrow> CHR 0x00 \<in> set n"
  by (auto simp: safeFileName_def unsafe_char_def image_iff)

lemma plain_not_NUL [simp]: "plain_chars n \<Longrightarrow> CHR 0x00 \<notin> set n"
  by (auto simp: plain_chars_def)

interpretation json: file_table plain_name json_name
  by unfold_locales (auto simp: plain_name_def json_name_def)

interpretation xml: file_table plain_name xml_name
  by unfold_locales (auto simp: plain_name_def xml_name_def)

lemma split_at_underscore:
  "c \<notin> set a \<Longrightarrow> c \<notin> set b \<Longrightarrow> a @ c # x = b @ c # y \<longleftrightarrow> a = b \<and> x = y"
proof (induction a arbitrary: b)
  case Nil
  then show ?case by (cases b) auto
next
  case (Cons d a)
  then show ?case by (cases b) auto
qed

interpretation pubsub: file_table plain_node pubsub_name
proof unfold_locales
  fix j k assume "plain_node j" "plain_node k" "pubsub_name j = pubsub_name k"
  then show "j = k"
    by (cases j, cases k) (auto simp: plain_node_def plain_host_def pubsub_name_def split_at_underscore)
qed (auto simp: plain_node_def plain_host_def pubsub_name_def)

text \<open>The listing of a host finds exactly its own nodes.\<close>

lemma host_entry_pubsub_name:
  assumes "plain_node k" and "plain_host h"
  shows "host_entry h (pubsub_name k) \<longleftrightarrow> fst k = h"
proof
  let ?n = "fst k @ ''_'' @ snd k @ ''.json''"
  assume "host_entry h (pubsub_name k)"
  then have "take (length h + 1) ?n = h @ ''_''"
    using assms by (simp add: host_entry_def pubsub_name_def plain_node_def plain_host_def Let_def)
  then have "?n = (h @ ''_'') @ drop (length h + 1) ?n" by (metis append_take_drop_id)
  then have "fst k @ CHR ''_'' # (snd k @ ''.json'') = h @ CHR ''_'' # drop (length h + 1) ?n" by simp
  then show "fst k = h"
    using assms split_at_underscore [of "CHR ''_''" "fst k" h] by (auto simp: plain_node_def plain_host_def)
next
  assume "fst k = h"
  then show "host_entry h (pubsub_name k)"
    using assms by (auto simp: host_entry_def pubsub_name_def plain_node_def plain_host_def Let_def)
qed

lemma filter_host_entry:
  "\<forall>k \<in> set ks. plain_node k \<Longrightarrow> plain_host h \<Longrightarrow>
     filter (host_entry h) (map pubsub_name ks) = map pubsub_name (filter (\<lambda>k. fst k = h) ks)"
  by (induction ks) (auto simp: host_entry_pubsub_name)

end
