(* ===== verification/StorageCalls.thy ===== *)
theory StorageCalls
  imports StorageFile
begin

text \<open>
  The storage interfaces (the interface types of storage/*.go) as data: a call of one of their methods and
  its reply, how the in-memory store and the file store execute a call, and the runs of a store.  Methods
  that loop over a map or a directory take the order \<open>ks\<close> of that loop, which a run leaves open: a run is
  any sequence of calls with replies that some orders explain.
\<close>

section \<open>Calls\<close>

datatype user_call =
  CallCreateUser gotime User
| CallGetUser string
| CallUpdateUser gotime User
| CallDeleteUser string
| CallUserExists string
| CallAuthenticate string string

datatype roster_call =
  CallUpsertRosterItem RosterItem
| CallGetRosterItem "string \<times> string"
| CallGetRosterItems string
| CallDeleteRosterItem "string \<times> string"
| CallGetRosterVersion string
| CallSetRosterVersion string string

datatype blocking_call =
  CallBlockJID string string
| CallUnblockJID string string
| CallIsBlocked string string
| CallGetBlockedJIDs string

datatype vcard_call =
  CallSetVCard string bytes
| CallGetVCard string
| CallDeleteVCard string

datatype offline_call =
  CallStoreOfflineMessage gotime OfflineMessage
| CallGetOfflineMessages string
| CallDeleteOfflineMessages string
| CallCountOfflineMessages string

datatype mam_call =
  CallArchiveMessage gotime ArchivedMessage
| CallQueryMessages MAMQuery
| CallDeleteMessageArchive string

datatype muc_call =
  CallCreateRoom MUCRoom
| CallGetRoom string
| CallUpdateRoom MUCRoom
| CallDeleteRoom string
| CallListRooms
| CallSetAffiliation MUCAffiliation
| CallGetAffiliation "string \<times> string"
| CallGetAffiliations string
| CallRemoveAffiliation "string \<times> string"

datatype pubsub_call =
  CallCreateNode PubSubNode
| CallGetNode "string \<times> string"
| CallDeleteNode "string \<times> string"
| CallListNodes string
| CallUpsertItem gotime PubSubItem
| CallGetItem key3
| CallGetItems "string \<times> string"
| CallDeleteItem key3
| CallSubscribe PubSubSubscription
| CallUnsubscribe key3
| CallGetSubscription key3
| CallGetSubscriptions "string \<times> string"
| CallGetUserSubscriptions string string

datatype bookmark_call =
  CallSetBookmark Bookmark
| CallGetBookmark "string \<times> string"
| CallGetBookmarks string
| CallDeleteBookmark "string \<times> string"

datatype storage_call =
  UserStore user_call
| RosterStore roster_call
| BlockingStore blocking_call
| VCardStore vcard_call
| OfflineStore offline_call
| MAMStore mam_call
| MUCRoomStore muc_call
| PubSubStore pubsub_call
| BookmarkStore bookmark_call

datatype storage_reply =
  Done "storage_error option"
| ReplyAuth "bool \<times> storage_error option"
| ReplyBool "(storage_error, bool) result"
| ReplyCount "(storage_error, nat) result"
| ReplyText "(storage_error, string) result"
| ReplyTexts "(storage_error, string list) result"
| ReplyBytes "(storage_error, bytes) result"
| ReplyUser "(storage_error, User) result"
| ReplyItem "(storage_error, RosterItem) result"
| ReplyItems "(storage_error, RosterItem list) result"
| ReplyOffline "(storage_error, OfflineMessage list) result"
| ReplyMAM "(storage_error, MAMResult) result"
| ReplyRoom "(storage_error, MUCRoom) result"
| ReplyRooms "(storage_error, MUCRoom list) result"
| ReplyAff "(storage_error, MUCAffiliation) result"
| ReplyAffs "(storage_error, MUCAffiliation list) result"
| ReplyNode "(storage_error, PubSubNode) result"
| ReplyNodes "(storage_error, PubSubNode list) result"
| ReplyPubItem "(storage_error, PubSubItem) result"
| ReplyPubItems "(storage_error, PubSubItem list) result"
| ReplySub "(storage_error, PubSubSubscription) result"
| ReplySubs "(storage_error, PubSubSubscription list) result"
| ReplyBookmark "(storage_error, Bookmark) result"
| ReplyBookmarks "(storage_error, Bookmark list) result"

text \<open>A method that changes the store, and one that only reads it.\<close>

definition writes :: "'s writer \<Rightarrow> 's \<Rightarrow> 's \<times> storage_reply" where
  "writes w s = (case w s of (s', e) \<Rightarrow> (s', Done e))"

definition reads :: "storage_reply \<Rightarrow> 's \<Rightarrow> 's \<times> storage_reply" where
  "reads r s = (s, r)"

section \<open>The in-memory store\<close>

fun mem_user :: "user_call \<Rightarrow> MemStore \<Rightarrow> MemStore \<times> storage_reply" where
  "mem_user (CallCreateUser now u) s = writes (CreateUser now u) s"
| "mem_user (CallGetUser n) s = reads (ReplyUser (GetUser s n)) s"
| "mem_user (CallUpdateUser now u) s = writes (UpdateUser now u) s"
| "mem_user (CallDeleteUser n) s = writes (DeleteUser n) s"
| "mem_user (CallUserExists n) s = reads (ReplyBool (UserExists s n)) s"
| "mem_user (CallAuthenticate n pw) s = reads (ReplyAuth (Authenticate s n pw)) s"

fun mem_roster :: "string list \<Rightarrow> roster_call \<Rightarrow> MemStore \<Rightarrow> MemStore \<times> storage_reply" where
  "mem_roster ks (CallUpsertRosterItem i) s = writes (UpsertRosterItem i) s"
| "mem_roster ks (CallGetRosterItem k) s = reads (ReplyItem (GetRosterItem s k)) s"
| "mem_roster ks (CallGetRosterItems u) s = reads (ReplyItems (Inr (GetRosterItems ks s u))) s"
| "mem_roster ks (CallDeleteRosterItem k) s = writes (DeleteRosterItem k) s"
| "mem_roster ks (CallGetRosterVersion u) s = reads (ReplyText (Inr (GetRosterVersion s u))) s"
| "mem_roster ks (CallSetRosterVersion u v) s = writes (SetRosterVersion u v) s"

fun mem_blocking :: "string list \<Rightarrow> blocking_call \<Rightarrow> MemStore \<Rightarrow> MemStore \<times> storage_reply" where
  "mem_blocking ks (CallBlockJID u j) s = writes (BlockJID u j) s"
| "mem_blocking ks (CallUnblockJID u j) s = writes (UnblockJID u j) s"
| "mem_blocking ks (CallIsBlocked u j) s = reads (ReplyBool (Inr (IsBlocked s u j))) s"
| "mem_blocking ks (CallGetBlockedJIDs u) s = reads (ReplyTexts (Inr (GetBlockedJIDs ks s u))) s"

fun mem_vcard :: "vcard_call \<Rightarrow> MemStore \<Rightarrow> MemStore \<times> storage_reply" where
  "mem_vcard (CallSetVCard u d) s = writes (SetVCard u d) s"
| "mem_vcard (CallGetVCard u) s = reads (ReplyBytes (GetVCard s u)) s"
| "mem_vcard (CallDeleteVCard u) s = writes (DeleteVCard u) s"

fun mem_offline :: "offline_call \<Rightarrow> MemStore \<Rightarrow> MemStore \<times> storage_reply" where
  "mem_offline (CallStoreOfflineMessage now m) s = writes (StoreOfflineMessage now m) s"
| "mem_offline (CallGetOfflineMessages u) s = reads (ReplyOffline (Inr (GetOfflineMessages s u))) s"
| "mem_offline (CallDeleteOfflineMessages u) s = writes (DeleteOfflineMessages u) s"
| "mem_offline (CallCountOfflineMessages u) s = reads (ReplyCount (Inr (CountOfflineMessages s u))) s"

fun mem_mam :: "mam_call \<Rightarrow> MemStore \<Rightarrow> MemStore \<times> storage_reply" where
  "mem_mam (CallArchiveMessage now m) s = writes (ArchiveMessage now m) s"
| "mem_mam (CallQueryMessages q) s = reads (ReplyMAM (Inr (QueryMessages s q))) s"
| "mem_mam (CallDeleteMessageArchive u) s = writes (DeleteMessageArchive u) s"

fun mem_muc :: "string list \<Rightarrow> muc_call \<Rightarrow> MemStore \<Rightarrow> MemStore \<times> storage_reply" where
  "mem_muc ks (CallCreateRoom r) s = writes (CreateRoom r) s"
| "mem_muc ks (CallGetRoom j) s = reads (ReplyRoom (GetRoom s j)) s"
| "mem_muc ks (CallUpdateRoom r) s = writes (UpdateRoom r) s"
| "mem_muc ks (CallDeleteRoom j) s = writes (DeleteRoom j) s"
| "mem_muc ks CallListRooms s = reads (ReplyRooms (Inr (ListRooms ks s))) s"
| "mem_muc ks (CallSetAffiliation a) s = writes (SetAffiliation a) s"
| "mem_muc ks (CallGetAffiliation k) s = reads (ReplyAff (GetAffiliation s k)) s"
| "mem_muc ks (CallGetAffiliations j) s = reads (ReplyAffs (Inr (GetAffiliations ks s j))) s"
| "mem_muc ks (CallRemoveAffiliation k) s = writes (RemoveAffiliation k) s"

fun mem_pubsub :: "string list \<Rightarrow> pubsub_call \<Rightarrow> MemStore \<Rightarrow> MemStore \<times> storage_reply" where
  "mem_pubsub ks (CallCreateNode n) s = writes (CreateNode n) s"
| "mem_pubsub ks (CallGetNode k) s = reads (ReplyNode (GetNode s k)) s"
| "mem_pubsub ks (CallDeleteNode k) s = writes (DeleteNode k) s"
| "mem_pubsub ks (CallListNodes h) s = reads (ReplyNodes (Inr (ListNodes ks s h))) s"
| "mem_pubsub ks (CallUpsertItem now i) s = writes (UpsertItem now i) s"
| "mem_pubsub ks (CallGetItem k) s = reads (ReplyPubItem (GetItem s k)) s"
| "mem_pubsub ks (CallGetItems k) s = reads (ReplyPubItems (Inr (GetItems ks s (fst k) (snd k)))) s"
| "mem_pubsub ks (CallDeleteItem k) s = writes (DeleteItem k) s"
| "mem_pubsub ks (CallSubscribe b) s = writes (Subscribe b) s"
| "mem_pubsub ks (CallUnsubscribe k) s = writes (Unsubscribe k) s"
| "mem_pubsub ks (CallGetSubscription k) s = reads (ReplySub (GetSubscription s k)) s"
| "mem_pubsub ks (CallGetSubscriptions k) s = reads (ReplySubs (Inr (GetSubscriptions ks s (fst k) (snd k)))) s"
| "mem_pubsub ks (CallGetUserSubscriptions h j) s = reads (ReplySubs (Inr (GetUserSubscriptions ks s h j))) s"

fun mem_bookmark :: "string list \<Rightarrow> bookmark_call \<Rightarrow> MemStore \<Rightarrow> MemStore \<times> storage_reply" where
  "mem_bookmark ks (CallSetBookmark b) s = writes (SetBookmark b) s"
| "mem_bookmark ks (CallGetBookmark k) s = reads (ReplyBookmark (GetBookmark s k)) s"
| "mem_bookmark ks (CallGetBookmarks u) s = reads (ReplyBookmarks (Inr (GetBookmarks ks s u))) s"
| "mem_bookmark ks (CallDeleteBookmark k) s = writes (DeleteBookmark k) s"

fun mem_call :: "string list \<Rightarrow> storage_call \<Rightarrow> MemStore \<Rightarrow> MemStore \<times> storage_reply" where
  "mem_call ks (UserStore c) s = mem_user c s"
| "mem_call ks (RosterStore c) s = mem_roster ks c s"
| "mem_call ks (BlockingStore c) s = mem_blocking ks c s"
| "mem_call ks (VCardStore c) s = mem_vcard c s"
| "mem_call ks (OfflineStore c) s = mem_offline c s"
| "mem_call ks (MAMStore c) s = mem_mam c s"
| "mem_call ks (MUCRoomStore c) s = mem_muc ks c s"
| "mem_call ks (PubSubStore c) s = mem_pubsub ks c s"
| "mem_call ks (BookmarkStore c) s = mem_bookmark ks c s"

text \<open>
  The orders a loop may take.  In \<open>GetUserSubscriptions\<close> the nodes without a subscription of the user may
  be left out of the order: the loop adds nothing for them.
\<close>

fun mem_order :: "string list \<Rightarrow> storage_call \<Rightarrow> MemStore \<Rightarrow> bool" where
  "mem_order ks (RosterStore (CallGetRosterItems u)) s = enumerates ks (inner (rosterItems s) u)"
| "mem_order ks (BlockingStore (CallGetBlockedJIDs u)) s = enumerates ks (inner (blocked s) u)"
| "mem_order ks (MUCRoomStore CallListRooms) s = enumerates ks (mucRooms s)"
| "mem_order ks (MUCRoomStore (CallGetAffiliations j)) s = enumerates ks (inner (mucAffiliations s) j)"
| "mem_order ks (PubSubStore (CallListNodes h)) s = enumerates ks (inner (pubsubNodes s) h)"
| "mem_order ks (PubSubStore (CallGetItems k)) s = enumerates ks (inner (inner (pubsubItems s) (fst k)) (snd k))"
| "mem_order ks (PubSubStore (CallGetSubscriptions k)) s =
     enumerates ks (inner (inner (pubsubSubscriptions s) (fst k)) (snd k))"
| "mem_order ks (PubSubStore (CallGetUserSubscriptions h j)) s =
     (distinct ks \<and> (\<forall>n. get3 (pubsubSubscriptions s) h n j \<noteq> None \<longrightarrow> n \<in> set ks))"
| "mem_order ks (BookmarkStore (CallGetBookmarks u)) s = enumerates ks (inner (bookmarks s) u)"
| "mem_order ks _ s = True"

section \<open>The file store\<close>

fun file_user :: "user_call \<Rightarrow> FileStore \<Rightarrow> FileStore \<times> storage_reply" where
  "file_user (CallCreateUser now u) f = writes (file_CreateUser now u) f"
| "file_user (CallGetUser n) f = reads (ReplyUser (file_GetUser f n)) f"
| "file_user (CallUpdateUser now u) f = writes (file_UpdateUser now u) f"
| "file_user (CallDeleteUser n) f = writes (file_DeleteUser n) f"
| "file_user (CallUserExists n) f = reads (ReplyBool (file_UserExists f n)) f"
| "file_user (CallAuthenticate n pw) f = reads (ReplyAuth (file_Authenticate f n pw)) f"

fun file_roster :: "string list \<Rightarrow> roster_call \<Rightarrow> FileStore \<Rightarrow> FileStore \<times> storage_reply" where
  "file_roster ks (CallUpsertRosterItem i) f = writes (file_UpsertRosterItem i) f"
| "file_roster ks (CallGetRosterItem k) f = reads (ReplyItem (file_GetRosterItem f k)) f"
| "file_roster ks (CallGetRosterItems u) f = reads (ReplyItems (file_GetRosterItems ks f u)) f"
| "file_roster ks (CallDeleteRosterItem k) f = writes (file_DeleteRosterItem k) f"
| "file_roster ks (CallGetRosterVersion u) f = reads (ReplyText (file_GetRosterVersion f u)) f"
| "file_roster ks (CallSetRosterVersion u v) f = writes (file_SetRosterVersion u v) f"

fun file_blocking :: "string list \<Rightarrow> blocking_call \<Rightarrow> FileStore \<Rightarrow> FileStore \<times> storage_reply" where
  "file_blocking ks (CallBlockJID u j) f = writes (file_BlockJID u j) f"
| "file_blocking ks (CallUnblockJID u j) f = writes (file_UnblockJID u j) f"
| "file_blocking ks (CallIsBlocked u j) f = reads (ReplyBool (file_IsBlocked f u j)) f"
| "file_blocking ks (CallGetBlockedJIDs u) f = reads (ReplyTexts (file_GetBlockedJIDs ks f u)) f"

fun file_vcard :: "vcard_call \<Rightarrow> FileStore \<Rightarrow> FileStore \<times> storage_reply" where
  "file_vcard (CallSetVCard u d) f = writes (file_SetVCard u d) f"
| "file_vcard (CallGetVCard u) f = reads (ReplyBytes (file_GetVCard f u)) f"
| "file_vcard (CallDeleteVCard u) f = writes (file_DeleteVCard u) f"

fun file_offline :: "offline_call \<Rightarrow> FileStore \<Rightarrow> FileStore \<times> storage_reply" where
  "file_offline (CallStoreOfflineMessage now m) f = writes (file_StoreOfflineMessage now m) f"
| "file_offline (CallGetOfflineMessages u) f = reads (ReplyOffline (file_GetOfflineMessages f u)) f"
| "file_offline (CallDeleteOfflineMessages u) f = writes (file_DeleteOfflineMessages u) f"
| "file_offline (CallCountOfflineMessages u) f = reads (ReplyCount (file_CountOfflineMessages f u)) f"

fun file_mam :: "mam_call \<Rightarrow> FileStore \<Rightarrow> FileStore \<times> storage_reply" where
  "file_mam (CallArchiveMessage now m) f = writes (file_ArchiveMessage now m) f"
| "file_mam (CallQueryMessages q) f = reads (ReplyMAM (file_QueryMessages f q)) f"
| "file_mam (CallDeleteMessageArchive u) f = writes (file_DeleteMessageArchive u) f"

fun file_muc :: "string list \<Rightarrow> muc_call \<Rightarrow> FileStore \<Rightarrow> FileStore \<times> storage_reply" where
  "file_muc ks (CallCreateRoom r) f = writes (file_CreateRoom r) f"
| "file_muc ks (CallGetRoom j) f = reads (ReplyRoom (file_GetRoom f j)) f"
| "file_muc ks (CallUpdateRoom r) f = writes (file_UpdateRoom r) f"
| "file_muc ks (CallDeleteRoom j) f = writes (file_DeleteRoom j) f"
| "file_muc ks CallListRooms f = reads (ReplyRooms (file_ListRooms ks f)) f"
| "file_muc ks (CallSetAffiliation a) f = writes (file_SetAffiliation a) f"
| "file_muc ks (CallGetAffiliation k) f = reads (ReplyAff (file_GetAffiliation f k)) f"
| "file_muc ks (CallGetAffiliations j) f = reads (ReplyAffs (file_GetAffiliations ks f j)) f"
| "file_muc ks (CallRemoveAffiliation k) f = writes (file_RemoveAffiliation k) f"

fun file_pubsub :: "string list \<Rightarrow> pubsub_call \<Rightarrow> FileStore \<Rightarrow> FileStore \<times> storage_reply" where
  "file_pubsub ks (CallCreateNode n) f = writes (file_CreateNode n) f"
| "file_pubsub ks (CallGetNode k) f = reads (ReplyNode (file_GetNode f k)) f"
| "file_pubsub ks (CallDeleteNode k) f = writes (file_DeleteNode k) f"
| "file_pubsub ks (CallListNodes h) f = reads (ReplyNodes (file_ListNodes ks f h)) f"
| "file_pubsub ks (CallUpsertItem now i) f = writes (file_UpsertItem now i) f"
| "file_pubsub ks (CallGetItem k) f = reads (ReplyPubItem (file_GetItem f k)) f"
| "file_pubsub ks (CallGetItems k) f = reads (ReplyPubItems (file_GetItems ks f k)) f"
| "file_pubsub ks (CallDeleteItem k) f = writes (file_DeleteItem k) f"
| "file_pubsub ks (CallSubscribe b) f = writes (file_Subscribe b) f"
| "file_pubsub ks (CallUnsubscribe k) f = writes (file_Unsubscribe k) f"
| "file_pubsub ks (CallGetSubscription k) f = reads (ReplySub (file_GetSubscription f k)) f"
| "file_pubsub ks (CallGetSubscriptions k) f = reads (ReplySubs (file_GetSubscriptions ks f k)) f"
| "file_pubsub ks (CallGetUserSubscriptions h j) f = reads (ReplySubs (file_GetUserSubscriptions ks f h j)) f"

fun file_bookmark :: "string list \<Rightarrow> bookmark_call \<Rightarrow> FileStore \<Rightarrow> FileStore \<times> storage_reply" where
  "file_bookmark ks (CallSetBookmark b) f = writes (file_SetBookmark b) f"
| "file_bookmark ks (CallGetBookmark k) f = reads (ReplyBookmark (file_GetBookmark f k)) f"
| "file_bookmark ks (CallGetBookmarks u) f = reads (ReplyBookmarks (file_GetBookmarks ks f u)) f"
| "file_bookmark ks (CallDeleteBookmark k) f = writes (file_DeleteBookmark k) f"

fun file_call :: "string list \<Rightarrow> storage_call \<Rightarrow> FileStore \<Rightarrow> FileStore \<times> storage_reply" where
  "file_call ks (UserStore c) f = file_user c f"
| "file_call ks (RosterStore c) f = file_roster ks c f"
| "file_call ks (BlockingStore c) f = file_blocking ks c f"
| "file_call ks (VCardStore c) f = file_vcard c f"
| "file_call ks (OfflineStore c) f = file_offline c f"
| "file_call ks (MAMStore c) f = file_mam c f"
| "file_call ks (MUCRoomStore c) f = file_muc ks c f"
| "file_call ks (PubSubStore c) f = file_pubsub ks c f"
| "file_call ks (BookmarkStore c) f = file_bookmark ks c f"

text \<open>Loops over the map of a file that was read, and over the entries of a directory.\<close>

definition loaded_order :: "string list \<Rightarrow> (storage_error, string \<rightharpoonup> 'v) result \<Rightarrow> bool" where
  "loaded_order ks r = (case r of Inl _ \<Rightarrow> True | Inr m \<Rightarrow> enumerates ks m)"

fun file_order :: "string list \<Rightarrow> storage_call \<Rightarrow> FileStore \<Rightarrow> bool" where
  "file_order ks (RosterStore (CallGetRosterItems u)) f = loaded_order ks (loadRoster f u)"
| "file_order ks (BlockingStore (CallGetBlockedJIDs u)) f = loaded_order ks (loadBlocked f u)"
| "file_order ks (MUCRoomStore CallListRooms) f = ReadDir_returns (d_muc_rooms f) ks"
| "file_order ks (MUCRoomStore (CallGetAffiliations j)) f = loaded_order ks (loadAffs f j)"
| "file_order ks (PubSubStore (CallListNodes h)) f = ReadDir_returns (d_pubsub_nodes f) ks"
| "file_order ks (PubSubStore (CallGetItems k)) f = loaded_order ks (loadPubsubItems f k)"
| "file_order ks (PubSubStore (CallGetSubscriptions k)) f = loaded_order ks (loadPubsubSubs f k)"
| "file_order ks (PubSubStore (CallGetUserSubscriptions h j)) f = ReadDir_returns (d_pubsub_subscriptions f) ks"
| "file_order ks (BookmarkStore (CallGetBookmarks u)) f = loaded_order ks (loadBookmarks f u)"
| "file_order ks _ f = True"

section \<open>Runs\<close>

inductive runs ::
    "(string list \<Rightarrow> storage_call \<Rightarrow> 's \<Rightarrow> bool) \<Rightarrow> (string list \<Rightarrow> storage_call \<Rightarrow> 's \<Rightarrow> 's \<times> storage_reply) \<Rightarrow>
     's \<Rightarrow> (storage_call \<times> storage_reply) list \<Rightarrow> 's \<Rightarrow> bool"
  for order call where
  runs_Nil: "runs order call s [] s"
| runs_Cons: "order ks c s \<Longrightarrow> call ks c s = (s', r) \<Longrightarrow> runs order call s' tr s'' \<Longrightarrow> runs order call s ((c, r) # tr) s''"

text \<open>
  A simulation: every step of the first store on a call that is \<open>ok\<close> is a step of the second with the
  same reply, from related to related states.
\<close>

locale store_simulation =
  fixes order1 :: "string list \<Rightarrow> storage_call \<Rightarrow> 's \<Rightarrow> bool" and call1 order2
    and call2 :: "string list \<Rightarrow> storage_call \<Rightarrow> 't \<Rightarrow> 't \<times> storage_reply"
    and ok :: "storage_call \<Rightarrow> bool" and sim :: "'s \<Rightarrow> 't \<Rightarrow> bool"
  assumes step: "sim s t \<Longrightarrow> ok c \<Longrightarrow> order1 ks c s \<Longrightarrow> call1 ks c s = (s', r) \<Longrightarrow>
    \<exists>ks' t'. order2 ks' c t \<and> call2 ks' c t = (t', r) \<and> sim s' t'"
begin

lemma simulation:
  assumes "runs order1 call1 s tr s'" and "sim s t" and "\<forall>(c, r) \<in> set tr. ok c"
  shows "\<exists>t'. runs order2 call2 t tr t' \<and> sim s' t'"
  using assms
proof (induction arbitrary: t rule: runs.induct)
  case (runs_Nil s)
  then show ?case by (blast intro: runs.runs_Nil)
next
  case (runs_Cons ks c s s' r tr s'')
  then obtain ks' t1 where "order2 ks' c t" "call2 ks' c t = (t1, r)" "sim s' t1"
    using step [of s t c ks s' r] by auto
  with runs_Cons.IH [of t1] runs_Cons.prems show ?case by (auto intro: runs.runs_Cons)
qed

end

end
