(* ===== verification/StorageProps.thy ===== *)
theory StorageProps
  imports StorageMemory
begin

text \<open>
  What the in-memory store promises of single operations: a table that is only written by upserts and deletions
  behaves like a finite map, accounts authenticate exactly with their password, deletions of nodes and rooms take their
  dependents along and nothing else, offline messages form queues, and walking an archive page by page
  yields every matching message once.
\<close>

section \<open>Tables\<close>

text \<open>
  The five tables that are written by upserts, each by itself: after any sequence of its own writes and
  deletions on a new store (the items all written at one time \<open>now\<close>), a read returns what the same sequence
  leaves in a finite map.  Runs that mix all calls are the subject of \<open>StorageTables\<close>.
\<close>

lemma memory_tables_refine_maps:
  "GetRosterItem (run_ops UpsertRosterItem DeleteRosterItem h1 NewStore) k1 =
     lookup_result (run_map (\<lambda>i. (ri_UserJID i, ri_ContactJID i)) (\<lambda>i. i) h1 Map.empty k1) \<and>
   GetAffiliation (run_ops SetAffiliation RemoveAffiliation h2 NewStore) k2 =
     lookup_result (run_map (\<lambda>a. (aff_RoomJID a, aff_UserJID a)) (\<lambda>a. a) h2 Map.empty k2) \<and>
   GetBookmark (run_ops SetBookmark DeleteBookmark h3 NewStore) k3 =
     lookup_result (run_map (\<lambda>b. (bm_UserJID b, bm_RoomJID b)) (\<lambda>b. b) h3 Map.empty k3) \<and>
   GetItem (run_ops (UpsertItem now) DeleteItem h4 NewStore) k4 =
     lookup_result (run_map (\<lambda>i. (item_Host i, item_NodeID i, item_ItemID i)) (stamp_item now) h4 Map.empty k4) \<and>
   GetSubscription (run_ops Subscribe Unsubscribe h5 NewStore) k5 =
     lookup_result (run_map (\<lambda>b. (sub_Host b, sub_NodeID b, sub_JID b)) (\<lambda>b. b) h5 Map.empty k5)"
proof -
  have "roster.contents NewStore = Map.empty" "affiliation.contents NewStore = Map.empty"
      "bookmark.contents NewStore = Map.empty" "item.contents NewStore = Map.empty"
      "subscription.contents NewStore = Map.empty"
    by (simp_all add: roster.contents_def affiliation.contents_def bookmark.contents_def item.contents_def
        subscription.contents_def fun_eq_iff NewStore_def GetRosterItem_def GetAffiliation_def GetBookmark_def
        GetItem_def GetSubscription_def)
  then show ?thesis
    by (simp add: roster.get_run affiliation.get_run bookmark.get_run item.get_run subscription.get_run)
qed

section \<open>Accounts\<close>

lemma Authenticate_GetUser:
  "Authenticate s u pw =
     (case GetUser s u of
        Inl _ \<Rightarrow> (False, Some ErrAuthFailed)
      | Inr r \<Rightarrow> if u_Password r = pw then (True, None) else (False, Some ErrAuthFailed))"
  by (simp add: Authenticate_def GetUser_def split: option.splits)

text \<open>
  Accounts.  \<open>CreateUser\<close> succeeds exactly when the name is free and then stores the record with the
  current time; afterwards \<open>Authenticate\<close> accepts exactly its password, and all other accounts answer as
  before.  \<open>DeleteUser\<close> makes the name free again, and \<open>Authenticate\<close> never reports success together with
  an error.
\<close>

theorem memory_accounts:
  "(snd (CreateUser now user s) = None \<longleftrightarrow> UserExists s (u_Username user) = Inr False) \<and>
   (UserExists s (u_Username user) = Inr False \<longrightarrow>
      GetUser (fst (CreateUser now user s)) (u_Username user) =
        Inr (user\<lparr>u_CreatedAt := now, u_UpdatedAt := now\<rparr>) \<and>
      (fst (Authenticate (fst (CreateUser now user s)) (u_Username user) pw) \<longleftrightarrow> pw = u_Password user)) \<and>
   (UserExists s (u_Username user) = Inr True \<longrightarrow> fst (CreateUser now user s) = s) \<and>
   (other \<noteq> u_Username user \<longrightarrow>
      Authenticate (fst (CreateUser now user s)) other pw = Authenticate s other pw) \<and>
   UserExists (fst (DeleteUser name s)) name = Inr False \<and>
   Authenticate (fst (DeleteUser name s)) name pw = (False, Some ErrAuthFailed) \<and>
   (fst (Authenticate s other pw) \<longleftrightarrow> snd (Authenticate s other pw) = None)"
proof (intro conjI impI)
  have ex: "UserExists x n = Inr False \<longleftrightarrow> GetUser x n = Inl ErrNotFound" for x n
    by (simp add: UserExists_def GetUser_def split: option.splits)
  show "snd (CreateUser now user s) = None \<longleftrightarrow> UserExists s (u_Username user) = Inr False"
    by (simp add: ex user.put_iff)
  have del: "GetUser (fst (DeleteUser name s)) name = Inl ErrNotFound"
    by (simp add: DeleteUser_def GetUser_def split: option.splits)
  then show "UserExists (fst (DeleteUser name s)) name = Inr False"
    "Authenticate (fst (DeleteUser name s)) name pw = (False, Some ErrAuthFailed)"
    by (simp_all add: ex Authenticate_GetUser)
  show "fst (Authenticate s other pw) \<longleftrightarrow> snd (Authenticate s other pw) = None"
    by (simp add: Authenticate_def split: option.splits)
  assume "UserExists s (u_Username user) = Inr False"
  then have get: "GetUser (fst (CreateUser now user s)) (u_Username user) =
      Inr (user\<lparr>u_CreatedAt := now, u_UpdatedAt := now\<rparr>)"
    by (simp add: ex user.create_get)
  then show "GetUser (fst (CreateUser now user s)) (u_Username user) =
      Inr (user\<lparr>u_CreatedAt := now, u_UpdatedAt := now\<rparr>)"
    "fst (Authenticate (fst (CreateUser now user s)) (u_Username user) pw) \<longleftrightarrow> pw = u_Password user"
    by (auto simp: Authenticate_GetUser)
next
  assume "UserExists s (u_Username user) = Inr True"
  then show "fst (CreateUser now user s) = s" by (simp add: UserExists_def CreateUser_def)
next
  assume "other \<noteq> u_Username user"
  then show "Authenticate (fst (CreateUser now user s)) other pw = Authenticate s other pw"
    by (simp add: Authenticate_GetUser user.create_get)
qed

definition demo_user :: User where
  "demo_user = \<lparr>u_Username = ''ann'', u_Password = ''pw'', u_Salt = '''', u_Iterations = 0, u_ServerKey = '''',
     u_StoredKey = '''', u_CreatedAt = 0, u_UpdatedAt = 0\<rparr>"

theorem memory_accounts_witness:
  "fst (Authenticate (fst (CreateUser 5 demo_user NewStore)) ''ann'' ''pw'') \<and>
   \<not> fst (Authenticate (fst (CreateUser 5 demo_user NewStore)) ''ann'' ''px'')"
proof -
  have "UserExists NewStore (u_Username demo_user) = Inr False" by (simp add: UserExists_def NewStore_def)
  then have "fst (Authenticate (fst (CreateUser 5 demo_user NewStore)) (u_Username demo_user) pw)
      \<longleftrightarrow> pw = u_Password demo_user" for pw
    using memory_accounts [of 5 demo_user NewStore pw "[]" "[]"] by blast
  then show ?thesis by (simp add: demo_user_def)
qed

section \<open>Cascades\<close>

text \<open>
  C22: deleting a node takes its items and subscriptions along, deleting a room its affiliations; all
  other nodes, items, subscriptions, rooms and affiliations are left alone, and a deletion that is refused
  changes nothing.
\<close>

theorem memory_deletes_cascade:
  "(GetNode s (h, n) \<noteq> Inl ErrNotFound \<longrightarrow>
      snd (DeleteNode (h, n) s) = None \<and>
      GetNode (fst (DeleteNode (h, n) s)) k2 = (if k2 = (h, n) then Inl ErrNotFound else GetNode s k2) \<and>
      GetItem (fst (DeleteNode (h, n) s)) (a, b, c) =
        (if (a, b) = (h, n) then Inl ErrNotFound else GetItem s (a, b, c)) \<and>
      GetSubscription (fst (DeleteNode (h, n) s)) (a, b, c) =
        (if (a, b) = (h, n) then Inl ErrNotFound else GetSubscription s (a, b, c))) \<and>
   (GetRoom s r \<noteq> Inl ErrNotFound \<longrightarrow>
      snd (DeleteRoom r s) = None \<and>
      GetRoom (fst (DeleteRoom r s)) r2 = (if r2 = r then Inl ErrNotFound else GetRoom s r2) \<and>
      GetAffiliation (fst (DeleteRoom r s)) (r2, u) =
        (if r2 = r then Inl ErrNotFound else GetAffiliation s (r2, u))) \<and>
   (GetNode s (h, n) = Inl ErrNotFound \<longrightarrow> DeleteNode (h, n) s = (s, Some ErrNotFound)) \<and>
   (GetRoom s r = Inl ErrNotFound \<longrightarrow> DeleteRoom r s = (s, Some ErrNotFound))"
proof (intro conjI impI)
  assume n: "GetNode s (h, n) \<noteq> Inl ErrNotFound"
  then have "get2 (pubsubNodes s) h n \<noteq> None" by (auto simp: GetNode_def split: option.splits)
  then show "snd (DeleteNode (h, n) s) = None"
    "GetNode (fst (DeleteNode (h, n) s)) k2 = (if k2 = (h, n) then Inl ErrNotFound else GetNode s k2)"
    "GetItem (fst (DeleteNode (h, n) s)) (a, b, c) =
        (if (a, b) = (h, n) then Inl ErrNotFound else GetItem s (a, b, c))"
    "GetSubscription (fst (DeleteNode (h, n) s)) (a, b, c) =
        (if (a, b) = (h, n) then Inl ErrNotFound else GetSubscription s (a, b, c))"
    by (cases k2, auto simp: DeleteNode_def GetNode_def GetItem_def GetSubscription_def)+
next
  assume "GetRoom s r \<noteq> Inl ErrNotFound"
  then have "mucRooms s r \<noteq> None" by (auto simp: GetRoom_def split: option.splits)
  then show "snd (DeleteRoom r s) = None"
    "GetRoom (fst (DeleteRoom r s)) r2 = (if r2 = r then Inl ErrNotFound else GetRoom s r2)"
    "GetAffiliation (fst (DeleteRoom r s)) (r2, u) =
        (if r2 = r then Inl ErrNotFound else GetAffiliation s (r2, u))"
    by (auto simp: DeleteRoom_def GetRoom_def GetAffiliation_def get2_def)
next
  assume "GetNode s (h, n) = Inl ErrNotFound"
  then show "DeleteNode (h, n) s = (s, Some ErrNotFound)"
    by (auto simp: DeleteNode_def GetNode_def split: option.splits)
next
  assume "GetRoom s r = Inl ErrNotFound"
  then show "DeleteRoom r s = (s, Some ErrNotFound)"
    by (auto simp: DeleteRoom_def GetRoom_def split: option.splits)
qed

definition demo_node :: PubSubNode where
  "demo_node = \<lparr>node_Host = ''h'', node_NodeID = ''n'', node_Name = '''', node_Type = ''leaf'', node_Config = None,
     node_Creator = ''''\<rparr>"

theorem memory_deletes_cascade_witness:
  "let s = fst (Subscribe \<lparr>sub_Host = ''h'', sub_NodeID = ''n'', sub_JID = ''j'', sub_SubID = '''', sub_State = ''''\<rparr>
             (fst (CreateNode demo_node NewStore)))
   in GetSubscription (fst (DeleteNode (''h'', ''n'') s)) (''h'', ''n'', ''j'') = Inl ErrNotFound"
proof -
  let ?s = "fst (Subscribe \<lparr>sub_Host = ''h'', sub_NodeID = ''n'', sub_JID = ''j'', sub_SubID = '''', sub_State = ''''\<rparr>
             (fst (CreateNode demo_node NewStore)))"
  have "GetNode ?s (''h'', ''n'') = Inr demo_node"
    by (simp add: GetNode_def Subscribe_def CreateNode_def demo_node_def NewStore_def inner_def Let_def)
  then show ?thesis
    using memory_deletes_cascade [of ?s "''h''" "''n''" "(''h'', ''n'')" "''h''" "''n''" "''j''" "[]" "[]" "[]"]
    by (simp only: Let_def) simp
qed

section \<open>Offline messages and block lists\<close>

text \<open>No entry of a block list is ever false.\<close>

definition blocked_true :: "MemStore \<Rightarrow> bool" where
  "blocked_true s \<longleftrightarrow> (\<forall>u i. inner (blocked s) u i \<noteq> Some False)"

lemma blocked_true_invariant:
  "blocked_true NewStore"
  "blocked_true s \<Longrightarrow> blocked_true (fst (BlockJID v j s))"
  "blocked_true s \<Longrightarrow> blocked_true (fst (UnblockJID v j s))"
  by (simp_all add: blocked_true_def inner_get2 NewStore_def BlockJID_def UnblockJID_def)

text \<open>
  The offline messages of a user are a queue: storing appends (with the time filled in if it was
  missing), other users' queues do not change, the count is the length, deletion empties the queue.  A
  block list is a set: after blocking and unblocking, \<open>IsBlocked\<close> and \<open>GetBlockedJIDs\<close> agree on who is in
  it, for every order in which the map is visited.
\<close>

theorem memory_queues_and_blocklists:
  "GetOfflineMessages (fst (StoreOfflineMessage now msg s)) u =
     (if u = off_UserJID msg
      then GetOfflineMessages s u @ [if off_CreatedAt msg = 0 then msg\<lparr>off_CreatedAt := now\<rparr> else msg]
      else GetOfflineMessages s u) \<and>
   CountOfflineMessages s u = length (GetOfflineMessages s u) \<and>
   GetOfflineMessages (fst (DeleteOfflineMessages v s)) u = (if u = v then [] else GetOfflineMessages s u) \<and>
   IsBlocked (fst (BlockJID v j s)) u i = (if u = v \<and> i = j then True else IsBlocked s u i) \<and>
   IsBlocked (fst (UnblockJID v j s)) u i = (if u = v \<and> i = j then False else IsBlocked s u i) \<and>
   (enumerates ks (inner (blocked s) u) \<and> blocked_true s \<longrightarrow>
      distinct (GetBlockedJIDs ks s u) \<and> (i \<in> set (GetBlockedJIDs ks s u) \<longleftrightarrow> IsBlocked s u i))"
proof -
  have b: "IsBlocked x a c \<longleftrightarrow> get2 (blocked x) a c = Some True" for x a c
    by (simp add: IsBlocked_def get2_def split: option.splits)
  have l: "set (GetBlockedJIDs ks s u) = {i \<in> set ks. inner (blocked s) u i \<noteq> None}"
    by (auto simp: GetBlockedJIDs_def)
  have "distinct (GetBlockedJIDs ks s u) \<and> (i \<in> set (GetBlockedJIDs ks s u) \<longleftrightarrow> IsBlocked s u i)"
    if e: "enumerates ks (inner (blocked s) u)" and f: "blocked_true s"
  proof
    show "distinct (GetBlockedJIDs ks s u)" using e by (simp add: GetBlockedJIDs_def enumerates_def)
    have "inner (blocked s) u i \<noteq> None \<longleftrightarrow> inner (blocked s) u i = Some True"
      using f by (cases "inner (blocked s) u i") (auto simp: blocked_true_def, metis (full_types))
    then show "i \<in> set (GetBlockedJIDs ks s u) \<longleftrightarrow> IsBlocked s u i"
      using e unfolding l b by (auto simp: enumerates_def inner_get2)
  qed
  then show ?thesis
    by (auto simp: b StoreOfflineMessage_def GetOfflineMessages_def offline_of_def CountOfflineMessages_def
        DeleteOfflineMessages_def BlockJID_def UnblockJID_def IsZero_def Let_def)
qed

theorem memory_queues_and_blocklists_witness:
  "GetBlockedJIDs [''b''] (fst (BlockJID ''a'' ''b'' NewStore)) ''a'' = [''b''] \<and>
   IsBlocked (fst (BlockJID ''a'' ''b'' NewStore)) ''a'' ''b''"
proof -
  let ?s = "fst (BlockJID ''a'' ''b'' NewStore)"
  have i: "inner (blocked ?s) ''a'' = [''b'' \<mapsto> True]"
    by (simp add: BlockJID_def NewStore_def put2_def inner_def)
  then have "enumerates [''b''] (inner (blocked ?s) ''a'')" by (simp add: enumerates_def)
  moreover have "blocked_true ?s"
    using blocked_true_invariant(1) blocked_true_invariant(2) [of NewStore "''a''" "''b''"] by simp
  ultimately have "enumerates [''b''] (inner (blocked ?s) ''a'') \<and> blocked_true ?s" by simp
  with memory_queues_and_blocklists [of 0 _ ?s "''a''" "''a''" "''b''" "''b''" "[''b'']"]
  have "''b'' \<in> set (GetBlockedJIDs [''b''] ?s ''a'') \<longleftrightarrow> IsBlocked ?s ''a'' ''b''" by blast
  moreover have "GetBlockedJIDs [''b''] ?s ''a'' = [''b'']" unfolding GetBlockedJIDs_def i by auto
  ultimately show ?thesis by simp
qed

section \<open>Walking an archive\<close>

text \<open>What a query asks for, without the paging.\<close>

definition mam_matches :: "MAMQuery \<Rightarrow> ArchivedMessage \<Rightarrow> bool" where
  "mam_matches q m \<longleftrightarrow>
     (q_WithJID q = '''' \<or> am_WithJID m = q_WithJID q) \<and>
     (q_Start q = 0 \<or> q_Start q \<le> am_CreatedAt m) \<and> (q_End q = 0 \<or> am_CreatedAt m \<le> q_End q)"

definition mam_before :: "MAMQuery \<Rightarrow> ArchivedMessage \<Rightarrow> bool" where
  "mam_before q m \<longleftrightarrow> q_BeforeID q = '''' \<or> am_ID m \<noteq> q_BeforeID q"

definition mam_spec :: "MAMQuery \<Rightarrow> ArchivedMessage list \<Rightarrow> ArchivedMessage list" where
  "mam_spec q msgs = filter (mam_matches q) (takeWhile (mam_before q) msgs)"

lemma mam_filter_found: "mam_filter q True msgs = mam_spec q msgs"
  by (induction msgs) (auto simp: mam_spec_def mam_matches_def mam_before_def IsZero_def)

lemma mam_filter_after:
  assumes "am_ID x = q_AfterID q" and "q_AfterID q \<notin> am_ID ` set ys"
  shows "mam_filter q False (ys @ x # zs) = mam_spec q zs"
  using assms by (induction ys) (auto simp: mam_filter_found)

lemma mam_spec_page:
  assumes "0 < k" and "k \<le> length (mam_spec q zs)"
  shows "\<exists>us x vs. zs = us @ x # vs \<and> last (take k (mam_spec q zs)) = x \<and> drop k (mam_spec q zs) = mam_spec q vs"
  using assms
proof (induction zs arbitrary: k)
  case Nil
  then show ?case by (simp add: mam_spec_def)
next
  case (Cons z zs)
  consider (stop) "\<not> mam_before q z" | (take) "mam_before q z" "mam_matches q z"
    | (skip) "mam_before q z" "\<not> mam_matches q z" by blast
  then show ?case
  proof cases
    case stop
    with Cons.prems show ?thesis by (simp add: mam_spec_def)
  next
    case take
    then have spec: "mam_spec q (z # zs) = z # mam_spec q zs" by (simp add: mam_spec_def)
    show ?thesis
    proof (cases "k = 1")
      case True
      then show ?thesis using spec by (intro exI [of _ "[]"] exI [of _ z] exI [of _ zs]) simp
    next
      case False
      then obtain j where j: "k = Suc j" "0 < j" using Cons.prems(1) by (cases k) auto
      with Cons.prems(2) spec have "j \<le> length (mam_spec q zs)" by simp
      from Cons.IH [OF j(2) this] obtain us x vs where
        u: "zs = us @ x # vs" "last (take j (mam_spec q zs)) = x" "drop j (mam_spec q zs) = mam_spec q vs"
        by blast
      have "take j (mam_spec q zs) \<noteq> []" using j(2) \<open>j \<le> length (mam_spec q zs)\<close> by auto
      then show ?thesis using spec j(1) u by (intro exI [of _ "z # us"] exI [of _ x] exI [of _ vs]) simp
    qed
  next
    case skip
    then have spec: "mam_spec q (z # zs) = mam_spec q zs" by (simp add: mam_spec_def)
    with Cons.IH [of k] Cons.prems obtain us x vs where
      "zs = us @ x # vs" "last (take k (mam_spec q zs)) = x" "drop k (mam_spec q zs) = mam_spec q vs" by auto
    with spec show ?thesis by (intro exI [of _ "z # us"] exI [of _ x] exI [of _ vs]) simp
  qed
qed

text \<open>A client that asks for page after page, each behind the last message of the page before.\<close>

fun mam_walk :: "nat \<Rightarrow> MemStore \<Rightarrow> MAMQuery \<Rightarrow> ArchivedMessage list option" where
  "mam_walk 0 s q = None"
| "mam_walk (Suc n) s q =
     (let r = QueryMessages s q
      in if mr_Complete r then Some (mr_Messages r)
         else map_option ((@) (mr_Messages r)) (mam_walk n s (q\<lparr>q_AfterID := mr_Last r\<rparr>)))"

lemma mam_max_pos: "0 < mam_max q"
  by (simp add: mam_max_def)

lemma mam_walk_suffix:
  assumes "archive_of s (q_UserJID q) = ys @ zs" and "distinct (map am_ID (ys @ zs))"
    and "'''' \<notin> am_ID ` set (ys @ zs)"
    and "q_AfterID q = (if ys = [] then '''' else am_ID (last ys))" and "length zs < n"
  shows "mam_walk n s q = Some (mam_spec q zs)"
  using assms
proof (induction n arbitrary: q ys zs)
  case 0
  then show ?case by simp
next
  case (Suc n)
  let ?f = "mam_spec q zs"
  have filt: "mam_filter q (q_AfterID q = '''') (archive_of s (q_UserJID q)) = ?f"
  proof (cases "ys = []")
    case True
    with Suc.prems(1,4) show ?thesis by (simp add: mam_filter_found)
  next
    case False
    then obtain ws x where ys: "ys = ws @ [x]" by (metis append_butlast_last_id)
    with Suc.prems(2-4) have "q_AfterID q = am_ID x" "am_ID x \<notin> am_ID ` set ws" "am_ID x \<noteq> ''''" by auto
    with Suc.prems(1) ys mam_filter_after [of x q ws zs] show ?thesis by simp
  qed
  show ?case
  proof (cases "length ?f \<le> mam_max q")
    case True
    with filt show ?thesis by (simp add: QueryMessages_def Let_def)
  next
    case False
    let ?k = "mam_max q"
    from False mam_spec_page [OF mam_max_pos, of q q zs] obtain us x vs where
      p: "zs = us @ x # vs" "last (take ?k ?f) = x" "drop ?k ?f = mam_spec q vs" by auto
    have ne: "take ?k ?f \<noteq> []" using False mam_max_pos [of q] by auto
    let ?q = "q\<lparr>q_AfterID := am_ID x\<rparr>"
    have "mam_walk n s ?q = Some (mam_spec ?q vs)"
      using Suc.prems p(1) by (intro Suc.IH [of ?q "ys @ us @ [x]"]) auto
    moreover have "mam_spec ?q vs = mam_spec q vs"
      by (simp add: mam_spec_def mam_matches_def [abs_def] mam_before_def [abs_def])
    moreover have "QueryMessages s q = \<lparr>mr_Messages = take ?k ?f, mr_Complete = False,
        mr_First = am_ID (hd (take ?k ?f)), mr_Last = am_ID x, mr_Count = length (take ?k ?f)\<rparr>"
      using False ne filt p(2) by (simp add: QueryMessages_def Let_def)
    ultimately show ?thesis using p(3) append_take_drop_id [of ?k ?f] by (simp add: Let_def)
  qed
qed

text \<open>
  C24: paging is complete and ends.  In an archive whose messages have distinct, non-empty identifiers, a
  client that starts at the beginning and repeats the query behind the last identifier it received, until
  a page is marked complete, gets exactly the messages that match the filters and precede \<open>BeforeID\<close>, in
  archive order and each once; one query more than there are messages is always enough.
\<close>

theorem mam_walk_complete:
  assumes "distinct (map am_ID (archive_of s (q_UserJID q)))" and "'''' \<notin> am_ID ` set (archive_of s (q_UserJID q))"
    and "q_AfterID q = ''''"
  shows "mam_walk (Suc (length (archive_of s (q_UserJID q)))) s q = Some (mam_spec q (archive_of s (q_UserJID q)))"
  using mam_walk_suffix [of s q "[]" "archive_of s (q_UserJID q)" "Suc (length (archive_of s (q_UserJID q)))"] assms
  by simp

definition demo_archive :: MemStore where
  "demo_archive =
     NewStore\<lparr>mamMessages := [''u'' \<mapsto> map (\<lambda>i. \<lparr>am_ID = i, am_UserJID = ''u'', am_WithJID = ''w'', am_FromJID = ''f'',
       am_Data = [], am_CreatedAt = 1\<rparr>) [''a'', ''b'', ''c'']]\<rparr>"

theorem mam_walk_complete_witness:
  "map_option (map am_ID) (mam_walk 4 demo_archive
     \<lparr>q_UserJID = ''u'', q_WithJID = '''', q_Start = 0, q_End = 0, q_AfterID = '''', q_BeforeID = ''c'', q_Max = 1\<rparr>)
   = Some [''a'', ''b'']"
proof -
  let ?q = "\<lparr>q_UserJID = ''u'', q_WithJID = '''', q_Start = 0, q_End = 0, q_AfterID = '''', q_BeforeID = ''c'', q_Max = 1\<rparr>"
  have a: "map am_ID (archive_of demo_archive (q_UserJID ?q)) = [''a'', ''b'', ''c'']"
    by (simp add: demo_archive_def archive_of_def)
  have l: "Suc (length (archive_of demo_archive (q_UserJID ?q))) = 4"
    by (simp add: demo_archive_def archive_of_def)
  have "set (map am_ID (archive_of demo_archive (q_UserJID ?q))) = {''a'', ''b'', ''c''}" unfolding a by simp
  then have ne: "'''' \<notin> am_ID ` set (archive_of demo_archive (q_UserJID ?q))" by auto
  have "mam_walk 4 demo_archive ?q = Some (mam_spec ?q (archive_of demo_archive (q_UserJID ?q)))"
    using mam_walk_complete [of demo_archive ?q] a ne unfolding l by simp
  then show ?thesis
    by (simp add: demo_archive_def archive_of_def mam_spec_def mam_matches_def mam_before_def)
qed

text \<open>
  Identifiers that the store makes up are only distinct among themselves: a message archived with the
  identifier ``1'' of its own and the first message without one end up under the same identifier.
\<close>

definition demo_msg :: "string \<Rightarrow> ArchivedMessage" where
  "demo_msg i = \<lparr>am_ID = i, am_UserJID = ''u'', am_WithJID = ''w'', am_FromJID = ''f'', am_Data = [], am_CreatedAt = 1\<rparr>"

lemma archive_ids_can_collide:
  "map am_ID (archive_of (fst (ArchiveMessage 0 (demo_msg []) (fst (ArchiveMessage 0 (demo_msg ''1'') NewStore)))) ''u'')
   = [''1'', ''1'']"
  by (simp add: ArchiveMessage_def demo_msg_def NewStore_def archive_of_def decimal_def decimal_nat.simps
      char_of_def Let_def bit_0)

end
