(* ===== verification/StorageRefinement.thy ===== *)
theory StorageRefinement
  imports StorageCalls StorageProps
begin

text \<open>
  The file store implements the same interfaces as the in-memory store.  On calls whose names have files of
  their own every run of the file store is a run of the in-memory store, with the same replies; which names
  do not, and what then goes wrong, is stated exactly.
\<close>

section \<open>Calls on plain names\<close>

fun plain_user :: "user_call \<Rightarrow> bool" where
  "plain_user (CallCreateUser now u) = plain_name (u_Username u)"
| "plain_user (CallGetUser n) = plain_name n"
| "plain_user (CallUpdateUser now u) = plain_name (u_Username u)"
| "plain_user (CallDeleteUser n) = plain_name n"
| "plain_user (CallUserExists n) = plain_name n"
| "plain_user (CallAuthenticate n pw) = plain_name n"

fun plain_roster :: "roster_call \<Rightarrow> bool" where
  "plain_roster (CallUpsertRosterItem i) = plain_name (ri_UserJID i)"
| "plain_roster (CallGetRosterItem k) = plain_name (fst k)"
| "plain_roster (CallGetRosterItems u) = plain_name u"
| "plain_roster (CallDeleteRosterItem k) = plain_name (fst k)"
| "plain_roster (CallGetRosterVersion u) = plain_name u"
| "plain_roster (CallSetRosterVersion u v) = plain_name u"

fun plain_blocking :: "blocking_call \<Rightarrow> bool" where
  "plain_blocking (CallBlockJID u j) = plain_name u"
| "plain_blocking (CallUnblockJID u j) = plain_name u"
| "plain_blocking (CallIsBlocked u j) = plain_name u"
| "plain_blocking (CallGetBlockedJIDs u) = plain_name u"

fun plain_vcard :: "vcard_call \<Rightarrow> bool" where
  "plain_vcard (CallSetVCard u d) = plain_name u"
| "plain_vcard (CallGetVCard u) = plain_name u"
| "plain_vcard (CallDeleteVCard u) = plain_name u"

fun plain_offline :: "offline_call \<Rightarrow> bool" where
  "plain_offline (CallStoreOfflineMessage now m) = plain_name (off_UserJID m)"
| "plain_offline (CallGetOfflineMessages u) = plain_name u"
| "plain_offline (CallDeleteOfflineMessages u) = plain_name u"
| "plain_offline (CallCountOfflineMessages u) = plain_name u"

fun plain_mam :: "mam_call \<Rightarrow> bool" where
  "plain_mam (CallArchiveMessage now m) = plain_name (am_UserJID m)"
| "plain_mam (CallQueryMessages q) = plain_name (q_UserJID q)"
| "plain_mam (CallDeleteMessageArchive u) = plain_name u"

fun plain_muc :: "muc_call \<Rightarrow> bool" where
  "plain_muc (CallCreateRoom r) = plain_name (room_RoomJID r)"
| "plain_muc (CallGetRoom j) = plain_name j"
| "plain_muc (CallUpdateRoom r) = plain_name (room_RoomJID r)"
| "plain_muc (CallDeleteRoom j) = plain_name j"
| "plain_muc CallListRooms = True"
| "plain_muc (CallSetAffiliation a) = plain_name (aff_RoomJID a)"
| "plain_muc (CallGetAffiliation k) = plain_name (fst k)"
| "plain_muc (CallGetAffiliations j) = plain_name j"
| "plain_muc (CallRemoveAffiliation k) = plain_name (fst k)"

fun plain_pubsub :: "pubsub_call \<Rightarrow> bool" where
  "plain_pubsub (CallCreateNode n) = plain_node (node_Host n, node_NodeID n)"
| "plain_pubsub (CallGetNode k) = plain_node k"
| "plain_pubsub (CallDeleteNode k) = plain_node k"
| "plain_pubsub (CallListNodes h) = plain_host h"
| "plain_pubsub (CallUpsertItem now i) = plain_node (item_Host i, item_NodeID i)"
| "plain_pubsub (CallGetItem k) = plain_node (fst k, fst (snd k))"
| "plain_pubsub (CallGetItems k) = plain_node k"
| "plain_pubsub (CallDeleteItem k) = plain_node (fst k, fst (snd k))"
| "plain_pubsub (CallSubscribe b) = plain_node (sub_Host b, sub_NodeID b)"
| "plain_pubsub (CallUnsubscribe k) = plain_node (fst k, fst (snd k))"
| "plain_pubsub (CallGetSubscription k) = plain_node (fst k, fst (snd k))"
| "plain_pubsub (CallGetSubscriptions k) = plain_node k"
| "plain_pubsub (CallGetUserSubscriptions h j) = plain_host h"

fun plain_bookmark :: "bookmark_call \<Rightarrow> bool" where
  "plain_bookmark (CallSetBookmark b) = plain_name (bm_UserJID b)"
| "plain_bookmark (CallGetBookmark k) = plain_name (fst k)"
| "plain_bookmark (CallGetBookmarks u) = plain_name u"
| "plain_bookmark (CallDeleteBookmark k) = plain_name (fst k)"

fun plain_call :: "storage_call \<Rightarrow> bool" where
  "plain_call (UserStore c) = plain_user c"
| "plain_call (RosterStore c) = plain_roster c"
| "plain_call (BlockingStore c) = plain_blocking c"
| "plain_call (VCardStore c) = plain_vcard c"
| "plain_call (OfflineStore c) = plain_offline c"
| "plain_call (MAMStore c) = plain_mam c"
| "plain_call (MUCRoomStore c) = plain_muc c"
| "plain_call (PubSubStore c) = plain_pubsub c"
| "plain_call (BookmarkStore c) = plain_bookmark c"

section \<open>The simulation relation\<close>

abbreviation or_else :: "'d \<Rightarrow> 'd option \<Rightarrow> 'd" where
  "or_else z \<equiv> \<lambda>r. case r of None \<Rightarrow> z | Some v \<Rightarrow> v"

definition roster_view :: "rosterFile option \<Rightarrow> (string \<rightharpoonup> RosterItem)" where
  "roster_view r = (case r of None \<Rightarrow> Map.empty | Some rf \<Rightarrow> or_else Map.empty (rf_Items rf))"

text \<open>The tables of the in-memory store as functions of the keys that name a file.\<close>

definition table_or :: "'d \<Rightarrow> ('k \<rightharpoonup> 'd) \<Rightarrow> 'k \<Rightarrow> 'd" where
  "table_or z m k = or_else z (m k)"

definition pairs :: "('a \<rightharpoonup> 'b \<rightharpoonup> 'v) \<Rightarrow> 'a \<times> 'b \<Rightarrow> 'v option" where
  "pairs m k = get2 m (fst k) (snd k)"

definition pair_inner :: "('a \<rightharpoonup> 'b \<rightharpoonup> 'c \<rightharpoonup> 'v) \<Rightarrow> 'a \<times> 'b \<Rightarrow> ('c \<rightharpoonup> 'v)" where
  "pair_inner m k = inner (inner m (fst k)) (snd k)"

definition stores :: "FileStore \<Rightarrow> MemStore \<Rightarrow> bool" where
  "stores f s \<longleftrightarrow>
     represents plain_name json_name (\<lambda>r. r) (d_users f) (users s) \<and>
     represents plain_name json_name roster_view (d_roster f) (inner (rosterItems s)) \<and>
     represents plain_name json_name (or_else []) (d_roster_versions f) (table_or [] (rosterVersions s)) \<and>
     represents plain_name json_name (or_else Map.empty) (d_blocking f) (inner (blocked s)) \<and>
     represents plain_name xml_name (\<lambda>r. r) (d_vcards f) (vcards s) \<and>
     represents plain_name json_name (or_else []) (d_offline f) (table_or [] (offlineMsgs s)) \<and>
     represents plain_name json_name (or_else []) (d_mam f) (table_or [] (mamMessages s)) \<and>
     represents plain_name json_name (\<lambda>r. r) (d_muc_rooms f) (mucRooms s) \<and>
     represents plain_name json_name (or_else Map.empty) (d_muc_affiliations f) (inner (mucAffiliations s)) \<and>
     represents plain_node pubsub_name (\<lambda>r. r) (d_pubsub_nodes f) (pairs (pubsubNodes s)) \<and>
     represents plain_node pubsub_name (or_else Map.empty) (d_pubsub_items f) (pair_inner (pubsubItems s)) \<and>
     represents plain_node pubsub_name (or_else Map.empty) (d_pubsub_subscriptions f) (pair_inner (pubsubSubscriptions s)) \<and>
     represents plain_name json_name (or_else Map.empty) (d_bookmarks f) (inner (bookmarks s)) \<and>
     mamCounter f = mamIDCounter s"

lemma empty_tables:
  "inner Map.empty = (\<lambda>k. Map.empty)" "table_or z Map.empty = (\<lambda>k. z)" "pairs Map.empty = (\<lambda>k. None)"
  "pair_inner Map.empty = (\<lambda>k. Map.empty)"
  by (simp_all add: fun_eq_iff inner_def table_or_def pairs_def pair_inner_def)

lemma stores_Init: "stores (fst (file_Init empty_disk)) NewStore"
  by (simp add: stores_def represents_def file_Init_def empty_disk_def os_MkdirAll_def roster_view_def
      NewStore_def empty_tables)

section \<open>One step\<close>

text \<open>How the operations of the in-memory store change its tables.\<close>

lemma inner_put2 [simp]: "inner (put2 m a b v) = (inner m)(a := (inner m a)(b \<mapsto> v))"
  by (auto simp: inner_def put2_def fun_eq_iff)

lemma inner_del2 [simp]: "inner (del2 m a b) = (inner m)(a := (inner m a)(b := None))"
  by (auto simp: inner_def del2_def fun_eq_iff split: option.splits)

lemma inner_upd [simp]: "inner (m(a \<mapsto> n)) = (inner m)(a := n)" "inner (m(a := None)) = (inner m)(a := Map.empty)"
  by (auto simp: inner_def fun_eq_iff)

definition step_matches :: "FileStore \<times> storage_reply \<Rightarrow> MemStore \<times> storage_reply \<Rightarrow> bool" where
  "step_matches x y \<longleftrightarrow> stores (fst x) (fst y) \<and> snd x = snd y"

lemma user_step:
  assumes "stores f s" and "plain_user c"
  shows "step_matches (file_user c f) (mem_user c s)"
proof -
  have u: "represents plain_name json_name (\<lambda>r. r) (d_users f) (users s)" using assms by (simp add: stores_def)
  note facts = json.write_entry [OF u] json.remove_entry [OF u] json.read_entry [OF u]
  show ?thesis using assms
    by (cases c)
      (auto simp: step_matches_def writes_def reads_def stores_def facts split_beta Let_def lookup_result_def
        file_CreateUser_def CreateUser_def file_GetUser_def GetUser_def file_UpdateUser_def UpdateUser_def
        file_DeleteUser_def DeleteUser_def file_UserExists_def UserExists_def
        file_Authenticate_def Authenticate_def split: option.splits)
qed

lemma table_or_simps [simp]:
  "table_or z (m(k \<mapsto> v)) = (table_or z m)(k := v)" "table_or z (m(k := None)) = (table_or z m)(k := z)"
  by (auto simp: table_or_def fun_eq_iff)

lemma of_table_or:
  "offline_of s = table_or [] (offlineMsgs s)" "archive_of s = table_or [] (mamMessages s)"
  "GetRosterVersion s = table_or [] (rosterVersions s)"
  by (auto simp: fun_eq_iff table_or_def offline_of_def archive_of_def GetRosterVersion_def)

lemma load_roster:
  assumes "represents plain_name json_name roster_view (d_roster f) t" and "plain_name u"
  shows "loadRoster f u = Inr (t u)"
  using assms
  by (auto simp: represents_def loadRoster_def readJSON_def os_ReadFile_def json.entry roster_view_def
      split: option.split)

lemma roster_step:
  assumes "stores f s" and "plain_roster c"
  shows "step_matches (file_roster ks c f) (mem_roster ks c s)"
proof -
  have r: "represents plain_name json_name roster_view (d_roster f) (inner (rosterItems s))"
    and v: "represents plain_name json_name (or_else []) (d_roster_versions f) (table_or [] (rosterVersions s))"
    using assms by (simp_all add: stores_def)
  note facts = json.write_entry(2-) [OF r] load_roster [OF r] json.write_entry(2-) [OF v]
    json.write_loaded [OF v]
  have load: "plain_name u \<Longrightarrow> file_GetRosterVersion f u = Inr (table_or [] (rosterVersions s) u)" for u
    using json.load_entry [OF v, of u] by (simp add: file_GetRosterVersion_def load_or_def)
  have del: "DeleteRosterItem k s =
      (if inner (rosterItems s) (fst k) (snd k) = None then (s, Some ErrNotFound)
       else (s\<lparr>rosterItems := (rosterItems s)(fst k \<mapsto> (inner (rosterItems s) (fst k))(snd k := None))\<rparr>, None))" for k
    by (simp add: DeleteRosterItem_def inner_def split: option.splits)
  have upd: "represents plain_name json_name roster_view
      (fst (os_WriteFile (json_name u) \<lparr>rf_Items = Some m\<rparr> (d_roster f))) ((inner (rosterItems s))(u := m))"
    if "plain_name u" for u m
    using json.write_entry(1) [OF r that, of "\<lparr>rf_Items = Some m\<rparr>"] by (simp add: roster_view_def)
  show ?thesis using assms
    by (cases c)
      (auto simp: step_matches_def writes_def reads_def stores_def facts load upd split_beta of_table_or
        lookup_result_def saveRoster_def file_UpsertRosterItem_def UpsertRosterItem_def
        file_GetRosterItem_def GetRosterItem_def inner_get2 file_GetRosterItems_def GetRosterItems_def
        file_DeleteRosterItem_def del file_SetRosterVersion_def SetRosterVersion_def)
qed

lemma blocking_step:
  assumes "stores f s" and "plain_blocking c"
  shows "step_matches (file_blocking ks c f) (mem_blocking ks c s)"
proof -
  have b: "represents plain_name json_name (or_else Map.empty) (d_blocking f) (inner (blocked s))"
    using assms by (simp add: stores_def)
  have blocked: "IsBlocked s u j = or_else False (inner (blocked s) u j)" for u j
    by (simp add: IsBlocked_def inner_def split: option.splits)
  show ?thesis using assms
    by (cases c)
      (auto simp: step_matches_def writes_def reads_def stores_def json.write_entry(2-) [OF b]
        loadBlocked_def json.write_loaded [OF b] json.load_entry [OF b] split_beta saveBlocked_def file_BlockJID_def BlockJID_def
        file_UnblockJID_def UnblockJID_def file_IsBlocked_def blocked file_GetBlockedJIDs_def GetBlockedJIDs_def)
qed

lemma vcard_step:
  assumes "stores f s" and "plain_vcard c"
  shows "step_matches (file_vcard c f) (mem_vcard c s)"
proof -
  have v: "represents plain_name xml_name (\<lambda>r. r) (d_vcards f) (vcards s)" using assms by (simp add: stores_def)
  have get: "file_GetVCard f u = readJSON (d_vcards f) (xml_name u)" for u
    by (simp add: file_GetVCard_def readJSON_def)
  show ?thesis using assms
    by (cases c)
      (auto simp: step_matches_def writes_def reads_def stores_def xml.write_entry [OF v] xml.remove_entry [OF v]
        xml.read_entry [OF v] split_beta Let_def lookup_result_def os_failure_def file_SetVCard_def SetVCard_def
        get GetVCard_def file_DeleteVCard_def DeleteVCard_def split: option.splits)
qed

lemma offline_step:
  assumes "stores f s" and "plain_offline c"
  shows "step_matches (file_offline c f) (mem_offline c s)"
proof -
  have o: "represents plain_name json_name (or_else []) (d_offline f) (table_or [] (offlineMsgs s))"
    using assms by (simp add: stores_def)
  show ?thesis using assms
    by (cases c)
      (auto simp: step_matches_def writes_def reads_def stores_def json.write_entry(2-) [OF o]
        json.remove_entry(2,3) [OF o] loadOffline_def json.write_loaded [OF o] json.load_entry [OF o] split_beta Let_def of_table_or
        file_StoreOfflineMessage_def StoreOfflineMessage_def file_GetOfflineMessages_def GetOfflineMessages_def
        file_DeleteOfflineMessages_def DeleteOfflineMessages_def file_CountOfflineMessages_def
        CountOfflineMessages_def)
qed

lemma mam_step:
  assumes "stores f s" and "plain_mam c"
  shows "step_matches (file_mam c f) (mem_mam c s)"
proof -
  have o: "represents plain_name json_name (or_else []) (d_mam f) (table_or [] (mamMessages s))"
    using assms by (simp add: stores_def)
  show ?thesis using assms
    by (cases c)
      (auto simp: step_matches_def writes_def reads_def stores_def json.write_entry(2-) [OF o]
        json.remove_entry(2,3) [OF o] loadMAM_def json.write_loaded [OF o] json.load_entry [OF o] split_beta Let_def of_table_or
        file_ArchiveMessage_def ArchiveMessage_def file_QueryMessages_def QueryMessages_def
        file_DeleteMessageArchive_def DeleteMessageArchive_def)
qed

lemma bookmark_step:
  assumes "stores f s" and "plain_bookmark c"
  shows "step_matches (file_bookmark ks c f) (mem_bookmark ks c s)"
proof -
  have b: "represents plain_name json_name (or_else Map.empty) (d_bookmarks f) (inner (bookmarks s))"
    using assms by (simp add: stores_def)
  show ?thesis using assms
    by (cases c)
      (auto simp: step_matches_def writes_def reads_def stores_def json.write_entry(2-) [OF b]
        loadBookmarks_def json.write_loaded [OF b] json.load_entry [OF b] split_beta saveBookmarks_def file_SetBookmark_def SetBookmark_def
        file_GetBookmark_def GetBookmark_def lookup_result_def file_GetBookmarks_def GetBookmarks_def
        file_DeleteBookmark_def DeleteBookmark_def inner_get2)
qed

lemma muc_step:
  assumes "stores f s" and "plain_muc c" and "c \<noteq> CallListRooms"
  shows "step_matches (file_muc ks c f) (mem_muc ks c s)"
proof -
  have r: "represents plain_name json_name (\<lambda>r. r) (d_muc_rooms f) (mucRooms s)"
    and a: "represents plain_name json_name (or_else Map.empty) (d_muc_affiliations f) (inner (mucAffiliations s))"
    using assms by (simp_all add: stores_def)
  note facts = json.write_entry [OF r] json.remove_entry [OF r] json.read_entry [OF r]
    json.write_entry(2-) [OF a] json.write_loaded [OF a] json.load_entry [OF a]
  show ?thesis using assms
    by (cases c)
      (auto simp: step_matches_def writes_def reads_def stores_def facts split_beta Let_def lookup_result_def
        file_CreateRoom_def CreateRoom_def file_GetRoom_def GetRoom_def file_UpdateRoom_def UpdateRoom_def
        file_DeleteRoom_def DeleteRoom_def loadAffs_def saveAffs_def file_SetAffiliation_def SetAffiliation_def
        file_GetAffiliation_def GetAffiliation_def file_GetAffiliations_def GetAffiliations_def
        file_RemoveAffiliation_def RemoveAffiliation_def inner_get2)
qed

lemma ListRooms_step:
  assumes "stores f s" and "ReadDir_returns (d_muc_rooms f) es"
  shows "\<exists>ks. enumerates ks (mucRooms s) \<and> file_ListRooms es f = Inr (ListRooms ks s)"
proof -
  have r: "represents plain_name json_name (\<lambda>r. r) (d_muc_rooms f) (mucRooms s)"
    using assms by (simp add: stores_def)
  from json.listing [OF r assms(2)] obtain ks where ks: "es = map json_name ks" "distinct ks"
      "\<forall>k \<in> set ks. plain_name k" "\<And>k. mucRooms s k \<noteq> None \<Longrightarrow> k \<in> set ks" by blast
  let ?ks = "filter (\<lambda>k. mucRooms s k \<noteq> None) ks"
  have "enumerates ?ks (mucRooms s)" using ks by (auto simp: enumerates_def)
  moreover have "range_values ks (mucRooms s) = range_values ?ks (mucRooms s)"
    by (induction ks) (auto split: option.split)
  ultimately show ?thesis
    using json.read_listing [OF r ks(3)] ks(1) r
    by (auto simp: file_ListRooms_def ListRooms_def represents_def intro!: exI [of _ ?ks])
qed

text \<open>The tables that are keyed by a host and a node.\<close>

lemma pairs_simps [simp]:
  "pairs (put2 m a b v) = (pairs m)((a, b) \<mapsto> v)" "pairs (del2 m a b) = (pairs m)((a, b) := None)"
  by (auto simp: pairs_def fun_eq_iff)

lemma pair_inner_simps [simp]:
  "pair_inner (put2 m a b n) = (pair_inner m)((a, b) := n)"
  "pair_inner (del2 m a b) = (pair_inner m)((a, b) := Map.empty)"
  "pair_inner (put3 m a b c v) = (pair_inner m)((a, b) := (pair_inner m (a, b))(c \<mapsto> v))"
  by (auto simp: pair_inner_def put3_def fun_eq_iff)

lemma pair_inner_get3: "get3 m a b c = pair_inner m (a, b) c"
  by (simp add: pair_inner_def inner_inner)

lemma pubsub_memory_eqs:
  "CreateNode n s =
     (if pairs (pubsubNodes s) (node_Host n, node_NodeID n) \<noteq> None
      then (s\<lparr>pubsubNodes := (pubsubNodes s)(node_Host n \<mapsto> inner (pubsubNodes s) (node_Host n))\<rparr>, Some ErrUserExists)
      else (s\<lparr>pubsubNodes := put2 (pubsubNodes s) (node_Host n) (node_NodeID n) n\<rparr>, None))"
  "DeleteItem (h, k, i) s =
     (if pair_inner (pubsubItems s) (h, k) i = None then (s, Some ErrNotFound)
      else (s\<lparr>pubsubItems := put2 (pubsubItems s) h k ((pair_inner (pubsubItems s) (h, k))(i := None))\<rparr>, None))"
  "snd (Unsubscribe (h, k, i) s) = None"
  "pair_inner (pubsubSubscriptions (fst (Unsubscribe (h, k, i) s))) =
     (pair_inner (pubsubSubscriptions s))((h, k) := (pair_inner (pubsubSubscriptions s) (h, k))(i := None))"
  "\<exists>m. fst (Unsubscribe (h, k, i) s) = s\<lparr>pubsubSubscriptions := m\<rparr>"
  by (auto simp: CreateNode_def Let_def pairs_def get2_def inner_def put2_def DeleteItem_def pair_inner_def
      Unsubscribe_def fun_eq_iff split: option.splits intro: exI [of _ "pubsubSubscriptions s"])

lemma pairs_inner_idem [simp]: "pairs (m(a \<mapsto> inner m a)) = pairs m"
  by (auto simp: pairs_def get2_def inner_def fun_eq_iff split: option.splits)

lemma Unsubscribe_step:
  assumes "stores f s" and "plain_node (h, n)"
  shows "step_matches (writes (file_Unsubscribe (h, n, j)) f) (writes (Unsubscribe (h, n, j)) s)"
proof -
  have b: "represents plain_node pubsub_name (or_else Map.empty) (d_pubsub_subscriptions f)
      (pair_inner (pubsubSubscriptions s))"
    using assms by (simp add: stores_def)
  obtain m where m: "fst (Unsubscribe (h, n, j) s) = s\<lparr>pubsubSubscriptions := m\<rparr>"
    using pubsub_memory_eqs(5) by blast
  with pubsub_memory_eqs(4) [of h n j s]
  have "pair_inner m = (pair_inner (pubsubSubscriptions s))
      ((h, n) := (pair_inner (pubsubSubscriptions s) (h, n))(j := None))" by simp
  with assms m show ?thesis
    by (simp add: step_matches_def writes_def stores_def file_Unsubscribe_def loadPubsubSubs_def saveSubs_def
        pubsub.load_entry [OF b] pubsub.write_entry(2-) [OF b] pubsub.write_loaded [OF b] split_beta
        pubsub_memory_eqs(3))
qed

lemma pubsub_step:
  assumes "stores f s" and "plain_pubsub c" and "\<forall>h j. c \<noteq> CallListNodes h \<and> c \<noteq> CallGetUserSubscriptions h j"
  shows "step_matches (file_pubsub ks c f) (mem_pubsub ks c s)"
proof -
  have n: "represents plain_node pubsub_name (\<lambda>r. r) (d_pubsub_nodes f) (pairs (pubsubNodes s))"
    and i: "represents plain_node pubsub_name (or_else Map.empty) (d_pubsub_items f) (pair_inner (pubsubItems s))"
    and b: "represents plain_node pubsub_name (or_else Map.empty) (d_pubsub_subscriptions f)
      (pair_inner (pubsubSubscriptions s))"
    using assms by (simp_all add: stores_def)
  note facts = pubsub.write_entry [OF n] pubsub.remove_entry [OF n] pubsub.read_entry [OF n]
    pubsub.write_entry(2-) [OF i] pubsub.write_loaded [OF i] pubsub.load_entry [OF i]
    pubsub.write_entry(2-) [OF b] pubsub.write_loaded [OF b] pubsub.load_entry [OF b]
  have get: "GetNode s k = lookup_result (pairs (pubsubNodes s) k)" for k
    by (simp add: GetNode_def pairs_def lookup_result_def)
  show ?thesis
  proof (cases "\<exists>k. c = CallUnsubscribe k")
    case True
    with assms Unsubscribe_step show ?thesis by auto
  next
    case False
    then show ?thesis using assms
      by (cases c)
        (auto simp: step_matches_def writes_def reads_def stores_def facts split_beta Let_def lookup_result_def
          file_CreateNode_def pubsub_memory_eqs(1,2) file_GetNode_def get file_DeleteNode_def DeleteNode_def
          pairs_def [symmetric] loadPubsubItems_def saveItems_def file_UpsertItem_def UpsertItem_def
          file_GetItem_def GetItem_def pair_inner_get3 file_GetItems_def GetItems_def pair_inner_def [symmetric]
          file_DeleteItem_def loadPubsubSubs_def saveSubs_def file_Subscribe_def Subscribe_def
          file_GetSubscription_def GetSubscription_def file_GetSubscriptions_def GetSubscriptions_def)
  qed
qed

lemma range_values_filter: "range_values (filter (\<lambda>k. t k \<noteq> None) ks) t = range_values ks t"
  by (induction ks) (auto split: option.split)

lemma range_values_map: "range_values (map g ks) t = range_values ks (\<lambda>k. t (g k))"
  by (induction ks) (simp_all split: option.split)

lemma range_values_cong: "(\<And>k. k \<in> set ks \<Longrightarrow> t k = u k) \<Longrightarrow> range_values ks t = range_values ks u"
  by (induction ks) (simp_all split: option.split)

lemma ListNodes_step:
  assumes "stores f s" and "plain_host h" and "ReadDir_returns (d_pubsub_nodes f) es"
  shows "\<exists>ks. enumerates ks (inner (pubsubNodes s) h) \<and> file_ListNodes es f h = Inr (ListNodes ks s h)"
proof -
  have n: "represents plain_node pubsub_name (\<lambda>r. r) (d_pubsub_nodes f) (pairs (pubsubNodes s))"
    using assms by (simp add: stores_def)
  from pubsub.listing [OF n assms(3)] obtain ks where ks: "es = map pubsub_name ks" "distinct ks"
      "\<forall>k \<in> set ks. plain_node k" "\<And>k. pairs (pubsubNodes s) k \<noteq> None \<Longrightarrow> k \<in> set ks" by blast
  let ?own = "filter (\<lambda>k. fst k = h) ks"
  let ?ks = "filter (\<lambda>n. inner (pubsubNodes s) h n \<noteq> None) (map snd ?own)"
  have "distinct (map snd ?own)" using ks(2) by (auto simp: distinct_map inj_on_def prod_eq_iff)
  moreover have "n \<in> snd ` set ?own" if "inner (pubsubNodes s) h n \<noteq> None" for n
  proof -
    have "(h, n) \<in> set ks" using that ks(4) [of "(h, n)"] by (simp add: pairs_def inner_get2)
    then show ?thesis by (force intro: image_eqI [of _ _ "(h, n)"])
  qed
  ultimately have e: "enumerates ?ks (inner (pubsubNodes s) h)" by (auto simp: enumerates_def)
  have "read_entries (d_pubsub_nodes f) (filter (host_entry h) es) = range_values ?own (pairs (pubsubNodes s))"
    using pubsub.read_listing [OF n, of ?own] ks(1,3) filter_host_entry [OF ks(3) assms(2)] by simp
  also have "\<dots> = range_values ?own (\<lambda>k. inner (pubsubNodes s) h (snd k))"
    by (rule range_values_cong) (auto simp: pairs_def inner_get2)
  also have "\<dots> = range_values ?ks (inner (pubsubNodes s) h)"
    by (simp only: range_values_filter range_values_map)
  finally show ?thesis
    using e n by (auto simp: file_ListNodes_def ListNodes_def represents_def)
qed

lemma read_loaded:
  assumes "represents ok name (or_else Map.empty) d t" and "file_table ok name" and "\<forall>k \<in> set ks. ok k"
  shows "List.map_filter (\<lambda>subs. subs j) (read_entries d (map name ks)) = range_values ks (\<lambda>k. t k j)"
  using assms(3)
proof (induction ks)
  case Nil
  then show ?case by (simp add: read_entries_def List.map_filter_simps)
next
  case (Cons k ks)
  then have "load_or Map.empty d (name k) = Inr (t k)"
    using file_table.load_entry [OF assms(2,1)] by simp
  then have "t k = (case readJSON d (name k) of Inl e \<Rightarrow> Map.empty | Inr v \<Rightarrow> v)"
    by (auto simp: load_or_def split: sum.splits if_splits)
  with Cons show ?case
    by (auto simp: read_entries_def List.map_filter_simps split: sum.splits option.splits)
qed

lemma GetUserSubscriptions_step:
  assumes "stores f s" and "plain_host h" and "ReadDir_returns (d_pubsub_subscriptions f) es"
  shows "\<exists>ks. mem_order ks (PubSubStore (CallGetUserSubscriptions h j)) s \<and>
    file_GetUserSubscriptions es f h j = Inr (GetUserSubscriptions ks s h j)"
proof -
  have b: "represents plain_node pubsub_name (or_else Map.empty) (d_pubsub_subscriptions f)
      (pair_inner (pubsubSubscriptions s))"
    using assms by (simp add: stores_def)
  from pubsub.listing [OF b assms(3)] obtain ks where ks: "es = map pubsub_name ks" "distinct ks"
      "\<forall>k \<in> set ks. plain_node k" "\<And>k. pair_inner (pubsubSubscriptions s) k \<noteq> Map.empty \<Longrightarrow> k \<in> set ks"
    by (metis option.case(1))
  let ?own = "filter (\<lambda>k. fst k = h) ks"
  let ?ks = "map snd ?own"
  have "distinct ?ks" using ks(2) by (auto simp: distinct_map inj_on_def prod_eq_iff)
  moreover have "n \<in> set ?ks" if "get3 (pubsubSubscriptions s) h n j \<noteq> None" for n
  proof -
    have "pair_inner (pubsubSubscriptions s) (h, n) \<noteq> Map.empty" using that by (auto simp: pair_inner_get3)
    then have "(h, n) \<in> set ks" by (rule ks(4))
    then show ?thesis by (force intro: image_eqI [of _ _ "(h, n)"])
  qed
  moreover have "List.map_filter (\<lambda>subs. subs j) (read_entries (d_pubsub_subscriptions f) (filter (host_entry h) es)) =
      range_values ?own (\<lambda>k. pair_inner (pubsubSubscriptions s) k j)"
    using read_loaded [OF b pubsub.file_table_axioms, of ?own] ks(1,3) filter_host_entry [OF ks(3) assms(2)] by simp
  moreover have "\<dots> = range_values ?ks (\<lambda>n. get3 (pubsubSubscriptions s) h n j)"
    unfolding range_values_map by (rule range_values_cong) (auto simp: pair_inner_get3)
  ultimately show ?thesis
    using b by (auto simp: file_GetUserSubscriptions_def GetUserSubscriptions_def represents_def
        intro!: exI [of _ ?ks])
qed

section \<open>Refinement\<close>

lemma step_matchesD:
  "step_matches x y \<Longrightarrow> x = (f', r) \<Longrightarrow> \<exists>s'. y = (s', r) \<and> stores f' s'"
  by (cases y) (auto simp: step_matches_def)

text \<open>Calls that loop over the map of one file visit the keys of the same map.\<close>

lemma same_order:
  assumes "stores f s" and "plain_call c" and "file_order ks c f"
    and "c \<noteq> MUCRoomStore CallListRooms" and "\<forall>h j. c \<noteq> PubSubStore (CallListNodes h) \<and> c \<noteq> PubSubStore (CallGetUserSubscriptions h j)"
  shows "mem_order ks c s"
proof -
  from assms(1)
  have "represents plain_name json_name roster_view (d_roster f) (inner (rosterItems s))"
    "represents plain_name json_name (or_else Map.empty) (d_blocking f) (inner (blocked s))"
    "represents plain_name json_name (or_else Map.empty) (d_muc_affiliations f) (inner (mucAffiliations s))"
    "represents plain_node pubsub_name (or_else Map.empty) (d_pubsub_items f) (pair_inner (pubsubItems s))"
    "represents plain_node pubsub_name (or_else Map.empty) (d_pubsub_subscriptions f) (pair_inner (pubsubSubscriptions s))"
    "represents plain_name json_name (or_else Map.empty) (d_bookmarks f) (inner (bookmarks s))"
    by (simp_all add: stores_def)
  note rep = load_roster [OF this(1)] json.load_entry [OF this(2)] json.load_entry [OF this(3)]
    pubsub.load_entry [OF this(4)] pubsub.load_entry [OF this(5)] json.load_entry [OF this(6)]
  show ?thesis
    using assms(2-) rep
    by (cases "(ks, c, s)" rule: mem_order.cases)
      (auto simp: loaded_order_def loadBlocked_def loadAffs_def loadPubsubItems_def loadPubsubSubs_def
        loadBookmarks_def pair_inner_def)
qed

lemma call_step:
  assumes "stores f s" and "plain_call c" and "file_order ks c f" and "file_call ks c f = (f', r)"
  shows "\<exists>ks' s'. mem_order ks' c s \<and> mem_call ks' c s = (s', r) \<and> stores f' s'"
proof -
  consider (rooms) "c = MUCRoomStore CallListRooms"
    | (nodes) h where "c = PubSubStore (CallListNodes h)"
    | (subs) h j where "c = PubSubStore (CallGetUserSubscriptions h j)"
    | (other) "c \<noteq> MUCRoomStore CallListRooms"
        "\<forall>h j. c \<noteq> PubSubStore (CallListNodes h) \<and> c \<noteq> PubSubStore (CallGetUserSubscriptions h j)"
    by blast
  then show ?thesis
  proof cases
    case rooms
    with assms ListRooms_step [of f s ks] show ?thesis by (auto simp: reads_def)
  next
    case nodes
    with assms ListNodes_step [of f s h ks] show ?thesis by (auto simp: reads_def)
  next
    case subs
    with assms GetUserSubscriptions_step [of f s h ks j] show ?thesis by (auto simp: reads_def)
  next
    case other
    have "step_matches (file_call ks c f) (mem_call ks c s)"
      using assms(1,2) other
      by (cases c) (auto intro: user_step roster_step blocking_step vcard_step offline_step mam_step muc_step
          pubsub_step bookmark_step)
    with step_matchesD [OF this assms(4)] same_order [OF assms(1-3) other] show ?thesis by blast
  qed
qed

interpretation file_mem: store_simulation file_order file_call mem_order mem_call plain_call stores
  by unfold_locales (rule call_step)

text \<open>
  C37: the file store refines the in-memory store.  Take any run of the file store from an initialised
  empty directory, any calls of all nine interfaces with any replies it may give (for every order in which
  Go visits maps, and with the order of file names for directories), in which users, rooms and nodes have
  plain names: bytes other than NUL and those that \<open>safeFileName\<close> replaces, short enough for the file
  system, and no underscore in the host of a node.  Then the in-memory store, started empty, has a run with
  the same calls and the same replies: every value read, every error, every list.
\<close>

theorem file_store_refines_memory:
  assumes "runs file_order file_call (fst (file_Init empty_disk)) tr f"
    and "\<forall>(c, r) \<in> set tr. plain_call c"
  shows "\<exists>s. runs mem_order mem_call NewStore tr s \<and> stores f s"
  using file_mem.simulation [OF assms(1) stores_Init assms(2)] .

definition demo_run :: "(storage_call \<times> storage_reply) list" where
  "demo_run =
     [(UserStore (CallCreateUser 5 demo_user), Done None),
      (UserStore (CallCreateUser 6 demo_user), Done (Some ErrUserExists)),
      (UserStore (CallAuthenticate ''ann'' ''pw''), ReplyAuth (True, None)),
      (PubSubStore (CallCreateNode demo_node), Done None),
      (PubSubStore (CallListNodes ''h''), ReplyNodes (Inr [demo_node]))]"

lemmas file_eval = file_Init_def empty_disk_def os_MkdirAll_def writes_def reads_def Let_def split_beta
  file_exists_def os_entry_def writeJSON_def readJSON_def os_WriteFile_def os_ReadFile_def os_failure_def
  json_name_def pubsub_name_def safeFileName_def unsafe_char_def

lemma demo_run_of_file_store: "\<exists>f. runs file_order file_call (fst (file_Init empty_disk)) demo_run f"
proof -
  let ?f0 = "fst (file_Init empty_disk)"
  let ?f1 = "fst (file_CreateUser 5 demo_user ?f0)"
  let ?f2 = "fst (file_CreateNode demo_node ?f1)"
  have 1: "file_call [] (UserStore (CallCreateUser 5 demo_user)) ?f0 = (?f1, Done None)"
    by (simp add: file_CreateUser_def file_eval demo_user_def)
  have 2: "file_call [] (UserStore (CallCreateUser 6 demo_user)) ?f1 = (?f1, Done (Some ErrUserExists))"
    by (simp add: file_CreateUser_def file_eval demo_user_def)
  have 3: "file_call [] (UserStore (CallAuthenticate ''ann'' ''pw'')) ?f1 = (?f1, ReplyAuth (True, None))"
    by (simp add: file_CreateUser_def file_Authenticate_def file_eval demo_user_def)
  have 4: "file_call [] (PubSubStore (CallCreateNode demo_node)) ?f1 = (?f2, Done None)"
    by (simp add: file_CreateUser_def file_CreateNode_def file_eval demo_user_def demo_node_def)
  have d: "d_pubsub_nodes ?f2 = Some [''h_n.json'' \<mapsto> demo_node]"
    by (simp add: file_CreateUser_def file_CreateNode_def file_eval demo_user_def demo_node_def)
  have "file_ListNodes [''h_n.json''] f ''h'' = Inr [demo_node]"
    if "d_pubsub_nodes f = Some [''h_n.json'' \<mapsto> demo_node]" for f
    by (simp add: file_ListNodes_def that read_entries_def List.map_filter_simps host_entry_def readJSON_def
        os_ReadFile_def os_entry_def safeFileName_def unsafe_char_def)
  with d have 5: "file_call [''h_n.json''] (PubSubStore (CallListNodes ''h'')) ?f2 = (?f2, ReplyNodes (Inr [demo_node]))"
    by (simp add: reads_def)
  have o: "file_order [''h_n.json''] (PubSubStore (CallListNodes ''h'')) ?f2"
    by (simp add: ReadDir_returns_def d enumerates_def)
  note cons = runs_Cons [where order = file_order and call = file_call]
  show ?thesis
    unfolding demo_run_def
    by (rule exI, rule cons [OF _ 1], simp, rule cons [OF _ 2], simp, rule cons [OF _ 3], simp,
        rule cons [OF _ 4], simp, rule cons [OF o 5], rule runs_Nil)
qed

theorem file_store_refines_memory_witness: "\<exists>s. runs mem_order mem_call NewStore demo_run s"
proof -
  obtain f where "runs file_order file_call (fst (file_Init empty_disk)) demo_run f"
    using demo_run_of_file_store by blast
  moreover have "\<forall>(c, r) \<in> set demo_run. plain_call c"
    by (simp add: demo_run_def demo_user_def demo_node_def plain_name_def plain_node_def plain_host_def
        plain_chars_def unsafe_char_def)
  ultimately show ?thesis using file_store_refines_memory by blast
qed

section \<open>Names that share a file\<close>

definition merged_char :: "char \<Rightarrow> bool" where
  "merged_char c \<longleftrightarrow> unsafe_char c \<or> c = CHR ''_''"

lemma safeFileName_eq_iff:
  "safeFileName a = safeFileName b \<longleftrightarrow> list_all2 (\<lambda>x y. x = y \<or> merged_char x \<and> merged_char y) a b"
proof (induction a arbitrary: b)
  case Nil
  then show ?case by (cases b) (auto simp: safeFileName_def)
next
  case (Cons x a)
  then show ?case
    by (cases b) (auto simp: safeFileName_def merged_char_def unsafe_char_def split: if_splits)
qed

lemma length_safeFileName: "length (safeFileName n) = length n"
  by (simp add: safeFileName_def)

lemma json_name_eq_iff: "json_name a = json_name b \<longleftrightarrow> safeFileName a = safeFileName b"
  by (simp add: json_name_def)

lemma set_safeFileName: "set (safeFileName n) \<inter> {c. unsafe_char c} = {}"
  by (auto simp: safeFileName_def unsafe_char_def)

lemma file_GetUser_eq:
  "d_users f = Some m \<Longrightarrow>
     file_GetUser f n =
       (if CHR 0x00 \<in> set n then Inl (BackendError (errno EINVAL))
        else if 250 < length n then Inl (BackendError (errno ENAMETOOLONG))
        else lookup_result (m (json_name n)))"
  by (simp add: file_GetUser_def readJSON_def os_ReadFile_def os_entry_def json_name_def length_safeFileName
      split: option.split)

lemma file_CreateUser_eq:
  "d_users f = Some m \<Longrightarrow> CHR 0x00 \<notin> set (u_Username user) \<Longrightarrow> length (u_Username user) \<le> 250 \<Longrightarrow>
     file_CreateUser now user f =
       (if m (json_name (u_Username user)) \<noteq> None then (f, Some ErrUserExists)
        else (f\<lparr>d_users := Some (m(json_name (u_Username user) \<mapsto> user\<lparr>u_CreatedAt := now, u_UpdatedAt := now\<rparr>))\<rparr>, None))"
  by (auto simp: file_CreateUser_def Let_def file_exists_def writeJSON_def os_WriteFile_def os_entry_def
      os_failure_def json_name_def length_safeFileName)

lemma file_Authenticate_GetUser:
  "file_Authenticate f u pw =
     (case file_GetUser f u of
        Inl _ \<Rightarrow> (False, Some ErrAuthFailed)
      | Inr r \<Rightarrow> if u_Password r = pw then (True, None) else (False, Some ErrAuthFailed))"
  by (simp add: file_Authenticate_def file_GetUser_def split: sum.splits)

text \<open>
  C38: the accounts of the file store.  The file of an account never leaves the directory: its name has no
  separator and is neither \<open>.\<close> nor \<open>..\<close>.  Creating an account whose name is too long or holds a NUL byte
  fails and changes nothing; otherwise it fails exactly when an account with the same safe name exists, and
  afterwards the account is found under exactly the names whose bytes agree with its own up to the
  characters that are replaced and the underscore; all other names answer as before.  So, unlike in the
  in-memory store, \<open>Authenticate\<close> accepts the password for a name that nobody registered.
\<close>

theorem file_accounts:
  assumes "d_users f = Some m"
  shows "CHR ''/'' \<notin> set (json_name n) \<and> json_name n \<noteq> ''.'' \<and> json_name n \<noteq> ''..'' \<and>
    (let name = u_Username user; r = file_CreateUser now user f in
      (if CHR 0x00 \<in> set name \<or> 250 < length name
       then (\<exists>e. r = (f, Some (BackendError e)))
       else (snd r = None \<longleftrightarrow> file_GetUser f name = Inl ErrNotFound) \<and>
            (snd r \<noteq> None \<longrightarrow> r = (f, Some ErrUserExists)) \<and>
            (snd r = None \<longrightarrow>
               file_GetUser (fst r) n =
                 (if list_all2 (\<lambda>x y. x = y \<or> merged_char x \<and> merged_char y) n name
                  then Inr (user\<lparr>u_CreatedAt := now, u_UpdatedAt := now\<rparr>) else file_GetUser f n) \<and>
               (list_all2 (\<lambda>x y. x = y \<or> merged_char x \<and> merged_char y) n name \<longrightarrow>
                  fst (file_Authenticate (fst r) n pw) = (pw = u_Password user)))))" (is "_ \<and> _ \<and> _ \<and> ?account")
proof (intro conjI)
  have "unsafe_char (CHR ''/'')" by (simp add: unsafe_char_def)
  with set_safeFileName [of n] have "CHR ''/'' \<notin> set (safeFileName n)" by blast
  then show "CHR ''/'' \<notin> set (json_name n)" by (simp add: json_name_def)
  show "json_name n \<noteq> ''.''" "json_name n \<noteq> ''..''"
    by (auto simp: json_name_def dest: arg_cong [where f = length])
  show ?account
  proof (cases "CHR 0x00 \<in> set (u_Username user) \<or> 250 < length (u_Username user)")
    case True
    then show ?thesis
      using assms
      by (cases "CHR 0x00 \<in> set (u_Username user)")
        (simp_all add: Let_def file_CreateUser_def file_exists_def writeJSON_def os_WriteFile_def os_entry_def
          os_failure_def json_name_def length_safeFileName)
  next
    case False
    let ?u = "u_Username user" and ?v = "user\<lparr>u_CreatedAt := now, u_UpdatedAt := now\<rparr>"
    let ?f = "f\<lparr>d_users := Some (m(json_name ?u \<mapsto> ?v))\<rparr>"
    have same: "CHR 0x00 \<notin> set n \<and> length n \<le> 250" if "json_name n = json_name ?u"
      using that False NUL_safeFileName [of n] NUL_safeFileName [of ?u] length_safeFileName [of n]
        length_safeFileName [of ?u] by (simp add: json_name_eq_iff)
    have get: "file_GetUser ?f n = (if json_name n = json_name ?u then Inr ?v else file_GetUser f n)"
      using same assms by (auto simp: file_GetUser_eq [of ?f] file_GetUser_eq [of f])
    have "file_GetUser f ?u = lookup_result (m (json_name ?u))" using False assms by (simp add: file_GetUser_eq)
    moreover have "file_CreateUser now user f = (if m (json_name ?u) \<noteq> None then (f, Some ErrUserExists) else (?f, None))"
      using file_CreateUser_eq [OF assms] False by simp
    ultimately show ?thesis
      using False get unfolding safeFileName_eq_iff [symmetric] json_name_eq_iff [symmetric] Let_def
      by (cases "m (json_name ?u)") (simp_all add: file_Authenticate_GetUser)
  qed
qed

theorem file_accounts_witness:
  "let user = demo_user\<lparr>u_Username := ''a*b''\<rparr>;
       f = fst (file_CreateUser 5 user (fst (file_Init empty_disk)))
   in fst (file_Authenticate f ''a?b'' ''pw'')"
proof -
  let ?user = "demo_user\<lparr>u_Username := ''a*b''\<rparr>" and ?f0 = "fst (file_Init empty_disk)"
  have d: "d_users ?f0 = Some Map.empty" by (simp add: file_Init_def empty_disk_def os_MkdirAll_def)
  have g: "file_GetUser ?f0 ''a*b'' = Inl ErrNotFound" using file_GetUser_eq [OF d] by simp
  have l: "list_all2 (\<lambda>x y. x = y \<or> merged_char x \<and> merged_char y) ''a?b'' ''a*b''"
    by (simp add: merged_char_def unsafe_char_def)
  show ?thesis
    using file_accounts [OF d, of "''a?b''" ?user 5 "''pw''"] g l by (simp add: Let_def demo_user_def)
qed

text \<open>Nodes of two hosts share a file, and a host lists the nodes of another, when a host has an underscore.\<close>

lemma nodes_share_a_file:
  "pubsub_name (''a_b'', ''c'') = pubsub_name (''a'', ''b_c'')"
  "host_entry ''a'' (pubsub_name (''a_b'', ''c''))"
  by (simp_all add: pubsub_name_def host_entry_def safeFileName_def unsafe_char_def Let_def)

text \<open>The counter of archive identifiers starts again with the process, the archive does not.\<close>

lemma restart_repeats_archive_ids:
  assumes "represents plain_name json_name (or_else []) (d_mam f) t" and "plain_name (am_UserJID msg)"
    and "am_ID msg = ''''" and "mamCounter f = 0"
  shows "let f1 = fst (file_ArchiveMessage now msg f); f2 = fst (file_ArchiveMessage now msg (f1\<lparr>mamCounter := 0\<rparr>))
     in map am_ID (projr (loadMAM f2 (am_UserJID msg))) = map am_ID (t (am_UserJID msg)) @ [''1'', ''1'']"
proof -
  let ?u = "am_UserJID msg"
  have one: "decimal (1 :: 64 word) = ''1''" by (simp add: decimal_def decimal_nat.simps [of "Suc 0"]) (code_simp)
  note a = json.load_entry [OF assms(1,2)] json.write_entry(2-) [OF assms(1,2)]
  note w = json.write_loaded(1) [OF assms(1,2)]
  note b = json.load_entry [OF w assms(2)] json.write_entry(2-) [OF w assms(2)]
  note w' = json.write_loaded(1) [OF w assms(2)]
  note c = json.load_entry [OF w' assms(2)]
  show ?thesis
    using assms(3,4) by (simp add: file_ArchiveMessage_def loadMAM_def a b c split_beta Let_def one)
qed

end
