(* ===== verification/XmppdRouter.thy ===== *)
theory XmppdRouter
  imports Jid
begin

text \<open>
  The table of bound sessions of the server (\<open>sessionRouter\<close> of cmd/xmppd/stream.go): sessions by full
  address, and by bare address and full address.  \<open>'s\<close> is a session pointer.  The theorem: under every
  history of registrations the two maps implement one partial function from addresses to sessions.
\<close>

section \<open>The table\<close>

record 's sessionRouter =
  byFull :: "string \<rightharpoonup> 's"
  byBare :: "string \<rightharpoonup> (string \<rightharpoonup> 's)"

definition newSessionRouter :: "'s sessionRouter" where
  "newSessionRouter = \<lparr>byFull = Map.empty, byBare = Map.empty\<rparr>"

definition router_register :: "JID \<Rightarrow> 's \<Rightarrow> 's sessionRouter \<Rightarrow> 's sessionRouter" where
  "router_register full session r =
     (let fullStr = jid_String full; bare = jid_String (jid_Bare full)
      in if fullStr = '''' then r
         else let sessions = (case byBare r bare of None \<Rightarrow> Map.empty | Some m \<Rightarrow> m)
              in r\<lparr>byFull := (byFull r)(fullStr \<mapsto> session),
                   byBare := (byBare r)(bare \<mapsto> sessions(fullStr \<mapsto> session))\<rparr>)"

definition router_unregister :: "JID \<Rightarrow> 's sessionRouter \<Rightarrow> 's sessionRouter" where
  "router_unregister full r =
     (let fullStr = jid_String full; bare = jid_String (jid_Bare full)
      in if fullStr = '''' then r
         else r\<lparr>byFull := (byFull r)(fullStr := None),
                byBare := (case byBare r bare of
                    None \<Rightarrow> byBare r
                  | Some sessions \<Rightarrow>
                      (let sessions' = sessions(fullStr := None)
                       in if sessions' = Map.empty then (byBare r)(bare := None)
                          else (byBare r)(bare \<mapsto> sessions')))\<rparr>)"

text \<open>\<open>ks\<close> is the order in which the loop over the sessions of a bare address visits them.\<close>

definition targets :: "string list \<Rightarrow> JID \<Rightarrow> 's sessionRouter \<Rightarrow> 's list" where
  "targets ks to r =
     (if jid_IsZero to then []
      else if jid_IsFull to then (case byFull r (jid_String to) of Some s \<Rightarrow> [s] | None \<Rightarrow> [])
      else case byBare r (jid_String (jid_Bare to)) of
             None \<Rightarrow> []
           | Some sessions \<Rightarrow> range_values ks sessions)"

section \<open>Addresses with a plain domain are told apart by their text\<close>

definition routable :: "JID \<Rightarrow> bool" where
  "routable j \<longleftrightarrow> jid_wf j \<and> plain_domain (jid_domain j)"

lemma jid_String_inj:
  assumes "routable j" "routable k"
  shows "jid_String j = jid_String k \<longleftrightarrow> j = k"
proof
  assume eq: "jid_String j = jid_String k"
  from assms have "cut_resource (jid_String j) = cut_resource (jid_String k) \<longrightarrow> j = k"
    using cut_local_bare [of j] cut_local_bare [of k]
    by (auto simp: routable_def cut_resource_String intro!: JID.equality)
  with eq show "j = k" by simp
qed simp

lemma routable_Bare [simp]: "routable j \<Longrightarrow> routable (jid_Bare j)"
  by (simp add: routable_def jid_Bare_def jid_wf_def)

lemma routable_String [simp]: "routable j \<Longrightarrow> jid_String j \<noteq> []"
  by (simp add: routable_def jid_String_not_Nil)

lemma routable_not_zero [simp]: "routable j \<Longrightarrow> \<not> jid_IsZero j"
  by (simp add: routable_def jid_wf_def jid_IsZero_def)

section \<open>Refinement\<close>

text \<open>The specification: which session is registered under an address.\<close>

datatype 's route_op = Reg JID 's | Unreg JID

fun op_jid :: "'s route_op \<Rightarrow> JID" where
  "op_jid (Reg j s) = j"
| "op_jid (Unreg j) = j"

fun run_router :: "'s route_op list \<Rightarrow> 's sessionRouter \<Rightarrow> 's sessionRouter" where
  "run_router [] r = r"
| "run_router (Reg j s # ops) r = run_router ops (router_register j s r)"
| "run_router (Unreg j # ops) r = run_router ops (router_unregister j r)"

fun run_routes :: "'s route_op list \<Rightarrow> (JID \<rightharpoonup> 's) \<Rightarrow> (JID \<rightharpoonup> 's)" where
  "run_routes [] m = m"
| "run_routes (Reg j s # ops) m = run_routes ops (m(j \<mapsto> s))"
| "run_routes (Unreg j # ops) m = run_routes ops (m(j := None))"

text \<open>
  How the two maps represent it: both hold exactly the registered addresses, the second one under their
  bare address, and a bare address without sessions has no entry.
\<close>

definition router_rel :: "'s sessionRouter \<Rightarrow> (JID \<rightharpoonup> 's) \<Rightarrow> bool" where
  "router_rel r m \<longleftrightarrow>
     (\<forall>j. m j \<noteq> None \<longrightarrow> routable j) \<and>
     (\<forall>j. routable j \<longrightarrow> byFull r (jid_String j) = m j) \<and>
     (\<forall>b j. routable b \<longrightarrow> routable j \<longrightarrow>
        get2 (byBare r) (jid_String b) (jid_String j) = (if jid_Bare j = b then m j else None)) \<and>
     (\<forall>b k. get2 (byBare r) b k \<noteq> None \<longrightarrow> (\<exists>j. routable j \<and> k = jid_String j)) \<and>
     (\<forall>b. byBare r b \<noteq> Some Map.empty)"

lemma router_rel_new: "router_rel newSessionRouter Map.empty"
  by (simp add: router_rel_def newSessionRouter_def)

lemma router_register_maps:
  assumes "routable j"
  shows "byFull (router_register j s r) = (byFull r)(jid_String j \<mapsto> s)"
    "get2 (byBare (router_register j s r)) x k =
       (if x = jid_String (jid_Bare j) \<and> k = jid_String j then Some s else get2 (byBare r) x k)"
    "byBare r x \<noteq> Some Map.empty \<Longrightarrow> byBare (router_register j s r) x \<noteq> Some Map.empty"
  using assms by (auto simp: router_register_def Let_def get2_def split: option.splits)

lemma router_unregister_maps:
  fixes r :: "'s sessionRouter"
  assumes "routable j"
  shows "byFull (router_unregister j r) = (byFull r)(jid_String j := None)"
    "get2 (byBare (router_unregister j r)) x k =
       (if x = jid_String (jid_Bare j) \<and> k = jid_String j then None else get2 (byBare r) x k)"
    "byBare r x \<noteq> Some Map.empty \<Longrightarrow> byBare (router_unregister j r) x \<noteq> Some Map.empty"
proof -
  have gone: "ss k = None" if "ss(x := None) = Map.empty" "k \<noteq> x" for ss :: "string \<rightharpoonup> 's" and x k
    using that by (metis fun_upd_other)
  show "byFull (router_unregister j r) = (byFull r)(jid_String j := None)"
    using assms by (simp add: router_unregister_def Let_def)
  show "get2 (byBare (router_unregister j r)) x k =
       (if x = jid_String (jid_Bare j) \<and> k = jid_String j then None else get2 (byBare r) x k)"
    using assms by (auto simp: router_unregister_def Let_def get2_def gone split: option.splits if_splits)
  show "byBare r x \<noteq> Some Map.empty \<Longrightarrow> byBare (router_unregister j r) x \<noteq> Some Map.empty"
    using assms by (auto simp: router_unregister_def Let_def split: option.splits if_splits)
qed

lemma router_rel_register:
  assumes "router_rel r m" and "routable j"
  shows "router_rel (router_register j s r) (m(j \<mapsto> s))"
  using assms unfolding router_rel_def
  by (auto simp: router_register_maps jid_String_inj)

lemma router_rel_unregister:
  assumes "router_rel r m" and "routable j"
  shows "router_rel (router_unregister j r) (m(j := None))"
  using assms unfolding router_rel_def
  by (auto simp: router_unregister_maps jid_String_inj)

lemma router_rel_run:
  "router_rel r m \<Longrightarrow> \<forall>x \<in> set ops. routable (op_jid x) \<Longrightarrow> router_rel (run_router ops r) (run_routes ops m)"
proof (induction ops arbitrary: r m)
  case (Cons x ops)
  then show ?case by (cases x) (auto intro!: Cons.IH router_rel_register router_rel_unregister)
qed simp

text \<open>The sessions of a bare address, as the loop sees them.\<close>

lemma router_rel_bare:
  assumes rel: "router_rel r m" and to: "routable to" "jid_Bare to = to"
    and ks: "enumerates ks (inner (byBare r) (jid_String to))"
  shows "set (targets ks to r) = {s. \<exists>j. jid_Bare j = to \<and> m j = Some s}"
    and "length (targets ks to r) = card {j. jid_Bare j = to \<and> m j \<noteq> None}"
proof -
  let ?J = "{j. jid_Bare j = to \<and> m j \<noteq> None}" and ?f = "inner (byBare r) (jid_String to)"
  have not_full: "\<not> jid_IsFull to" using to(2) by (metis JID.select_convs(3) jid_Bare_def jid_IsFull_def)
  have t: "targets ks to r = range_values ks ?f"
    using to by (simp add: targets_def inner_def not_full split: option.split)
  have rt: "m j \<noteq> None \<Longrightarrow> routable j" for j using rel unfolding router_rel_def by blast
  have f: "routable j \<Longrightarrow> ?f (jid_String j) = (if jid_Bare j = to then m j else None)" for j
    using rel to unfolding router_rel_def inner_get2 by blast
  have str: "?f k \<noteq> None \<Longrightarrow> \<exists>j. routable j \<and> k = jid_String j" for k
    using rel unfolding router_rel_def inner_get2 by blast
  have dom: "dom ?f = jid_String ` ?J"
    using f str rt by (force simp: dom_def split: if_splits)
  have "ran ?f = {s. \<exists>j. jid_Bare j = to \<and> m j = Some s}"
    using f str rt by (force simp: ran_def split: if_splits)
  then show "set (targets ks to r) = {s. \<exists>j. jid_Bare j = to \<and> m j = Some s}"
    using range_values_ran [OF ks] t by simp
  have "inj_on jid_String ?J" using rt jid_String_inj by (auto simp: inj_on_def)
  then have "card (dom ?f) = card ?J" unfolding dom by (rule card_image)
  then show "length (targets ks to r) = card ?J"
    using ks t length_range_values [of ks ?f] distinct_card [of ks] by (simp add: enumerates_def)
qed

text \<open>
  C31: routing.  Under every history of registrations and removals of addresses with a plain domain, a
  stanza for a full address goes to the session last registered under it and not removed since, if there
  is one, and a stanza for a bare address goes to exactly the sessions registered under its full
  addresses, once per address, in whatever order the loop over the map visits them.
\<close>

theorem router_refines:
  assumes "\<forall>x \<in> set ops. routable (op_jid x)" and "routable to"
  shows "(jid_IsFull to \<longrightarrow>
      targets ks to (run_router ops newSessionRouter) =
        (case run_routes ops Map.empty to of Some s \<Rightarrow> [s] | None \<Rightarrow> [])) \<and>
    (\<not> jid_IsFull to \<and> enumerates ks (inner (byBare (run_router ops newSessionRouter)) (jid_String to)) \<longrightarrow>
      set (targets ks to (run_router ops newSessionRouter)) =
        {s. \<exists>j. jid_Bare j = to \<and> run_routes ops Map.empty j = Some s} \<and>
      length (targets ks to (run_router ops newSessionRouter)) =
        card {j. jid_Bare j = to \<and> run_routes ops Map.empty j \<noteq> None})"
proof -
  have rel: "router_rel (run_router ops newSessionRouter) (run_routes ops Map.empty)"
    using router_rel_run [OF router_rel_new assms(1)] .
  then have "byFull (run_router ops newSessionRouter) (jid_String to) = run_routes ops Map.empty to"
    using assms(2) unfolding router_rel_def by blast
  then have "jid_IsFull to \<longrightarrow> targets ks to (run_router ops newSessionRouter) =
      (case run_routes ops Map.empty to of Some s \<Rightarrow> [s] | None \<Rightarrow> [])"
    using assms(2) by (simp add: targets_def)
  moreover have "jid_Bare to = to" if "\<not> jid_IsFull to" using that by (simp add: jid_Bare_def jid_IsFull_def)
  ultimately show ?thesis using router_rel_bare [OF rel assms(2)] by blast
qed

text \<open>Two sessions of one account and one of another; the second binding of an address replaces the first.\<close>

theorem router_refines_witness:
  "targets [] \<lparr>jid_local = ''a'', jid_domain = ''h'', jid_resource = ''1''\<rparr>
     (run_router
       [Reg \<lparr>jid_local = ''a'', jid_domain = ''h'', jid_resource = ''1''\<rparr> (1 :: nat),
        Reg \<lparr>jid_local = ''b'', jid_domain = ''h'', jid_resource = ''1''\<rparr> 7,
        Reg \<lparr>jid_local = ''a'', jid_domain = ''h'', jid_resource = ''1''\<rparr> 2] newSessionRouter) = [2]"
proof -
  let ?j = "\<lambda>l r. \<lparr>jid_local = l, jid_domain = ''h'', jid_resource = r\<rparr>"
  let ?ops = "[Reg (?j ''a'' ''1'') (1 :: nat), Reg (?j ''b'' ''1'') 7, Reg (?j ''a'' ''1'') 2]"
  have ok: "routable (?j ''a'' ''1'')" "routable (?j ''b'' ''1'')"
    by (simp_all add: routable_def jid_wf_def plain_domain_def maxPartLen_def string_bytes_def utf8_eval)
  then have "\<forall>x \<in> set ?ops. routable (op_jid x)" by simp
  from router_refines [OF this ok(1), of "[]"] show ?thesis by (simp add: jid_IsFull_def)
qed

end
