(* ===== verification/Stanza.thy ===== *)
theory Stanza
  imports Jid
begin

text \<open>
  Package \<open>stanza\<close> (stanza.go, message.go, presence.go, iq.go, error.go) and the error constructors of
  errors.go: the stanza types, the replies to an IQ, the stanza errors and the elements written by the two
  hand-written \<open>MarshalXML\<close> methods.  The token encoder of encoding/xml is a parameter, and so are the
  reflective encoding and decoding; what the code relies on of decoding is \<open>decoded_header\<close>.
\<close>

section \<open>Headers and errors\<close>

record Header =
  hdr_XMLName :: xml_name
  hdr_ID :: string
  hdr_From :: JID
  hdr_To :: JID
  hdr_Type :: string
  hdr_Lang :: string

definition no_name :: xml_name where
  "no_name = \<lparr>Space = '''', Local = ''''\<rparr>"

definition ns_Client :: string where
  "ns_Client = ''jabber:client''"

definition hex_digit :: "nat \<Rightarrow> char" where
  "hex_digit n = (if n < 10 then char_of (n + 48) else char_of (n + 87))"

definition hex_EncodeToString :: "bytes \<Rightarrow> string" where
  "hex_EncodeToString b = concat (map (\<lambda>w. [hex_digit (unat w div 16), hex_digit (unat w mod 16)]) b)"

text \<open>\<open>rnd\<close> is the draw of the 16 bytes.\<close>

definition GenerateID :: "bytes \<Rightarrow> string" where
  "GenerateID rnd = hex_EncodeToString (rand_bytes 16 rnd)"

record StanzaError =
  se_Type :: string
  se_By :: string
  se_Condition :: string
  se_Text :: string

definition NewStanzaError :: "string \<Rightarrow> string \<Rightarrow> string \<Rightarrow> StanzaError" where
  "NewStanzaError typ condition text = \<lparr>se_Type = typ, se_By = '''', se_Condition = condition, se_Text = text\<rparr>"

definition StanzaError_Error :: "StanzaError \<Rightarrow> string" where
  "StanzaError_Error e =
     (if se_Text e \<noteq> '''' then ''stanza error: '' @ se_Condition e @ '' ('' @ se_Type e @ '': '' @ se_Text e @ '')''
      else ''stanza error: '' @ se_Condition e @ '' ('' @ se_Type e @ '')'')"

definition ErrBadRequest :: "string \<Rightarrow> StanzaError" where
  "ErrBadRequest text = NewStanzaError ''modify'' ''bad-request'' text"

definition ErrConflict :: "string \<Rightarrow> StanzaError" where
  "ErrConflict text = NewStanzaError ''cancel'' ''conflict'' text"

definition ErrFeatureNotImplemented :: "string \<Rightarrow> StanzaError" where
  "ErrFeatureNotImplemented text = NewStanzaError ''cancel'' ''feature-not-implemented'' text"

definition ErrForbidden :: "string \<Rightarrow> StanzaError" where
  "ErrForbidden text = NewStanzaError ''auth'' ''forbidden'' text"

definition ErrItemNotFound :: "string \<Rightarrow> StanzaError" where
  "ErrItemNotFound text = NewStanzaError ''cancel'' ''item-not-found'' text"

definition ErrNotAllowed :: "string \<Rightarrow> StanzaError" where
  "ErrNotAllowed text = NewStanzaError ''cancel'' ''not-allowed'' text"

definition ErrNotAuthorized :: "string \<Rightarrow> StanzaError" where
  "ErrNotAuthorized text = NewStanzaError ''auth'' ''not-authorized'' text"

definition ErrServiceUnavailable :: "string \<Rightarrow> StanzaError" where
  "ErrServiceUnavailable text = NewStanzaError ''cancel'' ''service-unavailable'' text"

definition ErrInternalServerError :: "string \<Rightarrow> StanzaError" where
  "ErrInternalServerError text = NewStanzaError ''cancel'' ''internal-server-error'' text"

definition ErrRecipientUnavailable :: "string \<Rightarrow> StanzaError" where
  "ErrRecipientUnavailable text = NewStanzaError ''wait'' ''recipient-unavailable'' text"

section \<open>Stanzas\<close>

record Extension =
  ext_XMLName :: xml_name
  ext_Inner :: string
  ext_Attrs :: "xml_attr list"

record IQ =
  iq_Header :: Header
  iq_XMLName :: xml_name
  iq_Query :: string
  iq_Error :: "StanzaError option"

record Message =
  msg_Header :: Header
  msg_XMLName :: xml_name
  msg_Subject :: string
  msg_Body :: string
  msg_Thread :: string
  msg_Error :: "StanzaError option"
  msg_Extensions :: "Extension list"

record Presence =
  pres_Header :: Header
  pres_XMLName :: xml_name
  pres_Show :: string
  pres_Status :: string
  pres_Priority :: "8 word"
  pres_Error :: "StanzaError option"
  pres_Extensions :: "Extension list"

datatype Stanza = SMessage Message | SPresence Presence | SIQ IQ

fun GetHeader :: "Stanza \<Rightarrow> Header" where
  "GetHeader (SMessage m) = msg_Header m"
| "GetHeader (SPresence p) = pres_Header p"
| "GetHeader (SIQ q) = iq_Header q"

fun StanzaType :: "Stanza \<Rightarrow> string" where
  "StanzaType (SMessage m) = ''message''"
| "StanzaType (SPresence p) = ''presence''"
| "StanzaType (SIQ q) = ''iq''"

definition new_header :: "string \<Rightarrow> string \<Rightarrow> string \<Rightarrow> JID \<Rightarrow> JID \<Rightarrow> Header" where
  "new_header name ident typ from to =
     \<lparr>hdr_XMLName = \<lparr>Space = ns_Client, Local = name\<rparr>, hdr_ID = ident, hdr_From = from, hdr_To = to,
      hdr_Type = typ, hdr_Lang = ''''\<rparr>"

definition NewMessage :: "bytes \<Rightarrow> string \<Rightarrow> Message" where
  "NewMessage rnd typ =
     \<lparr>msg_Header = new_header ''message'' (GenerateID rnd) typ zeroJID zeroJID, msg_XMLName = no_name, msg_Subject = '''', msg_Body = '''',
      msg_Thread = '''', msg_Error = None, msg_Extensions = []\<rparr>"

definition NewPresence :: "bytes \<Rightarrow> string \<Rightarrow> Presence" where
  "NewPresence rnd typ =
     \<lparr>pres_Header = new_header ''presence'' (GenerateID rnd) typ zeroJID zeroJID, pres_XMLName = no_name, pres_Show = '''',
      pres_Status = '''', pres_Priority = 0, pres_Error = None, pres_Extensions = []\<rparr>"

definition NewIQ :: "bytes \<Rightarrow> string \<Rightarrow> IQ" where
  "NewIQ rnd typ =
     \<lparr>iq_Header = new_header ''iq'' (GenerateID rnd) typ zeroJID zeroJID, iq_XMLName = no_name, iq_Query = '''', iq_Error = None\<rparr>"

definition ResultIQ :: "IQ \<Rightarrow> IQ" where
  "ResultIQ q =
     \<lparr>iq_Header = new_header ''iq'' (hdr_ID (iq_Header q)) ''result'' (hdr_To (iq_Header q)) (hdr_From (iq_Header q)),
      iq_XMLName = no_name, iq_Query = '''', iq_Error = None\<rparr>"

definition ErrorIQ :: "IQ \<Rightarrow> StanzaError \<Rightarrow> IQ" where
  "ErrorIQ q err =
     \<lparr>iq_Header = new_header ''iq'' (hdr_ID (iq_Header q)) ''error'' (hdr_To (iq_Header q)) (hdr_From (iq_Header q)),
      iq_XMLName = no_name, iq_Query = '''', iq_Error = Some err\<rparr>"

text \<open>
  The field \<open>XMLName\<close> of the header is marked to be ignored by encoding/xml, so that in a stanza read
  from a stream it has its zero value (the element's name goes to the field of the stanza itself).
\<close>

definition decoded_header :: "Header \<Rightarrow> bool" where
  "decoded_header h \<longleftrightarrow> hdr_XMLName h = no_name"

text \<open>A reply carries the identifier of the request and goes back where it came from.\<close>

lemma reply_headers:
  "hdr_ID (iq_Header (ResultIQ q)) = hdr_ID (iq_Header q)" "hdr_To (iq_Header (ResultIQ q)) = hdr_From (iq_Header q)"
  "hdr_ID (iq_Header (ErrorIQ q e)) = hdr_ID (iq_Header q)" "hdr_To (iq_Header (ErrorIQ q e)) = hdr_From (iq_Header q)"
  by (simp_all add: ResultIQ_def ErrorIQ_def new_header_def)

lemma length_hex: "length (hex_EncodeToString b) = 2 * length b"
  by (induction b) (simp_all add: hex_EncodeToString_def)

section \<open>Elements written token by token\<close>

datatype xml_token =
    StartElement xml_name "xml_attr list"
  | EndElement xml_name
  | CharData string

definition local_name :: "string \<Rightarrow> xml_name" where
  "local_name n = \<lparr>Space = '''', Local = n\<rparr>"

definition ns_Stanzas :: string where
  "ns_Stanzas = ''urn:ietf:params:xml:ns:xmpp-stanzas''"

text \<open>
  A run of \<open>if err := enc.EncodeToken(t); err != nil { return err }\<close> over a sequence of tokens;
  \<open>encodeToken\<close> is the encoder's method on its state, with the error it returns.
\<close>

fun encode_tokens :: "(xml_token \<Rightarrow> 'e \<Rightarrow> string option \<times> 'e) \<Rightarrow> xml_token list \<Rightarrow> 'e \<Rightarrow> string option \<times> 'e" where
  "encode_tokens encodeToken [] enc = (None, enc)"
| "encode_tokens encodeToken (t # ts) enc =
     (case encodeToken t enc of
        (Some err, enc') \<Rightarrow> (Some err, enc')
      | (None, enc') \<Rightarrow> encode_tokens encodeToken ts enc')"

definition stanza_error_tokens :: "StanzaError \<Rightarrow> xml_token list" where
  "stanza_error_tokens e =
     (let name = local_name ''error'';
          condName = \<lparr>Space = ns_Stanzas, Local = se_Condition e\<rparr>;
          textName = \<lparr>Space = ns_Stanzas, Local = ''text''\<rparr>
      in [StartElement name ([(local_name ''type'', se_Type e)] @
            (if se_By e \<noteq> '''' then [(local_name ''by'', se_By e)] else [])),
          StartElement condName [], EndElement condName] @
         (if se_Text e \<noteq> ''''
          then [StartElement textName [(local_name ''xml:lang'', ''en'')], CharData (se_Text e), EndElement textName]
          else []) @
         [EndElement name])"

definition StanzaError_MarshalXML :: "(xml_token \<Rightarrow> 'e \<Rightarrow> string option \<times> 'e) \<Rightarrow> StanzaError \<Rightarrow> 'e \<Rightarrow> string option \<times> 'e" where
  "StanzaError_MarshalXML encodeToken e enc = encode_tokens encodeToken (stanza_error_tokens e) enc"

definition iq_attrs :: "IQ \<Rightarrow> xml_attr list" where
  "iq_attrs q =
     (let h = iq_Header q
      in (if hdr_ID h \<noteq> '''' then [(local_name ''id'', hdr_ID h)] else []) @
         (if hdr_Type h \<noteq> '''' then [(local_name ''type'', hdr_Type h)] else []) @
         (if \<not> jid_IsZero (hdr_To h) then [(local_name ''to'', jid_String (hdr_To h))] else []) @
         (if \<not> jid_IsZero (hdr_From h) then [(local_name ''from'', jid_String (hdr_From h))] else []))"

record 'p IQPayload =
  ip_IQ :: IQ
  ip_Payload :: "'p option"

text \<open>\<open>encode\<close> is the encoder's \<open>Encode\<close>; the attributes are appended to those of the start element handed in.\<close>

definition IQPayload_MarshalXML :: "(xml_token \<Rightarrow> 'e \<Rightarrow> string option \<times> 'e) \<Rightarrow> ('p \<Rightarrow> 'e \<Rightarrow> string option \<times> 'e) \<Rightarrow>
    xml_attr list \<Rightarrow> 'p IQPayload \<Rightarrow> 'e \<Rightarrow> string option \<times> 'e" where
  "IQPayload_MarshalXML encodeToken encode startAttr q enc =
     (let name = \<lparr>Space = ns_Client, Local = ''iq''\<rparr>
      in case encodeToken (StartElement name (startAttr @ iq_attrs (ip_IQ q))) enc of
           (Some err, enc1) \<Rightarrow> (Some err, enc1)
         | (None, enc1) \<Rightarrow>
             (case (case ip_Payload q of Some p \<Rightarrow> encode p enc1 | None \<Rightarrow> (None, enc1)) of
                (Some err, enc2) \<Rightarrow> (Some err, enc2)
              | (None, enc2) \<Rightarrow> encodeToken (EndElement name) enc2))"

text \<open>The open elements after a run of tokens, innermost first; \<open>None\<close> when an end element does not match.\<close>

fun nest :: "xml_token list \<Rightarrow> xml_name list \<Rightarrow> xml_name list option" where
  "nest [] st = Some st"
| "nest (StartElement n as # ts) st = nest ts (n # st)"
| "nest (CharData t # ts) st = nest ts st"
| "nest (EndElement n # ts) st = (case st of [] \<Rightarrow> None | m # st' \<Rightarrow> if m = n then nest ts st' else None)"

text \<open>One element and nothing around it.\<close>

definition one_element :: "xml_name \<Rightarrow> xml_token list \<Rightarrow> bool" where
  "one_element n ts \<longleftrightarrow>
     (\<exists>as body. ts = StartElement n as # body @ [EndElement n] \<and> nest body [] = Some [])"

lemma nest_append: "nest (xs @ ys) st = (case nest xs st of None \<Rightarrow> None | Some st' \<Rightarrow> nest ys st')"
  by (induction xs st rule: nest.induct) (auto split: list.splits)

lemma nest_bottom: "nest xs st = Some st' \<Longrightarrow> nest xs (st @ base) = Some (st' @ base)"
  by (induction xs st arbitrary: st' rule: nest.induct) (auto split: list.splits if_splits)

lemma one_element_nest: "one_element n ts \<Longrightarrow> nest ts st = Some st"
  using nest_bottom [of _ "[]" "[]"] by (auto simp: one_element_def nest_append)

lemma nest_concat: "(\<And>x. x \<in> set xs \<Longrightarrow> nest x st = Some st) \<Longrightarrow> nest (concat xs) st = Some st"
  by (induction xs) (simp_all add: nest_append)

text \<open>An encoder that keeps what it is given and never fails.\<close>

definition keep_token :: "xml_token \<Rightarrow> xml_token list \<Rightarrow> string option \<times> xml_token list" where
  "keep_token t ts = (None, ts @ [t])"

lemma encode_tokens_keep: "encode_tokens keep_token ts enc = (None, enc @ ts)"
  by (induction ts arbitrary: enc) (simp_all add: keep_token_def)

lemma stanza_error_element: "one_element (local_name ''error'') (stanza_error_tokens e)"
proof -
  let ?c = "\<lparr>Space = ns_Stanzas, Local = se_Condition e\<rparr>" and ?t = "\<lparr>Space = ns_Stanzas, Local = ''text''\<rparr>"
  let ?body = "[StartElement ?c [], EndElement ?c] @
    (if se_Text e \<noteq> '''' then [StartElement ?t [(local_name ''xml:lang'', ''en'')], CharData (se_Text e), EndElement ?t] else [])"
  have "\<exists>as. stanza_error_tokens e = StartElement (local_name ''error'') as # ?body @ [EndElement (local_name ''error'')]"
    by (simp add: stanza_error_tokens_def Let_def)
  moreover have "nest ?body [] = Some []" by simp
  ultimately show ?thesis unfolding one_element_def by blast
qed

end
