(* ===== verification/Mux.thy ===== *)
theory Mux
  imports Stanza
begin

text \<open>
  Package \<open>xmpp\<close>, dispatch (handler.go, middleware.go, mux.go, and \<open>Session.Serve\<close> of session.go).  A
  handler maps a stanza and the state it works on, which includes the log, to its outcome: a returned
  error (or nil) or a panic.  The theorems: the first matching route is called inside all middleware, in
  the order of registration; panics do not get past \<open>RecoverMiddleware\<close>; and which routes a stanza read
  from a stream can match.
\<close>

section \<open>Handlers and middleware\<close>

datatype outcome = Returned "string option" | PanicWith string

type_synonym 'w world = "'w \<times> string list"
type_synonym 'w handler = "Stanza \<Rightarrow> 'w world \<Rightarrow> outcome \<times> 'w world"
type_synonym 'w middleware = "'w handler \<Rightarrow> 'w handler"

text \<open>The loop from the last middleware to the first; \<open>i\<close> counts the ones still to apply.\<close>

fun wrap_loop :: "'w middleware list \<Rightarrow> nat \<Rightarrow> 'w handler \<Rightarrow> 'w handler" where
  "wrap_loop mws 0 handler = handler"
| "wrap_loop mws (Suc i) handler = wrap_loop mws i ((mws ! i) handler)"

definition Chain :: "'w handler \<Rightarrow> 'w middleware list \<Rightarrow> 'w handler" where
  "Chain handler mws = wrap_loop mws (length mws) handler"

definition log_line :: "Stanza \<Rightarrow> string" where
  "log_line st =
     (let h = GetHeader st
      in ''xmpp: '' @ StanzaType st @ '' from='' @ jid_String (hdr_From h) @ '' to='' @ jid_String (hdr_To h) @
         '' id='' @ hdr_ID h @ '' type='' @ hdr_Type h)"

definition LogMiddleware :: "'w middleware" where
  "LogMiddleware next = (\<lambda>st (w, log). next st (w, log @ [log_line st]))"

text \<open>The deferred function recovers; the function then returns its zero result, a nil error.\<close>

definition RecoverMiddleware :: "'w middleware" where
  "RecoverMiddleware next = (\<lambda>st w.
     case next st w of
       (PanicWith r, (w', log)) \<Rightarrow> (Returned None, (w', log @ [''xmpp: recovered from panic: '' @ r]))
     | (Returned e, w') \<Rightarrow> (Returned e, w'))"

section \<open>The multiplexer\<close>

record 'w route =
  r_name :: xml_name
  r_stanzaType :: string
  r_handler :: "'w handler"

record 'w Mux =
  mux_routes :: "'w route list"
  mux_middleware :: "'w middleware list"
  mux_fallback :: "'w handler option"

definition mux_Handle :: "xml_name \<Rightarrow> string \<Rightarrow> 'w handler \<Rightarrow> 'w Mux \<Rightarrow> 'w Mux" where
  "mux_Handle name stanzaType handler m =
     m\<lparr>mux_routes := mux_routes m @ [\<lparr>r_name = name, r_stanzaType = stanzaType, r_handler = handler\<rparr>]\<rparr>"

definition mux_Use :: "'w middleware list \<Rightarrow> 'w Mux \<Rightarrow> 'w Mux" where
  "mux_Use mws m = m\<lparr>mux_middleware := mux_middleware m @ mws\<rparr>"

definition SetFallback :: "'w handler option \<Rightarrow> 'w Mux \<Rightarrow> 'w Mux" where
  "SetFallback h m = m\<lparr>mux_fallback := h\<rparr>"

definition WithRoute :: "xml_name \<Rightarrow> string \<Rightarrow> 'w handler \<Rightarrow> 'w Mux \<Rightarrow> 'w Mux" where
  "WithRoute name stanzaType handler = mux_Handle name stanzaType handler"

definition NewMux :: "('w Mux \<Rightarrow> 'w Mux) list \<Rightarrow> 'w Mux" where
  "NewMux opts = fold (\<lambda>opt m. opt m) opts \<lparr>mux_routes = [], mux_middleware = [], mux_fallback = None\<rparr>"

definition skips :: "'w route \<Rightarrow> Header \<Rightarrow> bool" where
  "skips r header \<longleftrightarrow>
     (r_stanzaType r \<noteq> '''' \<and> r_stanzaType r \<noteq> hdr_Type header) \<or>
     (Local (r_name r) \<noteq> '''' \<and> Local (r_name r) \<noteq> Local (hdr_XMLName header)) \<or>
     (Space (r_name r) \<noteq> '''' \<and> Space (r_name r) \<noteq> Space (hdr_XMLName header))"

fun dispatch :: "'w Mux \<Rightarrow> 'w route list \<Rightarrow> 'w handler" where
  "dispatch m [] st w =
     (case mux_fallback m of Some h \<Rightarrow> h st w | None \<Rightarrow> (Returned None, w))"
| "dispatch m (r # rs) st w =
     (if skips r (GetHeader st) then dispatch m rs st w
      else wrap_loop (mux_middleware m) (length (mux_middleware m)) (r_handler r) st w)"

definition mux_HandleStanza :: "'w Mux \<Rightarrow> 'w handler" where
  "mux_HandleStanza m = dispatch m (mux_routes m)"

section \<open>Serving a stream\<close>

text \<open>
  What one turn of the loop of \<open>Serve\<close> meets: the session was closed; a read error or the end of the
  stream; a token that starts no element; a start element and what decoding it (or skipping it) gives.
\<close>

datatype event =
    Closed
  | ReadErr string
  | ReadEOF
  | OtherToken
  | DecodeErr string
  | Element Stanza
  | SkippedElement
  | SkipErr string

text \<open>The second component is what is left of the events when \<open>Serve\<close> returns; no events: it still waits.\<close>

fun Serve :: "'w handler \<Rightarrow> event list \<Rightarrow> 'w world \<Rightarrow> (outcome \<times> event list) option \<times> 'w world" where
  "Serve handler [] w = (None, w)"
| "Serve handler (Closed # es) w = (Some (Returned None, es), w)"
| "Serve handler (ReadErr e # es) w = (Some (Returned (Some e), es), w)"
| "Serve handler (ReadEOF # es) w = (Some (Returned None, es), w)"
| "Serve handler (OtherToken # es) w = Serve handler es w"
| "Serve handler (DecodeErr e # es) w = (Some (Returned (Some e), es), w)"
| "Serve handler (SkippedElement # es) w = Serve handler es w"
| "Serve handler (SkipErr e # es) w = (Some (Returned (Some e), es), w)"
| "Serve handler (Element st # es) w =
     (case handler st w of
        (Returned None, w') \<Rightarrow> Serve handler es w'
      | (out, w') \<Rightarrow> (Some (out, es), w'))"

section \<open>Properties\<close>

lemma wrap_loop_foldr:
  "i \<le> length mws \<Longrightarrow> wrap_loop mws i handler = foldr (\<lambda>mw h. mw h) (take i mws) handler"
proof (induction i arbitrary: handler)
  case (Suc i)
  then have "take (Suc i) mws = take i mws @ [mws ! i]" by (simp add: take_Suc_conv_app_nth)
  with Suc show ?case by simp
qed simp

lemma dispatch_first:
  "dispatch m rs st w =
     (case find (\<lambda>r. \<not> skips r (GetHeader st)) rs of
        Some r \<Rightarrow> foldr (\<lambda>mw h. mw h) (mux_middleware m) (r_handler r) st w
      | None \<Rightarrow> (case mux_fallback m of Some h \<Rightarrow> h st w | None \<Rightarrow> (Returned None, w)))"
  by (induction rs) (simp_all add: wrap_loop_foldr)

text \<open>
  A multiplexer as it is built: the calls of \<open>Handle\<close> (or \<open>WithRoute\<close>), \<open>Use\<close> and \<open>SetFallback\<close>, in their order.
\<close>

datatype 'w registration = RHandle xml_name string "'w handler" | RUse "'w middleware list" | RFallback "'w handler option"

fun register_call :: "'w registration \<Rightarrow> 'w Mux \<Rightarrow> 'w Mux" where
  "register_call (RHandle name stanzaType h) m = mux_Handle name stanzaType h m"
| "register_call (RUse mws) m = mux_Use mws m"
| "register_call (RFallback h) m = SetFallback h m"

definition built_mux :: "'w registration list \<Rightarrow> 'w Mux" where
  "built_mux regs = fold register_call regs (NewMux [])"

text \<open>
  What was registered: the routes, all middleware, and the fallback that was set last; and which stanzas a route
  is for, an empty name or type standing for any.
\<close>

fun handles_of :: "'w registration list \<Rightarrow> (xml_name \<times> string \<times> 'w handler) list" where
  "handles_of [] = []"
| "handles_of (RHandle name stanzaType h # regs) = (name, stanzaType, h) # handles_of regs"
| "handles_of (_ # regs) = handles_of regs"

fun middleware_of :: "'w registration list \<Rightarrow> 'w middleware list" where
  "middleware_of [] = []"
| "middleware_of (RUse mws # regs) = mws @ middleware_of regs"
| "middleware_of (_ # regs) = middleware_of regs"

fun fallback_of :: "'w handler option \<Rightarrow> 'w registration list \<Rightarrow> 'w handler option" where
  "fallback_of d [] = d"
| "fallback_of d (RFallback h # regs) = fallback_of h regs"
| "fallback_of d (_ # regs) = fallback_of d regs"

definition route_for :: "xml_name \<Rightarrow> string \<Rightarrow> Stanza \<Rightarrow> bool" where
  "route_for name stanzaType st \<longleftrightarrow>
     stanzaType \<in> {[], hdr_Type (GetHeader st)} \<and> Local name \<in> {[], Local (hdr_XMLName (GetHeader st))} \<and>
     Space name \<in> {[], Space (hdr_XMLName (GetHeader st))}"

lemma built_mux_fields:
  "mux_routes (fold register_call regs m) =
     mux_routes m @ map (\<lambda>(n, t, h). \<lparr>r_name = n, r_stanzaType = t, r_handler = h\<rparr>) (handles_of regs)"
  "mux_middleware (fold register_call regs m) = mux_middleware m @ middleware_of regs"
  "mux_fallback (fold register_call regs m) = fallback_of (mux_fallback m) regs"
proof (induction regs arbitrary: m)
  case (Cons r regs)
  {
    case 1
    show ?case using Cons.IH(1) by (cases r) (simp_all add: mux_Handle_def mux_Use_def SetFallback_def)
  next
    case 2
    show ?case using Cons.IH(2) by (cases r) (simp_all add: mux_Handle_def mux_Use_def SetFallback_def)
  next
    case 3
    show ?case using Cons.IH(3) by (cases r) (simp_all add: mux_Handle_def mux_Use_def SetFallback_def)
  }
qed simp_all

lemma find_built:
  "find (\<lambda>r. \<not> skips r (GetHeader st)) (map (\<lambda>(n, t, h). \<lparr>r_name = n, r_stanzaType = t, r_handler = h\<rparr>) hs) =
     map_option (\<lambda>(n, t, h). \<lparr>r_name = n, r_stanzaType = t, r_handler = h\<rparr>) (find (\<lambda>(n, t, h). route_for n t st) hs)"
  by (induction hs) (auto simp: skips_def route_for_def)

text \<open>
  C25: dispatch.  However routes, middleware and fallbacks were registered, a stanza goes to the handler of
  the first registered route that is for it.  That call is surrounded by all middleware, that registered after
  the route included: the first registered is outermost, each is given the rest of the chain as its next
  handler, and the outcome is that of the outermost.  A stanza that no route is for goes to the fallback that
  was set last, around which there is no middleware, and without one it is dropped with a nil error and no
  effect.
\<close>

theorem mux_dispatch_order:
  "mux_HandleStanza (built_mux regs) st w =
     (case find (\<lambda>(name, stanzaType, h). route_for name stanzaType st) (handles_of regs) of
        Some (name, stanzaType, h) \<Rightarrow> foldr (\<lambda>mw next. mw next) (middleware_of regs) h st w
      | None \<Rightarrow> (case fallback_of None regs of Some h \<Rightarrow> h st w | None \<Rightarrow> (Returned None, w)))"
proof -
  have m: "mux_routes (built_mux regs) = map (\<lambda>(n, t, h). \<lparr>r_name = n, r_stanzaType = t, r_handler = h\<rparr>) (handles_of regs)"
    "mux_middleware (built_mux regs) = middleware_of regs" "mux_fallback (built_mux regs) = fallback_of None regs"
    by (simp_all add: built_mux_def built_mux_fields NewMux_def)
  show ?thesis
    unfolding mux_HandleStanza_def dispatch_first m find_built
    by (cases "find (\<lambda>(n, t, h). route_for n t st) (handles_of regs)") auto
qed

text \<open>
  C26: panics.  With \<open>RecoverMiddleware\<close> registered first, so that it is outermost, a panic of a route's
  handler or of any other middleware does not leave \<open>HandleStanza\<close>; it is logged and reported as success (a nil
  error), so \<open>Serve\<close> goes on with the next stanza.  The one panic that does leave is that of the fallback,
  which runs without middleware, on a stanza that no route is for.
\<close>

theorem recover_contains_panics:
  assumes "mux_middleware m = RecoverMiddleware # mws"
  shows "((\<exists>msg w'. mux_HandleStanza m st w = (PanicWith msg, w')) \<longleftrightarrow>
      (\<forall>r \<in> set (mux_routes m). skips r (GetHeader st)) \<and>
      (\<exists>h msg w'. mux_fallback m = Some h \<and> h st w = (PanicWith msg, w'))) \<and>
    (\<forall>r msg w' log'. find (\<lambda>r. \<not> skips r (GetHeader st)) (mux_routes m) = Some r \<and>
       foldr (\<lambda>mw h. mw h) mws (r_handler r) st w = (PanicWith msg, (w', log')) \<longrightarrow>
       Serve (mux_HandleStanza m) (Element st # es) w =
         Serve (mux_HandleStanza m) es (w', log' @ [''xmpp: recovered from panic: '' @ msg]))"
proof (cases "find (\<lambda>r. \<not> skips r (GetHeader st)) (mux_routes m)")
  case None
  then have "\<forall>r \<in> set (mux_routes m). skips r (GetHeader st)" by (simp add: find_None_iff)
  moreover have "mux_HandleStanza m st w = (case mux_fallback m of Some h \<Rightarrow> h st w | None \<Rightarrow> (Returned None, w))"
    by (simp add: mux_HandleStanza_def dispatch_first None)
  ultimately show ?thesis using None by (auto split: option.splits)
next
  case (Some r)
  let ?h = "foldr (\<lambda>mw h. mw h) mws (r_handler r)"
  have eq: "mux_HandleStanza m st w = RecoverMiddleware ?h st w"
    using assms Some by (simp add: mux_HandleStanza_def dispatch_first)
  from Some have "\<not> (\<forall>r \<in> set (mux_routes m). skips r (GetHeader st))"
    by (metis find_None_iff option.distinct(1))
  moreover obtain out w1 log1 where h: "?h st w = (out, (w1, log1))" by (metis surj_pair)
  ultimately show ?thesis
    using Some by (cases out) (auto simp: eq RecoverMiddleware_def)
qed

theorem recover_contains_panics_witness:
  "Serve (mux_HandleStanza (mux_Use [RecoverMiddleware]
       (mux_Handle no_name [] (\<lambda>st w. (PanicWith ''boom'', w)) (NewMux []))))
     [Element (SMessage (NewMessage [] ''chat'')), ReadEOF] ((), []) =
   (Some (Returned None, []), ((), [''xmpp: recovered from panic: boom'']))"
proof -
  let ?h = "\<lambda>(st :: Stanza) (w :: unit world). (PanicWith ''boom'', w)"
  let ?m = "mux_Use [RecoverMiddleware] (mux_Handle no_name [] ?h (NewMux []))"
  let ?r = "\<lparr>r_name = no_name, r_stanzaType = [], r_handler = ?h\<rparr>"
  have m: "mux_middleware ?m = [RecoverMiddleware]" "mux_routes ?m = [?r]"
    by (simp_all add: mux_Use_def mux_Handle_def NewMux_def)
  have r: "find (\<lambda>r. \<not> skips r (GetHeader (SMessage (NewMessage [] ''chat'')))) (mux_routes ?m) = Some ?r"
    unfolding m(2) by (simp add: skips_def no_name_def)
  show ?thesis
    using recover_contains_panics [OF m(1), of "SMessage (NewMessage [] ''chat'')" "((), [])" "[ReadEOF]"] r by simp
qed

text \<open>
  Routes that name an element are never taken for a stanza read from a stream: \<open>HandleStanza\<close> compares
  with the header's \<open>XMLName\<close>, which decoding leaves empty.
\<close>

lemma named_route_skips_decoded:
  "decoded_header (GetHeader st) \<Longrightarrow> Local (r_name r) \<noteq> '''' \<Longrightarrow> skips r (GetHeader st)"
  by (simp add: decoded_header_def skips_def no_name_def)

end
