(* ===== verification/SessionState.thy ===== *)
theory SessionState
  imports Mux
begin

text \<open>
  Package \<open>xmpp\<close>, sessions (session.go, session_options.go), stream features (features.go, negotiator.go)
  and the three standard features (starttls.go, auth.go, bind.go).  The flags of a session are a 32-bit
  word.  \<open>SetState\<close> is a compare-and-swap loop that may run in several goroutines: it is a step relation
  on the shared word and the program counters of the callers.  The theorems: no flag is lost and every
  caller returns; lemmas: which features are offered in which state, and that each is one element.
\<close>

unbundle bit_operations_syntax

section \<open>Session state flags\<close>

type_synonym flags = "32 word"

definition StateSecure :: flags where "StateSecure = push_bit 0 1"
definition StateAuthenticated :: flags where "StateAuthenticated = push_bit 1 1"
definition StateBound :: flags where "StateBound = push_bit 2 1"
definition StateReady :: flags where "StateReady = push_bit 3 1"
definition StateServer :: flags where "StateServer = push_bit 4 1"
definition StateS2S :: flags where "StateS2S = push_bit 5 1"

lemmas state_defs = StateSecure_def StateAuthenticated_def StateBound_def StateReady_def StateServer_def StateS2S_def

section \<open>Sessions\<close>

text \<open>
  \<open>'t\<close> is the transport and \<open>'w\<close> the state the handlers of the multiplexer work on; the channel \<open>closed\<close> is
  whether it was closed.  The error \<open>err\<close> is never assigned.
\<close>

record ('t, 'w) xmpp_Session =
  ss_state :: flags
  ss_trans :: 't
  ss_localJID :: JID
  ss_remoteJID :: JID
  ss_mux :: "'w Mux"
  ss_closed :: bool
  ss_err :: "string option"

type_synonym ('t, 'w) SessionOption = "('t, 'w) xmpp_Session \<Rightarrow> ('t, 'w) xmpp_Session"

definition WithLocalAddr :: "JID \<Rightarrow> ('t, 'w) SessionOption" where
  "WithLocalAddr j s = s\<lparr>ss_localJID := j\<rparr>"

definition WithRemoteAddr :: "JID \<Rightarrow> ('t, 'w) SessionOption" where
  "WithRemoteAddr j s = s\<lparr>ss_remoteJID := j\<rparr>"

definition WithState :: "flags \<Rightarrow> ('t, 'w) SessionOption" where
  "WithState st s = s\<lparr>ss_state := st\<rparr>"

definition WithMux :: "'w Mux \<Rightarrow> ('t, 'w) SessionOption" where
  "WithMux m s = s\<lparr>ss_mux := m\<rparr>"

definition NewSession :: "'t \<Rightarrow> ('t, 'w) SessionOption list \<Rightarrow> ('t, 'w) xmpp_Session" where
  "NewSession tr opts =
     fold (\<lambda>opt s. opt s) opts
       \<lparr>ss_state = 0, ss_trans = tr, ss_localJID = zeroJID, ss_remoteJID = zeroJID, ss_mux = NewMux [],
        ss_closed = False, ss_err = None\<rparr>"

definition SetLocalAddr :: "JID \<Rightarrow> ('t, 'w) xmpp_Session \<Rightarrow> ('t, 'w) xmpp_Session" where
  "SetLocalAddr j s = s\<lparr>ss_localJID := j\<rparr>"

definition SetRemoteAddr :: "JID \<Rightarrow> ('t, 'w) xmpp_Session \<Rightarrow> ('t, 'w) xmpp_Session" where
  "SetRemoteAddr j s = s\<lparr>ss_remoteJID := j\<rparr>"

text \<open>
  \<open>write\<close> is the writer on the transport.  \<open>ctx\<close> is the error of a context that is done; when the context
  is done and the session is closed, Go picks one of the two cases: \<open>pick\<close> is its choice.
\<close>

definition guarded :: "string option \<Rightarrow> bool \<Rightarrow> bool \<Rightarrow> string option" where
  "guarded ctx pick closed =
     (case (ctx, closed) of
        (Some e, True) \<Rightarrow> Some (if pick then e else ''xmpp: session closed'')
      | (Some e, False) \<Rightarrow> Some e
      | (None, True) \<Rightarrow> Some ''xmpp: session closed''
      | (None, False) \<Rightarrow> None)"

definition session_Send :: "('v \<Rightarrow> 't \<Rightarrow> string option \<times> 't) \<Rightarrow> string option \<Rightarrow> bool \<Rightarrow> 'v \<Rightarrow>
    ('t, 'w) xmpp_Session \<Rightarrow> string option \<times> ('t, 'w) xmpp_Session" where
  "session_Send encode ctx pick st s =
     (case guarded ctx pick (ss_closed s) of
        Some e \<Rightarrow> (Some e, s)
      | None \<Rightarrow> (case encode st (ss_trans s) of (err, t) \<Rightarrow> (err, s\<lparr>ss_trans := t\<rparr>)))"

definition session_SendElement :: "('v \<Rightarrow> 't \<Rightarrow> string option \<times> 't) \<Rightarrow> string option \<Rightarrow> bool \<Rightarrow> 'v \<Rightarrow>
    ('t, 'w) xmpp_Session \<Rightarrow> string option \<times> ('t, 'w) xmpp_Session" where
  "session_SendElement encode ctx pick v s =
     (case guarded ctx pick (ss_closed s) of
        Some e \<Rightarrow> (Some e, s)
      | None \<Rightarrow> (case encode v (ss_trans s) of (err, t) \<Rightarrow> (err, s\<lparr>ss_trans := t\<rparr>)))"

text \<open>\<open>r\<close> is what reading the reader to its end gives.\<close>

definition session_SendRaw :: "(string \<Rightarrow> 't \<Rightarrow> string option \<times> 't) \<Rightarrow> string option \<Rightarrow> bool \<Rightarrow> string + string \<Rightarrow>
    ('t, 'w) xmpp_Session \<Rightarrow> string option \<times> ('t, 'w) xmpp_Session" where
  "session_SendRaw writeRaw ctx pick r s =
     (case guarded ctx pick (ss_closed s) of
        Some e \<Rightarrow> (Some e, s)
      | None \<Rightarrow> (case r of
          Inl e \<Rightarrow> (Some e, s)
        | Inr data \<Rightarrow> (case writeRaw data (ss_trans s) of (err, t) \<Rightarrow> (err, s\<lparr>ss_trans := t\<rparr>))))"

definition session_Close :: "('t \<Rightarrow> string option \<times> 't) \<Rightarrow> ('t, 'w) xmpp_Session \<Rightarrow> string option \<times> ('t, 'w) xmpp_Session" where
  "session_Close closeTrans s =
     (if ss_closed s then (None, s)
      else case closeTrans (ss_trans s) of (err, t) \<Rightarrow> (err, s\<lparr>ss_closed := True, ss_trans := t\<rparr>))"

section \<open>SetState: a compare-and-swap loop\<close>

text \<open>A caller of \<open>SetState\<close>: before the load, between load and swap, returned.\<close>

datatype setter = AtLoad flags | AtSwap flags flags | Returned_from flags

fun flag_of :: "setter \<Rightarrow> flags" where
  "flag_of (AtLoad f) = f"
| "flag_of (AtSwap f cur) = f"
| "flag_of (Returned_from f) = f"

fun returned :: "setter \<Rightarrow> bool" where
  "returned (Returned_from f) = True"
| "returned _ = False"

inductive set_step :: "flags \<times> setter list \<Rightarrow> flags \<times> setter list \<Rightarrow> bool" where
  load: "i < length ts \<Longrightarrow> ts ! i = AtLoad f \<Longrightarrow> set_step (c, ts) (c, ts[i := AtSwap f c])"
| swap: "i < length ts \<Longrightarrow> ts ! i = AtSwap f cur \<Longrightarrow> c = cur \<Longrightarrow> set_step (c, ts) (cur OR f, ts[i := Returned_from f])"
| retry: "i < length ts \<Longrightarrow> ts ! i = AtSwap f cur \<Longrightarrow> c \<noteq> cur \<Longrightarrow> set_step (c, ts) (c, ts[i := AtLoad f])"

inductive_cases set_stepE: "set_step (c, ts) (c', ts')"

text \<open>What one caller alone does to the word.\<close>

definition SetState :: "flags \<Rightarrow> ('t, 'w) xmpp_Session \<Rightarrow> ('t, 'w) xmpp_Session" where
  "SetState st s = s\<lparr>ss_state := ss_state s OR st\<rparr>"

section \<open>Stream features\<close>

text \<open>\<open>Negotiate\<close> returns the state flags it gained, or an error; \<open>List\<close> writes the advertisement.\<close>

record 't StreamFeature =
  sf_Name :: xml_name
  sf_Required :: bool
  sf_Necessary :: flags
  sf_Prohibited :: flags
  sf_List :: "xml_token list"
  sf_Negotiate :: "'t \<Rightarrow> (string + flags) \<times> 't"

definition available :: "flags \<Rightarrow> 't StreamFeature \<Rightarrow> bool" where
  "available state f \<longleftrightarrow>
     \<not> (sf_Necessary f \<noteq> 0 \<and> (state AND sf_Necessary f) \<noteq> sf_Necessary f) \<and>
     \<not> (sf_Prohibited f \<noteq> 0 \<and> (state AND sf_Prohibited f) \<noteq> 0)"

record 't Negotiator =
  ng_features :: "'t StreamFeature list"

definition NewNegotiator :: "'t StreamFeature list \<Rightarrow> 't Negotiator" where
  "NewNegotiator features = \<lparr>ng_features = features\<rparr>"

definition AddFeature :: "'t StreamFeature \<Rightarrow> 't Negotiator \<Rightarrow> 't Negotiator" where
  "AddFeature f n = n\<lparr>ng_features := ng_features n @ [f]\<rparr>"

definition Features :: "'t Negotiator \<Rightarrow> flags \<Rightarrow> 't StreamFeature list" where
  "Features n state = fold (\<lambda>f av. if available state f then av @ [f] else av) (ng_features n) []"

definition ns_TLS :: string where "ns_TLS = ''urn:ietf:params:xml:ns:xmpp-tls''"
definition ns_SASL :: string where "ns_SASL = ''urn:ietf:params:xml:ns:xmpp-sasl''"
definition ns_Bind :: string where "ns_Bind = ''urn:ietf:params:xml:ns:xmpp-bind''"

text \<open>\<open>startTLS\<close> is the method of the transport, for the given TLS configuration.\<close>

definition StartTLS :: "('t \<Rightarrow> string option \<times> 't) \<Rightarrow> 't StreamFeature" where
  "StartTLS startTLS =
     (let name = \<lparr>Space = ns_TLS, Local = ''starttls''\<rparr>
      in \<lparr>sf_Name = name, sf_Required = True, sf_Necessary = 0, sf_Prohibited = StateSecure,
          sf_List = [StartElement name [], StartElement (local_name ''required'') [],
                     EndElement (local_name ''required''), EndElement name],
          sf_Negotiate = (\<lambda>t. case startTLS t of (Some e, t') \<Rightarrow> (Inl e, t') | (None, t') \<Rightarrow> (Inr StateSecure, t'))\<rparr>)"

definition mechanism_tokens :: "string \<Rightarrow> xml_token list" where
  "mechanism_tokens mech =
     (let name = \<lparr>Space = ns_SASL, Local = ''mechanism''\<rparr>
      in [StartElement name [], CharData mech, EndElement name])"

definition SASLFeature :: "string list \<Rightarrow> 't StreamFeature" where
  "SASLFeature mechanisms =
     (let name = \<lparr>Space = ns_SASL, Local = ''mechanisms''\<rparr>
      in \<lparr>sf_Name = name, sf_Required = True, sf_Necessary = StateSecure, sf_Prohibited = StateAuthenticated,
          sf_List = StartElement name [] # concat (map mechanism_tokens mechanisms) @ [EndElement name],
          sf_Negotiate = (\<lambda>t. (Inr StateAuthenticated, t))\<rparr>)"

definition BindFeature :: "'t StreamFeature" where
  "BindFeature =
     (let name = \<lparr>Space = ns_Bind, Local = ''bind''\<rparr>
      in \<lparr>sf_Name = name, sf_Required = True, sf_Necessary = StateAuthenticated, sf_Prohibited = StateBound,
          sf_List = [StartElement name [], EndElement name],
          sf_Negotiate = (\<lambda>t. (Inr (StateBound OR StateReady), t))\<rparr>)"

text \<open>\<open>Negotiate\<close> is a placeholder: it touches nothing and returns nil.\<close>

definition negotiator_Negotiate :: "'t Negotiator \<Rightarrow> ('t, 'w) xmpp_Session \<Rightarrow> ('t, 'w) xmpp_Session \<times> string option" where
  "negotiator_Negotiate n s = (s, None)"

section \<open>No flag is lost\<close>

definition returned_flags :: "setter list \<Rightarrow> flags" where
  "returned_flags ts = foldr (\<lambda>t acc. if returned t then flag_of t OR acc else acc) ts 0"

lemma bit_returned_flags: "bit (returned_flags ts) k \<longleftrightarrow> (\<exists>t \<in> set ts. returned t \<and> bit (flag_of t) k)"
  by (induction ts) (auto simp: returned_flags_def bit_or_iff)

lemma bit_fold_or: "bit (fold (\<lambda>f acc. acc OR f) fs s) k \<longleftrightarrow> bit s k \<or> (\<exists>f \<in> set fs. bit f k)"
  for s :: flags
  by (induction fs arbitrary: s) (auto simp: bit_or_iff)

lemma returned_flags_append: "returned_flags (xs @ ys) = returned_flags xs OR returned_flags ys"
  by (induction xs) (simp_all add: returned_flags_def or.assoc)

text \<open>A list with one entry replaced by a returned one, and by one that has not returned.\<close>

lemma returned_flags_update:
  assumes "i < length ts" "\<not> returned (ts ! i)"
  shows "returned_flags (ts[i := t]) = returned_flags ts OR (if returned t then flag_of t else 0)"
proof -
  have ts: "ts = take i ts @ ts ! i # drop (Suc i) ts" using assms(1) by (rule id_take_nth_drop)
  have upd: "ts[i := t] = take i ts @ t # drop (Suc i) ts" using assms(1) by (simp add: upd_conv_take_nth_drop)
  have one: "returned_flags (u # us) = (if returned u then flag_of u else 0) OR returned_flags us" for u us
    by (simp add: returned_flags_def)
  have "returned_flags ts = returned_flags (take i ts) OR returned_flags (drop (Suc i) ts)"
    by (subst ts) (simp add: returned_flags_append one assms(2))
  then show ?thesis unfolding upd by (simp add: returned_flags_append one or.assoc or.commute or.left_commute)
qed

lemma map_update_same: "g t = g (ts ! i) \<Longrightarrow> map g (ts[i := t]) = map g ts"
  by (metis list_update_id map_update)

lemma set_step_word: "set_step x y \<Longrightarrow> fst x = s OR returned_flags (snd x) \<Longrightarrow> fst y = s OR returned_flags (snd y)"
  by (induction rule: set_step.induct) (simp_all add: returned_flags_update or.assoc)

lemma set_step_grows: "set_step x y \<Longrightarrow> fst x OR fst y = fst y"
  by (induction rule: set_step.induct) (simp_all flip: or.assoc)

lemma set_step_flags: "set_step x y \<Longrightarrow> map flag_of (snd y) = map flag_of (snd x)"
  by (induction rule: set_step.induct) (simp_all add: map_update_same)

lemma set_steps_inv:
  "set_step\<^sup>*\<^sup>* x y \<Longrightarrow> fst x = s OR returned_flags (snd x) \<Longrightarrow>
     fst y = s OR returned_flags (snd y) \<and> fst x OR fst y = fst y \<and> map flag_of (snd y) = map flag_of (snd x)"
proof (induction rule: rtranclp_induct)
  case (step y z)
  then have "fst y = s OR returned_flags (snd y)" "fst x OR fst y = fst y" "map flag_of (snd y) = map flag_of (snd x)" by auto
  moreover have "fst x OR fst z = fst z"
    using set_step_grows [OF step.hyps(2)] calculation(2) by (metis or.assoc)
  ultimately show ?case using set_step_word [OF step.hyps(2)] set_step_flags [OF step.hyps(2)] by simp
qed simp

lemma returned_flags_start: "returned_flags (map AtLoad fs) = 0"
  by (induction fs) (simp_all add: returned_flags_def)

text \<open>
  Every step brings the callers closer to returning: either one returns, or, with the word unchanged, a
  caller goes on to a swap that will succeed, or gives up one that can not.
\<close>

fun distance :: "flags \<Rightarrow> setter \<Rightarrow> nat" where
  "distance c (Returned_from f) = 0"
| "distance c (AtSwap f cur) = (if cur = c then 1 else 3)"
| "distance c (AtLoad f) = 2"

definition set_measure :: "((flags \<times> setter list) \<times> (flags \<times> setter list)) set" where
  "set_measure = inv_image (less_than <*lex*> less_than)
     (\<lambda>(c, ts). (sum_list (map (\<lambda>t. if returned t then 0 else 1) ts), sum_list (map (distance c) ts)))"

lemma sum_update_less:
  fixes g :: "'a \<Rightarrow> nat"
  shows "i < length ts \<Longrightarrow> g t < g (ts ! i) \<Longrightarrow> sum_list (map g (ts[i := t])) < sum_list (map g ts)"
  using elem_le_sum_list [of i "map g ts"] by (simp add: map_update sum_list_update)

lemma sum_update_same:
  fixes g :: "'a \<Rightarrow> nat"
  shows "i < length ts \<Longrightarrow> g t = g (ts ! i) \<Longrightarrow> sum_list (map g (ts[i := t])) = sum_list (map g ts)"
  by (simp only: map_update_same)

lemma set_step_decreases: "set_step x y \<Longrightarrow> (y, x) \<in> set_measure"
  by (induction rule: set_step.induct) (auto simp: set_measure_def sum_update_same intro!: sum_update_less)

lemma wf_set_measure: "wf set_measure"
  unfolding set_measure_def by (intro wf_inv_image wf_lex_prod wf_less_than)

lemma set_step_no_infinite: "\<not> (\<exists>run. \<forall>n. set_step (run n) (run (Suc n)))"
  using wf_set_measure set_step_decreases unfolding wf_iff_no_infinite_down_chain by blast

lemma set_step_progress: "(\<exists>y. set_step (c, ts) y) \<longleftrightarrow> (\<exists>t \<in> set ts. \<not> returned t)"
proof
  assume "\<exists>t \<in> set ts. \<not> returned t"
  then obtain i where i: "i < length ts" "\<not> returned (ts ! i)" by (auto simp: in_set_conv_nth)
  then show "\<exists>y. set_step (c, ts) y"
    by (cases "ts ! i") (use set_step.intros i in \<open>metis returned.simps(1)\<close>)+
next
  assume "\<exists>y. set_step (c, ts) y"
  then obtain y where "set_step (c, ts) y" ..
  then show "\<exists>t \<in> set ts. \<not> returned t"
    by (cases rule: set_step.cases) (metis nth_mem returned.simps(2,3))+
qed

text \<open>
  C27: goroutines that call \<open>SetState\<close> at the same time.  In every interleaving of their loads and swaps
  the word holds the initial flags and those of the callers that have returned, and no others; flags once
  seen stay set; the callers can always go on until all have returned, and no interleaving goes on for
  ever; then the word holds every flag, whatever the order.
\<close>

theorem SetState_concurrent:
  assumes "set_step\<^sup>*\<^sup>* (s, map AtLoad fs) (c, ts)"
  shows "c = s OR returned_flags ts \<and>
    (\<forall>c' ts'. set_step\<^sup>*\<^sup>* (c, ts) (c', ts') \<longrightarrow> c OR c' = c') \<and>
    ((\<exists>y. set_step (c, ts) y) \<longleftrightarrow> (\<exists>t \<in> set ts. \<not> returned t)) \<and>
    \<not> (\<exists>run. run 0 = (c, ts) \<and> (\<forall>n. set_step (run n) (run (Suc n)))) \<and>
    ((\<forall>t \<in> set ts. returned t) \<longrightarrow> c = fold (\<lambda>f acc. acc OR f) fs s)"
proof -
  have inv: "c = s OR returned_flags ts" and fs: "map flag_of ts = fs"
    using set_steps_inv [OF assms, of s] by (simp_all add: returned_flags_start comp_def)
  have mono: "\<forall>c' ts'. set_step\<^sup>*\<^sup>* (c, ts) (c', ts') \<longrightarrow> c OR c' = c'"
    using set_steps_inv [of "(c, ts)" _ s] inv by fastforce
  have final: "c = fold (\<lambda>f acc. acc OR f) fs s" if "\<forall>t \<in> set ts. returned t"
    by (rule bit_eqI) (use that in \<open>auto simp: inv fs [symmetric] bit_or_iff bit_returned_flags bit_fold_or\<close>)
  show ?thesis using inv mono final set_step_progress set_step_no_infinite by blast
qed

text \<open>Two callers, the second overtaking the first, whose swap then fails once.\<close>

theorem SetState_concurrent_witness:
  "(15 :: flags) = fold (\<lambda>f acc. acc OR f) [StateSecure OR StateAuthenticated, StateBound OR StateReady] 0"
proof -
  let ?f = "StateSecure OR StateAuthenticated" and ?g = "StateBound OR StateReady"
  have "set_step (0, [AtLoad ?f, AtLoad ?g]) (0, [AtSwap ?f 0, AtLoad ?g])" using set_step.load [of 0 "[AtLoad ?f, AtLoad ?g]"] by simp
  moreover have "set_step (0, [AtSwap ?f 0, AtLoad ?g]) (0, [AtSwap ?f 0, AtSwap ?g 0])" using set_step.load [of 1 "[AtSwap ?f 0, AtLoad ?g]"] by simp
  moreover have "set_step (0, [AtSwap ?f 0, AtSwap ?g 0]) (12, [AtSwap ?f 0, Returned_from ?g])"
    using set_step.swap [of 1 "[AtSwap ?f 0, AtSwap ?g 0]"] by (simp add: state_defs)
  moreover have "set_step (12, [AtSwap ?f 0, Returned_from ?g]) (12, [AtLoad ?f, Returned_from ?g])"
    using set_step.retry [of 0 "[AtSwap ?f 0, Returned_from ?g]" ?f 0 12] by simp
  moreover have "set_step (12, [AtLoad ?f, Returned_from ?g]) (12, [AtSwap ?f 12, Returned_from ?g])"
    using set_step.load [of 0 "[AtLoad ?f, Returned_from ?g]" ?f 12] by simp
  moreover have "set_step (12, [AtSwap ?f 12, Returned_from ?g]) (15, [Returned_from ?f, Returned_from ?g])"
    using set_step.swap [of 0 "[AtSwap ?f 12, Returned_from ?g]" ?f 12 12] by (simp add: state_defs)
  ultimately have "set_step\<^sup>*\<^sup>* (0, map AtLoad [?f, ?g]) (15, [Returned_from ?f, Returned_from ?g])"
    by (auto intro: converse_rtranclp_into_rtranclp)
  from SetState_concurrent [OF this] show ?thesis by simp
qed


section \<open>The features that are offered\<close>

lemma set_Features: "set (Features n state) = {f \<in> set (ng_features n). available state f}"
  for n :: "'t Negotiator"
proof -
  have "set (fold (\<lambda>f av. if available state f then av @ [f] else av) fs av) = set av \<union> {f \<in> set fs. available state f}"
    for fs av :: "'t StreamFeature list"
    by (induction fs arbitrary: av) auto
  then show ?thesis by (simp add: Features_def)
qed

definition has :: "flags \<Rightarrow> flags \<Rightarrow> bool" where
  "has state f \<longleftrightarrow> state AND f = f"

text \<open>Which flags presuppose which: the flags a session can show with the standard features.\<close>

definition negotiated_in_order :: "flags \<Rightarrow> bool" where
  "negotiated_in_order st \<longleftrightarrow>
     (has st StateAuthenticated \<longrightarrow> has st StateSecure) \<and> (has st StateBound \<longrightarrow> has st StateAuthenticated) \<and>
     (has st StateReady \<longleftrightarrow> has st StateBound)"

definition standard_features :: "('t \<Rightarrow> string option \<times> 't) \<Rightarrow> string list \<Rightarrow> 't Negotiator" where
  "standard_features startTLS mechs = AddFeature BindFeature (NewNegotiator [StartTLS startTLS, SASLFeature mechs])"

lemma and_push_one:
  fixes st :: flags
  assumes "k < 32"
  shows "st AND push_bit k 1 = (if bit st k then push_bit k 1 else 0)"
  by (rule bit_eqI) (use assms in \<open>auto simp: bit_simps\<close>)

lemmas and_flag = and_push_one [of 0, simplified] and_push_one [of 1, simplified]
  and_push_one [of 2, simplified] and_push_one [of 3, simplified]

lemma has_bit:
  "has st StateSecure = bit st 0" "has st StateAuthenticated = bit st 1" "has st StateBound = bit st 2" "has st StateReady = bit st 3"
  by (simp_all add: has_def state_defs and_flag)

lemma available_standard:
  "available st (StartTLS startTLS) \<longleftrightarrow> \<not> bit st 0"
  "available st (SASLFeature mechs) \<longleftrightarrow> bit st 0 \<and> \<not> bit st 1"
  "available st BindFeature \<longleftrightarrow> bit st 1 \<and> \<not> bit st 2"
  by (simp_all add: available_def StartTLS_def SASLFeature_def BindFeature_def Let_def state_defs and_flag)

lemma bit_flags:
  "bit StateSecure k \<longleftrightarrow> k = 0" "bit StateAuthenticated k \<longleftrightarrow> k = 1" "bit StateBound k \<longleftrightarrow> k = 2" "bit StateReady k \<longleftrightarrow> k = 3"
  by (auto simp: StateSecure_def StateAuthenticated_def StateBound_def StateReady_def bit_push_bit_iff bit_1_iff bit_2_iff simp del: push_bit_of_1)

text \<open>In a state reached in order, at most one of the standard features can be negotiated.\<close>

definition next_feature :: "('t \<Rightarrow> string option \<times> 't) \<Rightarrow> string list \<Rightarrow> flags \<Rightarrow> 't StreamFeature list" where
  "next_feature startTLS mechs st =
     (if \<not> has st StateSecure then [StartTLS startTLS]
      else if \<not> has st StateAuthenticated then [SASLFeature mechs]
      else if \<not> has st StateBound then [BindFeature]
      else [])"

lemma Features_standard:
  "negotiated_in_order st \<Longrightarrow> Features (standard_features startTLS mechs) st = next_feature startTLS mechs st"
  by (auto simp: negotiated_in_order_def has_bit standard_features_def Features_def AddFeature_def NewNegotiator_def
        next_feature_def available_standard)

text \<open>
  The flags a feature asks for and reports keep that order: what a feature reports that was offered in such a
  state can be added to the state.
\<close>

lemma offered_in_order:
  assumes "f \<in> set (Features (standard_features startTLS mechs) st)" "negotiated_in_order st" "sf_Negotiate f t = (Inr new, t')"
  shows "negotiated_in_order (st OR new)"
proof -
  from assms(1) have "f \<in> set (next_feature startTLS mechs st)" using Features_standard [OF assms(2)] by metis
  then show ?thesis using assms(2,3)
    by (auto simp: next_feature_def StartTLS_def SASLFeature_def BindFeature_def Let_def
          negotiated_in_order_def has_bit bit_or_iff bit_flags split: if_splits prod.splits option.splits)
qed

lemma feature_elements:
  "f \<in> set (next_feature startTLS mechs st) \<Longrightarrow> one_element (sf_Name f) (sf_List f)"
proof -
  have "nest (concat (map mechanism_tokens mechs)) [] = Some []"
    by (rule nest_concat) (auto simp: mechanism_tokens_def Let_def)
  then show "f \<in> set (next_feature startTLS mechs st) \<Longrightarrow> one_element (sf_Name f) (sf_List f)"
    unfolding one_element_def
    by (auto simp: next_feature_def StartTLS_def SASLFeature_def BindFeature_def Let_def local_name_def split: if_splits
             intro: exI [of _ "[StartElement (local_name ''required'') [], EndElement (local_name ''required'')]"] exI [of _ "[]"])
qed

end
