(* ===== verification/GoText.thy ===== *)
theory GoText
  imports Prelude
begin

text \<open>
  The parts of the Go standard library on which the text protocols of the program rest: base64
  (encoding/base64, standard alphabet with padding), white space (strings.TrimSpace), splitting
  (strings.SplitN), and reading and printing decimal numbers (fmt).  A string is a list of bytes, and so
  is a byte slice here, so the conversions between the two are the identity.
\<close>

section \<open>Package encoding/base64\<close>

definition b64_pad :: char where
  "b64_pad = CHR ''=''"

definition b64_char :: "nat \<Rightarrow> char" where
  "b64_char n =
     (if n < 26 then char_of (65 + n) else if n < 52 then char_of (71 + n)
      else if n < 62 then char_of (n - 4) else if n = 62 then CHR ''+'' else CHR ''/'')"

definition b64_value :: "char \<Rightarrow> nat option" where
  "b64_value c =
     (let n = of_char c
      in if 65 \<le> n \<and> n \<le> 90 then Some (n - 65) else if 97 \<le> n \<and> n \<le> 122 then Some (n - 71)
         else if 48 \<le> n \<and> n \<le> 57 then Some (n + 4) else if n = 43 then Some 62
         else if n = 47 then Some 63 else None)"

abbreviation byte_of :: "char \<Rightarrow> nat" where
  "byte_of \<equiv> of_char"

text \<open>\<open>EncodeToString\<close>, three bytes at a time.\<close>

fun b64_encode :: "string \<Rightarrow> string" where
  "b64_encode [] = []"
| "b64_encode [a] = [b64_char (byte_of a div 4), b64_char (byte_of a mod 4 * 16), b64_pad, b64_pad]"
| "b64_encode [a, b] =
     [b64_char (byte_of a div 4), b64_char (byte_of a mod 4 * 16 + byte_of b div 16), b64_char (byte_of b mod 16 * 4), b64_pad]"
| "b64_encode (a # b # c # rest) =
     [b64_char (byte_of a div 4), b64_char (byte_of a mod 4 * 16 + byte_of b div 16),
      b64_char (byte_of b mod 16 * 4 + byte_of c div 64), b64_char (byte_of c mod 64)] @ b64_encode rest"

text \<open>
  \<open>DecodeString\<close>: line breaks are skipped; padding can only end the text; bits that pad the last byte are
  not looked at.  \<open>None\<close> is a \<open>CorruptInputError\<close>.
\<close>

fun b64_quads :: "string \<Rightarrow> string option" where
  "b64_quads [] = Some []"
| "b64_quads (p # q # r # s # rest) =
     (case (b64_value p, b64_value q) of
        (Some x, Some y) \<Rightarrow>
          (if r = b64_pad then
             (if s = b64_pad \<and> rest = [] then Some [char_of (x * 4 + y div 16)] else None)
           else (case b64_value r of
               None \<Rightarrow> None
             | Some z \<Rightarrow>
                 (if s = b64_pad then
                    (if rest = [] then Some [char_of (x * 4 + y div 16), char_of (y mod 16 * 16 + z div 4)] else None)
                  else (case b64_value s of
                      None \<Rightarrow> None
                    | Some w \<Rightarrow> map_option (\<lambda>t. [char_of (x * 4 + y div 16), char_of (y mod 16 * 16 + z div 4),
                          char_of (z mod 4 * 64 + w)] @ t) (b64_quads rest)))))
      | _ \<Rightarrow> None)"
| "b64_quads _ = None"

definition b64_decode :: "string \<Rightarrow> string option" where
  "b64_decode s = b64_quads (filter (\<lambda>c. of_char c \<noteq> (10 :: nat) \<and> of_char c \<noteq> (13 :: nat)) s)"

lemma byte_of_less [simp]: "byte_of c < 256"
  by (metis of_char_mod_256 mod_less_divisor zero_less_numeral)

lemma b64_value_char: "n < 64 \<Longrightarrow> b64_value (b64_char n) = Some n"
  by (auto simp: b64_value_def b64_char_def Let_def)

definition b64_alphabet :: "char set" where
  "b64_alphabet = {c. byte_of c \<in> {43, 47} \<union> {48..57} \<union> {65..90} \<union> {97..122}}"

lemma b64_char_code: "n < 64 \<Longrightarrow> b64_char n \<in> b64_alphabet"
  by (auto simp: b64_char_def b64_alphabet_def)

lemma b64_char_plain:
  "n < 64 \<Longrightarrow> b64_char n \<noteq> b64_pad" "n < 64 \<Longrightarrow> byte_of (b64_char n) \<noteq> 10" "n < 64 \<Longrightarrow> byte_of (b64_char n) \<noteq> 13"
  using b64_char_code [of n] by (auto simp: b64_pad_def b64_alphabet_def)

text \<open>The sextets are in range, and joined they give the bytes back.\<close>

lemma byte_parts:
  fixes m n :: nat
  shows "n < 256 \<Longrightarrow> n div 4 < 64" "n mod 4 * 16 < 64" "n mod 16 * 4 < 64" "n mod 64 < 64"
    "m < 256 \<Longrightarrow> n mod 4 * 16 + m div 16 < 64" "m < 256 \<Longrightarrow> n mod 16 * 4 + m div 64 < 64"
proof -
  have "n mod 4 < 4" "n mod 16 < 16" "n mod 64 < 64" by simp_all
  then show "n mod 4 * 16 < 64" "n mod 16 * 4 < 64" "n mod 64 < 64" by linarith+
  show "n < 256 \<Longrightarrow> n div 4 < 64" by (simp add: less_mult_imp_div_less)
  assume "m < 256"
  then have "m div 16 < 16" "m div 64 < 4" by (simp_all add: less_mult_imp_div_less)
  with \<open>n mod 4 < 4\<close> \<open>n mod 16 < 16\<close> show "n mod 4 * 16 + m div 16 < 64" "n mod 16 * 4 + m div 64 < 64" by linarith+
qed

lemma byte_joins:
  fixes a b c :: nat
  assumes "b < 256" "c < 256"
  shows "a div 4 * 4 + (a mod 4 * 16 + b div 16) div 16 = a"
    "(a mod 4 * 16 + b div 16) mod 16 * 16 + (b mod 16 * 4 + c div 64) div 4 = b"
    "(b mod 16 * 4 + c div 64) mod 4 * 64 + c mod 64 = c"
    "(a mod 4 * 16) div 16 = a mod 4" "(b mod 16 * 4) div 4 = b mod 16"
proof -
  have lt: "b div 16 < 16" "c div 64 < 4" using assms by (simp_all add: less_mult_imp_div_less)
  have "(a mod 4 * 16 + b div 16) div 16 = a mod 4" "(a mod 4 * 16 + b div 16) mod 16 = b div 16"
    "(b mod 16 * 4 + c div 64) div 4 = b mod 16" "(b mod 16 * 4 + c div 64) mod 4 = c div 64"
    using lt by (simp_all add: div_mult_self3 mod_mult_self3)
  then show "a div 4 * 4 + (a mod 4 * 16 + b div 16) div 16 = a"
    "(a mod 4 * 16 + b div 16) mod 16 * 16 + (b mod 16 * 4 + c div 64) div 4 = b"
    "(b mod 16 * 4 + c div 64) mod 4 * 64 + c mod 64 = c" by simp_all
qed simp_all

lemmas b64_step = byte_parts b64_value_char b64_char_plain byte_joins

lemma b64_quads_encode: "b64_quads (b64_encode s) = Some s"
proof (induction s rule: b64_encode.induct)
  case (2 a)
  then show ?case using byte_joins(1) [of 0 0 "byte_of a"] by (simp add: b64_step)
next
  case (3 a b)
  then show ?case using byte_joins(2) [of "byte_of b" 0 "byte_of a"] by (simp add: b64_step)
next
  case (4 a b c rest)
  then show ?case 
    using byte_joins(1,2) [of "byte_of b" "byte_of c" "byte_of a"] byte_joins(3) [of "byte_of b" "byte_of c"]
    by (simp add: b64_step)
qed simp

lemma b64_encode_chars: "ch \<in> set (b64_encode s) \<Longrightarrow> ch = b64_pad \<or> ch \<in> b64_alphabet"
  by (induction s rule: b64_encode.induct) (auto simp: byte_parts b64_char_code)

lemma b64_encode_no_break: "filter (\<lambda>c. byte_of c \<noteq> 10 \<and> byte_of c \<noteq> 13) (b64_encode s) = b64_encode s"
  by (rule filter_True) (auto dest!: b64_encode_chars simp: b64_pad_def b64_alphabet_def)

lemma b64_roundtrip [go_string]: "b64_decode (b64_encode s) = Some s"
  by (simp add: b64_decode_def b64_encode_no_break b64_quads_encode)

lemma b64_encode_no_comma [go_string]: "CHR '','' \<notin> set (b64_encode s)"
  by (auto dest!: b64_encode_chars simp: b64_pad_def b64_alphabet_def)

lemma b64_encode_inj: "b64_encode s = b64_encode t \<longleftrightarrow> s = t"
  by (metis b64_quads_encode option.inject)

section \<open>White space and splitting\<close>

text \<open>\<open>unicode.IsSpace\<close>.\<close>

definition is_space :: "nat \<Rightarrow> bool" where
  "is_space r \<longleftrightarrow>
     (9 \<le> r \<and> r \<le> 13) \<or> r = 32 \<or> r = 0x85 \<or> r = 0xA0 \<or> r = 0x1680 \<or> (0x2000 \<le> r \<and> r \<le> 0x200A) \<or>
     r = 0x2028 \<or> r = 0x2029 \<or> r = 0x202F \<or> r = 0x205F \<or> r = 0x3000"

text \<open>The encodings of the runes of a string, one after the other.\<close>

function rune_parts :: "string \<Rightarrow> string list" where
  "rune_parts s =
     (if s = [] then []
      else let w = snd (decode_rune (string_bytes s)) in take w s # rune_parts (drop w s))"
  by pat_completeness auto
termination
  by (relation "measure length") (simp_all add: decode_rune_width string_bytes_def)

declare rune_parts.simps [simp del]

definition space_part :: "string \<Rightarrow> bool" where
  "space_part p \<longleftrightarrow> is_space (fst (decode_rune (string_bytes p)))"

text \<open>
  \<open>strings.TrimSpace\<close>.  Splitting into runes from the front finds the same trailing white space as Go's
  decoding from the back: the first byte of a white-space rune is never part of another rune.
\<close>

definition TrimSpace :: "string \<Rightarrow> string" where
  "TrimSpace s = concat (rev (dropWhile space_part (rev (dropWhile space_part (rune_parts s)))))"

lemmas trim_eval = TrimSpace_def rune_parts.simps space_part_def is_space_def string_bytes_def rune_error_def

lemma concat_rune_parts: "concat (rune_parts s) = s"
proof (induction s rule: rune_parts.induct)
  case (1 s)
  then show ?case by (subst rune_parts.simps) (simp add: Let_def)
qed

lemma TrimSpace_Nil [simp]: "TrimSpace [] = []"
  by (simp add: trim_eval)

text \<open>\<open>strings.SplitN(s, sep, 3)\<close> for a one-byte separator: at most two cuts, the rest is not split.\<close>

fun split_n :: "nat \<Rightarrow> char \<Rightarrow> string \<Rightarrow> string list" where
  "split_n 0 c s = []"
| "split_n (Suc n) c s =
     (if n = 0 then [s]
      else case index_byte s c of None \<Rightarrow> [s] | Some i \<Rightarrow> take i s # split_n n c (drop (Suc i) s))"

lemma split_n_append: "c \<notin> set p \<Longrightarrow> n \<noteq> 0 \<Longrightarrow> split_n (Suc n) c (p @ c # s) = p # split_n n c s"
  by (simp add: index_byte_append)

section \<open>Decimal numbers\<close>

text \<open>\<open>%d\<close> of a number that is not negative.\<close>

fun print_nat :: "nat \<Rightarrow> string" where
  "print_nat n = (if n < 10 then [char_of (48 + n)] else print_nat (n div 10) @ [char_of (48 + n mod 10)])"

declare print_nat.simps [simp del]

definition digits_value :: "nat list \<Rightarrow> nat" where
  "digits_value ds = foldl (\<lambda>n d. 10 * n + (d - 48)) 0 ds"

definition is_digit :: "nat \<Rightarrow> bool" where
  "is_digit r \<longleftrightarrow> 48 \<le> r \<and> r \<le> 57"

text \<open>
  \<open>fmt.Sscanf(s, "%d", &v)\<close> for a 64-bit variable: white space, a sign, digits, and whatever follows.
  \<open>None\<close> is an error, which leaves the variable as it was.
\<close>

fun skip_space :: "nat list \<Rightarrow> nat list option" where
  "skip_space [] = Some []"
| "skip_space (r # rs) = (if r = 10 then None else if is_space r then skip_space rs else Some (r # rs))"

definition scan_number :: "bool \<Rightarrow> nat list \<Rightarrow> int option" where
  "scan_number neg rs =
     (let ds = takeWhile is_digit rs; n = int (digits_value ds); v = (if neg then - n else n)
      in if ds = [] \<or> v < - (2 ^ 63) \<or> 2 ^ 63 \<le> v then None else Some v)"

definition Sscanf_d :: "string \<Rightarrow> int option" where
  "Sscanf_d s =
     (case skip_space (runes (string_bytes s)) of
        None \<Rightarrow> None
      | Some [] \<Rightarrow> None
      | Some (r # rs) \<Rightarrow>
          (if r = 43 then scan_number False rs else if r = 45 then scan_number True rs
           else scan_number False (r # rs)))"

lemma print_nat_digits: "c \<in> set (print_nat n) \<Longrightarrow> is_digit (byte_of c)"
proof (induction n rule: print_nat.induct)
  case (1 n)
  then show ?case by (cases "n < 10") (auto simp: print_nat.simps [of n] is_digit_def)
qed

lemma print_nat_not_Nil [simp]: "print_nat n \<noteq> []"
  by (subst print_nat.simps) simp

lemma digits_value_snoc: "digits_value (ds @ [d]) = 10 * digits_value ds + (d - 48)"
  by (simp add: digits_value_def)

lemma digits_value_print: "digits_value (string_bytes (print_nat n)) = n"
proof (induction n rule: print_nat.induct)
  case (1 n)
  show ?case
  proof (cases "n < 10")
    case True
    then show ?thesis by (simp add: print_nat.simps [of n] string_bytes_def digits_value_def)
  next
    case False
    then have "digits_value (string_bytes (print_nat n)) =
        10 * digits_value (string_bytes (print_nat (n div 10))) + n mod 10"
      by (simp add: print_nat.simps [of n] string_bytes_def digits_value_snoc)
    also have "\<dots> = n" using 1 False by simp
    finally show ?thesis .
  qed
qed

text \<open>Bytes below 128 are their own runes.\<close>

lemma runes_of_ascii: "\<forall>b \<in> set bs. b < 128 \<Longrightarrow> runes bs = bs"
  by (induction bs) (simp_all add: runes.simps [of "[]"] runes.simps [of "_ # _"])

lemma Sscanf_print [go_string]:
  assumes "n < 2 ^ 63"
  shows "Sscanf_d (print_nat n) = Some (int n)"
proof -
  let ?bs = "string_bytes (print_nat n)"
  have dig: "\<forall>b \<in> set ?bs. is_digit b" by (auto simp: string_bytes_def dest: print_nat_digits)
  have "runes ?bs = ?bs" by (rule runes_of_ascii) (use dig in \<open>auto simp: is_digit_def\<close>)
  moreover obtain b bs where bs: "?bs = b # bs" by (cases ?bs) (auto simp: string_bytes_def)
  moreover have "is_digit b" "takeWhile is_digit bs = bs" using dig bs by (simp_all add: takeWhile_eq_all_conv)
  moreover have "b \<noteq> 10" "\<not> is_space b" "b \<noteq> 43" "b \<noteq> 45"
    using \<open>is_digit b\<close> by (auto simp: is_digit_def is_space_def)
  ultimately show ?thesis using assms digits_value_print [of n]
    by (simp add: Sscanf_d_def scan_number_def Let_def del: takeWhile_eq_all_conv)
qed

lemma print_nat_no_comma [go_string]: "CHR '','' \<notin> set (print_nat n)"
  by (auto dest!: print_nat_digits simp: is_digit_def)

section \<open>Trimming twice\<close>

text \<open>Decoding a rune looks at no byte behind it, and cutting bytes off does not make a broken rune whole.\<close>

lemma decode_rune_take:
  assumes "bs \<noteq> []" and "snd (decode_rune bs) \<le> n"
  shows "decode_rune (take n bs) = decode_rune bs"
proof -
  obtain b0 cs where bs: "bs = b0 # cs" using assms(1) by (cases bs) auto
  have n: "0 < n" using decode_rune_width [OF assms(1)] assms(2) by linarith
  then obtain m where m: "n = Suc m" by (cases n) auto
  show ?thesis
    using assms(2) unfolding bs m
    by (cases cs; cases "tl cs"; cases "tl (tl cs)"; cases m; cases "m - 1"; cases "m - 2")
       (auto split: if_splits simp: rune_error_def)
qed

lemma decode_rune_le: "bs \<noteq> [] \<Longrightarrow> snd (decode_rune bs) \<le> length bs"
  by (cases bs) (auto split: list.splits)

lemma rune_parts_Nil [simp]: "rune_parts [] = []"
  by (simp add: rune_parts.simps)

lemma rune_parts_drop: "rune_parts (concat (drop n (rune_parts s))) = drop n (rune_parts s)"
proof (induction s arbitrary: n rule: rune_parts.induct)
  case (1 s)
  show ?case
  proof (cases "s = [] \<or> n = 0")
    case True
    then show ?thesis by (auto simp: concat_rune_parts)
  next
    case False
    let ?w = "snd (decode_rune (string_bytes s))"
    obtain k where k: "n = Suc k" using False by (cases n) auto
    have "rune_parts s = take ?w s # rune_parts (drop ?w s)" using False by (simp add: rune_parts.simps [of s] Let_def)
    then show ?thesis using 1 [of _ k] False k by simp
  qed
qed

lemma rune_parts_take: "rune_parts (concat (take n (rune_parts s))) = take n (rune_parts s)"
proof (induction s arbitrary: n rule: rune_parts.induct)
  case (1 s)
  show ?case
  proof (cases "s = [] \<or> n = 0")
    case True
    then show ?thesis by auto
  next
    case False
    let ?w = "snd (decode_rune (string_bytes s))"
    obtain k where k: "n = Suc k" using False by (cases n) auto
    have parts: "rune_parts s = take ?w s # rune_parts (drop ?w s)" using False by (simp add: rune_parts.simps [of s] Let_def)
    let ?rest = "concat (take k (rune_parts (drop ?w s)))"
    let ?t = "take ?w s @ ?rest"
    have sb: "string_bytes s \<noteq> []" using False by (simp add: string_bytes_def)
    have "\<exists>m. ?rest = take m (drop ?w s)"
      using concat_rune_parts [of "drop ?w s"] by (metis append_eq_conv_conj append_take_drop_id concat_append)
    then obtain m where m: "?rest = take m (drop ?w s)" ..
    then have t: "?t = take (?w + m) s" by (simp add: take_add)
    then have "string_bytes ?t = take (?w + m) (string_bytes s)" by (simp add: string_bytes_def take_map)
    then have dec: "decode_rune (string_bytes ?t) = decode_rune (string_bytes s)"
      using decode_rune_take [OF sb, of "?w + m"] by simp
    have "length s = length (string_bytes s)" by (simp add: string_bytes_def)
    then have w: "0 < ?w" using decode_rune_width [OF sb] by simp
    have "?w \<le> length s" using decode_rune_le [OF sb] by (simp add: string_bytes_def)
    then have "?t \<noteq> []" "take ?w ?t = take ?w s" "drop ?w ?t = ?rest" using w False by (auto simp: min_def)
    then have "rune_parts ?t = take ?w s # rune_parts ?rest"
      by (subst rune_parts.simps) (simp add: Let_def dec)
    then show ?thesis using 1 [of _ k] False k parts by simp
  qed
qed

lemma TrimSpace_idem [simp]: "TrimSpace (TrimSpace s) = TrimSpace s"
proof -
  let ?ps = "dropWhile space_part (rune_parts s)"
  let ?qs = "rev (dropWhile space_part (rev ?ps))"
  have "\<exists>n. ?ps = drop n (rune_parts s)" using dropWhile_eq_drop by blast
  then have ps: "rune_parts (concat ?ps) = ?ps" using rune_parts_drop by metis
  have "\<exists>n. ?qs = take n ?ps" using dropWhile_eq_drop [of space_part "rev ?ps"] by (metis rev_drop rev_rev_ident)
  then have qs: "rune_parts (concat ?qs) = ?qs" using rune_parts_take [of _ "concat ?ps"] ps by metis
  have "dropWhile space_part ?qs = ?qs"
  proof (cases ?qs)
    case (Cons q qs)
    then have "prefix (q # qs) ?ps" by (metis rev_rev_ident suffix_dropWhile suffix_to_prefix)
    then obtain rest where "?ps = q # rest" by (auto simp: prefix_def)
    then have "\<not> space_part q" by (metis hd_dropWhile list.sel(1) list.distinct(1))
    then show ?thesis using Cons by simp
  next
    case Nil
    then show ?thesis by (simp only: dropWhile.simps)
  qed
  moreover have "dropWhile space_part (rev ?qs) = rev ?qs" by (simp add: dropWhile_idem)
  ultimately show ?thesis by (simp add: TrimSpace_def qs)
qed

text \<open>Text without white space and without bytes beyond ASCII is not changed.\<close>

lemma rune_parts_ascii: "\<forall>c \<in> set s. byte_of c < 128 \<Longrightarrow> rune_parts s = map (\<lambda>c. [c]) s"
proof (induction s)
  case (Cons c s)
  then show ?case by (subst rune_parts.simps) (simp add: string_bytes_def)
qed simp

lemma TrimSpace_ascii:
  assumes "\<forall>c \<in> set s. byte_of c < 128 \<and> \<not> is_space (byte_of c)"
  shows "TrimSpace s = s"
proof -
  have np: "\<not> space_part p" if "p \<in> set (rune_parts s)" for p
    using that assms by (auto simp: rune_parts_ascii space_part_def string_bytes_def)
  have dw: "dropWhile space_part ps = ps" if "set ps \<subseteq> set (rune_parts s)" for ps
    using that np by (cases ps) auto
  show ?thesis by (simp add: TrimSpace_def dw concat_rune_parts)
qed

lemma b64_encode_trim: "TrimSpace (b64_encode s) = b64_encode s"
  by (rule TrimSpace_ascii) (auto dest!: b64_encode_chars simp: b64_pad_def b64_alphabet_def is_space_def)

end
