(* ===== verification/Sasl.thy ===== *)
theory Sasl
  imports GoText
begin

text \<open>
  Package \<open>sasl\<close> (sasl.go, plain.go, external.go, anonymous.go, scram.go) and the account data that
  cmd/xmppd/scram.go derives from a password.  Hash, HMAC and PBKDF2 are the fields of the record
  \<open>hash_fn\<close>, a parameter.  The theory \<open>SaslExchange\<close> has the theorems on SCRAM.
\<close>

unbundle bit_operations_syntax

section \<open>Errors, credentials and mechanisms\<close>

datatype sasl_error =
    ErrNoMechanism
  | ErrAuthFailed
  | ErrInvalidResponse
  | ErrChannelBinding
  | UnexpectedStep
  | CorruptBase64
  | InvalidIterationCount
  | ServerError string
  | IndexPanic

record Credentials =
  cr_Username :: string
  cr_Password :: string
  cr_AuthzID :: string
  cr_ChannelBinding :: string
  cr_CBType :: string

record Plain =
  pl_creds :: Credentials
  pl_completed :: bool

definition NewPlain :: "Credentials \<Rightarrow> Plain" where
  "NewPlain creds = \<lparr>pl_creds = creds, pl_completed = False\<rparr>"

definition nul :: char where
  "nul = CHR 0x00"

definition plain_Start :: "Plain \<Rightarrow> string \<times> Plain" where
  "plain_Start p =
     (cr_AuthzID (pl_creds p) @ [nul] @ cr_Username (pl_creds p) @ [nul] @ cr_Password (pl_creds p),
      p\<lparr>pl_completed := True\<rparr>)"

record External =
  ex_authzID :: string
  ex_completed :: bool

definition NewExternal :: "string \<Rightarrow> External" where
  "NewExternal authzID = \<lparr>ex_authzID = authzID, ex_completed = False\<rparr>"

definition external_Start :: "External \<Rightarrow> string \<times> External" where
  "external_Start e =
     (if ex_authzID e \<noteq> '''' then ex_authzID e else [], e\<lparr>ex_completed := True\<rparr>)"

record Anonymous =
  an_trace :: string
  an_completed :: bool

definition NewAnonymous :: "string \<Rightarrow> Anonymous" where
  "NewAnonymous trace = \<lparr>an_trace = trace, an_completed = False\<rparr>"

definition anonymous_Start :: "Anonymous \<Rightarrow> string \<times> Anonymous" where
  "anonymous_Start a = (an_trace a, a\<lparr>an_completed := True\<rparr>)"

section \<open>SCRAM\<close>

text \<open>
  The hash constructors of the crypto packages, and PBKDF2 of golang.org/x/crypto: digest size, digest,
  HMAC, and the key derived from password, salt, iteration count and length.
\<close>

record hash_fn =
  hf_Size :: nat
  hf_Sum :: "string \<Rightarrow> string"
  hf_HMAC :: "string \<Rightarrow> string \<Rightarrow> string"
  hf_PBKDF2 :: "string \<Rightarrow> string \<Rightarrow> int \<Rightarrow> nat \<Rightarrow> string"

definition hash_ok :: "hash_fn \<Rightarrow> bool" where
  "hash_ok H \<longleftrightarrow> (\<forall>k d. length (hf_HMAC H k d) = hf_Size H) \<and> (\<forall>d. length (hf_Sum H d) = hf_Size H)"

record SCRAM =
  sc_creds :: Credentials
  sc_hashFunc :: hash_fn
  sc_name :: string
  sc_plus :: bool
  sc_step :: nat
  sc_clientNonce :: string
  sc_serverNonce :: string
  sc_salt :: string
  sc_iterations :: int
  sc_authMessage :: string
  sc_saltedPwd :: string
  sc_gs2Header :: string
  sc_clientFirst :: string

definition newSCRAM :: "Credentials \<Rightarrow> string \<Rightarrow> hash_fn \<Rightarrow> bool \<Rightarrow> SCRAM" where
  "newSCRAM creds name h isPlus =
     \<lparr>sc_creds = creds, sc_hashFunc = h, sc_name = name, sc_plus = isPlus, sc_step = 0, sc_clientNonce = '''',
      sc_serverNonce = '''', sc_salt = [], sc_iterations = 0, sc_authMessage = '''', sc_saltedPwd = [],
      sc_gs2Header = '''', sc_clientFirst = ''''\<rparr>"

text \<open>The six constructors; \<open>sha1\<close>, \<open>sha256\<close> and \<open>sha512\<close> are the hash functions.\<close>

definition NewSCRAMSHA1 :: "hash_fn \<Rightarrow> Credentials \<Rightarrow> SCRAM" where
  "NewSCRAMSHA1 sha1 creds = newSCRAM creds ''SCRAM-SHA-1'' sha1 False"
definition NewSCRAMSHA1Plus :: "hash_fn \<Rightarrow> Credentials \<Rightarrow> SCRAM" where
  "NewSCRAMSHA1Plus sha1 creds = newSCRAM creds ''SCRAM-SHA-1-PLUS'' sha1 True"
definition NewSCRAMSHA256 :: "hash_fn \<Rightarrow> Credentials \<Rightarrow> SCRAM" where
  "NewSCRAMSHA256 sha256 creds = newSCRAM creds ''SCRAM-SHA-256'' sha256 False"
definition NewSCRAMSHA256Plus :: "hash_fn \<Rightarrow> Credentials \<Rightarrow> SCRAM" where
  "NewSCRAMSHA256Plus sha256 creds = newSCRAM creds ''SCRAM-SHA-256-PLUS'' sha256 True"
definition NewSCRAMSHA512 :: "hash_fn \<Rightarrow> Credentials \<Rightarrow> SCRAM" where
  "NewSCRAMSHA512 sha512 creds = newSCRAM creds ''SCRAM-SHA-512'' sha512 False"
definition NewSCRAMSHA512Plus :: "hash_fn \<Rightarrow> Credentials \<Rightarrow> SCRAM" where
  "NewSCRAMSHA512Plus sha512 creds = newSCRAM creds ''SCRAM-SHA-512-PLUS'' sha512 True"

definition scram_Completed :: "SCRAM \<Rightarrow> bool" where
  "scram_Completed s \<longleftrightarrow> 3 \<le> sc_step s"

text \<open>\<open>strings.ReplaceAll\<close> of a one-byte string.\<close>

definition replace_byte :: "char \<Rightarrow> string \<Rightarrow> string \<Rightarrow> string" where
  "replace_byte c new s = concat (map (\<lambda>x. if x = c then new else [x]) s)"

definition escapeSCRAM :: "string \<Rightarrow> string" where
  "escapeSCRAM s = replace_byte (CHR '','') ''=2C'' (replace_byte (CHR ''='') ''=3D'' s)"

definition attr_part :: "string \<Rightarrow> (string \<rightharpoonup> string) \<Rightarrow> (string \<rightharpoonup> string)" where
  "attr_part part attrs =
     (case index_byte part (CHR ''='') of
        Some idx \<Rightarrow> if 0 < idx then attrs(take idx part \<mapsto> drop (idx + 1) part) else attrs
      | None \<Rightarrow> attrs)"

definition parseSCRAMAttributes :: "string \<Rightarrow> (string \<rightharpoonup> string)" where
  "parseSCRAMAttributes s = fold attr_part (split_byte (CHR '','') s) Map.empty"

text \<open>\<open>result[i] = a[i] ^ b[i]\<close> for the indices of \<open>a\<close>: a run-time panic when \<open>b\<close> is shorter.\<close>

definition xorBytes :: "string \<Rightarrow> string \<Rightarrow> string option" where
  "xorBytes a b =
     (if length b < length a then None
      else Some (map2 (\<lambda>x y. char_of (byte_of x XOR byte_of y)) a b))"

text \<open>\<open>rnd\<close> is the draw of the 24 random bytes.\<close>

definition generateNonce :: "string \<Rightarrow> string" where
  "generateNonce rnd = b64_encode (take 24 (rnd @ replicate 24 nul))"

definition scram_Start :: "string \<Rightarrow> SCRAM \<Rightarrow> (sasl_error, string) result \<times> SCRAM" where
  "scram_Start rnd s0 =
     (let s1 = s0\<lparr>sc_clientNonce := generateNonce rnd\<rparr>
      in if sc_plus s1 \<and> cr_ChannelBinding (sc_creds s1) = [] then (Inl ErrChannelBinding, s1)
         else let s2 = s1\<lparr>sc_gs2Header := (if sc_plus s1 then ''p='' @ cr_CBType (sc_creds s1) @ '',,'' else ''n,,'')\<rparr>;
                  s3 = s2\<lparr>sc_clientFirst := ''n='' @ escapeSCRAM (cr_Username (sc_creds s2)) @ '',r='' @ sc_clientNonce s2,
                          sc_step := 1\<rparr>
              in (Inr (sc_gs2Header s3 @ sc_clientFirst s3), s3))"

definition proof_step :: "string \<Rightarrow> SCRAM \<Rightarrow> (sasl_error, string) result \<times> SCRAM" where
  "proof_step data s0 =
     (let H = sc_hashFunc s0;
          cbData = sc_gs2Header s0 @ (if sc_plus s0 then cr_ChannelBinding (sc_creds s0) else []);
          clientFinalNoProof = ''c='' @ b64_encode cbData @ '',r='' @ sc_serverNonce s0;
          s1 = s0\<lparr>sc_saltedPwd := hf_PBKDF2 H (cr_Password (sc_creds s0)) (sc_salt s0) (sc_iterations s0) (hf_Size H)\<rparr>;
          clientKey = hf_HMAC H (sc_saltedPwd s1) ''Client Key'';
          storedKey = hf_Sum H clientKey;
          s2 = s1\<lparr>sc_authMessage := sc_clientFirst s1 @ '','' @ data @ '','' @ clientFinalNoProof\<rparr>;
          clientSig = hf_HMAC H storedKey (sc_authMessage s2)
      in case xorBytes clientKey clientSig of
           None \<Rightarrow> (Inl IndexPanic, s2)
         | Some pf \<Rightarrow> (Inr (clientFinalNoProof @ '',p='' @ b64_encode pf), s2\<lparr>sc_step := 2\<rparr>))"

definition processServerFirst :: "string \<Rightarrow> SCRAM \<Rightarrow> (sasl_error, string) result \<times> SCRAM" where
  "processServerFirst data s0 =
     (let parts = parseSCRAMAttributes data
      in case parts ''r'' of
           None \<Rightarrow> (Inl ErrInvalidResponse, s0)
         | Some nonce \<Rightarrow>
             (if \<not> prefix (sc_clientNonce s0) nonce then (Inl ErrInvalidResponse, s0)
              else let s1 = s0\<lparr>sc_serverNonce := nonce\<rparr>
                   in case parts ''s'' of
                        None \<Rightarrow> (Inl ErrInvalidResponse, s1)
                      | Some saltB64 \<Rightarrow>
                          (case b64_decode saltB64 of
                             None \<Rightarrow> (Inl CorruptBase64, s1)
                           | Some salt \<Rightarrow>
                               (let s2 = s1\<lparr>sc_salt := salt\<rparr>
                                in case parts ''i'' of
                                     None \<Rightarrow> (Inl ErrInvalidResponse, s2)
                                   | Some iterStr \<Rightarrow>
                                       (let s3 = (case Sscanf_d iterStr of
                                              Some n \<Rightarrow> s2\<lparr>sc_iterations := n\<rparr> | None \<Rightarrow> s2)
                                        in if sc_iterations s3 \<le> 0 then (Inl InvalidIterationCount, s3)
                                           else proof_step data s3)))))"

definition processServerFinal :: "string \<Rightarrow> SCRAM \<Rightarrow> (sasl_error, string) result \<times> SCRAM" where
  "processServerFinal data s =
     (let parts = parseSCRAMAttributes data
      in case parts ''e'' of
           Some errMsg \<Rightarrow> (Inl (ServerError errMsg), s)
         | None \<Rightarrow>
             (case parts ''v'' of
                None \<Rightarrow> (Inl ErrInvalidResponse, s)
              | Some verifier \<Rightarrow>
                  (let serverKey = hf_HMAC (sc_hashFunc s) (sc_saltedPwd s) ''Server Key'';
                       expected = hf_HMAC (sc_hashFunc s) serverKey (sc_authMessage s)
                   in if verifier \<noteq> b64_encode expected then (Inl ErrAuthFailed, s)
                      else (Inr [], s\<lparr>sc_step := 3\<rparr>))))"

definition scram_Next :: "string \<Rightarrow> SCRAM \<Rightarrow> (sasl_error, string) result \<times> SCRAM" where
  "scram_Next challenge s =
     (if sc_step s = 1 then processServerFirst challenge s
      else if sc_step s = 2 then processServerFinal challenge s
      else (Inl UnexpectedStep, s))"

section \<open>Mechanisms and their selection\<close>

datatype Mechanism = MPlain Plain | MExternal External | MAnonymous Anonymous | MSCRAM SCRAM

fun mech_Name :: "Mechanism \<Rightarrow> string" where
  "mech_Name (MPlain p) = ''PLAIN''"
| "mech_Name (MExternal e) = ''EXTERNAL''"
| "mech_Name (MAnonymous a) = ''ANONYMOUS''"
| "mech_Name (MSCRAM s) = sc_name s"

fun mech_Start :: "string \<Rightarrow> Mechanism \<Rightarrow> (sasl_error, string) result \<times> Mechanism" where
  "mech_Start rnd (MPlain p) = (case plain_Start p of (r, p') \<Rightarrow> (Inr r, MPlain p'))"
| "mech_Start rnd (MExternal e) = (case external_Start e of (r, e') \<Rightarrow> (Inr r, MExternal e'))"
| "mech_Start rnd (MAnonymous a) = (case anonymous_Start a of (r, a') \<Rightarrow> (Inr r, MAnonymous a'))"
| "mech_Start rnd (MSCRAM s) = (case scram_Start rnd s of (r, s') \<Rightarrow> (r, MSCRAM s'))"

text \<open>The one-step mechanisms answer every challenge with nil.\<close>

fun mech_Next :: "string \<Rightarrow> Mechanism \<Rightarrow> (sasl_error, string) result \<times> Mechanism" where
  "mech_Next challenge (MSCRAM s) = (case scram_Next challenge s of (r, s') \<Rightarrow> (r, MSCRAM s'))"
| "mech_Next challenge m = (Inr [], m)"

fun mech_Completed :: "Mechanism \<Rightarrow> bool" where
  "mech_Completed (MPlain p) = pl_completed p"
| "mech_Completed (MExternal e) = ex_completed e"
| "mech_Completed (MAnonymous a) = an_completed a"
| "mech_Completed (MSCRAM s) = scram_Completed s"

record sasl_Negotiator =
  sn_creds :: Credentials
  sn_mechanisms :: "Mechanism list"

definition sasl_NewNegotiator :: "Credentials \<Rightarrow> Mechanism list \<Rightarrow> sasl_Negotiator" where
  "sasl_NewNegotiator creds mechanisms = \<lparr>sn_creds = creds, sn_mechanisms = mechanisms\<rparr>"

definition offered_set :: "string list \<Rightarrow> (string \<rightharpoonup> bool)" where
  "offered_set offered = fold (\<lambda>m set. set(m \<mapsto> True)) offered Map.empty"

fun select_loop :: "(string \<rightharpoonup> bool) \<Rightarrow> Mechanism list \<Rightarrow> (sasl_error, Mechanism) result" where
  "select_loop offeredSet [] = Inl ErrNoMechanism"
| "select_loop offeredSet (mech # mechs) =
     (if offeredSet (mech_Name mech) = Some True then Inr mech else select_loop offeredSet mechs)"

definition sasl_Select :: "sasl_Negotiator \<Rightarrow> string list \<Rightarrow> (sasl_error, Mechanism) result" where
  "sasl_Select n offered = select_loop (offered_set offered) (sn_mechanisms n)"

section \<open>Account data derived from a password\<close>

text \<open>
  \<open>hashPasswordSCRAMSHA256\<close> of the server; \<open>rnd\<close> is the draw of the 16 bytes of salt (the case of a failing
  draw is \<open>None\<close>).
\<close>

definition hashPasswordSCRAMSHA256 :: "hash_fn \<Rightarrow> string option \<Rightarrow> string \<Rightarrow> int \<Rightarrow> (string \<times> int \<times> string \<times> string) option" where
  "hashPasswordSCRAMSHA256 H rnd password iterations =
     (case rnd of
        None \<Rightarrow> None
      | Some r \<Rightarrow>
          (let saltBytes = take 16 (r @ replicate 16 nul);
               saltedPwd = hf_PBKDF2 H password saltBytes iterations (hf_Size H);
               clientKey = hf_HMAC H saltedPwd ''Client Key'';
               sk = hf_Sum H clientKey;
               srvKey = hf_HMAC H saltedPwd ''Server Key''
           in Some (b64_encode saltBytes, iterations, b64_encode sk, b64_encode srvKey)))"

section \<open>Lemmas\<close>

text \<open>A part \<open>k=v\<close> sets \<open>k\<close>; the value may hold further equal signs but no comma.\<close>

lemma attr_part_letter: "k \<noteq> CHR ''='' \<Longrightarrow> attr_part (k # CHR ''='' # v) m = m([k] \<mapsto> v)"
  by (simp add: attr_part_def)

lemmas parse_attrs = parseSCRAMAttributes_def split_byte_append split_byte_no_sep attr_part_letter

lemma xor_byte: "char_of ((byte_of x XOR byte_of y) XOR byte_of y) = x"
  by (simp add: xor.assoc)

lemma xor_byte_mod: "(byte_of x XOR byte_of y) mod 256 = byte_of x XOR byte_of y"
proof -
  have "take_bit 8 (byte_of x XOR byte_of y) = byte_of x XOR byte_of y"
    by (simp add: take_bit_xor take_bit_nat_eq_self)
  then show ?thesis by (simp add: take_bit_eq_mod)
qed

lemma xorBytes_involutive:
  "length a = length b \<Longrightarrow> xorBytes a b = Some p \<Longrightarrow> length p = length a \<and> xorBytes p b = Some a"
proof -
  assume len: "length a = length b" and p: "xorBytes a b = Some p"
  then have pm: "p = map2 (\<lambda>x y. char_of (byte_of x XOR byte_of y)) a b" by (simp add: xorBytes_def)
  have "map2 (\<lambda>x y. char_of (byte_of x XOR byte_of y)) p b = a"
    unfolding pm using len by (induction a b rule: list_induct2) (simp_all add: xor_byte_mod xor_byte)
  with len pm show "length p = length a \<and> xorBytes p b = Some a" by (simp add: xorBytes_def)
qed

lemma xorBytes_total: "length a = length b \<Longrightarrow> \<exists>p. xorBytes a b = Some p"
  by (simp add: xorBytes_def)

lemma generateNonce_no_comma: "CHR '','' \<notin> set (generateNonce rnd)"
  by (simp add: generateNonce_def b64_encode_no_comma)

section \<open>A hash function to evaluate with\<close>

definition toy_hash :: hash_fn where
  "toy_hash = \<lparr>hf_Size = 4, hf_Sum = (\<lambda>d. take 4 (d @ ''wxyz'')), hf_HMAC = (\<lambda>k d. take 4 (d @ k @ ''wxyz'')),
     hf_PBKDF2 = (\<lambda>p s i n. take n (p @ s @ replicate n nul))\<rparr>"

lemma toy_hash_ok: "hash_ok toy_hash"
  by (simp add: hash_ok_def toy_hash_def del: take_append)

end
