(* ===== verification/XmppdRegistration.thy ===== *)
theory XmppdRegistration
  imports SessionState Sasl StorageMemory
begin

text \<open>
  In-band registration in the server: cmd/xmppd/registration.go, with the data forms of plugins/form and
  the query of plugins/register.  The interface \<open>storage.UserStore\<close> is the record \<open>UserStore\<close>, its contract
  the locale \<open>user_store\<close>; the memory store is shown to fulfil it.  The theorems: what the rate limiter
  admits, and that accounts are created and removed only as the policy allows.
\<close>

section \<open>Connections\<close>

text \<open>What goes out on a connection.  The token encoder and the encoding by reflection keep these values.\<close>

record Option =
  opt_Label :: string
  opt_Value :: string

record Field =
  fld_Var :: string
  fld_Type :: string
  fld_Label :: string
  fld_Required :: bool
  fld_Desc :: string
  fld_Values :: "string list"
  fld_Options :: "Option list"

record Form =
  form_Type :: string
  form_Title :: string
  form_Instructions :: "string list"
  form_Fields :: "Field list"
  form_Reported :: "Field list option"
  form_Items :: "Field list list"

record Query =
  q_XMLName :: xml_name
  q_Registered :: bool
  q_Username :: string
  q_Password :: string
  q_Email :: string
  q_Instructions :: string
  q_Remove :: bool
  q_Form :: "string option"

datatype payload = PRegister Query | PBind string

datatype written =
    OStanza Stanza
  | OPayload "payload IQPayload"
  | ORaw string
  | OProceed
  | OTLSFailure
  | OSuccess
  | OToken xml_token

text \<open>
  A connection: what was written, how many more writes it takes before it breaks (\<open>None\<close>: any number), and
  the address of the peer.
\<close>

record conn =
  conn_out :: "written list"
  conn_budget :: "nat option"
  conn_peer :: "string option"

definition conn_write :: "written \<Rightarrow> conn \<Rightarrow> string option \<times> conn" where
  "conn_write x c =
     (case conn_budget c of
        None \<Rightarrow> (None, c\<lparr>conn_out := conn_out c @ [x]\<rparr>)
      | Some 0 \<Rightarrow> (Some ''write error'', c)
      | Some (Suc n) \<Rightarrow> (None, c\<lparr>conn_out := conn_out c @ [x], conn_budget := Some n\<rparr>))"

type_synonym sess = "(conn, unit) xmpp_Session"

text \<open>The error of the context, if it is done, and the choice of \<open>select\<close> when the session is closed too.\<close>

type_synonym ctx = "string option \<times> bool"

definition send :: "ctx \<Rightarrow> Stanza \<Rightarrow> sess \<Rightarrow> string option \<times> sess" where
  "send cx st s = session_Send (\<lambda>x. conn_write (OStanza x)) (fst cx) (snd cx) st s"

definition sendElement :: "ctx \<Rightarrow> written \<Rightarrow> sess \<Rightarrow> string option \<times> sess" where
  "sendElement cx x s = session_SendElement conn_write (fst cx) (snd cx) x s"

definition sendRaw :: "ctx \<Rightarrow> string \<Rightarrow> sess \<Rightarrow> string option \<times> sess" where
  "sendRaw cx data s = session_SendRaw (\<lambda>x. conn_write (ORaw x)) (fst cx) (snd cx) (Inr data) s"

section \<open>Data forms\<close>

definition NewForm :: "string \<Rightarrow> string \<Rightarrow> Form" where
  "NewForm typ title =
     \<lparr>form_Type = typ, form_Title = title, form_Instructions = [], form_Fields = [], form_Reported = None, form_Items = []\<rparr>"

definition AddField :: "Field \<Rightarrow> Form \<Rightarrow> Form" where
  "AddField field f = f\<lparr>form_Fields := form_Fields f @ [field]\<rparr>"

definition GetField :: "string \<Rightarrow> Form \<Rightarrow> Field option" where
  "GetField varName f = find (\<lambda>x. fld_Var x = varName) (form_Fields f)"

definition GetValue :: "string \<Rightarrow> Form \<Rightarrow> string" where
  "GetValue varName f =
     (case GetField varName f of
        Some field \<Rightarrow> (case fld_Values field of v # _ \<Rightarrow> v | [] \<Rightarrow> '''')
      | None \<Rightarrow> '''')"

definition GetValues :: "string \<Rightarrow> Form \<Rightarrow> string list" where
  "GetValues varName f = (case GetField varName f of Some field \<Rightarrow> fld_Values field | None \<Rightarrow> [])"

section \<open>The rate limiter\<close>

record rateLimiter =
  rl_window :: int
  rl_limit :: int
  rl_items :: "string \<rightharpoonup> int list"

definition newRateLimiter :: "int \<Rightarrow> int \<Rightarrow> rateLimiter" where
  "newRateLimiter limit window = \<lparr>rl_window = window, rl_limit = limit, rl_items = Map.empty\<rparr>"

text \<open>\<open>now\<close> and \<open>now'\<close> are the results of the two calls of \<open>time.Now\<close>.\<close>

definition Allow :: "int \<Rightarrow> int \<Rightarrow> string \<Rightarrow> rateLimiter \<Rightarrow> bool \<times> rateLimiter" where
  "Allow now now' key r =
     (if rl_limit r \<le> 0 then (True, r)
      else let cutoff = now - rl_window r;
               entries = (case rl_items r key of None \<Rightarrow> [] | Some es \<Rightarrow> es);
               out = filter (\<lambda>t. cutoff < t) entries
           in if rl_limit r \<le> int (length out) then (False, r\<lparr>rl_items := (rl_items r)(key \<mapsto> out)\<rparr>)
              else (True, r\<lparr>rl_items := (rl_items r)(key \<mapsto> out @ [now'])\<rparr>))"

section \<open>User stores\<close>

record 'u UserStore =
  us_CreateUser :: "gotime \<Rightarrow> User \<Rightarrow> 'u writer"
  us_UserExists :: "'u \<Rightarrow> string \<Rightarrow> (storage_error, bool) result"
  us_DeleteUser :: "string \<Rightarrow> 'u writer"
  us_Authenticate :: "'u \<Rightarrow> string \<Rightarrow> string \<Rightarrow> bool \<times> storage_error option"

section \<open>The registration handler\<close>

record registrationConfig =
  rc_Policy :: string
  rc_Fields :: "string list"
  rc_Invites :: "string list"
  rc_AdminTokens :: "string list"
  rc_RateLimit :: int
  rc_RateWindow :: int
  rc_Iterations :: int
  rc_DataForm :: bool
  rc_Instructions :: string

record registrationHandler =
  rh_cfg :: registrationConfig
  rh_rateLimiter :: rateLimiter

definition newRegistrationHandler :: "registrationConfig \<Rightarrow> registrationHandler" where
  "newRegistrationHandler cfg = \<lparr>rh_cfg = cfg, rh_rateLimiter = newRateLimiter (rc_RateLimit cfg) (rc_RateWindow cfg)\<rparr>"

text \<open>
  What a request meets around it: the context, encoding/xml on queries and forms (a failure to decode is
  \<open>None\<close>), the hash functions, the draw of the salt, the clock, and the user store, if there is one.
\<close>

record 'u renv =
  re_ctx :: ctx
  re_decodeQuery :: "string \<Rightarrow> Query option"
  re_decodeForm :: "string \<Rightarrow> Form option"
  re_marshalForm :: "Form \<Rightarrow> string"
  re_sha256 :: hash_fn
  re_salt :: "string option"
  re_now :: int
  re_now2 :: int
  re_users :: "'u UserStore option"

definition ns_Register :: string where
  "ns_Register = ''jabber:iq:register''"

definition isTokenAllowed :: "string list \<Rightarrow> string \<Rightarrow> bool" where
  "isTokenAllowed tokens token \<longleftrightarrow> tokens \<noteq> [] \<and> token \<in> set tokens"

text \<open>\<open>upper1\<close> is \<open>strings.ToUpper\<close> of the first byte; a field name is not empty here.\<close>

definition fieldType :: "string \<Rightarrow> string" where
  "fieldType name = (if name = ''password'' then ''text-private'' else ''text-single'')"

definition text_field :: "string \<Rightarrow> string \<Rightarrow> string \<Rightarrow> Field" where
  "text_field var typ label =
     \<lparr>fld_Var = var, fld_Type = typ, fld_Label = label, fld_Required = False, fld_Desc = '''', fld_Values = [], fld_Options = []\<rparr>"

definition form_label :: "string \<Rightarrow> string" where
  "form_label field =
     (case field of
        [] \<Rightarrow> []
      | c # rest \<Rightarrow> (if 97 \<le> byte_of c \<and> byte_of c \<le> 122 then [char_of (byte_of c - 32)]
                    else if byte_of c < 128 then [c] else map char_of [0xEF, 0xBF, 0xBD :: nat]) @ rest)"

definition buildForm :: "(Form \<Rightarrow> string) \<Rightarrow> registrationConfig \<Rightarrow> Query" where
  "buildForm mustMarshal cfg =
     (let query = \<lparr>q_XMLName = no_name, q_Registered = False, q_Username = '''', q_Password = '''', q_Email = '''',
                   q_Instructions = rc_Instructions cfg, q_Remove = False, q_Form = None\<rparr>
      in if rc_DataForm cfg then
           let fvals = map (\<lambda>f. text_field f (fieldType f) (form_label f)) (filter (\<lambda>f. f \<noteq> '''') (rc_Fields cfg));
               fields2 = fvals @ (if rc_Policy cfg = ''invite'' then [text_field ''invite'' ''text-single'' ''Invite Token''] else []);
               fields3 = fields2 @ (if rc_Policy cfg = ''admin'' then [text_field ''admin_token'' ''text-private'' ''Admin Token''] else [])
           in query\<lparr>q_Form := Some (mustMarshal ((NewForm ''form'' ''Account Registration'')\<lparr>form_Fields := fields3\<rparr>))\<rparr>
         else query)"

definition form_values :: "Field list \<Rightarrow> (string \<rightharpoonup> string) \<Rightarrow> (string \<rightharpoonup> string)" where
  "form_values fs fvals =
     fold (\<lambda>f m. case fld_Values f of v # _ \<Rightarrow> m(fld_Var f \<mapsto> v) | [] \<Rightarrow> m) fs fvals"

definition extractFields :: "(string \<Rightarrow> Form option) \<Rightarrow> Query \<Rightarrow> (string \<rightharpoonup> string)" where
  "extractFields decodeForm q =
     (let f1 = (if q_Username q \<noteq> '''' then [''username'' \<mapsto> q_Username q] else Map.empty);
          f2 = (if q_Password q \<noteq> '''' then f1(''password'' \<mapsto> q_Password q) else f1);
          f3 = (if q_Email q \<noteq> '''' then f2(''email'' \<mapsto> q_Email q) else f2)
      in case q_Form q of
           None \<Rightarrow> f3
         | Some x \<Rightarrow> (case decodeForm x of None \<Rightarrow> f3 | Some form \<Rightarrow> form_values (form_Fields form) f3))"

definition field :: "(string \<rightharpoonup> string) \<Rightarrow> string \<Rightarrow> string" where
  "field fvals k = (case fvals k of None \<Rightarrow> '''' | Some v \<Rightarrow> v)"

text \<open>A reply with an error; \<open>u\<close> is the state of the user store, which it leaves alone.\<close>

definition reject :: "ctx \<Rightarrow> IQ \<Rightarrow> string \<Rightarrow> string \<Rightarrow> string \<Rightarrow> sess \<times> 'u \<Rightarrow> string option \<times> sess \<times> 'u" where
  "reject cx iq typ cond text su =
     (case send cx (SIQ (ErrorIQ iq (NewStanzaError typ cond text))) (fst su) of (err, s) \<Rightarrow> (err, s, snd su))"

definition reply :: "ctx \<Rightarrow> IQ \<Rightarrow> Query \<Rightarrow> sess \<times> 'u \<Rightarrow> string option \<times> sess \<times> 'u" where
  "reply cx iq q su =
     (case sendElement cx (OPayload \<lparr>ip_IQ = ResultIQ iq, ip_Payload = Some (PRegister q)\<rparr>) (fst su) of
        (err, s) \<Rightarrow> (err, s, snd su))"

definition registered_query :: Query where
  "registered_query =
     \<lparr>q_XMLName = no_name, q_Registered = True, q_Username = '''', q_Password = '''', q_Email = '''',
      q_Instructions = '''', q_Remove = False, q_Form = None\<rparr>"

definition handleGet :: "'u renv \<Rightarrow> registrationConfig \<Rightarrow> IQ \<Rightarrow> sess \<times> 'u \<Rightarrow> string option \<times> sess \<times> 'u" where
  "handleGet E cfg iq su =
     (if rc_Policy cfg = ''closed''
      then reject (re_ctx E) iq ''cancel'' ''service-unavailable'' ''registration disabled'' su
      else reply (re_ctx E) iq (buildForm (re_marshalForm E) cfg) su)"

definition handleRemove :: "'u renv \<Rightarrow> 'u UserStore \<Rightarrow> IQ \<Rightarrow> (string \<rightharpoonup> string) \<Rightarrow> sess \<times> 'u \<Rightarrow> string option \<times> sess \<times> 'u" where
  "handleRemove E us iq fvals su =
     (let username = field fvals ''username''; password = field fvals ''password''; cx = re_ctx E
      in if username = '''' \<or> password = '''' then reject cx iq ''modify'' ''bad-request'' ''username and password required'' su
         else (case us_Authenticate us (snd su) username password of
             (ok, err) \<Rightarrow>
               (if err \<noteq> None \<or> \<not> ok then reject cx iq ''auth'' ''not-authorized'' ''authentication failed'' su
                else (case us_DeleteUser us username (snd su) of
                    (u', Some _) \<Rightarrow> reject cx iq ''wait'' ''internal-server-error'' ''user delete failed'' (fst su, u')
                  | (u', None) \<Rightarrow> reply cx iq registered_query (fst su, u')))))"

definition create_account :: "'u renv \<Rightarrow> registrationConfig \<Rightarrow> 'u UserStore \<Rightarrow> IQ \<Rightarrow> (string \<rightharpoonup> string) \<Rightarrow> sess \<times> 'u \<Rightarrow>
    string option \<times> sess \<times> 'u" where
  "create_account E cfg us iq fvals su =
     (let username = field fvals ''username''; password = field fvals ''password''; cx = re_ctx E
      in if username = '''' \<or> password = '''' then reject cx iq ''modify'' ''bad-request'' ''username and password required'' su
         else (case us_UserExists us (snd su) username of
             Inl _ \<Rightarrow> reject cx iq ''wait'' ''internal-server-error'' ''user lookup failed'' su
           | Inr True \<Rightarrow> reject cx iq ''cancel'' ''conflict'' ''user already exists'' su
           | Inr False \<Rightarrow>
               (case hashPasswordSCRAMSHA256 (re_sha256 E) (re_salt E) password (rc_Iterations cfg) of
                  None \<Rightarrow> reject cx iq ''wait'' ''internal-server-error'' ''password hashing failed'' su
                | Some (salt, iters, storedKey, serverKey) \<Rightarrow>
                    (case us_CreateUser us (re_now2 E)
                        \<lparr>u_Username = username, u_Password = password, u_Salt = salt, u_Iterations = iters,
                         u_ServerKey = serverKey, u_StoredKey = storedKey, u_CreatedAt = 0, u_UpdatedAt = 0\<rparr> (snd su) of
                       (u', Some e) \<Rightarrow>
                         (if e = ErrUserExists then reject cx iq ''cancel'' ''conflict'' ''user already exists'' (fst su, u')
                          else reject cx iq ''wait'' ''internal-server-error'' ''user create failed'' (fst su, u'))
                     | (u', None) \<Rightarrow> reply cx iq registered_query (fst su, u')))))"

definition token_ok :: "registrationConfig \<Rightarrow> (string \<rightharpoonup> string) \<Rightarrow> string option" where
  "token_ok cfg fvals =
     (if rc_Policy cfg = ''invite'' \<and>
         \<not> isTokenAllowed (rc_Invites cfg) (if field fvals ''invite'' = '''' then field fvals ''token'' else field fvals ''invite'')
      then Some ''invalid invite''
      else if rc_Policy cfg = ''admin'' \<and> \<not> isTokenAllowed (rc_AdminTokens cfg) (field fvals ''admin_token'')
      then Some ''admin token required''
      else None)"

definition handleSet :: "'u renv \<Rightarrow> registrationConfig \<Rightarrow> IQ \<Rightarrow> Query \<Rightarrow> sess \<times> 'u \<Rightarrow> string option \<times> sess \<times> 'u" where
  "handleSet E cfg iq q su =
     (if rc_Policy cfg = ''closed''
      then reject (re_ctx E) iq ''cancel'' ''service-unavailable'' ''registration disabled'' su
      else case re_users E of
             None \<Rightarrow> reject (re_ctx E) iq ''cancel'' ''service-unavailable'' ''registration unavailable'' su
           | Some us \<Rightarrow>
               (let fvals = extractFields (re_decodeForm E) q
                in case token_ok cfg fvals of
                     Some text \<Rightarrow> reject (re_ctx E) iq ''auth'' ''not-allowed'' text su
                   | None \<Rightarrow>
                       (if q_Remove q then handleRemove E us iq fvals su
                        else create_account E cfg us iq fvals su)))"

text \<open>\<open>net.SplitHostPort\<close> is applied to the peer address: \<open>peerKey\<close> takes the host when it can be split off.\<close>

definition peerKey :: "(string \<Rightarrow> string option) \<Rightarrow> string option \<Rightarrow> string" where
  "peerKey splitHostPort addr =
     (case addr of
        None \<Rightarrow> ''unknown''
      | Some s \<Rightarrow> (case splitHostPort s of Some host \<Rightarrow> host | None \<Rightarrow> s))"

definition reg_Handle :: "(string \<Rightarrow> string option) \<Rightarrow> 'u renv \<Rightarrow> Stanza \<Rightarrow> registrationHandler \<Rightarrow> sess \<times> 'u \<Rightarrow>
    string option \<times> registrationHandler \<times> sess \<times> 'u" where
  "reg_Handle splitHostPort E st h su =
     (case st of
        SIQ iq \<Rightarrow>
          (let typ = hdr_Type (iq_Header iq)
           in if typ \<noteq> ''get'' \<and> typ \<noteq> ''set'' then (None, h, su)
              else if iq_Query iq = '''' then (None, h, su)
              else (case re_decodeQuery E (iq_Query iq) of
                  None \<Rightarrow> (None, h, su)
                | Some q \<Rightarrow>
                    (if Space (q_XMLName q) \<noteq> ns_Register then (None, h, su)
                     else (case Allow (re_now E) (re_now2 E) (peerKey splitHostPort (conn_peer (ss_trans (fst su)))) (rh_rateLimiter h) of
                         (allowed, rl) \<Rightarrow>
                           (let h' = h\<lparr>rh_rateLimiter := rl\<rparr>
                            in if \<not> allowed
                               then (case reject (re_ctx E) iq ''wait'' ''resource-constraint'' ''rate limit exceeded'' su of
                                       (err, su') \<Rightarrow> (err, h', su'))
                               else if typ = ''get''
                               then (case handleGet E (rh_cfg h) iq su of (err, su') \<Rightarrow> (err, h', su'))
                               else (case handleSet E (rh_cfg h) iq q su of (err, su') \<Rightarrow> (err, h', su')))))))
      | _ \<Rightarrow> (None, h, su))"

section \<open>What the rate limiter admits\<close>

text \<open>A history of calls (both readings of the clock and the key), and the admitted ones with the time noted for them.\<close>

fun allow_run :: "(int \<times> int \<times> string) list \<Rightarrow> rateLimiter \<Rightarrow> (string \<times> int) list \<times> rateLimiter" where
  "allow_run [] r = ([], r)"
| "allow_run ((now, now', key) # calls) r =
     (case Allow now now' key r of
        (ok, r') \<Rightarrow> (case allow_run calls r' of (adm, r'') \<Rightarrow> ((if ok then [(key, now')] else []) @ adm, r'')))"

text \<open>The clock does not go back.\<close>

fun clock_ok :: "int \<Rightarrow> (int \<times> int \<times> string) list \<Rightarrow> bool" where
  "clock_ok t [] = True"
| "clock_ok t ((now, now', key) # calls) \<longleftrightarrow> t \<le> now \<and> now \<le> now' \<and> clock_ok now' calls"

definition times_of :: "string \<Rightarrow> (string \<times> int) list \<Rightarrow> int list" where
  "times_of key adm = map snd (filter (\<lambda>x. fst x = key) adm)"

definition in_window :: "int \<Rightarrow> int \<Rightarrow> int list \<Rightarrow> int list" where
  "in_window w T ts = filter (\<lambda>t. T - w < t \<and> t \<le> T) ts"

definition entries_of :: "rateLimiter \<Rightarrow> string \<Rightarrow> int list" where
  "entries_of r key = (case rl_items r key of None \<Rightarrow> [] | Some es \<Rightarrow> es)"

text \<open>
  What the limiter knows at time \<open>t\<close>, given the admissions so far: of those that can still count it has all,
  none is later than \<open>t\<close>, and no window holds more than the limit.
\<close>

definition limiter_inv :: "int \<Rightarrow> int \<Rightarrow> (string \<times> int) list \<Rightarrow> int \<Rightarrow> rateLimiter \<Rightarrow> bool" where
  "limiter_inv limit w adm t r \<longleftrightarrow>
     rl_limit r = limit \<and> rl_window r = w \<and>
     (\<forall>key now. t \<le> now \<longrightarrow> filter (\<lambda>x. now - w < x) (entries_of r key) = filter (\<lambda>x. now - w < x) (times_of key adm)) \<and>
     (\<forall>key. \<forall>x \<in> set (times_of key adm). x \<le> t) \<and>
     (\<forall>key T. int (length (in_window w T (times_of key adm))) \<le> limit)"

lemma entries_of_upd: "entries_of (r\<lparr>rl_items := (rl_items r)(k \<mapsto> es)\<rparr>) key = (if key = k then es else entries_of r key)"
  by (simp add: entries_of_def)

lemma times_of_append: "times_of key (adm @ [(k, x)]) = times_of key adm @ (if k = key then [x] else [])"
  by (simp add: times_of_def)

lemma filter_later: "a \<le> b \<Longrightarrow> filter (\<lambda>x. b < x) (filter (\<lambda>x. a < x) xs) = filter (\<lambda>x. b < x) xs"
  for a b :: int
  by (induction xs) auto

lemma Allow_unfold:
  "0 < rl_limit r \<Longrightarrow>
   Allow now now' key r =
     (let out = filter (\<lambda>t. now - rl_window r < t) (entries_of r key)
      in if rl_limit r \<le> int (length out) then (False, r\<lparr>rl_items := (rl_items r)(key \<mapsto> out)\<rparr>)
         else (True, r\<lparr>rl_items := (rl_items r)(key \<mapsto> out @ [now'])\<rparr>))"
  by (simp add: Allow_def entries_of_def)

lemma length_filter_le_imp: "(\<And>x. x \<in> set xs \<Longrightarrow> P x \<Longrightarrow> Q x) \<Longrightarrow> length (filter P xs) \<le> length (filter Q xs)"
  by (induction xs) (auto intro: le_SucI)

lemma limiter_inv_Allow:
  assumes inv: "limiter_inv limit w adm t r" and "0 < limit" "t \<le> now" "now \<le> now'"
    and allow: "Allow now now' key r = (ok, r')"
  shows "limiter_inv limit w (adm @ (if ok then [(key, now')] else [])) now' r'"
    and "\<not> ok \<Longrightarrow> limit \<le> int (length (in_window w now (times_of key adm)))"
proof -
  let ?out = "filter (\<lambda>x. now - w < x) (entries_of r key)"
  have L: "rl_limit r = limit" "rl_window r = w"
    and known: "\<And>key now. t \<le> now \<Longrightarrow> filter (\<lambda>x. now - w < x) (entries_of r key) = filter (\<lambda>x. now - w < x) (times_of key adm)"
    and past: "\<And>key x. x \<in> set (times_of key adm) \<Longrightarrow> x \<le> t"
    and bound: "\<And>key T. int (length (in_window w T (times_of key adm))) \<le> limit"
    using inv by (auto simp: limiter_inv_def)
  have out: "?out = filter (\<lambda>x. now - w < x) (times_of key adm)" using known assms(3) by blast
  have ok: "ok \<longleftrightarrow> int (length ?out) < limit" and r': "r' = r\<lparr>rl_items := (rl_items r)(key \<mapsto> ?out @ (if ok then [now'] else []))\<rparr>"
    using allow assms(2) by (auto simp: Allow_unfold L Let_def split: if_splits)
  have "in_window w now (times_of key adm) = ?out"
    unfolding out in_window_def using past assms(3) by (intro filter_cong) fastforce+
  then show "\<not> ok \<Longrightarrow> limit \<le> int (length (in_window w now (times_of key adm)))" using ok by simp
  have new: "int (length (in_window w T (times_of key adm @ [now']))) \<le> limit" if ok for T
  proof (cases "T - w < now' \<and> now' \<le> T")
    case True
    have "length (in_window w T (times_of key adm)) \<le> length ?out"
      unfolding out in_window_def by (rule length_filter_le_imp) (use True assms(4) in auto)
    with True \<open>ok\<close> ok show ?thesis by (simp add: in_window_def)
  next
    case False
    with bound [of T key] show ?thesis by (auto simp: in_window_def)
  qed
  have "filter (\<lambda>x. m - w < x) (entries_of r' k) = filter (\<lambda>x. m - w < x) (times_of k (adm @ (if ok then [(key, now')] else [])))"
    if "now' \<le> m" for k m
    using that known [of m k] filter_later [of "now - w" "m - w" "entries_of r key"] assms(3,4)
    by (auto simp: r' entries_of_upd times_of_append)
  moreover have "x \<le> now'" if "x \<in> set (times_of k (adm @ (if ok then [(key, now')] else [])))" for k x
    using that past [of x k] assms(3,4) by (auto simp: times_of_append split: if_splits)
  moreover have "int (length (in_window w T (times_of k (adm @ (if ok then [(key, now')] else []))))) \<le> limit" for k T
    using bound [of T k] new [of T] by (auto simp: times_of_append)
  moreover have "rl_limit r' = limit" "rl_window r' = w" by (simp_all add: r' L)
  ultimately show "limiter_inv limit w (adm @ (if ok then [(key, now')] else [])) now' r'"
    unfolding limiter_inv_def by blast
qed

lemma limiter_inv_run:
  "limiter_inv limit w adm t r \<Longrightarrow> 0 < limit \<Longrightarrow> clock_ok t calls \<Longrightarrow> allow_run calls r = (adm', r') \<Longrightarrow>
     \<exists>t'. limiter_inv limit w (adm @ adm') t' r' \<and> (\<forall>now now' key. clock_ok t (calls @ [(now, now', key)]) \<longrightarrow> t' \<le> now \<and> now \<le> now')"
proof (induction calls arbitrary: adm t r adm')
  case (Cons c calls)
  obtain now now' key where c: "c = (now, now', key)" by (cases c)
  obtain ok r1 where a: "Allow now now' key r = (ok, r1)" by fastforce
  obtain adm1 r2 where b: "allow_run calls r1 = (adm1, r2)" by fastforce
  with a c Cons.prems have "adm' = (if ok then [(key, now')] else []) @ adm1" "r' = r2" by auto
  moreover have "limiter_inv limit w (adm @ (if ok then [(key, now')] else [])) now' r1"
    using Cons.prems c by (intro limiter_inv_Allow [OF _ _ _ _ a]) auto
  ultimately show ?case
    using Cons.IH [of "adm @ (if ok then [(key, now')] else [])" now' r1 adm1] Cons.prems c b by (cases ok) auto
qed auto

text \<open>
  C32: the rate limiter, with a positive limit (others switch it off).  In a history of calls along a clock that does not go back, at most \<open>limit\<close> calls
  are admitted for a key in any interval of the length of the window; and a call is refused only when
  that many were admitted in the window that ends with it, so a peer that waits is admitted again.
\<close>

theorem rate_limiter_window:
  assumes "0 < limit" and "clock_ok t (calls @ [(now, now', key)])"
  shows "int (length (in_window w T (times_of key (fst (allow_run calls (newRateLimiter limit w)))))) \<le> limit \<and>
    (fst (Allow now now' key (snd (allow_run calls (newRateLimiter limit w)))) \<longleftrightarrow>
       int (length (in_window w now (times_of key (fst (allow_run calls (newRateLimiter limit w)))))) < limit)"
proof -
  let ?r = "newRateLimiter limit w"
  obtain adm r where run: "allow_run calls ?r = (adm, r)" by fastforce
  have "clock_ok t calls" using assms(2) by (induction calls arbitrary: t) auto
  moreover have "limiter_inv limit w [] t ?r"
    using assms(1) by (simp add: limiter_inv_def newRateLimiter_def entries_of_def times_of_def in_window_def)
  ultimately obtain t' where inv: "limiter_inv limit w adm t' r" and t': "t' \<le> now" "now \<le> now'"
    using limiter_inv_run [OF _ assms(1) _ run] assms(2) by fastforce
  obtain ok r'' where a: "Allow now now' key r = (ok, r'')" by fastforce
  have "\<not> ok \<Longrightarrow> limit \<le> int (length (in_window w now (times_of key adm)))"
    using limiter_inv_Allow(2) [OF inv assms(1) t' a] .
  moreover have "int (length (in_window w now (times_of key adm))) < limit" if ok
  proof -
    have "in_window w now (times_of key adm) = filter (\<lambda>x. now - w < x) (entries_of r key)"
      using inv t' unfolding limiter_inv_def in_window_def by (metis (no_types, lifting) filter_cong order_trans)
    then show ?thesis using a that assms(1) inv by (auto simp: Allow_unfold Let_def limiter_inv_def split: if_splits)
  qed
  ultimately show ?thesis using inv run a unfolding limiter_inv_def by fastforce
qed

theorem rate_limiter_window_witness:
  "\<not> fst (Allow 5 5 ''p'' (snd (allow_run [(1, 1, ''p''), (2, 3, ''p''), (4, 4, ''q'')] (newRateLimiter 2 10))))"
  using rate_limiter_window [of 2 0 "[(1, 1, ''p''), (2, 3, ''p''), (4, 4, ''q'')]" 5 5 "''p''" 10 5]
  by (simp add: newRateLimiter_def Allow_def times_of_def in_window_def)

section \<open>The contract of a user store\<close>

lemma reject_users [simp]: "snd (snd (reject cx iq t c x su)) = snd su"
  by (simp add: reject_def split: prod.split)

lemma reply_users [simp]: "snd (snd (reply cx iq q su)) = snd su"
  by (simp add: reply_def split: prod.split)

text \<open>\<open>accounts\<close> is what the store holds: the password of each account.\<close>

locale user_store =
  fixes us :: "'u UserStore" and accounts :: "'u \<Rightarrow> string \<rightharpoonup> string"
  assumes exists: "us_UserExists us u n = Inr (accounts u n \<noteq> None)"
    and create: "us_CreateUser us now x u =
        (if accounts u (u_Username x) = None then (fst (us_CreateUser us now x u), None) else (u, Some ErrUserExists))"
    and created: "accounts u (u_Username x) = None \<Longrightarrow>
        accounts (fst (us_CreateUser us now x u)) = (accounts u)(u_Username x \<mapsto> u_Password x)"
    and auth: "us_Authenticate us u n p =
        (if accounts u n = Some p then (True, None) else (False, Some storage_error.ErrAuthFailed))"
    and delete: "us_DeleteUser us n u =
        (if accounts u n = None then (u, Some ErrNotFound) else (fst (us_DeleteUser us n u), None))"
    and deleted: "accounts u n \<noteq> None \<Longrightarrow> accounts (fst (us_DeleteUser us n u)) = (accounts u)(n := None)"
begin

lemma handleRemove_accounts:
  "accounts (snd (snd (handleRemove E us iq fvals (s, u)))) =
     (let n = field fvals ''username''; p = field fvals ''password''
      in if n \<noteq> '''' \<and> p \<noteq> '''' \<and> accounts u n = Some p then (accounts u)(n := None) else accounts u)"
proof -
  let ?n = "field fvals ''username''" and ?p = "field fvals ''password''"
  obtain u1 e where d: "us_DeleteUser us ?n u = (u1, e)" by fastforce
  have "accounts u ?n \<noteq> None \<Longrightarrow> e = None \<and> accounts u1 = (accounts u)(?n := None)"
    using deleted [of u ?n] d by (metis delete fst_conv snd_conv)
  then show ?thesis by (auto simp: handleRemove_def Let_def auth d)
qed

lemma create_account_accounts:
  "accounts (snd (snd (create_account E cfg us iq fvals (s, u)))) =
     (let n = field fvals ''username''; p = field fvals ''password''
      in if n \<noteq> '''' \<and> p \<noteq> '''' \<and> accounts u n = None \<and> re_salt E \<noteq> None then (accounts u)(n \<mapsto> p) else accounts u)"
proof -
  let ?n = "field fvals ''username''" and ?p = "field fvals ''password''"
  have c: "accounts u ?n = None \<Longrightarrow> u_Username x = ?n \<Longrightarrow> u_Password x = ?p \<Longrightarrow>
      snd (us_CreateUser us now x u) = None \<and> accounts (fst (us_CreateUser us now x u)) = (accounts u)(?n \<mapsto> ?p)" for x now
    using create [of now x u] created [of u x now] by (simp add: prod_eq_iff)
  show ?thesis
  proof (cases "?n = '''' \<or> ?p = '''' \<or> accounts u ?n \<noteq> None \<or> re_salt E = None")
    case True
    then show ?thesis by (auto simp: create_account_def Let_def exists hashPasswordSCRAMSHA256_def split: option.splits bool.splits)
  next
    case False
    then obtain salt iters stk svk where h: "hashPasswordSCRAMSHA256 (re_sha256 E) (re_salt E) ?p (rc_Iterations cfg) = Some (salt, iters, stk, svk)"
      by (auto simp: hashPasswordSCRAMSHA256_def Let_def)
    let ?x = "\<lparr>u_Username = ?n, u_Password = ?p, u_Salt = salt, u_Iterations = iters, u_ServerKey = svk, u_StoredKey = stk,
       u_CreatedAt = 0, u_UpdatedAt = 0\<rparr>"
    obtain u1 e where d: "us_CreateUser us (re_now2 E) ?x u = (u1, e)" by fastforce
    with False c [of ?x "re_now2 E"] have "e = None" "accounts u1 = (accounts u)(?n \<mapsto> ?p)" by auto
    with False h d show ?thesis by (simp add: create_account_def Let_def exists)
  qed
qed

text \<open>What a request to change the accounts does to them.\<close>

lemma handleSet_accounts:
  assumes "re_users E = Some us"
  shows "accounts (snd (snd (handleSet E cfg iq q (s, u)))) =
    (let fvals = extractFields (re_decodeForm E) q; n = field fvals ''username''; p = field fvals ''password''
     in if rc_Policy cfg = ''closed'' \<or> token_ok cfg fvals \<noteq> None \<or> n = '''' \<or> p = '''' then accounts u
        else if q_Remove q then (if accounts u n = Some p then (accounts u)(n := None) else accounts u)
        else (if accounts u n = None \<and> re_salt E \<noteq> None then (accounts u)(n \<mapsto> p) else accounts u))"
  using assms by (auto simp: handleSet_def Let_def handleRemove_accounts create_account_accounts split: option.splits)

end

text \<open>The memory store fulfils the contract.\<close>

definition mem_UserStore :: "MemStore UserStore" where
  "mem_UserStore = \<lparr>us_CreateUser = CreateUser, us_UserExists = UserExists, us_DeleteUser = DeleteUser, us_Authenticate = Authenticate\<rparr>"

definition mem_accounts :: "MemStore \<Rightarrow> string \<rightharpoonup> string" where
  "mem_accounts s n = map_option u_Password (users s n)"

interpretation mem_users: user_store mem_UserStore mem_accounts
  by unfold_locales
     (auto simp: mem_UserStore_def mem_accounts_def CreateUser_def UserExists_def DeleteUser_def Authenticate_def fun_eq_iff split: option.splits)

lemma handleGet_users: "snd (snd (handleGet E cfg iq su)) = snd su"
  by (simp add: handleGet_def)

text \<open>
  C33: who can change the accounts.  Whatever stanza the registration handler is given, it changes the
  accounts of the memory store only for a registration query of type set that the rate limiter admits,
  under a policy that is not closed and with the token the policy asks for; and then either one account
  that did not exist is added, with the name and password of the query, or one account is removed, whose
  password the query has.
\<close>

theorem registration_accounts:
  assumes "re_users E = Some mem_UserStore"
    and "reg_Handle splitHostPort E st h (s, u) = (err, h', s', u')" and "mem_accounts u' \<noteq> mem_accounts u"
  shows "\<exists>iq q. st = SIQ iq \<and> hdr_Type (iq_Header iq) = ''set'' \<and> re_decodeQuery E (iq_Query iq) = Some q \<and>
    Space (q_XMLName q) = ns_Register \<and>
    fst (Allow (re_now E) (re_now2 E) (peerKey splitHostPort (conn_peer (ss_trans s))) (rh_rateLimiter h)) \<and>
    rc_Policy (rh_cfg h) \<noteq> ''closed'' \<and> token_ok (rh_cfg h) (extractFields (re_decodeForm E) q) = None \<and>
    (let n = field (extractFields (re_decodeForm E) q) ''username''; p = field (extractFields (re_decodeForm E) q) ''password''
     in n \<noteq> '''' \<and> p \<noteq> '''' \<and>
        (if q_Remove q then mem_accounts u n = Some p \<and> mem_accounts u' = (mem_accounts u)(n := None)
         else mem_accounts u n = None \<and> mem_accounts u' = (mem_accounts u)(n \<mapsto> p)))"
proof -
  obtain iq where st: "st = SIQ iq"
    using assms(2,3) by (cases st) (auto simp: reg_Handle_def)
  obtain q where q: "re_decodeQuery E (iq_Query iq) = Some q" "Space (q_XMLName q) = ns_Register"
    "hdr_Type (iq_Header iq) = ''get'' \<or> hdr_Type (iq_Header iq) = ''set''" "iq_Query iq \<noteq> []"
    using assms(2,3) st by (auto simp: reg_Handle_def Let_def split: if_splits option.splits)
  obtain ok rl where a: "Allow (re_now E) (re_now2 E) (peerKey splitHostPort (conn_peer (ss_trans s))) (rh_rateLimiter h) = (ok, rl)"
    by fastforce
  have u': "u' = snd (snd (if \<not> ok then reject (re_ctx E) iq ''wait'' ''resource-constraint'' ''rate limit exceeded'' (s, u)
      else if hdr_Type (iq_Header iq) = ''get'' then handleGet E (rh_cfg h) iq (s, u) else handleSet E (rh_cfg h) iq q (s, u)))"
    using assms(2) st q a by (auto simp: reg_Handle_def Let_def simp del: reject_users split: if_splits prod.splits)
  with assms(3) have "ok" "hdr_Type (iq_Header iq) = ''set''" "u' = snd (snd (handleSet E (rh_cfg h) iq q (s, u)))"
    using q(3) by (auto simp: handleGet_users split: if_splits)
  with assms(3) show ?thesis
    using st q(1,2) a mem_users.handleSet_accounts [OF assms(1), of "rh_cfg h" iq q s u]
    by (auto simp: Let_def split: if_splits)
qed

definition demo_query :: Query where
  "demo_query = registered_query\<lparr>q_XMLName := \<lparr>Space = ns_Register, Local = ''query''\<rparr>, q_Registered := False,
     q_Username := ''alice'', q_Password := ''secret''\<rparr>"

definition demo_env :: "MemStore renv" where
  "demo_env = \<lparr>re_ctx = (None, False), re_decodeQuery = (\<lambda>x. Some demo_query), re_decodeForm = (\<lambda>x. None), re_marshalForm = (\<lambda>f. []),
     re_sha256 = toy_hash, re_salt = Some ''salt'', re_now = 1, re_now2 = 1, re_users = Some mem_UserStore\<rparr>"

definition demo_sess :: sess where
  "demo_sess = NewSession \<lparr>conn_out = [], conn_budget = None, conn_peer = None\<rparr> [WithState StateServer]"

definition demo_cfg :: registrationConfig where
  "demo_cfg = \<lparr>rc_Policy = ''open'', rc_Fields = [''username'', ''password''], rc_Invites = [], rc_AdminTokens = [], rc_RateLimit = 5,
     rc_RateWindow = 60, rc_Iterations = 4096, rc_DataForm = True, rc_Instructions = ''''\<rparr>"

definition demo_iq :: IQ where
  "demo_iq = (NewIQ [] ''set'')\<lparr>iq_Query := ''<query/>''\<rparr>"

theorem registration_accounts_witness:
  "\<exists>err h' s' u'. reg_Handle (\<lambda>_. None) demo_env (SIQ demo_iq) (newRegistrationHandler demo_cfg) (demo_sess, NewStore) = (err, h', s', u') \<and>
     mem_accounts u' = [''alice'' \<mapsto> ''secret'']"
proof -
  obtain err h' s' u' where r:
    "reg_Handle (\<lambda>_. None) demo_env (SIQ demo_iq) (newRegistrationHandler demo_cfg) (demo_sess, NewStore) = (err, h', s', u')"
    by (metis surj_pair)
  have users: "re_users demo_env = Some mem_UserStore" by (simp add: demo_env_def)
  have old: "mem_accounts NewStore = Map.empty" by (simp add: mem_accounts_def NewStore_def fun_eq_iff)
  have ex: "extractFields (re_decodeForm demo_env) demo_query = [''username'' \<mapsto> ''alice'', ''password'' \<mapsto> ''secret'']"
    by (simp add: extractFields_def demo_query_def registered_query_def)
  have "u' = snd (snd (handleSet demo_env demo_cfg demo_iq demo_query (demo_sess, NewStore)))"
    using r by (simp add: reg_Handle_def demo_iq_def NewIQ_def new_header_def demo_env_def demo_query_def
      newRegistrationHandler_def newRateLimiter_def Allow_def demo_cfg_def Let_def split: prod.splits)
  then have new: "mem_accounts u' = [''alice'' \<mapsto> ''secret'']"
    using mem_users.handleSet_accounts [OF users, of demo_cfg demo_iq demo_query demo_sess NewStore] old ex
    by (simp add: demo_cfg_def token_ok_def field_def demo_query_def demo_env_def registered_query_def)
  then have "mem_accounts u' \<noteq> mem_accounts NewStore" using old by (metis map_upd_nonempty)
  from registration_accounts [OF users r this] r new show ?thesis by blast
qed

end
