(* ===== verification/XmppStream.thy ===== *)
theory XmppStream
  imports Stanza
begin

text \<open>
  Package \<open>stream\<close> (stream/stream.go, stream/error.go): the opening and closing tags, which are built byte by
  byte, and stream errors.  The theorem reads the attributes of an opening tag back.
\<close>

section \<open>Opening and closing\<close>

record stream_Header =
  sh_To :: JID
  sh_From :: JID
  sh_ID :: string
  sh_Version :: string
  sh_Lang :: string
  sh_NS :: string

definition ns_Stream :: string where "ns_Stream = ''http://etherx.jabber.org/streams''"
definition ns_Streams :: string where "ns_Streams = ''urn:ietf:params:xml:ns:xmpp-streams''"

definition quote :: char where
  "quote = CHR 0x27"

text \<open>One attribute: a blank, its name, and its value between single quotes, as it is.\<close>

definition put_attr :: "string \<Rightarrow> string \<Rightarrow> string" where
  "put_attr name v = CHR '' '' # name @ CHR ''='' # quote # v @ [quote]"

definition open_attrs :: "stream_Header \<Rightarrow> (string \<times> string) list" where
  "open_attrs h =
     (if jid_String (sh_To h) \<noteq> '''' then [(''to'', jid_String (sh_To h))] else []) @
     (if jid_String (sh_From h) \<noteq> '''' then [(''from'', jid_String (sh_From h))] else []) @
     (if sh_ID h \<noteq> '''' then [(''id'', sh_ID h)] else []) @
     [(''version'', sh_Version h)] @
     (if sh_Lang h \<noteq> '''' then [(''xml:lang'', sh_Lang h)] else []) @
     [(''xmlns'', sh_NS h), (''xmlns:stream'', ns_Stream)]"

definition stream_Open :: "stream_Header \<Rightarrow> string" where
  "stream_Open h =
     (let h1 = (if sh_Version h = '''' then h\<lparr>sh_Version := ''1.0''\<rparr> else h);
          h2 = (if sh_NS h1 = '''' then h1\<lparr>sh_NS := ns_Client\<rparr> else h1)
      in ''<?xml version='' @ [quote] @ ''1.0'' @ [quote] @ ''?><stream:stream'' @
         concat (map (\<lambda>(n, v). put_attr n v) (open_attrs h2)) @ ''>'')"

definition stream_Close :: string where
  "stream_Close = ''</stream:stream>''"

section \<open>Errors\<close>

record stream_Error =
  ste_Condition :: string
  ste_Text :: string
  ste_AppError :: "xml_name option"

definition stream_NewError :: "string \<Rightarrow> string \<Rightarrow> stream_Error" where
  "stream_NewError condition text = \<lparr>ste_Condition = condition, ste_Text = text, ste_AppError = None\<rparr>"

definition stream_Error_Error :: "stream_Error \<Rightarrow> string" where
  "stream_Error_Error e =
     (if ste_Text e \<noteq> '''' then ''stream error: '' @ ste_Condition e @ '' ('' @ ste_Text e @ '')''
      else ''stream error: '' @ ste_Condition e)"

definition stream_error_tokens :: "xml_attr list \<Rightarrow> stream_Error \<Rightarrow> xml_token list" where
  "stream_error_tokens startAttr e =
     (let name = \<lparr>Space = ns_Stream, Local = ''error''\<rparr>;
          condName = \<lparr>Space = ns_Streams, Local = ste_Condition e\<rparr>;
          textName = \<lparr>Space = ns_Streams, Local = ''text''\<rparr>
      in [StartElement name startAttr, StartElement condName [], EndElement condName] @
         (if ste_Text e \<noteq> ''''
          then [StartElement textName [(local_name ''xml:lang'', ''en'')], CharData (ste_Text e), EndElement textName]
          else []) @
         [EndElement name])"

definition stream_Error_MarshalXML :: "(xml_token \<Rightarrow> 'e \<Rightarrow> string option \<times> 'e) \<Rightarrow> xml_attr list \<Rightarrow> stream_Error \<Rightarrow> 'e \<Rightarrow>
    string option \<times> 'e" where
  "stream_Error_MarshalXML encodeToken startAttr e enc = encode_tokens encodeToken (stream_error_tokens startAttr e) enc"

lemma stream_error_element: "one_element \<lparr>Space = ns_Stream, Local = ''error''\<rparr> (stream_error_tokens as e)"
proof -
  let ?c = "\<lparr>Space = ns_Streams, Local = ste_Condition e\<rparr>" and ?t = "\<lparr>Space = ns_Streams, Local = ''text''\<rparr>"
  let ?body = "[StartElement ?c [], EndElement ?c] @
    (if ste_Text e \<noteq> '''' then [StartElement ?t [(local_name ''xml:lang'', ''en'')], CharData (ste_Text e), EndElement ?t] else [])"
  have "stream_error_tokens as e = StartElement \<lparr>Space = ns_Stream, Local = ''error''\<rparr> as # ?body @ [EndElement \<lparr>Space = ns_Stream, Local = ''error''\<rparr>]"
    by (simp add: stream_error_tokens_def Let_def)
  moreover have "nest ?body [] = Some []" by simp
  ultimately show ?thesis unfolding one_element_def by blast
qed

section \<open>Reading an opening tag\<close>

text \<open>The attributes of a tag, as an XML reader sees them: names up to the equal sign, values up to the closing quote.\<close>

function read_attrs :: "string \<Rightarrow> (string \<times> string) list option" where
  "read_attrs s =
     (case s of
        [] \<Rightarrow> None
      | c # rest \<Rightarrow>
          if c = CHR ''>'' then (if rest = [] then Some [] else None)
          else if c = CHR '' '' then
            (case index_byte rest (CHR ''='') of
               None \<Rightarrow> None
             | Some i \<Rightarrow>
                 (case drop (Suc i) rest of
                    [] \<Rightarrow> None
                  | q # v \<Rightarrow>
                      if q = quote then
                        (case index_byte v quote of
                           None \<Rightarrow> None
                         | Some k \<Rightarrow> map_option (\<lambda>as. (take i rest, take k v) # as) (read_attrs (drop (Suc k) v)))
                      else None))
          else None)"
  by pat_completeness auto
termination
proof (relation "measure length", goal_cases)
  case (2 s c rest i q v k)
  have "length (drop (Suc k) v) \<le> length v" by simp
  also have "\<dots> < length (drop (Suc i) rest)" using 2 by simp
  also have "\<dots> \<le> length rest" by simp
  finally show ?case using 2 by simp
qed simp

declare read_attrs.simps [simp del]

lemma read_put_attr:
  assumes "CHR ''='' \<notin> set n" "quote \<notin> set v"
  shows "read_attrs (put_attr n v @ rest) = map_option (Cons (n, v)) (read_attrs rest)"
proof -
  have "index_byte (n @ CHR ''='' # quote # v @ quote # rest) (CHR ''='') = Some (length n)"
    using assms(1) by (rule index_byte_append)
  moreover have "index_byte (v @ quote # rest) quote = Some (length v)" using assms(2) by (rule index_byte_append)
  ultimately show ?thesis by (subst read_attrs.simps) (simp add: put_attr_def)
qed

lemma read_put_attrs:
  "\<forall>(n, v) \<in> set as. CHR ''='' \<notin> set n \<and> quote \<notin> set v \<Longrightarrow>
     read_attrs (concat (map (\<lambda>(n, v). put_attr n v) as) @ ''>'') = Some as"
proof (induction as)
  case Nil
  then show ?case by (simp add: read_attrs.simps)
next
  case (Cons x as)
  then show ?case by (cases x) (simp add: read_put_attr)
qed

text \<open>
  The attributes of an opening tag are read back as they were given when no value holds a single quote;
  \<open>Open\<close> does not escape them, so a value with a quote changes what is read.
\<close>

lemma stream_Open_read:
  assumes "sh_Version h \<noteq> ''''" "sh_NS h \<noteq> ''''"
    and "\<forall>(n, v) \<in> set (open_attrs h). quote \<notin> set v"
  shows "\<exists>tag. stream_Open h = ''<?xml version='' @ [quote] @ ''1.0'' @ [quote] @ ''?><stream:stream'' @ tag \<and>
    read_attrs tag = Some (open_attrs h)"
proof -
  have "\<forall>(n, v) \<in> set (open_attrs h). CHR ''='' \<notin> set n" by (auto simp: open_attrs_def)
  with assms(3) have "\<forall>(n, v) \<in> set (open_attrs h). CHR ''='' \<notin> set n \<and> quote \<notin> set v" by fastforce
  with assms(1,2) show ?thesis by (simp add: stream_Open_def Let_def read_put_attrs)
qed

lemma put_attr_injection:
  "read_attrs (put_attr ''id'' (''a'' @ [quote] @ '' b='' @ [quote] @ ''c'') @ ''>'') = Some [(''id'', ''a''), (''b'', ''c'')]"
  by (simp add: put_attr_def read_attrs.simps quote_def)

end
