(* ===== verification/XmppdStream.thy ===== *)
theory XmppdStream
  imports XmppdRouter XmppdRegistration XmppStream
begin

text \<open>
  The server program (cmd/xmppd/stream.go): the loop over the elements of a client's stream, STARTTLS, SASL
  PLAIN, resource binding, and the routing of stanzas between sessions.  The state \<open>xmppd\<close> holds all
  sessions, the table of bound sessions and the user store; handling one element is one step.  Sessions
  are numbered.  The lines written to the log are not modelled.
\<close>

unbundle bit_operations_syntax

section \<open>State and environment\<close>

text \<open>\<open>xd_user\<close> is the variable \<open>authenticatedUser\<close> of each session, \<open>xd_reg\<close> its registration handler.\<close>

datatype phase = Idle | Serving | Ended

record 'u xmppd =
  xd_phase :: "nat \<Rightarrow> phase"
  xd_sess :: "nat \<Rightarrow> sess"
  xd_user :: "nat \<Rightarrow> string"
  xd_reg :: "nat \<Rightarrow> registrationHandler"
  xd_router :: "nat sessionRouter"
  xd_store :: 'u

record xcfg =
  xc_Domain :: string
  xc_TLS :: bool
  xc_Registration :: registrationConfig

text \<open>
  What handling an element meets: the environment of the registration handler, the handshake of the
  transport, \<open>xml.Unmarshal\<close> into a bind request, random bytes, the orders of the loops over the router's
  maps, the upper case of the runes beyond ASCII, and \<open>net.SplitHostPort\<close>.
\<close>

record 'u xenv =
  xe_reg :: "'u renv"
  xe_startTLS :: "string option"
  xe_unmarshalBind :: "string \<Rightarrow> (xml_name \<times> string) option"
  xe_rnd :: bytes
  xe_order :: "string \<Rightarrow> string list"
  xe_upper :: "nat \<Rightarrow> nat"
  xe_split :: "string \<Rightarrow> string option"

definition xe_ctx :: "'u xenv \<Rightarrow> ctx" where
  "xe_ctx E = re_ctx (xe_reg E)"

definition has_flag :: "flags \<Rightarrow> flags \<Rightarrow> bool" where
  "has_flag st f \<longleftrightarrow> st AND f \<noteq> 0"

definition xstate :: "nat \<Rightarrow> 'u xmppd \<Rightarrow> flags" where
  "xstate i w = ss_state (xd_sess w i)"

definition on_sess :: "nat \<Rightarrow> (sess \<Rightarrow> string option \<times> sess) \<Rightarrow> 'u xmppd \<Rightarrow> string option \<times> 'u xmppd" where
  "on_sess i f w = (case f (xd_sess w i) of (err, s) \<Rightarrow> (err, w\<lparr>xd_sess := (xd_sess w)(i := s)\<rparr>))"

definition upd_sess :: "nat \<Rightarrow> (sess \<Rightarrow> sess) \<Rightarrow> 'u xmppd \<Rightarrow> 'u xmppd" where
  "upd_sess i f w = w\<lparr>xd_sess := (xd_sess w)(i := f (xd_sess w i))\<rparr>"

section \<open>STARTTLS and SASL\<close>

definition handleStartTLS :: "xcfg \<Rightarrow> 'u xenv \<Rightarrow> string option \<Rightarrow> nat \<Rightarrow> 'u xmppd \<Rightarrow> string option \<times> 'u xmppd" where
  "handleStartTLS cfg E skip i w =
     (case skip of
        Some e \<Rightarrow> (Some e, w)
      | None \<Rightarrow>
          (if \<not> xc_TLS cfg \<or> has_flag (xstate i w) StateSecure then on_sess i (sendElement (xe_ctx E) OTLSFailure) w
           else case on_sess i (sendElement (xe_ctx E) OProceed) w of
                  (Some e, w1) \<Rightarrow> (Some e, w1)
                | (None, w1) \<Rightarrow>
                    (case xe_startTLS E of
                       Some e \<Rightarrow> (Some e, w1)
                     | None \<Rightarrow> (None, upd_sess i (SetState StateSecure) w1))))"

definition sendSASLFailure :: "ctx \<Rightarrow> string \<Rightarrow> sess \<Rightarrow> string option \<times> sess" where
  "sendSASLFailure cx condition s =
     sendRaw cx (''<failure xmlns='' @ [quote] @ ns_SASL @ [quote] @ ''><'' @ condition @ ''/></failure>'') s"

text \<open>\<open>strings.ToUpper\<close>, as the runes it gives.\<close>

definition ToUpper_runes :: "(nat \<Rightarrow> nat) \<Rightarrow> string \<Rightarrow> nat list" where
  "ToUpper_runes upper s =
     map (\<lambda>r. if r < 128 then (if 97 \<le> r \<and> r \<le> 122 then r - 32 else r) else upper r) (runes (string_bytes s))"

definition is_PLAIN :: "(nat \<Rightarrow> nat) \<Rightarrow> string \<Rightarrow> bool" where
  "is_PLAIN upper mechanism \<longleftrightarrow> ToUpper_runes upper (TrimSpace mechanism) = string_bytes ''PLAIN''"

text \<open>The name and password in a PLAIN response, or \<open>None\<close> for a malformed one.\<close>

definition plain_response :: "string \<Rightarrow> (string \<times> string) option" where
  "plain_response v =
     (case b64_decode (TrimSpace v) of
        None \<Rightarrow> None
      | Some data \<Rightarrow>
          (case split_n 3 nul data of
             [authz, name, password] \<Rightarrow> if TrimSpace name = '''' then None else Some (TrimSpace name, password)
           | _ \<Rightarrow> None))"

text \<open>\<open>auth\<close> is the decoded element (mechanism and character data); in a session that is authenticated it is only skipped.\<close>

definition handleSASLAuth :: "xcfg \<Rightarrow> 'u xenv \<Rightarrow> string option \<Rightarrow> (string, string \<times> string) result \<Rightarrow> nat \<Rightarrow> 'u xmppd \<Rightarrow>
    string option \<times> 'u xmppd" where
  "handleSASLAuth cfg E skip auth i w =
     (let failure = (\<lambda>c. on_sess i (sendSASLFailure (xe_ctx E) c) w)
      in if has_flag (xstate i w) StateAuthenticated then
           (case skip of Some e \<Rightarrow> (Some e, w) | None \<Rightarrow> failure ''not-authorized'')
         else (case auth of
             Inl e \<Rightarrow> (Some e, w)
           | Inr (mechanism, v) \<Rightarrow>
               (if \<not> is_PLAIN (xe_upper E) mechanism then failure ''invalid-mechanism''
                else (case plain_response v of
                    None \<Rightarrow> failure ''malformed-request''
                  | Some (username, password) \<Rightarrow>
                      (case re_users (xe_reg E) of
                         None \<Rightarrow> failure ''temporary-auth-failure''
                       | Some us \<Rightarrow>
                           (case us_Authenticate us (xd_store w) username password of
                              (ok, Some e) \<Rightarrow> failure ''temporary-auth-failure''
                            | (False, None) \<Rightarrow> failure ''not-authorized''
                            | (True, None) \<Rightarrow>
                                (case jid_New username (xc_Domain cfg) '''' of
                                   Inl e \<Rightarrow> failure ''not-authorized''
                                 | Inr j \<Rightarrow>
                                     on_sess i (sendElement (xe_ctx E) OSuccess)
                                       (upd_sess i (\<lambda>s. SetState StateAuthenticated (SetRemoteAddr j s))
                                         (w\<lparr>xd_user := (xd_user w)(i := username)\<rparr>)))))))))"

section \<open>Binding\<close>

definition randomResource :: "bytes \<Rightarrow> string" where
  "randomResource rnd = ''roster-'' @ hex_EncodeToString (rand_bytes 8 rnd)"

definition isBindRequestIQ :: "(string \<Rightarrow> (xml_name \<times> string) option) \<Rightarrow> IQ \<Rightarrow> bool" where
  "isBindRequestIQ unmarshal iq \<longleftrightarrow>
     hdr_Type (iq_Header iq) = ''set'' \<and> iq_Query iq \<noteq> '''' \<and>
     (case unmarshal (iq_Query iq) of
        None \<Rightarrow> False
      | Some (name, resource) \<Rightarrow> Space name = ns_Bind \<and> Local name = ''bind'')"

definition iq_error :: "'u xenv \<Rightarrow> IQ \<Rightarrow> string \<Rightarrow> string \<Rightarrow> string \<Rightarrow> nat \<Rightarrow> 'u xmppd \<Rightarrow> string option \<times> 'u xmppd" where
  "iq_error E iq typ cond text i w = on_sess i (send (xe_ctx E) (SIQ (ErrorIQ iq (NewStanzaError typ cond text)))) w"

definition handleBindIQ :: "xcfg \<Rightarrow> 'u xenv \<Rightarrow> IQ \<Rightarrow> nat \<Rightarrow> 'u xmppd \<Rightarrow> string option \<times> 'u xmppd" where
  "handleBindIQ cfg E iq i w =
     (if \<not> has_flag (xstate i w) StateAuthenticated then iq_error E iq ''auth'' ''not-authorized'' ''not authenticated'' i w
      else let user1 = TrimSpace (xd_user w i);
               username = (if user1 = '''' then TrimSpace (jid_local (ss_remoteJID (xd_sess w i))) else user1)
           in if username = '''' then iq_error E iq ''auth'' ''not-authorized'' ''not authenticated'' i w
              else (case xe_unmarshalBind E (iq_Query iq) of
                  None \<Rightarrow> iq_error E iq ''modify'' ''bad-request'' ''invalid bind payload'' i w
                | Some (name, res) \<Rightarrow>
                    (let resource = (if TrimSpace res = '''' then randomResource (xe_rnd E) else TrimSpace res)
                     in case jid_New username (xc_Domain cfg) resource of
                          Inl e \<Rightarrow> iq_error E iq ''modify'' ''jid-malformed'' ''invalid jid'' i w
                        | Inr full \<Rightarrow>
                            (let w1 = upd_sess i (\<lambda>s. SetState (StateBound OR StateReady) (SetRemoteAddr full s)) w;
                                 w2 = w1\<lparr>xd_router := router_register full i (xd_router w1)\<rparr>
                             in on_sess i (sendElement (xe_ctx E)
                                  (OPayload \<lparr>ip_IQ = ResultIQ iq, ip_Payload = Some (PBind (jid_String full))\<rparr>)) w2))))"

section \<open>Routing\<close>

definition xtargets :: "'u xenv \<Rightarrow> JID \<Rightarrow> 'u xmppd \<Rightarrow> nat list" where
  "xtargets E to w = targets (xe_order E (jid_String (jid_Bare to))) to (xd_router w)"

text \<open>The loops over the targets; an error of a send is logged and the loop goes on.  \<open>once\<close>: stop behind the first.\<close>

fun deliver :: "'u xenv \<Rightarrow> Stanza \<Rightarrow> bool \<Rightarrow> nat \<Rightarrow> nat list \<Rightarrow> 'u xmppd \<Rightarrow> 'u xmppd" where
  "deliver E st once source [] w = w"
| "deliver E st once source (dst # dsts) w =
     (if dst = source then deliver E st once source dsts w
      else let w' = snd (on_sess dst (send (xe_ctx E) st) w)
           in if once then w' else deliver E st once source dsts w')"

definition with_from :: "JID \<Rightarrow> Header \<Rightarrow> Header" where
  "with_from j h = (if jid_IsZero (hdr_From h) then h\<lparr>hdr_From := j\<rparr> else h)"

definition routeMessage :: "'u xenv \<Rightarrow> Message \<Rightarrow> nat \<Rightarrow> 'u xmppd \<Rightarrow> string option \<times> 'u xmppd" where
  "routeMessage E msg source w =
     (let msg' = msg\<lparr>msg_Header := with_from (ss_remoteJID (xd_sess w source)) (msg_Header msg)\<rparr>
      in (None, deliver E (SMessage msg') False source (xtargets E (hdr_To (msg_Header msg')) w) w))"

definition routePresence :: "'u xenv \<Rightarrow> Presence \<Rightarrow> nat \<Rightarrow> 'u xmppd \<Rightarrow> string option \<times> 'u xmppd" where
  "routePresence E pres source w =
     (let pres' = pres\<lparr>pres_Header := with_from (ss_remoteJID (xd_sess w source)) (pres_Header pres)\<rparr>
      in if jid_IsZero (hdr_To (pres_Header pres')) then (None, w)
         else (None, deliver E (SPresence pres') False source (xtargets E (hdr_To (pres_Header pres')) w) w))"

definition is_request :: "IQ \<Rightarrow> bool" where
  "is_request iq \<longleftrightarrow> hdr_Type (iq_Header iq) = ''get'' \<or> hdr_Type (iq_Header iq) = ''set''"

definition routeIQ :: "'u xenv \<Rightarrow> IQ \<Rightarrow> nat \<Rightarrow> 'u xmppd \<Rightarrow> string option \<times> 'u xmppd" where
  "routeIQ E iq source w =
     (let to = hdr_To (iq_Header iq)
      in if jid_IsZero to \<or> jid_IsDomainOnly to then
           (if is_request iq then iq_error E iq ''cancel'' ''service-unavailable'' ''unsupported server iq'' source w
            else (None, w))
         else let iq' = iq\<lparr>iq_Header := with_from (ss_remoteJID (xd_sess w source)) (iq_Header iq)\<rparr>;
                  dsts = xtargets E to w
              in if dsts = [] then
                   (if is_request iq' then iq_error E iq' ''cancel'' ''item-not-found'' ''recipient not found'' source w
                    else (None, w))
                 else (None, deliver E (SIQ iq') (jid_IsFull to) source dsts w))"

definition handleMessage :: "'u xenv \<Rightarrow> (string, Message) result \<Rightarrow> nat \<Rightarrow> 'u xmppd \<Rightarrow> string option \<times> 'u xmppd" where
  "handleMessage E dec i w =
     (case dec of
        Inl e \<Rightarrow> (Some e, w)
      | Inr msg \<Rightarrow> if \<not> has_flag (xstate i w) StateReady then (None, w) else routeMessage E msg i w)"

definition handlePresence :: "'u xenv \<Rightarrow> (string, Presence) result \<Rightarrow> nat \<Rightarrow> 'u xmppd \<Rightarrow> string option \<times> 'u xmppd" where
  "handlePresence E dec i w =
     (case dec of
        Inl e \<Rightarrow> (Some e, w)
      | Inr pres \<Rightarrow> if \<not> has_flag (xstate i w) StateReady then (None, w) else routePresence E pres i w)"

definition handleIQ :: "xcfg \<Rightarrow> 'u xenv \<Rightarrow> (string, IQ) result \<Rightarrow> nat \<Rightarrow> 'u xmppd \<Rightarrow> string option \<times> 'u xmppd" where
  "handleIQ cfg E dec i w =
     (case dec of
        Inl e \<Rightarrow> (Some e, w)
      | Inr iq \<Rightarrow>
          (if isBindRequestIQ (xe_unmarshalBind E) iq then handleBindIQ cfg E iq i w
           else (case reg_Handle (xe_split E) (xe_reg E) (SIQ iq) (xd_reg w i) (xd_sess w i, xd_store w) of
               (err, h, s, u) \<Rightarrow>
                 (let w1 = w\<lparr>xd_reg := (xd_reg w)(i := h), xd_sess := (xd_sess w)(i := s), xd_store := u\<rparr>
                  in case err of
                       Some e \<Rightarrow> (Some e, w1)
                     | None \<Rightarrow>
                         (if \<not> has_flag (xstate i w1) StateReady then
                            (if is_request iq then iq_error E iq ''auth'' ''not-authorized'' ''authenticate and bind first'' i w1
                             else (None, w1))
                          else routeIQ E iq i w1)))))"

section \<open>Stream features\<close>

definition empty_element :: "xml_name \<Rightarrow> xml_token list" where
  "empty_element name = [StartElement name [], EndElement name]"

definition starttls_feature_tokens :: "xml_token list" where
  "starttls_feature_tokens =
     (let name = \<lparr>Space = ns_TLS, Local = ''starttls''\<rparr>
      in [StartElement name []] @ empty_element (local_name ''required'') @ [EndElement name])"

definition sasl_mechanisms_tokens :: "string list \<Rightarrow> xml_token list" where
  "sasl_mechanisms_tokens mechanisms =
     (let name = \<lparr>Space = ns_SASL, Local = ''mechanisms''\<rparr>
      in [StartElement name []] @ concat (map mechanism_tokens mechanisms) @ [EndElement name])"

definition bind_feature_tokens :: "xml_token list" where
  "bind_feature_tokens = empty_element \<lparr>Space = ns_Bind, Local = ''bind''\<rparr>"

definition registration_feature_tokens :: "xml_token list" where
  "registration_feature_tokens = empty_element \<lparr>Space = ns_Register, Local = ''register''\<rparr>"

definition stream_features :: "xcfg \<Rightarrow> flags \<Rightarrow> xml_token list" where
  "stream_features cfg state =
     (let name = \<lparr>Space = ns_Stream, Local = ''features''\<rparr>;
          registration = (if rc_Policy (xc_Registration cfg) \<noteq> ''closed'' then registration_feature_tokens else [])
      in [StartElement name []] @
         (if \<not> has_flag state StateSecure \<and> xc_TLS cfg then starttls_feature_tokens @ registration
          else if \<not> has_flag state StateAuthenticated then sasl_mechanisms_tokens [''PLAIN''] @ registration
          else if \<not> has_flag state StateBound then bind_feature_tokens
          else []) @
         [EndElement name])"

definition sess_write :: "written \<Rightarrow> sess \<Rightarrow> string option \<times> sess" where
  "sess_write x s = (case conn_write x (ss_trans s) of (err, t) \<Rightarrow> (err, s\<lparr>ss_trans := t\<rparr>))"

definition writeStreamFeatures :: "xcfg \<Rightarrow> flags \<Rightarrow> sess \<Rightarrow> string option \<times> sess" where
  "writeStreamFeatures cfg state s = encode_tokens (\<lambda>t. sess_write (OToken t)) (stream_features cfg state) s"

definition randomStreamID :: "bytes \<Rightarrow> string" where
  "randomStreamID rnd = hex_EncodeToString (rand_bytes 16 rnd)"

fun jid_error_text :: "jid_error \<Rightarrow> string" where
  "jid_error_text ErrEmptyJID = ''jid: empty JID''"
| "jid_error_text ErrInvalidJID = ''jid: invalid JID format''"
| "jid_error_text ErrInvalidLocal = ''jid: invalid localpart''"
| "jid_error_text ErrInvalidDomain = ''jid: invalid domainpart''"
| "jid_error_text ErrInvalidResource = ''jid: invalid resourcepart''"
| "jid_error_text ErrTooLong = ''jid: part exceeds maximum length''"

definition writeStreamStart :: "string \<Rightarrow> bytes \<Rightarrow> sess \<Rightarrow> string option \<times> sess" where
  "writeStreamStart domain rnd s =
     (case jid_New '''' domain '''' of
        Inl e \<Rightarrow> (Some (jid_error_text e), s)
      | Inr from \<Rightarrow>
          sess_write (ORaw (stream_Open \<lparr>sh_To = zeroJID, sh_From = from, sh_ID = randomStreamID rnd,
            sh_Version = ''1.0'', sh_Lang = ''en'', sh_NS = ns_Client\<rparr>)) s)"

section \<open>The loop over the elements of a stream\<close>

text \<open>
  What one turn of the loop meets: the end of the context, an error or the end of the input, a token that
  starts no element, or an element with what decoding or skipping it gives.
\<close>

datatype xevent =
    CtxDone string
  | TokenErr string
  | TokenEOF
  | NoElement
  | StreamStart
  | ElStartTLS "string option"
  | ElAuth "string option" "(string, string \<times> string) result"
  | ElMessage "(string, Message) result"
  | ElPresence "(string, Presence) result"
  | ElIQ "(string, IQ) result"
  | ElOther "string option"

text \<open>\<open>Inl e\<close>: the loop returns the error \<open>e\<close> (or nil); \<open>Inr ()\<close>: it goes on.\<close>

definition continue_unless :: "string option \<times> 'u xmppd \<Rightarrow> (string option + unit) \<times> 'u xmppd" where
  "continue_unless x = (case x of (None, w) \<Rightarrow> (Inr (), w) | (Some e, w) \<Rightarrow> (Inl (Some e), w))"

definition answer_stream :: "xcfg \<Rightarrow> 'u xenv \<Rightarrow> nat \<Rightarrow> 'u xmppd \<Rightarrow> string option \<times> 'u xmppd" where
  "answer_stream cfg E i w =
     (case on_sess i (writeStreamStart (xc_Domain cfg) (xe_rnd E)) w of
        (Some e, w1) \<Rightarrow> (Some e, w1)
      | (None, w1) \<Rightarrow> on_sess i (writeStreamFeatures cfg (xstate i w1)) w1)"

fun serve_element :: "xcfg \<Rightarrow> 'u xenv \<Rightarrow> xevent \<Rightarrow> nat \<Rightarrow> 'u xmppd \<Rightarrow> (string option + unit) \<times> 'u xmppd" where
  "serve_element cfg E (CtxDone e) i w = (Inl (Some e), w)"
| "serve_element cfg E (TokenErr e) i w = (Inl (Some e), w)"
| "serve_element cfg E TokenEOF i w = (Inl None, w)"
| "serve_element cfg E NoElement i w = (Inr (), w)"
| "serve_element cfg E StreamStart i w = continue_unless (answer_stream cfg E i w)"
| "serve_element cfg E (ElStartTLS skip) i w = continue_unless (handleStartTLS cfg E skip i w)"
| "serve_element cfg E (ElAuth skip auth) i w = continue_unless (handleSASLAuth cfg E skip auth i w)"
| "serve_element cfg E (ElMessage dec) i w = continue_unless (handleMessage E dec i w)"
| "serve_element cfg E (ElPresence dec) i w = continue_unless (handlePresence E dec i w)"
| "serve_element cfg E (ElIQ dec) i w = continue_unless (handleIQ cfg E dec i w)"
| "serve_element cfg E (ElOther skip) i w = continue_unless (skip, w)"

text \<open>
  \<open>serveSession\<close>, and the code of the server around it: a session starts with the flag of the server role
  and, on a TLS listener, as secure; when its loop returns it is unregistered and closed.
\<close>

definition start_session :: "xcfg \<Rightarrow> bool \<Rightarrow> conn \<Rightarrow> nat \<Rightarrow> 'u xmppd \<Rightarrow> 'u xmppd" where
  "start_session cfg secure c i w =
     w\<lparr>xd_phase := (xd_phase w)(i := Serving),
       xd_sess := (xd_sess w)(i := (if secure then SetState StateSecure else id) (NewSession c [WithState StateServer, WithRemoteAddr zeroJID])),
       xd_user := (xd_user w)(i := ''''),
       xd_reg := (xd_reg w)(i := newRegistrationHandler (xc_Registration cfg))\<rparr>"

definition end_session :: "nat \<Rightarrow> 'u xmppd \<Rightarrow> 'u xmppd" where
  "end_session i w =
     (let w1 = w\<lparr>xd_router := router_unregister (ss_remoteJID (xd_sess w i)) (xd_router w)\<rparr>
      in (upd_sess i (\<lambda>s. s\<lparr>ss_closed := True\<rparr>) w1)\<lparr>xd_phase := (xd_phase w)(i := Ended)\<rparr>)"

text \<open>
  Any number of sessions, each handling its elements one after the other, in any order among the sessions;
  \<open>us\<close> is the user store of the server, if it has one.
\<close>

inductive xd_step :: "xcfg \<Rightarrow> 'u UserStore option \<Rightarrow> 'u xmppd \<Rightarrow> 'u xmppd \<Rightarrow> bool" for cfg us where
  accept: "xd_phase w i = Idle \<Longrightarrow> xd_step cfg us w (start_session cfg secure c i w)"
| goes_on: "xd_phase w i = Serving \<Longrightarrow> re_users (xe_reg E) = us \<Longrightarrow> serve_element cfg E ev i w = (Inr (), w') \<Longrightarrow>
    xd_step cfg us w w'"
| returns: "xd_phase w i = Serving \<Longrightarrow> re_users (xe_reg E) = us \<Longrightarrow> serve_element cfg E ev i w = (Inl e, w') \<Longrightarrow>
    xd_step cfg us w (end_session i w')"

definition xd_init :: "xcfg \<Rightarrow> 'u \<Rightarrow> 'u xmppd" where
  "xd_init cfg u =
     \<lparr>xd_phase = (\<lambda>_. Idle),
      xd_sess = (\<lambda>_. NewSession \<lparr>conn_out = [], conn_budget = None, conn_peer = None\<rparr> []),
      xd_user = (\<lambda>_. ''''), xd_reg = (\<lambda>_. newRegistrationHandler (xc_Registration cfg)), xd_router = newSessionRouter, xd_store = u\<rparr>"

end
