(* ===== verification/XmppdProps.thy ===== *)
theory XmppdProps
  imports XmppdStream
begin

text \<open>
  The server as a whole: what holds in every state it can reach, whatever its clients send and however
  their elements are interleaved.  Most code only writes to connections; \<open>view\<close> is what such code leaves
  alone, and the invariant is a predicate of the view.
\<close>

unbundle bit_operations_syntax

section \<open>Code that only writes\<close>

definition writes_only :: "(sess \<Rightarrow> string option \<times> sess) \<Rightarrow> bool" where
  "writes_only f \<longleftrightarrow> (\<forall>s. \<exists>t. snd (f s) = s\<lparr>ss_trans := t\<rparr>)"

lemma writes_onlyI: "(\<And>s. \<exists>t. snd (f s) = s\<lparr>ss_trans := t\<rparr>) \<Longrightarrow> writes_only f"
  by (simp add: writes_only_def)

lemma keep_trans: "\<exists>t. s = s\<lparr>ss_trans := t\<rparr>" for s :: sess
  by (rule exI [of _ "ss_trans s"]) simp

named_theorems writing \<open>functions that only write to a connection\<close>

lemma writes_only_send [writing]: "writes_only (send cx st)"
  by (rule writes_onlyI) (auto simp: send_def session_Send_def keep_trans split: option.split prod.split)

lemma writes_only_sendElement [writing]: "writes_only (sendElement cx x)"
  by (rule writes_onlyI) (auto simp: sendElement_def session_SendElement_def keep_trans split: option.split prod.split)

lemma writes_only_sendRaw [writing]: "writes_only (sendRaw cx x)"
  by (rule writes_onlyI) (auto simp: sendRaw_def session_SendRaw_def keep_trans split: option.split prod.split)

lemma writes_only_failure [writing]: "writes_only (sendSASLFailure cx c)"
  using writes_only_sendRaw by (simp add: writes_only_def sendSASLFailure_def)

lemma writes_only_sess_write [writing]: "writes_only (sess_write x)"
  by (rule writes_onlyI) (auto simp: sess_write_def split: prod.split)

lemma writes_only_start [writing]: "writes_only (writeStreamStart d rnd)"
proof (rule writes_onlyI)
  fix s :: sess
  show "\<exists>t. snd (writeStreamStart d rnd s) = s\<lparr>ss_trans := t\<rparr>"
    using writes_only_sess_write unfolding writes_only_def writeStreamStart_def by (auto simp: keep_trans split: sum.split)
qed

lemma writes_only_tokens:
  assumes "\<And>t. writes_only (f t)"
  shows "writes_only (encode_tokens f ts)"
proof (rule writes_onlyI)
  fix s :: sess
  show "\<exists>t. snd (encode_tokens f ts s) = s\<lparr>ss_trans := t\<rparr>"
  proof (induction ts arbitrary: s)
    case Nil
    then show ?case by (simp add: keep_trans)
  next
    case (Cons x ts)
    obtain t where t: "snd (f x s) = s\<lparr>ss_trans := t\<rparr>" using assms unfolding writes_only_def by blast
    show ?case using t Cons [of "s\<lparr>ss_trans := t\<rparr>"] by (auto split: prod.split option.split)
  qed
qed

lemma writes_only_features [writing]: "writes_only (writeStreamFeatures cfg st)"
  using writes_only_tokens [OF writes_only_sess_write] unfolding writeStreamFeatures_def [abs_def] .

section \<open>The view\<close>

definition view :: "'u xmppd \<Rightarrow> (nat \<Rightarrow> phase) \<times> (nat \<Rightarrow> flags) \<times> (nat \<Rightarrow> JID) \<times> (nat \<Rightarrow> string) \<times> nat sessionRouter" where
  "view w = (xd_phase w, \<lambda>i. ss_state (xd_sess w i), \<lambda>i. ss_remoteJID (xd_sess w i), xd_user w, xd_router w)"

lemma view_on_sess [simp]: "writes_only f \<Longrightarrow> view (snd (on_sess i f w)) = view w"
proof -
  assume "writes_only f"
  then obtain t where "snd (f (xd_sess w i)) = (xd_sess w i)\<lparr>ss_trans := t\<rparr>" unfolding writes_only_def by blast
  then show ?thesis by (auto simp: view_def on_sess_def split: prod.split)
qed

lemma view_iq_error [simp]: "view (snd (iq_error E iq t c x i w)) = view w"
  by (simp add: iq_error_def writing)

lemma view_deliver [simp]: "view (deliver E st once src dsts w) = view w"
  by (cases once; induction dsts arbitrary: w) (simp_all add: Let_def writing)

lemma view_routeMessage [simp]: "view (snd (routeMessage E m i w)) = view w"
  by (simp add: routeMessage_def Let_def)

lemma view_routePresence [simp]: "view (snd (routePresence E m i w)) = view w"
  by (simp add: routePresence_def Let_def)

lemma view_routeIQ [simp]: "view (snd (routeIQ E m i w)) = view w"
  by (simp add: routeIQ_def Let_def)

lemma view_handleMessage [simp]: "view (snd (handleMessage E d i w)) = view w"
  by (simp add: handleMessage_def split: sum.split)

lemma view_handlePresence [simp]: "view (snd (handlePresence E d i w)) = view w"
  by (simp add: handlePresence_def split: sum.split)

lemma view_open_stream [simp]: "view (snd (answer_stream cfg E i w)) = view w"
proof -
  obtain e w1 where "on_sess i (writeStreamStart (xc_Domain cfg) (xe_rnd E)) w = (e, w1)" by fastforce
  moreover from this have "view w1 = view w" by (metis snd_conv view_on_sess writes_only_start)
  ultimately show ?thesis by (simp add: answer_stream_def writing split: option.split)
qed

text \<open>The registration handler only writes to the session, whatever it does to the store.\<close>

definition wrote :: "sess \<Rightarrow> sess \<Rightarrow> bool" where
  "wrote s s' \<longleftrightarrow> (\<exists>t. s' = s\<lparr>ss_trans := t\<rparr>)"

lemma wrote_refl [simp]: "wrote s s"
  using keep_trans by (simp add: wrote_def)

lemma wrote_by: "writes_only f \<Longrightarrow> wrote s (snd (f s))"
  by (simp add: wrote_def writes_only_def)

lemma reject_sess [simp]: "wrote (fst su) (fst (snd (reject cx iq a b c su)))"
  by (simp add: reject_def case_prod_unfold wrote_by writing)

lemma reply_sess [simp]: "wrote (fst su) (fst (snd (reply cx iq q su)))"
  by (simp add: reply_def case_prod_unfold wrote_by writing)

lemma reject_sess' [simp]: "wrote s (fst (snd (reject cx iq a b c (s, u))))"
  using reject_sess [of "(s, u)"] by simp

lemma reply_sess' [simp]: "wrote s (fst (snd (reply cx iq q (s, u))))"
  using reply_sess [of "(s, u)"] by simp

lemma handleRemove_sess [simp]: "wrote (fst su) (fst (snd (handleRemove E us iq fvals su)))"
  by (simp add: handleRemove_def Let_def split: prod.split option.split)

lemma create_account_sess [simp]: "wrote (fst su) (fst (snd (create_account E cfg us iq fvals su)))"
  by (simp add: create_account_def Let_def split: prod.split option.split sum.split bool.split)

lemma handleSet_sess [simp]: "wrote (fst su) (fst (snd (handleSet E cfg iq q su)))"
  by (simp add: handleSet_def Let_def split: option.split)

lemma handleGet_sess [simp]: "wrote (fst su) (fst (snd (handleGet E cfg iq su)))"
  by (simp add: handleGet_def)

lemma reg_Handle_sess: "wrote (fst su) (fst (snd (snd (reg_Handle sp E st h su))))"
  by (simp add: reg_Handle_def Let_def case_prod_unfold split: Stanza.split option.split)

section \<open>The handlers that change the view\<close>

lemma has_flag_bit:
  "has_flag st StateSecure = bit st 0" "has_flag st StateAuthenticated = bit st 1" "has_flag st StateBound = bit st 2" "has_flag st StateReady = bit st 3"
  by (simp_all add: has_flag_def state_defs and_flag)

lemma view_SetState_cong: "view w1 = view w \<Longrightarrow> view (upd_sess i (SetState f) w1) = view (upd_sess i (SetState f) w)"
  by (auto simp: view_def upd_sess_def SetState_def fun_eq_iff)

lemma view_handleStartTLS:
  "view (snd (handleStartTLS cfg E skip i w)) \<in> {view w, view (upd_sess i (SetState StateSecure) w)}"
proof -
  obtain e w1 where w1: "on_sess i (sendElement (xe_ctx E) OProceed) w = (e, w1)" by fastforce
  then have "view w1 = view w" by (metis snd_conv view_on_sess writes_only_sendElement)
  then have "view (upd_sess i (SetState StateSecure) w1) = view (upd_sess i (SetState StateSecure) w)"
    by (rule view_SetState_cong)
  with \<open>view w1 = view w\<close> w1 show ?thesis
    by (auto simp: handleStartTLS_def writing split: option.split)
qed

lemma plain_response_name: "plain_response v = Some (u, p) \<Longrightarrow> u \<noteq> [] \<and> TrimSpace u = u"
  by (auto simp: plain_response_def split: option.splits list.splits if_splits)

definition logged_in :: "nat \<Rightarrow> string \<Rightarrow> JID \<Rightarrow> 'u xmppd \<Rightarrow> 'u xmppd" where
  "logged_in i u j w = upd_sess i (\<lambda>s. SetState StateAuthenticated (SetRemoteAddr j s)) (w\<lparr>xd_user := (xd_user w)(i := u)\<rparr>)"

lemma view_handleSASLAuth:
  "view (snd (handleSASLAuth cfg E skip auth i w)) = view w \<or>
   (\<exists>u p j us. \<not> bit (xstate i w) 1 \<and> u \<noteq> [] \<and> TrimSpace u = u \<and> re_users (xe_reg E) = Some us \<and>
      us_Authenticate us (xd_store w) u p = (True, None) \<and>
      jid_New u (xc_Domain cfg) [] = Inr j \<and> view (snd (handleSASLAuth cfg E skip auth i w)) = view (logged_in i u j w))"
proof (cases "bit (xstate i w) 1")
  case True
  then show ?thesis by (auto simp: handleSASLAuth_def has_flag_bit writing split: option.split)
next
  case False
  show ?thesis
  proof (cases auth)
    case (Inr a)
    obtain m v where a: "a = (m, v)" by fastforce
    show ?thesis
    proof (cases "is_PLAIN (xe_upper E) m \<and> plain_response v \<noteq> None \<and> re_users (xe_reg E) \<noteq> None")
      case True
      then obtain u p us where up: "plain_response v = Some (u, p)" "re_users (xe_reg E) = Some us" by auto
      show ?thesis
      proof (cases "us_Authenticate us (xd_store w) u p = (True, None) \<and> is_ok (jid_New u (xc_Domain cfg) [])")
        case yes: True
        then obtain j where j: "jid_New u (xc_Domain cfg) [] = Inr j" by (auto simp: is_ok_iff)
        have "view (snd (handleSASLAuth cfg E skip auth i w)) = view (logged_in i u j w)"
          using True up False Inr a yes j
          by (simp add: handleSASLAuth_def has_flag_bit writing logged_in_def Let_def)
        with plain_response_name [OF up(1)] up(2) yes j False show ?thesis by blast
      next
        case no: False
        with True up False Inr a show ?thesis
          by (cases "jid_New u (xc_Domain cfg) []"; cases "us_Authenticate us (xd_store w) u p")
             (auto simp: handleSASLAuth_def has_flag_bit writing Let_def split: option.split bool.split)
      qed
    qed (use False Inr a in \<open>auto simp: handleSASLAuth_def has_flag_bit writing Let_def split: option.split\<close>)
  qed (use False in \<open>simp add: handleSASLAuth_def has_flag_bit\<close>)
qed

definition bound_to :: "nat \<Rightarrow> JID \<Rightarrow> 'u xmppd \<Rightarrow> 'u xmppd" where
  "bound_to i full w =
     (upd_sess i (\<lambda>s. SetState (StateBound OR StateReady) (SetRemoteAddr full s)) w)\<lparr>xd_router := router_register full i (xd_router w)\<rparr>"

lemma view_handleBindIQ:
  "view (snd (handleBindIQ cfg E iq i w)) = view w \<or>
   (\<exists>n res full. bit (xstate i w) 1 \<and> jid_New n (xc_Domain cfg) res = Inr full \<and> n \<noteq> [] \<and>
      (TrimSpace (xd_user w i) \<noteq> [] \<longrightarrow> n = TrimSpace (xd_user w i)) \<and>
      view (snd (handleBindIQ cfg E iq i w)) = view (bound_to i full w))"
proof -
  let ?n = "if TrimSpace (xd_user w i) = [] then TrimSpace (jid_local (ss_remoteJID (xd_sess w i))) else TrimSpace (xd_user w i)"
  show ?thesis
  proof (cases "bit (xstate i w) 1 \<and> ?n \<noteq> [] \<and> xe_unmarshalBind E (iq_Query iq) \<noteq> None")
    case True
    then obtain name res where b: "xe_unmarshalBind E (iq_Query iq) = Some (name, res)" by auto
    define resource where "resource = (if TrimSpace res = [] then randomResource (xe_rnd E) else TrimSpace res)"
    define n where "n = ?n"
    have r: "xd_router (upd_sess i f w) = xd_router w" for f by (simp add: upd_sess_def)
    have h: "handleBindIQ cfg E iq i w =
      (case jid_New n (xc_Domain cfg) resource of
         Inl e \<Rightarrow> iq_error E iq ''modify'' ''jid-malformed'' ''invalid jid'' i w
       | Inr full \<Rightarrow> on_sess i (sendElement (xe_ctx E)
           (OPayload \<lparr>ip_IQ = ResultIQ iq, ip_Payload = Some (PBind (jid_String full))\<rparr>)) (bound_to i full w))"
      unfolding handleBindIQ_def Let_def b option.case prod.case resource_def [symmetric] n_def [symmetric] bound_to_def r
      using True by (simp add: has_flag_bit n_def)
    have "n \<noteq> []" "TrimSpace (xd_user w i) \<noteq> [] \<longrightarrow> n = TrimSpace (xd_user w i)" using True by (simp_all add: n_def)
    then show ?thesis using True by (cases "jid_New n (xc_Domain cfg) resource") (auto simp: h writing)
  next
    case False
    then consider "\<not> bit (xstate i w) 1" | "bit (xstate i w) 1" "?n = []" | "bit (xstate i w) 1" "?n \<noteq> []" "xe_unmarshalBind E (iq_Query iq) = None"
      by blast
    then have "\<exists>t c x. handleBindIQ cfg E iq i w = iq_error E iq t c x i w"
      by cases (simp add: handleBindIQ_def has_flag_bit Let_def, blast)+
    then show ?thesis by force
  qed
qed

lemma view_handleIQ:
  "view (snd (handleIQ cfg E dec i w)) = view w \<or>
   (\<exists>iq. view (snd (handleIQ cfg E dec i w)) = view (snd (handleBindIQ cfg E iq i w)))"
proof (cases dec)
  case (Inr iq)
  obtain err h s u where r: "reg_Handle (xe_split E) (xe_reg E) (SIQ iq) (xd_reg w i) (xd_sess w i, xd_store w) = (err, h, s, u)"
    by (metis surj_pair)
  then have "wrote (xd_sess w i) s" using reg_Handle_sess [of "(xd_sess w i, xd_store w)"] by (metis fst_conv snd_conv)
  then have "view (w\<lparr>xd_reg := (xd_reg w)(i := h), xd_sess := (xd_sess w)(i := s), xd_store := u\<rparr>) = view w"
    by (auto simp: wrote_def view_def)
  then show ?thesis using Inr r by (auto simp: handleIQ_def Let_def split: option.split)
qed (simp add: handleIQ_def)

section \<open>The invariant\<close>

definition account :: "xcfg \<Rightarrow> string \<Rightarrow> JID \<Rightarrow> bool" where
  "account cfg u j \<longleftrightarrow> u \<noteq> [] \<and> TrimSpace u = u \<and> jid_wf j \<and> jid_local j = u \<and> jid_domain j = xc_Domain cfg"

text \<open>Flags and address of one session; an entry of the router for a session.\<close>

definition sess_ok :: "xcfg \<Rightarrow> phase \<Rightarrow> flags \<Rightarrow> JID \<Rightarrow> string \<Rightarrow> bool" where
  "sess_ok cfg ph st rem usr \<longleftrightarrow>
     bit st 2 = bit st 3 \<and> (bit st 3 \<longrightarrow> bit st 1) \<and> (ph = Idle \<longrightarrow> \<not> bit st 3) \<and> (bit st 1 \<longrightarrow> account cfg usr rem)"

definition entry_ok :: "xcfg \<Rightarrow> flags \<Rightarrow> string \<Rightarrow> string \<Rightarrow> string \<Rightarrow> bool" where
  "entry_ok cfg st usr b k \<longleftrightarrow>
     bit st 3 \<and> (\<exists>j. account cfg usr j \<and> k = jid_String j \<and> b = jid_String (jid_Bare j))"

fun xd_ok :: "xcfg \<Rightarrow> (nat \<Rightarrow> phase) \<times> (nat \<Rightarrow> flags) \<times> (nat \<Rightarrow> JID) \<times> (nat \<Rightarrow> string) \<times> nat sessionRouter \<Rightarrow> bool" where
  "xd_ok cfg (ph, st, rem, usr, r) \<longleftrightarrow>
     (\<forall>i. sess_ok cfg (ph i) (st i) (rem i) (usr i)) \<and>
     (\<forall>k i. byFull r k = Some i \<longrightarrow> (\<exists>b. entry_ok cfg (st i) (usr i) b k)) \<and>
     (\<forall>b k i. get2 (byBare r) b k = Some i \<longrightarrow> entry_ok cfg (st i) (usr i) b k)"

lemma xd_ok_init: "xd_ok cfg (view (xd_init cfg u))"
  by (simp add: view_def xd_init_def sess_ok_def NewSession_def newSessionRouter_def)

lemma xd_okD: "xd_ok cfg (view w) \<Longrightarrow> sess_ok cfg (xd_phase w i) (ss_state (xd_sess w i)) (ss_remoteJID (xd_sess w i)) (xd_user w i)"
  by (simp add: view_def)

text \<open>Changing one session that keeps, if it is ready, its readiness and its name.\<close>

definition set_sess :: "nat \<Rightarrow> phase \<Rightarrow> sess \<Rightarrow> string \<Rightarrow> 'u xmppd \<Rightarrow> 'u xmppd" where
  "set_sess i p s u w = w\<lparr>xd_phase := (xd_phase w)(i := p), xd_sess := (xd_sess w)(i := s), xd_user := (xd_user w)(i := u)\<rparr>"

lemma xd_ok_set:
  assumes "xd_ok cfg (view w)" and "sess_ok cfg p (ss_state s) (ss_remoteJID s) u"
    and "bit (ss_state (xd_sess w i)) 3 \<Longrightarrow> bit (ss_state s) 3 \<and> u = xd_user w i"
  shows "xd_ok cfg (view (set_sess i p s u w))"
  using assms by (auto simp: view_def set_sess_def entry_ok_def)

lemma upd_sess_set: "upd_sess i f w = set_sess i (xd_phase w i) (f (xd_sess w i)) (xd_user w i) w"
  by (simp add: upd_sess_def set_sess_def)

lemma xd_ok_secure: "xd_ok cfg (view w) \<Longrightarrow> xd_ok cfg (view (upd_sess i (SetState StateSecure) w))"
  unfolding upd_sess_set by (rule xd_ok_set) (auto dest!: xd_okD [of cfg w i] simp: SetState_def sess_ok_def bit_or_iff bit_flags)

lemma account_New: "jid_New u (xc_Domain cfg) res = Inr j \<Longrightarrow> u \<noteq> [] \<Longrightarrow> TrimSpace u = u \<Longrightarrow> account cfg u j"
  by (auto simp: account_def jid_New_iff)

lemma xd_ok_login:
  assumes ok: "xd_ok cfg (view w)" and "\<not> bit (xstate i w) 1" and acc: "account cfg u j"
  shows "xd_ok cfg (view (logged_in i u j w))"
proof -
  have b: "\<not> bit (ss_state (xd_sess w i)) 3" "\<not> bit (ss_state (xd_sess w i)) 2"
    using xd_okD [OF ok, of i] assms(2) by (auto simp: sess_ok_def xstate_def)
  have "logged_in i u j w = set_sess i (xd_phase w i) (SetState StateAuthenticated (SetRemoteAddr j (xd_sess w i))) u w"
    by (simp add: logged_in_def upd_sess_def set_sess_def)
  then show ?thesis
    using ok acc b
    by (simp only:) (intro xd_ok_set, simp_all add: SetState_def SetRemoteAddr_def sess_ok_def bit_or_iff bit_flags)
qed

lemma register_entries:
  assumes "jid_String j \<noteq> []"
  shows "byFull (router_register j i r) k = (if k = jid_String j then Some i else byFull r k)"
    and "get2 (byBare (router_register j i r)) b k =
      (if b = jid_String (jid_Bare j) \<and> k = jid_String j then Some i else get2 (byBare r) b k)"
  using assms by (auto simp: router_register_def Let_def get2_def split: option.splits)

lemma unregister_entries:
  "byFull (router_unregister j r) k = Some i \<Longrightarrow> byFull r k = Some i"
  "get2 (byBare (router_unregister j r)) b k = Some i \<Longrightarrow> get2 (byBare r) b k = Some i"
  by (auto simp: router_unregister_def Let_def get2_def split: option.splits if_splits)

lemma xd_ok_bind:
  assumes ok: "xd_ok cfg (view w)" and auth: "bit (xstate i w) 1" and acc: "account cfg (xd_user w i) full"
    and served: "xd_phase w i \<noteq> Idle"
  shows "xd_ok cfg (view (bound_to i full w))"
proof -
  let ?s = "SetState (StateBound OR StateReady) (SetRemoteAddr full (xd_sess w i))"
  let ?w = "set_sess i (xd_phase w i) ?s (xd_user w i) w"
  have f: "bit (ss_state ?s) 1" "bit (ss_state ?s) 2" "bit (ss_state ?s) 3" "ss_remoteJID ?s = full"
    using auth by (simp_all add: SetState_def SetRemoteAddr_def bit_or_iff bit_flags xstate_def)
  have str: "jid_String full \<noteq> []" using acc by (simp add: account_def jid_String_not_Nil)
  have "xd_ok cfg (view ?w)" using ok acc served f by (intro xd_ok_set) (simp_all add: sess_ok_def)
  moreover have "entry_ok cfg (ss_state ?s) (xd_user w i) (jid_String (jid_Bare full)) (jid_String full)"
    using f acc by (auto simp: entry_ok_def)
  ultimately have "xd_ok cfg (view (?w\<lparr>xd_router := router_register full i (xd_router w)\<rparr>))"
    by (auto simp: view_def set_sess_def register_entries [OF str])
  then show ?thesis by (simp add: bound_to_def upd_sess_set)
qed

lemma xd_ok_start:
  assumes "xd_ok cfg (view w)" "xd_phase w i = Idle"
  shows "xd_ok cfg (view (start_session cfg secure c i w))"
proof -
  let ?s = "(if secure then SetState StateSecure else id) (NewSession c [WithState StateServer, WithRemoteAddr zeroJID]) :: sess"
  have "\<not> bit (ss_state (xd_sess w i)) 3" using xd_okD [OF assms(1), of i] assms(2) by (simp add: sess_ok_def)
  moreover have "\<not> bit (ss_state ?s) k" if "k \<in> {1, 2, 3}" for k
    using that by (auto simp: SetState_def NewSession_def WithState_def WithRemoteAddr_def StateServer_def bit_or_iff bit_flags)
  ultimately have "xd_ok cfg (view (set_sess i Serving ?s [] w))"
    using assms(1) by (intro xd_ok_set) (simp_all add: sess_ok_def)
  moreover have "view (start_session cfg secure c i w) = view (set_sess i Serving ?s [] w)"
    by (simp add: start_session_def set_sess_def view_def)
  ultimately show ?thesis by simp
qed

lemma xd_ok_end: "xd_ok cfg (view w) \<Longrightarrow> xd_ok cfg (view (end_session i w))"
  by (auto simp: view_def end_session_def upd_sess_def sess_ok_def dest!: unregister_entries)

lemma snd_continue [simp]: "snd (continue_unless x) = snd x"
  by (simp add: continue_unless_def split: prod.split option.split)

lemma continue_None: "fst x = None \<Longrightarrow> continue_unless x = (Inr (), snd x)"
  by (cases x) (simp add: continue_unless_def)

lemma xd_ok_handleBindIQ:
  assumes "xd_ok cfg (view w)" "xd_phase w i = Serving"
  shows "xd_ok cfg (view (snd (handleBindIQ cfg E iq i w)))"
  using view_handleBindIQ [of cfg E iq i w]
proof
  assume "\<exists>n res full. bit (xstate i w) 1 \<and> jid_New n (xc_Domain cfg) res = Inr full \<and> n \<noteq> [] \<and>
      (TrimSpace (xd_user w i) \<noteq> [] \<longrightarrow> n = TrimSpace (xd_user w i)) \<and>
      view (snd (handleBindIQ cfg E iq i w)) = view (bound_to i full w)"
  then obtain n res full where b: "bit (xstate i w) 1" "jid_New n (xc_Domain cfg) res = Inr full"
    "TrimSpace (xd_user w i) \<noteq> [] \<longrightarrow> n = TrimSpace (xd_user w i)"
    "view (snd (handleBindIQ cfg E iq i w)) = view (bound_to i full w)" by blast
  have u: "xd_user w i \<noteq> []" "TrimSpace (xd_user w i) = xd_user w i"
    using xd_okD [OF assms(1), of i] b(1) by (auto simp: sess_ok_def account_def xstate_def)
  with b have "account cfg (xd_user w i) full" by (intro account_New) auto
  with b(1,4) assms show ?thesis by (simp add: xd_ok_bind)
qed (use assms in simp)

lemma xd_ok_serve:
  assumes "xd_ok cfg (view w)" "xd_phase w i = Serving"
  shows "xd_ok cfg (view (snd (serve_element cfg E ev i w)))"
proof (cases ev)
  case (ElStartTLS skip)
  with assms view_handleStartTLS [of cfg E skip i w] show ?thesis by (auto simp: xd_ok_secure)
next
  case (ElAuth skip auth)
  with assms view_handleSASLAuth [of cfg E skip auth i w] show ?thesis
    by (auto simp del: xd_ok.simps intro!: xd_ok_login account_New)
next
  case (ElIQ dec)
  with assms view_handleIQ [of cfg E dec i w] show ?thesis
    using xd_ok_handleBindIQ [OF assms] by (auto simp del: xd_ok.simps)
qed (use assms in \<open>simp_all del: xd_ok.simps\<close>)

lemma xd_ok_step: "xd_step cfg us w w' \<Longrightarrow> xd_ok cfg (view w) \<Longrightarrow> xd_ok cfg (view w')"
proof (induction rule: xd_step.induct)
  case (goes_on w i E ev w')
  then show ?case using xd_ok_serve [of cfg w i E ev] by simp
next
  case (returns w i E ev e w')
  then show ?case using xd_ok_serve [of cfg w i E ev] by (simp add: xd_ok_end)
qed (simp add: xd_ok_start)

lemma xd_ok_reachable: "(xd_step cfg us)\<^sup>*\<^sup>* (xd_init cfg u) w \<Longrightarrow> xd_ok cfg (view w)"
  by (induction rule: rtranclp_induct) (auto simp: xd_ok_init intro: xd_ok_step)

text \<open>The sessions an address leads to belong to the account of the address.\<close>

lemma targets_account:
  assumes "xd_ok cfg (view w)" "plain_domain (xc_Domain cfg)" "routable to" "j \<in> set (targets ks to (xd_router w))"
  shows "bit (xstate j w) 3 \<and> jid_local to = xd_user w j \<and> jid_domain to = xc_Domain cfg"
proof -
  obtain b k where e: "entry_ok cfg (xstate j w) (xd_user w j) b k" and
    k: "if jid_IsFull to then k = jid_String to else b = jid_String (jid_Bare to)"
  proof (cases "jid_IsFull to")
    case True
    then have "byFull (xd_router w) (jid_String to) = Some j"
      using assms(3,4) by (auto simp: targets_def split: option.splits)
    then have "\<exists>b. entry_ok cfg (xstate j w) (xd_user w j) b (jid_String to)"
      using assms(1) by (auto simp: view_def xstate_def)
    then show ?thesis using that True by auto
  next
    case False
    then have "\<exists>k. get2 (byBare (xd_router w)) (jid_String (jid_Bare to)) k = Some j"
      using assms(3,4) by (cases "byBare (xd_router w) (jid_String (jid_Bare to))") (auto simp: targets_def get2_def set_range_values)
    then obtain k where "get2 (byBare (xd_router w)) (jid_String (jid_Bare to)) k = Some j" ..
    then have "entry_ok cfg (xstate j w) (xd_user w j) (jid_String (jid_Bare to)) k"
      using assms(1) by (auto simp: view_def xstate_def)
    then show ?thesis using that False by simp
  qed
  then obtain f where f: "account cfg (xd_user w j) f" "k = jid_String f" "b = jid_String (jid_Bare f)" "bit (xstate j w) 3"
    by (auto simp: entry_ok_def)
  then have "routable f" using assms(2) by (simp add: account_def routable_def)
  then have "to = f \<or> jid_Bare to = jid_Bare f"
    using k f(2,3) assms(3) by (auto simp: jid_String_inj split: if_splits)
  then have "jid_local to = jid_local f \<and> jid_domain to = jid_domain f" by (auto simp: jid_Bare_def)
  then show ?thesis using f by (simp add: account_def)
qed

text \<open>
  C34: the sessions of the server.  Whatever clients connect and send, and however the elements of
  different sessions are interleaved: a session that is ready is bound and authenticated; an authenticated
  session has a valid address of the server's domain whose localpart is the name it authenticated with;
  and a session that stanzas for an address are routed to is ready and authenticated under the localpart
  of that very address.
\<close>

theorem xmppd_sessions:
  assumes "(xd_step cfg us)\<^sup>*\<^sup>* (xd_init cfg u) w" and "plain_domain (xc_Domain cfg)"
  shows "(has_flag (xstate i w) StateReady \<longrightarrow> has_flag (xstate i w) StateBound \<and> has_flag (xstate i w) StateAuthenticated) \<and>
    (has_flag (xstate i w) StateAuthenticated \<longrightarrow>
       jid_wf (ss_remoteJID (xd_sess w i)) \<and> jid_local (ss_remoteJID (xd_sess w i)) = xd_user w i \<and>
       xd_user w i \<noteq> '''' \<and> jid_domain (ss_remoteJID (xd_sess w i)) = xc_Domain cfg) \<and>
    (routable to \<and> j \<in> set (xtargets E to w) \<longrightarrow>
       has_flag (xstate j w) StateReady \<and> xd_user w j = jid_local to \<and> jid_domain to = xc_Domain cfg)"
proof -
  have ok: "xd_ok cfg (view w)" using xd_ok_reachable [OF assms(1)] .
  have s: "sess_ok cfg (xd_phase w i) (xstate i w) (ss_remoteJID (xd_sess w i)) (xd_user w i)"
    using xd_okD [OF ok, of i] by (simp add: xstate_def)
  have "routable to \<and> j \<in> set (xtargets E to w) \<longrightarrow>
      bit (xstate j w) 3 \<and> xd_user w j = jid_local to \<and> jid_domain to = xc_Domain cfg"
    using targets_account [OF ok assms(2)] by (auto simp: xtargets_def)
  with s show ?thesis by (simp only: has_flag_bit sess_ok_def account_def) blast
qed

section \<open>Logging in\<close>

lemma is_PLAIN_name: "is_PLAIN upper ''PLAIN''"
proof -
  have "TrimSpace ''PLAIN'' = ''PLAIN''" by (rule TrimSpace_ascii) (simp add: is_space_def)
  moreover have "runes (string_bytes ''PLAIN'') = string_bytes ''PLAIN''" by (rule runes_of_ascii) (simp add: string_bytes_def)
  ultimately show ?thesis by (simp add: is_PLAIN_def ToUpper_runes_def string_bytes_def)
qed

lemma plain_response_Start:
  assumes "nul \<notin> set (cr_AuthzID creds)" "nul \<notin> set (cr_Username creds)"
  shows "plain_response (b64_encode (fst (plain_Start (NewPlain creds)))) =
    (if TrimSpace (cr_Username creds) = [] then None else Some (TrimSpace (cr_Username creds), cr_Password creds))"
proof -
  have "split_n 3 nul (fst (plain_Start (NewPlain creds))) = [cr_AuthzID creds, cr_Username creds, cr_Password creds]"
    using split_n_append [OF assms(1), of 2] split_n_append [OF assms(2), of 1]
    by (simp add: plain_Start_def NewPlain_def numeral_3_eq_3 numeral_2_eq_2)
  then show ?thesis by (simp add: plain_response_def b64_encode_trim b64_roundtrip)
qed

lemma xstate_logged_in [simp]: "has_flag (xstate i (logged_in i u j w)) StateAuthenticated"
  by (simp add: has_flag_bit xstate_def logged_in_def upd_sess_def SetState_def bit_or_iff bit_flags)

text \<open>Only the flags and addresses count: they are part of the view.\<close>

lemma view_xstate: "view w' = view w \<Longrightarrow> xstate i w' = xstate i w \<and> ss_remoteJID (xd_sess w' i) = ss_remoteJID (xd_sess w i) \<and> xd_user w' i = xd_user w i"
  by (simp add: view_def xstate_def fun_eq_iff)

text \<open>Why a login is refused; \<open>None\<close> when it is not.\<close>

definition login_refused :: "(string \<rightharpoonup> string) \<Rightarrow> string \<Rightarrow> string \<Rightarrow> string \<Rightarrow> string option" where
  "login_refused acc domain name password =
     (if name = [] then Some ''malformed-request''
      else if acc name \<noteq> Some password then Some ''temporary-auth-failure''
      else case jid_New name domain [] of Inl _ \<Rightarrow> Some ''not-authorized'' | Inr _ \<Rightarrow> None)"

lemma handleSASLAuth_plain:
  assumes "re_users (xe_reg E) = Some mem_UserStore" and "\<not> has_flag (xstate i w) StateAuthenticated"
    and "nul \<notin> set (cr_AuthzID creds)" "nul \<notin> set (cr_Username creds)"
  shows "handleSASLAuth cfg E skip (Inr (''PLAIN'', b64_encode (fst (plain_Start (NewPlain creds))))) i w =
    (let n = TrimSpace (cr_Username creds) in
     case login_refused (mem_accounts (xd_store w)) (xc_Domain cfg) n (cr_Password creds) of
       Some c \<Rightarrow> on_sess i (sendSASLFailure (xe_ctx E) c) w
     | None \<Rightarrow> on_sess i (sendElement (xe_ctx E) OSuccess) (logged_in i n (projr (jid_New n (xc_Domain cfg) [])) w))"
  using assms(1,2) plain_response_Start [OF assms(3,4)]
  by (simp add: handleSASLAuth_def is_PLAIN_name mem_users.auth logged_in_def login_refused_def Let_def split: sum.splits)

text \<open>
  C35: logging in with PLAIN.  Take a session that is not authenticated, on a server with the in-memory store,
  and the response that a \<open>Plain\<close> client makes of its credentials, sent in base64; neither the authorization
  identity nor the name may hold a NUL byte.  The name counts without the white space around it.  The response
  authenticates the session exactly when that name is not empty, the store has an account of it with the
  password, and \<open>jid.New\<close> accepts it as the localpart of an address of the domain, whether or not the connection
  is secure; the session then has that address, and the server remembers the name.  Otherwise the only change is
  the failure that is written: \<open>malformed-request\<close>, \<open>temporary-auth-failure\<close> or \<open>not-authorized\<close>, in this order.  So
  an account called \<open>bob@example.com\<close> or one whose name starts with a blank exists and cannot be used.
\<close>

theorem plain_login:
  assumes "re_users (xe_reg E) = Some mem_UserStore" and "\<not> has_flag (xstate i w) StateAuthenticated"
    and "nul \<notin> set (cr_AuthzID creds)" "nul \<notin> set (cr_Username creds)"
    and "handleSASLAuth cfg E skip (Inr (''PLAIN'', b64_encode (fst (plain_Start (NewPlain creds))))) i w = (err, w')"
    and "n = TrimSpace (cr_Username creds)"
  shows "(has_flag (xstate i w') StateAuthenticated \<longleftrightarrow>
      n \<noteq> [] \<and> mem_accounts (xd_store w) n = Some (cr_Password creds) \<and> (\<exists>j. jid_New n (xc_Domain cfg) [] = Inr j)) \<and>
    (if has_flag (xstate i w') StateAuthenticated
     then Inr (ss_remoteJID (xd_sess w' i)) = jid_New n (xc_Domain cfg) [] \<and> xd_user w' i = n
     else (err, w') = on_sess i (sendSASLFailure (xe_ctx E)
       (if n = [] then ''malformed-request''
        else if mem_accounts (xd_store w) n \<noteq> Some (cr_Password creds) then ''temporary-auth-failure'' else ''not-authorized'')) w)"
proof -
  let ?p = "cr_Password creds" and ?j = "projr (jid_New n (xc_Domain cfg) [])"
  let ?refused = "login_refused (mem_accounts (xd_store w)) (xc_Domain cfg) n ?p"
  have res: "(err, w') = (case ?refused of Some c \<Rightarrow> on_sess i (sendSASLFailure (xe_ctx E) c) w
      | None \<Rightarrow> on_sess i (sendElement (xe_ctx E) OSuccess) (logged_in i n ?j w))"
    using assms(5) handleSASLAuth_plain [OF assms(1-4), folded assms(6)] by (simp add: Let_def)
  show ?thesis
  proof (cases ?refused)
    case None
    then have "(err, w') = on_sess i (sendElement (xe_ctx E) OSuccess) (logged_in i n ?j w)" using res by simp
    then have "view w' = view (logged_in i n ?j w)" by (metis snd_conv view_on_sess writes_only_sendElement)
    then have "xstate i w' = xstate i (logged_in i n ?j w)" "ss_remoteJID (xd_sess w' i) = ?j" "xd_user w' i = n"
      using view_xstate [of w' "logged_in i n ?j w" i]
      by (simp_all add: logged_in_def upd_sess_def SetState_def SetRemoteAddr_def)
    then show ?thesis using None by (auto simp: login_refused_def split: if_splits sum.splits)
  next
    case (Some c)
    then have eq: "(err, w') = on_sess i (sendSASLFailure (xe_ctx E) c) w" using res by simp
    then have "view w' = view w" by (metis snd_conv view_on_sess writes_only_failure)
    then have "\<not> has_flag (xstate i w') StateAuthenticated" using assms(2) by (metis view_xstate)
    then show ?thesis using eq Some by (auto simp: login_refused_def split: if_splits sum.splits)
  qed
qed

text \<open>A server with one account, and a client of it that has connected.\<close>

definition demo_xcfg :: xcfg where
  "demo_xcfg = \<lparr>xc_Domain = ''h'', xc_TLS = True, xc_Registration = demo_cfg\<rparr>"

definition demo_xenv :: "MemStore xenv" where
  "demo_xenv = \<lparr>xe_reg = demo_env, xe_startTLS = None, xe_unmarshalBind = (\<lambda>x. None), xe_rnd = [], xe_order = (\<lambda>b. []),
     xe_upper = id, xe_split = (\<lambda>x. None)\<rparr>"

definition demo_store :: MemStore where
  "demo_store = NewStore\<lparr>users := [''alice'' \<mapsto> \<lparr>u_Username = ''alice'', u_Password = ''secret'', u_Salt = [], u_Iterations = 0,
     u_ServerKey = [], u_StoredKey = [], u_CreatedAt = 1, u_UpdatedAt = 1\<rparr>]\<rparr>"

definition demo_world :: "MemStore xmppd" where
  "demo_world = start_session demo_xcfg False \<lparr>conn_out = [], conn_budget = None, conn_peer = None\<rparr> 0 (xd_init demo_xcfg demo_store)"

definition demo_login :: Credentials where
  "demo_login = \<lparr>cr_Username = ''alice'', cr_Password = ''secret'', cr_AuthzID = [], cr_ChannelBinding = [], cr_CBType = []\<rparr>"

definition demo_auth :: "MemStore xmppd" where
  "demo_auth = snd (handleSASLAuth demo_xcfg demo_xenv None
     (Inr (''PLAIN'', b64_encode (fst (plain_Start (NewPlain demo_login))))) 0 demo_world)"

lemma demo_premises:
  "re_users (xe_reg demo_xenv) = Some mem_UserStore" "\<not> has_flag (xstate 0 demo_world) StateAuthenticated"
  "nul \<notin> set (cr_AuthzID demo_login)" "nul \<notin> set (cr_Username demo_login)"
  "TrimSpace (cr_Username demo_login) = cr_Username demo_login" "cr_Username demo_login \<noteq> []"
  "jid_New (cr_Username demo_login) (xc_Domain demo_xcfg) [] = Inr \<lparr>jid_local = ''alice'', jid_domain = ''h'', jid_resource = []\<rparr>"
  "mem_accounts (xd_store demo_world) (cr_Username demo_login) = Some (cr_Password demo_login)"
proof -
  show "TrimSpace (cr_Username demo_login) = cr_Username demo_login"
    by (rule TrimSpace_ascii) (simp add: demo_login_def is_space_def)
  show "\<not> has_flag (xstate 0 demo_world) StateAuthenticated"
    by (simp add: has_flag_def xstate_def demo_world_def start_session_def NewSession_def WithState_def WithRemoteAddr_def state_defs)
qed (simp_all add: demo_xenv_def demo_env_def demo_login_def nul_def demo_xcfg_def jid_New_iff jid_wf_def plain_domain_def maxPartLen_def
      string_bytes_def utf8_eval mem_accounts_def demo_world_def start_session_def xd_init_def demo_store_def)

theorem plain_login_witness:
  "has_flag (xstate 0 demo_auth) StateAuthenticated \<and> xd_user demo_auth 0 = ''alice''"
proof -
  obtain err where r: "handleSASLAuth demo_xcfg demo_xenv None
     (Inr (''PLAIN'', b64_encode (fst (plain_Start (NewPlain demo_login))))) 0 demo_world = (err, demo_auth)"
    unfolding demo_auth_def by (metis prod.collapse)
  from plain_login [OF demo_premises(1-4) r demo_premises(5) [symmetric]] demo_premises(6-8)
  show ?thesis by (simp add: demo_login_def)
qed

theorem xmppd_sessions_witness:
  "jid_local (ss_remoteJID (xd_sess demo_auth 0)) = xd_user demo_auth 0 \<and> xd_user demo_auth 0 \<noteq> []"
proof -
  let ?ev = "ElAuth None (Inr (''PLAIN'', b64_encode (fst (plain_Start (NewPlain demo_login)))))"
  have h: "handleSASLAuth demo_xcfg demo_xenv None (Inr (''PLAIN'', b64_encode (fst (plain_Start (NewPlain demo_login))))) 0 demo_world =
      on_sess 0 (sendElement (xe_ctx demo_xenv) OSuccess)
        (logged_in 0 (cr_Username demo_login) \<lparr>jid_local = ''alice'', jid_domain = ''h'', jid_resource = []\<rparr> demo_world)"
    using handleSASLAuth_plain [OF demo_premises(1-4), where skip = None] demo_premises(5-8) by (simp add: login_refused_def)
  have "view demo_auth = view (logged_in 0 (cr_Username demo_login) \<lparr>jid_local = ''alice'', jid_domain = ''h'', jid_resource = []\<rparr> demo_world)"
    unfolding demo_auth_def h by (rule view_on_sess) (rule writes_only_sendElement)
  from view_xstate [OF this, of 0] have auth: "has_flag (xstate 0 demo_auth) StateAuthenticated" by simp
  have "fst (on_sess 0 (sendElement (xe_ctx demo_xenv) OSuccess) (logged_in 0 u j demo_world)) = None" for u j
    by (simp add: on_sess_def sendElement_def session_SendElement_def guarded_def xe_ctx_def demo_xenv_def demo_env_def logged_in_def
        upd_sess_def SetState_def SetRemoteAddr_def demo_world_def start_session_def NewSession_def WithState_def WithRemoteAddr_def conn_write_def)
  then have ev: "serve_element demo_xcfg demo_xenv ?ev 0 demo_world = (Inr (), demo_auth)"
    unfolding demo_auth_def serve_element.simps h by (simp add: continue_None)
  have "xd_step demo_xcfg (Some mem_UserStore) (xd_init demo_xcfg demo_store) demo_world"
    unfolding demo_world_def by (rule xd_step.accept) (simp add: xd_init_def)
  moreover have "xd_step demo_xcfg (Some mem_UserStore) demo_world demo_auth"
    by (rule xd_step.goes_on [OF _ _ ev]) (simp_all add: demo_premises(1) demo_world_def start_session_def)
  ultimately have run: "(xd_step demo_xcfg (Some mem_UserStore))\<^sup>*\<^sup>* (xd_init demo_xcfg demo_store) demo_auth"
    by (rule converse_rtranclp_into_rtranclp [OF _ r_into_rtranclp])
  have "plain_domain (xc_Domain demo_xcfg)" by (simp add: demo_xcfg_def plain_domain_def)
  from xmppd_sessions [OF run this, of 0] auth show ?thesis by blast
qed

section \<open>What one session can make the server write to another\<close>

definition out_of :: "nat \<Rightarrow> 'u xmppd \<Rightarrow> written list" where
  "out_of j w = conn_out (ss_trans (xd_sess w j))"

lemma conn_write_out: "conn_out (snd (conn_write x c)) = conn_out c \<or> conn_out (snd (conn_write x c)) = conn_out c @ [x]"
  by (simp add: conn_write_def split: option.split nat.split)

lemma send_out: "conn_out (ss_trans (snd (send cx st s))) \<in> {conn_out (ss_trans s), conn_out (ss_trans s) @ [OStanza st]}"
  using conn_write_out [of "OStanza st" "ss_trans s"] by (auto simp: send_def session_Send_def split: option.split prod.split)

lemma out_on_sess [simp]: "j \<noteq> i \<Longrightarrow> out_of j (snd (on_sess i f w)) = out_of j w"
  by (simp add: out_of_def on_sess_def split: prod.split)

lemma out_upd_sess [simp]: "j \<noteq> i \<Longrightarrow> out_of j (upd_sess i f w) = out_of j w"
  by (simp add: out_of_def upd_sess_def)

lemma out_iq_error [simp]: "j \<noteq> i \<Longrightarrow> out_of j (snd (iq_error E iq t c x i w)) = out_of j w"
  by (simp add: iq_error_def)

lemma out_deliver:
  "out_of j (deliver E st once src dsts w) \<noteq> out_of j w \<Longrightarrow>
     j \<in> set dsts \<and> (\<exists>xs. out_of j (deliver E st once src dsts w) = out_of j w @ xs \<and> set xs \<subseteq> {OStanza st})"
proof (induction dsts arbitrary: w)
  case (Cons d dsts)
  let ?w = "snd (on_sess d (send (xe_ctx E) st) w)"
  have step: "\<exists>xs. out_of j ?w = out_of j w @ xs \<and> set xs \<subseteq> {OStanza st} \<and> (j \<noteq> d \<longrightarrow> xs = [])"
    using send_out [of "xe_ctx E" st "xd_sess w d"] by (cases "j = d") (auto simp: out_of_def on_sess_def split: prod.split)
  consider "d = src" | "d \<noteq> src" "once" | "d \<noteq> src" "\<not> once" by blast
  then show ?case
  proof cases
    case 1
    then show ?thesis using Cons.IH [of w] Cons.prems by auto
  next
    case 2
    then show ?thesis using Cons.prems step by (auto simp: Let_def)
  next
    case 3
    then have d: "deliver E st once src (d # dsts) w = deliver E st once src dsts ?w" by (simp add: Let_def)
    from step obtain xs where xs: "out_of j ?w = out_of j w @ xs" "set xs \<subseteq> {OStanza st}" "j \<noteq> d \<longrightarrow> xs = []" by blast
    show ?thesis
    proof (cases "out_of j (deliver E st once src dsts ?w) = out_of j ?w")
      case True
      then show ?thesis using xs d Cons.prems by auto
    next
      case False
      from Cons.IH [OF this] xs show ?thesis unfolding d by auto
    qed
  qed
qed simp

text \<open>The stanza that is passed on: the client's own, with its address filled in when it gave none.\<close>

fun addressed :: "JID \<Rightarrow> Stanza \<Rightarrow> Stanza" where
  "addressed j (SMessage m) = SMessage (m\<lparr>msg_Header := with_from j (msg_Header m)\<rparr>)"
| "addressed j (SPresence p) = SPresence (p\<lparr>pres_Header := with_from j (pres_Header p)\<rparr>)"
| "addressed j (SIQ q) = SIQ (q\<lparr>iq_Header := with_from j (iq_Header q)\<rparr>)"

fun stanza_of :: "xevent \<Rightarrow> Stanza option" where
  "stanza_of (ElMessage (Inr m)) = Some (SMessage m)"
| "stanza_of (ElPresence (Inr p)) = Some (SPresence p)"
| "stanza_of (ElIQ (Inr q)) = Some (SIQ q)"
| "stanza_of _ = None"

lemma with_from_To [simp]: "hdr_To (with_from j h) = hdr_To h"
  by (simp add: with_from_def)

definition routed :: "'u xenv \<Rightarrow> nat \<Rightarrow> nat \<Rightarrow> Stanza \<Rightarrow> 'u xmppd \<Rightarrow> 'u xmppd \<Rightarrow> bool" where
  "routed E i j st w w' \<longleftrightarrow>
     has_flag (xstate i w) StateReady \<and> j \<in> set (xtargets E (hdr_To (GetHeader st)) w) \<and>
     (\<exists>xs. out_of j w' = out_of j w @ xs \<and> set xs \<subseteq> {OStanza (addressed (ss_remoteJID (xd_sess w i)) st)})"

lemma out_handleBindIQ [simp]: "j \<noteq> i \<Longrightarrow> out_of j (snd (handleBindIQ cfg E iq i w)) = out_of j w"
proof -
  assume "j \<noteq> i"
  moreover have "out_of j (w\<lparr>xd_router := r\<rparr>) = out_of j w" for w :: "'a xmppd" and r by (simp add: out_of_def)
  ultimately show ?thesis
    by (simp add: handleBindIQ_def Let_def split: option.split sum.split)
qed

lemma out_handleIQ:
  assumes "j \<noteq> i" "out_of j (snd (handleIQ cfg E (Inr iq) i w)) \<noteq> out_of j w"
  shows "routed E i j (SIQ iq) w (snd (handleIQ cfg E (Inr iq) i w))"
proof -
  obtain err h s u where r: "reg_Handle (xe_split E) (xe_reg E) (SIQ iq) (xd_reg w i) (xd_sess w i, xd_store w) = (err, h, s, u)"
    by (metis surj_pair)
  let ?w = "w\<lparr>xd_reg := (xd_reg w)(i := h), xd_sess := (xd_sess w)(i := s), xd_store := u\<rparr>"
  have "wrote (xd_sess w i) s" using r reg_Handle_sess [of "(xd_sess w i, xd_store w)"] by (metis fst_conv snd_conv)
  then have st: "xstate i ?w = xstate i w" "ss_remoteJID (xd_sess ?w i) = ss_remoteJID (xd_sess w i)" "xd_router ?w = xd_router w"
    by (auto simp: wrote_def xstate_def)
  have out: "out_of j ?w = out_of j w" using assms(1) by (simp add: out_of_def)
  have bind: "\<not> isBindRequestIQ (xe_unmarshalBind E) iq" using assms by (auto simp: handleIQ_def)
  have "err = None" "has_flag (xstate i ?w) StateReady"
    using assms r bind out st by (auto simp: handleIQ_def Let_def split: option.splits if_splits)
  then have eq: "snd (handleIQ cfg E (Inr iq) i w) = snd (routeIQ E iq i ?w)"
    using r bind by (simp add: handleIQ_def Let_def)
  have ne: "out_of j (snd (routeIQ E iq i ?w)) \<noteq> out_of j ?w" using assms(2) eq out by simp
  let ?to = "hdr_To (iq_Header iq)" and ?iq = "iq\<lparr>iq_Header := with_from (ss_remoteJID (xd_sess ?w i)) (iq_Header iq)\<rparr>"
  have d: "snd (routeIQ E iq i ?w) = deliver E (SIQ ?iq) (jid_IsFull ?to) i (xtargets E ?to ?w) ?w"
    using ne assms(1) by (auto simp: routeIQ_def Let_def split: if_splits)
  have "xtargets E ?to ?w = xtargets E ?to w" by (simp add: xtargets_def)
  with out_deliver [of j E "SIQ ?iq" "jid_IsFull ?to" i "xtargets E ?to ?w" ?w] ne \<open>has_flag (xstate i ?w) StateReady\<close> out st
  show ?thesis unfolding routed_def eq d by auto
qed

text \<open>
  C36: what sessions can make the server send to each other.  If handling an element of one session adds
  anything to the connection of another, then the element is a stanza of a session that is ready, the
  other session is one that the stanza's destination leads to, and what is added is that stanza (with the
  sender's bound address as origin, when the client gave none).  In particular nothing a client sends
  before it is authenticated and bound reaches another client.
\<close>

theorem only_routed_stanzas:
  assumes "serve_element cfg E ev i w = (res, w')" and "j \<noteq> i" and "out_of j w' \<noteq> out_of j w"
  shows "\<exists>st. stanza_of ev = Some st \<and> routed E i j st w w'"
proof -
  have w': "w' = snd (serve_element cfg E ev i w)" using assms(1) by simp
  show ?thesis
  proof (cases ev)
    case StreamStart
    obtain e w1 where o: "on_sess i (writeStreamStart (xc_Domain cfg) (xe_rnd E)) w = (e, w1)" by fastforce
    then have "out_of j w1 = out_of j w" using out_on_sess [OF assms(2)] by (metis snd_conv)
    then have "out_of j (snd (answer_stream cfg E i w)) = out_of j w"
      using assms(2) by (simp add: answer_stream_def o split: option.split)
    with StreamStart w' assms(3) show ?thesis by simp
  next
    case (ElStartTLS skip)
    obtain e w1 where o: "on_sess i (sendElement (xe_ctx E) OProceed) w = (e, w1)" by fastforce
    then have "out_of j w1 = out_of j w" using out_on_sess [OF assms(2)] by (metis snd_conv)
    then have "out_of j (snd (handleStartTLS cfg E skip i w)) = out_of j w"
      using assms(2) by (simp add: handleStartTLS_def o split: option.split)
    with ElStartTLS w' assms(3) show ?thesis by simp
  next
    case (ElAuth skip auth)
    have "out_of j (w\<lparr>xd_user := x\<rparr>) = out_of j w" for x by (simp add: out_of_def)
    then have "out_of j (snd (handleSASLAuth cfg E skip auth i w)) = out_of j w"
      using assms(2) by (auto simp: handleSASLAuth_def Let_def split: option.split sum.split prod.split bool.split)
    with ElAuth w' assms(3) show ?thesis by simp
  next
    case (ElMessage dec)
    then obtain m where m: "dec = Inr m" using w' assms(3) by (cases dec) (auto simp: handleMessage_def)
    with ElMessage w' assms(3) have "has_flag (xstate i w) StateReady" and eq: "w' = snd (routeMessage E m i w)"
      by (auto simp: handleMessage_def split: if_splits)
    with m ElMessage assms(3) out_deliver [of j E] show ?thesis
      by (fastforce simp: eq routed_def routeMessage_def Let_def)
  next
    case (ElPresence dec)
    then obtain m where m: "dec = Inr m" using w' assms(3) by (cases dec) (auto simp: handlePresence_def)
    with ElPresence w' assms(3) have "has_flag (xstate i w) StateReady" and eq: "w' = snd (routePresence E m i w)"
      by (auto simp: handlePresence_def split: if_splits)
    with m ElPresence assms(3) out_deliver [of j E] show ?thesis
      by (fastforce simp: eq routed_def routePresence_def Let_def split: if_splits)
  next
    case (ElIQ dec)
    then obtain q where q: "dec = Inr q" using w' assms(3) by (cases dec) (auto simp: handleIQ_def)
    with ElIQ w' assms(2,3) out_handleIQ [of j i cfg E q w] show ?thesis by simp
  qed (use w' assms(3) in simp_all)
qed

definition demo_pair :: "MemStore xmppd" where
  "demo_pair = (xd_init demo_xcfg demo_store)\<lparr>
     xd_sess := (\<lambda>i. (NewSession \<lparr>conn_out = [], conn_budget = None, conn_peer = None\<rparr> [WithState StateReady] :: sess)),
     xd_router := router_register \<lparr>jid_local = ''b'', jid_domain = ''h'', jid_resource = ''1''\<rparr> 1 newSessionRouter\<rparr>"

definition demo_msg :: Message where
  "demo_msg = (NewMessage [] ''chat'')\<lparr>msg_Header := (new_header ''message'' [] ''chat'' zeroJID
     \<lparr>jid_local = ''b'', jid_domain = ''h'', jid_resource = ''1''\<rparr>)\<rparr>"

theorem only_routed_stanzas_witness:
  "routed demo_xenv 0 1 (SMessage demo_msg) demo_pair (snd (serve_element demo_xcfg demo_xenv (ElMessage (Inr demo_msg)) 0 demo_pair))"
proof -
  let ?r = "serve_element demo_xcfg demo_xenv (ElMessage (Inr demo_msg)) 0 demo_pair"
  have t: "xtargets demo_xenv (hdr_To (msg_Header demo_msg)) demo_pair = [1]"
    by (simp add: xtargets_def demo_msg_def new_header_def demo_pair_def targets_def jid_IsZero_def jid_IsFull_def router_register_def
        jid_String_def Let_def)
  have rdy: "has_flag (xstate 0 demo_pair) StateReady"
    by (simp add: has_flag_def xstate_def demo_pair_def NewSession_def WithState_def state_defs)
  have "out_of 1 (snd ?r) = [OStanza (addressed (ss_remoteJID (xd_sess demo_pair 0)) (SMessage demo_msg))]"
    using t rdy
    by (simp add: handleMessage_def routeMessage_def Let_def out_of_def on_sess_def send_def session_Send_def guarded_def xe_ctx_def
        demo_xenv_def demo_env_def) (simp add: demo_pair_def NewSession_def WithState_def conn_write_def)
  moreover have "out_of 1 demo_pair = []" by (simp add: out_of_def demo_pair_def NewSession_def WithState_def)
  ultimately have "out_of 1 (snd ?r) \<noteq> out_of 1 demo_pair" by simp
  from only_routed_stanzas [OF prod.collapse [symmetric] _ this] show ?thesis by (metis option.inject stanza_of.simps(1) zero_neq_one)
qed

text \<open>
  Two observations on the handlers.  A client's own \<open>from\<close> is passed on unchecked; and a registration
  request of a session that is not ready is answered twice: by the registration handler, and with the error
  that every request of such a session gets.
\<close>

lemma from_not_checked:
  "\<not> jid_IsZero (hdr_From (msg_Header m)) \<Longrightarrow> addressed j (SMessage m) = SMessage m"
  by (simp add: with_from_def)

lemma registration_answered_twice:
  assumes "\<not> isBindRequestIQ (xe_unmarshalBind E) iq" and "is_request iq" and "\<not> has_flag (xstate i w) StateReady"
    and "reg_Handle (xe_split E) (xe_reg E) (SIQ iq) (xd_reg w i) (xd_sess w i, xd_store w) = (None, h, s, u)"
    and "xe_ctx E = (None, b)" "conn_budget (ss_trans s) = None" "\<not> ss_closed s"
  shows "out_of i (snd (handleIQ cfg E (Inr iq) i w)) =
    conn_out (ss_trans s) @ [OStanza (SIQ (ErrorIQ iq (NewStanzaError ''auth'' ''not-authorized'' ''authenticate and bind first'')))]"
proof -
  have "wrote (xd_sess w i) s" using assms(4) reg_Handle_sess [of "(xd_sess w i, xd_store w)"] by (metis fst_conv snd_conv)
  then have "ss_state s = xstate i w" by (auto simp: wrote_def xstate_def)
  then show ?thesis
    using assms by (simp add: handleIQ_def Let_def xstate_def iq_error_def on_sess_def send_def session_Send_def guarded_def
        conn_write_def out_of_def)
qed

end
