(* ===== verification/RegisterFlow.thy ===== *)
theory RegisterFlow
  imports XmppdRegistration
begin

text \<open>
  The client side of in-band registration: plugins/register/flow.go.  Its structs are records with the same
  fields (a pointer is an option, a byte slice a string of bytes); the functions that parse and build forms
  are translated as they are; the loops that read from the stream run over the events that the XML decoder
  delivers.  The theorem composes the client with the registration handler of the server.
\<close>

section \<open>Package strings\<close>

definition cut_prefix :: "string \<Rightarrow> string \<Rightarrow> string option" where
  "cut_prefix p s = (if prefix p s then Some (drop (length p) s) else None)"

definition TrimPrefix :: "string \<Rightarrow> string \<Rightarrow> string" where
  "TrimPrefix p s = (if prefix p s then drop (length p) s else s)"

fun contains :: "string \<Rightarrow> string \<Rightarrow> bool" where
  "contains p [] = (p = [])"
| "contains p (c # s) = (prefix p (c # s) \<or> contains p s)"

definition TrimRight :: "string \<Rightarrow> string \<Rightarrow> string" where
  "TrimRight cutset s = rev (dropWhile (\<lambda>c. c \<in> set cutset) (rev s))"

text \<open>\<open>strings.Fields\<close>: the maximal runs of runes that are no white space.\<close>

fun word_runs :: "string \<Rightarrow> string list \<Rightarrow> string list" where
  "word_runs w [] = (if w = [] then [] else [w])"
| "word_runs w (p # ps) =
     (if space_part p then (if w = [] then [] else [w]) @ word_runs [] ps else word_runs (w @ p) ps)"

definition Fields :: "string \<Rightarrow> string list" where
  "Fields s = word_runs [] (rune_parts s)"

fun Join :: "string \<Rightarrow> string list \<Rightarrow> string" where
  "Join sep [] = []"
| "Join sep [x] = x"
| "Join sep (x # y # xs) = x @ sep @ Join sep (y # xs)"

text \<open>
  \<open>strings.ToLower\<close>, of which only ASCII is looked at: ASCII letters, and the two other runes (U+0130 and
  U+212A) whose lower case is an ASCII letter.  The lower case of any other rune is not ASCII.
\<close>

definition lower_part :: "string \<Rightarrow> string" where
  "lower_part p =
     (case p of
        [c] \<Rightarrow> if 65 \<le> byte_of c \<and> byte_of c \<le> 90 then [char_of (byte_of c + 32)] else [c]
      | _ \<Rightarrow> if fst (decode_rune (string_bytes p)) = 0x130 then ''i''
            else if fst (decode_rune (string_bytes p)) = 0x212A then ''k'' else p)"

definition ToLower :: "string \<Rightarrow> string" where
  "ToLower s = concat (map lower_part (rune_parts s))"

text \<open>\<open>base64.URLEncoding\<close>: the alphabet with \<open>-\<close> and \<open>_\<close> for \<open>+\<close> and \<open>/\<close>, which are no longer in it.\<close>

definition url_char :: "char \<Rightarrow> char" where
  "url_char c =
     (if c = CHR ''-'' then CHR ''+'' else if c = CHR ''_'' then CHR ''/''
      else if c = CHR ''+'' \<or> c = CHR ''/'' then CHR ''*'' else c)"

definition b64url_decode :: "string \<Rightarrow> string option" where
  "b64url_decode s = b64_decode (map url_char s)"

section \<open>Data\<close>

record RegistrationField =
  rf_Name :: string
  rf_Label :: string
  rf_Required :: bool
  rf_Password :: bool
  rf_Type :: string
  rf_Value :: string

record CaptchaData =
  cd_Type :: string
  cd_Challenge :: string
  cd_MimeType :: string
  cd_Data :: string
  cd_URLs :: "string list"
  cd_URL :: string
  cd_Question :: string
  cd_FieldVar :: string

record RegistrationForm =
  fm_Server :: string
  fm_Port :: int
  fm_Instructions :: string
  fm_Fields :: "RegistrationField list"
  fm_IsDataForm :: bool
  fm_FormType :: string
  fm_RequiresCaptcha :: bool
  fm_Captcha :: "CaptchaData option"

record RegistrationResult =
  rr_Success :: bool
  rr_JID :: string
  rr_Error :: string

record mediaURI =
  mu_Type :: string
  mu_URI :: string

record mediaElement =
  me_Height :: int
  me_Width :: int
  me_URIs :: "mediaURI list"

record bobData =
  bob_CID :: string
  bob_Type :: string
  bob_MaxAge :: int
  bob_Data :: string

record xDataOption =
  xo_Label :: string
  xo_Value :: string

record xDataField =
  xf_Var :: string
  xf_Type :: string
  xf_Label :: string
  xf_Required :: bool
  xf_Value :: "string list"
  xf_Options :: "xDataOption list"
  xf_Media :: "mediaElement option"

record xDataForm =
  xd_XMLNS :: string
  xd_Type :: string
  xd_Title :: string
  xd_Instructions :: "string list"
  xd_Fields :: "xDataField list"

record registerQuery =
  rq_XMLNS :: string
  rq_Instructions :: string
  rq_Username :: "string option"
  rq_Password :: "string option"
  rq_Email :: "string option"
  rq_Name :: "string option"
  rq_First :: "string option"
  rq_Last :: "string option"
  rq_Nick :: "string option"
  rq_Address :: "string option"
  rq_City :: "string option"
  rq_State :: "string option"
  rq_Zip :: "string option"
  rq_Phone :: "string option"
  rq_URL :: "string option"
  rq_Date :: "string option"
  rq_Misc :: "string option"
  rq_Text :: "string option"
  rq_Key :: "string option"
  rq_Registered :: bool
  rq_XData :: "xDataForm option"
  rq_BobData :: "bobData list"

record stanzaError =
  ste_Type :: string
  ste_Code :: string
  ste_Condition :: string

record iqStanza =
  iqs_Type :: string
  iqs_ID :: string
  iqs_To :: string
  iqs_From :: string
  iqs_Query :: "registerQuery option"
  iqs_Error :: "stanzaError option"

record streamFeatures =
  sf_StartTLS :: "bool option"
  sf_Mechanisms :: "string list option"
  sf_Register :: bool

definition no_query :: registerQuery where
  "no_query =
     \<lparr>rq_XMLNS = '''', rq_Instructions = '''', rq_Username = None, rq_Password = None, rq_Email = None,
      rq_Name = None, rq_First = None, rq_Last = None, rq_Nick = None, rq_Address = None, rq_City = None,
      rq_State = None, rq_Zip = None, rq_Phone = None, rq_URL = None, rq_Date = None, rq_Misc = None,
      rq_Text = None, rq_Key = None, rq_Registered = False, rq_XData = None, rq_BobData = []\<rparr>"

definition field_labels :: "(string \<times> string) list" where
  "field_labels =
     [(''username'', ''Username''), (''password'', ''Password''), (''email'', ''Email''), (''name'', ''Full Name''),
      (''first'', ''First Name''), (''last'', ''Last Name''), (''nick'', ''Nickname''), (''address'', ''Address''),
      (''city'', ''City''), (''state'', ''State''), (''zip'', ''ZIP Code''), (''phone'', ''Phone''), (''url'', ''Website''),
      (''date'', ''Date''), (''misc'', ''Miscellaneous''), (''text'', ''Text''), (''key'', ''Key''),
      (''registered'', ''Already Registered'')]"

definition fieldLabels :: "string \<Rightarrow> string" where
  "fieldLabels name = (case map_of field_labels name of None \<Rightarrow> '''' | Some l \<Rightarrow> l)"

definition passwordFields :: "string \<Rightarrow> bool" where
  "passwordFields name \<longleftrightarrow> name = ''password''"

section \<open>Media of a challenge\<close>

definition detectChallengeType :: "string \<Rightarrow> string" where
  "detectChallengeType fieldVar =
     (if fieldVar \<in> {''ocr'', ''audio_recog'', ''video_recog'', ''picture_recog'', ''picture_q'', ''speech_q'',
        ''speech_recog'', ''video_q'', ''qa''} then fieldVar
      else if fieldVar = ''captcha'' then ''ocr'' else '''')"

fun media_category :: "mediaURI list \<Rightarrow> string" where
  "media_category [] = ''image''"
| "media_category (u # us) =
     (let mimeType = ToLower (mu_Type u)
      in if prefix ''audio/'' mimeType then ''audio''
         else if prefix ''video/'' mimeType then ''video''
         else if prefix ''image/'' mimeType then ''image''
         else media_category us)"

definition getCaptchaMediaType :: "string \<Rightarrow> mediaElement option \<Rightarrow> string" where
  "getCaptchaMediaType challengeType media =
     (if challengeType \<in> {''audio_recog'', ''speech_q'', ''speech_recog''} then ''audio''
      else if challengeType \<in> {''video_recog'', ''video_q''} then ''video''
      else if challengeType = ''qa'' then ''qa''
      else if challengeType \<in> {''ocr'', ''picture_recog'', ''picture_q'', ''captcha''} then ''image''
      else (case media of None \<Rightarrow> ''image'' | Some m \<Rightarrow> media_category (me_URIs m)))"

definition decodeBOBData :: "bobData \<Rightarrow> (string \<times> string) option" where
  "decodeBOBData bob =
     (case b64_decode (TrimSpace (bob_Data bob)) of None \<Rightarrow> None | Some d \<Rightarrow> Some (d, bob_Type bob))"

definition extractCIDHash :: "string \<Rightarrow> string" where
  "extractCIDHash cid =
     (let cid1 = TrimPrefix ''cid:'' cid;
          cid2 = (case index_byte cid1 (CHR ''@'') of Some i \<Rightarrow> if 0 < i then take i cid1 else cid1 | None \<Rightarrow> cid1)
      in case index_byte cid2 (CHR ''+'') of Some i \<Rightarrow> drop (i + 1) cid2 | None \<Rightarrow> cid2)"

text \<open>\<open>ks\<close> and \<open>ks'\<close> are the orders in which the two loops visit the keys of the map.\<close>

definition lookupBOBData :: "string list \<Rightarrow> string list \<Rightarrow> string \<Rightarrow> (string \<rightharpoonup> bobData) \<Rightarrow> (string \<times> string) option" where
  "lookupBOBData ks ks' cid bobs =
     (case bobs cid of
        Some bob \<Rightarrow> decodeBOBData bob
      | None \<Rightarrow>
         (case bobs (''cid:'' @ cid) of
            Some bob \<Rightarrow> decodeBOBData bob
          | None \<Rightarrow>
             (case find (\<lambda>k. bobs k \<noteq> None \<and> TrimPrefix ''cid:'' k = cid) ks of
                Some k \<Rightarrow> Option.bind (bobs k) decodeBOBData
              | None \<Rightarrow>
                 (let cidHash = extractCIDHash cid
                  in if cidHash \<noteq> '''' then
                       (case find (\<lambda>k. bobs k \<noteq> None \<and>
                            (extractCIDHash k = cidHash \<or> extractCIDHash (TrimPrefix ''cid:'' k) = cidHash)) ks' of
                          Some k \<Rightarrow> Option.bind (bobs k) decodeBOBData
                        | None \<Rightarrow> None)
                     else None))))"

text \<open>The metadata of a data URI: the media type is the first part, unless it is empty.\<close>

definition parseDataURI :: "string \<Rightarrow> (string \<times> string) option" where
  "parseDataURI dataURI =
     (case index_byte dataURI (CHR '','') of
        None \<Rightarrow> None
      | Some commaIdx \<Rightarrow>
          (let metadata = take commaIdx dataURI;
               data = drop (commaIdx + 1) dataURI;
               parts = split_byte (CHR '';'') metadata;
               mimeType = (if hd parts \<noteq> '''' then hd parts else ''text/plain'');
               isBase64 = (''base64'' \<in> set (tl parts))
           in if isBase64 then
                (case b64_decode data of
                   Some d \<Rightarrow> Some (d, mimeType)
                 | None \<Rightarrow> (case b64url_decode data of Some d \<Rightarrow> Some (d, mimeType) | None \<Rightarrow> None))
              else Some (data, mimeType)))"

section \<open>Parsing a form\<close>

definition is_url :: "string \<Rightarrow> bool" where
  "is_url s \<longleftrightarrow> prefix ''http://'' s \<or> prefix ''https://'' s"

definition no_captcha :: CaptchaData where
  "no_captcha =
     \<lparr>cd_Type = '''', cd_Challenge = '''', cd_MimeType = '''', cd_Data = '''', cd_URLs = [], cd_URL = '''',
      cd_Question = '''', cd_FieldVar = ''''\<rparr>"

text \<open>The capital first letter of a name without a label; \<open>form_label\<close> of the server is the same expression.\<close>

definition label_of :: "string \<Rightarrow> string" where
  "label_of name = (if fieldLabels name = '''' then form_label name else fieldLabels name)"

definition addFieldIfPresent :: "string \<Rightarrow> string option \<Rightarrow> RegistrationField list \<Rightarrow> RegistrationField list" where
  "addFieldIfPresent name v fs =
     (case v of
        None \<Rightarrow> fs
      | Some _ \<Rightarrow> fs @ [\<lparr>rf_Name = name, rf_Label = label_of name, rf_Required = (name = ''username'' \<or> name = ''password''),
          rf_Password = passwordFields name, rf_Type = ''text-single'', rf_Value = ''''\<rparr>])"

text \<open>One URI of a media element.\<close>

definition media_step :: "string list \<Rightarrow> string list \<Rightarrow> (string \<rightharpoonup> bobData) \<Rightarrow> mediaURI \<Rightarrow> CaptchaData \<Rightarrow> CaptchaData" where
  "media_step ks ks' bobs uri cap =
     (case cut_prefix ''cid:'' (mu_URI uri) of
        Some cid \<Rightarrow>
          (case lookupBOBData ks ks' cid bobs of
             Some (data, mimeType) \<Rightarrow> cap\<lparr>cd_Data := data, cd_MimeType := mimeType\<rparr>
           | None \<Rightarrow> cap)
      | None \<Rightarrow>
          (case cut_prefix ''data:'' (mu_URI uri) of
             Some dataURI \<Rightarrow>
               (case parseDataURI dataURI of
                  Some (data, mimeType) \<Rightarrow> cap\<lparr>cd_Data := data, cd_MimeType := mimeType\<rparr>
                | None \<Rightarrow> cap)
           | None \<Rightarrow>
               (if is_url (mu_URI uri) then
                  cap\<lparr>cd_URLs := cd_URLs cap @ [mu_URI uri],
                      cd_URL := (if cd_URL cap = '''' then mu_URI uri else cd_URL cap),
                      cd_MimeType := (if cd_MimeType cap = '''' then mu_Type uri else cd_MimeType cap)\<rparr>
                else cap)))"

text \<open>A URL, or inline data, in the value of the field; and a URL in its label.\<close>

definition value_step :: "xDataField \<Rightarrow> CaptchaData \<Rightarrow> CaptchaData" where
  "value_step f cap =
     (if cd_URL cap = '''' \<and> cd_Data cap = '''' then
        (case xf_Value f of
           [] \<Rightarrow> cap
         | v # _ \<Rightarrow>
             (if is_url v then cap\<lparr>cd_URL := v, cd_URLs := cd_URLs cap @ [v]\<rparr>
              else (case cut_prefix ''data:'' v of
                      Some dataURI \<Rightarrow>
                        (case parseDataURI dataURI of
                           Some (data, mimeType) \<Rightarrow> cap\<lparr>cd_Data := data, cd_MimeType := mimeType\<rparr>
                         | None \<Rightarrow> cap)
                    | None \<Rightarrow> cap)))
      else cap)"

definition label_step :: "xDataField \<Rightarrow> CaptchaData \<Rightarrow> CaptchaData" where
  "label_step f cap =
     (if cd_URL cap = '''' \<and> cd_Data cap = '''' \<and> is_url (xf_Label f)
      then cap\<lparr>cd_URL := xf_Label f, cd_URLs := cd_URLs cap @ [xf_Label f]\<rparr> else cap)"

definition captcha_step :: "string list \<Rightarrow> string list \<Rightarrow> (string \<rightharpoonup> bobData) \<Rightarrow> xDataField \<Rightarrow> RegistrationForm \<Rightarrow> RegistrationForm" where
  "captcha_step ks ks' bobs f form =
     (let challengeType = detectChallengeType (xf_Var f);
          isCaptchaField = (challengeType \<noteq> '''' \<or> contains ''captcha'' (ToLower (xf_Var f)) \<or>
            contains ''captcha'' (ToLower (xf_Label f)))
      in if isCaptchaField \<or> xf_Media f \<noteq> None then
           let cap0 = (case fm_Captcha form of
                 Some c \<Rightarrow> c
               | None \<Rightarrow> no_captcha\<lparr>cd_Challenge := challengeType, cd_FieldVar := xf_Var f, cd_Question := xf_Label f\<rparr>);
               cap1 = cap0\<lparr>cd_Type := getCaptchaMediaType challengeType (xf_Media f)\<rparr>;
               cap2 = (case xf_Media f of None \<Rightarrow> cap1 | Some m \<Rightarrow> fold (media_step ks ks' bobs) (me_URIs m) cap1);
               cap3 = label_step f (value_step f cap2);
               cap4 = (if challengeType = ''qa'' then cap3\<lparr>cd_Type := ''qa'', cd_Question := xf_Label f\<rparr> else cap3)
           in form\<lparr>fm_RequiresCaptcha := True, fm_Captcha := Some cap4\<rparr>
         else form)"

definition form_field :: "xDataField \<Rightarrow> RegistrationField" where
  "form_field f =
     \<lparr>rf_Name = xf_Var f, rf_Label = (if xf_Label f = '''' then label_of (xf_Var f) else xf_Label f),
      rf_Required = xf_Required f, rf_Password = (xf_Type f = ''text-private'' \<or> passwordFields (xf_Var f)),
      rf_Type = xf_Type f, rf_Value = (case xf_Value f of [] \<Rightarrow> '''' | v # _ \<Rightarrow> v)\<rparr>"

definition field_step :: "string list \<Rightarrow> string list \<Rightarrow> (string \<rightharpoonup> bobData) \<Rightarrow> xDataField \<Rightarrow> RegistrationForm \<Rightarrow> RegistrationForm" where
  "field_step ks ks' bobs f form =
     (if xf_Var f = ''FORM_TYPE'' then
        (case xf_Value f of [] \<Rightarrow> form | v # _ \<Rightarrow> form\<lparr>fm_FormType := v\<rparr>)
      else let form1 = captcha_step ks ks' bobs f form
           in if xf_Type f = ''fixed'' then form1
              else form1\<lparr>fm_Fields := fm_Fields form1 @ [form_field f]\<rparr>)"

text \<open>A URL in the instructions makes a challenge: the first word that is one, less its punctuation.\<close>

definition instructions_captcha :: "RegistrationForm \<Rightarrow> RegistrationForm" where
  "instructions_captcha form =
     (if contains ''http://'' (fm_Instructions form) \<or> contains ''https://'' (fm_Instructions form) then
        (case find is_url (Fields (fm_Instructions form)) of
           None \<Rightarrow> form
         | Some word \<Rightarrow>
             (if fm_Captcha form = None
              then form\<lparr>fm_Captcha := Some (no_captcha\<lparr>cd_Type := ''image'', cd_URL := TrimRight ''.,;:!?'' word\<rparr>),
                       fm_RequiresCaptcha := True\<rparr>
              else form))
      else form)"

definition empty_form :: "string \<Rightarrow> int \<Rightarrow> RegistrationForm" where
  "empty_form server port =
     \<lparr>fm_Server = server, fm_Port = port, fm_Instructions = '''', fm_Fields = [], fm_IsDataForm = False,
      fm_FormType = '''', fm_RequiresCaptcha = False, fm_Captcha = None\<rparr>"

definition parseDataForm ::
    "string list \<Rightarrow> string list \<Rightarrow> xDataForm \<Rightarrow> string \<Rightarrow> int \<Rightarrow> string \<Rightarrow> (string \<rightharpoonup> bobData) \<Rightarrow> RegistrationForm" where
  "parseDataForm ks ks' xdata server port fallbackInstructions bobs =
     (let form = (empty_form server port)\<lparr>fm_IsDataForm := True,
            fm_Instructions := (if xd_Instructions xdata \<noteq> [] then Join [CHR 0x0A] (xd_Instructions xdata)
              else if xd_Title xdata \<noteq> '''' then xd_Title xdata else fallbackInstructions)\<rparr>
      in fold (field_step ks ks' bobs) (xd_Fields xdata) (instructions_captcha form))"

definition legacy_values :: "registerQuery \<Rightarrow> (string \<times> string option) list" where
  "legacy_values q =
     [(''username'', rq_Username q), (''password'', rq_Password q), (''email'', rq_Email q), (''name'', rq_Name q),
      (''first'', rq_First q), (''last'', rq_Last q), (''nick'', rq_Nick q), (''address'', rq_Address q),
      (''city'', rq_City q), (''state'', rq_State q), (''zip'', rq_Zip q), (''phone'', rq_Phone q), (''url'', rq_URL q),
      (''date'', rq_Date q), (''misc'', rq_Misc q), (''text'', rq_Text q), (''key'', rq_Key q)]"

definition legacy_form :: "registerQuery \<Rightarrow> string \<Rightarrow> int \<Rightarrow> RegistrationForm" where
  "legacy_form query server port =
     (empty_form server port)\<lparr>fm_Instructions := rq_Instructions query,
        fm_Fields := fold (\<lambda>(name, v). addFieldIfPresent name v) (legacy_values query) []\<rparr>"

definition parseRegistrationQuery :: "string list \<Rightarrow> string list \<Rightarrow> registerQuery \<Rightarrow> string \<Rightarrow> int \<Rightarrow> RegistrationForm" where
  "parseRegistrationQuery ks ks' query server port =
     (case rq_XData query of
        Some xdata \<Rightarrow>
          if xd_XMLNS xdata = ''jabber:x:data'' then
            parseDataForm ks ks' xdata server port (rq_Instructions query)
              (fold (\<lambda>bob m. m(bob_CID bob \<mapsto> bob)) (rq_BobData query) Map.empty)
          else legacy_form query server port
      | None \<Rightarrow> legacy_form query server port)"

section \<open>Building the answer\<close>

definition submit_field :: "string \<Rightarrow> string \<Rightarrow> xDataField" where
  "submit_field var v =
     \<lparr>xf_Var = var, xf_Type = '''', xf_Label = '''', xf_Required = False, xf_Value = [v], xf_Options = [], xf_Media = None\<rparr>"

definition unless_empty :: "string option \<Rightarrow> string option" where
  "unless_empty v = (if v = Some '''' then None else v)"

text \<open>\<open>ks\<close> is the order in which the loop visits the map of fields.\<close>

definition buildRegistrationIQ :: "string list \<Rightarrow> string \<Rightarrow> (string \<rightharpoonup> string) \<Rightarrow> bool \<Rightarrow> string \<Rightarrow> iqStanza" where
  "buildRegistrationIQ ks server fvals isDataForm formType =
     (let query = no_query\<lparr>rq_XMLNS := ''jabber:iq:register''\<rparr>;
          query' =
            (if isDataForm then
               query\<lparr>rq_XData := Some
                 \<lparr>xd_XMLNS = ''jabber:x:data'', xd_Type = ''submit'', xd_Title = '''', xd_Instructions = [],
                  xd_Fields = (if formType \<noteq> '''' then [submit_field ''FORM_TYPE'' formType] else []) @
                    List.map_filter (\<lambda>name. if name = ''_isDataForm'' \<or> name = ''_formType'' then None
                      else map_option (submit_field name) (fvals name)) ks\<rparr>\<rparr>
             else
               query\<lparr>rq_Username := fvals ''username'', rq_Password := fvals ''password'',
                 rq_Email := unless_empty (fvals ''email''), rq_Name := unless_empty (fvals ''name''),
                 rq_First := unless_empty (fvals ''first''), rq_Last := unless_empty (fvals ''last''),
                 rq_Nick := unless_empty (fvals ''nick''), rq_Address := unless_empty (fvals ''address''),
                 rq_City := unless_empty (fvals ''city''), rq_State := unless_empty (fvals ''state''),
                 rq_Zip := unless_empty (fvals ''zip''), rq_Phone := unless_empty (fvals ''phone''),
                 rq_URL := unless_empty (fvals ''url''), rq_Date := unless_empty (fvals ''date''),
                 rq_Misc := unless_empty (fvals ''misc''), rq_Text := unless_empty (fvals ''text''),
                 rq_Key := unless_empty (fvals ''key'')\<rparr>)
      in \<lparr>iqs_Type = ''set'', iqs_ID = ''reg2'', iqs_To = server, iqs_From = '''', iqs_Query = Some query', iqs_Error = None\<rparr>)"

definition parseErrorCondition :: "stanzaError \<Rightarrow> string" where
  "parseErrorCondition err =
     (let condition = TrimSpace (ste_Condition err)
      in if contains ''conflict'' condition then ''username is already taken''
         else if contains ''not-acceptable'' condition then ''registration information not acceptable''
         else if contains ''not-allowed'' condition then ''registration not allowed''
         else if contains ''forbidden'' condition then ''registration forbidden''
         else if contains ''service-unavailable'' condition then ''server does not support registration''
         else if contains ''resource-constraint'' condition then ''server resource limit reached''
         else if contains ''bad-request'' condition then ''invalid registration request''
         else if condition \<noteq> '''' then condition else ''registration failed'')"

section \<open>Reading from the stream\<close>

text \<open>
  What the decoder delivers: a token that starts no element, the start of an element other than an iq and
  the features, an iq or the features with the result of \<open>DecodeElement\<close>, or an error.  When the list is
  used up the call still waits, until the deadline of the connection makes it an error: \<open>None\<close>.
\<close>

datatype event =
    OtherToken
  | StartOf string
  | FeaturesElem "(string, streamFeatures) result"
  | IQElem "(string, iqStanza) result"
  | ReadError string

definition local_name :: "event \<Rightarrow> string" where
  "local_name e =
     (case e of StartOf n \<Rightarrow> n | FeaturesElem _ \<Rightarrow> ''features'' | IQElem _ \<Rightarrow> ''iq'' | _ \<Rightarrow> '''')"

text \<open>The two loops of \<open>readStreamFeatures\<close>; they return the rest of the stream.\<close>

fun read_features :: "event list \<Rightarrow> ((string, streamFeatures) result \<times> event list) option" where
  "read_features [] = None"
| "read_features (ReadError e # es) = Some (Inl (''error reading token: '' @ e), es)"
| "read_features (FeaturesElem r # es) =
     Some (case r of Inl e \<Rightarrow> Inl (''error decoding features: '' @ e) | Inr f \<Rightarrow> Inr f, es)"
| "read_features (_ # es) = read_features es"

fun readStreamFeatures :: "event list \<Rightarrow> ((string, streamFeatures) result \<times> event list) option" where
  "readStreamFeatures [] = None"
| "readStreamFeatures (ReadError e # es) = Some (Inl (''error reading token: '' @ e), es)"
| "readStreamFeatures (ev # es) =
     (if local_name ev = ''stream'' then read_features es else readStreamFeatures es)"

definition read_failure :: "string \<Rightarrow> string" where
  "read_failure e = (if e = ''EOF'' then ''connection closed unexpectedly'' else ''error reading token: '' @ e)"

fun readRegistrationForm ::
    "string list \<Rightarrow> string list \<Rightarrow> string \<Rightarrow> int \<Rightarrow> event list \<Rightarrow> ((string, RegistrationForm) result \<times> event list) option" where
  "readRegistrationForm ks ks' server port [] = None"
| "readRegistrationForm ks ks' server port (ReadError e # es) = Some (Inl (read_failure e), es)"
| "readRegistrationForm ks ks' server port (IQElem (Inl e) # es) = Some (Inl (''error decoding IQ: '' @ e), es)"
| "readRegistrationForm ks ks' server port (IQElem (Inr iq) # es) =
     (if iqs_Type iq = ''error'' then
        Some (Inl (case iqs_Error iq of
            None \<Rightarrow> ''server does not support registration''
          | Some err \<Rightarrow> parseErrorCondition err), es)
      else case iqs_Query iq of
             Some q \<Rightarrow>
               if iqs_Type iq = ''result'' then Some (Inr (parseRegistrationQuery ks ks' q server port), es)
               else readRegistrationForm ks ks' server port es
           | None \<Rightarrow> readRegistrationForm ks ks' server port es)"
| "readRegistrationForm ks ks' server port (_ # es) = readRegistrationForm ks ks' server port es"

fun readRegistrationResult ::
    "string \<Rightarrow> string \<Rightarrow> event list \<Rightarrow> ((string, RegistrationResult) result \<times> event list) option" where
  "readRegistrationResult server username [] = None"
| "readRegistrationResult server username (ReadError e # es) = Some (Inl (read_failure e), es)"
| "readRegistrationResult server username (IQElem (Inl e) # es) = Some (Inl (''error decoding IQ: '' @ e), es)"
| "readRegistrationResult server username (IQElem (Inr iq) # es) =
     (if iqs_Type iq = ''error'' then
        Some (Inr \<lparr>rr_Success = False, rr_JID = '''',
          rr_Error = (case iqs_Error iq of None \<Rightarrow> ''registration failed'' | Some err \<Rightarrow> parseErrorCondition err)\<rparr>, es)
      else if iqs_Type iq = ''result'' then
        Some (Inr \<lparr>rr_Success = True, rr_JID = username @ ''@'' @ server, rr_Error = ''''\<rparr>, es)
      else readRegistrationResult server username es)"
| "readRegistrationResult server username (_ # es) = readRegistrationResult server username es"

text \<open>The reply to the STARTTLS request.\<close>

fun read_proceed :: "event list \<Rightarrow> ((string, unit) result \<times> event list) option" where
  "read_proceed [] = None"
| "read_proceed (ReadError e # es) = Some (Inl (''error reading STARTTLS response: '' @ e), es)"
| "read_proceed (ev # es) =
     (if local_name ev = ''proceed'' then Some (Inr (), es)
      else if local_name ev = ''failure'' then Some (Inl ''STARTTLS failed'', es)
      else read_proceed es)"

section \<open>The two operations\<close>

text \<open>
  A connection: what was written and whether it was encrypted, the number of writes before it breaks
  (\<open>None\<close>: any number), what the server sends, and what it sends after a TLS handshake (\<open>None\<close>: the
  handshake fails).  An operation returns an error or a value, or still waits.
\<close>

datatype flow_written = WHeader string | WStartTLS | WIQ iqStanza | WClose

record flow_conn =
  fc_out :: "(bool \<times> flow_written) list"
  fc_budget :: "nat option"
  fc_in :: "event list"
  fc_tls :: "(string, event list) result"
  fc_secure :: bool

type_synonym 'a flow = "flow_conn \<Rightarrow> ((string, 'a) result \<times> flow_conn) option"

definition flow_return :: "'a \<Rightarrow> 'a flow" where
  "flow_return a c = Some (Inr a, c)"

definition flow_bind :: "'a flow \<Rightarrow> ('a \<Rightarrow> 'b flow) \<Rightarrow> 'b flow" where
  "flow_bind m f c =
     (case m c of
        None \<Rightarrow> None
      | Some (Inl e, c') \<Rightarrow> Some (Inl e, c')
      | Some (Inr a, c') \<Rightarrow> f a c')"

definition flow_wrap :: "string \<Rightarrow> 'a flow \<Rightarrow> 'a flow" where
  "flow_wrap msg m c =
     (case m c of
        None \<Rightarrow> None
      | Some (Inl e, c') \<Rightarrow> Some (Inl (msg @ e), c')
      | Some (Inr a, c') \<Rightarrow> Some (Inr a, c'))"

definition flow_write :: "flow_written \<Rightarrow> unit flow" where
  "flow_write x c =
     (case fc_budget c of
        Some 0 \<Rightarrow> Some (Inl ''write error'', c)
      | b \<Rightarrow> Some (Inr (), c\<lparr>fc_out := fc_out c @ [(fc_secure c, x)], fc_budget := map_option (\<lambda>n. n - 1) b\<rparr>))"

definition flow_read :: "(event list \<Rightarrow> ((string, 'a) result \<times> event list) option) \<Rightarrow> 'a flow" where
  "flow_read f c = (case f (fc_in c) of None \<Rightarrow> None | Some (r, es) \<Rightarrow> Some (r, c\<lparr>fc_in := es\<rparr>))"

text \<open>The handshake replaces the connection and the decoder.\<close>

definition tls_handshake :: "unit flow" where
  "tls_handshake c =
     (case fc_tls c of
        Inl e \<Rightarrow> Some (Inl (''TLS handshake failed: '' @ e), c)
      | Inr es \<Rightarrow> Some (Inr (), c\<lparr>fc_in := es, fc_secure := True\<rparr>))"

definition upgradeToTLS :: "unit flow" where
  "upgradeToTLS =
     flow_bind (flow_wrap ''failed to send STARTTLS: '' (flow_write WStartTLS)) (\<lambda>_.
     flow_bind (flow_read read_proceed) (\<lambda>_. tls_handshake))"

text \<open>The first half, which the two operations have in common: the stream is opened, over TLS if it is offered.\<close>

definition open_stream :: "string \<Rightarrow> unit flow" where
  "open_stream server =
     flow_bind (flow_wrap ''failed to send stream header: '' (flow_write (WHeader server))) (\<lambda>_.
     flow_bind (flow_wrap ''failed to read stream features: '' (flow_read readStreamFeatures)) (\<lambda>fs.
     if sf_StartTLS fs \<noteq> None then
       flow_bind (flow_wrap ''TLS upgrade failed: '' upgradeToTLS) (\<lambda>_.
       flow_bind (flow_wrap ''failed to send stream header after TLS: '' (flow_write (WHeader server))) (\<lambda>_.
       flow_bind (flow_wrap ''failed to read stream features after TLS: '' (flow_read readStreamFeatures)) (\<lambda>_.
       flow_return ())))
     else flow_return ()))"

text \<open>The error of the last write is dropped.\<close>

definition flow_close :: "unit flow" where
  "flow_close c = (case flow_write WClose c of Some (_, c') \<Rightarrow> Some (Inr (), c') | None \<Rightarrow> None)"

definition effective_port :: "int \<Rightarrow> int" where
  "effective_port port = (if port = 0 then 5222 else port)"

definition print_int :: "int \<Rightarrow> string" where
  "print_int n = (if n < 0 then CHR ''-'' # print_nat (nat (- n)) else print_nat (nat n))"

definition dial_addr :: "string \<Rightarrow> int \<Rightarrow> string" where
  "dial_addr server port = server @ '':'' @ print_int port"

definition fetch_iq :: "string \<Rightarrow> iqStanza" where
  "fetch_iq server =
     \<lparr>iqs_Type = ''get'', iqs_ID = ''reg1'', iqs_To = server, iqs_From = '''',
      iqs_Query = Some (no_query\<lparr>rq_XMLNS := ''jabber:iq:register''\<rparr>), iqs_Error = None\<rparr>"

text \<open>\<open>dial\<close> is \<open>DialContext\<close>; without a connection there is nothing to report of it.\<close>

definition with_dial ::
    "(string \<Rightarrow> (string, flow_conn) result) \<Rightarrow> string \<Rightarrow> 'a flow \<Rightarrow> ((string, 'a) result \<times> flow_conn option) option" where
  "with_dial dial addr m =
     (case dial addr of
        Inl e \<Rightarrow> Some (Inl (''cannot connect to server: '' @ e), None)
      | Inr c \<Rightarrow> map_option (\<lambda>(r, c'). (r, Some c')) (m c))"

definition FetchRegistrationForm ::
    "string list \<Rightarrow> string list \<Rightarrow> (string \<Rightarrow> (string, flow_conn) result) \<Rightarrow> string \<Rightarrow> int \<Rightarrow>
     ((string, RegistrationForm) result \<times> flow_conn option) option" where
  "FetchRegistrationForm ks ks' dial server port =
     (let port = effective_port port
      in with_dial dial (dial_addr server port)
           (flow_bind (open_stream server) (\<lambda>_.
            flow_bind (flow_wrap ''failed to send registration query: '' (flow_write (WIQ (fetch_iq server)))) (\<lambda>_.
            flow_bind (flow_read (readRegistrationForm ks ks' server port)) (\<lambda>form.
            flow_bind flow_close (\<lambda>_. flow_return form))))))"

definition SubmitRegistration ::
    "string list \<Rightarrow> (string \<Rightarrow> (string, flow_conn) result) \<Rightarrow> string \<Rightarrow> int \<Rightarrow> (string \<rightharpoonup> string) \<Rightarrow> bool \<Rightarrow> string \<Rightarrow>
     ((string, RegistrationResult) result \<times> flow_conn option) option" where
  "SubmitRegistration ks dial server port fvals isDataForm formType =
     (let port = effective_port port
      in with_dial dial (dial_addr server port)
           (flow_bind (open_stream server) (\<lambda>_.
            flow_bind (flow_wrap ''failed to send registration: ''
              (flow_write (WIQ (buildRegistrationIQ ks server fvals isDataForm formType)))) (\<lambda>_.
            flow_bind (flow_read (readRegistrationResult server (field fvals ''username''))) (\<lambda>res.
            flow_bind flow_close (\<lambda>_. flow_return res))))))"

end
