(* ===== verification/RegisterFlowProps.thy ===== *)
theory RegisterFlowProps
  imports RegisterFlow
begin

text \<open>
  Registration end to end: the client of plugins/register/flow.go against the handler of
  cmd/xmppd/registration.go.  The two sides describe the same XML by different structs; \<open>received\<close>,
  \<open>received_form\<close>, \<open>offered\<close> and \<open>seen\<close> say what one side decodes of what the other has encoded.  In them
  encoding/xml carries texts unchanged, as it does for characters that XML allows; it writes U+FFFD for others.
\<close>

section \<open>What arrives\<close>

definition or_empty :: "string option \<Rightarrow> string" where
  "or_empty v = (case v of None \<Rightarrow> '''' | Some x \<Rightarrow> x)"

text \<open>The server's view of the client's query; \<open>body\<close> is the text inside the query element.\<close>

definition received :: "registerQuery \<Rightarrow> string \<Rightarrow> Query" where
  "received q body =
     \<lparr>q_XMLName = \<lparr>Space = rq_XMLNS q, Local = ''query''\<rparr>, q_Registered = rq_Registered q,
      q_Username = or_empty (rq_Username q), q_Password = or_empty (rq_Password q), q_Email = or_empty (rq_Email q),
      q_Instructions = rq_Instructions q, q_Remove = False, q_Form = Some body\<rparr>"

definition received_field :: "xDataField \<Rightarrow> Field" where
  "received_field f =
     \<lparr>fld_Var = xf_Var f, fld_Type = xf_Type f, fld_Label = xf_Label f, fld_Required = False, fld_Desc = '''',
      fld_Values = xf_Value f, fld_Options = map (\<lambda>o'. \<lparr>opt_Label = xo_Label o', opt_Value = xo_Value o'\<rparr>) (xf_Options f)\<rparr>"

definition received_form :: "xDataForm \<Rightarrow> Form" where
  "received_form x =
     \<lparr>form_Type = xd_Type x, form_Title = xd_Title x, form_Instructions = xd_Instructions x,
      form_Fields = map received_field (xd_Fields x), form_Reported = None, form_Items = []\<rparr>"

text \<open>The client's view of the form the server offers: empty strings are not sent.\<close>

definition unless_blank :: "string \<Rightarrow> string option" where
  "unless_blank s = (if s = '''' then None else Some s)"

definition offered_field :: "Field \<Rightarrow> xDataField" where
  "offered_field f =
     \<lparr>xf_Var = fld_Var f, xf_Type = fld_Type f, xf_Label = fld_Label f, xf_Required = False, xf_Value = fld_Values f,
      xf_Options = map (\<lambda>o'. \<lparr>xo_Label = opt_Label o', xo_Value = opt_Value o'\<rparr>) (fld_Options f), xf_Media = None\<rparr>"

definition offered :: "Query \<Rightarrow> Form option \<Rightarrow> registerQuery" where
  "offered q form =
     no_query\<lparr>rq_XMLNS := ns_Register, rq_Instructions := q_Instructions q, rq_Username := unless_blank (q_Username q),
       rq_Password := unless_blank (q_Password q), rq_Email := unless_blank (q_Email q), rq_Registered := q_Registered q,
       rq_XData := map_option (\<lambda>f. \<lparr>xd_XMLNS = ''jabber:x:data'', xd_Type = form_Type f, xd_Title = form_Title f,
         xd_Instructions = form_Instructions f, xd_Fields = map offered_field (form_Fields f)\<rparr>) form\<rparr>"

text \<open>
  The client's view of a reply.  The condition of an error has the tag \<open>,any\<close>, which takes the text of the
  last child element: the text of the error, or nothing.
\<close>

definition seen_error :: "StanzaError \<Rightarrow> stanzaError" where
  "seen_error e = \<lparr>ste_Type = se_Type e, ste_Code = '''', ste_Condition = se_Text e\<rparr>"

definition seen_iq :: "IQ \<Rightarrow> iqStanza" where
  "seen_iq iq =
     \<lparr>iqs_Type = hdr_Type (iq_Header iq), iqs_ID = hdr_ID (iq_Header iq), iqs_To = '''', iqs_From = '''',
      iqs_Query = None, iqs_Error = map_option seen_error (iq_Error iq)\<rparr>"

definition seen :: "written \<Rightarrow> event" where
  "seen w =
     (case w of
        OStanza (SIQ iq) \<Rightarrow> IQElem (Inr (seen_iq iq))
      | OPayload p \<Rightarrow> IQElem (Inr (seen_iq (ip_IQ p)))
      | _ \<Rightarrow> OtherToken)"

section \<open>The fields\<close>

text \<open>
  The fields of the client that reach the server.  The reserved names are dropped; without a data form only
  the three fields that the server's struct has arrive, and empty ones do not.
\<close>

definition delivered :: "bool \<Rightarrow> string \<Rightarrow> (string \<rightharpoonup> string) \<Rightarrow> (string \<rightharpoonup> string)" where
  "delivered isDataForm formType fvals k =
     (if isDataForm then
        (if k = ''_isDataForm'' \<or> k = ''_formType'' then None
         else case fvals k of Some v \<Rightarrow> Some v | None \<Rightarrow> if k = ''FORM_TYPE'' \<and> formType \<noteq> '''' then Some formType else None)
      else if k \<in> {''username'', ''password'', ''email''} then unless_empty (fvals k) else None)"

lemma form_values_Nil [simp]: "form_values [] m = m"
  by (simp add: form_values_def)

lemma form_values_submit [simp]:
  "form_values (received_field (submit_field k v) # fs) m = form_values fs (m(k \<mapsto> v))"
  by (simp add: form_values_def received_field_def submit_field_def)

lemma form_values_submitted:
  "form_values (map received_field (List.map_filter
       (\<lambda>name. if name = ''_isDataForm'' \<or> name = ''_formType'' then None else map_option (submit_field name) (fvals name)) ks)) m k =
     (if k \<in> set ks \<and> k \<noteq> ''_isDataForm'' \<and> k \<noteq> ''_formType'' \<and> fvals k \<noteq> None then fvals k else m k)"
proof (induction ks arbitrary: m)
  case Nil
  then show ?case by (simp add: List.map_filter_simps)
next
  case (Cons a ks)
  then show ?case by (cases "fvals a") (auto simp: List.map_filter_simps)
qed

lemma extract_delivered:
  assumes "enumerates ks fvals" and "iqs_Query (buildRegistrationIQ ks server fvals isDataForm formType) = Some q"
    and "decodeForm body = map_option received_form (rq_XData q)"
  shows "extractFields decodeForm (received q body) = delivered isDataForm formType fvals"
proof
  fix k
  have ks: "fvals k \<noteq> None \<Longrightarrow> k \<in> set ks" using assms(1) by (auto simp: enumerates_def)
  show "extractFields decodeForm (received q body) k = delivered isDataForm formType fvals k"
  proof (cases isDataForm)
    case True
    let ?fs = "(if formType \<noteq> '''' then [submit_field ''FORM_TYPE'' formType] else []) @ List.map_filter
       (\<lambda>name. if name = ''_isDataForm'' \<or> name = ''_formType'' then None else map_option (submit_field name) (fvals name)) ks"
    have q: "rq_Username q = None" "rq_Password q = None" "rq_Email q = None"
        "map_option (map received_field \<circ> xd_Fields) (rq_XData q) = Some (map received_field ?fs)"
      using True assms(2) by (simp_all add: buildRegistrationIQ_def Let_def no_query_def) (auto)
    then have "extractFields decodeForm (received q body) k = form_values (map received_field ?fs) Map.empty k"
      using assms(3) by (auto simp: extractFields_def received_def or_empty_def received_form_def)
    with True ks show ?thesis
      by (auto simp: form_values_submitted delivered_def split: option.splits)
  next
    case False
    have q: "rq_Username q = fvals ''username''" "rq_Password q = fvals ''password''"
        "rq_Email q = unless_empty (fvals ''email'')" "rq_XData q = None"
      using False assms(2) by (auto simp: buildRegistrationIQ_def Let_def no_query_def)
    then have "extractFields decodeForm (received q body) k =
        (if k = ''email'' then unless_empty (fvals ''email'') else if k = ''password'' then unless_empty (fvals ''password'')
         else if k = ''username'' then unless_empty (fvals ''username'') else None)"
      using assms(3)
      by (cases "fvals ''username''"; cases "fvals ''password''"; cases "fvals ''email''")
        (simp_all add: extractFields_def received_def or_empty_def unless_empty_def)
    with False show ?thesis by (simp add: delivered_def)
  qed
qed

section \<open>The reply\<close>

lemma sendElement_written: "sendElement cx x s = (None, s') \<Longrightarrow> conn_out (ss_trans s') = conn_out (ss_trans s) @ [x]"
  by (auto simp: sendElement_def session_SendElement_def conn_write_def split: option.splits nat.splits)

lemma send_written: "send cx st s = (None, s') \<Longrightarrow> conn_out (ss_trans s') = conn_out (ss_trans s) @ [OStanza st]"
  by (auto simp: send_def session_Send_def conn_write_def split: option.splits nat.splits)

text \<open>The one element a request is answered with: a result or an error.\<close>

definition answers :: "string option \<times> sess \<times> 'u \<Rightarrow> sess \<Rightarrow> IQ \<Rightarrow> bool \<Rightarrow> bool" where
  "answers r s iq ok \<longleftrightarrow>
     (fst r = None \<longrightarrow> (\<exists>w. conn_out (ss_trans (fst (snd r))) = conn_out (ss_trans s) @ [w] \<and>
        (if ok then \<exists>p. w = OPayload p \<and> ip_IQ p = ResultIQ iq else \<exists>e. w = OStanza (SIQ (ErrorIQ iq e)))))"

lemma reject_answers: "answers (reject cx iq typ cond text (s, u)) s iq False"
  by (auto simp: answers_def reject_def dest: send_written split: prod.splits)

lemma reply_answers: "answers (reply cx iq q (s, u)) s iq True"
  by (auto simp: answers_def reply_def dest: sendElement_written split: prod.splits)

text \<open>The client's report on the reply.\<close>

lemma client_reports:
  assumes "answers r s iq ok" and "fst r = None"
  shows "\<exists>w res. conn_out (ss_trans (fst (snd r))) = conn_out (ss_trans s) @ [w] \<and>
    readRegistrationResult server n (seen w # es) = Some (Inr res, es) \<and> rr_Success res = ok \<and>
    (ok \<longrightarrow> rr_JID res = n @ ''@'' @ server)"
  using assms
  by (cases ok)
    (auto simp: answers_def seen_def seen_iq_def ResultIQ_def ErrorIQ_def new_header_def split: if_splits)

lemma create_account_answers:
  "answers (create_account E cfg mem_UserStore iq fvals (s, u)) s iq
    (field fvals ''username'' \<noteq> '''' \<and> field fvals ''password'' \<noteq> '''' \<and>
     mem_accounts u (field fvals ''username'') = None \<and> re_salt E \<noteq> None)"
proof (cases "field fvals ''username'' = '''' \<or> field fvals ''password'' = ''''")
  case True
  then show ?thesis by (auto simp: create_account_def Let_def reject_answers)
next
  case False
  then show ?thesis
    by (cases "users u (field fvals ''username'')"; cases "re_salt E")
      (simp_all add: create_account_def Let_def mem_UserStore_def UserExists_def CreateUser_def mem_accounts_def
        hashPasswordSCRAMSHA256_def reject_answers reply_answers)
qed

section \<open>Registration end to end\<close>

lemma field_delivered:
  "field (delivered isDataForm formType fvals) ''username'' = field fvals ''username''"
  "field (delivered isDataForm formType fvals) ''password'' = field fvals ''password''"
  by (auto simp: field_def delivered_def unless_empty_def split: option.splits)

lemma handleSet_answers:
  assumes "re_users E = Some mem_UserStore" and "\<not> q_Remove q" and "fvals = extractFields (re_decodeForm E) q"
  shows "answers (handleSet E cfg iq q (s, u)) s iq
    (rc_Policy cfg \<noteq> ''closed'' \<and> token_ok cfg fvals = None \<and> field fvals ''username'' \<noteq> '''' \<and>
     field fvals ''password'' \<noteq> '''' \<and> mem_accounts u (field fvals ''username'') = None \<and> re_salt E \<noteq> None)"
proof (cases "rc_Policy cfg \<noteq> ''closed'' \<and> token_ok cfg fvals = None")
  case True
  with assms create_account_answers [of E cfg iq fvals s u] show ?thesis by (simp add: handleSet_def Let_def)
next
  case False
  with assms show ?thesis by (auto simp: handleSet_def Let_def reject_answers split: option.splits)
qed

text \<open>
  The whole handler, on a query of type set: the rate limiter comes first, and a query that it refuses is
  answered with an error and changes nothing but the limiter.
\<close>

definition admitted :: "(string \<Rightarrow> string option) \<Rightarrow> 'u renv \<Rightarrow> registrationHandler \<Rightarrow> sess \<Rightarrow> bool" where
  "admitted splitHostPort E h s \<longleftrightarrow>
     fst (Allow (re_now E) (re_now2 E) (peerKey splitHostPort (conn_peer (ss_trans s))) (rh_rateLimiter h))"

lemma reg_Handle_set:
  assumes "hdr_Type (iq_Header iq) = ''set''" and "iq_Query iq \<noteq> ''''" and "re_decodeQuery E (iq_Query iq) = Some q"
    and "Space (q_XMLName q) = ns_Register" and "reg_Handle sp E (SIQ iq) h (s, u) = (err, h', s', u')"
  shows "(err, s', u') =
    (if admitted sp E h s then handleSet E (rh_cfg h) iq q (s, u)
     else reject (re_ctx E) iq ''wait'' ''resource-constraint'' ''rate limit exceeded'' (s, u))"
  using assms by (auto simp: reg_Handle_def admitted_def Let_def simp del: reject_users split: if_splits prod.splits)

text \<open>
  C39: registration end to end, with the in-memory store.  The client builds its IQ from a map of fields, as a
  data form or in the older format; the server's handler gets an IQ of that type whose payload encoding/xml
  decodes to the values that were encoded (the hypotheses on \<open>re_decodeQuery\<close> and \<open>re_decodeForm\<close>; so it does for
  texts of characters that XML allows, others arrive as U+FFFD).  Then the server extracts exactly the fields
  that can be delivered: with a data form all but the two reserved names, otherwise the user name, the password
  and the e-mail address.  It creates the account if and only if the rate limiter admits the peer, the policy
  and the tokens among these fields allow it, name and password are not empty, the name is free and a salt can
  be drawn; the account then has the password of the map, and no other account changes.  When the reply is
  written it is one element, and the client, reading it, reports success, with the address of the account, if
  and only if the account was created.
\<close>

theorem registration_end_to_end:
  assumes "enumerates ks fvals" and "sent = buildRegistrationIQ ks server fvals isDataForm formType"
    and "iqs_Query sent = Some q"
    and "hdr_Type (iq_Header iq) = iqs_Type sent" and "iq_Query iq \<noteq> ''''"
    and "re_decodeQuery E (iq_Query iq) = Some (received q body)"
    and "re_decodeForm E body = map_option received_form (rq_XData q)"
    and "re_users E = Some mem_UserStore"
    and "reg_Handle splitHostPort E (SIQ iq) h (s, u) = (err, h', s', u')"
  shows "let d = delivered isDataForm formType fvals; n = field fvals ''username''; pw = field fvals ''password'';
      ok = (fst (Allow (re_now E) (re_now2 E) (peerKey splitHostPort (conn_peer (ss_trans s))) (rh_rateLimiter h)) \<and>
        rc_Policy (rh_cfg h) \<noteq> ''closed'' \<and> token_ok (rh_cfg h) d = None \<and> n \<noteq> '''' \<and> pw \<noteq> '''' \<and>
        mem_accounts u n = None \<and> re_salt E \<noteq> None)
    in extractFields (re_decodeForm E) (received q body) = d \<and>
       mem_accounts u' = (if ok then (mem_accounts u)(n \<mapsto> pw) else mem_accounts u) \<and>
       (err = None \<longrightarrow>
          (\<exists>w res. conn_out (ss_trans s') = conn_out (ss_trans s) @ [w] \<and>
             readRegistrationResult server n (seen w # es) = Some (Inr res, es) \<and>
             rr_Success res = ok \<and> (ok \<longrightarrow> rr_JID res = n @ ''@'' @ server)))"
proof -
  let ?d = "delivered isDataForm formType fvals" and ?cfg = "rh_cfg h" and ?a = "admitted splitHostPort E h s"
  have d: "extractFields (re_decodeForm E) (received q body) = ?d"
    using extract_delivered [OF assms(1) assms(3) [unfolded assms(2)], of "re_decodeForm E" body] assms(7) by simp
  have r: "\<not> q_Remove (received q body)" by (simp add: received_def)
  have "hdr_Type (iq_Header iq) = ''set''" "Space (q_XMLName (received q body)) = ns_Register"
    using assms(2-4) by (auto simp: buildRegistrationIQ_def Let_def no_query_def received_def ns_Register_def)
  note h = reg_Handle_set [OF this(1) assms(5,6) this(2) assms(9)]
  let ?ok = "rc_Policy ?cfg \<noteq> ''closed'' \<and> token_ok ?cfg ?d = None \<and> field ?d ''username'' \<noteq> '''' \<and>
     field ?d ''password'' \<noteq> '''' \<and> mem_accounts u (field ?d ''username'') = None \<and> re_salt E \<noteq> None"
  have "answers (err, s', u') s iq (?a \<and> ?ok)"
  proof (cases ?a)
    case True
    with h handleSet_answers [OF assms(8) r d [symmetric], of ?cfg iq s u] show ?thesis by simp
  next
    case False
    with h reject_answers [of "re_ctx E" iq "''wait''" "''resource-constraint''" "''rate limit exceeded''" s u]
    show ?thesis by simp
  qed
  note rep = client_reports [OF this [unfolded field_delivered], of server "field fvals ''username''" es]
  have "mem_accounts u' = (if ?a \<and> ?ok then (mem_accounts u)(field ?d ''username'' \<mapsto> field ?d ''password'') else mem_accounts u)"
  proof (cases ?a)
    case True
    with h have "u' = snd (snd (handleSet E ?cfg iq (received q body) (s, u)))" by (metis snd_conv)
    then show ?thesis
      using True mem_users.handleSet_accounts [OF assms(8), of ?cfg iq "received q body" s u] r d by (auto simp: Let_def)
  next
    case False
    with h have "u' = u" by (metis reject_users snd_conv)
    with False show ?thesis by simp
  qed
  with d rep show ?thesis unfolding Let_def field_delivered admitted_def by auto
qed

definition demo_fields :: "string \<rightharpoonup> string" where
  "demo_fields = [''username'' \<mapsto> ''alice'', ''password'' \<mapsto> ''secret'', ''invite'' \<mapsto> ''t1'']"

definition demo_reg_query :: registerQuery where
  "demo_reg_query =
     the (iqs_Query (buildRegistrationIQ [''username'', ''password'', ''invite''] ''h'' demo_fields True ''''))"

theorem registration_end_to_end_witness:
  "\<exists>err h' s' u'. reg_Handle (\<lambda>_. None)
      (demo_env\<lparr>re_decodeQuery := \<lambda>_. Some (received demo_reg_query ''<x/>''),
        re_decodeForm := \<lambda>_. map_option received_form (rq_XData demo_reg_query)\<rparr>) (SIQ demo_iq)
      (newRegistrationHandler (demo_cfg\<lparr>rc_Policy := ''invite'', rc_Invites := [''t1'']\<rparr>)) (demo_sess, NewStore) =
      (err, h', s', u') \<and> mem_accounts u' = [''alice'' \<mapsto> ''secret'']"
proof -
  let ?E = "demo_env\<lparr>re_decodeQuery := \<lambda>_. Some (received demo_reg_query ''<x/>''),
        re_decodeForm := \<lambda>_. map_option received_form (rq_XData demo_reg_query)\<rparr>"
  let ?cfg = "demo_cfg\<lparr>rc_Policy := ''invite'', rc_Invites := [''t1'']\<rparr>"
  obtain err h' s' u' where r: "reg_Handle (\<lambda>_. None) ?E (SIQ demo_iq) (newRegistrationHandler ?cfg) (demo_sess, NewStore) = (err, h', s', u')"
    by (metis prod.collapse)
  have e: "enumerates [''username'', ''password'', ''invite''] demo_fields"
    by (auto simp: enumerates_def demo_fields_def)
  let ?iq = "buildRegistrationIQ [''username'', ''password'', ''invite''] ''h'' demo_fields True ''''"
  have q: "iqs_Query ?iq = Some demo_reg_query" "iqs_Type ?iq = ''set''"
    by (simp_all add: demo_reg_query_def buildRegistrationIQ_def Let_def)
  have i: "hdr_Type (iq_Header demo_iq) = iqs_Type ?iq" "iq_Query demo_iq \<noteq> ''''"
    by (simp_all add: q(2) demo_iq_def NewIQ_def new_header_def)
  have n: "mem_accounts NewStore = Map.empty" by (simp add: mem_accounts_def NewStore_def fun_eq_iff)
  have t: "token_ok ?cfg (delivered True '''' demo_fields) = None"
    by (simp add: token_ok_def demo_cfg_def isTokenAllowed_def field_def delivered_def demo_fields_def)
  have "mem_accounts u' = [''alice'' \<mapsto> ''secret'']"
    using registration_end_to_end [OF e refl q(1) i _ _ _ r] t n
    by (simp add: Let_def demo_env_def demo_cfg_def field_def demo_fields_def newRegistrationHandler_def newRateLimiter_def Allow_def)
  with r show ?thesis by blast
qed

section \<open>The form\<close>

text \<open>
  With a data form the client is shown the configured fields, and the token the policy asks for; without
  one it is shown no field at all, because the server's struct leaves empty elements out.
\<close>

lemma field_step_offered:
  assumes "fld_Var f \<noteq> ''FORM_TYPE''" and "fld_Type f \<noteq> ''fixed''"
  shows "map rf_Name (fm_Fields (field_step ks ks' bobs (offered_field f) form)) = map rf_Name (fm_Fields form) @ [fld_Var f]"
  using assms by (simp add: field_step_def Let_def captcha_step_def offered_field_def form_field_def)

lemma fold_offered:
  "\<forall>f \<in> set fs. fld_Var f \<noteq> ''FORM_TYPE'' \<and> fld_Type f \<noteq> ''fixed'' \<Longrightarrow>
     map rf_Name (fm_Fields (fold (field_step ks ks' bobs) (map offered_field fs) form)) =
       map rf_Name (fm_Fields form) @ map fld_Var fs"
  by (induction fs arbitrary: form) (simp_all add: field_step_offered)

lemma form_shown:
  assumes "rc_DataForm cfg" and "''FORM_TYPE'' \<notin> set (rc_Fields cfg)"
  shows "\<exists>F. q_Form (buildForm marshal cfg) = Some (marshal F) \<and>
    map rf_Name (fm_Fields (parseRegistrationQuery ks ks' (offered (buildForm marshal cfg) (Some F)) server port)) =
      filter (\<lambda>f. f \<noteq> '''') (rc_Fields cfg) @ (if rc_Policy cfg = ''invite'' then [''invite''] else []) @
      (if rc_Policy cfg = ''admin'' then [''admin_token''] else [])"
proof -
  let ?fs = "map (\<lambda>f. text_field f (fieldType f) (form_label f)) (filter (\<lambda>f. f \<noteq> '''') (rc_Fields cfg)) @
      (if rc_Policy cfg = ''invite'' then [text_field ''invite'' ''text-single'' ''Invite Token''] else []) @
      (if rc_Policy cfg = ''admin'' then [text_field ''admin_token'' ''text-private'' ''Admin Token''] else [])"
  let ?F = "(NewForm ''form'' ''Account Registration'')\<lparr>form_Fields := ?fs\<rparr>"
  have F: "q_Form (buildForm marshal cfg) = Some (marshal ?F)"
    using assms(1) by (simp add: buildForm_def Let_def)
  have fs: "\<forall>f \<in> set ?fs. fld_Var f \<noteq> ''FORM_TYPE'' \<and> fld_Type f \<noteq> ''fixed''"
    using assms(2) by (auto simp: text_field_def fieldType_def split: if_splits)
  have "fm_Fields (instructions_captcha form) = fm_Fields form" for form
    by (simp add: instructions_captcha_def split: option.split)
  then have "map rf_Name (fm_Fields (parseRegistrationQuery ks ks' (offered (buildForm marshal cfg) (Some ?F)) server port)) =
      map fld_Var ?fs"
    using fold_offered [OF fs]
    by (simp add: parseRegistrationQuery_def offered_def parseDataForm_def Let_def empty_form_def)
  then show ?thesis using F by (intro exI [of _ ?F] conjI) (simp_all add: text_field_def comp_def)
qed

lemma legacy_form_empty:
  "\<not> rc_DataForm cfg \<Longrightarrow>
     fm_Fields (parseRegistrationQuery ks ks' (offered (buildForm marshal cfg) None) server port) = []"
  by (simp add: buildForm_def Let_def parseRegistrationQuery_def offered_def no_query_def legacy_form_def legacy_values_def
      addFieldIfPresent_def unless_blank_def)

text \<open>The conditions of errors without a text are not recognised.\<close>

lemma condition_not_seen:
  "readRegistrationResult server n (seen (OStanza (SIQ (ErrorIQ iq (NewStanzaError ''cancel'' ''conflict'' '''')))) # es) =
     Some (Inr \<lparr>rr_Success = False, rr_JID = '''', rr_Error = ''registration failed''\<rparr>, es)"
  by (simp add: seen_def seen_iq_def ErrorIQ_def new_header_def seen_error_def NewStanzaError_def parseErrorCondition_def Let_def)

section \<open>Encryption\<close>

text \<open>The answer, with the password in it, is encrypted exactly if the server offered STARTTLS before encryption.\<close>

definition no_iq :: "flow_conn \<Rightarrow> bool" where
  "no_iq c \<longleftrightarrow> (\<forall>sec iq. (sec, WIQ iq) \<notin> set (fc_out c))"

definition offers_tls :: "event list \<Rightarrow> bool" where
  "offers_tls es \<longleftrightarrow> (case readStreamFeatures es of Some (Inr fs, _) \<Rightarrow> sf_StartTLS fs \<noteq> None | _ \<Rightarrow> False)"

lemma flow_write_cases:
  "flow_write x c = Some r \<Longrightarrow>
     (\<exists>e. r = (Inl e, c)) \<or> (\<exists>b. r = (Inr (), c\<lparr>fc_out := fc_out c @ [(fc_secure c, x)], fc_budget := b\<rparr>))"
  by (cases "fc_budget c") (auto simp: flow_write_def split: nat.splits)

lemma upgradeToTLS_secure:
  assumes "upgradeToTLS c = Some (r, c')" and "no_iq c"
  shows "no_iq c' \<and> (r = Inr () \<longrightarrow> fc_secure c')"
  using assms
  by (auto simp: upgradeToTLS_def flow_bind_def flow_wrap_def flow_read_def tls_handshake_def no_iq_def
      dest!: flow_write_cases split: option.splits sum.splits prod.splits)

lemma open_stream_secure:
  assumes "open_stream server c = Some (r, c')" and "no_iq c"
  shows "no_iq c' \<and> (r = Inr () \<longrightarrow> fc_secure c' = (fc_secure c \<or> offers_tls (fc_in c)))"
proof -
  have "\<exists>p. flow_write (WHeader server) c = Some p" by (auto simp: flow_write_def split: option.split nat.split)
  then obtain x c1 where 1: "flow_write (WHeader server) c = Some (x, c1)" by (metis prod.collapse)
  with assms(2) have c1: "no_iq c1" "fc_secure c1 = fc_secure c" "fc_in c1 = fc_in c"
    using flow_write_cases [of "WHeader server" c] by (auto simp: no_iq_def)
  show ?thesis
  proof (cases "readStreamFeatures (fc_in c)")
    case None
    with 1 c1 assms(1) show ?thesis
      by (auto simp: open_stream_def flow_bind_def flow_wrap_def flow_read_def split: sum.splits)
  next
    case (Some p)
    obtain y es where y: "readStreamFeatures (fc_in c) = Some (y, es)" using Some by (cases p) auto
    have tail: "no_iq c'' \<and> (r = Inr () \<longrightarrow> fc_secure c'')"
      if "(flow_bind (flow_wrap ''TLS upgrade failed: '' upgradeToTLS) (\<lambda>_.
         flow_bind (flow_wrap ''failed to send stream header after TLS: '' (flow_write (WHeader server))) (\<lambda>_.
         flow_bind (flow_wrap ''failed to read stream features after TLS: '' (flow_read readStreamFeatures)) (\<lambda>_.
         flow_return ())))) d = Some (r, c'')" and "no_iq d" for d c''
      using that
      by (auto simp: flow_bind_def flow_wrap_def flow_read_def flow_return_def no_iq_def [of c'']
          dest!: upgradeToTLS_secure flow_write_cases split: option.splits sum.splits prod.splits)
        (auto simp: no_iq_def)
    have "no_iq (c1\<lparr>fc_in := es\<rparr>)" using c1 by (simp add: no_iq_def)
    with 1 c1 y assms(1) tail [of "c1\<lparr>fc_in := es\<rparr>" c'] show ?thesis
      by (auto simp: open_stream_def flow_bind_def [of "flow_wrap ''failed to send stream header: '' _"]
          flow_bind_def [of "flow_wrap ''failed to read stream features: '' _"] flow_wrap_def [of "''failed to send stream header: ''"]
          flow_wrap_def [of "''failed to read stream features: ''"] flow_read_def [of readStreamFeatures] offers_tls_def flow_return_def
          split: sum.splits if_splits)
  qed
qed

lemma submission_encrypted:
  assumes "SubmitRegistration ks dial server port fvals isDataForm formType = Some (r, Some c')"
    and "dial (dial_addr server (effective_port port)) = Inr c" and "fc_out c = []" and "\<not> fc_secure c"
    and "(sec, WIQ iq) \<in> set (fc_out c')"
  shows "sec = offers_tls (fc_in c)"
proof -
  have n: "no_iq c" using assms(3) by (simp add: no_iq_def)
  from assms(1,2) obtain x c1 where o: "open_stream server c = Some (x, c1)"
    by (auto simp: SubmitRegistration_def Let_def with_dial_def flow_bind_def split: option.splits)
  note s = open_stream_secure [OF o n]
  show ?thesis
  proof (cases x)
    case (Inl e)
    with assms(1,2) o have "c' = c1" by (auto simp: SubmitRegistration_def Let_def with_dial_def flow_bind_def)
    with s assms(5) show ?thesis by (auto simp: no_iq_def)
  next
    case (Inr a)
    with s assms(4) have "fc_secure c1 = offers_tls (fc_in c)" "no_iq c1" by auto
    moreover have "\<forall>(b, w) \<in> set (fc_out c'). (b, w) \<in> set (fc_out c1) \<or> b = fc_secure c1"
      using assms(1,2) o Inr
      by (auto simp: SubmitRegistration_def Let_def with_dial_def flow_bind_def flow_wrap_def flow_read_def
          flow_return_def flow_close_def dest!: flow_write_cases split: option.splits sum.splits prod.splits)
    ultimately show ?thesis using assms(5) by (auto simp: no_iq_def)
  qed
qed

end
