(* ===== verification/StoragePlugins.thy ===== *)
theory StoragePlugins
  imports StorageMemory GoText
begin

text \<open>
  The plugins that keep their data in a store when they have one: plugins/roster, plugins/blocking and
  plugins/muc have a map of their own for the case without a store, plugins/bookmarks, vcard, mam and
  pubsub then do nothing.  A store interface is a record of its methods on a state \<open>'s\<close>, \<open>None\<close> a plugin
  without a store; \<open>u\<close> is \<open>LocalJID()\<close>.  The theorem: with the in-memory store the first three answer as
  they do without a store.
\<close>

section \<open>Store interfaces\<close>

record 's roster_store =
  rs_UpsertRosterItem :: "RosterItem \<Rightarrow> 's writer"
  rs_GetRosterItem :: "'s \<Rightarrow> string \<times> string \<Rightarrow> (storage_error, RosterItem) result"
  rs_GetRosterItems :: "string list \<Rightarrow> 's \<Rightarrow> string \<Rightarrow> (storage_error, RosterItem list) result"
  rs_DeleteRosterItem :: "string \<times> string \<Rightarrow> 's writer"
  rs_SetRosterVersion :: "string \<Rightarrow> string \<Rightarrow> 's writer"

record 's blocking_store =
  bs_BlockJID :: "string \<Rightarrow> string \<Rightarrow> 's writer"
  bs_UnblockJID :: "string \<Rightarrow> string \<Rightarrow> 's writer"
  bs_IsBlocked :: "'s \<Rightarrow> string \<Rightarrow> string \<Rightarrow> (storage_error, bool) result"
  bs_GetBlockedJIDs :: "string list \<Rightarrow> 's \<Rightarrow> string \<Rightarrow> (storage_error, string list) result"

record 's muc_store =
  ms_CreateRoom :: "MUCRoom \<Rightarrow> 's writer"
  ms_GetRoom :: "'s \<Rightarrow> string \<Rightarrow> (storage_error, MUCRoom) result"
  ms_UpdateRoom :: "MUCRoom \<Rightarrow> 's writer"
  ms_DeleteRoom :: "string \<Rightarrow> 's writer"
  ms_ListRooms :: "string list \<Rightarrow> 's \<Rightarrow> (storage_error, MUCRoom list) result"

definition mem_roster_store :: "MemStore roster_store" where
  "mem_roster_store =
     \<lparr>rs_UpsertRosterItem = UpsertRosterItem, rs_GetRosterItem = GetRosterItem,
      rs_GetRosterItems = (\<lambda>ks s u. Inr (GetRosterItems ks s u)), rs_DeleteRosterItem = DeleteRosterItem,
      rs_SetRosterVersion = SetRosterVersion\<rparr>"

definition mem_blocking_store :: "MemStore blocking_store" where
  "mem_blocking_store =
     \<lparr>bs_BlockJID = BlockJID, bs_UnblockJID = UnblockJID, bs_IsBlocked = (\<lambda>s u j. Inr (IsBlocked s u j)),
      bs_GetBlockedJIDs = (\<lambda>ks s u. Inr (GetBlockedJIDs ks s u))\<rparr>"

definition mem_muc_store :: "MemStore muc_store" where
  "mem_muc_store =
     \<lparr>ms_CreateRoom = CreateRoom, ms_GetRoom = GetRoom, ms_UpdateRoom = UpdateRoom, ms_DeleteRoom = DeleteRoom,
      ms_ListRooms = (\<lambda>ks s. Inr (ListRooms ks s))\<rparr>"

section \<open>Roster\<close>

record Item =
  it_JID :: string
  it_Name :: string
  it_Subscription :: string
  it_Ask :: string
  it_Groups :: "string list"

record roster_Plugin =
  ro_items :: "string \<rightharpoonup> Item"
  ro_ver :: string

text \<open>\<open>New\<close> and \<open>Initialize\<close> without a store; with one the map stays nil and is never used.\<close>

definition roster_Initialize :: roster_Plugin where
  "roster_Initialize = \<lparr>ro_items = Map.empty, ro_ver = ''''\<rparr>"

definition to_roster_item :: "string \<Rightarrow> Item \<Rightarrow> RosterItem" where
  "to_roster_item u item =
     \<lparr>ri_UserJID = u, ri_ContactJID = it_JID item, ri_Name = it_Name item, ri_Subscription = it_Subscription item,
      ri_Ask = it_Ask item, ri_Groups = it_Groups item\<rparr>"

definition rosterItemToItem :: "RosterItem \<Rightarrow> Item" where
  "rosterItemToItem ri =
     \<lparr>it_JID = ri_ContactJID ri, it_Name = ri_Name ri, it_Subscription = ri_Subscription ri, it_Ask = ri_Ask ri,
      it_Groups = ri_Groups ri\<rparr>"

definition roster_Set :: "'s roster_store option \<Rightarrow> string \<Rightarrow> Item \<Rightarrow> (roster_Plugin \<times> 's) writer" where
  "roster_Set store u item ps =
     (case store of
        Some st \<Rightarrow> (case rs_UpsertRosterItem st (to_roster_item u item) (snd ps) of (s, e) \<Rightarrow> ((fst ps, s), e))
      | None \<Rightarrow> (((fst ps)\<lparr>ro_items := (ro_items (fst ps))(it_JID item \<mapsto> item)\<rparr>, snd ps), None))"

definition roster_Remove :: "'s roster_store option \<Rightarrow> string \<Rightarrow> string \<Rightarrow> (roster_Plugin \<times> 's) writer" where
  "roster_Remove store u jid ps =
     (case store of
        Some st \<Rightarrow> (case rs_DeleteRosterItem st (u, jid) (snd ps) of (s, e) \<Rightarrow> ((fst ps, s), e))
      | None \<Rightarrow> (((fst ps)\<lparr>ro_items := (ro_items (fst ps))(jid := None)\<rparr>, snd ps), None))"

text \<open>The item and whether there is one are an option.\<close>

definition roster_Get :: "'s roster_store option \<Rightarrow> string \<Rightarrow> string \<Rightarrow> roster_Plugin \<times> 's \<Rightarrow> (storage_error, Item option) result" where
  "roster_Get store u jid ps =
     (case store of
        Some st \<Rightarrow>
          (case rs_GetRosterItem st (snd ps) (u, jid) of
             Inl e \<Rightarrow> if e = ErrNotFound then Inr None else Inl e
           | Inr ri \<Rightarrow> Inr (Some (rosterItemToItem ri)))
      | None \<Rightarrow> Inr (ro_items (fst ps) jid))"

definition roster_Items :: "'s roster_store option \<Rightarrow> string \<Rightarrow> string list \<Rightarrow> roster_Plugin \<times> 's \<Rightarrow> (storage_error, Item list) result" where
  "roster_Items store u ks ps =
     (case store of
        Some st \<Rightarrow>
          (case rs_GetRosterItems st ks (snd ps) u of
             Inl e \<Rightarrow> Inl e
           | Inr ris \<Rightarrow> Inr (map rosterItemToItem ris))
      | None \<Rightarrow> Inr (range_values ks (ro_items (fst ps))))"

definition roster_SetVersion :: "'s roster_store option \<Rightarrow> string \<Rightarrow> string \<Rightarrow> (roster_Plugin \<times> 's) writer" where
  "roster_SetVersion store u ver ps =
     (case store of
        Some st \<Rightarrow> (case rs_SetRosterVersion st u ver (snd ps) of (s, e) \<Rightarrow> ((fst ps, s), e))
      | None \<Rightarrow> (((fst ps)\<lparr>ro_ver := ver\<rparr>, snd ps), None))"

section \<open>Blocking\<close>

type_synonym blocking_Plugin = "string \<rightharpoonup> bool"

definition blocking_IsBlocked :: "'s blocking_store option \<Rightarrow> string \<Rightarrow> string \<Rightarrow> blocking_Plugin \<times> 's \<Rightarrow> (storage_error, bool) result" where
  "blocking_IsBlocked store u jid ps =
     (case store of
        Some st \<Rightarrow> bs_IsBlocked st (snd ps) u jid
      | None \<Rightarrow> Inr (case fst ps jid of None \<Rightarrow> False | Some b \<Rightarrow> b))"

definition blocking_BlockJID :: "'s blocking_store option \<Rightarrow> string \<Rightarrow> string \<Rightarrow> (blocking_Plugin \<times> 's) writer" where
  "blocking_BlockJID store u jid ps =
     (case store of
        Some st \<Rightarrow> (case bs_BlockJID st u jid (snd ps) of (s, e) \<Rightarrow> ((fst ps, s), e))
      | None \<Rightarrow> (((fst ps)(jid \<mapsto> True), snd ps), None))"

definition blocking_UnblockJID :: "'s blocking_store option \<Rightarrow> string \<Rightarrow> string \<Rightarrow> (blocking_Plugin \<times> 's) writer" where
  "blocking_UnblockJID store u jid ps =
     (case store of
        Some st \<Rightarrow> (case bs_UnblockJID st u jid (snd ps) of (s, e) \<Rightarrow> ((fst ps, s), e))
      | None \<Rightarrow> (((fst ps)(jid := None), snd ps), None))"

definition blocking_BlockedList :: "'s blocking_store option \<Rightarrow> string \<Rightarrow> string list \<Rightarrow> blocking_Plugin \<times> 's \<Rightarrow> (storage_error, string list) result" where
  "blocking_BlockedList store u ks ps =
     (case store of
        Some st \<Rightarrow> bs_GetBlockedJIDs st ks (snd ps) u
      | None \<Rightarrow> Inr (filter (\<lambda>jid. fst ps jid \<noteq> None) ks))"

section \<open>Multi-user chat\<close>

record Room =
  rm_JID :: string
  rm_Nick :: string
  rm_Joined :: bool

type_synonym muc_Plugin = "string \<rightharpoonup> Room"

definition new_room :: "string \<Rightarrow> string \<Rightarrow> MUCRoom" where
  "new_room roomJID nick =
     \<lparr>room_RoomJID = roomJID, room_Name = nick, room_Description = '''', room_Subject = '''', room_Password = '''',
      room_Public = False, room_Persistent = False, room_MaxUsers = 0\<rparr>"

definition muc_JoinRoom :: "'s muc_store option \<Rightarrow> string \<Rightarrow> string \<Rightarrow> (muc_Plugin \<times> 's) writer" where
  "muc_JoinRoom store roomJID nick ps =
     (case store of
        Some st \<Rightarrow>
          (case ms_GetRoom st (snd ps) roomJID of
             Inl e \<Rightarrow>
               (if e = ErrNotFound
                then (case ms_CreateRoom st (new_room roomJID nick) (snd ps) of (s, e) \<Rightarrow> ((fst ps, s), e))
                else (ps, Some e))
           | Inr room \<Rightarrow> (case ms_UpdateRoom st (room\<lparr>room_Name := nick\<rparr>) (snd ps) of (s, e) \<Rightarrow> ((fst ps, s), e)))
      | None \<Rightarrow> (((fst ps)(roomJID \<mapsto> \<lparr>rm_JID = roomJID, rm_Nick = nick, rm_Joined = True\<rparr>), snd ps), None))"

definition muc_LeaveRoom :: "'s muc_store option \<Rightarrow> string \<Rightarrow> (muc_Plugin \<times> 's) writer" where
  "muc_LeaveRoom store roomJID ps =
     (case store of
        Some st \<Rightarrow> (case ms_DeleteRoom st roomJID (snd ps) of (s, e) \<Rightarrow> ((fst ps, s), e))
      | None \<Rightarrow> (((fst ps)(roomJID := None), snd ps), None))"

definition joined_room :: "MUCRoom \<Rightarrow> Room" where
  "joined_room room = \<lparr>rm_JID = room_RoomJID room, rm_Nick = room_Name room, rm_Joined = True\<rparr>"

definition muc_GetRoom :: "'s muc_store option \<Rightarrow> string \<Rightarrow> muc_Plugin \<times> 's \<Rightarrow> (storage_error, Room option) result" where
  "muc_GetRoom store roomJID ps =
     (case store of
        Some st \<Rightarrow>
          (case ms_GetRoom st (snd ps) roomJID of
             Inl e \<Rightarrow> if e = ErrNotFound then Inr None else Inl e
           | Inr room \<Rightarrow> Inr (Some (joined_room room)))
      | None \<Rightarrow> Inr (fst ps roomJID))"

definition muc_Rooms :: "'s muc_store option \<Rightarrow> string list \<Rightarrow> muc_Plugin \<times> 's \<Rightarrow> (storage_error, Room list) result" where
  "muc_Rooms store ks ps =
     (case store of
        Some st \<Rightarrow> (case ms_ListRooms st ks (snd ps) of Inl e \<Rightarrow> Inl e | Inr rooms \<Rightarrow> Inr (map joined_room rooms))
      | None \<Rightarrow> Inr (range_values ks (fst ps)))"

section \<open>Pass-through plugins\<close>

text \<open>Without a store writing does nothing and reading returns nil.\<close>

definition to_store :: "'w option \<Rightarrow> ('w \<Rightarrow> 's writer) \<Rightarrow> 's writer" where
  "to_store store f s = (case store of None \<Rightarrow> (s, None) | Some st \<Rightarrow> f st s)"

definition from_store :: "'w option \<Rightarrow> ('w \<Rightarrow> (storage_error, 'v) result) \<Rightarrow> (storage_error, 'v option) result" where
  "from_store store f =
     (case store of None \<Rightarrow> Inr None | Some st \<Rightarrow> (case f st of Inl e \<Rightarrow> Inl e | Inr v \<Rightarrow> Inr (Some v)))"

record 's bookmark_store =
  bk_SetBookmark :: "Bookmark \<Rightarrow> 's writer"
  bk_GetBookmark :: "'s \<Rightarrow> string \<times> string \<Rightarrow> (storage_error, Bookmark) result"
  bk_GetBookmarks :: "string list \<Rightarrow> 's \<Rightarrow> string \<Rightarrow> (storage_error, Bookmark list) result"
  bk_DeleteBookmark :: "string \<times> string \<Rightarrow> 's writer"

definition bookmarks_Set :: "'s bookmark_store option \<Rightarrow> Bookmark \<Rightarrow> 's writer" where
  "bookmarks_Set store bm = to_store store (\<lambda>st. bk_SetBookmark st bm)"

definition bookmarks_Get :: "'s bookmark_store option \<Rightarrow> string \<Rightarrow> string \<Rightarrow> 's \<Rightarrow> (storage_error, Bookmark option) result" where
  "bookmarks_Get store userJID roomJID s = from_store store (\<lambda>st. bk_GetBookmark st s (userJID, roomJID))"

definition bookmarks_List :: "'s bookmark_store option \<Rightarrow> string list \<Rightarrow> string \<Rightarrow> 's \<Rightarrow> (storage_error, Bookmark list option) result" where
  "bookmarks_List store ks userJID s = from_store store (\<lambda>st. bk_GetBookmarks st ks s userJID)"

definition bookmarks_Delete :: "'s bookmark_store option \<Rightarrow> string \<Rightarrow> string \<Rightarrow> 's writer" where
  "bookmarks_Delete store userJID roomJID = to_store store (\<lambda>st. bk_DeleteBookmark st (userJID, roomJID))"

record 's vcard_store =
  vs_GetVCard :: "'s \<Rightarrow> string \<Rightarrow> (storage_error, bytes) result"
  vs_SetVCard :: "string \<Rightarrow> bytes \<Rightarrow> 's writer"
  vs_DeleteVCard :: "string \<Rightarrow> 's writer"

definition vcard_GetVCard :: "'s vcard_store option \<Rightarrow> string \<Rightarrow> 's \<Rightarrow> (storage_error, bytes option) result" where
  "vcard_GetVCard store userJID s = from_store store (\<lambda>st. vs_GetVCard st s userJID)"

definition vcard_SetVCard :: "'s vcard_store option \<Rightarrow> string \<Rightarrow> bytes \<Rightarrow> 's writer" where
  "vcard_SetVCard store userJID data = to_store store (\<lambda>st. vs_SetVCard st userJID data)"

definition vcard_DeleteVCard :: "'s vcard_store option \<Rightarrow> string \<Rightarrow> 's writer" where
  "vcard_DeleteVCard store userJID = to_store store (\<lambda>st. vs_DeleteVCard st userJID)"

record 's mam_store =
  as_ArchiveMessage :: "gotime \<Rightarrow> ArchivedMessage \<Rightarrow> 's writer"
  as_QueryMessages :: "'s \<Rightarrow> MAMQuery \<Rightarrow> (storage_error, MAMResult) result"

definition mam_StoreMessage :: "'s mam_store option \<Rightarrow> gotime \<Rightarrow> ArchivedMessage \<Rightarrow> 's writer" where
  "mam_StoreMessage store now msg = to_store store (\<lambda>st. as_ArchiveMessage st now msg)"

definition mam_QueryMessages :: "'s mam_store option \<Rightarrow> MAMQuery \<Rightarrow> 's \<Rightarrow> (storage_error, MAMResult) result" where
  "mam_QueryMessages store query s =
     (case store of
        None \<Rightarrow> Inr \<lparr>mr_Messages = [], mr_Complete = True, mr_First = '''', mr_Last = '''', mr_Count = 0\<rparr>
      | Some st \<Rightarrow> as_QueryMessages st s query)"

record 's pubsub_store =
  ps_CreateNode :: "PubSubNode \<Rightarrow> 's writer"
  ps_GetNode :: "'s \<Rightarrow> string \<times> string \<Rightarrow> (storage_error, PubSubNode) result"
  ps_DeleteNode :: "string \<times> string \<Rightarrow> 's writer"
  ps_ListNodes :: "string list \<Rightarrow> 's \<Rightarrow> string \<Rightarrow> (storage_error, PubSubNode list) result"
  ps_UpsertItem :: "gotime \<Rightarrow> PubSubItem \<Rightarrow> 's writer"
  ps_GetItems :: "string list \<Rightarrow> 's \<Rightarrow> string \<times> string \<Rightarrow> (storage_error, PubSubItem list) result"
  ps_DeleteItem :: "key3 \<Rightarrow> 's writer"
  ps_Subscribe :: "PubSubSubscription \<Rightarrow> 's writer"
  ps_Unsubscribe :: "key3 \<Rightarrow> 's writer"
  ps_GetSubscriptions :: "string list \<Rightarrow> 's \<Rightarrow> string \<times> string \<Rightarrow> (storage_error, PubSubSubscription list) result"

definition pubsub_CreateNode :: "'s pubsub_store option \<Rightarrow> PubSubNode \<Rightarrow> 's writer" where
  "pubsub_CreateNode store node = to_store store (\<lambda>st. ps_CreateNode st node)"

definition pubsub_GetNode :: "'s pubsub_store option \<Rightarrow> string \<Rightarrow> string \<Rightarrow> 's \<Rightarrow> (storage_error, PubSubNode option) result" where
  "pubsub_GetNode store host nodeID s = from_store store (\<lambda>st. ps_GetNode st s (host, nodeID))"

definition pubsub_DeleteNode :: "'s pubsub_store option \<Rightarrow> string \<Rightarrow> string \<Rightarrow> 's writer" where
  "pubsub_DeleteNode store host nodeID = to_store store (\<lambda>st. ps_DeleteNode st (host, nodeID))"

definition pubsub_ListNodes :: "'s pubsub_store option \<Rightarrow> string list \<Rightarrow> string \<Rightarrow> 's \<Rightarrow> (storage_error, PubSubNode list option) result" where
  "pubsub_ListNodes store ks host s = from_store store (\<lambda>st. ps_ListNodes st ks s host)"

definition pubsub_PublishItem :: "'s pubsub_store option \<Rightarrow> gotime \<Rightarrow> PubSubItem \<Rightarrow> 's writer" where
  "pubsub_PublishItem store now item = to_store store (\<lambda>st. ps_UpsertItem st now item)"

definition pubsub_GetItems :: "'s pubsub_store option \<Rightarrow> string list \<Rightarrow> string \<Rightarrow> string \<Rightarrow> 's \<Rightarrow> (storage_error, PubSubItem list option) result" where
  "pubsub_GetItems store ks host nodeID s = from_store store (\<lambda>st. ps_GetItems st ks s (host, nodeID))"

definition pubsub_DeleteItem :: "'s pubsub_store option \<Rightarrow> string \<Rightarrow> string \<Rightarrow> string \<Rightarrow> 's writer" where
  "pubsub_DeleteItem store host nodeID itemID = to_store store (\<lambda>st. ps_DeleteItem st (host, nodeID, itemID))"

definition pubsub_SubscribeNode :: "'s pubsub_store option \<Rightarrow> PubSubSubscription \<Rightarrow> 's writer" where
  "pubsub_SubscribeNode store sub = to_store store (\<lambda>st. ps_Subscribe st sub)"

definition pubsub_UnsubscribeNode :: "'s pubsub_store option \<Rightarrow> string \<Rightarrow> string \<Rightarrow> string \<Rightarrow> 's writer" where
  "pubsub_UnsubscribeNode store host nodeID jid = to_store store (\<lambda>st. ps_Unsubscribe st (host, nodeID, jid))"

definition pubsub_GetSubscriptions ::
    "'s pubsub_store option \<Rightarrow> string list \<Rightarrow> string \<Rightarrow> string \<Rightarrow> 's \<Rightarrow> (storage_error, PubSubSubscription list option) result" where
  "pubsub_GetSubscriptions store ks host nodeID s = from_store store (\<lambda>st. ps_GetSubscriptions st ks s (host, nodeID))"

section \<open>Histories\<close>

text \<open>
  The changes of many users.  With a store they all go to it, and the plugin's own map stays as it was
  made; without one the plugin of a user sees the changes of its user only.
\<close>

datatype roster_op = RSet Item | RRemove string | RVersion string

fun roster_apply :: "'s roster_store option \<Rightarrow> string \<Rightarrow> roster_op \<Rightarrow> (roster_Plugin \<times> 's) writer" where
  "roster_apply store u (RSet item) ps = roster_Set store u item ps"
| "roster_apply store u (RRemove jid) ps = roster_Remove store u jid ps"
| "roster_apply store u (RVersion ver) ps = roster_SetVersion store u ver ps"

fun roster_shared :: "'s roster_store \<Rightarrow> (string \<times> roster_op) list \<Rightarrow> 's \<Rightarrow> 's" where
  "roster_shared st [] s = s"
| "roster_shared st ((v, x) # h) s = roster_shared st h (snd (fst (roster_apply (Some st) v x (roster_Initialize, s))))"

fun roster_private :: "string \<Rightarrow> (string \<times> roster_op) list \<Rightarrow> roster_Plugin \<Rightarrow> roster_Plugin" where
  "roster_private u [] p = p"
| "roster_private u ((v, x) # h) p =
     roster_private u h (if v = u then fst (fst (roster_apply None u x (p, ()))) else p)"

text \<open>The contract the roster plugin relies on: an upsert store, its listing, and that versions are kept apart.\<close>

locale roster_provider =
  upsert_store "rs_GetRosterItem st" "rs_UpsertRosterItem st" "rs_DeleteRosterItem st"
    "\<lambda>i. (ri_UserJID i, ri_ContactJID i)" "\<lambda>i. i" for st :: "'s roster_store" +
  assumes items: "rs_GetRosterItems st ks s u = Inr (range_values ks (\<lambda>c. contents s (u, c)))"
    and set_version: "contents (fst (rs_SetRosterVersion st u v s)) = contents s"
    and del_missing: "contents s k = None \<longleftrightarrow> snd (rs_DeleteRosterItem st k s) = Some ErrNotFound"
    and del_found: "contents s k \<noteq> None \<Longrightarrow> snd (rs_DeleteRosterItem st k s) = None"
begin

definition agrees :: "string \<Rightarrow> roster_Plugin \<Rightarrow> 's \<Rightarrow> bool" where
  "agrees u p s \<longleftrightarrow> (\<forall>jid. ro_items p jid = map_option rosterItemToItem (contents s (u, jid)))"

lemma agrees_step:
  assumes "agrees u p s"
  shows "agrees u (if v = u then fst (fst (roster_apply None u x (p, ()))) else p)
    (snd (fst (roster_apply (Some st) v x (roster_Initialize, s))))"
proof (cases x)
  case (RSet item)
  have "contents (fst (rs_UpsertRosterItem st (to_roster_item v item) s)) =
      (contents s)((v, it_JID item) \<mapsto> to_roster_item v item)"
    by (simp add: contents_put put_ok to_roster_item_def)
  moreover have "rosterItemToItem (to_roster_item v item) = item"
    by (simp add: rosterItemToItem_def to_roster_item_def)
  ultimately show ?thesis
    using assms RSet by (auto simp: agrees_def roster_Set_def split_beta)
next
  case (RRemove jid)
  with assms contents_del [of "(v, jid)" s] show ?thesis
    by (auto simp: agrees_def roster_Remove_def split_beta)
next
  case (RVersion ver)
  with assms set_version [of v ver s] show ?thesis
    by (auto simp: agrees_def roster_SetVersion_def split_beta)
qed

lemma agrees_run: "agrees u p s \<Longrightarrow> agrees u (roster_private u h p) (roster_shared st h s)"
proof (induction h arbitrary: p s)
  case (Cons a h)
  obtain v x where a: "a = (v, x)" by (cases a)
  show ?case using Cons.IH [OF agrees_step [OF Cons.prems, of v x]] a by simp
qed simp

lemma agrees_answers:
  assumes "agrees u p s"
  shows "roster_Get (Some st) u jid (q, s) = roster_Get None u jid (p, ())"
    "roster_Items (Some st) u ks (q, s) = roster_Items None u ks (p, ())"
    "snd (roster_Remove (Some st) u jid (q, s)) =
       (if roster_Get None u jid (p, ()) = Inr None then Some ErrNotFound else None)"
proof -
  have p: "ro_items p = (\<lambda>jid. map_option rosterItemToItem (contents s (u, jid)))"
    using assms by (auto simp: agrees_def)
  show "roster_Get (Some st) u jid (q, s) = roster_Get None u jid (p, ())"
    by (simp add: roster_Get_def p get_contents lookup_result_def split: option.split)
  have "map rosterItemToItem (range_values ks t) = range_values ks (\<lambda>k. map_option rosterItemToItem (t k))" for t :: "string \<Rightarrow> RosterItem option"
    by (induction ks) (simp_all split: option.split)
  then show "roster_Items (Some st) u ks (q, s) = roster_Items None u ks (p, ())"
    by (simp add: roster_Items_def items p)
  show "snd (roster_Remove (Some st) u jid (q, s)) =
       (if roster_Get None u jid (p, ()) = Inr None then Some ErrNotFound else None)"
    using del_missing [of s "(u, jid)"] del_found [of s "(u, jid)"]
    by (cases "contents s (u, jid)") (simp_all add: roster_Remove_def roster_Get_def p split_beta)
qed

end

lemma mem_roster_contents: "roster.contents s k = get2 (rosterItems s) (fst k) (snd k)"
  by (simp add: roster.contents_def GetRosterItem_def split: option.split)

lemma mem_roster_methods:
  "rs_GetRosterItem mem_roster_store = GetRosterItem" "rs_UpsertRosterItem mem_roster_store = UpsertRosterItem"
  "rs_DeleteRosterItem mem_roster_store = DeleteRosterItem" "rs_SetRosterVersion mem_roster_store = SetRosterVersion"
  "rs_GetRosterItems mem_roster_store = (\<lambda>ks s u. Inr (GetRosterItems ks s u))"
  by (simp_all add: mem_roster_store_def)

lemma inner_row: "inner m a = (\<lambda>b. get2 m a b)"
  by (simp add: fun_eq_iff inner_get2)

interpretation mem_roster: roster_provider mem_roster_store
  unfolding roster_provider_def roster_provider_axioms_def mem_roster_methods
proof (intro conjI allI impI)
  show "upsert_store GetRosterItem UpsertRosterItem DeleteRosterItem
      (\<lambda>i. (ri_UserJID i, ri_ContactJID i)) (\<lambda>i. i)"
    by (rule roster.upsert_store_axioms)
  show "roster.contents s k = None \<longleftrightarrow> snd (DeleteRosterItem k s) = Some ErrNotFound" for s k
    by (auto simp: mem_roster_contents DeleteRosterItem_def get2_def split: option.splits)
  show "snd (DeleteRosterItem k s) = None" if "roster.contents s k \<noteq> None" for s k
    using that by (auto simp: mem_roster_contents DeleteRosterItem_def get2_def split: option.splits)
qed (simp_all add: mem_roster_contents [abs_def] GetRosterItems_def inner_row SetRosterVersion_def)

lemma mem_roster_agrees_init: "mem_roster.agrees u roster_Initialize NewStore"
  by (simp add: mem_roster.agrees_def mem_roster_methods mem_roster_contents roster_Initialize_def NewStore_def)

section \<open>Block lists and rooms\<close>

datatype blocking_op = BBlock string | BUnblock string

fun blocking_apply :: "'s blocking_store option \<Rightarrow> string \<Rightarrow> blocking_op \<Rightarrow> (blocking_Plugin \<times> 's) writer" where
  "blocking_apply store u (BBlock jid) ps = blocking_BlockJID store u jid ps"
| "blocking_apply store u (BUnblock jid) ps = blocking_UnblockJID store u jid ps"

fun blocking_shared :: "'s blocking_store \<Rightarrow> (string \<times> blocking_op) list \<Rightarrow> 's \<Rightarrow> 's" where
  "blocking_shared st [] s = s"
| "blocking_shared st ((v, x) # h) s = blocking_shared st h (snd (fst (blocking_apply (Some st) v x (Map.empty, s))))"

fun blocking_private :: "string \<Rightarrow> (string \<times> blocking_op) list \<Rightarrow> blocking_Plugin \<Rightarrow> blocking_Plugin" where
  "blocking_private u [] p = p"
| "blocking_private u ((v, x) # h) p =
     blocking_private u h (if v = u then fst (fst (blocking_apply None u x (p, ()))) else p)"

lemma blocking_run:
  "p = inner (blocked s) u \<Longrightarrow> blocking_private u h p = inner (blocked (blocking_shared mem_blocking_store h s)) u"
proof (induction h arbitrary: p s)
  case (Cons a h)
  obtain v x where a: "a = (v, x)" by (cases a)
  have "(if v = u then fst (fst (blocking_apply None u x (p, ()))) else p) =
      inner (blocked (snd (fst (blocking_apply (Some mem_blocking_store) v x (Map.empty, s))))) u"
    using Cons.prems
    by (cases x)
      (auto simp: inner_row fun_eq_iff blocking_BlockJID_def blocking_UnblockJID_def mem_blocking_store_def BlockJID_def
        UnblockJID_def)
  from Cons.IH [OF this] a show ?case by simp
qed simp

lemma mem_blocking_methods:
  "bs_IsBlocked mem_blocking_store s u j = Inr (IsBlocked s u j)"
  "bs_GetBlockedJIDs mem_blocking_store ks s u = Inr (GetBlockedJIDs ks s u)"
  by (simp_all add: mem_blocking_store_def)

datatype muc_op = MJoin string string | MLeave string

fun muc_apply :: "'s muc_store option \<Rightarrow> muc_op \<Rightarrow> (muc_Plugin \<times> 's) writer" where
  "muc_apply store (MJoin roomJID nick) ps = muc_JoinRoom store roomJID nick ps"
| "muc_apply store (MLeave roomJID) ps = muc_LeaveRoom store roomJID ps"

fun muc_run :: "'s muc_store option \<Rightarrow> muc_op list \<Rightarrow> muc_Plugin \<times> 's \<Rightarrow> muc_Plugin \<times> 's" where
  "muc_run store [] ps = ps"
| "muc_run store (x # h) ps = muc_run store h (fst (muc_apply store x ps))"

text \<open>Rooms are stored under their own address, and the plugin's map shows them.\<close>

definition muc_agrees :: "muc_Plugin \<Rightarrow> MemStore \<Rightarrow> bool" where
  "muc_agrees p s \<longleftrightarrow> p = (\<lambda>j. map_option joined_room (mucRooms s j)) \<and>
     (\<forall>j r. mucRooms s j = Some r \<longrightarrow> room_RoomJID r = j)"

lemma muc_agrees_step:
  assumes "muc_agrees p s"
  shows "muc_agrees (fst (fst (muc_apply None x (p, ())))) (snd (fst (muc_apply (Some mem_muc_store) x (q, s))))"
proof (cases x)
  case (MJoin j nick)
  show ?thesis
    by (cases "mucRooms s j")
      (use assms MJoin in \<open>auto simp: muc_agrees_def muc_JoinRoom_def mem_muc_store_def GetRoom_def CreateRoom_def
        UpdateRoom_def new_room_def joined_room_def\<close>)
next
  case (MLeave j)
  with assms show ?thesis
    by (auto simp: muc_agrees_def muc_LeaveRoom_def mem_muc_store_def DeleteRoom_def)
qed

lemma muc_agrees_run:
  "muc_agrees p s \<Longrightarrow> muc_agrees (fst (muc_run None h (p, ()))) (snd (muc_run (Some mem_muc_store) h (q, s)))"
proof (induction h arbitrary: p q s)
  case (Cons x h)
  obtain p1 where 1: "fst (muc_apply None x (p, ())) = (p1, ())" by (metis unit.exhaust prod.exhaust)
  obtain q2 s2 where 2: "fst (muc_apply (Some mem_muc_store) x (q, s)) = (q2, s2)" by fastforce
  have "muc_agrees p1 s2" using muc_agrees_step [OF Cons.prems, of x q] 1 2 by simp
  from Cons.IH [OF this, of q2] show ?case by (simp add: 1 2)
qed simp

lemma map_joined: "map joined_room (range_values ks t) = range_values ks (\<lambda>k. map_option joined_room (t k))"
  by (induction ks) (simp_all split: option.split)

text \<open>
  C40: the plugins with and without a store.  The rosters and block lists of many users in one in-memory
  store answer for each user exactly as the map of a plugin of that user that has no store: whatever the
  users did, in whatever order, every lookup and every listing is the same, so users do not see each
  other.  The rooms of a single user behave in the same way.  The one difference is the error of removing
  a contact or leaving a room that is not there: the store reports \<open>ErrNotFound\<close>, the map nothing.
\<close>

theorem plugins_with_and_without_store:
  "(let s = roster_shared mem_roster_store h NewStore; p = roster_private u h roster_Initialize in
      roster_Get (Some mem_roster_store) u jid (q, s) = roster_Get None u jid (p, ()) \<and>
      roster_Items (Some mem_roster_store) u ks (q, s) = roster_Items None u ks (p, ()) \<and>
      snd (roster_Remove (Some mem_roster_store) u jid (q, s)) =
        (if roster_Get None u jid (p, ()) = Inr None then Some ErrNotFound else None) \<and>
      snd (roster_Remove None u jid (p, ())) = None) \<and>
   (let s = blocking_shared mem_blocking_store hb NewStore; p = blocking_private u hb Map.empty in
      blocking_IsBlocked (Some mem_blocking_store) u jid (qb, s) = blocking_IsBlocked None u jid (p, ()) \<and>
      blocking_BlockedList (Some mem_blocking_store) u ks (qb, s) = blocking_BlockedList None u ks (p, ())) \<and>
   (let w = muc_run (Some mem_muc_store) hm (Map.empty, NewStore); wo = muc_run None hm (Map.empty, ()) in
      muc_GetRoom (Some mem_muc_store) jid w = muc_GetRoom None jid wo \<and>
      muc_Rooms (Some mem_muc_store) ks w = muc_Rooms None ks wo \<and>
      snd (muc_LeaveRoom (Some mem_muc_store) jid w) =
        (if muc_GetRoom None jid wo = Inr None then Some ErrNotFound else None) \<and>
      snd (muc_LeaveRoom None jid wo) = None)"
proof -
  let ?s = "blocking_shared mem_blocking_store hb NewStore"
  have b: "blocking_private u hb Map.empty = inner (blocked ?s) u"
    by (rule blocking_run) (simp add: NewStore_def inner_row fun_eq_iff)
  have i: "IsBlocked ?s u jid = (case inner (blocked ?s) u jid of None \<Rightarrow> False | Some b \<Rightarrow> b)"
    by (simp add: IsBlocked_def inner_def split: option.split)
  have blocking: "blocking_IsBlocked (Some mem_blocking_store) u jid (qb, ?s) =
        blocking_IsBlocked None u jid (blocking_private u hb Map.empty, ())"
      "blocking_BlockedList (Some mem_blocking_store) u ks (qb, ?s) =
        blocking_BlockedList None u ks (blocking_private u hb Map.empty, ())"
    using i by (simp_all add: blocking_IsBlocked_def blocking_BlockedList_def mem_blocking_methods b GetBlockedJIDs_def)
  let ?w = "muc_run (Some mem_muc_store) hm (Map.empty, NewStore)" and ?wo = "muc_run None hm (Map.empty, ())"
  have "muc_agrees Map.empty NewStore" by (simp add: muc_agrees_def NewStore_def fun_eq_iff)
  from muc_agrees_run [OF this, of hm Map.empty] have m: "muc_agrees (fst ?wo) (snd ?w)" .
  then have "fst ?wo = (\<lambda>j. map_option joined_room (mucRooms (snd ?w) j))" by (simp add: muc_agrees_def)
  then have muc: "muc_GetRoom (Some mem_muc_store) jid ?w = muc_GetRoom None jid ?wo"
      "muc_Rooms (Some mem_muc_store) ks ?w = muc_Rooms None ks ?wo"
      "snd (muc_LeaveRoom (Some mem_muc_store) jid ?w) =
        (if muc_GetRoom None jid ?wo = Inr None then Some ErrNotFound else None)"
      "snd (muc_LeaveRoom None jid ?wo) = None"
    by (auto simp: muc_GetRoom_def muc_Rooms_def muc_LeaveRoom_def mem_muc_store_def GetRoom_def ListRooms_def
        DeleteRoom_def map_joined split_beta split: option.split)
  have "snd (roster_Remove None u jid (roster_private u h roster_Initialize, ())) = None"
    by (simp add: roster_Remove_def)
  moreover note mem_roster.agrees_answers [OF mem_roster.agrees_run [OF mem_roster_agrees_init, of u h]]
  ultimately show ?thesis using blocking muc unfolding Let_def by blast
qed

text \<open>Rooms have no owner in the store: when one user leaves, the room and its affiliations are gone for all.\<close>

lemma leaving_removes_room:
  assumes "mucRooms s r \<noteq> None"
  shows "GetRoom (snd (fst (muc_LeaveRoom (Some mem_muc_store) r (p, s)))) r = Inl ErrNotFound \<and>
    GetAffiliation (snd (fst (muc_LeaveRoom (Some mem_muc_store) r (p, s)))) (r, u) = Inl ErrNotFound"
  using assms by (auto simp: muc_LeaveRoom_def mem_muc_store_def DeleteRoom_def GetRoom_def GetAffiliation_def get2_def)

text \<open>Joining renames the room.\<close>

lemma joining_renames_room:
  assumes "mucRooms s r = Some room" and "room_RoomJID room = r"
  shows "GetRoom (snd (fst (muc_JoinRoom (Some mem_muc_store) r nick (p, s)))) r = Inr (room\<lparr>room_Name := nick\<rparr>)"
  using assms by (simp add: muc_JoinRoom_def mem_muc_store_def GetRoom_def UpdateRoom_def)

end
