(* ===== verification/Connections.thy ===== *)
theory Connections
  imports GoText "HOL-Library.Multiset" "HOL-Library.Product_Lexorder"
begin

text \<open>
  Connections: the transports (transport/tcp.go, websocket.go, bosh.go) and the dialer with its resolver
  (dial/dial.go, dial/resolver.go).  A \<open>net.Conn\<close> is a value of any type \<open>'c\<close> with the operations of
  \<open>net_ops\<close>; the network is a state \<open>'n\<close> that looking up names and dialling may change.  \<open>sort.Slice\<close> is
  not stable, so it is any function that satisfies \<open>sort_Slice\<close>.  The lemmas: the flag of a TCP transport
  tells whether it is encrypted, BOSH delivers the answers of the server in order, and the dialer tries
  the records by priority, each once, and stops at the first that answers.
\<close>

section \<open>Connections and TLS\<close>

record tls_config =
  tls_ServerName :: string
  tls_serves :: bool

text \<open>
  \<open>tls_serves\<close>: the configuration has certificates or a callback for them.  A handshake, as server or as
  client, ends with the encrypted connection, or with an error and the connection below it.
\<close>

record 'c net_ops =
  nc_isTLS :: "'c \<Rightarrow> bool"
  nc_Read :: "nat \<Rightarrow> 'c \<Rightarrow> (string + string) \<times> 'c"
  nc_Write :: "string \<Rightarrow> 'c \<Rightarrow> string option \<times> 'c"
  nc_Close :: "'c \<Rightarrow> string option \<times> 'c"
  nc_RemoteAddr :: "'c \<Rightarrow> string"
  nc_Handshake :: "bool \<Rightarrow> tls_config \<Rightarrow> 'c \<Rightarrow> string option \<times> 'c"

text \<open>
  A connection that finished a handshake is a \<open>tls.Conn\<close>, and no other operation changes what a connection
  is.
\<close>

definition conn_laws :: "'c net_ops \<Rightarrow> bool" where
  "conn_laws N \<longleftrightarrow>
     (\<forall>c n. nc_isTLS N (snd (nc_Read N n c)) = nc_isTLS N c) \<and>
     (\<forall>c p. nc_isTLS N (snd (nc_Write N p c)) = nc_isTLS N c) \<and>
     (\<forall>c. nc_isTLS N (snd (nc_Close N c)) = nc_isTLS N c) \<and>
     (\<forall>sv cfg c. nc_isTLS N (snd (nc_Handshake N sv cfg c)) \<longleftrightarrow> fst (nc_Handshake N sv cfg c) = None \<or> nc_isTLS N c)"

section \<open>TCP and WebSocket transports\<close>

record 'c TCP =
  tcp_conn :: 'c
  tcp_tls :: bool

definition NewTCP :: "'c net_ops \<Rightarrow> 'c \<Rightarrow> 'c TCP" where
  "NewTCP N c = \<lparr>tcp_conn = c, tcp_tls = nc_isTLS N c\<rparr>"

definition tcp_Read :: "'c net_ops \<Rightarrow> nat \<Rightarrow> 'c TCP \<Rightarrow> (string + string) \<times> 'c TCP" where
  "tcp_Read N n t = (case nc_Read N n (tcp_conn t) of (r, c) \<Rightarrow> (r, t\<lparr>tcp_conn := c\<rparr>))"

definition tcp_Write :: "'c net_ops \<Rightarrow> string \<Rightarrow> 'c TCP \<Rightarrow> string option \<times> 'c TCP" where
  "tcp_Write N p t = (case nc_Write N p (tcp_conn t) of (e, c) \<Rightarrow> (e, t\<lparr>tcp_conn := c\<rparr>))"

definition tcp_Close :: "'c net_ops \<Rightarrow> 'c TCP \<Rightarrow> string option \<times> 'c TCP" where
  "tcp_Close N t = (case nc_Close N (tcp_conn t) of (e, c) \<Rightarrow> (e, t\<lparr>tcp_conn := c\<rparr>))"

definition tcp_StartTLS :: "'c net_ops \<Rightarrow> tls_config option \<Rightarrow> 'c TCP \<Rightarrow> string option \<times> 'c TCP" where
  "tcp_StartTLS N config t =
     (let cfg = (case config of None \<Rightarrow> \<lparr>tls_ServerName = '''', tls_serves = False\<rparr> | Some c \<Rightarrow> c)
      in case nc_Handshake N (tls_serves cfg) cfg (tcp_conn t) of
           (Some e, c) \<Rightarrow> (Some e, t\<lparr>tcp_conn := c\<rparr>)
         | (None, c) \<Rightarrow> (None, \<lparr>tcp_conn = c, tcp_tls = True\<rparr>))"

text \<open>The second result of \<open>ConnectionState\<close>: whether the connection is a \<open>tls.Conn\<close>.\<close>

definition tcp_ConnectionState :: "'c net_ops \<Rightarrow> 'c TCP \<Rightarrow> bool" where
  "tcp_ConnectionState N t \<longleftrightarrow> nc_isTLS N (tcp_conn t)"

definition tcp_Peer :: "'c net_ops \<Rightarrow> 'c TCP \<Rightarrow> string" where
  "tcp_Peer N t = nc_RemoteAddr N (tcp_conn t)"

record 'c WebSocket =
  ws_rwc :: 'c
  ws_tls :: bool
  ws_peer :: string

definition NewWebSocket :: "'c net_ops \<Rightarrow> 'c \<Rightarrow> 'c WebSocket" where
  "NewWebSocket N c = \<lparr>ws_rwc = c, ws_tls = nc_isTLS N c, ws_peer = nc_RemoteAddr N c\<rparr>"

definition ws_Read :: "'c net_ops \<Rightarrow> nat \<Rightarrow> 'c WebSocket \<Rightarrow> (string + string) \<times> 'c WebSocket" where
  "ws_Read N n ws = (case nc_Read N n (ws_rwc ws) of (r, c) \<Rightarrow> (r, ws\<lparr>ws_rwc := c\<rparr>))"

definition ws_Write :: "'c net_ops \<Rightarrow> string \<Rightarrow> 'c WebSocket \<Rightarrow> string option \<times> 'c WebSocket" where
  "ws_Write N p ws = (case nc_Write N p (ws_rwc ws) of (e, c) \<Rightarrow> (e, ws\<lparr>ws_rwc := c\<rparr>))"

definition ws_Close :: "'c net_ops \<Rightarrow> 'c WebSocket \<Rightarrow> string option \<times> 'c WebSocket" where
  "ws_Close N ws = (case nc_Close N (ws_rwc ws) of (e, c) \<Rightarrow> (e, ws\<lparr>ws_rwc := c\<rparr>))"

definition ws_StartTLS :: "tls_config option \<Rightarrow> 'c WebSocket \<Rightarrow> string option \<times> 'c WebSocket" where
  "ws_StartTLS config ws = (Some ''transport: WebSocket does not support STARTTLS; use wss://'', ws)"

section \<open>BOSH\<close>

record BOSH =
  bo_url :: string
  bo_sid :: string
  bo_incoming :: string
  bo_closed :: bool

definition NewBOSH :: "string \<Rightarrow> BOSH" where
  "NewBOSH url = \<lparr>bo_url = url, bo_sid = '''', bo_incoming = '''', bo_closed = False\<rparr>"

text \<open>\<open>Read\<close> into a slice of \<open>n\<close> bytes; the error of an empty \<open>bytes.Buffer\<close> is \<open>io.EOF\<close> too.\<close>

definition bosh_Read :: "nat \<Rightarrow> BOSH \<Rightarrow> (string + string) \<times> BOSH" where
  "bosh_Read n b =
     (if bo_closed b then (Inl ''EOF'', b)
      else if bo_incoming b = [] then ((if n = 0 then Inr [] else Inl ''EOF''), b)
      else (Inr (take n (bo_incoming b)), b\<lparr>bo_incoming := drop n (bo_incoming b)\<rparr>))"

text \<open>\<open>post\<close> is one HTTP exchange: an error, or the body of the answer or the error of reading it.\<close>

definition bosh_Write :: "(string \<Rightarrow> string \<Rightarrow> 'n \<Rightarrow> (string + string) \<times> 'n) \<Rightarrow> string \<Rightarrow> BOSH \<times> 'n \<Rightarrow>
    (string + nat) \<times> BOSH \<times> 'n" where
  "bosh_Write post p = (\<lambda>(b, n).
     if bo_closed b then (Inl ''transport: BOSH connection closed'', b, n)
     else case post (bo_url b) p n of
            (Inl e, n') \<Rightarrow> (Inl e, b, n')
          | (Inr body, n') \<Rightarrow> (Inr (length p), b\<lparr>bo_incoming := bo_incoming b @ body\<rparr>, n'))"

definition bosh_Close :: "BOSH \<Rightarrow> string option \<times> BOSH" where
  "bosh_Close b = (None, b\<lparr>bo_closed := True\<rparr>)"

definition bosh_StartTLS :: "tls_config option \<Rightarrow> BOSH \<Rightarrow> string option \<times> BOSH" where
  "bosh_StartTLS config b = (Some ''transport: BOSH does not support STARTTLS; use HTTPS'', b)"

definition SetSID :: "string \<Rightarrow> BOSH \<Rightarrow> BOSH" where
  "SetSID sid b = b\<lparr>bo_sid := sid\<rparr>"

section \<open>The resolver\<close>

record SRVRecord =
  Target :: string
  Port :: "16 word"
  Priority :: "16 word"
  Weight :: "16 word"

definition srv_less :: "SRVRecord \<Rightarrow> SRVRecord \<Rightarrow> bool" where
  "srv_less a b = (if Priority a \<noteq> Priority b then Priority a < Priority b else Weight a > Weight b)"

definition sort_Slice :: "('a \<Rightarrow> 'a \<Rightarrow> bool) \<Rightarrow> ('a list \<Rightarrow> 'a list) \<Rightarrow> bool" where
  "sort_Slice lt srt \<longleftrightarrow> (\<forall>xs. mset (srt xs) = mset xs \<and> sorted_wrt (\<lambda>a b. \<not> lt b a) (srt xs))"

text \<open>\<open>lookupSRV\<close> is the field of the resolver: service, protocol and name to the records or an error.\<close>

type_synonym 'n lookup = "string \<Rightarrow> string \<Rightarrow> string \<Rightarrow> 'n \<Rightarrow> (string + SRVRecord list) \<times> 'n"

definition resolve :: "(SRVRecord list \<Rightarrow> SRVRecord list) \<Rightarrow> 'n lookup \<Rightarrow> string \<Rightarrow> string \<Rightarrow> string \<Rightarrow> 'n \<Rightarrow>
    (string + SRVRecord list) \<times> 'n" where
  "resolve srt lookupSRV service proto name n =
     (case lookupSRV service proto name n of
        (Inl e, n') \<Rightarrow> (Inl (''dial: SRV lookup for _'' @ service @ ''._'' @ proto @ ''.'' @ name @ '': '' @ e), n')
      | (Inr addrs, n') \<Rightarrow> (Inr (srt (filter (\<lambda>addr. Target addr \<noteq> ''.'') addrs)), n'))"

definition ResolveClient :: "(SRVRecord list \<Rightarrow> SRVRecord list) \<Rightarrow> 'n lookup \<Rightarrow> string \<Rightarrow> 'n \<Rightarrow> (string + SRVRecord list) \<times> 'n" where
  "ResolveClient srt r domain = resolve srt r ''xmpp-client'' ''tcp'' domain"

definition ResolveServer :: "(SRVRecord list \<Rightarrow> SRVRecord list) \<Rightarrow> 'n lookup \<Rightarrow> string \<Rightarrow> 'n \<Rightarrow> (string + SRVRecord list) \<times> 'n" where
  "ResolveServer srt r domain = resolve srt r ''xmpp-server'' ''tcp'' domain"

definition ResolveClientTLS :: "(SRVRecord list \<Rightarrow> SRVRecord list) \<Rightarrow> 'n lookup \<Rightarrow> string \<Rightarrow> 'n \<Rightarrow> (string + SRVRecord list) \<times> 'n" where
  "ResolveClientTLS srt r domain = resolve srt r ''xmpps-client'' ''tcp'' domain"

definition ResolveServerTLS :: "(SRVRecord list \<Rightarrow> SRVRecord list) \<Rightarrow> 'n lookup \<Rightarrow> string \<Rightarrow> 'n \<Rightarrow> (string + SRVRecord list) \<times> 'n" where
  "ResolveServerTLS srt r domain = resolve srt r ''xmpps-server'' ''tcp'' domain"

section \<open>The dialer\<close>

record 'n Dialer =
  di_Resolver :: "'n lookup"
  di_TLSConfig :: "tls_config option"
  di_Timeout :: int
  di_DirectTLS :: bool

text \<open>\<open>def\<close> is \<open>LookupSRV\<close> of the default resolver; the timeout, in nanoseconds, bounds lookup and dialling.\<close>

definition NewDialer :: "'n lookup \<Rightarrow> 'n Dialer" where
  "NewDialer def = \<lparr>di_Resolver = def, di_TLSConfig = None, di_Timeout = 30 * 10 ^ 9, di_DirectTLS = False\<rparr>"

definition JoinHostPort :: "string \<Rightarrow> string \<Rightarrow> string" where
  "JoinHostPort host port =
     (if CHR '':'' \<in> set host then CHR ''['' # host @ '']:'' @ port else host @ CHR '':'' # port)"

definition record_addr :: "SRVRecord \<Rightarrow> string" where
  "record_addr rec = JoinHostPort (Target rec) (print_nat (unat (Port rec)))"

definition tlsConfig :: "'n Dialer \<Rightarrow> string \<Rightarrow> tls_config" where
  "tlsConfig d domain =
     (case di_TLSConfig d of
        Some cfg \<Rightarrow> if tls_ServerName cfg = '''' then cfg\<lparr>tls_ServerName := domain\<rparr> else cfg
      | None \<Rightarrow> \<lparr>tls_ServerName = domain, tls_serves = False\<rparr>)"

text \<open>
  The two ways to dial an address, plain and with a TLS configuration; both see the timeout of the dialer,
  which the context carries as a deadline.
\<close>

record ('c, 'n) dial_ops =
  do_tcp :: "int \<Rightarrow> string \<Rightarrow> 'n \<Rightarrow> (string + 'c) \<times> 'n"
  do_tls :: "int \<Rightarrow> tls_config \<Rightarrow> string \<Rightarrow> 'n \<Rightarrow> (string + 'c) \<times> 'n"

fun dial_loop :: "(SRVRecord \<Rightarrow> 'n \<Rightarrow> (string + 'c) \<times> 'n) \<Rightarrow> SRVRecord list \<Rightarrow> string \<Rightarrow> 'n \<Rightarrow> (string + 'c) \<times> 'n" where
  "dial_loop attempt [] lastErr n = (Inl lastErr, n)"
| "dial_loop attempt (rec # records) lastErr n =
     (case attempt rec n of
        (Inr c, n') \<Rightarrow> (Inr c, n')
      | (Inl e, n') \<Rightarrow> dial_loop attempt records e n')"

definition or_fallback :: "string + SRVRecord list \<Rightarrow> SRVRecord \<Rightarrow> SRVRecord list" where
  "or_fallback r rec = (case r of Inl e \<Rightarrow> [rec] | Inr [] \<Rightarrow> [rec] | Inr records \<Rightarrow> records)"

definition fallback_record :: "string \<Rightarrow> 16 word \<Rightarrow> SRVRecord" where
  "fallback_record domain port = \<lparr>Target = domain, Port = port, Priority = 0, Weight = 0\<rparr>"

definition dial_failed :: "string \<Rightarrow> (string + 'c) \<times> 'n \<Rightarrow> (string + 'c) \<times> 'n" where
  "dial_failed domain = apfst (map_sum (\<lambda>e. ''dial: failed to connect to '' @ domain @ '': '' @ e) id)"

definition dial_attempt :: "('c, 'n) dial_ops \<Rightarrow> 'n Dialer \<Rightarrow> string \<Rightarrow> SRVRecord \<Rightarrow> 'n \<Rightarrow> (string + 'c) \<times> 'n" where
  "dial_attempt D d domain rec =
     (if di_DirectTLS d then do_tls D (di_Timeout d) (tlsConfig d domain) (record_addr rec)
      else do_tcp D (di_Timeout d) (record_addr rec))"

definition Dial :: "'c net_ops \<Rightarrow> (SRVRecord list \<Rightarrow> SRVRecord list) \<Rightarrow> ('c, 'n) dial_ops \<Rightarrow> 'n Dialer \<Rightarrow> string \<Rightarrow> 'n \<Rightarrow>
    (string + 'c TCP) \<times> 'n" where
  "Dial N srt D d domain n =
     (case (if di_DirectTLS d then ResolveClientTLS srt (di_Resolver d) domain n
            else ResolveClient srt (di_Resolver d) domain n) of
        (r, n') \<Rightarrow>
          apfst (map_sum id (NewTCP N))
            (dial_failed domain
              (dial_loop (dial_attempt D d domain)
                (or_fallback r (fallback_record domain (if di_DirectTLS d then 5223 else 5222))) '''' n')))"

definition DialServer :: "'c net_ops \<Rightarrow> (SRVRecord list \<Rightarrow> SRVRecord list) \<Rightarrow> ('c, 'n) dial_ops \<Rightarrow> 'n Dialer \<Rightarrow> string \<Rightarrow> 'n \<Rightarrow>
    (string + 'c TCP) \<times> 'n" where
  "DialServer N srt D d domain n =
     (case ResolveServer srt (di_Resolver d) domain n of
        (r, n') \<Rightarrow>
          apfst (map_sum id (NewTCP N))
            (dial_failed domain
              (dial_loop (\<lambda>rec. do_tcp D (di_Timeout d) (record_addr rec))
                (or_fallback r (fallback_record domain 5269)) '''' n')))"

section \<open>What the transports promise\<close>

text \<open>The flag of a TCP transport tells whether the connection is encrypted, whatever is done to it.\<close>

definition flag_right :: "'c net_ops \<Rightarrow> 'c TCP \<Rightarrow> bool" where
  "flag_right N t \<longleftrightarrow> tcp_tls t = tcp_ConnectionState N t"

lemma tcp_flag:
  assumes "conn_laws N"
  shows "flag_right N (NewTCP N c)"
    and "flag_right N t \<Longrightarrow> flag_right N (snd (tcp_Read N n t))"
    and "flag_right N t \<Longrightarrow> flag_right N (snd (tcp_Write N p t))"
    and "flag_right N t \<Longrightarrow> flag_right N (snd (tcp_Close N t))"
    and "flag_right N t \<Longrightarrow> flag_right N (snd (tcp_StartTLS N config t))"
proof -
  have laws: "nc_isTLS N (snd (nc_Read N n c)) = nc_isTLS N c" "nc_isTLS N (snd (nc_Write N p c)) = nc_isTLS N c"
    "nc_isTLS N (snd (nc_Close N c)) = nc_isTLS N c"
    "nc_isTLS N (snd (nc_Handshake N sv cfg c)) \<longleftrightarrow> fst (nc_Handshake N sv cfg c) = None \<or> nc_isTLS N c" for n c p sv cfg
    using assms unfolding conn_laws_def by blast+
  note defs = flag_right_def tcp_ConnectionState_def
  show "flag_right N (NewTCP N c)"
    by (simp add: defs NewTCP_def)
  show "flag_right N (snd (tcp_Read N n t))" if "flag_right N t"
    using that laws(1) [of n "tcp_conn t"] by (auto simp: defs tcp_Read_def split: prod.splits)
  show "flag_right N (snd (tcp_Write N p t))" if "flag_right N t"
    using that laws(2) [of p "tcp_conn t"] by (auto simp: defs tcp_Write_def split: prod.splits)
  show "flag_right N (snd (tcp_Close N t))" if "flag_right N t"
    using that laws(3) [of "tcp_conn t"] by (auto simp: defs tcp_Close_def split: prod.splits)
  let ?cfg = "case config of None \<Rightarrow> \<lparr>tls_ServerName = '''', tls_serves = False\<rparr> | Some c \<Rightarrow> c"
  show "flag_right N (snd (tcp_StartTLS N config t))" if "flag_right N t"
    using that laws(4) [of "tls_serves ?cfg" ?cfg "tcp_conn t"]
    by (auto simp: defs tcp_StartTLS_def Let_def split: prod.splits option.splits)
qed

text \<open>
  What BOSH reads is what the server answered, in order and without loss: after any sequence of writes and
  reads, the bytes read so far and those still in the buffer are the answers one after the other.
\<close>

datatype bosh_op = BoshWrite string string | BoshRead nat | BoshSID string

fun bosh_run :: "bosh_op list \<Rightarrow> BOSH \<Rightarrow> string \<times> BOSH" where
  "bosh_run [] b = ('''', b)"
| "bosh_run (BoshWrite p body # ops) b = bosh_run ops (fst (snd (bosh_Write (\<lambda>_ _ u. (Inr body, u)) p (b, ()))))"
| "bosh_run (BoshSID sid # ops) b = bosh_run ops (SetSID sid b)"
| "bosh_run (BoshRead n # ops) b =
     (case bosh_Read n b of
        (Inl e, b') \<Rightarrow> bosh_run ops b'
      | (Inr got, b') \<Rightarrow> apfst ((@) got) (bosh_run ops b'))"

definition answers :: "bosh_op list \<Rightarrow> string" where
  "answers ops = concat (map (\<lambda>op. case op of BoshWrite p body \<Rightarrow> body | _ \<Rightarrow> '''') ops)"

lemma bosh_in_order:
  "\<not> bo_closed b \<Longrightarrow> fst (bosh_run ops b) @ bo_incoming (snd (bosh_run ops b)) = bo_incoming b @ answers ops"
  by (induction ops b rule: bosh_run.induct)
    (auto simp: answers_def bosh_Write_def bosh_Read_def SetSID_def apfst_def map_prod_def split: prod.splits)

text \<open>
  A reader of an open BOSH transport that is faster than the server sees the end of the stream: an empty
  buffer is reported as \<open>io.EOF\<close>, on which \<open>Session.Serve\<close> returns without an error.
\<close>

lemma bosh_early_end: "bo_incoming b = '''' \<Longrightarrow> 0 < n \<Longrightarrow> bosh_Read n b = (Inl ''EOF'', b)"
  by (simp add: bosh_Read_def)

section \<open>What the dialer promises\<close>

lemma resolve_records:
  assumes "sort_Slice srv_less srt" and "lookupSRV service proto name n = (Inr addrs, n')"
  obtains records where "resolve srt lookupSRV service proto name n = (Inr records, n')"
    and "mset records = filter_mset (\<lambda>addr. Target addr \<noteq> ''.'') (mset addrs)"
    and "sorted_wrt (\<lambda>a b. \<not> srv_less b a) records"
  using assms by (auto simp: resolve_def sort_Slice_def)

text \<open>The key of a record: ascending priority, then descending weight.\<close>

definition srv_key :: "SRVRecord \<Rightarrow> int \<times> int" where
  "srv_key r = (uint (Priority r), - uint (Weight r))"

lemma srv_less_key: "srv_less a b \<longleftrightarrow> srv_key a < srv_key b"
  by (auto simp: srv_less_def srv_key_def word_less_def less_le word_uint_eq_iff)

lemma sorted_srv: "sorted_wrt (\<lambda>a b. \<not> srv_less b a) rs \<longleftrightarrow> sorted (map srv_key rs)"
  by (simp add: srv_less_key sorted_map not_less)

text \<open>The order of the answers does not matter when no two records have the same priority and weight.\<close>

lemma resolve_order_irrelevant:
  assumes "sort_Slice srv_less srt" "mset as = mset bs" "inj_on srv_key (set as)"
  shows "srt as = srt bs"
proof -
  have s: "mset (srt xs) = mset xs" "sorted (map srv_key (srt xs))" for xs
    using assms(1) by (auto simp: sort_Slice_def simp flip: sorted_srv)
  have "set (srt as) = set as"
    using s(1) by (metis mset_eq_setD)
  with assms(3) have "inj_on srv_key (set (srt as))" by simp
  moreover have "mset (srt as) = mset (srt bs)"
    using s(1) assms(2) by simp
  ultimately show ?thesis
    using s(2) by (metis map_sorted_distinct_set_unique properties_for_sort_key sort_key_inj_key_eq)
qed

text \<open>The state of the network after all of these records were tried in vain.\<close>

fun all_refuse :: "(SRVRecord \<Rightarrow> 'n \<Rightarrow> (string + 'c) \<times> 'n) \<Rightarrow> SRVRecord list \<Rightarrow> 'n \<Rightarrow> 'n option" where
  "all_refuse attempt [] n = Some n"
| "all_refuse attempt (rec # records) n =
     (case attempt rec n of (Inr c, n') \<Rightarrow> None | (Inl e, n') \<Rightarrow> all_refuse attempt records n')"

lemma dial_loop_first:
  "dial_loop attempt records e n = (Inr c, n') \<longleftrightarrow>
     (\<exists>tried rec rest n1. records = tried @ rec # rest \<and> all_refuse attempt tried n = Some n1 \<and> attempt rec n1 = (Inr c, n'))"
proof (induction records arbitrary: e n)
  case (Cons r records)
  show ?case
  proof (cases "attempt r n")
    case (Pair res n2)
    then show ?thesis
    proof (cases res)
      case (Inl x)
      show ?thesis (is "?l \<longleftrightarrow> (\<exists>tried rec rest n1. ?first tried rec rest n1)")
      proof
        assume ?l
        with Pair Inl have "dial_loop attempt records x n2 = (Inr c, n')" by simp
        then obtain tried rec rest n1 where "records = tried @ rec # rest" "all_refuse attempt tried n2 = Some n1"
          "attempt rec n1 = (Inr c, n')" using Cons.IH by blast
        with Pair Inl have "?first (r # tried) rec rest n1" by simp
        then show "\<exists>tried rec rest n1. ?first tried rec rest n1" by blast
      next
        assume "\<exists>tried rec rest n1. ?first tried rec rest n1"
        then obtain tried rec rest n1 where f: "?first tried rec rest n1" by blast
        with Pair Inl show ?l using Cons.IH by (cases tried) auto
      qed
    next
      case (Inr y)
      with Pair have "all_refuse attempt [] n = Some n" "r # records = [] @ r # records" "attempt r n = (Inr y, n2)"
        by simp_all
      then show ?thesis
        using Pair Inr by (fastforce simp: Cons_eq_append_conv)
    qed
  qed
qed simp

lemma dial_loop_refused: "(\<exists>m. dial_loop attempt records e n = (Inl m, n')) \<longleftrightarrow> all_refuse attempt records n = Some n'"
  by (induction records arbitrary: e n) (auto split: sum.splits prod.splits)

lemma or_fallback_not_Nil [simp]: "or_fallback r rec \<noteq> []"
  by (simp add: or_fallback_def split: sum.split list.split)

text \<open>The usable records of an answer: none when the lookup failed, and none that say the service is not there.\<close>

definition usable :: "string + SRVRecord list \<Rightarrow> SRVRecord multiset" where
  "usable r = (case r of Inl e \<Rightarrow> {#} | Inr addrs \<Rightarrow> filter_mset (\<lambda>addr. Target addr \<noteq> ''.'') (mset addrs))"

definition client_service :: "'n Dialer \<Rightarrow> string" where
  "client_service d = (if di_DirectTLS d then ''xmpps-client'' else ''xmpp-client'')"

definition client_fallback :: "'n Dialer \<Rightarrow> string \<Rightarrow> SRVRecord" where
  "client_fallback d domain = fallback_record domain (if di_DirectTLS d then 5223 else 5222)"

lemma resolve_or_fallback:
  assumes "sort_Slice srv_less srt" and "lookupSRV service proto name n = (r, n0)"
  shows "\<exists>records res. resolve srt lookupSRV service proto name n = (res, n0) \<and> or_fallback res rec = records \<and>
    mset records = (if usable r = {#} then {#rec#} else usable r) \<and> sorted_wrt (\<lambda>a b. \<not> srv_less b a) records"
proof (cases r)
  case (Inl e)
  with assms show ?thesis by (auto simp: resolve_def or_fallback_def usable_def)
next
  case (Inr addrs)
  with assms obtain records where rs: "resolve srt lookupSRV service proto name n = (Inr records, n0)"
    "mset records = filter_mset (\<lambda>addr. Target addr \<noteq> ''.'') (mset addrs)" "sorted_wrt (\<lambda>a b. \<not> srv_less b a) records"
    by (metis resolve_records)
  with Inr show ?thesis
    by (cases records) (auto simp: or_fallback_def usable_def simp flip: rs(2))
qed

text \<open>
  C6: dialling.  Whatever the name service answers and however the network behaves, the dialer tries the
  usable records, each once, by ascending priority and descending weight (when there is none, the domain
  itself on the standard port); it returns the transport on the first connection that is accepted, without
  trying any later record, and fails exactly when all of them are refused.
\<close>

theorem Dial_in_order:
  assumes "sort_Slice srv_less srt" and "di_Resolver d (client_service d) ''tcp'' domain n = (r, n0)"
  shows "\<exists>records.
     mset records = (if usable r = {#} then {#client_fallback d domain#} else usable r) \<and>
     sorted_wrt (\<lambda>a b. \<not> srv_less b a) records \<and>
     (\<forall>t n'. Dial N srt D d domain n = (Inr t, n') \<longleftrightarrow>
        (\<exists>tried rec rest n1 c. records = tried @ rec # rest \<and> all_refuse (dial_attempt D d domain) tried n0 = Some n1 \<and>
           dial_attempt D d domain rec n1 = (Inr c, n') \<and> t = NewTCP N c)) \<and>
     (\<forall>n'. (\<exists>e. Dial N srt D d domain n = (Inl e, n')) \<longleftrightarrow>
        all_refuse (dial_attempt D d domain) records n0 = Some n')"
proof -
  let ?res = "resolve srt (di_Resolver d) (client_service d) ''tcp'' domain n"
  obtain records res where rs: "?res = (res, n0)" "or_fallback res (client_fallback d domain) = records"
    "mset records = (if usable r = {#} then {#client_fallback d domain#} else usable r)"
    "sorted_wrt (\<lambda>a b. \<not> srv_less b a) records"
    using resolve_or_fallback [where lookupSRV = "di_Resolver d" and rec = "client_fallback d domain", OF assms] by blast
  have "(if di_DirectTLS d then ResolveClientTLS srt (di_Resolver d) domain n
      else ResolveClient srt (di_Resolver d) domain n) = (res, n0)"
    using rs(1) by (auto simp: ResolveClientTLS_def ResolveClient_def client_service_def)
  then have "Dial N srt D d domain n = apfst (map_sum id (NewTCP N))
      (dial_failed domain (dial_loop (dial_attempt D d domain) records '''' n0))"
    using rs(2) by (simp add: Dial_def client_fallback_def)
  moreover obtain out n2 where l: "dial_loop (dial_attempt D d domain) records '''' n0 = (out, n2)" by fastforce
  ultimately have D: "Dial N srt D d domain n =
      (map_sum (\<lambda>e. ''dial: failed to connect to '' @ domain @ '': '' @ e) (NewTCP N) out, n2)"
    by (cases out) (simp_all add: dial_failed_def)
  have "Dial N srt D d domain n = (Inr t, n') \<longleftrightarrow>
      (\<exists>c. dial_loop (dial_attempt D d domain) records '''' n0 = (Inr c, n') \<and> t = NewTCP N c)" for t n'
    using D l by (cases out) auto
  moreover have "(\<exists>e. Dial N srt D d domain n = (Inl e, n')) \<longleftrightarrow>
      (\<exists>m. dial_loop (dial_attempt D d domain) records '''' n0 = (Inl m, n'))" for n'
    using D l by (cases out) auto
  ultimately show ?thesis
    using rs(3,4) by (intro exI [of _ records]) (auto simp: dial_loop_first dial_loop_refused)
qed

text \<open>A name service with two records, of which the one with the better priority does not answer.\<close>

definition demo_srv :: "string \<Rightarrow> 16 word \<Rightarrow> SRVRecord" where
  "demo_srv host prio = \<lparr>Target = host, Port = 5222, Priority = prio, Weight = 0\<rparr>"

definition demo_lookup :: "nat lookup" where
  "demo_lookup service proto name n = (Inr [demo_srv ''b'' 20, demo_srv ''.'' 0, demo_srv ''a'' 10], n)"

definition demo_net :: "bool net_ops" where
  "demo_net =
     \<lparr>nc_isTLS = (\<lambda>c. False), nc_Read = (\<lambda>n c. (Inl ''EOF'', c)), nc_Write = (\<lambda>p c. (None, c)),
      nc_Close = (\<lambda>c. (None, True)), nc_RemoteAddr = (\<lambda>c. ''peer''),
      nc_Handshake = (\<lambda>sv cfg c. (Some ''no TLS'', c))\<rparr>"

definition demo_dial :: "(bool, nat) dial_ops" where
  "demo_dial =
     \<lparr>do_tcp = (\<lambda>timeout addr n. if addr = ''b:5222'' then (Inr False, n + 1) else (Inl ''refused'', n + 1)),
      do_tls = (\<lambda>timeout cfg addr n. (Inl ''refused'', n + 1))\<rparr>"

lemma sort_Slice_srv_key: "sort_Slice srv_less (sort_key srv_key)"
  by (simp add: sort_Slice_def sorted_srv)

lemma demo_Dial: "Dial demo_net (sort_key srv_key) demo_dial (NewDialer demo_lookup) ''d'' 0 =
    (Inr \<lparr>tcp_conn = False, tcp_tls = False\<rparr>, 2)"
  by (simp add: Dial_def NewDialer_def ResolveClient_def resolve_def demo_lookup_def demo_srv_def srv_key_def
      or_fallback_def dial_failed_def dial_attempt_def record_addr_def JoinHostPort_def demo_dial_def NewTCP_def
      demo_net_def print_nat.simps char_of_def bit_0)

theorem Dial_in_order_witness:
  "\<exists>records. mset records = {#demo_srv ''a'' 10, demo_srv ''b'' 20#} \<and> sorted_wrt (\<lambda>a b. \<not> srv_less b a) records \<and>
     all_refuse (dial_attempt demo_dial (NewDialer demo_lookup) ''d'') records 0 = None"
proof -
  let ?d = "NewDialer demo_lookup"
  let ?r = "Inr [demo_srv ''b'' 20, demo_srv ''.'' 0, demo_srv ''a'' 10]"
  have "di_Resolver ?d (client_service ?d) ''tcp'' ''d'' 0 = (?r, 0)"
    by (simp add: NewDialer_def demo_lookup_def)
  from Dial_in_order [OF sort_Slice_srv_key this, of demo_net demo_dial] obtain records where
    "mset records = usable ?r" "sorted_wrt (\<lambda>a b. \<not> srv_less b a) records"
    "\<forall>n'. (\<exists>e. Dial demo_net (sort_key srv_key) demo_dial ?d ''d'' 0 = (Inl e, n')) \<longleftrightarrow>
        all_refuse (dial_attempt demo_dial ?d ''d'') records 0 = Some n'"
    by (auto simp: usable_def demo_srv_def)
  then show ?thesis
    by (intro exI [of _ records]) (auto simp: usable_def demo_srv_def demo_Dial add_mset_commute not_None_eq)
qed

end
