(* ===== verification/Client.thy ===== *)
theory Client
  imports Connections SessionState PluginManager XmppStream
begin

text \<open>
  The client (client.go, client_options.go) and the component (component.go).  Both hold a pointer to a
  session: sessions live in the world, a pointer is a position in its list, so that a session that nobody
  points to any more is still there.  Plugins are seen through the calls of their two life-cycle methods,
  which the world records.  The theorem follows a client through \<open>Connect\<close> and \<open>Close\<close>.
\<close>

section \<open>The world of a client\<close>

datatype plugin_call = CallInit string | CallClose string

record ('c, 'n, 'w) client_world =
  cw_net :: 'n
  cw_sessions :: "('c TCP, 'w) xmpp_Session list"
  cw_calls :: "plugin_call list"

definition close_session :: "'c net_ops \<Rightarrow> nat \<Rightarrow> ('c, 'n, 'w) client_world \<Rightarrow> string option \<times> ('c, 'n, 'w) client_world" where
  "close_session N i w =
     (case session_Close (tcp_Close N) (cw_sessions w ! i) of
        (e, s) \<Rightarrow> (e, w\<lparr>cw_sessions := (cw_sessions w)[i := s]\<rparr>))"

definition record_calls :: "(string \<Rightarrow> plugin_call) \<Rightarrow> string list \<Rightarrow> ('c, 'n, 'w) client_world \<Rightarrow> ('c, 'n, 'w) client_world" where
  "record_calls f names w = w\<lparr>cw_calls := cw_calls w @ map f names\<rparr>"

section \<open>Options\<close>

record ('n, 'w) clientOptions =
  co_tlsConfig :: "tls_config option"
  co_dialer :: "'n Dialer option"
  co_handler :: "'w handler option"
  co_directTLS :: bool
  co_noTLS :: bool
  co_plugins :: "Plugin list"

type_synonym ('n, 'w) ClientOption = "('n, 'w) clientOptions \<Rightarrow> ('n, 'w) clientOptions"

definition WithClientTLS :: "tls_config option \<Rightarrow> ('n, 'w) ClientOption" where
  "WithClientTLS config o' = o'\<lparr>co_tlsConfig := config\<rparr>"

definition WithClientDialer :: "'n Dialer option \<Rightarrow> ('n, 'w) ClientOption" where
  "WithClientDialer d o' = o'\<lparr>co_dialer := d\<rparr>"

definition WithHandler :: "'w handler option \<Rightarrow> ('n, 'w) ClientOption" where
  "WithHandler h o' = o'\<lparr>co_handler := h\<rparr>"

definition WithDirectTLS :: "('n, 'w) ClientOption" where
  "WithDirectTLS o' = o'\<lparr>co_directTLS := True\<rparr>"

definition WithNoTLS :: "('n, 'w) ClientOption" where
  "WithNoTLS o' = o'\<lparr>co_noTLS := True\<rparr>"

definition WithPlugins :: "Plugin list \<Rightarrow> ('n, 'w) ClientOption" where
  "WithPlugins ps o' = o'\<lparr>co_plugins := co_plugins o' @ ps\<rparr>"

section \<open>The client\<close>

datatype client_error = ErrDial string | ErrPlugin plugin_error | ErrSession string | ErrNotConnected

text \<open>The field \<open>handler\<close> of the struct is never used.\<close>

record ('n, 'w) Client =
  cl_addr :: JID
  cl_password :: string
  cl_session :: "nat option"
  cl_plugins :: "Manager option"
  cl_dialer :: "'n Dialer"
  cl_opts :: "('n, 'w) clientOptions"

definition NewClient :: "'n lookup \<Rightarrow> JID \<Rightarrow> string \<Rightarrow> ('n, 'w) ClientOption list \<Rightarrow> ('n, 'w) Client" where
  "NewClient def addr password opts =
     \<lparr>cl_addr = addr, cl_password = password, cl_session = None, cl_plugins = None, cl_dialer = NewDialer def,
      cl_opts = fold (\<lambda>opt o'. opt o') opts
        \<lparr>co_tlsConfig = None, co_dialer = None, co_handler = None, co_directTLS = False, co_noTLS = False,
         co_plugins = []\<rparr>\<rparr>"

text \<open>The loop over the plugins of the options, until one is refused.\<close>

fun register_all :: "Plugin list \<Rightarrow> Manager \<Rightarrow> Manager \<times> plugin_error option" where
  "register_all [] mgr = (mgr, None)"
| "register_all (p # ps) mgr =
     (case Register mgr p of
        (mgr', Some e) \<Rightarrow> (mgr', Some e)
      | (mgr', None) \<Rightarrow> register_all ps mgr')"

text \<open>
  \<open>k1\<close> to \<open>k4\<close> are the orders of the loops of the dependency sort; \<open>None\<close> is a \<open>Connect\<close> that does not
  return.
\<close>

definition client_Connect :: "'c net_ops \<Rightarrow> (SRVRecord list \<Rightarrow> SRVRecord list) \<Rightarrow> ('c, 'n) dial_ops \<Rightarrow>
    string list \<Rightarrow> string list \<Rightarrow> string list \<Rightarrow> string list \<Rightarrow> ('n, 'w) Client \<Rightarrow> ('c, 'n, 'w) client_world \<Rightarrow>
    (client_error option \<times> ('n, 'w) Client \<times> ('c, 'n, 'w) client_world) option" where
  "client_Connect N srt D k1 k2 k3 k4 c w =
     (case Dial N srt D (cl_dialer c) (jid_domain (cl_addr c)) (cw_net w) of
        (Inl e, n) \<Rightarrow> Some (Some (ErrDial e), c, w\<lparr>cw_net := n\<rparr>)
      | (Inr tr, n) \<Rightarrow>
          (let session = NewSession tr [WithLocalAddr (cl_addr c)];
               i = length (cw_sessions w);
               w1 = w\<lparr>cw_net := n, cw_sessions := cw_sessions w @ [session]\<rparr>;
               c1 = c\<lparr>cl_session := Some i\<rparr>;
               fail = (\<lambda>e w'. Some (Some (ErrPlugin e), c1\<lparr>cl_session := None\<rparr>, snd (close_session N i w')))
           in if co_plugins (cl_opts c) = [] then Some (None, c1, w1)
              else case register_all (co_plugins (cl_opts c)) NewManager of
                (mgr, Some e) \<Rightarrow> fail e w1
              | (mgr, None) \<Rightarrow>
                  (case Initialize k1 k2 k3 k4 mgr of
                     None \<Rightarrow> None
                   | Some (mgr', calls, Some e) \<Rightarrow> fail e (record_calls CallInit calls w1)
                   | Some (mgr', calls, None) \<Rightarrow>
                       Some (None, c1\<lparr>cl_plugins := Some mgr'\<rparr>, record_calls CallInit calls w1))))"

text \<open>\<open>encode\<close> is the encoder on the transport, \<open>ctx\<close> and \<open>pick\<close> as in \<open>session_Send\<close>.\<close>

definition client_Send :: "('v \<Rightarrow> 'c TCP \<Rightarrow> string option \<times> 'c TCP) \<Rightarrow> string option \<Rightarrow> bool \<Rightarrow> 'v \<Rightarrow> ('n, 'w) Client \<Rightarrow>
    ('c, 'n, 'w) client_world \<Rightarrow> client_error option \<times> ('c, 'n, 'w) client_world" where
  "client_Send encode ctx pick st c w =
     (case cl_session c of
        None \<Rightarrow> (Some ErrNotConnected, w)
      | Some i \<Rightarrow>
          (case session_Send encode ctx pick st (cw_sessions w ! i) of
             (e, s) \<Rightarrow> (map_option ErrSession e, w\<lparr>cw_sessions := (cw_sessions w)[i := s]\<rparr>)))"

definition client_Close :: "'c net_ops \<Rightarrow> ('n, 'w) Client \<Rightarrow> ('c, 'n, 'w) client_world \<Rightarrow>
    client_error option \<times> ('n, 'w) Client \<times> ('c, 'n, 'w) client_world" where
  "client_Close N c w =
     (let (calls, e1) = (case cl_plugins c of None \<Rightarrow> ([], None) | Some mgr \<Rightarrow> Close mgr);
          firstErr = map_option ErrPlugin e1;
          w1 = record_calls CallClose calls w
      in case cl_session c of
           None \<Rightarrow> (firstErr, c\<lparr>cl_plugins := None\<rparr>, w1)
         | Some i \<Rightarrow>
             (case close_session N i w1 of
                (e2, w2) \<Rightarrow>
                  ((if firstErr = None then map_option ErrSession e2 else firstErr),
                   c\<lparr>cl_plugins := None, cl_session := None\<rparr>, w2)))"

definition client_Plugin :: "('n, 'w) Client \<Rightarrow> string \<Rightarrow> Plugin option" where
  "client_Plugin c name = (case cl_plugins c of None \<Rightarrow> None | Some mgr \<Rightarrow> Get mgr name)"

definition client_JID :: "('n, 'w) Client \<Rightarrow> JID" where
  "client_JID c = cl_addr c"

section \<open>The component\<close>

record Component =
  cp_domain :: string
  cp_secret :: string
  cp_session :: "nat option"
  cp_addr :: string

definition WithComponentAddr :: "string \<Rightarrow> Component \<Rightarrow> Component" where
  "WithComponentAddr addr c = c\<lparr>cp_addr := addr\<rparr>"

definition NewComponent :: "string \<Rightarrow> string \<Rightarrow> (Component \<Rightarrow> Component) list \<Rightarrow> Component" where
  "NewComponent domain secret opts =
     fold (\<lambda>opt c. opt c) opts
       \<lparr>cp_domain = domain, cp_secret = secret, cp_session = None, cp_addr = ''localhost:5275''\<rparr>"

datatype component_error = CompDial string | CompJID jid_error | CompWrite string | CompNotConnected

definition component_header :: "JID \<Rightarrow> string" where
  "component_header j =
     stream_Open \<lparr>sh_To = j, sh_From = zeroJID, sh_ID = '''', sh_Version = '''', sh_Lang = '''',
       sh_NS = ''jabber:component:accept''\<rparr>"

text \<open>\<open>dial\<close> is \<open>net.Dial\<close> for TCP.  A connection closed before there is a session leaves no trace.\<close>

definition component_Connect :: "'c net_ops \<Rightarrow> (string \<Rightarrow> 'n \<Rightarrow> (string + 'c) \<times> 'n) \<Rightarrow> Component \<Rightarrow>
    ('c, 'n, 'w) client_world \<Rightarrow> component_error option \<times> Component \<times> ('c, 'n, 'w) client_world" where
  "component_Connect N dial c w =
     (case dial (cp_addr c) (cw_net w) of
        (Inl e, n) \<Rightarrow> (Some (CompDial e), c, w\<lparr>cw_net := n\<rparr>)
      | (Inr conn, n) \<Rightarrow>
          (case jid_New '''' (cp_domain c) '''' of
             Inl e \<Rightarrow> (Some (CompJID e), c, w\<lparr>cw_net := n\<rparr>)
           | Inr domainJID \<Rightarrow>
               (let session = NewSession (NewTCP N conn) [WithLocalAddr domainJID];
                    i = length (cw_sessions w)
                in case tcp_Write N (component_header domainJID) (ss_trans session) of
                     (e, t) \<Rightarrow>
                       (let w1 = w\<lparr>cw_net := n, cw_sessions := cw_sessions w @ [session\<lparr>ss_trans := t\<rparr>]\<rparr>
                        in case e of
                             Some m \<Rightarrow> (Some (CompWrite m), c, snd (close_session N i w1))
                           | None \<Rightarrow> (None, c\<lparr>cp_session := Some i\<rparr>, w1)))))"

text \<open>\<open>sha1\<close> is the digest of crypto/sha1.\<close>

definition Handshake :: "(string \<Rightarrow> bytes) \<Rightarrow> Component \<Rightarrow> string \<Rightarrow> string" where
  "Handshake sha1 c streamID = hex_EncodeToString (sha1 (streamID @ cp_secret c))"

definition component_Send :: "('v \<Rightarrow> 'c TCP \<Rightarrow> string option \<times> 'c TCP) \<Rightarrow> string option \<Rightarrow> bool \<Rightarrow> 'v \<Rightarrow> Component \<Rightarrow>
    ('c, 'n, 'w) client_world \<Rightarrow> component_error option \<times> ('c, 'n, 'w) client_world" where
  "component_Send encode ctx pick st c w =
     (case cp_session c of
        None \<Rightarrow> (Some CompNotConnected, w)
      | Some i \<Rightarrow>
          (case session_Send encode ctx pick st (cw_sessions w ! i) of
             (e, s) \<Rightarrow> (map_option CompWrite e, w\<lparr>cw_sessions := (cw_sessions w)[i := s]\<rparr>)))"

definition component_Close :: "'c net_ops \<Rightarrow> Component \<Rightarrow> ('c, 'n, 'w) client_world \<Rightarrow>
    string option \<times> ('c, 'n, 'w) client_world" where
  "component_Close N c w = (case cp_session c of None \<Rightarrow> (None, w) | Some i \<Rightarrow> close_session N i w)"

section \<open>The life of a client\<close>

lemma close_session_closes:
  assumes "i < length (cw_sessions w)"
  shows "cw_sessions (snd (close_session N i w)) =
      (cw_sessions w)[i := snd (session_Close (tcp_Close N) (cw_sessions w ! i))]"
    and "ss_closed (cw_sessions (snd (close_session N i w)) ! i)"
    and "cw_calls (snd (close_session N i w)) = cw_calls w"
  using assms by (auto simp: close_session_def session_Close_def split: prod.split)

lemma record_calls_simps [simp]:
  "cw_sessions (record_calls f names w) = cw_sessions w" "cw_net (record_calls f names w) = cw_net w"
  "cw_calls (record_calls f names w) = cw_calls w @ map f names"
  by (simp_all add: record_calls_def)

lemma register_all_plugins:
  "snd (register_all ps mgr) = None \<Longrightarrow>
     distinct (map Name ps) \<and> dom (plugins (fst (register_all ps mgr))) = dom (plugins mgr) \<union> Name ` set ps \<and>
     set (map Name ps) \<inter> dom (plugins mgr) = {}"
proof (induction ps arbitrary: mgr)
  case (Cons p ps)
  then have free: "plugins mgr (Name p) = None"
    by (auto simp: Register_def split: if_splits)
  let ?m = "mgr\<lparr>plugins := (plugins mgr)(Name p \<mapsto> p)\<rparr>"
  have r: "register_all (p # ps) mgr = register_all ps ?m"
    using free by (simp add: Register_def)
  with Cons.IH [of ?m] Cons.prems have "distinct (map Name ps)"
    "dom (plugins (fst (register_all ps ?m))) = dom (plugins ?m) \<union> Name ` set ps"
    "set (map Name ps) \<inter> dom (plugins ?m) = {}" by auto
  with r free show ?case by auto
qed simp

text \<open>What is left of a \<open>Connect\<close> that failed: at most one new session, which is closed.\<close>

definition nothing_left :: "('c, 'n, 'w) client_world \<Rightarrow> ('c, 'n, 'w) client_world \<Rightarrow> bool" where
  "nothing_left w w' \<longleftrightarrow> cw_sessions w' = cw_sessions w \<or> (\<exists>s. cw_sessions w' = cw_sessions w @ [s] \<and> ss_closed s)"

lemma nothing_left_close:
  "cw_sessions w1 = cw_sessions w @ [s] \<Longrightarrow> nothing_left w (snd (close_session N (length (cw_sessions w)) w1))"
  using close_session_closes(1,2) [of "length (cw_sessions w)" w1 N] by (simp add: nothing_left_def)

text \<open>The plugins of the options, as the manager that \<open>Connect\<close> makes holds them.\<close>

definition client_manager :: "('n, 'w) Client \<Rightarrow> Manager" where
  "client_manager c = fst (register_all (co_plugins (cl_opts c)) NewManager)"

lemma Connect_cases:
  assumes "enumerates k1 (plugins (client_manager c))" "enumerates k2 (plugins (client_manager c))"
    "enumerates k3 (plugins (client_manager c))" "enumerates k4 (plugins (client_manager c))"
  obtains (refused) e n where "Dial N srt D (cl_dialer c) (jid_domain (cl_addr c)) (cw_net w) = (Inl e, n)"
      "client_Connect N srt D k1 k2 k3 k4 c w = Some (Some (ErrDial e), c, w\<lparr>cw_net := n\<rparr>)"
  | (failed) e w' where "client_Connect N srt D k1 k2 k3 k4 c w = Some (Some (ErrPlugin e), c\<lparr>cl_session := None\<rparr>, w')"
      "nothing_left w w'"
  | (connected) tr n mgr calls where
      "Dial N srt D (cl_dialer c) (jid_domain (cl_addr c)) (cw_net w) = (Inr tr, n)"
      "client_Connect N srt D k1 k2 k3 k4 c w =
         Some (None, c\<lparr>cl_session := Some (length (cw_sessions w)), cl_plugins := mgr\<rparr>,
           record_calls CallInit calls
             (w\<lparr>cw_net := n, cw_sessions := cw_sessions w @ [NewSession tr [WithLocalAddr (cl_addr c)]]\<rparr>))"
      "co_plugins (cl_opts c) = [] \<and> calls = [] \<and> mgr = cl_plugins c \<or>
       (\<exists>m. mgr = Some m \<and> Initialize k1 k2 k3 k4 (client_manager c) = Some (m, calls, None)) \<and>
       snd (register_all (co_plugins (cl_opts c)) NewManager) = None"
proof (cases "Dial N srt D (cl_dialer c) (jid_domain (cl_addr c)) (cw_net w)")
  case (Pair r n)
  note dial = this
  show ?thesis
  proof (cases r)
    case (Inl e)
    with dial show ?thesis by (intro refused) (auto simp: client_Connect_def)
  next
    case (Inr tr)
    let ?w1 = "w\<lparr>cw_net := n, cw_sessions := cw_sessions w @ [NewSession tr [WithLocalAddr (cl_addr c)]]\<rparr>"
    obtain mgr err where reg: "register_all (co_plugins (cl_opts c)) NewManager = (mgr, err)" by fastforce
    then have mgr: "client_manager c = mgr" by (simp add: client_manager_def)
    obtain m' calls err' where init: "Initialize k1 k2 k3 k4 mgr = Some (m', calls, err')"
      using Initialize_returns [OF assms] mgr by (cases "Initialize k1 k2 k3 k4 mgr") auto
    note eval = client_Connect_def Let_def dial Inr reg init
    consider (none) "co_plugins (cl_opts c) = []" | (dup) e where "co_plugins (cl_opts c) \<noteq> []" "err = Some e"
      | (bad) e where "co_plugins (cl_opts c) \<noteq> []" "err = None" "err' = Some e"
      | (good) "co_plugins (cl_opts c) \<noteq> []" "err = None" "err' = None" by fastforce
    then show ?thesis
    proof cases
      case none
      then show ?thesis
        using dial Inr by (intro connected [of tr n "cl_plugins c" "[]"]) (auto simp: eval record_calls_def)
    next
      case (dup e)
      then show ?thesis
        by (intro failed [of e "snd (close_session N (length (cw_sessions w)) ?w1)"] nothing_left_close) (simp_all add: eval)
    next
      case (bad e)
      then show ?thesis
        by (intro failed [of e "snd (close_session N (length (cw_sessions w)) (record_calls CallInit calls ?w1))"]
            nothing_left_close) (simp_all add: eval)
    next
      case good
      then show ?thesis
        using dial Inr mgr init reg by (intro connected [of tr n "Some m'" calls]) (simp_all add: eval)
    qed
  qed
qed

text \<open>A connected client: its session is open, and the calls are those of its plugins, dependencies first.\<close>

definition connected_client :: "('n, 'w) Client \<Rightarrow> ('c, 'n, 'w) client_world \<Rightarrow> 'c TCP \<Rightarrow> string list \<Rightarrow>
    ('n, 'w) Client \<Rightarrow> ('c, 'n, 'w) client_world \<Rightarrow> bool" where
  "connected_client c w tr calls c' w' \<longleftrightarrow>
     cl_session c' = Some (length (cw_sessions w)) \<and>
     cw_sessions w' = cw_sessions w @ [NewSession tr [WithLocalAddr (cl_addr c)]] \<and>
     cw_calls w' = cw_calls w @ map CallInit calls \<and>
     mset calls = mset (map Name (co_plugins (cl_opts c))) \<and> topo_ordered (deps_of (client_manager c)) calls"

lemma Initialize_client:
  assumes "enumerates k1 (plugins (client_manager c))" "enumerates k2 (plugins (client_manager c))"
    "enumerates k3 (plugins (client_manager c))" "enumerates k4 (plugins (client_manager c))"
    and "Initialize k1 k2 k3 k4 (client_manager c) = Some (m, calls, None)"
    and "snd (register_all (co_plugins (cl_opts c)) NewManager) = None"
  shows "mset calls = mset (map Name (co_plugins (cl_opts c)))" "topo_ordered (deps_of (client_manager c)) calls"
    "fst (Close m) = rev calls"
proof -
  note i = Initialize_in_dependency_order [OF assms(1-5)]
  have "distinct (map Name (co_plugins (cl_opts c)))" "dom (plugins (client_manager c)) = Name ` set (co_plugins (cl_opts c))"
    using register_all_plugins [OF assms(6)] by (auto simp: client_manager_def NewManager_def)
  with i show "mset calls = mset (map Name (co_plugins (cl_opts c)))"
    by (metis list.set_map set_eq_iff_mset_eq_distinct)
  show "topo_ordered (deps_of (client_manager c)) calls" "fst (Close m) = rev calls"
    using i Close_reverses_Initialize [OF assms(1-5)] by simp_all
qed

text \<open>What \<open>Close\<close> does to a client that is connected.\<close>

lemma client_Close_connected:
  assumes "cl_session c = Some i" "i < length (cw_sessions w)"
    and "(case cl_plugins c of None \<Rightarrow> [] | Some m \<Rightarrow> fst (Close m)) = closes"
  shows "\<exists>e w'. client_Close N c w = (e, c\<lparr>cl_plugins := None, cl_session := None\<rparr>, w') \<and>
    cw_calls w' = cw_calls w @ map CallClose closes \<and>
    cw_sessions w' = (cw_sessions w)[i := snd (session_Close (tcp_Close N) (cw_sessions w ! i))] \<and>
    ss_closed (cw_sessions w' ! i)"
proof -
  obtain calls e1 where p: "(case cl_plugins c of None \<Rightarrow> ([], None) | Some mgr \<Rightarrow> Close mgr) = (calls, e1)" by fastforce
  with assms(3) have "calls = closes" by (cases "cl_plugins c") auto
  moreover obtain e2 w2 where s: "close_session N i (record_calls CallClose calls w) = (e2, w2)" by fastforce
  moreover have "cw_calls w2 = cw_calls w @ map CallClose calls"
    "cw_sessions w2 = (cw_sessions w)[i := snd (session_Close (tcp_Close N) (cw_sessions w ! i))]"
    "ss_closed (cw_sessions w2 ! i)"
    using close_session_closes [of i "record_calls CallClose calls w" N] assms(2) s by simp_all
  ultimately show ?thesis
    using p assms(1) by (simp add: client_Close_def Let_def)
qed

text \<open>
  C5: the life of a client.  \<open>Connect\<close> of a new client returns whatever order Go gives the map loops of the
  dependency sort.  When it succeeds the client has one new open session, with the address of the client and
  on the connection that the dialer made, and every plugin of its options was initialised once, behind all
  its dependencies; \<open>Close\<close> then closes the plugins in the reverse order and the session, and the client is
  as it was.  When it fails the client has no session and the session that may have been made is closed.
  Sessions of others are never touched.
\<close>

theorem client_lifecycle:
  assumes "enumerates k1 (plugins (client_manager c))" "enumerates k2 (plugins (client_manager c))"
    "enumerates k3 (plugins (client_manager c))" "enumerates k4 (plugins (client_manager c))"
    and "cl_session c = None" "cl_plugins c = None"
  shows "\<exists>err c' w'. client_Connect N srt D k1 k2 k3 k4 c w = Some (err, c', w') \<and>
    (err = None \<longrightarrow>
       (\<exists>tr calls n. Dial N srt D (cl_dialer c) (jid_domain (cl_addr c)) (cw_net w) = (Inr tr, n) \<and>
          connected_client c w tr calls c' w' \<and>
          (\<exists>e w''. client_Close N c' w' = (e, c, w'') \<and> cw_calls w'' = cw_calls w' @ map CallClose (rev calls) \<and>
             (\<exists>s. cw_sessions w'' = cw_sessions w @ [s] \<and> ss_closed s)))) \<and>
    (err \<noteq> None \<longrightarrow> c' = c \<and> nothing_left w w')"
  using assms(1-4)
proof (cases rule: Connect_cases [where N = N and srt = srt and D = D and w = w])
  case (refused e n)
  then show ?thesis by (simp add: nothing_left_def)
next
  case (failed e w')
  then show ?thesis using assms(5) by simp
next
  case (connected tr n mgr calls)
  let ?i = "length (cw_sessions w)"
  let ?c' = "c\<lparr>cl_session := Some ?i, cl_plugins := mgr\<rparr>"
  let ?w' = "record_calls CallInit calls
      (w\<lparr>cw_net := n, cw_sessions := cw_sessions w @ [NewSession tr [WithLocalAddr (cl_addr c)]]\<rparr>)"
  have p: "mset calls = mset (map Name (co_plugins (cl_opts c)))" "topo_ordered (deps_of (client_manager c)) calls"
    "(case mgr of None \<Rightarrow> [] | Some m \<Rightarrow> fst (Close m)) = rev calls"
    using connected(3) assms(6) Initialize_client [OF assms(1-4)] by auto
  have "connected_client c w tr calls ?c' ?w'"
    using p by (simp add: connected_client_def)
  moreover have "\<exists>e w''. client_Close N ?c' ?w' = (e, c, w'') \<and> cw_calls w'' = cw_calls ?w' @ map CallClose (rev calls) \<and>
      (\<exists>s. cw_sessions w'' = cw_sessions w @ [s] \<and> ss_closed s)"
    using client_Close_connected [of ?c' ?i ?w' "rev calls" N] p(3) assms(5,6) by (auto simp: nth_append)
  ultimately show ?thesis
    using connected(1,2) by auto
qed

definition demo_client :: "(nat, unit) Client" where
  "demo_client = NewClient demo_lookup \<lparr>jid_local = ''u'', jid_domain = ''d'', jid_resource = ''''\<rparr> ''pw''
     [WithPlugins [\<lparr>Name = ''caps'', Version = ''1.0'', Dependencies = [''disco''], Initialize_err = None,
         Close_err = Some ''busy''\<rparr>,
       \<lparr>Name = ''disco'', Version = ''1.0'', Dependencies = [], Initialize_err = None, Close_err = None\<rparr>]]"

lemma demo_client_manager: "plugins (client_manager demo_client) = plugins (demo_manager [])"
  by (rule ext) (simp add: client_manager_def demo_client_def NewClient_def WithPlugins_def Register_def NewManager_def
      demo_manager_plugins)

theorem client_lifecycle_witness:
  "\<exists>c' w' e w'' calls. client_Connect demo_net (sort_key srv_key) demo_dial [''disco'', ''caps''] [''disco'', ''caps'']
      [''caps'', ''disco''] [''caps'', ''disco''] demo_client \<lparr>cw_net = 0, cw_sessions = [], cw_calls = []\<rparr> =
      Some (None, c', w') \<and> client_Close demo_net c' w' = (e, demo_client, w'') \<and>
    cw_calls w'' = map CallInit calls @ map CallClose (rev calls) \<and> mset calls = {#''caps'', ''disco''#}"
proof -
  let ?w = "\<lparr>cw_net = 0, cw_sessions = [], cw_calls = []\<rparr> :: (bool, nat, unit) client_world"
  let ?connect = "client_Connect demo_net (sort_key srv_key) demo_dial [''disco'', ''caps''] [''disco'', ''caps'']
      [''caps'', ''disco''] [''caps'', ''disco''] demo_client ?w"
  have reg: "register_all (co_plugins (cl_opts demo_client)) NewManager = (demo_manager [], None)"
    by (simp add: demo_client_def NewClient_def WithPlugins_def Register_def NewManager_def demo_manager_def fun_upd_twist)
  have "\<exists>c' w'. ?connect = Some (None, c', w')"
    unfolding client_Connect_def reg
    by (simp add: demo_client_def NewClient_def WithPlugins_def demo_Dial demo_Initialize Let_def)
  then obtain c' w' where c: "?connect = Some (None, c', w')" by blast
  have "cl_session demo_client = None" "cl_plugins demo_client = None"
    by (simp_all add: demo_client_def NewClient_def)
  from client_lifecycle [OF demo_manager_enum(1,1,2,2) [of "[]", folded demo_client_manager] this,
      of demo_net "sort_key srv_key" demo_dial ?w] c
  show ?thesis
    by (fastforce simp: connected_client_def demo_client_def NewClient_def WithPlugins_def)
qed

section \<open>Observations\<close>

text \<open>Of the options only the plugins have an effect: \<open>Connect\<close> dials with the dialer made by \<open>NewClient\<close>.\<close>

lemma options_without_effect:
  assumes "co_plugins (cl_opts c) = co_plugins (cl_opts c')" "cl_addr c = cl_addr c'" "cl_dialer c = cl_dialer c'"
  shows "map_option (\<lambda>(e, _, w). (e, w)) (client_Connect N srt D k1 k2 k3 k4 c w) =
    map_option (\<lambda>(e, _, w). (e, w)) (client_Connect N srt D k1 k2 k3 k4 c' w)"
  unfolding client_Connect_def Let_def assms by (simp split: sum.split prod.split option.split)

text \<open>
  \<open>Connect\<close> on a client that is connected puts a new session in the place of the old one, which stays open
  and is out of reach of \<open>Close\<close>.
\<close>

lemma Connect_twice_leaks:
  assumes "cl_session c = Some i" "i < length (cw_sessions w)" "\<not> ss_closed (cw_sessions w ! i)"
    and "client_Connect N srt D k1 k2 k3 k4 c w = Some (None, c', w')"
    and "client_Close N c' w' = (e, c'', w'')"
  shows "cl_session c'' = None \<and> \<not> ss_closed (cw_sessions w'' ! i)"
proof -
  obtain tr where c': "cl_session c' = Some (length (cw_sessions w))"
    and s': "cw_sessions w' = cw_sessions w @ [NewSession tr [WithLocalAddr (cl_addr c)]]"
    using assms(4) by (auto simp: client_Connect_def Let_def split: sum.splits prod.splits option.splits if_splits)
  have "\<exists>e w''. client_Close N c' w' = (e, c'\<lparr>cl_plugins := None, cl_session := None\<rparr>, w'') \<and>
      cw_sessions w'' = (cw_sessions w')[length (cw_sessions w) := snd (session_Close (tcp_Close N) (cw_sessions w' ! length (cw_sessions w)))]"
    using client_Close_connected [of c' "length (cw_sessions w)" w' _ N] c' s' by fastforce
  then show ?thesis
    using assms(2,3,5) s' by (auto simp: nth_append)
qed

text \<open>A component keeps its session when it is closed; what it sends then is refused by the session.\<close>

lemma component_closed_refuses:
  assumes "cp_session c = Some i" "i < length (cw_sessions w)" "component_Close N c w = (e, w')"
  shows "component_Send encode None pick st c w' = (Some (CompWrite ''xmpp: session closed''), w')"
proof -
  have "ss_closed (cw_sessions w' ! i)"
    using assms close_session_closes(2) [OF assms(2), of N] by (simp add: component_Close_def)
  then show ?thesis
    using assms(1) by (simp add: component_Send_def session_Send_def guarded_def)
qed

end
