(* ===== verification/Server.thy ===== *)
theory Server
  imports Client
begin

text \<open>
  The server of the library (server.go, server_options.go).  The accept loop, one goroutine per connection
  and the callers of \<open>Close\<close> run concurrently; the mutex makes \<open>Close\<close>, the registration of a session and
  its removal single steps.  The state holds the shared fields of the struct, the position of the accept
  loop, and the goroutines of all connections; \<open>srv_step\<close> is one step of one of them.  The theorem is about
  shutdown; the lemmas after it state what goes wrong when \<open>Close\<close> meets a connection or a start that is
  half done, and that a cancelled context does not stop a server that waits for a connection.
\<close>

section \<open>Options\<close>

text \<open>
  A storage backend as the server sees it: \<open>Init\<close>, \<open>Close\<close> and \<open>Authenticate\<close> of its user store, if it has
  one.  An \<open>AuthFunc\<close> may read and change the state of the backend.
\<close>

type_synonym 'u AuthFunc = "string \<Rightarrow> string \<Rightarrow> 'u \<Rightarrow> (string + bool) \<times> 'u"

record 'u backend =
  be_Init :: "'u \<Rightarrow> string option \<times> 'u"
  be_Close :: "'u \<Rightarrow> string option \<times> 'u"
  be_Authenticate :: "'u AuthFunc option"

record 'u serverOptions =
  so_addr :: string
  so_tlsCert :: string
  so_tlsKey :: string
  so_authFunc :: "'u AuthFunc option"
  so_sessionHandler :: bool
  so_storage :: "'u backend option"
  so_plugins :: "Plugin list"

text \<open>Of a session handler only whether there is one; what it does to its session is left open below.\<close>

definition WithServerAddr :: "string \<Rightarrow> 'u serverOptions \<Rightarrow> 'u serverOptions" where
  "WithServerAddr addr o' = o'\<lparr>so_addr := addr\<rparr>"

definition WithServerTLS :: "string \<Rightarrow> string \<Rightarrow> 'u serverOptions \<Rightarrow> 'u serverOptions" where
  "WithServerTLS cert key o' = o'\<lparr>so_tlsCert := cert, so_tlsKey := key\<rparr>"

definition WithServerAuth :: "'u AuthFunc option \<Rightarrow> 'u serverOptions \<Rightarrow> 'u serverOptions" where
  "WithServerAuth f o' = o'\<lparr>so_authFunc := f\<rparr>"

definition WithServerSessionHandler :: "'u serverOptions \<Rightarrow> 'u serverOptions" where
  "WithServerSessionHandler o' = o'\<lparr>so_sessionHandler := True\<rparr>"

definition WithServerStorage :: "'u backend option \<Rightarrow> 'u serverOptions \<Rightarrow> 'u serverOptions" where
  "WithServerStorage s o' = o'\<lparr>so_storage := s\<rparr>"

definition WithServerPlugins :: "Plugin list \<Rightarrow> 'u serverOptions \<Rightarrow> 'u serverOptions" where
  "WithServerPlugins ps o' = o'\<lparr>so_plugins := so_plugins o' @ ps\<rparr>"

section \<open>The server\<close>

datatype server_error = SvStorage string | SvPlugin plugin_error | SvNet string | SvContext string

text \<open>
  Where \<open>ListenAndServe\<close> is: not called, with a listener that is not yet in the struct, at the select of the
  loop, in \<open>Accept\<close>, or returned.  Where the goroutine of a connection is: before the session is in the map,
  in the session handler, after \<open>session.Close\<close>, and done.
\<close>

datatype main_phase = Idle | Listening | AtSelect | AtAccept | Stopped "server_error option"

datatype conn_phase = Accepted | Handling | Closing | Gone

record ('c, 'w) handled =
  hd_addr :: string
  hd_phase :: conn_phase
  hd_session :: "('c TCP, 'w) xmpp_Session"

datatype server_event = StorageInit | PluginCall plugin_call | ListenerClosed | SessionClosed nat | StorageClosed

record ('c, 'w, 'u) Server =
  sv_domain :: string
  sv_opts :: "'u serverOptions"
  sv_listener :: bool
  sv_sessions :: "string \<rightharpoonup> nat"
  sv_plugins :: "Manager option"
  sv_closed :: bool
  sv_open :: bool
  sv_main :: main_phase
  sv_conns :: "('c, 'w) handled list"
  sv_store :: 'u
  sv_events :: "server_event list"

text \<open>\<open>sv_listener\<close>: the field is not nil; \<open>sv_open\<close>: the socket of the listener is open.\<close>

definition NewServer :: "string \<Rightarrow> 'u \<Rightarrow> ('u serverOptions \<Rightarrow> 'u serverOptions) list \<Rightarrow> ('c, 'w, 'u) Server" where
  "NewServer domain u opts =
     \<lparr>sv_domain = domain,
      sv_opts = fold (\<lambda>opt o'. opt o') opts
        \<lparr>so_addr = '''', so_tlsCert = '''', so_tlsKey = '''', so_authFunc = None, so_sessionHandler = False,
         so_storage = None, so_plugins = []\<rparr>,
      sv_listener = False, sv_sessions = Map.empty, sv_plugins = None, sv_closed = False, sv_open = False,
      sv_main = Idle, sv_conns = [], sv_store = u, sv_events = []\<rparr>"

definition log_event :: "server_event list \<Rightarrow> ('c, 'w, 'u) Server \<Rightarrow> ('c, 'w, 'u) Server" where
  "log_event es s = s\<lparr>sv_events := sv_events s @ es\<rparr>"

subsection \<open>ListenAndServe up to the loop\<close>

definition init_storage :: "('c, 'w, 'u) Server \<Rightarrow> server_error option \<times> ('c, 'w, 'u) Server" where
  "init_storage s =
     (case so_storage (sv_opts s) of
        None \<Rightarrow> (None, s)
      | Some st \<Rightarrow>
          (case be_Init st (sv_store s) of
             (Some e, u) \<Rightarrow> (Some (SvStorage e), log_event [StorageInit] (s\<lparr>sv_store := u\<rparr>))
           | (None, u) \<Rightarrow>
               (None, log_event [StorageInit]
                  (s\<lparr>sv_store := u,
                     sv_opts := (if so_authFunc (sv_opts s) = None
                                 then (sv_opts s)\<lparr>so_authFunc := be_Authenticate st\<rparr> else sv_opts s)\<rparr>))))"

definition init_plugins :: "string list \<Rightarrow> string list \<Rightarrow> string list \<Rightarrow> string list \<Rightarrow> ('c, 'w, 'u) Server \<Rightarrow>
    (server_error option \<times> ('c, 'w, 'u) Server) option" where
  "init_plugins k1 k2 k3 k4 s =
     (if so_plugins (sv_opts s) = [] then Some (None, s)
      else case register_all (so_plugins (sv_opts s)) NewManager of
        (mgr, Some e) \<Rightarrow> Some (Some (SvPlugin e), s)
      | (mgr, None) \<Rightarrow>
          (case Initialize k1 k2 k3 k4 mgr of
             None \<Rightarrow> None
           | Some (mgr', calls, err) \<Rightarrow>
               (let s' = log_event (map (\<lambda>n. PluginCall (CallInit n)) calls) s
                in Some (case err of Some e \<Rightarrow> (Some (SvPlugin e), s') | None \<Rightarrow> (None, s'\<lparr>sv_plugins := Some mgr'\<rparr>)))))"

text \<open>\<open>listen\<close> opens the socket on an address, with the pair of certificate and key files if both are given.\<close>

definition open_listener :: "(string \<Rightarrow> (string \<times> string) option \<Rightarrow> string option) \<Rightarrow> ('c, 'w, 'u) Server \<Rightarrow>
    server_error option \<times> ('c, 'w, 'u) Server" where
  "open_listener listen s =
     (let o' = sv_opts s;
          addr = (if so_addr o' = '''' then '':5222'' else so_addr o');
          tls = (if so_tlsCert o' \<noteq> '''' \<and> so_tlsKey o' \<noteq> '''' then Some (so_tlsCert o', so_tlsKey o') else None)
      in case listen addr tls of
           Some e \<Rightarrow> (Some (SvNet e), s)
         | None \<Rightarrow> (None, s\<lparr>sv_open := True\<rparr>))"

definition server_Listen :: "(string \<Rightarrow> (string \<times> string) option \<Rightarrow> string option) \<Rightarrow> string list \<Rightarrow> string list \<Rightarrow>
    string list \<Rightarrow> string list \<Rightarrow> ('c, 'w, 'u) Server \<Rightarrow> ('c, 'w, 'u) Server option" where
  "server_Listen listen k1 k2 k3 k4 s =
     (case init_storage s of
        (Some e, s1) \<Rightarrow> Some (s1\<lparr>sv_main := Stopped (Some e)\<rparr>)
      | (None, s1) \<Rightarrow>
          (case init_plugins k1 k2 k3 k4 s1 of
             None \<Rightarrow> None
           | Some (Some e, s2) \<Rightarrow> Some (s2\<lparr>sv_main := Stopped (Some e)\<rparr>)
           | Some (None, s2) \<Rightarrow>
               (case open_listener listen s2 of
                  (Some e, s3) \<Rightarrow> Some (s3\<lparr>sv_main := Stopped (Some e)\<rparr>)
                | (None, s3) \<Rightarrow> Some (s3\<lparr>sv_main := Listening\<rparr>))))"

subsection \<open>Close\<close>

definition first_error :: "server_error option \<Rightarrow> server_error option \<Rightarrow> server_error option" where
  "first_error firstErr e = (if firstErr = None then e else firstErr)"

definition close_handled :: "'c net_ops \<Rightarrow> nat \<Rightarrow> ('c, 'w, 'u) Server \<Rightarrow> string option \<times> ('c, 'w, 'u) Server" where
  "close_handled N i s =
     (case session_Close (tcp_Close N) (hd_session (sv_conns s ! i)) of
        (e, ses) \<Rightarrow> (e, s\<lparr>sv_conns := (sv_conns s)[i := (sv_conns s ! i)\<lparr>hd_session := ses\<rparr>]\<rparr>))"

text \<open>The loop over the sessions in the order \<open>is\<close>.\<close>

fun close_sessions :: "'c net_ops \<Rightarrow> nat list \<Rightarrow> server_error option \<Rightarrow> ('c, 'w, 'u) Server \<Rightarrow>
    server_error option \<times> ('c, 'w, 'u) Server" where
  "close_sessions N [] firstErr s = (firstErr, s)"
| "close_sessions N (i # is) firstErr s =
     (case close_handled N i s of
        (e, s') \<Rightarrow> close_sessions N is (first_error firstErr (map_option SvNet e)) (log_event [SessionClosed i] s'))"

text \<open>
  \<open>ks\<close> is the order in which the map of sessions is visited, \<open>lnErr\<close> the error of closing the listener.
\<close>

definition server_Close :: "'c net_ops \<Rightarrow> string list \<Rightarrow> string option \<Rightarrow> ('c, 'w, 'u) Server \<Rightarrow>
    server_error option \<times> ('c, 'w, 'u) Server" where
  "server_Close N ks lnErr s =
     (if sv_closed s then (None, s)
      else
        (let s1 = s\<lparr>sv_closed := True\<rparr>;
             (e1, s2) = (if sv_listener s1 then (map_option SvNet lnErr, log_event [ListenerClosed] (s1\<lparr>sv_open := False\<rparr>))
                         else (None, s1));
             (e2, s3) = close_sessions N (range_values ks (sv_sessions s2)) e1 s2;
             (e3, s4) = (case sv_plugins s3 of
                 None \<Rightarrow> (e2, s3)
               | Some mgr \<Rightarrow>
                   (first_error e2 (map_option SvPlugin (snd (Close mgr))),
                    log_event (map (\<lambda>n. PluginCall (CallClose n)) (fst (Close mgr))) (s3\<lparr>sv_plugins := None\<rparr>)))
         in case so_storage (sv_opts s4) of
              None \<Rightarrow> (e3, s4)
            | Some st \<Rightarrow>
                (case be_Close st (sv_store s4) of
                   (e, u) \<Rightarrow> (first_error e3 (map_option SvStorage e), log_event [StorageClosed] (s4\<lparr>sv_store := u\<rparr>)))))"

definition server_Plugin :: "('c, 'w, 'u) Server \<Rightarrow> string \<Rightarrow> Plugin option" where
  "server_Plugin s name = (case sv_plugins s of None \<Rightarrow> None | Some mgr \<Rightarrow> Get mgr name)"

definition SessionCount :: "('c, 'w, 'u) Server \<Rightarrow> nat" where
  "SessionCount s = card (dom (sv_sessions s))"

subsection \<open>The goroutines\<close>

definition set_phase :: "nat \<Rightarrow> conn_phase \<Rightarrow> ('c, 'w, 'u) Server \<Rightarrow> ('c, 'w, 'u) Server" where
  "set_phase i ph s = s\<lparr>sv_conns := (sv_conns s)[i := (sv_conns s ! i)\<lparr>hd_phase := ph\<rparr>]\<rparr>"

definition new_conn :: "'c net_ops \<Rightarrow> 'c \<Rightarrow> ('c, 'w) handled" where
  "new_conn N c =
     \<lparr>hd_addr = nc_RemoteAddr N c, hd_phase = Accepted,
      hd_session = NewSession (NewTCP N c) [WithState StateServer, WithRemoteAddr zeroJID]\<rparr>"

text \<open>
  The accept loop.  \<open>ctx\<close> is the error of the context once it is done.  \<open>Accept\<close> fails when the listener is
  closed, or with an error of its own; it does not look at the context.
\<close>

inductive main_step :: "'c net_ops \<Rightarrow> string option \<Rightarrow> ('c, 'w, 'u) Server \<Rightarrow> ('c, 'w, 'u) Server \<Rightarrow> bool"
  for N ctx where
  publish: "sv_main s = Listening \<Longrightarrow> main_step N ctx s (s\<lparr>sv_listener := True, sv_main := AtSelect\<rparr>)"
| cancelled: "sv_main s = AtSelect \<Longrightarrow> ctx = Some e \<Longrightarrow> main_step N ctx s (s\<lparr>sv_main := Stopped (Some (SvContext e))\<rparr>)"
| seen_closed: "sv_main s = AtSelect \<Longrightarrow> sv_closed s \<Longrightarrow> main_step N ctx s (s\<lparr>sv_main := Stopped None\<rparr>)"
| wait: "sv_main s = AtSelect \<Longrightarrow> ctx = None \<Longrightarrow> \<not> sv_closed s \<Longrightarrow> main_step N ctx s (s\<lparr>sv_main := AtAccept\<rparr>)"
| accept: "sv_main s = AtAccept \<Longrightarrow> sv_open s \<Longrightarrow>
    main_step N ctx s (s\<lparr>sv_main := AtSelect, sv_conns := sv_conns s @ [new_conn N c]\<rparr>)"
| accept_failed: "sv_main s = AtAccept \<Longrightarrow> e \<noteq> '''' \<Longrightarrow>
    main_step N ctx s (s\<lparr>sv_main := Stopped (if sv_closed s then None else Some (SvNet e))\<rparr>)"

text \<open>
  The goroutine of connection \<open>i\<close>.  The handler may do anything to its session but reopen it; without a
  handler the deferred function runs at once.
\<close>

inductive conn_step :: "'c net_ops \<Rightarrow> nat \<Rightarrow> ('c, 'w, 'u) Server \<Rightarrow> ('c, 'w, 'u) Server \<Rightarrow> bool" for N i where
  enter: "i < length (sv_conns s) \<Longrightarrow> hd_phase (sv_conns s ! i) = Accepted \<Longrightarrow>
    conn_step N i s (set_phase i Handling (s\<lparr>sv_sessions := (sv_sessions s)(hd_addr (sv_conns s ! i) \<mapsto> i)\<rparr>))"
| handles: "i < length (sv_conns s) \<Longrightarrow> hd_phase (sv_conns s ! i) = Handling \<Longrightarrow> so_sessionHandler (sv_opts s) \<Longrightarrow>
    (ss_closed (hd_session (sv_conns s ! i)) \<longrightarrow> ss_closed ses) \<Longrightarrow>
    conn_step N i s (s\<lparr>sv_conns := (sv_conns s)[i := (sv_conns s ! i)\<lparr>hd_session := ses\<rparr>]\<rparr>)"
| leave: "i < length (sv_conns s) \<Longrightarrow> hd_phase (sv_conns s ! i) = Handling \<Longrightarrow>
    conn_step N i s (set_phase i Closing (snd (close_handled N i s)))"
| forget: "i < length (sv_conns s) \<Longrightarrow> hd_phase (sv_conns s ! i) = Closing \<Longrightarrow>
    conn_step N i s (set_phase i Gone (s\<lparr>sv_sessions := (sv_sessions s)(hd_addr (sv_conns s ! i) := None)\<rparr>))"

inductive srv_step :: "'c net_ops \<Rightarrow> string option \<Rightarrow> ('c, 'w, 'u) Server \<Rightarrow> ('c, 'w, 'u) Server \<Rightarrow> bool" for N ctx where
  start: "sv_main s = Idle \<Longrightarrow> server_Listen listen k1 k2 k3 k4 s = Some s' \<Longrightarrow> srv_step N ctx s s'"
| main: "main_step N ctx s s' \<Longrightarrow> srv_step N ctx s s'"
| conn: "conn_step N i s s' \<Longrightarrow> srv_step N ctx s s'"
| close: "enumerates ks (sv_sessions s) \<Longrightarrow> srv_step N ctx s (snd (server_Close N ks lnErr s))"

inductive_cases main_stepE: "main_step N ctx s s'"
inductive_cases conn_stepE: "conn_step N i s s'"
inductive_cases srv_stepE: "srv_step N ctx s s'"

section \<open>What Close does to the sessions\<close>

text \<open>The part of the state that \<open>Close\<close> keeps: who is connected and where every goroutine is.\<close>

definition same_conns :: "('c, 'w, 'u) Server \<Rightarrow> ('c, 'w, 'u) Server \<Rightarrow> bool" where
  "same_conns s s' \<longleftrightarrow>
     map (\<lambda>c. (hd_addr c, hd_phase c)) (sv_conns s') = map (\<lambda>c. (hd_addr c, hd_phase c)) (sv_conns s) \<and>
     sv_sessions s' = sv_sessions s \<and> sv_main s' = sv_main s"

lemma same_conns_nth:
  assumes "same_conns s s'"
  shows "length (sv_conns s') = length (sv_conns s)"
    and "i < length (sv_conns s) \<Longrightarrow> hd_addr (sv_conns s' ! i) = hd_addr (sv_conns s ! i)"
    and "i < length (sv_conns s) \<Longrightarrow> hd_phase (sv_conns s' ! i) = hd_phase (sv_conns s ! i)"
proof -
  have m: "map (\<lambda>c. (hd_addr c, hd_phase c)) (sv_conns s') = map (\<lambda>c. (hd_addr c, hd_phase c)) (sv_conns s)"
    using assms by (simp add: same_conns_def)
  then show l: "length (sv_conns s') = length (sv_conns s)"
    using map_eq_imp_length_eq by blast
  have "(hd_addr (sv_conns s' ! i), hd_phase (sv_conns s' ! i)) = (hd_addr (sv_conns s ! i), hd_phase (sv_conns s ! i))"
    if "i < length (sv_conns s)" for i
    using m l that by (metis (no_types, lifting) nth_map)
  then show "i < length (sv_conns s) \<Longrightarrow> hd_addr (sv_conns s' ! i) = hd_addr (sv_conns s ! i)"
    "i < length (sv_conns s) \<Longrightarrow> hd_phase (sv_conns s' ! i) = hd_phase (sv_conns s ! i)" by simp_all
qed

lemma log_event_simps [simp]:
  "sv_conns (log_event es s) = sv_conns s" "sv_sessions (log_event es s) = sv_sessions s"
  "sv_main (log_event es s) = sv_main s" "sv_open (log_event es s) = sv_open s"
  "sv_listener (log_event es s) = sv_listener s" "sv_closed (log_event es s) = sv_closed s"
  "sv_plugins (log_event es s) = sv_plugins s" "sv_opts (log_event es s) = sv_opts s"
  "sv_store (log_event es s) = sv_store s" "sv_events (log_event es s) = sv_events s @ es"
  by (simp_all add: log_event_def)

definition is_closed :: "('c, 'w, 'u) Server \<Rightarrow> nat \<Rightarrow> bool" where
  "is_closed s i \<longleftrightarrow> ss_closed (hd_session (sv_conns s ! i))"

lemma close_handled_spec:
  assumes "close_handled N i s = (e, s')"
  shows "same_conns s s'" "i < length (sv_conns s) \<Longrightarrow> is_closed s' i" "is_closed s j \<Longrightarrow> is_closed s' j"
    "j \<noteq> i \<Longrightarrow> sv_conns s' ! j = sv_conns s ! j"
    "sv_open s' = sv_open s" "sv_listener s' = sv_listener s" "sv_closed s' = sv_closed s"
    "sv_plugins s' = sv_plugins s" "sv_opts s' = sv_opts s" "sv_store s' = sv_store s" "sv_events s' = sv_events s"
proof -
  obtain e' ses where c: "session_Close (tcp_Close N) (hd_session (sv_conns s ! i)) = (e', ses)" by fastforce
  then have ses: "ss_closed ses"
    by (auto simp: session_Close_def split: if_splits prod.splits)
  have s': "s' = s\<lparr>sv_conns := (sv_conns s)[i := (sv_conns s ! i)\<lparr>hd_session := ses\<rparr>]\<rparr>"
    using assms c by (simp add: close_handled_def)
  show "same_conns s s'"
    by (cases "i < length (sv_conns s)") (auto simp: s' same_conns_def map_update list_update_same_conv list_update_beyond)
  show "i < length (sv_conns s) \<Longrightarrow> is_closed s' i" "is_closed s j \<Longrightarrow> is_closed s' j"
    using ses by (cases "i < length (sv_conns s)"; simp add: s' is_closed_def nth_list_update list_update_beyond)+
  show "j \<noteq> i \<Longrightarrow> sv_conns s' ! j = sv_conns s ! j"
    "sv_open s' = sv_open s" "sv_listener s' = sv_listener s" "sv_closed s' = sv_closed s"
    "sv_plugins s' = sv_plugins s" "sv_opts s' = sv_opts s" "sv_store s' = sv_store s" "sv_events s' = sv_events s"
    by (simp_all add: s')
qed

lemma close_sessions_spec:
  assumes "close_sessions N is e s = (e', s')"
  shows "same_conns s s' \<and> (\<forall>j. is_closed s j \<longrightarrow> is_closed s' j) \<and>
    (\<forall>i \<in> set is. i < length (sv_conns s) \<longrightarrow> is_closed s' i) \<and>
    (\<forall>j. j \<notin> set is \<longrightarrow> sv_conns s' ! j = sv_conns s ! j) \<and>
    sv_open s' = sv_open s \<and> sv_listener s' = sv_listener s \<and> sv_closed s' = sv_closed s \<and>
    sv_plugins s' = sv_plugins s \<and> sv_opts s' = sv_opts s \<and> sv_store s' = sv_store s \<and>
    sv_events s' = sv_events s @ map SessionClosed is"
  using assms
proof (induction "is" arbitrary: e s)
  case (Cons i "is")
  obtain e1 s1 where c: "close_handled N i s = (e1, s1)" by fastforce
  note h = close_handled_spec [OF c]
  have "close_sessions N is (first_error e (map_option SvNet e1)) (log_event [SessionClosed i] s1) = (e', s')"
    using Cons.prems c by simp
  note ih = Cons.IH [OF this]
  have "same_conns s s'"
    using ih h(1) by (simp add: same_conns_def)
  moreover have "is_closed (log_event [SessionClosed i] s1) j = is_closed s1 j" for j
    by (simp add: is_closed_def)
  moreover have "length (sv_conns s1) = length (sv_conns s)"
    using same_conns_nth(1) [OF h(1)] .
  ultimately show ?case
    using ih h(2-11) by auto
qed (simp add: same_conns_def)

definition shutdown_events :: "string list \<Rightarrow> ('c, 'w, 'u) Server \<Rightarrow> server_event list" where
  "shutdown_events ks s =
     (if sv_listener s then [ListenerClosed] else []) @ map SessionClosed (range_values ks (sv_sessions s)) @
     (case sv_plugins s of None \<Rightarrow> [] | Some mgr \<Rightarrow> map (\<lambda>n. PluginCall (CallClose n)) (fst (Close mgr))) @
     (if so_storage (sv_opts s) = None then [] else [StorageClosed])"

lemma server_Close_spec:
  assumes "\<not> sv_closed s" "server_Close N ks lnErr s = (e, s')"
  shows "same_conns s s'" "sv_closed s'" "sv_listener s' = sv_listener s" "sv_open s' \<longleftrightarrow> sv_open s \<and> \<not> sv_listener s"
    "is_closed s j \<Longrightarrow> is_closed s' j"
    "i \<in> set (range_values ks (sv_sessions s)) \<Longrightarrow> i < length (sv_conns s) \<Longrightarrow> is_closed s' i"
    "j \<notin> set (range_values ks (sv_sessions s)) \<Longrightarrow> sv_conns s' ! j = sv_conns s ! j"
    "sv_events s' = sv_events s @ shutdown_events ks s"
proof -
  let ?s1 = "s\<lparr>sv_closed := True\<rparr>"
  define p2 where "p2 = (if sv_listener ?s1 then (map_option SvNet lnErr, log_event [ListenerClosed] (?s1\<lparr>sv_open := False\<rparr>))
      else (None, ?s1))"
  obtain e1 s2 where p2': "p2 = (e1, s2)" by fastforce
  have s2: "sv_conns s2 = sv_conns s" "sv_sessions s2 = sv_sessions s" "sv_main s2 = sv_main s" "sv_closed s2"
    "sv_listener s2 = sv_listener s" "sv_open s2 \<longleftrightarrow> sv_open s \<and> \<not> sv_listener s" "sv_plugins s2 = sv_plugins s"
    "sv_opts s2 = sv_opts s" "sv_events s2 = sv_events s @ (if sv_listener s then [ListenerClosed] else [])"
    using p2' by (auto simp: p2_def split: if_splits)
  obtain e2 s3 where c: "close_sessions N (range_values ks (sv_sessions s2)) e1 s2 = (e2, s3)" by fastforce
  note h = close_sessions_spec [OF c]
  have "sv_conns s' = sv_conns s3" "sv_sessions s' = sv_sessions s3" "sv_main s' = sv_main s3" "sv_closed s' = sv_closed s3"
    "sv_listener s' = sv_listener s3" "sv_open s' = sv_open s3"
    "sv_events s' = sv_events s3 @ (case sv_plugins s3 of None \<Rightarrow> [] | Some mgr \<Rightarrow> map (\<lambda>n. PluginCall (CallClose n)) (fst (Close mgr))) @
       (if so_storage (sv_opts s3) = None then [] else [StorageClosed])"
    using assms p2' c unfolding p2_def [symmetric] server_Close_def Let_def
    by (auto simp: p2_def [symmetric] split: option.splits prod.splits)
  with h s2 show "same_conns s s'" "sv_closed s'" "sv_listener s' = sv_listener s" "sv_open s' \<longleftrightarrow> sv_open s \<and> \<not> sv_listener s"
    "is_closed s j \<Longrightarrow> is_closed s' j"
    "i \<in> set (range_values ks (sv_sessions s)) \<Longrightarrow> i < length (sv_conns s) \<Longrightarrow> is_closed s' i"
    "j \<notin> set (range_values ks (sv_sessions s)) \<Longrightarrow> sv_conns s' ! j = sv_conns s ! j"
    "sv_events s' = sv_events s @ shutdown_events ks s"
    by (auto simp: same_conns_def is_closed_def shutdown_events_def)
qed

section \<open>Runs of the server\<close>

text \<open>
  The remote addresses of the connections whose goroutines are not done are different, as long as no peer
  comes back from the same port before the server has forgotten its last connection.
\<close>

definition live_distinct :: "('c, 'w, 'u) Server \<Rightarrow> bool" where
  "live_distinct s \<longleftrightarrow>
     (\<forall>i < length (sv_conns s). \<forall>j < length (sv_conns s). i \<noteq> j \<longrightarrow>
        hd_phase (sv_conns s ! i) \<noteq> Gone \<longrightarrow> hd_phase (sv_conns s ! j) \<noteq> Gone \<longrightarrow>
        hd_addr (sv_conns s ! i) \<noteq> hd_addr (sv_conns s ! j))"

inductive srv_run :: "'c net_ops \<Rightarrow> ('c, 'w, 'u) Server \<Rightarrow> bool" for N where
  new: "srv_run N (NewServer domain u opts)"
| step: "srv_run N s \<Longrightarrow> srv_step N ctx s s' \<Longrightarrow> live_distinct s' \<Longrightarrow> srv_run N s'"

text \<open>The map holds exactly the connections whose session handler runs or has just ended.\<close>

definition sessions_right :: "('c, 'w, 'u) Server \<Rightarrow> bool" where
  "sessions_right s \<longleftrightarrow>
     (\<forall>a i. sv_sessions s a = Some i \<longleftrightarrow>
        i < length (sv_conns s) \<and> hd_addr (sv_conns s ! i) = a \<and> hd_phase (sv_conns s ! i) \<in> {Handling, Closing})"

definition in_loop :: "main_phase \<Rightarrow> bool" where
  "in_loop m \<longleftrightarrow> m \<noteq> Idle \<and> m \<noteq> Listening"

definition srv_inv :: "('c, 'w, 'u) Server \<Rightarrow> bool" where
  "srv_inv s \<longleftrightarrow> live_distinct s \<and> sessions_right s \<and> (sv_listener s \<longrightarrow> in_loop (sv_main s))"

text \<open>Starting does not touch connections.\<close>

definition keeps_conns :: "('c, 'w, 'u) Server \<Rightarrow> ('c, 'w, 'u) Server \<Rightarrow> bool" where
  "keeps_conns s s' \<longleftrightarrow>
     sv_conns s' = sv_conns s \<and> sv_sessions s' = sv_sessions s \<and> sv_listener s' = sv_listener s \<and> sv_closed s' = sv_closed s"

lemma init_storage_keeps: "keeps_conns s (snd (init_storage s))"
  by (simp add: keeps_conns_def init_storage_def split: option.split prod.split)

lemma init_plugins_keeps: "init_plugins k1 k2 k3 k4 s = Some (e, s') \<Longrightarrow> keeps_conns s s'"
  by (auto simp: keeps_conns_def init_plugins_def Let_def split: option.splits prod.splits if_splits)

lemma open_listener_keeps: "keeps_conns s (snd (open_listener listen s))"
  by (simp add: keeps_conns_def open_listener_def Let_def split: option.split)

lemma server_Listen_keeps:
  assumes "server_Listen listen k1 k2 k3 k4 s = Some s'"
  shows "keeps_conns s s'"
proof -
  obtain e1 s1 where 1: "init_storage s = (e1, s1)" by fastforce
  have k1: "keeps_conns s s1"
    using init_storage_keeps [of s] 1 by simp
  have k2: "keeps_conns s s2" if "init_plugins k1 k2 k3 k4 s1 = Some (e2, s2)" for e2 s2
    using init_plugins_keeps [OF that] k1 by (simp add: keeps_conns_def)
  have "keeps_conns s (snd (open_listener listen s2))" if "init_plugins k1 k2 k3 k4 s1 = Some (e2, s2)" for e2 s2
    using open_listener_keeps [of s2 listen] k2 [OF that] by (simp add: keeps_conns_def)
  then show ?thesis
    using assms 1 k1 k2 unfolding server_Listen_def
    by (fastforce simp: keeps_conns_def split: option.splits prod.splits)
qed

lemma sessions_right_same:
  assumes "same_conns s s'" "sessions_right s"
  shows "sessions_right s'"
proof -
  have "sv_sessions s' = sv_sessions s"
    using assms(1) by (simp add: same_conns_def)
  with assms(2) same_conns_nth [OF assms(1)] show ?thesis
    unfolding sessions_right_def by (metis (no_types, lifting))
qed

lemma sessions_right_main: "main_step N ctx s s' \<Longrightarrow> sessions_right s \<Longrightarrow> sessions_right s'"
  by (erule main_stepE) (auto simp: sessions_right_def nth_append new_conn_def split: if_splits)

lemma set_phase_nth:
  "i < length (sv_conns s) \<Longrightarrow>
     sv_conns (set_phase i ph s) ! j = (if j = i then (sv_conns s ! i)\<lparr>hd_phase := ph\<rparr> else sv_conns s ! j)"
  "length (sv_conns (set_phase i ph s)) = length (sv_conns s)"
  "sv_sessions (set_phase i ph s) = sv_sessions s" "sv_main (set_phase i ph s) = sv_main s"
  "sv_listener (set_phase i ph s) = sv_listener s" "sv_open (set_phase i ph s) = sv_open s"
  "sv_closed (set_phase i ph s) = sv_closed s"
  by (auto simp: set_phase_def nth_list_update)

lemma sessions_right_conn:
  assumes "conn_step N i s s'" "live_distinct s" "sessions_right s"
  shows "sessions_right s'"
  using assms(1)
proof (cases rule: conn_step.cases)
  case enter
  have "hd_addr (sv_conns s ! j) \<noteq> hd_addr (sv_conns s ! i)"
    if "j < length (sv_conns s)" "j \<noteq> i" "hd_phase (sv_conns s ! j) \<in> {Handling, Closing}" for j
    using assms(2) enter that unfolding live_distinct_def by (metis conn_phase.distinct insert_iff singletonD)
  with assms(3) enter show ?thesis
    by (auto simp: sessions_right_def set_phase_nth split: if_splits)
next
  case handles
  with assms(3) show ?thesis by (auto simp: sessions_right_def nth_list_update split: if_splits)
next
  case leave
  obtain e s1 where c: "close_handled N i s = (e, s1)" by fastforce
  have "sessions_right s1"
    using sessions_right_same [OF close_handled_spec(1) [OF c] assms(3)] .
  moreover have "i < length (sv_conns s1)" "hd_phase (sv_conns s1 ! i) = Handling"
    using leave same_conns_nth [OF close_handled_spec(1) [OF c]] by auto
  ultimately show ?thesis
    using leave c by (auto simp: sessions_right_def set_phase_nth split: if_splits)
next
  case forget
  have "hd_addr (sv_conns s ! j) \<noteq> hd_addr (sv_conns s ! i)"
    if "j < length (sv_conns s)" "j \<noteq> i" "hd_phase (sv_conns s ! j) \<in> {Handling, Closing}" for j
    using assms(2) forget that unfolding live_distinct_def by (metis conn_phase.distinct insert_iff singletonD)
  with assms(3) forget show ?thesis
    by (auto simp: sessions_right_def set_phase_nth split: if_splits)
qed

lemma conn_step_shared:
  assumes "conn_step N i s s'"
  shows "sv_listener s' = sv_listener s \<and> sv_main s' = sv_main s \<and> sv_open s' = sv_open s \<and> sv_closed s' = sv_closed s \<and>
    length (sv_conns s') = length (sv_conns s)"
  using assms
proof (cases rule: conn_step.cases)
  case leave
  obtain e s1 where c: "close_handled N i s = (e, s1)" by fastforce
  then show ?thesis
    using leave close_handled_spec(5-7) [OF c] same_conns_nth(1) [OF close_handled_spec(1) [OF c]] close_handled_spec(1) [OF c]
    by (simp add: set_phase_nth same_conns_def)
qed (simp_all add: set_phase_nth)

lemma conn_step_closed:
  assumes "conn_step N i s s'" "is_closed s j"
  shows "is_closed s' j"
  using assms(1)
proof (cases rule: conn_step.cases)
  case leave
  obtain e s1 where c: "close_handled N i s = (e, s1)" by fastforce
  then have "is_closed s1 j" "i < length (sv_conns s1)"
    using close_handled_spec(3) [OF c assms(2)] leave same_conns_nth(1) [OF close_handled_spec(1) [OF c]] by simp_all
  then show ?thesis
    using leave c by (auto simp: is_closed_def set_phase_nth)
qed (use assms(2) in \<open>auto simp: is_closed_def set_phase_nth nth_list_update\<close>)

lemma server_Close_again: "sv_closed s \<Longrightarrow> server_Close N ks lnErr s = (None, s)"
  by (simp add: server_Close_def)

lemma in_loop_main: "main_step N ctx s s' \<Longrightarrow> in_loop (sv_main s')"
  by (erule main_stepE) (simp_all add: in_loop_def)

lemma srv_run_inv: "srv_run N s \<Longrightarrow> srv_inv s"
proof (induction rule: srv_run.induct)
  case (new domain u opts)
  show ?case
    by (simp add: srv_inv_def live_distinct_def sessions_right_def NewServer_def)
next
  case (step s ctx s')
  then have inv: "live_distinct s" "sessions_right s" "sv_listener s \<longrightarrow> in_loop (sv_main s)"
    by (simp_all add: srv_inv_def)
  have "sessions_right s' \<and> (sv_listener s' \<longrightarrow> in_loop (sv_main s'))"
    using step.hyps(2)
  proof (cases rule: srv_step.cases)
    case (start listen k1 k2 k3 k4)
    from server_Listen_keeps [OF this(2)] inv start(1) show ?thesis
      by (auto simp: keeps_conns_def sessions_right_def in_loop_def)
  next
    case main
    with inv sessions_right_main in_loop_main show ?thesis by blast
  next
    case (conn i)
    with inv sessions_right_conn conn_step_shared show ?thesis by metis
  next
    case (close ks lnErr)
    obtain e s2 where c: "server_Close N ks lnErr s = (e, s2)" by fastforce
    show ?thesis
    proof (cases "sv_closed s")
      case True
      with close inv server_Close_again show ?thesis by (metis snd_conv)
    next
      case False
      note h = server_Close_spec [OF False c]
      from h(1) have "sv_main s2 = sv_main s" by (simp add: same_conns_def)
      with sessions_right_same [OF h(1) inv(2)] h(3) inv(3) close c show ?thesis by simp
    qed
  qed
  with step.hyps(3) show ?case by (simp add: srv_inv_def)
qed

section \<open>Shutdown\<close>

definition srv_steps :: "'c net_ops \<Rightarrow> ('c, 'w, 'u) Server \<Rightarrow> ('c, 'w, 'u) Server \<Rightarrow> bool" where
  "srv_steps N = (\<lambda>s s'. \<exists>ctx. srv_step N ctx s s')\<^sup>*\<^sup>*"

text \<open>A server that is closed: no connection comes in any more, and what is closed stays closed.\<close>

definition shut :: "('c, 'w, 'u) Server \<Rightarrow> bool" where
  "shut s \<longleftrightarrow> sv_closed s \<and> \<not> sv_open s \<and> in_loop (sv_main s)"

lemma shut_step:
  assumes "shut s" "srv_step N ctx s s'"
  shows "shut s' \<and> length (sv_conns s') = length (sv_conns s) \<and> (\<forall>j. is_closed s j \<longrightarrow> is_closed s' j)"
  using assms(2)
proof (cases rule: srv_step.cases)
  case (start listen k1 k2 k3 k4)
  with assms(1) show ?thesis by (simp add: shut_def in_loop_def)
next
  case main
  then show ?thesis
    using assms(1) by (cases rule: main_step.cases) (auto simp: shut_def in_loop_def is_closed_def)
next
  case (conn i)
  with assms(1) conn_step_shared conn_step_closed show ?thesis unfolding shut_def by metis
next
  case (close ks lnErr)
  with assms(1) show ?thesis by (simp add: shut_def server_Close_again)
qed

lemma shut_steps:
  assumes "srv_steps N s s'" "shut s"
  shows "shut s' \<and> length (sv_conns s') = length (sv_conns s) \<and> (\<forall>j. is_closed s j \<longrightarrow> is_closed s' j)"
  using assms(1) unfolding srv_steps_def
proof (induction rule: rtranclp_induct)
  case (step y z)
  then show ?case using shut_step by metis
qed (use assms(2) in simp)

lemma shut_main:
  assumes "shut s"
  shows "main_step N ctx s s' \<Longrightarrow> sv_main s' = Stopped None \<or> (\<exists>e. ctx = Some e \<and> sv_main s' = Stopped (Some (SvContext e)))"
    and "\<forall>r. sv_main s \<noteq> Stopped r \<Longrightarrow> \<exists>s'. main_step N ctx s s'"
proof -
  show "main_step N ctx s s' \<Longrightarrow> sv_main s' = Stopped None \<or> (\<exists>e. ctx = Some e \<and> sv_main s' = Stopped (Some (SvContext e)))"
    using assms by (auto simp: shut_def in_loop_def elim!: main_stepE)
  assume "\<forall>r. sv_main s \<noteq> Stopped r"
  then have "sv_main s = AtSelect \<or> sv_main s = AtAccept"
    using assms by (cases "sv_main s") (auto simp: shut_def in_loop_def)
  then show "\<exists>s'. main_step N ctx s s'"
  proof
    assume "sv_main s = AtSelect"
    with assms show ?thesis using seen_closed by (fastforce simp: shut_def)
  next
    assume "sv_main s = AtAccept"
    with accept_failed [of s "''closed''"] show ?thesis by blast
  qed
qed

text \<open>
  C18: shutdown of the server.  In every state that the server can reach while its accept loop runs, \<open>Close\<close>
  stops the listener, then all sessions in the map, then the plugins in reverse order, then the storage,
  each once.  After that, whatever the goroutines go on to do, no connection is accepted, every session that
  was being handled stays closed, and the accept loop never blocks again: its next step returns, without an
  error unless the context was cancelled.
\<close>

theorem server_shutdown:
  assumes "srv_run N s" "sv_listener s" "\<not> sv_closed s" "enumerates ks (sv_sessions s)"
    and "server_Close N ks lnErr s = (e, s1)" "srv_steps N s1 s2"
  shows "sv_events s1 = sv_events s @ shutdown_events ks s \<and>
    length (sv_conns s2) = length (sv_conns s) \<and>
    (\<forall>i < length (sv_conns s). hd_phase (sv_conns s ! i) \<in> {Handling, Closing} \<longrightarrow> is_closed s2 i) \<and>
    ((\<exists>r. sv_main s2 = Stopped r) \<or> (\<exists>s3. main_step N ctx s2 s3)) \<and>
    (\<forall>s3. main_step N ctx s2 s3 \<longrightarrow>
       sv_main s3 = Stopped None \<or> (\<exists>c. ctx = Some c \<and> sv_main s3 = Stopped (Some (SvContext c))))"
proof -
  have inv: "sessions_right s" "in_loop (sv_main s)"
    using srv_run_inv [OF assms(1)] assms(2) by (simp_all add: srv_inv_def)
  note h = server_Close_spec [OF assms(3,5)]
  have "shut s1"
    using h(1,2,4) inv(2) assms(2) by (simp add: shut_def same_conns_def)
  note k = shut_steps [OF assms(6) this]
  have "is_closed s2 i" if "i < length (sv_conns s)" "hd_phase (sv_conns s ! i) \<in> {Handling, Closing}" for i
  proof -
    from inv(1) that have "sv_sessions s (hd_addr (sv_conns s ! i)) = Some i"
      unfolding sessions_right_def by blast
    then have "i \<in> set (range_values ks (sv_sessions s))"
      using range_values_ran [OF assms(4)] by (auto simp: ran_def)
    with h(6) that k show ?thesis by blast
  qed
  moreover have "length (sv_conns s2) = length (sv_conns s)"
    using k same_conns_nth(1) [OF h(1)] by simp
  ultimately show ?thesis
    using h(8) shut_main [of s2, where N = N and ctx = ctx] k by blast
qed

text \<open>A server with one connection that is being handled.\<close>

definition demo_server :: "(bool, unit, unit) Server" where
  "demo_server =
     (NewServer ''d'' () [WithServerSessionHandler])
       \<lparr>sv_listener := True, sv_open := True, sv_main := AtSelect, sv_sessions := [''peer'' \<mapsto> 0],
        sv_conns := [(new_conn demo_net False)\<lparr>hd_phase := Handling\<rparr>]\<rparr>"

lemma live_distinct_one: "length (sv_conns s) \<le> 1 \<Longrightarrow> live_distinct s"
  by (auto simp: live_distinct_def)

lemma demo_server_run: "srv_run demo_net demo_server"
proof -
  let ?s0 = "NewServer ''d'' () [WithServerSessionHandler] :: (bool, unit, unit) Server"
  let ?s1 = "?s0\<lparr>sv_open := True, sv_main := Listening\<rparr>"
  let ?s2 = "?s1\<lparr>sv_listener := True, sv_main := AtSelect\<rparr>"
  let ?s3 = "?s2\<lparr>sv_main := AtAccept\<rparr>"
  let ?s4 = "?s3\<lparr>sv_main := AtSelect, sv_conns := sv_conns ?s3 @ [new_conn demo_net False]\<rparr>"
  have "server_Listen (\<lambda>_ _. None) [] [] [] [] ?s0 = Some ?s1"
    by (simp add: server_Listen_def init_storage_def init_plugins_def open_listener_def Let_def NewServer_def WithServerSessionHandler_def)
  then have "srv_step demo_net None ?s0 ?s1"
    by (intro srv_step.start) (simp add: NewServer_def)
  then have "srv_run demo_net ?s1"
    by (rule srv_run.step [OF srv_run.new]) (simp add: live_distinct_one NewServer_def)
  moreover have "srv_step demo_net None ?s1 ?s2" by (intro srv_step.main main_step.publish) simp
  ultimately have "srv_run demo_net ?s2"
    by (rule srv_run.step) (simp add: live_distinct_one NewServer_def)
  moreover have "srv_step demo_net None ?s2 ?s3" by (intro srv_step.main main_step.wait) (simp_all add: NewServer_def)
  ultimately have "srv_run demo_net ?s3"
    by (rule srv_run.step) (simp add: live_distinct_one NewServer_def)
  moreover have "srv_step demo_net None ?s3 ?s4" by (intro srv_step.main main_step.accept) simp_all
  ultimately have r: "srv_run demo_net ?s4"
    by (rule srv_run.step) (simp add: live_distinct_one NewServer_def)
  have "conn_step demo_net 0 ?s4 (set_phase 0 Handling (?s4\<lparr>sv_sessions := (sv_sessions ?s4)(hd_addr (sv_conns ?s4 ! 0) \<mapsto> 0)\<rparr>))"
    by (rule conn_step.enter) (simp_all add: NewServer_def new_conn_def)
  moreover have "set_phase 0 Handling (?s4\<lparr>sv_sessions := (sv_sessions ?s4)(hd_addr (sv_conns ?s4 ! 0) \<mapsto> 0)\<rparr>) = demo_server"
    by (simp add: set_phase_def demo_server_def NewServer_def new_conn_def demo_net_def)
  ultimately have "srv_step demo_net None ?s4 demo_server" using srv_step.conn by metis
  with r show ?thesis
    by (rule srv_run.step) (simp add: live_distinct_one demo_server_def)
qed

theorem server_shutdown_witness:
  "\<exists>e s1. server_Close demo_net [''peer''] None demo_server = (e, s1) \<and>
     sv_events s1 = [ListenerClosed, SessionClosed 0] \<and> is_closed s1 0 \<and> (\<exists>s3. main_step demo_net None s1 s3)"
proof -
  obtain e s1 where c: "server_Close demo_net [''peer''] None demo_server = (e, s1)" by fastforce
  have "enumerates [''peer''] (sv_sessions demo_server)" "sv_listener demo_server" "\<not> sv_closed demo_server"
    by (simp_all add: enumerates_def demo_server_def NewServer_def)
  then have "sv_events s1 = sv_events demo_server @ shutdown_events [''peer''] demo_server" "is_closed s1 0"
    "(\<exists>r. sv_main s1 = Stopped r) \<or> (\<exists>s3. main_step demo_net None s1 s3)"
    using server_shutdown [OF demo_server_run _ _ _ c, of s1 None]
    by (auto simp: srv_steps_def demo_server_def)
  moreover have "sv_main s1 = AtSelect"
    using server_Close_spec(1) [OF _ c] by (simp add: demo_server_def NewServer_def same_conns_def)
  ultimately show ?thesis
    using c by (auto simp: shutdown_events_def demo_server_def NewServer_def WithServerSessionHandler_def)
qed

section \<open>Observations\<close>

text \<open>
  A cancelled context does not wake a server that waits in \<open>Accept\<close>: only a connection or an error of the
  listener does.  The program cmd/xmppd stops its server in no other way.
\<close>

lemma cancelled_server_waits:
  assumes "sv_main s = AtAccept" "main_step N (Some e) s s'"
  shows "length (sv_conns s') = Suc (length (sv_conns s)) \<or> (\<exists>m. sv_main s' = Stopped m \<and> m \<noteq> Some (SvContext e))"
  using assms(2) by (cases rule: main_step.cases) (use assms(1) in auto)

text \<open>
  A connection that was accepted but is not in the map when the server is closed is left open, and it is
  then handled as if nothing had happened.
\<close>

lemma Close_misses_accepted:
  assumes "srv_run N s" "\<not> sv_closed s" "enumerates ks (sv_sessions s)" "server_Close N ks lnErr s = (e, s1)"
    and "i < length (sv_conns s)" "hd_phase (sv_conns s ! i) = Accepted"
  shows "sv_conns s1 ! i = sv_conns s ! i \<and> (\<exists>s2. conn_step N i s1 s2 \<and> hd_phase (sv_conns s2 ! i) = Handling \<and>
    hd_session (sv_conns s2 ! i) = hd_session (sv_conns s ! i))"
proof -
  have "sessions_right s"
    using srv_run_inv [OF assms(1)] by (simp add: srv_inv_def)
  then have "i \<notin> set (range_values ks (sv_sessions s))"
    using assms(6) unfolding sessions_right_def set_range_values by fastforce
  note h = server_Close_spec(7) [OF assms(2,4) this] server_Close_spec(1) [OF assms(2,4)]
  have "i < length (sv_conns s1)" using h(2) assms(5) same_conns_nth(1) by metis
  with h(1) assms(6) show ?thesis
    using conn_step.enter [of i s1 N] by (fastforce simp: set_phase_nth)
qed

text \<open>A server that is closed while it starts never closes its listener.\<close>

lemma Close_misses_listener:
  assumes "\<not> sv_closed s" "sv_main s = Listening" "\<not> sv_listener s" "sv_open s" "server_Close N ks lnErr s = (e, s1)"
  shows "\<exists>s2 s3. main_step N None s1 s2 \<and> main_step N None s2 s3 \<and> sv_main s3 = Stopped None \<and> sv_open s3"
proof -
  note h = server_Close_spec(1-4) [OF assms(1,5)]
  let ?s2 = "s1\<lparr>sv_listener := True, sv_main := AtSelect\<rparr>"
  have "main_step N None s1 ?s2"
    using h(1) assms(2) by (intro main_step.publish) (simp add: same_conns_def)
  moreover have "main_step N None ?s2 (?s2\<lparr>sv_main := Stopped None\<rparr>)"
    using h(2) by (intro main_step.seen_closed) simp_all
  moreover have "sv_open s1" using h(4) assms(3,4) by simp
  ultimately show ?thesis by (intro exI conjI) (assumption, assumption, simp_all)
qed

text \<open>
  A peer that reconnects from the same port before its last connection is forgotten loses its entry in the
  map: the session is handled, but it is not counted and \<open>Close\<close> does not reach it.
\<close>

lemma forget_removes_newer:
  assumes "i < length (sv_conns s)" "hd_phase (sv_conns s ! i) = Closing"
    and "j \<noteq> i" "hd_addr (sv_conns s ! j) = hd_addr (sv_conns s ! i)" "hd_phase (sv_conns s ! j) = Handling"
    and "inj_on (sv_sessions s) (dom (sv_sessions s))" "sv_sessions s (hd_addr (sv_conns s ! j)) = Some j"
  shows "\<exists>s'. conn_step N i s s' \<and> hd_phase (sv_conns s' ! j) = Handling \<and> j \<notin> ran (sv_sessions s')"
proof -
  let ?a = "hd_addr (sv_conns s ! i)"
  let ?s' = "set_phase i Gone (s\<lparr>sv_sessions := (sv_sessions s)(?a := None)\<rparr>)"
  have "conn_step N i s ?s'" using assms(1,2) by (rule conn_step.forget)
  moreover have "j \<notin> ran (sv_sessions ?s')"
  proof
    assume "j \<in> ran (sv_sessions ?s')"
    then obtain b where "b \<noteq> ?a" "sv_sessions s b = Some j"
      by (auto simp: ran_def set_phase_nth split: if_splits)
    with assms(4,6,7) show False by (metis domI inj_onD)
  qed
  ultimately show ?thesis
    using assms(1,3,5) by (intro exI [of _ ?s']) (simp add: set_phase_nth)
qed

end
