(* ===== verification/StorageRedis.thy ===== *)
theory StorageRedis
  imports StorageCalls "HOL-Library.Log_Nat"
begin

text \<open>
  Package \<open>redis\<close> (storage/redis/redis.go), the implementation of the storage interfaces on a Redis server.
  The server is a parameter: a function from commands to replies on a state of its own, of which
  \<open>redis_serves\<close> states what the documentation of the commands says.  A value that was encoded as JSON is
  the value itself (\<open>doc\<close>); keys are built as the code builds them.  Every method is one definition, in the
  order of the code.
\<close>

section \<open>Commands\<close>

text \<open>The strings stored in the server: text and bytes as they are, and encoded records.\<close>

datatype doc =
    DText string | DBytes bytes | DUser User | DRoster RosterItem | DOffline OfflineMessage | DMsg ArchivedMessage
  | DRoom MUCRoom | DAff MUCAffiliation | DNode PubSubNode | DItem PubSubItem | DSub PubSubSubscription | DBookmark Bookmark

datatype command =
    CmdPing
  | CmdSetNX string doc | CmdGet string | CmdSet string doc | CmdExists string | CmdDel string
  | CmdHSet string string doc | CmdHGet string string | CmdHGetAll string | CmdHDel string string | CmdHKeys string
  | CmdSAdd string string | CmdSRem string string | CmdSIsMember string string | CmdSMembers string
  | CmdRPush string doc | CmdLRange string | CmdLLen string
  | CmdZAdd string int string | CmdZRangeByScore string | CmdZRange string

datatype reply =
    ReOk | ReBool bool | ReInt nat | ReDoc "doc option" | ReDocs "doc list" | ReNames "string list"
  | ReFields "(string \<times> doc) list"

text \<open>\<open>Inl\<close> is an error reply, or an error of the connection; the reply \<open>ReDoc None\<close> is \<open>redis.Nil\<close>.\<close>

type_synonym 'r redis = "command \<Rightarrow> 'r \<Rightarrow> (string + reply) \<times> 'r"

text \<open>The four ways in which the client reads a reply; a reply of another kind is a protocol error.\<close>

definition bad_reply :: string where
  "bad_reply = ''redis: unexpected reply''"

definition as_err :: "string + reply \<Rightarrow> storage_error option" where
  "as_err rep = (case rep of Inl e \<Rightarrow> Some (BackendError e) | Inr _ \<Rightarrow> None)"

definition as_bool :: "string + reply \<Rightarrow> (storage_error, bool) result" where
  "as_bool rep = (case rep of Inl e \<Rightarrow> Inl (BackendError e) | Inr (ReBool b) \<Rightarrow> Inr b | _ \<Rightarrow> Inl (BackendError bad_reply))"

definition as_int :: "string + reply \<Rightarrow> (storage_error, nat) result" where
  "as_int rep = (case rep of Inl e \<Rightarrow> Inl (BackendError e) | Inr (ReInt n) \<Rightarrow> Inr n | _ \<Rightarrow> Inl (BackendError bad_reply))"

definition as_doc :: "string + reply \<Rightarrow> (storage_error, doc option) result" where
  "as_doc rep = (case rep of Inl e \<Rightarrow> Inl (BackendError e) | Inr (ReDoc d) \<Rightarrow> Inr d | _ \<Rightarrow> Inl (BackendError bad_reply))"

definition as_docs :: "string + reply \<Rightarrow> (storage_error, doc list) result" where
  "as_docs rep = (case rep of Inl e \<Rightarrow> Inl (BackendError e) | Inr (ReDocs ds) \<Rightarrow> Inr ds | _ \<Rightarrow> Inl (BackendError bad_reply))"

definition as_names :: "string + reply \<Rightarrow> (storage_error, string list) result" where
  "as_names rep = (case rep of Inl e \<Rightarrow> Inl (BackendError e) | Inr (ReNames ns) \<Rightarrow> Inr ns | _ \<Rightarrow> Inl (BackendError bad_reply))"

definition as_values :: "string + reply \<Rightarrow> (storage_error, doc list) result" where
  "as_values rep =
     (case rep of Inl e \<Rightarrow> Inl (BackendError e) | Inr (ReFields fs) \<Rightarrow> Inr (map snd fs) | _ \<Rightarrow> Inl (BackendError bad_reply))"

text \<open>A pipeline sends all commands and returns the error of the first that failed.\<close>

fun pipe_Exec :: "'r redis \<Rightarrow> command list \<Rightarrow> 'r \<Rightarrow> 'r \<times> storage_error option" where
  "pipe_Exec R [] r = (r, None)"
| "pipe_Exec R (c # cs) r =
     (case R c r of (rep, r1) \<Rightarrow>
        (case pipe_Exec R cs r1 of (r2, e) \<Rightarrow> (r2, if as_err rep = None then e else as_err rep)))"

definition run_cmd :: "'r redis \<Rightarrow> command \<Rightarrow> 'r \<Rightarrow> 'r" where
  "run_cmd R c r = snd (R c r)"

section \<open>Keys\<close>

definition userKey :: "string \<Rightarrow> string" where "userKey username = ''xmpp:user:'' @ username"
definition rosterKey :: "string \<Rightarrow> string" where "rosterKey userJID = ''xmpp:roster:'' @ userJID"
definition rosterVerKey :: "string \<Rightarrow> string" where "rosterVerKey userJID = ''xmpp:roster_ver:'' @ userJID"
definition blockedKey :: "string \<Rightarrow> string" where "blockedKey userJID = ''xmpp:blocked:'' @ userJID"
definition vcardKey :: "string \<Rightarrow> string" where "vcardKey userJID = ''xmpp:vcard:'' @ userJID"
definition offlineKey :: "string \<Rightarrow> string" where "offlineKey userJID = ''xmpp:offline:'' @ userJID"
definition mamKey :: "string \<Rightarrow> string" where "mamKey userJID = ''xmpp:mam:'' @ userJID"
definition mamMsgKey :: "string \<Rightarrow> string \<Rightarrow> string" where "mamMsgKey userJID i = ''xmpp:mam_msg:'' @ userJID @ '':'' @ i"
definition mucRoomKey :: "string \<Rightarrow> string" where "mucRoomKey roomJID = ''xmpp:muc_room:'' @ roomJID"
definition mucRoomsSetKey :: string where "mucRoomsSetKey = ''xmpp:muc_rooms''"
definition mucAffKey :: "string \<Rightarrow> string" where "mucAffKey roomJID = ''xmpp:muc_aff:'' @ roomJID"
definition pubsubNodeKey :: "string \<Rightarrow> string \<Rightarrow> string" where
  "pubsubNodeKey host nodeID = ''xmpp:ps_node:'' @ host @ '':'' @ nodeID"
definition pubsubNodesKey :: "string \<Rightarrow> string" where "pubsubNodesKey host = ''xmpp:ps_nodes:'' @ host"
definition pubsubItemKey :: "string \<Rightarrow> string \<Rightarrow> string \<Rightarrow> string" where
  "pubsubItemKey host nodeID itemID = ''xmpp:ps_item:'' @ host @ '':'' @ nodeID @ '':'' @ itemID"
definition pubsubItemsKey :: "string \<Rightarrow> string \<Rightarrow> string" where
  "pubsubItemsKey host nodeID = ''xmpp:ps_items:'' @ host @ '':'' @ nodeID"
definition pubsubSubsKey :: "string \<Rightarrow> string \<Rightarrow> string" where
  "pubsubSubsKey host nodeID = ''xmpp:ps_subs:'' @ host @ '':'' @ nodeID"
definition pubsubUserSubsKey :: "string \<Rightarrow> string \<Rightarrow> string" where
  "pubsubUserSubsKey host jid = ''xmpp:ps_usubs:'' @ host @ '':'' @ jid"
definition bookmarkKey :: "string \<Rightarrow> string" where "bookmarkKey userJID = ''xmpp:bookmarks:'' @ userJID"

section \<open>Decoding\<close>

text \<open>\<open>unmarshal\<close> into a record of the right kind; other data, which no method writes there, is an error.\<close>

definition bad_json :: storage_error where
  "bad_json = BackendError ''json: cannot unmarshal''"

definition un_user :: "doc \<Rightarrow> (storage_error, User) result" where
  "un_user d = (case d of DUser x \<Rightarrow> Inr x | _ \<Rightarrow> Inl bad_json)"
definition un_roster :: "doc \<Rightarrow> (storage_error, RosterItem) result" where
  "un_roster d = (case d of DRoster x \<Rightarrow> Inr x | _ \<Rightarrow> Inl bad_json)"
definition un_offline :: "doc \<Rightarrow> (storage_error, OfflineMessage) result" where
  "un_offline d = (case d of DOffline x \<Rightarrow> Inr x | _ \<Rightarrow> Inl bad_json)"
definition un_msg :: "doc \<Rightarrow> (storage_error, ArchivedMessage) result" where
  "un_msg d = (case d of DMsg x \<Rightarrow> Inr x | _ \<Rightarrow> Inl bad_json)"
definition un_room :: "doc \<Rightarrow> (storage_error, MUCRoom) result" where
  "un_room d = (case d of DRoom x \<Rightarrow> Inr x | _ \<Rightarrow> Inl bad_json)"
definition un_aff :: "doc \<Rightarrow> (storage_error, MUCAffiliation) result" where
  "un_aff d = (case d of DAff x \<Rightarrow> Inr x | _ \<Rightarrow> Inl bad_json)"
definition un_node :: "doc \<Rightarrow> (storage_error, PubSubNode) result" where
  "un_node d = (case d of DNode x \<Rightarrow> Inr x | _ \<Rightarrow> Inl bad_json)"
definition un_item :: "doc \<Rightarrow> (storage_error, PubSubItem) result" where
  "un_item d = (case d of DItem x \<Rightarrow> Inr x | _ \<Rightarrow> Inl bad_json)"
definition un_sub :: "doc \<Rightarrow> (storage_error, PubSubSubscription) result" where
  "un_sub d = (case d of DSub x \<Rightarrow> Inr x | _ \<Rightarrow> Inl bad_json)"
definition un_bookmark :: "doc \<Rightarrow> (storage_error, Bookmark) result" where
  "un_bookmark d = (case d of DBookmark x \<Rightarrow> Inr x | _ \<Rightarrow> Inl bad_json)"
definition un_text :: "doc \<Rightarrow> (storage_error, string) result" where
  "un_text d = (case d of DText x \<Rightarrow> Inr x | _ \<Rightarrow> Inl bad_json)"
definition un_bytes :: "doc \<Rightarrow> (storage_error, bytes) result" where
  "un_bytes d = (case d of DBytes x \<Rightarrow> Inr x | _ \<Rightarrow> Inl bad_json)"

text \<open>The loops that decode every value, up to the first error.\<close>

fun un_all :: "(doc \<Rightarrow> (storage_error, 'v) result) \<Rightarrow> doc list \<Rightarrow> (storage_error, 'v list) result" where
  "un_all un [] = Inr []"
| "un_all un (d # ds) = bind_result (un d) (\<lambda>v. bind_result (un_all un ds) (\<lambda>vs. Inr (v # vs)))"

text \<open>One value read by a command: \<open>redis.Nil\<close> is \<open>ErrNotFound\<close>.\<close>

definition read_one :: "'r redis \<Rightarrow> (doc \<Rightarrow> (storage_error, 'v) result) \<Rightarrow> command \<Rightarrow> 'r \<Rightarrow> 'r \<times> (storage_error, 'v) result" where
  "read_one R un c r =
     (case R c r of (rep, r1) \<Rightarrow>
        (r1, bind_result (as_doc rep) (\<lambda>d. case d of None \<Rightarrow> Inl ErrNotFound | Some x \<Rightarrow> un x)))"

definition read_values :: "'r redis \<Rightarrow> (doc \<Rightarrow> (storage_error, 'v) result) \<Rightarrow> string \<Rightarrow> 'r \<Rightarrow> 'r \<times> (storage_error, 'v list) result" where
  "read_values R un key r =
     (case R (CmdHGetAll key) r of (rep, r1) \<Rightarrow> (r1, bind_result (as_values rep) (un_all un)))"

text \<open>A command that only reports its error, and one that removes something that must be there.\<close>

definition do_cmd :: "'r redis \<Rightarrow> command \<Rightarrow> 'r writer" where
  "do_cmd R c r = (case R c r of (rep, r1) \<Rightarrow> (r1, as_err rep))"

definition delete_one :: "'r redis \<Rightarrow> command \<Rightarrow> 'r writer" where
  "delete_one R c r =
     (case R c r of (rep, r1) \<Rightarrow>
        (r1, case as_int rep of Inl e \<Rightarrow> Some e | Inr n \<Rightarrow> if n = 0 then Some ErrNotFound else None))"

text \<open>Values read by name, those that can not be read left out.\<close>

fun read_named :: "(string \<Rightarrow> 'r \<Rightarrow> 'r \<times> (storage_error, 'v) result) \<Rightarrow> string list \<Rightarrow> 'r \<Rightarrow> 'r \<times> 'v list" where
  "read_named get [] r = (r, [])"
| "read_named get (n # ns) r =
     (case get n r of (r1, res) \<Rightarrow>
        (case read_named get ns r1 of (r2, vs) \<Rightarrow> (r2, case res of Inl e \<Rightarrow> vs | Inr v \<Rightarrow> v # vs)))"

definition read_set :: "'r redis \<Rightarrow> string \<Rightarrow> (string \<Rightarrow> 'r \<Rightarrow> 'r \<times> (storage_error, 'v) result) \<Rightarrow> 'r \<Rightarrow>
    'r \<times> (storage_error, 'v list) result" where
  "read_set R key get r =
     (case R (CmdSMembers key) r of (rep, r1) \<Rightarrow>
        (case as_names rep of
           Inl e \<Rightarrow> (r1, Inl e)
         | Inr ns \<Rightarrow> (case read_named get ns r1 of (r2, vs) \<Rightarrow> (r2, Inr vs))))"

section \<open>UserStore, RosterStore, BlockingStore, VCardStore, OfflineStore\<close>

definition redis_Init :: "'r redis \<Rightarrow> 'r writer" where
  "redis_Init R = do_cmd R CmdPing"

definition create_one :: "'r redis \<Rightarrow> string \<Rightarrow> doc \<Rightarrow> 'r writer" where
  "create_one R key d r =
     (case R (CmdSetNX key d) r of (rep, r1) \<Rightarrow>
        (r1, case as_bool rep of Inl e \<Rightarrow> Some e | Inr b \<Rightarrow> if \<not> b then Some ErrUserExists else None))"

definition redis_CreateUser :: "'r redis \<Rightarrow> User \<Rightarrow> 'r writer" where
  "redis_CreateUser R user = create_one R (userKey (u_Username user)) (DUser user)"

definition redis_GetUser :: "'r redis \<Rightarrow> string \<Rightarrow> 'r \<Rightarrow> 'r \<times> (storage_error, User) result" where
  "redis_GetUser R username = read_one R un_user (CmdGet (userKey username))"

definition redis_UpdateUser :: "'r redis \<Rightarrow> gotime \<Rightarrow> User \<Rightarrow> 'r writer" where
  "redis_UpdateUser R now user r =
     (let key = userKey (u_Username user)
      in case R (CmdExists key) r of (rep, r1) \<Rightarrow>
           (case as_int rep of
              Inl e \<Rightarrow> (r1, Some e)
            | Inr n \<Rightarrow>
                if n = 0 then (r1, Some ErrNotFound)
                else do_cmd R (CmdSet key (DUser (user\<lparr>u_UpdatedAt := now\<rparr>))) r1))"

definition redis_DeleteUser :: "'r redis \<Rightarrow> string \<Rightarrow> 'r writer" where
  "redis_DeleteUser R username = delete_one R (CmdDel (userKey username))"

definition redis_UserExists :: "'r redis \<Rightarrow> string \<Rightarrow> 'r \<Rightarrow> 'r \<times> (storage_error, bool) result" where
  "redis_UserExists R username r =
     (case R (CmdExists (userKey username)) r of (rep, r1) \<Rightarrow> (r1, bind_result (as_int rep) (\<lambda>n. Inr (n > 0))))"

definition redis_Authenticate :: "'r redis \<Rightarrow> string \<Rightarrow> string \<Rightarrow> 'r \<Rightarrow> 'r \<times> bool \<times> storage_error option" where
  "redis_Authenticate R username password r =
     (case redis_GetUser R username r of (r1, res) \<Rightarrow>
        (r1, case res of
           Inl e \<Rightarrow> (False, Some (if e = ErrNotFound then ErrAuthFailed else e))
         | Inr user \<Rightarrow> if u_Password user \<noteq> password then (False, Some ErrAuthFailed) else (True, None)))"

definition redis_UpsertRosterItem :: "'r redis \<Rightarrow> RosterItem \<Rightarrow> 'r writer" where
  "redis_UpsertRosterItem R item = do_cmd R (CmdHSet (rosterKey (ri_UserJID item)) (ri_ContactJID item) (DRoster item))"

definition redis_GetRosterItem :: "'r redis \<Rightarrow> string \<times> string \<Rightarrow> 'r \<Rightarrow> 'r \<times> (storage_error, RosterItem) result" where
  "redis_GetRosterItem R k = read_one R un_roster (CmdHGet (rosterKey (fst k)) (snd k))"

definition redis_GetRosterItems :: "'r redis \<Rightarrow> string \<Rightarrow> 'r \<Rightarrow> 'r \<times> (storage_error, RosterItem list) result" where
  "redis_GetRosterItems R userJID = read_values R un_roster (rosterKey userJID)"

definition redis_DeleteRosterItem :: "'r redis \<Rightarrow> string \<times> string \<Rightarrow> 'r writer" where
  "redis_DeleteRosterItem R k = delete_one R (CmdHDel (rosterKey (fst k)) (snd k))"

definition redis_GetRosterVersion :: "'r redis \<Rightarrow> string \<Rightarrow> 'r \<Rightarrow> 'r \<times> (storage_error, string) result" where
  "redis_GetRosterVersion R userJID r =
     (case read_one R un_text (CmdGet (rosterVerKey userJID)) r of (r1, res) \<Rightarrow>
        (r1, if res = Inl ErrNotFound then Inr '''' else res))"

definition redis_SetRosterVersion :: "'r redis \<Rightarrow> string \<Rightarrow> string \<Rightarrow> 'r writer" where
  "redis_SetRosterVersion R userJID version = do_cmd R (CmdSet (rosterVerKey userJID) (DText version))"

definition redis_BlockJID :: "'r redis \<Rightarrow> string \<Rightarrow> string \<Rightarrow> 'r writer" where
  "redis_BlockJID R userJID blockedJID = do_cmd R (CmdSAdd (blockedKey userJID) blockedJID)"

definition redis_UnblockJID :: "'r redis \<Rightarrow> string \<Rightarrow> string \<Rightarrow> 'r writer" where
  "redis_UnblockJID R userJID blockedJID = do_cmd R (CmdSRem (blockedKey userJID) blockedJID)"

definition redis_IsBlocked :: "'r redis \<Rightarrow> string \<Rightarrow> string \<Rightarrow> 'r \<Rightarrow> 'r \<times> (storage_error, bool) result" where
  "redis_IsBlocked R userJID blockedJID r =
     (case R (CmdSIsMember (blockedKey userJID) blockedJID) r of (rep, r1) \<Rightarrow> (r1, as_bool rep))"

definition redis_GetBlockedJIDs :: "'r redis \<Rightarrow> string \<Rightarrow> 'r \<Rightarrow> 'r \<times> (storage_error, string list) result" where
  "redis_GetBlockedJIDs R userJID r =
     (case R (CmdSMembers (blockedKey userJID)) r of (rep, r1) \<Rightarrow> (r1, as_names rep))"

definition redis_SetVCard :: "'r redis \<Rightarrow> string \<Rightarrow> bytes \<Rightarrow> 'r writer" where
  "redis_SetVCard R userJID data = do_cmd R (CmdSet (vcardKey userJID) (DBytes data))"

definition redis_GetVCard :: "'r redis \<Rightarrow> string \<Rightarrow> 'r \<Rightarrow> 'r \<times> (storage_error, bytes) result" where
  "redis_GetVCard R userJID = read_one R un_bytes (CmdGet (vcardKey userJID))"

definition redis_DeleteVCard :: "'r redis \<Rightarrow> string \<Rightarrow> 'r writer" where
  "redis_DeleteVCard R userJID = delete_one R (CmdDel (vcardKey userJID))"

definition redis_StoreOfflineMessage :: "'r redis \<Rightarrow> OfflineMessage \<Rightarrow> 'r writer" where
  "redis_StoreOfflineMessage R msg = do_cmd R (CmdRPush (offlineKey (off_UserJID msg)) (DOffline msg))"

definition redis_GetOfflineMessages :: "'r redis \<Rightarrow> string \<Rightarrow> 'r \<Rightarrow> 'r \<times> (storage_error, OfflineMessage list) result" where
  "redis_GetOfflineMessages R userJID r =
     (case R (CmdLRange (offlineKey userJID)) r of (rep, r1) \<Rightarrow> (r1, bind_result (as_docs rep) (un_all un_offline)))"

definition redis_DeleteOfflineMessages :: "'r redis \<Rightarrow> string \<Rightarrow> 'r writer" where
  "redis_DeleteOfflineMessages R userJID = do_cmd R (CmdDel (offlineKey userJID))"

definition redis_CountOfflineMessages :: "'r redis \<Rightarrow> string \<Rightarrow> 'r \<Rightarrow> 'r \<times> (storage_error, nat) result" where
  "redis_CountOfflineMessages R userJID r =
     (case R (CmdLLen (offlineKey userJID)) r of (rep, r1) \<Rightarrow> (r1, as_int rep))"

section \<open>MAMStore\<close>

text \<open>\<open>UnixNano\<close> counts from 1970 in 64 bits; \<open>float64\<close> rounds to 53 bits, ties to even.\<close>

definition UnixNano :: "gotime \<Rightarrow> int" where
  "UnixNano t = sint (word_of_int (t - 62135596800 * 10 ^ 9) :: 64 word)"

definition float64 :: "int \<Rightarrow> int" where
  "float64 n =
     (let m = nat \<bar>n\<bar>; e = floorlog 2 m - 53; q = m div 2 ^ e; d = m mod 2 ^ e; h = 2 ^ e div 2;
          q' = (if e \<noteq> 0 \<and> (d > h \<or> d = h \<and> odd q) then q + 1 else q)
      in sgn n * int (q' * 2 ^ e))"

definition redis_ArchiveMessage :: "'r redis \<Rightarrow> gotime \<Rightarrow> ArchivedMessage \<Rightarrow> 'r writer" where
  "redis_ArchiveMessage R now msg =
     (let msg' = (if IsZero (am_CreatedAt msg) then msg\<lparr>am_CreatedAt := now\<rparr> else msg)
      in pipe_Exec R
           [CmdZAdd (mamKey (am_UserJID msg')) (float64 (UnixNano (am_CreatedAt msg'))) (am_ID msg'),
            CmdSet (mamMsgKey (am_UserJID msg') (am_ID msg')) (DMsg msg')])"

definition redis_mam_matches :: "MAMQuery \<Rightarrow> ArchivedMessage \<Rightarrow> bool" where
  "redis_mam_matches q msg \<longleftrightarrow>
     \<not> (q_WithJID q \<noteq> '''' \<and> am_WithJID msg \<noteq> q_WithJID q) \<and>
     \<not> (\<not> IsZero (q_Start q) \<and> am_CreatedAt msg < q_Start q) \<and>
     \<not> (\<not> IsZero (q_End q) \<and> q_End q < am_CreatedAt msg)"

text \<open>The loop over the identifiers; \<open>found\<close> is \<open>afterIDFound\<close>, \<open>msgs\<close> what is collected so far.\<close>

fun redis_mam_loop :: "'r redis \<Rightarrow> MAMQuery \<Rightarrow> nat \<Rightarrow> bool \<Rightarrow> string list \<Rightarrow> ArchivedMessage list \<Rightarrow> 'r \<Rightarrow>
    'r \<times> (storage_error, ArchivedMessage list) result" where
  "redis_mam_loop R q mx found [] msgs r = (r, Inr msgs)"
| "redis_mam_loop R q mx found (i # is) msgs r =
     (if \<not> found then redis_mam_loop R q mx (i = q_AfterID q) is msgs r
      else if q_BeforeID q \<noteq> '''' \<and> i = q_BeforeID q then (r, Inr msgs)
      else case read_one R un_msg (CmdGet (mamMsgKey (q_UserJID q) i)) r of
        (r1, Inl e) \<Rightarrow> if e = ErrNotFound then redis_mam_loop R q mx found is msgs r1 else (r1, Inl e)
      | (r1, Inr msg) \<Rightarrow>
          if \<not> redis_mam_matches q msg then redis_mam_loop R q mx found is msgs r1
          else if length (msgs @ [msg]) > mx then (r1, Inr (msgs @ [msg]))
          else redis_mam_loop R q mx found is (msgs @ [msg]) r1)"

definition redis_mam_page :: "nat \<Rightarrow> ArchivedMessage list \<Rightarrow> MAMResult" where
  "redis_mam_page mx msgs =
     (let page = (if length msgs > mx then take mx msgs else msgs)
      in \<lparr>mr_Messages = page, mr_Complete = (length msgs \<le> mx),
          mr_First = (if page \<noteq> [] then am_ID (hd page) else ''''),
          mr_Last = (if page \<noteq> [] then am_ID (last page) else ''''), mr_Count = length page\<rparr>)"

definition redis_QueryMessages :: "'r redis \<Rightarrow> MAMQuery \<Rightarrow> 'r \<Rightarrow> 'r \<times> (storage_error, MAMResult) result" where
  "redis_QueryMessages R q r =
     (case R (CmdZRangeByScore (mamKey (q_UserJID q))) r of (rep, r1) \<Rightarrow>
        (case as_names rep of
           Inl e \<Rightarrow> (r1, Inl e)
         | Inr ids \<Rightarrow>
             (case redis_mam_loop R q (mam_max q) (q_AfterID q = '''') ids [] r1 of (r2, res) \<Rightarrow>
                (r2, bind_result res (\<lambda>msgs. Inr (redis_mam_page (mam_max q) msgs))))))"

definition redis_DeleteMessageArchive :: "'r redis \<Rightarrow> string \<Rightarrow> 'r writer" where
  "redis_DeleteMessageArchive R userJID r =
     (case R (CmdZRange (mamKey userJID)) r of (rep, r1) \<Rightarrow>
        (case as_names rep of
           Inl e \<Rightarrow> (r1, Some e)
         | Inr ids \<Rightarrow> pipe_Exec R (map (\<lambda>i. CmdDel (mamMsgKey userJID i)) ids @ [CmdDel (mamKey userJID)]) r1))"

section \<open>MUCRoomStore\<close>

definition redis_CreateRoom :: "'r redis \<Rightarrow> MUCRoom \<Rightarrow> 'r writer" where
  "redis_CreateRoom R room r =
     (case create_one R (mucRoomKey (room_RoomJID room)) (DRoom room) r of
        (r1, Some e) \<Rightarrow> (r1, Some e)
      | (r1, None) \<Rightarrow> (run_cmd R (CmdSAdd mucRoomsSetKey (room_RoomJID room)) r1, None))"

definition redis_GetRoom :: "'r redis \<Rightarrow> string \<Rightarrow> 'r \<Rightarrow> 'r \<times> (storage_error, MUCRoom) result" where
  "redis_GetRoom R roomJID = read_one R un_room (CmdGet (mucRoomKey roomJID))"

definition redis_UpdateRoom :: "'r redis \<Rightarrow> MUCRoom \<Rightarrow> 'r writer" where
  "redis_UpdateRoom R room r =
     (let key = mucRoomKey (room_RoomJID room)
      in case R (CmdExists key) r of (rep, r1) \<Rightarrow>
           (case as_int rep of
              Inl e \<Rightarrow> (r1, Some e)
            | Inr n \<Rightarrow> if n = 0 then (r1, Some ErrNotFound) else do_cmd R (CmdSet key (DRoom room)) r1))"

definition redis_DeleteRoom :: "'r redis \<Rightarrow> string \<Rightarrow> 'r writer" where
  "redis_DeleteRoom R roomJID r =
     (case delete_one R (CmdDel (mucRoomKey roomJID)) r of
        (r1, Some e) \<Rightarrow> (r1, Some e)
      | (r1, None) \<Rightarrow> (run_cmd R (CmdDel (mucAffKey roomJID)) (run_cmd R (CmdSRem mucRoomsSetKey roomJID) r1), None))"

definition redis_ListRooms :: "'r redis \<Rightarrow> 'r \<Rightarrow> 'r \<times> (storage_error, MUCRoom list) result" where
  "redis_ListRooms R = read_set R mucRoomsSetKey (redis_GetRoom R)"

definition redis_SetAffiliation :: "'r redis \<Rightarrow> MUCAffiliation \<Rightarrow> 'r writer" where
  "redis_SetAffiliation R aff = do_cmd R (CmdHSet (mucAffKey (aff_RoomJID aff)) (aff_UserJID aff) (DAff aff))"

definition redis_GetAffiliation :: "'r redis \<Rightarrow> string \<times> string \<Rightarrow> 'r \<Rightarrow> 'r \<times> (storage_error, MUCAffiliation) result" where
  "redis_GetAffiliation R k = read_one R un_aff (CmdHGet (mucAffKey (fst k)) (snd k))"

definition redis_GetAffiliations :: "'r redis \<Rightarrow> string \<Rightarrow> 'r \<Rightarrow> 'r \<times> (storage_error, MUCAffiliation list) result" where
  "redis_GetAffiliations R roomJID = read_values R un_aff (mucAffKey roomJID)"

definition redis_RemoveAffiliation :: "'r redis \<Rightarrow> string \<times> string \<Rightarrow> 'r writer" where
  "redis_RemoveAffiliation R k = do_cmd R (CmdHDel (mucAffKey (fst k)) (snd k))"

section \<open>PubSubStore\<close>

definition redis_CreateNode :: "'r redis \<Rightarrow> PubSubNode \<Rightarrow> 'r writer" where
  "redis_CreateNode R node r =
     (case create_one R (pubsubNodeKey (node_Host node) (node_NodeID node)) (DNode node) r of
        (r1, Some e) \<Rightarrow> (r1, Some e)
      | (r1, None) \<Rightarrow> (run_cmd R (CmdSAdd (pubsubNodesKey (node_Host node)) (node_NodeID node)) r1, None))"

definition redis_GetNode :: "'r redis \<Rightarrow> string \<times> string \<Rightarrow> 'r \<Rightarrow> 'r \<times> (storage_error, PubSubNode) result" where
  "redis_GetNode R k = read_one R un_node (CmdGet (pubsubNodeKey (fst k) (snd k)))"

text \<open>The replies of \<open>SMembers\<close> and \<open>HKeys\<close> are used without their errors: no names then.\<close>

definition names_or_none :: "string + reply \<Rightarrow> string list" where
  "names_or_none rep = (case as_names rep of Inl e \<Rightarrow> [] | Inr ns \<Rightarrow> ns)"

definition redis_DeleteNode :: "'r redis \<Rightarrow> string \<times> string \<Rightarrow> 'r writer" where
  "redis_DeleteNode R k r =
     (let host = fst k; nodeID = snd k
      in case delete_one R (CmdDel (pubsubNodeKey host nodeID)) r of
           (r1, Some e) \<Rightarrow> (r1, Some e)
         | (r1, None) \<Rightarrow>
             (let r2 = run_cmd R (CmdSRem (pubsubNodesKey host) nodeID) r1
              in case R (CmdSMembers (pubsubItemsKey host nodeID)) r2 of (rep3, r3) \<Rightarrow>
                   (case R (CmdHKeys (pubsubSubsKey host nodeID)) r3 of (rep4, r4) \<Rightarrow>
                      pipe_Exec R
                        (map (\<lambda>i. CmdDel (pubsubItemKey host nodeID i)) (names_or_none rep3) @
                         [CmdDel (pubsubItemsKey host nodeID)] @
                         map (\<lambda>j. CmdSRem (pubsubUserSubsKey host j) nodeID) (names_or_none rep4) @
                         [CmdDel (pubsubSubsKey host nodeID)]) r4)))"

definition redis_ListNodes :: "'r redis \<Rightarrow> string \<Rightarrow> 'r \<Rightarrow> 'r \<times> (storage_error, PubSubNode list) result" where
  "redis_ListNodes R host = read_set R (pubsubNodesKey host) (\<lambda>n. redis_GetNode R (host, n))"

definition redis_UpsertItem :: "'r redis \<Rightarrow> gotime \<Rightarrow> PubSubItem \<Rightarrow> 'r writer" where
  "redis_UpsertItem R now item =
     (let item' = (if IsZero (item_CreatedAt item) then item\<lparr>item_CreatedAt := now\<rparr> else item)
      in pipe_Exec R
           [CmdSet (pubsubItemKey (item_Host item') (item_NodeID item') (item_ItemID item')) (DItem item'),
            CmdSAdd (pubsubItemsKey (item_Host item') (item_NodeID item')) (item_ItemID item')])"

definition redis_GetItem :: "'r redis \<Rightarrow> key3 \<Rightarrow> 'r \<Rightarrow> 'r \<times> (storage_error, PubSubItem) result" where
  "redis_GetItem R k = read_one R un_item (CmdGet (pubsubItemKey (fst k) (fst (snd k)) (snd (snd k))))"

definition redis_GetItems :: "'r redis \<Rightarrow> string \<times> string \<Rightarrow> 'r \<Rightarrow> 'r \<times> (storage_error, PubSubItem list) result" where
  "redis_GetItems R k = read_set R (pubsubItemsKey (fst k) (snd k)) (\<lambda>i. redis_GetItem R (fst k, snd k, i))"

definition redis_DeleteItem :: "'r redis \<Rightarrow> key3 \<Rightarrow> 'r writer" where
  "redis_DeleteItem R k r =
     (case delete_one R (CmdDel (pubsubItemKey (fst k) (fst (snd k)) (snd (snd k)))) r of
        (r1, Some e) \<Rightarrow> (r1, Some e)
      | (r1, None) \<Rightarrow> (run_cmd R (CmdSRem (pubsubItemsKey (fst k) (fst (snd k))) (snd (snd k))) r1, None))"

definition redis_Subscribe :: "'r redis \<Rightarrow> PubSubSubscription \<Rightarrow> 'r writer" where
  "redis_Subscribe R sub =
     pipe_Exec R
       [CmdHSet (pubsubSubsKey (sub_Host sub) (sub_NodeID sub)) (sub_JID sub) (DSub sub),
        CmdSAdd (pubsubUserSubsKey (sub_Host sub) (sub_JID sub)) (sub_NodeID sub)]"

definition redis_Unsubscribe :: "'r redis \<Rightarrow> key3 \<Rightarrow> 'r writer" where
  "redis_Unsubscribe R k =
     pipe_Exec R
       [CmdHDel (pubsubSubsKey (fst k) (fst (snd k))) (snd (snd k)),
        CmdSRem (pubsubUserSubsKey (fst k) (snd (snd k))) (fst (snd k))]"

definition redis_GetSubscription :: "'r redis \<Rightarrow> key3 \<Rightarrow> 'r \<Rightarrow> 'r \<times> (storage_error, PubSubSubscription) result" where
  "redis_GetSubscription R k = read_one R un_sub (CmdHGet (pubsubSubsKey (fst k) (fst (snd k))) (snd (snd k)))"

definition redis_GetSubscriptions :: "'r redis \<Rightarrow> string \<times> string \<Rightarrow> 'r \<Rightarrow> 'r \<times> (storage_error, PubSubSubscription list) result" where
  "redis_GetSubscriptions R k = read_values R un_sub (pubsubSubsKey (fst k) (snd k))"

definition redis_GetUserSubscriptions :: "'r redis \<Rightarrow> string \<Rightarrow> string \<Rightarrow> 'r \<Rightarrow> 'r \<times> (storage_error, PubSubSubscription list) result" where
  "redis_GetUserSubscriptions R host jid =
     read_set R (pubsubUserSubsKey host jid) (\<lambda>n. redis_GetSubscription R (host, n, jid))"

section \<open>BookmarkStore\<close>

definition redis_SetBookmark :: "'r redis \<Rightarrow> Bookmark \<Rightarrow> 'r writer" where
  "redis_SetBookmark R bm = do_cmd R (CmdHSet (bookmarkKey (bm_UserJID bm)) (bm_RoomJID bm) (DBookmark bm))"

definition redis_GetBookmark :: "'r redis \<Rightarrow> string \<times> string \<Rightarrow> 'r \<Rightarrow> 'r \<times> (storage_error, Bookmark) result" where
  "redis_GetBookmark R k = read_one R un_bookmark (CmdHGet (bookmarkKey (fst k)) (snd k))"

definition redis_GetBookmarks :: "'r redis \<Rightarrow> string \<Rightarrow> 'r \<Rightarrow> 'r \<times> (storage_error, Bookmark list) result" where
  "redis_GetBookmarks R userJID = read_values R un_bookmark (bookmarkKey userJID)"

definition redis_DeleteBookmark :: "'r redis \<Rightarrow> string \<times> string \<Rightarrow> 'r writer" where
  "redis_DeleteBookmark R k = delete_one R (CmdHDel (bookmarkKey (fst k)) (snd k))"

section \<open>Calls\<close>

text \<open>The store as an implementation of the interfaces; the order of replies is up to the server.\<close>

definition reads_with :: "('r \<Rightarrow> 'r \<times> 'x) \<Rightarrow> ('x \<Rightarrow> storage_reply) \<Rightarrow> 'r \<Rightarrow> 'r \<times> storage_reply" where
  "reads_with get C r = (case get r of (r', x) \<Rightarrow> (r', C x))"

fun redis_user :: "'r redis \<Rightarrow> user_call \<Rightarrow> 'r \<Rightarrow> 'r \<times> storage_reply" where
  "redis_user R (CallCreateUser now u) r = writes (redis_CreateUser R u) r"
| "redis_user R (CallGetUser n) r = reads_with (redis_GetUser R n) ReplyUser r"
| "redis_user R (CallUpdateUser now u) r = writes (redis_UpdateUser R now u) r"
| "redis_user R (CallDeleteUser n) r = writes (redis_DeleteUser R n) r"
| "redis_user R (CallUserExists n) r = reads_with (redis_UserExists R n) ReplyBool r"
| "redis_user R (CallAuthenticate n pw) r = reads_with (redis_Authenticate R n pw) ReplyAuth r"

fun redis_roster :: "'r redis \<Rightarrow> roster_call \<Rightarrow> 'r \<Rightarrow> 'r \<times> storage_reply" where
  "redis_roster R (CallUpsertRosterItem i) r = writes (redis_UpsertRosterItem R i) r"
| "redis_roster R (CallGetRosterItem k) r = reads_with (redis_GetRosterItem R k) ReplyItem r"
| "redis_roster R (CallGetRosterItems u) r = reads_with (redis_GetRosterItems R u) ReplyItems r"
| "redis_roster R (CallDeleteRosterItem k) r = writes (redis_DeleteRosterItem R k) r"
| "redis_roster R (CallGetRosterVersion u) r = reads_with (redis_GetRosterVersion R u) ReplyText r"
| "redis_roster R (CallSetRosterVersion u v) r = writes (redis_SetRosterVersion R u v) r"

fun redis_blocking :: "'r redis \<Rightarrow> blocking_call \<Rightarrow> 'r \<Rightarrow> 'r \<times> storage_reply" where
  "redis_blocking R (CallBlockJID u j) r = writes (redis_BlockJID R u j) r"
| "redis_blocking R (CallUnblockJID u j) r = writes (redis_UnblockJID R u j) r"
| "redis_blocking R (CallIsBlocked u j) r = reads_with (redis_IsBlocked R u j) ReplyBool r"
| "redis_blocking R (CallGetBlockedJIDs u) r = reads_with (redis_GetBlockedJIDs R u) ReplyTexts r"

fun redis_vcard :: "'r redis \<Rightarrow> vcard_call \<Rightarrow> 'r \<Rightarrow> 'r \<times> storage_reply" where
  "redis_vcard R (CallSetVCard u d) r = writes (redis_SetVCard R u d) r"
| "redis_vcard R (CallGetVCard u) r = reads_with (redis_GetVCard R u) ReplyBytes r"
| "redis_vcard R (CallDeleteVCard u) r = writes (redis_DeleteVCard R u) r"

fun redis_offline :: "'r redis \<Rightarrow> offline_call \<Rightarrow> 'r \<Rightarrow> 'r \<times> storage_reply" where
  "redis_offline R (CallStoreOfflineMessage now m) r = writes (redis_StoreOfflineMessage R m) r"
| "redis_offline R (CallGetOfflineMessages u) r = reads_with (redis_GetOfflineMessages R u) ReplyOffline r"
| "redis_offline R (CallDeleteOfflineMessages u) r = writes (redis_DeleteOfflineMessages R u) r"
| "redis_offline R (CallCountOfflineMessages u) r = reads_with (redis_CountOfflineMessages R u) ReplyCount r"

fun redis_mam :: "'r redis \<Rightarrow> mam_call \<Rightarrow> 'r \<Rightarrow> 'r \<times> storage_reply" where
  "redis_mam R (CallArchiveMessage now m) r = writes (redis_ArchiveMessage R now m) r"
| "redis_mam R (CallQueryMessages q) r = reads_with (redis_QueryMessages R q) ReplyMAM r"
| "redis_mam R (CallDeleteMessageArchive u) r = writes (redis_DeleteMessageArchive R u) r"

fun redis_muc :: "'r redis \<Rightarrow> muc_call \<Rightarrow> 'r \<Rightarrow> 'r \<times> storage_reply" where
  "redis_muc R (CallCreateRoom m) r = writes (redis_CreateRoom R m) r"
| "redis_muc R (CallGetRoom j) r = reads_with (redis_GetRoom R j) ReplyRoom r"
| "redis_muc R (CallUpdateRoom m) r = writes (redis_UpdateRoom R m) r"
| "redis_muc R (CallDeleteRoom j) r = writes (redis_DeleteRoom R j) r"
| "redis_muc R CallListRooms r = reads_with (redis_ListRooms R) ReplyRooms r"
| "redis_muc R (CallSetAffiliation a) r = writes (redis_SetAffiliation R a) r"
| "redis_muc R (CallGetAffiliation k) r = reads_with (redis_GetAffiliation R k) ReplyAff r"
| "redis_muc R (CallGetAffiliations j) r = reads_with (redis_GetAffiliations R j) ReplyAffs r"
| "redis_muc R (CallRemoveAffiliation k) r = writes (redis_RemoveAffiliation R k) r"

fun redis_pubsub :: "'r redis \<Rightarrow> pubsub_call \<Rightarrow> 'r \<Rightarrow> 'r \<times> storage_reply" where
  "redis_pubsub R (CallCreateNode n) r = writes (redis_CreateNode R n) r"
| "redis_pubsub R (CallGetNode k) r = reads_with (redis_GetNode R k) ReplyNode r"
| "redis_pubsub R (CallDeleteNode k) r = writes (redis_DeleteNode R k) r"
| "redis_pubsub R (CallListNodes h) r = reads_with (redis_ListNodes R h) ReplyNodes r"
| "redis_pubsub R (CallUpsertItem now i) r = writes (redis_UpsertItem R now i) r"
| "redis_pubsub R (CallGetItem k) r = reads_with (redis_GetItem R k) ReplyPubItem r"
| "redis_pubsub R (CallGetItems k) r = reads_with (redis_GetItems R k) ReplyPubItems r"
| "redis_pubsub R (CallDeleteItem k) r = writes (redis_DeleteItem R k) r"
| "redis_pubsub R (CallSubscribe b) r = writes (redis_Subscribe R b) r"
| "redis_pubsub R (CallUnsubscribe k) r = writes (redis_Unsubscribe R k) r"
| "redis_pubsub R (CallGetSubscription k) r = reads_with (redis_GetSubscription R k) ReplySub r"
| "redis_pubsub R (CallGetSubscriptions k) r = reads_with (redis_GetSubscriptions R k) ReplySubs r"
| "redis_pubsub R (CallGetUserSubscriptions h j) r = reads_with (redis_GetUserSubscriptions R h j) ReplySubs r"

fun redis_bookmark :: "'r redis \<Rightarrow> bookmark_call \<Rightarrow> 'r \<Rightarrow> 'r \<times> storage_reply" where
  "redis_bookmark R (CallSetBookmark b) r = writes (redis_SetBookmark R b) r"
| "redis_bookmark R (CallGetBookmark k) r = reads_with (redis_GetBookmark R k) ReplyBookmark r"
| "redis_bookmark R (CallGetBookmarks u) r = reads_with (redis_GetBookmarks R u) ReplyBookmarks r"
| "redis_bookmark R (CallDeleteBookmark k) r = writes (redis_DeleteBookmark R k) r"

fun redis_call :: "'r redis \<Rightarrow> storage_call \<Rightarrow> 'r \<Rightarrow> 'r \<times> storage_reply" where
  "redis_call R (UserStore c) r = redis_user R c r"
| "redis_call R (RosterStore c) r = redis_roster R c r"
| "redis_call R (BlockingStore c) r = redis_blocking R c r"
| "redis_call R (VCardStore c) r = redis_vcard R c r"
| "redis_call R (OfflineStore c) r = redis_offline R c r"
| "redis_call R (MAMStore c) r = redis_mam R c r"
| "redis_call R (MUCRoomStore c) r = redis_muc R c r"
| "redis_call R (PubSubStore c) r = redis_pubsub R c r"
| "redis_call R (BookmarkStore c) r = redis_bookmark R c r"

section \<open>What the server promises\<close>

text \<open>
  The database: strings, hashes, sets, lists and sorted sets (members with their scores) under keys; no
  container is empty or infinite.
\<close>

datatype rval = VStr doc | VHash "string \<rightharpoonup> doc" | VSet "string set" | VList "doc list" | VZset "string \<rightharpoonup> int"

type_synonym db = "string \<rightharpoonup> rval"

fun wf_val :: "rval \<Rightarrow> bool" where
  "wf_val (VStr d) \<longleftrightarrow> True"
| "wf_val (VHash m) \<longleftrightarrow> m \<noteq> Map.empty \<and> finite (dom m)"
| "wf_val (VSet a) \<longleftrightarrow> a \<noteq> {} \<and> finite a"
| "wf_val (VList ds) \<longleftrightarrow> ds \<noteq> []"
| "wf_val (VZset z) \<longleftrightarrow> z \<noteq> Map.empty \<and> finite (dom z)"

definition wf_db :: "db \<Rightarrow> bool" where
  "wf_db v \<longleftrightarrow> (\<forall>k x. v k = Some x \<longrightarrow> wf_val x)"

definition hash_val :: "(string \<rightharpoonup> doc) \<Rightarrow> rval option" where
  "hash_val m = (if m = Map.empty then None else Some (VHash m))"

definition set_val :: "string set \<Rightarrow> rval option" where
  "set_val a = (if a = {} then None else Some (VSet a))"

definition list_val :: "doc list \<Rightarrow> rval option" where
  "list_val ds = (if ds = [] then None else Some (VList ds))"

definition zset_val :: "(string \<rightharpoonup> int) \<Rightarrow> rval option" where
  "zset_val z = (if z = Map.empty then None else Some (VZset z))"

text \<open>Sorted sets are ordered by score, members of equal score by their bytes.\<close>

fun bytes_le :: "string \<Rightarrow> string \<Rightarrow> bool" where
  "bytes_le [] t = True"
| "bytes_le (a # s) [] = False"
| "bytes_le (a # s) (b # t) = (of_char a < (of_char b :: nat) \<or> a = b \<and> bytes_le s t)"

definition zset_le :: "(string \<rightharpoonup> int) \<Rightarrow> string \<Rightarrow> string \<Rightarrow> bool" where
  "zset_le z a b \<longleftrightarrow> the (z a) < the (z b) \<or> z a = z b \<and> bytes_le a b"

text \<open>
  What a command answers and does, for a key that is free or holds a value of the right kind: \<open>answer c v x v'\<close>
  says that \<open>x\<close> is a reply to \<open>c\<close> in the database \<open>v\<close>, which becomes \<open>v'\<close>.
\<close>

inductive answer :: "command \<Rightarrow> db \<Rightarrow> reply \<Rightarrow> db \<Rightarrow> bool" where
  "answer CmdPing v ReOk v"
| "answer (CmdSetNX k d) v (ReBool (v k = None)) (if v k = None then v(k \<mapsto> VStr d) else v)"
| "v k = map_option VStr x \<Longrightarrow> answer (CmdGet k) v (ReDoc x) v"
| "answer (CmdSet k d) v ReOk (v(k \<mapsto> VStr d))"
| "answer (CmdExists k) v (ReInt (if v k = None then 0 else 1)) v"
| "answer (CmdDel k) v (ReInt (if v k = None then 0 else 1)) (v(k := None))"
| "v k = hash_val m \<Longrightarrow> answer (CmdHSet k f d) v (ReInt n) (v(k := hash_val (m(f \<mapsto> d))))"
| "v k = hash_val m \<Longrightarrow> answer (CmdHGet k f) v (ReDoc (m f)) v"
| "v k = hash_val m \<Longrightarrow> distinct (map fst fs) \<Longrightarrow> map_of fs = m \<Longrightarrow> answer (CmdHGetAll k) v (ReFields fs) v"
| "v k = hash_val m \<Longrightarrow> answer (CmdHDel k f) v (ReInt (if m f = None then 0 else 1)) (v(k := hash_val (m(f := None))))"
| "v k = hash_val m \<Longrightarrow> enumerates ns m \<Longrightarrow> answer (CmdHKeys k) v (ReNames ns) v"
| "v k = set_val a \<Longrightarrow> answer (CmdSAdd k x) v (ReInt n) (v(k := set_val (insert x a)))"
| "v k = set_val a \<Longrightarrow> answer (CmdSRem k x) v (ReInt n) (v(k := set_val (a - {x})))"
| "v k = set_val a \<Longrightarrow> answer (CmdSIsMember k x) v (ReBool (x \<in> a)) v"
| "v k = set_val a \<Longrightarrow> distinct ns \<Longrightarrow> set ns = a \<Longrightarrow> answer (CmdSMembers k) v (ReNames ns) v"
| "v k = list_val ds \<Longrightarrow> answer (CmdRPush k d) v (ReInt (length ds + 1)) (v(k := list_val (ds @ [d])))"
| "v k = list_val ds \<Longrightarrow> answer (CmdLRange k) v (ReDocs ds) v"
| "v k = list_val ds \<Longrightarrow> answer (CmdLLen k) v (ReInt (length ds)) v"
| "v k = zset_val z \<Longrightarrow> answer (CmdZAdd k sc x) v (ReInt n) (v(k := zset_val (z(x \<mapsto> sc))))"
| "v k = zset_val z \<Longrightarrow> enumerates ns z \<Longrightarrow> sorted_wrt (zset_le z) ns \<Longrightarrow> answer (CmdZRangeByScore k) v (ReNames ns) v"
| "v k = zset_val z \<Longrightarrow> enumerates ns z \<Longrightarrow> sorted_wrt (zset_le z) ns \<Longrightarrow> answer (CmdZRange k) v (ReNames ns) v"

inductive_cases answerE:
  "answer (CmdSetNX k d) v x v'" "answer (CmdGet k) v x v'" "answer (CmdSet k d) v x v'" "answer (CmdExists k) v x v'"
  "answer (CmdDel k) v x v'" "answer (CmdHSet k f d) v x v'" "answer (CmdHGet k f) v x v'" "answer (CmdHGetAll k) v x v'"
  "answer (CmdHDel k f) v x v'" "answer (CmdHKeys k) v x v'" "answer (CmdSAdd k y) v x v'" "answer (CmdSRem k y) v x v'"
  "answer (CmdSIsMember k y) v x v'" "answer (CmdSMembers k) v x v'" "answer (CmdRPush k d) v x v'"
  "answer (CmdLRange k) v x v'" "answer (CmdLLen k) v x v'" "answer (CmdZAdd k sc y) v x v'"
  "answer (CmdZRangeByScore k) v x v'" "answer (CmdZRange k) v x v'"

text \<open>
  A server that can be reached and answers: a command that has an answer in the database gets one, and a
  command on a value of another kind gets an error and changes nothing.
\<close>

definition redis_serves :: "'r redis \<Rightarrow> ('r \<Rightarrow> db) \<Rightarrow> bool" where
  "redis_serves R view \<longleftrightarrow>
     (\<forall>c r. wf_db (view r) \<longrightarrow>
        (if \<exists>x v'. answer c (view r) x v' then \<exists>x r'. R c r = (Inr x, r') \<and> answer c (view r) x (view r')
         else \<exists>e r'. R c r = (Inl e, r') \<and> view r' = view r))"

end
