(* ===== verification/StorageRedisServer.thy ===== *)
theory StorageRedisServer
  imports StorageRedis StorageRefinement
begin

text \<open>
  What the helper functions of the Redis store do on a server that answers as documented, in terms of the
  values under the keys; and the keys by what they are made from (\<open>rkey\<close>), so that different keys are told
  apart.
\<close>

section \<open>The server\<close>

lemma serves_step:
  assumes "redis_serves R view" "wf_db (view r)" "answer c (view r) x v'"
  obtains y r' where "R c r = (Inr y, r')" "answer c (view r) y (view r')"
  using assms unfolding redis_serves_def by (metis (no_types, lifting))

lemma val_inj [simp]:
  "hash_val m = hash_val m' \<longleftrightarrow> m = m'" "set_val a = set_val a' \<longleftrightarrow> a = a'" "list_val ds = list_val ds' \<longleftrightarrow> ds = ds'"
  "zset_val z = zset_val z' \<longleftrightarrow> z = z'"
  by (auto simp: hash_val_def set_val_def list_val_def zset_val_def)

lemma val_None [simp]:
  "hash_val m = None \<longleftrightarrow> m = Map.empty" "set_val a = None \<longleftrightarrow> a = {}" "list_val ds = None \<longleftrightarrow> ds = []"
  by (auto simp: hash_val_def set_val_def list_val_def)

lemma wf_hash:
  assumes "wf_db v" "v k = hash_val m"
  shows "finite (dom m)"
proof (cases "m = Map.empty")
  case False
  then have "wf_val (VHash m)"
    using assms unfolding wf_db_def hash_val_def by metis
  then show ?thesis by simp
qed simp

lemma wf_set:
  assumes "wf_db v" "v k = set_val a"
  shows "finite a"
proof (cases "a = {}")
  case False
  then have "wf_val (VSet a)"
    using assms unfolding wf_db_def set_val_def by metis
  then show ?thesis by simp
qed simp

lemma wf_zset:
  assumes "wf_db v" "v k = zset_val z"
  shows "finite (dom z)"
proof (cases "z = Map.empty")
  case False
  then have "wf_val (VZset z)"
    using assms unfolding wf_db_def zset_val_def by metis
  then show ?thesis by simp
qed simp

lemma wf_upd:
  assumes "wf_db v"
  shows "wf_db (v(k := None))" "wf_db (v(k \<mapsto> VStr d))" "finite (dom m) \<Longrightarrow> wf_db (v(k := hash_val m))"
    "finite a \<Longrightarrow> wf_db (v(k := set_val a))" "wf_db (v(k := list_val ds))" "finite (dom z) \<Longrightarrow> wf_db (v(k := zset_val z))"
  using assms by (auto simp: wf_db_def hash_val_def set_val_def list_val_def zset_val_def)

lemma answer_wf:
  assumes "answer c v x v'" "wf_db v"
  shows "wf_db v'"
  using assms(1)
proof cases
  case (7 k m f d n)
  then show ?thesis using wf_hash [OF assms(2)] wf_upd(3) [OF assms(2)] by simp
next
  case (10 k m f)
  then show ?thesis using wf_hash [OF assms(2)] wf_upd(3) [OF assms(2)] by simp
next
  case (12 k a x n)
  then show ?thesis using wf_set [OF assms(2)] wf_upd(4) [OF assms(2)] by simp
next
  case (13 k a x n)
  then show ?thesis using wf_set [OF assms(2)] wf_upd(4) [OF assms(2)] by simp
next
  case (19 k z sc x n)
  then show ?thesis using wf_zset [OF assms(2)] wf_upd(6) [OF assms(2)] by simp
qed (use assms(2) wf_upd [OF assms(2)] in auto)

text \<open>A state of the server that shows the database \<open>v\<close>, and a state reached with a result.\<close>

definition showing :: "('r \<Rightarrow> db) \<Rightarrow> db \<Rightarrow> 'r \<Rightarrow> bool" where
  "showing view v r \<longleftrightarrow> view r = v \<and> wf_db v"

lemma serves_do:
  assumes "redis_serves R view" "showing view v r" "answer c v x v'"
  obtains y r' v2 where "R c r = (Inr y, r')" "answer c v y v2" "showing view v2 r'"
  using serves_step [OF assms(1), of r c x v'] assms(2,3) answer_wf unfolding showing_def by metis

subsection \<open>Single commands\<close>

lemmas as_defs = as_err_def as_bool_def as_int_def as_doc_def as_docs_def as_names_def as_values_def

text \<open>The values under a key, written by one constructor of \<open>doc\<close>.\<close>

definition str_of :: "('v \<Rightarrow> doc) \<Rightarrow> 'v option \<Rightarrow> rval option" where
  "str_of C x = map_option (\<lambda>y. VStr (C y)) x"

definition hash_of :: "('v \<Rightarrow> doc) \<Rightarrow> (string \<rightharpoonup> 'v) \<Rightarrow> rval option" where
  "hash_of C m = hash_val (\<lambda>f. map_option C (m f))"

lemma str_of_simps [simp]: "str_of C None = None" "str_of C (Some y) = Some (VStr (C y))" "str_of C x = None \<longleftrightarrow> x = None"
  by (simp_all add: str_of_def)

lemma hash_of_upd:
  "hash_val ((\<lambda>f. map_option C (m f))(g \<mapsto> C v)) = hash_of C (m(g \<mapsto> v))"
  "hash_val ((\<lambda>f. map_option C (m f))(g := None)) = hash_of C (m(g := None))"
  by (auto simp: hash_of_def intro!: arg_cong [of _ _ hash_val])

text \<open>\<open>un\<close> reads back what \<open>C\<close> encodes.\<close>

definition decodes :: "(doc \<Rightarrow> (storage_error, 'v) result) \<Rightarrow> ('v \<Rightarrow> doc) \<Rightarrow> bool" where
  "decodes un C \<longleftrightarrow> (\<forall>v. un (C v) = Inr v)"

lemma decodes_all [simp]:
  "decodes un_user DUser" "decodes un_roster DRoster" "decodes un_offline DOffline" "decodes un_msg DMsg"
  "decodes un_room DRoom" "decodes un_aff DAff" "decodes un_node DNode" "decodes un_item DItem" "decodes un_sub DSub"
  "decodes un_bookmark DBookmark" "decodes un_text DText" "decodes un_bytes DBytes"
  by (simp_all add: decodes_def un_user_def un_roster_def un_offline_def un_msg_def un_room_def un_aff_def un_node_def
      un_item_def un_sub_def un_bookmark_def un_text_def un_bytes_def)

lemma un_all_map: "decodes un C \<Longrightarrow> un_all un (map C vs) = Inr vs"
  by (induction vs) (simp_all add: decodes_def)

lemma Get_step:
  assumes "redis_serves R view" "showing view v r" "v k = str_of C x" "decodes un C"
  obtains r' where "read_one R un (CmdGet k) r = (r', lookup_result x)" "showing view v r'"
proof -
  have k: "v k = map_option VStr (map_option C x)"
    using assms(3) by (simp add: str_of_def option.map_comp comp_def)
  obtain y r' v2 where s: "R (CmdGet k) r = (Inr y, r')" "answer (CmdGet k) v y v2" "showing view v2 r'"
    using serves_do [OF assms(1,2) answer.intros(3) [of v k "map_option C x", OF k]] by blast
  from s(2) obtain x' where "y = ReDoc x'" "v k = map_option VStr x'" "v2 = v" by (auto elim: answerE)
  moreover from this k have "x' = map_option C x"
    by (metis (no_types, lifting) option.inj_map rval.inject(1) injI inj_def)
  ultimately have "read_one R un (CmdGet k) r = (r', lookup_result x)" "showing view v r'"
    using s assms(4) by (auto simp: read_one_def as_doc_def decodes_def split: option.splits)
  then show ?thesis by (rule that)
qed

lemma HGet_step:
  assumes "redis_serves R view" "showing view v r" "v k = hash_of C m" "decodes un C"
  obtains r' where "read_one R un (CmdHGet k f) r = (r', lookup_result (m f))" "showing view v r'"
proof -
  note k = assms(3) [unfolded hash_of_def]
  obtain y r' v2 where s: "R (CmdHGet k f) r = (Inr y, r')" "answer (CmdHGet k f) v y v2" "showing view v2 r'"
    using serves_do [OF assms(1,2) answer.intros(8) [of v k "\<lambda>f. map_option C (m f)" f, OF k]] by blast
  then have "read_one R un (CmdHGet k f) r = (r', lookup_result (m f))" "showing view v r'"
    using k assms(4) by (auto simp: read_one_def as_doc_def decodes_def elim!: answerE split: option.splits)
  then show ?thesis by (rule that)
qed

lemma fields_enumerate:
  assumes "distinct (map fst fs)" "map_of fs = (\<lambda>f. map_option C (m f))"
  shows "\<exists>ks. enumerates ks m \<and> map snd fs = map C (range_values ks m)"
proof (intro exI conjI)
  have d: "set (map fst fs) = dom m"
    using assms(2) by (metis (no_types, lifting) dom_map_of_conv_image_fst domIff list.set_map map_option_is_None subsetI subset_antisym)
  then show "enumerates (map fst fs) m"
    using assms(1) by (simp add: enumerates_def)
  have "map C (range_values (map fst gs) m) = map snd gs" if "set gs \<subseteq> set fs" for gs
    using that
  proof (induction gs)
    case (Cons g gs)
    then have "map_of fs (fst g) = Some (snd g)"
      using assms(1) by (cases g) auto
    with assms(2) Cons show ?case by auto
  qed simp
  then show "map snd fs = map C (range_values (map fst fs) m)" by simp
qed

lemma finite_fields:
  assumes "finite (dom M)"
  shows "\<exists>fs. map_of fs = M \<and> distinct (map fst fs)"
proof -
  obtain ks where ks: "set ks = dom M" "distinct ks"
    using finite_distinct_list [OF assms] by blast
  have "map_of (map (\<lambda>k. (k, the (M k))) ks) = M"
    by (rule ext) (auto simp: map_of_map_restrict restrict_map_def ks(1) domIff)
  then show ?thesis using ks(2) by (intro exI [of _ "map (\<lambda>k. (k, the (M k))) ks"]) (simp add: comp_def)
qed

lemma HGetAll_step:
  assumes "redis_serves R view" "showing view v r" "v k = hash_of C m" "decodes un C"
  obtains r' ks where "read_values R un k r = (r', Inr (range_values ks m))" "enumerates ks m" "showing view v r'"
proof -
  note k = assms(3) [unfolded hash_of_def]
  have fin: "finite (dom (\<lambda>f. map_option C (m f)))"
    using wf_hash [of v k, OF _ k] assms(2) by (simp add: showing_def)
  then obtain fs where fs: "map_of fs = (\<lambda>f. map_option C (m f))" "distinct (map fst fs)"
    using finite_fields by blast
  obtain y r' v2 where s: "R (CmdHGetAll k) r = (Inr y, r')" "answer (CmdHGetAll k) v y v2" "showing view v2 r'"
    using serves_do [OF assms(1,2) answer.intros(9) [of v k "\<lambda>f. map_option C (m f)" fs, OF k fs(2,1)]] by blast
  from s(2) k obtain gs where "y = ReFields gs" "distinct (map fst gs)" "map_of gs = (\<lambda>f. map_option C (m f))" "v2 = v"
    by (auto elim!: answerE)
  with fields_enumerate s assms(4) obtain ks where "enumerates ks m" "read_values R un k r = (r', Inr (range_values ks m))"
    "showing view v r'"
    by (fastforce simp: read_values_def as_values_def un_all_map)
  then show ?thesis using that by blast
qed

text \<open>Commands that write: the new value under the key.\<close>

lemma Set_step:
  assumes "redis_serves R view" "showing view v r"
  obtains r' where "do_cmd R (CmdSet k d) r = (r', None)" "showing view (v(k \<mapsto> VStr d)) r'"
proof -
  obtain y r' v2 where s: "R (CmdSet k d) r = (Inr y, r')" "answer (CmdSet k d) v y v2" "showing view v2 r'"
    using serves_do [OF assms answer.intros(4) [of k d v]] by blast
  then have "do_cmd R (CmdSet k d) r = (r', None)" "showing view (v(k \<mapsto> VStr d)) r'"
    by (auto simp: do_cmd_def as_err_def elim!: answerE)
  then show ?thesis by (rule that)
qed

lemma SetNX_step:
  assumes "redis_serves R view" "showing view v r"
  obtains r' where "create_one R k d r = (r', if v k = None then None else Some ErrUserExists)"
    "showing view (if v k = None then v(k \<mapsto> VStr d) else v) r'"
proof -
  obtain y r' v2 where s: "R (CmdSetNX k d) r = (Inr y, r')" "answer (CmdSetNX k d) v y v2" "showing view v2 r'"
    using serves_do [OF assms answer.intros(2) [of k d v]] by blast
  then have "create_one R k d r = (r', if v k = None then None else Some ErrUserExists)"
    "showing view (if v k = None then v(k \<mapsto> VStr d) else v) r'"
    by (auto simp: create_one_def as_bool_def elim!: answerE)
  then show ?thesis by (rule that)
qed

lemma Exists_step:
  assumes "redis_serves R view" "showing view v r"
  obtains r' where "R (CmdExists k) r = (Inr (ReInt (if v k = None then 0 else 1)), r')" "showing view v r'"
  using serves_do [OF assms answer.intros(5) [of k v]] by (auto elim!: answerE)

lemma Del_step:
  assumes "redis_serves R view" "showing view v r"
  obtains r' where "R (CmdDel k) r = (Inr (ReInt (if v k = None then 0 else 1)), r')" "showing view (v(k := None)) r'"
  using serves_do [OF assms answer.intros(6) [of k v]] by (auto elim!: answerE)

lemma HSet_step:
  assumes "redis_serves R view" "showing view v r" "v k = hash_of C m"
  obtains n r' where "R (CmdHSet k f (C x)) r = (Inr (ReInt n), r')" "showing view (v(k := hash_of C (m(f \<mapsto> x)))) r'"
proof -
  note k = assms(3) [unfolded hash_of_def]
  obtain y r' v2 where s: "R (CmdHSet k f (C x)) r = (Inr y, r')" "answer (CmdHSet k f (C x)) v y v2" "showing view v2 r'"
    using serves_do [OF assms(1,2) answer.intros(7) [of v k "\<lambda>f. map_option C (m f)" f "C x" 0, OF k]] by blast
  then obtain n where "R (CmdHSet k f (C x)) r = (Inr (ReInt n), r')" "showing view (v(k := hash_of C (m(f \<mapsto> x)))) r'"
    using k by (auto simp: hash_of_upd elim!: answerE)
  then show ?thesis by (rule that)
qed

lemma HDel_step:
  assumes "redis_serves R view" "showing view v r" "v k = hash_of C m"
  obtains r' where "R (CmdHDel k f) r = (Inr (ReInt (if m f = None then 0 else 1)), r')"
    "showing view (v(k := hash_of C (m(f := None)))) r'"
proof -
  note k = assms(3) [unfolded hash_of_def]
  obtain y r' v2 where s: "R (CmdHDel k f) r = (Inr y, r')" "answer (CmdHDel k f) v y v2" "showing view v2 r'"
    using serves_do [OF assms(1,2) answer.intros(10) [of v k "\<lambda>f. map_option C (m f)" f, OF k]] by blast
  then have "R (CmdHDel k f) r = (Inr (ReInt (if m f = None then 0 else 1)), r')"
    "showing view (v(k := hash_of C (m(f := None)))) r'"
    using k by (auto simp: hash_of_upd elim!: answerE)
  then show ?thesis by (rule that)
qed

lemma HKeys_step:
  assumes "redis_serves R view" "showing view v r" "v k = hash_of C m"
  obtains ns r' where "R (CmdHKeys k) r = (Inr (ReNames ns), r')" "distinct ns" "set ns = dom m" "showing view v r'"
proof -
  note k = assms(3) [unfolded hash_of_def]
  have d: "dom (\<lambda>f. map_option C (m f)) = dom m" by (auto simp: dom_def)
  have "finite (dom m)"
    using wf_hash [of v k, OF _ k] assms(2) by (simp add: showing_def d)
  then obtain ks where "enumerates ks (\<lambda>f. map_option C (m f))"
    using finite_distinct_list by (metis d enumerates_def)
  from serves_do [OF assms(1,2) answer.intros(11) [of v k _ ks, OF k this]]
  obtain y r' v2 where "R (CmdHKeys k) r = (Inr y, r')" "answer (CmdHKeys k) v y v2" "showing view v2 r'" by blast
  then obtain ns where "R (CmdHKeys k) r = (Inr (ReNames ns), r')" "distinct ns" "set ns = dom m" "showing view v r'"
    using k d by (auto simp: enumerates_def elim!: answerE)
  then show ?thesis by (rule that)
qed

lemma SAdd_step:
  assumes "redis_serves R view" "showing view v r" "v k = set_val a"
  obtains n r' where "R (CmdSAdd k x) r = (Inr (ReInt n), r')" "showing view (v(k := set_val (insert x a))) r'"
proof -
  obtain y r' v2 where s: "R (CmdSAdd k x) r = (Inr y, r')" "answer (CmdSAdd k x) v y v2" "showing view v2 r'"
    using serves_do [OF assms(1,2) answer.intros(12) [of v k a x 0, OF assms(3)]] by blast
  from s(2) assms(3) have "\<exists>n. y = ReInt n" "v2 = v(k := set_val (insert x a))"
    by (auto elim: answerE)
  with s that show ?thesis by blast
qed

lemma SRem_step:
  assumes "redis_serves R view" "showing view v r" "v k = set_val a"
  obtains n r' where "R (CmdSRem k x) r = (Inr (ReInt n), r')" "showing view (v(k := set_val (a - {x}))) r'"
proof -
  obtain y r' v2 where s: "R (CmdSRem k x) r = (Inr y, r')" "answer (CmdSRem k x) v y v2" "showing view v2 r'"
    using serves_do [OF assms(1,2) answer.intros(13) [of v k a x 0, OF assms(3)]] by blast
  from s(2) assms(3) have "\<exists>n. y = ReInt n" "v2 = v(k := set_val (a - {x}))"
    by (auto elim: answerE)
  with s that show ?thesis by blast
qed

lemma SIsMember_step:
  assumes "redis_serves R view" "showing view v r" "v k = set_val a"
  obtains r' where "R (CmdSIsMember k x) r = (Inr (ReBool (x \<in> a)), r')" "showing view v r'"
proof -
  obtain y r' v2 where s: "R (CmdSIsMember k x) r = (Inr y, r')" "answer (CmdSIsMember k x) v y v2" "showing view v2 r'"
    using serves_do [OF assms(1,2) answer.intros(14) [of v k a x, OF assms(3)]] by blast
  from s(2) assms(3) have "y = ReBool (x \<in> a)" "v2 = v"
    by (auto elim: answerE)
  with s that show ?thesis by blast
qed

lemma SMembers_step:
  assumes "redis_serves R view" "showing view v r" "v k = set_val a"
  obtains ns r' where "R (CmdSMembers k) r = (Inr (ReNames ns), r')" "distinct ns" "set ns = a" "showing view v r'"
proof -
  have "finite a" using wf_set [of v k] assms by (simp add: showing_def)
  then obtain ks where "distinct ks" "set ks = a" using finite_distinct_list by metis
  from serves_do [OF assms(1,2) answer.intros(15) [of v k a ks, OF assms(3) this]]
  obtain y r' v2 where s: "R (CmdSMembers k) r = (Inr y, r')" "answer (CmdSMembers k) v y v2" "showing view v2 r'" by blast
  from s(2) assms(3) have "\<exists>ns. y = ReNames ns \<and> distinct ns \<and> set ns = a" "v2 = v"
    by (auto elim: answerE)
  with s that show ?thesis by blast
qed

lemma RPush_step:
  assumes "redis_serves R view" "showing view v r" "v k = list_val ds"
  obtains n r' where "R (CmdRPush k d) r = (Inr (ReInt n), r')" "showing view (v(k := list_val (ds @ [d]))) r'"
proof -
  obtain y r' v2 where s: "R (CmdRPush k d) r = (Inr y, r')" "answer (CmdRPush k d) v y v2" "showing view v2 r'"
    using serves_do [OF assms(1,2) answer.intros(16) [of v k ds d, OF assms(3)]] by blast
  from s(2) assms(3) have "\<exists>n. y = ReInt n" "v2 = v(k := list_val (ds @ [d]))"
    by (auto elim: answerE)
  with s that show ?thesis by blast
qed

lemma LRange_step:
  assumes "redis_serves R view" "showing view v r" "v k = list_val ds"
  obtains r' where "R (CmdLRange k) r = (Inr (ReDocs ds), r')" "showing view v r'"
proof -
  obtain y r' v2 where s: "R (CmdLRange k) r = (Inr y, r')" "answer (CmdLRange k) v y v2" "showing view v2 r'"
    using serves_do [OF assms(1,2) answer.intros(17) [of v k ds, OF assms(3)]] by blast
  from s(2) assms(3) have "y = ReDocs ds" "v2 = v"
    by (auto elim: answerE)
  with s that show ?thesis by blast
qed

lemma LLen_step:
  assumes "redis_serves R view" "showing view v r" "v k = list_val ds"
  obtains r' where "R (CmdLLen k) r = (Inr (ReInt (length ds)), r')" "showing view v r'"
proof -
  obtain y r' v2 where s: "R (CmdLLen k) r = (Inr y, r')" "answer (CmdLLen k) v y v2" "showing view v2 r'"
    using serves_do [OF assms(1,2) answer.intros(18) [of v k ds, OF assms(3)]] by blast
  from s(2) assms(3) have "y = ReInt (length ds)" "v2 = v"
    by (auto elim: answerE)
  with s that show ?thesis by blast
qed

subsection \<open>The helper functions\<close>

lemma read_named_step:
  assumes "\<And>n r. showing view v r \<Longrightarrow> \<exists>r'. get n r = (r', lookup_result (T n)) \<and> showing view v r'"
    and "showing view v r"
  shows "\<exists>r'. read_named get ns r = (r', range_values ns T) \<and> showing view v r'"
  using assms(2)
proof (induction ns arbitrary: r)
  case (Cons n ns)
  obtain r1 where "get n r = (r1, lookup_result (T n))" "showing view v r1"
    using assms(1) [OF Cons.prems] by blast
  moreover obtain r2 where "read_named get ns r1 = (r2, range_values ns T)" "showing view v r2"
    using Cons.IH [OF \<open>showing view v r1\<close>] by blast
  ultimately show ?case by (cases "T n") auto
qed simp

lemma read_set_step:
  assumes "redis_serves R view" "showing view v r" "v k = set_val a"
    and "\<And>n r. showing view v r \<Longrightarrow> \<exists>r'. get n r = (r', lookup_result (T n)) \<and> showing view v r'"
  obtains r' ns where "read_set R k get r = (r', Inr (range_values ns T))" "distinct ns" "set ns = a" "showing view v r'"
proof -
  obtain ns r1 where m: "R (CmdSMembers k) r = (Inr (ReNames ns), r1)" "distinct ns" "set ns = a" "showing view v r1"
    using SMembers_step [OF assms(1-3)] by blast
  obtain r2 where "read_named get ns r1 = (r2, range_values ns T)" "showing view v r2"
    using read_named_step [of view v get T r1 ns] assms(4) m(4) by blast
  with m that show ?thesis by (simp add: read_set_def as_names_def)
qed

text \<open>Pipelines of which every command succeeds.\<close>

lemma pipe_append: "pipe_Exec R cs r = (r1, None) \<Longrightarrow> pipe_Exec R (cs @ ds) r = pipe_Exec R ds r1"
proof (induction cs arbitrary: r)
  case (Cons c cs)
  then show ?case by (cases "R c r") (auto split: prod.splits if_splits)
qed simp

lemma Dels_step:
  assumes "redis_serves R view" "showing view v r"
  shows "\<exists>r'. pipe_Exec R (map CmdDel ks) r = (r', None) \<and> showing view (\<lambda>k. if k \<in> set ks then None else v k) r'"
  using assms(2)
proof (induction ks arbitrary: v r)
  case (Cons k ks)
  obtain n r1 where r1: "R (CmdDel k) r = (Inr (ReInt n), r1)" "showing view (v(k := None)) r1"
    using Del_step [OF assms(1) Cons.prems] by metis
  obtain r2 where r2: "pipe_Exec R (map CmdDel ks) r1 = (r2, None)"
    "showing view (\<lambda>j. if j \<in> set ks then None else (v(k := None)) j) r2"
    using Cons.IH [OF r1(2)] by blast
  have "(\<lambda>j. if j \<in> set ks then None else (v(k := None)) j) = (\<lambda>j. if j \<in> set (k # ks) then None else v j)"
    by (auto simp: fun_eq_iff)
  with r1 r2 show ?case by (simp add: as_err_def)
qed (auto simp: showing_def)

lemma SRems_step:
  assumes "redis_serves R view" "showing view v r" "\<forall>j \<in> set js. v (K j) = set_val (A j)" "inj_on K (set js)" "distinct js"
  shows "\<exists>r' v'. pipe_Exec R (map (\<lambda>j. CmdSRem (K j) x) js) r = (r', None) \<and> showing view v' r' \<and>
    (\<forall>j \<in> set js. v' (K j) = set_val (A j - {x})) \<and> (\<forall>k. k \<notin> K ` set js \<longrightarrow> v' k = v k)"
  using assms(2-5)
proof (induction js arbitrary: v r)
  case (Cons j js)
  obtain n r1 where r1: "R (CmdSRem (K j) x) r = (Inr (ReInt n), r1)" "showing view (v(K j := set_val (A j - {x}))) r1"
    using SRem_step [OF assms(1) Cons.prems(1), of "K j" "A j" x] Cons.prems(2) by auto
  have ne: "K i \<noteq> K j" if "i \<in> set js" for i
    using Cons.prems(3,4) that by (metis distinct.simps(2) inj_onD list.set_intros(1,2))
  have "\<forall>i \<in> set js. (v(K j := set_val (A j - {x}))) (K i) = set_val (A i)"
    using Cons.prems(2) ne by auto
  from Cons.IH [OF r1(2) this] Cons.prems(3,4) obtain r2 v2 where
    r2: "pipe_Exec R (map (\<lambda>j. CmdSRem (K j) x) js) r1 = (r2, None)" "showing view v2 r2"
    "\<forall>i \<in> set js. v2 (K i) = set_val (A i - {x})"
    "\<forall>k. k \<notin> K ` set js \<longrightarrow> v2 k = (v(K j := set_val (A j - {x}))) k" by (auto simp: inj_on_def)
  have "K j \<notin> K ` set js" using ne by (metis imageE)
  with r2(4) have "v2 (K j) = set_val (A j - {x})" by auto
  with r1(1) r2 show ?case by (intro exI [of _ r2] exI [of _ v2]) (auto simp: as_err_def)
qed (auto simp: showing_def)

section \<open>Keys\<close>

text \<open>The keys by what they are made from, and those that no other key can be mistaken for.\<close>

datatype rkey =
    KUser string | KRoster string | KRosterVer string | KBlocked string | KVCard string | KOffline string
  | KRoom string | KRooms | KAff string | KNode string string | KNodes string | KItem string string string
  | KItems string string | KSubs string string | KUserSubs string string | KBookmarks string

fun key_text :: "rkey \<Rightarrow> string" where
  "key_text (KUser n) = userKey n"
| "key_text (KRoster u) = rosterKey u"
| "key_text (KRosterVer u) = rosterVerKey u"
| "key_text (KBlocked u) = blockedKey u"
| "key_text (KVCard u) = vcardKey u"
| "key_text (KOffline u) = offlineKey u"
| "key_text (KRoom j) = mucRoomKey j"
| "key_text KRooms = mucRoomsSetKey"
| "key_text (KAff j) = mucAffKey j"
| "key_text (KNode h n) = pubsubNodeKey h n"
| "key_text (KNodes h) = pubsubNodesKey h"
| "key_text (KItem h n i) = pubsubItemKey h n i"
| "key_text (KItems h n) = pubsubItemsKey h n"
| "key_text (KSubs h n) = pubsubSubsKey h n"
| "key_text (KUserSubs h j) = pubsubUserSubsKey h j"
| "key_text (KBookmarks u) = bookmarkKey u"

definition no_colon :: "string \<Rightarrow> bool" where
  "no_colon s \<longleftrightarrow> CHR '':'' \<notin> set s"

fun plain_key :: "rkey \<Rightarrow> bool" where
  "plain_key (KNode h n) = no_colon h"
| "plain_key (KItem h n i) = (no_colon h \<and> no_colon n)"
| "plain_key (KItems h n) = no_colon h"
| "plain_key (KSubs h n) = no_colon h"
| "plain_key (KUserSubs h j) = no_colon h"
| "plain_key _ = True"

lemma colon_split:
  "no_colon h \<Longrightarrow> no_colon h' \<Longrightarrow> h @ CHR '':'' # n = h' @ CHR '':'' # n' \<longleftrightarrow> h = h' \<and> n = n'"
  unfolding no_colon_def by (metis list.inject index_byte_append option.inject append_eq_append_conv)

lemmas key_defs = userKey_def rosterKey_def rosterVerKey_def blockedKey_def vcardKey_def offlineKey_def mucRoomKey_def
  mucRoomsSetKey_def mucAffKey_def pubsubNodeKey_def pubsubNodesKey_def pubsubItemKey_def pubsubItemsKey_def
  pubsubSubsKey_def pubsubUserSubsKey_def bookmarkKey_def

lemma key_text_inj: "plain_key k \<Longrightarrow> plain_key k' \<Longrightarrow> key_text k = key_text k' \<longleftrightarrow> k = k'"
  by (cases k; cases k'; simp add: key_defs colon_split)

text \<open>A database described by what is under its plain keys.\<close>

definition keyed :: "db \<Rightarrow> (rkey \<Rightarrow> rval option) \<Rightarrow> bool" where
  "keyed v E \<longleftrightarrow> (\<forall>k. plain_key k \<longrightarrow> v (key_text k) = E k)"

lemma keyedD: "keyed v E \<Longrightarrow> plain_key k \<Longrightarrow> v (key_text k) = E k"
  by (simp add: keyed_def)

lemma keyed_upd: "keyed v E \<Longrightarrow> plain_key k \<Longrightarrow> keyed (v(key_text k := x)) (E(k := x))"
  by (auto simp: keyed_def key_text_inj)

lemma keyed_cong: "keyed v E \<Longrightarrow> (\<And>k. plain_key k \<Longrightarrow> E k = E' k) \<Longrightarrow> keyed v E'"
  by (simp add: keyed_def)

end
