(* ===== verification/StorageRedisRefinement.thy ===== *)
theory StorageRedisRefinement
  imports StorageRedisServer StorageRefinement
begin

text \<open>
  The Redis store against the in-memory store: on the calls whose replies do not show what the two do
  differently (time stamps of accounts, the archive, the order of items), every run of the Redis store is a
  run of the in-memory store.  One lemma per interface, then the theorem, then the differences.
\<close>

section \<open>The simulation\<close>

text \<open>What is under each key for the contents of an in-memory store; \<open>us\<close> are the accounts.\<close>

fun stored :: "(string \<rightharpoonup> User) \<Rightarrow> MemStore \<Rightarrow> rkey \<Rightarrow> rval option" where
  "stored us s (KUser n) = str_of DUser (us n)"
| "stored us s (KRoster u) = hash_of DRoster (inner (rosterItems s) u)"
| "stored us s (KRosterVer u) = str_of DText (rosterVersions s u)"
| "stored us s (KBlocked u) = set_val (dom (inner (blocked s) u))"
| "stored us s (KVCard u) = str_of DBytes (vcards s u)"
| "stored us s (KOffline u) = list_val (map DOffline (table_or [] (offlineMsgs s) u))"
| "stored us s (KRoom j) = str_of DRoom (mucRooms s j)"
| "stored us s KRooms = set_val (dom (mucRooms s))"
| "stored us s (KAff j) = hash_of DAff (inner (mucAffiliations s) j)"
| "stored us s (KNode h n) = str_of DNode (get2 (pubsubNodes s) h n)"
| "stored us s (KNodes h) = set_val (dom (inner (pubsubNodes s) h))"
| "stored us s (KItem h n i) = str_of DItem (get3 (pubsubItems s) h n i)"
| "stored us s (KItems h n) = set_val (dom (get3 (pubsubItems s) h n))"
| "stored us s (KSubs h n) = hash_of DSub (get3 (pubsubSubscriptions s) h n)"
| "stored us s (KUserSubs h j) = set_val {n. get3 (pubsubSubscriptions s) h n j \<noteq> None}"
| "stored us s (KBookmarks u) = hash_of DBookmark (inner (bookmarks s) u)"

text \<open>The accounts agree but for their time stamps.\<close>

definition same_accounts :: "(string \<rightharpoonup> User) \<Rightarrow> MemStore \<Rightarrow> bool" where
  "same_accounts us s \<longleftrightarrow> (\<forall>n. map_option u_Password (us n) = map_option u_Password (users s n))"

text \<open>The calls that are covered.\<close>

fun redis_plain :: "storage_call \<Rightarrow> bool" where
  "redis_plain (UserStore (CallGetUser n)) = False"
| "redis_plain (OfflineStore (CallStoreOfflineMessage now m)) = (\<not> IsZero (off_CreatedAt m))"
| "redis_plain (MAMStore c) = False"
| "redis_plain (PubSubStore (CallCreateNode n)) = no_colon (node_Host n)"
| "redis_plain (PubSubStore (CallGetNode k)) = no_colon (fst k)"
| "redis_plain (PubSubStore (CallDeleteNode k)) = (no_colon (fst k) \<and> no_colon (snd k))"
| "redis_plain (PubSubStore (CallListNodes h)) = no_colon h"
| "redis_plain (PubSubStore (CallUpsertItem now i)) = (no_colon (item_Host i) \<and> no_colon (item_NodeID i))"
| "redis_plain (PubSubStore (CallGetItem k)) = (no_colon (fst k) \<and> no_colon (fst (snd k)))"
| "redis_plain (PubSubStore (CallGetItems k)) = False"
| "redis_plain (PubSubStore (CallDeleteItem k)) = (no_colon (fst k) \<and> no_colon (fst (snd k)))"
| "redis_plain (PubSubStore (CallSubscribe b)) = no_colon (sub_Host b)"
| "redis_plain (PubSubStore (CallUnsubscribe k)) = no_colon (fst k)"
| "redis_plain (PubSubStore (CallGetSubscription k)) = no_colon (fst k)"
| "redis_plain (PubSubStore (CallGetSubscriptions k)) = no_colon (fst k)"
| "redis_plain (PubSubStore (CallGetUserSubscriptions h j)) = no_colon h"
| "redis_plain _ = True"

text \<open>A state of the server that has \<open>E\<close> under its plain keys.\<close>

definition holds :: "('r \<Rightarrow> db) \<Rightarrow> (rkey \<Rightarrow> rval option) \<Rightarrow> 'r \<Rightarrow> bool" where
  "holds view E r \<longleftrightarrow> (\<exists>v. showing view v r \<and> keyed v E)"

definition stores_with :: "('r \<Rightarrow> db) \<Rightarrow> (string \<rightharpoonup> User) \<Rightarrow> 'r \<Rightarrow> MemStore \<Rightarrow> bool" where
  "stores_with view us r s \<longleftrightarrow> holds view (stored us s) r \<and> same_accounts us s \<and> blocked_true s"

definition redis_stores :: "('r \<Rightarrow> db) \<Rightarrow> 'r \<Rightarrow> MemStore \<Rightarrow> bool" where
  "redis_stores view r s \<longleftrightarrow> (\<exists>us. stores_with view us r s)"

text \<open>One step of both stores: the same reply, and related states after it.\<close>

definition redis_matches :: "('r \<Rightarrow> db) \<Rightarrow> storage_call \<Rightarrow> MemStore \<Rightarrow> 'r \<times> storage_reply \<Rightarrow> bool" where
  "redis_matches view c s res \<longleftrightarrow>
     (\<exists>ks s'. mem_order ks c s \<and> mem_call ks c s = (s', snd res) \<and> redis_stores view (fst res) s')"

lemma matches_after:
  assumes "holds view E r'" "\<And>k. plain_key k \<Longrightarrow> E k = stored us' s' k" "same_accounts us' s'" "blocked_true s'"
    and "mem_call ks c s = (s', rep)" "mem_order ks c s"
  shows "redis_matches view c s (r', rep)"
proof -
  from assms(1) obtain v where "showing view v r'" "keyed v E" unfolding holds_def by blast
  then have "stores_with view us' r' s'"
    using keyed_cong [OF _ assms(2)] assms(3,4) by (auto simp: stores_with_def holds_def)
  then show ?thesis using assms(5,6) by (auto simp: redis_matches_def redis_stores_def)
qed

lemma matches_same:
  assumes "stores_with view us r s" "holds view (stored us s) r'" "mem_order ks c s" "mem_call ks c s = (s, rep)"
  shows "redis_matches view c s (r', rep)"
  using assms matches_after [of view "stored us s" r' us s ks c s rep] by (simp add: stores_with_def)

section \<open>Commands on plain keys\<close>

lemma holds_upd: "showing view (v(key_text k := x)) r \<Longrightarrow> keyed v E \<Longrightarrow> plain_key k \<Longrightarrow> holds view (E(k := x)) r"
  unfolding holds_def using keyed_upd by blast

lemma holds_Get:
  assumes "redis_serves R view" "holds view E r" "plain_key k" "E k = str_of C x" "decodes un C"
  shows "\<exists>r'. read_one R un (CmdGet (key_text k)) r = (r', lookup_result x) \<and> holds view E r'"
  using assms Get_step [of R view _ r "key_text k" C x un] keyedD [of _ E k] unfolding holds_def by metis

lemma holds_HGet:
  assumes "redis_serves R view" "holds view E r" "plain_key k" "E k = hash_of C m" "decodes un C"
  shows "\<exists>r'. read_one R un (CmdHGet (key_text k) f) r = (r', lookup_result (m f)) \<and> holds view E r'"
  using assms HGet_step [of R view _ r "key_text k" C m un f] keyedD [of _ E k] unfolding holds_def by metis

lemma holds_HGetAll:
  assumes "redis_serves R view" "holds view E r" "plain_key k" "E k = hash_of C m" "decodes un C"
  shows "\<exists>r' ks. read_values R un (key_text k) r = (r', Inr (range_values ks m)) \<and> enumerates ks m \<and> holds view E r'"
  using assms HGetAll_step [of R view _ r "key_text k" C m un] keyedD [of _ E k] unfolding holds_def by metis

lemma holds_HKeys:
  assumes "redis_serves R view" "holds view E r" "plain_key k" "E k = hash_of C m"
  shows "\<exists>r' ns. R (CmdHKeys (key_text k)) r = (Inr (ReNames ns), r') \<and> enumerates ns m \<and> holds view E r'"
  using assms HKeys_step [of R view _ r "key_text k" C m] keyedD [of _ E k] unfolding holds_def enumerates_def by metis

lemma holds_SMembers:
  assumes "redis_serves R view" "holds view E r" "plain_key k" "E k = set_val a"
  shows "\<exists>r' ns. R (CmdSMembers (key_text k)) r = (Inr (ReNames ns), r') \<and> distinct ns \<and> set ns = a \<and> holds view E r'"
  using assms SMembers_step [of R view _ r "key_text k" a] keyedD [of _ E k] unfolding holds_def by metis

lemma holds_Exists:
  assumes "redis_serves R view" "holds view E r" "plain_key k"
  shows "\<exists>r'. R (CmdExists (key_text k)) r = (Inr (ReInt (if E k = None then 0 else 1)), r') \<and> holds view E r'"
  using assms Exists_step [of R view _ r "key_text k"] keyedD [of _ E k] unfolding holds_def by metis

lemma holds_Set:
  assumes "redis_serves R view" "holds view E r" "plain_key k"
  shows "\<exists>r'. do_cmd R (CmdSet (key_text k) d) r = (r', None) \<and> holds view (E(k \<mapsto> VStr d)) r'"
proof -
  from assms(2) obtain v where v: "showing view v r" "keyed v E" unfolding holds_def by blast
  show ?thesis using Set_step [OF assms(1) v(1)] holds_upd [OF _ v(2) assms(3)] by metis
qed

lemma holds_SetNX:
  assumes "redis_serves R view" "holds view E r" "plain_key k"
  shows "\<exists>r'. create_one R (key_text k) d r = (r', if E k = None then None else Some ErrUserExists) \<and>
    holds view (if E k = None then E(k \<mapsto> VStr d) else E) r'"
proof -
  from assms(2) obtain v where v: "showing view v r" "keyed v E" unfolding holds_def by blast
  obtain r' where "create_one R (key_text k) d r = (r', if v (key_text k) = None then None else Some ErrUserExists)"
    "showing view (if v (key_text k) = None then v(key_text k \<mapsto> VStr d) else v) r'"
    using SetNX_step [OF assms(1) v(1)] by metis
  then show ?thesis
    using holds_upd [OF _ v(2) assms(3)] keyedD [OF v(2) assms(3)] v(2) unfolding holds_def by auto
qed

lemma holds_Del:
  assumes "redis_serves R view" "holds view E r" "plain_key k"
  shows "\<exists>r'. R (CmdDel (key_text k)) r = (Inr (ReInt (if E k = None then 0 else 1)), r') \<and> holds view (E(k := None)) r'"
proof -
  from assms(2) obtain v where v: "showing view v r" "keyed v E" unfolding holds_def by blast
  show ?thesis
    using Del_step [OF assms(1) v(1), of "key_text k"] holds_upd [OF _ v(2) assms(3)] keyedD [OF v(2) assms(3)] by metis
qed

lemma holds_HSet:
  assumes "redis_serves R view" "holds view E r" "plain_key k" "E k = hash_of C m"
  shows "\<exists>n r'. R (CmdHSet (key_text k) f (C x)) r = (Inr (ReInt n), r') \<and> holds view (E(k := hash_of C (m(f \<mapsto> x)))) r'"
proof -
  from assms(2) obtain v where v: "showing view v r" "keyed v E" unfolding holds_def by blast
  show ?thesis
    using HSet_step [OF assms(1) v(1), of "key_text k" C m f x] holds_upd [OF _ v(2) assms(3)] keyedD [OF v(2) assms(3)]
      assms(4) by metis
qed

lemma holds_HDel:
  assumes "redis_serves R view" "holds view E r" "plain_key k" "E k = hash_of C m"
  shows "\<exists>r'. R (CmdHDel (key_text k) f) r = (Inr (ReInt (if m f = None then 0 else 1)), r') \<and>
    holds view (E(k := hash_of C (m(f := None)))) r'"
proof -
  from assms(2) obtain v where v: "showing view v r" "keyed v E" unfolding holds_def by blast
  show ?thesis
    using HDel_step [OF assms(1) v(1), of "key_text k" C m f] holds_upd [OF _ v(2) assms(3)] keyedD [OF v(2) assms(3)]
      assms(4) by metis
qed

lemma holds_SAdd:
  assumes "redis_serves R view" "holds view E r" "plain_key k" "E k = set_val a"
  shows "\<exists>n r'. R (CmdSAdd (key_text k) x) r = (Inr (ReInt n), r') \<and> holds view (E(k := set_val (insert x a))) r'"
proof -
  from assms(2) obtain v where v: "showing view v r" "keyed v E" unfolding holds_def by blast
  show ?thesis
    using SAdd_step [OF assms(1) v(1), of "key_text k" a x] holds_upd [OF _ v(2) assms(3)] keyedD [OF v(2) assms(3)]
      assms(4) by metis
qed

lemma holds_SRem:
  assumes "redis_serves R view" "holds view E r" "plain_key k" "E k = set_val a"
  shows "\<exists>n r'. R (CmdSRem (key_text k) x) r = (Inr (ReInt n), r') \<and> holds view (E(k := set_val (a - {x}))) r'"
proof -
  from assms(2) obtain v where v: "showing view v r" "keyed v E" unfolding holds_def by blast
  show ?thesis
    using SRem_step [OF assms(1) v(1), of "key_text k" a x] holds_upd [OF _ v(2) assms(3)] keyedD [OF v(2) assms(3)]
      assms(4) by metis
qed

lemma holds_RPush:
  assumes "redis_serves R view" "holds view E r" "plain_key k" "E k = list_val ds"
  shows "\<exists>n r'. R (CmdRPush (key_text k) d) r = (Inr (ReInt n), r') \<and> holds view (E(k := list_val (ds @ [d]))) r'"
proof -
  from assms(2) obtain v where v: "showing view v r" "keyed v E" unfolding holds_def by blast
  show ?thesis
    using RPush_step [OF assms(1) v(1), of "key_text k" ds d] holds_upd [OF _ v(2) assms(3)] keyedD [OF v(2) assms(3)]
      assms(4) by metis
qed

lemma holds_SIsMember:
  assumes "redis_serves R view" "holds view E r" "plain_key k" "E k = set_val a"
  shows "\<exists>r'. R (CmdSIsMember (key_text k) x) r = (Inr (ReBool (x \<in> a)), r') \<and> holds view E r'"
  using assms SIsMember_step [of R view _ r "key_text k" a x] keyedD [of _ E k] unfolding holds_def by metis

lemma holds_list:
  assumes "redis_serves R view" "holds view E r" "plain_key k" "E k = list_val ds"
  shows "\<exists>r'. R (CmdLRange (key_text k)) r = (Inr (ReDocs ds), r') \<and> holds view E r'"
    and "\<exists>r'. R (CmdLLen (key_text k)) r = (Inr (ReInt (length ds)), r') \<and> holds view E r'"
  using assms LRange_step [of R view _ r "key_text k" ds] LLen_step [of R view _ r "key_text k" ds] keyedD [of _ E k]
  unfolding holds_def by metis+

section \<open>Methods of one command\<close>

text \<open>A method that returns \<open>x\<close> and leaves \<open>E\<close> in the database.\<close>

definition returns :: "('r \<Rightarrow> db) \<Rightarrow> ('r \<Rightarrow> 'r \<times> 'x) \<Rightarrow> 'r \<Rightarrow> 'x \<Rightarrow> (rkey \<Rightarrow> rval option) \<Rightarrow> bool" where
  "returns view w r x E \<longleftrightarrow> (\<exists>r'. w r = (r', x) \<and> holds view E r')"

lemma writes_reads_with: "writes w r = reads_with w Done r"
  by (simp add: writes_def reads_with_def)

lemma returns_matches:
  assumes "returns view w r x E" "\<And>k. plain_key k \<Longrightarrow> E k = stored us' s' k"
    and "same_accounts us' s'" "blocked_true s'" "mem_call ks c s = (s', C x)" "mem_order ks c s"
  shows "redis_matches view c s (reads_with w C r)"
  using assms(1) matches_after [OF _ assms(2-6)] by (auto simp: returns_def reads_with_def)

lemma write_matches:
  assumes "returns view w r x (stored us' s')" "same_accounts us' s'" "blocked_true s'"
    and "mem_call [] c s = (s', Done x)" "mem_order [] c s"
  shows "redis_matches view c s (writes w r)"
  unfolding writes_reads_with by (rule returns_matches [where ks = "[]"]) (use assms in auto)

lemma get_matches:
  assumes "stores_with view us r s" "returns view get r x (stored us s)" "mem_order ks c s" "mem_call ks c s = (s, C x)"
  shows "redis_matches view c s (reads_with get C r)"
  using assms by (intro returns_matches) (auto simp: stores_with_def)

lemma delete_matches:
  assumes "returns view w r x E" "\<And>k. plain_key k \<Longrightarrow> E k = stored us' s' k"
    and "same_accounts us' s'" "blocked_true s'" "mem_call [] c s = (s', Done x)" "mem_order [] c s"
  shows "redis_matches view c s (writes w r)"
  unfolding writes_reads_with using assms by (rule returns_matches)

lemmas returns_defs = returns_def do_cmd_def as_err_def delete_one_def as_int_def

lemma stores_withD: "stores_with view us r s \<Longrightarrow> holds view (stored us s) r"
  by (simp add: stores_with_def)

lemma hash_of_same: "m f = None \<Longrightarrow> hash_of C (m(f := None)) = hash_of C m"
  by (simp add: fun_upd_idem)

section \<open>Accounts\<close>

lemma same_accounts_None: "same_accounts us s \<Longrightarrow> users s n = None \<longleftrightarrow> us n = None"
  by (metis (no_types, opaque_lifting) map_option_is_None same_accounts_def)

lemma same_accounts_upd:
  assumes "same_accounts us s" "u_Password w = u_Password u"
  shows "same_accounts (us(n \<mapsto> u)) (s\<lparr>users := (users s)(n \<mapsto> w)\<rparr>)"
    and "same_accounts (us(n := None)) (s\<lparr>users := (users s)(n := None)\<rparr>)"
  using assms by (auto simp: same_accounts_def)

lemma stored_users: "stored us (s\<lparr>users := f\<rparr>) k = stored us s k"
  by (cases k) simp_all

lemma stored_us: "stored (us(n := x)) s = (stored us s)(KUser n := str_of DUser x)"
  by (rule ext, rename_tac k, case_tac k) simp_all

lemma blocked_true_users [simp]: "blocked_true (s\<lparr>users := f\<rparr>) = blocked_true s"
  by (simp add: blocked_true_def)

lemma redis_user_step:
  assumes serves: "redis_serves R view" and st: "stores_with view us r s" and "redis_plain (UserStore c)"
  shows "redis_matches view (UserStore c) s (redis_user R c r)"
proof -
  note h = stores_withD [OF st]
  have us: "same_accounts us s" "blocked_true s" using st by (simp_all add: stores_with_def)
  note free = same_accounts_None [OF us(1)]
  show ?thesis
  proof (cases c)
    case (CallCreateUser now u)
    let ?n = "u_Username u"
    obtain r' where r': "create_one R (userKey ?n) (DUser u) r = (r', if us ?n = None then None else Some ErrUserExists)"
      "holds view (if us ?n = None then (stored us s)(KUser ?n \<mapsto> VStr (DUser u)) else stored us s) r'"
      using holds_SetNX [OF serves h, of "KUser ?n" "DUser u"] by auto
    have "redis_matches view (UserStore c) s (r', Done (if us ?n = None then None else Some ErrUserExists))"
      by (rule matches_after [OF r'(2), where ks = "[]" and us' = "if us ?n = None then us(?n \<mapsto> u) else us"
            and s' = "fst (CreateUser now u s)"])
        (use us free in \<open>auto simp: CallCreateUser CreateUser_def writes_def stored_users stored_us intro!: same_accounts_upd\<close>)
    with r'(1) show ?thesis
      by (simp add: CallCreateUser redis_CreateUser_def writes_def)
  next
    case (CallUpdateUser now u)
    let ?n = "u_Username u" and ?u = "u\<lparr>u_UpdatedAt := now\<rparr>"
    obtain r1 where r1: "R (CmdExists (userKey ?n)) r = (Inr (ReInt (if us ?n = None then 0 else 1)), r1)"
      "holds view (stored us s) r1"
      using holds_Exists [OF serves h, of "KUser ?n"] by auto
    obtain r2 where r2: "do_cmd R (CmdSet (userKey ?n) (DUser ?u)) r1 = (r2, None)"
      "holds view ((stored us s)(KUser ?n \<mapsto> VStr (DUser ?u))) r2"
      using holds_Set [OF serves r1(2), of "KUser ?n" "DUser ?u"] by auto
    show ?thesis
    proof (cases "us ?n = None")
      case True
      then show ?thesis
        using r1 matches_same [OF st r1(2), of "[]" "UserStore c" "Done (Some ErrNotFound)"] free
        by (auto simp: CallUpdateUser redis_UpdateUser_def UpdateUser_def writes_def as_int_def)
    next
      case False
      have "redis_matches view (UserStore c) s (r2, Done None)"
        by (rule matches_after [OF r2(2), where ks = "[]" and us' = "us(?n \<mapsto> ?u)" and s' = "fst (UpdateUser now u s)"])
          (use False us free in \<open>auto simp: CallUpdateUser UpdateUser_def writes_def stored_users stored_us intro!: same_accounts_upd\<close>)
      then show ?thesis
        using False r1 r2 by (auto simp: CallUpdateUser redis_UpdateUser_def writes_def as_int_def)
    qed
  next
    case (CallDeleteUser n)
    have "returns view (delete_one R (CmdDel (userKey n))) r (if us n = None then Some ErrNotFound else None)
        ((stored us s)(KUser n := None))"
      using holds_Del [OF serves h, of "KUser n"] by (auto simp: returns_defs)
    then show ?thesis
      unfolding CallDeleteUser redis_user.simps redis_DeleteUser_def
      by (rule delete_matches [where us' = "us(n := None)" and s' = "fst (DeleteUser n s)"])
        (use us free [of n] in \<open>auto simp: DeleteUser_def writes_def stored_users stored_us same_accounts_def\<close>)
  next
    case (CallUserExists n)
    have "returns view (redis_UserExists R n) r (UserExists s n) (stored us s)"
      using holds_Exists [OF serves h, of "KUser n"] free by (auto simp: returns_defs redis_UserExists_def UserExists_def as_int_def)
    then show ?thesis
      unfolding CallUserExists redis_user.simps by (rule get_matches [OF st, where ks = "[]"]) (simp_all add: reads_def)
  next
    case (CallAuthenticate n pw)
    have pw: "map_option u_Password (us n) = map_option u_Password (users s n)"
      using us(1) by (simp add: same_accounts_def)
    have "returns view (redis_Authenticate R n pw) r (Authenticate s n pw) (stored us s)"
      using holds_Get [OF serves h, of "KUser n" DUser "us n" un_user] pw
      by (auto simp: returns_defs redis_Authenticate_def redis_GetUser_def Authenticate_def split: option.splits)
    then show ?thesis
      unfolding CallAuthenticate redis_user.simps by (rule get_matches [OF st, where ks = "[]"]) (simp_all add: reads_def)
  qed (use assms in auto)
qed

section \<open>Rosters, block lists, vCards, offline messages, bookmarks\<close>

lemma same_accounts_other [simp]:
  "same_accounts us (s\<lparr>rosterItems := rosterItems'\<rparr>) = same_accounts us s"
  "same_accounts us (s\<lparr>rosterVersions := rosterVersions'\<rparr>) = same_accounts us s"
  "same_accounts us (s\<lparr>blocked := blocked'\<rparr>) = same_accounts us s"
  "same_accounts us (s\<lparr>vcards := vcards'\<rparr>) = same_accounts us s"
  "same_accounts us (s\<lparr>offlineMsgs := offlineMsgs'\<rparr>) = same_accounts us s"
  "same_accounts us (s\<lparr>mucRooms := mucRooms'\<rparr>) = same_accounts us s"
  "same_accounts us (s\<lparr>mucAffiliations := mucAffiliations'\<rparr>) = same_accounts us s"
  "same_accounts us (s\<lparr>pubsubNodes := pubsubNodes'\<rparr>) = same_accounts us s"
  "same_accounts us (s\<lparr>pubsubItems := pubsubItems'\<rparr>) = same_accounts us s"
  "same_accounts us (s\<lparr>pubsubSubscriptions := pubsubSubscriptions'\<rparr>) = same_accounts us s"
  "same_accounts us (s\<lparr>bookmarks := bookmarks'\<rparr>) = same_accounts us s"
  by (simp_all add: same_accounts_def)

lemma blocked_true_other [simp]:
  "blocked_true (s\<lparr>rosterItems := rosterItems'\<rparr>) = blocked_true s"
  "blocked_true (s\<lparr>rosterVersions := rosterVersions'\<rparr>) = blocked_true s"
  "blocked_true (s\<lparr>vcards := vcards'\<rparr>) = blocked_true s"
  "blocked_true (s\<lparr>offlineMsgs := offlineMsgs'\<rparr>) = blocked_true s"
  "blocked_true (s\<lparr>mucRooms := mucRooms'\<rparr>) = blocked_true s"
  "blocked_true (s\<lparr>mucAffiliations := mucAffiliations'\<rparr>) = blocked_true s"
  "blocked_true (s\<lparr>pubsubNodes := pubsubNodes'\<rparr>) = blocked_true s"
  "blocked_true (s\<lparr>pubsubItems := pubsubItems'\<rparr>) = blocked_true s"
  "blocked_true (s\<lparr>pubsubSubscriptions := pubsubSubscriptions'\<rparr>) = blocked_true s"
  "blocked_true (s\<lparr>bookmarks := bookmarks'\<rparr>) = blocked_true s"
  by (simp_all add: blocked_true_def)

text \<open>Each table is under keys of its own.\<close>

lemma stored_tables:
  "stored us (s\<lparr>rosterItems := (rosterItems s)(u \<mapsto> m)\<rparr>) = (stored us s)(KRoster u := hash_of DRoster m)"
  "stored us (s\<lparr>rosterVersions := (rosterVersions s)(u := ver)\<rparr>) = (stored us s)(KRosterVer u := str_of DText ver)"
  "stored us (s\<lparr>blocked := (blocked s)(u \<mapsto> b)\<rparr>) = (stored us s)(KBlocked u := set_val (dom b))"
  "stored us (s\<lparr>vcards := (vcards s)(u := d)\<rparr>) = (stored us s)(KVCard u := str_of DBytes d)"
  "stored us (s\<lparr>offlineMsgs := (offlineMsgs s)(u \<mapsto> ms)\<rparr>) = (stored us s)(KOffline u := list_val (map DOffline ms))"
  "stored us (s\<lparr>offlineMsgs := (offlineMsgs s)(u := None)\<rparr>) = (stored us s)(KOffline u := None)"
  "stored us (s\<lparr>mucAffiliations := (mucAffiliations s)(u \<mapsto> am)\<rparr>) = (stored us s)(KAff u := hash_of DAff am)"
  "stored us (s\<lparr>mucAffiliations := (mucAffiliations s)(u := None)\<rparr>) = (stored us s)(KAff u := None)"
  "stored us (s\<lparr>bookmarks := (bookmarks s)(u \<mapsto> bm)\<rparr>) = (stored us s)(KBookmarks u := hash_of DBookmark bm)"
  by (rule ext, rename_tac k, case_tac k, auto simp: table_or_def hash_of_def)+

lemma inner_None: "rosterItems s u = None \<Longrightarrow> inner (rosterItems s) u = Map.empty"
  by (simp add: inner_def)

lemma DeleteRosterItem_inner:
  "DeleteRosterItem k s =
     (if inner (rosterItems s) (fst k) (snd k) = None then (s, Some ErrNotFound)
      else (s\<lparr>rosterItems := (rosterItems s)(fst k \<mapsto> (inner (rosterItems s) (fst k))(snd k := None))\<rparr>, None))"
  by (auto simp: DeleteRosterItem_def inner_def split: option.splits)

lemma redis_roster_step:
  assumes serves: "redis_serves R view" and st: "stores_with view us r s"
  shows "redis_matches view (RosterStore c) s (redis_roster R c r)"
proof -
  note h = stores_withD [OF st]
  have us: "same_accounts us s" "blocked_true s" using st by (simp_all add: stores_with_def)
  show ?thesis
  proof (cases c)
    case (CallUpsertRosterItem i)
    have "returns view (do_cmd R (CmdHSet (rosterKey (ri_UserJID i)) (ri_ContactJID i) (DRoster i))) r None
        (stored us (fst (UpsertRosterItem i s)))"
      using holds_HSet [OF serves h, of "KRoster (ri_UserJID i)" DRoster "inner (rosterItems s) (ri_UserJID i)"
        "ri_ContactJID i" i] by (auto simp: returns_defs UpsertRosterItem_def put2_def stored_tables)
    from write_matches [OF this] us show ?thesis
      by (simp add: CallUpsertRosterItem redis_UpsertRosterItem_def UpsertRosterItem_def writes_def)
  next
    case (CallGetRosterItem q)
    have "returns view (redis_GetRosterItem R q) r (GetRosterItem s q) (stored us s)"
      using holds_HGet [OF serves h, of "KRoster (fst q)" DRoster "inner (rosterItems s) (fst q)" un_roster "snd q"]
      by (auto simp: returns_defs redis_GetRosterItem_def GetRosterItem_def inner_get2 lookup_result_def)
    from get_matches [OF st this, of "[]" "RosterStore c" ReplyItem] show ?thesis
      by (simp add: CallGetRosterItem reads_def)
  next
    case (CallGetRosterItems u)
    obtain ks where "returns view (redis_GetRosterItems R u) r (Inr (GetRosterItems ks s u)) (stored us s)"
      "enumerates ks (inner (rosterItems s) u)"
      using holds_HGetAll [OF serves h, of "KRoster u" DRoster "inner (rosterItems s) u" un_roster]
      by (auto simp: returns_defs redis_GetRosterItems_def GetRosterItems_def)
    with get_matches [OF st this(1), of ks "RosterStore c" ReplyItems] show ?thesis
      by (simp add: CallGetRosterItems reads_def)
  next
    case (CallDeleteRosterItem q)
    let ?m = "inner (rosterItems s) (fst q)"
    have "returns view (delete_one R (CmdHDel (rosterKey (fst q)) (snd q))) r (if ?m (snd q) = None then Some ErrNotFound else None)
        ((stored us s)(KRoster (fst q) := hash_of DRoster (?m(snd q := None))))"
      using holds_HDel [OF serves h, of "KRoster (fst q)" DRoster ?m "snd q"] by (auto simp: returns_defs)
    then show ?thesis
      unfolding CallDeleteRosterItem redis_roster.simps redis_DeleteRosterItem_def
      by (rule delete_matches [where us' = us and s' = "fst (DeleteRosterItem q s)"])
        (use us in \<open>auto simp: DeleteRosterItem_inner writes_def stored_tables hash_of_same\<close>)
  next
    case (CallGetRosterVersion u)
    have "returns view (redis_GetRosterVersion R u) r (Inr (GetRosterVersion s u)) (stored us s)"
      using holds_Get [OF serves h, of "KRosterVer u" DText "rosterVersions s u" un_text]
      by (auto simp: returns_defs redis_GetRosterVersion_def GetRosterVersion_def split: option.splits)
    from get_matches [OF st this, of "[]" "RosterStore c" ReplyText] show ?thesis
      by (simp add: CallGetRosterVersion reads_def)
  next
    case (CallSetRosterVersion u ver)
    have "returns view (do_cmd R (CmdSet (rosterVerKey u) (DText ver))) r None (stored us (fst (SetRosterVersion u ver s)))"
      using holds_Set [OF serves h, of "KRosterVer u" "DText ver"] by (auto simp: returns_defs SetRosterVersion_def stored_tables)
    from write_matches [OF this] us show ?thesis
      by (simp add: CallSetRosterVersion redis_SetRosterVersion_def SetRosterVersion_def writes_def)
  qed
qed

lemma redis_blocking_step:
  assumes serves: "redis_serves R view" and st: "stores_with view us r s"
  shows "redis_matches view (BlockingStore c) s (redis_blocking R c r)"
proof -
  note h = stores_withD [OF st]
  have us: "same_accounts us s" "blocked_true s" using st by (simp_all add: stores_with_def)
  show ?thesis
  proof (cases c)
    case (CallBlockJID u j)
    have "returns view (do_cmd R (CmdSAdd (blockedKey u) j)) r None (stored us (fst (BlockJID u j s)))"
      using holds_SAdd [OF serves h, of "KBlocked u" "dom (inner (blocked s) u)" j]
      by (auto simp: returns_defs BlockJID_def put2_def stored_tables)
    from write_matches [OF this] us blocked_true_invariant(2) [OF us(2), of u j] show ?thesis
      by (simp add: CallBlockJID redis_BlockJID_def BlockJID_def writes_def)
  next
    case (CallUnblockJID u j)
    let ?s = "fst (UnblockJID u j s)" and ?D = "dom (inner (blocked s) u) - {j}"
    have "stored us ?s k = ((stored us s)(KBlocked u := set_val ?D)) k" for k
      by (cases k) (auto simp: UnblockJID_def)
    then have "stored us ?s = (stored us s)(KBlocked u := set_val ?D)" by (rule ext)
    then have "returns view (do_cmd R (CmdSRem (blockedKey u) j)) r None (stored us ?s)"
      using holds_SRem [OF serves h, of "KBlocked u" "dom (inner (blocked s) u)" j] by (auto simp: returns_defs)
    from write_matches [OF this] us blocked_true_invariant(3) [OF us(2), of u j] show ?thesis
      by (simp add: CallUnblockJID redis_UnblockJID_def UnblockJID_def writes_def)
  next
    case (CallIsBlocked u j)
    have "IsBlocked s u j = (j \<in> dom (inner (blocked s) u))"
      using us(2) unfolding IsBlocked_def blocked_true_def
      by (auto simp: inner_def split: option.splits) (metis (full_types))
    then have "returns view (redis_IsBlocked R u j) r (Inr (IsBlocked s u j)) (stored us s)"
      using holds_SIsMember [OF serves h, of "KBlocked u" "dom (inner (blocked s) u)" j]
      by (auto simp: returns_defs redis_IsBlocked_def as_bool_def)
    from get_matches [OF st this, of "[]" "BlockingStore c" ReplyBool] show ?thesis
      by (simp add: CallIsBlocked reads_def)
  next
    case (CallGetBlockedJIDs u)
    obtain ns where ns: "enumerates ns (inner (blocked s) u)"
      "returns view (redis_GetBlockedJIDs R u) r (Inr ns) (stored us s)"
      using holds_SMembers [OF serves h, of "KBlocked u" "dom (inner (blocked s) u)"]
      by (auto simp: returns_defs redis_GetBlockedJIDs_def as_names_def enumerates_def)
    moreover from ns(1) have "GetBlockedJIDs ns s u = ns"
      unfolding GetBlockedJIDs_def enumerates_def by (auto intro: filter_True)
    ultimately show ?thesis
      using get_matches [OF st ns(2), of ns "BlockingStore c" ReplyTexts] by (simp add: CallGetBlockedJIDs reads_def)
  qed
qed

lemma redis_vcard_step:
  assumes serves: "redis_serves R view" and st: "stores_with view us r s"
  shows "redis_matches view (VCardStore c) s (redis_vcard R c r)"
proof -
  note h = stores_withD [OF st]
  have us: "same_accounts us s" "blocked_true s" using st by (simp_all add: stores_with_def)
  show ?thesis
  proof (cases c)
    case (CallSetVCard u d)
    have "returns view (do_cmd R (CmdSet (vcardKey u) (DBytes d))) r None (stored us (fst (SetVCard u d s)))"
      using holds_Set [OF serves h, of "KVCard u" "DBytes d"] by (auto simp: returns_defs SetVCard_def stored_tables)
    from write_matches [OF this] us show ?thesis
      by (simp add: CallSetVCard redis_SetVCard_def SetVCard_def writes_def)
  next
    case (CallGetVCard u)
    have "returns view (redis_GetVCard R u) r (GetVCard s u) (stored us s)"
      using holds_Get [OF serves h, of "KVCard u" DBytes "vcards s u" un_bytes]
      by (auto simp: returns_defs redis_GetVCard_def GetVCard_def lookup_result_def)
    from get_matches [OF st this, of "[]" "VCardStore c" ReplyBytes] show ?thesis
      by (simp add: CallGetVCard reads_def)
  next
    case (CallDeleteVCard u)
    have "returns view (delete_one R (CmdDel (vcardKey u))) r (if vcards s u = None then Some ErrNotFound else None)
        ((stored us s)(KVCard u := None))"
      using holds_Del [OF serves h, of "KVCard u"] by (auto simp: returns_defs)
    then show ?thesis
      unfolding CallDeleteVCard redis_vcard.simps redis_DeleteVCard_def
      by (rule delete_matches [where us' = us and s' = "fst (DeleteVCard u s)"])
        (use us in \<open>auto simp: DeleteVCard_def writes_def stored_tables\<close>)
  qed
qed

lemma redis_offline_step:
  assumes serves: "redis_serves R view" and st: "stores_with view us r s" and ok: "redis_plain (OfflineStore c)"
  shows "redis_matches view (OfflineStore c) s (redis_offline R c r)"
proof -
  note h = stores_withD [OF st]
  have us: "same_accounts us s" "blocked_true s" using st by (simp_all add: stores_with_def)
  have off: "offline_of s u = table_or [] (offlineMsgs s) u" for u
    by (simp add: offline_of_def table_or_def)
  show ?thesis
  proof (cases c)
    case (CallStoreOfflineMessage now m)
    let ?u = "off_UserJID m"
    have "returns view (do_cmd R (CmdRPush (offlineKey ?u) (DOffline m))) r None
        (stored us (fst (StoreOfflineMessage now m s)))"
      using holds_RPush [OF serves h, of "KOffline ?u" "map DOffline (offline_of s ?u)" "DOffline m"] ok
      by (auto simp: returns_defs StoreOfflineMessage_def stored_tables CallStoreOfflineMessage off)
    from write_matches [OF this] us show ?thesis
      by (simp add: CallStoreOfflineMessage redis_StoreOfflineMessage_def StoreOfflineMessage_def writes_def Let_def)
  next
    case (CallGetOfflineMessages u)
    have "returns view (redis_GetOfflineMessages R u) r (Inr (GetOfflineMessages s u)) (stored us s)"
      using holds_list(1) [OF serves h, of "KOffline u" "map DOffline (offline_of s u)"]
      by (auto simp: returns_defs redis_GetOfflineMessages_def GetOfflineMessages_def as_docs_def un_all_map off)
    from get_matches [OF st this, of "[]" "OfflineStore c" ReplyOffline] show ?thesis
      by (simp add: CallGetOfflineMessages reads_def)
  next
    case (CallDeleteOfflineMessages u)
    have "returns view (do_cmd R (CmdDel (offlineKey u))) r None (stored us (fst (DeleteOfflineMessages u s)))"
      using holds_Del [OF serves h, of "KOffline u"] by (auto simp: returns_defs DeleteOfflineMessages_def stored_tables)
    from write_matches [OF this] us show ?thesis
      by (simp add: CallDeleteOfflineMessages redis_DeleteOfflineMessages_def DeleteOfflineMessages_def writes_def)
  next
    case (CallCountOfflineMessages u)
    have "returns view (redis_CountOfflineMessages R u) r (Inr (CountOfflineMessages s u)) (stored us s)"
      using holds_list(2) [OF serves h, of "KOffline u" "map DOffline (offline_of s u)"]
      by (auto simp: returns_defs redis_CountOfflineMessages_def CountOfflineMessages_def as_int_def off)
    from get_matches [OF st this, of "[]" "OfflineStore c" ReplyCount] show ?thesis
      by (simp add: CallCountOfflineMessages reads_def)
  qed
qed

lemma redis_bookmark_step:
  assumes serves: "redis_serves R view" and st: "stores_with view us r s"
  shows "redis_matches view (BookmarkStore c) s (redis_bookmark R c r)"
proof -
  note h = stores_withD [OF st]
  have us: "same_accounts us s" "blocked_true s" using st by (simp_all add: stores_with_def)
  show ?thesis
  proof (cases c)
    case (CallSetBookmark b)
    have "returns view (do_cmd R (CmdHSet (bookmarkKey (bm_UserJID b)) (bm_RoomJID b) (DBookmark b))) r None
        (stored us (fst (SetBookmark b s)))"
      using holds_HSet [OF serves h, of "KBookmarks (bm_UserJID b)" DBookmark "inner (bookmarks s) (bm_UserJID b)"
        "bm_RoomJID b" b] by (auto simp: returns_defs SetBookmark_def put2_def stored_tables)
    from write_matches [OF this] us show ?thesis
      by (simp add: CallSetBookmark redis_SetBookmark_def SetBookmark_def writes_def)
  next
    case (CallGetBookmark q)
    have "returns view (redis_GetBookmark R q) r (GetBookmark s q) (stored us s)"
      using holds_HGet [OF serves h, of "KBookmarks (fst q)" DBookmark "inner (bookmarks s) (fst q)" un_bookmark "snd q"]
      by (auto simp: returns_defs redis_GetBookmark_def GetBookmark_def inner_get2 lookup_result_def)
    from get_matches [OF st this, of "[]" "BookmarkStore c" ReplyBookmark] show ?thesis
      by (simp add: CallGetBookmark reads_def)
  next
    case (CallGetBookmarks u)
    obtain ks where "returns view (redis_GetBookmarks R u) r (Inr (GetBookmarks ks s u)) (stored us s)"
      "enumerates ks (inner (bookmarks s) u)"
      using holds_HGetAll [OF serves h, of "KBookmarks u" DBookmark "inner (bookmarks s) u" un_bookmark]
      by (auto simp: returns_defs redis_GetBookmarks_def GetBookmarks_def)
    with get_matches [OF st this(1), of ks "BookmarkStore c" ReplyBookmarks] show ?thesis
      by (simp add: CallGetBookmarks reads_def)
  next
    case (CallDeleteBookmark q)
    let ?m = "inner (bookmarks s) (fst q)"
    have "returns view (delete_one R (CmdHDel (bookmarkKey (fst q)) (snd q))) r (if ?m (snd q) = None then Some ErrNotFound else None)
        ((stored us s)(KBookmarks (fst q) := hash_of DBookmark (?m(snd q := None))))"
      using holds_HDel [OF serves h, of "KBookmarks (fst q)" DBookmark ?m "snd q"] by (auto simp: returns_defs)
    moreover have "((stored us s)(KBookmarks (fst q) := hash_of DBookmark (?m(snd q := None)))) k =
        stored us (fst (DeleteBookmark q s)) k" for k
      by (cases k) (auto simp: DeleteBookmark_def inner_get2 [symmetric] hash_of_same)
    ultimately show ?thesis
      unfolding CallDeleteBookmark redis_bookmark.simps redis_DeleteBookmark_def
      by (rule delete_matches [where us' = us and s' = "fst (DeleteBookmark q s)"])
        (use us in \<open>auto simp: DeleteBookmark_def writes_def inner_get2\<close>)
  qed
qed

section \<open>Rooms\<close>

lemma stored_rooms:
  "stored us (s\<lparr>mucRooms := (mucRooms s)(j := x)\<rparr>) =
     (stored us s)(KRoom j := str_of DRoom x, KRooms := set_val (dom ((mucRooms s)(j := x))))"
  by (rule ext, rename_tac k, case_tac k) auto

lemma holds_run:
  assumes "\<exists>y r'. R cmd r = (Inr y, r') \<and> holds view E r'"
  shows "holds view E (run_cmd R cmd r)"
  using assms by (auto simp: run_cmd_def)

text \<open>The names in a set, and what is read for each of them.\<close>

lemma holds_read_named:
  assumes "\<And>n r. holds view E r \<Longrightarrow> returns view (get n) r (lookup_result (T n)) E" "holds view E r"
  shows "returns view (read_named get ns) r (range_values ns T) E"
  using assms(2)
proof (induction ns arbitrary: r)
  case (Cons n ns)
  obtain r1 where "get n r = (r1, lookup_result (T n))" "holds view E r1"
    using assms(1) [OF Cons.prems, of n] by (auto simp: returns_def)
  with Cons.IH [OF this(2)] show ?case by (cases "T n") (auto simp: returns_def)
qed (simp add: returns_def)

lemma holds_read_set:
  assumes "redis_serves R view" "holds view E r" "plain_key k" "E k = set_val a"
    and "\<And>n r. holds view E r \<Longrightarrow> returns view (get n) r (lookup_result (T n)) E"
  shows "\<exists>ns. returns view (read_set R (key_text k) get) r (Inr (range_values ns T)) E \<and> distinct ns \<and> set ns = a"
proof -
  obtain ns r1 where m: "R (CmdSMembers (key_text k)) r = (Inr (ReNames ns), r1)" "distinct ns" "set ns = a" "holds view E r1"
    using holds_SMembers [OF assms(1-4)] by blast
  have "returns view (read_named get ns) r1 (range_values ns T) E"
    using holds_read_named [of view E get T r1 ns] assms(5) m(4) by blast
  with m show ?thesis by (auto simp: returns_def read_set_def as_names_def)
qed

lemma redis_CreateRoom_step:
  assumes serves: "redis_serves R view" and st: "stores_with view us r s"
  shows "returns view (redis_CreateRoom R m) r (snd (CreateRoom m s)) (stored us (fst (CreateRoom m s)))"
proof -
  let ?j = "room_RoomJID m" and ?E = "stored us s"
  obtain r1 where r1: "create_one R (mucRoomKey ?j) (DRoom m) r = (r1, if mucRooms s ?j = None then None else Some ErrUserExists)"
    "holds view (if mucRooms s ?j = None then ?E(KRoom ?j \<mapsto> VStr (DRoom m)) else ?E) r1"
    using holds_SetNX [OF serves stores_withD [OF st], of "KRoom ?j" "DRoom m"] by auto
  show ?thesis
  proof (cases "mucRooms s ?j = None")
    case True
    have "holds view ((?E(KRoom ?j \<mapsto> VStr (DRoom m)))(KRooms := set_val (insert ?j (dom (mucRooms s)))))
        (run_cmd R (CmdSAdd mucRoomsSetKey ?j) r1)"
      using holds_run holds_SAdd [OF serves, of _ r1 KRooms "dom (mucRooms s)" ?j] r1(2) True by fastforce
    then show ?thesis
      using r1 True by (auto simp: returns_def redis_CreateRoom_def CreateRoom_def stored_rooms)
  next
    case False
    then show ?thesis
      using r1 by (auto simp: returns_def redis_CreateRoom_def CreateRoom_def)
  qed
qed

lemma redis_DeleteRoom_step:
  assumes serves: "redis_serves R view" and st: "stores_with view us r s"
  shows "returns view (redis_DeleteRoom R j) r (snd (DeleteRoom j s)) (stored us (fst (DeleteRoom j s)))"
proof -
  let ?E = "stored us s"
  obtain r1 where r1: "R (CmdDel (mucRoomKey j)) r = (Inr (ReInt (if mucRooms s j = None then 0 else 1)), r1)"
    "holds view (?E(KRoom j := None)) r1"
    using holds_Del [OF serves stores_withD [OF st], of "KRoom j"] by auto
  show ?thesis
  proof (cases "mucRooms s j = None")
    case True
    then have "?E(KRoom j := None) = ?E" by auto
    with True r1 show ?thesis
      by (simp add: returns_defs redis_DeleteRoom_def DeleteRoom_def)
  next
    case False
    let ?r2 = "run_cmd R (CmdSRem mucRoomsSetKey j) r1" and ?D = "dom (mucRooms s) - {j}"
    have "holds view (?E(KRoom j := None, KRooms := set_val ?D)) ?r2"
      using holds_run holds_SRem [OF serves r1(2), of KRooms "dom (mucRooms s)" j] by fastforce
    then have "holds view (?E(KRoom j := None, KRooms := set_val ?D, KAff j := None)) (run_cmd R (CmdDel (mucAffKey j)) ?r2)"
      using holds_run holds_Del [OF serves, of _ ?r2 "KAff j"] by fastforce
    moreover have "?E(KRoom j := None, KRooms := set_val ?D, KAff j := None) = stored us (fst (DeleteRoom j s))"
      using False stored_rooms [of us s j None] stored_tables(8) [of us "s\<lparr>mucRooms := (mucRooms s)(j := None)\<rparr>" j]
      by (auto simp: DeleteRoom_def)
    ultimately show ?thesis
      using False r1 by (auto simp: returns_defs redis_DeleteRoom_def DeleteRoom_def)
  qed
qed

lemma redis_UpdateRoom_step:
  assumes serves: "redis_serves R view" and st: "stores_with view us r s"
  shows "returns view (redis_UpdateRoom R m) r (snd (UpdateRoom m s)) (stored us (fst (UpdateRoom m s)))"
proof -
  let ?j = "room_RoomJID m" and ?E = "stored us s"
  obtain r1 where r1: "R (CmdExists (mucRoomKey ?j)) r = (Inr (ReInt (if mucRooms s ?j = None then 0 else 1)), r1)"
    "holds view ?E r1"
    using holds_Exists [OF serves stores_withD [OF st], of "KRoom ?j"] by auto
  obtain r2 where r2: "do_cmd R (CmdSet (mucRoomKey ?j) (DRoom m)) r1 = (r2, None)"
    "holds view (?E(KRoom ?j \<mapsto> VStr (DRoom m))) r2"
    using holds_Set [OF serves r1(2), of "KRoom ?j" "DRoom m"] by auto
  have "?E(KRoom ?j \<mapsto> VStr (DRoom m)) = stored us (fst (UpdateRoom m s))" if "mucRooms s ?j \<noteq> None"
    using that by (auto simp: UpdateRoom_def stored_rooms insert_absorb domI)
  with r1 r2 show ?thesis
    by (auto simp: returns_def redis_UpdateRoom_def UpdateRoom_def as_int_def)
qed

lemma redis_muc_step:
  assumes serves: "redis_serves R view" and st: "stores_with view us r s"
  shows "redis_matches view (MUCRoomStore c) s (redis_muc R c r)"
proof -
  note h = stores_withD [OF st]
  have us: "same_accounts us s" "blocked_true s" using st by (simp_all add: stores_with_def)
  have get: "returns view (redis_GetRoom R j) r' (lookup_result (mucRooms s j)) (stored us s)" if "holds view (stored us s) r'" for j r'
    using holds_Get [OF serves that, of "KRoom j" DRoom "mucRooms s j" un_room] by (simp add: returns_def redis_GetRoom_def)
  show ?thesis
  proof (cases c)
    case (CallCreateRoom m)
    from write_matches [OF redis_CreateRoom_step [OF serves st, of m], of "MUCRoomStore c" s] us show ?thesis
      by (auto simp: CallCreateRoom CreateRoom_def writes_def)
  next
    case (CallGetRoom j)
    from get_matches [OF st get [OF h, of j], of "[]" "MUCRoomStore c" ReplyRoom] show ?thesis
      by (simp add: CallGetRoom reads_def GetRoom_def lookup_result_def)
  next
    case (CallUpdateRoom m)
    from write_matches [OF redis_UpdateRoom_step [OF serves st, of m], of "MUCRoomStore c" s] us show ?thesis
      by (auto simp: CallUpdateRoom UpdateRoom_def writes_def)
  next
    case (CallDeleteRoom j)
    from write_matches [OF redis_DeleteRoom_step [OF serves st, of j], of "MUCRoomStore c" s] us show ?thesis
      by (auto simp: CallDeleteRoom DeleteRoom_def writes_def)
  next
    case (CallSetAffiliation a)
    have "returns view (do_cmd R (CmdHSet (mucAffKey (aff_RoomJID a)) (aff_UserJID a) (DAff a))) r None
        (stored us (fst (SetAffiliation a s)))"
      using holds_HSet [OF serves h, of "KAff (aff_RoomJID a)" DAff "inner (mucAffiliations s) (aff_RoomJID a)"
        "aff_UserJID a" a] by (auto simp: returns_defs SetAffiliation_def put2_def stored_tables)
    from write_matches [OF this] us show ?thesis
      by (simp add: CallSetAffiliation redis_SetAffiliation_def SetAffiliation_def writes_def)
  next
    case (CallGetAffiliation q)
    have "returns view (redis_GetAffiliation R q) r (GetAffiliation s q) (stored us s)"
      using holds_HGet [OF serves h, of "KAff (fst q)" DAff "inner (mucAffiliations s) (fst q)" un_aff "snd q"]
      by (auto simp: returns_def redis_GetAffiliation_def GetAffiliation_def inner_get2 lookup_result_def)
    from get_matches [OF st this, of "[]" "MUCRoomStore c" ReplyAff] show ?thesis
      by (simp add: CallGetAffiliation reads_def)
  next
    case (CallGetAffiliations j)
    obtain ks where "returns view (redis_GetAffiliations R j) r (Inr (GetAffiliations ks s j)) (stored us s)"
      "enumerates ks (inner (mucAffiliations s) j)"
      using holds_HGetAll [OF serves h, of "KAff j" DAff "inner (mucAffiliations s) j" un_aff]
      by (auto simp: returns_def redis_GetAffiliations_def GetAffiliations_def)
    with get_matches [OF st this(1), of ks "MUCRoomStore c" ReplyAffs] show ?thesis
      by (simp add: CallGetAffiliations reads_def)
  next
    case (CallRemoveAffiliation q)
    let ?m = "inner (mucAffiliations s) (fst q)"
    have "returns view (do_cmd R (CmdHDel (mucAffKey (fst q)) (snd q))) r None
        ((stored us s)(KAff (fst q) := hash_of DAff (?m(snd q := None))))"
      using holds_HDel [OF serves h, of "KAff (fst q)" DAff ?m "snd q"] by (auto simp: returns_defs)
    moreover have "((stored us s)(KAff (fst q) := hash_of DAff (?m(snd q := None)))) k =
        stored us (fst (RemoveAffiliation q s)) k" for k
      by (cases k) (auto simp: RemoveAffiliation_def)
    ultimately show ?thesis
      unfolding CallRemoveAffiliation redis_muc.simps redis_RemoveAffiliation_def
      by (rule delete_matches [where us' = us and s' = "fst (RemoveAffiliation q s)"])
        (use us in \<open>auto simp: RemoveAffiliation_def writes_def\<close>)
  next
    case CallListRooms
    obtain ns where "returns view (redis_ListRooms R) r (Inr (ListRooms ns s)) (stored us s)" "enumerates ns (mucRooms s)"
      using holds_read_set [OF serves h, of KRooms "dom (mucRooms s)" "redis_GetRoom R" "mucRooms s"] get
      by (auto simp: redis_ListRooms_def ListRooms_def enumerates_def)
    with get_matches [OF st this(1), of ns "MUCRoomStore c" ReplyRooms] show ?thesis
      by (simp add: CallListRooms reads_def)
  qed
qed

section \<open>Publish-subscribe\<close>

lemma get3_fun:
  "inner (inner m a) b = get3 m a b"
  "get3 (put3 m a b c v) x y = (if x = a \<and> y = b then (get3 m a b)(c \<mapsto> v) else get3 m x y)"
  "get3 (put2 m a b n) x y = (if x = a \<and> y = b then n else get3 m x y)"
  "get3 (del2 m a b) x y = (if x = a \<and> y = b then Map.empty else get3 m x y)"
  by (auto simp: fun_eq_iff inner_inner)

lemma stored_pubsub:
  "stored us (s\<lparr>pubsubNodes := put2 (pubsubNodes s) h n x\<rparr>) =
     (stored us s)(KNode h n \<mapsto> VStr (DNode x), KNodes h := set_val (insert n (dom (inner (pubsubNodes s) h))))"
  "stored us (s\<lparr>pubsubNodes := (pubsubNodes s)(h \<mapsto> inner (pubsubNodes s) h)\<rparr>) = stored us s"
  "stored us (s\<lparr>pubsubItems := put3 (pubsubItems s) h n i y\<rparr>) =
     (stored us s)(KItem h n i \<mapsto> VStr (DItem y), KItems h n := set_val (insert i (dom (get3 (pubsubItems s) h n))))"
  "stored us (s\<lparr>pubsubSubscriptions := put3 (pubsubSubscriptions s) h n j z\<rparr>) =
     (stored us s)(KSubs h n := hash_of DSub ((get3 (pubsubSubscriptions s) h n)(j \<mapsto> z)),
       KUserSubs h j := set_val (insert n {n. get3 (pubsubSubscriptions s) h n j \<noteq> None}))"
  by (rule ext, rename_tac k, case_tac k; auto simp: get3_fun inner_get2 [symmetric] intro!: arg_cong [of _ _ set_val])+

lemma redis_CreateNode_step:
  assumes serves: "redis_serves R view" and st: "stores_with view us r s" and "no_colon (node_Host m)"
  shows "returns view (redis_CreateNode R m) r (snd (CreateNode m s)) (stored us (fst (CreateNode m s)))"
proof -
  let ?h = "node_Host m" and ?n = "node_NodeID m" and ?E = "stored us s"
  let ?free = "get2 (pubsubNodes s) ?h ?n = None"
  obtain r1 where r1: "create_one R (pubsubNodeKey ?h ?n) (DNode m) r = (r1, if ?free then None else Some ErrUserExists)"
    "holds view (if ?free then ?E(KNode ?h ?n \<mapsto> VStr (DNode m)) else ?E) r1"
    using holds_SetNX [OF serves stores_withD [OF st], of "KNode ?h ?n" "DNode m"] assms(3) by auto
  show ?thesis
  proof (cases ?free)
    case True
    have "holds view ((?E(KNode ?h ?n \<mapsto> VStr (DNode m)))(KNodes ?h := set_val (insert ?n (dom (inner (pubsubNodes s) ?h)))))
        (run_cmd R (CmdSAdd (pubsubNodesKey ?h) ?n) r1)"
      using holds_run holds_SAdd [OF serves, of _ r1 "KNodes ?h" "dom (inner (pubsubNodes s) ?h)" ?n] r1(2) True by fastforce
    then show ?thesis
      using r1 True by (auto simp: returns_def redis_CreateNode_def pubsub_memory_eqs(1) pairs_def stored_pubsub)
  next
    case False
    then show ?thesis
      using r1 by (auto simp: returns_def redis_CreateNode_def pubsub_memory_eqs(1) pairs_def stored_pubsub)
  qed
qed

lemma redis_UpsertItem_step:
  assumes serves: "redis_serves R view" and st: "stores_with view us r s"
    and "no_colon (item_Host m)" "no_colon (item_NodeID m)"
  shows "returns view (redis_UpsertItem R now m) r None (stored us (fst (UpsertItem now m s)))"
proof -
  let ?h = "item_Host m" and ?n = "item_NodeID m" and ?i = "item_ItemID m" and ?E = "stored us s" and ?m = "stamp_item now m"
  have st: "item_Host ?m = ?h" "item_NodeID ?m = ?n" "item_ItemID ?m = ?i"
    by (simp_all add: stamp_item_def)
  obtain r1 where r1: "do_cmd R (CmdSet (pubsubItemKey ?h ?n ?i) (DItem ?m)) r = (r1, None)"
    "holds view (?E(KItem ?h ?n ?i \<mapsto> VStr (DItem ?m))) r1"
    using holds_Set [OF serves stores_withD [OF assms(2)], of "KItem ?h ?n ?i" "DItem ?m"] assms(3,4) by auto
  obtain n r2 where r2: "R (CmdSAdd (pubsubItemsKey ?h ?n) ?i) r1 = (Inr (ReInt n), r2)"
    "holds view (stored us (fst (UpsertItem now m s))) r2"
    using holds_SAdd [OF serves r1(2), of "KItems ?h ?n" "dom (get3 (pubsubItems s) ?h ?n)" ?i] assms(3)
    by (auto simp: UpsertItem_def stored_pubsub)
  show ?thesis
    using r1(1) r2 st unfolding returns_def redis_UpsertItem_def stamp_item_def [symmetric]
    by (auto simp: do_cmd_def Let_def as_err_def split: prod.splits sum.splits)
qed

lemma redis_Subscribe_step:
  assumes serves: "redis_serves R view" and st: "stores_with view us r s" and "no_colon (sub_Host m)"
  shows "returns view (redis_Subscribe R m) r None (stored us (fst (Subscribe m s)))"
proof -
  let ?h = "sub_Host m" and ?n = "sub_NodeID m" and ?j = "sub_JID m" and ?E = "stored us s"
  let ?S = "get3 (pubsubSubscriptions s) ?h ?n"
  obtain k r1 where r1: "R (CmdHSet (pubsubSubsKey ?h ?n) ?j (DSub m)) r = (Inr (ReInt k), r1)"
    "holds view (?E(KSubs ?h ?n := hash_of DSub (?S(?j \<mapsto> m)))) r1"
    using holds_HSet [OF serves stores_withD [OF st], of "KSubs ?h ?n" DSub ?S ?j m] assms(3) by auto
  obtain l r2 where r2: "R (CmdSAdd (pubsubUserSubsKey ?h ?j) ?n) r1 = (Inr (ReInt l), r2)"
    "holds view (stored us (fst (Subscribe m s))) r2"
    using holds_SAdd [OF serves r1(2), of "KUserSubs ?h ?j" "{n. get3 (pubsubSubscriptions s) ?h n ?j \<noteq> None}" ?n] assms(3)
    by (auto simp: Subscribe_def stored_pubsub)
  show ?thesis
    using r1(1) r2 by (auto simp: returns_def redis_Subscribe_def as_err_def)
qed

lemma redis_Unsubscribe_step:
  assumes serves: "redis_serves R view" and st: "stores_with view us r s" and "no_colon h"
  shows "returns view (redis_Unsubscribe R (h, n, j)) r None (stored us (fst (Unsubscribe (h, n, j) s)))"
proof -
  let ?E = "stored us s" and ?S = "get3 (pubsubSubscriptions s) h n" and ?U = "{n. get3 (pubsubSubscriptions s) h n j \<noteq> None}"
  obtain k r1 where r1: "R (CmdHDel (pubsubSubsKey h n) j) r = (Inr (ReInt k), r1)"
    "holds view (?E(KSubs h n := hash_of DSub (?S(j := None)))) r1"
    using holds_HDel [OF serves stores_withD [OF st], of "KSubs h n" DSub ?S j] assms(3) by auto
  obtain l r2 where r2: "R (CmdSRem (pubsubUserSubsKey h j) n) r1 = (Inr (ReInt l), r2)"
    "holds view (?E(KSubs h n := hash_of DSub (?S(j := None)), KUserSubs h j := set_val (?U - {n}))) r2"
    using holds_SRem [OF serves r1(2), of "KUserSubs h j" ?U n] assms(3) by auto
  obtain m where m: "fst (Unsubscribe (h, n, j) s) = s\<lparr>pubsubSubscriptions := m\<rparr>"
    using pubsub_memory_eqs(5) by blast
  have f: "get3 m a b = (if a = h \<and> b = n then ?S(j := None) else get3 (pubsubSubscriptions s) a b)" for a b
    using Unsubscribe_effect(1) [of "(h, n, j)" s a b] by (auto simp: fun_eq_iff m)
  have "?E(KSubs h n := hash_of DSub (?S(j := None)), KUserSubs h j := set_val (?U - {n})) =
      stored us (fst (Unsubscribe (h, n, j) s))"
    unfolding m by (rule ext, rename_tac k, case_tac k) (auto simp: f intro!: arg_cong [of _ _ set_val])
  with r1(1) r2 show ?thesis
    by (auto simp: returns_def redis_Unsubscribe_def as_err_def)
qed

lemma redis_DeleteItem_step:
  assumes serves: "redis_serves R view" and st: "stores_with view us r s" and "no_colon h" "no_colon n"
  shows "returns view (redis_DeleteItem R (h, n, i)) r (snd (DeleteItem (h, n, i) s)) (stored us (fst (DeleteItem (h, n, i) s)))"
proof -
  let ?E = "stored us s" and ?I = "get3 (pubsubItems s) h n" and ?s = "fst (DeleteItem (h, n, i) s)"
  obtain r1 where r1: "R (CmdDel (pubsubItemKey h n i)) r = (Inr (ReInt (if ?I i = None then 0 else 1)), r1)"
    "holds view (?E(KItem h n i := None)) r1"
    using holds_Del [OF serves stores_withD [OF st], of "KItem h n i"] assms(3,4) by auto
  have "\<exists>m. ?s = s\<lparr>pubsubItems := m\<rparr>"
    unfolding pubsub_memory_eqs(2) by (auto intro: exI [of _ "pubsubItems s"])
  then obtain m where m: "?s = s\<lparr>pubsubItems := m\<rparr>" by blast
  have f: "get3 m a b = (if a = h \<and> b = n then ?I(i := None) else get3 (pubsubItems s) a b)" for a b
    using DeleteItem_effect(1) [of "(h, n, i)" s a b] by (auto simp: fun_eq_iff m)
  show ?thesis
  proof (cases "?I i = None")
    case True
    then have "?E(KItem h n i := None) = ?E" "?s = s" by (auto simp: DeleteItem_def get3_def split: option.splits)
    with True r1 show ?thesis
      by (simp add: returns_defs redis_DeleteItem_def DeleteItem_effect)
  next
    case False
    have "holds view (?E(KItem h n i := None, KItems h n := set_val (dom ?I - {i}))) (run_cmd R (CmdSRem (pubsubItemsKey h n) i) r1)"
      using holds_run holds_SRem [OF serves r1(2), of "KItems h n" "dom ?I" i] assms(3) by fastforce
    moreover have "?E(KItem h n i := None, KItems h n := set_val (dom ?I - {i})) = stored us ?s"
      unfolding m by (rule ext, rename_tac k, case_tac k) (auto simp: f)
    ultimately show ?thesis
      using False r1 by (auto simp: returns_defs redis_DeleteItem_def DeleteItem_effect)
  qed
qed

text \<open>The pipeline of \<open>DeleteNode\<close>.\<close>

lemma returns_pipe_append:
  assumes "returns view (pipe_Exec R cs) r None E" "\<And>r'. holds view E r' \<Longrightarrow> returns view (pipe_Exec R ds) r' x E'"
  shows "returns view (pipe_Exec R (cs @ ds)) r x E'"
  using assms pipe_append [of R cs r] unfolding returns_def by metis

lemma returns_pipe_Del:
  assumes "redis_serves R view" "holds view E r" "plain_key k"
  shows "returns view (pipe_Exec R [CmdDel (key_text k)]) r None (E(k := None))"
  using holds_Del [OF assms] by (auto simp: returns_def as_err_def)

lemma returns_Dels:
  assumes serves: "redis_serves R view" and "holds view E r" "\<forall>k \<in> set ks. plain_key k"
  shows "returns view (pipe_Exec R (map (\<lambda>k. CmdDel (key_text k)) ks)) r None (\<lambda>k. if k \<in> set ks then None else E k)"
  using assms(2,3)
proof (induction ks arbitrary: E r)
  case (Cons k ks)
  have "(\<lambda>i. if i \<in> set ks then None else (E(k := None)) i) = (\<lambda>i. if i \<in> set (k # ks) then None else E i)"
    by (auto simp: fun_eq_iff)
  moreover have "returns view (pipe_Exec R ([CmdDel (key_text k)] @ map (\<lambda>k. CmdDel (key_text k)) ks)) r None
      (\<lambda>i. if i \<in> set ks then None else (E(k := None)) i)"
    using Cons by (intro returns_pipe_append [OF returns_pipe_Del [OF serves]]) auto
  ultimately show ?case by (simp del: pipe_Exec.simps)
qed (simp add: returns_def)

fun unsubscribed :: "string \<Rightarrow> string \<Rightarrow> string set \<Rightarrow> (rkey \<Rightarrow> rval option) \<Rightarrow> (string \<Rightarrow> string set) \<Rightarrow> rkey \<Rightarrow> rval option" where
  "unsubscribed h n js E A (KUserSubs g j) = (if g = h \<and> j \<in> js then set_val (A j - {n}) else E (KUserSubs g j))"
| "unsubscribed h n js E A k = E k"

lemma unsubscribed_insert:
  assumes "j \<notin> js"
  shows "unsubscribed h n js (E(KUserSubs h j := set_val (A j - {n}))) A = unsubscribed h n (insert j js) E A"
  by (rule ext, rename_tac k, case_tac k) (use assms in auto)

lemma returns_SRems:
  assumes serves: "redis_serves R view" and "no_colon h" "holds view E r" "distinct js"
    and "\<forall>j \<in> set js. E (KUserSubs h j) = set_val (A j)"
  shows "returns view (pipe_Exec R (map (\<lambda>j. CmdSRem (pubsubUserSubsKey h j) n) js)) r None (unsubscribed h n (set js) E A)"
  using assms(3-5)
proof (induction js arbitrary: E r)
  case Nil
  have "unsubscribed h n {} E A = E"
    by (rule ext, rename_tac k, case_tac k) simp_all
  with Nil show ?case by (simp add: returns_def)
next
  case (Cons j js)
  obtain m r1 where r1: "R (CmdSRem (pubsubUserSubsKey h j) n) r = (Inr (ReInt m), r1)"
    "holds view (E(KUserSubs h j := set_val (A j - {n}))) r1"
    using holds_SRem [OF serves Cons.prems(1), of "KUserSubs h j" "A j" n] Cons.prems(3) assms(2) by auto
  have "\<forall>i \<in> set js. (E(KUserSubs h j := set_val (A j - {n}))) (KUserSubs h i) = set_val (A i)"
    using Cons.prems(2,3) by auto
  from Cons.IH [OF r1(2) _ this] Cons.prems(2) unsubscribed_insert [of j "set js" h n E A]
  have "returns view (pipe_Exec R (map (\<lambda>j. CmdSRem (pubsubUserSubsKey h j) n) js)) r1 None (unsubscribed h n (insert j (set js)) E A)"
    by (metis distinct.simps(2))
  with r1(1) show ?case by (auto simp: returns_def as_err_def)
qed

lemma no_val: "set_val {} = None" "hash_val (\<lambda>f. None) = None"
  by (simp_all add: set_val_def hash_val_def)

lemma stored_DeleteNode:
  assumes "get2 (pubsubNodes s) h n \<noteq> None" "set is = dom (get3 (pubsubItems s) h n)"
    and "js = dom (get3 (pubsubSubscriptions s) h n)"
  shows "(unsubscribed h n js ((\<lambda>k. if k \<in> set (map (KItem h n) is) then None else
        ((stored us s)(KNode h n := None, KNodes h := set_val (dom (inner (pubsubNodes s) h) - {n}))) k)(KItems h n := None))
      (\<lambda>j. {n. get3 (pubsubSubscriptions s) h n j \<noteq> None}))(KSubs h n := None) = stored us (fst (DeleteNode (h, n) s))"
    (is "?l = stored us ?s")
proof
  fix k
  have s: "?s = s\<lparr>pubsubNodes := del2 (pubsubNodes s) h n, pubsubItems := del2 (pubsubItems s) h n,
      pubsubSubscriptions := del2 (pubsubSubscriptions s) h n\<rparr>"
    using assms(1) by (auto simp: DeleteNode_def)
  show "?l k = stored us ?s k"
    using assms(2,3) unfolding s
    by (cases k) (auto simp: get3_fun hash_of_def no_val image_iff domIff intro!: arg_cong [of _ _ set_val])
qed

lemma redis_DeleteNode_step:
  assumes serves: "redis_serves R view" and st: "stores_with view us r s" and h: "no_colon h" "no_colon n"
  shows "returns view (redis_DeleteNode R (h, n)) r (snd (DeleteNode (h, n) s)) (stored us (fst (DeleteNode (h, n) s)))"
proof -
  let ?E = "stored us s" and ?N = "get2 (pubsubNodes s) h n"
  let ?E2 = "?E(KNode h n := None, KNodes h := set_val (dom (inner (pubsubNodes s) h) - {n}))"
  obtain r1 where r1: "R (CmdDel (pubsubNodeKey h n)) r = (Inr (ReInt (if ?N = None then 0 else 1)), r1)"
    "holds view (?E(KNode h n := None)) r1"
    using holds_Del [OF serves stores_withD [OF st], of "KNode h n"] h by auto
  show ?thesis
  proof (cases "?N = None")
    case True
    then have "?E(KNode h n := None) = ?E" by auto
    with True r1 show ?thesis by (simp add: returns_defs redis_DeleteNode_def DeleteNode_def)
  next
    case False
    let ?r2 = "run_cmd R (CmdSRem (pubsubNodesKey h) n) r1"
    have r2: "holds view ?E2 ?r2"
      using holds_run holds_SRem [OF serves r1(2), of "KNodes h" "dom (inner (pubsubNodes s) h)" n] by fastforce
    obtain r3 "is" where r3: "R (CmdSMembers (pubsubItemsKey h n)) ?r2 = (Inr (ReNames is), r3)"
      "set is = dom (get3 (pubsubItems s) h n)" "holds view ?E2 r3"
      using holds_SMembers [OF serves r2, of "KItems h n" "dom (get3 (pubsubItems s) h n)"] h by auto
    obtain r4 js where r4: "R (CmdHKeys (pubsubSubsKey h n)) r3 = (Inr (ReNames js), r4)"
      "enumerates js (get3 (pubsubSubscriptions s) h n)" "holds view ?E2 r4"
      using holds_HKeys [OF serves r3(3), of "KSubs h n" DSub "get3 (pubsubSubscriptions s) h n"] h by auto
    have js: "distinct js" "set js = dom (get3 (pubsubSubscriptions s) h n)"
      using r4(2) by (simp_all add: enumerates_def)
    have "returns view (pipe_Exec R (map (\<lambda>k. CmdDel (key_text k)) (map (KItem h n) is) @ [CmdDel (key_text (KItems h n))] @
        map (\<lambda>j. CmdSRem (pubsubUserSubsKey h j) n) js @ [CmdDel (key_text (KSubs h n))])) r4 None
        (stored us (fst (DeleteNode (h, n) s)))"
      unfolding stored_DeleteNode [OF False r3(2) js(2), symmetric]
      apply (rule returns_pipe_append [OF returns_Dels [OF serves r4(3)]])
      subgoal using h by simp
      apply (rule returns_pipe_append [OF returns_pipe_Del [OF serves]], assumption)
      subgoal using h by simp
      apply (rule returns_pipe_append [OF returns_SRems [OF serves h(1),
            where A = "\<lambda>j. {n. get3 (pubsubSubscriptions s) h n j \<noteq> None}"]], assumption, rule js(1))
      subgoal by auto
      apply (rule returns_pipe_Del [OF serves], assumption)
      subgoal using h by simp
      done
    then show ?thesis
      using False r1 r3(1) r4(1)
      by (auto simp: returns_defs redis_DeleteNode_def DeleteNode_def Let_def names_or_none_def as_names_def comp_def)
  qed
qed

lemma redis_pubsub_writes:
  assumes serves: "redis_serves R view" and st: "stores_with view us r s" and ok: "redis_plain (PubSubStore c)"
    and c: "c \<in> {CallCreateNode m, CallDeleteNode k, CallUpsertItem now i, CallDeleteItem q, CallSubscribe b, CallUnsubscribe q}"
  shows "redis_matches view (PubSubStore c) s (redis_pubsub R c r)"
proof -
  have us: "same_accounts us s" "blocked_true s" using st by (simp_all add: stores_with_def)
  have keep: "same_accounts us (fst (CreateNode m s))" "blocked_true (fst (CreateNode m s))"
    "same_accounts us (fst (DeleteNode k s))" "blocked_true (fst (DeleteNode k s))"
    "same_accounts us (fst (DeleteItem q s))" "blocked_true (fst (DeleteItem q s))"
    "same_accounts us (fst (Unsubscribe q s))" "blocked_true (fst (Unsubscribe q s))" for m k q
    using us by (auto simp: CreateNode_def DeleteNode_def DeleteItem_def Unsubscribe_def Let_def split: option.splits)
  have plain: "writes w s = (fst (w s), Done (snd (w s)))" for w :: "MemStore writer"
    by (simp add: writes_def split_beta)
  from c consider "c = CallCreateNode m" | "c = CallDeleteNode k" | "c = CallUpsertItem now i" | "c = CallDeleteItem q"
    | "c = CallSubscribe b" | "c = CallUnsubscribe q" by blast
  then show ?thesis
  proof cases
    case 1
    then show ?thesis
      using write_matches [OF redis_CreateNode_step [OF serves st, of m] keep(1,2), of "PubSubStore c" s] ok by (simp add: plain)
  next
    case 2
    then show ?thesis
      using write_matches [OF redis_DeleteNode_step [OF serves st, of "fst k" "snd k"], of "PubSubStore c" s] keep(3,4) ok
      by (simp add: plain)
  next
    case 3
    then show ?thesis
      using write_matches [OF redis_UpsertItem_step [OF serves st, of i now], of "PubSubStore c" s] us ok
      by (simp add: plain UpsertItem_def)
  next
    case 4
    then show ?thesis
      using write_matches [OF redis_DeleteItem_step [OF serves st, of "fst q" "fst (snd q)" "snd (snd q)"], of "PubSubStore c" s]
        keep(5,6) ok by (simp add: plain)
  next
    case 5
    then show ?thesis
      using write_matches [OF redis_Subscribe_step [OF serves st, of b], of "PubSubStore c" s] us ok
      by (simp add: plain Subscribe_def)
  next
    case 6
    then show ?thesis
      using write_matches [OF redis_Unsubscribe_step [OF serves st, of "fst q" "fst (snd q)" "snd (snd q)"], of "PubSubStore c" s]
        keep(7,8) Unsubscribe_effect(2) [of q s] ok by (simp add: plain)
  qed
qed

lemma redis_pubsub_step:
  assumes serves: "redis_serves R view" and st: "stores_with view us r s" and ok: "redis_plain (PubSubStore c)"
  shows "redis_matches view (PubSubStore c) s (redis_pubsub R c r)"
proof -
  note h = stores_withD [OF st]
  note writing = redis_pubsub_writes [OF serves st ok]
  show ?thesis
  proof (cases c)
    case (CallGetNode q)
    have "returns view (redis_GetNode R q) r (GetNode s q) (stored us s)"
      using holds_Get [OF serves h, of "KNode (fst q) (snd q)" DNode "get2 (pubsubNodes s) (fst q) (snd q)" un_node] ok
      by (auto simp: CallGetNode returns_def redis_GetNode_def GetNode_def lookup_result_def)
    from get_matches [OF st this, of "[]" "PubSubStore c" ReplyNode] show ?thesis
      by (simp add: CallGetNode reads_def)
  next
    case (CallListNodes g)
    have get: "returns view (redis_GetNode R (g, n)) r' (lookup_result (inner (pubsubNodes s) g n)) (stored us s)"
      if "holds view (stored us s) r'" for n r'
      using holds_Get [OF serves that, of "KNode g n" DNode "get2 (pubsubNodes s) g n" un_node] ok
      by (auto simp: CallListNodes returns_def redis_GetNode_def inner_get2)
    obtain ns where "returns view (redis_ListNodes R g) r (Inr (ListNodes ns s g)) (stored us s)" "enumerates ns (inner (pubsubNodes s) g)"
      using holds_read_set [OF serves h, of "KNodes g" "dom (inner (pubsubNodes s) g)" "\<lambda>n. redis_GetNode R (g, n)"
        "inner (pubsubNodes s) g"] get by (auto simp: redis_ListNodes_def ListNodes_def enumerates_def)
    with get_matches [OF st this(1), of ns "PubSubStore c" ReplyNodes] show ?thesis
      by (simp add: CallListNodes reads_def)
  next
    case (CallGetItem q)
    have "returns view (redis_GetItem R q) r (GetItem s q) (stored us s)"
      using holds_Get [OF serves h, of "KItem (fst q) (fst (snd q)) (snd (snd q))" DItem
        "get3 (pubsubItems s) (fst q) (fst (snd q)) (snd (snd q))" un_item] ok
      by (auto simp: CallGetItem returns_def redis_GetItem_def GetItem_def lookup_result_def)
    from get_matches [OF st this, of "[]" "PubSubStore c" ReplyPubItem] show ?thesis
      by (simp add: CallGetItem reads_def)
  next
    case (CallGetSubscription q)
    have "returns view (redis_GetSubscription R q) r (GetSubscription s q) (stored us s)"
      using holds_HGet [OF serves h, of "KSubs (fst q) (fst (snd q))" DSub
        "get3 (pubsubSubscriptions s) (fst q) (fst (snd q))" un_sub "snd (snd q)"] ok
      by (auto simp: CallGetSubscription returns_def redis_GetSubscription_def GetSubscription_def lookup_result_def)
    from get_matches [OF st this, of "[]" "PubSubStore c" ReplySub] show ?thesis
      by (simp add: CallGetSubscription reads_def)
  next
    case (CallGetSubscriptions q)
    obtain ks where "returns view (redis_GetSubscriptions R q) r (Inr (GetSubscriptions ks s (fst q) (snd q))) (stored us s)"
      "enumerates ks (get3 (pubsubSubscriptions s) (fst q) (snd q))"
      using holds_HGetAll [OF serves h, of "KSubs (fst q) (snd q)" DSub "get3 (pubsubSubscriptions s) (fst q) (snd q)" un_sub] ok
      by (auto simp: CallGetSubscriptions returns_def redis_GetSubscriptions_def GetSubscriptions_def get3_fun)
    with get_matches [OF st this(1), of ks "PubSubStore c" ReplySubs] show ?thesis
      by (simp add: CallGetSubscriptions reads_def get3_fun)
  next
    case (CallGetUserSubscriptions g j)
    let ?T = "\<lambda>n. get3 (pubsubSubscriptions s) g n j"
    have get: "returns view (redis_GetSubscription R (g, n, j)) r' (lookup_result (?T n)) (stored us s)"
      if "holds view (stored us s) r'" for n r'
      using holds_HGet [OF serves that, of "KSubs g n" DSub "get3 (pubsubSubscriptions s) g n" un_sub j] ok
      by (auto simp: CallGetUserSubscriptions returns_def redis_GetSubscription_def)
    obtain ns where "returns view (redis_GetUserSubscriptions R g j) r (Inr (GetUserSubscriptions ns s g j)) (stored us s)"
      "distinct ns" "set ns = {n. ?T n \<noteq> None}"
      using holds_read_set [OF serves h, of "KUserSubs g j" "{n. ?T n \<noteq> None}" "\<lambda>n. redis_GetSubscription R (g, n, j)" ?T] get ok
      by (auto simp: CallGetUserSubscriptions redis_GetUserSubscriptions_def GetUserSubscriptions_def)
    with get_matches [OF st this(1), of ns "PubSubStore c" ReplySubs] show ?thesis
      by (simp add: CallGetUserSubscriptions reads_def)
  qed (use ok writing in auto)
qed

lemma redis_step:
  assumes "redis_serves R view" "redis_stores view r s" "redis_plain c"
  shows "redis_matches view c s (redis_call R c r)"
proof -
  from assms(2) obtain us where st: "stores_with view us r s" by (auto simp: redis_stores_def)
  show ?thesis
    by (cases c) (use assms(1,3) st in \<open>auto simp: redis_user_step redis_roster_step redis_blocking_step redis_vcard_step
        redis_offline_step redis_muc_step redis_pubsub_step redis_bookmark_step\<close>)
qed

section \<open>Every run is a run of the in-memory store\<close>

lemma redis_stores_empty: "view r = Map.empty \<Longrightarrow> redis_stores view r NewStore"
proof -
  assume v: "view r = Map.empty"
  have "stored Map.empty NewStore k = None" for k
    by (cases k) (auto simp: NewStore_def empty_tables get3_def table_or_def hash_of_def no_val list_val_def get2_def fun_eq_iff)
  then have "stores_with view Map.empty r NewStore"
    using v by (auto simp: stores_with_def holds_def showing_def keyed_def wf_db_def same_accounts_def NewStore_def blocked_true_def inner_def)
  then show ?thesis by (auto simp: redis_stores_def)
qed

lemma redis_simulation:
  assumes "redis_serves R view"
  shows "store_simulation (\<lambda>_ _ _. True) (\<lambda>_. redis_call R) mem_order mem_call redis_plain (redis_stores view)"
proof
  fix r s c ks r' rep
  assume "redis_stores view r s" "redis_plain c" "redis_call R c r = (r', rep)"
  with redis_step [OF assms this(1,2)]
  show "\<exists>ks' t'. mem_order ks' c s \<and> mem_call ks' c s = (t', rep) \<and> redis_stores view r' t'"
    by (auto simp: redis_matches_def)
qed

end
