(* ===== verification/StorageRuns.thy ===== *)
theory StorageRuns
  imports StorageRefinement
begin

text \<open>
  Runs of a store that leaves nothing open, as the replies to a list of calls, and the messages on which the
  archives of the stores are compared.
\<close>

fun replies :: "(storage_call \<Rightarrow> 'r \<Rightarrow> 'r \<times> storage_reply) \<Rightarrow> storage_call list \<Rightarrow> 'r \<Rightarrow> 'r \<times> storage_reply list" where
  "replies call [] r = (r, [])"
| "replies call (c # cs) r = (case call c r of (r1, x) \<Rightarrow> (case replies call cs r1 of (r2, xs) \<Rightarrow> (r2, x # xs)))"

lemma replies_runs:
  "replies call cs r = (r', xs) \<Longrightarrow> runs (\<lambda>_ _ _. True) (\<lambda>_. call) r (zip cs xs) r'"
proof (induction cs arbitrary: r xs)
  case (Cons c cs)
  obtain r1 x where "call c r = (r1, x)" by (cases "call c r")
  with Cons show ?case
    using runs_Cons [where order = "\<lambda>_ _ _. True" and call = "\<lambda>_. call" and c = c and s = r and s' = r1 and r = x]
    by (auto split: prod.splits)
qed (auto intro: runs_Nil)

definition archived :: "string \<Rightarrow> gotime \<Rightarrow> bytes \<Rightarrow> ArchivedMessage" where
  "archived i t d =
     \<lparr>am_ID = i, am_UserJID = ''u'', am_WithJID = ''w'', am_FromJID = ''w'', am_Data = d, am_CreatedAt = t\<rparr>"

definition whole_archive :: MAMQuery where
  "whole_archive =
     \<lparr>q_UserJID = ''u'', q_WithJID = [], q_Start = 0, q_End = 0, q_AfterID = [], q_BeforeID = [], q_Max = 0\<rparr>"

end
