(* ===== verification/StorageRedisProps.thy ===== *)
theory StorageRedisProps
  imports StorageRedisRefinement StorageRuns
begin

text \<open>
  What the Redis store promises: that it behaves like the in-memory store on the calls \<open>redis_plain\<close>, for
  every server that answers as documented; a server written out, for which the promise is not empty; and
  what the two stores do differently on the other calls.
\<close>

section \<open>A server\<close>

text \<open>Hashes and sorted sets as association lists, sets as lists.\<close>

datatype cell = CStr doc | CHash "(string \<times> doc) list" | CSet "string list" | CList "doc list" | CZset "(string \<times> int) list"

type_synonym cells = "string \<rightharpoonup> cell"

fun cell_val :: "cell \<Rightarrow> rval" where
  "cell_val (CStr d) = VStr d"
| "cell_val (CHash fs) = VHash (map_of fs)"
| "cell_val (CSet xs) = VSet (set xs)"
| "cell_val (CList ds) = VList ds"
| "cell_val (CZset zs) = VZset (map_of zs)"

definition cells_db :: "cells \<Rightarrow> db" where
  "cells_db m k = map_option cell_val (m k)"

definition hash_at :: "cells \<Rightarrow> string \<Rightarrow> (string \<times> doc) list option" where
  "hash_at m k = (case m k of None \<Rightarrow> Some [] | Some (CHash fs) \<Rightarrow> Some fs | _ \<Rightarrow> None)"
definition set_at :: "cells \<Rightarrow> string \<Rightarrow> string list option" where
  "set_at m k = (case m k of None \<Rightarrow> Some [] | Some (CSet xs) \<Rightarrow> Some xs | _ \<Rightarrow> None)"
definition list_at :: "cells \<Rightarrow> string \<Rightarrow> doc list option" where
  "list_at m k = (case m k of None \<Rightarrow> Some [] | Some (CList ds) \<Rightarrow> Some ds | _ \<Rightarrow> None)"
definition zset_at :: "cells \<Rightarrow> string \<Rightarrow> (string \<times> int) list option" where
  "zset_at m k = (case m k of None \<Rightarrow> Some [] | Some (CZset zs) \<Rightarrow> Some zs | _ \<Rightarrow> None)"

definition str_at :: "cells \<Rightarrow> string \<Rightarrow> doc option option" where
  "str_at m k = (case m k of None \<Rightarrow> Some None | Some (CStr d) \<Rightarrow> Some (Some d) | _ \<Rightarrow> None)"

definition hash_cell :: "(string \<times> doc) list \<Rightarrow> cell option" where
  "hash_cell fs = (if fs = [] then None else Some (CHash fs))"

definition set_cell :: "string list \<Rightarrow> cell option" where
  "set_cell xs = (if xs = [] then None else Some (CSet xs))"

definition fields_of :: "(string \<times> doc) list \<Rightarrow> (string \<times> doc) list" where
  "fields_of fs = map (\<lambda>k. (k, the (map_of fs k))) (remdups (map fst fs))"

fun zset_insert :: "(string \<rightharpoonup> int) \<Rightarrow> string \<Rightarrow> string list \<Rightarrow> string list" where
  "zset_insert z x [] = [x]"
| "zset_insert z x (y # ys) = (if zset_le z x y then x # y # ys else y # zset_insert z x ys)"

definition zset_sort :: "(string \<times> int) list \<Rightarrow> string list" where
  "zset_sort zs = foldr (zset_insert (map_of zs)) (remdups (map fst zs)) []"

definition cell_answers :: "'c option \<Rightarrow> ('c \<Rightarrow> reply \<times> cells) \<Rightarrow> cells \<Rightarrow> (string + reply) \<times> cells" where
  "cell_answers c f m = (case c of None \<Rightarrow> (Inl ''WRONGTYPE'', m) | Some x \<Rightarrow> (Inr (fst (f x)), snd (f x)))"

fun redis_server :: "cells redis" where
  "redis_server CmdPing m = (Inr ReOk, m)"
| "redis_server (CmdSetNX k d) m = (Inr (ReBool (m k = None)), if m k = None then m(k \<mapsto> CStr d) else m)"
| "redis_server (CmdGet k) m = cell_answers (str_at m k) (\<lambda>x. (ReDoc x, m)) m"
| "redis_server (CmdSet k d) m = (Inr ReOk, m(k \<mapsto> CStr d))"
| "redis_server (CmdExists k) m = (Inr (ReInt (if m k = None then 0 else 1)), m)"
| "redis_server (CmdDel k) m = (Inr (ReInt (if m k = None then 0 else 1)), m(k := None))"
| "redis_server (CmdHSet k f d) m =
     cell_answers (hash_at m k) (\<lambda>fs. (ReInt (if map_of fs f = None then 1 else 0), m(k \<mapsto> CHash ((f, d) # fs)))) m"
| "redis_server (CmdHGet k f) m = cell_answers (hash_at m k) (\<lambda>fs. (ReDoc (map_of fs f), m)) m"
| "redis_server (CmdHGetAll k) m = cell_answers (hash_at m k) (\<lambda>fs. (ReFields (fields_of fs), m)) m"
| "redis_server (CmdHDel k f) m =
     cell_answers (hash_at m k)
       (\<lambda>fs. (ReInt (if map_of fs f = None then 0 else 1),
              m(k := hash_cell (filter (\<lambda>g. fst g \<noteq> f) fs)))) m"
| "redis_server (CmdHKeys k) m = cell_answers (hash_at m k) (\<lambda>fs. (ReNames (remdups (map fst fs)), m)) m"
| "redis_server (CmdSAdd k x) m =
     cell_answers (set_at m k) (\<lambda>xs. (ReInt (if x \<in> set xs then 0 else 1), m(k \<mapsto> CSet (x # xs)))) m"
| "redis_server (CmdSRem k x) m =
     cell_answers (set_at m k)
       (\<lambda>xs. (ReInt (if x \<in> set xs then 1 else 0),
              m(k := set_cell (filter (\<lambda>y. y \<noteq> x) xs)))) m"
| "redis_server (CmdSIsMember k x) m = cell_answers (set_at m k) (\<lambda>xs. (ReBool (x \<in> set xs), m)) m"
| "redis_server (CmdSMembers k) m = cell_answers (set_at m k) (\<lambda>xs. (ReNames (remdups xs), m)) m"
| "redis_server (CmdRPush k d) m = cell_answers (list_at m k) (\<lambda>ds. (ReInt (length ds + 1), m(k \<mapsto> CList (ds @ [d])))) m"
| "redis_server (CmdLRange k) m = cell_answers (list_at m k) (\<lambda>ds. (ReDocs ds, m)) m"
| "redis_server (CmdLLen k) m = cell_answers (list_at m k) (\<lambda>ds. (ReInt (length ds), m)) m"
| "redis_server (CmdZAdd k sc x) m =
     cell_answers (zset_at m k) (\<lambda>zs. (ReInt (if map_of zs x = None then 1 else 0), m(k \<mapsto> CZset ((x, sc) # zs)))) m"
| "redis_server (CmdZRangeByScore k) m = cell_answers (zset_at m k) (\<lambda>zs. (ReNames (zset_sort zs), m)) m"
| "redis_server (CmdZRange k) m = cell_answers (zset_at m k) (\<lambda>zs. (ReNames (zset_sort zs), m)) m"

subsection \<open>It answers as documented\<close>

text \<open>What the cell under a key says about the value under it.\<close>

lemma at_Some:
  assumes "wf_db (cells_db m)"
  shows "hash_at m k = Some fs \<Longrightarrow> cells_db m k = hash_val (map_of fs)"
    and "set_at m k = Some xs \<Longrightarrow> cells_db m k = set_val (set xs)"
    and "list_at m k = Some ds \<Longrightarrow> cells_db m k = list_val ds"
    and "zset_at m k = Some zs \<Longrightarrow> cells_db m k = zset_val (map_of zs)"
    and "str_at m k = Some x \<Longrightarrow> cells_db m k = map_option VStr x"
proof -
  have wf: "wf_val (cell_val c)" if "m k = Some c" for c
    using assms that by (auto simp: wf_db_def cells_db_def)
  show "hash_at m k = Some fs \<Longrightarrow> cells_db m k = hash_val (map_of fs)"
    using wf by (auto simp: hash_at_def cells_db_def hash_val_def split: option.splits cell.splits)
  show "set_at m k = Some xs \<Longrightarrow> cells_db m k = set_val (set xs)"
    using wf by (auto simp: set_at_def cells_db_def set_val_def split: option.splits cell.splits)
  show "list_at m k = Some ds \<Longrightarrow> cells_db m k = list_val ds"
    using wf by (auto simp: list_at_def cells_db_def list_val_def split: option.splits cell.splits)
  show "zset_at m k = Some zs \<Longrightarrow> cells_db m k = zset_val (map_of zs)"
    using wf by (auto simp: zset_at_def cells_db_def zset_val_def split: option.splits cell.splits)
  show "str_at m k = Some x \<Longrightarrow> cells_db m k = map_option VStr x"
    by (auto simp: str_at_def cells_db_def split: option.splits cell.splits)
qed

lemma at_None:
  "hash_at m k = None \<Longrightarrow> cells_db m k \<noteq> hash_val h" "set_at m k = None \<Longrightarrow> cells_db m k \<noteq> set_val a"
  "list_at m k = None \<Longrightarrow> cells_db m k \<noteq> list_val ds" "zset_at m k = None \<Longrightarrow> cells_db m k \<noteq> zset_val z"
  "str_at m k = None \<Longrightarrow> cells_db m k \<noteq> map_option VStr x"
  by (auto simp: hash_at_def set_at_def list_at_def zset_at_def str_at_def cells_db_def hash_val_def set_val_def list_val_def
      zset_val_def split: option.splits cell.splits if_splits) (cases x; simp)+

lemma cells_upd: "cells_db (m(k := x)) = (cells_db m)(k := map_option cell_val x)"
  by (auto simp: cells_db_def fun_eq_iff)

lemma cell_vals: "map_option cell_val (hash_cell fs) = hash_val (map_of fs)" "map_option cell_val (set_cell xs) = set_val (set xs)"
  by (simp_all add: hash_cell_def set_cell_def hash_val_def set_val_def)

lemma val_Some: "hash_val (m(f \<mapsto> d)) = Some (VHash (m(f \<mapsto> d)))" "set_val (insert x a) = Some (VSet (insert x a))"
  by (simp_all add: hash_val_def set_val_def)

lemma bytes_le_total: "bytes_le s t \<or> bytes_le t s"
proof (induction s t rule: bytes_le.induct)
  case (3 a s b t)
  consider "of_char a < (of_char b :: nat)" | "of_char b < (of_char a :: nat)" | "a = b"
    by (metis linorder_neqE_nat of_char_eq_iff)
  then show ?case using 3 by cases auto
qed auto

lemma bytes_le_trans: "bytes_le s t \<Longrightarrow> bytes_le t u \<Longrightarrow> bytes_le s u"
proof (induction s t arbitrary: u rule: bytes_le.induct)
  case (3 a s b t)
  then show ?case by (cases u) auto
qed auto

lemma zset_le_total: "z x \<noteq> None \<Longrightarrow> z y \<noteq> None \<Longrightarrow> \<not> zset_le z x y \<Longrightarrow> zset_le z y x"
  using bytes_le_total [of x y] by (auto simp: zset_le_def)

lemma zset_le_trans: "zset_le z x y \<Longrightarrow> zset_le z y w \<Longrightarrow> zset_le z x w"
  using bytes_le_trans [of x y w] by (auto simp: zset_le_def)

lemma set_zset_insert: "set (zset_insert z x ys) = insert x (set ys)"
  by (induction ys) auto

lemma zset_insert_sorted:
  assumes "sorted_wrt (zset_le z) ys" "distinct ys" "x \<notin> set ys" "\<forall>y \<in> insert x (set ys). z y \<noteq> None"
  shows "sorted_wrt (zset_le z) (zset_insert z x ys) \<and> distinct (zset_insert z x ys)"
  using assms
proof (induction ys)
  case (Cons y ys)
  then show ?case
    using zset_le_trans [of z x y] zset_le_total [of z x y] by (auto simp: set_zset_insert)
qed simp

lemma zset_sort_sorted: "sorted_wrt (zset_le (map_of zs)) (zset_sort zs) \<and> enumerates (zset_sort zs) (map_of zs)"
proof -
  let ?z = "map_of zs"
  have "sorted_wrt (zset_le ?z) (foldr (zset_insert ?z) xs []) \<and> distinct (foldr (zset_insert ?z) xs []) \<and>
      set (foldr (zset_insert ?z) xs []) = set xs"
    if "distinct xs" "set xs \<subseteq> dom ?z" for xs
    using that
  proof (induction xs)
    case (Cons x xs)
    with zset_insert_sorted [of ?z "foldr (zset_insert ?z) xs []" x] show ?case
      by (auto simp: set_zset_insert)
  qed simp
  from this [of "remdups (map fst zs)"] show ?thesis
    by (auto simp: zset_sort_def enumerates_def dom_map_of_conv_image_fst)
qed

lemma fields_of_map: "distinct (map fst (fields_of fs))" "map_of (fields_of fs) = map_of fs"
proof -
  show "distinct (map fst (fields_of fs))" by (simp add: fields_of_def comp_def)
  show "map_of (fields_of fs) = map_of fs"
    by (rule ext) (auto simp: fields_of_def map_of_map_restrict restrict_map_def map_of_eq_None_iff eq_commute [of None])
qed

lemma map_of_removed: "map_of (filter (\<lambda>g. fst g \<noteq> f) fs) = (map_of fs)(f := None)"
  by (induction fs) (auto simp: fun_eq_iff)

text \<open>A command that is answered, and one that is refused.\<close>

definition served :: "command \<Rightarrow> cells \<Rightarrow> bool" where
  "served c m \<longleftrightarrow>
     (if \<exists>x v'. answer c (cells_db m) x v'
      then \<exists>x m'. redis_server c m = (Inr x, m') \<and> answer c (cells_db m) x (cells_db m')
      else \<exists>e m'. redis_server c m = (Inl e, m') \<and> cells_db m' = cells_db m)"

lemma served_answer:
  assumes "case redis_server c m of (Inl e, m') \<Rightarrow> False | (Inr x, m') \<Rightarrow> answer c (cells_db m) x (cells_db m')"
  shows "served c m"
  using assms unfolding served_def by (auto split: prod.splits sum.splits)

lemma served_refused: "redis_server c m = (Inl e, m) \<Longrightarrow> \<nexists>x v'. answer c (cells_db m) x v' \<Longrightarrow> served c m"
  unfolding served_def by metis

lemma served_plain:
  "served CmdPing m" "served (CmdSetNX k d) m" "served (CmdSet k d) m" "served (CmdExists k) m" "served (CmdDel k) m"
proof -
  have none: "cells_db m k = None \<longleftrightarrow> m k = None" by (simp add: cells_db_def)
  show "served CmdPing m" by (rule served_answer) (auto intro: answer.intros)
  show "served (CmdSetNX k d) m"
    using answer.intros(2) [of k d "cells_db m"] by (intro served_answer) (auto simp: none cells_upd)
  show "served (CmdSet k d) m"
    using answer.intros(4) [of k d "cells_db m"] by (intro served_answer) (auto simp: cells_upd)
  show "served (CmdExists k) m"
    using answer.intros(5) [of k "cells_db m"] by (intro served_answer) (auto simp: none)
  show "served (CmdDel k) m"
    using answer.intros(6) [of k "cells_db m"] by (intro served_answer) (auto simp: none cells_upd)
qed

lemma served_hash:
  assumes "wf_db (cells_db m)"
  shows "served (CmdHSet k f d) m" "served (CmdHGet k f) m" "served (CmdHGetAll k) m" "served (CmdHDel k f) m" "served (CmdHKeys k) m"
proof -
  have "served c m" if c: "c \<in> {CmdHSet k f d, CmdHGet k f, CmdHGetAll k, CmdHDel k f, CmdHKeys k}" for c
  proof (cases "hash_at m k")
    case None
    then show ?thesis
      using at_None(1) [OF None] c by (intro served_refused) (auto simp: cell_answers_def elim!: answerE)
  next
    case (Some fs)
    note i = answer.intros(7-11) [where v = "cells_db m" and k = k and m = "map_of fs", OF at_Some(1) [OF assms Some]]
    from c show ?thesis
      using i(1) [of f d] i(2) [of f] i(3) [of "fields_of fs"] i(4) [of f] i(5) [of "remdups (map fst fs)"] Some fields_of_map [of fs]
      by (auto simp: cell_answers_def cells_upd map_of_removed cell_vals val_Some enumerates_def dom_map_of_conv_image_fst
          intro!: served_answer)
  qed
  then show "served (CmdHSet k f d) m" "served (CmdHGet k f) m" "served (CmdHGetAll k) m" "served (CmdHDel k f) m" "served (CmdHKeys k) m"
    by blast+
qed

lemma served_set:
  assumes "wf_db (cells_db m)"
  shows "served (CmdSAdd k x) m" "served (CmdSRem k x) m" "served (CmdSIsMember k x) m" "served (CmdSMembers k) m"
proof -
  have "served c m" if c: "c \<in> {CmdSAdd k x, CmdSRem k x, CmdSIsMember k x, CmdSMembers k}" for c
  proof (cases "set_at m k")
    case None
    then show ?thesis
      using at_None(2) [OF None] c by (intro served_refused) (auto simp: cell_answers_def elim!: answerE)
  next
    case (Some xs)
    note i = answer.intros(12-15) [where v = "cells_db m" and k = k and a = "set xs", OF at_Some(2) [OF assms Some]]
    have "set xs - {x} = {y \<in> set xs. y \<noteq> x}" by auto
    with c show ?thesis
      using i(1) [of x] i(2) [of x] i(3) [of x] i(4) [of "remdups xs"] Some
      by (auto simp: cell_answers_def cells_upd cell_vals val_Some intro!: served_answer)
  qed
  then show "served (CmdSAdd k x) m" "served (CmdSRem k x) m" "served (CmdSIsMember k x) m" "served (CmdSMembers k) m" by blast+
qed

lemma served_list:
  assumes "wf_db (cells_db m)"
  shows "served (CmdRPush k d) m" "served (CmdLRange k) m" "served (CmdLLen k) m"
proof -
  have "served c m" if c: "c \<in> {CmdRPush k d, CmdLRange k, CmdLLen k}" for c
  proof (cases "list_at m k")
    case None
    then show ?thesis
      using at_None(3) [OF None] c by (intro served_refused) (auto simp: cell_answers_def elim!: answerE)
  next
    case (Some ds)
    note i = answer.intros(16-18) [where v = "cells_db m" and k = k and ds = ds, OF at_Some(3) [OF assms Some]]
    from c show ?thesis
      using i(1) [of d] i(2,3) Some by (auto simp: cell_answers_def cells_upd list_val_def intro!: served_answer)
  qed
  then show "served (CmdRPush k d) m" "served (CmdLRange k) m" "served (CmdLLen k) m" by blast+
qed

lemma served_zset:
  assumes "wf_db (cells_db m)"
  shows "served (CmdZAdd k sc x) m" "served (CmdZRangeByScore k) m" "served (CmdZRange k) m"
proof -
  have "served c m" if c: "c \<in> {CmdZAdd k sc x, CmdZRangeByScore k, CmdZRange k}" for c
  proof (cases "zset_at m k")
    case None
    then show ?thesis
      using at_None(4) [OF None] c by (intro served_refused) (auto simp: cell_answers_def elim!: answerE)
  next
    case (Some zs)
    note i = answer.intros(19-21) [where v = "cells_db m" and k = k and z = "map_of zs", OF at_Some(4) [OF assms Some]]
    from c show ?thesis
      using i(1) [of sc x] i(2,3) [of "zset_sort zs"] zset_sort_sorted [of zs] Some
      by (auto simp: cell_answers_def cells_upd zset_val_def intro!: served_answer)
  qed
  then show "served (CmdZAdd k sc x) m" "served (CmdZRangeByScore k) m" "served (CmdZRange k) m" by blast+
qed

lemma served_Get:
  assumes "wf_db (cells_db m)"
  shows "served (CmdGet k) m"
proof (cases "str_at m k")
  case None
  then show ?thesis
    using at_None(5) [OF None] by (intro served_refused) (auto simp: cell_answers_def elim!: answerE)
next
  case (Some x)
  then show ?thesis
    using answer.intros(3) [where v = "cells_db m" and k = k, OF at_Some(5) [OF assms Some]]
    by (intro served_answer) (auto simp: cell_answers_def)
qed

lemma redis_server_serves: "redis_serves redis_server cells_db"
proof -
  have "served c m" if "wf_db (cells_db m)" for c m
    by (cases c) (use that in \<open>auto simp: served_plain served_hash served_set served_list served_zset served_Get\<close>)
  then show ?thesis unfolding redis_serves_def served_def by blast
qed

section \<open>The store behaves like the in-memory store\<close>

text \<open>
  C15: the Redis store refines the in-memory store.  Let a server answer as Redis documents its commands and
  start with an empty database.  Whatever is called on the Redis store, of the calls \<open>redis_plain\<close> (every
  method of every interface except \<open>GetUser\<close>, the message archive and \<open>GetItems\<close>; offline messages that carry
  their time; host and node names without \<open>:\<close> where keys are made from several names), the in-memory store can
  give the same replies to the same calls in the same order.
\<close>

theorem redis_store_refines_memory:
  assumes "redis_serves R view" and "view r = Map.empty"
    and "runs (\<lambda>_ _ _. True) (\<lambda>_. redis_call R) r tr r'" and "\<forall>(c, rep) \<in> set tr. redis_plain c"
  shows "\<exists>s. runs mem_order mem_call NewStore tr s"
  using store_simulation.simulation [OF redis_simulation [OF assms(1)] assms(3) redis_stores_empty [of view, OF assms(2)] assms(4)]
  by blast

definition redis_demo_run :: "(storage_call \<times> storage_reply) list" where
  "redis_demo_run =
     [(UserStore (CallCreateUser 5 demo_user), Done None),
      (UserStore (CallAuthenticate ''ann'' ''pw''), ReplyAuth (True, None)),
      (PubSubStore (CallCreateNode demo_node), Done None),
      (PubSubStore (CallCreateNode demo_node), Done (Some ErrUserExists)),
      (PubSubStore (CallListNodes ''h''), ReplyNodes (Inr [demo_node])),
      (PubSubStore (CallDeleteNode (''h'', ''n'')), Done None),
      (PubSubStore (CallListNodes ''h''), ReplyNodes (Inr []))]"

lemmas redis_eval = cell_answers_def hash_at_def set_at_def list_at_def zset_at_def str_at_def hash_cell_def set_cell_def fields_of_def
  Let_def writes_def reads_with_def do_cmd_def delete_one_def create_one_def read_one_def read_values_def read_set_def run_cmd_def
  names_or_none_def as_defs key_defs mamKey_def mamMsgKey_def un_user_def un_node_def un_msg_def
  redis_CreateUser_def redis_GetUser_def redis_Authenticate_def redis_CreateNode_def redis_GetNode_def redis_ListNodes_def
  redis_DeleteNode_def

lemma redis_demo_replies:
  "snd (replies (redis_call redis_server) (map fst redis_demo_run) Map.empty) = map snd redis_demo_run"
  by (simp add: redis_demo_run_def redis_eval demo_user_def demo_node_def)

theorem redis_store_refines_memory_witness: "\<exists>s. runs mem_order mem_call NewStore redis_demo_run s"
proof -
  obtain r' where "runs (\<lambda>_ _ _. True) (\<lambda>_. redis_call redis_server) Map.empty redis_demo_run r'"
    using replies_runs [of "redis_call redis_server" "map fst redis_demo_run" Map.empty] redis_demo_replies
    by (metis prod.collapse zip_map_fst_snd)
  moreover have "cells_db Map.empty = Map.empty" by (simp add: cells_db_def fun_eq_iff)
  moreover have "\<forall>(c, rep) \<in> set redis_demo_run. redis_plain c"
    by (simp add: redis_demo_run_def demo_node_def no_colon_def)
  ultimately show ?thesis
    using redis_store_refines_memory [OF redis_server_serves] by blast
qed

section \<open>What the stores do differently\<close>

text \<open>
  An account is stored as it was given: the in-memory store sets both times, this one keeps the zero time
  until the first update.
\<close>

lemma redis_account_times:
  "snd (replies (redis_call redis_server)
     [UserStore (CallCreateUser 5 demo_user), UserStore (CallGetUser ''ann'')] Map.empty) =
     [Done None, ReplyUser (Inr demo_user)]"
  "snd (replies (mem_call [])
     [UserStore (CallCreateUser 5 demo_user), UserStore (CallGetUser ''ann'')] NewStore) =
     [Done None, ReplyUser (Inr (demo_user\<lparr>u_CreatedAt := 5, u_UpdatedAt := 5\<rparr>))]"
  by (simp_all add: redis_eval demo_user_def NewStore_def CreateUser_def GetUser_def reads_def)

text \<open>
  Messages archived without an identifier get none, and all of them share one key: of any number of them
  the last is the archive.
\<close>

text \<open>What a query returns after messages were archived: identifiers and data, in order.\<close>

fun redis_archive :: "cells \<Rightarrow> ArchivedMessage list \<Rightarrow> (string \<times> bytes) list" where
  "redis_archive r [] =
     (case snd (redis_QueryMessages redis_server whole_archive r) of
        Inl e \<Rightarrow> [] | Inr res \<Rightarrow> map (\<lambda>m. (am_ID m, am_Data m)) (mr_Messages res))"
| "redis_archive r (m # ms) = redis_archive (fst (redis_ArchiveMessage redis_server 1 m r)) ms"

lemma floorlog_61: "2 ^ 60 \<le> m \<Longrightarrow> m < 2 ^ 61 \<Longrightarrow> floorlog 2 m = 61"
  using floorlog_geI [of 2 61 m] floorlog_leI [of m 2 61] by simp

lemma float64_values:
  "float64 (UnixNano 63835596800000000000) = 1700000000000000000"
  "float64 (UnixNano 63835596800000000001) = 1700000000000000000"
  by (simp_all add: UnixNano_def float64_def floorlog_61)

lemmas archive_eval = archived_def whole_archive_def redis_eval redis_QueryMessages_def redis_ArchiveMessage_def IsZero_def
  mam_max_def zset_sort_def zset_le_def redis_mam_matches_def redis_mam_page_def float64_values

lemma redis_archive_overwrites:
  "redis_archive Map.empty [archived [] 63835596800000000000 [1], archived [] 63835596800000000001 [2]] = [([], [2])]"
  by (simp add: archive_eval)

text \<open>
  Times are rounded to a \<open>float64\<close>, in which nanoseconds of this century are 256 apart: of two messages one
  nanosecond apart, the second comes first when its identifier does.
\<close>

lemma redis_archive_order:
  "redis_archive Map.empty [archived ''9'' 63835596800000000000 [1], archived ''10'' 63835596800000000001 [2]] =
     [(''10'', [2]), (''9'', [1])]"
  by (simp add: archive_eval)

text \<open>Keys made from several names do not tell where one ends: two items of different nodes share a key.\<close>

lemma redis_items_share_a_key:
  "pubsubItemKey h (n @ '':'' @ m) i = pubsubItemKey h n (m @ '':'' @ i)"
  by (simp add: pubsubItemKey_def)

end
