(* ===== verification/StorageMongo.thy ===== *)
theory StorageMongo
  imports StorageCalls "HOL-Library.Multiset"
begin

text \<open>
  Package \<open>mongodb\<close> (storage/mongodb/mongodb.go), the implementation of the storage interfaces on a MongoDB
  server.  The server is a parameter, a function from commands to replies on a state of its own, of which
  \<open>mongo_serves\<close> states what the documentation of the commands says; a second parameter is what the driver
  makes of a time, which it stores with another precision.  A document is a map from field names to values.
  Every method is one definition, in the order of the code.
\<close>

section \<open>Documents and commands\<close>

datatype bson =
  BString string | BInt int | BBool bool | BBytes bytes | BTime gotime | BStrings "string list"

type_synonym document = "string \<rightharpoonup> bson"

text \<open>The conditions of a filter: equality and the four comparisons the code uses, on strings and times.\<close>

datatype condition =
  FieldEq string bson | FieldGte string bson | FieldLte string bson | FieldGt string bson | FieldLt string bson

type_synonym filter_doc = "condition list"

datatype mongo_command =
    CreateIndex string "string list" bool
  | InsertOne string document
  | FindOne string filter_doc
  | Find string filter_doc "string option" "nat option"
  | UpdateOne string filter_doc document bool
  | DeleteOne string filter_doc
  | DeleteMany string filter_doc
  | CountDocuments string filter_doc

datatype mongo_reply = MDone | MDocument "document option" | MDocuments "document list" | MCount nat | MMatched nat

datatype mongo_error = DuplicateKey | MongoError string

record 'm mongo =
  mg_exec :: "mongo_command \<Rightarrow> 'm \<Rightarrow> (mongo_error + mongo_reply) \<times> 'm"
  mg_time :: "gotime \<Rightarrow> gotime"

text \<open>The error a caller gets when it does not look at it, and a reply of another kind.\<close>

definition back_error :: "mongo_error \<Rightarrow> storage_error" where
  "back_error e = (case e of DuplicateKey \<Rightarrow> BackendError ''duplicate key'' | MongoError m \<Rightarrow> BackendError m)"

definition bad_bson :: storage_error where
  "bad_bson = BackendError ''error decoding''"

section \<open>Helpers\<close>

text \<open>
  \<open>Decode\<close>: a missing field is the zero value of its type, a value of another type is an error.
\<close>

datatype kind = KString | KInt | KBool | KBytes | KTime | KStrings

fun kind_of :: "bson \<Rightarrow> kind" where
  "kind_of (BString _) = KString"
| "kind_of (BInt _) = KInt"
| "kind_of (BBool _) = KBool"
| "kind_of (BBytes _) = KBytes"
| "kind_of (BTime _) = KTime"
| "kind_of (BStrings _) = KStrings"

definition str_field :: "document \<Rightarrow> string \<Rightarrow> string" where
  "str_field d f = (case d f of Some (BString s) \<Rightarrow> s | _ \<Rightarrow> [])"
definition int_field :: "document \<Rightarrow> string \<Rightarrow> int" where
  "int_field d f = (case d f of Some (BInt n) \<Rightarrow> n | _ \<Rightarrow> 0)"
definition bool_field :: "document \<Rightarrow> string \<Rightarrow> bool" where
  "bool_field d f = (case d f of Some (BBool b) \<Rightarrow> b | _ \<Rightarrow> False)"
definition bytes_field :: "document \<Rightarrow> string \<Rightarrow> bytes" where
  "bytes_field d f = (case d f of Some (BBytes b) \<Rightarrow> b | _ \<Rightarrow> [])"
definition time_field :: "document \<Rightarrow> string \<Rightarrow> gotime" where
  "time_field d f = (case d f of Some (BTime t) \<Rightarrow> t | _ \<Rightarrow> 0)"
definition strings_field :: "document \<Rightarrow> string \<Rightarrow> string list" where
  "strings_field d f = (case d f of Some (BStrings ss) \<Rightarrow> ss | _ \<Rightarrow> [])"

definition fits :: "(string \<times> kind) list \<Rightarrow> document \<Rightarrow> bool" where
  "fits schema d \<longleftrightarrow> (\<forall>(f, k) \<in> set schema. case d f of None \<Rightarrow> True | Some v \<Rightarrow> kind_of v = k)"

definition Decode :: "(string \<times> kind) list \<Rightarrow> (document \<Rightarrow> 'v) \<Rightarrow> document \<Rightarrow> (storage_error, 'v) result" where
  "Decode schema mk d = (if fits schema d then Inr (mk d) else Inl bad_bson)"

fun decode_all :: "(document \<Rightarrow> (storage_error, 'v) result) \<Rightarrow> document list \<Rightarrow> (storage_error, 'v list) result" where
  "decode_all un [] = Inr []"
| "decode_all un (d # ds) = bind_result (un d) (\<lambda>v. bind_result (decode_all un ds) (\<lambda>vs. Inr (v # vs)))"

definition find_one :: "'m mongo \<Rightarrow> (document \<Rightarrow> (storage_error, 'v) result) \<Rightarrow> string \<Rightarrow> filter_doc \<Rightarrow> 'm \<Rightarrow>
    'm \<times> (storage_error, 'v) result" where
  "find_one M un col flt m =
     (case mg_exec M (FindOne col flt) m of (rep, m1) \<Rightarrow>
        (m1, case rep of
           Inl e \<Rightarrow> Inl (back_error e)
         | Inr (MDocument None) \<Rightarrow> Inl ErrNotFound
         | Inr (MDocument (Some d)) \<Rightarrow> un d
         | Inr _ \<Rightarrow> Inl bad_bson))"

text \<open>\<open>Find\<close> and the loop over the cursor.\<close>

definition find_all :: "'m mongo \<Rightarrow> (document \<Rightarrow> (storage_error, 'v) result) \<Rightarrow> string \<Rightarrow> filter_doc \<Rightarrow> string option \<Rightarrow>
    nat option \<Rightarrow> 'm \<Rightarrow> 'm \<times> (storage_error, 'v list) result" where
  "find_all M un col flt srt lim m =
     (case mg_exec M (Find col flt srt lim) m of (rep, m1) \<Rightarrow>
        (m1, case rep of
           Inl e \<Rightarrow> Inl (back_error e)
         | Inr (MDocuments ds) \<Rightarrow> decode_all un ds
         | Inr _ \<Rightarrow> Inl bad_bson))"

definition count_docs :: "'m mongo \<Rightarrow> string \<Rightarrow> filter_doc \<Rightarrow> 'm \<Rightarrow> 'm \<times> (storage_error, nat) result" where
  "count_docs M col flt m =
     (case mg_exec M (CountDocuments col flt) m of (rep, m1) \<Rightarrow>
        (m1, case rep of Inl e \<Rightarrow> Inl (back_error e) | Inr (MCount n) \<Rightarrow> Inr n | Inr _ \<Rightarrow> Inl bad_bson))"

text \<open>A command of which only the error is looked at.\<close>

definition just_run :: "'m mongo \<Rightarrow> mongo_command \<Rightarrow> 'm writer" where
  "just_run M c m =
     (case mg_exec M c m of (rep, m1) \<Rightarrow> (m1, case rep of Inl e \<Rightarrow> Some (back_error e) | Inr _ \<Rightarrow> None))"

text \<open>\<open>InsertOne\<close> where a duplicate key is \<open>ErrUserExists\<close>.\<close>

definition insert_new :: "'m mongo \<Rightarrow> string \<Rightarrow> document \<Rightarrow> 'm writer" where
  "insert_new M col d m =
     (case mg_exec M (InsertOne col d) m of (rep, m1) \<Rightarrow>
        (m1, case rep of
           Inl e \<Rightarrow> if e = DuplicateKey then Some ErrUserExists else Some (back_error e)
         | Inr _ \<Rightarrow> None))"

text \<open>\<open>UpdateOne\<close> without upsert, and \<open>DeleteOne\<close>, where nothing matched is \<open>ErrNotFound\<close>.\<close>

definition update_existing :: "'m mongo \<Rightarrow> string \<Rightarrow> filter_doc \<Rightarrow> document \<Rightarrow> 'm writer" where
  "update_existing M col flt d m =
     (case mg_exec M (UpdateOne col flt d False) m of (rep, m1) \<Rightarrow>
        (m1, case rep of
           Inl e \<Rightarrow> Some (back_error e)
         | Inr (MMatched n) \<Rightarrow> if n = 0 then Some ErrNotFound else None
         | Inr _ \<Rightarrow> Some bad_bson))"

definition delete_existing :: "'m mongo \<Rightarrow> string \<Rightarrow> filter_doc \<Rightarrow> 'm writer" where
  "delete_existing M col flt m =
     (case mg_exec M (DeleteOne col flt) m of (rep, m1) \<Rightarrow>
        (m1, case rep of
           Inl e \<Rightarrow> Some (back_error e)
         | Inr (MCount n) \<Rightarrow> if n = 0 then Some ErrNotFound else None
         | Inr _ \<Rightarrow> Some bad_bson))"

abbreviation eq_str :: "string \<Rightarrow> string \<Rightarrow> condition" where
  "eq_str f s \<equiv> FieldEq f (BString s)"

section \<open>Init\<close>

definition mongo_indexes :: "(string \<times> string list \<times> bool) list" where
  "mongo_indexes =
     [(''users'', [''username''], True),
      (''roster_items'', [''user_jid'', ''contact_jid''], True),
      (''blocked_jids'', [''user_jid'', ''blocked_jid''], True),
      (''vcards'', [''user_jid''], True),
      (''offline_messages'', [''user_jid''], False),
      (''mam_messages'', [''user_jid''], False),
      (''mam_messages'', [''user_jid'', ''with_jid''], False),
      (''muc_rooms'', [''room_jid''], True),
      (''muc_affiliations'', [''room_jid'', ''user_jid''], True),
      (''pubsub_nodes'', [''host'', ''node_id''], True),
      (''pubsub_items'', [''host'', ''node_id'', ''item_id''], True),
      (''pubsub_subscriptions'', [''host'', ''node_id'', ''jid''], True),
      (''bookmarks'', [''user_jid'', ''room_jid''], True)]"

fun create_indexes :: "'m mongo \<Rightarrow> (string \<times> string list \<times> bool) list \<Rightarrow> 'm writer" where
  "create_indexes M [] m = (m, None)"
| "create_indexes M ((col, keys, unq) # idxs) m =
     (case just_run M (CreateIndex col keys unq) m of
        (m1, Some e) \<Rightarrow> (m1, Some e)
      | (m1, None) \<Rightarrow> create_indexes M idxs m1)"

definition mongo_Init :: "'m mongo \<Rightarrow> 'm writer" where
  "mongo_Init M = create_indexes M mongo_indexes"

section \<open>UserStore\<close>

definition userDoc :: "'m mongo \<Rightarrow> User \<Rightarrow> document" where
  "userDoc M u =
     [''username'' \<mapsto> BString (u_Username u), ''password'' \<mapsto> BString (u_Password u), ''salt'' \<mapsto> BString (u_Salt u),
      ''iterations'' \<mapsto> BInt (u_Iterations u), ''server_key'' \<mapsto> BString (u_ServerKey u),
      ''stored_key'' \<mapsto> BString (u_StoredKey u), ''created_at'' \<mapsto> BTime (mg_time M (u_CreatedAt u)),
      ''updated_at'' \<mapsto> BTime (mg_time M (u_UpdatedAt u))]"

definition un_userDoc :: "document \<Rightarrow> (storage_error, User) result" where
  "un_userDoc =
     Decode [(''username'', KString), (''password'', KString), (''salt'', KString), (''iterations'', KInt),
        (''server_key'', KString), (''stored_key'', KString), (''created_at'', KTime), (''updated_at'', KTime)]
       (\<lambda>d. \<lparr>u_Username = str_field d ''username'', u_Password = str_field d ''password'', u_Salt = str_field d ''salt'',
             u_Iterations = int_field d ''iterations'', u_ServerKey = str_field d ''server_key'',
             u_StoredKey = str_field d ''stored_key'', u_CreatedAt = time_field d ''created_at'',
             u_UpdatedAt = time_field d ''updated_at''\<rparr>)"

definition mongo_CreateUser :: "'m mongo \<Rightarrow> gotime \<Rightarrow> User \<Rightarrow> 'm writer" where
  "mongo_CreateUser M now user =
     insert_new M ''users'' (userDoc M (user\<lparr>u_CreatedAt := now, u_UpdatedAt := now\<rparr>))"

definition mongo_GetUser :: "'m mongo \<Rightarrow> string \<Rightarrow> 'm \<Rightarrow> 'm \<times> (storage_error, User) result" where
  "mongo_GetUser M username = find_one M un_userDoc ''users'' [eq_str ''username'' username]"

definition mongo_UpdateUser :: "'m mongo \<Rightarrow> gotime \<Rightarrow> User \<Rightarrow> 'm writer" where
  "mongo_UpdateUser M now user =
     update_existing M ''users'' [eq_str ''username'' (u_Username user)]
       [''password'' \<mapsto> BString (u_Password user), ''salt'' \<mapsto> BString (u_Salt user),
        ''iterations'' \<mapsto> BInt (u_Iterations user), ''server_key'' \<mapsto> BString (u_ServerKey user),
        ''stored_key'' \<mapsto> BString (u_StoredKey user), ''updated_at'' \<mapsto> BTime (mg_time M now)]"

definition mongo_DeleteUser :: "'m mongo \<Rightarrow> string \<Rightarrow> 'm writer" where
  "mongo_DeleteUser M username = delete_existing M ''users'' [eq_str ''username'' username]"

text \<open>The count is compared before the error is looked at; on an error it is 0.\<close>

definition mongo_UserExists :: "'m mongo \<Rightarrow> string \<Rightarrow> 'm \<Rightarrow> 'm \<times> (storage_error, bool) result" where
  "mongo_UserExists M username m =
     (case count_docs M ''users'' [eq_str ''username'' username] m of (m1, res) \<Rightarrow>
        (m1, bind_result res (\<lambda>n. Inr (n > 0))))"

definition mongo_Authenticate :: "'m mongo \<Rightarrow> string \<Rightarrow> string \<Rightarrow> 'm \<Rightarrow> 'm \<times> bool \<times> storage_error option" where
  "mongo_Authenticate M username password m =
     (case find_one M un_userDoc ''users'' [eq_str ''username'' username] m of (m1, res) \<Rightarrow>
        (m1, case res of
           Inl e \<Rightarrow> (False, Some (if e = ErrNotFound then ErrAuthFailed else e))
         | Inr u \<Rightarrow> if u_Password u \<noteq> password then (False, Some ErrAuthFailed) else (True, None)))"

section \<open>RosterStore\<close>

definition rosterDoc :: "RosterItem \<Rightarrow> document" where
  "rosterDoc item =
     [''user_jid'' \<mapsto> BString (ri_UserJID item), ''contact_jid'' \<mapsto> BString (ri_ContactJID item),
      ''name'' \<mapsto> BString (ri_Name item), ''subscription'' \<mapsto> BString (ri_Subscription item),
      ''ask'' \<mapsto> BString (ri_Ask item), ''groups'' \<mapsto> BStrings (ri_Groups item)]"

definition un_rosterDoc :: "document \<Rightarrow> (storage_error, RosterItem) result" where
  "un_rosterDoc =
     Decode [(''user_jid'', KString), (''contact_jid'', KString), (''name'', KString), (''subscription'', KString),
        (''ask'', KString), (''groups'', KStrings)]
       (\<lambda>d. \<lparr>ri_UserJID = str_field d ''user_jid'', ri_ContactJID = str_field d ''contact_jid'', ri_Name = str_field d ''name'',
             ri_Subscription = str_field d ''subscription'', ri_Ask = str_field d ''ask'',
             ri_Groups = strings_field d ''groups''\<rparr>)"

definition roster_filter :: "string \<times> string \<Rightarrow> filter_doc" where
  "roster_filter k = [eq_str ''user_jid'' (fst k), eq_str ''contact_jid'' (snd k)]"

definition mongo_UpsertRosterItem :: "'m mongo \<Rightarrow> RosterItem \<Rightarrow> 'm writer" where
  "mongo_UpsertRosterItem M item =
     just_run M (UpdateOne ''roster_items'' (roster_filter (ri_UserJID item, ri_ContactJID item)) (rosterDoc item) True)"

definition mongo_GetRosterItem :: "'m mongo \<Rightarrow> string \<times> string \<Rightarrow> 'm \<Rightarrow> 'm \<times> (storage_error, RosterItem) result" where
  "mongo_GetRosterItem M k = find_one M un_rosterDoc ''roster_items'' (roster_filter k)"

definition mongo_GetRosterItems :: "'m mongo \<Rightarrow> string \<Rightarrow> 'm \<Rightarrow> 'm \<times> (storage_error, RosterItem list) result" where
  "mongo_GetRosterItems M userJID = find_all M un_rosterDoc ''roster_items'' [eq_str ''user_jid'' userJID] None None"

definition mongo_DeleteRosterItem :: "'m mongo \<Rightarrow> string \<times> string \<Rightarrow> 'm writer" where
  "mongo_DeleteRosterItem M k = delete_existing M ''roster_items'' (roster_filter k)"

definition un_version :: "document \<Rightarrow> (storage_error, string) result" where
  "un_version = Decode [(''user_jid'', KString), (''version'', KString)] (\<lambda>d. str_field d ''version'')"

definition mongo_GetRosterVersion :: "'m mongo \<Rightarrow> string \<Rightarrow> 'm \<Rightarrow> 'm \<times> (storage_error, string) result" where
  "mongo_GetRosterVersion M userJID m =
     (case find_one M un_version ''roster_versions'' [eq_str ''user_jid'' userJID] m of (m1, res) \<Rightarrow>
        (m1, if res = Inl ErrNotFound then Inr [] else res))"

definition mongo_SetRosterVersion :: "'m mongo \<Rightarrow> string \<Rightarrow> string \<Rightarrow> 'm writer" where
  "mongo_SetRosterVersion M userJID version =
     just_run M (UpdateOne ''roster_versions'' [eq_str ''user_jid'' userJID] [''version'' \<mapsto> BString version] True)"

section \<open>BlockingStore, VCardStore\<close>

definition blocked_filter :: "string \<times> string \<Rightarrow> filter_doc" where
  "blocked_filter k = [eq_str ''user_jid'' (fst k), eq_str ''blocked_jid'' (snd k)]"

definition blockedDoc :: "string \<times> string \<Rightarrow> document" where
  "blockedDoc k = [''user_jid'' \<mapsto> BString (fst k), ''blocked_jid'' \<mapsto> BString (snd k)]"

definition un_blocked :: "document \<Rightarrow> (storage_error, string) result" where
  "un_blocked = Decode [(''blocked_jid'', KString)] (\<lambda>d. str_field d ''blocked_jid'')"

definition mongo_BlockJID :: "'m mongo \<Rightarrow> string \<Rightarrow> string \<Rightarrow> 'm writer" where
  "mongo_BlockJID M userJID blockedJID =
     just_run M (UpdateOne ''blocked_jids'' (blocked_filter (userJID, blockedJID)) (blockedDoc (userJID, blockedJID)) True)"

definition mongo_UnblockJID :: "'m mongo \<Rightarrow> string \<Rightarrow> string \<Rightarrow> 'm writer" where
  "mongo_UnblockJID M userJID blockedJID = just_run M (DeleteOne ''blocked_jids'' (blocked_filter (userJID, blockedJID)))"

definition mongo_IsBlocked :: "'m mongo \<Rightarrow> string \<Rightarrow> string \<Rightarrow> 'm \<Rightarrow> 'm \<times> (storage_error, bool) result" where
  "mongo_IsBlocked M userJID blockedJID m =
     (case count_docs M ''blocked_jids'' (blocked_filter (userJID, blockedJID)) m of (m1, res) \<Rightarrow>
        (m1, bind_result res (\<lambda>n. Inr (n > 0))))"

definition mongo_GetBlockedJIDs :: "'m mongo \<Rightarrow> string \<Rightarrow> 'm \<Rightarrow> 'm \<times> (storage_error, string list) result" where
  "mongo_GetBlockedJIDs M userJID = find_all M un_blocked ''blocked_jids'' [eq_str ''user_jid'' userJID] None None"

definition vcardDoc :: "string \<Rightarrow> bytes \<Rightarrow> document" where
  "vcardDoc userJID data = [''user_jid'' \<mapsto> BString userJID, ''data'' \<mapsto> BBytes data]"

definition un_vcard :: "document \<Rightarrow> (storage_error, bytes) result" where
  "un_vcard = Decode [(''data'', KBytes)] (\<lambda>d. bytes_field d ''data'')"

definition mongo_SetVCard :: "'m mongo \<Rightarrow> string \<Rightarrow> bytes \<Rightarrow> 'm writer" where
  "mongo_SetVCard M userJID data =
     just_run M (UpdateOne ''vcards'' [eq_str ''user_jid'' userJID] (vcardDoc userJID data) True)"

definition mongo_GetVCard :: "'m mongo \<Rightarrow> string \<Rightarrow> 'm \<Rightarrow> 'm \<times> (storage_error, bytes) result" where
  "mongo_GetVCard M userJID = find_one M un_vcard ''vcards'' [eq_str ''user_jid'' userJID]"

definition mongo_DeleteVCard :: "'m mongo \<Rightarrow> string \<Rightarrow> 'm writer" where
  "mongo_DeleteVCard M userJID = delete_existing M ''vcards'' [eq_str ''user_jid'' userJID]"

section \<open>OfflineStore\<close>

definition offlineDoc :: "'m mongo \<Rightarrow> OfflineMessage \<Rightarrow> document" where
  "offlineDoc M msg =
     [''id'' \<mapsto> BString (off_ID msg), ''user_jid'' \<mapsto> BString (off_UserJID msg), ''from_jid'' \<mapsto> BString (off_FromJID msg),
      ''data'' \<mapsto> BBytes (off_Data msg), ''created_at'' \<mapsto> BTime (mg_time M (off_CreatedAt msg))]"

definition un_offlineDoc :: "document \<Rightarrow> (storage_error, OfflineMessage) result" where
  "un_offlineDoc =
     Decode [(''id'', KString), (''user_jid'', KString), (''from_jid'', KString), (''data'', KBytes), (''created_at'', KTime)]
       (\<lambda>d. \<lparr>off_ID = str_field d ''id'', off_UserJID = str_field d ''user_jid'', off_FromJID = str_field d ''from_jid'',
             off_Data = bytes_field d ''data'', off_CreatedAt = time_field d ''created_at''\<rparr>)"

definition mongo_StoreOfflineMessage :: "'m mongo \<Rightarrow> gotime \<Rightarrow> OfflineMessage \<Rightarrow> 'm writer" where
  "mongo_StoreOfflineMessage M now msg =
     (let createdAt = (if IsZero (off_CreatedAt msg) then now else off_CreatedAt msg)
      in just_run M (InsertOne ''offline_messages'' (offlineDoc M (msg\<lparr>off_CreatedAt := createdAt\<rparr>))))"

definition mongo_GetOfflineMessages :: "'m mongo \<Rightarrow> string \<Rightarrow> 'm \<Rightarrow> 'm \<times> (storage_error, OfflineMessage list) result" where
  "mongo_GetOfflineMessages M userJID =
     find_all M un_offlineDoc ''offline_messages'' [eq_str ''user_jid'' userJID] (Some ''created_at'') None"

definition mongo_DeleteOfflineMessages :: "'m mongo \<Rightarrow> string \<Rightarrow> 'm writer" where
  "mongo_DeleteOfflineMessages M userJID = just_run M (DeleteMany ''offline_messages'' [eq_str ''user_jid'' userJID])"

definition mongo_CountOfflineMessages :: "'m mongo \<Rightarrow> string \<Rightarrow> 'm \<Rightarrow> 'm \<times> (storage_error, nat) result" where
  "mongo_CountOfflineMessages M userJID = count_docs M ''offline_messages'' [eq_str ''user_jid'' userJID]"

section \<open>MAMStore\<close>

definition mamDoc :: "'m mongo \<Rightarrow> ArchivedMessage \<Rightarrow> document" where
  "mamDoc M msg =
     [''id'' \<mapsto> BString (am_ID msg), ''user_jid'' \<mapsto> BString (am_UserJID msg), ''with_jid'' \<mapsto> BString (am_WithJID msg),
      ''from_jid'' \<mapsto> BString (am_FromJID msg), ''data'' \<mapsto> BBytes (am_Data msg),
      ''created_at'' \<mapsto> BTime (mg_time M (am_CreatedAt msg))]"

definition un_mamDoc :: "document \<Rightarrow> (storage_error, ArchivedMessage) result" where
  "un_mamDoc =
     Decode [(''id'', KString), (''user_jid'', KString), (''with_jid'', KString), (''from_jid'', KString), (''data'', KBytes),
        (''created_at'', KTime)]
       (\<lambda>d. \<lparr>am_ID = str_field d ''id'', am_UserJID = str_field d ''user_jid'', am_WithJID = str_field d ''with_jid'',
             am_FromJID = str_field d ''from_jid'', am_Data = bytes_field d ''data'',
             am_CreatedAt = time_field d ''created_at''\<rparr>)"

definition mongo_ArchiveMessage :: "'m mongo \<Rightarrow> gotime \<Rightarrow> ArchivedMessage \<Rightarrow> 'm writer" where
  "mongo_ArchiveMessage M now msg =
     (let createdAt = (if IsZero (am_CreatedAt msg) then now else am_CreatedAt msg)
      in just_run M (InsertOne ''mam_messages'' (mamDoc M (msg\<lparr>am_CreatedAt := createdAt\<rparr>))))"

definition mam_query_filter :: "'m mongo \<Rightarrow> MAMQuery \<Rightarrow> filter_doc" where
  "mam_query_filter M q =
     [eq_str ''user_jid'' (q_UserJID q)] @
     (if q_WithJID q \<noteq> [] then [eq_str ''with_jid'' (q_WithJID q)] else []) @
     (if \<not> IsZero (q_Start q) then [FieldGte ''created_at'' (BTime (mg_time M (q_Start q)))] else []) @
     (if \<not> IsZero (q_End q) then [FieldLte ''created_at'' (BTime (mg_time M (q_End q)))] else []) @
     (if q_AfterID q \<noteq> [] then [FieldGt ''id'' (BString (q_AfterID q))] else []) @
     (if q_BeforeID q \<noteq> [] then [FieldLt ''id'' (BString (q_BeforeID q))] else [])"

definition mongo_mam_page :: "nat \<Rightarrow> ArchivedMessage list \<Rightarrow> MAMResult" where
  "mongo_mam_page mx msgs =
     (let page = (if length msgs > mx then take mx msgs else msgs)
      in \<lparr>mr_Messages = page, mr_Complete = (length msgs \<le> mx),
          mr_First = (if page \<noteq> [] then am_ID (hd page) else []),
          mr_Last = (if page \<noteq> [] then am_ID (last page) else []), mr_Count = length page\<rparr>)"

text \<open>The limit is one more than the page, which the code computes in an \<open>int\<close>; the model takes \<open>Max\<close> below its largest value.\<close>

definition mongo_QueryMessages :: "'m mongo \<Rightarrow> MAMQuery \<Rightarrow> 'm \<Rightarrow> 'm \<times> (storage_error, MAMResult) result" where
  "mongo_QueryMessages M q m =
     (case find_all M un_mamDoc ''mam_messages'' (mam_query_filter M q) (Some ''created_at'') (Some (mam_max q + 1)) m of
        (m1, res) \<Rightarrow> (m1, bind_result res (\<lambda>msgs. Inr (mongo_mam_page (mam_max q) msgs))))"

definition mongo_DeleteMessageArchive :: "'m mongo \<Rightarrow> string \<Rightarrow> 'm writer" where
  "mongo_DeleteMessageArchive M userJID = just_run M (DeleteMany ''mam_messages'' [eq_str ''user_jid'' userJID])"

section \<open>MUCRoomStore\<close>

definition room_fields :: "MUCRoom \<Rightarrow> document" where
  "room_fields room =
     [''name'' \<mapsto> BString (room_Name room), ''description'' \<mapsto> BString (room_Description room),
      ''subject'' \<mapsto> BString (room_Subject room), ''password'' \<mapsto> BString (room_Password room),
      ''is_public'' \<mapsto> BBool (room_Public room), ''is_persistent'' \<mapsto> BBool (room_Persistent room),
      ''max_users'' \<mapsto> BInt (room_MaxUsers room)]"

definition mucRoomDoc :: "MUCRoom \<Rightarrow> document" where
  "mucRoomDoc room = (room_fields room)(''room_jid'' \<mapsto> BString (room_RoomJID room))"

definition un_mucRoomDoc :: "document \<Rightarrow> (storage_error, MUCRoom) result" where
  "un_mucRoomDoc =
     Decode [(''room_jid'', KString), (''name'', KString), (''description'', KString), (''subject'', KString),
        (''password'', KString), (''is_public'', KBool), (''is_persistent'', KBool), (''max_users'', KInt)]
       (\<lambda>d. \<lparr>room_RoomJID = str_field d ''room_jid'', room_Name = str_field d ''name'',
             room_Description = str_field d ''description'', room_Subject = str_field d ''subject'',
             room_Password = str_field d ''password'', room_Public = bool_field d ''is_public'',
             room_Persistent = bool_field d ''is_persistent'', room_MaxUsers = int_field d ''max_users''\<rparr>)"

definition mongo_CreateRoom :: "'m mongo \<Rightarrow> MUCRoom \<Rightarrow> 'm writer" where
  "mongo_CreateRoom M room = insert_new M ''muc_rooms'' (mucRoomDoc room)"

definition mongo_GetRoom :: "'m mongo \<Rightarrow> string \<Rightarrow> 'm \<Rightarrow> 'm \<times> (storage_error, MUCRoom) result" where
  "mongo_GetRoom M roomJID = find_one M un_mucRoomDoc ''muc_rooms'' [eq_str ''room_jid'' roomJID]"

definition mongo_UpdateRoom :: "'m mongo \<Rightarrow> MUCRoom \<Rightarrow> 'm writer" where
  "mongo_UpdateRoom M room =
     update_existing M ''muc_rooms'' [eq_str ''room_jid'' (room_RoomJID room)] (room_fields room)"

text \<open>The error of the second command is dropped.\<close>

definition mongo_DeleteRoom :: "'m mongo \<Rightarrow> string \<Rightarrow> 'm writer" where
  "mongo_DeleteRoom M roomJID m =
     (case delete_existing M ''muc_rooms'' [eq_str ''room_jid'' roomJID] m of
        (m1, Some e) \<Rightarrow> (m1, Some e)
      | (m1, None) \<Rightarrow> (fst (just_run M (DeleteMany ''muc_affiliations'' [eq_str ''room_jid'' roomJID]) m1), None))"

definition mongo_ListRooms :: "'m mongo \<Rightarrow> 'm \<Rightarrow> 'm \<times> (storage_error, MUCRoom list) result" where
  "mongo_ListRooms M = find_all M un_mucRoomDoc ''muc_rooms'' [] None None"

definition mucAffDoc :: "MUCAffiliation \<Rightarrow> document" where
  "mucAffDoc aff =
     [''room_jid'' \<mapsto> BString (aff_RoomJID aff), ''user_jid'' \<mapsto> BString (aff_UserJID aff),
      ''affiliation'' \<mapsto> BString (aff_Affiliation aff), ''reason'' \<mapsto> BString (aff_Reason aff)]"

definition un_mucAffDoc :: "document \<Rightarrow> (storage_error, MUCAffiliation) result" where
  "un_mucAffDoc =
     Decode [(''room_jid'', KString), (''user_jid'', KString), (''affiliation'', KString), (''reason'', KString)]
       (\<lambda>d. \<lparr>aff_RoomJID = str_field d ''room_jid'', aff_UserJID = str_field d ''user_jid'',
             aff_Affiliation = str_field d ''affiliation'', aff_Reason = str_field d ''reason''\<rparr>)"

definition aff_filter :: "string \<times> string \<Rightarrow> filter_doc" where
  "aff_filter k = [eq_str ''room_jid'' (fst k), eq_str ''user_jid'' (snd k)]"

definition mongo_SetAffiliation :: "'m mongo \<Rightarrow> MUCAffiliation \<Rightarrow> 'm writer" where
  "mongo_SetAffiliation M aff =
     just_run M (UpdateOne ''muc_affiliations'' (aff_filter (aff_RoomJID aff, aff_UserJID aff)) (mucAffDoc aff) True)"

definition mongo_GetAffiliation :: "'m mongo \<Rightarrow> string \<times> string \<Rightarrow> 'm \<Rightarrow> 'm \<times> (storage_error, MUCAffiliation) result" where
  "mongo_GetAffiliation M k = find_one M un_mucAffDoc ''muc_affiliations'' (aff_filter k)"

definition mongo_GetAffiliations :: "'m mongo \<Rightarrow> string \<Rightarrow> 'm \<Rightarrow> 'm \<times> (storage_error, MUCAffiliation list) result" where
  "mongo_GetAffiliations M roomJID = find_all M un_mucAffDoc ''muc_affiliations'' [eq_str ''room_jid'' roomJID] None None"

definition mongo_RemoveAffiliation :: "'m mongo \<Rightarrow> string \<times> string \<Rightarrow> 'm writer" where
  "mongo_RemoveAffiliation M k = just_run M (DeleteOne ''muc_affiliations'' (aff_filter k))"

section \<open>PubSubStore\<close>

definition pubsubNodeDoc :: "PubSubNode \<Rightarrow> document" where
  "pubsubNodeDoc node =
     [''host'' \<mapsto> BString (node_Host node), ''node_id'' \<mapsto> BString (node_NodeID node), ''name'' \<mapsto> BString (node_Name node),
      ''type'' \<mapsto> BString (node_Type node), ''creator'' \<mapsto> BString (node_Creator node)]"

definition un_pubsubNodeDoc :: "document \<Rightarrow> (storage_error, PubSubNode) result" where
  "un_pubsubNodeDoc =
     Decode [(''host'', KString), (''node_id'', KString), (''name'', KString), (''type'', KString), (''creator'', KString)]
       (\<lambda>d. \<lparr>node_Host = str_field d ''host'', node_NodeID = str_field d ''node_id'', node_Name = str_field d ''name'',
             node_Type = str_field d ''type'', node_Config = None, node_Creator = str_field d ''creator''\<rparr>)"

definition pubsubItemDoc :: "'m mongo \<Rightarrow> PubSubItem \<Rightarrow> document" where
  "pubsubItemDoc M item =
     [''host'' \<mapsto> BString (item_Host item), ''node_id'' \<mapsto> BString (item_NodeID item),
      ''item_id'' \<mapsto> BString (item_ItemID item), ''publisher'' \<mapsto> BString (item_Publisher item),
      ''payload'' \<mapsto> BBytes (item_Payload item), ''created_at'' \<mapsto> BTime (mg_time M (item_CreatedAt item))]"

definition un_pubsubItemDoc :: "document \<Rightarrow> (storage_error, PubSubItem) result" where
  "un_pubsubItemDoc =
     Decode [(''host'', KString), (''node_id'', KString), (''item_id'', KString), (''publisher'', KString),
        (''payload'', KBytes), (''created_at'', KTime)]
       (\<lambda>d. \<lparr>item_Host = str_field d ''host'', item_NodeID = str_field d ''node_id'', item_ItemID = str_field d ''item_id'',
             item_Publisher = str_field d ''publisher'', item_Payload = bytes_field d ''payload'',
             item_CreatedAt = time_field d ''created_at''\<rparr>)"

definition pubsubSubDoc :: "PubSubSubscription \<Rightarrow> document" where
  "pubsubSubDoc sub =
     [''host'' \<mapsto> BString (sub_Host sub), ''node_id'' \<mapsto> BString (sub_NodeID sub), ''jid'' \<mapsto> BString (sub_JID sub),
      ''sub_id'' \<mapsto> BString (sub_SubID sub), ''state'' \<mapsto> BString (sub_State sub)]"

definition un_pubsubSubDoc :: "document \<Rightarrow> (storage_error, PubSubSubscription) result" where
  "un_pubsubSubDoc =
     Decode [(''host'', KString), (''node_id'', KString), (''jid'', KString), (''sub_id'', KString), (''state'', KString)]
       (\<lambda>d. \<lparr>sub_Host = str_field d ''host'', sub_NodeID = str_field d ''node_id'', sub_JID = str_field d ''jid'',
             sub_SubID = str_field d ''sub_id'', sub_State = str_field d ''state''\<rparr>)"

definition node_filter :: "string \<times> string \<Rightarrow> filter_doc" where
  "node_filter k = [eq_str ''host'' (fst k), eq_str ''node_id'' (snd k)]"

definition item_filter :: "key3 \<Rightarrow> filter_doc" where
  "item_filter k = [eq_str ''host'' (fst k), eq_str ''node_id'' (fst (snd k)), eq_str ''item_id'' (snd (snd k))]"

definition sub_filter :: "key3 \<Rightarrow> filter_doc" where
  "sub_filter k = [eq_str ''host'' (fst k), eq_str ''node_id'' (fst (snd k)), eq_str ''jid'' (snd (snd k))]"

definition mongo_CreateNode :: "'m mongo \<Rightarrow> PubSubNode \<Rightarrow> 'm writer" where
  "mongo_CreateNode M node = insert_new M ''pubsub_nodes'' (pubsubNodeDoc node)"

definition mongo_GetNode :: "'m mongo \<Rightarrow> string \<times> string \<Rightarrow> 'm \<Rightarrow> 'm \<times> (storage_error, PubSubNode) result" where
  "mongo_GetNode M k = find_one M un_pubsubNodeDoc ''pubsub_nodes'' (node_filter k)"

definition mongo_DeleteNode :: "'m mongo \<Rightarrow> string \<times> string \<Rightarrow> 'm writer" where
  "mongo_DeleteNode M k m =
     (case delete_existing M ''pubsub_nodes'' (node_filter k) m of
        (m1, Some e) \<Rightarrow> (m1, Some e)
      | (m1, None) \<Rightarrow>
          (fst (just_run M (DeleteMany ''pubsub_subscriptions'' (node_filter k))
             (fst (just_run M (DeleteMany ''pubsub_items'' (node_filter k)) m1))), None))"

definition mongo_ListNodes :: "'m mongo \<Rightarrow> string \<Rightarrow> 'm \<Rightarrow> 'm \<times> (storage_error, PubSubNode list) result" where
  "mongo_ListNodes M host = find_all M un_pubsubNodeDoc ''pubsub_nodes'' [eq_str ''host'' host] None None"

definition mongo_UpsertItem :: "'m mongo \<Rightarrow> gotime \<Rightarrow> PubSubItem \<Rightarrow> 'm writer" where
  "mongo_UpsertItem M now item =
     (let createdAt = (if IsZero (item_CreatedAt item) then now else item_CreatedAt item)
      in just_run M (UpdateOne ''pubsub_items'' (item_filter (item_Host item, item_NodeID item, item_ItemID item))
           (pubsubItemDoc M (item\<lparr>item_CreatedAt := createdAt\<rparr>)) True))"

definition mongo_GetItem :: "'m mongo \<Rightarrow> key3 \<Rightarrow> 'm \<Rightarrow> 'm \<times> (storage_error, PubSubItem) result" where
  "mongo_GetItem M k = find_one M un_pubsubItemDoc ''pubsub_items'' (item_filter k)"

definition mongo_GetItems :: "'m mongo \<Rightarrow> string \<times> string \<Rightarrow> 'm \<Rightarrow> 'm \<times> (storage_error, PubSubItem list) result" where
  "mongo_GetItems M k = find_all M un_pubsubItemDoc ''pubsub_items'' (node_filter k) (Some ''created_at'') None"

definition mongo_DeleteItem :: "'m mongo \<Rightarrow> key3 \<Rightarrow> 'm writer" where
  "mongo_DeleteItem M k = delete_existing M ''pubsub_items'' (item_filter k)"

definition mongo_Subscribe :: "'m mongo \<Rightarrow> PubSubSubscription \<Rightarrow> 'm writer" where
  "mongo_Subscribe M sub =
     just_run M (UpdateOne ''pubsub_subscriptions'' (sub_filter (sub_Host sub, sub_NodeID sub, sub_JID sub))
       (pubsubSubDoc sub) True)"

definition mongo_Unsubscribe :: "'m mongo \<Rightarrow> key3 \<Rightarrow> 'm writer" where
  "mongo_Unsubscribe M k = just_run M (DeleteOne ''pubsub_subscriptions'' (sub_filter k))"

definition mongo_GetSubscription :: "'m mongo \<Rightarrow> key3 \<Rightarrow> 'm \<Rightarrow> 'm \<times> (storage_error, PubSubSubscription) result" where
  "mongo_GetSubscription M k = find_one M un_pubsubSubDoc ''pubsub_subscriptions'' (sub_filter k)"

definition mongo_GetSubscriptions :: "'m mongo \<Rightarrow> string \<times> string \<Rightarrow> 'm \<Rightarrow> 'm \<times> (storage_error, PubSubSubscription list) result" where
  "mongo_GetSubscriptions M k = find_all M un_pubsubSubDoc ''pubsub_subscriptions'' (node_filter k) None None"

definition mongo_GetUserSubscriptions :: "'m mongo \<Rightarrow> string \<Rightarrow> string \<Rightarrow> 'm \<Rightarrow>
    'm \<times> (storage_error, PubSubSubscription list) result" where
  "mongo_GetUserSubscriptions M host jid =
     find_all M un_pubsubSubDoc ''pubsub_subscriptions'' [eq_str ''host'' host, eq_str ''jid'' jid] None None"

section \<open>BookmarkStore\<close>

definition bookmarkDoc :: "Bookmark \<Rightarrow> document" where
  "bookmarkDoc bm =
     [''user_jid'' \<mapsto> BString (bm_UserJID bm), ''room_jid'' \<mapsto> BString (bm_RoomJID bm), ''name'' \<mapsto> BString (bm_Name bm),
      ''nick'' \<mapsto> BString (bm_Nick bm), ''password'' \<mapsto> BString (bm_Password bm), ''autojoin'' \<mapsto> BBool (bm_Autojoin bm)]"

definition un_bookmarkDoc :: "document \<Rightarrow> (storage_error, Bookmark) result" where
  "un_bookmarkDoc =
     Decode [(''user_jid'', KString), (''room_jid'', KString), (''name'', KString), (''nick'', KString),
        (''password'', KString), (''autojoin'', KBool)]
       (\<lambda>d. \<lparr>bm_UserJID = str_field d ''user_jid'', bm_RoomJID = str_field d ''room_jid'', bm_Name = str_field d ''name'',
             bm_Nick = str_field d ''nick'', bm_Password = str_field d ''password'', bm_Autojoin = bool_field d ''autojoin''\<rparr>)"

definition bookmark_filter :: "string \<times> string \<Rightarrow> filter_doc" where
  "bookmark_filter k = [eq_str ''user_jid'' (fst k), eq_str ''room_jid'' (snd k)]"

definition mongo_SetBookmark :: "'m mongo \<Rightarrow> Bookmark \<Rightarrow> 'm writer" where
  "mongo_SetBookmark M bm =
     just_run M (UpdateOne ''bookmarks'' (bookmark_filter (bm_UserJID bm, bm_RoomJID bm)) (bookmarkDoc bm) True)"

definition mongo_GetBookmark :: "'m mongo \<Rightarrow> string \<times> string \<Rightarrow> 'm \<Rightarrow> 'm \<times> (storage_error, Bookmark) result" where
  "mongo_GetBookmark M k = find_one M un_bookmarkDoc ''bookmarks'' (bookmark_filter k)"

definition mongo_GetBookmarks :: "'m mongo \<Rightarrow> string \<Rightarrow> 'm \<Rightarrow> 'm \<times> (storage_error, Bookmark list) result" where
  "mongo_GetBookmarks M userJID = find_all M un_bookmarkDoc ''bookmarks'' [eq_str ''user_jid'' userJID] None None"

definition mongo_DeleteBookmark :: "'m mongo \<Rightarrow> string \<times> string \<Rightarrow> 'm writer" where
  "mongo_DeleteBookmark M k = delete_existing M ''bookmarks'' (bookmark_filter k)"

section \<open>Calls\<close>

text \<open>The store as an implementation of the interfaces; the order of replies is up to the server.\<close>

definition answers_with :: "('m \<Rightarrow> 'm \<times> 'x) \<Rightarrow> ('x \<Rightarrow> storage_reply) \<Rightarrow> 'm \<Rightarrow> 'm \<times> storage_reply" where
  "answers_with get C m = (case get m of (m', x) \<Rightarrow> (m', C x))"

fun mongo_user :: "'m mongo \<Rightarrow> user_call \<Rightarrow> 'm \<Rightarrow> 'm \<times> storage_reply" where
  "mongo_user M (CallCreateUser now u) m = writes (mongo_CreateUser M now u) m"
| "mongo_user M (CallGetUser n) m = answers_with (mongo_GetUser M n) ReplyUser m"
| "mongo_user M (CallUpdateUser now u) m = writes (mongo_UpdateUser M now u) m"
| "mongo_user M (CallDeleteUser n) m = writes (mongo_DeleteUser M n) m"
| "mongo_user M (CallUserExists n) m = answers_with (mongo_UserExists M n) ReplyBool m"
| "mongo_user M (CallAuthenticate n pw) m = answers_with (mongo_Authenticate M n pw) ReplyAuth m"

fun mongo_roster :: "'m mongo \<Rightarrow> roster_call \<Rightarrow> 'm \<Rightarrow> 'm \<times> storage_reply" where
  "mongo_roster M (CallUpsertRosterItem i) m = writes (mongo_UpsertRosterItem M i) m"
| "mongo_roster M (CallGetRosterItem k) m = answers_with (mongo_GetRosterItem M k) ReplyItem m"
| "mongo_roster M (CallGetRosterItems u) m = answers_with (mongo_GetRosterItems M u) ReplyItems m"
| "mongo_roster M (CallDeleteRosterItem k) m = writes (mongo_DeleteRosterItem M k) m"
| "mongo_roster M (CallGetRosterVersion u) m = answers_with (mongo_GetRosterVersion M u) ReplyText m"
| "mongo_roster M (CallSetRosterVersion u v) m = writes (mongo_SetRosterVersion M u v) m"

fun mongo_blocking :: "'m mongo \<Rightarrow> blocking_call \<Rightarrow> 'm \<Rightarrow> 'm \<times> storage_reply" where
  "mongo_blocking M (CallBlockJID u j) m = writes (mongo_BlockJID M u j) m"
| "mongo_blocking M (CallUnblockJID u j) m = writes (mongo_UnblockJID M u j) m"
| "mongo_blocking M (CallIsBlocked u j) m = answers_with (mongo_IsBlocked M u j) ReplyBool m"
| "mongo_blocking M (CallGetBlockedJIDs u) m = answers_with (mongo_GetBlockedJIDs M u) ReplyTexts m"

fun mongo_vcard :: "'m mongo \<Rightarrow> vcard_call \<Rightarrow> 'm \<Rightarrow> 'm \<times> storage_reply" where
  "mongo_vcard M (CallSetVCard u d) m = writes (mongo_SetVCard M u d) m"
| "mongo_vcard M (CallGetVCard u) m = answers_with (mongo_GetVCard M u) ReplyBytes m"
| "mongo_vcard M (CallDeleteVCard u) m = writes (mongo_DeleteVCard M u) m"

fun mongo_offline :: "'m mongo \<Rightarrow> offline_call \<Rightarrow> 'm \<Rightarrow> 'm \<times> storage_reply" where
  "mongo_offline M (CallStoreOfflineMessage now x) m = writes (mongo_StoreOfflineMessage M now x) m"
| "mongo_offline M (CallGetOfflineMessages u) m = answers_with (mongo_GetOfflineMessages M u) ReplyOffline m"
| "mongo_offline M (CallDeleteOfflineMessages u) m = writes (mongo_DeleteOfflineMessages M u) m"
| "mongo_offline M (CallCountOfflineMessages u) m = answers_with (mongo_CountOfflineMessages M u) ReplyCount m"

fun mongo_mam :: "'m mongo \<Rightarrow> mam_call \<Rightarrow> 'm \<Rightarrow> 'm \<times> storage_reply" where
  "mongo_mam M (CallArchiveMessage now x) m = writes (mongo_ArchiveMessage M now x) m"
| "mongo_mam M (CallQueryMessages q) m = answers_with (mongo_QueryMessages M q) ReplyMAM m"
| "mongo_mam M (CallDeleteMessageArchive u) m = writes (mongo_DeleteMessageArchive M u) m"

fun mongo_muc :: "'m mongo \<Rightarrow> muc_call \<Rightarrow> 'm \<Rightarrow> 'm \<times> storage_reply" where
  "mongo_muc M (CallCreateRoom x) m = writes (mongo_CreateRoom M x) m"
| "mongo_muc M (CallGetRoom j) m = answers_with (mongo_GetRoom M j) ReplyRoom m"
| "mongo_muc M (CallUpdateRoom x) m = writes (mongo_UpdateRoom M x) m"
| "mongo_muc M (CallDeleteRoom j) m = writes (mongo_DeleteRoom M j) m"
| "mongo_muc M CallListRooms m = answers_with (mongo_ListRooms M) ReplyRooms m"
| "mongo_muc M (CallSetAffiliation a) m = writes (mongo_SetAffiliation M a) m"
| "mongo_muc M (CallGetAffiliation k) m = answers_with (mongo_GetAffiliation M k) ReplyAff m"
| "mongo_muc M (CallGetAffiliations j) m = answers_with (mongo_GetAffiliations M j) ReplyAffs m"
| "mongo_muc M (CallRemoveAffiliation k) m = writes (mongo_RemoveAffiliation M k) m"

fun mongo_pubsub :: "'m mongo \<Rightarrow> pubsub_call \<Rightarrow> 'm \<Rightarrow> 'm \<times> storage_reply" where
  "mongo_pubsub M (CallCreateNode n) m = writes (mongo_CreateNode M n) m"
| "mongo_pubsub M (CallGetNode k) m = answers_with (mongo_GetNode M k) ReplyNode m"
| "mongo_pubsub M (CallDeleteNode k) m = writes (mongo_DeleteNode M k) m"
| "mongo_pubsub M (CallListNodes h) m = answers_with (mongo_ListNodes M h) ReplyNodes m"
| "mongo_pubsub M (CallUpsertItem now i) m = writes (mongo_UpsertItem M now i) m"
| "mongo_pubsub M (CallGetItem k) m = answers_with (mongo_GetItem M k) ReplyPubItem m"
| "mongo_pubsub M (CallGetItems k) m = answers_with (mongo_GetItems M k) ReplyPubItems m"
| "mongo_pubsub M (CallDeleteItem k) m = writes (mongo_DeleteItem M k) m"
| "mongo_pubsub M (CallSubscribe b) m = writes (mongo_Subscribe M b) m"
| "mongo_pubsub M (CallUnsubscribe k) m = writes (mongo_Unsubscribe M k) m"
| "mongo_pubsub M (CallGetSubscription k) m = answers_with (mongo_GetSubscription M k) ReplySub m"
| "mongo_pubsub M (CallGetSubscriptions k) m = answers_with (mongo_GetSubscriptions M k) ReplySubs m"
| "mongo_pubsub M (CallGetUserSubscriptions h j) m = answers_with (mongo_GetUserSubscriptions M h j) ReplySubs m"

fun mongo_bookmark :: "'m mongo \<Rightarrow> bookmark_call \<Rightarrow> 'm \<Rightarrow> 'm \<times> storage_reply" where
  "mongo_bookmark M (CallSetBookmark b) m = writes (mongo_SetBookmark M b) m"
| "mongo_bookmark M (CallGetBookmark k) m = answers_with (mongo_GetBookmark M k) ReplyBookmark m"
| "mongo_bookmark M (CallGetBookmarks u) m = answers_with (mongo_GetBookmarks M u) ReplyBookmarks m"
| "mongo_bookmark M (CallDeleteBookmark k) m = writes (mongo_DeleteBookmark M k) m"

fun mongo_call :: "'m mongo \<Rightarrow> storage_call \<Rightarrow> 'm \<Rightarrow> 'm \<times> storage_reply" where
  "mongo_call M (UserStore c) m = mongo_user M c m"
| "mongo_call M (RosterStore c) m = mongo_roster M c m"
| "mongo_call M (BlockingStore c) m = mongo_blocking M c m"
| "mongo_call M (VCardStore c) m = mongo_vcard M c m"
| "mongo_call M (OfflineStore c) m = mongo_offline M c m"
| "mongo_call M (MAMStore c) m = mongo_mam M c m"
| "mongo_call M (MUCRoomStore c) m = mongo_muc M c m"
| "mongo_call M (PubSubStore c) m = mongo_pubsub M c m"
| "mongo_call M (BookmarkStore c) m = mongo_bookmark M c m"

section \<open>What the server promises\<close>

text \<open>
  The database: for each collection its documents, and the fields of its unique indexes.  Strings compare by
  their bytes, times by their value, and a comparison holds only between values of one type.
\<close>

record database =
  db_docs :: "string \<Rightarrow> document multiset"
  db_unique :: "(string \<times> string list) set"

fun str_less :: "string \<Rightarrow> string \<Rightarrow> bool" where
  "str_less s [] = False"
| "str_less [] (b # t) = True"
| "str_less (a # s) (b # t) = (of_char a < (of_char b :: nat) \<or> a = b \<and> str_less s t)"

fun bson_less :: "bson \<Rightarrow> bson \<Rightarrow> bool" where
  "bson_less (BString s) (BString t) = str_less s t"
| "bson_less (BTime s) (BTime t) = (s < t)"
| "bson_less _ _ = False"

fun holds_for :: "document \<Rightarrow> condition \<Rightarrow> bool" where
  "holds_for d (FieldEq f v) \<longleftrightarrow> d f = Some v"
| "holds_for d (FieldGt f v) \<longleftrightarrow> (case d f of None \<Rightarrow> False | Some w \<Rightarrow> bson_less v w)"
| "holds_for d (FieldLt f v) \<longleftrightarrow> (case d f of None \<Rightarrow> False | Some w \<Rightarrow> bson_less w v)"
| "holds_for d (FieldGte f v) \<longleftrightarrow> (case d f of None \<Rightarrow> False | Some w \<Rightarrow> bson_less v w \<or> w = v)"
| "holds_for d (FieldLte f v) \<longleftrightarrow> (case d f of None \<Rightarrow> False | Some w \<Rightarrow> bson_less w v \<or> w = v)"

definition matches :: "filter_doc \<Rightarrow> document \<Rightarrow> bool" where
  "matches flt d \<longleftrightarrow> (\<forall>c \<in> set flt. holds_for d c)"

definition matching :: "database \<Rightarrow> string \<Rightarrow> filter_doc \<Rightarrow> document multiset" where
  "matching v col flt = filter_mset (matches flt) (db_docs v col)"

text \<open>A document that a unique index keeps out of a collection.\<close>

definition index_clash :: "(string \<times> string list) set \<Rightarrow> string \<Rightarrow> document multiset \<Rightarrow> document \<Rightarrow> bool" where
  "index_clash unq col C d \<longleftrightarrow> (\<exists>keys. (col, keys) \<in> unq \<and> (\<exists>e. e \<in># C \<and> (\<forall>f \<in> set keys. e f = d f)))"

text \<open>The document an upsert inserts: the fields the filter fixes, and those that are set.\<close>

fun fixed_fields :: "filter_doc \<Rightarrow> document" where
  "fixed_fields [] = Map.empty"
| "fixed_fields (FieldEq f v # flt) = (fixed_fields flt)(f \<mapsto> v)"
| "fixed_fields (_ # flt) = fixed_fields flt"

definition put_docs :: "database \<Rightarrow> string \<Rightarrow> document multiset \<Rightarrow> database" where
  "put_docs v col C = v\<lparr>db_docs := (db_docs v)(col := C)\<rparr>"

definition in_order :: "string option \<Rightarrow> document list \<Rightarrow> bool" where
  "in_order srt ds = (case srt of None \<Rightarrow> True | Some f \<Rightarrow> sorted (map (\<lambda>d. time_field d f) ds))"

definition limited :: "nat option \<Rightarrow> 'a list \<Rightarrow> 'a list" where
  "limited lim xs = (case lim of None \<Rightarrow> xs | Some n \<Rightarrow> take n xs)"

text \<open>
  \<open>responds c v x v'\<close> says that \<open>x\<close> is a reply to \<open>c\<close> in the database \<open>v\<close>, which becomes \<open>v'\<close>.  Which of
  several matching documents is found, updated or deleted is open, and so is the order of documents that the
  sort does not tell apart.  Documents are only sorted by a field in which all of them have a time.
\<close>

inductive responds :: "mongo_command \<Rightarrow> database \<Rightarrow> mongo_error + mongo_reply \<Rightarrow> database \<Rightarrow> bool" where
  CreateIndex: "\<lbrakk>unq \<Longrightarrow> db_docs v col = {#}\<rbrakk> \<Longrightarrow>
     responds (CreateIndex col keys unq) v (Inr MDone)
       (v\<lparr>db_unique := (if unq then insert (col, keys) (db_unique v) else db_unique v)\<rparr>)"
| InsertOne: "\<not> index_clash (db_unique v) col (db_docs v col) d \<Longrightarrow>
     responds (InsertOne col d) v (Inr MDone) (put_docs v col (add_mset d (db_docs v col)))"
| InsertOne_clash: "index_clash (db_unique v) col (db_docs v col) d \<Longrightarrow> responds (InsertOne col d) v (Inl DuplicateKey) v"
| FindOne_none: "matching v col flt = {#} \<Longrightarrow> responds (FindOne col flt) v (Inr (MDocument None)) v"
| FindOne: "d \<in># matching v col flt \<Longrightarrow> responds (FindOne col flt) v (Inr (MDocument (Some d))) v"
| Find: "\<lbrakk>mset ds = matching v col flt; in_order srt ds\<rbrakk> \<Longrightarrow>
     responds (Find col flt srt lim) v (Inr (MDocuments (limited lim ds))) v"
| UpdateOne_none: "matching v col flt = {#} \<Longrightarrow> responds (UpdateOne col flt s False) v (Inr (MMatched 0)) v"
| UpdateOne_upsert: "\<lbrakk>matching v col flt = {#}; \<not> index_clash (db_unique v) col (db_docs v col) (fixed_fields flt ++ s)\<rbrakk> \<Longrightarrow>
     responds (UpdateOne col flt s True) v (Inr (MMatched 0)) (put_docs v col (add_mset (fixed_fields flt ++ s) (db_docs v col)))"
| UpdateOne: "\<lbrakk>d \<in># matching v col flt; \<not> index_clash (db_unique v) col (db_docs v col - {#d#}) (d ++ s)\<rbrakk> \<Longrightarrow>
     responds (UpdateOne col flt s up) v (Inr (MMatched 1)) (put_docs v col (add_mset (d ++ s) (db_docs v col - {#d#})))"
| UpdateOne_upsert_clash: "\<lbrakk>matching v col flt = {#}; index_clash (db_unique v) col (db_docs v col) (fixed_fields flt ++ s)\<rbrakk> \<Longrightarrow>
     responds (UpdateOne col flt s True) v (Inl DuplicateKey) v"
| UpdateOne_clash: "\<lbrakk>d \<in># matching v col flt; index_clash (db_unique v) col (db_docs v col - {#d#}) (d ++ s)\<rbrakk> \<Longrightarrow>
     responds (UpdateOne col flt s up) v (Inl DuplicateKey) v"
| DeleteOne_none: "matching v col flt = {#} \<Longrightarrow> responds (DeleteOne col flt) v (Inr (MCount 0)) v"
| DeleteOne: "d \<in># matching v col flt \<Longrightarrow>
     responds (DeleteOne col flt) v (Inr (MCount 1)) (put_docs v col (db_docs v col - {#d#}))"
| DeleteMany: "responds (DeleteMany col flt) v (Inr (MCount (size (matching v col flt))))
     (put_docs v col (filter_mset (\<lambda>d. \<not> matches flt d) (db_docs v col)))"
| CountDocuments: "responds (CountDocuments col flt) v (Inr (MCount (size (matching v col flt)))) v"

text \<open>A server that can be reached and answers each command that has an answer by one of its answers.\<close>

definition mongo_serves :: "'m mongo \<Rightarrow> ('m \<Rightarrow> database) \<Rightarrow> bool" where
  "mongo_serves M view \<longleftrightarrow>
     (\<forall>c m. (\<exists>x v'. responds c (view m) x v') \<longrightarrow> responds c (view m) (fst (mg_exec M c m)) (view (snd (mg_exec M c m))))"

inductive_cases responds_cases:
  "responds (CreateIndex col keys unq) v x v'" "responds (InsertOne col d) v x v'" "responds (FindOne col flt) v x v'"
  "responds (Find col flt srt lim) v x v'" "responds (UpdateOne col flt s up) v x v'" "responds (DeleteOne col flt) v x v'"
  "responds (DeleteMany col flt) v x v'" "responds (CountDocuments col flt) v x v'"

end
