(* ===== verification/StorageMongoServer.thy ===== *)
theory StorageMongoServer
  imports StorageMongo
begin

text \<open>
  Collections that hold a table: one document per key, found by a filter for the key.  The locale
  \<open>collection\<close> has what the commands of a server do to such a collection in terms of the table; it is
  interpreted on the collections of the store.
\<close>

section \<open>Commands\<close>

lemma serves_respond:
  assumes "mongo_serves M view" "responds c (view m) x v'"
  obtains y m' where "mg_exec M c m = (y, m')" "responds c (view m) y (view m')"
  using assms unfolding mongo_serves_def by (metis prod.collapse)

lemma matching_put: "matching (put_docs v col C) col flt = filter_mset (matches flt) C"
  by (simp add: matching_def put_docs_def)

lemma put_docs_simps [simp]:
  "db_unique (put_docs v col C) = db_unique v" "db_docs (put_docs v col C) = (db_docs v)(col := C)"
  by (simp_all add: put_docs_def)

lemma list_of_image_mset:
  assumes "mset ds = image_mset g (mset_set A)" "finite A"
  shows "\<exists>ks. distinct ks \<and> set ks = A \<and> ds = map g ks"
  using assms
proof (induction ds arbitrary: A)
  case Nil
  then show ?case by (intro exI [of _ "[]"]) (auto simp: mset_set_empty_iff)
next
  case (Cons d ds)
  then have "d \<in># image_mset g (mset_set A)" by (metis list.set_intros(1) set_mset_mset)
  then obtain k where k: "k \<in> A" "d = g k" using Cons.prems(2) by auto
  then have "mset_set A = add_mset k (mset_set (A - {k}))"
    using Cons.prems(2) by (metis insert_Diff mset_set.insert_remove Diff_idemp finite_Diff insert_Diff_single)
  with Cons.prems k have "mset ds = image_mset g (mset_set (A - {k}))" by simp
  from Cons.IH [OF this] Cons.prems(2) obtain ks where "distinct ks" "set ks = A - {k}" "ds = map g ks" by auto
  then show ?case using k by (intro exI [of _ "k # ks"]) auto
qed

lemma decode_all_map: "\<forall>d \<in> set ds. un d = Inr (g d) \<Longrightarrow> decode_all un ds = Inr (map g ds)"
  by (induction ds) auto

section \<open>Tables\<close>

locale collection =
  fixes enc :: "'k \<Rightarrow> 'v \<Rightarrow> document" and flt :: "'k \<Rightarrow> filter_doc" and keys :: "string list"
  assumes flt_enc: "matches (flt k) (enc k' v) \<longleftrightarrow> k = k'"
    and keys_enc: "(\<forall>f \<in> set keys. enc k v f = enc k' v' f) \<longleftrightarrow> k = k'"
begin

definition coll :: "('k \<rightharpoonup> 'v) \<Rightarrow> document multiset" where
  "coll t = image_mset (\<lambda>k. enc k (the (t k))) (mset_set (dom t))"

lemma coll_empty: "coll Map.empty = {#}"
  by (simp add: coll_def)

lemma coll_cong:
  "finite (dom t) \<Longrightarrow> dom t = dom u \<Longrightarrow> (\<And>k. k \<in> dom t \<Longrightarrow> enc k (the (t k)) = enc k (the (u k))) \<Longrightarrow> coll t = coll u"
  unfolding coll_def by (auto intro!: image_mset_cong)

lemma coll_new:
  assumes "finite (dom t)" "t k = None"
  shows "coll (t(k \<mapsto> v)) = add_mset (enc k v) (coll t)"
proof -
  have k: "k \<notin> dom t" using assms(2) by auto
  have "image_mset (\<lambda>x. enc x (the ((t(k \<mapsto> v)) x))) (mset_set (dom t)) = coll t"
    unfolding coll_def using k assms(1) by (intro image_mset_cong) auto
  with k assms(1) show ?thesis by (simp add: coll_def)
qed

lemma coll_split:
  assumes "finite (dom t)" "t k = Some v"
  shows "coll t = add_mset (enc k v) (coll (t(k := None)))"
proof -
  have "t = (t(k := None))(k \<mapsto> v)" using assms(2) by auto
  with coll_new [of "t(k := None)" k v] assms(1) show ?thesis by simp
qed

lemma coll_del: "finite (dom t) \<Longrightarrow> t k = Some v \<Longrightarrow> coll t - {#enc k v#} = coll (t(k := None))"
  using coll_split by simp

lemma coll_upd: "finite (dom t) \<Longrightarrow> t k = Some v \<Longrightarrow> add_mset (enc k w) (coll t - {#enc k v#}) = coll (t(k \<mapsto> w))"
  using coll_del [of t k v] coll_new [of "t(k := None)" k w] by simp

lemma coll_sub:
  assumes "finite (dom t)" "\<And>k v. matches f (enc k v) \<longleftrightarrow> P k"
  shows "filter_mset (matches f) (coll t) = coll (t |` {k. P k})"
    "filter_mset (\<lambda>d. \<not> matches f d) (coll t) = coll (t |` {k. \<not> P k})"
proof -
  have sub: "filter_mset Q (coll t) = coll (t |` {k. R k})" if "\<And>k v. Q (enc k v) \<longleftrightarrow> R k" for Q R
  proof -
    have d: "dom (t |` {k. R k}) = {k \<in> dom t. R k}" by auto
    have "image_mset (\<lambda>k. enc k (the (t k))) (mset_set {k \<in> dom t. R k}) = coll (t |` {k. R k})"
      unfolding coll_def d using assms(1) by (intro image_mset_cong) (auto simp: restrict_map_def)
    then show ?thesis
      unfolding coll_def filter_mset_image_mset using assms(1) that by (simp add: filter_mset_mset_set)
  qed
  show "filter_mset (matches f) (coll t) = coll (t |` {k. P k})"
    "filter_mset (\<lambda>d. \<not> matches f d) (coll t) = coll (t |` {k. \<not> P k})"
    using sub assms(2) by simp_all
qed

lemma coll_key:
  assumes "finite (dom t)"
  shows "filter_mset (matches (flt k)) (coll t) = (case t k of None \<Rightarrow> {#} | Some v \<Rightarrow> {#enc k v#})"
proof -
  have "filter_mset (matches (flt k)) (coll t) = coll (t |` {x. k = x})"
    by (rule coll_sub(1) [OF assms]) (rule flt_enc)
  moreover have "t |` {x. k = x} = (case t k of None \<Rightarrow> Map.empty | Some v \<Rightarrow> [k \<mapsto> v])"
    by (auto simp: restrict_map_def split: option.splits)
  moreover have "coll [k \<mapsto> v] = {#enc k v#}" for v
    using coll_new [of Map.empty k v] by (simp add: coll_empty)
  ultimately show ?thesis
    by (simp add: coll_empty split: option.splits)
qed

lemma coll_list:
  assumes "mset ds = coll t" "finite (dom t)"
  shows "\<exists>ks. distinct ks \<and> set ks = dom t \<and> ds = map (\<lambda>k. enc k (the (t k))) ks"
  using list_of_image_mset [of ds] assms unfolding coll_def by blast

lemma in_coll: "finite (dom t) \<Longrightarrow> d \<in># coll t \<longleftrightarrow> (\<exists>k v. t k = Some v \<and> d = enc k v)"
proof -
  assume "finite (dom t)"
  then have "d \<in># coll t \<longleftrightarrow> d \<in> (\<lambda>k. enc k (the (t k))) ` dom t"
    by (simp add: coll_def)
  then show ?thesis by (force simp: dom_def)
qed

lemma clash_used: "finite (dom t) \<Longrightarrow> (col, keys) \<in> unq \<Longrightarrow> t k \<noteq> None \<Longrightarrow> index_clash unq col (coll t) (enc k w)"
  using keys_enc by (fastforce simp: index_clash_def in_coll)

lemma no_clash:
  assumes "finite (dom t)" "t k = None" "\<And>ks. (col, ks) \<in> unq \<Longrightarrow> ks = keys"
  shows "\<not> index_clash unq col (coll t) (enc k w)"
proof
  assume "index_clash unq col (coll t) (enc k w)"
  then obtain ks e where "(col, ks) \<in> unq" "e \<in># coll t" "\<forall>f \<in> set ks. e f = enc k w f"
    by (auto simp: index_clash_def)
  with assms(3) obtain k' v where "t k' = Some v" "\<forall>f \<in> set keys. enc k' v f = enc k w f"
    using in_coll [OF assms(1), of e] by auto
  with keys_enc [of k' v k w] assms(2) show False by simp
qed

subsection \<open>Reading\<close>

lemma find_one_step:
  assumes "mongo_serves M view" "db_docs (view m) col = coll t" "finite (dom t)" "\<And>v. t k = Some v \<Longrightarrow> un (enc k v) = Inr (g v)"
  shows "\<exists>m'. find_one M un col (flt k) m = (m', lookup_result (map_option g (t k))) \<and> view m' = view m"
proof -
  have mt: "matching (view m) col (flt k) = (case t k of None \<Rightarrow> {#} | Some v \<Rightarrow> {#enc k v#})"
    by (simp add: matching_def assms(2) coll_key assms(3))
  have "\<exists>x v'. responds (FindOne col (flt k)) (view m) x v'"
    using FindOne_none [of "view m" col "flt k"] FindOne [of _ "view m" col "flt k"] mt by (cases "t k") auto
  then obtain y m' where "mg_exec M (FindOne col (flt k)) m = (y, m')" "responds (FindOne col (flt k)) (view m) y (view m')"
    using serves_respond [OF assms(1)] by metis
  then show ?thesis
    using mt assms(4) by (cases "t k") (auto simp: find_one_def elim!: responds_cases)
qed

lemma count_step:
  assumes "mongo_serves M view" "db_docs (view m) col = coll t" "finite (dom t)"
  shows "\<exists>m'. count_docs M col (flt k) m = (m', Inr (if t k = None then 0 else 1)) \<and> view m' = view m"
proof -
  have mt: "matching (view m) col (flt k) = (case t k of None \<Rightarrow> {#} | Some v \<Rightarrow> {#enc k v#})"
    by (simp add: matching_def assms(2) coll_key assms(3))
  obtain y m' where "mg_exec M (CountDocuments col (flt k)) m = (y, m')" "responds (CountDocuments col (flt k)) (view m) y (view m')"
    by (rule serves_respond [OF assms(1) CountDocuments])
  then show ?thesis
    using mt by (cases "t k") (auto simp: count_docs_def elim!: responds_cases)
qed

lemma find_all_step:
  assumes "mongo_serves M view" "db_docs (view m) col = coll t" "finite (dom t)" "\<And>k v. matches f (enc k v) \<longleftrightarrow> P k"
    and "\<And>k v. t k = Some v \<Longrightarrow> un (enc k v) = Inr (g k v)"
    and "\<And>k v. srt = Some fld \<Longrightarrow> t k = Some v \<Longrightarrow> time_field (enc k v) fld = key k v"
  shows "\<exists>m' ks. find_all M un col f srt None m = (m', Inr (map (\<lambda>k. g k (the (t k))) ks)) \<and> view m' = view m \<and>
      distinct ks \<and> set ks = {k \<in> dom t. P k} \<and> (srt = Some fld \<longrightarrow> sorted (map (\<lambda>k. key k (the (t k))) ks))"
proof -
  let ?t = "t |` {k. P k}"
  have mt: "matching (view m) col f = coll ?t"
    using coll_sub(1) [OF assms(3), of f P] assms(4) by (simp add: matching_def assms(2))
  obtain ds where ds: "mset ds = matching (view m) col f" using ex_mset by blast
  have "\<exists>ds. mset ds = matching (view m) col f \<and> in_order srt ds"
  proof (cases srt)
    case None
    with ds show ?thesis by (auto simp: in_order_def)
  next
    case (Some n)
    with ds show ?thesis
      by (intro exI [of _ "sort_key (\<lambda>d. time_field d n) ds"]) (simp add: in_order_def)
  qed
  then have "\<exists>x v'. responds (Find col f srt None) (view m) x v'"
    using Find by blast
  then obtain y m' where "mg_exec M (Find col f srt None) m = (y, m')" "responds (Find col f srt None) (view m) y (view m')"
    using serves_respond [OF assms(1)] by metis
  then obtain es where es: "mg_exec M (Find col f srt None) m = (Inr (MDocuments es), m')" "view m' = view m"
    "mset es = coll ?t" "in_order srt es"
    by (auto simp: limited_def mt elim!: responds_cases)
  have d: "dom ?t = {k \<in> dom t. P k}" by auto
  then have "finite (dom ?t)" using assms(3) by simp
  from coll_list [OF es(3) this] obtain ks where ks: "distinct ks" "set ks = dom ?t" "es = map (\<lambda>k. enc k (the (?t k))) ks"
    by blast
  have es': "es = map (\<lambda>k. enc k (the (t k))) ks"
    using ks(2) d by (auto simp: ks(3))
  have un: "\<forall>k \<in> set ks. un (enc k (the (t k))) = Inr (g k (the (t k)))"
    using ks(2) d assms(5) by auto
  have "decode_all un es = Inr (map (\<lambda>k. g k (the (t k))) ks)"
    using un unfolding es' by (induction ks) simp_all
  moreover have "srt = Some fld \<longrightarrow> sorted (map (\<lambda>k. key k (the (t k))) ks)"
  proof
    assume s: "srt = Some fld"
    then have "map (\<lambda>d. time_field d fld) es = map (\<lambda>k. key k (the (t k))) ks"
      using ks(2) d assms(6) by (auto simp: es')
    with es(4) s show "sorted (map (\<lambda>k. key k (the (t k))) ks)" by (simp add: in_order_def)
  qed
  ultimately show ?thesis
    using es(1,2) ks(1,2) d by (intro exI [of _ m'] exI [of _ ks]) (simp add: find_all_def)
qed

subsection \<open>Writing\<close>

lemma match_key:
  "db_docs v col = coll t \<Longrightarrow> finite (dom t) \<Longrightarrow> matching v col (flt k) = (case t k of None \<Rightarrow> {#} | Some x \<Rightarrow> {#enc k x#})"
  by (simp add: matching_def coll_key)

lemma no_clash_update:
  assumes "finite (dom t)" "t k = Some v" "\<And>ks. (col, ks) \<in> unq \<Longrightarrow> ks = keys"
  shows "\<not> index_clash unq col (coll t - {#enc k v#}) (enc k w)"
  using no_clash [of "t(k := None)" k col unq w] assms by (simp add: coll_del)

lemma update_responds:
  assumes "db_docs v col = coll t" "finite (dom t)" "\<And>ks. (col, ks) \<in> db_unique v \<Longrightarrow> ks = keys"
    and "t k = Some x" "enc k x ++ sd = enc k w"
  shows "responds (UpdateOne col (flt k) sd up) v (Inr (MMatched 1)) (put_docs v col (coll (t(k \<mapsto> w))))"
    and "responds (UpdateOne col (flt k) sd up) v y v' \<Longrightarrow> y = Inr (MMatched 1) \<and> v' = put_docs v col (coll (t(k \<mapsto> w)))"
proof -
  have mt: "matching v col (flt k) = {#enc k x#}"
    using match_key [OF assms(1,2)] assms(4) by simp
  show "responds (UpdateOne col (flt k) sd up) v (Inr (MMatched 1)) (put_docs v col (coll (t(k \<mapsto> w))))"
    using UpdateOne [of "enc k x" v col "flt k" sd up] no_clash_update [OF assms(2,4,3), where w = w]
      coll_upd [OF assms(2,4), of w] by (simp add: mt assms(1,5))
  show "y = Inr (MMatched 1) \<and> v' = put_docs v col (coll (t(k \<mapsto> w)))" if "responds (UpdateOne col (flt k) sd up) v y v'"
    using that coll_upd [OF assms(2,4), of w] no_clash_update [OF assms(2,4,3), where w = w]
    by (auto simp: mt assms(1,5) elim!: responds_cases)
qed

lemma upsert_step:
  assumes "mongo_serves M view" "db_docs (view m) col = coll t" "finite (dom t)"
    "\<And>ks. (col, ks) \<in> db_unique (view m) \<Longrightarrow> ks = keys"
    and "\<And>x. enc k x ++ sd = enc k w" "fixed_fields (flt k) ++ sd = enc k w"
  shows "\<exists>m'. just_run M (UpdateOne col (flt k) sd True) m = (m', None) \<and> view m' = put_docs (view m) col (coll (t(k \<mapsto> w)))"
proof (cases "t k")
  case None
  then have mt: "matching (view m) col (flt k) = {#}"
    using match_key [OF assms(2,3)] by simp
  have nc: "\<not> index_clash (db_unique (view m)) col (db_docs (view m) col) (fixed_fields (flt k) ++ sd)"
    using no_clash [OF assms(3) None assms(4), where w = w] by (simp add: assms(2,6))
  from serves_respond [OF assms(1) UpdateOne_upsert [OF mt nc]] obtain y m'
    where "mg_exec M (UpdateOne col (flt k) sd True) m = (y, m')" "responds (UpdateOne col (flt k) sd True) (view m) y (view m')"
    by blast
  then show ?thesis
    using mt nc coll_new [OF assms(3) None, of w] by (auto simp: just_run_def assms(2,6) elim!: responds_cases)
next
  case (Some x)
  note upd = update_responds [OF assms(2,3,4) Some assms(5)]
  from serves_respond [OF assms(1) upd(1)] obtain y m'
    where "mg_exec M (UpdateOne col (flt k) sd True) m = (y, m')" "responds (UpdateOne col (flt k) sd True) (view m) y (view m')"
    by blast
  with upd(2) show ?thesis by (fastforce simp: just_run_def)
qed

lemma update_step:
  assumes "mongo_serves M view" "db_docs (view m) col = coll t" "finite (dom t)"
    "\<And>ks. (col, ks) \<in> db_unique (view m) \<Longrightarrow> ks = keys"
    and "\<And>x. t k = Some x \<Longrightarrow> enc k x ++ sd = enc k (upd x)"
  shows "\<exists>m'. update_existing M col (flt k) sd m = (m', if t k = None then Some ErrNotFound else None) \<and>
     view m' = (case t k of None \<Rightarrow> view m | Some x \<Rightarrow> put_docs (view m) col (coll (t(k \<mapsto> upd x))))"
proof (cases "t k")
  case None
  then have mt: "matching (view m) col (flt k) = {#}"
    using match_key [OF assms(2,3)] by simp
  from serves_respond [OF assms(1) UpdateOne_none [OF mt]] obtain y m'
    where "mg_exec M (UpdateOne col (flt k) sd False) m = (y, m')" "responds (UpdateOne col (flt k) sd False) (view m) y (view m')"
    by blast
  then show ?thesis
    using mt None by (auto simp: update_existing_def elim!: responds_cases)
next
  case (Some x)
  note upd = update_responds [OF assms(2,3,4) Some assms(5) [OF Some]]
  from serves_respond [OF assms(1) upd(1)] obtain y m'
    where "mg_exec M (UpdateOne col (flt k) sd False) m = (y, m')" "responds (UpdateOne col (flt k) sd False) (view m) y (view m')"
    by blast
  with upd(2) Some show ?thesis by (fastforce simp: update_existing_def)
qed

lemma insert_step:
  assumes "mongo_serves M view" "db_docs (view m) col = coll t" "finite (dom t)"
    "\<And>ks. (col, ks) \<in> db_unique (view m) \<longleftrightarrow> ks = keys"
  shows "\<exists>m'. insert_new M col (enc k w) m = (m', if t k = None then None else Some ErrUserExists) \<and>
     view m' = (if t k = None then put_docs (view m) col (coll (t(k \<mapsto> w))) else view m)"
proof (cases "t k = None")
  case True
  then have nc: "\<not> index_clash (db_unique (view m)) col (db_docs (view m) col) (enc k w)"
    using no_clash [OF assms(3) True, of col "db_unique (view m)"] assms(4) by (simp add: assms(2))
  from serves_respond [OF assms(1) InsertOne [OF nc]] obtain y m'
    where "mg_exec M (InsertOne col (enc k w)) m = (y, m')" "responds (InsertOne col (enc k w)) (view m) y (view m')"
    by blast
  then show ?thesis
    using nc True coll_new [OF assms(3) True, of w] by (auto simp: insert_new_def assms(2) elim!: responds_cases)
next
  case False
  then have c: "index_clash (db_unique (view m)) col (db_docs (view m) col) (enc k w)"
    using clash_used [OF assms(3), of col "db_unique (view m)" k w] assms(4) by (simp add: assms(2))
  from serves_respond [OF assms(1) InsertOne_clash [OF c]] obtain y m'
    where "mg_exec M (InsertOne col (enc k w)) m = (y, m')" "responds (InsertOne col (enc k w)) (view m) y (view m')"
    by blast
  then show ?thesis
    using c False by (auto simp: insert_new_def elim!: responds_cases)
qed

lemma delete_responds:
  assumes "mongo_serves M view" "db_docs (view m) col = coll t" "finite (dom t)"
  obtains m' where "mg_exec M (DeleteOne col (flt k)) m = (Inr (MCount (if t k = None then 0 else 1)), m')"
    "view m' = put_docs (view m) col (coll (t(k := None)))"
proof (cases "t k")
  case None
  then have mt: "matching (view m) col (flt k) = {#}" and same: "t(k := None) = t"
    using match_key [OF assms(2,3)] by auto
  from serves_respond [OF assms(1) DeleteOne_none [OF mt]] obtain y m'
    where "mg_exec M (DeleteOne col (flt k)) m = (y, m')" "responds (DeleteOne col (flt k)) (view m) y (view m')"
    by blast
  moreover have "put_docs (view m) col (coll t) = view m"
    by (simp add: put_docs_def flip: assms(2))
  ultimately show ?thesis
    using mt None same that by (auto elim!: responds_cases)
next
  case (Some x)
  then have mt: "matching (view m) col (flt k) = {#enc k x#}"
    using match_key [OF assms(2,3)] by simp
  then have "enc k x \<in># matching (view m) col (flt k)" by simp
  from serves_respond [OF assms(1) DeleteOne [OF this]] obtain y m'
    where "mg_exec M (DeleteOne col (flt k)) m = (y, m')" "responds (DeleteOne col (flt k)) (view m) y (view m')"
    by blast
  then show ?thesis
    using mt Some that coll_del [OF assms(3) Some] by (auto simp: assms(2) elim!: responds_cases)
qed

lemma delete_step:
  assumes "mongo_serves M view" "db_docs (view m) col = coll t" "finite (dom t)"
  shows "\<exists>m'. delete_existing M col (flt k) m = (m', if t k = None then Some ErrNotFound else None) \<and>
     view m' = put_docs (view m) col (coll (t(k := None)))"
    and "\<exists>m'. just_run M (DeleteOne col (flt k)) m = (m', None) \<and> view m' = put_docs (view m) col (coll (t(k := None)))"
proof -
  obtain m' where "mg_exec M (DeleteOne col (flt k)) m = (Inr (MCount (if t k = None then 0 else 1)), m')"
    "view m' = put_docs (view m) col (coll (t(k := None)))"
    by (rule delete_responds [OF assms])
  then show "\<exists>m'. delete_existing M col (flt k) m = (m', if t k = None then Some ErrNotFound else None) \<and>
      view m' = put_docs (view m) col (coll (t(k := None)))"
    and "\<exists>m'. just_run M (DeleteOne col (flt k)) m = (m', None) \<and> view m' = put_docs (view m) col (coll (t(k := None)))"
    by (simp_all add: delete_existing_def just_run_def)
qed

lemma delete_many_step:
  assumes "mongo_serves M view" "db_docs (view m) col = coll t" "finite (dom t)" "\<And>k v. matches f (enc k v) \<longleftrightarrow> P k"
  shows "view (fst (just_run M (DeleteMany col f) m)) = put_docs (view m) col (coll (t |` {k. \<not> P k}))"
    and "snd (just_run M (DeleteMany col f) m) = None"
proof -
  obtain y m' where "mg_exec M (DeleteMany col f) m = (y, m')" "responds (DeleteMany col f) (view m) y (view m')"
    by (rule serves_respond [OF assms(1) DeleteMany])
  then show "view (fst (just_run M (DeleteMany col f) m)) = put_docs (view m) col (coll (t |` {k. \<not> P k}))"
    and "snd (just_run M (DeleteMany col f) m) = None"
    using coll_sub(2) [OF assms(3), of f P] assms(4) by (auto simp: just_run_def assms(2) elim!: responds_cases)
qed

end

end
