(* ===== verification/StorageTables.thy ===== *)
theory StorageTables
  imports StorageCalls StorageProps
begin

text \<open>
  The in-memory store as what its interfaces are about: one table per kind of record, a finite map from the keys
  of the record, and the queues of offline and archived messages.  The nested maps of the store are one
  representation of them.  Every call of every interface has an effect on the tables and a reply that they
  determine up to the order of a listing, and every run of the store is a run of the tables (C20).
\<close>

section \<open>Nested maps as tables\<close>

definition flat2 :: "('a \<rightharpoonup> 'b \<rightharpoonup> 'v) \<Rightarrow> ('a \<times> 'b) \<rightharpoonup> 'v" where
  "flat2 t k = get2 t (fst k) (snd k)"

definition flat3 :: "('a \<rightharpoonup> 'b \<rightharpoonup> 'c \<rightharpoonup> 'v) \<Rightarrow> ('a \<times> 'b \<times> 'c) \<rightharpoonup> 'v" where
  "flat3 t k = get3 t (fst k) (fst (snd k)) (snd (snd k))"

lemma flat_simps [simp]:
  "flat2 (put2 t a b v) = (flat2 t)((a, b) \<mapsto> v)" "flat2 (del2 t a b) = (flat2 t)((a, b) := None)"
  "flat3 (put3 t3 a b c w) = (flat3 t3)((a, b, c) \<mapsto> w)"
  "flat2 Map.empty = Map.empty" "flat3 Map.empty = Map.empty"
  by (auto simp: flat2_def flat3_def fun_eq_iff)

lemma del2_None: "get2 t a b = None \<Longrightarrow> del2 t a b = t"
  by (auto simp: get2_def del2_def fun_eq_iff split: option.splits)

lemma DeleteRosterItem_del2:
  "DeleteRosterItem k s = (s\<lparr>rosterItems := del2 (rosterItems s) (fst k) (snd k)\<rparr>,
     if flat2 (rosterItems s) k = None then Some ErrNotFound else None)"
  by (auto simp: DeleteRosterItem_def flat2_def get2_def del2_def split: option.splits)
    (auto simp: fun_upd_idem)

lemma DeleteBookmark_del2:
  "DeleteBookmark k s = (s\<lparr>bookmarks := del2 (bookmarks s) (fst k) (snd k)\<rparr>,
     if flat2 (bookmarks s) k = None then Some ErrNotFound else None)"
  by (simp add: DeleteBookmark_def flat2_def del2_None)

text \<open>The part of a table that a filter selects, as a map of its own.\<close>

lemma sub_list:
  assumes "distinct ks" "set ks = {k \<in> dom t. P k}" "\<And>k k'. P k \<Longrightarrow> P k' \<Longrightarrow> p k = p k' \<Longrightarrow> k = k'"
    and "\<And>k. P k \<Longrightarrow> t k = r (p k)" "\<And>c. r c \<noteq> None \<Longrightarrow> \<exists>k. P k \<and> p k = c"
  shows "enumerates (map p ks) r" "map (\<lambda>k. the (t k)) ks = range_values (map p ks) r"
proof -
  have sel: "P k" "t k \<noteq> None" if "k \<in> set ks" for k using that assms(2) by auto
  have "inj_on p (set ks)" using assms(3) sel(1) by (auto simp: inj_on_def)
  moreover have "p ` set ks = dom r"
  proof
    show "p ` set ks \<subseteq> dom r" using sel assms(4) by auto
    show "dom r \<subseteq> p ` set ks"
    proof
      fix c assume c: "c \<in> dom r"
      then obtain k where "P k" "p k = c" using assms(5) by blast
      with c assms(4) [of k] have "k \<in> set ks" by (auto simp: assms(2))
      with \<open>p k = c\<close> show "c \<in> p ` set ks" by blast
    qed
  qed
  ultimately show "enumerates (map p ks) r"
    using assms(1) by (simp add: enumerates_def distinct_map)
  have "map (\<lambda>k. the (t k)) xs = range_values (map p xs) r" if "set xs \<subseteq> set ks" for xs
    using that
  proof (induction xs)
    case (Cons k xs)
    then show ?case using sel [of k] assms(4) [of k] by auto
  qed simp
  then show "map (\<lambda>k. the (t k)) ks = range_values (map p ks) r" by simp
qed

lemma sub2:
  assumes "distinct ks" "set ks = {k \<in> dom (flat2 t). fst k = u}"
  shows "enumerates (map snd ks) (inner t u)" "map (\<lambda>k. the (flat2 t k)) ks = range_values (map snd ks) (inner t u)"
  by (rule sub_list [OF assms]; auto simp: flat2_def inner_get2 prod_eq_iff)+

lemma sub3:
  assumes "distinct ks" "set ks = {k \<in> dom (flat3 t). fst k = h \<and> fst (snd k) = n}"
  shows "enumerates (map (\<lambda>k. snd (snd k)) ks) (inner (inner t h) n)"
    "map (\<lambda>k. the (flat3 t k)) ks = range_values (map (\<lambda>k. snd (snd k)) ks) (inner (inner t h) n)"
  by (rule sub_list [OF assms]; auto simp: flat3_def inner_inner prod_eq_iff)+

lemma sub3_user:
  assumes "distinct ks" "set ks = {k \<in> dom (flat3 t). fst k = h \<and> snd (snd k) = j}"
  shows "enumerates (map (\<lambda>k. fst (snd k)) ks) (\<lambda>n. get3 t h n j)"
    "map (\<lambda>k. the (flat3 t k)) ks = range_values (map (\<lambda>k. fst (snd k)) ks) (\<lambda>n. get3 t h n j)"
  by (rule sub_list [OF assms]; auto simp: flat3_def prod_eq_iff)+

lemma flat2_drop: "flat2 (t(a := None)) = flat2 t |` {k. fst k \<noteq> a}"
  by (auto simp: flat2_def get2_def restrict_map_def fun_eq_iff split: option.splits)

lemma flat3_del2: "flat3 (del2 t a b) = flat3 t |` {k. \<not> (fst k = a \<and> fst (snd k) = b)}"
  by (auto simp: flat3_def restrict_map_def fun_eq_iff)

lemma CreateNode_put2:
  "CreateNode n s =
     (if flat2 (pubsubNodes s) (node_Host n, node_NodeID n) = None
      then (s\<lparr>pubsubNodes := put2 (pubsubNodes s) (node_Host n) (node_NodeID n) n\<rparr>, None) else (s, Some ErrUserExists))"
  by (cases s) (auto simp: CreateNode_def Let_def flat2_def get2_def put2_def inner_def fun_upd_idem split: option.splits)

lemma DeleteItem_flat3:
  obtains r where "DeleteItem k s = (s\<lparr>pubsubItems := r\<rparr>, if flat3 (pubsubItems s) k = None then Some ErrNotFound else None)"
    "flat3 r = (flat3 (pubsubItems s))(k := None)"
proof -
  have "\<exists>r. fst (DeleteItem k s) = s\<lparr>pubsubItems := r\<rparr>"
    by (cases s) (auto simp: DeleteItem_def split: option.splits)
  then obtain r where r: "fst (DeleteItem k s) = s\<lparr>pubsubItems := r\<rparr>" by blast
  have "flat3 r = (flat3 (pubsubItems s))(k := None)"
    using DeleteItem_effect(1) [of k s] by (auto simp: flat3_def fun_eq_iff r prod_eq_iff)
  moreover have "snd (DeleteItem k s) = (if flat3 (pubsubItems s) k = None then Some ErrNotFound else None)"
    using DeleteItem_effect(2) [of k s] by (simp add: flat3_def)
  ultimately show ?thesis by (intro that [of r]) (simp_all add: prod_eq_iff r)
qed

lemma Unsubscribe_flat3:
  obtains r where "Unsubscribe k s = (s\<lparr>pubsubSubscriptions := r\<rparr>, None)"
    "flat3 r = (flat3 (pubsubSubscriptions s))(k := None)"
proof -
  have "\<exists>r. fst (Unsubscribe k s) = s\<lparr>pubsubSubscriptions := r\<rparr>"
    by (cases s) (auto simp: Unsubscribe_def split: option.splits)
  then obtain r where r: "fst (Unsubscribe k s) = s\<lparr>pubsubSubscriptions := r\<rparr>" by blast
  have "flat3 r = (flat3 (pubsubSubscriptions s))(k := None)"
    using Unsubscribe_effect(1) [of k s] by (auto simp: flat3_def fun_eq_iff r prod_eq_iff)
  then show ?thesis by (intro that [of r]) (simp_all add: prod_eq_iff r Unsubscribe_effect(2))
qed

section \<open>The tables\<close>

record tables =
  t_users :: "string \<rightharpoonup> User"
  t_roster :: "string \<times> string \<rightharpoonup> RosterItem"
  t_versions :: "string \<rightharpoonup> string"
  t_blocked :: "string \<times> string \<rightharpoonup> bool"
  t_vcards :: "string \<rightharpoonup> bytes"
  t_offline :: "string \<Rightarrow> OfflineMessage list"
  t_archive :: "string \<Rightarrow> ArchivedMessage list"
  t_counter :: "64 word"
  t_rooms :: "string \<rightharpoonup> MUCRoom"
  t_affs :: "string \<times> string \<rightharpoonup> MUCAffiliation"
  t_nodes :: "string \<times> string \<rightharpoonup> PubSubNode"
  t_items :: "key3 \<rightharpoonup> PubSubItem"
  t_subs :: "key3 \<rightharpoonup> PubSubSubscription"
  t_marks :: "string \<times> string \<rightharpoonup> Bookmark"

definition no_tables :: tables where
  "no_tables =
     \<lparr>t_users = Map.empty, t_roster = Map.empty, t_versions = Map.empty, t_blocked = Map.empty, t_vcards = Map.empty,
      t_offline = (\<lambda>_. []), t_archive = (\<lambda>_. []), t_counter = 0,
      t_rooms = Map.empty, t_affs = Map.empty, t_nodes = Map.empty, t_items = Map.empty,
      t_subs = Map.empty, t_marks = Map.empty\<rparr>"

text \<open>What is left of a table of items or subscriptions without those of a node, and of affiliations without those of a room.\<close>

definition without_node :: "string \<times> string \<Rightarrow> (key3 \<rightharpoonup> 'v) \<Rightarrow> (key3 \<rightharpoonup> 'v)" where
  "without_node n t k = (if (fst k, fst (snd k)) = n then None else t k)"

definition without_room :: "string \<Rightarrow> (string \<times> string \<rightharpoonup> 'v) \<Rightarrow> (string \<times> string \<rightharpoonup> 'v)" where
  "without_room j t k = (if fst k = j then None else t k)"

text \<open>The effect of a call.\<close>

fun user_effect :: "user_call \<Rightarrow> tables \<Rightarrow> tables" where
  "user_effect (CallCreateUser now u) T =
     (if t_users T (u_Username u) = None
      then T\<lparr>t_users := (t_users T)(u_Username u \<mapsto> u\<lparr>u_CreatedAt := now, u_UpdatedAt := now\<rparr>)\<rparr> else T)"
| "user_effect (CallUpdateUser now u) T =
     (if t_users T (u_Username u) = None then T else T\<lparr>t_users := (t_users T)(u_Username u \<mapsto> u\<lparr>u_UpdatedAt := now\<rparr>)\<rparr>)"
| "user_effect (CallDeleteUser n) T = T\<lparr>t_users := (t_users T)(n := None)\<rparr>"
| "user_effect _ T = T"

fun roster_effect :: "roster_call \<Rightarrow> tables \<Rightarrow> tables" where
  "roster_effect (CallUpsertRosterItem i) T = T\<lparr>t_roster := (t_roster T)((ri_UserJID i, ri_ContactJID i) \<mapsto> i)\<rparr>"
| "roster_effect (CallDeleteRosterItem k) T = T\<lparr>t_roster := (t_roster T)(k := None)\<rparr>"
| "roster_effect (CallSetRosterVersion u v) T = T\<lparr>t_versions := (t_versions T)(u \<mapsto> v)\<rparr>"
| "roster_effect _ T = T"

fun blocking_effect :: "blocking_call \<Rightarrow> tables \<Rightarrow> tables" where
  "blocking_effect (CallBlockJID u j) T = T\<lparr>t_blocked := (t_blocked T)((u, j) \<mapsto> True)\<rparr>"
| "blocking_effect (CallUnblockJID u j) T = T\<lparr>t_blocked := (t_blocked T)((u, j) := None)\<rparr>"
| "blocking_effect _ T = T"

fun vcard_effect :: "vcard_call \<Rightarrow> tables \<Rightarrow> tables" where
  "vcard_effect (CallSetVCard u d) T = T\<lparr>t_vcards := (t_vcards T)(u \<mapsto> d)\<rparr>"
| "vcard_effect (CallDeleteVCard u) T = T\<lparr>t_vcards := (t_vcards T)(u := None)\<rparr>"
| "vcard_effect _ T = T"

fun offline_effect :: "offline_call \<Rightarrow> tables \<Rightarrow> tables" where
  "offline_effect (CallStoreOfflineMessage now m) T =
     T\<lparr>t_offline := (t_offline T)(off_UserJID m :=
         t_offline T (off_UserJID m) @ [if IsZero (off_CreatedAt m) then m\<lparr>off_CreatedAt := now\<rparr> else m])\<rparr>"
| "offline_effect (CallDeleteOfflineMessages u) T = T\<lparr>t_offline := (t_offline T)(u := [])\<rparr>"
| "offline_effect _ T = T"

fun mam_effect :: "mam_call \<Rightarrow> tables \<Rightarrow> tables" where
  "mam_effect (CallArchiveMessage now m) T =
     (let n = (if am_ID m = [] then t_counter T + 1 else t_counter T)
      in T\<lparr>t_counter := n, t_archive := (t_archive T)(am_UserJID m := t_archive T (am_UserJID m) @
           [m\<lparr>am_ID := (if am_ID m = [] then decimal n else am_ID m),
              am_CreatedAt := (if IsZero (am_CreatedAt m) then now else am_CreatedAt m)\<rparr>])\<rparr>)"
| "mam_effect (CallDeleteMessageArchive u) T = T\<lparr>t_archive := (t_archive T)(u := [])\<rparr>"
| "mam_effect _ T = T"

fun muc_effect :: "muc_call \<Rightarrow> tables \<Rightarrow> tables" where
  "muc_effect (CallCreateRoom r) T =
     (if t_rooms T (room_RoomJID r) = None then T\<lparr>t_rooms := (t_rooms T)(room_RoomJID r \<mapsto> r)\<rparr> else T)"
| "muc_effect (CallUpdateRoom r) T =
     (if t_rooms T (room_RoomJID r) = None then T else T\<lparr>t_rooms := (t_rooms T)(room_RoomJID r \<mapsto> r)\<rparr>)"
| "muc_effect (CallDeleteRoom j) T =
     (if t_rooms T j = None then T else T\<lparr>t_rooms := (t_rooms T)(j := None), t_affs := without_room j (t_affs T)\<rparr>)"
| "muc_effect (CallSetAffiliation a) T = T\<lparr>t_affs := (t_affs T)((aff_RoomJID a, aff_UserJID a) \<mapsto> a)\<rparr>"
| "muc_effect (CallRemoveAffiliation k) T = T\<lparr>t_affs := (t_affs T)(k := None)\<rparr>"
| "muc_effect _ T = T"

fun pubsub_effect :: "pubsub_call \<Rightarrow> tables \<Rightarrow> tables" where
  "pubsub_effect (CallCreateNode n) T =
     (if t_nodes T (node_Host n, node_NodeID n) = None then T\<lparr>t_nodes := (t_nodes T)((node_Host n, node_NodeID n) \<mapsto> n)\<rparr> else T)"
| "pubsub_effect (CallDeleteNode k) T =
     (if t_nodes T k = None then T
      else T\<lparr>t_nodes := (t_nodes T)(k := None), t_items := without_node k (t_items T), t_subs := without_node k (t_subs T)\<rparr>)"
| "pubsub_effect (CallUpsertItem now i) T =
     T\<lparr>t_items := (t_items T)((item_Host i, item_NodeID i, item_ItemID i) \<mapsto> stamp_item now i)\<rparr>"
| "pubsub_effect (CallDeleteItem k) T = T\<lparr>t_items := (t_items T)(k := None)\<rparr>"
| "pubsub_effect (CallSubscribe b) T = T\<lparr>t_subs := (t_subs T)((sub_Host b, sub_NodeID b, sub_JID b) \<mapsto> b)\<rparr>"
| "pubsub_effect (CallUnsubscribe k) T = T\<lparr>t_subs := (t_subs T)(k := None)\<rparr>"
| "pubsub_effect _ T = T"

fun bookmark_effect :: "bookmark_call \<Rightarrow> tables \<Rightarrow> tables" where
  "bookmark_effect (CallSetBookmark b) T = T\<lparr>t_marks := (t_marks T)((bm_UserJID b, bm_RoomJID b) \<mapsto> b)\<rparr>"
| "bookmark_effect (CallDeleteBookmark k) T = T\<lparr>t_marks := (t_marks T)(k := None)\<rparr>"
| "bookmark_effect _ T = T"

fun table_effect :: "storage_call \<Rightarrow> tables \<Rightarrow> tables" where
  "table_effect (UserStore c) T = user_effect c T"
| "table_effect (RosterStore c) T = roster_effect c T"
| "table_effect (BlockingStore c) T = blocking_effect c T"
| "table_effect (VCardStore c) T = vcard_effect c T"
| "table_effect (OfflineStore c) T = offline_effect c T"
| "table_effect (MAMStore c) T = mam_effect c T"
| "table_effect (MUCRoomStore c) T = muc_effect c T"
| "table_effect (PubSubStore c) T = pubsub_effect c T"
| "table_effect (BookmarkStore c) T = bookmark_effect c T"

text \<open>
  The replies: \<open>rows P t xs\<close> says that \<open>xs\<close> are the rows of \<open>t\<close> whose keys satisfy \<open>P\<close>, each once, in any order.
\<close>

definition rows :: "('k \<Rightarrow> bool) \<Rightarrow> ('k \<rightharpoonup> 'v) \<Rightarrow> 'v list \<Rightarrow> bool" where
  "rows P t xs \<longleftrightarrow> (\<exists>ks. distinct ks \<and> set ks = {k \<in> dom t. P k} \<and> xs = map (\<lambda>k. the (t k)) ks)"

definition missing :: "storage_error \<Rightarrow> 'v option \<Rightarrow> storage_reply" where
  "missing e x = Done (if x = None then Some e else None)"

definition present :: "storage_error \<Rightarrow> 'v option \<Rightarrow> storage_reply" where
  "present e x = Done (if x = None then None else Some e)"

fun user_reply :: "user_call \<Rightarrow> tables \<Rightarrow> storage_reply \<Rightarrow> bool" where
  "user_reply (CallCreateUser now u) T r \<longleftrightarrow> r = present ErrUserExists (t_users T (u_Username u))"
| "user_reply (CallGetUser n) T r \<longleftrightarrow> r = ReplyUser (lookup_result (t_users T n))"
| "user_reply (CallUpdateUser now u) T r \<longleftrightarrow> r = missing ErrNotFound (t_users T (u_Username u))"
| "user_reply (CallDeleteUser n) T r \<longleftrightarrow> r = missing ErrNotFound (t_users T n)"
| "user_reply (CallUserExists n) T r \<longleftrightarrow> r = ReplyBool (Inr (t_users T n \<noteq> None))"
| "user_reply (CallAuthenticate n pw) T r \<longleftrightarrow>
     r = ReplyAuth (if map_option u_Password (t_users T n) = Some pw then (True, None) else (False, Some ErrAuthFailed))"

fun roster_reply :: "roster_call \<Rightarrow> tables \<Rightarrow> storage_reply \<Rightarrow> bool" where
  "roster_reply (CallUpsertRosterItem i) T r \<longleftrightarrow> r = Done None"
| "roster_reply (CallGetRosterItem k) T r \<longleftrightarrow> r = ReplyItem (lookup_result (t_roster T k))"
| "roster_reply (CallGetRosterItems u) T r \<longleftrightarrow> (\<exists>xs. r = ReplyItems (Inr xs) \<and> rows (\<lambda>k. fst k = u) (t_roster T) xs)"
| "roster_reply (CallDeleteRosterItem k) T r \<longleftrightarrow> r = missing ErrNotFound (t_roster T k)"
| "roster_reply (CallGetRosterVersion u) T r \<longleftrightarrow> r = ReplyText (Inr (case t_versions T u of None \<Rightarrow> [] | Some v \<Rightarrow> v))"
| "roster_reply (CallSetRosterVersion u v) T r \<longleftrightarrow> r = Done None"

fun blocking_reply :: "blocking_call \<Rightarrow> tables \<Rightarrow> storage_reply \<Rightarrow> bool" where
  "blocking_reply (CallBlockJID u j) T r \<longleftrightarrow> r = Done None"
| "blocking_reply (CallUnblockJID u j) T r \<longleftrightarrow> r = Done None"
| "blocking_reply (CallIsBlocked u j) T r \<longleftrightarrow> r = ReplyBool (Inr (t_blocked T (u, j) = Some True))"
| "blocking_reply (CallGetBlockedJIDs u) T r \<longleftrightarrow>
     (\<exists>js. r = ReplyTexts (Inr js) \<and> distinct js \<and> set js = {j. t_blocked T (u, j) \<noteq> None})"

fun vcard_reply :: "vcard_call \<Rightarrow> tables \<Rightarrow> storage_reply \<Rightarrow> bool" where
  "vcard_reply (CallSetVCard u d) T r \<longleftrightarrow> r = Done None"
| "vcard_reply (CallGetVCard u) T r \<longleftrightarrow> r = ReplyBytes (lookup_result (t_vcards T u))"
| "vcard_reply (CallDeleteVCard u) T r \<longleftrightarrow> r = missing ErrNotFound (t_vcards T u)"

fun offline_reply :: "offline_call \<Rightarrow> tables \<Rightarrow> storage_reply \<Rightarrow> bool" where
  "offline_reply (CallStoreOfflineMessage now m) T r \<longleftrightarrow> r = Done None"
| "offline_reply (CallGetOfflineMessages u) T r \<longleftrightarrow> r = ReplyOffline (Inr (t_offline T u))"
| "offline_reply (CallDeleteOfflineMessages u) T r \<longleftrightarrow> r = Done None"
| "offline_reply (CallCountOfflineMessages u) T r \<longleftrightarrow> r = ReplyCount (Inr (length (t_offline T u)))"

text \<open>A query sees the archive behind the message \<open>AfterID\<close>, up to \<open>BeforeID\<close>, and returns one page of what matches.\<close>

definition behind :: "string \<Rightarrow> ArchivedMessage list \<Rightarrow> ArchivedMessage list" where
  "behind i ms = (if i = [] then ms else tl (dropWhile (\<lambda>m. am_ID m \<noteq> i) ms))"

fun mam_reply :: "mam_call \<Rightarrow> tables \<Rightarrow> storage_reply \<Rightarrow> bool" where
  "mam_reply (CallArchiveMessage now m) T r \<longleftrightarrow> r = Done None"
| "mam_reply (CallQueryMessages q) T r \<longleftrightarrow>
     (let found = mam_spec q (behind (q_AfterID q) (t_archive T (q_UserJID q))); page = take (mam_max q) found
      in r = ReplyMAM (Inr \<lparr>mr_Messages = page, mr_Complete = (length found \<le> mam_max q),
           mr_First = (if page = [] then [] else am_ID (hd page)), mr_Last = (if page = [] then [] else am_ID (last page)),
           mr_Count = length page\<rparr>))"
| "mam_reply (CallDeleteMessageArchive u) T r \<longleftrightarrow> r = Done None"

fun muc_reply :: "muc_call \<Rightarrow> tables \<Rightarrow> storage_reply \<Rightarrow> bool" where
  "muc_reply (CallCreateRoom x) T r \<longleftrightarrow> r = present ErrUserExists (t_rooms T (room_RoomJID x))"
| "muc_reply (CallGetRoom j) T r \<longleftrightarrow> r = ReplyRoom (lookup_result (t_rooms T j))"
| "muc_reply (CallUpdateRoom x) T r \<longleftrightarrow> r = missing ErrNotFound (t_rooms T (room_RoomJID x))"
| "muc_reply (CallDeleteRoom j) T r \<longleftrightarrow> r = missing ErrNotFound (t_rooms T j)"
| "muc_reply CallListRooms T r \<longleftrightarrow> (\<exists>xs. r = ReplyRooms (Inr xs) \<and> rows (\<lambda>k. True) (t_rooms T) xs)"
| "muc_reply (CallSetAffiliation a) T r \<longleftrightarrow> r = Done None"
| "muc_reply (CallGetAffiliation k) T r \<longleftrightarrow> r = ReplyAff (lookup_result (t_affs T k))"
| "muc_reply (CallGetAffiliations j) T r \<longleftrightarrow> (\<exists>xs. r = ReplyAffs (Inr xs) \<and> rows (\<lambda>k. fst k = j) (t_affs T) xs)"
| "muc_reply (CallRemoveAffiliation k) T r \<longleftrightarrow> r = Done None"

fun pubsub_reply :: "pubsub_call \<Rightarrow> tables \<Rightarrow> storage_reply \<Rightarrow> bool" where
  "pubsub_reply (CallCreateNode n) T r \<longleftrightarrow> r = present ErrUserExists (t_nodes T (node_Host n, node_NodeID n))"
| "pubsub_reply (CallGetNode k) T r \<longleftrightarrow> r = ReplyNode (lookup_result (t_nodes T k))"
| "pubsub_reply (CallDeleteNode k) T r \<longleftrightarrow> r = missing ErrNotFound (t_nodes T k)"
| "pubsub_reply (CallListNodes h) T r \<longleftrightarrow> (\<exists>xs. r = ReplyNodes (Inr xs) \<and> rows (\<lambda>k. fst k = h) (t_nodes T) xs)"
| "pubsub_reply (CallUpsertItem now i) T r \<longleftrightarrow> r = Done None"
| "pubsub_reply (CallGetItem k) T r \<longleftrightarrow> r = ReplyPubItem (lookup_result (t_items T k))"
| "pubsub_reply (CallGetItems n) T r \<longleftrightarrow>
     (\<exists>xs. r = ReplyPubItems (Inr xs) \<and> rows (\<lambda>k. (fst k, fst (snd k)) = n) (t_items T) xs \<and> sorted (map item_CreatedAt xs))"
| "pubsub_reply (CallDeleteItem k) T r \<longleftrightarrow> r = missing ErrNotFound (t_items T k)"
| "pubsub_reply (CallSubscribe b) T r \<longleftrightarrow> r = Done None"
| "pubsub_reply (CallUnsubscribe k) T r \<longleftrightarrow> r = Done None"
| "pubsub_reply (CallGetSubscription k) T r \<longleftrightarrow> r = ReplySub (lookup_result (t_subs T k))"
| "pubsub_reply (CallGetSubscriptions n) T r \<longleftrightarrow>
     (\<exists>xs. r = ReplySubs (Inr xs) \<and> rows (\<lambda>k. (fst k, fst (snd k)) = n) (t_subs T) xs)"
| "pubsub_reply (CallGetUserSubscriptions h j) T r \<longleftrightarrow>
     (\<exists>xs. r = ReplySubs (Inr xs) \<and> rows (\<lambda>k. fst k = h \<and> snd (snd k) = j) (t_subs T) xs)"

fun bookmark_reply :: "bookmark_call \<Rightarrow> tables \<Rightarrow> storage_reply \<Rightarrow> bool" where
  "bookmark_reply (CallSetBookmark b) T r \<longleftrightarrow> r = Done None"
| "bookmark_reply (CallGetBookmark k) T r \<longleftrightarrow> r = ReplyBookmark (lookup_result (t_marks T k))"
| "bookmark_reply (CallGetBookmarks u) T r \<longleftrightarrow> (\<exists>xs. r = ReplyBookmarks (Inr xs) \<and> rows (\<lambda>k. fst k = u) (t_marks T) xs)"
| "bookmark_reply (CallDeleteBookmark k) T r \<longleftrightarrow> r = missing ErrNotFound (t_marks T k)"

fun table_reply :: "storage_call \<Rightarrow> tables \<Rightarrow> storage_reply \<Rightarrow> bool" where
  "table_reply (UserStore c) T r = user_reply c T r"
| "table_reply (RosterStore c) T r = roster_reply c T r"
| "table_reply (BlockingStore c) T r = blocking_reply c T r"
| "table_reply (VCardStore c) T r = vcard_reply c T r"
| "table_reply (OfflineStore c) T r = offline_reply c T r"
| "table_reply (MAMStore c) T r = mam_reply c T r"
| "table_reply (MUCRoomStore c) T r = muc_reply c T r"
| "table_reply (PubSubStore c) T r = pubsub_reply c T r"
| "table_reply (BookmarkStore c) T r = bookmark_reply c T r"

section \<open>The store as tables\<close>

definition queues :: "('a \<rightharpoonup> 'v list) \<Rightarrow> 'a \<Rightarrow> 'v list" where
  "queues m u = (case m u of None \<Rightarrow> [] | Some ms \<Rightarrow> ms)"

lemma queues_simps [simp]:
  "queues (m(u \<mapsto> ms)) = (queues m)(u := ms)" "queues (m(u := None)) = (queues m)(u := [])" "queues Map.empty = (\<lambda>_. [])"
  by (auto simp: queues_def fun_eq_iff)

lemma queues_of: "offline_of s = queues (offlineMsgs s)" "archive_of s = queues (mamMessages s)"
  by (simp_all add: fun_eq_iff queues_def offline_of_def archive_of_def)

definition tables_of :: "MemStore \<Rightarrow> tables" where
  "tables_of s =
     \<lparr>t_users = users s, t_roster = flat2 (rosterItems s), t_versions = rosterVersions s, t_blocked = flat2 (blocked s),
      t_vcards = vcards s, t_offline = queues (offlineMsgs s), t_archive = queues (mamMessages s), t_counter = mamIDCounter s,
      t_rooms = mucRooms s, t_affs = flat2 (mucAffiliations s),
      t_nodes = flat2 (pubsubNodes s), t_items = flat3 (pubsubItems s), t_subs = flat3 (pubsubSubscriptions s),
      t_marks = flat2 (bookmarks s)\<rparr>"

lemma tables_of_NewStore: "tables_of NewStore = no_tables"
  by (simp add: tables_of_def no_tables_def NewStore_def)

text \<open>A listing of the part of a table under a fixed prefix of the key.\<close>

lemma rows_listing:
  assumes "distinct ks" "\<And>c. r c \<noteq> None \<Longrightarrow> c \<in> set ks" "\<And>c. t (f c) = r c" "inj f" "\<And>k. P k \<longleftrightarrow> k \<in> range f"
  shows "rows P t (range_values ks r)"
proof -
  let ?ks = "map f (filter (\<lambda>c. r c \<noteq> None) ks)"
  have "distinct ?ks" using assms(1,4) by (auto simp: distinct_map inj_on_def)
  moreover have "set ?ks = {k \<in> dom t. P k}" using assms(2,3,5) by (auto simp: image_iff)
  moreover have "range_values xs r = map (\<lambda>k. the (t k)) (map f (filter (\<lambda>c. r c \<noteq> None) xs))" for xs
    by (induction xs) (auto simp: assms(3))
  ultimately show ?thesis unfolding rows_def by blast
qed

lemma sort_key_map: "sort_key f (map g xs) = map g (sort_key (\<lambda>x. f (g x)) xs)"
proof -
  have "insort_key f (g x) (map g ys) = map g (insort_key (\<lambda>x. f (g x)) x ys)" for x ys
    by (induction ys) auto
  then show ?thesis by (induction xs) auto
qed

lemma rows_sort: "rows P t xs \<Longrightarrow> rows P t (sort_key f xs)"
proof -
  assume "rows P t xs"
  then obtain ks where "distinct ks" "set ks = {k \<in> dom t. P k}" "xs = map (\<lambda>k. the (t k)) ks"
    by (auto simp: rows_def)
  then show ?thesis
    unfolding rows_def by (intro exI [of _ "sort_key (\<lambda>k. f (the (t k))) ks"]) (simp add: sort_key_map)
qed

lemma rows2: "enumerates ks (inner t u) \<Longrightarrow> rows (\<lambda>k. fst k = u) (flat2 t) (range_values ks (inner t u))"
  by (rule rows_listing [where f = "Pair u"]) (auto simp: enumerates_def flat2_def inner_get2 inj_def)

lemma rows3:
  "enumerates ks (inner (inner t h) n) \<Longrightarrow>
     rows (\<lambda>k. (fst k, fst (snd k)) = (h, n)) (flat3 t) (range_values ks (inner (inner t h) n))"
  by (rule rows_listing [where f = "\<lambda>c. (h, n, c)"]) (auto simp: enumerates_def flat3_def inner_inner inj_def)

lemma rows_user:
  "distinct ks \<Longrightarrow> \<forall>n. get3 t h n j \<noteq> None \<longrightarrow> n \<in> set ks \<Longrightarrow>
     rows (\<lambda>k. fst k = h \<and> snd (snd k) = j) (flat3 t) (range_values ks (\<lambda>n. get3 t h n j))"
  by (rule rows_listing [where f = "\<lambda>n. (h, n, j)"]) (auto simp: flat3_def inj_def)

lemma rows_all: "enumerates ks t \<Longrightarrow> rows (\<lambda>_. True) t (range_values ks t)"
  by (rule rows_listing [where f = "\<lambda>c. c"]) (auto simp: enumerates_def inj_def)

lemma mam_filter_behind: "mam_filter q (q_AfterID q = []) ms = mam_spec q (behind (q_AfterID q) ms)"
proof (cases "q_AfterID q = []")
  case False
  then have "mam_filter q False ms = mam_spec q (tl (dropWhile (\<lambda>m. am_ID m \<noteq> q_AfterID q) ms))"
    by (induction ms) (auto simp: mam_filter_found, simp add: mam_spec_def)
  with False show ?thesis by (simp add: behind_def)
qed (simp add: behind_def mam_filter_found)

section \<open>Steps\<close>

definition refines_tables :: "storage_call \<Rightarrow> MemStore \<Rightarrow> MemStore \<times> storage_reply \<Rightarrow> bool" where
  "refines_tables c s out \<longleftrightarrow>
     tables_of (fst out) = table_effect c (tables_of s) \<and> table_reply c (tables_of s) (snd out)"

lemmas step_defs = refines_tables_def tables_of_def writes_def reads_def Let_def

lemma user_refines: "refines_tables (UserStore c) s (mem_user c s)"
  by (cases c) (auto simp: step_defs CreateUser_def GetUser_def UpdateUser_def DeleteUser_def UserExists_def
      Authenticate_def lookup_result_def missing_def present_def fun_upd_idem split: option.splits if_splits)

lemma roster_refines: "mem_order ks (RosterStore c) s \<Longrightarrow> refines_tables (RosterStore c) s (mem_roster ks c s)"
  by (cases c) (auto simp: step_defs UpsertRosterItem_def GetRosterItem_def GetRosterItems_def DeleteRosterItem_del2
      GetRosterVersion_def SetRosterVersion_def lookup_result_def missing_def flat2_def [of "rosterItems s"] rows2
      split: option.splits if_splits)

lemma blocking_refines: "mem_order ks (BlockingStore c) s \<Longrightarrow> refines_tables (BlockingStore c) s (mem_blocking ks c s)"
  by (cases c) (auto simp: step_defs BlockJID_def UnblockJID_def IsBlocked_def GetBlockedJIDs_def flat2_def [of "blocked s"]
      get2_def enumerates_def inner_get2 split: option.splits)

lemma vcard_refines: "refines_tables (VCardStore c) s (mem_vcard c s)"
  by (cases c) (auto simp: step_defs SetVCard_def GetVCard_def DeleteVCard_def lookup_result_def missing_def fun_upd_idem
      split: option.splits)

lemma offline_refines: "refines_tables (OfflineStore c) s (mem_offline c s)"
  by (cases c) (auto simp: step_defs StoreOfflineMessage_def GetOfflineMessages_def DeleteOfflineMessages_def
      CountOfflineMessages_def queues_of)

lemma mam_refines: "refines_tables (MAMStore c) s (mem_mam c s)"
proof (cases c)
  case (CallArchiveMessage now m)
  then show ?thesis by (auto simp: step_defs ArchiveMessage_def queues_of)
next
  case (CallQueryMessages q)
  then show ?thesis
    by (auto simp: step_defs QueryMessages_def queues_of mam_filter_behind)
next
  case (CallDeleteMessageArchive u)
  then show ?thesis by (simp add: step_defs DeleteMessageArchive_def)
qed

lemma without_simps:
  "flat2 (t(j := None)) = without_room j (flat2 t)" "flat3 (del2 t3 (fst k) (snd k)) = without_node k (flat3 t3)"
  by (auto simp: fun_eq_iff flat2_def flat3_def get2_def without_room_def without_node_def prod_eq_iff split: option.splits)

lemma muc_refines: "mem_order ks (MUCRoomStore c) s \<Longrightarrow> refines_tables (MUCRoomStore c) s (mem_muc ks c s)"
  by (cases c) (auto simp: step_defs CreateRoom_def GetRoom_def UpdateRoom_def ListRooms_def SetAffiliation_def GetAffiliation_def
      GetAffiliations_def RemoveAffiliation_def DeleteRoom_def without_simps lookup_result_def missing_def present_def
      flat2_def [of "mucAffiliations s"] rows2 rows_all split: option.splits if_splits)

lemma bookmark_refines: "mem_order ks (BookmarkStore c) s \<Longrightarrow> refines_tables (BookmarkStore c) s (mem_bookmark ks c s)"
  by (cases c) (auto simp: step_defs SetBookmark_def GetBookmark_def GetBookmarks_def DeleteBookmark_del2
      lookup_result_def missing_def flat2_def [of "bookmarks s"] rows2 split: option.splits if_splits)

lemma pubsub_refines: "mem_order ks (PubSubStore c) s \<Longrightarrow> refines_tables (PubSubStore c) s (mem_pubsub ks c s)"
proof (cases c)
  case (CallCreateNode n)
  then show ?thesis by (simp add: step_defs CreateNode_put2 present_def)
next
  case (CallDeleteNode k)
  then show ?thesis by (simp add: step_defs DeleteNode_def missing_def without_simps flat2_def [of _ k])
next
  case (CallGetItems n)
  assume "mem_order ks (PubSubStore c) s"
  with CallGetItems show ?thesis
    using rows_sort [OF rows3 [of ks "pubsubItems s" "fst n" "snd n"], of item_CreatedAt]
    by (simp add: step_defs GetItems_def)
next
  case (CallDeleteItem k)
  obtain r where "DeleteItem k s = (s\<lparr>pubsubItems := r\<rparr>, if flat3 (pubsubItems s) k = None then Some ErrNotFound else None)"
    "flat3 r = (flat3 (pubsubItems s))(k := None)" by (rule DeleteItem_flat3)
  with CallDeleteItem show ?thesis by (simp add: step_defs missing_def)
next
  case (CallUnsubscribe k)
  obtain r where "Unsubscribe k s = (s\<lparr>pubsubSubscriptions := r\<rparr>, None)"
    "flat3 r = (flat3 (pubsubSubscriptions s))(k := None)" by (rule Unsubscribe_flat3)
  with CallUnsubscribe show ?thesis by (simp add: step_defs)
next
  case (CallGetSubscriptions n)
  assume "mem_order ks (PubSubStore c) s"
  with CallGetSubscriptions show ?thesis
    using rows3 [of ks "pubsubSubscriptions s" "fst n" "snd n"] by (simp add: step_defs GetSubscriptions_def)
qed (simp_all add: step_defs GetNode_def ListNodes_def UpsertItem_def GetItem_def Subscribe_def GetSubscription_def
      GetUserSubscriptions_def lookup_result_def flat2_def [of "pubsubNodes s"] flat3_def [of "pubsubItems s"]
      flat3_def [of "pubsubSubscriptions s"] rows2 rows_user)

lemma mem_call_refines: "mem_order ks c s \<Longrightarrow> refines_tables c s (mem_call ks c s)"
  by (cases c) (simp_all add: user_refines roster_refines blocking_refines vcard_refines offline_refines mam_refines
      muc_refines pubsub_refines bookmark_refines)

section \<open>Runs\<close>

text \<open>The tables after the calls of a run.\<close>

definition tables_after :: "(storage_call \<times> storage_reply) list \<Rightarrow> tables \<Rightarrow> tables" where
  "tables_after tr T = fold (\<lambda>(c, r). table_effect c) tr T"

lemma runs_refine_tables:
  assumes "runs mem_order mem_call s tr s'"
  shows "tables_of s' = tables_after tr (tables_of s) \<and>
    (\<forall>pre c r post. tr = pre @ (c, r) # post \<longrightarrow> table_reply c (tables_after pre (tables_of s)) r)"
  using assms
proof (induction rule: runs.induct)
  case (runs_Nil s)
  then show ?case by (simp add: tables_after_def)
next
  case (runs_Cons ks c s s' r tr s'')
  from mem_call_refines [OF runs_Cons.hyps(1)] runs_Cons.hyps(2)
  have "tables_of s' = table_effect c (tables_of s)" "table_reply c (tables_of s) r" by (simp_all add: refines_tables_def)
  with runs_Cons.IH show ?case by (auto simp: tables_after_def Cons_eq_append_conv)
qed

text \<open>
  C20: the in-memory store is a store of tables.  Take any sequence of calls of the nine interfaces on a new
  store, in any order and with any clock readings, and any order in which its loops visit its maps.  The tables
  that the store then holds are the tables that the effects of the calls build up one after the other from empty
  ones, and each reply is the one that the tables built up by the calls before it determine: lookups, errors and
  queries exactly, listings as the rows asked for, each once (those of items by time).  So every key holds what
  the last write since its last deletion put there, no call disturbs another table, and the deletion of a node or
  a room takes its items, subscriptions or affiliations along.
\<close>

theorem memory_store_refines_tables:
  assumes "runs mem_order mem_call NewStore tr s"
  shows "tables_of s = tables_after tr no_tables \<and>
    (\<forall>pre c r post. tr = pre @ (c, r) # post \<longrightarrow> table_reply c (tables_after pre no_tables) r)"
  using runs_refine_tables [OF assms] by (simp add: tables_of_NewStore)

definition demo_room :: MUCRoom where
  "demo_room = \<lparr>room_RoomJID = ''r'', room_Name = [], room_Description = [], room_Subject = [], room_Password = [],
     room_Public = True, room_Persistent = True, room_MaxUsers = 0\<rparr>"

definition demo_affiliation :: MUCAffiliation where
  "demo_affiliation = \<lparr>aff_RoomJID = ''r'', aff_UserJID = ''u'', aff_Affiliation = ''owner'', aff_Reason = []\<rparr>"

definition demo_run :: "(storage_call \<times> storage_reply) list" where
  "demo_run =
     [(MUCRoomStore (CallCreateRoom demo_room), Done None),
      (MUCRoomStore (CallSetAffiliation demo_affiliation), Done None),
      (MUCRoomStore (CallGetAffiliations ''r''), ReplyAffs (Inr [demo_affiliation])),
      (MUCRoomStore (CallDeleteRoom ''r''), Done None),
      (MUCRoomStore (CallGetAffiliation (''r'', ''u'')), ReplyAff (Inl ErrNotFound))]"

lemma demo_run_runs: "runs mem_order mem_call NewStore demo_run NewStore"
proof -
  note call_simps = writes_def reads_def CreateRoom_def SetAffiliation_def GetAffiliations_def DeleteRoom_def GetAffiliation_def
    NewStore_def demo_room_def demo_affiliation_def put2_def inner_def enumerates_def
  let ?r = "fst (CreateRoom demo_room NewStore)"
  let ?a = "fst (SetAffiliation demo_affiliation ?r)"
  have "runs mem_order mem_call NewStore (drop 4 demo_run) NewStore"
    unfolding demo_run_def by simp (rule runs_Cons [OF _ _ runs_Nil, of _ "[]"], simp_all add: call_simps)
  then have "runs mem_order mem_call ?a (drop 3 demo_run) NewStore"
    unfolding demo_run_def by simp (erule runs_Cons [of _ "[]", rotated 2], simp_all add: call_simps)
  then have "runs mem_order mem_call ?a (drop 2 demo_run) NewStore"
    unfolding demo_run_def by simp (erule runs_Cons [of _ "[''u'']", rotated 2], simp_all add: call_simps)
  then have "runs mem_order mem_call ?r (drop 1 demo_run) NewStore"
    unfolding demo_run_def by simp (erule runs_Cons [of _ "[]", rotated 2], simp_all add: call_simps)
  then show ?thesis
    unfolding demo_run_def by simp (erule runs_Cons [of _ "[]", rotated 2], simp_all add: call_simps)
qed

theorem memory_store_refines_tables_witness:
  "tables_after demo_run no_tables = no_tables \<and>
   table_reply (MUCRoomStore (CallGetAffiliations ''r'')) (tables_after (take 2 demo_run) no_tables)
     (ReplyAffs (Inr [demo_affiliation]))"
proof -
  note ok = memory_store_refines_tables [OF demo_run_runs]
  have "demo_run = take 2 demo_run @
      (MUCRoomStore (CallGetAffiliations ''r''), ReplyAffs (Inr [demo_affiliation])) # drop 3 demo_run"
    by (simp add: demo_run_def)
  then show ?thesis using ok unfolding tables_of_NewStore by metis
qed

end
