(* ===== verification/StorageMongoRefinement.thy ===== *)
theory StorageMongoRefinement
  imports StorageMongoServer StorageTables
begin

text \<open>
  The MongoDB store against the in-memory store: on the calls whose replies do not show what the two do
  differently (time stamps of accounts, the order of offline messages, the archive, the configuration of
  nodes, times finer than the driver stores), every run of the MongoDB store is a run of the in-memory store.
\<close>

section \<open>The collections as tables\<close>

lemmas field_defs = str_field_def int_field_def bool_field_def bytes_field_def time_field_def strings_field_def

text \<open>The document of a value under a key.\<close>

definition user_enc :: "'m mongo \<Rightarrow> string \<Rightarrow> User \<Rightarrow> document" where
  "user_enc M n u = userDoc M (u\<lparr>u_Username := n\<rparr>)"
definition roster_enc :: "string \<times> string \<Rightarrow> RosterItem \<Rightarrow> document" where
  "roster_enc k i = rosterDoc (i\<lparr>ri_UserJID := fst k, ri_ContactJID := snd k\<rparr>)"
definition version_enc :: "string \<Rightarrow> string \<Rightarrow> document" where
  "version_enc u v = [''user_jid'' \<mapsto> BString u, ''version'' \<mapsto> BString v]"
definition blocked_enc :: "string \<times> string \<Rightarrow> bool \<Rightarrow> document" where
  "blocked_enc k b = blockedDoc k"
definition room_enc :: "string \<Rightarrow> MUCRoom \<Rightarrow> document" where
  "room_enc j r = mucRoomDoc (r\<lparr>room_RoomJID := j\<rparr>)"
definition aff_enc :: "string \<times> string \<Rightarrow> MUCAffiliation \<Rightarrow> document" where
  "aff_enc k a = mucAffDoc (a\<lparr>aff_RoomJID := fst k, aff_UserJID := snd k\<rparr>)"
definition node_enc :: "string \<times> string \<Rightarrow> PubSubNode \<Rightarrow> document" where
  "node_enc k n = pubsubNodeDoc (n\<lparr>node_Host := fst k, node_NodeID := snd k\<rparr>)"
definition item_enc :: "'m mongo \<Rightarrow> key3 \<Rightarrow> PubSubItem \<Rightarrow> document" where
  "item_enc M k i = pubsubItemDoc M (i\<lparr>item_Host := fst k, item_NodeID := fst (snd k), item_ItemID := snd (snd k)\<rparr>)"
definition sub_enc :: "key3 \<Rightarrow> PubSubSubscription \<Rightarrow> document" where
  "sub_enc k b = pubsubSubDoc (b\<lparr>sub_Host := fst k, sub_NodeID := fst (snd k), sub_JID := snd (snd k)\<rparr>)"
definition bookmark_enc :: "string \<times> string \<Rightarrow> Bookmark \<Rightarrow> document" where
  "bookmark_enc k b = bookmarkDoc (b\<lparr>bm_UserJID := fst k, bm_RoomJID := snd k\<rparr>)"

lemmas enc_defs = user_enc_def userDoc_def roster_enc_def rosterDoc_def version_enc_def blocked_enc_def blockedDoc_def
  vcardDoc_def room_enc_def mucRoomDoc_def room_fields_def aff_enc_def mucAffDoc_def node_enc_def pubsubNodeDoc_def
  item_enc_def pubsubItemDoc_def sub_enc_def pubsubSubDoc_def bookmark_enc_def bookmarkDoc_def

lemmas filter_defs = roster_filter_def blocked_filter_def aff_filter_def node_filter_def item_filter_def sub_filter_def
  bookmark_filter_def matches_def

interpretation users: collection "user_enc M" "\<lambda>n. [eq_str ''username'' n]" "[''username'']" for M
  by unfold_locales (auto simp: enc_defs filter_defs)

interpretation rosters: collection roster_enc roster_filter "[''user_jid'', ''contact_jid'']"
  by unfold_locales (auto simp: enc_defs filter_defs prod_eq_iff)

interpretation versions: collection version_enc "\<lambda>u. [eq_str ''user_jid'' u]" "[''user_jid'']"
  by unfold_locales (auto simp: enc_defs filter_defs)

interpretation blocks: collection blocked_enc blocked_filter "[''user_jid'', ''blocked_jid'']"
  by unfold_locales (auto simp: enc_defs filter_defs prod_eq_iff)

interpretation vcards: collection vcardDoc "\<lambda>u. [eq_str ''user_jid'' u]" "[''user_jid'']"
  by unfold_locales (auto simp: enc_defs filter_defs)

interpretation rooms: collection room_enc "\<lambda>j. [eq_str ''room_jid'' j]" "[''room_jid'']"
  by unfold_locales (auto simp: enc_defs filter_defs)

interpretation affs: collection aff_enc aff_filter "[''room_jid'', ''user_jid'']"
  by unfold_locales (auto simp: enc_defs filter_defs prod_eq_iff)

interpretation nodes: collection node_enc node_filter "[''host'', ''node_id'']"
  by unfold_locales (auto simp: enc_defs filter_defs prod_eq_iff)

interpretation items: collection "item_enc M" item_filter "[''host'', ''node_id'', ''item_id'']" for M
  by unfold_locales (auto simp: enc_defs filter_defs prod_eq_iff)

interpretation subs: collection sub_enc sub_filter "[''host'', ''node_id'', ''jid'']"
  by unfold_locales (auto simp: enc_defs filter_defs prod_eq_iff)

interpretation marks: collection bookmark_enc bookmark_filter "[''user_jid'', ''room_jid'']"
  by unfold_locales (auto simp: enc_defs filter_defs prod_eq_iff)

text \<open>Documents are decoded to the values they were made from.\<close>

lemmas decode_defs = Decode_def fits_def field_defs enc_defs

lemma un_roster_enc: "(ri_UserJID i, ri_ContactJID i) = k \<Longrightarrow> un_rosterDoc (roster_enc k i) = Inr i"
  by (auto simp: un_rosterDoc_def decode_defs)
lemma un_version_enc: "un_version (version_enc u v) = Inr v"
  by (simp add: un_version_def decode_defs)
lemma un_blocked_enc: "un_blocked (blocked_enc k b) = Inr (snd k)"
  by (simp add: un_blocked_def decode_defs)
lemma un_vcard_enc: "un_vcard (vcardDoc u d) = Inr d"
  by (simp add: un_vcard_def decode_defs)
lemma un_room_enc: "room_RoomJID r = j \<Longrightarrow> un_mucRoomDoc (room_enc j r) = Inr r"
  by (auto simp: un_mucRoomDoc_def decode_defs)
lemma un_aff_enc: "(aff_RoomJID a, aff_UserJID a) = k \<Longrightarrow> un_mucAffDoc (aff_enc k a) = Inr a"
  by (auto simp: un_mucAffDoc_def decode_defs)
lemma un_node_enc: "(node_Host n, node_NodeID n) = k \<and> node_Config n = None \<Longrightarrow> un_pubsubNodeDoc (node_enc k n) = Inr n"
  by (auto simp: un_pubsubNodeDoc_def decode_defs)
lemma un_item_enc:
  "(item_Host i, item_NodeID i, item_ItemID i) = k \<and> mg_time M (item_CreatedAt i) = item_CreatedAt i \<Longrightarrow>
     un_pubsubItemDoc (item_enc M k i) = Inr i"
  by (auto simp: un_pubsubItemDoc_def decode_defs)
lemma un_sub_enc: "(sub_Host b, sub_NodeID b, sub_JID b) = k \<Longrightarrow> un_pubsubSubDoc (sub_enc k b) = Inr b"
  by (auto simp: un_pubsubSubDoc_def decode_defs)
lemma un_bookmark_enc: "(bm_UserJID b, bm_RoomJID b) = k \<Longrightarrow> un_bookmarkDoc (bookmark_enc k b) = Inr b"
  by (auto simp: un_bookmarkDoc_def decode_defs)

definition stored_user :: "'m mongo \<Rightarrow> User \<Rightarrow> User" where
  "stored_user M u = u\<lparr>u_CreatedAt := mg_time M (u_CreatedAt u), u_UpdatedAt := mg_time M (u_UpdatedAt u)\<rparr>"

lemma un_user_enc: "u_Username u = n \<Longrightarrow> un_userDoc (user_enc M n u) = Inr (stored_user M u)"
  by (auto simp: un_userDoc_def stored_user_def decode_defs)

section \<open>The simulation\<close>

text \<open>What is in each collection for the contents of an in-memory store; \<open>us\<close> are the accounts.\<close>

definition mongo_tables :: "'m mongo \<Rightarrow> (string \<rightharpoonup> User) \<Rightarrow> MemStore \<Rightarrow> (string \<times> document multiset) list" where
  "mongo_tables M us s =
     [(''users'', collection.coll (user_enc M) us),
      (''roster_items'', rosters.coll (flat2 (rosterItems s))),
      (''roster_versions'', versions.coll (rosterVersions s)),
      (''blocked_jids'', blocks.coll (flat2 (blocked s))),
      (''vcards'', vcards.coll (MemStore.vcards s)),
      (''muc_rooms'', rooms.coll (mucRooms s)),
      (''muc_affiliations'', affs.coll (flat2 (mucAffiliations s))),
      (''pubsub_nodes'', nodes.coll (flat2 (pubsubNodes s))),
      (''pubsub_items'', collection.coll (item_enc M) (flat3 (pubsubItems s))),
      (''pubsub_subscriptions'', subs.coll (flat3 (pubsubSubscriptions s))),
      (''bookmarks'', marks.coll (flat2 (bookmarks s)))]"

definition table_ok :: "('k \<Rightarrow> 'v \<Rightarrow> bool) \<Rightarrow> ('k \<rightharpoonup> 'v) \<Rightarrow> bool" where
  "table_ok P t \<longleftrightarrow> finite (dom t) \<and> (\<forall>k v. t k = Some v \<longrightarrow> P k v)"

definition mongo_wf :: "'m mongo \<Rightarrow> (string \<rightharpoonup> User) \<Rightarrow> MemStore \<Rightarrow> bool" where
  "mongo_wf M us s \<longleftrightarrow>
     table_ok (\<lambda>n u. u_Username u = n) us \<and>
     table_ok (\<lambda>k i. (ri_UserJID i, ri_ContactJID i) = k) (flat2 (rosterItems s)) \<and>
     table_ok (\<lambda>u v. True) (rosterVersions s) \<and>
     table_ok (\<lambda>k b. b) (flat2 (blocked s)) \<and>
     table_ok (\<lambda>u d. True) (MemStore.vcards s) \<and>
     table_ok (\<lambda>j r. room_RoomJID r = j) (mucRooms s) \<and>
     table_ok (\<lambda>k a. (aff_RoomJID a, aff_UserJID a) = k) (flat2 (mucAffiliations s)) \<and>
     table_ok (\<lambda>k n. (node_Host n, node_NodeID n) = k \<and> node_Config n = None) (flat2 (pubsubNodes s)) \<and>
     table_ok (\<lambda>k i. (item_Host i, item_NodeID i, item_ItemID i) = k \<and> mg_time M (item_CreatedAt i) = item_CreatedAt i)
       (flat3 (pubsubItems s)) \<and>
     table_ok (\<lambda>k b. (sub_Host b, sub_NodeID b, sub_JID b) = k) (flat3 (pubsubSubscriptions s)) \<and>
     table_ok (\<lambda>k b. (bm_UserJID b, bm_RoomJID b) = k) (flat2 (bookmarks s))"

text \<open>The accounts agree but for their time stamps.\<close>

definition untimed :: "User \<Rightarrow> User" where
  "untimed u = u\<lparr>u_CreatedAt := 0, u_UpdatedAt := 0\<rparr>"

definition mongo_accounts :: "(string \<rightharpoonup> User) \<Rightarrow> MemStore \<Rightarrow> bool" where
  "mongo_accounts us s \<longleftrightarrow> (\<forall>n. map_option untimed (us n) = map_option untimed (MemStore.users s n))"

text \<open>The offline messages of each user, in any order.\<close>

definition mongo_offline_msgs :: "'m mongo \<Rightarrow> document multiset \<Rightarrow> MemStore \<Rightarrow> bool" where
  "mongo_offline_msgs M C s \<longleftrightarrow>
     (\<forall>u. filter_mset (matches [eq_str ''user_jid'' u]) C = image_mset (offlineDoc M) (mset (offline_of s u)))"

definition mongo_unique :: "(string \<times> string list) set" where
  "mongo_unique = {(col, keys). (col, keys, True) \<in> set mongo_indexes}"

definition mongo_holds :: "'m mongo \<Rightarrow> (string \<rightharpoonup> User) \<Rightarrow> MemStore \<Rightarrow> database \<Rightarrow> bool" where
  "mongo_holds M us s v \<longleftrightarrow>
     (\<forall>(col, C) \<in> set (mongo_tables M us s). db_docs v col = C) \<and> db_unique v = mongo_unique \<and>
     mongo_wf M us s \<and> mongo_accounts us s \<and> mongo_offline_msgs M (db_docs v ''offline_messages'') s"

definition mongo_shows :: "'m mongo \<Rightarrow> ('m \<Rightarrow> database) \<Rightarrow> (string \<rightharpoonup> User) \<Rightarrow> 'm \<Rightarrow> MemStore \<Rightarrow> bool" where
  "mongo_shows M view us m s \<longleftrightarrow> mongo_holds M us s (view m)"

definition mongo_stores :: "'m mongo \<Rightarrow> ('m \<Rightarrow> database) \<Rightarrow> 'm \<Rightarrow> MemStore \<Rightarrow> bool" where
  "mongo_stores M view m s \<longleftrightarrow> (\<exists>us. mongo_shows M view us m s)"

text \<open>One step of both stores: the same reply, and related states after it.\<close>

definition mongo_matches :: "'m mongo \<Rightarrow> ('m \<Rightarrow> database) \<Rightarrow> storage_call \<Rightarrow> MemStore \<Rightarrow> 'm \<times> storage_reply \<Rightarrow> bool" where
  "mongo_matches M view c s res \<longleftrightarrow>
     (\<exists>ks s'. mem_order ks c s \<and> mem_call ks c s = (s', snd res) \<and> mongo_stores M view (fst res) s')"

text \<open>The calls that are covered.\<close>

fun mongo_plain :: "'m mongo \<Rightarrow> storage_call \<Rightarrow> bool" where
  "mongo_plain M (UserStore (CallGetUser n)) = False"
| "mongo_plain M (OfflineStore (CallGetOfflineMessages u)) = False"
| "mongo_plain M (MAMStore c) = False"
| "mongo_plain M (PubSubStore (CallCreateNode n)) = (node_Config n = None)"
| "mongo_plain M (PubSubStore (CallUpsertItem now i)) =
     (let t = item_CreatedAt (stamp_item now i) in mg_time M t = t)"
| "mongo_plain M _ = True"

lemma holds_tables:
  assumes "mongo_holds M us s v"
  shows "db_docs v ''users'' = collection.coll (user_enc M) us" "db_docs v ''roster_items'' = rosters.coll (flat2 (rosterItems s))"
    "db_docs v ''roster_versions'' = versions.coll (rosterVersions s)"
    "db_docs v ''blocked_jids'' = blocks.coll (flat2 (blocked s))"
    "db_docs v ''vcards'' = vcards.coll (MemStore.vcards s)"
    "db_docs v ''muc_rooms'' = rooms.coll (mucRooms s)"
    "db_docs v ''muc_affiliations'' = affs.coll (flat2 (mucAffiliations s))"
    "db_docs v ''pubsub_nodes'' = nodes.coll (flat2 (pubsubNodes s))"
    "db_docs v ''pubsub_items'' = collection.coll (item_enc M) (flat3 (pubsubItems s))"
    "db_docs v ''pubsub_subscriptions'' = subs.coll (flat3 (pubsubSubscriptions s))"
    "db_docs v ''bookmarks'' = marks.coll (flat2 (bookmarks s))"
  using assms by (simp_all add: mongo_holds_def mongo_tables_def)

lemma holds_ok:
  assumes "mongo_holds M us s v"
  shows "table_ok (\<lambda>n u. u_Username u = n) us"
    "table_ok (\<lambda>k i. (ri_UserJID i, ri_ContactJID i) = k) (flat2 (rosterItems s))"
    "table_ok (\<lambda>u v. True) (rosterVersions s)"
    "table_ok (\<lambda>k b. b) (flat2 (blocked s))"
    "table_ok (\<lambda>u d. True) (MemStore.vcards s)"
    "table_ok (\<lambda>j r. room_RoomJID r = j) (mucRooms s)"
    "table_ok (\<lambda>k a. (aff_RoomJID a, aff_UserJID a) = k) (flat2 (mucAffiliations s))"
    "table_ok (\<lambda>k n. (node_Host n, node_NodeID n) = k \<and> node_Config n = None) (flat2 (pubsubNodes s))"
    "table_ok (\<lambda>k i. (item_Host i, item_NodeID i, item_ItemID i) = k \<and> mg_time M (item_CreatedAt i) = item_CreatedAt i)
       (flat3 (pubsubItems s))"
    "table_ok (\<lambda>k b. (sub_Host b, sub_NodeID b, sub_JID b) = k) (flat3 (pubsubSubscriptions s))"
    "table_ok (\<lambda>k b. (bm_UserJID b, bm_RoomJID b) = k) (flat2 (bookmarks s))"
  using assms by (simp_all add: mongo_holds_def mongo_wf_def)

lemma table_ok_finite: "table_ok P t \<Longrightarrow> finite (dom t)"
  and table_okD: "table_ok P t \<Longrightarrow> t k = Some v \<Longrightarrow> P k v"
  by (simp_all add: table_ok_def)

lemma table_ok_upd: "table_ok P t \<Longrightarrow> P k v \<Longrightarrow> table_ok P (t(k \<mapsto> v))"
  and table_ok_del: "table_ok P t \<Longrightarrow> table_ok P (t(k := None))"
  by (auto simp: table_ok_def)

lemma table_ok_sub: "table_ok P t \<Longrightarrow> table_ok P (t |` A)"
  by (simp add: table_ok_def) (simp add: restrict_map_def)

lemma holds_unique:
  assumes "mongo_holds M us s v"
  shows "(''users'', ks) \<in> db_unique v \<longleftrightarrow> ks = [''username'']"
    "(''roster_items'', ks) \<in> db_unique v \<longleftrightarrow> ks = [''user_jid'', ''contact_jid'']"
    "(''roster_versions'', ks) \<notin> db_unique v"
    "(''blocked_jids'', ks) \<in> db_unique v \<longleftrightarrow> ks = [''user_jid'', ''blocked_jid'']"
    "(''vcards'', ks) \<in> db_unique v \<longleftrightarrow> ks = [''user_jid'']"
    "(''muc_rooms'', ks) \<in> db_unique v \<longleftrightarrow> ks = [''room_jid'']"
    "(''muc_affiliations'', ks) \<in> db_unique v \<longleftrightarrow> ks = [''room_jid'', ''user_jid'']"
    "(''pubsub_nodes'', ks) \<in> db_unique v \<longleftrightarrow> ks = [''host'', ''node_id'']"
    "(''pubsub_items'', ks) \<in> db_unique v \<longleftrightarrow> ks = [''host'', ''node_id'', ''item_id'']"
    "(''pubsub_subscriptions'', ks) \<in> db_unique v \<longleftrightarrow> ks = [''host'', ''node_id'', ''jid'']"
    "(''bookmarks'', ks) \<in> db_unique v \<longleftrightarrow> ks = [''user_jid'', ''room_jid'']"
    "(''offline_messages'', ks) \<notin> db_unique v"
  using assms by (auto simp: mongo_holds_def mongo_unique_def mongo_indexes_def)

text \<open>A state that differs in one collection, and in the table it holds.\<close>

lemma mongo_matches_same:
  assumes "mongo_shows M view us m s" "view m' = view m" "mem_order ks c s" "mem_call ks c s = (s, rep)"
  shows "mongo_matches M view c s (m', rep)"
  using assms by (auto simp: mongo_matches_def mongo_stores_def mongo_shows_def)

lemma mongo_matches_after:
  assumes "mongo_holds M us' s' (view m')" "mem_order ks c s" "mem_call ks c s = (s', rep)"
  shows "mongo_matches M view c s (m', rep)"
  using assms by (auto simp: mongo_matches_def mongo_stores_def mongo_shows_def)

lemma holds_put:
  assumes "mongo_holds M us s v" "col \<noteq> ''offline_messages''"
    and "mongo_tables M us' s' = map (\<lambda>(c, D). (c, if c = col then C else D)) (mongo_tables M us s)"
    and "mongo_wf M us' s'" "mongo_accounts us' s'" "offlineMsgs s' = offlineMsgs s"
  shows "mongo_holds M us' s' (put_docs v col C)"
  using assms by (auto simp: mongo_holds_def mongo_offline_msgs_def offline_of_def)


section \<open>Calls\<close>

lemma finite_flat_put [simp]: "finite (dom ((t)(k \<mapsto> v))) \<longleftrightarrow> finite (dom t)"
  by (simp add: dom_fun_upd)

lemma accounts_same: "mongo_holds M us s v \<Longrightarrow> mongo_accounts us s"
  by (simp add: mongo_holds_def)

lemma wf_same: "mongo_holds M us s v \<Longrightarrow> mongo_wf M us s"
  by (simp add: mongo_holds_def)

lemma account_password:
  assumes "mongo_accounts us s"
  shows "us n = None \<longleftrightarrow> MemStore.users s n = None"
    "us n = Some u \<Longrightarrow> MemStore.users s n = Some w \<Longrightarrow> u_Password u = u_Password w"
proof -
  have eq: "map_option untimed (us n) = map_option untimed (MemStore.users s n)"
    using assms by (simp add: mongo_accounts_def)
  then show "us n = None \<longleftrightarrow> MemStore.users s n = None" by (metis map_option_is_None)
  assume "us n = Some u" "MemStore.users s n = Some w"
  with eq have "untimed u = untimed w" by simp
  then have "u_Password (untimed u) = u_Password (untimed w)" by simp
  then show "u_Password u = u_Password w" by (simp add: untimed_def)
qed

text \<open>What a write to one collection leaves: one lemma per table.\<close>

lemma holds_users:
  assumes "mongo_holds M us s v" "table_ok (\<lambda>n u. u_Username u = n) us'" "mongo_accounts us' (s\<lparr>MemStore.users := U\<rparr>)"
  shows "mongo_holds M us' (s\<lparr>MemStore.users := U\<rparr>) (put_docs v ''users'' (collection.coll (user_enc M) us'))"
  by (rule holds_put [OF assms(1)]) (use assms wf_same [OF assms(1)] in \<open>simp_all add: mongo_tables_def mongo_wf_def\<close>)

lemmas put_facts = mongo_tables_def mongo_wf_def mongo_accounts_def

lemma holds_rosterItems:
  assumes "mongo_holds M us s v" "table_ok (\<lambda>k i. (ri_UserJID i, ri_ContactJID i) = k) (flat2 r)"
  shows "mongo_holds M us (s\<lparr>rosterItems := r\<rparr>) (put_docs v ''roster_items'' (rosters.coll (flat2 r)))"
  by (rule holds_put [OF assms(1)]) (use assms(2) wf_same [OF assms(1)] accounts_same [OF assms(1)] in \<open>simp_all add: put_facts\<close>)

lemma holds_rosterVersions:
  assumes "mongo_holds M us s v" "table_ok (\<lambda>u v. True) r"
  shows "mongo_holds M us (s\<lparr>rosterVersions := r\<rparr>) (put_docs v ''roster_versions'' (versions.coll r))"
  by (rule holds_put [OF assms(1)]) (use assms(2) wf_same [OF assms(1)] accounts_same [OF assms(1)] in \<open>simp_all add: put_facts\<close>)

lemma holds_blocked:
  assumes "mongo_holds M us s v" "table_ok (\<lambda>k b. b) (flat2 r)"
  shows "mongo_holds M us (s\<lparr>blocked := r\<rparr>) (put_docs v ''blocked_jids'' (blocks.coll (flat2 r)))"
  by (rule holds_put [OF assms(1)]) (use assms(2) wf_same [OF assms(1)] accounts_same [OF assms(1)] in \<open>simp_all add: put_facts\<close>)

lemma holds_vcards:
  assumes "mongo_holds M us s v" "table_ok (\<lambda>u d. True) r"
  shows "mongo_holds M us (s\<lparr>MemStore.vcards := r\<rparr>) (put_docs v ''vcards'' (vcards.coll r))"
  by (rule holds_put [OF assms(1)]) (use assms(2) wf_same [OF assms(1)] accounts_same [OF assms(1)] in \<open>simp_all add: put_facts\<close>)

lemma holds_mucRooms:
  assumes "mongo_holds M us s v" "table_ok (\<lambda>j r. room_RoomJID r = j) r"
  shows "mongo_holds M us (s\<lparr>mucRooms := r\<rparr>) (put_docs v ''muc_rooms'' (rooms.coll r))"
  by (rule holds_put [OF assms(1)]) (use assms(2) wf_same [OF assms(1)] accounts_same [OF assms(1)] in \<open>simp_all add: put_facts\<close>)

lemma holds_mucAffiliations:
  assumes "mongo_holds M us s v" "table_ok (\<lambda>k a. (aff_RoomJID a, aff_UserJID a) = k) (flat2 r)"
  shows "mongo_holds M us (s\<lparr>mucAffiliations := r\<rparr>) (put_docs v ''muc_affiliations'' (affs.coll (flat2 r)))"
  by (rule holds_put [OF assms(1)]) (use assms(2) wf_same [OF assms(1)] accounts_same [OF assms(1)] in \<open>simp_all add: put_facts\<close>)

lemma holds_pubsubNodes:
  assumes "mongo_holds M us s v" "table_ok (\<lambda>k n. (node_Host n, node_NodeID n) = k \<and> node_Config n = None) (flat2 r)"
  shows "mongo_holds M us (s\<lparr>pubsubNodes := r\<rparr>) (put_docs v ''pubsub_nodes'' (nodes.coll (flat2 r)))"
  by (rule holds_put [OF assms(1)]) (use assms(2) wf_same [OF assms(1)] accounts_same [OF assms(1)] in \<open>simp_all add: put_facts\<close>)

lemma holds_pubsubItems:
  assumes "mongo_holds M us s v" "table_ok (\<lambda>k i. (item_Host i, item_NodeID i, item_ItemID i) = k \<and> mg_time M (item_CreatedAt i) = item_CreatedAt i) (flat3 r)"
  shows "mongo_holds M us (s\<lparr>pubsubItems := r\<rparr>) (put_docs v ''pubsub_items'' (collection.coll (item_enc M) (flat3 r)))"
  by (rule holds_put [OF assms(1)]) (use assms(2) wf_same [OF assms(1)] accounts_same [OF assms(1)] in \<open>simp_all add: put_facts\<close>)

lemma holds_pubsubSubscriptions:
  assumes "mongo_holds M us s v" "table_ok (\<lambda>k b. (sub_Host b, sub_NodeID b, sub_JID b) = k) (flat3 r)"
  shows "mongo_holds M us (s\<lparr>pubsubSubscriptions := r\<rparr>) (put_docs v ''pubsub_subscriptions'' (subs.coll (flat3 r)))"
  by (rule holds_put [OF assms(1)]) (use assms(2) wf_same [OF assms(1)] accounts_same [OF assms(1)] in \<open>simp_all add: put_facts\<close>)

lemma holds_bookmarks:
  assumes "mongo_holds M us s v" "table_ok (\<lambda>k b. (bm_UserJID b, bm_RoomJID b) = k) (flat2 r)"
  shows "mongo_holds M us (s\<lparr>bookmarks := r\<rparr>) (put_docs v ''bookmarks'' (marks.coll (flat2 r)))"
  by (rule holds_put [OF assms(1)]) (use assms(2) wf_same [OF assms(1)] accounts_same [OF assms(1)] in \<open>simp_all add: put_facts\<close>)

subsection \<open>UserStore\<close>

lemma mongo_CreateUser_step:
  assumes "mongo_serves M view" and sh: "mongo_shows M view us m s"
  shows "mongo_matches M view (UserStore (CallCreateUser now u)) s (mongo_user M (CallCreateUser now u) m)"
proof -
  let ?n = "u_Username u" and ?u = "u\<lparr>u_CreatedAt := now, u_UpdatedAt := now\<rparr>"
  note h = sh [unfolded mongo_shows_def]
  note ok = holds_ok(1) [OF h] and acc = accounts_same [OF h]
  obtain m' where ins: "insert_new M ''users'' (user_enc M ?n ?u) m = (m', if us ?n = None then None else Some ErrUserExists)"
    "view m' = (if us ?n = None then put_docs (view m) ''users'' (collection.coll (user_enc M) (us(?n \<mapsto> ?u))) else view m)"
    using users.insert_step [OF assms(1) holds_tables(1) [OF h] table_ok_finite [OF ok] holds_unique(1) [OF h]] by blast
  have call: "mongo_user M (CallCreateUser now u) m = (m', Done (if us ?n = None then None else Some ErrUserExists))"
    using ins(1) by (simp add: mongo_CreateUser_def writes_def user_enc_def)
  show ?thesis
  proof (cases "us ?n = None")
    case True
    then have none: "MemStore.users s ?n = None" using account_password(1) [OF acc] by blast
    have "mongo_holds M (us(?n \<mapsto> ?u)) (s\<lparr>MemStore.users := (MemStore.users s)(?n \<mapsto> ?u)\<rparr>) (view m')"
      unfolding ins(2) if_P [OF True]
      by (rule holds_users [OF h table_ok_upd [OF ok]]) (use acc in \<open>simp_all add: mongo_accounts_def\<close>)
    with none True show ?thesis
      unfolding call by (intro mongo_matches_after) (simp_all add: writes_def CreateUser_def)
  next
    case False
    then have "MemStore.users s ?n \<noteq> None" using account_password(1) [OF acc, of ?n] by simp
    then show ?thesis
      unfolding call using False ins(2) [unfolded if_not_P [OF False]]
      by (intro mongo_matches_same [OF sh]) (simp_all add: writes_def CreateUser_def)
  qed
qed

text \<open>The fields that \<open>UpdateUser\<close> sets: all but the name and the time of creation.\<close>

lemma mongo_UpdateUser_step:
  assumes "mongo_serves M view" and sh: "mongo_shows M view us m s"
  shows "mongo_matches M view (UserStore (CallUpdateUser now u)) s (mongo_user M (CallUpdateUser now u) m)"
proof -
  let ?n = "u_Username u" and ?upd = "\<lambda>x. u\<lparr>u_CreatedAt := u_CreatedAt x, u_UpdatedAt := now\<rparr>"
  let ?sd = "[''password'' \<mapsto> BString (u_Password u), ''salt'' \<mapsto> BString (u_Salt u),
      ''iterations'' \<mapsto> BInt (u_Iterations u), ''server_key'' \<mapsto> BString (u_ServerKey u),
      ''stored_key'' \<mapsto> BString (u_StoredKey u), ''updated_at'' \<mapsto> BTime (mg_time M now)]"
  note h = sh [unfolded mongo_shows_def]
  note ok = holds_ok(1) [OF h] and acc = accounts_same [OF h]
  have sd: "us ?n = Some x \<Longrightarrow> user_enc M ?n x ++ ?sd = user_enc M ?n (?upd x)" for x
    by (rule ext) (simp add: enc_defs)
  have idx: "(''users'', ks) \<in> db_unique (view m) \<Longrightarrow> ks = [''username'']" for ks
    using holds_unique(1) [OF h] by simp
  obtain m' where up: "update_existing M ''users'' [eq_str ''username'' ?n] ?sd m =
      (m', if us ?n = None then Some ErrNotFound else None)"
    "view m' = (case us ?n of None \<Rightarrow> view m
       | Some x \<Rightarrow> put_docs (view m) ''users'' (collection.coll (user_enc M) (us(?n \<mapsto> ?upd x))))"
    using users.update_step [OF assms(1) holds_tables(1) [OF h] table_ok_finite [OF ok] idx sd] by blast
  have call: "mongo_user M (CallUpdateUser now u) m = (m', Done (if us ?n = None then Some ErrNotFound else None))"
    using up(1) by (simp add: mongo_UpdateUser_def writes_def)
  show ?thesis
  proof (cases "us ?n")
    case None
    then have "MemStore.users s ?n = None" using account_password(1) [OF acc] by blast
    then show ?thesis
      unfolding call using None up(2) by (intro mongo_matches_same [OF sh]) (simp_all add: writes_def UpdateUser_def)
  next
    case (Some x)
    then have some: "MemStore.users s ?n \<noteq> None" using account_password(1) [OF acc, of ?n] by simp
    have "mongo_holds M (us(?n \<mapsto> ?upd x)) (s\<lparr>MemStore.users := (MemStore.users s)(?n \<mapsto> u\<lparr>u_UpdatedAt := now\<rparr>)\<rparr>) (view m')"
      unfolding up(2) Some option.case(2)
      by (rule holds_users [OF h table_ok_upd [OF ok]]) (use acc in \<open>simp_all add: mongo_accounts_def untimed_def\<close>)
    with some Some show ?thesis
      unfolding call by (intro mongo_matches_after) (simp_all add: writes_def UpdateUser_def)
  qed
qed

lemma mongo_DeleteUser_step:
  assumes "mongo_serves M view" and sh: "mongo_shows M view us m s"
  shows "mongo_matches M view (UserStore (CallDeleteUser n)) s (mongo_user M (CallDeleteUser n) m)"
proof -
  note h = sh [unfolded mongo_shows_def]
  note ok = holds_ok(1) [OF h] and acc = accounts_same [OF h]
  obtain m' where del: "delete_existing M ''users'' [eq_str ''username'' n] m = (m', if us n = None then Some ErrNotFound else None)"
    "view m' = put_docs (view m) ''users'' (collection.coll (user_enc M) (us(n := None)))"
    using users.delete_step(1) [OF assms(1) holds_tables(1) [OF h] table_ok_finite [OF ok]] by blast
  have "mongo_holds M (us(n := None)) (s\<lparr>MemStore.users := (MemStore.users s)(n := None)\<rparr>) (view m')"
    unfolding del(2) by (rule holds_users [OF h table_ok_del [OF ok]]) (use acc in \<open>simp add: mongo_accounts_def\<close>)
  moreover have "MemStore.users s n = None \<Longrightarrow> s\<lparr>MemStore.users := (MemStore.users s)(n := None)\<rparr> = s"
    by (cases s) auto
  ultimately show ?thesis
    using del(1) account_password(1) [OF acc, of n]
    by (auto simp: mongo_DeleteUser_def writes_def DeleteUser_def intro!: mongo_matches_after)
qed

lemma mongo_user_step:
  assumes "mongo_serves M view" "mongo_stores M view m s" "mongo_plain M (UserStore c)"
  shows "mongo_matches M view (UserStore c) s (mongo_user M c m)"
proof -
  from assms(2) obtain us where sh: "mongo_shows M view us m s" by (auto simp: mongo_stores_def)
  note h = sh [unfolded mongo_shows_def]
  note tab = holds_tables(1) [OF h] and ok = holds_ok(1) [OF h]
  note fin = table_ok_finite [OF ok] and acc = accounts_same [OF h]
  have un: "\<And>n u. us n = Some u \<Longrightarrow> un_userDoc (user_enc M n u) = Inr (stored_user M u)"
    using table_okD [OF ok] un_user_enc by blast
  show ?thesis
  proof (cases c)
    case (CallUserExists n)
    obtain m' where "count_docs M ''users'' [eq_str ''username'' n] m = (m', Inr (if us n = None then 0 else 1))" "view m' = view m"
      using users.count_step [OF assms(1) tab fin] by blast
    then show ?thesis
      using account_password(1) [OF acc, of n]
      by (auto simp: CallUserExists mongo_UserExists_def answers_with_def UserExists_def reads_def intro!: mongo_matches_same [OF sh])
  next
    case (CallAuthenticate n pw)
    obtain m' where found: "find_one M un_userDoc ''users'' [eq_str ''username'' n] m =
        (m', lookup_result (map_option (stored_user M) (us n)))" "view m' = view m"
      using users.find_one_step [where k = n and un = un_userDoc and g = "stored_user M", OF assms(1) tab fin un] by blast
    have "mongo_Authenticate M n pw m = (m', Authenticate s n pw)"
    proof (cases "us n")
      case None
      then show ?thesis
        using account_password(1) [OF acc, of n] by (simp add: mongo_Authenticate_def Authenticate_def found(1))
    next
      case (Some u)
      then obtain w where "MemStore.users s n = Some w" using account_password(1) [OF acc, of n] by auto
      with account_password(2) [OF acc Some this] Some show ?thesis
        by (simp add: mongo_Authenticate_def Authenticate_def found(1) stored_user_def)
    qed
    then show ?thesis
      using found(2) by (simp add: CallAuthenticate answers_with_def mongo_matches_same [OF sh] reads_def)
  qed (use assms(3) mongo_CreateUser_step [OF assms(1) sh] mongo_UpdateUser_step [OF assms(1) sh]
      mongo_DeleteUser_step [OF assms(1) sh] in simp_all)
qed

subsection \<open>RosterStore\<close>

lemma mongo_UpsertRosterItem_step:
  assumes "mongo_serves M view" and sh: "mongo_shows M view us m s"
  shows "mongo_matches M view (RosterStore (CallUpsertRosterItem i)) s (mongo_roster M (CallUpsertRosterItem i) m)"
proof -
  note h = sh [unfolded mongo_shows_def]
  note ok = holds_ok(2) [OF h]
  let ?k = "(ri_UserJID i, ri_ContactJID i)"
  have sd: "roster_enc ?k x ++ rosterDoc i = roster_enc ?k i" "fixed_fields (roster_filter ?k) ++ rosterDoc i = roster_enc ?k i" for x
    by (auto simp: enc_defs filter_defs fun_eq_iff)
  have idx: "(''roster_items'', ks) \<in> db_unique (view m) \<Longrightarrow> ks = [''user_jid'', ''contact_jid'']" for ks
    using holds_unique(2) [OF h] by simp
  obtain m' where "just_run M (UpdateOne ''roster_items'' (roster_filter ?k) (rosterDoc i) True) m = (m', None)"
    "view m' = put_docs (view m) ''roster_items'' (rosters.coll ((flat2 (rosterItems s))(?k \<mapsto> i)))"
    using rosters.upsert_step [OF assms(1) holds_tables(2) [OF h] table_ok_finite [OF ok] idx sd] by blast
  moreover from this(2) have "mongo_holds M us (s\<lparr>rosterItems := put2 (rosterItems s) (ri_UserJID i) (ri_ContactJID i) i\<rparr>) (view m')"
    using holds_rosterItems [OF h, of "put2 (rosterItems s) (ri_UserJID i) (ri_ContactJID i) i"]
      table_ok_upd [OF ok, where k = ?k and v = i] by simp
  ultimately show ?thesis
    by (auto simp: mongo_UpsertRosterItem_def writes_def UpsertRosterItem_def intro: mongo_matches_after)
qed

lemma mongo_SetRosterVersion_step:
  assumes "mongo_serves M view" and sh: "mongo_shows M view us m s"
  shows "mongo_matches M view (RosterStore (CallSetRosterVersion u w)) s (mongo_roster M (CallSetRosterVersion u w) m)"
proof -
  note h = sh [unfolded mongo_shows_def]
  note ok = holds_ok(3) [OF h]
  let ?sd = "[''version'' \<mapsto> BString w]"
  have sd: "version_enc u x ++ ?sd = version_enc u w" "fixed_fields [eq_str ''user_jid'' u] ++ ?sd = version_enc u w" for x
    by (auto simp: enc_defs fun_eq_iff)
  have idx: "(''roster_versions'', ks) \<in> db_unique (view m) \<Longrightarrow> ks = [''user_jid'']" for ks
    using holds_unique(3) [OF h] by simp
  obtain m' where "just_run M (UpdateOne ''roster_versions'' [eq_str ''user_jid'' u] ?sd True) m = (m', None)"
    "view m' = put_docs (view m) ''roster_versions'' (versions.coll ((rosterVersions s)(u \<mapsto> w)))"
    using versions.upsert_step [OF assms(1) holds_tables(3) [OF h] table_ok_finite [OF ok] idx sd] by blast
  moreover from this(2) have "mongo_holds M us (s\<lparr>rosterVersions := (rosterVersions s)(u \<mapsto> w)\<rparr>) (view m')"
    using holds_rosterVersions [OF h table_ok_upd [OF ok, where k = u and v = w]] by simp
  ultimately show ?thesis
    by (auto simp: mongo_SetRosterVersion_def writes_def SetRosterVersion_def intro: mongo_matches_after)
qed

lemma mongo_roster_step:
  assumes "mongo_serves M view" "mongo_stores M view m s"
  shows "mongo_matches M view (RosterStore c) s (mongo_roster M c m)"
proof -
  from assms(2) obtain us where sh: "mongo_shows M view us m s" by (auto simp: mongo_stores_def)
  note h = sh [unfolded mongo_shows_def]
  note tab = holds_tables(2) [OF h] and ok = holds_ok(2) [OF h]
  note fin = table_ok_finite [OF ok]
  have un: "un_rosterDoc (roster_enc k i) = Inr i" if "flat2 (rosterItems s) k = Some i" for k i
    using table_okD [OF ok that] un_roster_enc by blast
  show ?thesis
  proof (cases c)
    case (CallGetRosterItem k)
    obtain m' where "find_one M un_rosterDoc ''roster_items'' (roster_filter k) m =
        (m', lookup_result (map_option (\<lambda>i. i) (flat2 (rosterItems s) k)))" "view m' = view m"
      using rosters.find_one_step [where k = k and un = un_rosterDoc and g = "\<lambda>i. i", OF assms(1) tab fin un] by blast
    then show ?thesis
      by (simp add: CallGetRosterItem mongo_GetRosterItem_def answers_with_def reads_def GetRosterItem_def flat2_def
          lookup_result_def option.map_ident mongo_matches_same [OF sh])
  next
    case (CallGetRosterItems u)
    have "matches [eq_str ''user_jid'' u] (roster_enc k i) \<longleftrightarrow> fst k = u" for k i
      by (auto simp: enc_defs filter_defs)
    from rosters.find_all_step [where srt = None and un = un_rosterDoc and g = "\<lambda>k i. i", OF assms(1) tab fin this un]
    obtain m' ks where "find_all M un_rosterDoc ''roster_items'' [eq_str ''user_jid'' u] None None m =
        (m', Inr (map (\<lambda>k. the (flat2 (rosterItems s) k)) ks))" "view m' = view m"
      "distinct ks" "set ks = {k \<in> dom (flat2 (rosterItems s)). fst k = u}"
      by auto
    with sub2 [of ks "rosterItems s" u] show ?thesis
      by (simp add: CallGetRosterItems mongo_GetRosterItems_def answers_with_def)
        (rule mongo_matches_same [OF sh, where ks = "map snd ks"]; simp add: reads_def GetRosterItems_def)
  next
    case (CallDeleteRosterItem k)
    obtain m' where "delete_existing M ''roster_items'' (roster_filter k) m =
        (m', if flat2 (rosterItems s) k = None then Some ErrNotFound else None)"
      "view m' = put_docs (view m) ''roster_items'' (rosters.coll ((flat2 (rosterItems s))(k := None)))"
      using rosters.delete_step(1) [OF assms(1) tab fin] by blast
    moreover have "mongo_holds M us (s\<lparr>rosterItems := del2 (rosterItems s) (fst k) (snd k)\<rparr>)
        (put_docs (view m) ''roster_items'' (rosters.coll ((flat2 (rosterItems s))(k := None))))"
      using holds_rosterItems [OF h, of "del2 (rosterItems s) (fst k) (snd k)"] table_ok_del [OF ok, of k] by simp
    ultimately show ?thesis
      by (auto simp: CallDeleteRosterItem mongo_DeleteRosterItem_def writes_def DeleteRosterItem_del2 intro!: mongo_matches_after)
  next
    case (CallGetRosterVersion u)
    note okv = holds_ok(3) [OF h]
    obtain m' where "find_one M un_version ''roster_versions'' [eq_str ''user_jid'' u] m =
        (m', lookup_result (map_option (\<lambda>v. v) (rosterVersions s u)))" "view m' = view m"
      using versions.find_one_step [where k = u and un = un_version and g = "\<lambda>v. v", OF assms(1) holds_tables(3) [OF h]
          table_ok_finite [OF okv] un_version_enc] by blast
    then show ?thesis
      by (cases "rosterVersions s u") (simp_all add: CallGetRosterVersion mongo_GetRosterVersion_def answers_with_def reads_def
          GetRosterVersion_def mongo_matches_same [OF sh])
  qed (use mongo_UpsertRosterItem_step [OF assms(1) sh] mongo_SetRosterVersion_step [OF assms(1) sh] in simp_all)
qed

subsection \<open>BlockingStore, VCardStore, BookmarkStore\<close>

lemma mongo_BlockJID_step:
  assumes "mongo_serves M view" and sh: "mongo_shows M view us m s"
  shows "mongo_matches M view (BlockingStore (CallBlockJID u j)) s (mongo_blocking M (CallBlockJID u j) m)"
proof -
  note h = sh [unfolded mongo_shows_def]
  note ok = holds_ok(4) [OF h]
  have sd: "blocked_enc (u, j) x ++ blockedDoc (u, j) = blocked_enc (u, j) True"
    "fixed_fields (blocked_filter (u, j)) ++ blockedDoc (u, j) = blocked_enc (u, j) True" for x
    by (auto simp: enc_defs filter_defs fun_eq_iff)
  have idx: "(''blocked_jids'', ks) \<in> db_unique (view m) \<Longrightarrow> ks = [''user_jid'', ''blocked_jid'']" for ks
    using holds_unique(4) [OF h] by simp
  obtain m' where "just_run M (UpdateOne ''blocked_jids'' (blocked_filter (u, j)) (blockedDoc (u, j)) True) m = (m', None)"
    "view m' = put_docs (view m) ''blocked_jids'' (blocks.coll ((flat2 (blocked s))((u, j) \<mapsto> True)))"
    using blocks.upsert_step [OF assms(1) holds_tables(4) [OF h] table_ok_finite [OF ok] idx sd] by blast
  moreover from this(2) have "mongo_holds M us (s\<lparr>blocked := put2 (blocked s) u j True\<rparr>) (view m')"
    using holds_blocked [OF h, of "put2 (blocked s) u j True"] table_ok_upd [OF ok, where k = "(u, j)" and v = True] by simp
  ultimately show ?thesis
    by (auto simp: mongo_BlockJID_def writes_def BlockJID_def intro: mongo_matches_after)
qed

lemma mongo_blocking_step:
  assumes "mongo_serves M view" "mongo_stores M view m s"
  shows "mongo_matches M view (BlockingStore c) s (mongo_blocking M c m)"
proof -
  from assms(2) obtain us where sh: "mongo_shows M view us m s" by (auto simp: mongo_stores_def)
  note h = sh [unfolded mongo_shows_def]
  note tab = holds_tables(4) [OF h] and ok = holds_ok(4) [OF h]
  note fin = table_ok_finite [OF ok]
  show ?thesis
  proof (cases c)
    case (CallUnblockJID u j)
    obtain m' where "just_run M (DeleteOne ''blocked_jids'' (blocked_filter (u, j))) m = (m', None)"
      "view m' = put_docs (view m) ''blocked_jids'' (blocks.coll ((flat2 (blocked s))((u, j) := None)))"
      using blocks.delete_step(2) [OF assms(1) tab fin] by blast
    moreover have "mongo_holds M us (s\<lparr>blocked := del2 (blocked s) u j\<rparr>)
        (put_docs (view m) ''blocked_jids'' (blocks.coll ((flat2 (blocked s))((u, j) := None))))"
      using holds_blocked [OF h, of "del2 (blocked s) u j"] table_ok_del [OF ok, of "(u, j)"] by simp
    ultimately show ?thesis
      by (auto simp: CallUnblockJID mongo_UnblockJID_def writes_def UnblockJID_def intro!: mongo_matches_after)
  next
    case (CallIsBlocked u j)
    obtain m' where "count_docs M ''blocked_jids'' (blocked_filter (u, j)) m =
        (m', Inr (if flat2 (blocked s) (u, j) = None then 0 else 1))" "view m' = view m"
      using blocks.count_step [OF assms(1) tab fin] by blast
    moreover have "IsBlocked s u j \<longleftrightarrow> flat2 (blocked s) (u, j) \<noteq> None"
      using table_okD [OF ok, of "(u, j)"] by (auto simp: IsBlocked_def flat2_def get2_def split: option.splits)
    ultimately show ?thesis
      by (simp add: CallIsBlocked mongo_IsBlocked_def answers_with_def reads_def mongo_matches_same [OF sh])
  next
    case (CallGetBlockedJIDs u)
    have "matches [eq_str ''user_jid'' u] (blocked_enc k b) \<longleftrightarrow> fst k = u" for k b
      by (auto simp: enc_defs filter_defs)
    from blocks.find_all_step [where srt = None and un = un_blocked and g = "\<lambda>k b. snd k", OF assms(1) tab fin this un_blocked_enc]
    obtain m' ks where all: "find_all M un_blocked ''blocked_jids'' [eq_str ''user_jid'' u] None None m = (m', Inr (map snd ks))"
      "view m' = view m" "distinct ks" "set ks = {k \<in> dom (flat2 (blocked s)). fst k = u}"
      by auto
    note enum = sub2(1) [OF all(3,4)]
    then have "filter (\<lambda>j. inner (blocked s) u j \<noteq> None) (map snd ks) = map snd ks"
      by (intro filter_True) (auto simp: enumerates_def dom_def)
    with all(1,2) enum show ?thesis
      by (simp add: CallGetBlockedJIDs mongo_GetBlockedJIDs_def answers_with_def)
        (rule mongo_matches_same [OF sh, where ks = "map snd ks"]; simp add: reads_def GetBlockedJIDs_def)
  qed (use mongo_BlockJID_step [OF assms(1) sh] in simp_all)
qed

lemma mongo_SetVCard_step:
  assumes "mongo_serves M view" and sh: "mongo_shows M view us m s"
  shows "mongo_matches M view (VCardStore (CallSetVCard u d)) s (mongo_vcard M (CallSetVCard u d) m)"
proof -
  note h = sh [unfolded mongo_shows_def]
  note ok = holds_ok(5) [OF h]
  have sd: "vcardDoc u x ++ vcardDoc u d = vcardDoc u d" "fixed_fields [eq_str ''user_jid'' u] ++ vcardDoc u d = vcardDoc u d" for x
    by (auto simp: enc_defs fun_eq_iff)
  have idx: "(''vcards'', ks) \<in> db_unique (view m) \<Longrightarrow> ks = [''user_jid'']" for ks
    using holds_unique(5) [OF h] by simp
  obtain m' where "just_run M (UpdateOne ''vcards'' [eq_str ''user_jid'' u] (vcardDoc u d) True) m = (m', None)"
    "view m' = put_docs (view m) ''vcards'' (vcards.coll ((MemStore.vcards s)(u \<mapsto> d)))"
    using vcards.upsert_step [OF assms(1) holds_tables(5) [OF h] table_ok_finite [OF ok] idx sd] by blast
  moreover from this(2) have "mongo_holds M us (s\<lparr>MemStore.vcards := (MemStore.vcards s)(u \<mapsto> d)\<rparr>) (view m')"
    using holds_vcards [OF h table_ok_upd [OF ok, where k = u and v = d]] by simp
  ultimately show ?thesis
    by (auto simp: mongo_SetVCard_def writes_def SetVCard_def intro: mongo_matches_after)
qed

lemma mongo_vcard_step:
  assumes "mongo_serves M view" "mongo_stores M view m s"
  shows "mongo_matches M view (VCardStore c) s (mongo_vcard M c m)"
proof -
  from assms(2) obtain us where sh: "mongo_shows M view us m s" by (auto simp: mongo_stores_def)
  note h = sh [unfolded mongo_shows_def]
  note tab = holds_tables(5) [OF h] and ok = holds_ok(5) [OF h]
  note fin = table_ok_finite [OF ok]
  show ?thesis
  proof (cases c)
    case (CallGetVCard u)
    obtain m' where "find_one M un_vcard ''vcards'' [eq_str ''user_jid'' u] m =
        (m', lookup_result (map_option (\<lambda>d. d) (MemStore.vcards s u)))" "view m' = view m"
      using vcards.find_one_step [where k = u and un = un_vcard and g = "\<lambda>d. d", OF assms(1) tab fin un_vcard_enc] by blast
    then show ?thesis
      by (simp add: CallGetVCard mongo_GetVCard_def answers_with_def reads_def GetVCard_def lookup_result_def option.map_ident
          mongo_matches_same [OF sh])
  next
    case (CallDeleteVCard u)
    obtain m' where del: "delete_existing M ''vcards'' [eq_str ''user_jid'' u] m =
        (m', if MemStore.vcards s u = None then Some ErrNotFound else None)"
      "view m' = put_docs (view m) ''vcards'' (vcards.coll ((MemStore.vcards s)(u := None)))"
      using vcards.delete_step(1) [OF assms(1) tab fin] by blast
    have "mongo_holds M us (s\<lparr>MemStore.vcards := (MemStore.vcards s)(u := None)\<rparr>) (view m')"
      unfolding del(2) by (rule holds_vcards [OF h table_ok_del [OF ok]])
    moreover have "MemStore.vcards s u = None \<Longrightarrow> s\<lparr>MemStore.vcards := (MemStore.vcards s)(u := None)\<rparr> = s"
      by (cases s) auto
    ultimately show ?thesis
      using del(1) by (auto simp: CallDeleteVCard mongo_DeleteVCard_def writes_def DeleteVCard_def intro!: mongo_matches_after)
  qed (use mongo_SetVCard_step [OF assms(1) sh] in simp_all)
qed

lemma mongo_SetBookmark_step:
  assumes "mongo_serves M view" and sh: "mongo_shows M view us m s"
  shows "mongo_matches M view (BookmarkStore (CallSetBookmark b)) s (mongo_bookmark M (CallSetBookmark b) m)"
proof -
  note h = sh [unfolded mongo_shows_def]
  note ok = holds_ok(11) [OF h]
  let ?k = "(bm_UserJID b, bm_RoomJID b)"
  have sd: "bookmark_enc ?k x ++ bookmarkDoc b = bookmark_enc ?k b" "fixed_fields (bookmark_filter ?k) ++ bookmarkDoc b = bookmark_enc ?k b" for x
    by (auto simp: enc_defs filter_defs fun_eq_iff)
  have idx: "(''bookmarks'', ks) \<in> db_unique (view m) \<Longrightarrow> ks = [''user_jid'', ''room_jid'']" for ks
    using holds_unique(11) [OF h] by simp
  obtain m' where "just_run M (UpdateOne ''bookmarks'' (bookmark_filter ?k) (bookmarkDoc b) True) m = (m', None)"
    "view m' = put_docs (view m) ''bookmarks'' (marks.coll ((flat2 (bookmarks s))(?k \<mapsto> b)))"
    using marks.upsert_step [OF assms(1) holds_tables(11) [OF h] table_ok_finite [OF ok] idx sd] by blast
  moreover from this(2) have "mongo_holds M us (s\<lparr>bookmarks := put2 (bookmarks s) (bm_UserJID b) (bm_RoomJID b) b\<rparr>) (view m')"
    using holds_bookmarks [OF h, of "put2 (bookmarks s) (bm_UserJID b) (bm_RoomJID b) b"]
      table_ok_upd [OF ok, where k = ?k and v = b] by simp
  ultimately show ?thesis
    by (auto simp: mongo_SetBookmark_def writes_def SetBookmark_def intro: mongo_matches_after)
qed

lemma mongo_bookmark_step:
  assumes "mongo_serves M view" "mongo_stores M view m s"
  shows "mongo_matches M view (BookmarkStore c) s (mongo_bookmark M c m)"
proof -
  from assms(2) obtain us where sh: "mongo_shows M view us m s" by (auto simp: mongo_stores_def)
  note h = sh [unfolded mongo_shows_def]
  note tab = holds_tables(11) [OF h] and ok = holds_ok(11) [OF h]
  note fin = table_ok_finite [OF ok]
  have un: "un_bookmarkDoc (bookmark_enc k b) = Inr b" if "flat2 (bookmarks s) k = Some b" for k b
    using table_okD [OF ok that] un_bookmark_enc by blast
  show ?thesis
  proof (cases c)
    case (CallGetBookmark k)
    obtain m' where "find_one M un_bookmarkDoc ''bookmarks'' (bookmark_filter k) m =
        (m', lookup_result (map_option (\<lambda>b. b) (flat2 (bookmarks s) k)))" "view m' = view m"
      using marks.find_one_step [where k = k and un = un_bookmarkDoc and g = "\<lambda>b. b", OF assms(1) tab fin un] by blast
    then show ?thesis
      by (simp add: CallGetBookmark mongo_GetBookmark_def answers_with_def reads_def GetBookmark_def flat2_def
          lookup_result_def option.map_ident mongo_matches_same [OF sh])
  next
    case (CallGetBookmarks u)
    have "matches [eq_str ''user_jid'' u] (bookmark_enc k b) \<longleftrightarrow> fst k = u" for k b
      by (auto simp: enc_defs filter_defs)
    from marks.find_all_step [where srt = None and un = un_bookmarkDoc and g = "\<lambda>k b. b", OF assms(1) tab fin this un]
    obtain m' ks where "find_all M un_bookmarkDoc ''bookmarks'' [eq_str ''user_jid'' u] None None m =
        (m', Inr (map (\<lambda>k. the (flat2 (bookmarks s) k)) ks))" "view m' = view m"
      "distinct ks" "set ks = {k \<in> dom (flat2 (bookmarks s)). fst k = u}"
      by auto
    with sub2 [of ks "bookmarks s" u] show ?thesis
      by (simp add: CallGetBookmarks mongo_GetBookmarks_def answers_with_def)
        (rule mongo_matches_same [OF sh, where ks = "map snd ks"]; simp add: reads_def GetBookmarks_def)
  next
    case (CallDeleteBookmark k)
    obtain m' where "delete_existing M ''bookmarks'' (bookmark_filter k) m =
        (m', if flat2 (bookmarks s) k = None then Some ErrNotFound else None)"
      "view m' = put_docs (view m) ''bookmarks'' (marks.coll ((flat2 (bookmarks s))(k := None)))"
      using marks.delete_step(1) [OF assms(1) tab fin] by blast
    moreover have "mongo_holds M us (s\<lparr>bookmarks := del2 (bookmarks s) (fst k) (snd k)\<rparr>)
        (put_docs (view m) ''bookmarks'' (marks.coll ((flat2 (bookmarks s))(k := None))))"
      using holds_bookmarks [OF h, of "del2 (bookmarks s) (fst k) (snd k)"] table_ok_del [OF ok, of k] by simp
    ultimately show ?thesis
      by (auto simp: CallDeleteBookmark mongo_DeleteBookmark_def writes_def DeleteBookmark_del2 intro!: mongo_matches_after)
  qed (use mongo_SetBookmark_step [OF assms(1) sh] in simp_all)
qed

subsection \<open>MUCRoomStore\<close>

lemma mongo_CreateRoom_step:
  assumes "mongo_serves M view" and sh: "mongo_shows M view us m s"
  shows "mongo_matches M view (MUCRoomStore (CallCreateRoom r)) s (mongo_muc M (CallCreateRoom r) m)"
proof -
  note h = sh [unfolded mongo_shows_def]
  note ok = holds_ok(6) [OF h]
  let ?j = "room_RoomJID r"
  have e: "room_enc ?j r = mucRoomDoc r" by (simp add: room_enc_def)
  obtain m' where ins: "insert_new M ''muc_rooms'' (mucRoomDoc r) m = (m', if mucRooms s ?j = None then None else Some ErrUserExists)"
    "view m' = (if mucRooms s ?j = None then put_docs (view m) ''muc_rooms'' (rooms.coll ((mucRooms s)(?j \<mapsto> r))) else view m)"
    using rooms.insert_step [where k = ?j and w = r, OF assms(1) holds_tables(6) [OF h] table_ok_finite [OF ok] holds_unique(6) [OF h]]
    unfolding e by blast
  show ?thesis
  proof (cases "mucRooms s ?j")
    case None
    have "mongo_holds M us (s\<lparr>mucRooms := (mucRooms s)(?j \<mapsto> r)\<rparr>) (view m')"
      using holds_mucRooms [OF h table_ok_upd [OF ok, where k = ?j and v = r]] ins(2) None by simp
    with None ins(1) show ?thesis
      by (auto simp: mongo_CreateRoom_def writes_def CreateRoom_def intro!: mongo_matches_after)
  next
    case (Some x)
    with ins show ?thesis
      by (simp add: mongo_CreateRoom_def writes_def CreateRoom_def mongo_matches_same [OF sh])
  qed
qed

lemma mongo_UpdateRoom_step:
  assumes "mongo_serves M view" and sh: "mongo_shows M view us m s"
  shows "mongo_matches M view (MUCRoomStore (CallUpdateRoom r)) s (mongo_muc M (CallUpdateRoom r) m)"
proof -
  note h = sh [unfolded mongo_shows_def]
  note ok = holds_ok(6) [OF h]
  let ?j = "room_RoomJID r"
  have sd: "mucRooms s ?j = Some x \<Longrightarrow> room_enc ?j x ++ room_fields r = room_enc ?j r" for x
    by (rule ext) (simp add: enc_defs)
  have idx: "(''muc_rooms'', ks) \<in> db_unique (view m) \<Longrightarrow> ks = [''room_jid'']" for ks
    using holds_unique(6) [OF h] by simp
  obtain m' where up: "update_existing M ''muc_rooms'' [eq_str ''room_jid'' ?j] (room_fields r) m =
      (m', if mucRooms s ?j = None then Some ErrNotFound else None)"
    "view m' = (case mucRooms s ?j of None \<Rightarrow> view m | Some x \<Rightarrow> put_docs (view m) ''muc_rooms'' (rooms.coll ((mucRooms s)(?j \<mapsto> r))))"
    using rooms.update_step [where upd = "\<lambda>x. r", OF assms(1) holds_tables(6) [OF h] table_ok_finite [OF ok] idx sd] by blast
  show ?thesis
  proof (cases "mucRooms s ?j")
    case None
    with up show ?thesis
      by (simp add: mongo_UpdateRoom_def writes_def UpdateRoom_def mongo_matches_same [OF sh])
  next
    case (Some x)
    have "mongo_holds M us (s\<lparr>mucRooms := (mucRooms s)(?j \<mapsto> r)\<rparr>) (view m')"
      using holds_mucRooms [OF h table_ok_upd [OF ok, where k = ?j and v = r]] up(2) Some by simp
    with Some up(1) show ?thesis
      by (auto simp: mongo_UpdateRoom_def writes_def UpdateRoom_def intro!: mongo_matches_after)
  qed
qed

lemma mongo_DeleteRoom_step:
  assumes "mongo_serves M view" and sh: "mongo_shows M view us m s"
  shows "mongo_matches M view (MUCRoomStore (CallDeleteRoom j)) s (mongo_muc M (CallDeleteRoom j) m)"
proof -
  note h = sh [unfolded mongo_shows_def]
  note ok = holds_ok(6) [OF h]
  obtain m1 where del: "delete_existing M ''muc_rooms'' [eq_str ''room_jid'' j] m =
      (m1, if mucRooms s j = None then Some ErrNotFound else None)"
    "view m1 = put_docs (view m) ''muc_rooms'' (rooms.coll ((mucRooms s)(j := None)))"
    using rooms.delete_step(1) [OF assms(1) holds_tables(6) [OF h] table_ok_finite [OF ok]] by blast
  let ?s1 = "s\<lparr>mucRooms := (mucRooms s)(j := None)\<rparr>" and ?affs = "(mucAffiliations s)(j := None)"
  have h1: "mongo_holds M us ?s1 (view m1)"
    unfolding del(2) by (rule holds_mucRooms [OF h table_ok_del [OF ok]])
  show ?thesis
  proof (cases "mucRooms s j")
    case None
    then have "?s1 = s" by (cases s) auto
    with h1 None del(1) show ?thesis
      by (auto simp: mongo_DeleteRoom_def writes_def DeleteRoom_def intro!: mongo_matches_after)
  next
    case (Some x)
    let ?m2 = "fst (just_run M (DeleteMany ''muc_affiliations'' [eq_str ''room_jid'' j]) m1)"
    note ok1 = holds_ok(7) [OF h1]
    have "matches [eq_str ''room_jid'' j] (aff_enc k a) \<longleftrightarrow> fst k = j" for k a
      by (auto simp: enc_defs filter_defs)
    from affs.delete_many_step(1) [OF assms(1) holds_tables(7) [OF h1] table_ok_finite [OF ok1] this]
    have "view ?m2 = put_docs (view m1) ''muc_affiliations'' (affs.coll (flat2 ?affs))"
      by (simp add: flat2_drop)
    moreover have "table_ok (\<lambda>k a. (aff_RoomJID a, aff_UserJID a) = k) (flat2 ?affs)"
      using table_ok_sub [OF ok1] by (simp add: flat2_drop)
    ultimately have "mongo_holds M us (?s1\<lparr>mucAffiliations := ?affs\<rparr>) (view ?m2)"
      using holds_mucAffiliations [OF h1] by simp
    with Some del(1) show ?thesis
      by (auto simp: mongo_DeleteRoom_def writes_def DeleteRoom_def intro!: mongo_matches_after)
  qed
qed

lemma mongo_SetAffiliation_step:
  assumes "mongo_serves M view" and sh: "mongo_shows M view us m s"
  shows "mongo_matches M view (MUCRoomStore (CallSetAffiliation a)) s (mongo_muc M (CallSetAffiliation a) m)"
proof -
  note h = sh [unfolded mongo_shows_def]
  note ok = holds_ok(7) [OF h]
  let ?k = "(aff_RoomJID a, aff_UserJID a)"
  have sd: "aff_enc ?k x ++ mucAffDoc a = aff_enc ?k a" "fixed_fields (aff_filter ?k) ++ mucAffDoc a = aff_enc ?k a" for x
    by (auto simp: enc_defs filter_defs fun_eq_iff)
  have idx: "(''muc_affiliations'', ks) \<in> db_unique (view m) \<Longrightarrow> ks = [''room_jid'', ''user_jid'']" for ks
    using holds_unique(7) [OF h] by simp
  obtain m' where "just_run M (UpdateOne ''muc_affiliations'' (aff_filter ?k) (mucAffDoc a) True) m = (m', None)"
    "view m' = put_docs (view m) ''muc_affiliations'' (affs.coll ((flat2 (mucAffiliations s))(?k \<mapsto> a)))"
    using affs.upsert_step [OF assms(1) holds_tables(7) [OF h] table_ok_finite [OF ok] idx sd] by blast
  moreover from this(2) have "mongo_holds M us (s\<lparr>mucAffiliations := put2 (mucAffiliations s) (aff_RoomJID a) (aff_UserJID a) a\<rparr>) (view m')"
    using holds_mucAffiliations [OF h, of "put2 (mucAffiliations s) (aff_RoomJID a) (aff_UserJID a) a"]
      table_ok_upd [OF ok, where k = ?k and v = a] by simp
  ultimately show ?thesis
    by (auto simp: mongo_SetAffiliation_def writes_def SetAffiliation_def intro: mongo_matches_after)
qed

lemma mongo_affiliations_step:
  assumes "mongo_serves M view" and sh: "mongo_shows M view us m s"
  shows "mongo_matches M view (MUCRoomStore (CallGetAffiliation k)) s (mongo_muc M (CallGetAffiliation k) m)"
    and "mongo_matches M view (MUCRoomStore (CallGetAffiliations j)) s (mongo_muc M (CallGetAffiliations j) m)"
    and "mongo_matches M view (MUCRoomStore (CallRemoveAffiliation k)) s (mongo_muc M (CallRemoveAffiliation k) m)"
proof -
  note h = sh [unfolded mongo_shows_def]
  note tab = holds_tables(7) [OF h] and ok = holds_ok(7) [OF h]
  note fin = table_ok_finite [OF ok]
  have un: "un_mucAffDoc (aff_enc k a) = Inr a" if "flat2 (mucAffiliations s) k = Some a" for k a
    using table_okD [OF ok that] un_aff_enc by blast
  obtain m' where "find_one M un_mucAffDoc ''muc_affiliations'' (aff_filter k) m =
      (m', lookup_result (map_option (\<lambda>a. a) (flat2 (mucAffiliations s) k)))" "view m' = view m"
    using affs.find_one_step [where k = k and un = un_mucAffDoc and g = "\<lambda>a. a", OF assms(1) tab fin un] by blast
  then show "mongo_matches M view (MUCRoomStore (CallGetAffiliation k)) s (mongo_muc M (CallGetAffiliation k) m)"
    by (simp add: mongo_GetAffiliation_def answers_with_def reads_def GetAffiliation_def flat2_def
        lookup_result_def option.map_ident mongo_matches_same [OF sh])
  have "matches [eq_str ''room_jid'' j] (aff_enc k a) \<longleftrightarrow> fst k = j" for k a
    by (auto simp: enc_defs filter_defs)
  from affs.find_all_step [where srt = None and un = un_mucAffDoc and g = "\<lambda>k a. a", OF assms(1) tab fin this un]
  obtain m' ks where "find_all M un_mucAffDoc ''muc_affiliations'' [eq_str ''room_jid'' j] None None m =
      (m', Inr (map (\<lambda>k. the (flat2 (mucAffiliations s) k)) ks))" "view m' = view m"
    "distinct ks" "set ks = {k \<in> dom (flat2 (mucAffiliations s)). fst k = j}"
    by auto
  with sub2 [of ks "mucAffiliations s" j]
  show "mongo_matches M view (MUCRoomStore (CallGetAffiliations j)) s (mongo_muc M (CallGetAffiliations j) m)"
    by (simp add: mongo_GetAffiliations_def answers_with_def)
      (rule mongo_matches_same [OF sh, where ks = "map snd ks"]; simp add: reads_def GetAffiliations_def)
  obtain m' where "just_run M (DeleteOne ''muc_affiliations'' (aff_filter k)) m = (m', None)"
    "view m' = put_docs (view m) ''muc_affiliations'' (affs.coll ((flat2 (mucAffiliations s))(k := None)))"
    using affs.delete_step(2) [OF assms(1) tab fin] by blast
  moreover have "mongo_holds M us (s\<lparr>mucAffiliations := del2 (mucAffiliations s) (fst k) (snd k)\<rparr>)
      (put_docs (view m) ''muc_affiliations'' (affs.coll ((flat2 (mucAffiliations s))(k := None))))"
    using holds_mucAffiliations [OF h, of "del2 (mucAffiliations s) (fst k) (snd k)"] table_ok_del [OF ok, of k] by simp
  ultimately show "mongo_matches M view (MUCRoomStore (CallRemoveAffiliation k)) s (mongo_muc M (CallRemoveAffiliation k) m)"
    by (auto simp: mongo_RemoveAffiliation_def writes_def RemoveAffiliation_def intro!: mongo_matches_after)
qed

lemma mongo_muc_step:
  assumes "mongo_serves M view" "mongo_stores M view m s"
  shows "mongo_matches M view (MUCRoomStore c) s (mongo_muc M c m)"
proof -
  from assms(2) obtain us where sh: "mongo_shows M view us m s" by (auto simp: mongo_stores_def)
  note h = sh [unfolded mongo_shows_def]
  note tab = holds_tables(6) [OF h] and ok = holds_ok(6) [OF h]
  note fin = table_ok_finite [OF ok]
  have un: "un_mucRoomDoc (room_enc j r) = Inr r" if "mucRooms s j = Some r" for j r
    using table_okD [OF ok that] un_room_enc by blast
  show ?thesis
  proof (cases c)
    case (CallGetRoom j)
    obtain m' where "find_one M un_mucRoomDoc ''muc_rooms'' [eq_str ''room_jid'' j] m =
        (m', lookup_result (map_option (\<lambda>r. r) (mucRooms s j)))" "view m' = view m"
      using rooms.find_one_step [where k = j and un = un_mucRoomDoc and g = "\<lambda>r. r", OF assms(1) tab fin un] by blast
    then show ?thesis
      by (simp add: CallGetRoom mongo_GetRoom_def answers_with_def reads_def GetRoom_def
          lookup_result_def option.map_ident mongo_matches_same [OF sh])
  next
    case CallListRooms
    have "matches [] (room_enc j r) \<longleftrightarrow> True" for j r by (simp add: matches_def)
    from rooms.find_all_step [where srt = None and un = un_mucRoomDoc and g = "\<lambda>j r. r" and P = "\<lambda>j. True", OF assms(1) tab fin this un]
    obtain m' ks where all: "find_all M un_mucRoomDoc ''muc_rooms'' [] None None m = (m', Inr (map (\<lambda>k. the (mucRooms s k)) ks))"
      "view m' = view m" "distinct ks" "set ks = {k \<in> dom (mucRooms s). True}"
      by auto
    have "enumerates (map (\<lambda>j. j) ks) (mucRooms s)"
      "map (\<lambda>k. the (mucRooms s k)) ks = range_values (map (\<lambda>j. j) ks) (mucRooms s)"
      by (rule sub_list [OF all(3,4)]; simp)+
    with all(1,2) show ?thesis
      by (simp add: CallListRooms mongo_ListRooms_def answers_with_def)
        (rule mongo_matches_same [OF sh, where ks = ks]; simp add: reads_def ListRooms_def)
  qed (use mongo_CreateRoom_step [OF assms(1) sh] mongo_UpdateRoom_step [OF assms(1) sh] mongo_DeleteRoom_step [OF assms(1) sh]
      mongo_SetAffiliation_step [OF assms(1) sh] mongo_affiliations_step [OF assms(1) sh] in simp_all)
qed

subsection \<open>OfflineStore\<close>

lemma holds_offlineMsgs:
  assumes "mongo_holds M us s v" "mongo_offline_msgs M C (s\<lparr>offlineMsgs := r\<rparr>)"
  shows "mongo_holds M us (s\<lparr>offlineMsgs := r\<rparr>) (put_docs v ''offline_messages'' C)"
  using assms wf_same [OF assms(1)] accounts_same [OF assms(1)]
  by (simp add: mongo_holds_def put_facts)

lemma matches_offline [simp]: "matches [eq_str ''user_jid'' u] (offlineDoc M x) \<longleftrightarrow> off_UserJID x = u"
  by (auto simp: matches_def offlineDoc_def)

lemma holds_offline:
  "mongo_holds M us s v \<Longrightarrow>
     filter_mset (matches [eq_str ''user_jid'' u]) (db_docs v ''offline_messages'') = image_mset (offlineDoc M) (mset (offline_of s u))"
  by (simp add: mongo_holds_def mongo_offline_msgs_def)

lemma mongo_StoreOffline_step:
  assumes "mongo_serves M view" and sh: "mongo_shows M view us m s"
  shows "mongo_matches M view (OfflineStore (CallStoreOfflineMessage now x)) s (mongo_offline M (CallStoreOfflineMessage now x) m)"
proof -
  note h = sh [unfolded mongo_shows_def]
  let ?x = "x\<lparr>off_CreatedAt := (if IsZero (off_CreatedAt x) then now else off_CreatedAt x)\<rparr>" and ?u = "off_UserJID x"
  let ?r = "(offlineMsgs s)(?u \<mapsto> offline_of s ?u @ [?x])"
  have nc: "\<not> index_clash (db_unique (view m)) ''offline_messages'' (db_docs (view m) ''offline_messages'') (offlineDoc M ?x)"
    using holds_unique(12) [OF h] by (simp add: index_clash_def)
  from serves_respond [OF assms(1) InsertOne [OF nc]] obtain y m'
    where "mg_exec M (InsertOne ''offline_messages'' (offlineDoc M ?x)) m = (y, m')"
      "responds (InsertOne ''offline_messages'' (offlineDoc M ?x)) (view m) y (view m')"
    by blast
  then have run: "just_run M (InsertOne ''offline_messages'' (offlineDoc M ?x)) m = (m', None)"
    "view m' = put_docs (view m) ''offline_messages'' (add_mset (offlineDoc M ?x) (db_docs (view m) ''offline_messages''))"
    using nc by (auto simp: just_run_def elim!: responds_cases)
  have "mongo_offline_msgs M (add_mset (offlineDoc M ?x) (db_docs (view m) ''offline_messages'')) (s\<lparr>offlineMsgs := ?r\<rparr>)"
    using holds_offline [OF h] by (simp add: mongo_offline_msgs_def offline_of_def)
  from holds_offlineMsgs [OF h this] have "mongo_holds M us (s\<lparr>offlineMsgs := ?r\<rparr>) (view m')"
    by (simp add: run(2))
  moreover have "(if IsZero (off_CreatedAt x) then x\<lparr>off_CreatedAt := now\<rparr> else x) = ?x"
    by (cases x) simp
  ultimately show ?thesis
    using run(1) by (auto simp: mongo_StoreOfflineMessage_def writes_def StoreOfflineMessage_def Let_def intro!: mongo_matches_after)
qed

lemma mongo_DeleteOffline_step:
  assumes "mongo_serves M view" and sh: "mongo_shows M view us m s"
  shows "mongo_matches M view (OfflineStore (CallDeleteOfflineMessages u)) s (mongo_offline M (CallDeleteOfflineMessages u) m)"
proof -
  note h = sh [unfolded mongo_shows_def]
  let ?f = "[eq_str ''user_jid'' u]" and ?r = "(offlineMsgs s)(u := None)"
  let ?C = "filter_mset (\<lambda>d. \<not> matches ?f d) (db_docs (view m) ''offline_messages'')"
  obtain y m' where "mg_exec M (DeleteMany ''offline_messages'' ?f) m = (y, m')"
    "responds (DeleteMany ''offline_messages'' ?f) (view m) y (view m')"
    by (rule serves_respond [OF assms(1) DeleteMany])
  then have run: "just_run M (DeleteMany ''offline_messages'' ?f) m = (m', None)" "view m' = put_docs (view m) ''offline_messages'' ?C"
    by (auto simp: just_run_def elim!: responds_cases)
  have "filter_mset (matches [eq_str ''user_jid'' w]) ?C = image_mset (offlineDoc M) (mset (offline_of (s\<lparr>offlineMsgs := ?r\<rparr>) w))" for w
  proof (cases "w = u")
    case True
    then show ?thesis by (simp add: filter_filter_mset offline_of_def)
  next
    case False
    then have "filter_mset (matches [eq_str ''user_jid'' w]) ?C =
        filter_mset (matches [eq_str ''user_jid'' w]) (db_docs (view m) ''offline_messages'')"
      unfolding filter_filter_mset by (intro filter_mset_cong) (auto simp: matches_def)
    with False holds_offline [OF h, of w] show ?thesis by (simp add: offline_of_def)
  qed
  then have "mongo_holds M us (s\<lparr>offlineMsgs := ?r\<rparr>) (view m')"
    unfolding run(2) by (intro holds_offlineMsgs [OF h]) (simp add: mongo_offline_msgs_def)
  then show ?thesis
    using run(1) by (auto simp: mongo_DeleteOfflineMessages_def writes_def DeleteOfflineMessages_def intro!: mongo_matches_after)
qed

lemma mongo_offline_step:
  assumes "mongo_serves M view" "mongo_stores M view m s" "mongo_plain M (OfflineStore c)"
  shows "mongo_matches M view (OfflineStore c) s (mongo_offline M c m)"
proof -
  from assms(2) obtain us where sh: "mongo_shows M view us m s" by (auto simp: mongo_stores_def)
  note h = sh [unfolded mongo_shows_def]
  show ?thesis
  proof (cases c)
    case (CallCountOfflineMessages u)
    have size: "size (matching (view m) ''offline_messages'' [eq_str ''user_jid'' u]) = length (offline_of s u)"
      by (simp add: matching_def holds_offline [OF h])
    obtain y m' where "mg_exec M (CountDocuments ''offline_messages'' [eq_str ''user_jid'' u]) m = (y, m')"
      "responds (CountDocuments ''offline_messages'' [eq_str ''user_jid'' u]) (view m) y (view m')"
      by (rule serves_respond [OF assms(1) CountDocuments])
    then have "count_docs M ''offline_messages'' [eq_str ''user_jid'' u] m = (m', Inr (length (offline_of s u)))" "view m' = view m"
      by (auto simp: count_docs_def size elim!: responds_cases)
    then show ?thesis
      by (simp add: CallCountOfflineMessages mongo_CountOfflineMessages_def answers_with_def reads_def CountOfflineMessages_def
          mongo_matches_same [OF sh])
  qed (use assms(3) mongo_StoreOffline_step [OF assms(1) sh] mongo_DeleteOffline_step [OF assms(1) sh] in simp_all)
qed

subsection \<open>PubSubStore\<close>

lemma mongo_CreateNode_step:
  assumes "mongo_serves M view" and sh: "mongo_shows M view us m s" and plain: "node_Config n = None"
  shows "mongo_matches M view (PubSubStore (CallCreateNode n)) s (mongo_pubsub M (CallCreateNode n) m)"
proof -
  note h = sh [unfolded mongo_shows_def]
  note ok = holds_ok(8) [OF h]
  let ?k = "(node_Host n, node_NodeID n)" and ?t = "flat2 (pubsubNodes s)"
  have e: "node_enc ?k n = pubsubNodeDoc n" by (simp add: node_enc_def)
  obtain m' where ins: "insert_new M ''pubsub_nodes'' (pubsubNodeDoc n) m = (m', if ?t ?k = None then None else Some ErrUserExists)"
    "view m' = (if ?t ?k = None then put_docs (view m) ''pubsub_nodes'' (nodes.coll (?t(?k \<mapsto> n))) else view m)"
    using nodes.insert_step [where k = ?k and w = n, OF assms(1) holds_tables(8) [OF h] table_ok_finite [OF ok] holds_unique(8) [OF h]]
    unfolding e by blast
  show ?thesis
  proof (cases "?t ?k")
    case None
    have "mongo_holds M us (s\<lparr>pubsubNodes := put2 (pubsubNodes s) (node_Host n) (node_NodeID n) n\<rparr>) (view m')"
      using holds_pubsubNodes [OF h, of "put2 (pubsubNodes s) (node_Host n) (node_NodeID n) n"]
        table_ok_upd [OF ok, where k = ?k and v = n] plain ins(2) None by simp
    with None ins(1) show ?thesis
      by (auto simp: mongo_CreateNode_def writes_def CreateNode_put2 intro!: mongo_matches_after)
  next
    case (Some x)
    with ins show ?thesis
      by (simp add: mongo_CreateNode_def writes_def CreateNode_put2 mongo_matches_same [OF sh])
  qed
qed

lemma mongo_DeleteNode_step:
  assumes "mongo_serves M view" and sh: "mongo_shows M view us m s"
  shows "mongo_matches M view (PubSubStore (CallDeleteNode k)) s (mongo_pubsub M (CallDeleteNode k) m)"
proof -
  note h = sh [unfolded mongo_shows_def]
  note ok = holds_ok(8) [OF h]
  let ?t = "flat2 (pubsubNodes s)" and ?a = "fst k" and ?b = "snd k"
  obtain m1 where del: "delete_existing M ''pubsub_nodes'' (node_filter k) m = (m1, if ?t k = None then Some ErrNotFound else None)"
    "view m1 = put_docs (view m) ''pubsub_nodes'' (nodes.coll (?t(k := None)))"
    using nodes.delete_step(1) [OF assms(1) holds_tables(8) [OF h] table_ok_finite [OF ok]] by blast
  let ?s1 = "s\<lparr>pubsubNodes := del2 (pubsubNodes s) ?a ?b\<rparr>"
  let ?s2 = "?s1\<lparr>pubsubItems := del2 (pubsubItems s) ?a ?b\<rparr>"
  let ?s3 = "?s2\<lparr>pubsubSubscriptions := del2 (pubsubSubscriptions s) ?a ?b\<rparr>"
  have h1: "mongo_holds M us ?s1 (view m1)"
    using holds_pubsubNodes [OF h, of "del2 (pubsubNodes s) ?a ?b"] table_ok_del [OF ok, of k] by (simp add: del(2))
  define m2 where "m2 = fst (just_run M (DeleteMany ''pubsub_items'' (node_filter k)) m1)"
  define m3 where "m3 = fst (just_run M (DeleteMany ''pubsub_subscriptions'' (node_filter k)) m2)"
  have i: "matches (node_filter k) (item_enc M x v) \<longleftrightarrow> fst x = ?a \<and> fst (snd x) = ?b" for x v
    by (auto simp: enc_defs filter_defs)
  have b: "matches (node_filter k) (sub_enc x v) \<longleftrightarrow> fst x = ?a \<and> fst (snd x) = ?b" for x v
    by (auto simp: enc_defs filter_defs)
  note ok1 = holds_ok(9) [OF h1]
  have "view m2 = put_docs (view m1) ''pubsub_items'' (collection.coll (item_enc M) (flat3 (del2 (pubsubItems s) ?a ?b)))"
    using items.delete_many_step(1) [OF assms(1) holds_tables(9) [OF h1] table_ok_finite [OF ok1] i] by (simp add: flat3_del2 m2_def)
  then have h2: "mongo_holds M us ?s2 (view m2)"
    using holds_pubsubItems [OF h1, of "del2 (pubsubItems s) ?a ?b"] table_ok_sub [OF ok1] by (simp add: flat3_del2)
  note ok2 = holds_ok(10) [OF h2]
  have "view m3 = put_docs (view m2) ''pubsub_subscriptions'' (subs.coll (flat3 (del2 (pubsubSubscriptions s) ?a ?b)))"
    using subs.delete_many_step(1) [OF assms(1) holds_tables(10) [OF h2] table_ok_finite [OF ok2] b] by (simp add: flat3_del2 m3_def)
  then have h3: "mongo_holds M us ?s3 (view m3)"
    using holds_pubsubSubscriptions [OF h2, of "del2 (pubsubSubscriptions s) ?a ?b"] table_ok_sub [OF ok2] by (simp add: flat3_del2)
  show ?thesis
  proof (cases "?t k")
    case None
    then have "?s1 = s" by (cases s) (simp add: flat2_def del2_None)
    with h1 None del(1) show ?thesis
      by (auto simp: mongo_DeleteNode_def writes_def DeleteNode_def flat2_def intro!: mongo_matches_after)
  next
    case (Some x)
    with h3 del(1) show ?thesis
      by (auto simp: mongo_DeleteNode_def writes_def DeleteNode_def flat2_def m2_def m3_def intro!: mongo_matches_after)
  qed
qed

lemma mongo_nodes_step:
  assumes "mongo_serves M view" and sh: "mongo_shows M view us m s"
  shows "mongo_matches M view (PubSubStore (CallGetNode k)) s (mongo_pubsub M (CallGetNode k) m)"
    and "mongo_matches M view (PubSubStore (CallListNodes a)) s (mongo_pubsub M (CallListNodes a) m)"
proof -
  note h = sh [unfolded mongo_shows_def]
  note tab = holds_tables(8) [OF h] and ok = holds_ok(8) [OF h]
  note fin = table_ok_finite [OF ok]
  have un: "un_pubsubNodeDoc (node_enc k n) = Inr n" if "flat2 (pubsubNodes s) k = Some n" for k n
    using table_okD [OF ok that] un_node_enc by blast
  obtain m' where "find_one M un_pubsubNodeDoc ''pubsub_nodes'' (node_filter k) m =
      (m', lookup_result (map_option (\<lambda>n. n) (flat2 (pubsubNodes s) k)))" "view m' = view m"
    using nodes.find_one_step [where k = k and un = un_pubsubNodeDoc and g = "\<lambda>n. n", OF assms(1) tab fin un] by blast
  then show "mongo_matches M view (PubSubStore (CallGetNode k)) s (mongo_pubsub M (CallGetNode k) m)"
    by (simp add: mongo_GetNode_def answers_with_def reads_def GetNode_def flat2_def
        lookup_result_def option.map_ident mongo_matches_same [OF sh])
  have "matches [eq_str ''host'' a] (node_enc k n) \<longleftrightarrow> fst k = a" for k n
    by (auto simp: enc_defs filter_defs)
  from nodes.find_all_step [where srt = None and un = un_pubsubNodeDoc and g = "\<lambda>k n. n", OF assms(1) tab fin this un]
  obtain m' ks where "find_all M un_pubsubNodeDoc ''pubsub_nodes'' [eq_str ''host'' a] None None m =
      (m', Inr (map (\<lambda>k. the (flat2 (pubsubNodes s) k)) ks))" "view m' = view m"
    "distinct ks" "set ks = {k \<in> dom (flat2 (pubsubNodes s)). fst k = a}"
    by auto
  with sub2 [of ks "pubsubNodes s" a]
  show "mongo_matches M view (PubSubStore (CallListNodes a)) s (mongo_pubsub M (CallListNodes a) m)"
    by (simp add: mongo_ListNodes_def answers_with_def)
      (rule mongo_matches_same [OF sh, where ks = "map snd ks"]; simp add: reads_def ListNodes_def)
qed

lemma mongo_UpsertItem_step:
  assumes "mongo_serves M view" and sh: "mongo_shows M view us m s"
    and plain: "mg_time M (item_CreatedAt (stamp_item now i)) = item_CreatedAt (stamp_item now i)"
  shows "mongo_matches M view (PubSubStore (CallUpsertItem now i)) s (mongo_pubsub M (CallUpsertItem now i) m)"
proof -
  note h = sh [unfolded mongo_shows_def]
  note ok = holds_ok(9) [OF h]
  let ?k = "(item_Host i, item_NodeID i, item_ItemID i)" and ?i = "stamp_item now i"
  have st: "i\<lparr>item_CreatedAt := (if IsZero (item_CreatedAt i) then now else item_CreatedAt i)\<rparr> = ?i"
    "item_Host ?i = item_Host i" "item_NodeID ?i = item_NodeID i" "item_ItemID ?i = item_ItemID i"
    by (cases i; simp add: stamp_item_def)+
  have sd: "item_enc M ?k x ++ pubsubItemDoc M ?i = item_enc M ?k ?i"
    "fixed_fields (item_filter ?k) ++ pubsubItemDoc M ?i = item_enc M ?k ?i" for x
    by (auto simp: enc_defs filter_defs fun_eq_iff st)
  have idx: "(''pubsub_items'', ks) \<in> db_unique (view m) \<Longrightarrow> ks = [''host'', ''node_id'', ''item_id'']" for ks
    using holds_unique(9) [OF h] by simp
  obtain m' where run: "just_run M (UpdateOne ''pubsub_items'' (item_filter ?k) (pubsubItemDoc M ?i) True) m = (m', None)"
    "view m' = put_docs (view m) ''pubsub_items'' (collection.coll (item_enc M) ((flat3 (pubsubItems s))(?k \<mapsto> ?i)))"
    using items.upsert_step [OF assms(1) holds_tables(9) [OF h] table_ok_finite [OF ok] idx sd] by blast
  have "mongo_holds M us (s\<lparr>pubsubItems := put3 (pubsubItems s) (item_Host i) (item_NodeID i) (item_ItemID i) ?i\<rparr>) (view m')"
    using holds_pubsubItems [OF h, of "put3 (pubsubItems s) (item_Host i) (item_NodeID i) (item_ItemID i) ?i"]
      table_ok_upd [OF ok, where k = ?k and v = ?i] plain by (simp add: run(2) st)
  then show ?thesis
    using run(1) st(1) by (auto simp: mongo_UpsertItem_def writes_def UpsertItem_def Let_def intro!: mongo_matches_after)
qed

lemma mongo_items_step:
  assumes "mongo_serves M view" and sh: "mongo_shows M view us m s"
  shows "mongo_matches M view (PubSubStore (CallGetItem k)) s (mongo_pubsub M (CallGetItem k) m)"
    and "mongo_matches M view (PubSubStore (CallDeleteItem k)) s (mongo_pubsub M (CallDeleteItem k) m)"
proof -
  note h = sh [unfolded mongo_shows_def]
  note tab = holds_tables(9) [OF h] and ok = holds_ok(9) [OF h]
  note fin = table_ok_finite [OF ok]
  have un: "un_pubsubItemDoc (item_enc M k i) = Inr i" if "flat3 (pubsubItems s) k = Some i" for k i
    using table_okD [OF ok that] un_item_enc by blast
  obtain m' where "find_one M un_pubsubItemDoc ''pubsub_items'' (item_filter k) m =
      (m', lookup_result (map_option (\<lambda>i. i) (flat3 (pubsubItems s) k)))" "view m' = view m"
    using items.find_one_step [where k = k and un = un_pubsubItemDoc and g = "\<lambda>i. i", OF assms(1) tab fin un] by blast
  then show "mongo_matches M view (PubSubStore (CallGetItem k)) s (mongo_pubsub M (CallGetItem k) m)"
    by (simp add: mongo_GetItem_def answers_with_def reads_def GetItem_def flat3_def
        lookup_result_def option.map_ident mongo_matches_same [OF sh])
  obtain r where r: "DeleteItem k s = (s\<lparr>pubsubItems := r\<rparr>, if flat3 (pubsubItems s) k = None then Some ErrNotFound else None)"
    "flat3 r = (flat3 (pubsubItems s))(k := None)"
    by (rule DeleteItem_flat3)
  obtain m' where "delete_existing M ''pubsub_items'' (item_filter k) m =
      (m', if flat3 (pubsubItems s) k = None then Some ErrNotFound else None)"
    "view m' = put_docs (view m) ''pubsub_items'' (collection.coll (item_enc M) ((flat3 (pubsubItems s))(k := None)))"
    using items.delete_step(1) [OF assms(1) tab fin] by blast
  moreover from this(2) have "mongo_holds M us (s\<lparr>pubsubItems := r\<rparr>) (view m')"
    using holds_pubsubItems [OF h, of r] table_ok_del [OF ok, of k] by (simp add: r(2))
  ultimately show "mongo_matches M view (PubSubStore (CallDeleteItem k)) s (mongo_pubsub M (CallDeleteItem k) m)"
    by (auto simp: mongo_DeleteItem_def writes_def r(1) intro!: mongo_matches_after)
qed

text \<open>The items of a node come sorted by their time from both stores.\<close>

lemma mongo_GetItems_step:
  assumes "mongo_serves M view" and sh: "mongo_shows M view us m s"
  shows "mongo_matches M view (PubSubStore (CallGetItems k)) s (mongo_pubsub M (CallGetItems k) m)"
proof -
  note h = sh [unfolded mongo_shows_def]
  note tab = holds_tables(9) [OF h] and ok = holds_ok(9) [OF h]
  let ?t = "flat3 (pubsubItems s)" and ?srt = "Some ''created_at''"
  have un: "un_pubsubItemDoc (item_enc M x i) = Inr i" if "?t x = Some i" for x i
    using table_okD [OF ok that] un_item_enc by blast
  have sel: "matches (node_filter k) (item_enc M x i) \<longleftrightarrow> fst x = fst k \<and> fst (snd x) = snd k" for x i
    by (auto simp: enc_defs filter_defs)
  have tim: "?srt = Some ''created_at'' \<Longrightarrow> ?t x = Some i \<Longrightarrow> time_field (item_enc M x i) ''created_at'' = item_CreatedAt i" for x i
    using table_okD [OF ok, of x i] by (simp add: enc_defs time_field_def)
  obtain m' ks where all: "find_all M un_pubsubItemDoc ''pubsub_items'' (node_filter k) ?srt None m = (m', Inr (map (\<lambda>x. the (?t x)) ks))"
    "view m' = view m" "distinct ks" "set ks = {x \<in> dom ?t. fst x = fst k \<and> fst (snd x) = snd k}"
    "sorted (map (\<lambda>x. item_CreatedAt (the (?t x))) ks)"
    using items.find_all_step [where un = un_pubsubItemDoc and g = "\<lambda>x i. i" and key = "\<lambda>x. item_CreatedAt" and fld = "''created_at''",
        OF assms(1) tab table_ok_finite [OF ok] sel un tim] by blast
  note sub = sub3 [OF all(3,4)]
  let ?ks = "map (\<lambda>x. snd (snd x)) ks"
  have "sorted (map item_CreatedAt (range_values ?ks (inner (inner (pubsubItems s) (fst k)) (snd k))))"
    using all(5) unfolding sub(2) [symmetric] by (simp add: comp_def)
  then have "GetItems ?ks s (fst k) (snd k) = map (\<lambda>x. the (?t x)) ks"
    unfolding GetItems_def sub(2) by (rule sort_key_id_if_sorted)
  with all(1,2) sub(1) show ?thesis
    by (simp add: mongo_GetItems_def answers_with_def)
      (rule mongo_matches_same [OF sh, where ks = ?ks]; simp add: reads_def)
qed

lemma mongo_Subscribe_step:
  assumes "mongo_serves M view" and sh: "mongo_shows M view us m s"
  shows "mongo_matches M view (PubSubStore (CallSubscribe b)) s (mongo_pubsub M (CallSubscribe b) m)"
    and "mongo_matches M view (PubSubStore (CallUnsubscribe k)) s (mongo_pubsub M (CallUnsubscribe k) m)"
proof -
  note h = sh [unfolded mongo_shows_def]
  note tab = holds_tables(10) [OF h] and ok = holds_ok(10) [OF h]
  note fin = table_ok_finite [OF ok]
  let ?k = "(sub_Host b, sub_NodeID b, sub_JID b)" and ?t = "flat3 (pubsubSubscriptions s)"
  have sd: "sub_enc ?k x ++ pubsubSubDoc b = sub_enc ?k b" "fixed_fields (sub_filter ?k) ++ pubsubSubDoc b = sub_enc ?k b" for x
    by (auto simp: enc_defs filter_defs fun_eq_iff)
  have idx: "(''pubsub_subscriptions'', ks) \<in> db_unique (view m) \<Longrightarrow> ks = [''host'', ''node_id'', ''jid'']" for ks
    using holds_unique(10) [OF h] by simp
  obtain m' where run: "just_run M (UpdateOne ''pubsub_subscriptions'' (sub_filter ?k) (pubsubSubDoc b) True) m = (m', None)"
    "view m' = put_docs (view m) ''pubsub_subscriptions'' (subs.coll (?t(?k \<mapsto> b)))"
    using subs.upsert_step [OF assms(1) tab fin idx sd] by blast
  have "mongo_holds M us (s\<lparr>pubsubSubscriptions := put3 (pubsubSubscriptions s) (sub_Host b) (sub_NodeID b) (sub_JID b) b\<rparr>) (view m')"
    using holds_pubsubSubscriptions [OF h, of "put3 (pubsubSubscriptions s) (sub_Host b) (sub_NodeID b) (sub_JID b) b"]
      table_ok_upd [OF ok, where k = ?k and v = b] by (simp add: run(2))
  then show "mongo_matches M view (PubSubStore (CallSubscribe b)) s (mongo_pubsub M (CallSubscribe b) m)"
    using run(1) by (auto simp: mongo_Subscribe_def writes_def Subscribe_def intro!: mongo_matches_after)
  obtain r where r: "Unsubscribe k s = (s\<lparr>pubsubSubscriptions := r\<rparr>, None)" "flat3 r = ?t(k := None)"
    by (rule Unsubscribe_flat3)
  obtain m' where "just_run M (DeleteOne ''pubsub_subscriptions'' (sub_filter k)) m = (m', None)"
    "view m' = put_docs (view m) ''pubsub_subscriptions'' (subs.coll (?t(k := None)))"
    using subs.delete_step(2) [OF assms(1) tab fin] by blast
  moreover from this(2) have "mongo_holds M us (s\<lparr>pubsubSubscriptions := r\<rparr>) (view m')"
    using holds_pubsubSubscriptions [OF h, of r] table_ok_del [OF ok, of k] by (simp add: r(2))
  ultimately show "mongo_matches M view (PubSubStore (CallUnsubscribe k)) s (mongo_pubsub M (CallUnsubscribe k) m)"
    by (auto simp: mongo_Unsubscribe_def writes_def r(1) intro!: mongo_matches_after)
qed

lemma mongo_subs_step:
  assumes "mongo_serves M view" and sh: "mongo_shows M view us m s"
  shows "mongo_matches M view (PubSubStore (CallGetSubscription k)) s (mongo_pubsub M (CallGetSubscription k) m)"
    and "mongo_matches M view (PubSubStore (CallGetSubscriptions n)) s (mongo_pubsub M (CallGetSubscriptions n) m)"
    and "mongo_matches M view (PubSubStore (CallGetUserSubscriptions a j)) s (mongo_pubsub M (CallGetUserSubscriptions a j) m)"
proof -
  note h = sh [unfolded mongo_shows_def]
  note tab = holds_tables(10) [OF h] and ok = holds_ok(10) [OF h]
  note fin = table_ok_finite [OF ok]
  let ?t = "flat3 (pubsubSubscriptions s)"
  have un: "un_pubsubSubDoc (sub_enc k b) = Inr b" if "?t k = Some b" for k b
    using table_okD [OF ok that] un_sub_enc by blast
  obtain m' where "find_one M un_pubsubSubDoc ''pubsub_subscriptions'' (sub_filter k) m =
      (m', lookup_result (map_option (\<lambda>b. b) (?t k)))" "view m' = view m"
    using subs.find_one_step [where k = k and un = un_pubsubSubDoc and g = "\<lambda>b. b", OF assms(1) tab fin un] by blast
  then show "mongo_matches M view (PubSubStore (CallGetSubscription k)) s (mongo_pubsub M (CallGetSubscription k) m)"
    by (simp add: mongo_GetSubscription_def answers_with_def reads_def GetSubscription_def flat3_def
        lookup_result_def option.map_ident mongo_matches_same [OF sh])
  note all = subs.find_all_step [where srt = None and un = un_pubsubSubDoc and g = "\<lambda>k b. b", OF assms(1) tab fin _ un]
  have "matches (node_filter n) (sub_enc k b) \<longleftrightarrow> fst k = fst n \<and> fst (snd k) = snd n" for k b
    by (auto simp: enc_defs filter_defs)
  from all [OF this] obtain m' ks where "find_all M un_pubsubSubDoc ''pubsub_subscriptions'' (node_filter n) None None m =
      (m', Inr (map (\<lambda>k. the (?t k)) ks))" "view m' = view m"
    "distinct ks" "set ks = {k \<in> dom ?t. fst k = fst n \<and> fst (snd k) = snd n}"
    by auto
  with sub3 [of ks "pubsubSubscriptions s" "fst n" "snd n"]
  show "mongo_matches M view (PubSubStore (CallGetSubscriptions n)) s (mongo_pubsub M (CallGetSubscriptions n) m)"
    by (simp add: mongo_GetSubscriptions_def answers_with_def)
      (rule mongo_matches_same [OF sh, where ks = "map (\<lambda>k. snd (snd k)) ks"]; simp add: reads_def GetSubscriptions_def)
  have "matches [eq_str ''host'' a, eq_str ''jid'' j] (sub_enc k b) \<longleftrightarrow> fst k = a \<and> snd (snd k) = j" for k b
    by (auto simp: enc_defs filter_defs)
  from all [OF this] obtain m' ks
    where "find_all M un_pubsubSubDoc ''pubsub_subscriptions'' [eq_str ''host'' a, eq_str ''jid'' j] None None m =
      (m', Inr (map (\<lambda>k. the (?t k)) ks))" "view m' = view m"
    "distinct ks" "set ks = {k \<in> dom ?t. fst k = a \<and> snd (snd k) = j}"
    by auto
  with sub3_user [of ks "pubsubSubscriptions s" a j]
  show "mongo_matches M view (PubSubStore (CallGetUserSubscriptions a j)) s (mongo_pubsub M (CallGetUserSubscriptions a j) m)"
    by (simp add: mongo_GetUserSubscriptions_def answers_with_def)
      (rule mongo_matches_same [OF sh, where ks = "map (\<lambda>k. fst (snd k)) ks"];
        auto simp: reads_def GetUserSubscriptions_def enumerates_def)
qed

lemma mongo_pubsub_step:
  assumes "mongo_serves M view" "mongo_stores M view m s" "mongo_plain M (PubSubStore c)"
  shows "mongo_matches M view (PubSubStore c) s (mongo_pubsub M c m)"
proof -
  from assms(2) obtain us where sh: "mongo_shows M view us m s" by (auto simp: mongo_stores_def)
  show ?thesis
  proof (cases c)
    case (CallCreateNode n)
    with assms(3) mongo_CreateNode_step [OF assms(1) sh] show ?thesis by simp
  next
    case (CallUpsertItem now i)
    with assms(3) mongo_UpsertItem_step [OF assms(1) sh] show ?thesis by (simp add: Let_def)
  qed (use mongo_DeleteNode_step [OF assms(1) sh] mongo_nodes_step [OF assms(1) sh] mongo_items_step [OF assms(1) sh]
      mongo_GetItems_step [OF assms(1) sh] mongo_Subscribe_step [OF assms(1) sh] mongo_subs_step [OF assms(1) sh] in simp_all)
qed

section \<open>Every run is a run of the in-memory store\<close>

lemma mongo_call_step:
  assumes "mongo_serves M view" "mongo_stores M view m s" "mongo_plain M c"
  shows "mongo_matches M view c s (mongo_call M c m)"
  using assms by (cases c) (simp_all add: mongo_user_step mongo_roster_step mongo_blocking_step mongo_vcard_step mongo_offline_step
      mongo_muc_step mongo_pubsub_step mongo_bookmark_step)

lemma mongo_simulation:
  assumes "mongo_serves M view"
  shows "store_simulation (\<lambda>_ _ _. True) (\<lambda>_. mongo_call M) mem_order mem_call (mongo_plain M) (mongo_stores M view)"
proof
  fix m s c ks m' rep
  assume "mongo_stores M view m s" "mongo_plain M c" "mongo_call M c m = (m', rep)"
  with mongo_call_step [OF assms this(1,2)]
  show "\<exists>ks' t'. mem_order ks' c s \<and> mem_call ks' c s = (t', rep) \<and> mongo_stores M view m' t'"
    by (simp add: mongo_matches_def)
qed

text \<open>A server with no documents, after the indexes have been created.\<close>

lemma create_indexes_empty:
  assumes "mongo_serves M view" "db_docs (view m) = (\<lambda>_. {#})"
  shows "\<exists>m'. create_indexes M idxs m = (m', None) \<and> db_docs (view m') = db_docs (view m) \<and>
     db_unique (view m') = db_unique (view m) \<union> {(col, keys). (col, keys, True) \<in> set idxs}"
  using assms(2)
proof (induction idxs arbitrary: m)
  case (Cons idx idxs)
  obtain col keys unq where idx: "idx = (col, keys, unq)" by (cases idx)
  have "unq \<Longrightarrow> db_docs (view m) col = {#}" using Cons.prems by simp
  from serves_respond [OF assms(1) CreateIndex [where keys = keys, OF this]] obtain y m1
    where "mg_exec M (CreateIndex col keys unq) m = (y, m1)" "responds (CreateIndex col keys unq) (view m) y (view m1)"
    by blast
  then have one: "just_run M (CreateIndex col keys unq) m = (m1, None)"
    "view m1 = (view m)\<lparr>db_unique := (if unq then insert (col, keys) (db_unique (view m)) else db_unique (view m))\<rparr>"
    by (auto simp: just_run_def elim!: responds_cases)
  then obtain m' where "create_indexes M idxs m1 = (m', None)" "db_docs (view m') = db_docs (view m1)"
    "db_unique (view m') = db_unique (view m1) \<union> {(col, keys). (col, keys, True) \<in> set idxs}"
    using Cons.IH [of m1] Cons.prems by fastforce
  with one show ?case by (auto simp: idx)
qed simp

lemma mongo_Init_empty:
  assumes "mongo_serves M view" "view m = \<lparr>db_docs = (\<lambda>_. {#}), db_unique = {}\<rparr>"
  shows "snd (mongo_Init M m) = None" "mongo_stores M view (fst (mongo_Init M m)) NewStore"
proof -
  obtain m' where ini: "mongo_Init M m = (m', None)" "db_docs (view m') = (\<lambda>_. {#})" "db_unique (view m') = mongo_unique"
    using create_indexes_empty [OF assms(1), of m mongo_indexes] assms(2) by (auto simp: mongo_Init_def mongo_unique_def)
  have "mongo_holds M Map.empty NewStore (view m')"
    by (auto simp: mongo_holds_def mongo_tables_def ini mongo_wf_def table_ok_def mongo_accounts_def mongo_offline_msgs_def
        NewStore_def offline_of_def users.coll_empty rosters.coll_empty versions.coll_empty blocks.coll_empty vcards.coll_empty
        rooms.coll_empty affs.coll_empty nodes.coll_empty items.coll_empty subs.coll_empty marks.coll_empty)
  then show "snd (mongo_Init M m) = None" "mongo_stores M view (fst (mongo_Init M m)) NewStore"
    by (auto simp: ini mongo_stores_def mongo_shows_def)
qed

end
