(* ===== verification/StorageMongoProps.thy ===== *)
theory StorageMongoProps
  imports StorageMongoRefinement StorageRuns
begin

text \<open>
  What the MongoDB store promises: that it behaves like the in-memory store on the calls \<open>mongo_plain\<close>, for
  every server that answers as documented; the pages of its archive; a server written out, for which the
  promises are not empty; and what the two stores do differently on the other calls.
\<close>

section \<open>A server\<close>

text \<open>The documents of each collection as a list; of several documents that match, the first is taken.\<close>

record shelf =
  sh_docs :: "string \<Rightarrow> document list"
  sh_unique :: "(string \<times> string list) list"

definition shelf_db :: "shelf \<Rightarrow> database" where
  "shelf_db m = \<lparr>db_docs = (\<lambda>col. mset (sh_docs m col)), db_unique = set (sh_unique m)\<rparr>"

definition empty_shelf :: shelf where
  "empty_shelf = \<lparr>sh_docs = (\<lambda>_. []), sh_unique = []\<rparr>"

definition shelve :: "shelf \<Rightarrow> string \<Rightarrow> document list \<Rightarrow> shelf" where
  "shelve m col ds = m\<lparr>sh_docs := (sh_docs m)(col := ds)\<rparr>"

definition clashes :: "shelf \<Rightarrow> string \<Rightarrow> document list \<Rightarrow> document \<Rightarrow> bool" where
  "clashes m col ds d = list_ex (\<lambda>(c, ks). c = col \<and> list_ex (\<lambda>e. list_all (\<lambda>f. e f = d f) ks) ds) (sh_unique m)"

fun drop_first :: "('a \<Rightarrow> bool) \<Rightarrow> 'a list \<Rightarrow> 'a list" where
  "drop_first P [] = []"
| "drop_first P (x # xs) = (if P x then xs else x # drop_first P xs)"

definition add_doc :: "mongo_reply \<Rightarrow> shelf \<Rightarrow> string \<Rightarrow> document list \<Rightarrow> document \<Rightarrow> (mongo_error + mongo_reply) \<times> shelf" where
  "add_doc rep m col ds d = (if clashes m col ds d then (Inl DuplicateKey, m) else (Inr rep, shelve m col (ds @ [d])))"

definition sorted_docs :: "string option \<Rightarrow> document list \<Rightarrow> document list" where
  "sorted_docs srt ds = (case srt of None \<Rightarrow> ds | Some f \<Rightarrow> sort_key (\<lambda>d. time_field d f) ds)"

fun mongo_exec :: "mongo_command \<Rightarrow> shelf \<Rightarrow> (mongo_error + mongo_reply) \<times> shelf" where
  "mongo_exec (CreateIndex col keys unq) m =
     (if unq then if sh_docs m col = [] then (Inr MDone, m\<lparr>sh_unique := (col, keys) # sh_unique m\<rparr>)
       else (Inl (MongoError ''index on a collection with documents''), m)
      else (Inr MDone, m))"
| "mongo_exec (InsertOne col d) m = add_doc MDone m col (sh_docs m col) d"
| "mongo_exec (FindOne col flt) m = (Inr (MDocument (find (matches flt) (sh_docs m col))), m)"
| "mongo_exec (Find col flt srt lim) m =
     (Inr (MDocuments (limited lim (sorted_docs srt (filter (matches flt) (sh_docs m col))))), m)"
| "mongo_exec (UpdateOne col flt s up) m =
     (case find (matches flt) (sh_docs m col) of
        Some d \<Rightarrow> add_doc (MMatched 1) m col (drop_first (matches flt) (sh_docs m col)) (d ++ s)
      | None \<Rightarrow> if up then add_doc (MMatched 0) m col (sh_docs m col) (fixed_fields flt ++ s) else (Inr (MMatched 0), m))"
| "mongo_exec (DeleteOne col flt) m =
     (case find (matches flt) (sh_docs m col) of
        Some d \<Rightarrow> (Inr (MCount 1), shelve m col (drop_first (matches flt) (sh_docs m col)))
      | None \<Rightarrow> (Inr (MCount 0), m))"
| "mongo_exec (DeleteMany col flt) m =
     (Inr (MCount (length (filter (matches flt) (sh_docs m col)))),
      shelve m col (filter (\<lambda>d. \<not> matches flt d) (sh_docs m col)))"
| "mongo_exec (CountDocuments col flt) m = (Inr (MCount (length (filter (matches flt) (sh_docs m col)))), m)"

text \<open>The driver stores times to the millisecond.\<close>

definition mongo_server :: "shelf mongo" where
  "mongo_server = \<lparr>mg_exec = mongo_exec, mg_time = (\<lambda>t. t div 1000000 * 1000000)\<rparr>"

subsection \<open>It answers as documented\<close>

lemma shelf_simps:
  "db_docs (shelf_db m) col = mset (sh_docs m col)" "db_unique (shelf_db m) = set (sh_unique m)"
  "shelf_db (shelve m col ds) = put_docs (shelf_db m) col (mset ds)"
  "shelf_db (m\<lparr>sh_unique := u\<rparr>) = (shelf_db m)\<lparr>db_unique := set u\<rparr>"
  "(shelf_db m)\<lparr>db_unique := set (sh_unique m)\<rparr> = shelf_db m"
  by (auto simp: shelf_db_def shelve_def put_docs_def fun_eq_iff)

lemma shelf_matching: "matching (shelf_db m) col flt = mset (filter (matches flt) (sh_docs m col))"
  by (simp add: matching_def shelf_simps)

lemma shelf_count: "size (matching (shelf_db m) col flt) = length (filter (matches flt) (sh_docs m col))"
  unfolding shelf_matching by (rule size_mset)

lemma clashes_iff: "clashes m col ds d \<longleftrightarrow> index_clash (set (sh_unique m)) col (mset ds) d"
  by (fastforce simp: clashes_def index_clash_def list_ex_iff list_all_iff)

lemma drop_first_mset: "find P xs = Some x \<Longrightarrow> mset (drop_first P xs) = mset xs - {#x#}"
  by (induction xs) (auto split: if_splits simp: find_Some_iff)

lemma find_matching:
  "find (matches flt) (sh_docs m col) = Some d \<Longrightarrow> d \<in># matching (shelf_db m) col flt"
  "find (matches flt) (sh_docs m col) = None \<Longrightarrow> matching (shelf_db m) col flt = {#}"
  by (auto simp: shelf_matching find_Some_iff find_None_iff filter_empty_conv)

lemma sorted_docs_ok: "mset (sorted_docs srt ds) = mset ds" "in_order srt (sorted_docs srt ds)"
  by (auto simp: sorted_docs_def in_order_def split: option.splits)

definition responded :: "mongo_command \<Rightarrow> shelf \<Rightarrow> bool" where
  "responded c m \<longleftrightarrow> responds c (shelf_db m) (fst (mongo_exec c m)) (shelf_db (snd (mongo_exec c m)))"

lemma update_responded: "responded (UpdateOne col flt s up) m"
proof (cases "find (matches flt) (sh_docs m col)")
  case None
  then show ?thesis
    using UpdateOne_upsert [OF find_matching(2) [OF None], of s] UpdateOne_upsert_clash [OF find_matching(2) [OF None], of s]
      UpdateOne_none [OF find_matching(2) [OF None], of s]
    by (cases up) (auto simp: responded_def add_doc_def clashes_iff shelf_simps)
next
  case (Some d)
  then show ?thesis
    using UpdateOne [OF find_matching(1) [OF Some], of s up] UpdateOne_clash [OF find_matching(1) [OF Some], of s up]
    by (auto simp: responded_def add_doc_def clashes_iff shelf_simps drop_first_mset)
qed

lemma delete_responded: "responded (DeleteOne col flt) m"
proof (cases "find (matches flt) (sh_docs m col)")
  case None
  then show ?thesis using DeleteOne_none [OF find_matching(2) [OF None]] by (simp add: responded_def)
next
  case (Some d)
  then show ?thesis
    using DeleteOne [OF find_matching(1) [OF Some]] by (simp add: responded_def shelf_simps drop_first_mset)
qed

lemma read_responded:
  "responded (FindOne col flt) m" "responded (Find col flt srt lim) m" "responded (CountDocuments col flt) m"
proof -
  show "responded (FindOne col flt) m"
    using FindOne [OF find_matching(1)] FindOne_none [OF find_matching(2)]
    by (cases "find (matches flt) (sh_docs m col)") (auto simp: responded_def)
  show "responded (Find col flt srt lim) m"
    using Find [of "sorted_docs srt (filter (matches flt) (sh_docs m col))" "shelf_db m" col flt srt lim]
    by (simp add: responded_def sorted_docs_ok shelf_matching)
  show "responded (CountDocuments col flt) m"
    using CountDocuments [of col flt "shelf_db m"] by (simp add: responded_def shelf_count)
qed

lemma write_responded:
  "responded (InsertOne col d) m" "responded (DeleteMany col flt) m"
  "\<not> unq \<or> sh_docs m col = [] \<Longrightarrow> responded (CreateIndex col keys unq) m"
proof -
  show "responded (InsertOne col d) m"
    using InsertOne [of "shelf_db m" col d] InsertOne_clash [of "shelf_db m" col d]
    by (auto simp: responded_def add_doc_def clashes_iff shelf_simps)
  show "responded (DeleteMany col flt) m"
    using DeleteMany [of col flt "shelf_db m"] by (simp add: responded_def shelf_count shelf_simps)
  show "responded (CreateIndex col keys unq) m" if "\<not> unq \<or> sh_docs m col = []"
    using that CreateIndex [of unq "shelf_db m" col keys] by (auto simp: responded_def shelf_simps)
qed

lemma mongo_server_serves: "mongo_serves mongo_server shelf_db"
proof -
  have "responded c m" if "responds c (shelf_db m) x v'" for c m x v'
  proof (cases c)
    case (CreateIndex col keys unq)
    with that have "\<not> unq \<or> sh_docs m col = []" by (auto simp: shelf_simps elim!: responds_cases)
    with CreateIndex show ?thesis by (simp add: write_responded)
  qed (simp_all add: read_responded write_responded update_responded delete_responded)
  then show ?thesis by (auto simp: mongo_serves_def mongo_server_def responded_def)
qed

section \<open>The store behaves like the in-memory store\<close>

text \<open>
  C21: the MongoDB store refines the in-memory store.  Let a server answer as MongoDB documents its commands, start
  without documents, and let \<open>Init\<close> run.  Then \<open>Init\<close> succeeds, and whatever is called on the store after it,
  of the calls \<open>mongo_plain\<close> (every method of every interface except \<open>GetUser\<close>, \<open>GetOfflineMessages\<close> and the
  message archive; nodes without a configuration; items at times the driver stores exactly), the in-memory
  store can give the same replies to the same calls in the same order.
\<close>

theorem mongo_store_refines_memory:
  assumes "mongo_serves M view" and "view m = \<lparr>db_docs = (\<lambda>_. {#}), db_unique = {}\<rparr>"
    and "runs (\<lambda>_ _ _. True) (\<lambda>_. mongo_call M) (fst (mongo_Init M m)) tr m'" and "\<forall>(c, rep) \<in> set tr. mongo_plain M c"
  shows "snd (mongo_Init M m) = None \<and> (\<exists>s. runs mem_order mem_call NewStore tr s)"
  using store_simulation.simulation [OF mongo_simulation [OF assms(1)] assms(3) mongo_Init_empty(2) [OF assms(1,2)] assms(4)]
    mongo_Init_empty(1) [OF assms(1,2)] by blast

definition mongo_demo_run :: "(storage_call \<times> storage_reply) list" where
  "mongo_demo_run =
     [(UserStore (CallCreateUser 5 demo_user), Done None),
      (UserStore (CallCreateUser 6 demo_user), Done (Some ErrUserExists)),
      (UserStore (CallAuthenticate ''ann'' ''pw''), ReplyAuth (True, None)),
      (PubSubStore (CallCreateNode demo_node), Done None),
      (PubSubStore (CallListNodes ''h''), ReplyNodes (Inr [demo_node])),
      (PubSubStore (CallDeleteNode (''h'', ''n'')), Done None),
      (PubSubStore (CallListNodes ''h''), ReplyNodes (Inr []))]"

lemmas mongo_eval = mongo_server_def empty_shelf_def shelve_def clashes_def add_doc_def sorted_docs_def limited_def
  mongo_Init_def mongo_indexes_def just_run_def find_one_def find_all_def count_docs_def insert_new_def update_existing_def
  delete_existing_def writes_def answers_with_def matches_def node_filter_def decode_defs un_userDoc_def un_pubsubNodeDoc_def
  mongo_CreateUser_def mongo_GetUser_def mongo_UpdateUser_def mongo_Authenticate_def mongo_CreateNode_def mongo_GetNode_def
  mongo_ListNodes_def mongo_DeleteNode_def

abbreviation fresh_shelf :: shelf where
  "fresh_shelf \<equiv> fst (mongo_Init mongo_server empty_shelf)"

lemma mongo_demo_replies:
  "snd (replies (mongo_call mongo_server) (map fst mongo_demo_run) fresh_shelf) = map snd mongo_demo_run"
  by (simp add: mongo_demo_run_def mongo_eval demo_user_def demo_node_def)

theorem mongo_store_refines_memory_witness: "\<exists>s. runs mem_order mem_call NewStore mongo_demo_run s"
proof -
  obtain m' where "runs (\<lambda>_ _ _. True) (\<lambda>_. mongo_call mongo_server) fresh_shelf mongo_demo_run m'"
    using replies_runs [of "mongo_call mongo_server" "map fst mongo_demo_run" fresh_shelf] mongo_demo_replies
    by (metis prod.collapse zip_map_fst_snd)
  moreover have "shelf_db empty_shelf = \<lparr>db_docs = (\<lambda>_. {#}), db_unique = {}\<rparr>"
    by (simp add: shelf_db_def empty_shelf_def)
  moreover have "\<forall>(c, rep) \<in> set mongo_demo_run. mongo_plain mongo_server c"
    by (simp add: mongo_demo_run_def demo_node_def)
  ultimately show ?thesis
    using mongo_store_refines_memory [OF mongo_server_serves] by blast
qed

section \<open>The archive\<close>

text \<open>A message as the driver stores it, and the messages a query selects.\<close>

definition stored_msg :: "'m mongo \<Rightarrow> ArchivedMessage \<Rightarrow> ArchivedMessage" where
  "stored_msg M a = a\<lparr>am_CreatedAt := mg_time M (am_CreatedAt a)\<rparr>"

definition mongo_selects :: "'m mongo \<Rightarrow> MAMQuery \<Rightarrow> ArchivedMessage \<Rightarrow> bool" where
  "mongo_selects M q a \<longleftrightarrow>
     am_UserJID a = q_UserJID q \<and> (q_WithJID q = [] \<or> am_WithJID a = q_WithJID q) \<and>
     (IsZero (q_Start q) \<or> mg_time M (q_Start q) \<le> mg_time M (am_CreatedAt a)) \<and>
     (IsZero (q_End q) \<or> mg_time M (am_CreatedAt a) \<le> mg_time M (q_End q)) \<and>
     (q_AfterID q = [] \<or> str_less (q_AfterID q) (am_ID a)) \<and> (q_BeforeID q = [] \<or> str_less (am_ID a) (q_BeforeID q))"

lemma un_mam_doc: "un_mamDoc (mamDoc M a) = Inr (stored_msg M a)"
  by (simp add: un_mamDoc_def mamDoc_def stored_msg_def Decode_def fits_def field_defs)

lemma matches_parts:
  "matches (f @ g) d \<longleftrightarrow> matches f d \<and> matches g d" "matches [c] d \<longleftrightarrow> holds_for d c" "matches [] d"
  "matches (if b then f else []) d \<longleftrightarrow> (b \<longrightarrow> matches f d)"
  by (auto simp: matches_def)

lemma mam_fields:
  "mamDoc M a ''user_jid'' = Some (BString (am_UserJID a))" "mamDoc M a ''with_jid'' = Some (BString (am_WithJID a))"
  "mamDoc M a ''id'' = Some (BString (am_ID a))" "mamDoc M a ''created_at'' = Some (BTime (mg_time M (am_CreatedAt a)))"
  by (simp_all add: mamDoc_def)

lemma matches_mam: "matches (mam_query_filter M q) (mamDoc M a) \<longleftrightarrow> mongo_selects M q a"
  unfolding mam_query_filter_def matches_parts holds_for.simps mam_fields option.case option.inject bson.inject bson_less.simps
    mongo_selects_def le_less imp_conv_disj not_not
  by (simp only: eq_commute [of "mg_time M (q_Start q)"])

lemma page_of_limited: "mongo_mam_page n (take (Suc n) xs) = mongo_mam_page n xs"
  by (auto simp: mongo_mam_page_def Let_def min_def)

text \<open>
  A query returns one page of the messages it selects, the oldest first: the messages are those archived, with
  their times as the driver stores them; the page is as long as the query allows, it is complete when nothing
  is left out, and its first and last identifiers are those of the page.
\<close>

theorem mongo_query_pages:
  assumes "mongo_serves M view" "db_docs (view m) ''mam_messages'' = image_mset (mamDoc M) (mset ms)"
  shows "\<exists>m' xs. mongo_QueryMessages M q m = (m', Inr (mongo_mam_page (mam_max q) xs)) \<and> view m' = view m \<and>
     mset xs = mset (map (stored_msg M) (filter (mongo_selects M q) ms)) \<and> sorted (map am_CreatedAt xs)"
proof -
  let ?f = "mam_query_filter M q" and ?c = "''mam_messages''" and ?g = "\<lambda>d. projr (un_mamDoc d)" and ?n = "Suc (mam_max q)"
  let ?find = "Find ?c ?f (Some ''created_at'') (Some ?n)"
  have mt: "matching (view m) ?c ?f = image_mset (mamDoc M) (mset (filter (mongo_selects M q) ms))"
    by (simp add: matching_def assms(2) filter_mset_image_mset matches_mam)
  have "\<exists>x v'. responds ?find (view m) x v'"
    using Find [of "sort_key (\<lambda>d. time_field d ''created_at'') (map (mamDoc M) (filter (mongo_selects M q) ms))" "view m" ?c ?f
        "Some ''created_at''" "Some ?n"] by (auto simp: mt in_order_def)
  then obtain y m' where "mg_exec M ?find m = (y, m')" "responds ?find (view m) y (view m')"
    using serves_respond [OF assms(1)] by metis
  then obtain es where es: "mg_exec M ?find m = (Inr (MDocuments (take ?n es)), m')" "view m' = view m"
    "mset es = image_mset (mamDoc M) (mset (filter (mongo_selects M q) ms))" "in_order (Some ''created_at'') es"
    by (auto simp: limited_def mt elim!: responds_cases)
  have doc: "\<exists>a. d = mamDoc M a" if "d \<in> set es" for d
  proof -
    from that have "d \<in># mset es" by simp
    then show ?thesis unfolding es(3) by auto
  qed
  have "\<forall>d \<in> set (take ?n es). un_mamDoc d = Inr (?g d)"
    using doc by (fastforce dest!: in_set_takeD simp: un_mam_doc)
  from decode_all_map [OF this]
  have "mongo_QueryMessages M q m = (m', Inr (mongo_mam_page (mam_max q) (map ?g es)))"
    using page_of_limited [of "mam_max q" "map ?g es"] by (simp add: mongo_QueryMessages_def find_all_def es(1) take_map)
  moreover have "mset (map ?g es) = mset (map (stored_msg M) (filter (mongo_selects M q) ms))"
    by (simp add: es(3) multiset.map_comp comp_def un_mam_doc)
  moreover have "am_CreatedAt (?g d) = time_field d ''created_at''" if "d \<in> set es" for d
    using doc [OF that] by (auto simp: un_mam_doc stored_msg_def time_field_def mam_fields)
  then have times: "map am_CreatedAt (map ?g es) = map (\<lambda>d. time_field d ''created_at'') es" by simp
  have "sorted (map am_CreatedAt (map ?g es))"
    unfolding times using es(4) by (simp add: in_order_def)
  ultimately show ?thesis using es(2) by blast
qed

text \<open>Archiving adds a message, deleting the archive of a user removes theirs and no other.\<close>

lemma mongo_archive_grows:
  assumes "mongo_serves M view" "\<And>ks. (''mam_messages'', ks) \<notin> db_unique (view m)"
    and "db_docs (view m) ''mam_messages'' = image_mset (mamDoc M) (mset ms)"
  shows "\<exists>m'. mongo_ArchiveMessage M now a m = (m', None) \<and> db_unique (view m') = db_unique (view m) \<and>
     db_docs (view m') ''mam_messages'' =
       image_mset (mamDoc M) (mset (a\<lparr>am_CreatedAt := if IsZero (am_CreatedAt a) then now else am_CreatedAt a\<rparr> # ms))"
    and "\<exists>m'. mongo_DeleteMessageArchive M u m = (m', None) \<and> db_unique (view m') = db_unique (view m) \<and>
     db_docs (view m') ''mam_messages'' = image_mset (mamDoc M) (mset (filter (\<lambda>a. am_UserJID a \<noteq> u) ms))"
proof -
  let ?d = "mamDoc M (a\<lparr>am_CreatedAt := if IsZero (am_CreatedAt a) then now else am_CreatedAt a\<rparr>)"
  have nc: "\<not> index_clash (db_unique (view m)) ''mam_messages'' C d" for C d
    using assms(2) by (simp add: index_clash_def)
  obtain y m' where "mg_exec M (InsertOne ''mam_messages'' ?d) m = (y, m')" "responds (InsertOne ''mam_messages'' ?d) (view m) y (view m')"
    by (rule serves_respond [OF assms(1) InsertOne [OF nc]])
  then show "\<exists>m'. mongo_ArchiveMessage M now a m = (m', None) \<and> db_unique (view m') = db_unique (view m) \<and>
     db_docs (view m') ''mam_messages'' =
       image_mset (mamDoc M) (mset (a\<lparr>am_CreatedAt := if IsZero (am_CreatedAt a) then now else am_CreatedAt a\<rparr> # ms))"
    using nc by (auto simp: mongo_ArchiveMessage_def just_run_def Let_def assms(3) elim!: responds_cases)
  let ?del = "DeleteMany ''mam_messages'' [eq_str ''user_jid'' u]"
  obtain y m' where "mg_exec M ?del m = (y, m')" "responds ?del (view m) y (view m')"
    by (rule serves_respond [OF assms(1) DeleteMany])
  moreover have "matches [eq_str ''user_jid'' u] (mamDoc M b) \<longleftrightarrow> am_UserJID b = u" for b
    by (auto simp: matches_def mamDoc_def)
  ultimately show "\<exists>m'. mongo_DeleteMessageArchive M u m = (m', None) \<and> db_unique (view m') = db_unique (view m) \<and>
     db_docs (view m') ''mam_messages'' = image_mset (mamDoc M) (mset (filter (\<lambda>a. am_UserJID a \<noteq> u) ms))"
    by (auto simp: mongo_DeleteMessageArchive_def just_run_def assms(3) filter_mset_image_mset elim!: responds_cases)
qed

section \<open>What the stores do differently\<close>

text \<open>
  Identifiers of archived messages are compared as strings, and \<open>10\<close> comes before \<open>9\<close>: a client that asks for
  what follows message 9 is told that nothing does.
\<close>

fun mongo_archive :: "MAMQuery \<Rightarrow> shelf \<Rightarrow> ArchivedMessage list \<Rightarrow> (string \<times> bytes) list \<times> bool" where
  "mongo_archive q m [] =
     (case snd (mongo_QueryMessages mongo_server q m) of
        Inl e \<Rightarrow> ([], False) | Inr res \<Rightarrow> (map (\<lambda>a. (am_ID a, am_Data a)) (mr_Messages res), mr_Complete res))"
| "mongo_archive q m (a # as) = mongo_archive q (fst (mongo_ArchiveMessage mongo_server 1 a m)) as"

lemmas mongo_archive_eval = mongo_eval archived_def whole_archive_def mongo_QueryMessages_def mongo_ArchiveMessage_def
  mam_query_filter_def un_mamDoc_def mamDoc_def mongo_mam_page_def mam_max_def IsZero_def

lemma mongo_archive_loses_ten:
  "mongo_archive whole_archive empty_shelf [archived ''9'' 1000000 [1], archived ''10'' 2000000 [2]] =
     ([(''9'', [1]), (''10'', [2])], True)"
  "mongo_archive (whole_archive\<lparr>q_AfterID := ''9''\<rparr>) empty_shelf [archived ''9'' 1000000 [1], archived ''10'' 2000000 [2]] =
     ([], True)"
  by (simp_all add: mongo_archive_eval)

text \<open>A message archived without an identifier keeps none, so that no later query can name it.\<close>

lemma mongo_archive_no_id: "mongo_archive whole_archive empty_shelf [archived [] 1000000 [1]] = ([([], [1])], True)"
  by (simp add: mongo_archive_eval)

text \<open>An update of an account keeps the time of its creation, which the in-memory store overwrites.\<close>

lemma mongo_update_keeps_creation:
  "snd (replies (mongo_call mongo_server)
     [UserStore (CallCreateUser 3000000 demo_user), UserStore (CallUpdateUser 4000000 demo_user), UserStore (CallGetUser ''ann'')]
     fresh_shelf) =
     [Done None, Done None, ReplyUser (Inr (demo_user\<lparr>u_CreatedAt := 3000000, u_UpdatedAt := 4000000\<rparr>))]"
  "snd (replies (mem_call [])
     [UserStore (CallCreateUser 3000000 demo_user), UserStore (CallUpdateUser 4000000 demo_user), UserStore (CallGetUser ''ann'')]
     NewStore) =
     [Done None, Done None, ReplyUser (Inr (demo_user\<lparr>u_CreatedAt := 0, u_UpdatedAt := 4000000\<rparr>))]"
  by (simp_all add: mongo_eval demo_user_def NewStore_def CreateUser_def UpdateUser_def GetUser_def reads_def)

text \<open>The configuration of a node is not stored: every node is read back without one.\<close>

lemma mongo_node_config_lost: "un_pubsubNodeDoc (pubsubNodeDoc n) = Inr (n\<lparr>node_Config := None\<rparr>)"
  by (simp add: un_pubsubNodeDoc_def decode_defs)

end
