(* ===== verification/XmppdConfig.thy ===== *)
theory XmppdConfig
  imports Server XmppdRegistration StorageRefinement "HOL-Library.Char_ord" "HOL-Library.List_Lexorder"
begin

text \<open>
  How the server program is put together: its configuration from the environment (cmd/xmppd/config.go), the
  registry of plugins and the choice of those to load (cmd/xmppd/plugins.go), the choice of the storage and the
  creation of the default accounts (cmd/xmppd/main.go).  The environment, the lower case of runes beyond ASCII
  and \<open>time.ParseDuration\<close> are parameters.  Of the function \<open>main\<close> the session handler that creates the default
  accounts once is here; the certificate it may generate, signals and logging are not.
\<close>

section \<open>Configuration\<close>

record confenv =
  ce_Getenv :: "string \<Rightarrow> string"
  ce_ToLower :: "string \<Rightarrow> string"
  ce_ParseDuration :: "string \<Rightarrow> int option"

record Account =
  ac_Username :: string
  ac_Password :: string

record Config =
  cf_Domain :: string
  cf_Addr :: string
  cf_TLSCert :: string
  cf_TLSKey :: string
  cf_TLSSelfSigned :: bool
  cf_TLSSelfSignedDir :: string
  cf_Storage :: string
  cf_StorageDSN :: string
  cf_StoragePath :: string
  cf_MongoDBName :: string
  cf_Plugins :: "string list"
  cf_DefaultAccounts :: "Account list"
  cf_CapsNode :: string
  cf_VersionName :: string
  cf_VersionString :: string
  cf_OMEMODeviceID :: "32 word"
  cf_Registration :: registrationConfig

definition getenv :: "confenv \<Rightarrow> string \<Rightarrow> string \<Rightarrow> string" where
  "getenv E key fallback = (let v = ce_Getenv E key in if v \<noteq> [] then v else fallback)"

definition getenvBool :: "confenv \<Rightarrow> string \<Rightarrow> bool \<Rightarrow> bool" where
  "getenvBool E key fallback =
     (let v = ce_Getenv E key
      in if v = [] then fallback
         else if ce_ToLower E v \<in> set [''1'', ''true'', ''yes'', ''y'', ''on''] then True
         else if ce_ToLower E v \<in> set [''0'', ''false'', ''no'', ''n'', ''off''] then False
         else fallback)"

text \<open>\<open>strconv.Atoi\<close>: an optional sign and at least one digit, within 64 bits.\<close>

definition Atoi :: "string \<Rightarrow> int option" where
  "Atoi s =
     (let neg = (s \<noteq> [] \<and> hd s = CHR ''-'');
          ds = (if s \<noteq> [] \<and> (hd s = CHR ''-'' \<or> hd s = CHR ''+'') then tl s else s);
          n = int (digits_value (map byte_of ds));
          v = (if neg then - n else n)
      in if ds = [] \<or> (\<exists>c \<in> set ds. \<not> is_digit (byte_of c)) \<or> v < - (2 ^ 63) \<or> 2 ^ 63 \<le> v then None else Some v)"

definition getenvInt :: "confenv \<Rightarrow> string \<Rightarrow> int \<Rightarrow> int" where
  "getenvInt E key fallback =
     (let v = ce_Getenv E key
      in if v = [] then fallback else case Atoi v of None \<Rightarrow> fallback | Some i \<Rightarrow> i)"

definition getenvDuration :: "confenv \<Rightarrow> string \<Rightarrow> int \<Rightarrow> int" where
  "getenvDuration E key fallback =
     (let v = ce_Getenv E key
      in if v = [] then fallback else case ce_ParseDuration E v of None \<Rightarrow> fallback | Some d \<Rightarrow> d)"

text \<open>\<open>strings.Split\<close> at a one-byte separator.\<close>

fun Split :: "char \<Rightarrow> string \<Rightarrow> string list" where
  "Split c [] = [[]]"
| "Split c (x # s) =
     (if x = c then [] # Split c s else (x # hd (Split c s)) # tl (Split c s))"

fun csv_parts :: "confenv \<Rightarrow> string list \<Rightarrow> string list" where
  "csv_parts E [] = []"
| "csv_parts E (p # ps) =
     (let p' = TrimSpace (ce_ToLower E p)
      in if p' = [] then csv_parts E ps else p' # csv_parts E ps)"

definition parseCSV :: "confenv \<Rightarrow> string \<Rightarrow> string list" where
  "parseCSV E v = (if v = [] then [] else csv_parts E (Split CHR '','' v))"

fun account_parts :: "string list \<Rightarrow> Account list" where
  "account_parts [] = []"
| "account_parts (p # ps) =
     (let p' = TrimSpace p; kv = split_n 2 CHR '':'' p'
      in if p' = [] then account_parts ps
         else if length kv \<noteq> 2 then account_parts ps
         else let user = TrimSpace (kv ! 0); pass = TrimSpace (kv ! 1)
              in if user = [] \<or> pass = [] then account_parts ps
                 else \<lparr>ac_Username = user, ac_Password = pass\<rparr> # account_parts ps)"

definition parseAccounts :: "string \<Rightarrow> Account list" where
  "parseAccounts v = (if v = [] then [] else account_parts (Split CHR '','' v))"

text \<open>The set of tokens by its elements; \<open>nil\<close> is the empty set.\<close>

definition parseTokenSet :: "confenv \<Rightarrow> string \<Rightarrow> string list" where
  "parseTokenSet E v = remdups (parseCSV E v)"

definition minute :: int where
  "minute = 60 * 10 ^ 9"

definition loadRegistration :: "confenv \<Rightarrow> registrationConfig" where
  "loadRegistration E =
     \<lparr>rc_Policy = ce_ToLower E (getenv E ''XMPP_REGISTRATION_POLICY'' ''open''),
      rc_Fields = parseCSV E (getenv E ''XMPP_REGISTRATION_FIELDS'' ''username,password,email''),
      rc_Invites = parseTokenSet E (ce_Getenv E ''XMPP_REGISTRATION_INVITES''),
      rc_AdminTokens = parseTokenSet E (ce_Getenv E ''XMPP_REGISTRATION_ADMIN_TOKENS''),
      rc_RateLimit = getenvInt E ''XMPP_REGISTRATION_RATE_LIMIT'' 5,
      rc_RateWindow = getenvDuration E ''XMPP_REGISTRATION_RATE_WINDOW'' minute,
      rc_Iterations = getenvInt E ''XMPP_REGISTRATION_SCRAM_ITERATIONS'' 4096,
      rc_DataForm = getenvBool E ''XMPP_REGISTRATION_DATAFORM'' True,
      rc_Instructions = getenv E ''XMPP_REGISTRATION_INSTRUCTIONS'' ''Fill out the form to create an account.''\<rparr>"

definition loadConfig :: "confenv \<Rightarrow> Config" where
  "loadConfig E =
     \<lparr>cf_Domain = getenv E ''XMPP_DOMAIN'' ''example.com'',
      cf_Addr = getenv E ''XMPP_ADDR'' '':5222'',
      cf_TLSCert = ce_Getenv E ''XMPP_TLS_CERT'',
      cf_TLSKey = ce_Getenv E ''XMPP_TLS_KEY'',
      cf_TLSSelfSigned = getenvBool E ''XMPP_TLS_SELF_SIGNED'' False,
      cf_TLSSelfSignedDir = getenv E ''XMPP_TLS_SELF_SIGNED_DIR'' ''/var/lib/xmpp/tls'',
      cf_Storage = ce_ToLower E (getenv E ''XMPP_STORAGE'' ''file''),
      cf_StorageDSN = ce_Getenv E ''XMPP_STORAGE_DSN'',
      cf_StoragePath = getenv E ''XMPP_STORAGE_PATH'' ''/var/lib/xmpp/data'',
      cf_MongoDBName = getenv E ''XMPP_MONGO_DB'' ''xmpp'',
      cf_Plugins = parseCSV E (getenv E ''XMPP_PLUGINS'' ''disco,roster,presence,ping,vcard,time,version''),
      cf_DefaultAccounts = parseAccounts (ce_Getenv E ''XMPP_DEFAULT_ACCOUNTS''),
      cf_CapsNode = getenv E ''XMPP_CAPS_NODE'' ''xmpp-go'',
      cf_VersionName = getenv E ''XMPP_VERSION_NAME'' ''xmpp-go'',
      cf_VersionString = getenv E ''XMPP_VERSION'' ''dev'',
      cf_OMEMODeviceID = word_of_int (getenvInt E ''XMPP_OMEMO_DEVICE_ID'' 1),
      cf_Registration = loadRegistration E\<rparr>"

section \<open>Plugins\<close>

text \<open>
  What the constructors of the registry make, seen as the manager sees it: the name a package gives itself, its
  version and its dependencies.  No \<open>Initialize\<close> and no \<open>Close\<close> of them returns an error.
\<close>

definition new_plugin :: "string \<Rightarrow> string list \<Rightarrow> Plugin" where
  "new_plugin name deps =
     \<lparr>Name = name, Version = ''1.0.0'', Dependencies = deps, Initialize_err = None, Close_err = None\<rparr>"

definition registry_keys :: "string list" where
  "registry_keys =
     [''avatar'', ''blocking'', ''bob'', ''bookmarks'', ''caps'', ''carbons'', ''chatmarkers'', ''chatstates'', ''commands'',
      ''correction'', ''csi'', ''delay'', ''dialback'', ''disco'', ''extdisco'', ''filetransfer'', ''form'', ''forward'',
      ''hash'', ''hints'', ''ibb'', ''jingle'', ''lastactivity'', ''mam'', ''mix'', ''moderation'', ''muc'', ''oob'', ''omemo'',
      ''ping'', ''presence'', ''pubsub'', ''push'', ''reactions'', ''receipts'', ''register'', ''retraction'', ''roster'',
      ''rsm'', ''sasl2'', ''sm'', ''socks5'', ''stanzaid'', ''styling'', ''time'', ''upload'', ''vcard'', ''version'']"

definition plugin_Dependencies :: "string \<Rightarrow> string list" where
  "plugin_Dependencies name = (if name = ''caps'' then [''disco''] else [])"

definition pluginRegistry :: "string \<rightharpoonup> Plugin" where
  "pluginRegistry = map_of (map (\<lambda>k. (k, new_plugin k (plugin_Dependencies k))) registry_keys)"

fun plugins_named :: "string list \<Rightarrow> (string, Plugin list) result" where
  "plugins_named [] = Inr []"
| "plugins_named (name # ns) =
     (case pluginRegistry name of
        None \<Rightarrow> Inl name
      | Some p \<Rightarrow> bind_result (plugins_named ns) (\<lambda>ps. Inr (p # ps)))"

text \<open>\<open>keys\<close> is the order of the loop over the registry; the error is the name that is not known.\<close>

definition buildPlugins :: "string list \<Rightarrow> Config \<Rightarrow> (string, Plugin list) result" where
  "buildPlugins keys cfg =
     (if cf_Plugins cfg = [] then Inr []
      else if length (cf_Plugins cfg) = 1 \<and> cf_Plugins cfg ! 0 = ''all''
      then Inr (map (\<lambda>k. the (pluginRegistry k)) (sort keys))
      else plugins_named (cf_Plugins cfg))"

section \<open>Storage\<close>

datatype backend_kind =
    MemoryBackend
  | FileBackend string
  | SqliteBackend string
  | PostgresBackend string
  | MysqlBackend string
  | MongoBackend string string
  | RedisBackend string

text \<open>
  \<open>mkdir\<close> is the error of \<open>os.MkdirAll\<close>, \<open>open\<close> that of the constructor of a backend that connects
  or, for Redis, reads the address; \<open>join\<close> is \<open>filepath.Join\<close>.
\<close>

definition required_dsn :: "(backend_kind \<Rightarrow> string option) \<Rightarrow> string \<Rightarrow> string \<Rightarrow> backend_kind \<Rightarrow> (string, backend_kind) result" where
  "required_dsn open kind dsn b =
     (if dsn = [] then Inl (''XMPP_STORAGE_DSN is required for '' @ kind)
      else case open b of Some e \<Rightarrow> Inl e | None \<Rightarrow> Inr b)"

definition buildStorage :: "(string \<Rightarrow> string \<Rightarrow> string) \<Rightarrow> (string \<Rightarrow> string option) \<Rightarrow> (backend_kind \<Rightarrow> string option) \<Rightarrow> Config \<Rightarrow> (string, backend_kind) result" where
  "buildStorage join mkdir open cfg =
     (let st = cf_Storage cfg; dsn = cf_StorageDSN cfg; path = cf_StoragePath cfg
      in if st = '''' \<or> st = ''memory'' then Inr MemoryBackend
         else if st = ''file'' then (case mkdir path of Some e \<Rightarrow> Inl e | None \<Rightarrow> Inr (FileBackend path))
         else if st = ''sqlite'' then
           (if dsn = [] then
              let d = join path ''xmpp.db''
              in case mkdir path of Some e \<Rightarrow> Inl e
                 | None \<Rightarrow> (case open (SqliteBackend d) of Some e \<Rightarrow> Inl e | None \<Rightarrow> Inr (SqliteBackend d))
            else case open (SqliteBackend dsn) of Some e \<Rightarrow> Inl e | None \<Rightarrow> Inr (SqliteBackend dsn))
         else if st = ''postgres'' then required_dsn open ''postgres'' dsn (PostgresBackend dsn)
         else if st = ''mysql'' then required_dsn open ''mysql'' dsn (MysqlBackend dsn)
         else if st = ''mongodb'' \<or> st = ''mongo'' then required_dsn open ''mongodb'' dsn (MongoBackend dsn (cf_MongoDBName cfg))
         else if st = ''redis'' then required_dsn open ''redis'' dsn (RedisBackend dsn)
         else Inl (''unknown storage: '' @ st))"

section \<open>Default accounts\<close>

text \<open>
  \<open>seedDefaultAccounts\<close>; \<open>us\<close> is what \<open>UserStore\<close> of the storage returns, and \<open>now\<close> the time its
  \<open>CreateUser\<close> reads.  \<open>NoUsers\<close> is the error of a backend without users.
\<close>

datatype seed_error = NoUsers | SeedStorage storage_error

definition seed_user :: "Account \<Rightarrow> User" where
  "seed_user acc =
     \<lparr>u_Username = ac_Username acc, u_Password = ac_Password acc, u_Salt = [], u_Iterations = 0, u_ServerKey = [],
      u_StoredKey = [], u_CreatedAt = 0, u_UpdatedAt = 0\<rparr>"

fun seed_loop :: "gotime \<Rightarrow> 'u UserStore \<Rightarrow> Account list \<Rightarrow> 'u \<Rightarrow> 'u \<times> seed_error option" where
  "seed_loop now us [] u = (u, None)"
| "seed_loop now us (acc # accs) u =
     (case us_UserExists us u (ac_Username acc) of
        Inl e \<Rightarrow> (u, Some (SeedStorage e))
      | Inr True \<Rightarrow> seed_loop now us accs u
      | Inr False \<Rightarrow>
          (case us_CreateUser us now (seed_user acc) u of
             (u', Some e) \<Rightarrow> (u', Some (SeedStorage e))
           | (u', None) \<Rightarrow> seed_loop now us accs u'))"

definition seedDefaultAccounts :: "gotime \<Rightarrow> 'u UserStore option \<Rightarrow> Account list \<Rightarrow> 'u \<Rightarrow> 'u \<times> seed_error option" where
  "seedDefaultAccounts now us accounts u =
     (if accounts = [] then (u, None)
      else case us of None \<Rightarrow> (u, Some NoUsers) | Some st \<Rightarrow> seed_loop now st accounts u)"

text \<open>
  The session handler of \<open>main\<close>: the accounts are created by the first session (\<open>sync.Once\<close>), and a session is
  served unless that failed.  \<open>storage\<close> is what \<open>buildStorage\<close> returned, \<open>None\<close> for nil; the flag of the
  result says that the session is served and not closed.
\<close>

record seeding =
  sd_done :: bool
  sd_err :: "seed_error option"

definition handle_session :: "gotime \<Rightarrow> 'u UserStore option option \<Rightarrow> Account list \<Rightarrow> seeding \<times> 'u \<Rightarrow> bool \<times> seeding \<times> 'u" where
  "handle_session now storage accounts su =
     (let (sd, u) = su;
          (u', err) = (if sd_done sd then (u, sd_err sd)
                       else case storage of
                         None \<Rightarrow> (u, None)
                       | Some us \<Rightarrow> seedDefaultAccounts now us accounts u)
      in (err = None, \<lparr>sd_done = True, sd_err = err\<rparr>, u'))"

fun handle_sessions :: "gotime list \<Rightarrow> 'u UserStore option option \<Rightarrow> Account list \<Rightarrow> seeding \<times> 'u \<Rightarrow> bool list \<times> seeding \<times> 'u" where
  "handle_sessions [] storage accounts su = ([], su)"
| "handle_sessions (now # ts) storage accounts su =
     (case handle_session now storage accounts su of
        (ok, su1) \<Rightarrow> (case handle_sessions ts storage accounts su1 of (oks, su2) \<Rightarrow> (ok # oks, su2)))"

definition not_seeded :: seeding where
  "not_seeded = \<lparr>sd_done = False, sd_err = None\<rparr>"

section \<open>Reading lists\<close>

lemma Split_not_Nil [simp]: "Split c s \<noteq> []"
  by (cases s) simp_all

lemma Split_plain: "c \<notin> set p \<Longrightarrow> Split c (p @ s) = (p @ hd (Split c s)) # tl (Split c s)"
  by (induction p) (auto simp: neq_Nil_conv)

lemma Split_sep: "c \<notin> set p \<Longrightarrow> Split c (p @ c # s) = p # Split c s"
  by (simp add: Split_plain)

lemma Split_one: "c \<notin> set p \<Longrightarrow> Split c p = [p]"
  using Split_plain [of c p "[]"] by simp

text \<open>A list of texts with a separator between them.\<close>

fun join_with :: "char \<Rightarrow> string list \<Rightarrow> string" where
  "join_with c [] = []"
| "join_with c [p] = p"
| "join_with c (p # ps) = p @ c # join_with c ps"

lemma Split_join: "ps \<noteq> [] \<Longrightarrow> \<forall>p \<in> set ps. c \<notin> set p \<Longrightarrow> Split c (join_with c ps) = ps"
proof (induction c ps rule: join_with.induct)
  case (3 c p q ps)
  then show ?case by (simp add: Split_sep)
qed (simp_all add: Split_one)

lemma join_with_not_Nil: "p \<noteq> [] \<Longrightarrow> join_with c (p # ps) \<noteq> []"
  by (cases ps) simp_all

text \<open>The text of accounts, and the accounts that can be written so.\<close>

definition account_text :: "Account \<Rightarrow> string" where
  "account_text a = ac_Username a @ CHR '':'' # ac_Password a"

definition accounts_text :: "Account list \<Rightarrow> string" where
  "accounts_text as = join_with CHR '','' (map account_text as)"

definition plain_account :: "Account \<Rightarrow> bool" where
  "plain_account a \<longleftrightarrow>
     ac_Username a \<noteq> [] \<and> ac_Password a \<noteq> [] \<and> CHR '':'' \<notin> set (ac_Username a) \<and>
     CHR '','' \<notin> set (ac_Username a) \<and> CHR '','' \<notin> set (ac_Password a) \<and>
     TrimSpace (ac_Username a) = ac_Username a \<and> TrimSpace (ac_Password a) = ac_Password a \<and>
     TrimSpace (account_text a) = account_text a"

lemma account_parts_plain: "\<forall>a \<in> set as. plain_account a \<Longrightarrow> account_parts (map account_text as) = as"
proof (induction as)
  case (Cons a as)
  have "split_n 2 CHR '':'' (account_text a) = [ac_Username a, ac_Password a]"
    using Cons.prems split_n_append [of "CHR '':''" "ac_Username a" 1 "ac_Password a"]
    by (simp add: plain_account_def account_text_def numeral_2_eq_2)
  moreover have "account_text a \<noteq> []" by (simp add: account_text_def)
  ultimately show ?case
    using Cons by (simp add: plain_account_def)
qed simp

lemma parseAccounts_text: "\<forall>a \<in> set as. plain_account a \<Longrightarrow> parseAccounts (accounts_text as) = as"
proof (cases "as = []")
  case False
  assume plain: "\<forall>a \<in> set as. plain_account a"
  have "\<forall>p \<in> set (map account_text as). CHR '','' \<notin> set p"
    using plain by (auto simp: plain_account_def account_text_def)
  then have "Split CHR '','' (accounts_text as) = map account_text as"
    using False by (simp add: accounts_text_def Split_join)
  moreover have "accounts_text as \<noteq> []"
    using False join_with_not_Nil [of "account_text (hd as)" "CHR '',''" "map account_text (tl as)"]
    by (cases as) (auto simp: accounts_text_def account_text_def)
  ultimately show ?thesis
    using account_parts_plain [OF plain] by (simp add: parseAccounts_def)
qed (simp add: accounts_text_def parseAccounts_def)

section \<open>The default accounts exist\<close>

definition account_map :: "Account list \<Rightarrow> string \<rightharpoonup> string" where
  "account_map as = map_of (map (\<lambda>a. (ac_Username a, ac_Password a)) as)"

text \<open>An account that is already there is left as it is; of several entries for a name the first counts.\<close>

context user_store
begin

lemma seed_loop_accounts:
  "snd (seed_loop now us accs u) = None \<and> accounts (fst (seed_loop now us accs u)) = account_map accs ++ accounts u"
proof (induction accs arbitrary: u)
  case (Cons acc accs)
  let ?n = "ac_Username acc" and ?c = "us_CreateUser us now (seed_user acc) u"
  have n: "u_Username (seed_user acc) = ?n" "u_Password (seed_user acc) = ac_Password acc"
    by (simp_all add: seed_user_def)
  show ?case
  proof (cases "accounts u ?n")
    case None
    then obtain a where c: "?c = (a, None)" and acc: "accounts a = (accounts u)(?n \<mapsto> ac_Password acc)"
      using create [of now "seed_user acc" u] created [of u "seed_user acc" now] n by auto
    have eq: "account_map accs ++ accounts a = account_map (acc # accs) ++ accounts u"
      using None by (auto simp: acc account_map_def map_add_def fun_eq_iff split: option.splits)
    show ?thesis
      using None Cons.IH [of a] by (simp add: exists c eq)
  next
    case (Some p)
    moreover from Some have "account_map (acc # accs) ++ accounts u = account_map accs ++ accounts u"
      by (auto simp: account_map_def map_add_def fun_eq_iff split: option.splits)
    ultimately show ?thesis
      using Cons.IH by (simp add: exists)
  qed
qed (simp add: account_map_def)

lemma seedDefaultAccounts_accounts:
  "snd (seedDefaultAccounts now (Some us) accs u) = None \<and>
   accounts (fst (seedDefaultAccounts now (Some us) accs u)) = account_map accs ++ accounts u"
  using seed_loop_accounts [of now accs u] by (simp add: seedDefaultAccounts_def account_map_def)

end

text \<open>The accounts are created once; its outcome decides about every later session.\<close>

lemma handle_sessions_done:
  assumes "sd_done sd"
  shows "handle_sessions ts storage accs (sd, u) = (replicate (length ts) (sd_err sd = None), sd, u)"
proof (induction ts)
  case (Cons t ts)
  have "handle_session t storage accs (sd, u) = (sd_err sd = None, sd, u)"
    using assms by (simp add: handle_session_def)
  with Cons show ?case by simp
qed simp

lemma handle_sessions_once:
  assumes "seedDefaultAccounts t us accs u = (u', err)"
  shows "handle_sessions (t # ts) (Some us) accs (not_seeded, u) =
    (replicate (Suc (length ts)) (err = None), \<lparr>sd_done = True, sd_err = err\<rparr>, u')"
  using assms handle_sessions_done [of "\<lparr>sd_done = True, sd_err = err\<rparr>" ts "Some us" accs u']
  by (simp add: handle_session_def not_seeded_def)

lemma seeding_failure_is_final:
  assumes "seedDefaultAccounts t us accs u = (u', Some e)"
  shows "fst (handle_sessions (t # ts) (Some us) accs (not_seeded, u)) = replicate (Suc (length ts)) False"
  using handle_sessions_once [OF assms] by simp

text \<open>
  The file store, which xmppd uses by default.  An account has a file unless its name holds a NUL byte or is too
  long; \<open>file_passwords\<close> are the passwords by the name of the file, which several names of accounts may share.
\<close>

definition file_UserStore :: "FileStore UserStore" where
  "file_UserStore =
     \<lparr>us_CreateUser = file_CreateUser, us_UserExists = file_UserExists, us_DeleteUser = file_DeleteUser,
      us_Authenticate = file_Authenticate\<rparr>"

definition storable :: "string \<Rightarrow> bool" where
  "storable n \<longleftrightarrow> CHR 0x00 \<notin> set n \<and> length n \<le> 250"

definition file_passwords :: "FileStore \<Rightarrow> string \<rightharpoonup> string" where
  "file_passwords f k = (case d_users f of None \<Rightarrow> None | Some m \<Rightarrow> map_option u_Password (m k))"

definition file_account_map :: "Account list \<Rightarrow> string \<rightharpoonup> string" where
  "file_account_map as = map_of (map (\<lambda>a. (json_name (ac_Username a), ac_Password a)) as)"

lemma file_UserExists_passwords:
  "d_users f = Some m \<Longrightarrow> file_UserExists f n = Inr (storable n \<and> file_passwords f (json_name n) \<noteq> None)"
  by (auto simp: file_UserExists_def file_exists_def os_entry_def storable_def file_passwords_def json_name_def
      length_safeFileName)

lemma file_CreateUser_refused:
  "d_users f = Some m \<Longrightarrow> \<not> storable (u_Username x) \<Longrightarrow> \<exists>e. file_CreateUser now x f = (f, Some e)"
  by (auto simp: file_CreateUser_def Let_def file_exists_def writeJSON_def os_WriteFile_def os_entry_def os_failure_def
      json_name_def length_safeFileName storable_def)

lemma file_Authenticate_passwords:
  "d_users f = Some m \<Longrightarrow> fst (file_Authenticate f n p) \<longleftrightarrow> storable n \<and> file_passwords f (json_name n) = Some p"
  by (auto simp: file_Authenticate_GetUser file_GetUser_eq storable_def file_passwords_def lookup_result_def
      split: option.splits)

lemma file_seed_loop:
  assumes "d_users f = Some m"
  shows "(snd (seed_loop now file_UserStore accs f) = None \<longleftrightarrow> (\<forall>a \<in> set accs. storable (ac_Username a))) \<and>
    d_users (fst (seed_loop now file_UserStore accs f)) \<noteq> None \<and>
    file_passwords (fst (seed_loop now file_UserStore accs f)) =
      file_account_map (takeWhile (\<lambda>a. storable (ac_Username a)) accs) ++ file_passwords f"
  using assms
proof (induction accs arbitrary: f m)
  case Nil
  then show ?case by (simp add: file_account_map_def)
next
  case (Cons acc accs)
  let ?n = "ac_Username acc" and ?U = "seed_user acc"
  have n: "u_Username ?U = ?n" "u_Password ?U = ac_Password acc" by (simp_all add: seed_user_def)
  note ex = file_UserExists_passwords [OF Cons.prems, of ?n]
  consider (bad) "\<not> storable ?n" | (old) "storable ?n" "file_passwords f (json_name ?n) \<noteq> None"
    | (new) "storable ?n" "file_passwords f (json_name ?n) = None" by blast
  then show ?case
  proof cases
    case bad
    then obtain e where "file_CreateUser now ?U f = (f, Some e)"
      using file_CreateUser_refused [OF Cons.prems, of ?U now] n by auto
    with bad ex Cons.prems show ?thesis by (simp add: file_UserStore_def file_account_map_def)
  next
    case old
    then have "file_account_map (acc # as) ++ file_passwords f = file_account_map as ++ file_passwords f" for as
      by (auto simp: file_account_map_def map_add_def fun_eq_iff split: option.splits)
    with old ex Cons.IH [OF Cons.prems] show ?thesis by (simp add: file_UserStore_def)
  next
    case new
    have m: "m (json_name ?n) = None" using new(2) Cons.prems by (simp add: file_passwords_def)
    define m1 where "m1 = m(json_name ?n \<mapsto> ?U\<lparr>u_CreatedAt := now, u_UpdatedAt := now\<rparr>)"
    define f1 where "f1 = f\<lparr>d_users := Some m1\<rparr>"
    have c: "file_CreateUser now ?U f = (f1, None)" "d_users f1 = Some m1"
      using file_CreateUser_eq [OF Cons.prems, of ?U now] new(1) n m by (simp_all add: storable_def f1_def m1_def)
    have p: "file_passwords f1 = (file_passwords f)(json_name ?n \<mapsto> ac_Password acc)"
      using n Cons.prems by (simp add: file_passwords_def fun_eq_iff f1_def m1_def)
    have "file_account_map (acc # as) ++ file_passwords f = file_account_map as ++ file_passwords f1" for as
      using new(2) unfolding p by (auto simp: file_account_map_def map_add_def fun_eq_iff split: option.splits)
    with new ex c(1) Cons.IH [OF c(2)] show ?thesis by (simp add: file_UserStore_def)
  qed
qed

text \<open>
  C8: the accounts of \<open>XMPP_DEFAULT_ACCOUNTS\<close>.  When the variable lists accounts in the form name:password,
  separated by commas, and at least one session has been accepted, then with the in-memory store all of them
  exist, each with the password of its first entry, accounts that were there before are as they were, every
  session is served, and \<open>Authenticate\<close> accepts exactly these passwords.  With the file store, the default, names
  stand for their files: the accounts up to the first name that no file can have (a NUL byte, more than 250
  bytes) are created, each with the password of the first entry for its file, files that were there before keep
  theirs, and \<open>Authenticate\<close> accepts exactly these; the sessions are served if every name can have a file, and
  otherwise every one of them is refused.  Whether a name can then log in also depends on \<open>jid.New\<close> (C35).
\<close>

theorem xmppd_default_accounts:
  assumes "\<forall>a \<in> set as. plain_account a" and "ce_Getenv E ''XMPP_DEFAULT_ACCOUNTS'' = accounts_text as" and "ts \<noteq> []"
    and "handle_sessions ts (Some (Some mem_UserStore)) (cf_DefaultAccounts (loadConfig E)) (not_seeded, u) = (oks, sd, u')"
    and "d_users f = Some m"
    and "handle_sessions ts (Some (Some file_UserStore)) (cf_DefaultAccounts (loadConfig E)) (not_seeded, f) = (served, sd', f')"
  shows "mem_accounts u' = account_map as ++ mem_accounts u \<and> oks = replicate (length ts) True \<and>
    (\<forall>n p. fst (Authenticate u' n p) \<longleftrightarrow> mem_accounts u' n = Some p) \<and>
    file_passwords f' = file_account_map (takeWhile (\<lambda>a. storable (ac_Username a)) as) ++ file_passwords f \<and>
    served = replicate (length ts) (\<forall>a \<in> set as. storable (ac_Username a)) \<and>
    (\<forall>n p. fst (file_Authenticate f' n p) \<longleftrightarrow> storable n \<and> file_passwords f' (json_name n) = Some p)"
proof -
  obtain t ts' where ts: "ts = t # ts'" using assms(3) by (cases ts) auto
  have as: "cf_DefaultAccounts (loadConfig E) = as"
    using assms(1,2) by (simp add: loadConfig_def parseAccounts_text)
  with assms(4) have "mem_accounts u' = account_map as ++ mem_accounts u \<and> oks = replicate (length ts) True"
    using mem_users.seedDefaultAccounts_accounts [of t as u]
      handle_sessions_once [of t "Some mem_UserStore" as u, OF surjective_pairing] by (auto simp: ts)
  moreover have "fst (Authenticate u' n p) \<longleftrightarrow> mem_accounts u' n = Some p" for n p
    using mem_users.auth [of u' n p] by (simp add: mem_UserStore_def)
  moreover have seed: "seedDefaultAccounts t (Some file_UserStore) as f = seed_loop t file_UserStore as f"
    by (simp add: seedDefaultAccounts_def)
  have f': "f' = fst (seed_loop t file_UserStore as f)"
    "served = replicate (length ts) (snd (seed_loop t file_UserStore as f) = None)"
    using assms(6) handle_sessions_once [of t "Some file_UserStore" as f, OF surjective_pairing] by (auto simp: ts as seed)
  note files = file_seed_loop [OF assms(5), of t as, folded f'(1)]
  moreover from files obtain m' where "d_users f' = Some m'" by blast
  note file_Authenticate_passwords [OF this]
  ultimately show ?thesis using f'(2) by simp
qed

definition demo_confenv :: confenv where
  "demo_confenv =
     \<lparr>ce_Getenv = (\<lambda>k. if k = ''XMPP_DEFAULT_ACCOUNTS'' then ''ann:pw,bob:a:b'' else []), ce_ToLower = (\<lambda>s. s),
      ce_ParseDuration = (\<lambda>_. None)\<rparr>"

theorem xmppd_default_accounts_witness:
  "(\<exists>oks sd u'. handle_sessions [1, 2] (Some (Some mem_UserStore)) (cf_DefaultAccounts (loadConfig demo_confenv)) (not_seeded, NewStore) =
      (oks, sd, u') \<and> oks = [True, True] \<and> mem_accounts u' = [''bob'' \<mapsto> ''a:b'', ''ann'' \<mapsto> ''pw'']) \<and>
   (\<exists>served sd f'. handle_sessions [1, 2] (Some (Some file_UserStore)) (cf_DefaultAccounts (loadConfig demo_confenv))
        (not_seeded, fst (file_Init empty_disk)) = (served, sd, f') \<and>
      served = [True, True] \<and> fst (file_Authenticate f' ''bob'' ''a:b''))"
proof -
  let ?as = "[\<lparr>ac_Username = ''ann'', ac_Password = ''pw''\<rparr>, \<lparr>ac_Username = ''bob'', ac_Password = ''a:b''\<rparr>]"
  let ?f = "fst (file_Init empty_disk)"
  obtain oks sd u' where h: "handle_sessions [1, 2] (Some (Some mem_UserStore)) (cf_DefaultAccounts (loadConfig demo_confenv))
      (not_seeded, NewStore) = (oks, sd, u')" by (metis prod_cases3)
  obtain served sd' f' where g: "handle_sessions [1, 2] (Some (Some file_UserStore))
      (cf_DefaultAccounts (loadConfig demo_confenv)) (not_seeded, ?f) = (served, sd', f')" by (metis prod_cases3)
  have d: "d_users ?f = Some Map.empty" by (simp add: file_Init_def empty_disk_def os_MkdirAll_def)
  have "\<forall>a \<in> set ?as. plain_account a"
    by (auto simp: plain_account_def account_text_def intro!: TrimSpace_ascii simp: is_space_def)
  moreover have "ce_Getenv demo_confenv ''XMPP_DEFAULT_ACCOUNTS'' = accounts_text ?as"
    by (simp add: demo_confenv_def accounts_text_def account_text_def)
  ultimately have r: "mem_accounts u' = account_map ?as ++ mem_accounts NewStore" "oks = [True, True]"
    "file_passwords f' = file_account_map (takeWhile (\<lambda>a. storable (ac_Username a)) ?as) ++ file_passwords ?f"
    "served = replicate 2 (\<forall>a \<in> set ?as. storable (ac_Username a))"
    "\<And>n p. fst (file_Authenticate f' n p) \<longleftrightarrow> storable n \<and> file_passwords f' (json_name n) = Some p"
    using xmppd_default_accounts [OF _ _ _ h d g, of ?as] by (simp_all add: numeral_2_eq_2)
  have "account_map ?as ++ mem_accounts NewStore = [''bob'' \<mapsto> ''a:b'', ''ann'' \<mapsto> ''pw'']"
    by (auto simp: account_map_def mem_accounts_def NewStore_def fun_eq_iff map_add_def split: option.splits)
  moreover have st: "storable ''ann''" "storable ''bob''" by (simp_all add: storable_def)
  moreover have "file_passwords f' (json_name ''bob'') = Some ''a:b''"
    using st by (simp add: r(3) file_account_map_def file_passwords_def d map_add_def json_name_def safeFileName_def unsafe_char_def)
  ultimately show ?thesis using h g r(1,2,4,5) by (auto simp: numeral_2_eq_2)
qed

section \<open>The plugins start\<close>

lemma registry_dom: "dom pluginRegistry = set registry_keys"
  by (simp add: pluginRegistry_def dom_map_of_conv_image_fst image_image)

lemma registry_plugin: "pluginRegistry n = Some p \<Longrightarrow> p = new_plugin n (plugin_Dependencies n)"
  by (auto simp: pluginRegistry_def dest: map_of_SomeD)

lemma plugins_named_cases:
  "case plugins_named ns of
     Inl n \<Rightarrow> n \<in> set ns \<and> n \<notin> set registry_keys
   | Inr ps \<Rightarrow> set ns \<subseteq> set registry_keys \<and> ps = map (\<lambda>n. new_plugin n (plugin_Dependencies n)) ns"
proof (induction ns)
  case (Cons n ns)
  show ?case
  proof (cases "pluginRegistry n")
    case None
    then show ?thesis using registry_dom by (auto simp: domIff)
  next
    case (Some p)
    then have "n \<in> set registry_keys" using registry_dom by blast
    with Some Cons registry_plugin [OF Some] show ?thesis by (cases "plugins_named ns") auto
  qed
qed simp

lemma registered_plugins:
  assumes "distinct (map Name ps)" "\<forall>p \<in> set ps. plugins m (Name p) = None"
  shows "\<exists>m'. register_all ps m = (m', None) \<and> order m' = order m \<and>
    (\<forall>n. plugins m' n = (case map_of (map (\<lambda>p. (Name p, p)) ps) n of None \<Rightarrow> plugins m n | Some p \<Rightarrow> Some p))"
  using assms
proof (induction ps arbitrary: m)
  case (Cons p ps)
  let ?m = "m\<lparr>plugins := (plugins m)(Name p \<mapsto> p)\<rparr>" and ?M = "map_of (map (\<lambda>p. (Name p, p)) ps)"
  have free: "\<forall>q \<in> set ps. plugins ?m (Name q) = None"
    using Cons.prems by (auto simp: image_iff)
  have "Name p \<notin> dom ?M"
    using Cons.prems(1) by (auto simp: dom_map_of_conv_image_fst)
  then have M: "?M (Name p) = None" by (simp add: domIff)
  obtain m' where m': "register_all ps ?m = (m', None)" "order m' = order m"
    "\<And>n. plugins m' n = (case ?M n of None \<Rightarrow> plugins ?m n | Some p \<Rightarrow> Some p)"
    using Cons.IH [OF _ free] Cons.prems(1) by auto
  have "plugins m' n = (case map_of (map (\<lambda>p. (Name p, p)) (p # ps)) n of None \<Rightarrow> plugins m n | Some p \<Rightarrow> Some p)" for n
    using m'(3) [of n] M by (cases "n = Name p") (auto split: option.splits)
  with m'(1,2) Cons.prems show ?case by (simp add: Register_def)
qed simp

text \<open>The manager of plugins of the registry; only \<open>caps\<close> depends on another plugin.\<close>

definition manager_of :: "string list \<Rightarrow> Manager" where
  "manager_of ns = \<lparr>plugins = map_of (map (\<lambda>n. (n, new_plugin n (plugin_Dependencies n))) ns), order = []\<rparr>"

lemma manager_of_plugins:
  "plugins (manager_of ns) = (\<lambda>n. if n \<in> set ns then Some (new_plugin n (plugin_Dependencies n)) else None)"
  by (auto simp: manager_of_def map_of_map_restrict restrict_map_def fun_eq_iff)

lemma manager_of_dom: "dom (plugins (manager_of ns)) = set ns"
  by (auto simp: manager_of_plugins domIff split: if_splits)

lemma manager_of_deps: "deps_of (manager_of ns) n = (if n \<in> set ns \<and> n = ''caps'' then [''disco''] else [])"
  by (auto simp: deps_of_def manager_of_plugins new_plugin_def plugin_Dependencies_def)

lemma manager_of_closed: "deps_closed (manager_of ns) \<longleftrightarrow> (''caps'' \<in> set ns \<longrightarrow> ''disco'' \<in> set ns)"
  by (auto simp: deps_closed_def manager_of_deps manager_of_dom)

lemma manager_of_acyclic: "acyclic (depends (manager_of ns))"
proof -
  have "depends (manager_of ns) \<subseteq> {(''disco'', ''caps'')}"
    by (auto simp: depends_def manager_of_deps split: if_splits)
  moreover have "acyclic {(''disco'', ''caps'')}" by (simp add: acyclic_insert wf_acyclic)
  ultimately show ?thesis using acyclic_subset by blast
qed

lemma init_calls_all:
  "set ord \<subseteq> set ns \<Longrightarrow> init_calls (manager_of ns) ord = (ord, None)"
  by (induction ord) (auto simp: manager_of_plugins new_plugin_def)

lemma manager_of_Initialize:
  assumes "enumerates k1 (plugins (manager_of ns))" "enumerates k2 (plugins (manager_of ns))"
    "enumerates k3 (plugins (manager_of ns))" "enumerates k4 (plugins (manager_of ns))"
  shows "\<exists>m' calls err. Initialize k1 k2 k3 k4 (manager_of ns) = Some (m', calls, err) \<and>
    (err = None \<longleftrightarrow> (''caps'' \<in> set ns \<longrightarrow> ''disco'' \<in> set ns)) \<and>
    (err = None \<longrightarrow> distinct calls \<and> set calls = set ns \<and> topo_ordered (\<lambda>n. if n = ''caps'' then [''disco''] else []) calls)"
  using assms
proof (cases rule: topologicalSort_cases)
  case (sorted ord)
  note d = manager_of_dom [of ns]
  have "init_calls ((manager_of ns)\<lparr>order := ord\<rparr>) ord = (ord, None)"
    using init_calls_all [of ord ns] sorted(5) d by simp
  moreover have "topo_ordered (\<lambda>n. if n = ''caps'' then [''disco''] else []) ord"
    using sorted(5,6) d nth_mem [of _ ord] unfolding topo_ordered_def by (auto simp: manager_of_deps)
  ultimately show ?thesis
    using sorted d manager_of_closed [of ns] by (auto simp: Initialize_def)
qed (use manager_of_closed [of ns] manager_of_acyclic [of ns] in \<open>auto simp: Initialize_def\<close>)

text \<open>
  The outcome of starting the plugins \<open>ns\<close>: an error or not, and when not, the calls of \<open>Initialize\<close> of all
  of them in the order of their dependencies.
\<close>

definition start_outcome :: "string list \<Rightarrow> server_error option \<Rightarrow> ('c, 'w, 'u) Server \<Rightarrow> bool" where
  "start_outcome ns e s \<longleftrightarrow>
     (e = None \<longleftrightarrow> distinct ns \<and> (''caps'' \<in> set ns \<longrightarrow> ''disco'' \<in> set ns)) \<and>
     (e = None \<longrightarrow> (\<exists>calls. sv_events s = map (\<lambda>n. PluginCall (CallInit n)) calls \<and> distinct calls \<and>
        set calls = set ns \<and> topo_ordered (\<lambda>n. if n = ''caps'' then [''disco''] else []) calls))"

lemma init_plugins_registry:
  assumes "so_plugins (sv_opts s) = map (\<lambda>n. new_plugin n (plugin_Dependencies n)) ns" "sv_events s = []"
    and k: "\<forall>k \<in> {k1, k2, k3, k4}. distinct k \<and> set k = set ns"
  shows "\<exists>e s'. init_plugins k1 k2 k3 k4 s = Some (e, s') \<and> start_outcome ns e s'"
proof (cases "distinct ns")
  case True
  let ?ps = "map (\<lambda>n. new_plugin n (plugin_Dependencies n)) ns"
  have n: "map Name ?ps = ns" by (simp add: new_plugin_def comp_def)
  have map: "map_of (map (\<lambda>p. (Name p, p)) ?ps) = plugins (manager_of ns)"
    by (simp add: manager_of_def new_plugin_def comp_def)
  obtain m where m: "register_all ?ps NewManager = (m, None)" "order m = order NewManager"
    "\<And>n. plugins m n = (case plugins (manager_of ns) n of None \<Rightarrow> plugins NewManager n | Some p \<Rightarrow> Some p)"
    using registered_plugins [of ?ps NewManager] True n unfolding map by (auto simp: NewManager_def)
  have "plugins m n = plugins (manager_of ns) n" for n
    using m(3) [of n] by (cases "plugins (manager_of ns) n") (simp_all add: NewManager_def)
  then have "plugins m = plugins (manager_of ns)" by (rule ext)
  with m(2) have mgr: "m = manager_of ns" by (simp add: manager_of_def NewManager_def)
  have "enumerates k (plugins (manager_of ns))" if "k \<in> {k1, k2, k3, k4}" for k
    using k that by (auto simp: enumerates_def manager_of_dom)
  with manager_of_Initialize [of k1 ns k2 k3 k4] obtain m' calls err where
    "Initialize k1 k2 k3 k4 (manager_of ns) = Some (m', calls, err)"
    "err = None \<longleftrightarrow> (''caps'' \<in> set ns \<longrightarrow> ''disco'' \<in> set ns)"
    "err = None \<longrightarrow> distinct calls \<and> set calls = set ns \<and> topo_ordered (\<lambda>n. if n = ''caps'' then [''disco''] else []) calls"
    by auto
  with assms(1,2) m(1) mgr True show ?thesis
    by (auto simp: init_plugins_def start_outcome_def log_event_def Let_def split: option.splits)
next
  case False
  let ?ps = "map (\<lambda>n. new_plugin n (plugin_Dependencies n)) ns"
  have "map Name ?ps = ns" by (simp add: new_plugin_def comp_def)
  with False register_all_plugins [of ?ps NewManager] obtain m e where "register_all ?ps NewManager = (m, Some e)"
    by (cases "register_all ?ps NewManager") fastforce
  with assms(1) False show ?thesis
    by (auto simp: init_plugins_def start_outcome_def)
qed

text \<open>
  C14: the configured plugins.  Loading them fails exactly on a name that is not in the registry.  Otherwise the
  server starts, whatever order Go gives its loops, exactly when no name is given twice and \<open>caps\<close> only together
  with \<open>disco\<close>; all plugins are then initialised, \<open>disco\<close> before \<open>caps\<close>.  The word \<open>all\<close> loads the whole
  registry, which does start.
\<close>

theorem xmppd_plugins_start:
  assumes "enumerates keys pluginRegistry"
  shows "case buildPlugins keys cfg of
      Inl n \<Rightarrow> n \<in> set (cf_Plugins cfg) \<and> pluginRegistry n = None
    | Inr ps \<Rightarrow>
        (let ns = map Name ps
         in set ns \<subseteq> dom pluginRegistry \<and>
            (if cf_Plugins cfg = [''all''] then set ns = dom pluginRegistry \<and> distinct ns \<and> ''disco'' \<in> set ns
             else ns = cf_Plugins cfg) \<and>
            (\<forall>k1 k2 k3 k4 (s :: ('c, 'w, 'u) Server).
               so_plugins (sv_opts s) = ps \<and> sv_events s = [] \<and> (\<forall>k \<in> {k1, k2, k3, k4}. distinct k \<and> set k = set ns) \<longrightarrow>
               (\<exists>e s'. init_plugins k1 k2 k3 k4 s = Some (e, s') \<and> start_outcome ns e s')))"
proof -
  let ?pl = "\<lambda>n. new_plugin n (plugin_Dependencies n)"
  have name: "map Name (map ?pl ns) = ns" for ns by (simp add: new_plugin_def comp_def)
  have keys: "set keys = set registry_keys" "distinct keys"
    using assms registry_dom by (simp_all add: enumerates_def)
  have "the (pluginRegistry k) = ?pl k" if "k \<in> set registry_keys" for k
    using registry_dom that registry_plugin [of k] by (metis domD option.sel)
  then have all: "map (\<lambda>k. the (pluginRegistry k)) (sort keys) = map ?pl (sort keys)"
    using keys by simp
  have built: "\<exists>ns. ps = map ?pl ns \<and> set ns \<subseteq> dom pluginRegistry \<and>
      (if cf_Plugins cfg = [''all''] then set ns = dom pluginRegistry \<and> distinct ns \<and> ''disco'' \<in> set ns else ns = cf_Plugins cfg)"
    if b: "buildPlugins keys cfg = Inr ps" for ps
  proof (cases "cf_Plugins cfg = [''all'']")
    case True
    then have "ps = map ?pl (sort keys)" using b all by (simp add: buildPlugins_def)
    with True keys registry_dom show ?thesis
      by (intro exI [of _ "sort keys"]) (auto simp: registry_keys_def)
  next
    case False
    then have "plugins_named (cf_Plugins cfg) = Inr ps"
      using b by (auto simp: buildPlugins_def length_Suc_conv split: if_splits)
    with False plugins_named_cases [of "cf_Plugins cfg"] registry_dom show ?thesis by auto
  qed
  show ?thesis
  proof (cases "buildPlugins keys cfg")
    case (Inl n)
    then have "plugins_named (cf_Plugins cfg) = Inl n"
      by (auto simp: buildPlugins_def split: if_splits)
    with Inl plugins_named_cases [of "cf_Plugins cfg"] registry_dom show ?thesis by (auto simp: domIff)
  next
    case (Inr ps)
    from built [OF Inr] obtain ns where ps: "ps = map ?pl ns" and ns': "set ns \<subseteq> dom pluginRegistry"
      "if cf_Plugins cfg = [''all''] then set ns = dom pluginRegistry \<and> distinct ns \<and> ''disco'' \<in> set ns else ns = cf_Plugins cfg"
      by blast
    note ns = ps name [of ns, folded ps] ns'
    have "\<exists>e s'. init_plugins k1 k2 k3 k4 s = Some (e, s') \<and> start_outcome ns e s'"
      if "so_plugins (sv_opts s) = ps" "sv_events s = []" "\<forall>k \<in> {k1, k2, k3, k4}. distinct k \<and> set k = set ns"
      for k1 k2 k3 k4 and s :: "('c, 'w, 'u) Server"
      using init_plugins_registry [OF that(1) [unfolded ns(1)] that(2,3)] .
    with ns(3,4) show ?thesis
      unfolding Inr sum.case Let_def ns(2) by simp
  qed
qed

definition demo_xmppd :: "(unit, unit, unit) Server" where
  "demo_xmppd = NewServer ''example.com'' () [WithServerPlugins (map (\<lambda>n. new_plugin n (plugin_Dependencies n)) [''caps'', ''disco''])]"

theorem xmppd_plugins_start_witness:
  "\<exists>s'. init_plugins [''caps'', ''disco''] [''disco'', ''caps''] [''caps'', ''disco''] [''caps'', ''disco''] demo_xmppd = Some (None, s') \<and>
     start_outcome [''caps'', ''disco''] None s'"
proof -
  let ?cfg = "(loadConfig demo_confenv)\<lparr>cf_Plugins := [''caps'', ''disco'']\<rparr>"
  let ?ps = "map (\<lambda>n. new_plugin n (plugin_Dependencies n)) [''caps'', ''disco'']"
  have "enumerates registry_keys pluginRegistry"
    by (simp add: enumerates_def registry_dom) (simp add: registry_keys_def)
  moreover have "buildPlugins registry_keys ?cfg = Inr ?ps"
    by (simp add: buildPlugins_def pluginRegistry_def registry_keys_def)
  ultimately have start: "\<forall>k1 k2 k3 k4 (s :: (unit, unit, unit) Server).
      so_plugins (sv_opts s) = ?ps \<and> sv_events s = [] \<and> (\<forall>k \<in> {k1, k2, k3, k4}. distinct k \<and> set k = set (map Name ?ps)) \<longrightarrow>
      (\<exists>e s'. init_plugins k1 k2 k3 k4 s = Some (e, s') \<and> start_outcome (map Name ?ps) e s')"
    using xmppd_plugins_start [of registry_keys ?cfg] by (simp only: sum.case Let_def) blast
  have n: "map Name ?ps = [''caps'', ''disco'']" by (simp add: new_plugin_def)
  have "so_plugins (sv_opts demo_xmppd) = ?ps \<and> sv_events demo_xmppd = [] \<and>
      (\<forall>k \<in> {[''caps'', ''disco''], [''disco'', ''caps''], [''caps'', ''disco''], [''caps'', ''disco'']}.
         distinct k \<and> set k = set (map Name ?ps))"
    unfolding n by (auto simp: demo_xmppd_def NewServer_def WithServerPlugins_def)
  from start [THEN spec, THEN spec, THEN spec, THEN spec, THEN spec, THEN mp, OF this, unfolded n]
  obtain e s' where
    "init_plugins [''caps'', ''disco''] [''disco'', ''caps''] [''caps'', ''disco''] [''caps'', ''disco''] demo_xmppd = Some (e, s')"
    "start_outcome [''caps'', ''disco''] e s'" by blast
  moreover from this(2) have "e = None" by (simp add: start_outcome_def)
  ultimately show ?thesis by auto
qed

end
