(* ===== verification/Discovery.thy ===== *)
theory Discovery
  imports Connections Stanza "HOL-Library.Char_ord" "HOL-Library.List_Lexorder"
begin

text \<open>
  The plugins with behaviour of their own and no store: plugins/disco, caps, hash, presence, rsm, version,
  styling and omemo.  SHA-1, SHA-256 and SHA-512 are parameters, and so is the reflective encoder where an
  element is turned to text; \<open>sort.Slice\<close> is any function that satisfies \<open>sort_Slice\<close>, while \<open>sort.Strings\<close>
  has one result only.  The lemmas: the capability string depends on nothing but the identities and features
  that were added (and not on the order or on the sorting function), it determines them, and it is the string
  of XEP-0115 when no part of an identity holds a byte up to the slash; a hash that was computed verifies,
  and no other does; the last update of a contact's presence wins.
\<close>

section \<open>Service discovery\<close>

record Identity =
  ident_Category :: string
  ident_Type :: string
  ident_Name :: string
  ident_Lang :: string

record Feature =
  feat_Var :: string

record InfoQuery =
  info_Node :: string
  info_Identities :: "Identity list"
  info_Features :: "Feature list"

record disco_Item =
  ditem_JID :: string
  ditem_Node :: string
  ditem_Name :: string

record ItemsQuery =
  items_Node :: string
  items_Items :: "disco_Item list"

record disco_Plugin =
  dp_identities :: "Identity list"
  dp_features :: "Feature list"
  dp_items :: "disco_Item list"

definition ns_DiscoInfo :: string where
  "ns_DiscoInfo = ''http://jabber.org/protocol/disco#info''"

definition ns_DiscoItems :: string where
  "ns_DiscoItems = ''http://jabber.org/protocol/disco#items''"

definition disco_New :: disco_Plugin where
  "disco_New = \<lparr>dp_identities = [], dp_features = [\<lparr>feat_Var = ns_DiscoInfo\<rparr>, \<lparr>feat_Var = ns_DiscoItems\<rparr>], dp_items = []\<rparr>"

definition AddIdentity :: "Identity \<Rightarrow> disco_Plugin \<Rightarrow> disco_Plugin" where
  "AddIdentity identity p = p\<lparr>dp_identities := dp_identities p @ [identity]\<rparr>"

definition disco_AddFeature :: "string \<Rightarrow> disco_Plugin \<Rightarrow> disco_Plugin" where
  "disco_AddFeature feature p = p\<lparr>dp_features := dp_features p @ [\<lparr>feat_Var = feature\<rparr>]\<rparr>"

definition AddItem :: "disco_Item \<Rightarrow> disco_Plugin \<Rightarrow> disco_Plugin" where
  "AddItem item p = p\<lparr>dp_items := dp_items p @ [item]\<rparr>"

definition disco_Info :: "disco_Plugin \<Rightarrow> InfoQuery" where
  "disco_Info p = \<lparr>info_Node = '''', info_Identities = dp_identities p, info_Features = dp_features p\<rparr>"

definition disco_Items :: "disco_Plugin \<Rightarrow> ItemsQuery" where
  "disco_Items p = \<lparr>items_Node = '''', items_Items = dp_items p\<rparr>"

section \<open>Entity capabilities\<close>

record Caps =
  caps_Hash :: string
  caps_Node :: string
  caps_Ver :: string

definition identity_key :: "Identity \<Rightarrow> string" where
  "identity_key i = ident_Category i @ ''/'' @ ident_Type i @ ''/'' @ ident_Lang i @ ''/'' @ ident_Name i"

definition identity_less :: "Identity \<Rightarrow> Identity \<Rightarrow> bool" where
  "identity_less a b \<longleftrightarrow> identity_key a < identity_key b"

text \<open>The text that is hashed; \<open>srt\<close> is \<open>sort.Slice\<close> with \<open>identity_less\<close>.\<close>

definition ver_string :: "(Identity list \<Rightarrow> Identity list) \<Rightarrow> InfoQuery \<Rightarrow> string" where
  "ver_string srt info =
     concat (map (\<lambda>i. identity_key i @ ''<'') (srt (info_Identities info))) @
     concat (map (\<lambda>f. f @ ''<'') (sort (map feat_Var (info_Features info))))"

definition Ver :: "(string \<Rightarrow> string) \<Rightarrow> (Identity list \<Rightarrow> Identity list) \<Rightarrow> InfoQuery \<Rightarrow> string" where
  "Ver sha1 srt info = b64_encode (sha1 (ver_string srt info))"

definition caps_Generate :: "(string \<Rightarrow> string) \<Rightarrow> (Identity list \<Rightarrow> Identity list) \<Rightarrow> string \<Rightarrow> InfoQuery \<Rightarrow> Caps" where
  "caps_Generate sha1 srt node info = \<lparr>caps_Hash = ''sha-1'', caps_Node = node, caps_Ver = Ver sha1 srt info\<rparr>"

section \<open>Hashes\<close>

datatype hash_error = ErrUnsupportedAlgo

record Hash =
  hash_Algo :: string
  hash_Value :: string

definition Compute :: "(string \<Rightarrow> string) \<Rightarrow> (string \<Rightarrow> string) \<Rightarrow> string \<Rightarrow> string \<Rightarrow> (hash_error, Hash) result" where
  "Compute sha256 sha512 algo data =
     (if algo = ''sha-256'' then Inr \<lparr>hash_Algo = algo, hash_Value = b64_encode (sha256 data)\<rparr>
      else if algo = ''sha-512'' then Inr \<lparr>hash_Algo = algo, hash_Value = b64_encode (sha512 data)\<rparr>
      else Inl ErrUnsupportedAlgo)"

definition hash_Verify :: "(string \<Rightarrow> string) \<Rightarrow> (string \<Rightarrow> string) \<Rightarrow> Hash \<Rightarrow> string \<Rightarrow> (hash_error, bool) result" where
  "hash_Verify sha256 sha512 hv data =
     (case Compute sha256 sha512 (hash_Algo hv) data of
        Inl err \<Rightarrow> Inl err
      | Inr computed \<Rightarrow> Inr (hash_Value computed = hash_Value hv))"

section \<open>Presence\<close>

record Status =
  st_Show :: string
  st_Status :: string
  st_Priority :: "8 word"

record presence_Plugin =
  pp_roster :: "string \<rightharpoonup> Status"
  pp_own :: Status

definition presence_New :: presence_Plugin where
  "presence_New = \<lparr>pp_roster = Map.empty, pp_own = \<lparr>st_Show = '''', st_Status = '''', st_Priority = 0\<rparr>\<rparr>"

definition SetOwn :: "Status \<Rightarrow> presence_Plugin \<Rightarrow> presence_Plugin" where
  "SetOwn status p = p\<lparr>pp_own := status\<rparr>"

definition presence_Update :: "string \<Rightarrow> Status \<Rightarrow> presence_Plugin \<Rightarrow> presence_Plugin" where
  "presence_Update jid status p = p\<lparr>pp_roster := (pp_roster p)(jid \<mapsto> status)\<rparr>"

definition presence_Remove :: "string \<Rightarrow> presence_Plugin \<Rightarrow> presence_Plugin" where
  "presence_Remove jid p = p\<lparr>pp_roster := (pp_roster p)(jid := None)\<rparr>"

definition GetPresence :: "presence_Plugin \<Rightarrow> string \<Rightarrow> Status option" where
  "GetPresence p jid = pp_roster p jid"

text \<open>The copy that \<open>Online\<close> builds, for an order \<open>ks\<close> in which the map is ranged over.\<close>

definition Online :: "string list \<Rightarrow> presence_Plugin \<Rightarrow> (string \<rightharpoonup> Status)" where
  "Online ks p = foldl (\<lambda>result k. case pp_roster p k of Some v \<Rightarrow> result(k \<mapsto> v) | None \<Rightarrow> result) Map.empty ks"

section \<open>Result sets, software version, styling\<close>

record rsm_First =
  first_Index :: int
  first_Value :: string

record rsm_Set =
  set_After :: string
  set_Before :: string
  set_Count :: "int option"
  set_First :: "rsm_First option"
  set_Index :: "int option"
  set_Last :: string
  set_Max :: "int option"

definition NewRequest :: "int \<Rightarrow> rsm_Set" where
  "NewRequest n =
     \<lparr>set_After = '''', set_Before = '''', set_Count = None, set_First = None, set_Index = None, set_Last = '''',
      set_Max = Some n\<rparr>"

definition NewRequestAfter :: "int \<Rightarrow> string \<Rightarrow> rsm_Set" where
  "NewRequestAfter n after = (NewRequest n)\<lparr>set_After := after\<rparr>"

definition NewRequestBefore :: "int \<Rightarrow> string \<Rightarrow> rsm_Set" where
  "NewRequestBefore n before = (NewRequest n)\<lparr>set_Before := before\<rparr>"

record version_Query =
  vq_Name :: string
  vq_Version :: string
  vq_OS :: string

text \<open>\<open>goos\<close> is \<open>runtime.GOOS\<close>; the plugin is the query it answers with.\<close>

definition version_New :: "string \<Rightarrow> string \<Rightarrow> string \<Rightarrow> version_Query" where
  "version_New goos name version = \<lparr>vq_Name = name, vq_Version = version, vq_OS = goos\<rparr>"

definition version_Info :: "version_Query \<Rightarrow> version_Query" where
  "version_Info p = p"

definition IsPreformattedBlock :: "string \<Rightarrow> bool" where
  "IsPreformattedBlock line \<longleftrightarrow> prefix ''```'' line"

definition IsQuoteLine :: "string \<Rightarrow> bool" where
  "IsQuoteLine line \<longleftrightarrow> prefix ''> '' line"

section \<open>OMEMO nodes\<close>

record omemo_Device =
  dev_ID :: "32 word"
  dev_Label :: string

record omemo_Plugin =
  op_deviceID :: "32 word"
  op_devices :: "string \<rightharpoonup> omemo_Device list"

record PubItem =
  pub_ID :: string
  pub_Payload :: string

record Publish =
  publish_Node :: string
  publish_Items :: "PubItem list"

record pubsub_Items =
  pitems_Node :: string
  pitems_SubID :: string
  pitems_MaxItems :: "int option"
  pitems_Items :: "PubItem list"

record pubsub_Create =
  create_Node :: string

record pubsub_Configure =
  configure_Form :: string

record SubReq =
  subreq_Node :: string
  subreq_JID :: string

record Unsub =
  unsub_Node :: string
  unsub_JID :: string
  unsub_SubID :: string

record pubsub_Retract =
  retract_Node :: string
  retract_Notify :: bool
  retract_Items :: "PubItem list"

record pubsub_Subscription =
  psub_Node :: string
  psub_JID :: string
  psub_SubID :: string
  psub_State :: string

record PubSub =
  ps_Create :: "pubsub_Create option"
  ps_Configure :: "pubsub_Configure option"
  ps_Subscribe :: "SubReq option"
  ps_Unsubscribe :: "Unsub option"
  ps_Publish :: "Publish option"
  ps_Retract :: "pubsub_Retract option"
  ps_Items :: "pubsub_Items option"
  ps_Subscription :: "pubsub_Subscription option"

definition empty_pubsub :: PubSub where
  "empty_pubsub =
     \<lparr>ps_Create = None, ps_Configure = None, ps_Subscribe = None, ps_Unsubscribe = None, ps_Publish = None,
      ps_Retract = None, ps_Items = None, ps_Subscription = None\<rparr>"

definition omemo_New :: "32 word \<Rightarrow> omemo_Plugin" where
  "omemo_New deviceID = \<lparr>op_deviceID = deviceID, op_devices = Map.empty\<rparr>"

definition SetDevices :: "string \<Rightarrow> omemo_Device list \<Rightarrow> omemo_Plugin \<Rightarrow> omemo_Plugin" where
  "SetDevices jid devices p = p\<lparr>op_devices := (op_devices p)(jid \<mapsto> devices)\<rparr>"

definition GetDevices :: "omemo_Plugin \<Rightarrow> string \<Rightarrow> omemo_Device list" where
  "GetDevices p jid = (case op_devices p jid of Some devices \<Rightarrow> devices | None \<Rightarrow> [])"

definition NodeDeviceList :: string where
  "NodeDeviceList = ''urn:xmpp:omemo:2:devicelist''"

definition NodeBundles :: string where
  "NodeBundles = ''urn:xmpp:omemo:2:bundles''"

text \<open>\<open>rnd\<close> is the draw of the stanza's ID.\<close>

definition pep_iq :: "string \<Rightarrow> bytes \<Rightarrow> JID \<Rightarrow> PubSub \<Rightarrow> PubSub IQPayload" where
  "pep_iq typ rnd target payload =
     \<lparr>ip_IQ = \<lparr>iq_Header = \<lparr>hdr_XMLName = no_name, hdr_ID = GenerateID rnd, hdr_From = zeroJID, hdr_To = target,
                            hdr_Type = typ, hdr_Lang = ''''\<rparr>,
               iq_XMLName = no_name, iq_Query = '''', iq_Error = None\<rparr>,
      ip_Payload = Some payload\<rparr>"

definition publish_payload :: "string \<Rightarrow> PubItem \<Rightarrow> PubSub" where
  "publish_payload node item = empty_pubsub\<lparr>ps_Publish := Some \<lparr>publish_Node = node, publish_Items = [item]\<rparr>\<rparr>"

definition items_payload :: "string \<Rightarrow> PubSub" where
  "items_payload node =
     empty_pubsub\<lparr>ps_Items := Some \<lparr>pitems_Node = node, pitems_SubID = [], pitems_MaxItems = None, pitems_Items = []\<rparr>\<rparr>"

text \<open>\<open>marshal\<close> is \<open>xml.Marshal\<close> on a device list; its error is dropped.\<close>

definition PublishDeviceListIQ :: "(omemo_Device list \<Rightarrow> string) \<Rightarrow> bytes \<Rightarrow> 32 word list \<Rightarrow> PubSub IQPayload" where
  "PublishDeviceListIQ marshal rnd devices =
     pep_iq ''set'' rnd zeroJID
       (publish_payload NodeDeviceList
          \<lparr>pub_ID = ''current'', pub_Payload = marshal (map (\<lambda>d. \<lparr>dev_ID = d, dev_Label = ''''\<rparr>) devices)\<rparr>)"

definition PublishBundleIQ :: "bytes \<Rightarrow> 32 word \<Rightarrow> string \<Rightarrow> PubSub IQPayload" where
  "PublishBundleIQ rnd deviceID bundleXML =
     pep_iq ''set'' rnd zeroJID
       (publish_payload NodeBundles \<lparr>pub_ID = print_nat (unat deviceID), pub_Payload = bundleXML\<rparr>)"

definition FetchDeviceListIQ :: "bytes \<Rightarrow> JID \<Rightarrow> PubSub IQPayload" where
  "FetchDeviceListIQ rnd target = pep_iq ''get'' rnd target (items_payload NodeDeviceList)"

definition FetchBundlesIQ :: "bytes \<Rightarrow> JID \<Rightarrow> PubSub IQPayload" where
  "FetchBundlesIQ rnd target = pep_iq ''get'' rnd target (items_payload NodeBundles)"

section \<open>The capability string\<close>

lemma sorted_identity: "sorted_wrt (\<lambda>a b. \<not> identity_less b a) ids \<longleftrightarrow> sorted (map identity_key ids)"
  by (simp add: identity_less_def sorted_map not_less)

lemma sort_Slice_identity_key: "sort_Slice identity_less (sort_key identity_key)"
  by (simp add: sort_Slice_def sorted_identity)

lemma identity_keys_sorted:
  assumes "sort_Slice identity_less srt"
  shows "map identity_key (srt ids) = sort (map identity_key ids)"
proof (rule properties_for_sort [symmetric])
  show "mset (map identity_key (srt ids)) = mset (map identity_key ids)"
    using assms by (simp add: sort_Slice_def)
  show "sorted (map identity_key (srt ids))"
    using assms by (simp add: sort_Slice_def flip: sorted_identity)
qed

text \<open>The parts of the text, each closed by \<open><\<close>.\<close>

definition ver_parts :: "InfoQuery \<Rightarrow> string list" where
  "ver_parts info = sort (map identity_key (info_Identities info)) @ sort (map feat_Var (info_Features info))"

lemma ver_string_parts:
  assumes "sort_Slice identity_less srt"
  shows "ver_string srt info = concat (map (\<lambda>x. x @ ''<'') (ver_parts info))"
proof -
  have "map (\<lambda>i. identity_key i @ ''<'') (srt (info_Identities info)) =
      map (\<lambda>x. x @ ''<'') (map identity_key (srt (info_Identities info)))"
    by (simp add: o_def)
  then show ?thesis
    by (simp add: ver_string_def ver_parts_def identity_keys_sorted [OF assms])
qed

lemma closed_parts_unique:
  "\<lbrakk>concat (map (\<lambda>x. x @ [c]) xs) = concat (map (\<lambda>x. x @ [c]) ys); \<forall>x \<in> set xs \<union> set ys. c \<notin> set x\<rbrakk> \<Longrightarrow> xs = ys"
  for c :: char
proof (induction xs arbitrary: ys)
  case Nil
  then show ?case by (cases ys) auto
next
  case (Cons x xs)
  from Cons.prems(1) obtain y ys' where ys: "ys = y # ys'"
    by (cases ys) auto
  with Cons.prems have split: "x @ c # concat (map (\<lambda>x. x @ [c]) xs) = y @ c # concat (map (\<lambda>x. x @ [c]) ys')"
    and free: "c \<notin> set x" "c \<notin> set y"
    by auto
  from split have "index_byte (x @ c # concat (map (\<lambda>x. x @ [c]) xs)) c =
      index_byte (y @ c # concat (map (\<lambda>x. x @ [c]) ys')) c"
    by simp
  then have "length x = length y"
    using free by (simp add: index_byte_append)
  with split have "x = y" "concat (map (\<lambda>x. x @ [c]) xs) = concat (map (\<lambda>x. x @ [c]) ys')"
    by auto
  with Cons.IH [of ys'] Cons.prems(2) ys show ?case by auto
qed

definition plain_info :: "InfoQuery \<Rightarrow> bool" where
  "plain_info info \<longleftrightarrow>
     (\<forall>i \<in> set (info_Identities info). CHR ''<'' \<notin> set (identity_key i)) \<and>
     (\<forall>f \<in> set (info_Features info). CHR ''<'' \<notin> set (feat_Var f))"

lemma plain_info_parts: "plain_info info \<Longrightarrow> x \<in> set (ver_parts info) \<Longrightarrow> CHR ''<'' \<notin> set x"
  by (auto simp: plain_info_def ver_parts_def)

lemma ver_string_eq_iff:
  assumes "sort_Slice identity_less srt" "sort_Slice identity_less srt'" "plain_info a" "plain_info b"
  shows "ver_string srt a = ver_string srt' b \<longleftrightarrow> ver_parts a = ver_parts b"
  using closed_parts_unique [of "CHR ''<''" "ver_parts a" "ver_parts b"] plain_info_parts assms
  by (auto simp: ver_string_parts)

lemma sort_eq_iff_mset: "sort xs = sort ys \<longleftrightarrow> mset xs = mset ys" for xs ys :: "'a::linorder list"
  by (metis mset_sort sorted_list_of_multiset_mset)

lemma ver_parts_eq_iff:
  assumes "length (info_Identities a) = length (info_Identities b)"
  shows "ver_parts a = ver_parts b \<longleftrightarrow>
     mset (map identity_key (info_Identities a)) = mset (map identity_key (info_Identities b)) \<and>
     mset (map feat_Var (info_Features a)) = mset (map feat_Var (info_Features b))"
  using assms by (simp add: ver_parts_def sort_eq_iff_mset del: mset_map)

text \<open>Whatever \<open>sort.Slice\<close> does with identities whose keys are equal, the text is the same.\<close>

lemma Ver_cong:
  assumes "sort_Slice identity_less srt" "sort_Slice identity_less srt'"
    and "mset (info_Identities a) = mset (info_Identities b)" "mset (info_Features a) = mset (info_Features b)"
  shows "Ver sha1 srt a = Ver sha1 srt' b"
proof -
  have "ver_parts a = ver_parts b"
    unfolding ver_parts_def using assms(3,4) by (intro arg_cong2 [where f = append]) (simp_all add: sort_eq_iff_mset)
  then show ?thesis by (simp add: Ver_def ver_string_parts assms(1,2))
qed

text \<open>
  The calls that other plugins make on the discovery plugin, and the announcement after a run of them.
\<close>

datatype disco_call = CallAddIdentity Identity | CallAddFeature string | CallAddItem disco_Item

fun disco_exec :: "disco_call \<Rightarrow> disco_Plugin \<Rightarrow> disco_Plugin" where
  "disco_exec (CallAddIdentity identity) = AddIdentity identity"
| "disco_exec (CallAddFeature feature) = disco_AddFeature feature"
| "disco_exec (CallAddItem item) = AddItem item"

definition disco_run :: "disco_call list \<Rightarrow> disco_Plugin" where
  "disco_run calls = fold disco_exec calls disco_New"

definition added_identities :: "disco_call list \<Rightarrow> Identity list" where
  "added_identities calls = List.map_filter (\<lambda>c. case c of CallAddIdentity i \<Rightarrow> Some i | _ \<Rightarrow> None) calls"

definition added_features :: "disco_call list \<Rightarrow> string list" where
  "added_features calls = List.map_filter (\<lambda>c. case c of CallAddFeature f \<Rightarrow> Some f | _ \<Rightarrow> None) calls"

lemmas added_defs = added_identities_def added_features_def map_filter_simps

lemma fold_disco_exec:
  "dp_identities (fold disco_exec calls p) = dp_identities p @ added_identities calls"
  "map feat_Var (dp_features (fold disco_exec calls p)) = map feat_Var (dp_features p) @ added_features calls"
proof (induction calls arbitrary: p)
  case (Cons c calls)
  case 1
  show ?case using Cons(1) by (cases c) (simp_all add: added_defs AddIdentity_def disco_AddFeature_def AddItem_def)
next
  case (Cons c calls)
  case 2
  show ?case using Cons(2) by (cases c) (simp_all add: added_defs AddIdentity_def disco_AddFeature_def AddItem_def)
qed (simp_all add: added_defs)

lemma ver_parts_run:
  "ver_parts (disco_Info (disco_run calls)) =
     sort (map identity_key (added_identities calls)) @ sort (ns_DiscoInfo # ns_DiscoItems # added_features calls)"
  by (simp add: ver_parts_def disco_Info_def disco_run_def fold_disco_exec) (simp add: disco_New_def)

lemma caps_Generate_eq_iff:
  assumes "inj_on sha1 {ver_string srt a, ver_string srt' b}"
  shows "caps_Generate sha1 srt node a = caps_Generate sha1 srt' node b \<longleftrightarrow> ver_string srt a = ver_string srt' b"
proof -
  have "caps_Generate sha1 srt node a = caps_Generate sha1 srt' node b \<longleftrightarrow>
      sha1 (ver_string srt a) = sha1 (ver_string srt' b)"
    by (simp add: caps_Generate_def Ver_def b64_encode_inj)
  also have "\<dots> \<longleftrightarrow> ver_string srt a = ver_string srt' b"
    by (rule inj_on_eq_iff [OF assms]) simp_all
  finally show ?thesis .
qed

lemma plain_info_run:
  "plain_info (disco_Info (disco_run calls)) \<longleftrightarrow>
     (\<forall>i \<in> set (added_identities calls). CHR ''<'' \<notin> set (identity_key i)) \<and>
     (\<forall>f \<in> set (added_features calls). CHR ''<'' \<notin> set f)"
proof -
  have "plain_info info \<longleftrightarrow> (\<forall>i \<in> set (info_Identities info). CHR ''<'' \<notin> set (identity_key i)) \<and>
      (\<forall>f \<in> set (map feat_Var (info_Features info)). CHR ''<'' \<notin> set f)" for info
    by (simp add: plain_info_def)
  then show ?thesis
    by (simp only: disco_Info_def disco_run_def InfoQuery.select_convs fold_disco_exec)
       (simp add: disco_New_def ns_DiscoInfo_def ns_DiscoItems_def)
qed

text \<open>
  C28: the announced capabilities.  Take two service discovery plugins to which identities and features were
  added by any calls in any order, the same number of identities to both and no text with a \<open><\<close> in it, any
  sorting functions with the contract of \<open>sort.Slice\<close>, and a hash without a collision on the two texts.  Then the
  capabilities plugin generates the same announcement for both exactly when the same features were added to them
  and the same identities, each as often; identities are compared by their category, type, language and name
  joined with slashes, which is all the code hashes of them.
\<close>

theorem caps_announcement:
  assumes "sort_Slice identity_less srt" "sort_Slice identity_less srt'"
    and "plain_info (disco_Info (disco_run calls))" "plain_info (disco_Info (disco_run calls'))"
    and "length (added_identities calls) = length (added_identities calls')"
    and "inj_on sha1 {ver_string srt (disco_Info (disco_run calls)), ver_string srt' (disco_Info (disco_run calls'))}"
  shows "caps_Generate sha1 srt node (disco_Info (disco_run calls)) =
      caps_Generate sha1 srt' node (disco_Info (disco_run calls')) \<longleftrightarrow>
     mset (map identity_key (added_identities calls)) = mset (map identity_key (added_identities calls')) \<and>
     mset (added_features calls) = mset (added_features calls')"
proof -
  have "caps_Generate sha1 srt node (disco_Info (disco_run calls)) =
      caps_Generate sha1 srt' node (disco_Info (disco_run calls')) \<longleftrightarrow>
      ver_string srt (disco_Info (disco_run calls)) = ver_string srt' (disco_Info (disco_run calls'))"
    by (rule caps_Generate_eq_iff [OF assms(6)])
  also have "\<dots> \<longleftrightarrow> ver_parts (disco_Info (disco_run calls)) = ver_parts (disco_Info (disco_run calls'))"
    by (rule ver_string_eq_iff [OF assms(1-4)])
  also have "\<dots> \<longleftrightarrow> sort (map identity_key (added_identities calls)) = sort (map identity_key (added_identities calls')) \<and>
      sort (ns_DiscoInfo # ns_DiscoItems # added_features calls) = sort (ns_DiscoInfo # ns_DiscoItems # added_features calls')"
    using assms(5) by (simp add: ver_parts_run del: sort_key_simps)
  finally show ?thesis
    by (simp only: sort_eq_iff_mset mset.simps add_mset_add_mset_same_iff)
qed

definition client_in :: "string \<Rightarrow> Identity" where
  "client_in lang = \<lparr>ident_Category = ''client'', ident_Type = ''pc'', ident_Name = ''X'', ident_Lang = lang\<rparr>"

definition demo_calls :: "disco_call list" where
  "demo_calls = [CallAddFeature ''b'', CallAddIdentity (client_in ''en''), CallAddFeature ''a'']"

theorem caps_announcement_witness:
  "caps_Generate (\<lambda>s. s) (sort_key identity_key) ''n'' (disco_Info (disco_run demo_calls)) =
     caps_Generate (\<lambda>s. s) (sort_key identity_key) ''n'' (disco_Info (disco_run (rev demo_calls))) \<and>
   caps_Generate (\<lambda>s. s) (sort_key identity_key) ''n'' (disco_Info (disco_run demo_calls)) \<noteq>
     caps_Generate (\<lambda>s. s) (sort_key identity_key) ''n'' (disco_Info (disco_run (CallAddFeature ''b'' # demo_calls)))"
proof -
  have plain: "plain_info (disco_Info (disco_run demo_calls))" "plain_info (disco_Info (disco_run (rev demo_calls)))"
    "plain_info (disco_Info (disco_run (CallAddFeature ''b'' # demo_calls)))"
    by (simp_all add: plain_info_run demo_calls_def added_defs identity_key_def client_in_def)
  note use = caps_announcement [OF sort_Slice_identity_key sort_Slice_identity_key plain(1)]
  show ?thesis
    using use [OF plain(2), of "\<lambda>s. s" "''n''"] use [OF plain(3), of "\<lambda>s. s" "''n''"]
    by (simp add: demo_calls_def added_defs)
qed

text \<open>
  The two exclusions are needed: an identity and a feature with the same text are not told apart, and
  neither are a feature with a \<open><\<close> and two features.
\<close>

lemma caps_identity_as_feature:
  assumes "sort_Slice identity_less srt" "identity_key i = f"
  shows "Ver sha1 srt \<lparr>info_Node = n, info_Identities = [i], info_Features = []\<rparr> =
     Ver sha1 srt \<lparr>info_Node = n, info_Identities = [], info_Features = [\<lparr>feat_Var = f\<rparr>]\<rparr>"
  using assms by (simp add: Ver_def ver_string_parts ver_parts_def)

lemma caps_feature_as_two:
  assumes "sort_Slice identity_less srt" "f \<le> g"
  shows "Ver sha1 srt \<lparr>info_Node = n, info_Identities = [], info_Features = [\<lparr>feat_Var = f @ ''<'' @ g\<rparr>]\<rparr> =
     Ver sha1 srt \<lparr>info_Node = n, info_Identities = [], info_Features = [\<lparr>feat_Var = f\<rparr>, \<lparr>feat_Var = g\<rparr>]\<rparr>"
  using assms by (simp add: Ver_def ver_string_parts ver_parts_def)

subsection \<open>The order of XEP-0115\<close>

text \<open>
  The specification sorts identities by category, then type, then language, and writes them as the code does
  (the name, which it does not mention, comes last here).
\<close>

definition identity_fields :: "Identity \<Rightarrow> string \<times> string \<times> string \<times> string" where
  "identity_fields i = (ident_Category i, ident_Type i, ident_Lang i, ident_Name i)"

definition xep_ver_string :: "InfoQuery \<Rightarrow> string" where
  "xep_ver_string info =
     concat (map (\<lambda>i. identity_key i @ ''<'') (sort_key identity_fields (info_Identities info))) @
     concat (map (\<lambda>f. f @ ''<'') (sort (map feat_Var (info_Features info))))"

definition above_slash :: "string \<Rightarrow> bool" where
  "above_slash s \<longleftrightarrow> (\<forall>c \<in> set s. CHR ''/'' < c)"

lemma joined_less:
  "\<lbrakk>above_slash a; above_slash b\<rbrakk> \<Longrightarrow> a @ CHR ''/'' # x < b @ CHR ''/'' # y \<longleftrightarrow> (a, x) < (b, y)"
proof (induction a arbitrary: b)
  case Nil
  then show ?case by (cases b) (auto simp: above_slash_def)
next
  case (Cons c a)
  then show ?case by (cases b) (auto simp: above_slash_def)
qed

lemma identity_key_less:
  assumes "above_slash (ident_Category i)" "above_slash (ident_Type i)" "above_slash (ident_Lang i)"
    "above_slash (ident_Category j)" "above_slash (ident_Type j)" "above_slash (ident_Lang j)"
  shows "identity_key i < identity_key j \<longleftrightarrow> identity_fields i < identity_fields j"
  using assms by (simp add: identity_key_def identity_fields_def joined_less)

definition slash_sorts_first :: "Identity \<Rightarrow> bool" where
  "slash_sorts_first i \<longleftrightarrow> above_slash (ident_Category i) \<and> above_slash (ident_Type i) \<and> above_slash (ident_Lang i)"

theorem ver_string_is_xep:
  assumes "sort_Slice identity_less srt" "\<forall>i \<in> set (info_Identities info). slash_sorts_first i"
  shows "ver_string srt info = xep_ver_string info"
proof -
  let ?ids = "sort_key identity_fields (info_Identities info)"
  have "sorted_wrt (\<lambda>i j. identity_fields i \<le> identity_fields j) ?ids"
    by (metis sorted_map sorted_sort_key)
  then have "sorted_wrt (\<lambda>i j. identity_key i \<le> identity_key j) ?ids"
  proof (rule sorted_wrt_mono_rel [rotated])
    fix i j assume "i \<in> set ?ids" "j \<in> set ?ids" "identity_fields i \<le> identity_fields j"
    with assms(2) identity_key_less [of j i] show "identity_key i \<le> identity_key j"
      by (simp add: slash_sorts_first_def flip: not_less)
  qed
  then have "map identity_key ?ids = sort (map identity_key (info_Identities info))"
    by (intro properties_for_sort [symmetric]) (simp_all add: sorted_map)
  then have "map (\<lambda>i. identity_key i @ ''<'') ?ids = map (\<lambda>x. x @ ''<'') (sort (map identity_key (info_Identities info)))"
    by (metis (no_types, lifting) map_map comp_apply map_eq_conv)
  then show ?thesis
    by (simp add: xep_ver_string_def ver_string_parts [OF assms(1)] ver_parts_def)
qed

text \<open>
  The condition fails on language tags with a region: the hyphen sorts before the slash, so the code puts
  \<open>en-US\<close> before \<open>en\<close> and hashes another text than a peer does.
\<close>

lemma ver_string_not_xep:
  assumes "sort_Slice identity_less srt"
  shows "ver_string srt \<lparr>info_Node = [], info_Identities = [client_in ''en'', client_in ''en-US''], info_Features = []\<rparr> =
      ''client/pc/en-US/X<client/pc/en/X<''"
    and "xep_ver_string \<lparr>info_Node = [], info_Identities = [client_in ''en'', client_in ''en-US''], info_Features = []\<rparr> =
      ''client/pc/en/X<client/pc/en-US/X<''"
proof -
  show "ver_string srt \<lparr>info_Node = [], info_Identities = [client_in ''en'', client_in ''en-US''], info_Features = []\<rparr> =
      ''client/pc/en-US/X<client/pc/en/X<''"
    by (simp add: ver_string_parts [OF assms] ver_parts_def identity_key_def client_in_def less_char_def)
  show "xep_ver_string \<lparr>info_Node = [], info_Identities = [client_in ''en'', client_in ''en-US''], info_Features = []\<rparr> =
      ''client/pc/en/X<client/pc/en-US/X<''"
    by (simp add: xep_ver_string_def identity_key_def identity_fields_def client_in_def less_char_def)
qed

section \<open>Hashes, presence and the rest\<close>

lemma Compute_Inr_iff:
  "(\<exists>h. Compute sha256 sha512 algo data = Inr h) \<longleftrightarrow> algo \<in> {''sha-256'', ''sha-512''}"
  by (simp add: Compute_def)

text \<open>
  A hash that was computed verifies against the data and, for hash functions without a collision, against
  nothing else; four of the six algorithms that the package names are refused.
\<close>

theorem hash_Verify_iff:
  assumes "inj sha256" "inj sha512" "Compute sha256 sha512 algo data = Inr h"
  shows "hash_Verify sha256 sha512 h data' = Inr (data' = data)"
  using assms by (auto simp: hash_Verify_def Compute_def b64_encode_inj inj_eq split: if_splits)

lemma hash_algorithms_refused:
  assumes "algo \<in> {''sha3-256'', ''sha3-512'', ''blake2b-256'', ''blake2b-512''}"
  shows "Compute sha256 sha512 algo data = Inl ErrUnsupportedAlgo"
  using assms by (auto simp: Compute_def)

datatype presence_call = CallUpdate string Status | CallRemove string | CallSetOwn Status

fun presence_exec :: "presence_call \<Rightarrow> presence_Plugin \<Rightarrow> presence_Plugin" where
  "presence_exec (CallUpdate jid status) = presence_Update jid status"
| "presence_exec (CallRemove jid) = presence_Remove jid"
| "presence_exec (CallSetOwn status) = SetOwn status"

text \<open>What the last call about a contact says, searching from the end.\<close>

fun last_known :: "string \<Rightarrow> presence_call list \<Rightarrow> Status option" where
  "last_known jid [] = None"
| "last_known jid (CallUpdate j status # calls) = (if j = jid then Some status else last_known jid calls)"
| "last_known jid (CallRemove j # calls) = (if j = jid then None else last_known jid calls)"
| "last_known jid (CallSetOwn status # calls) = last_known jid calls"

theorem GetPresence_last_known:
  "GetPresence (fold presence_exec calls presence_New) jid = last_known jid (rev calls)"
proof (induction calls rule: rev_induct)
  case (snoc c calls)
  then show ?case
    by (cases c) (auto simp: GetPresence_def presence_Update_def presence_Remove_def SetOwn_def)
qed (simp add: GetPresence_def presence_New_def)

lemma Online_map_of:
  "foldl (\<lambda>result k. case m k of Some v \<Rightarrow> result(k \<mapsto> v) | None \<Rightarrow> result) r ks =
     (\<lambda>k. if k \<in> set ks \<and> m k \<noteq> None then m k else r k)"
  by (induction ks arbitrary: r) (auto simp: fun_eq_iff split: option.splits)

theorem Online_copies: "dom (pp_roster p) \<subseteq> set ks \<Longrightarrow> Online ks p jid = GetPresence p jid"
  by (cases "pp_roster p jid") (auto simp: Online_def Online_map_of GetPresence_def)

text \<open>A request for what is before the empty ID (the last page) is a request for the first page.\<close>

lemma NewRequestBefore_last_page: "NewRequestBefore n '''' = NewRequest n"
  by (simp add: NewRequestBefore_def NewRequest_def)

lemma IsQuoteLine_needs_space: "IsQuoteLine (CHR ''>'' # rest) \<longleftrightarrow> prefix '' '' rest"
  by (simp add: IsQuoteLine_def)

text \<open>The bundles of different devices are published as different items of one node.\<close>

lemma print_nat_inj: "print_nat m = print_nat n \<longleftrightarrow> m = n"
  by (metis digits_value_print)

theorem PublishBundleIQ_items:
  assumes "ip_Payload (PublishBundleIQ rnd d bundle) = Some payload" "ip_Payload (PublishBundleIQ rnd' d' bundle') = Some payload'"
  shows "\<exists>item item'. ps_Publish payload = Some \<lparr>publish_Node = NodeBundles, publish_Items = [item]\<rparr> \<and>
     ps_Publish payload' = Some \<lparr>publish_Node = NodeBundles, publish_Items = [item']\<rparr> \<and>
     (pub_ID item = pub_ID item' \<longleftrightarrow> d = d')"
  using assms by (auto simp: PublishBundleIQ_def pep_iq_def publish_payload_def print_nat_inj word_unat_eq_iff)

lemma GetDevices_SetDevices:
  "GetDevices (SetDevices jid devices p) j = (if j = jid then devices else GetDevices p j)"
  by (simp add: GetDevices_def SetDevices_def)

end
