(* ===== verification/TimeProfiles.thy ===== *)
theory TimeProfiles
  imports GoText "HOL-Library.Monad_Syntax"
begin

text \<open>
  Dates as text: plugins/time and plugins/delay.  A \<open>time.Time\<close> is its Unix second, the nanoseconds in it
  and the offset of its location; package time is modelled as far as the two layouts of the sources need it:
  the Gregorian calendar, \<open>Format\<close>, and \<open>Parse\<close> with what it accepts beyond the layout (a one-digit hour and a
  fraction of a second).  The main result is that a time that was formatted is parsed to the same second.
\<close>

section \<open>The calendar of package time\<close>

record go_Time =
  tm_sec :: int
  tm_nsec :: nat
  tm_offset :: int

record civil =
  cv_year :: int
  cv_month :: nat
  cv_day :: nat
  cv_hour :: nat
  cv_minute :: nat
  cv_second :: nat

definition leap :: "int \<Rightarrow> bool" where
  "leap y \<longleftrightarrow> 4 dvd y \<and> (\<not> 100 dvd y \<or> 400 dvd y)"

definition month_lengths :: "int \<Rightarrow> nat list" where
  "month_lengths y = [31, if leap y then 29 else 28, 31, 30, 31, 30, 31, 31, 30, 31, 30, 31]"

text \<open>The days from the first day of the year 0 to the first day of a year.\<close>

definition year_start :: "int \<Rightarrow> int" where
  "year_start y = 365 * y + (y + 3) div 4 - (y + 99) div 100 + (y + 399) div 400"

definition unix_epoch :: int where
  "unix_epoch = 719528"

definition year_of :: "int \<Rightarrow> int" where
  "year_of n =
     (let y = (400 * n) div 146097
      in if n < year_start y then y - 1 else if year_start (y + 1) \<le> n then y + 1 else y)"

text \<open>Which part of a division into lengths a position falls into, and where in it.\<close>

fun locate :: "nat list \<Rightarrow> nat \<Rightarrow> nat \<times> nat" where
  "locate [] n = (0, n)"
| "locate (l # ls) n = (if n < l then (0, n) else (case locate ls (n - l) of (k, r) \<Rightarrow> (Suc k, r)))"

definition civil_of :: "int \<Rightarrow> civil" where
  "civil_of sec =
     (let n = sec div 86400 + unix_epoch; s = nat (sec mod 86400); y = year_of n;
          (k, r) = locate (month_lengths y) (nat (n - year_start y))
      in \<lparr>cv_year = y, cv_month = Suc k, cv_day = Suc r,
          cv_hour = s div 3600, cv_minute = s div 60 mod 60, cv_second = s mod 60\<rparr>)"

definition civil_sec :: "civil \<Rightarrow> int" where
  "civil_sec c =
     (year_start (cv_year c) + int (sum_list (take (cv_month c - 1) (month_lengths (cv_year c)))) + int (cv_day c) - 1 -
      unix_epoch) * 86400 + int (cv_hour c) * 3600 + int (cv_minute c) * 60 + int (cv_second c)"

section \<open>Formatting\<close>

definition digit :: "nat \<Rightarrow> char" where
  "digit n = char_of (48 + n mod 10)"

definition pad2 :: "nat \<Rightarrow> string" where
  "pad2 n = [digit (n div 10), digit n]"

text \<open>The year has four digits, a sign in front if it is negative, and more digits where it needs them.\<close>

definition format_year :: "int \<Rightarrow> string" where
  "format_year y =
     (let n = nat \<bar>y\<bar>
      in (if y < 0 then ''-'' else []) @
         (if n < 10000 then [digit (n div 1000), digit (n div 100), digit (n div 10), digit n] else print_nat n))"

definition format_date :: "civil \<Rightarrow> string" where
  "format_date c = format_year (cv_year c) @ ''-'' @ pad2 (cv_month c) @ ''-'' @ pad2 (cv_day c)"

definition format_clock :: "civil \<Rightarrow> string" where
  "format_clock c = pad2 (cv_hour c) @ '':'' @ pad2 (cv_minute c) @ '':'' @ pad2 (cv_second c)"

text \<open>The offset as \<open>-07:00\<close> prints it: sign, hours and minutes.\<close>

definition format_offset :: "int \<Rightarrow> string" where
  "format_offset off =
     (let zone = (if off < 0 then - ((- off) div 60) else off div 60); m = nat \<bar>zone\<bar>
      in (if zone < 0 then ''-'' else ''+'') @ pad2 (m div 60) @ '':'' @ pad2 (m mod 60))"

definition FormatDateTime :: "go_Time \<Rightarrow> string" where
  "FormatDateTime t = format_date (civil_of (tm_sec t)) @ ''T'' @ format_clock (civil_of (tm_sec t)) @ ''Z''"

definition FormatDate :: "go_Time \<Rightarrow> string" where
  "FormatDate t = format_date (civil_of (tm_sec t + tm_offset t))"

definition FormatTime :: "go_Time \<Rightarrow> string" where
  "FormatTime t = format_clock (civil_of (tm_sec t)) @ ''Z''"

record entity_Time =
  et_TZO :: string
  et_UTC :: string

text \<open>\<open>now\<close> is the clock.\<close>

definition time_Now :: "go_Time \<Rightarrow> entity_Time" where
  "time_Now now = \<lparr>et_TZO = format_offset (tm_offset now), et_UTC = FormatDateTime now\<rparr>"

section \<open>Parsing\<close>

datatype time_error = ParseError

text \<open>\<open>getnum\<close> of package time: two digits, or one where the layout is not fixed.\<close>

fun getnum :: "bool \<Rightarrow> string \<Rightarrow> (nat \<times> string) option" where
  "getnum fixed (a # b # s) =
     (if \<not> is_digit (byte_of a) then None
      else if is_digit (byte_of b) then Some ((byte_of a - 48) * 10 + (byte_of b - 48), s)
      else if fixed then None else Some (byte_of a - 48, b # s))"
| "getnum fixed [a] = (if is_digit (byte_of a) \<and> \<not> fixed then Some (byte_of a - 48, []) else None)"
| "getnum fixed [] = None"

definition skip_char :: "char \<Rightarrow> string \<Rightarrow> string option" where
  "skip_char c s = (case s of x # xs \<Rightarrow> if x = c then Some xs else None | [] \<Rightarrow> None)"

text \<open>Four digits.\<close>

definition getyear :: "string \<Rightarrow> (nat \<times> string) option" where
  "getyear s =
     (if 4 \<le> length s \<and> (\<forall>c \<in> set (take 4 s). is_digit (byte_of c))
      then Some (digits_value (map byte_of (take 4 s)), drop 4 s) else None)"

text \<open>
  A fraction behind the seconds is accepted although the layout has none: a point or a comma and digits, of
  which the first nine count.
\<close>

definition fraction :: "string \<Rightarrow> nat \<times> string" where
  "fraction s =
     (case s of
        p # d # rest \<Rightarrow>
          (if (p = CHR ''.'' \<or> p = CHR '','') \<and> is_digit (byte_of d)
           then (let ds = takeWhile (\<lambda>c. is_digit (byte_of c)) (d # rest); first = take 9 ds
                 in (digits_value (map byte_of first) * 10 ^ (9 - length first), drop (length ds) (d # rest)))
           else (0, s))
      | _ \<Rightarrow> (0, s))"

definition within :: "nat \<Rightarrow> nat \<Rightarrow> nat \<times> string \<Rightarrow> (nat \<times> string) option" where
  "within lo hi r = (if lo \<le> fst r \<and> fst r \<le> hi then Some r else None)"

text \<open>\<open>time.Parse\<close> with the layout \<open>2006-01-02T15:04:05Z\<close>.\<close>

definition parse_fields :: "string \<Rightarrow> (civil \<times> nat) option" where
  "parse_fields s0 = do {
     (y, s) \<leftarrow> getyear s0;
     s \<leftarrow> skip_char CHR ''-'' s;
     (mo, s) \<leftarrow> Option.bind (getnum True s) (within 1 12);
     s \<leftarrow> skip_char CHR ''-'' s;
     (d, s) \<leftarrow> getnum True s;
     s \<leftarrow> skip_char CHR ''T'' s;
     (h, s) \<leftarrow> Option.bind (getnum False s) (within 0 23);
     s \<leftarrow> skip_char CHR '':'' s;
     (mi, s) \<leftarrow> Option.bind (getnum True s) (within 0 59);
     s \<leftarrow> skip_char CHR '':'' s;
     (sec, s) \<leftarrow> Option.bind (getnum True s) (within 0 59);
     let (nsec, s) = fraction s;
     s \<leftarrow> skip_char CHR ''Z'' s;
     if s = [] then Some (\<lparr>cv_year = int y, cv_month = mo, cv_day = d, cv_hour = h, cv_minute = mi, cv_second = sec\<rparr>, nsec)
     else None }"

definition ParseDateTime :: "string \<Rightarrow> (time_error, go_Time) result" where
  "ParseDateTime s =
     (case parse_fields s of
        None \<Rightarrow> Inl ParseError
      | Some (c, nsec) \<Rightarrow>
          (if cv_day c < 1 \<or> month_lengths (cv_year c) ! (cv_month c - 1) < cv_day c then Inl ParseError
           else Inr \<lparr>tm_sec = civil_sec c, tm_nsec = nsec, tm_offset = 0\<rparr>))"

section \<open>Delayed delivery\<close>

record Delay =
  delay_From :: string
  delay_Stamp :: string
  delay_Reason :: string

definition NewDelay :: "string \<Rightarrow> go_Time \<Rightarrow> Delay" where
  "NewDelay frm stamp = \<lparr>delay_From = frm, delay_Stamp = FormatDateTime stamp, delay_Reason = []\<rparr>"

definition ParseStamp :: "Delay \<Rightarrow> (time_error, go_Time) result" where
  "ParseStamp d = ParseDateTime (delay_Stamp d)"

section \<open>Properties of the calendar\<close>

lemma div_next: "(y + c) div c = (y + d) div c + (if c dvd y then 1 else 0)" if "0 < c" "d = c - 1" for y c d :: int
proof -
  define q r where "q = y div c" and "r = y mod c"
  have y: "y = c * q + r" and r: "0 \<le> r" "r < c" and z: "c dvd y \<longleftrightarrow> r = 0"
    using that by (simp_all add: q_def r_def dvd_eq_mod_eq_0)
  have "(y + c) div c = q + 1"
    using that div_add_self2 [of c y] by (simp add: q_def)
  moreover have "(y + d) div c = q + (r + d) div c"
    using that div_mult_self2 [of c "r + d" q] by (simp add: y algebra_simps)
  moreover have "(r + d) div c = (if r = 0 then 0 else 1)"
  proof (cases "r = 0")
    case False
    then have "(r + d) div c = (r - 1 + c) div c"
      using that(2) by (intro arg_cong2 [where f = divide]) simp_all
    also have "\<dots> = (r - 1) div c + 1"
      using that by (simp add: div_add_self2)
    finally show ?thesis
      using False r by (simp add: div_pos_pos_trivial)
  qed (use that in \<open>simp add: div_pos_pos_trivial\<close>)
  ultimately show ?thesis
    using z by simp
qed

lemma year_start_Suc: "year_start (y + 1) = year_start y + int (sum_list (month_lengths y))"
proof -
  define a b c where "a = (y + 3) div 4" and "b = (y + 99) div 100" and "c = (y + 399) div 400"
  have eqs: "(y + 4) div 4 = a + (if 4 dvd y then 1 else 0)"
    "(y + 100) div 100 = b + (if 100 dvd y then 1 else 0)"
    "(y + 400) div 400 = c + (if 400 dvd y then 1 else 0)"
    unfolding a_def b_def c_def by (rule div_next; simp)+
  have "year_start (y + 1) = 365 * (y + 1) + (y + 4) div 4 - (y + 100) div 100 + (y + 400) div 400"
    by (simp add: year_start_def add.commute [of y])
  then have "year_start (y + 1) = 365 * (y + 1) + (a + (if 4 dvd y then 1 else 0)) -
      (b + (if 100 dvd y then 1 else 0)) + (c + (if 400 dvd y then 1 else 0))"
    by (simp only: eqs)
  moreover have "year_start y = 365 * y + a - b + c"
    by (simp add: year_start_def a_def b_def c_def)
  moreover have "400 dvd y \<Longrightarrow> 100 dvd y" "100 dvd y \<Longrightarrow> 4 dvd y"
    by (auto elim: dvd_trans [rotated])
  ultimately show ?thesis
    by (cases "4 dvd y"; cases "100 dvd y"; cases "400 dvd y") (simp_all add: month_lengths_def leap_def)
qed

lemma year_start_bounds:
  "400 * year_start z \<le> 146097 * z + 699" "146097 * z - 396 \<le> 400 * year_start z"
proof -
  define a b c where "a = (z + 3) div 4" and "b = (z + 99) div 100" and "c = (z + 399) div 400"
  have "4 * a \<le> z + 3" "z \<le> 4 * a" "100 * b \<le> z + 99" "z \<le> 100 * b" "400 * c \<le> z + 399" "z \<le> 400 * c"
    unfolding a_def b_def c_def by linarith+
  moreover have "year_start z = 365 * z + a - b + c"
    by (simp add: year_start_def a_def b_def c_def)
  ultimately show "400 * year_start z \<le> 146097 * z + 699" and "146097 * z - 396 \<le> 400 * year_start z"
    by simp_all
qed

lemma year_of_bounds: "year_start (year_of n) \<le> n \<and> n < year_start (year_of n + 1)"
proof -
  define y where "y = (400 * n) div 146097"
  have est: "146097 * y \<le> 400 * n" "400 * n < 146097 * y + 146097"
    by (simp_all add: y_def)
  have "year_start (y - 1) \<le> n" "n < year_start (y + 2)"
    using est year_start_bounds(1) [of "y - 1"] year_start_bounds(2) [of "y + 2"] by simp_all
  then show ?thesis
    by (auto simp: year_of_def Let_def add.commute [of 2] simp flip: y_def)
qed

lemma locate_correct:
  "n < sum_list ls \<Longrightarrow> locate ls n = (k, r) \<Longrightarrow> k < length ls \<and> r < ls ! k \<and> n = sum_list (take k ls) + r"
proof (induction ls arbitrary: n k r)
  case (Cons l ls)
  show ?case
  proof (cases "n < l")
    case True
    with Cons.prems show ?thesis by simp
  next
    case False
    obtain k' r' where loc: "locate ls (n - l) = (k', r')"
      by (cases "locate ls (n - l)")
    have "n - l < sum_list ls"
      using False Cons.prems(1) by simp
    from Cons.IH [OF this loc] False loc Cons.prems show ?thesis by auto
  qed
qed simp


lemma seconds_split: "s = s div 3600 * 3600 + s div 60 mod 60 * 60 + s mod 60" for s :: nat
proof -
  have "s div 3600 = s div 60 div 60"
    by (simp flip: div_mult2_eq)
  then have "s div 60 = s div 3600 * 60 + s div 60 mod 60"
    by simp
  then have "s div 60 * 60 + s mod 60 = (s div 3600 * 60 + s div 60 mod 60) * 60 + s mod 60"
    by simp
  then show ?thesis
    by simp
qed

lemma civil_sec_of: "civil_sec (civil_of sec) = sec"
proof -
  define n s where "n = sec div 86400 + unix_epoch" and "s = nat (sec mod 86400)"
  obtain k r where loc: "locate (month_lengths (year_of n)) (nat (n - year_start (year_of n))) = (k, r)"
    by (cases "locate (month_lengths (year_of n)) (nat (n - year_start (year_of n)))")
  have "nat (n - year_start (year_of n)) < sum_list (month_lengths (year_of n))"
    using year_of_bounds [of n] year_start_Suc [of "year_of n"] by linarith
  from locate_correct [OF this loc] year_of_bounds [of n]
  have "n = year_start (year_of n) + int (sum_list (take k (month_lengths (year_of n)))) + int r"
    by linarith
  moreover have "civil_of sec = \<lparr>cv_year = year_of n, cv_month = Suc k, cv_day = Suc r,
      cv_hour = s div 3600, cv_minute = s div 60 mod 60, cv_second = s mod 60\<rparr>"
    using loc by (simp add: civil_of_def Let_def n_def s_def)
  moreover have "s = s div 3600 * 3600 + s div 60 mod 60 * 60 + s mod 60"
    by (rule seconds_split)
  moreover have "sec = (n - unix_epoch) * 86400 + int s"
    by (simp add: n_def s_def)
  ultimately show ?thesis
    by (simp add: civil_sec_def)
qed

definition civil_ok :: "civil \<Rightarrow> bool" where
  "civil_ok c \<longleftrightarrow> cv_month c \<in> {1..12} \<and> 1 \<le> cv_day c \<and> cv_day c \<le> month_lengths (cv_year c) ! (cv_month c - 1) \<and>
     cv_hour c < 24 \<and> cv_minute c < 60 \<and> cv_second c < 60"

lemma civil_of_ok: "civil_ok (civil_of sec)"
proof -
  define n s where "n = sec div 86400 + unix_epoch" and "s = nat (sec mod 86400)"
  obtain k r where loc: "locate (month_lengths (year_of n)) (nat (n - year_start (year_of n))) = (k, r)"
    by (cases "locate (month_lengths (year_of n)) (nat (n - year_start (year_of n)))")
  have "nat (n - year_start (year_of n)) < sum_list (month_lengths (year_of n))"
    using year_of_bounds [of n] year_start_Suc [of "year_of n"] by linarith
  from locate_correct [OF this loc] have "k < 12" "r < month_lengths (year_of n) ! k"
    by (simp_all add: month_lengths_def)
  moreover have "s div 3600 < 24"
    by (simp add: s_def less_mult_imp_div_less nat_less_iff)
  ultimately show ?thesis
    using loc by (simp add: civil_ok_def civil_of_def Let_def n_def s_def)
qed

lemma year_start_mono: "y \<le> z \<Longrightarrow> year_start y \<le> year_start z"
proof -
  have "year_start y \<le> year_start (y + int k)" for k
  proof (induction k)
    case (Suc k)
    with year_start_Suc [of "y + int k"] show ?case by (simp add: ac_simps)
  qed simp
  from this [of "nat (z - y)"] show "y \<le> z \<Longrightarrow> year_start y \<le> year_start z"
    by simp
qed

lemma year_of_unique:
  assumes "year_start y \<le> n" "n < year_start (y + 1)"
  shows "year_of n = y"
proof (rule ccontr)
  assume "year_of n \<noteq> y"
  then consider "year_of n + 1 \<le> y" | "y + 1 \<le> year_of n"
    by linarith
  then show False
  proof cases
    case 1
    from year_start_mono [OF this] assms(1) year_of_bounds [of n] show ?thesis by simp
  next
    case 2
    from year_start_mono [OF this] assms(2) year_of_bounds [of n] show ?thesis by simp
  qed
qed

lemma locate_take: "k < length ls \<Longrightarrow> r < ls ! k \<Longrightarrow> locate ls (sum_list (take k ls) + r) = (k, r)"
proof (induction ls arbitrary: k)
  case (Cons l ls)
  then show ?case by (cases k) auto
qed simp

lemma sum_list_take_less: "k < length ls \<Longrightarrow> r < ls ! k \<Longrightarrow> sum_list (take k ls) + r < sum_list ls"
  for ls :: "nat list"
proof (induction ls arbitrary: k)
  case (Cons l ls)
  then show ?case by (cases k) (auto simp: add.assoc)
qed simp

lemma clock_parts:
  assumes "h < 24" "m < 60" "s < 60"
  shows "(h * 3600 + m * 60 + s) div 3600 = h" "(h * 3600 + m * 60 + s) div 60 mod 60 = m"
    "(h * 3600 + m * 60 + s) mod 60 = s" "h * 3600 + m * 60 + s < (86400 :: nat)"
proof -
  have "h * 3600 + m * 60 + s = s + 60 * (m + 60 * h)"
    by simp
  then have a: "(h * 3600 + m * 60 + s) div 60 = m + 60 * h" and b: "(h * 3600 + m * 60 + s) mod 60 = s"
    using assms(3) by (simp_all only: div_mult_self2 mod_mult_self2) simp_all
  show "(h * 3600 + m * 60 + s) mod 60 = s" by (rule b)
  show "(h * 3600 + m * 60 + s) div 60 mod 60 = m"
    using assms(2) by (simp add: a)
  have "(h * 3600 + m * 60 + s) div 3600 = (h * 3600 + m * 60 + s) div 60 div 60"
    by (simp flip: div_mult2_eq)
  then show "(h * 3600 + m * 60 + s) div 3600 = h"
    using assms(2) by (simp add: a)
  show "h * 3600 + m * 60 + s < 86400"
    using assms by simp
qed

lemma civil_of_sec:
  assumes "civil_ok c"
  shows "civil_of (civil_sec c) = c"
proof -
  define y k r s where "y = cv_year c" and "k = cv_month c - 1" and "r = cv_day c - 1"
    and "s = cv_hour c * 3600 + cv_minute c * 60 + cv_second c"
  have kr: "k < length (month_lengths y)" "r < month_lengths y ! k" "cv_month c = Suc k" "cv_day c = Suc r"
    and clock: "cv_hour c < 24" "cv_minute c < 60" "cv_second c < 60"
    using assms by (auto simp: civil_ok_def y_def k_def r_def month_lengths_def)
  note parts = clock_parts [OF clock, folded s_def]
  define n where "n = year_start y + int (sum_list (take k (month_lengths y)) + r)"
  have sec: "civil_sec c = (n - unix_epoch) * 86400 + int s"
    by (simp add: civil_sec_def n_def s_def kr(3,4) flip: y_def)
  have "year_of n = y"
    using sum_list_take_less [OF kr(1,2)] year_start_Suc [of y] by (intro year_of_unique) (simp_all add: n_def)
  moreover have "civil_sec c div 86400 = n - unix_epoch"
    using parts(4) by (simp add: sec)
  moreover have "civil_sec c mod 86400 = int s"
    using parts(4) unfolding sec by (simp only: mod_mult_self3) simp
  moreover have "locate (month_lengths y) (nat (n - year_start y)) = (k, r)"
    unfolding n_def by (simp add: locate_take [OF kr(1,2)] del: of_nat_add)
  ultimately have "civil_of (civil_sec c) = \<lparr>cv_year = y, cv_month = Suc k, cv_day = Suc r,
      cv_hour = s div 3600, cv_minute = s div 60 mod 60, cv_second = s mod 60\<rparr>"
    by (simp add: civil_of_def Let_def)
  then show ?thesis
    by (simp add: parts kr(3) [symmetric] kr(4) [symmetric] y_def)
qed

section \<open>Texts that are written are read back\<close>

lemma byte_of_digit [simp]: "byte_of (digit n) = 48 + n mod 10"
  by (simp add: digit_def)

lemma is_digit_below: "n < 10 \<Longrightarrow> is_digit (48 + n)"
  by (simp add: is_digit_def)

lemma getnum_pad2: "n < 100 \<Longrightarrow> getnum fixed (pad2 n @ s) = Some (n, s)"
  by (simp add: pad2_def is_digit_below)

lemma skip_char_Cons [simp]: "skip_char c (c # s) = Some s"
  by (simp add: skip_char_def)

lemma fraction_Z [simp]: "fraction (CHR ''Z'' # s) = (0, CHR ''Z'' # s)"
  by (simp add: fraction_def split: list.splits)

lemma four_digits: "n < 10000 \<Longrightarrow> n div 1000 mod 10 * 1000 + n div 100 mod 10 * 100 + n div 10 mod 10 * 10 + n mod 10 = n"
  for n :: nat
proof -
  assume "n < 10000"
  have "n div 10 = n div 100 * 10 + n div 10 mod 10" "n div 100 = n div 1000 * 10 + n div 100 mod 10"
    using div_mult_mod_eq [of "n div 10" 10] div_mult_mod_eq [of "n div 100" 10] by (simp_all flip: div_mult2_eq)
  moreover have "n = n div 10 * 10 + n mod 10"
    by simp
  moreover have "n div 1000 mod 10 = n div 1000"
    using \<open>n < 10000\<close> by simp
  ultimately show ?thesis by linarith
qed

lemma getyear_format:
  assumes "0 \<le> y" "y < 10000"
  shows "getyear (format_year y @ s) = Some (nat y, s)"
proof -
  have "nat y < 10000" using assms by simp
  with four_digits [OF this] assms show ?thesis
    by (simp add: getyear_def format_year_def Let_def digits_value_def is_digit_below)
qed

lemma length_print_nat: "10 ^ k \<le> n \<Longrightarrow> k < length (print_nat n)"
proof (induction k arbitrary: n)
  case (Suc k)
  then have "10 ^ k \<le> n div 10"
    by (simp add: less_eq_div_iff_mult_less_eq)
  moreover have "\<not> n < 10"
    using Suc.prems one_le_power [of "10 :: nat" k] by (simp only: power_Suc) linarith
  ultimately show ?case
    using Suc.IH [of "n div 10"] by (subst print_nat.simps) simp
qed simp

lemma year_not_read:
  assumes "y < 0 \<or> 10000 \<le> y"
  shows "parse_fields (format_year y @ s) = None"
proof (cases "y < 0")
  case True
  then obtain r where "format_year y = CHR ''-'' # r"
    by (auto simp: format_year_def Let_def)
  then have "getyear (format_year y @ s) = None"
    by (simp add: getyear_def is_digit_def take_Cons')
  then show ?thesis by (simp add: parse_fields_def)
next
  case False
  with assms have "10 ^ 4 \<le> nat y" by simp
  from length_print_nat [OF this] have len: "4 < length (print_nat (nat y))" .
  define d where "d = print_nat (nat y) ! 4"
  have "d \<in> set (print_nat (nat y))"
    using len by (simp add: d_def)
  then have "d \<noteq> CHR ''-''"
    using print_nat_digits by (fastforce simp: is_digit_def)
  moreover obtain r where "drop 4 (print_nat (nat y)) = d # r"
    using Cons_nth_drop_Suc [OF len] by (metis d_def)
  ultimately have "skip_char CHR ''-'' (drop 4 (print_nat (nat y) @ s)) = None"
    using len by (simp add: skip_char_def)
  moreover have "format_year y = print_nat (nat y)"
    using \<open>10 ^ 4 \<le> nat y\<close> False by (simp add: format_year_def Let_def)
  ultimately show ?thesis
    by (simp add: parse_fields_def getyear_def)
qed

lemma civil_of_year: "cv_year (civil_of sec) = year_of (sec div 86400 + unix_epoch)"
  by (simp add: civil_of_def Let_def split: prod.split)

lemma year_of_range: "0 \<le> year_of n \<and> year_of n < 10000 \<longleftrightarrow> 0 \<le> n \<and> n < 3652425"
proof -
  have "0 \<le> year_of n \<longleftrightarrow> 0 \<le> n"
    using year_of_bounds [of n] year_start_mono [of 0 "year_of n"] year_start_mono [of "year_of n + 1" 0]
    by (cases "0 \<le> year_of n") (auto simp: year_start_def)
  moreover have "year_of n < 10000 \<longleftrightarrow> n < 3652425"
    using year_of_bounds [of n] year_start_mono [of 10000 "year_of n"] year_start_mono [of "year_of n + 1" 10000]
    by (cases "year_of n < 10000") (auto simp: year_start_def)
  ultimately show ?thesis by simp
qed

lemma month_lengths_le: "k < 12 \<Longrightarrow> month_lengths y ! k \<le> 31"
proof -
  have "\<forall>l \<in> set (month_lengths y). l \<le> 31"
    by (simp add: month_lengths_def)
  moreover have "length (month_lengths y) = 12"
    by (simp add: month_lengths_def)
  ultimately show "k < 12 \<Longrightarrow> month_lengths y ! k \<le> 31"
    by simp
qed

lemma parse_fields_format:
  assumes "civil_ok c" "0 \<le> cv_year c" "cv_year c < 10000"
  shows "parse_fields (format_date c @ ''T'' @ format_clock c @ ''Z'') = Some (c, 0)"
proof -
  have "cv_day c < 100"
    using assms(1) month_lengths_le [of "cv_month c - 1" "cv_year c"] by (simp add: civil_ok_def) linarith
  with assms show ?thesis
    by (simp add: parse_fields_def format_date_def format_clock_def getyear_format getnum_pad2 within_def civil_ok_def)
qed

text \<open>
  C17: a delay stamp that was written is read back as the same second in UTC, for exactly the times whose year has four
  digits; nanoseconds and the location are lost.
\<close>

theorem delay_stamp_roundtrip:
  "ParseStamp (NewDelay frm t) =
     (if - 62167219200 \<le> tm_sec t \<and> tm_sec t < 253402300800
      then Inr \<lparr>tm_sec = tm_sec t, tm_nsec = 0, tm_offset = 0\<rparr> else Inl ParseError)"
proof -
  let ?c = "civil_of (tm_sec t)"
  have range: "- 62167219200 \<le> tm_sec t \<and> tm_sec t < 253402300800 \<longleftrightarrow> 0 \<le> cv_year ?c \<and> cv_year ?c < 10000"
    unfolding civil_of_year year_of_range unix_epoch_def by linarith
  show ?thesis
  proof (cases "0 \<le> cv_year ?c \<and> cv_year ?c < 10000")
    case True
    with parse_fields_format [OF civil_of_ok] civil_of_ok [of "tm_sec t"] range show ?thesis
      by (simp add: ParseStamp_def NewDelay_def ParseDateTime_def FormatDateTime_def civil_ok_def civil_sec_of)
  next
    case False
    then have "parse_fields (FormatDateTime t) = None"
      unfolding FormatDateTime_def format_date_def append_assoc by (intro year_not_read) linarith
    with False range show ?thesis
      by (simp add: ParseStamp_def NewDelay_def ParseDateTime_def)
  qed
qed

text \<open>What is accepted: only days that exist, and the clock reads them as they were written.\<close>

lemma ParseDateTime_fields:
  assumes "ParseDateTime s = Inr t"
  shows "parse_fields s = Some (civil_of (tm_sec t), tm_nsec t)"
proof -
  from assms obtain c nsec where p: "parse_fields s = Some (c, nsec)"
    and d: "1 \<le> cv_day c" "cv_day c \<le> month_lengths (cv_year c) ! (cv_month c - 1)"
    and t: "t = \<lparr>tm_sec = civil_sec c, tm_nsec = nsec, tm_offset = 0\<rparr>"
    by (auto simp: ParseDateTime_def not_less split: option.splits if_splits)
  have "civil_ok c"
    using p d by (auto simp: parse_fields_def civil_ok_def within_def case_prod_unfold Let_def bind_eq_Some_conv split: if_splits)
  with p t show ?thesis
    by (simp add: civil_of_sec)
qed

lemmas time_eval = ParseDateTime_def parse_fields_def getyear_def digits_value_def is_digit_def skip_char_def within_def
  fraction_def month_lengths_def leap_def civil_sec_def year_start_def unix_epoch_def civil_of_def year_of_def Let_def

text \<open>
  Offsets, which XEP-0082 allows, are refused, and so is a day that does not exist; a fraction of a second is read.
\<close>

lemma ParseDateTime_examples:
  "ParseDateTime ''1969-07-20T21:56:15-05:00'' = Inl ParseError"
  "ParseDateTime ''2023-02-29T00:00:00Z'' = Inl ParseError"
  "ParseDateTime ''1970-01-02T00:00:01.5Z'' = Inr \<lparr>tm_sec = 86401, tm_nsec = 500000000, tm_offset = 0\<rparr>"
  by (simp_all add: time_eval)

text \<open>
  The date is that of the location and not that of UTC, which \<open>FormatDateTime\<close> uses: east of Greenwich the two
  differ in the first hours of a day.
\<close>

lemma FormatDate_local:
  "FormatDate \<lparr>tm_sec = 82800, tm_nsec = 0, tm_offset = 7200\<rparr> = ''1970-01-02''"
  "FormatDateTime \<lparr>tm_sec = 82800, tm_nsec = 0, tm_offset = 7200\<rparr> = ''1970-01-01T23:00:00Z''"
proof -
  have y: "year_of 719528 = 1970" "year_of 719529 = 1970" "year_start 1970 = 719528"
    by (simp_all add: year_of_def year_start_def)
  have c: "civil_of 90000 = \<lparr>cv_year = 1970, cv_month = 1, cv_day = 2, cv_hour = 1, cv_minute = 0, cv_second = 0\<rparr>"
    "civil_of 82800 = \<lparr>cv_year = 1970, cv_month = 1, cv_day = 1, cv_hour = 23, cv_minute = 0, cv_second = 0\<rparr>"
    by (simp_all add: civil_of_def unix_epoch_def y month_lengths_def)
  note fmt = format_date_def format_clock_def format_year_def pad2_def digit_def char_of_def bit_Suc_0_iff
  show "FormatDate \<lparr>tm_sec = 82800, tm_nsec = 0, tm_offset = 7200\<rparr> = ''1970-01-02''"
    by (simp add: FormatDate_def c fmt)
  show "FormatDateTime \<lparr>tm_sec = 82800, tm_nsec = 0, tm_offset = 7200\<rparr> = ''1970-01-01T23:00:00Z''"
    by (simp add: FormatDateTime_def c fmt)
qed

end
