(* ===== verification/SaslExchange.thy ===== *)
theory SaslExchange
  imports Sasl
begin

text \<open>
  The SCRAM client of package \<open>sasl\<close> against RFC 5802: how a server reads the messages of a client, what it
  checks and what it answers, written from the grammar of the RFC (sections 5 and 7) and not from the code.
  The client completes the exchange with such a server, and it completes with no peer that can not sign what
  both have said with the server key of the account.
\<close>

section \<open>The messages of a client, as a server reads them\<close>

text \<open>
  \<open>saslname\<close>: a comma is written as \<open>=2C\<close> and an equal sign as \<open>=3D\<close>; another use of the equal sign is an error.
\<close>

fun saslname :: "string \<Rightarrow> string option" where
  "saslname [] = Some []"
| "saslname (c # s) =
     (if c = CHR ''='' then
        (case s of
           x # y # t \<Rightarrow>
             (if [x, y] = ''2C'' then map_option ((#) (CHR '','')) (saslname t)
              else if [x, y] = ''3D'' then map_option ((#) (CHR ''='')) (saslname t)
              else None)
         | _ \<Rightarrow> None)
      else map_option ((#) c) (saslname s))"

definition attribute :: "char \<Rightarrow> string \<Rightarrow> string option" where
  "attribute k part = (case part of a # b # v \<Rightarrow> if a = k \<and> b = CHR ''='' then Some v else None | _ \<Rightarrow> None)"

text \<open>
  \<open>client-first-message\<close>: the flag of channel binding, no other identity to act as, the user and the nonce.
  The GS2 header ends with the second comma; what follows is \<open>client-first-message-bare\<close>.
\<close>

record client_first =
  cf_flag :: string
  cf_gs2 :: string
  cf_bare :: string
  cf_user :: string
  cf_nonce :: string

definition read_client_first :: "string \<Rightarrow> client_first option" where
  "read_client_first m =
     (case split_byte (CHR '','') m of
        [flag, authzid, n, r] \<Rightarrow>
          (case (attribute (CHR ''n'') n, attribute (CHR ''r'') r) of
             (Some name, Some nonce) \<Rightarrow>
               (case saslname name of
                  Some user \<Rightarrow>
                    if authzid = [] then
                      Some \<lparr>cf_flag = flag, cf_gs2 = flag @ '',,'', cf_bare = n @ '','' @ r, cf_user = user, cf_nonce = nonce\<rparr>
                    else None
                | None \<Rightarrow> None)
           | _ \<Rightarrow> None)
      | _ \<Rightarrow> None)"

text \<open>\<open>client-final-message\<close>: channel binding, nonce and proof.\<close>

record client_final =
  cl_binding :: string
  cl_nonce :: string
  cl_proof :: string
  cl_without_proof :: string

definition read_client_final :: "string \<Rightarrow> client_final option" where
  "read_client_final m =
     (case split_byte (CHR '','') m of
        [c, r, p] \<Rightarrow>
          (case (attribute (CHR ''c'') c, attribute (CHR ''r'') r, attribute (CHR ''p'') p) of
             (Some c64, Some nonce, Some p64) \<Rightarrow>
               (case (b64_decode c64, b64_decode p64) of
                  (Some binding, Some pf) \<Rightarrow>
                    Some \<lparr>cl_binding = binding, cl_nonce = nonce, cl_proof = pf, cl_without_proof = c @ '','' @ r\<rparr>
                | _ \<Rightarrow> None)
           | _ \<Rightarrow> None)
      | _ \<Rightarrow> None)"

section \<open>The server\<close>

text \<open>
  It holds the salt, the iteration count, the stored key and the server key of each account, and knows the
  type and the data of the channel binding of its connection, when there is one.
\<close>

type_synonym scram_account = "string \<times> int \<times> string \<times> string"

record scram_server =
  rs_users :: "string \<rightharpoonup> scram_account"
  rs_binding :: "(string \<times> string) option"

text \<open>The data that the flag of the client asks for; \<open>y\<close> is refused by a server that does support a binding.\<close>

definition channel_data :: "(string \<times> string) option \<Rightarrow> string \<Rightarrow> string option" where
  "channel_data b flag =
     (if flag = ''n'' then Some []
      else case b of
          None \<Rightarrow> if flag = ''y'' then Some [] else None
        | Some (t, d) \<Rightarrow> if flag = ''p='' @ t then Some d else None)"

fun server_first :: "scram_account \<Rightarrow> string \<Rightarrow> string" where
  "server_first (salt, iters, storedKey, serverKey) nonce =
     ''r='' @ nonce @ '',s='' @ salt @ '',i='' @ print_nat (nat iters)"

text \<open>The hash of the client key recovered from the proof is the stored key.\<close>

fun proof_ok :: "hash_fn \<Rightarrow> scram_account \<Rightarrow> string \<Rightarrow> string \<Rightarrow> bool" where
  "proof_ok H (salt, iters, storedKey, serverKey) authMessage pf \<longleftrightarrow>
     (case b64_decode storedKey of
        Some sk \<Rightarrow>
          (case xorBytes pf (hf_HMAC H sk authMessage) of
             Some clientKey \<Rightarrow> hf_Sum H clientKey = sk
           | None \<Rightarrow> False)
      | None \<Rightarrow> False)"

fun server_final :: "hash_fn \<Rightarrow> scram_account \<Rightarrow> string \<Rightarrow> string option" where
  "server_final H (salt, iters, storedKey, serverKey) authMessage =
     map_option (\<lambda>key. ''v='' @ b64_encode (hf_HMAC H key authMessage)) (b64_decode serverKey)"

text \<open>Its answer to the first message, with \<open>ext\<close> its part of the nonce, and to the final one; \<open>None\<close> is a refusal.\<close>

definition rfc_first :: "scram_server \<Rightarrow> string \<Rightarrow> string \<Rightarrow> string option" where
  "rfc_first S ext m1 =
     (case read_client_first m1 of
        Some f \<Rightarrow> map_option (\<lambda>acc. server_first acc (cf_nonce f @ ext)) (rs_users S (cf_user f))
      | None \<Rightarrow> None)"

definition rfc_final :: "hash_fn \<Rightarrow> scram_server \<Rightarrow> string \<Rightarrow> string \<Rightarrow> string \<Rightarrow> string option" where
  "rfc_final H S ext m1 m2 =
     (case (read_client_first m1, read_client_final m2) of
        (Some f, Some g) \<Rightarrow>
          (case (rs_users S (cf_user f), channel_data (rs_binding S) (cf_flag f)) of
             (Some acc, Some cb) \<Rightarrow>
               (let auth = cf_bare f @ '','' @ server_first acc (cf_nonce f @ ext) @ '','' @ cl_without_proof g
                in if cl_binding g = cf_gs2 f @ cb \<and> cl_nonce g = cf_nonce f @ ext \<and> proof_ok H acc auth (cl_proof g)
                   then server_final H acc auth else None)
           | _ \<Rightarrow> None)
      | _ \<Rightarrow> None)"

section \<open>What the client sends\<close>

lemma saslname_escape: "saslname (escapeSCRAM u) = Some u"
  by (induction u) (auto simp: escapeSCRAM_def replace_byte_def)

lemma escapeSCRAM_no_comma: "CHR '','' \<notin> set (escapeSCRAM u)"
  by (induction u) (auto simp: escapeSCRAM_def replace_byte_def)

text \<open>The first message, as the server reads it.\<close>

definition sent_first :: "Credentials \<Rightarrow> bool \<Rightarrow> string \<Rightarrow> client_first" where
  "sent_first creds isPlus nonce =
     (let flag = (if isPlus then ''p='' @ cr_CBType creds else ''n'')
      in \<lparr>cf_flag = flag, cf_gs2 = flag @ '',,'', cf_bare = ''n='' @ escapeSCRAM (cr_Username creds) @ '',r='' @ nonce,
          cf_user = cr_Username creds, cf_nonce = nonce\<rparr>)"

lemma read_sent_first:
  assumes "CHR '','' \<notin> set (cr_CBType creds)" "CHR '','' \<notin> set nonce"
  shows "read_client_first (cf_gs2 (sent_first creds isPlus nonce) @ cf_bare (sent_first creds isPlus nonce)) =
    Some (sent_first creds isPlus nonce)"
proof -
  let ?flag = "if isPlus then ''p='' @ cr_CBType creds else ''n''"
  have "CHR '','' \<notin> set ?flag" using assms(1) by auto
  from split_byte_append [OF this, of "CHR '','' # ''n='' @ escapeSCRAM (cr_Username creds) @ '',r='' @ nonce"]
  have "split_byte (CHR '','') (?flag @ '',,n='' @ escapeSCRAM (cr_Username creds) @ '',r='' @ nonce) =
      [?flag, [], ''n='' @ escapeSCRAM (cr_Username creds), ''r='' @ nonce]"
    using split_byte_append [of "CHR '',''" "''n='' @ escapeSCRAM (cr_Username creds)" "''r='' @ nonce"]
      escapeSCRAM_no_comma assms(2) split_byte_no_sep [of "CHR '',''" "''r='' @ nonce"] by simp
  then show ?thesis
    by (simp add: sent_first_def Let_def read_client_first_def attribute_def saslname_escape)
qed

lemma scram_Start_sent:
  assumes "scram_Start rnd (newSCRAM creds name H isPlus) = (Inr m1, c1)"
  shows "let f = sent_first creds isPlus (generateNonce rnd)
     in m1 = cf_gs2 f @ cf_bare f \<and> sc_gs2Header c1 = cf_gs2 f \<and> sc_clientFirst c1 = cf_bare f \<and> sc_step c1 = 1 \<and>
        sc_clientNonce c1 = generateNonce rnd \<and> sc_hashFunc c1 = H \<and> sc_creds c1 = creds \<and> sc_plus c1 = isPlus \<and>
        sc_iterations c1 = 0"
  using assms by (auto simp: scram_Start_def newSCRAM_def Let_def sent_first_def split: if_splits)

text \<open>The final message: \<open>data\<close> is the first message of the server, \<open>s\<close> the client with the nonce, salt and iterations of it.\<close>

definition salted_password :: "hash_fn \<Rightarrow> string \<Rightarrow> string \<Rightarrow> int \<Rightarrow> string" where
  "salted_password H password salt iters = hf_PBKDF2 H password salt iters (hf_Size H)"

lemma proof_step_sent:
  assumes "proof_step data s = (Inr m2, c2)" "CHR '','' \<notin> set (sc_serverNonce s)"
  shows "\<exists>g. read_client_final m2 = Some g \<and> cl_nonce g = sc_serverNonce s \<and>
      cl_binding g = sc_gs2Header s @ (if sc_plus s then cr_ChannelBinding (sc_creds s) else []) \<and>
      sc_authMessage c2 = sc_clientFirst s @ '','' @ data @ '','' @ cl_without_proof g \<and>
      xorBytes (hf_HMAC (sc_hashFunc s) (sc_saltedPwd c2) ''Client Key'')
        (hf_HMAC (sc_hashFunc s) (hf_Sum (sc_hashFunc s) (hf_HMAC (sc_hashFunc s) (sc_saltedPwd c2) ''Client Key'')) (sc_authMessage c2)) =
        Some (cl_proof g) \<and>
      sc_saltedPwd c2 = salted_password (sc_hashFunc s) (cr_Password (sc_creds s)) (sc_salt s) (sc_iterations s) \<and>
      sc_step c2 = 2 \<and> sc_hashFunc c2 = sc_hashFunc s"
proof -
  let ?b = "sc_gs2Header s @ (if sc_plus s then cr_ChannelBinding (sc_creds s) else [])"
  obtain pf where m2: "m2 = (''c='' @ b64_encode ?b @ '',r='' @ sc_serverNonce s) @ '',p='' @ b64_encode pf"
    and pf: "xorBytes (hf_HMAC (sc_hashFunc s) (sc_saltedPwd c2) ''Client Key'')
        (hf_HMAC (sc_hashFunc s) (hf_Sum (sc_hashFunc s) (hf_HMAC (sc_hashFunc s) (sc_saltedPwd c2) ''Client Key'')) (sc_authMessage c2)) =
        Some pf"
    and c2: "sc_authMessage c2 = sc_clientFirst s @ '','' @ data @ '','' @ ''c='' @ b64_encode ?b @ '',r='' @ sc_serverNonce s"
      "sc_saltedPwd c2 = salted_password (sc_hashFunc s) (cr_Password (sc_creds s)) (sc_salt s) (sc_iterations s)"
      "sc_step c2 = 2" "sc_hashFunc c2 = sc_hashFunc s"
    using assms(1) by (auto simp: proof_step_def Let_def salted_password_def split: option.splits)
  have "split_byte (CHR '','') m2 = [''c='' @ b64_encode ?b, ''r='' @ sc_serverNonce s, ''p='' @ b64_encode pf]"
    using split_byte_append [of "CHR '',''" "''c='' @ b64_encode ?b" "''r='' @ sc_serverNonce s @ '',p='' @ b64_encode pf"]
      split_byte_append [of "CHR '',''" "''r='' @ sc_serverNonce s" "''p='' @ b64_encode pf"]
      split_byte_no_sep [of "CHR '',''" "''p='' @ b64_encode pf"] assms(2) b64_encode_no_comma
    by (simp add: m2)
  then have "read_client_final m2 = Some \<lparr>cl_binding = ?b, cl_nonce = sc_serverNonce s, cl_proof = pf,
      cl_without_proof = ''c='' @ b64_encode ?b @ '',r='' @ sc_serverNonce s\<rparr>"
    by (simp add: read_client_final_def attribute_def b64_roundtrip)
  then show ?thesis using pf c2 by simp
qed

text \<open>What a good first message of the server holds, and that the client then sends its proof.\<close>

lemma split_byte_attr_no_comma:
  assumes "parseSCRAMAttributes t k = Some v"
  shows "CHR '','' \<notin> set v"
proof -
  have "\<forall>k v. fold attr_part ps a k = Some v \<longrightarrow> CHR '','' \<notin> set v"
    if "\<forall>p \<in> set ps. CHR '','' \<notin> set p" "\<forall>k v. a k = Some v \<longrightarrow> CHR '','' \<notin> set v" for ps and a :: "string \<rightharpoonup> string"
    using that
  proof (induction ps arbitrary: a)
    case (Cons p ps)
    have inv: "\<forall>k v. attr_part p a k = Some v \<longrightarrow> CHR '','' \<notin> set v"
      using Cons.prems by (auto simp: attr_part_def split: option.splits dest: in_set_dropD)
    have "\<forall>p \<in> set ps. CHR '','' \<notin> set p" using Cons.prems(1) by simp
    from Cons.IH [OF this inv] show ?case by (simp only: fold_simps)
  qed simp
  from this [of "split_byte (CHR '','') t" Map.empty] show ?thesis
    using assms split_byte_parts unfolding parseSCRAMAttributes_def by fastforce
qed

lemma processServerFirst_sent:
  assumes "processServerFirst sf s = (Inr m2, c2)" "sc_iterations s = 0"
  shows "\<exists>nonce salt64 salt i64 iters.
      parseSCRAMAttributes sf ''r'' = Some nonce \<and> prefix (sc_clientNonce s) nonce \<and>
      parseSCRAMAttributes sf ''s'' = Some salt64 \<and> b64_decode salt64 = Some salt \<and>
      parseSCRAMAttributes sf ''i'' = Some i64 \<and> Sscanf_d i64 = Some iters \<and> 0 < iters \<and>
      proof_step sf (s\<lparr>sc_serverNonce := nonce, sc_salt := salt, sc_iterations := iters\<rparr>) = (Inr m2, c2)"
  using assms by (auto simp: processServerFirst_def Let_def split: option.splits if_splits)

lemma scram_Next_step1: "sc_step c = 1 \<Longrightarrow> scram_Next t c = processServerFirst t c"
  and scram_Next_step2: "sc_step c = 2 \<Longrightarrow> scram_Next t c = processServerFinal t c"
  by (simp_all add: scram_Next_def)

lemma proof_step_step: "sc_step (snd (proof_step d s)) = (if is_ok (fst (proof_step d s)) then 2 else sc_step s)"
  by (simp add: proof_step_def Let_def split: option.split)

lemma processServerFirst_step:
  "sc_step (snd (processServerFirst d s)) = (if is_ok (fst (processServerFirst d s)) then 2 else sc_step s)"
  by (simp add: processServerFirst_def Let_def proof_step_step split: option.split)

text \<open>When the final message of the server completes the exchange.\<close>

lemma processServerFinal_completes:
  assumes "sc_step c = 2"
  shows "scram_Completed (snd (scram_Next v c)) \<longleftrightarrow>
    parseSCRAMAttributes v ''e'' = None \<and>
    parseSCRAMAttributes v ''v'' =
      Some (b64_encode (hf_HMAC (sc_hashFunc c) (hf_HMAC (sc_hashFunc c) (sc_saltedPwd c) ''Server Key'') (sc_authMessage c)))"
  using assms by (auto simp: scram_Next_step2 processServerFinal_def Let_def scram_Completed_def split: option.splits)

section \<open>The client authenticates the server\<close>

text \<open>The account data of \<open>hashPasswordSCRAMSHA256\<close>, in the terms of the RFC.\<close>

definition server_key :: "hash_fn \<Rightarrow> string \<Rightarrow> string \<Rightarrow> int \<Rightarrow> string" where
  "server_key H password salt iters = hf_HMAC H (salted_password H password salt iters) ''Server Key''"

lemma account_data:
  assumes "hashPasswordSCRAMSHA256 H (Some r) password iters = Some acc"
  shows "\<exists>salt. acc = (b64_encode salt, iters, b64_encode (hf_Sum H (hf_HMAC H (salted_password H password salt iters) ''Client Key'')),
     b64_encode (server_key H password salt iters))"
  using assms by (auto simp: hashPasswordSCRAMSHA256_def Let_def server_key_def salted_password_def)

text \<open>
  C30: the client authenticates the server.  Let a peer answer the first message of a client by any text for
  which the client goes on.  Then the two messages the client has sent are, by the grammar of RFC 5802, one of
  a user and a nonce and one with a nonce that continues it, and the peer has named a salt and a number of
  iterations.  A further message completes the exchange exactly when it reports no error and its verifier is
  the signature, with the server key of the client's password under that salt and number, of what was said:
  the first message without its GS2 header, the peer's text, and the final message without its proof.  For an
  account that \<open>hashPasswordSCRAMSHA256\<close> made of the password with this salt and number, that key is the one
  the account holds.  No message completes the exchange earlier.
\<close>

theorem SCRAM_authenticates_server:
  assumes "scram_Start rnd (newSCRAM creds name H isPlus) = (Inr m1, c1)" and "scram_Next sf c1 = (Inr m2, c2)"
    and "CHR '','' \<notin> set (cr_CBType creds)"
  shows "\<exists>f g salt64 salt i64 iters.
    read_client_first m1 = Some f \<and> read_client_final m2 = Some g \<and> cf_user f = cr_Username creds \<and>
    prefix (cf_nonce f) (cl_nonce g) \<and> parseSCRAMAttributes sf ''r'' = Some (cl_nonce g) \<and>
    parseSCRAMAttributes sf ''s'' = Some salt64 \<and> b64_decode salt64 = Some salt \<and>
    parseSCRAMAttributes sf ''i'' = Some i64 \<and> Sscanf_d i64 = Some iters \<and> 0 < iters \<and>
    (\<forall>v. scram_Completed (snd (scram_Next v c2)) \<longleftrightarrow>
       parseSCRAMAttributes v ''e'' = None \<and>
       parseSCRAMAttributes v ''v'' =
         Some (b64_encode (hf_HMAC H (server_key H (cr_Password creds) salt iters)
           (cf_bare f @ '','' @ sf @ '','' @ cl_without_proof g)))) \<and>
    (\<forall>r acc. hashPasswordSCRAMSHA256 H (Some r) (cr_Password creds) iters = Some acc \<and> b64_decode (fst acc) = Some salt \<longrightarrow>
       b64_decode (snd (snd (snd acc))) = Some (server_key H (cr_Password creds) salt iters)) \<and>
    (\<forall>v. \<not> scram_Completed (snd (scram_Next v c1)))"
proof -
  let ?f = "sent_first creds isPlus (generateNonce rnd)"
  note c1 = scram_Start_sent [OF assms(1), unfolded Let_def]
  have f: "read_client_first m1 = Some ?f"
    using c1 read_sent_first [OF assms(3) generateNonce_no_comma] by simp
  from assms(2) c1 have "processServerFirst sf c1 = (Inr m2, c2)" "sc_iterations c1 = 0" by (simp_all add: scram_Next_step1)
  from processServerFirst_sent [OF this] obtain nonce salt64 salt i64 iters where
    sf: "parseSCRAMAttributes sf ''r'' = Some nonce" "prefix (sc_clientNonce c1) nonce"
      "parseSCRAMAttributes sf ''s'' = Some salt64" "b64_decode salt64 = Some salt"
      "parseSCRAMAttributes sf ''i'' = Some i64" "Sscanf_d i64 = Some iters" "0 < iters"
      and p: "proof_step sf (c1\<lparr>sc_serverNonce := nonce, sc_salt := salt, sc_iterations := iters\<rparr>) = (Inr m2, c2)"
    by blast
  from proof_step_sent [OF p] split_byte_attr_no_comma [OF sf(1)] obtain g where
    g: "read_client_final m2 = Some g" "cl_nonce g = nonce" "sc_step c2 = 2" "sc_hashFunc c2 = H"
      "sc_authMessage c2 = cf_bare ?f @ '','' @ sf @ '','' @ cl_without_proof g"
      "sc_saltedPwd c2 = salted_password H (cr_Password creds) salt iters"
    using c1 by auto
  have key: "b64_decode (snd (snd (snd acc))) = Some (server_key H (cr_Password creds) salt iters)"
    if "hashPasswordSCRAMSHA256 H (Some r) (cr_Password creds) iters = Some acc \<and> b64_decode (fst acc) = Some salt" for r acc
    using that account_data [of H r "cr_Password creds" iters acc] by (auto simp: b64_roundtrip)
  have early: "\<not> scram_Completed (snd (scram_Next v c1))" for v
    using c1 processServerFirst_step [of v c1] by (simp add: scram_Next_step1 scram_Completed_def)
  have final: "scram_Completed (snd (scram_Next v c2)) \<longleftrightarrow> parseSCRAMAttributes v ''e'' = None \<and>
      parseSCRAMAttributes v ''v'' = Some (b64_encode (hf_HMAC H (server_key H (cr_Password creds) salt iters)
        (cf_bare ?f @ '','' @ sf @ '','' @ cl_without_proof g)))" for v
    unfolding processServerFinal_completes [OF g(3)] g(4-6) server_key_def ..
  have nonce: "prefix (cf_nonce ?f) (cl_nonce g)" "cf_user ?f = cr_Username creds"
    using sf(2) c1 g(2) by (simp_all add: sent_first_def Let_def)
  show ?thesis
    using f g(1,2) nonce sf(1,3-7) key early final by blast
qed

section \<open>The exchange completes\<close>

lemma parse_server_first:
  assumes "CHR '','' \<notin> set nonce" "CHR '','' \<notin> set salt"
  shows "parseSCRAMAttributes (server_first (salt, iters, stk, svk) nonce) =
    [''r'' \<mapsto> nonce, ''s'' \<mapsto> salt, ''i'' \<mapsto> print_nat (nat iters)]"
  using assms by (simp add: parse_attrs print_nat_no_comma)

lemma processServerFirst_ok:
  assumes "prefix (sc_clientNonce s) nonce" "CHR '','' \<notin> set nonce" "0 < iters" "iters < 2 ^ 63"
  shows "processServerFirst (server_first (b64_encode salt, iters, stk, svk) nonce) s =
    proof_step (server_first (b64_encode salt, iters, stk, svk) nonce)
      (s\<lparr>sc_serverNonce := nonce, sc_salt := salt, sc_iterations := iters\<rparr>)"
proof -
  have "Sscanf_d (print_nat (nat iters)) = Some iters" using assms(3,4) by (simp add: Sscanf_print nat_less_iff)
  then show ?thesis
    using assms parse_server_first [OF assms(2) b64_encode_no_comma, of salt iters stk svk]
    by (simp add: processServerFirst_def b64_roundtrip del: server_first.simps)
qed

lemma proof_step_total: "hash_ok (sc_hashFunc s) \<Longrightarrow> \<exists>m2 c2. proof_step data s = (Inr m2, c2)"
proof -
  assume "hash_ok (sc_hashFunc s)"
  then have "length (hf_HMAC (sc_hashFunc s) k d) = length (hf_HMAC (sc_hashFunc s) k' d')" for k d k' d'
    by (simp add: hash_ok_def)
  then have "(xorBytes (hf_HMAC (sc_hashFunc s) k d) (hf_HMAC (sc_hashFunc s) k' d') = None) = False" for k d k' d'
    by (metis xorBytes_total option.distinct(1))
  then show ?thesis by (simp add: proof_step_def Let_def del: not_None_eq split: option.split)
qed

text \<open>The proof of the client satisfies the server that holds the account data of its password.\<close>

lemma proof_accepted:
  assumes "hash_ok H"
    and "xorBytes (hf_HMAC H pwd ''Client Key'') (hf_HMAC H (hf_Sum H (hf_HMAC H pwd ''Client Key'')) auth) = Some pf"
  shows "proof_ok H (salt64, iters, b64_encode (hf_Sum H (hf_HMAC H pwd ''Client Key'')), svk) auth pf"
proof -
  have "length (hf_HMAC H pwd ''Client Key'') = length (hf_HMAC H (hf_Sum H (hf_HMAC H pwd ''Client Key'')) auth)"
    using assms(1) by (simp add: hash_ok_def)
  from xorBytes_involutive [OF this assms(2)] show ?thesis by (simp add: b64_roundtrip)
qed

text \<open>The messages of an exchange up to the proof; \<open>sl\<close> is the salt of the account.\<close>

lemma exchange_proof:
  assumes "hash_ok H" "0 < iters" "iters < 2 ^ 63" "CHR '','' \<notin> set ext" "isPlus \<Longrightarrow> cr_ChannelBinding creds \<noteq> []"
  shows "\<exists>m1 c1 m2 c2. scram_Start rnd (newSCRAM creds name H isPlus) = (Inr m1, c1) \<and>
    scram_Next (server_first (b64_encode sl, iters, stk, svk) (generateNonce rnd @ ext)) c1 = (Inr m2, c2) \<and>
    proof_step (server_first (b64_encode sl, iters, stk, svk) (generateNonce rnd @ ext))
      (c1\<lparr>sc_serverNonce := generateNonce rnd @ ext, sc_salt := sl, sc_iterations := iters\<rparr>) = (Inr m2, c2)"
proof -
  from assms(5) obtain m1 c1 where start: "scram_Start rnd (newSCRAM creds name H isPlus) = (Inr m1, c1)"
    by (auto simp: scram_Start_def newSCRAM_def Let_def)
  note c1 = scram_Start_sent [OF start, unfolded Let_def]
  let ?nonce = "generateNonce rnd @ ext"
  let ?s1 = "server_first (b64_encode sl, iters, stk, svk) ?nonce"
    and ?c = "c1\<lparr>sc_serverNonce := ?nonce, sc_salt := sl, sc_iterations := iters\<rparr>"
  have "hash_ok (sc_hashFunc ?c)" using assms(1) c1 by simp
  then obtain m2 c2 where p: "proof_step ?s1 ?c = (Inr m2, c2)" using proof_step_total by blast
  have "CHR '','' \<notin> set ?nonce" using assms(4) generateNonce_no_comma by simp
  then have "scram_Next ?s1 c1 = (Inr m2, c2)"
    using processServerFirst_ok [of c1 ?nonce iters sl] assms(2,3) c1 p
    by (simp add: scram_Next_step1 del: server_first.simps)
  with start p show ?thesis by blast
qed

text \<open>
  C29: SCRAM completes.  A server that follows RFC 5802 has for the user name of a client the account data that
  \<open>hashPasswordSCRAMSHA256\<close> derives from the client's password; with channel binding, the type and the data the
  client has are those of the connection.  Then, whatever nonces both draw, the first message of the client is
  accepted, its final message passes every check of the server (binding of the channel and GS2 header, nonce
  and proof), and the verifier the server answers with completes the mechanism of the client.
\<close>

theorem SCRAM_exchange:
  assumes "hash_ok H" and "hashPasswordSCRAMSHA256 H (Some salt) (cr_Password creds) iters = Some acc"
    and "rs_users S (cr_Username creds) = Some acc" and "0 < iters" "iters < 2 ^ 63" and "CHR '','' \<notin> set ext"
    and "isPlus \<Longrightarrow> rs_binding S = Some (cr_CBType creds, cr_ChannelBinding creds) \<and> cr_ChannelBinding creds \<noteq> []"
    and "CHR '','' \<notin> set (cr_CBType creds)"
  shows "\<exists>m1 c1 s1 m2 c2 s2 c3.
    scram_Start rnd (newSCRAM creds name H isPlus) = (Inr m1, c1) \<and> rfc_first S ext m1 = Some s1 \<and>
    scram_Next s1 c1 = (Inr m2, c2) \<and> rfc_final H S ext m1 m2 = Some s2 \<and>
    scram_Next s2 c2 = (Inr [], c3) \<and> scram_Completed c3"
proof -
  let ?f = "sent_first creds isPlus (generateNonce rnd)" and ?nonce = "generateNonce rnd @ ext"
  obtain sl where acc: "acc = (b64_encode sl, iters,
      b64_encode (hf_Sum H (hf_HMAC H (salted_password H (cr_Password creds) sl iters) ''Client Key'')),
      b64_encode (server_key H (cr_Password creds) sl iters))"
    using account_data [OF assms(2)] by blast
  let ?s1 = "server_first acc ?nonce"
  obtain m1 c1 m2 c2 where start: "scram_Start rnd (newSCRAM creds name H isPlus) = (Inr m1, c1)"
    and second: "scram_Next ?s1 c1 = (Inr m2, c2)"
    and p: "proof_step ?s1 (c1\<lparr>sc_serverNonce := ?nonce, sc_salt := sl, sc_iterations := iters\<rparr>) = (Inr m2, c2)"
    using exchange_proof [OF assms(1,4,5,6), of isPlus creds rnd name sl] assms(7) unfolding acc by blast
  note c1 = scram_Start_sent [OF start, unfolded Let_def]
  have f: "read_client_first m1 = Some ?f"
    using c1 read_sent_first [OF assms(8) generateNonce_no_comma] by simp
  have fs: "cf_user ?f = cr_Username creds" "cf_nonce ?f = generateNonce rnd"
    "channel_data (rs_binding S) (cf_flag ?f) = Some (if isPlus then cr_ChannelBinding creds else [])"
    using assms(7) by (auto simp: sent_first_def Let_def channel_data_def)
  have first: "rfc_first S ext m1 = Some ?s1"
    using f fs assms(3) by (simp add: rfc_first_def)
  have nonce: "CHR '','' \<notin> set ?nonce" using assms(6) generateNonce_no_comma by simp
  from proof_step_sent [OF p] nonce obtain g where
    g: "read_client_final m2 = Some g" "cl_nonce g = ?nonce" "sc_step c2 = 2" "sc_hashFunc c2 = H"
      "cl_binding g = cf_gs2 ?f @ (if isPlus then cr_ChannelBinding creds else [])"
      "sc_authMessage c2 = cf_bare ?f @ '','' @ ?s1 @ '','' @ cl_without_proof g"
      "sc_saltedPwd c2 = salted_password H (cr_Password creds) sl iters"
      "xorBytes (hf_HMAC H (sc_saltedPwd c2) ''Client Key'')
        (hf_HMAC H (hf_Sum H (hf_HMAC H (sc_saltedPwd c2) ''Client Key'')) (sc_authMessage c2)) = Some (cl_proof g)"
    using c1 by auto
  have "proof_ok H acc (sc_authMessage c2) (cl_proof g)"
    using proof_accepted [OF assms(1) g(8)] unfolding acc g(7) .
  then have final: "rfc_final H S ext m1 m2 = server_final H acc (sc_authMessage c2)"
    using f fs g(1,2,5,6) assms(3) by (simp add: rfc_final_def Let_def del: server_first.simps proof_ok.simps)
  let ?s2 = "''v='' @ b64_encode (hf_HMAC H (server_key H (cr_Password creds) sl iters) (sc_authMessage c2))"
  have s2: "server_final H acc (sc_authMessage c2) = Some ?s2" by (simp add: acc b64_roundtrip)
  have "scram_Next ?s2 c2 = (Inr [], c2\<lparr>sc_step := 3\<rparr>)"
    using g(3,4,7) by (simp add: scram_Next_step2 processServerFinal_def Let_def server_key_def parse_attrs b64_encode_no_comma)
  then show ?thesis
    using start first second final s2 by (auto simp: scram_Completed_def)
qed

section \<open>One exchange\<close>

definition toy_account :: scram_account where
  "toy_account = the (hashPasswordSCRAMSHA256 toy_hash (Some ''some salt'') ''pencil'' 4096)"

definition toy_creds :: Credentials where
  "toy_creds = \<lparr>cr_Username = ''us=er,1'', cr_Password = ''pencil'', cr_AuthzID = [], cr_ChannelBinding = ''tls data'',
     cr_CBType = ''tls-exporter''\<rparr>"

definition toy_server :: scram_server where
  "toy_server = \<lparr>rs_users = [''us=er,1'' \<mapsto> toy_account], rs_binding = Some (''tls-exporter'', ''tls data'')\<rparr>"

lemma toy_account_derived:
  "hashPasswordSCRAMSHA256 toy_hash (Some ''some salt'') (cr_Password toy_creds) 4096 = Some toy_account"
  by (simp add: toy_account_def toy_creds_def hashPasswordSCRAMSHA256_def Let_def)

theorem SCRAM_exchange_witness:
  "\<exists>m1 c1 s1 m2 c2 s2 c3.
    scram_Start ''random'' (newSCRAM toy_creds ''SCRAM-SHA-256-PLUS'' toy_hash True) = (Inr m1, c1) \<and>
    rfc_first toy_server ''3rfc'' m1 = Some s1 \<and> scram_Next s1 c1 = (Inr m2, c2) \<and>
    rfc_final toy_hash toy_server ''3rfc'' m1 m2 = Some s2 \<and> scram_Next s2 c2 = (Inr [], c3) \<and> scram_Completed c3"
  by (rule SCRAM_exchange [OF toy_hash_ok toy_account_derived]) (simp_all add: toy_creds_def toy_server_def)

text \<open>A client without channel binding: what completes its exchange is one signature, and not an empty message.\<close>

theorem SCRAM_authenticates_server_witness:
  "\<exists>m1 c1 sf m2 c2. scram_Start ''random'' (newSCRAM toy_creds ''SCRAM-SHA-256'' toy_hash False) = (Inr m1, c1) \<and>
     scram_Next sf c1 = (Inr m2, c2) \<and> \<not> scram_Completed (snd (scram_Next [] c2)) \<and> (\<exists>v. scram_Completed (snd (scram_Next v c2)))"
proof -
  obtain m1 c1 sf m2 c2 where start: "scram_Start ''random'' (newSCRAM toy_creds ''SCRAM-SHA-256'' toy_hash False) = (Inr m1, c1)"
    and second: "scram_Next sf c1 = (Inr m2, c2)"
    using exchange_proof [OF toy_hash_ok, of 4096 "''3rfc''" False toy_creds "''random''" "''SCRAM-SHA-256''" "''salt''" "[]" "[]"] by auto
  have "CHR '','' \<notin> set (cr_CBType toy_creds)" by (simp add: toy_creds_def)
  from SCRAM_authenticates_server [OF start second this] obtain sig where
    sig: "\<And>v. scram_Completed (snd (scram_Next v c2)) \<longleftrightarrow>
      parseSCRAMAttributes v ''e'' = None \<and> parseSCRAMAttributes v ''v'' = Some (b64_encode sig)"
    by blast
  have "parseSCRAMAttributes (''v='' @ b64_encode sig) = [''v'' \<mapsto> b64_encode sig]"
    by (simp add: parse_attrs b64_encode_no_comma)
  then have "scram_Completed (snd (scram_Next (''v='' @ b64_encode sig) c2))" unfolding sig by simp
  moreover have "parseSCRAMAttributes [] ''v'' = None" by (simp add: parseSCRAMAttributes_def attr_part_def)
  then have "\<not> scram_Completed (snd (scram_Next [] c2))" unfolding sig by simp
  ultimately show ?thesis using start second by blast
qed

end
