(* ===== verification/Spec2Isabelle.thy ===== *)
theory Spec2Isabelle
  imports Jid PluginManager OmemoManager StorageRefinement XmppdProps RegisterFlowProps StoragePlugins StreamManagement
    Server StorageRedisProps StorageMongoProps StorageTables XmppdConfig Discovery TimeProfiles SaslExchange
begin

text \<open>
  A verification of xmpp-go, a Go library for XMPP with a server program.  This theory only brings the others
  together; each of them opens with what it holds.  The statements that are meant to be read are the theorems
  C1 to C40, each behind a text that says what it means for the code.

  \<^bold>\<open>The program.\<close>  Addresses (src/jid) are in every other part.  Stanzas (src/stanza), stream headers (src/stream)
  and SASL mechanisms (src/sasl) are what goes over a connection; connections are made by the dialer (src/dial)
  and wrapped by the transports (src/transport).  A session (src/session.go) reads stanzas from a transport and
  hands them to a multiplexer (src/mux.go, src/middleware.go); stream features and which of them
  a state offers are src/features.go, src/negotiator.go, src/starttls.go, src/auth.go and src/bind.go (the function
  that is to drive their negotiation is a placeholder in the code).  Client, component and server
  (src/client.go, src/component.go, src/server.go) own sessions, and plugins that a manager (src/plugin) starts
  and stops in the order of their dependencies.  Plugins (src/plugins) keep data in a store when there is one;
  the store interfaces (src/storage) have several implementations, of which the in-memory, the file, the
  Redis and the MongoDB store are here.  End-to-end encryption is src/crypto/omemo.  The program src/cmd/xmppd serves streams,
  routes stanzas between sessions and registers accounts; src/plugins/register/flow.go is the client of that
  registration.

  \<^bold>\<open>Theories.\<close>  A definition has the name of the function or type it translates, with a prefix where several
  packages use the same name (\<open>jid_Parse\<close>, \<open>file_GetUser\<close>, \<open>redis_GetUser\<close>, \<open>server_Close\<close>).

  \<^item> \<open>Prelude\<close>, \<open>GoText\<close>: results of fallible functions (\<open>Inl\<close> the error), Go strings as byte strings, maps
  and the orders in which Go may range over them (\<open>enumerates\<close>), base64, decimal numbers, splitting.

  \<^item> \<open>Jid\<close> (jid.go): parsing, printing, escaping (C1, C2).

  \<^item> \<open>PluginManager\<close> (plugin/manager.go): the dependency sort for every order of the map loops (C3, C4), and
  that plugins start behind their dependencies and stop in reverse.

  \<^item> \<open>OmemoKeys\<close>, \<open>OmemoRatchet\<close>, \<open>OmemoStore\<close>, \<open>OmemoConversation\<close>, \<open>OmemoSession\<close>, \<open>OmemoManager\<close>
  (crypto/omemo/*.go): key derivation, the double ratchet with the state it leaves on every error path, stores
  as the locales \<open>omemo_store\<close> and \<open>reliable_store\<close>, X3DH, serialisation, the manager (C7, C9 to C13, C16, C19).

  \<^item> \<open>StorageTypes\<close>, \<open>StorageMemory\<close>, \<open>StorageProps\<close> (storage/*.go, storage/memory): the records, the contracts
  of the interfaces as the locales \<open>keyed_store\<close>, \<open>upsert_store\<close> and \<open>create_store\<close>, the in-memory store as
  an instance, and what it promises (C22, C24; accounts are \<open>memory_accounts\<close>).  \<open>StorageTables\<close> is the
  specification of the store: the effect of each call on plain tables and the reply they determine, which every
  run of the in-memory store follows (C20).

  \<^item> \<open>StorageFile\<close>, \<open>StorageCalls\<close>, \<open>StorageRefinement\<close> (storage/file): the store on a model of its directories;
  a call of any method of the nine interfaces as data, runs of a store, the locale \<open>store_simulation\<close>; the file
  store refines the in-memory store on names that have files of their own, and what happens on others
  (C37, C38).

  \<^item> \<open>StorageRedis\<close>, \<open>StorageRedisServer\<close>, \<open>StorageRedisRefinement\<close>, \<open>StorageRedisProps\<close> (storage/redis): the store
  as programs of Redis commands; what a server promises (\<open>redis_serves\<close>); the refinement of the in-memory store
  (C15), a server written out for which it can be evaluated, and what the two stores do differently.

  \<^item> \<open>StorageMongo\<close>, \<open>StorageMongoServer\<close>, \<open>StorageMongoRefinement\<close>, \<open>StorageMongoProps\<close> (storage/mongodb): the
  store as programs of MongoDB commands on documents; what a server promises (\<open>responds\<close>, \<open>mongo_serves\<close>); the
  locale \<open>collection\<close> of a collection that holds a table, interpreted on each of the eleven tables; the
  refinement of the in-memory store (C21), the pages of the archive, a server written out, and what the two
  stores do differently.  \<open>StorageRuns\<close> has the runs on which the stores are compared.

  \<^item> \<open>StoragePlugins\<close> (plugins/roster, blocking, muc, bookmarks, vcard, mam, pubsub): the plugins over any store;
  with a store they answer as without one (C40).  \<open>StreamManagement\<close> (plugins/sm): counters at their 32 bits and
  the queue of unacknowledged stanzas (C23).  \<open>Discovery\<close> (plugins/disco, caps, hash, presence, rsm, version,
  styling, omemo): the announced capabilities determine and are determined by what was added (C28), and are those of
  XEP-0115 under a condition on language tags that is needed.  \<open>TimeProfiles\<close> (plugins/time, delay): the calendar,
  formatting and parsing (C17).

  \<^item> \<open>Stanza\<close>, \<open>Mux\<close>, \<open>SessionState\<close> (stanza/*.go, handler.go, middleware.go, mux.go, session.go, features.go,
  negotiator.go, starttls.go, auth.go, bind.go): dispatch and panics (C25, C26), the flags of a session under
  concurrent calls as a step relation on loads and swaps (C27), which features a state offers.

  \<^item> \<open>Sasl\<close> (sasl/*.go): every mechanism.  \<open>SaslExchange\<close>: the SCRAM mechanisms against the server side of RFC
  5802, which is a specification written from the RFC (it parses the client's messages by their grammar and checks
  channel binding, nonce and proof) and no code of the repository (C29, C30).  \<open>XmppStream\<close>
  (stream/*.go): headers and errors as they are written.

  \<^item> \<open>Connections\<close>, \<open>Client\<close>, \<open>Server\<close> (transport/*.go, dial/*.go, client*.go, component.go, server*.go): the order
  in which addresses are tried (C6), the life of a client (C5), and the accept loop, the connections and the
  callers of \<open>Close\<close> as one interleaved step relation (C18).

  \<^item> \<open>XmppdRouter\<close>, \<open>XmppdRegistration\<close>, \<open>XmppdStream\<close>, \<open>XmppdProps\<close> (cmd/xmppd): the routing table (C31), the
  rate limiter and the registration handler (C32, C33), and the server as a step relation over any number of
  sessions, with its invariant by rule induction (C34 to C36).  \<open>XmppdConfig\<close> (config.go, plugins.go, main.go): the
  configuration from the environment, the default accounts in the in-memory and the file store (C8), and which lists of plugins start (C14).
  \<open>RegisterFlow\<close>, \<open>RegisterFlowProps\<close>
  (plugins/register/flow.go): the client flow, composed with the handler of the server (C39).

  \<^bold>\<open>State and steps.\<close>  A struct is a record with its fields, an enumeration or a set of error values a datatype,
  a method a function that returns the changed state.  A mutex that a method holds from its first to its last
  line makes the method one step; where code is not protected, or deliberately interleaves, the steps are
  smaller: a load and a swap in \<open>SetState\<close>, a critical section in the server, the handling of one element in
  xmppd.  The elements of different sessions of xmppd interleave, the handling of one is not interrupted.  A
  method of the Redis and MongoDB stores sends several commands, one after the other; it is one step of a run of
  the store, so other clients of the database do not come in between.  The server theorems leave out a peer
  address that comes back before its old connection is forgotten.  A pointer that is shared is a position in a list of objects
  (sessions in \<open>Client\<close> and \<open>Server\<close>).  Errors are values, with every early return a branch; run-time panics are
  values too where data can cause them (\<open>Panicked\<close>).  Fixed-width counters are words.

  \<^bold>\<open>Loops and bounds.\<close>  All functions are total but \<open>kahn_loop\<close>, a partial function whose value \<open>None\<close> would be a
  loop that does not end; C3 includes that it ends.  Loops that read from a connection run over the list of
  events it delivers, and an exhausted list is the state of waiting.  The walk through an archive takes a number
  of pages as fuel; C24 shows that one page more than there are messages is enough.  The constant 1000 of the ratchet
  (\<open>maxSkippedKeys\<close>) appears in C10 and C11 as the hypothesis that no more messages than that are outstanding, and
  C13 is about what happens at the limit.

  \<^bold>\<open>What is a parameter.\<close>  Code that is not in the repository is an argument of the definitions: the crypto
  packages (\<open>crypto\<close>, \<open>hash_fn\<close>; hypotheses are the laws of the RFCs), the network and TLS (\<open>net_ops\<close>,
  \<open>dial_ops\<close>), the Redis and MongoDB servers, the random source, the clock, map orders, and the reflective part of
  encoding/xml, which in C39 carries texts from one struct to the other as they are (in the program characters
  that XML does not allow become U+FFFD).  JSON in files and in Redis is the value that was encoded: a value that is written is read back
  as it was (in the program invalid UTF-8 becomes U+FFFD, and times beyond the year 9999 are not written).  Every theorem with such a hypothesis has a witness in which the parameter is a function that is
  written out.

  \<^bold>\<open>Not modelled.\<close>  The SQL stores (storage/sql, sqlite, mysql, postgres), whose behaviour is that of statements in
  the text of another language, interpreted by three different engines: modelling them would mean to make up the
  meaning of that language in each.  The wrappers of the XML coders (xml), which only pass calls on.  Plugins that only
  declare the structs of an XML element and their name.  Of the start-up of the server program the generation of
  a certificate and the signals; the test suite for stores, logging, and the texts of errors where nothing
  depends on them.
\<close>

end
